(* ===== verification/Prelude.thy ===== *)
theory Prelude
  imports Main "HOL-Library.Word"
begin

text \<open>
  Shared vocabulary of the development: Rust's unsigned machine integers as words of their
  width, its saturating and checked operations, the casts between widths, and the generic
  facts on them, on lists and on options that the component theories rest on.

  Arithmetic lemmas go into two collections.  \<open>u_simps\<close> reads the machine operations as
  operations on \<open>nat\<close> (through \<open>unat\<close>) and turns word comparisons into \<open>nat\<close>
  comparisons; \<open>checked_iff\<close> characterises when a checked operation succeeds.
\<close>

named_theorems u_simps "machine operations and comparisons read as naturals"
named_theorems checked_iff "success and failure of the checked operations"

type_synonym u8 = "8 word"
type_synonym u32 = "32 word"
type_synonym u64 = "64 word"
type_synonym u128 = "128 word"

section \<open>Saturating and checked arithmetic\<close>

text \<open>\<open>uN::MAX\<close>; Rust's \<open>saturating_*\<close> and \<open>checked_*\<close> methods, at any width.\<close>

abbreviation u_max :: "'a::len word" where
  "u_max \<equiv> - 1"

definition sat_add :: "'a::len word \<Rightarrow> 'a word \<Rightarrow> 'a word" where
  "sat_add a b = (if unat a + unat b < 2 ^ LENGTH('a) then a + b else u_max)"

definition sat_sub :: "'a::len word \<Rightarrow> 'a word \<Rightarrow> 'a word" where
  "sat_sub a b = (if b \<le> a then a - b else 0)"

definition sat_mul :: "'a::len word \<Rightarrow> 'a word \<Rightarrow> 'a word" where
  "sat_mul a b = (if unat a * unat b < 2 ^ LENGTH('a) then a * b else u_max)"

definition checked_add :: "'a::len word \<Rightarrow> 'a word \<Rightarrow> 'a word option" where
  "checked_add a b = (if unat a + unat b < 2 ^ LENGTH('a) then Some (a + b) else None)"

definition checked_sub :: "'a::len word \<Rightarrow> 'a word \<Rightarrow> 'a word option" where
  "checked_sub a b = (if b \<le> a then Some (a - b) else None)"

definition checked_mul :: "'a::len word \<Rightarrow> 'a word \<Rightarrow> 'a word option" where
  "checked_mul a b = (if unat a * unat b < 2 ^ LENGTH('a) then Some (a * b) else None)"

definition checked_div :: "'a::len word \<Rightarrow> 'a word \<Rightarrow> 'a word option" where
  "checked_div a b = (if b = 0 then None else Some (a div b))"

definition div_ceil :: "'a::len word \<Rightarrow> 'a word \<Rightarrow> 'a word" where
  \<comment> \<open>Rust's \<open>div_ceil\<close>: the quotient, plus one when the remainder is not zero\<close>
  "div_ceil a b = (if a mod b = 0 then a div b else a div b + 1)"

abbreviation as_u128 :: "u64 \<Rightarrow> u128" where
  "as_u128 \<equiv> ucast"

abbreviation as_u64 :: "u128 \<Rightarrow> u64" where
  \<comment> \<open>a narrowing \<open>as\<close> cast keeps the low 64 bits\<close>
  "as_u64 \<equiv> ucast"

declare word_le_nat_alt [u_simps] word_less_nat_alt [u_simps]

lemma unat_u_max [u_simps, simp]: "unat (u_max :: 'a::len word) = 2 ^ LENGTH('a) - Suc 0"
  by (simp add: unsigned_minus_1_eq_mask mask_eq_exp_minus_1)

lemma unat_lt: "unat (a :: 'a::len word) < 2 ^ LENGTH('a)"
  by (rule unsigned_less)

lemma unat_le_max: "unat (a :: 'a::len word) \<le> 2 ^ LENGTH('a) - Suc 0"
  using unat_lt [of a] by linarith

lemma min_unat_max [simp]: "min (unat (a :: 'a::len word)) (2 ^ LENGTH('a) - Suc 0) = unat a"
  using unat_le_max [of a] by (rule min_absorb1)

lemma unat_sat_add [u_simps]:
  "unat (sat_add a b) = min (unat a + unat b) (2 ^ LENGTH('a) - Suc 0)" for a b :: "'a::len word"
  by (auto simp: sat_add_def unat_word_ariths min_def)

lemma unat_sat_sub [u_simps]: "unat (sat_sub a b) = unat a - unat b" for a b :: "'a::len word"
  by (auto simp: sat_sub_def unat_sub word_le_nat_alt)

lemma unat_sat_mul [u_simps]:
  "unat (sat_mul a b) = min (unat a * unat b) (2 ^ LENGTH('a) - Suc 0)" for a b :: "'a::len word"
proof (cases "unat a * unat b < 2 ^ LENGTH('a)")
  case True
  then have "unat (a * b) = unat a * unat b" by (simp add: unat_word_ariths)
  moreover from True have "unat a * unat b \<le> 2 ^ LENGTH('a) - Suc 0" by linarith
  ultimately show ?thesis using True by (metis sat_mul_def min_absorb1)
next
  case False
  then have "2 ^ LENGTH('a) - Suc 0 \<le> unat a * unat b" by linarith
  then have "min (unat a * unat b) (2 ^ LENGTH('a) - Suc 0) = 2 ^ LENGTH('a) - Suc 0"
    by (rule min_absorb2)
  moreover from False have "sat_mul a b = u_max" by (metis sat_mul_def)
  ultimately show ?thesis by (metis unat_u_max)
qed

lemma checked_add_Some [checked_iff]:
  "checked_add a b = Some c \<longleftrightarrow> unat c = unat a + unat b" for a b :: "'a::len word"
proof -
  have "unat (a + b) = unat a + unat b" if "unat a + unat b < 2 ^ LENGTH('a)"
    using that by (simp add: unat_word_ariths)
  moreover have "unat a + unat b < 2 ^ LENGTH('a)" if "unat c = unat a + unat b"
    using that unat_lt [of c] by simp
  ultimately show ?thesis
    by (auto simp: checked_add_def word_unat_eq_iff)
qed

lemma checked_add_None [checked_iff]:
  "checked_add a b = None \<longleftrightarrow> 2 ^ LENGTH('a) \<le> unat a + unat b" for a b :: "'a::len word"
  by (auto simp: checked_add_def)

lemma checked_sub_Some [checked_iff]:
  "checked_sub a b = Some c \<longleftrightarrow> unat a = unat b + unat c" for a b :: "'a::len word"
  by (auto simp: checked_sub_def word_unat_eq_iff unat_sub word_le_nat_alt)

lemma checked_sub_None [checked_iff]:
  "checked_sub a b = None \<longleftrightarrow> unat a < unat b" for a b :: "'a::len word"
  by (auto simp: checked_sub_def word_le_nat_alt)

lemma checked_mul_Some [checked_iff]:
  "checked_mul a b = Some c \<longleftrightarrow> unat c = unat a * unat b" for a b :: "'a::len word"
proof -
  have "unat (a * b) = unat a * unat b" if "unat a * unat b < 2 ^ LENGTH('a)"
    using that by (simp add: unat_word_ariths)
  moreover have "unat a * unat b < 2 ^ LENGTH('a)" if "unat c = unat a * unat b"
    using that unat_lt [of c] by simp
  ultimately show ?thesis
    by (auto simp: checked_mul_def word_unat_eq_iff)
qed

lemma checked_mul_None [checked_iff]:
  "checked_mul a b = None \<longleftrightarrow> 2 ^ LENGTH('a) \<le> unat a * unat b" for a b :: "'a::len word"
  by (auto simp: checked_mul_def)

lemma sat_add_0_right [simp]: "sat_add a 0 = a"
  by (simp add: sat_add_def)

lemma sat_sub_self [simp]: "sat_sub a a = 0"
  by (simp add: sat_sub_def)

lemma le_sat_add: "a \<le> sat_add a b"
  using unat_le_max [of a] by (simp add: u_simps)

lemma sat_sub_le: "sat_sub a b \<le> a"
  by (simp add: u_simps)

section \<open>Widening and narrowing\<close>

lemma unat_as_u64: "unat (as_u64 b) = unat b mod 2 ^ 64"
  by (simp add: unsigned_ucast_eq take_bit_eq_mod)

lemma unat_as_u128 [u_simps, simp]: "unat (as_u128 a) = unat a"
proof -
  have "unat a < 2 ^ 128"
    using unat_lt [of a] by simp
  then show ?thesis by (simp add: unsigned_ucast_eq take_bit_eq_mod)
qed

lemma unat_as_u64_small: "unat b < 2 ^ 64 \<Longrightarrow> unat (as_u64 b) = unat b"
  by (simp add: unat_as_u64)

lemma u64_mult_less: "unat (a::u64) * unat (b::u64) < 2 ^ 128"
proof -
  have "unat a * unat b < (2 ^ 64) * (2 ^ 64)"
    using unat_lt [of a] unat_lt [of b] by (intro mult_strict_mono) auto
  then show ?thesis by simp
qed

lemma unat_u128_mult [u_simps]: "unat (as_u128 a * as_u128 b) = unat a * unat b"
  using u64_mult_less [of a b] by (simp add: unat_word_ariths)

lemma sat_mul_u128 [u_simps]: "sat_mul (as_u128 a) (as_u128 b) = as_u128 a * as_u128 b"
  using u64_mult_less [of a b] by (simp add: sat_mul_def)

lemma unat_div_ceil:
  "unat (div_ceil a b) = (if unat a mod unat b = 0 then unat a div unat b
     else unat a div unat b + 1)" if "b \<noteq> 0" for a b :: "'a::len word"
proof (cases "unat a mod unat b = 0")
  case True
  then show ?thesis by (simp add: div_ceil_def word_unat_eq_iff unat_mod_distrib unat_div_distrib)
next
  case False
  then have "unat b \<noteq> 1" "0 < unat a" by (auto intro: gr0I)
  moreover from that have "0 < unat b" by (simp add: unat_gt_0)
  ultimately have "unat a div unat b < unat a" by (intro div_less_dividend) auto
  then have "Suc (unat a div unat b) < 2 ^ LENGTH('a)"
    using unat_lt [of a] by linarith
  with False show ?thesis
    by (simp add: div_ceil_def word_unat_eq_iff unat_mod_distrib unat_div_distrib unat_word_ariths)
qed

lemma div_round_up:
  "0 < b \<Longrightarrow> (n + (b - 1)) div b = (if n mod b = 0 then n div b else n div b + 1)" for n b :: nat
proof -
  assume b: "0 < b"
  define q r where "q = n div b" and "r = n mod b"
  have n: "n = r + q * b" and r: "r < b" using b by (simp_all add: q_def r_def)
  have "(n + (b - 1)) div b = (r + (b - 1) + q * b) div b" by (simp only: n ac_simps)
  also have "\<dots> = (r + (b - 1)) div b + q" using b by (metis add.commute div_mult_self1 less_not_refl2)
  also have "(r + (b - 1)) div b = (if r = 0 then 0 else 1)"
  proof (cases "r = 0")
    case True
    with b show ?thesis by simp
  next
    case False
    then have "r + (b - 1) = (r - 1) + b" using b by simp
    moreover have "((r - 1) + b) div b = (r - 1) div b + 1" using b by (intro div_add_self2) simp
    ultimately show ?thesis using False r by simp
  qed
  finally show ?thesis by (simp add: q_def r_def)
qed

end
