(* ===== verification/Accounts.thy ===== *)
theory Accounts
  imports Prelude
begin

text \<open>
  Principals, ledger accounts and byte encodings.  A principal is the byte string
  \<open>Principal::as_slice\<close> returns; text conversion and the two reserved principals belong to the
  \<open>candid\<close> crate and are parameters (\<open>candid_ops\<close>).  Fixed-size byte arrays are lists.
  \<open>principal_to_subaccount\<close> is from \<open>crates/ic-clients/src/account.rs\<close>.
\<close>

type_synonym bytes = "u8 list"
type_synonym principal = bytes
type_synonym subaccount = bytes

record account =
  acc_owner :: principal
  acc_subaccount :: "subaccount option"

text \<open>What the code uses of \<open>candid::Principal\<close>: \<open>from_text\<close>, \<open>to_text\<close>,
  \<open>anonymous()\<close> and \<open>management_canister()\<close>.  Text is its ASCII bytes.\<close>

record candid_ops =
  principal_from_text :: "bytes \<Rightarrow> principal option"
  principal_to_text :: "principal \<Rightarrow> bytes"
  principal_anonymous :: principal
  principal_management :: principal

text \<open>A concrete instance, for worked examples: texts are read as the bytes themselves, except
  the texts of the two reserved principals.\<close>

definition example_candid :: candid_ops where
  "example_candid = \<lparr>principal_from_text = Some, principal_to_text = id,
     principal_anonymous = [4], principal_management = []\<rparr>"

definition ascii :: "string \<Rightarrow> bytes" where
  "ascii s = map of_char s"

text \<open>The decimal text of a number (\<open>to_string\<close>).\<close>

fun decimal :: "nat \<Rightarrow> bytes" where
  "decimal n = (if n < 10 then [word_of_nat (48 + n)]
     else decimal (n div 10) @ [word_of_nat (48 + n mod 10)])"

declare decimal.simps [simp del]

section \<open>Big-endian integers\<close>

text \<open>\<open>u64::to_be_bytes\<close> and \<open>u64::from_be_bytes\<close>, and the little-endian variant.\<close>

definition u64_to_be_bytes :: "u64 \<Rightarrow> bytes" where
  "u64_to_be_bytes x = map (\<lambda>i. word_of_nat (unat x div 256 ^ i)) [7, 6, 5, 4, 3, 2, 1, 0]"

definition u64_to_le_bytes :: "u64 \<Rightarrow> bytes" where
  "u64_to_le_bytes x = rev (u64_to_be_bytes x)"

definition u64_from_be_bytes :: "bytes \<Rightarrow> u64" where
  "u64_from_be_bytes bs = word_of_nat (foldl (\<lambda>acc b. acc * 256 + unat b) 0 bs)"

lemma length_to_be_bytes [simp]: "length (u64_to_be_bytes x) = 8"
  by (simp add: u64_to_be_bytes_def)

lemma horner_digits:
  fixes n :: nat
  assumes "n < 2 ^ 64"
  shows "foldl (\<lambda>acc b. acc * 256 + b) 0
    (map (\<lambda>i. n div 256 ^ i mod 256) [7, 6, 5, 4, 3, 2, 1, 0]) = n"
proof -
  have step: "n div 256 ^ i = n div 256 ^ Suc i * 256 + n div 256 ^ i mod 256" for i
    by (metis div_mult2_eq div_mult_mod_eq power_Suc2)
  have "n div 256 ^ 7 < 256"
    using assms by (intro less_mult_imp_div_less) simp
  then have top: "n div 256 ^ 7 mod 256 = n div 256 ^ 7" "n div 256 ^ 8 = 0"
    using assms by simp_all
  have "foldl (\<lambda>acc b. acc * 256 + b) (n div 256 ^ j)
      (map (\<lambda>i. n div 256 ^ i mod 256) (rev [0..<j])) = n" for j
  proof (induction j)
    case 0
    then show ?case by simp
  next
    case (Suc j)
    have "n div 256 ^ Suc j * 256 + n div 256 ^ j mod 256 = n div 256 ^ j"
      using step [of j] by simp
    with Suc show ?case by simp
  qed
  from this [of 8] top show ?thesis by (simp add: upt_conv_Cons)
qed

lemma map_unat_to_be_bytes:
  "map unat (u64_to_be_bytes x) = map (\<lambda>i. unat x div 256 ^ i mod 256) [7, 6, 5, 4, 3, 2, 1, 0]"
  unfolding u64_to_be_bytes_def map_map o_def unat_of_nat by simp

lemma from_to_be_bytes [simp]: "u64_from_be_bytes (u64_to_be_bytes x) = x"
proof -
  have "foldl (\<lambda>acc b. acc * 256 + unat b) 0 bs = foldl (\<lambda>acc b. acc * 256 + b) 0 (map unat bs)"
    for bs :: bytes by (simp add: foldl_map)
  then show ?thesis
    using horner_digits [of "unat x"] unat_lt [of x]
    by (simp add: u64_from_be_bytes_def map_unat_to_be_bytes del: list.map)
qed

lemma to_be_bytes_inject [simp]: "u64_to_be_bytes x = u64_to_be_bytes y \<longleftrightarrow> x = y"
  by (metis from_to_be_bytes)

definition horner :: "bytes \<Rightarrow> nat" where
  "horner bs = foldl (\<lambda>acc b. acc * 256 + unat b) 0 bs"

lemma horner_snoc [simp]: "horner (bs @ [b]) = horner bs * 256 + unat b"
  by (simp add: horner_def)

lemma u8_lt: "unat (b :: u8) < 256"
  using unat_lt [of b] by simp

lemma horner_less: "horner bs < 256 ^ length bs"
proof (induction bs rule: rev_induct)
  case Nil
  then show ?case by (simp add: horner_def)
next
  case (snoc b bs)
  then have "horner bs + 1 \<le> 256 ^ length bs" by simp
  then have "(horner bs + 1) * 256 \<le> 256 ^ length bs * 256" by (rule mult_le_mono1)
  then show ?case using u8_lt [of b] by simp
qed

lemma horner_inject: "length bs = length cs \<Longrightarrow> horner bs = horner cs \<Longrightarrow> bs = cs"
proof (induction bs arbitrary: cs rule: rev_induct)
  case Nil
  then show ?case by simp
next
  case (snoc b bs)
  then obtain d ds where cs: "cs = ds @ [d]" by (metis length_0_conv rev_exhaust snoc_eq_iff_butlast)
  with snoc.prems have eq: "horner bs * 256 + unat b = horner ds * 256 + unat d" by simp
  from arg_cong [OF eq, of "\<lambda>n. n mod 256"] have "unat b = unat d" by (simp add: u8_lt)
  with eq have "b = d" "horner bs = horner ds" by (simp_all add: word_unat_eq_iff)
  with snoc cs show ?case by simp
qed

lemma to_from_be_bytes: "length bs = 8 \<Longrightarrow> u64_to_be_bytes (u64_from_be_bytes bs) = bs"
proof -
  assume len: "length bs = 8"
  have small: "horner cs < 2 ^ 64" if "length cs = 8" for cs
    using horner_less [of cs] that by simp
  have val: "unat (u64_from_be_bytes cs) = horner cs" if "length cs = 8" for cs
    using small [OF that] by (simp add: u64_from_be_bytes_def horner_def unat_of_nat)
  have "horner (u64_to_be_bytes (u64_from_be_bytes bs)) = horner bs"
    using val [OF len] val [of "u64_to_be_bytes (u64_from_be_bytes bs)"] by simp
  with len show ?thesis by (intro horner_inject) simp_all
qed

section \<open>Principal subaccounts\<close>

definition principal_to_subaccount :: "principal \<Rightarrow> subaccount" where
  "principal_to_subaccount bs =
     (let len = min (length bs) 31
      in word_of_nat (length bs) # take len bs @ replicate (31 - len) 0)"

lemma length_principal_to_subaccount [simp]: "length (principal_to_subaccount p) = 32"
  by (simp add: principal_to_subaccount_def Let_def)

lemma principal_to_subaccount_inject:
  assumes "length p \<le> 31" "length q \<le> 31"
  shows "principal_to_subaccount p = principal_to_subaccount q \<longleftrightarrow> p = q"
proof
  assume eq: "principal_to_subaccount p = principal_to_subaccount q"
  then have "unat (word_of_nat (length p) :: u8) = unat (word_of_nat (length q) :: u8)"
    by (simp add: principal_to_subaccount_def Let_def)
  with assms have "length p = length q" by (simp add: unat_of_nat)
  with eq assms show "p = q" by (simp add: principal_to_subaccount_def Let_def)
qed simp

end
