(* ===== verification/MemoPolicy.thy ===== *)
theory MemoPolicy
  imports Accounts
begin

text \<open>
  \<open>crates/memo-policy/src/lib.rs\<close>: the parser that turns a transfer memo into a payout directive.
  A memo is its bytes; the parser has checked that they are ASCII before it reads them as text,
  so text is modelled as bytes throughout.
\<close>

section \<open>Text operations of the standard library\<close>

definition ascii_digit :: "u8 \<Rightarrow> bool" where
  "ascii_digit b \<longleftrightarrow> 48 \<le> b \<and> b \<le> 57"

definition is_ascii :: "bytes \<Rightarrow> bool" where
  "is_ascii bs \<longleftrightarrow> list_all (\<lambda>b. b < 128) bs"

text \<open>\<open>str::trim\<close> strips \<open>char::is_whitespace\<close>, which has the vertical tab;
  \<open>u8::is_ascii_whitespace\<close> does not.\<close>

definition char_whitespace :: "u8 \<Rightarrow> bool" where
  "char_whitespace b \<longleftrightarrow> 9 \<le> b \<and> b \<le> 13 \<or> b = 32"

definition ascii_whitespace :: "u8 \<Rightarrow> bool" where
  "ascii_whitespace b \<longleftrightarrow> b = 9 \<or> b = 10 \<or> b = 12 \<or> b = 13 \<or> b = 32"

definition trim :: "bytes \<Rightarrow> bytes" where
  "trim bs = rev (dropWhile char_whitespace (rev (dropWhile char_whitespace bs)))"

fun split_once :: "u8 \<Rightarrow> bytes \<Rightarrow> (bytes \<times> bytes) option" where
  "split_once c [] = None"
| "split_once c (b # bs) = (if b = c then Some ([], bs)
     else case split_once c bs of None \<Rightarrow> None | Some (l, r) \<Rightarrow> Some (b # l, r))"

fun strip_prefix :: "bytes \<Rightarrow> bytes \<Rightarrow> bytes option" where
  "strip_prefix [] bs = Some bs"
| "strip_prefix (p # ps) [] = None"
| "strip_prefix (p # ps) (b # bs) = (if p = b then strip_prefix ps bs else None)"

definition digits_value :: "bytes \<Rightarrow> nat" where
  "digits_value bs = foldl (\<lambda>acc b. acc * 10 + (unat b - 48)) 0 bs"

definition parse_u64 :: "bytes \<Rightarrow> u64 option" where
  \<comment> \<open>\<open>str::parse::<u64>\<close> on a text that is known to be ASCII digits\<close>
  "parse_u64 bs = (if bs \<noteq> [] \<and> digits_value bs < 2 ^ 64
     then Some (word_of_nat (digits_value bs)) else None)"

section \<open>The parser\<close>

definition max_target_canister_memo_bytes :: nat where
  "max_target_canister_memo_bytes = 32"

definition max_neuron_id_memo_bytes :: nat where
  "max_neuron_id_memo_bytes = 20"

text \<open>\<open>Principal::from_text(EVENT_HORIZON_CANISTER_ID)\<close>; its bytes are pinned by the test
  \<open>production_table_is_valid_and_preserves_every_published_binding\<close>.\<close>

definition event_horizon_principal :: principal where
  "event_horizon_principal = [0, 0, 0, 0, 2, 48, 17, 226, 1, 1]"

datatype memo_directive =
    TopUp principal
  | RawIcp principal "subaccount option" bytes
  | NeuronStake u64 "bytes option"

fun group_separators :: "nat \<Rightarrow> bytes \<Rightarrow> bytes" where
  "group_separators i [] = []"
| "group_separators i (ch # cs) =
     (if i > 0 \<and> i mod 5 = 0 then [45, ch] else [ch]) @ group_separators (Suc i) cs"

definition principal_text_with_group_separators :: "bytes \<Rightarrow> bytes" where
  "principal_text_with_group_separators text =
     (if 45 \<in> set text then text else group_separators 0 text)"

definition parse_declared_principal_text :: "candid_ops \<Rightarrow> bytes \<Rightarrow> principal option" where
  "parse_declared_principal_text cx text =
     (let trimmed = trim text in
      if trimmed = [] \<or> length trimmed > max_target_canister_memo_bytes then None
      else case principal_from_text cx (principal_text_with_group_separators trimmed) of
        None \<Rightarrow> None
      | Some p \<Rightarrow>
          if p = principal_anonymous cx \<or> p = principal_management cx then None else Some p)"

definition parse_neuron_id_text :: "bytes \<Rightarrow> u64 option" where
  "parse_neuron_id_text text =
     (if text = [] \<or> length text > max_neuron_id_memo_bytes then None
      else if \<not> list_all ascii_digit text then None
      else case parse_u64 text of
        None \<Rightarrow> None
      | Some neuron_id \<Rightarrow> if neuron_id \<noteq> 0 then Some neuron_id else None)"

definition numbered_subaccount :: "u64 \<Rightarrow> subaccount option" where
  "numbered_subaccount number =
     (if number = 0 then None else Some (replicate 24 0 @ u64_to_be_bytes number))"

definition numbered_subaccount_number :: "subaccount \<Rightarrow> string + u64 option" where
  "numbered_subaccount_number sub =
     (if list_ex (\<lambda>byte. byte \<noteq> 0) (take 24 sub) then Inl ''subaccount is not a zero-padded u64''
      else let number = u64_from_be_bytes (drop 24 sub)
        in Inr (if number \<noteq> 0 then Some number else None))"

definition parse_numbered_subaccount_text :: "bytes \<Rightarrow> subaccount option option" where
  "parse_numbered_subaccount_text text =
     (if text = [] \<or> \<not> list_all ascii_digit text then None
      else map_option numbered_subaccount (parse_u64 text))"

definition parse_raw_destination_text ::
  "candid_ops \<Rightarrow> bytes \<Rightarrow> (principal \<times> subaccount option) option" where
  "parse_raw_destination_text cx text =
     (let destination = trim text in
      case split_once 58 destination of
        Some (owner_text, number_text) \<Rightarrow>
          if owner_text = [] \<or> number_text = [] \<or> 58 \<in> set number_text
            \<or> list_ex ascii_whitespace destination then None
          else (case parse_declared_principal_text cx owner_text of
            None \<Rightarrow> None
          | Some p \<Rightarrow> map_option (Pair p) (parse_numbered_subaccount_text number_text))
      | None \<Rightarrow> map_option (\<lambda>p. (p, None)) (parse_declared_principal_text cx destination))"

definition parse_memo_directive :: "candid_ops \<Rightarrow> bytes \<Rightarrow> memo_directive option" where
  "parse_memo_directive cx memo =
     (if memo = [] \<or> length memo > max_target_canister_memo_bytes \<or> \<not> is_ascii memo then None
      else case strip_prefix [69, 46] memo of
        Some suffix \<Rightarrow>
          if suffix = [] then None else Some (RawIcp event_horizon_principal None suffix)
      | None \<Rightarrow>
          if trim memo = [] then None
          else case split_once 46 memo of
            Some (declared_canister, raw_memo) \<Rightarrow>
              (case parse_neuron_id_text (trim declared_canister) of
                Some neuron_id \<Rightarrow> Some (NeuronStake neuron_id (Some raw_memo))
              | None \<Rightarrow> map_option (\<lambda>(c, sub). RawIcp c sub raw_memo)
                  (parse_raw_destination_text cx declared_canister))
          | None \<Rightarrow>
              (case parse_neuron_id_text (trim memo) of
                Some neuron_id \<Rightarrow> Some (NeuronStake neuron_id None)
              | None \<Rightarrow> map_option TopUp (parse_declared_principal_text cx memo)))"

definition parse_target_canister_principal_from_memo :: "candid_ops \<Rightarrow> bytes \<Rightarrow> principal option" where
  "parse_target_canister_principal_from_memo cx memo =
     (case parse_memo_directive cx memo of
        None \<Rightarrow> None
      | Some (TopUp canister_id) \<Rightarrow> Some canister_id
      | Some (RawIcp canister_id _ _) \<Rightarrow> Some canister_id
      | Some (NeuronStake _ _) \<Rightarrow> None)"

section \<open>Facts about the text operations\<close>

lemma split_once_Some:
  "split_once c bs = Some (l, r) \<longleftrightarrow> bs = l @ c # r \<and> c \<notin> set l"
proof (induction bs arbitrary: l)
  case Nil
  then show ?case by simp
next
  case (Cons b bs)
  show ?case
  proof (cases "b = c")
    case True
    then show ?thesis by (cases l) auto
  next
    case False
    then have "split_once c (b # bs) = Some (l, r) \<longleftrightarrow>
        (\<exists>l'. l = b # l' \<and> split_once c bs = Some (l', r))"
      by (auto split: option.splits)
    also have "\<dots> \<longleftrightarrow> (\<exists>l'. l = b # l' \<and> bs = l' @ c # r \<and> c \<notin> set l')"
      by (simp only: Cons.IH)
    also have "\<dots> \<longleftrightarrow> b # bs = l @ c # r \<and> c \<notin> set l"
      using False by (cases l) auto
    finally show ?thesis .
  qed
qed

lemma split_once_None: "split_once c bs = None \<longleftrightarrow> c \<notin> set bs"
  by (induction bs) (auto split: option.splits)

lemma strip_prefix_Some: "strip_prefix ps bs = Some r \<longleftrightarrow> bs = ps @ r"
  by (induction ps bs rule: strip_prefix.induct) auto

lemma digit_not_whitespace: "ascii_digit b \<Longrightarrow> \<not> char_whitespace b"
  by (auto simp: ascii_digit_def char_whitespace_def u_simps)

lemma dropWhile_none: "\<forall>x\<in>set xs. \<not> P x \<Longrightarrow> dropWhile P xs = xs"
  by (cases xs) auto

lemma trim_id: "\<forall>b\<in>set bs. \<not> char_whitespace b \<Longrightarrow> trim bs = bs"
  by (simp add: trim_def dropWhile_none)

lemma trim_digits: "list_all ascii_digit bs \<Longrightarrow> trim bs = bs"
  by (rule trim_id) (auto simp: list_all_iff dest: digit_not_whitespace)

lemma parse_declared_principal_text_Some:
  "parse_declared_principal_text cx text = Some p \<Longrightarrow>
     p \<noteq> principal_anonymous cx \<and> p \<noteq> principal_management cx"
  by (auto simp: parse_declared_principal_text_def Let_def split: if_splits option.splits)

lemma parse_raw_destination_text_Some:
  "parse_raw_destination_text cx text = Some (p, sub) \<Longrightarrow>
     p \<noteq> principal_anonymous cx \<and> p \<noteq> principal_management cx"
  by (auto simp: parse_raw_destination_text_def Let_def dest: parse_declared_principal_text_Some
      split: if_splits option.splits prod.splits)

lemma parse_neuron_id_text_Some: "parse_neuron_id_text text = Some n \<Longrightarrow> n \<noteq> 0"
  by (auto simp: parse_neuron_id_text_def split: if_splits option.splits)

section \<open>Numbered subaccounts\<close>

lemma numbered_subaccount_Some:
  "numbered_subaccount n = Some sub \<longleftrightarrow> n \<noteq> 0 \<and> sub = replicate 24 0 @ u64_to_be_bytes n"
  by (auto simp: numbered_subaccount_def)

lemma number_of_zero_padded:
  "length bs = 8 \<Longrightarrow> numbered_subaccount_number (replicate 24 0 @ bs) =
     Inr (if u64_from_be_bytes bs \<noteq> 0 then Some (u64_from_be_bytes bs) else None)"
  by (simp add: numbered_subaccount_number_def list_ex_iff)

lemma numbered_subaccount_number_Some:
  assumes "length sub = 32"
  shows "numbered_subaccount_number sub = Inr (Some n) \<longleftrightarrow> numbered_subaccount n = Some sub"
proof
  assume n: "numbered_subaccount_number sub = Inr (Some n)"
  then have "\<forall>b\<in>set (take 24 sub). b = 0"
    by (auto simp: numbered_subaccount_number_def list_ex_iff split: if_splits)
  then have "take 24 sub = replicate 24 0"
    using assms by (intro replicate_eqI) auto
  moreover from n have "n = u64_from_be_bytes (drop 24 sub)" "n \<noteq> 0"
    by (auto simp: numbered_subaccount_number_def Let_def split: if_splits)
  moreover have "length (drop 24 sub) = 8" using assms by simp
  ultimately show "numbered_subaccount n = Some sub"
    by (metis append_take_drop_id numbered_subaccount_Some to_from_be_bytes)
next
  assume "numbered_subaccount n = Some sub"
  then show "numbered_subaccount_number sub = Inr (Some n)"
    by (auto simp: numbered_subaccount_Some number_of_zero_padded)
qed

section \<open>Reading decimal texts\<close>

lemma digits_value_snoc [simp]: "digits_value (bs @ [b]) = digits_value bs * 10 + (unat b - 48)"
  by (simp add: digits_value_def)

lemma digit_byte: "d < 10 \<Longrightarrow> unat (word_of_nat (48 + d) :: u8) = 48 + d"
  by (simp add: unat_of_nat del: of_nat_add)

lemma decimal_digits: "digits_value (decimal n) = n \<and> list_all ascii_digit (decimal n) \<and> decimal n \<noteq> []"
proof (induction n rule: decimal.induct)
  case (1 n)
  show ?case
  proof (cases "n < 10")
    case True
    then have "decimal n = [] @ [word_of_nat (48 + n)]" by (simp add: decimal.simps [of n])
    then show ?thesis
      using True digit_byte [OF True]
      by (simp only: digits_value_snoc) (simp add: digits_value_def ascii_digit_def u_simps)
  next
    case False
    then have n: "decimal n = decimal (n div 10) @ [word_of_nat (48 + n mod 10)]"
      by (simp add: decimal.simps [of n])
    have "unat (word_of_nat (48 + n mod 10) :: u8) = 48 + n mod 10" by (rule digit_byte) simp
    with "1" False show ?thesis
      by (simp only: n digits_value_snoc) (simp add: ascii_digit_def u_simps)
  qed
qed

lemma length_decimal: "n < 10 ^ k \<Longrightarrow> 0 < k \<Longrightarrow> length (decimal n) \<le> k"
proof (induction k arbitrary: n)
  case 0
  then show ?case by simp
next
  case (Suc k)
  show ?case
  proof (cases "n < 10")
    case True
    then show ?thesis by (simp add: decimal.simps [of n])
  next
    case False
    with Suc.prems have "0 < k" by (cases k) auto
    moreover have "n div 10 < 10 ^ k" using Suc.prems by (simp add: less_mult_imp_div_less)
    ultimately show ?thesis using Suc.IH [of "n div 10"] False by (simp add: decimal.simps [of n])
  qed
qed

lemma parse_neuron_id_decimal: "n \<noteq> 0 \<Longrightarrow> parse_neuron_id_text (decimal (unat n)) = Some n"
proof -
  assume "n \<noteq> 0"
  moreover have "unat n < 10 ^ 20" using unat_lt [of n] by simp
  then have "length (decimal (unat n)) \<le> 20" by (rule length_decimal) simp
  ultimately show ?thesis
    using decimal_digits [of "unat n"] unat_lt [of n]
    by (simp add: parse_neuron_id_text_def max_neuron_id_memo_bytes_def parse_u64_def)
qed

lemma digits_ascii: "list_all ascii_digit bs \<Longrightarrow> is_ascii bs \<and> 46 \<notin> set bs \<and> 69 \<notin> set bs"
proof -
  assume "list_all ascii_digit bs"
  then have "\<forall>b\<in>set bs. 48 \<le> unat b \<and> unat b \<le> 57"
    by (auto simp: list_all_iff ascii_digit_def u_simps)
  then show ?thesis by (force simp: is_ascii_def list_all_iff u_simps)
qed

section \<open>Properties\<close>

text \<open>C9: a decimal neuron id followed by a dot and any ASCII bytes, within the 32-byte limit, is
  parsed to exactly that neuron and those bytes.\<close>

theorem neuron_directive_roundtrip:
  assumes "n \<noteq> 0" and "is_ascii raw" and "length (decimal (unat n)) + 1 + length raw \<le> 32"
  shows "parse_memo_directive cx (decimal (unat n) @ 46 # raw) = Some (NeuronStake n (Some raw))"
proof -
  note digits = decimal_digits [of "unat n", THEN conjunct2]
  then obtain d ds where d: "decimal (unat n) = d # ds" by (cases "decimal (unat n)") auto
  have "69 \<noteq> d" using digits d by (auto simp: ascii_digit_def u_simps)
  then have "strip_prefix [69, 46] (decimal (unat n) @ 46 # raw) = None" by (simp add: d)
  moreover have "split_once 46 (decimal (unat n) @ 46 # raw) = Some (decimal (unat n), raw)"
    using digits digits_ascii by (auto simp: split_once_Some)
  moreover have "trim (decimal (unat n) @ 46 # raw) \<noteq> []"
    using digits d by (auto simp: trim_def dest: digit_not_whitespace)
  moreover have "is_ascii (decimal (unat n) @ 46 # raw)"
    using assms(2) digits digits_ascii by (auto simp: is_ascii_def u_simps)
  ultimately show ?thesis
    using assms digits trim_digits [of "decimal (unat n)"] parse_neuron_id_decimal [OF assms(1)]
    by (simp add: parse_memo_directive_def max_target_canister_memo_bytes_def)
qed

theorem neuron_directive_roundtrip_witness:
  "parse_memo_directive example_candid [52, 50, 46, 118, 97] = Some (NeuronStake 42 (Some [118, 97]))"
proof -
  have "decimal 42 = [52, 50]" by (simp add: decimal.simps [of 42] decimal.simps [of 4])
  then show ?thesis
    using neuron_directive_roundtrip [of 42 "[118, 97]" example_candid] by (simp add: is_ascii_def)
qed

text \<open>what an accepted memo can mean: it has 1 to 32 ASCII bytes; a raw-ICP directive carries
  exactly the bytes after the first dot; and no directive targets the anonymous principal or the
  management canister, unless through the fixed Event Horizon prefix.\<close>

theorem parse_memo_directive_sound:
  assumes "parse_memo_directive cx memo = Some d"
  shows "memo \<noteq> [] \<and> length memo \<le> 32 \<and> is_ascii memo \<and>
    (case d of
      TopUp p \<Rightarrow> 46 \<notin> set memo \<and> p \<noteq> principal_anonymous cx \<and> p \<noteq> principal_management cx
    | RawIcp p sub raw \<Rightarrow> (\<exists>dest. memo = dest @ 46 # raw \<and> 46 \<notin> set dest \<and>
        (dest = [69] \<and> p = event_horizon_principal \<and> sub = None \<and> raw \<noteq> [] \<or>
         p \<noteq> principal_anonymous cx \<and> p \<noteq> principal_management cx))
    | NeuronStake n raw \<Rightarrow> n \<noteq> 0 \<and> (case raw of None \<Rightarrow> 46 \<notin> set memo
        | Some r \<Rightarrow> (\<exists>dest. memo = dest @ 46 # r \<and> 46 \<notin> set dest)))"
proof -
  have ok: "memo \<noteq> []" "length memo \<le> 32" "is_ascii memo"
    using assms by (auto simp: parse_memo_directive_def max_target_canister_memo_bytes_def
        split: if_splits)
  show ?thesis
  proof (cases "strip_prefix [69, 46] memo")
    case (Some suffix)
    then have "memo = [69] @ 46 # suffix" using strip_prefix_Some [of "[69, 46]"] by simp
    moreover have "d = RawIcp event_horizon_principal None suffix" "suffix \<noteq> []"
      using assms ok Some by (auto simp: parse_memo_directive_def split: if_splits)
    ultimately show ?thesis using ok by (auto intro!: exI [of _ "[69]"])
  next
    case None
    show ?thesis
    proof (cases "split_once 46 memo")
      case split: None
      then have "46 \<notin> set memo" by (simp add: split_once_None)
      with assms ok None split show ?thesis
        by (auto simp: parse_memo_directive_def
            dest: parse_declared_principal_text_Some parse_neuron_id_text_Some
            split: if_splits option.splits)
    next
      case (Some parts)
      then obtain dest raw where split: "split_once 46 memo = Some (dest, raw)" by (cases parts) auto
      then have "memo = dest @ 46 # raw \<and> 46 \<notin> set dest"
        by (rule split_once_Some [THEN iffD1])
      moreover have "(\<exists>n. d = NeuronStake n (Some raw) \<and> n \<noteq> 0) \<or> (\<exists>p sub. d = RawIcp p sub raw \<and>
          p \<noteq> principal_anonymous cx \<and> p \<noteq> principal_management cx)"
        using assms ok None split
        by (auto simp: parse_memo_directive_def
            dest: parse_raw_destination_text_Some parse_neuron_id_text_Some
            split: if_splits option.splits)
      ultimately show ?thesis using ok by auto
    qed
  qed
qed

theorem parse_memo_directive_sound_witness:
  "(\<exists>dest. [69, 46, 104] = dest @ 46 # [104 :: u8] \<and> 46 \<notin> set dest)"
proof -
  have "parse_memo_directive cx [69, 46, 104] = Some (RawIcp event_horizon_principal None [104])"
    for cx :: candid_ops
    by (simp add: parse_memo_directive_def max_target_canister_memo_bytes_def is_ascii_def)
  from parse_memo_directive_sound [OF this] show ?thesis by auto
qed

text \<open>a 32-byte subaccount is read as the nonzero number n exactly when it is the
  subaccount that number is written as.\<close>

theorem numbered_subaccount_inverse:
  assumes "length sub = 32"
  shows "numbered_subaccount_number sub = Inr (Some n) \<longleftrightarrow> numbered_subaccount n = Some sub"
  using assms by (rule numbered_subaccount_number_Some)

theorem numbered_subaccount_inverse_witness:
  "numbered_subaccount_number (replicate 24 0 @ u64_to_be_bytes 50) = Inr (Some 50)"
  using numbered_subaccount_inverse [of "replicate 24 0 @ u64_to_be_bytes 50" 50]
  by (simp add: numbered_subaccount_def)

end
