(* ===== verification/Async.thy ===== *)
theory Async
  imports Prelude
begin

text \<open>
  Asynchronous canister code.  A handler runs atomically from one \<open>await\<close> to the next; at an
  \<open>await\<close> it hands a request to another canister, its state changes are committed, and other
  messages may run before it is resumed with the response.  A handler started in a state \<open>s\<close>
  is a \<open>proc\<close>: the state it leaves and its result (\<open>Done\<close>), or the state it commits,
  the request it sends and its continuation (\<open>Await\<close>), which receives the response together
  with the canister's state at that later time.  \<open>Trap\<close> is a panic: the message's changes since
  the last commit are discarded.

  \<open>rg\<close> is a rely-guarantee judgement on such a process; \<open>reach\<close> is the interleaved
  execution of any number of handlers of one canister, and the locale \<open>rg_system\<close> states the
  contract under which the judgements of the single handlers hold in every interleaving.
\<close>

datatype (dead 's, dead 'q, dead 'r, 'a) proc =
    Done 's 'a
  | Await 's 'q "'r \<Rightarrow> 's \<Rightarrow> ('s, 'q, 'r, 'a) proc"
  | Trap

text \<open>Sequential composition: \<open>let x = p.await; ...\<close> for an inner async function.\<close>

primrec pbind :: "('s, 'q, 'r, 'a) proc \<Rightarrow> ('s \<Rightarrow> 'a \<Rightarrow> ('s, 'q, 'r, 'b) proc)
    \<Rightarrow> ('s, 'q, 'r, 'b) proc" where
  "pbind (Done s a) f = f s a"
| "pbind (Await s q k) f = Await s q (\<lambda>r s'. pbind (k r s') f)"
| "pbind Trap f = Trap"

text \<open>
  Execution without interference against a list of scripted responses, for concrete runs: the
  final state and the result (none when the script runs out or the code traps), and the requests
  sent, newest first, each with the state it was committed in.
\<close>

fun run_script :: "'r list \<Rightarrow> ('s, 'q, 'r, 'a) proc \<Rightarrow> ('s \<times> 'q) list
    \<Rightarrow> ('s \<times> 'a) option \<times> ('s \<times> 'q) list" where
  "run_script rs (Done s a) log = (Some (s, a), log)"
| "run_script rs Trap log = (None, log)"
| "run_script [] (Await s q k) log = (None, (s, q) # log)"
| "run_script (r # rs) (Await s q k) log = run_script rs (k r s) ((s, q) # log)"

section \<open>Rely-guarantee judgements\<close>

text \<open>
  \<open>rg T I R C Q s0 p\<close>: the segment of \<open>p\<close> that started in \<open>s0\<close> ends in a state where
  the invariant \<open>I\<close> holds and which is related to \<open>s0\<close> by \<open>R\<close>; every request is
  sent in a state satisfying \<open>C\<close>; the result satisfies \<open>Q\<close>; and all this holds again after
  each resumption, from any later state that satisfies \<open>I\<close> and is related by \<open>R\<close> to the
  state at suspension.  A panic is allowed only if \<open>T\<close>.
\<close>

primrec rg :: "bool \<Rightarrow> ('s \<Rightarrow> bool) \<Rightarrow> ('s \<Rightarrow> 's \<Rightarrow> bool) \<Rightarrow> ('s \<Rightarrow> 'q \<Rightarrow> bool)
    \<Rightarrow> ('s \<Rightarrow> 'a \<Rightarrow> bool) \<Rightarrow> ('s, 'q, 'r, 'a) proc \<Rightarrow> 's \<Rightarrow> bool" where
  "rg T I R C Q (Done s a) = (\<lambda>s0. I s \<and> R s0 s \<and> Q s a)"
| "rg T I R C Q (Await s q k) = (\<lambda>s0. I s \<and> R s0 s \<and> C s q \<and>
     (\<forall>r s'. I s' \<longrightarrow> R s s' \<longrightarrow> rg T I R C Q (k r s') s'))"
| "rg T I R C Q Trap = (\<lambda>s0. T)"

lemma rg_conseq:
  assumes "rg T I R C Q p s0" and "\<And>s q. C s q \<Longrightarrow> C' s q" and "\<And>s a. Q s a \<Longrightarrow> Q' s a"
    and "T \<Longrightarrow> T'"
  shows "rg T' I R C' Q' p s0"
  using assms(1)
proof (induction p arbitrary: s0)
  case (Done s a)
  then show ?case using assms(3) by simp
next
  case (Await s q k)
  then show ?case using assms(2) by (auto intro: Await.IH [OF rangeI rangeI])
next
  case Trap
  then show ?case using assms(4) by simp
qed

lemma rg_start:
  assumes "rg T I R C Q p s1" and "R s0 s1" and "\<And>a b c. R a b \<Longrightarrow> R b c \<Longrightarrow> R a c"
  shows "rg T I R C Q p s0"
  using assms(1) by (cases p) (auto intro: assms(3)[OF assms(2)])

lemma rg_bind:
  assumes "rg T I R C Q' p s0"
    and "\<And>s a. I s \<Longrightarrow> Q' s a \<Longrightarrow> rg T I R C Q (f s a) s"
    and trans: "\<And>a b c. R a b \<Longrightarrow> R b c \<Longrightarrow> R a c"
  shows "rg T I R C Q (pbind p f) s0"
  using assms(1)
proof (induction p arbitrary: s0)
  case (Done s a)
  then have "rg T I R C Q (f s a) s" using assms(2) by simp
  then show ?case using Done trans by (auto intro: rg_start)
next
  case (Await s q k)
  then show ?case by (auto intro: Await.IH [OF rangeI rangeI])
next
  case Trap
  then show ?case by simp
qed

text \<open>A process also ends in a state related to any state before its start.\<close>

lemma rg_since:
  assumes "rg T I R C Q p s0" and "R b s0" and "\<And>a b c. R a b \<Longrightarrow> R b c \<Longrightarrow> R a c"
  shows "rg T I R C (\<lambda>s a. Q s a \<and> R b s) p s0"
  using assms(1,2)
proof (induction p arbitrary: s0)
  case (Done s a)
  then show ?case by (auto intro: assms(3))
next
  case (Await s q k)
  then have "R b s" by (auto intro: assms(3))
  with Await.prems show ?case by (auto intro!: Await.IH [OF rangeI rangeI] intro: assms(3))
next
  case Trap
  then show ?case by simp
qed

section \<open>Interleaved execution\<close>

text \<open>
  \<open>reach init H U s ps log\<close>: the canister can be in state \<open>s\<close> with the suspended handlers
  \<open>ps\<close> after having sent the requests \<open>log\<close> (each with the state it was committed in).
  \<open>H\<close> holds the handlers that may start at any time; a step that only lets time pass is one
  of them.  \<open>U\<close> holds the upgrades: they replace the state and drop every suspended handler,
  unless they panic.
\<close>

inductive reach :: "('s \<Rightarrow> bool) \<Rightarrow> ('s \<Rightarrow> ('s, 'q, 'r, unit) proc) set \<Rightarrow> ('s \<Rightarrow> 's option) set
    \<Rightarrow> 's \<Rightarrow> ('s, 'q, 'r, unit) proc list \<Rightarrow> ('s \<times> 'q) list \<Rightarrow> bool"
  for init H U where
  start: "init s \<Longrightarrow> reach init H U s [] []"
| spawn_done: "reach init H U s ps log \<Longrightarrow> h \<in> H \<Longrightarrow> h s = Done s' a \<Longrightarrow> reach init H U s' ps log"
| spawn_await: "reach init H U s ps log \<Longrightarrow> h \<in> H \<Longrightarrow> h s = Await s' q k
    \<Longrightarrow> reach init H U s' (Await s' q k # ps) ((s', q) # log)"
| spawn_trap: "reach init H U s ps log \<Longrightarrow> h \<in> H \<Longrightarrow> h s = Trap \<Longrightarrow> reach init H U s ps log"
| resume_done: "reach init H U s (ps @ Await sa q k # ps') log \<Longrightarrow> k r s = Done s' a
    \<Longrightarrow> reach init H U s' (ps @ ps') log"
| resume_await: "reach init H U s (ps @ Await sa q k # ps') log \<Longrightarrow> k r s = Await s' q' k'
    \<Longrightarrow> reach init H U s' (ps @ Await s' q' k' # ps') ((s', q') # log)"
| resume_trap: "reach init H U s (ps @ Await sa q k # ps') log \<Longrightarrow> k r s = Trap
    \<Longrightarrow> reach init H U s (ps @ ps') log"
| upgrade: "reach init H U s ps log \<Longrightarrow> u \<in> U \<Longrightarrow> u s = Some s' \<Longrightarrow> reach init H U s' [] log"

text \<open>A scripted execution is one of the interleavings.\<close>

lemma run_script_pending:
  "reach init H U s (Await s q k # ps) ((s, q) # log) \<Longrightarrow>
   run_script rs (Await s q k) log = (Some (s', a), log') \<Longrightarrow> reach init H U s' ps log'"
proof (induction rs "Await s q k" log arbitrary: s q k rule: run_script.induct)
  case (4 r rs s q k log)
  show ?case
  proof (cases "k r s")
    case (Done s1 b)
    then show ?thesis
      using 4 resume_done [of init H U s "[]" s q k ps "(s, q) # log" r s1 b] by auto
  next
    case (Await s1 q1 k1)
    then have "reach init H U s1 (Await s1 q1 k1 # ps) ((s1, q1) # (s, q) # log)"
      using 4(2) resume_await [of init H U s "[]" s q k ps "(s, q) # log" r s1 q1 k1] by simp
    then show ?thesis using 4(1) [OF Await] 4(3) Await by simp
  next
    case Trap
    then show ?thesis using 4 by simp
  qed
qed simp

lemma run_script_reach:
  assumes "reach init H U s ps log" "h \<in> H" "run_script rs (h s) log = (Some (s', a), log')"
  shows "reach init H U s' ps log'"
proof (cases "h s")
  case (Done s1 b)
  then show ?thesis using assms spawn_done [OF assms(1,2) Done] by simp
next
  case (Await s1 q k)
  then show ?thesis
    using assms spawn_await [OF assms(1,2) Await] run_script_pending by metis
qed (use assms in simp)

locale rg_system =
  fixes T :: bool
    and I :: "'s \<Rightarrow> bool"
    and R :: "'s \<Rightarrow> 's \<Rightarrow> bool"
    and C :: "'s \<Rightarrow> 'q \<Rightarrow> bool"
    and init :: "'s \<Rightarrow> bool"
    and H :: "('s \<Rightarrow> ('s, 'q, 'r, unit) proc) set"
    and U :: "('s \<Rightarrow> 's option) set"
  assumes R_refl: "R s s"
    and R_trans: "R a b \<Longrightarrow> R b c \<Longrightarrow> R a c"
    and init_inv: "init s \<Longrightarrow> I s"
    and handlers: "h \<in> H \<Longrightarrow> I s \<Longrightarrow> rg T I R C (\<lambda>_ _. True) (h s) s"
    and upgrades: "u \<in> U \<Longrightarrow> I s \<Longrightarrow> u s = Some s' \<Longrightarrow> I s' \<and> R s s'"
begin

definition pending_ok :: "'s \<Rightarrow> ('s, 'q, 'r, unit) proc \<Rightarrow> bool" where
  "pending_ok s p \<longleftrightarrow> (\<exists>sa q k. p = Await sa q k \<and> R sa s \<and>
     (\<forall>r s'. I s' \<longrightarrow> R sa s' \<longrightarrow> rg T I R C (\<lambda>_ _. True) (k r s') s'))"

lemma pending_ok_step: "pending_ok s p \<Longrightarrow> R s s' \<Longrightarrow> pending_ok s' p"
  unfolding pending_ok_def using R_trans by blast

lemma pending_ok_await:
  "rg T I R C (\<lambda>_ _. True) (Await s q k) s0 \<Longrightarrow> pending_ok s (Await s q k)"
  unfolding pending_ok_def using R_refl by auto

lemma pending_ok_resume:
  "pending_ok s (Await sa q k) \<Longrightarrow> I s \<Longrightarrow> rg T I R C (\<lambda>_ _. True) (k r s) s"
  unfolding pending_ok_def by auto

lemma pending_ok_steps:
  "\<forall>p\<in>A. pending_ok s p \<Longrightarrow> R s s' \<Longrightarrow> \<forall>p\<in>A. pending_ok s' p"
  by (blast intro: pending_ok_step)

text \<open>The log: every request satisfied \<open>C\<close> when it was sent, and the states in which requests
  were sent are related by \<open>R\<close> in the order of sending (the newest entry is the head).\<close>

fun log_ok :: "'s \<Rightarrow> ('s \<times> 'q) list \<Rightarrow> bool" where
  "log_ok s [] = True"
| "log_ok s ((sq, q) # log) = (R sq s \<and> C sq q \<and> log_ok sq log)"

lemma log_ok_later: "log_ok s log \<Longrightarrow> R s s' \<Longrightarrow> log_ok s' log"
  by (cases log) (auto intro: R_trans)

lemma log_ok_in: "log_ok s log \<Longrightarrow> (sq, q) \<in> set log \<Longrightarrow> C sq q \<and> R sq s"
  by (induction s log rule: log_ok.induct) (auto intro: R_trans)

lemma log_ok_pair: "log_ok s log \<Longrightarrow> log = pre @ (s2, q2) # mid @ (s1, q1) # post \<Longrightarrow> R s1 s2"
proof (induction pre arbitrary: s log)
  case Nil
  then show ?case using log_ok_in [of s2 "mid @ (s1, q1) # post" s1 q1] by simp
next
  case (Cons e pre)
  then show ?case by (cases e) auto
qed

text \<open>Every reachable state satisfies the invariant, whatever the interleaving.\<close>

lemma reach_ok:
  assumes "reach init H U s ps log"
  shows "I s \<and> (\<forall>p\<in>set ps. pending_ok s p) \<and> log_ok s log"
  using assms
proof induction
  case (start s)
  then show ?case by (simp add: init_inv)
next
  case (spawn_done s ps log h s' a)
  then have "rg T I R C (\<lambda>_ _. True) (h s) s" by (intro handlers) simp_all
  then have "I s'" "R s s'" by (simp_all add: spawn_done.hyps)
  with spawn_done.IH pending_ok_steps [of "set ps" s s'] log_ok_later show ?case by blast
next
  case (spawn_await s ps log h s' q k)
  then have "rg T I R C (\<lambda>_ _. True) (h s) s" by (intro handlers) simp_all
  then have h: "rg T I R C (\<lambda>_ _. True) (Await s' q k) s" unfolding spawn_await.hyps(3) .
  then have "pending_ok s' (Await s' q k)" by (rule pending_ok_await)
  with spawn_await.IH h pending_ok_steps [of "set ps" s s'] show ?case
    by (auto simp: R_refl intro: log_ok_later)
next
  case (spawn_trap s ps log h)
  then show ?case by simp
next
  case (resume_done s ps sa q k ps' log r s' a)
  then have ok: "\<forall>p\<in>set ps \<union> set ps'. pending_ok s p" and "pending_ok s (Await sa q k)" "I s"
    by auto
  then have "rg T I R C (\<lambda>_ _. True) (k r s) s" by (intro pending_ok_resume)
  then have "I s'" "R s s'" by (simp_all add: resume_done.hyps)
  with pending_ok_steps [OF ok, of s'] resume_done.IH show ?case by (auto intro: log_ok_later)
next
  case (resume_await s ps sa q k ps' log r s' q' k')
  then have ok: "\<forall>p\<in>set ps \<union> set ps'. pending_ok s p" and "pending_ok s (Await sa q k)" "I s"
    by auto
  then have "rg T I R C (\<lambda>_ _. True) (k r s) s" by (intro pending_ok_resume)
  then have k: "rg T I R C (\<lambda>_ _. True) (Await s' q' k') s" unfolding resume_await.hyps(2) .
  then have "pending_ok s' (Await s' q' k')" by (rule pending_ok_await)
  with resume_await.IH k pending_ok_steps [OF ok, of s'] show ?case
    by (auto simp: R_refl intro: log_ok_later)
next
  case (resume_trap s ps sa q k ps' log r)
  then show ?case by auto
next
  case (upgrade s ps log u s')
  then show ?case using upgrades by (auto intro: log_ok_later)
qed

lemma reach_inv: "reach init H U s ps log \<Longrightarrow> I s"
  using reach_ok by blast

lemma reach_requests: "reach init H U s ps log \<Longrightarrow> (sq, q) \<in> set log \<Longrightarrow> C sq q"
  using reach_ok log_ok_in by blast

lemma reach_since: "reach init H U s ps log \<Longrightarrow> (sq, q) \<in> set log \<Longrightarrow> R sq s"
  using reach_ok log_ok_in by blast

lemma reach_order:
  "reach init H U s ps (pre @ (s2, q2) # mid @ (s1, q1) # post) \<Longrightarrow> R s1 s2"
  using reach_ok log_ok_pair by blast

text \<open>When the judgements forbid panics, no message of any interleaving panics.\<close>

lemma no_trap_spawn: "\<not> T \<Longrightarrow> reach init H U s ps log \<Longrightarrow> h \<in> H \<Longrightarrow> h s \<noteq> Trap"
proof
  assume "\<not> T" "reach init H U s ps log" "h \<in> H" "h s = Trap"
  then show False using handlers [of h s] reach_inv by simp
qed

lemma no_trap_resume:
  assumes "\<not> T" "reach init H U s ps log" "Await sa q k \<in> set ps"
  shows "k r s \<noteq> Trap"
proof
  assume "k r s = Trap"
  moreover from assms have "pending_ok s (Await sa q k)" "I s" using reach_ok by blast+
  ultimately show False using assms(1) pending_ok_resume [of s sa q k r] by simp
qed

end

end
