(* ===== verification/Lease.thy ===== *)
theory Lease
  imports Prelude
begin

text \<open>
  The timer lease guards of \<open>crates/ic-clients/src/timer_guard.rs\<close>.  A guard is a local value of
  an async run; the lock cell it is checked against is a field of the canister's state.  The
  locale \<open>lease\<close> states what the users of a guard rely on and proves that at most one
  outstanding guard owns the cell; it is interpreted for both kinds of guard.
\<close>

datatype lease_finish = Released | Unchanged

record timer_lease_guard =
  tlg_active :: bool
  tlg_expires :: u64

definition tlg_acquire :: "u64 \<Rightarrow> u64 \<Rightarrow> u64 option \<Rightarrow> timer_lease_guard option" where
  "tlg_acquire now_secs lease_seconds current_lock =
     (if case_option 0 id current_lock > now_secs then None
      else Some \<lparr>tlg_active = True, tlg_expires = sat_add now_secs lease_seconds\<rparr>)"

definition tlg_release :: "timer_lease_guard \<Rightarrow> u64 option \<Rightarrow> lease_finish \<times> timer_lease_guard" where
  "tlg_release g current_lock =
     (if \<not> tlg_active g then (Unchanged, g)
      else let g' = g\<lparr>tlg_active := False\<rparr> in
        if current_lock = Some (tlg_expires g) then (Released, g') else (Unchanged, g'))"

definition tlg_finish :: "timer_lease_guard \<Rightarrow> u64 option \<Rightarrow> lease_finish" where
  "tlg_finish g current_lock = fst (tlg_release g current_lock)"

record fenced_lease_guard =
  flg_active :: bool
  flg_expires :: u64
  flg_generation :: u64

definition flg_acquire :: "u64 \<Rightarrow> u64 \<Rightarrow> u64 option \<Rightarrow> u64 \<Rightarrow> bool \<Rightarrow> fenced_lease_guard option" where
  "flg_acquire now_secs lease_seconds current_lock current_generation preempt_unexpired =
     (if \<not> preempt_unexpired \<and> case_option 0 id current_lock > now_secs then None
      else case checked_add current_generation 1 of
        None \<Rightarrow> None
      | Some generation \<Rightarrow> Some \<lparr>flg_active = True,
          flg_expires = sat_add now_secs lease_seconds, flg_generation = generation\<rparr>)"

definition flg_owns :: "fenced_lease_guard \<Rightarrow> u64 option \<Rightarrow> u64 \<Rightarrow> bool" where
  "flg_owns g current_lock current_generation \<longleftrightarrow>
     flg_active g \<and> current_lock = Some (flg_expires g) \<and> current_generation = flg_generation g"

definition flg_release ::
  "fenced_lease_guard \<Rightarrow> u64 option \<Rightarrow> u64 \<Rightarrow> lease_finish \<times> fenced_lease_guard" where
  "flg_release g current_lock current_generation =
     (if \<not> flg_active g then (Unchanged, g)
      else let owns = flg_owns g current_lock current_generation; g' = g\<lparr>flg_active := False\<rparr> in
        if owns then (Released, g') else (Unchanged, g'))"

section \<open>The contract\<close>

text \<open>
  \<open>acquire\<close> hands out a guard for a lock cell, \<open>install\<close> records it in the cell,
  \<open>owns\<close> is the ownership test and \<open>clear\<close> what the owner does to the cell on release.
  \<open>dead\<close> is the reason a guard that does not own the cell never owns it again; \<open>fits\<close>
  holds at times for which the expiry does not saturate.
\<close>

locale lease =
  fixes acquire :: "'m \<Rightarrow> u64 \<Rightarrow> 'l \<Rightarrow> 'g option"
    and install :: "'g \<Rightarrow> 'l \<Rightarrow> 'l"
    and owns :: "'g \<Rightarrow> 'l \<Rightarrow> bool"
    and clear :: "'l \<Rightarrow> 'l"
    and dead :: "u64 \<Rightarrow> 'l \<Rightarrow> 'g \<Rightarrow> bool"
    and wf :: "'g \<Rightarrow> bool"
    and fits :: "u64 \<Rightarrow> bool"
  assumes acquire_wf: "fits now \<Longrightarrow> acquire m now l = Some g \<Longrightarrow> wf g"
    and acquire_owns: "acquire m now l = Some g \<Longrightarrow> owns g (install g l)"
    and acquire_fences: "fits now \<Longrightarrow> acquire m now l = Some g \<Longrightarrow> wf h
      \<Longrightarrow> owns h l \<or> dead now l h \<Longrightarrow> dead now (install g l) h"
    and dead_not_owns: "dead now l h \<Longrightarrow> \<not> owns h l"
    and dead_later: "dead now l h \<Longrightarrow> now \<le> now' \<Longrightarrow> dead now' l h"
    and dead_clear: "wf h \<Longrightarrow> dead now l h \<Longrightarrow> dead now (clear l) h"
begin

text \<open>Any interleaving of time, acquisitions and releases, from a cell nobody holds.\<close>

inductive run :: "u64 \<Rightarrow> 'l \<Rightarrow> 'g list \<Rightarrow> bool" where
  start: "run now l []"
| tick: "run now l gs \<Longrightarrow> now \<le> now' \<Longrightarrow> run now' l gs"
| acquired: "run now l gs \<Longrightarrow> fits now \<Longrightarrow> acquire m now l = Some g
    \<Longrightarrow> run now (install g l) (g # gs)"
| released: "run now l (gs @ g # gs')
    \<Longrightarrow> run now (if owns g l then clear l else l) (gs @ gs')"

lemma run_inv:
  assumes "run now l gs"
  shows "(\<forall>h\<in>set gs. wf h \<and> (owns h l \<or> dead now l h)) \<and> length (filter (\<lambda>g. owns g l) gs) \<le> 1"
  using assms
proof induction
  case (start now l)
  then show ?case by simp
next
  case (tick now l gs now')
  then show ?case by (auto intro: dead_later)
next
  case (acquired now l gs m g)
  then have dead: "\<forall>h\<in>set gs. dead now (install g l) h" by (auto intro: acquire_fences)
  then have "filter (\<lambda>h. owns h (install g l)) gs = []"
    by (auto simp: filter_empty_conv dest: dead_not_owns)
  with acquired dead show ?case by (auto simp: acquire_owns intro: acquire_wf)
next
  case (released now l gs g gs')
  show ?case
  proof (cases "owns g l")
    case True
    with released.IH have "filter (\<lambda>h. owns h l) (gs @ gs') = []" by auto
    then have "\<forall>h\<in>set (gs @ gs'). \<not> owns h l" by (auto simp: filter_empty_conv)
    with released.IH have "\<forall>h\<in>set (gs @ gs'). wf h \<and> dead now (clear l) h"
      by (auto intro: dead_clear)
    moreover from this have "filter (\<lambda>h. owns h (clear l)) (gs @ gs') = []"
      using dead_not_owns by (auto simp: filter_empty_conv)
    ultimately show ?thesis using True by simp
  next
    case False
    with released.IH show ?thesis by auto
  qed
qed

lemma at_most_one_owner: "run now l gs \<Longrightarrow> length (filter (\<lambda>g. owns g l) gs) \<le> 1"
  using run_inv by blast

text \<open>A guard that lost the cell never owns it again, however time and other runs proceed.\<close>

lemma lost_is_dead: "run now l gs \<Longrightarrow> h \<in> set gs \<Longrightarrow> \<not> owns h l \<Longrightarrow> dead now l h"
  using run_inv by blast

end

section \<open>Both guards satisfy the contract\<close>

text \<open>How \<open>MainGuard\<close> of Disburser and Faucet uses \<open>TimerLeaseGuard\<close>: the cell is
  \<open>main_lock_state_ts\<close>, set to the expiry on acquisition and to \<open>Some(0)\<close> on release.\<close>

definition tlg_owns :: "timer_lease_guard \<Rightarrow> u64 option \<Rightarrow> bool" where
  "tlg_owns g lock \<longleftrightarrow> tlg_active g \<and> fst (tlg_release g lock) = Released"

definition tlg_dead :: "u64 \<Rightarrow> u64 option \<Rightarrow> timer_lease_guard \<Rightarrow> bool" where
  "tlg_dead now lock g \<longleftrightarrow> tlg_expires g \<le> now \<and> lock \<noteq> Some (tlg_expires g)"

definition no_saturation :: "u64 \<Rightarrow> u64 \<Rightarrow> bool" where
  "no_saturation lease_seconds now \<longleftrightarrow>
     0 < lease_seconds \<and> unat now + unat lease_seconds < 2 ^ 64"

lemma tlg_owns_iff: "tlg_owns g lock \<longleftrightarrow> tlg_active g \<and> lock = Some (tlg_expires g)"
  by (auto simp: tlg_owns_def tlg_release_def Let_def)

lemma no_saturation_expiry:
  "no_saturation ls now \<Longrightarrow> unat (sat_add now ls) = unat now + unat ls \<and> 0 < unat ls"
  by (auto simp: no_saturation_def sat_add_def unat_word_ariths unat_gt_0 word_less_nat_alt)

lemma tlg_acquire_Some: "tlg_acquire now ls lock = Some g \<longleftrightarrow>
    case_option 0 id lock \<le> now \<and> g = \<lparr>tlg_active = True, tlg_expires = sat_add now ls\<rparr>"
  by (auto simp: tlg_acquire_def not_le)

interpretation timer_lease: lease
  "\<lambda>(_::unit) now lock. tlg_acquire now ls lock" "\<lambda>g lock. Some (tlg_expires g)" tlg_owns
  "\<lambda>lock. Some 0" tlg_dead "\<lambda>g. tlg_expires g \<noteq> 0" "no_saturation ls" for ls
proof (unfold_locales, goal_cases)
  case (1 now m l g)
  then show ?case
    using no_saturation_expiry [of ls now]
    by (auto simp: tlg_acquire_Some simp flip: unat_eq_zero)
next
  case (2 m now l g)
  then show ?case by (auto simp: tlg_acquire_Some tlg_owns_iff)
next
  case (3 now m l g h)
  then have "tlg_expires h \<le> now"
    by (auto simp: tlg_acquire_Some tlg_owns_iff tlg_dead_def)
  moreover from this have "sat_add now ls \<noteq> tlg_expires h"
    using no_saturation_expiry [OF 3(1)] by (auto simp: word_le_nat_alt)
  ultimately show ?case using 3(2) by (simp add: tlg_acquire_Some tlg_dead_def)
qed (auto simp: tlg_dead_def tlg_owns_iff)

definition flg_owns_cell :: "fenced_lease_guard \<Rightarrow> u64 option \<times> u64 \<Rightarrow> bool" where
  "flg_owns_cell g cell = flg_owns g (fst cell) (snd cell)"

definition flg_dead :: "u64 \<Rightarrow> u64 option \<times> u64 \<Rightarrow> fenced_lease_guard \<Rightarrow> bool" where
  "flg_dead now cell g \<longleftrightarrow> flg_generation g < snd cell"

interpretation fenced_lease: lease
  "\<lambda>preempt now cell. flg_acquire now ls (fst cell) (snd cell) preempt"
  "\<lambda>g cell. (Some (flg_expires g), flg_generation g)" flg_owns_cell
  "\<lambda>cell. (Some 0, snd cell)" flg_dead "\<lambda>g. flg_expires g \<noteq> 0" "no_saturation ls" for ls
proof (unfold_locales, goal_cases)
  case (1 now m l g)
  then show ?case
    using no_saturation_expiry [of ls now]
    by (auto simp: flg_acquire_def split: if_splits option.splits simp flip: unat_eq_zero)
next
  case (2 m now l g)
  then show ?case
    by (auto simp: flg_acquire_def flg_owns_cell_def flg_owns_def split: if_splits option.splits)
next
  case (3 now m l g h)
  then have "checked_add (snd l) 1 = Some (flg_generation g)"
    by (auto simp: flg_acquire_def split: if_splits option.splits)
  then have "unat (flg_generation g) = unat (snd l) + 1" by (simp add: checked_add_Some)
  moreover have "flg_generation h \<le> snd l"
    using 3(4) by (auto simp: flg_owns_cell_def flg_owns_def flg_dead_def)
  ultimately have "flg_generation h < flg_generation g" by (simp add: u_simps)
  then show ?case by (simp add: flg_dead_def)
qed (auto simp: flg_dead_def flg_owns_cell_def flg_owns_def)


section \<open>Properties\<close>

text \<open>C7: mutual exclusion of main runs: however acquisitions, releases and time interleave (and as
  long as the clock is not within a lease of its end), at most one outstanding lease guard owns the
  lock, and a guard that does not own it has expired for good.\<close>

theorem timer_lease_exclusive:
  assumes "timer_lease.run ls now lock gs"
  shows "length (filter (\<lambda>g. tlg_owns g lock) gs) \<le> 1 \<and>
    (\<forall>h\<in>set gs. \<not> tlg_owns h lock \<longrightarrow> tlg_expires h \<le> now \<and> lock \<noteq> Some (tlg_expires h))"
  using timer_lease.at_most_one_owner [OF assms] timer_lease.lost_is_dead [OF assms]
  by (auto simp: tlg_dead_def)

theorem timer_lease_exclusive_witness:
  "length (filter (\<lambda>g. tlg_owns g (Some 1900)) [\<lparr>tlg_active = True, tlg_expires = 1900\<rparr>,
     \<lparr>tlg_active = True, tlg_expires = 910\<rparr>]) \<le> 1"
proof -
  have fits: "no_saturation 900 10" "no_saturation 900 1000" by (simp_all add: no_saturation_def)
  have "timer_lease.run 900 10 (Some 910) [\<lparr>tlg_active = True, tlg_expires = 910\<rparr>]"
    using timer_lease.acquired [OF timer_lease.start [of 900 10 None] fits(1)]
    by (simp add: tlg_acquire_def sat_add_def)
  then have "timer_lease.run 900 1000 (Some 910) [\<lparr>tlg_active = True, tlg_expires = 910\<rparr>]"
    by (rule timer_lease.tick) simp
  from timer_lease.acquired [OF this fits(2)]
  have "timer_lease.run 900 1000 (Some 1900)
      [\<lparr>tlg_active = True, tlg_expires = 1900\<rparr>, \<lparr>tlg_active = True, tlg_expires = 910\<rparr>]"
    by (simp add: tlg_acquire_def sat_add_def)
  from timer_lease_exclusive [OF this] show ?thesis by blast
qed

text \<open>C8: the fenced lease is exclusive even under preemption: whoever acquires, with or without waiting
  for expiry, at most one outstanding guard owns the lock and the generation.\<close>

theorem fenced_lease_exclusive:
  assumes "fenced_lease.run ls now cell gs"
  shows "length (filter (\<lambda>g. flg_owns g (fst cell) (snd cell)) gs) \<le> 1 \<and>
    (\<forall>h\<in>set gs. \<not> flg_owns h (fst cell) (snd cell) \<longrightarrow> flg_generation h < snd cell)"
  using fenced_lease.at_most_one_owner [OF assms] fenced_lease.lost_is_dead [OF assms]
  by (auto simp: flg_dead_def flg_owns_cell_def)

theorem fenced_lease_exclusive_witness:
  "length (filter (\<lambda>g. flg_owns g (Some 911) 2)
     [\<lparr>flg_active = True, flg_expires = 911, flg_generation = 2\<rparr>,
      \<lparr>flg_active = True, flg_expires = 910, flg_generation = 1\<rparr>]) \<le> 1"
proof -
  have fits: "no_saturation 900 10" "no_saturation 900 11" by (simp_all add: no_saturation_def)
  have "fenced_lease.run 900 10 (Some 910, 1)
      [\<lparr>flg_active = True, flg_expires = 910, flg_generation = 1\<rparr>]"
    using fenced_lease.acquired [OF fenced_lease.start [of 900 10 "(None, 0)"] fits(1), of False]
    by (simp add: flg_acquire_def checked_add_def sat_add_def)
  then have "fenced_lease.run 900 11 (Some 910, 1)
      [\<lparr>flg_active = True, flg_expires = 910, flg_generation = 1\<rparr>]"
    by (rule fenced_lease.tick) simp
  from fenced_lease.acquired [OF this fits(2), of True]
  have "fenced_lease.run 900 11 (Some 911, 2)
      [\<lparr>flg_active = True, flg_expires = 911, flg_generation = 2\<rparr>,
       \<lparr>flg_active = True, flg_expires = 910, flg_generation = 1\<rparr>]"
    by (simp add: flg_acquire_def checked_add_def sat_add_def)
  from fenced_lease_exclusive [OF this] show ?thesis by (simp only: fst_conv snd_conv)
qed

end
