(* ===== verification/PokeGate.thy ===== *)
theory PokeGate
  imports Prelude
begin

text \<open>
  Event Horizon pokes: the in-memory gates of \<open>scheduler/poke.rs\<close> of the Disburser, the Faucet and the
  Relay.  A poke records a hint, which keeps one deferred
  timer outstanding, and asks for an attempt, which is admitted at most once per interval.  The
  canisters record a hint differently; \<open>poke_gate\<close> is the contract all satisfy.
\<close>

definition poke_interval_seconds :: u64 where "poke_interval_seconds = 10"
definition nanos_per_second :: u64 where "nanos_per_second = 1000000000"

definition poke_interval_nanos :: u64 where
  "poke_interval_nanos = poke_interval_seconds * nanos_per_second"

record poke_runtime =
  pr_due_at_ns :: "u64 option"
  pr_timer_pending :: bool
  pr_next_attempt_allowed_at_ns :: u64

definition poke_runtime_init :: poke_runtime where
  "poke_runtime_init =
     \<lparr>pr_due_at_ns = None, pr_timer_pending = False, pr_next_attempt_allowed_at_ns = 0\<rparr>"

datatype deferred_timer_action = Stop | Reschedule u64 | Attempt

section \<open>Disburser\<close>

definition disburser_record_hint :: "u64 \<Rightarrow> poke_runtime \<Rightarrow> bool \<times> poke_runtime" where
  "disburser_record_hint now_ns rt =
     (let rt1 = rt\<lparr>pr_due_at_ns := Some (sat_add now_ns poke_interval_nanos)\<rparr>;
          should_schedule = \<not> pr_timer_pending rt1
      in (should_schedule, rt1\<lparr>pr_timer_pending := True\<rparr>))"

definition disburser_admit_attempt :: "u64 \<Rightarrow> poke_runtime \<Rightarrow> bool \<times> poke_runtime" where
  "disburser_admit_attempt now_ns rt =
     (if pr_next_attempt_allowed_at_ns rt > now_ns then (False, rt)
      else (True, rt\<lparr>pr_next_attempt_allowed_at_ns := sat_add now_ns poke_interval_nanos\<rparr>))"

definition disburser_deferred_timer_action ::
  "u64 \<Rightarrow> poke_runtime \<Rightarrow> deferred_timer_action \<times> poke_runtime" where
  "disburser_deferred_timer_action now_ns rt =
     (case pr_due_at_ns rt of
        Some due \<Rightarrow> if due > now_ns then (Reschedule (due - now_ns), rt)
          else (Attempt, rt\<lparr>pr_due_at_ns := None, pr_timer_pending := False\<rparr>)
      | None \<Rightarrow> (Stop, rt\<lparr>pr_timer_pending := False\<rparr>))"

section \<open>Faucet\<close>

definition faucet_record_hint :: "u64 \<Rightarrow> poke_runtime \<Rightarrow> bool \<times> poke_runtime" where
  "faucet_record_hint now_ns rt =
     (if pr_timer_pending rt then (False, rt)
      else (True, rt\<lparr>pr_due_at_ns := Some (sat_add now_ns
              (sat_mul poke_interval_seconds nanos_per_second)),
            pr_timer_pending := True\<rparr>))"

definition faucet_admit_attempt :: "u64 \<Rightarrow> poke_runtime \<Rightarrow> bool \<times> poke_runtime" where
  "faucet_admit_attempt now_ns rt =
     (if pr_next_attempt_allowed_at_ns rt > now_ns then (False, rt)
      else (True, rt\<lparr>pr_next_attempt_allowed_at_ns :=
        sat_add now_ns (sat_mul poke_interval_seconds nanos_per_second)\<rparr>))"

definition faucet_deferred_timer_action ::
  "u64 \<Rightarrow> poke_runtime \<Rightarrow> deferred_timer_action \<times> poke_runtime" where
  "faucet_deferred_timer_action now_ns rt =
     (case pr_due_at_ns rt of
        Some due_at_ns \<Rightarrow> if due_at_ns > now_ns then (Reschedule (due_at_ns - now_ns), rt)
          else (Attempt, rt\<lparr>pr_due_at_ns := None, pr_timer_pending := False\<rparr>)
      | None \<Rightarrow> (Stop, rt\<lparr>pr_timer_pending := False\<rparr>))"

section \<open>Relay\<close>

definition relay_record_hint :: "u64 \<Rightarrow> poke_runtime \<Rightarrow> bool \<times> poke_runtime" where
  "relay_record_hint now_ns rt =
     (let rt1 = rt\<lparr>pr_due_at_ns := Some (sat_add now_ns poke_interval_nanos)\<rparr>;
          should_schedule = \<not> pr_timer_pending rt1
      in (should_schedule, rt1\<lparr>pr_timer_pending := True\<rparr>))"

definition relay_admit_attempt :: "u64 \<Rightarrow> poke_runtime \<Rightarrow> bool \<times> poke_runtime" where
  "relay_admit_attempt now_ns rt =
     (if pr_next_attempt_allowed_at_ns rt > now_ns then (False, rt)
      else (True, rt\<lparr>pr_next_attempt_allowed_at_ns := sat_add now_ns poke_interval_nanos\<rparr>))"

definition relay_deferred_timer_action ::
  "u64 \<Rightarrow> poke_runtime \<Rightarrow> deferred_timer_action \<times> poke_runtime" where
  "relay_deferred_timer_action now_ns rt =
     (case pr_due_at_ns rt of
        Some due \<Rightarrow> if due > now_ns then (Reschedule (due - now_ns), rt)
          else (Attempt, rt\<lparr>pr_due_at_ns := None, pr_timer_pending := False\<rparr>)
      | None \<Rightarrow> (Stop, rt\<lparr>pr_timer_pending := False\<rparr>))"

section \<open>The contract\<close>

text \<open>The laws speak of the runtime through \<open>due\<close>, \<open>pending\<close> and \<open>next\<close>.\<close>

locale poke_gate =
  fixes hint :: "u64 \<Rightarrow> 'rt \<Rightarrow> bool \<times> 'rt"
    and admit :: "u64 \<Rightarrow> 'rt \<Rightarrow> bool \<times> 'rt"
    and action :: "u64 \<Rightarrow> 'rt \<Rightarrow> deferred_timer_action \<times> 'rt"
    and initial :: 'rt
    and due :: "'rt \<Rightarrow> u64 option"
    and pending :: "'rt \<Rightarrow> bool"
    and allowed_at :: "'rt \<Rightarrow> u64"
    and interval :: u64
  assumes initial_idle: "due initial = None" "\<not> pending initial" "allowed_at initial = 0"
    and hint_schedules: "fst (hint now rt) \<longleftrightarrow> \<not> pending rt"
    and hint_pending: "pending (snd (hint now rt))"
    and hint_due: "(pending rt \<longrightarrow> due rt \<noteq> None) \<Longrightarrow> due (snd (hint now rt)) \<noteq> None"
    and hint_allowed: "allowed_at (snd (hint now rt)) = allowed_at rt"
    and admit_iff: "fst (admit now rt) \<longleftrightarrow> allowed_at rt \<le> now"
    and admit_yes: "allowed_at rt \<le> now \<Longrightarrow> allowed_at (snd (admit now rt)) = sat_add now interval"
    and admit_no: "now < allowed_at rt \<Longrightarrow> allowed_at (snd (admit now rt)) = allowed_at rt"
    and admit_frame: "due (snd (admit now rt)) = due rt" "pending (snd (admit now rt)) = pending rt"
    and action_allowed: "allowed_at (snd (action now rt)) = allowed_at rt"
    and action_none: "due rt = None \<Longrightarrow> fst (action now rt) = Stop"
    and action_some: "due rt = Some d \<Longrightarrow>
      fst (action now rt) = (if d \<le> now then Attempt else Reschedule (d - now))"
    and action_wait: "fst (action now rt) = Reschedule d \<Longrightarrow> snd (action now rt) = rt"
    and action_over: "fst (action now rt) \<in> {Stop, Attempt} \<Longrightarrow>
      due (snd (action now rt)) = None \<and> \<not> pending (snd (action now rt))"
begin

text \<open>Every order of pokes, timer callbacks and time: the clock, the runtime, the number of
  outstanding deferred timers and the times of the admitted attempts, newest first.\<close>

inductive run :: "u64 \<Rightarrow> 'rt \<Rightarrow> nat \<Rightarrow> u64 list \<Rightarrow> bool" where
  start: "run now initial 0 []"
| tick: "run now rt n adm \<Longrightarrow> now \<le> now' \<Longrightarrow> run now' rt n adm"
| hinted: "run now rt n adm
    \<Longrightarrow> run now (snd (hint now rt)) (if fst (hint now rt) then Suc n else n) adm"
| admitted: "run now rt n adm
    \<Longrightarrow> run now (snd (admit now rt)) n (if fst (admit now rt) then now # adm else adm)"
| fired: "run now rt (Suc n) adm
    \<Longrightarrow> run now (snd (action now rt)) (if fst (action now rt) \<in> {Stop, Attempt} then n else Suc n) adm"

definition spaced :: "u64 list \<Rightarrow> bool" where
  "spaced ts = sorted_wrt (\<lambda>later earlier. sat_add earlier interval \<le> later) ts"

lemma run_inv:
  assumes "run now rt n adm"
  shows "n = (if pending rt then 1 else 0) \<and> (pending rt \<longleftrightarrow> due rt \<noteq> None) \<and> spaced adm
    \<and> (\<forall>t\<in>set adm. sat_add t interval \<le> allowed_at rt)"
  using assms
proof induction
  case (start now)
  then show ?case by (simp add: initial_idle spaced_def)
next
  case (hinted now rt n adm)
  then have "due (snd (hint now rt)) \<noteq> None" by (intro hint_due) simp
  with hinted show ?case by (auto simp: hint_schedules hint_pending hint_allowed)
next
  case (admitted now rt n adm)
  show ?case
  proof (cases "allowed_at rt \<le> now")
    case True
    with admitted have "\<forall>t\<in>set adm. sat_add t interval \<le> now" by force
    moreover have "now \<le> sat_add now interval" by (rule le_sat_add)
    ultimately show ?thesis
      using admitted True by (auto simp: admit_iff admit_yes admit_frame spaced_def)
  next
    case False
    then show ?thesis using admitted by (simp add: admit_iff admit_no admit_frame)
  qed
next
  case (fired now rt n adm)
  show ?case
  proof (cases "fst (action now rt)")
    case Stop
    then show ?thesis using fired action_over [of now rt] by (auto simp: action_allowed split: if_splits)
  next
    case (Reschedule d)
    then show ?thesis using fired action_wait [of now rt d] by (auto split: if_splits)
  next
    case Attempt
    then show ?thesis using fired action_over [of now rt] by (auto simp: action_allowed split: if_splits)
  qed
qed simp

lemma attempts_spaced: "run now rt n adm \<Longrightarrow> spaced adm"
  using run_inv by blast

text \<open>No hint is dropped: while a hint is unserved a timer is outstanding, it is the only one, and
  its callback at or after the due time attempts.\<close>

lemma hint_served: "run now rt n adm \<Longrightarrow> due rt = Some d \<Longrightarrow> n = 1 \<and> (d \<le> now \<longrightarrow> fst (action now rt) = Attempt)"
  using run_inv [of now rt n adm] by (simp add: action_some)

lemma one_timer: "run now rt n adm \<Longrightarrow> n \<le> 1"
  using run_inv [of now rt n adm] by simp

end

lemma poke_interval_value: "poke_interval_nanos = 10000000000"
  by (simp add: poke_interval_nanos_def poke_interval_seconds_def nanos_per_second_def)

lemma poke_interval_mul: "sat_mul poke_interval_seconds nanos_per_second = poke_interval_nanos"
  by (simp add: sat_mul_def poke_interval_nanos_def poke_interval_seconds_def nanos_per_second_def)

interpretation disburser_poke: poke_gate disburser_record_hint disburser_admit_attempt
  disburser_deferred_timer_action poke_runtime_init pr_due_at_ns pr_timer_pending
  pr_next_attempt_allowed_at_ns poke_interval_nanos
  by unfold_locales
    (auto simp: disburser_record_hint_def disburser_admit_attempt_def Let_def
      disburser_deferred_timer_action_def poke_runtime_init_def split: option.splits if_splits)

interpretation relay_poke: poke_gate relay_record_hint relay_admit_attempt
  relay_deferred_timer_action poke_runtime_init pr_due_at_ns pr_timer_pending
  pr_next_attempt_allowed_at_ns poke_interval_nanos
  by unfold_locales
    (auto simp: relay_record_hint_def relay_admit_attempt_def Let_def
      relay_deferred_timer_action_def poke_runtime_init_def split: option.splits if_splits)

interpretation faucet_poke: poke_gate faucet_record_hint faucet_admit_attempt
  faucet_deferred_timer_action poke_runtime_init pr_due_at_ns pr_timer_pending
  pr_next_attempt_allowed_at_ns poke_interval_nanos
  by unfold_locales
    (auto simp: faucet_record_hint_def faucet_admit_attempt_def poke_interval_mul
      faucet_deferred_timer_action_def poke_runtime_init_def split: option.splits if_splits)

section \<open>Properties\<close>

text \<open>the Disburser's poke gate, in every order of pokes, timer callbacks and time: attempts are
  admitted at least one interval apart (saturating at the end of time), at most one deferred timer is
  outstanding, and a recorded hint always has that timer to serve it.\<close>

theorem disburser_poke_gate:
  assumes "disburser_poke.run now rt timers admitted"
  shows "sorted_wrt (\<lambda>later earlier. sat_add earlier 10000000000 \<le> later) admitted \<and> timers \<le> 1 \<and>
    (pr_due_at_ns rt \<noteq> None \<longrightarrow> timers = 1)"
  using disburser_poke.attempts_spaced [OF assms, unfolded disburser_poke.spaced_def]
    disburser_poke.one_timer [OF assms] disburser_poke.hint_served [OF assms]
  by (auto simp: poke_interval_value)

theorem disburser_poke_gate_witness:
  "\<exists>rt. disburser_poke.run 5 rt 1 [5] \<and> pr_due_at_ns rt = Some 10000000005 \<and>
     sorted_wrt (\<lambda>later earlier. sat_add earlier 10000000000 \<le> later) [5]"
proof -
  note start = disburser_poke.start [of 5]
  from disburser_poke.admitted [OF disburser_poke.hinted [OF start]]
  have run: "disburser_poke.run 5 \<lparr>pr_due_at_ns = Some 10000000005, pr_timer_pending = True,
      pr_next_attempt_allowed_at_ns = 10000000005\<rparr> 1 [5]"
    by (simp add: disburser_record_hint_def disburser_admit_attempt_def poke_runtime_init_def
        poke_interval_nanos_def poke_interval_seconds_def nanos_per_second_def sat_add_def)
  with disburser_poke_gate [OF run] show ?thesis by auto
qed

text \<open>the Faucet's poke gate satisfies the same contract although a hint does not move the due
  time of a pending timer.\<close>

theorem faucet_poke_gate:
  assumes "faucet_poke.run now rt timers admitted"
  shows "sorted_wrt (\<lambda>later earlier. sat_add earlier 10000000000 \<le> later) admitted \<and> timers \<le> 1 \<and>
    (pr_due_at_ns rt \<noteq> None \<longrightarrow> timers = 1)"
  using faucet_poke.attempts_spaced [OF assms, unfolded faucet_poke.spaced_def]
    faucet_poke.one_timer [OF assms] faucet_poke.hint_served [OF assms]
  by (auto simp: poke_interval_value)

theorem faucet_poke_gate_witness:
  "\<exists>rt. faucet_poke.run 7 rt 1 [] \<and> pr_due_at_ns rt \<noteq> None \<and> (1::nat) \<le> 1"
proof -
  from faucet_poke.hinted [OF faucet_poke.start [of 7]]
  have run: "faucet_poke.run 7 \<lparr>pr_due_at_ns = Some 10000000007, pr_timer_pending = True,
      pr_next_attempt_allowed_at_ns = 0\<rparr> 1 []"
    by (simp add: faucet_record_hint_def poke_runtime_init_def poke_interval_mul
        poke_interval_value sat_add_def)
  with faucet_poke_gate [OF run] show ?thesis by auto
qed

end
