(* ===== verification/Ledger.thy ===== *)
theory Ledger
  imports Accounts
begin

text \<open>
  The vocabulary the canisters share with the ledger, with NNS governance and with the management
  canister: the ICRC-1 transfer argument and errors, the client errors, the controller update,
  and the Event Horizon notification (\<open>crates/ic-clients/src/ledger.rs\<close>,
  \<open>management.rs\<close>, \<open>event_horizon.rs\<close>).
\<close>

datatype client_error = CallError string | ConvertError string

record governance_error =
  ge_message :: string
  ge_type :: int

text \<open>\<open>icrc_ledger_types::icrc1::transfer\<close>; a \<open>Nat\<close> is an unbounded natural.\<close>

record transfer_arg =
  ta_from_subaccount :: "subaccount option"
  ta_to :: account
  ta_fee :: "nat option"
  ta_created_at_time :: "u64 option"
  ta_memo :: "bytes option"
  ta_amount :: nat

datatype transfer_error =
    BadFee nat
  | BadBurn nat
  | InsufficientFunds nat
  | TooOld
  | CreatedInFuture u64
  | TemporarilyUnavailable
  | Duplicate nat
  | GenericError nat string

definition nat_to_u64 :: "nat \<Rightarrow> client_error + u64" where
  "nat_to_u64 n = (if n < 2 ^ 64 then Inr (word_of_nat n)
     else Inl (ConvertError ''Nat does not fit u64''))"

text \<open>The controller update sent to the management canister.\<close>

datatype visibility = Controllers | Public | AllowedViewers "principal list"

record canister_settings =
  cs_controllers :: "principal list option"
  cs_log_visibility :: "visibility option"
  cs_status_visibility :: "visibility option"

record update_settings_args =
  us_canister_id :: principal
  us_settings :: canister_settings

datatype poke_target = PokeSubaccount u64 | PokeNeuronNonce u64

record poke_match =
  pm_subject :: principal
  pm_target :: poke_target
  pm_first_block_index :: u64
  pm_max_amount :: nat

record poke_notification =
  pn_global_activity :: bool
  pn_matches :: "poke_match list"

text \<open>The hard-coded mainnet principals (\<open>constants.rs\<close>): parsing them panics when the text is
  not a principal, so the result is an option.\<close>

definition icp_ledger_id :: "candid_ops \<Rightarrow> principal option" where
  "icp_ledger_id cx = principal_from_text cx (ascii ''ryjl3-tyaaa-aaaaa-aaaba-cai'')"

definition icp_index_id :: "candid_ops \<Rightarrow> principal option" where
  "icp_index_id cx = principal_from_text cx (ascii ''qhbym-qaaaa-aaaaa-aaafq-cai'')"

definition nns_governance_id :: "candid_ops \<Rightarrow> principal option" where
  "nns_governance_id cx = principal_from_text cx (ascii ''rrkah-fqaaa-aaaaa-aaaaq-cai'')"

definition cycles_minting_canister_id :: "candid_ops \<Rightarrow> principal option" where
  "cycles_minting_canister_id cx = principal_from_text cx (ascii ''rkp4c-7iaaa-aaaaa-aaaca-cai'')"

text \<open>A sequence of \<open>assert!\<close>s: the first that fails panics with its message.\<close>

fun run_asserts :: "(bool \<times> string) list \<Rightarrow> string + unit" where
  "run_asserts [] = Inr ()"
| "run_asserts ((c, msg) # rest) = (if c then run_asserts rest else Inl msg)"

lemma run_asserts_ok: "run_asserts cs = Inr () \<longleftrightarrow> list_all fst cs"
  by (induction cs rule: run_asserts.induct) auto

lemma run_asserts_cases: "(\<exists>msg. run_asserts cs = Inl msg) \<or> run_asserts cs = Inr ()"
  by (induction cs rule: run_asserts.induct) auto

definition assert_non_anonymous_principal :: "candid_ops \<Rightarrow> string \<Rightarrow> principal \<Rightarrow> bool \<times> string" where
  "assert_non_anonymous_principal cx name p =
     (p \<noteq> principal_anonymous cx, name @ '' must not be the anonymous principal'')"

lemma assert_non_anonymous_fst [simp]:
  "fst (assert_non_anonymous_principal cx name p) \<longleftrightarrow> p \<noteq> principal_anonymous cx"
  by (simp add: assert_non_anonymous_principal_def)

lemma nat_to_u64_ok: "nat_to_u64 n = Inr w \<longleftrightarrow> n < 2 ^ 64 \<and> w = word_of_nat n"
  by (auto simp: nat_to_u64_def)

end
