(* ===== verification/DisburserState.thy ===== *)
theory DisburserState
  imports Ledger
begin

text \<open>
  The Disburser's persistent state (\<open>canisters/disburser/src/state.rs\<close>) and its lifecycle
  (\<open>lib.rs\<close>): configuration and its validation, installation, and the changes an upgrade makes.
\<close>

section \<open>State\<close>

record dconfig =
  dc_neuron_id :: u64
  dc_normal_recipient :: account
  dc_age_bonus_recipient_1 :: account
  dc_age_bonus_recipient_2 :: account
  dc_ledger_canister_id :: principal
  dc_governance_canister_id :: principal
  dc_rescue_controller :: principal
  dc_autonomous_rescue_armed :: "bool option"
  dc_main_interval_seconds :: u64
  dc_rescue_interval_seconds :: u64

datatype transfer_status = Pending | Sent bytes

record planned_transfer =
  pt_to :: account
  pt_gross_share_e8s :: u64
  pt_amount_e8s :: u64
  pt_created_at_time_nanos :: u64
  pt_memo :: bytes
  pt_status :: transfer_status

record payout_plan =
  pp_id :: u64
  pp_fee_e8s :: u64
  pp_created_at_base_nanos :: u64
  pp_transfers :: "planned_transfer list"

datatype forced_rescue_reason = BootstrapNoSuccess

record dstate =
  ds_config :: dconfig
  ds_prev_age_seconds :: u64
  ds_last_successful_transfer_ts :: "u64 option"
  ds_last_rescue_check_ts :: u64
  ds_rescue_triggered :: bool
  ds_autonomous_rescue_armed_since_ts :: "u64 option"
  ds_forced_rescue_reason :: "forced_rescue_reason option"
  ds_main_lock_state_ts :: "u64 option"
  ds_payout_nonce :: u64
  ds_payout_plan :: "payout_plan option"
  ds_last_main_run_ts :: u64

definition dstate_new :: "dconfig \<Rightarrow> u64 \<Rightarrow> dstate" where
  "dstate_new cfg now_secs =
     \<lparr>ds_config = cfg, ds_prev_age_seconds = 0, ds_last_successful_transfer_ts = None,
      ds_last_rescue_check_ts = 0, ds_rescue_triggered = False,
      ds_autonomous_rescue_armed_since_ts =
        (if case_option False id (dc_autonomous_rescue_armed cfg) then Some now_secs else None),
      ds_forced_rescue_reason = None, ds_main_lock_state_ts = Some 0, ds_payout_nonce = 1,
      ds_payout_plan = None,
      ds_last_main_run_ts = sat_sub now_secs (10 * 365 * 24 * 60 * 60)\<rparr>"

section \<open>Lifecycle\<close>

definition disburser_validate_config :: "candid_ops \<Rightarrow> principal \<Rightarrow> dconfig \<Rightarrow> string + unit" where
  "disburser_validate_config cx self_id cfg =
     (let staging_account = \<lparr>acc_owner = self_id, acc_subaccount = None\<rparr> in
      run_asserts
       [(dc_neuron_id cfg \<noteq> 0, ''neuron_id must be non-zero''),
        assert_non_anonymous_principal cx ''ledger_canister_id'' (dc_ledger_canister_id cfg),
        assert_non_anonymous_principal cx ''governance_canister_id'' (dc_governance_canister_id cfg),
        assert_non_anonymous_principal cx ''rescue_controller'' (dc_rescue_controller cfg),
        (dc_rescue_controller cfg \<noteq> self_id,
          ''rescue_controller must not equal the disburser canister principal''),
        (dc_main_interval_seconds cfg > 0, ''main_interval_seconds must be greater than 0''),
        (dc_rescue_interval_seconds cfg > 0, ''rescue_interval_seconds must be greater than 0''),
        assert_non_anonymous_principal cx ''normal_recipient.owner''
          (acc_owner (dc_normal_recipient cfg)),
        assert_non_anonymous_principal cx ''age_bonus_recipient_1.owner''
          (acc_owner (dc_age_bonus_recipient_1 cfg)),
        assert_non_anonymous_principal cx ''age_bonus_recipient_2.owner''
          (acc_owner (dc_age_bonus_recipient_2 cfg)),
        (dc_normal_recipient cfg \<noteq> staging_account,
          ''normal_recipient must not equal the disburser staging account''),
        (dc_age_bonus_recipient_1 cfg \<noteq> staging_account,
          ''age_bonus_recipient_1 must not equal the disburser staging account''),
        (dc_age_bonus_recipient_2 cfg \<noteq> staging_account,
          ''age_bonus_recipient_2 must not equal the disburser staging account''),
        (dc_normal_recipient cfg \<noteq> dc_age_bonus_recipient_1 cfg,
          ''normal_recipient and age_bonus_recipient_1 must be distinct''),
        (dc_normal_recipient cfg \<noteq> dc_age_bonus_recipient_2 cfg,
          ''normal_recipient and age_bonus_recipient_2 must be distinct''),
        (dc_age_bonus_recipient_1 cfg \<noteq> dc_age_bonus_recipient_2 cfg,
          ''age_bonus_recipient_1 and age_bonus_recipient_2 must be distinct'')])"

record dinit_args =
  di_neuron_id :: u64
  di_normal_recipient :: account
  di_age_bonus_recipient_1 :: account
  di_age_bonus_recipient_2 :: account
  di_ledger_canister_id :: "principal option"
  di_governance_canister_id :: "principal option"
  di_rescue_controller :: principal
  di_autonomous_rescue_armed :: "bool option"
  di_main_interval_seconds :: "u64 option"
  di_rescue_interval_seconds :: "u64 option"

definition unwrap_or :: "'a option \<Rightarrow> 'a \<Rightarrow> 'a" where
  "unwrap_or x d = (case x of Some y \<Rightarrow> y | None \<Rightarrow> d)"

text \<open>The state \<open>init\<close> installs, or the message it panics with.  The two default principals
  are evaluated only when the argument lacks them.\<close>

definition disburser_init :: "candid_ops \<Rightarrow> principal \<Rightarrow> u64 \<Rightarrow> dinit_args \<Rightarrow> string + dstate" where
  "disburser_init cx self_id now_secs args =
     (case (case di_ledger_canister_id args of Some p \<Rightarrow> Some p | None \<Rightarrow> icp_ledger_id cx) of
        None \<Rightarrow> Inl ''invalid hardcoded ICP ledger principal''
      | Some ledger \<Rightarrow>
     (case (case di_governance_canister_id args of Some p \<Rightarrow> Some p | None \<Rightarrow> nns_governance_id cx) of
        None \<Rightarrow> Inl ''invalid hardcoded NNS governance principal''
      | Some governance \<Rightarrow>
      let cfg = \<lparr>dc_neuron_id = di_neuron_id args,
            dc_normal_recipient = di_normal_recipient args,
            dc_age_bonus_recipient_1 = di_age_bonus_recipient_1 args,
            dc_age_bonus_recipient_2 = di_age_bonus_recipient_2 args,
            dc_ledger_canister_id = ledger, dc_governance_canister_id = governance,
            dc_rescue_controller = di_rescue_controller args,
            dc_autonomous_rescue_armed = di_autonomous_rescue_armed args,
            dc_main_interval_seconds = unwrap_or (di_main_interval_seconds args) 86400,
            dc_rescue_interval_seconds = unwrap_or (di_rescue_interval_seconds args) 86400\<rparr>
      in case disburser_validate_config cx self_id cfg of
           Inl msg \<Rightarrow> Inl msg
         | Inr _ \<Rightarrow> Inr (dstate_new cfg now_secs)))"

record dupgrade_args =
  du_autonomous_rescue_armed :: "bool option"
  du_clear_forced_rescue :: "bool option"

text \<open>The arguments' effect before validation; the second component is
  \<open>schedule_immediate_controller_reconcile\<close>.\<close>

definition disburser_set_armed :: "u64 \<Rightarrow> bool \<Rightarrow> dstate \<Rightarrow> dstate" where
  "disburser_set_armed now_secs armed st =
     (let st1 = st\<lparr>ds_config := (ds_config st)\<lparr>dc_autonomous_rescue_armed := Some armed\<rparr>,
            ds_autonomous_rescue_armed_since_ts := (if armed then Some now_secs else None)\<rparr>
      in if \<not> armed then st1\<lparr>ds_rescue_triggered := False\<rparr> else st1)"

definition disburser_clear_forced :: "u64 \<Rightarrow> dstate \<Rightarrow> dstate \<times> bool" where
  "disburser_clear_forced now_secs st =
     (let st1 = st\<lparr>ds_forced_rescue_reason := None\<rparr> in
      if unwrap_or (dc_autonomous_rescue_armed (ds_config st1)) False
      then (st1\<lparr>ds_autonomous_rescue_armed_since_ts := Some now_secs, ds_rescue_triggered := True\<rparr>, True)
      else (st1\<lparr>ds_autonomous_rescue_armed_since_ts := None, ds_rescue_triggered := False\<rparr>, False))"

definition disburser_apply_upgrade_args_to_state ::
  "candid_ops \<Rightarrow> principal \<Rightarrow> dstate \<Rightarrow> dupgrade_args option \<Rightarrow> u64 \<Rightarrow> string + dstate \<times> bool" where
  "disburser_apply_upgrade_args_to_state cx self_id st args now_secs =
     (let (st1, reconcile) =
        (case args of
           None \<Rightarrow> (st, False)
         | Some a \<Rightarrow>
             let sta = (case du_autonomous_rescue_armed a of
                   None \<Rightarrow> st
                 | Some armed \<Rightarrow> disburser_set_armed now_secs armed st)
             in if unwrap_or (du_clear_forced_rescue a) False
                then disburser_clear_forced now_secs sta else (sta, False))
      in case disburser_validate_config cx self_id (ds_config st1) of
           Inl msg \<Rightarrow> Inl msg
         | Inr _ \<Rightarrow> Inr (st1\<lparr>ds_main_lock_state_ts := Some 0\<rparr>, reconcile))"

section \<open>Event Horizon admission\<close>

definition disburser_event_horizon_whitelist :: "bytes list" where
  "disburser_event_horizon_whitelist = [[0, 0, 0, 0, 2, 48, 17, 226, 1, 1]]"

definition disburser_caller_is_whitelisted :: "principal \<Rightarrow> bool" where
  "disburser_caller_is_whitelisted caller =
     list_ex (\<lambda>allowed. caller = allowed) disburser_event_horizon_whitelist"

definition disburser_has_relevant_match :: "poke_match list \<Rightarrow> principal \<Rightarrow> bool" where
  "disburser_has_relevant_match matches subject =
     list_ex (\<lambda>item. pm_subject item = subject \<and> pm_target item = PokeSubaccount 0) matches"

section \<open>Facts\<close>

definition valid_dconfig :: "candid_ops \<Rightarrow> principal \<Rightarrow> dconfig \<Rightarrow> bool" where
  "valid_dconfig cx self_id cfg \<longleftrightarrow> disburser_validate_config cx self_id cfg = Inr ()"

lemma valid_dconfig_armed [simp]:
  "valid_dconfig cx self_id (cfg\<lparr>dc_autonomous_rescue_armed := a\<rparr>) = valid_dconfig cx self_id cfg"
  by (simp add: valid_dconfig_def disburser_validate_config_def)

lemma disburser_validate_Inr:
  "disburser_validate_config cx self_id cfg = Inr u \<longleftrightarrow> valid_dconfig cx self_id cfg"
  by (cases u) (simp add: valid_dconfig_def)

lemma valid_dconfig_self:
  "valid_dconfig cx self_id cfg \<Longrightarrow> dc_rescue_controller cfg \<noteq> self_id"
  by (auto simp: valid_dconfig_def disburser_validate_config_def Let_def run_asserts_ok
      simp del: run_asserts.simps)

lemma disburser_init_Inr:
  "disburser_init cx self_id now args = Inr st \<Longrightarrow>
     \<exists>cfg. st = dstate_new cfg now \<and> valid_dconfig cx self_id cfg"
  by (auto simp: disburser_init_def Let_def disburser_validate_Inr split: option.splits sum.splits)

text \<open>What an upgrade may change: the rescue fields and the lock.\<close>

definition rescue_update :: "bool option \<Rightarrow> u64 option \<Rightarrow> forced_rescue_reason option \<Rightarrow> bool
    \<Rightarrow> dstate \<Rightarrow> dstate" where
  "rescue_update a ts f t st = st\<lparr>ds_config := (ds_config st)\<lparr>dc_autonomous_rescue_armed := a\<rparr>,
     ds_autonomous_rescue_armed_since_ts := ts, ds_forced_rescue_reason := f,
     ds_rescue_triggered := t\<rparr>"

lemma rescue_update_refl: "\<exists>a ts f t. st = rescue_update a ts f t st"
  by (rule exI [of _ "dc_autonomous_rescue_armed (ds_config st)"],
      rule exI [of _ "ds_autonomous_rescue_armed_since_ts st"],
      rule exI [of _ "ds_forced_rescue_reason st"], rule exI [of _ "ds_rescue_triggered st"])
    (simp add: rescue_update_def)

lemma rescue_update_twice:
  "rescue_update a ts f t (rescue_update a' ts' f' t' st) = rescue_update a ts f t st"
  by (simp add: rescue_update_def)

lemma set_armed_rescue: "\<exists>a ts f t. disburser_set_armed now armed st = rescue_update a ts f t st"
  by (rule exI [of _ "Some armed"], rule exI [of _ "if armed then Some now else None"],
      rule exI [of _ "ds_forced_rescue_reason st"],
      rule exI [of _ "armed \<and> ds_rescue_triggered st"])
    (simp add: disburser_set_armed_def rescue_update_def Let_def)

lemma clear_forced_rescue: "\<exists>a ts f t. fst (disburser_clear_forced now st) = rescue_update a ts f t st"
  by (rule exI [of _ "dc_autonomous_rescue_armed (ds_config st)"],
      rule exI [of _ "if unwrap_or (dc_autonomous_rescue_armed (ds_config st)) False
        then Some now else None"], rule exI [of _ None],
      rule exI [of _ "unwrap_or (dc_autonomous_rescue_armed (ds_config st)) False"])
    (simp add: disburser_clear_forced_def rescue_update_def Let_def)

lemma rescue_update_other [simp]:
  "ds_payout_plan (rescue_update a ts f t st) = ds_payout_plan st"
  "ds_payout_nonce (rescue_update a ts f t st) = ds_payout_nonce st"
  "ds_prev_age_seconds (rescue_update a ts f t st) = ds_prev_age_seconds st"
  "ds_last_main_run_ts (rescue_update a ts f t st) = ds_last_main_run_ts st"
  "ds_last_successful_transfer_ts (rescue_update a ts f t st) = ds_last_successful_transfer_ts st"
  "ds_forced_rescue_reason (rescue_update a ts f t st) = f"
  "ds_autonomous_rescue_armed_since_ts (rescue_update a ts f t st) = ts"
  "ds_rescue_triggered (rescue_update a ts f t st) = t"
  "ds_config (rescue_update a ts f t st) = (ds_config st)\<lparr>dc_autonomous_rescue_armed := a\<rparr>"
  by (simp_all add: rescue_update_def)

lemma disburser_upgrade_Inr:
  assumes "disburser_apply_upgrade_args_to_state cx self_id st args now = Inr (st', reconcile)"
  shows "\<exists>a ts f t. st' = (rescue_update a ts f t st)\<lparr>ds_main_lock_state_ts := Some 0\<rparr>
    \<and> valid_dconfig cx self_id (ds_config st)"
proof -
  define r where "r = (case args of
           None \<Rightarrow> (st, False)
         | Some a \<Rightarrow>
             let sta = (case du_autonomous_rescue_armed a of
                   None \<Rightarrow> st
                 | Some armed \<Rightarrow> disburser_set_armed now armed st)
             in if unwrap_or (du_clear_forced_rescue a) False
                then disburser_clear_forced now sta else (sta, False))"
  have sta: "\<exists>a ts f t. (case x of None \<Rightarrow> st | Some armed \<Rightarrow> disburser_set_armed now armed st)
      = rescue_update a ts f t st" for x :: "bool option"
    using rescue_update_refl set_armed_rescue by (cases x) simp_all
  have "\<exists>a ts f t. fst (if c then disburser_clear_forced now s else (s, False))
      = rescue_update a ts f t st"
    if "\<exists>a ts f t. s = rescue_update a ts f t st" for c s
  proof (cases c)
    case True
    with that clear_forced_rescue [of now s] show ?thesis
      by (simp only: if_True) (metis rescue_update_twice)
  qed (use that in simp)
  then have "\<exists>a ts f t. fst r = rescue_update a ts f t st"
    using sta rescue_update_refl by (cases args) (simp_all add: r_def Let_def)
  then obtain a ts f t where r: "fst r = rescue_update a ts f t st" by blast
  moreover have "st' = (fst r)\<lparr>ds_main_lock_state_ts := Some 0\<rparr>" "valid_dconfig cx self_id (ds_config (fst r))"
    using assms unfolding disburser_apply_upgrade_args_to_state_def r_def [symmetric]
    by (auto simp: case_prod_beta disburser_validate_Inr split: sum.splits)
  ultimately have "st' = (rescue_update a ts f t st)\<lparr>ds_main_lock_state_ts := Some 0\<rparr>
    \<and> valid_dconfig cx self_id (ds_config st)" by simp
  then show ?thesis by blast
qed

end
