(* ===== verification/ControllerPolicy.thy ===== *)
theory ControllerPolicy
  imports Ledger DisburserState "HOL-Library.List_Lexorder"
begin

text \<open>
  Which controllers a canister gives itself: \<open>policy.rs\<close> and the pure part of
  \<open>scheduler/rescue.rs\<close> of the Disburser and of the Faucet.  The locale \<open>controller_policy\<close> is
  what the rescue paths rely on: the policy picks \<open>{self}\<close> or \<open>{rescue, self}\<close> and never
  de-escalates while the last success stays the same.
\<close>

section \<open>Policy\<close>

definition policy_secs_per_day :: u64 where "policy_secs_per_day = 86400"
definition healthy_window_secs :: u64 where "healthy_window_secs = 7 * policy_secs_per_day"
definition broken_window_secs :: u64 where "broken_window_secs = 14 * policy_secs_per_day"
definition bootstrap_rescue_window_secs :: u64 where
  "bootstrap_rescue_window_secs = 14 * policy_secs_per_day"

definition disburser_desired_controllers ::
  "u64 \<Rightarrow> u64 option \<Rightarrow> principal \<Rightarrow> principal \<Rightarrow> principal list option" where
  "disburser_desired_controllers now_secs last_successful_transfer_ts self_id rescue_controller =
     (case last_successful_transfer_ts of
        None \<Rightarrow> None
      | Some last_ts \<Rightarrow>
          let age = sat_sub now_secs last_ts in
          if age \<le> healthy_window_secs then Some [self_id]
          else if age > broken_window_secs then Some [rescue_controller, self_id]
          else None)"

definition disburser_bootstrap_rescue_due :: "u64 \<Rightarrow> u64 option \<Rightarrow> u64 option \<Rightarrow> bool" where
  "disburser_bootstrap_rescue_due now_secs armed_since last_success \<longleftrightarrow>
     last_success = None \<and>
     (case armed_since of None \<Rightarrow> False
      | Some armed_at \<Rightarrow> sat_sub now_secs armed_at > bootstrap_rescue_window_secs)"

definition faucet_desired_controllers ::
  "u64 \<Rightarrow> u64 option \<Rightarrow> principal \<Rightarrow> principal \<Rightarrow> principal list option" where
  "faucet_desired_controllers now_secs last_successful_transfer_ts self_id rescue_controller =
     (case last_successful_transfer_ts of
        None \<Rightarrow> None
      | Some last_ts \<Rightarrow>
          let age = sat_sub now_secs last_ts in
          if age \<le> healthy_window_secs then Some [self_id]
          else if age > broken_window_secs then Some [rescue_controller, self_id]
          else None)"

definition faucet_bootstrap_rescue_due :: "u64 \<Rightarrow> u64 option \<Rightarrow> u64 option \<Rightarrow> bool" where
  "faucet_bootstrap_rescue_due now_secs armed_since last_success \<longleftrightarrow>
     last_success = None \<and>
     (case armed_since of None \<Rightarrow> False
      | Some armed_at \<Rightarrow> sat_sub now_secs armed_at > bootstrap_rescue_window_secs)"

section \<open>The rescue paths\<close>

text \<open>\<open>desired.sort_by_key(to_text); desired.dedup()\<close>: a stable sort, then removal of equal
  neighbours.\<close>

definition normalize_controllers :: "candid_ops \<Rightarrow> principal list \<Rightarrow> principal list" where
  "normalize_controllers cx ps = remdups_adj (sort_key (principal_to_text cx) ps)"

definition controller_update_settings :: "principal \<Rightarrow> principal list \<Rightarrow> update_settings_args" where
  "controller_update_settings self_id controllers =
     \<lparr>us_canister_id = self_id,
      us_settings = \<lparr>cs_controllers = Some controllers, cs_log_visibility = Some Public,
        cs_status_visibility = Some Public\<rparr>\<rparr>"

definition disburser_desired_controllers_for_rescue_state :: "u64 \<Rightarrow> u64 option \<Rightarrow> principal \<Rightarrow> principal
    \<Rightarrow> forced_rescue_reason option \<Rightarrow> bool \<Rightarrow> principal list option" where
  "disburser_desired_controllers_for_rescue_state now_secs last_xfer_opt self_id rescue_controller
     forced_rescue_reason rescue_triggered =
     (if forced_rescue_reason \<noteq> None then Some [rescue_controller, self_id]
      else if rescue_triggered \<and> last_xfer_opt = None then Some [self_id]
      else disburser_desired_controllers now_secs last_xfer_opt self_id rescue_controller)"

definition faucet_desired_rescue_controllers :: "candid_ops \<Rightarrow> u64 \<Rightarrow> bool \<Rightarrow> u64 option \<Rightarrow> principal
    \<Rightarrow> bool \<Rightarrow> bool \<Rightarrow> principal \<Rightarrow> principal list option" where
  "faucet_desired_rescue_controllers cx now_secs autonomous_rescue_armed last_xfer_opt
     rescue_controller forced_reason_present skip_range_fault self_id =
     (if \<not> autonomous_rescue_armed then None
      else case (if forced_reason_present \<or> skip_range_fault then Some [rescue_controller, self_id]
          else faucet_desired_controllers now_secs last_xfer_opt self_id rescue_controller) of
        None \<Rightarrow> None
      | Some desired \<Rightarrow> Some (normalize_controllers cx desired))"

section \<open>The contract\<close>

lemma normalize_set [simp]: "set (normalize_controllers cx ps) = set ps"
  by (simp add: normalize_controllers_def)

lemma normalize_distinct: "set ps \<subseteq> {a, b} \<Longrightarrow> length ps \<le> 2 \<Longrightarrow> distinct (normalize_controllers cx ps)"
proof -
  assume ps: "set ps \<subseteq> {a, b}" "length ps \<le> 2"
  consider "ps = []" | x where "ps = [x]" | x y where "ps = [x, y]"
    using ps(2) by (cases ps rule: remdups_adj.cases) auto
  then show ?thesis
  proof cases
    case 3
    then show ?thesis by (cases "principal_to_text cx x \<le> principal_to_text cx y")
        (simp_all add: normalize_controllers_def)
  qed (simp_all add: normalize_controllers_def)
qed

locale controller_policy =
  fixes policy :: "u64 \<Rightarrow> u64 option \<Rightarrow> principal \<Rightarrow> principal \<Rightarrow> principal list option"
  assumes no_success: "policy now None self_id rescue = None"
    and healthy: "sat_sub now last_ts \<le> 604800 \<Longrightarrow> policy now (Some last_ts) self_id rescue = Some [self_id]"
    and waiting: "604800 < sat_sub now last_ts \<Longrightarrow> sat_sub now last_ts \<le> 1209600
      \<Longrightarrow> policy now (Some last_ts) self_id rescue = None"
    and broken: "1209600 < sat_sub now last_ts
      \<Longrightarrow> policy now (Some last_ts) self_id rescue = Some [rescue, self_id]"
begin

lemma policy_cases: "policy now l self_id rescue \<in> {None, Some [self_id], Some [rescue, self_id]}"
proof (cases l)
  case (Some last_ts)
  then show ?thesis
    using healthy [of now last_ts] waiting [of now last_ts] broken [of now last_ts]
    by (cases "sat_sub now last_ts \<le> 604800"; cases "sat_sub now last_ts \<le> 1209600")
      (simp_all add: not_le)
qed (simp add: no_success)

lemma escalated_later:
  assumes "policy now l self_id rescue = Some ps" "rescue \<in> set ps" "rescue \<noteq> self_id" "now \<le> now'"
  shows "policy now' l self_id rescue = Some [rescue, self_id]"
proof -
  obtain last_ts where l: "l = Some last_ts" using assms(1) no_success by (cases l) auto
  have "1209600 < sat_sub now last_ts"
    using assms(1-3) l healthy [of now last_ts] waiting [of now last_ts]
    by (cases "sat_sub now last_ts \<le> 604800"; cases "sat_sub now last_ts \<le> 1209600")
      (auto simp: not_le)
  moreover have "sat_sub now last_ts \<le> sat_sub now' last_ts"
    using assms(4) by (simp add: u_simps)
  ultimately have "1209600 < sat_sub now' last_ts" by (rule less_le_trans)
  then show ?thesis using l broken by simp
qed

end

interpretation disburser_policy: controller_policy disburser_desired_controllers
  by unfold_locales
    (auto simp: disburser_desired_controllers_def Let_def healthy_window_secs_def
      broken_window_secs_def policy_secs_per_day_def u_simps)

interpretation faucet_policy: controller_policy faucet_desired_controllers
  by unfold_locales
    (auto simp: faucet_desired_controllers_def Let_def healthy_window_secs_def
      broken_window_secs_def policy_secs_per_day_def u_simps)

lemma disburser_rescue_state_cases:
  "disburser_desired_controllers_for_rescue_state now l self_id rescue f t
     \<in> {None, Some [self_id], Some [rescue, self_id]}"
  using disburser_policy.policy_cases [of now l self_id rescue]
  by (simp add: disburser_desired_controllers_for_rescue_state_def)

section \<open>Properties\<close>

lemma faucet_desired_cases:
  assumes "faucet_desired_rescue_controllers cx now armed last_xfer rescue forced fault self_id = Some cs"
  shows "\<exists>ps. cs = normalize_controllers cx ps \<and> ps \<in> {[self_id], [rescue, self_id]} \<and> armed \<and>
    (forced \<or> fault \<longrightarrow> ps = [rescue, self_id])"
  using assms faucet_policy.policy_cases [of now last_xfer self_id rescue]
  by (auto simp: faucet_desired_rescue_controllers_def split: if_splits option.splits)

text \<open>the Faucet's controller sets: unless rescue is unarmed, the set it asks for contains itself,
  contains at most the rescue controller besides, has no repetition, and contains the rescue
  controller whenever a rescue reason is latched or the skip-range fault is set.\<close>

theorem faucet_rescue_controllers_sound:
  assumes "faucet_desired_rescue_controllers cx now armed last_xfer rescue forced fault self_id = Some cs"
  shows "armed \<and> distinct cs \<and> self_id \<in> set cs \<and> set cs \<subseteq> {self_id, rescue} \<and>
    (forced \<or> fault \<longrightarrow> rescue \<in> set cs)"
proof -
  obtain ps where ps: "cs = normalize_controllers cx ps" "ps \<in> {[self_id], [rescue, self_id]}"
    and armed: "armed" and forced: "forced \<or> fault \<longrightarrow> ps = [rescue, self_id]"
    using faucet_desired_cases [OF assms] by blast
  have "distinct cs" unfolding ps(1) using ps(2) by (intro normalize_distinct [of ps self_id rescue]) auto
  with ps armed forced show ?thesis by auto
qed

theorem faucet_rescue_controllers_sound_witness:
  "distinct [[1], [2 :: u8]] \<and> [2 :: u8] \<in> set [[1], [2 :: u8]]"
proof -
  have "faucet_desired_rescue_controllers example_candid 10 True None [1] True False [2]
      = Some [[1], [2]]"
    by (simp add: faucet_desired_rescue_controllers_def normalize_controllers_def
        example_candid_def )
  from faucet_rescue_controllers_sound [OF this] show ?thesis by simp
qed

text \<open>Both canisters escalate monotonically: once the time since the last success makes the policy
  add the rescue controller, every later evaluation with the same last success adds it too.\<close>

theorem escalation_is_monotone:
  assumes "now \<le> now'" and "rescue \<noteq> self_id"
    and "disburser_desired_controllers now l self_id rescue = Some ps" "rescue \<in> set ps"
    and "faucet_desired_controllers now l self_id rescue = Some qs" "rescue \<in> set qs"
  shows "disburser_desired_controllers now' l self_id rescue = Some [rescue, self_id] \<and>
    faucet_desired_controllers now' l self_id rescue = Some [rescue, self_id]"
  using disburser_policy.escalated_later [OF assms(3,4,2,1)]
    faucet_policy.escalated_later [OF assms(5,6,2,1)] by simp

theorem escalation_is_monotone_witness:
  "disburser_desired_controllers 2000000 (Some 100) [1] [2] = Some [[2], [1]]"
proof -
  have "disburser_desired_controllers 1500000 (Some 100) [1] [2] = Some [[2], [1]]"
    "faucet_desired_controllers 1500000 (Some 100) [1] [2] = Some [[2], [1]]"
    by (simp_all add: disburser_policy.broken faucet_policy.broken sat_sub_def)
  then show ?thesis using escalation_is_monotone [of 1500000 2000000 "[2]" "[1]" "Some 100"] by simp
qed

end
