(* ===== verification/DisburserLogic.thy ===== *)
theory DisburserLogic
  imports Accounts
begin

text \<open>
  \<open>canisters/disburser/src/logic.rs\<close>: the split of a staging balance into its base and
  age-bonus parts and the plan of at most three transfers.
\<close>

definition secs_per_day :: u64 where "secs_per_day = 86400"

definition secs_per_year :: u64 where "secs_per_year = 365 * secs_per_day"

definition max_age_for_bonus_secs :: u64 where "max_age_for_bonus_secs = 4 * secs_per_year"

definition bonus_recipient_1_pct :: u64 where "bonus_recipient_1_pct = 95"

record gross_split =
  gs_base :: u64
  gs_bonus1 :: u64
  gs_bonus2 :: u64

definition age_multiplier_fraction :: "u64 \<Rightarrow> u128 \<times> u128" where
  "age_multiplier_fraction age_seconds =
     (let den = as_u128 (16 * secs_per_year);
          bonus_secs = as_u128 (min age_seconds max_age_for_bonus_secs)
      in (den + bonus_secs, den))"

definition compute_gross_split :: "u64 \<Rightarrow> u64 \<Rightarrow> gross_split" where
  "compute_gross_split total_e8s age_seconds =
     (if total_e8s = 0 then \<lparr>gs_base = 0, gs_bonus1 = 0, gs_bonus2 = 0\<rparr>
      else let (num, den) = age_multiplier_fraction age_seconds;
               base = as_u64 (as_u128 total_e8s * den div num);
               bonus = sat_sub total_e8s base;
               bonus1 = as_u64 (div_ceil (as_u128 bonus * as_u128 bonus_recipient_1_pct) 100);
               bonus2 = sat_sub bonus bonus1
           in \<lparr>gs_base = base, gs_bonus1 = bonus1, gs_bonus2 = bonus2\<rparr>)"

definition build_memo :: "u64 \<Rightarrow> u64 \<Rightarrow> bytes" where
  "build_memo payout_id transfer_index = u64_to_be_bytes payout_id @ u64_to_be_bytes transfer_index"

record planned =
  pl_to :: account
  pl_gross_share :: u64
  pl_amount :: u64
  pl_memo :: bytes
  pl_created_at :: u64

text \<open>The closure \<open>push\<close> of the code: it captures the payout id, the base time and the fee, and
  threads the output list and the transfer index.\<close>

definition push :: "u64 \<Rightarrow> u64 \<Rightarrow> u64 \<Rightarrow> account \<times> u64 \<Rightarrow> planned list \<times> u64
    \<Rightarrow> planned list \<times> u64" where
  "push payout_id base_nanos fee = (\<lambda>(to, share) (out, idx).
     (if share \<le> fee then (out, idx)
      else (out @ [\<lparr>pl_to = to, pl_gross_share = share, pl_amount = share - fee,
              pl_memo = build_memo payout_id idx, pl_created_at = sat_add base_nanos idx\<rparr>],
            idx + 1)))"

definition plan_payout_transfers :: "u64 \<Rightarrow> u64 \<Rightarrow> u64 \<Rightarrow> u64 \<Rightarrow> u64 \<Rightarrow> account \<Rightarrow> account \<Rightarrow> account
    \<Rightarrow> gross_split \<times> planned list" where
  "plan_payout_transfers payout_id base_nanos staging_balance fee age_seconds normal_to bonus1_to bonus2_to =
     (let gross = compute_gross_split staging_balance age_seconds;
          out = fst (fold (push payout_id base_nanos fee)
            [(normal_to, gs_base gross), (bonus1_to, gs_bonus1 gross), (bonus2_to, gs_bonus2 gross)]
            ([], 0))
      in (gross, out))"

section \<open>The split read as naturals\<close>

definition year_nat :: nat where "year_nat = 31536000"

lemma secs_per_year_value: "secs_per_year = 31536000"
  by (simp add: secs_per_year_def secs_per_day_def)

lemma age_multiplier_unat:
  "unat (fst (age_multiplier_fraction a)) = 16 * year_nat + min (unat a) (4 * year_nat)"
  "unat (snd (age_multiplier_fraction a)) = 16 * year_nat"
proof -
  have "unat (min a max_age_for_bonus_secs) = min (unat a) (4 * year_nat)"
    by (auto simp: min_def max_age_for_bonus_secs_def secs_per_year_value year_nat_def u_simps)
  moreover have "unat (as_u128 (16 * secs_per_year)) = 16 * year_nat"
    by (simp add: secs_per_year_value year_nat_def)
  ultimately show "unat (fst (age_multiplier_fraction a)) = 16 * year_nat + min (unat a) (4 * year_nat)"
    "unat (snd (age_multiplier_fraction a)) = 16 * year_nat"
    by (simp_all add: age_multiplier_fraction_def Let_def unat_word_ariths year_nat_def)
qed

definition base_nat :: "nat \<Rightarrow> nat \<Rightarrow> nat" where
  "base_nat total_e8s age = total_e8s * (16 * year_nat) div (16 * year_nat + min age (4 * year_nat))"

definition ceil95 :: "nat \<Rightarrow> nat" where
  "ceil95 n = (n * 95 + 99) div 100"

lemma base_nat_le: "base_nat total_e8s age \<le> total_e8s"
proof -
  have "total_e8s * (16 * year_nat) \<le> total_e8s * (16 * year_nat + min age (4 * year_nat))" by simp
  then have "base_nat total_e8s age \<le> total_e8s * (16 * year_nat + min age (4 * year_nat))
      div (16 * year_nat + min age (4 * year_nat))"
    unfolding base_nat_def by (rule div_le_mono)
  then show ?thesis by (simp add: year_nat_def)
qed

lemma ceil95_le: "ceil95 n \<le> n"
proof -
  have "n * 95 + 99 < Suc n * 100" by simp
  then have "ceil95 n < Suc n" unfolding ceil95_def by (rule less_mult_imp_div_less)
  then show ?thesis by simp
qed

lemma div_ceil_100: "unat (div_ceil a 100 :: u128) = (unat a + 99) div 100"
  using div_round_up [of 100 "unat a"] by (simp add: unat_div_ceil)

lemma split_base_unat: "unat (as_u64 (as_u128 t * snd (age_multiplier_fraction a)
    div fst (age_multiplier_fraction a))) = base_nat (unat t) (unat a)"
proof -
  have "unat t * (16 * year_nat) < 2 ^ 64 * (16 * year_nat)"
    using unat_lt [of t] by (simp add: year_nat_def)
  then have "unat t * (16 * year_nat) < 2 ^ 128" by (simp add: year_nat_def)
  then have "unat (as_u128 t * snd (age_multiplier_fraction a)
      div fst (age_multiplier_fraction a)) = base_nat (unat t) (unat a)"
    by (simp add: unat_div_distrib unat_word_ariths age_multiplier_unat base_nat_def)
  moreover have "base_nat (unat t) (unat a) < 2 ^ 64"
    using base_nat_le [of "unat t" "unat a"] unat_lt [of t] by simp
  ultimately show ?thesis by (simp add: unat_as_u64_small)
qed

lemma split_bonus1_unat:
  "unat (as_u64 (div_ceil (as_u128 b * as_u128 bonus_recipient_1_pct) 100)) = ceil95 (unat b)"
proof -
  have "unat (div_ceil (as_u128 b * as_u128 bonus_recipient_1_pct) 100) = ceil95 (unat b)"
    unfolding div_ceil_100 unat_u128_mult by (simp add: bonus_recipient_1_pct_def ceil95_def)
  moreover have "ceil95 (unat b) < 2 ^ 64"
    using ceil95_le [of "unat b"] unat_lt [of b] by simp
  ultimately show ?thesis by (simp add: unat_as_u64_small)
qed

lemma compute_gross_split_unat:
  "unat (gs_base (compute_gross_split t a)) = base_nat (unat t) (unat a)"
  "unat (gs_bonus1 (compute_gross_split t a)) = ceil95 (unat t - base_nat (unat t) (unat a))"
  "unat (gs_bonus2 (compute_gross_split t a)) = unat t - base_nat (unat t) (unat a)
     - ceil95 (unat t - base_nat (unat t) (unat a))"
proof -
  have "base_nat 0 n = 0" "ceil95 0 = 0" for n by (simp_all add: base_nat_def ceil95_def)
  then show "unat (gs_base (compute_gross_split t a)) = base_nat (unat t) (unat a)"
    "unat (gs_bonus1 (compute_gross_split t a)) = ceil95 (unat t - base_nat (unat t) (unat a))"
    "unat (gs_bonus2 (compute_gross_split t a)) = unat t - base_nat (unat t) (unat a)
       - ceil95 (unat t - base_nat (unat t) (unat a))"
    by (simp_all add: compute_gross_split_def case_prod_beta Let_def split_base_unat
        split_bonus1_unat unat_sat_sub)
qed

lemma gross_split_sum: "unat (gs_base (compute_gross_split t a))
    + unat (gs_bonus1 (compute_gross_split t a)) + unat (gs_bonus2 (compute_gross_split t a)) = unat t"
  using base_nat_le [of "unat t" "unat a"] ceil95_le [of "unat t - base_nat (unat t) (unat a)"]
  by (simp add: compute_gross_split_unat)

section \<open>The plan\<close>

definition planned_ok :: "u64 \<Rightarrow> u64 \<Rightarrow> u64 \<Rightarrow> u64 \<Rightarrow> planned \<Rightarrow> bool" where
  "planned_ok payout_id base_nanos fee idx p \<longleftrightarrow>
     unat (pl_amount p) + unat fee = unat (pl_gross_share p) \<and> 0 < pl_amount p \<and>
     pl_memo p = build_memo payout_id idx \<and> pl_created_at p = sat_add base_nanos idx"

definition debit :: "planned \<Rightarrow> nat" where
  "debit p = unat (pl_gross_share p)"

lemma plan_list: "snd (plan_payout_transfers pid base bal fee age n b1 b2) =
   fst (fold (push pid base fee)
     [(n, gs_base (compute_gross_split bal age)), (b1, gs_bonus1 (compute_gross_split bal age)),
      (b2, gs_bonus2 (compute_gross_split bal age))] ([], 0))"
  by (simp add: plan_payout_transfers_def Let_def)

lemma share_minus_fee: "\<not> share \<le> fee \<Longrightarrow>
    unat (share - fee) + unat fee = unat share \<and> 0 < share - fee" for share fee :: u64
  by (auto simp: unat_sub u_simps not_le)

lemma push_ok:
  assumes "list_all2 (planned_ok pid base fee) (map word_of_nat [0..<n]) out" "idx = word_of_nat n"
  shows "\<exists>n'. n \<le> n' \<and> n' \<le> Suc n \<and> list_all2 (planned_ok pid base fee)
           (map word_of_nat [0..<n']) (fst (push pid base fee (to, share) (out, idx))) \<and>
         snd (push pid base fee (to, share) (out, idx)) = word_of_nat n' \<and>
         (\<Sum>p\<leftarrow>fst (push pid base fee (to, share) (out, idx)). debit p)
           \<le> (\<Sum>p\<leftarrow>out. debit p) + unat share"
proof (cases "share \<le> fee")
  case True
  then show ?thesis using assms by (intro exI [of _ n]) (simp add: push_def)
next
  case False
  then show ?thesis
    using assms share_minus_fee [OF False]
    by (intro exI [of _ "Suc n"])
      (auto simp: push_def planned_ok_def debit_def intro!: list_all2_appendI)
qed

lemma plan_ok:
  "\<exists>n\<le>3. list_all2 (planned_ok pid base fee) (map word_of_nat [0..<n])
     (snd (plan_payout_transfers pid base bal fee age n0 b1 b2)) \<and>
   (\<Sum>p\<leftarrow>snd (plan_payout_transfers pid base bal fee age n0 b1 b2). debit p) \<le> unat bal"
proof -
  let ?P = "push pid base fee" and ?g = "compute_gross_split bal age"
  obtain s1 i1 where 1: "?P (n0, gs_base ?g) ([], 0) = (s1, i1)" by fastforce
  obtain s2 i2 where 2: "?P (b1, gs_bonus1 ?g) (s1, i1) = (s2, i2)" by fastforce
  obtain s3 i3 where 3: "?P (b2, gs_bonus2 ?g) (s2, i2) = (s3, i3)" by fastforce
  from push_ok [of pid base fee 0 "[]" 0 n0 "gs_base ?g"] 1
  obtain m1 where m1: "m1 \<le> 1" "list_all2 (planned_ok pid base fee) (map word_of_nat [0..<m1]) s1"
    "i1 = word_of_nat m1" "(\<Sum>p\<leftarrow>s1. debit p) \<le> unat (gs_base ?g)" by auto
  from push_ok [OF m1(2,3), of b1 "gs_bonus1 ?g"] 2
  obtain m2 where m2: "m2 \<le> Suc m1" "list_all2 (planned_ok pid base fee) (map word_of_nat [0..<m2]) s2"
    "i2 = word_of_nat m2" "(\<Sum>p\<leftarrow>s2. debit p) \<le> (\<Sum>p\<leftarrow>s1. debit p) + unat (gs_bonus1 ?g)" by auto
  from push_ok [OF m2(2,3), of b2 "gs_bonus2 ?g"] 3
  obtain m3 where m3: "m3 \<le> Suc m2" "list_all2 (planned_ok pid base fee) (map word_of_nat [0..<m3]) s3"
    "(\<Sum>p\<leftarrow>s3. debit p) \<le> (\<Sum>p\<leftarrow>s2. debit p) + unat (gs_bonus2 ?g)" by auto
  have plan: "snd (plan_payout_transfers pid base bal fee age n0 b1 b2) = s3"
    by (simp add: plan_list 1 2 3)
  show ?thesis
    unfolding plan using m1 m2 m3 gross_split_sum [of bal age] by (intro exI [of _ m3]) auto
qed

lemma build_memo_inject [simp]:
  "build_memo i j = build_memo i' j' \<longleftrightarrow> i = i' \<and> j = j'"
  by (simp add: build_memo_def append_eq_append_conv)

section \<open>Properties\<close>

text \<open>C6: the gross split never loses or creates an e8: for every balance and age the three parts
  add up to the balance, the base is the balance divided by the age multiplier rounded down, and
  the first bonus recipient gets 95 percent of the rest rounded up.\<close>

theorem gross_split_conserves:
  "let g = compute_gross_split total_e8s age; years4 = 4 * 31536000;
       bonus = unat total_e8s - unat (gs_base g)
   in unat (gs_base g) + unat (gs_bonus1 g) + unat (gs_bonus2 g) = unat total_e8s \<and>
      unat (gs_base g) = unat total_e8s * (16 * 31536000) div (16 * 31536000 + min (unat age) years4) \<and>
      unat (gs_bonus1 g) = (bonus * 95 + 99) div 100"
  using gross_split_sum [of total_e8s age]
  by (simp add: Let_def compute_gross_split_unat base_nat_def ceil95_def year_nat_def)

text \<open>For a fixed balance the base part does not grow with the neuron's age, and no age lets
  it fall below four fifths of the balance (rounded down).\<close>

theorem gross_split_base_antimono:
  assumes "age \<le> age'"
  shows "gs_base (compute_gross_split total_e8s age') \<le> gs_base (compute_gross_split total_e8s age)
    \<and> 4 * unat total_e8s div 5 \<le> unat (gs_base (compute_gross_split total_e8s age'))"
proof -
  have le: "unat age \<le> unat age'" using assms by (simp add: u_simps)
  have "base_nat (unat total_e8s) (unat age') \<le> base_nat (unat total_e8s) (unat age)"
    unfolding base_nat_def using le by (intro div_le_mono2) (auto simp: year_nat_def)
  moreover have "unat total_e8s * (16 * year_nat) div (16 * year_nat + 4 * year_nat)
      \<le> base_nat (unat total_e8s) (unat age')"
    unfolding base_nat_def by (intro div_le_mono2) (auto simp: year_nat_def)
  moreover have "unat total_e8s * (16 * year_nat) div (16 * year_nat + 4 * year_nat) = 4 * unat total_e8s div 5"
    using div_mult_mult1 [of "4 * year_nat" "4 * unat total_e8s" 5]
    by (simp add: year_nat_def mult.commute)
  ultimately show ?thesis by (simp add: u_simps compute_gross_split_unat)
qed

theorem gross_split_base_antimono_witness:
  "gs_base (compute_gross_split 500 126144000) \<le> gs_base (compute_gross_split 500 0)"
  using gross_split_base_antimono [of 0 126144000 500] by simp

text \<open>a payout plan never overdraws: it has at most three transfers, each of a positive amount
  that with the fee makes up its gross share, and the shares together (what the ledger debits) are at
  most the staging balance.\<close>

theorem plan_never_overdraws:
  "let out = snd (plan_payout_transfers pid base bal fee age n b1 b2)
   in length out \<le> 3 \<and> (\<Sum>p\<leftarrow>out. unat (pl_amount p) + unat fee) \<le> unat bal \<and>
      list_all (\<lambda>p. 0 < pl_amount p \<and> pl_amount p + fee = pl_gross_share p) out"
proof -
  obtain m where m: "m \<le> 3" "list_all2 (planned_ok pid base fee) (map word_of_nat [0..<m])
      (snd (plan_payout_transfers pid base bal fee age n b1 b2))"
    "(\<Sum>p\<leftarrow>snd (plan_payout_transfers pid base bal fee age n b1 b2). debit p) \<le> unat bal"
    using plan_ok by blast
  let ?out = "snd (plan_payout_transfers pid base bal fee age n b1 b2)"
  have each: "\<forall>p\<in>set ?out. unat (pl_amount p) + unat fee = debit p \<and> 0 < pl_amount p"
    using m(2) by (fastforce simp: list_all2_conv_all_nth in_set_conv_nth planned_ok_def debit_def)
  have "(\<Sum>p\<leftarrow>?out. unat (pl_amount p) + unat fee) = (\<Sum>p\<leftarrow>?out. debit p)"
    using each by (intro arg_cong [of _ _ sum_list] map_cong) auto
  moreover have "pl_amount p + fee = pl_gross_share p" if "p \<in> set ?out" for p
    using each that unat_lt [of "pl_gross_share p"]
    by (auto simp: word_unat_eq_iff unat_word_ariths debit_def)
  ultimately show ?thesis
    using m each by (auto simp: Let_def list_all_iff dest: list_all2_lengthD)
qed

text \<open>the ledger identities of one plan are pairwise different: the memo of the transfer at
  position i is the payout id and i, its creation time the base time plus i (saturating).\<close>

theorem plan_identities_distinct:
  "let out = snd (plan_payout_transfers pid base bal fee age n b1 b2)
   in distinct (map pl_memo out) \<and>
      map pl_memo out = map (\<lambda>i. build_memo pid (word_of_nat i)) [0..<length out] \<and>
      map pl_created_at out = map (\<lambda>i. sat_add base (word_of_nat i)) [0..<length out]"
proof -
  let ?out = "snd (plan_payout_transfers pid base bal fee age n b1 b2)"
  obtain m where m: "m \<le> 3" "list_all2 (planned_ok pid base fee) (map word_of_nat [0..<m]) ?out"
    using plan_ok by blast
  from m(2) have len: "length ?out = m" by (auto dest: list_all2_lengthD)
  with m(2) have eqs: "map pl_memo ?out = map (\<lambda>i. build_memo pid (word_of_nat i)) [0..<length ?out]"
    "map pl_created_at ?out = map (\<lambda>i. sat_add base (word_of_nat i)) [0..<length ?out]"
    by (auto simp: list_all2_conv_all_nth planned_ok_def intro: nth_equalityI)
  have "inj_on (\<lambda>i. word_of_nat i :: u64) {0..<m}"
    using m(1) by (auto simp: inj_on_def word_unat_eq_iff unat_of_nat)
  then have "distinct (map (\<lambda>i. build_memo pid (word_of_nat i)) [0..<m])"
    by (auto simp: distinct_map inj_on_def)
  with eqs len show ?thesis by (simp add: Let_def)
qed

end
