(* ===== verification/DisburserTick.thy ===== *)
theory DisburserTick
  imports Async Lease PokeGate ControllerPolicy DisburserLogic
begin

text \<open>
  The Disburser at work: \<open>canisters/disburser/src/scheduler\<close> (\<open>tick.rs\<close>,
  \<open>payout_plan.rs\<close>, \<open>rescue.rs\<close>, \<open>poke.rs\<close>) and the entry points of \<open>lib.rs\<close>, as
  processes over the canister's world: its heap state and stable cell, its thread-local cells, the
  timers it has set and the clock.  Features that are compiled out of production builds
  (\<open>debug_api\<close>) are not part of the model.
\<close>

section \<open>World, requests, responses\<close>

datatype dtimer =
    MainInterval u64
  | RescueInterval u64
  | ResumeTimer
  | ReconcileTimer
  | MainRetry u64 u64
  | PokeDeferred u64

record dworld =
  dw_self :: principal
  dw_now :: u64
  dw_state :: dstate
  dw_stable :: "dstate option"
  dw_run_marker :: u64
  dw_retry_pending :: "u64 option"
  dw_poke :: poke_runtime
  dw_timers :: "dtimer list"
  dw_errors :: "nat list"

datatype d_req =
    ReqBalanceOf principal account
  | ReqFee principal
  | ReqTransfer principal transfer_arg
  | ReqFullNeuron principal u64
  | ReqDisburseMaturity principal u64 nat principal "bytes option"
  | ReqRefreshVotingPower principal u64
  | ReqClaimOrRefresh principal u64
  | ReqUpdateSettings update_settings_args

text \<open>The part of a governance neuron the Disburser reads.\<close>

record dneuron =
  dn_aging_since_timestamp_seconds :: u64
  dn_maturity_disbursements_in_progress :: "u64 list option"

datatype d_resp =
    RespNat "string + nat"
  | RespTransfer "string + (transfer_error + nat)"
  | RespNeuron "governance_error + dneuron"
  | RespUnit "governance_error + unit"
  | RespDisburse "governance_error + u64 option"
  | RespSettings "string + unit"

type_synonym 'a dproc = "(dworld, d_req, d_resp, 'a) proc"

text \<open>How the clients read a response; a response of another shape is a decoding failure.\<close>

definition decode_failed :: governance_error where
  "decode_failed = \<lparr>ge_message = ''decode failed'', ge_type = - 1\<rparr>"

definition client_u64 :: "d_resp \<Rightarrow> client_error + u64" where
  "client_u64 r = (case r of RespNat (Inl e) \<Rightarrow> Inl (CallError e) | RespNat (Inr n) \<Rightarrow> nat_to_u64 n
     | _ \<Rightarrow> Inl (CallError ''decode failed''))"

definition client_transfer :: "d_resp \<Rightarrow> client_error + (transfer_error + nat)" where
  "client_transfer r = (case r of RespTransfer (Inl e) \<Rightarrow> Inl (CallError e)
     | RespTransfer (Inr res) \<Rightarrow> Inr res | _ \<Rightarrow> Inl (CallError ''decode icrc1_transfer failed''))"

definition client_neuron :: "d_resp \<Rightarrow> governance_error + dneuron" where
  "client_neuron r = (case r of RespNeuron x \<Rightarrow> x | _ \<Rightarrow> Inl decode_failed)"

definition client_unit :: "d_resp \<Rightarrow> governance_error + unit" where
  "client_unit r = (case r of RespUnit x \<Rightarrow> x | _ \<Rightarrow> Inl decode_failed)"

definition client_disburse :: "d_resp \<Rightarrow> governance_error + u64 option" where
  "client_disburse r = (case r of RespDisburse x \<Rightarrow> x | _ \<Rightarrow> Inl decode_failed)"

definition client_settings :: "d_resp \<Rightarrow> string + unit" where
  "client_settings r = (case r of RespSettings x \<Rightarrow> x | _ \<Rightarrow> Inl ''decode failed'')"

section \<open>State access\<close>

text \<open>\<open>with_state_mut\<close> writes the stable cell after every change (batching exists only in
  test builds).\<close>

definition d_with_state_mut :: "(dstate \<Rightarrow> dstate) \<Rightarrow> dworld \<Rightarrow> dworld" where
  "d_with_state_mut f w = (let st = f (dw_state w) in w\<lparr>dw_state := st, dw_stable := Some st\<rparr>)"

definition d_now_secs :: "dworld \<Rightarrow> u64" where
  "d_now_secs w = dw_now w div 1000000000"

definition d_log_error :: "nat \<Rightarrow> dworld \<Rightarrow> dworld" where
  "d_log_error code w = w\<lparr>dw_errors := code # dw_errors w\<rparr>"

definition d_set_timer :: "dtimer \<Rightarrow> dworld \<Rightarrow> dworld" where
  "d_set_timer t w = w\<lparr>dw_timers := t # dw_timers w\<rparr>"

section \<open>The main guard\<close>

definition main_tick_lease_seconds :: u64 where
  "main_tick_lease_seconds = 15 * 60"

definition d_main_guard_is_current :: "timer_lease_guard \<Rightarrow> dworld \<Rightarrow> bool" where
  "d_main_guard_is_current g w \<longleftrightarrow> tlg_active g \<and> d_now_secs w < tlg_expires g \<and>
     ds_main_lock_state_ts (dw_state w) = Some (tlg_expires g)"

definition d_main_guard_acquire :: "u64 \<Rightarrow> dworld \<Rightarrow> timer_lease_guard option \<times> dworld" where
  "d_main_guard_acquire now_secs w =
     (case tlg_acquire now_secs main_tick_lease_seconds (ds_main_lock_state_ts (dw_state w)) of
        None \<Rightarrow> (None, d_with_state_mut id w)
      | Some inner \<Rightarrow> (Some inner,
          d_with_state_mut (\<lambda>st. st\<lparr>ds_main_lock_state_ts := Some (tlg_expires inner)\<rparr>) w))"

text \<open>\<open>Drop for MainGuard\<close>: the guard releases the lock if it still holds it.\<close>

definition d_main_guard_release :: "timer_lease_guard \<Rightarrow> dworld \<Rightarrow> dworld" where
  "d_main_guard_release g w =
     (if \<not> tlg_active g then w
      else d_with_state_mut (\<lambda>st. if tlg_finish g (ds_main_lock_state_ts st) = Released
             then st\<lparr>ds_main_lock_state_ts := Some 0\<rparr> else st) w)"

definition d_advance_main_run_marker :: "dworld \<Rightarrow> dworld option" where
  "d_advance_main_run_marker w =
     (case checked_add (dw_run_marker w) 1 of
        None \<Rightarrow> None
      | Some m \<Rightarrow> Some (w\<lparr>dw_run_marker := m, dw_retry_pending := None\<rparr>))"

text \<open>\<open>finish\<close> consumes the guard: a stale guard is dropped; a current one releases the lock,
  advances the marker (a panic when it is exhausted) and records the run.\<close>

definition d_main_guard_finish :: "timer_lease_guard \<Rightarrow> u64 \<Rightarrow> nat option \<Rightarrow> dworld \<Rightarrow> dworld option" where
  "d_main_guard_finish g now_secs err w =
     (if \<not> d_main_guard_is_current g w then Some (d_main_guard_release g w)
      else let (outcome, g') = tlg_release g (ds_main_lock_state_ts (dw_state w)) in
        case (if outcome = Released
              then map_option (d_with_state_mut (\<lambda>st. st\<lparr>ds_last_main_run_ts := now_secs,
                     ds_main_lock_state_ts := Some 0\<rparr>)) (d_advance_main_run_marker w)
              else Some (d_with_state_mut id w)) of
          None \<Rightarrow> None
        | Some w1 \<Rightarrow> Some (d_main_guard_release g'
            (case err of None \<Rightarrow> w1 | Some code \<Rightarrow> d_log_error code w1)))"

section \<open>Payout\<close>

definition should_clear_payout_plan_on_transfer_error :: "transfer_error \<Rightarrow> bool" where
  "should_clear_payout_plan_on_transfer_error err =
     (case err of TemporarilyUnavailable \<Rightarrow> False | Duplicate _ \<Rightarrow> False
      | BadFee _ \<Rightarrow> True | BadBurn _ \<Rightarrow> True | InsufficientFunds _ \<Rightarrow> True | TooOld \<Rightarrow> True
      | CreatedInFuture _ \<Rightarrow> True | GenericError _ _ \<Rightarrow> True)"

definition payout_generation_matches :: "u64 \<Rightarrow> payout_plan option \<Rightarrow> dworld \<Rightarrow> bool" where
  "payout_generation_matches expected_nonce expected_plan w \<longleftrightarrow>
     ds_payout_nonce (dw_state w) = expected_nonce \<and> ds_payout_plan (dw_state w) = expected_plan"

fun first_pending :: "planned_transfer list \<Rightarrow> nat option" where
  "first_pending [] = None"
| "first_pending (t # ts) = (if pt_status t = Pending then Some 0 else map_option Suc (first_pending ts))"

definition transfer_arg_of :: "payout_plan \<Rightarrow> planned_transfer \<Rightarrow> transfer_arg" where
  "transfer_arg_of plan t =
     \<lparr>ta_from_subaccount = None, ta_to = pt_to t, ta_fee = Some (unat (pp_fee_e8s plan)),
      ta_created_at_time = Some (pt_created_at_time_nanos t), ta_memo = Some (pt_memo t),
      ta_amount = unat (pt_amount_e8s t)\<rparr>"

definition mark_sent :: "payout_plan \<Rightarrow> nat \<Rightarrow> bytes \<Rightarrow> u64 \<Rightarrow> dstate \<Rightarrow> dstate" where
  "mark_sent plan i block_str now_secs st =
     (if ds_payout_plan st = Some plan
      then st\<lparr>ds_payout_plan := Some (plan\<lparr>pp_transfers := (pp_transfers plan)
               [i := (pp_transfers plan ! i)\<lparr>pt_status := Sent block_str\<rparr>]\<rparr>),
             ds_last_successful_transfer_ts := Some now_secs\<rparr>
      else st)"

definition clear_plan :: "payout_plan \<Rightarrow> dstate \<Rightarrow> dstate" where
  "clear_plan plan st = (if ds_payout_plan st = Some plan then st\<lparr>ds_payout_plan := None\<rparr> else st)"

definition pending_count :: "payout_plan option \<Rightarrow> nat" where
  "pending_count p = (case p of None \<Rightarrow> 0
     | Some plan \<Rightarrow> length (filter (\<lambda>t. pt_status t = Pending) (pp_transfers plan)))"

lemma first_pending_Some:
  "first_pending ts = Some i \<Longrightarrow> i < length ts \<and> pt_status (ts ! i) = Pending \<and>
     length (filter (\<lambda>t. pt_status t = Pending) (ts[i := (ts ! i)\<lparr>pt_status := Sent b\<rparr>]))
       < length (filter (\<lambda>t. pt_status t = Pending) ts)"
proof (induction ts arbitrary: i)
  case (Cons t ts)
  show ?case
  proof (cases "pt_status t = Pending")
    case True
    with Cons.prems show ?thesis by (auto simp: less_Suc_eq_le)
  next
    case False
    with Cons.prems obtain j where "first_pending ts = Some j" "i = Suc j" by auto
    with Cons.IH [of j] False show ?thesis by simp
  qed
qed simp

text \<open>The execution loop of \<open>process_payout\<close>.\<close>

function payout_loop :: "principal \<Rightarrow> u64 \<Rightarrow> timer_lease_guard \<Rightarrow> dworld \<Rightarrow> bool dproc" where
  "payout_loop ledger now_secs guard w =
     (if \<not> d_main_guard_is_current guard w then Done w False
      else case ds_payout_plan (dw_state w) of
        None \<Rightarrow> Done w True
      | Some plan \<Rightarrow>
         (case first_pending (pp_transfers plan) of
            None \<Rightarrow> Done (d_with_state_mut (clear_plan plan) w) True
          | Some i \<Rightarrow> Await w (ReqTransfer ledger (transfer_arg_of plan (pp_transfers plan ! i)))
             (\<lambda>r w1. case client_transfer r of
                Inl _ \<Rightarrow> Done w1 False
              | Inr res \<Rightarrow>
                 if ds_payout_plan (dw_state w1) \<noteq> Some plan then Done w1 False
                 else (case res of
                    Inr block \<Rightarrow> payout_loop ledger now_secs guard
                      (d_with_state_mut (mark_sent plan i (decimal block) now_secs) w1)
                  | Inl (Duplicate duplicate_of) \<Rightarrow> payout_loop ledger now_secs guard
                      (d_with_state_mut (mark_sent plan i (decimal duplicate_of) now_secs) w1)
                  | Inl err \<Rightarrow>
                      Done (if d_main_guard_is_current guard w1
                              \<and> should_clear_payout_plan_on_transfer_error err
                            then d_with_state_mut (clear_plan plan) w1 else w1) False))))"
  by pat_completeness auto
termination
  by (relation "measure (\<lambda>(l, n, g, w). pending_count (ds_payout_plan (dw_state w)))")
    (auto simp: pending_count_def d_with_state_mut_def mark_sent_def Let_def dest: first_pending_Some)

declare payout_loop.simps [simp del]

definition install_plan :: "u64 \<Rightarrow> payout_plan \<Rightarrow> dstate \<Rightarrow> bool \<times> dstate" where
  "install_plan expected_nonce plan st =
     (if ds_payout_nonce st = expected_nonce \<and> ds_payout_plan st = None
      then (True, st\<lparr>ds_payout_nonce := sat_add (ds_payout_nonce st) 1, ds_payout_plan := Some plan\<rparr>)
      else (False, st))"

definition planned_to_pending :: "planned \<Rightarrow> planned_transfer" where
  "planned_to_pending p = \<lparr>pt_to = pl_to p, pt_gross_share_e8s = pl_gross_share p,
     pt_amount_e8s = pl_amount p, pt_created_at_time_nanos = pl_created_at p, pt_memo = pl_memo p,
     pt_status = Pending\<rparr>"

definition build_plan :: "dconfig \<Rightarrow> u64 \<Rightarrow> u64 \<Rightarrow> u64 \<Rightarrow> u64 \<Rightarrow> u64 \<Rightarrow> payout_plan" where
  "build_plan cfg payout_id now_nanos balance fee prev_age =
     (let (_, planned) = plan_payout_transfers payout_id now_nanos balance fee prev_age
            (dc_normal_recipient cfg) (dc_age_bonus_recipient_1 cfg) (dc_age_bonus_recipient_2 cfg)
      in \<lparr>pp_id = payout_id, pp_fee_e8s = fee, pp_created_at_base_nanos = now_nanos,
          pp_transfers = map planned_to_pending planned\<rparr>)"

text \<open>\<open>process_payout\<close>, cut at its awaits: after the balance, after the fee, and the
  installation of a new plan.\<close>

definition payout_install :: "dconfig \<Rightarrow> u64 \<Rightarrow> payout_plan \<Rightarrow> u64 \<Rightarrow> timer_lease_guard \<Rightarrow> dworld
    \<Rightarrow> bool dproc" where
  "payout_install cfg expected_nonce plan now_secs guard w =
     (case install_plan expected_nonce plan (dw_state w) of (installed, st) \<Rightarrow>
        if \<not> installed then Done (d_with_state_mut (\<lambda>_. st) w) False
        else payout_loop (dc_ledger_canister_id cfg) now_secs guard (d_with_state_mut (\<lambda>_. st) w))"

definition payout_with_fee :: "dconfig \<Rightarrow> u64 \<Rightarrow> u64 \<Rightarrow> u64 \<Rightarrow> u64 \<Rightarrow> u64 \<Rightarrow> timer_lease_guard
    \<Rightarrow> d_resp \<Rightarrow> dworld \<Rightarrow> bool dproc" where
  "payout_with_fee cfg now_nanos now_secs expected_nonce prev_age balance guard r w =
     (case client_u64 r of
        Inl _ \<Rightarrow> Done w False
      | Inr fee \<Rightarrow>
          if \<not> d_main_guard_is_current guard w
            \<or> \<not> payout_generation_matches expected_nonce None w then Done w False
          else payout_install cfg expected_nonce
                 (build_plan cfg expected_nonce now_nanos balance fee prev_age) now_secs guard w)"

definition payout_with_balance :: "dconfig \<Rightarrow> u64 \<Rightarrow> u64 \<Rightarrow> u64 \<Rightarrow> payout_plan option \<Rightarrow> u64
    \<Rightarrow> timer_lease_guard \<Rightarrow> d_resp \<Rightarrow> dworld \<Rightarrow> bool dproc" where
  "payout_with_balance cfg now_nanos now_secs expected_nonce expected_plan prev_age guard r w =
     (case client_u64 r of
        Inl _ \<Rightarrow> Done w False
      | Inr balance \<Rightarrow>
          if \<not> d_main_guard_is_current guard w
            \<or> \<not> payout_generation_matches expected_nonce expected_plan w then Done w False
          else if balance = 0 \<and> expected_plan = None then Done w True
          else if expected_plan \<noteq> None then payout_loop (dc_ledger_canister_id cfg) now_secs guard w
          else Await w (ReqFee (dc_ledger_canister_id cfg))
                 (payout_with_fee cfg now_nanos now_secs expected_nonce prev_age balance guard))"

definition process_payout :: "dconfig \<Rightarrow> u64 \<Rightarrow> u64 \<Rightarrow> timer_lease_guard \<Rightarrow> dworld \<Rightarrow> bool dproc" where
  "process_payout cfg now_nanos now_secs guard w =
     (if \<not> d_main_guard_is_current guard w then Done w False
      else Await w (ReqBalanceOf (dc_ledger_canister_id cfg)
             \<lparr>acc_owner = dw_self w, acc_subaccount = None\<rparr>)
             (payout_with_balance cfg now_nanos now_secs (ds_payout_nonce (dw_state w))
                (ds_payout_plan (dw_state w)) (ds_prev_age_seconds (dw_state w)) guard))"

section \<open>The main tick\<close>

datatype d_main_tick_outcome = Completed | MainGuardBusy | Deferred u64

text \<open>Leaving the function drops the guard.\<close>

definition d_return :: "timer_lease_guard \<Rightarrow> 'a \<Rightarrow> dworld \<Rightarrow> 'a dproc" where
  "d_return guard a w = Done (d_main_guard_release guard w) a"

definition d_finish_return :: "timer_lease_guard \<Rightarrow> u64 \<Rightarrow> nat option \<Rightarrow> 'a \<Rightarrow> dworld \<Rightarrow> 'a dproc" where
  "d_finish_return guard now_secs err a w =
     (case d_main_guard_finish guard now_secs err w of None \<Rightarrow> Trap | Some w1 \<Rightarrow> Done w1 a)"

definition neuron_in_flight :: "dneuron \<Rightarrow> bool" where
  "neuron_in_flight neuron =
     (case dn_maturity_disbursements_in_progress neuron of None \<Rightarrow> False | Some items \<Rightarrow> items \<noteq> [])"

text \<open>The part of the tick after the neuron has been read.\<close>

definition main_tick_disburse :: "dconfig \<Rightarrow> u64 \<Rightarrow> dneuron \<Rightarrow> timer_lease_guard \<Rightarrow> dworld \<Rightarrow> bool
    \<Rightarrow> d_main_tick_outcome dproc" where
  "main_tick_disburse cfg now_secs neuron guard w payout_ok =
     (if \<not> payout_ok then d_finish_return guard now_secs (Some 1002) Completed w
      else if \<not> d_main_guard_is_current guard w then d_return guard Completed w
      else let age_seconds = sat_sub now_secs (dn_aging_since_timestamp_seconds neuron);
               w1 = d_with_state_mut (\<lambda>st. st\<lparr>ds_prev_age_seconds := age_seconds\<rparr>) w
           in Await w1 (ReqDisburseMaturity (dc_governance_canister_id cfg) (dc_neuron_id cfg) 100
                (dw_self w1) None)
              (\<lambda>r w2. d_finish_return guard now_secs
                 (case client_disburse r of Inl _ \<Rightarrow> Some 1003 | Inr _ \<Rightarrow> None) Completed w2))"

definition main_tick_with_neuron :: "dconfig \<Rightarrow> u64 \<Rightarrow> u64 \<Rightarrow> timer_lease_guard \<Rightarrow> d_resp \<Rightarrow> dworld
    \<Rightarrow> d_main_tick_outcome dproc" where
  "main_tick_with_neuron cfg now_nanos now_secs guard r w =
     (case client_neuron r of
        Inl _ \<Rightarrow> d_finish_return guard now_secs (Some 1001) Completed w
      | Inr neuron \<Rightarrow>
          if \<not> d_main_guard_is_current guard w then d_return guard Completed w
          else if neuron_in_flight neuron then d_finish_return guard now_secs None Completed w
          else pbind (process_payout cfg now_nanos now_secs guard w)
                 (main_tick_disburse cfg now_secs neuron guard))"

definition d_remaining :: "u64 \<Rightarrow> dstate \<Rightarrow> u64" where
  "d_remaining now_secs st = sat_sub (sat_add (ds_last_main_run_ts st)
     (sat_sub (dc_main_interval_seconds (ds_config st)) 60)) now_secs"

definition main_tick_after_refresh :: "dconfig \<Rightarrow> u64 \<Rightarrow> u64 \<Rightarrow> timer_lease_guard \<Rightarrow> d_resp \<Rightarrow> dworld
    \<Rightarrow> d_main_tick_outcome dproc" where
  "main_tick_after_refresh cfg now_nanos now_secs guard r w =
     (if \<not> d_main_guard_is_current guard w then d_return guard Completed w
      else Await (case client_unit r of Inl _ \<Rightarrow> d_log_error 1005 w | Inr _ \<Rightarrow> w)
             (ReqFullNeuron (dc_governance_canister_id cfg) (dc_neuron_id cfg))
             (main_tick_with_neuron cfg now_nanos now_secs guard))"

definition main_tick_after_claim :: "dconfig \<Rightarrow> u64 \<Rightarrow> u64 \<Rightarrow> timer_lease_guard \<Rightarrow> d_resp \<Rightarrow> dworld
    \<Rightarrow> d_main_tick_outcome dproc" where
  "main_tick_after_claim cfg now_nanos now_secs guard r w =
     (if \<not> d_main_guard_is_current guard w then d_return guard Completed w
      else Await (case client_unit r of Inl _ \<Rightarrow> d_log_error 1006 w | Inr _ \<Rightarrow> w)
             (ReqRefreshVotingPower (dc_governance_canister_id cfg) (dc_neuron_id cfg))
             (main_tick_after_refresh cfg now_nanos now_secs guard))"

definition d_run_main_tick_with_clients :: "bool \<Rightarrow> u64 \<Rightarrow> u64 \<Rightarrow> dconfig \<Rightarrow> dworld
    \<Rightarrow> d_main_tick_outcome dproc" where
  "d_run_main_tick_with_clients force now_nanos now_secs cfg w =
     (case d_main_guard_acquire now_secs w of
        (None, w1) \<Rightarrow> Done w1 MainGuardBusy
      | (Some guard, w1) \<Rightarrow>
          if \<not> force \<and> d_remaining now_secs (dw_state w1) > 0
          then d_return guard (Deferred (d_remaining now_secs (dw_state w1))) w1
          else case d_advance_main_run_marker w1 of
            None \<Rightarrow> Trap
          | Some w2 \<Rightarrow>
              Await w2 (ReqClaimOrRefresh (dc_governance_canister_id cfg) (dc_neuron_id cfg))
                (main_tick_after_claim cfg now_nanos now_secs guard))"

definition d_main_tick :: "bool \<Rightarrow> dworld \<Rightarrow> d_main_tick_outcome dproc" where
  "d_main_tick force w =
     d_run_main_tick_with_clients force (dw_now w) (d_now_secs w) (ds_config (dw_state w)) w"

section \<open>Scheduling and retries\<close>

definition d_reserve_scheduled_main_retry :: "dworld \<Rightarrow> u64 option \<times> dworld" where
  "d_reserve_scheduled_main_retry w =
     (if dw_retry_pending w = Some (dw_run_marker w) then (None, w)
      else (Some (dw_run_marker w), w\<lparr>dw_retry_pending := Some (dw_run_marker w)\<rparr>))"

definition scheduled_main_retry_seconds :: u64 where
  "scheduled_main_retry_seconds = 60"

text \<open>\<open>run_scheduled_main_tick(main_tick(false), schedule_scheduled_main_retry)\<close>.\<close>

definition d_schedule_retry :: "u64 \<Rightarrow> u64 \<Rightarrow> dworld \<Rightarrow> dworld" where
  "d_schedule_retry marker retry_after_seconds w =
     (if dw_run_marker w = marker
      then (case d_reserve_scheduled_main_retry w of
          (None, w1) \<Rightarrow> w1
        | (Some reservation, w1) \<Rightarrow> d_set_timer (MainRetry reservation retry_after_seconds) w1)
      else w)"

definition d_run_scheduled_main_tick :: "dworld \<Rightarrow> d_main_tick_outcome dproc" where
  "d_run_scheduled_main_tick w =
     pbind (d_main_tick False w) (\<lambda>w1 outcome. case outcome of
           Completed \<Rightarrow> Done w1 outcome
         | MainGuardBusy \<Rightarrow>
             Done (d_schedule_retry (dw_run_marker w) scheduled_main_retry_seconds w1) outcome
         | Deferred remaining \<Rightarrow> Done (d_schedule_retry (dw_run_marker w) remaining w1) outcome)"

definition d_run_scheduled_main_retry :: "u64 \<Rightarrow> dworld \<Rightarrow> unit dproc" where
  "d_run_scheduled_main_retry reservation w =
     (if dw_retry_pending w \<noteq> Some reservation then Done w ()
      else let w1 = w\<lparr>dw_retry_pending := None\<rparr> in
        if dw_run_marker w1 = reservation
        then pbind (d_run_scheduled_main_tick w1) (\<lambda>w2 _. Done w2 ())
        else Done w1 ())"

section \<open>Pokes\<close>

definition poke_with_neuron :: "dconfig \<Rightarrow> u64 \<Rightarrow> u64 \<Rightarrow> timer_lease_guard \<Rightarrow> d_resp \<Rightarrow> dworld
    \<Rightarrow> unit dproc" where
  "poke_with_neuron cfg now_nanos now_secs guard r w =
     (case client_neuron r of
        Inl _ \<Rightarrow> d_return guard () w
      | Inr neuron \<Rightarrow>
          if \<not> d_main_guard_is_current guard w then d_return guard () w
          else if neuron_in_flight neuron then d_return guard () w
          else pbind (process_payout cfg now_nanos now_secs guard w) (\<lambda>w1 _. d_return guard () w1))"

definition d_run_poke_with_clients :: "u64 \<Rightarrow> u64 \<Rightarrow> dconfig \<Rightarrow> dworld \<Rightarrow> unit dproc" where
  "d_run_poke_with_clients now_nanos now_secs cfg w =
     (case d_main_guard_acquire now_secs w of
        (None, w1) \<Rightarrow> Done w1 ()
      | (Some guard, w1) \<Rightarrow>
          Await w1 (ReqFullNeuron (dc_governance_canister_id cfg) (dc_neuron_id cfg))
            (poke_with_neuron cfg now_nanos now_secs guard))"

definition d_run_worker :: "dworld \<Rightarrow> unit dproc" where
  "d_run_worker w = d_run_poke_with_clients (dw_now w) (d_now_secs w) (ds_config (dw_state w)) w"

definition d_admit_and_run :: "dworld \<Rightarrow> unit dproc" where
  "d_admit_and_run w =
     (let (ok, rt) = disburser_admit_attempt (dw_now w) (dw_poke w); w1 = w\<lparr>dw_poke := rt\<rparr>
      in if ok then d_run_worker w1 else Done w1 ())"

definition d_handle_event_horizon_poke :: "dworld \<Rightarrow> unit dproc" where
  "d_handle_event_horizon_poke w =
     (let (sched, rt) = disburser_record_hint (dw_now w) (dw_poke w);
          w1 = w\<lparr>dw_poke := rt\<rparr>;
          w2 = (if sched then d_set_timer (PokeDeferred poke_interval_nanos) w1 else w1)
      in d_admit_and_run w2)"

definition d_deferred_callback :: "dworld \<Rightarrow> unit dproc" where
  "d_deferred_callback w =
     (let (act, rt) = disburser_deferred_timer_action (dw_now w) (dw_poke w); w1 = w\<lparr>dw_poke := rt\<rparr>
      in case act of
           Stop \<Rightarrow> Done w1 ()
         | Reschedule remaining \<Rightarrow> Done (d_set_timer (PokeDeferred remaining) w1) ()
         | Attempt \<Rightarrow> d_admit_and_run w1)"

definition d_poke :: "principal \<Rightarrow> poke_notification \<Rightarrow> dworld \<Rightarrow> unit dproc" where
  "d_poke caller notification w =
     (if disburser_caller_is_whitelisted caller
        \<and> disburser_has_relevant_match (pn_matches notification) (dw_self w)
      then d_handle_event_horizon_poke w else Done w ())"

section \<open>Rescue\<close>

definition latch_bootstrap_rescue :: "u64 \<Rightarrow> dstate \<Rightarrow> dstate" where
  "latch_bootstrap_rescue now_secs st =
     (if ds_forced_rescue_reason st = None \<and> disburser_bootstrap_rescue_due now_secs
           (ds_autonomous_rescue_armed_since_ts st) (ds_last_successful_transfer_ts st)
      then st\<lparr>ds_forced_rescue_reason := Some BootstrapNoSuccess\<rparr> else st)"

definition rescue_updated :: "u64 \<Rightarrow> bool \<Rightarrow> d_resp \<Rightarrow> dworld \<Rightarrow> unit dproc" where
  "rescue_updated now_secs rescue_active r w =
     (case client_settings r of
        Inl _ \<Rightarrow> Done (d_log_error 2002 w) ()
      | Inr _ \<Rightarrow> Done (d_with_state_mut (\<lambda>st. st\<lparr>ds_rescue_triggered := rescue_active,
          ds_last_rescue_check_ts := now_secs\<rparr>) w) ())"

definition rescue_decide :: "candid_ops \<Rightarrow> u64 \<Rightarrow> dworld \<Rightarrow> unit dproc" where
  "rescue_decide cx now_secs w =
     (let st = dw_state w; rescue_controller = dc_rescue_controller (ds_config st)
      in if \<not> unwrap_or (dc_autonomous_rescue_armed (ds_config st)) False then Done w ()
         else case disburser_desired_controllers_for_rescue_state now_secs
             (ds_last_successful_transfer_ts st) (dw_self w) rescue_controller
             (ds_forced_rescue_reason st) (ds_rescue_triggered st) of
           None \<Rightarrow> Done w ()
         | Some ps \<Rightarrow>
             let desired = normalize_controllers cx ps
             in Await w (ReqUpdateSettings (controller_update_settings (dw_self w) desired))
                  (rescue_updated now_secs (rescue_controller \<in> set desired)))"

definition d_rescue_tick :: "candid_ops \<Rightarrow> dworld \<Rightarrow> unit dproc" where
  "d_rescue_tick cx w =
     rescue_decide cx (d_now_secs w) (d_with_state_mut (latch_bootstrap_rescue (d_now_secs w)) w)"

section \<open>Timers, lifecycle and the whole canister\<close>

definition d_install_timers :: "dworld \<Rightarrow> dworld" where
  "d_install_timers w =
     d_set_timer (RescueInterval (max (dc_rescue_interval_seconds (ds_config (dw_state w))) 60))
       (d_set_timer (MainInterval (max (dc_main_interval_seconds (ds_config (dw_state w))) 60)) w)"

definition d_schedule_immediate_resume_if_needed :: "dworld \<Rightarrow> dworld" where
  "d_schedule_immediate_resume_if_needed w =
     (if ds_payout_plan (dw_state w) \<noteq> None then d_set_timer ResumeTimer w else w)"

text \<open>A fresh Wasm instance: thread-local cells at their initial values, no timers.\<close>

definition d_fresh :: "principal \<Rightarrow> u64 \<Rightarrow> dstate \<Rightarrow> dworld" where
  "d_fresh self_id now st = \<lparr>dw_self = self_id, dw_now = now, dw_state = st, dw_stable = Some st,
     dw_run_marker = 0, dw_retry_pending = None, dw_poke = poke_runtime_init, dw_timers = [],
     dw_errors = []\<rparr>"

definition d_installed :: "candid_ops \<Rightarrow> dworld \<Rightarrow> bool" where
  "d_installed cx w \<longleftrightarrow> (\<exists>self_id now args st.
     disburser_init cx self_id (now div 1000000000) args = Inr st \<and>
     w = d_install_timers (d_fresh self_id now st))"

definition d_post_upgrade :: "candid_ops \<Rightarrow> dupgrade_args option \<Rightarrow> dworld \<Rightarrow> dworld option" where
  "d_post_upgrade cx args w =
     (case dw_stable w of
        None \<Rightarrow> None
      | Some st \<Rightarrow>
         (case disburser_apply_upgrade_args_to_state cx (dw_self w) st args (d_now_secs w) of
            Inl _ \<Rightarrow> None
          | Inr (st1, reconcile) \<Rightarrow>
              let w1 = d_schedule_immediate_resume_if_needed
                    (d_install_timers (d_fresh (dw_self w) (dw_now w) st1))
              in Some (if reconcile then d_set_timer ReconcileTimer w1 else w1)))"

text \<open>A timer callback; the delay is not modelled, a timer may fire at any later moment.\<close>

definition d_fire_timer :: "candid_ops \<Rightarrow> dtimer \<Rightarrow> dworld \<Rightarrow> unit dproc" where
  "d_fire_timer cx t w =
     (if t \<notin> set (dw_timers w) then Done w ()
      else let w1 = w\<lparr>dw_timers := remove1 t (dw_timers w)\<rparr> in
        case t of
          MainInterval _ \<Rightarrow> pbind (d_run_scheduled_main_tick w) (\<lambda>w2 _. Done w2 ())
        | RescueInterval _ \<Rightarrow> d_rescue_tick cx w
        | ResumeTimer \<Rightarrow> pbind (d_main_tick True w1) (\<lambda>w2 _. Done w2 ())
        | ReconcileTimer \<Rightarrow> d_rescue_tick cx w1
        | MainRetry reservation _ \<Rightarrow> d_run_scheduled_main_retry reservation w1
        | PokeDeferred _ \<Rightarrow> d_deferred_callback w1)"

definition d_advance_clock :: "u64 \<Rightarrow> dworld \<Rightarrow> unit dproc" where
  "d_advance_clock now w = Done (if dw_now w \<le> now then w\<lparr>dw_now := now\<rparr> else w) ()"

definition d_handlers :: "candid_ops \<Rightarrow> (dworld \<Rightarrow> unit dproc) set" where
  "d_handlers cx = range (d_fire_timer cx) \<union> range (\<lambda>(caller, n). d_poke caller n)
     \<union> range d_advance_clock"

definition d_upgrades :: "candid_ops \<Rightarrow> (dworld \<Rightarrow> dworld option) set" where
  "d_upgrades cx = range (d_post_upgrade cx)"
end
