(* ===== verification/DisburserSafety.thy ===== *)
theory DisburserSafety
  imports DisburserTick
begin

text \<open>
  What the Disburser guarantees in every interleaving of its timers, pokes, retries and upgrades:
  the rely-guarantee contract of each handler, and through \<open>rg_system\<close> the properties of every
  request it ever sends.
\<close>

section \<open>Invariant, rely and request condition\<close>

definition d_recipients :: "dconfig \<Rightarrow> account set" where
  "d_recipients cfg =
     {dc_normal_recipient cfg, dc_age_bonus_recipient_1 cfg, dc_age_bonus_recipient_2 cfg}"

text \<open>The configuration up to the field that upgrades change.\<close>

definition d_config_key :: "dconfig \<Rightarrow> dconfig" where
  "d_config_key cfg = cfg\<lparr>dc_autonomous_rescue_armed := None\<rparr>"

definition transfer_ok :: "dconfig \<Rightarrow> payout_plan \<Rightarrow> nat \<Rightarrow> planned_transfer \<Rightarrow> bool" where
  "transfer_ok cfg plan i t \<longleftrightarrow> pt_to t \<in> d_recipients cfg \<and>
     0 < pt_amount_e8s t \<and>
     unat (pt_amount_e8s t) + unat (pp_fee_e8s plan) = unat (pt_gross_share_e8s t) \<and>
     pt_memo t = build_memo (pp_id plan) (word_of_nat i) \<and>
     pt_created_at_time_nanos t = sat_add (pp_created_at_base_nanos plan) (word_of_nat i)"

definition plan_wf :: "dconfig \<Rightarrow> payout_plan \<Rightarrow> bool" where
  "plan_wf cfg plan \<longleftrightarrow> length (pp_transfers plan) \<le> 3 \<and>
     (\<forall>i<length (pp_transfers plan). transfer_ok cfg plan i (pp_transfers plan ! i))"

text \<open>A plan up to the statuses of its transfers.\<close>

definition plan_key :: "payout_plan \<Rightarrow> payout_plan" where
  "plan_key plan = plan\<lparr>pp_transfers := map (\<lambda>t. t\<lparr>pt_status := Pending\<rparr>) (pp_transfers plan)\<rparr>"

definition st_inv :: "candid_ops \<Rightarrow> principal \<Rightarrow> dstate \<Rightarrow> bool" where
  "st_inv cx self_id st \<longleftrightarrow> valid_dconfig cx self_id (ds_config st) \<and>
     (\<forall>plan. ds_payout_plan st = Some plan \<longrightarrow> plan_wf (ds_config st) plan \<and>
        (pp_id plan < ds_payout_nonce st \<or> ds_payout_nonce st = u_max))"

definition st_rel :: "dstate \<Rightarrow> dstate \<Rightarrow> bool" where
  "st_rel st st' \<longleftrightarrow> d_config_key (ds_config st) = d_config_key (ds_config st') \<and>
     ds_payout_nonce st \<le> ds_payout_nonce st' \<and>
     (\<forall>plan'. ds_payout_plan st' = Some plan' \<longrightarrow>
        (\<exists>plan. ds_payout_plan st = Some plan \<and> plan_key plan = plan_key plan') \<or>
        ds_payout_nonce st \<le> pp_id plan')"

definition d_inv :: "candid_ops \<Rightarrow> dworld \<Rightarrow> bool" where
  "d_inv cx w \<longleftrightarrow> dw_stable w = Some (dw_state w) \<and> st_inv cx (dw_self w) (dw_state w)"

definition d_rel :: "dworld \<Rightarrow> dworld \<Rightarrow> bool" where
  "d_rel w w' \<longleftrightarrow> dw_self w = dw_self w' \<and> dw_now w \<le> dw_now w' \<and>
     st_rel (dw_state w) (dw_state w')"

text \<open>The lock is held and has not expired.\<close>

definition lease_held :: "dworld \<Rightarrow> bool" where
  "lease_held w \<longleftrightarrow> (\<exists>e. ds_main_lock_state_ts (dw_state w) = Some e \<and> d_now_secs w < e)"

definition d_req_ok :: "candid_ops \<Rightarrow> dworld \<Rightarrow> d_req \<Rightarrow> bool" where
  "d_req_ok cx w q \<longleftrightarrow> d_inv cx w \<and> (case q of
       ReqTransfer ledger arg \<Rightarrow> lease_held w \<and>
         ledger = dc_ledger_canister_id (ds_config (dw_state w)) \<and>
         (\<exists>plan i. ds_payout_plan (dw_state w) = Some plan \<and>
            first_pending (pp_transfers plan) = Some i \<and>
            arg = transfer_arg_of plan (pp_transfers plan ! i))
     | ReqDisburseMaturity gov neuron pct owner sub \<Rightarrow> lease_held w \<and>
         gov = dc_governance_canister_id (ds_config (dw_state w)) \<and>
         neuron = dc_neuron_id (ds_config (dw_state w)) \<and> pct = 100 \<and> owner = dw_self w \<and>
         sub = None \<and> ds_payout_plan (dw_state w) = None
     | ReqUpdateSettings arg \<Rightarrow> us_canister_id arg = dw_self w \<and>
         (\<exists>cs. cs_controllers (us_settings arg) = Some cs \<and> distinct cs \<and> dw_self w \<in> set cs \<and>
            set cs \<subseteq> {dw_self w, dc_rescue_controller (ds_config (dw_state w))})
     | _ \<Rightarrow> True)"

section \<open>The relations\<close>

lemma plan_key_id: "pp_id (plan_key plan) = pp_id plan"
  by (simp add: plan_key_def)

lemma st_rel_refl [simp, intro]: "st_rel st st"
  by (auto simp: st_rel_def)

lemma st_rel_trans:
  assumes "st_rel a b" "st_rel b c"
  shows "st_rel a c"
proof -
  have "(\<exists>plan. ds_payout_plan a = Some plan \<and> plan_key plan = plan_key p) \<or>
      ds_payout_nonce a \<le> pp_id p" if "ds_payout_plan c = Some p" for p
  proof (cases "\<exists>plan. ds_payout_plan b = Some plan \<and> plan_key plan = plan_key p")
    case True
    then obtain q where q: "ds_payout_plan b = Some q" "plan_key q = plan_key p" by blast
    then have "pp_id q = pp_id p" by (metis plan_key_id)
    with q assms(1) show ?thesis by (auto simp: st_rel_def)
  next
    case False
    with assms(2) that have "ds_payout_nonce b \<le> pp_id p" by (auto simp: st_rel_def)
    with assms(1) show ?thesis by (auto simp: st_rel_def)
  qed
  with assms show ?thesis by (auto simp: st_rel_def)
qed

lemma d_rel_refl [simp, intro]: "d_rel w w"
  by (simp add: d_rel_def)

lemma d_rel_trans: "d_rel a b \<Longrightarrow> d_rel b c \<Longrightarrow> d_rel a c"
  unfolding d_rel_def using st_rel_trans order_trans by metis

lemma d_config_key_fields:
  assumes "d_config_key c = d_config_key c'"
  shows "dc_neuron_id c = dc_neuron_id c'" "d_recipients c = d_recipients c'"
    "dc_ledger_canister_id c = dc_ledger_canister_id c'"
    "dc_governance_canister_id c = dc_governance_canister_id c'"
    "dc_rescue_controller c = dc_rescue_controller c'"
    "dc_normal_recipient c = dc_normal_recipient c'"
    "dc_age_bonus_recipient_1 c = dc_age_bonus_recipient_1 c'"
    "dc_age_bonus_recipient_2 c = dc_age_bonus_recipient_2 c'"
  using assms by (cases c; cases c'; simp add: d_config_key_def d_recipients_def)+

text \<open>Changes that leave configuration, nonce and plan alone.\<close>

definition quiet :: "(dstate \<Rightarrow> dstate) \<Rightarrow> bool" where
  "quiet f \<longleftrightarrow> (\<forall>st. ds_config (f st) = ds_config st \<and> ds_payout_nonce (f st) = ds_payout_nonce st
     \<and> ds_payout_plan (f st) = ds_payout_plan st)"

lemma quiet_inv: "quiet f \<Longrightarrow> st_inv cx self_id (f st) = st_inv cx self_id st"
  by (simp add: quiet_def st_inv_def)

lemma quiet_rel: "quiet f \<Longrightarrow> st_rel st (f st)"
  by (auto simp: quiet_def st_rel_def)

lemma quiet_id [simp, intro]: "quiet id"
  by (simp add: quiet_def)

lemma with_state_mut_fields [simp]:
  "dw_state (d_with_state_mut f w) = f (dw_state w)"
  "dw_stable (d_with_state_mut f w) = Some (f (dw_state w))"
  "dw_self (d_with_state_mut f w) = dw_self w"
  "dw_now (d_with_state_mut f w) = dw_now w"
  "dw_run_marker (d_with_state_mut f w) = dw_run_marker w"
  "d_now_secs (d_with_state_mut f w) = d_now_secs w"
  by (simp_all add: d_with_state_mut_def Let_def d_now_secs_def)

lemma with_state_mut_step:
  "st_inv cx (dw_self w) (f (dw_state w)) \<Longrightarrow> st_rel (dw_state w) (f (dw_state w)) \<Longrightarrow>
     d_inv cx (d_with_state_mut f w) \<and> d_rel w (d_with_state_mut f w)"
  by (simp add: d_inv_def d_rel_def)

lemma quiet_step:
  "quiet f \<Longrightarrow> d_inv cx w \<Longrightarrow> d_inv cx (d_with_state_mut f w) \<and> d_rel w (d_with_state_mut f w)"
  by (intro with_state_mut_step) (simp_all add: quiet_inv quiet_rel d_inv_def)

text \<open>A step of a handler: invariant and relation at once, and the plan it leaves alone.\<close>

definition d_step :: "candid_ops \<Rightarrow> dworld \<Rightarrow> dworld \<Rightarrow> bool" where
  "d_step cx w w' \<longleftrightarrow> (d_inv cx w \<longrightarrow> d_inv cx w' \<and> d_rel w w')"

lemma d_step_refl [simp, intro]: "d_step cx w w"
  by (simp add: d_step_def)

lemma d_step_trans: "d_step cx a b \<Longrightarrow> d_step cx b c \<Longrightarrow> d_step cx a c"
  unfolding d_step_def using d_rel_trans by blast

lemma d_step_quiet: "quiet f \<Longrightarrow> d_step cx w (d_with_state_mut f w)"
  using quiet_step by (simp add: d_step_def)

lemma d_step_state:
  "(\<And>self_id. st_inv cx self_id (dw_state w) \<Longrightarrow> st_inv cx self_id (f (dw_state w)))
   \<Longrightarrow> st_rel (dw_state w) (f (dw_state w)) \<Longrightarrow> d_step cx w (d_with_state_mut f w)"
  using with_state_mut_step [of cx w f] by (simp add: d_step_def d_inv_def)

lemma d_step_cells:
  "dw_self w' = dw_self w \<Longrightarrow> dw_now w \<le> dw_now w' \<Longrightarrow> dw_state w' = dw_state w
   \<Longrightarrow> dw_stable w' = dw_stable w \<Longrightarrow> d_step cx w w'"
  by (simp add: d_step_def d_inv_def d_rel_def)

section \<open>Guard operations\<close>

lemma acquire_step: "d_step cx w (snd (d_main_guard_acquire now w))"
  by (auto simp: d_main_guard_acquire_def quiet_def intro!: d_step_quiet split: option.splits)

lemma release_step: "d_step cx w (d_main_guard_release g w)"
  by (auto simp: d_main_guard_release_def quiet_def intro!: d_step_quiet)

lemma advance_step: "d_advance_main_run_marker w = Some w' \<Longrightarrow> d_step cx w w'"
  by (auto simp: d_advance_main_run_marker_def intro!: d_step_cells split: option.splits)

lemma log_error_step: "d_step cx w (d_log_error code w)"
  by (rule d_step_cells) (simp_all add: d_log_error_def)

lemma set_timer_step: "d_step cx w (d_set_timer t w)"
  by (rule d_step_cells) (simp_all add: d_set_timer_def)

lemma finish_step: "d_main_guard_finish g now err w = Some w' \<Longrightarrow> d_step cx w w'"
proof -
  assume fin: "d_main_guard_finish g now err w = Some w'"
  show ?thesis
  proof (cases "d_main_guard_is_current g w")
    case False
    with fin show ?thesis by (auto simp: d_main_guard_finish_def intro: release_step)
  next
    case True
    have rec: "quiet (\<lambda>st. st\<lparr>ds_last_main_run_ts := now, ds_main_lock_state_ts := Some 0\<rparr>)"
      by (simp add: quiet_def)
    obtain w1 g' where w1: "d_step cx w w1"
      and w': "w' = d_main_guard_release g' (case err of None \<Rightarrow> w1 | Some code \<Rightarrow> d_log_error code w1)"
      using fin True
      by (auto simp: d_main_guard_finish_def split: prod.splits if_splits option.splits
          intro: d_step_quiet [OF quiet_id] d_step_trans [OF advance_step d_step_quiet [OF rec]])
    have "d_step cx w1 (case err of None \<Rightarrow> w1 | Some code \<Rightarrow> d_log_error code w1)"
      by (auto intro: log_error_step split: option.split)
    with w1 w' show ?thesis using d_step_trans release_step by metis
  qed
qed

lemma is_current_lease: "d_main_guard_is_current g w \<Longrightarrow> lease_held w"
  by (auto simp: d_main_guard_is_current_def lease_held_def)

section \<open>Plan operations\<close>

lemma plan_key_update:
  "i < length (pp_transfers plan) \<Longrightarrow>
     plan_key (plan\<lparr>pp_transfers := (pp_transfers plan)
       [i := (pp_transfers plan ! i)\<lparr>pt_status := s\<rparr>]\<rparr>) = plan_key plan"
proof -
  assume i: "i < length (pp_transfers plan)"
  have "map (\<lambda>t. t\<lparr>pt_status := Pending\<rparr>) ((pp_transfers plan)
      [i := (pp_transfers plan ! i)\<lparr>pt_status := s\<rparr>])
    = (map (\<lambda>t. t\<lparr>pt_status := Pending\<rparr>) (pp_transfers plan))
      [i := map (\<lambda>t. t\<lparr>pt_status := Pending\<rparr>) (pp_transfers plan) ! i]"
    using i by (simp add: map_update)
  then show ?thesis by (simp add: plan_key_def)
qed

lemma transfer_ok_status [simp]:
  "transfer_ok cfg (plan\<lparr>pp_transfers := ts\<rparr>) i t = transfer_ok cfg plan i t"
  "transfer_ok cfg plan i (t\<lparr>pt_status := s\<rparr>) = transfer_ok cfg plan i t"
  by (simp_all add: transfer_ok_def)

lemma plan_wf_update:
  "plan_wf cfg plan \<Longrightarrow> plan_wf cfg (plan\<lparr>pp_transfers := (pp_transfers plan)
       [i := (pp_transfers plan ! i)\<lparr>pt_status := s\<rparr>]\<rparr>)"
proof -
  assume wf: "plan_wf cfg plan"
  have "transfer_ok cfg plan j ((pp_transfers plan)[i := (pp_transfers plan ! i)\<lparr>pt_status := s\<rparr>] ! j)"
    if "j < length (pp_transfers plan)" for j
    using wf that by (cases "i = j") (simp_all add: plan_wf_def)
  with wf show ?thesis by (simp add: plan_wf_def)
qed

lemma mark_sent_step:
  assumes "ds_payout_plan (dw_state w) = Some plan" "first_pending (pp_transfers plan) = Some i"
  shows "d_step cx w (d_with_state_mut (mark_sent plan i b now) w)"
proof -
  let ?plan = "plan\<lparr>pp_transfers := (pp_transfers plan)
       [i := (pp_transfers plan ! i)\<lparr>pt_status := Sent b\<rparr>]\<rparr>"
  have "i < length (pp_transfers plan)" using assms(2) first_pending_Some by blast
  then have "plan_key ?plan = plan_key plan" by (rule plan_key_update)
  then have "st_rel (dw_state w) (mark_sent plan i b now (dw_state w))"
    using assms(1) by (auto simp: mark_sent_def st_rel_def)
  moreover have "st_inv cx self_id (mark_sent plan i b now (dw_state w))"
    if "st_inv cx self_id (dw_state w)" for self_id
    using that assms(1) by (auto simp: mark_sent_def st_inv_def intro: plan_wf_update)
  ultimately show ?thesis by (rule d_step_state [rotated])
qed

lemma clear_plan_step: "d_step cx w (d_with_state_mut (clear_plan plan) w)"
proof -
  have "st_rel (dw_state w) (clear_plan plan (dw_state w))" by (auto simp: clear_plan_def st_rel_def)
  moreover have "st_inv cx self_id (clear_plan plan (dw_state w))"
    if "st_inv cx self_id (dw_state w)" for self_id
    using that by (auto simp: clear_plan_def st_inv_def)
  ultimately show ?thesis by (rule d_step_state [rotated])
qed

lemma plan_recipients:
  "pl_to ` set (snd (plan_payout_transfers pid base bal fee age n b1 b2)) \<subseteq> {n, b1, b2}"
proof -
  have push: "pl_to ` set (fst (push pid base fee (to, share) (out, idx))) \<subseteq> insert to (pl_to ` set out)"
    for to share out idx by (auto simp: push_def)
  let ?g = "compute_gross_split bal age"
  obtain s1 i1 where 1: "push pid base fee (n, gs_base ?g) ([], 0) = (s1, i1)" by fastforce
  obtain s2 i2 where 2: "push pid base fee (b1, gs_bonus1 ?g) (s1, i1) = (s2, i2)" by fastforce
  obtain s3 i3 where 3: "push pid base fee (b2, gs_bonus2 ?g) (s2, i2) = (s3, i3)" by fastforce
  have step: "A \<subseteq> {n} \<Longrightarrow> B \<subseteq> insert b1 A \<Longrightarrow> C \<subseteq> insert b2 B \<Longrightarrow> C \<subseteq> {n, b1, b2}" for A B C
    by blast
  have "pl_to ` set s1 \<subseteq> {n}" using push [of n "gs_base ?g" "[]" 0] 1 by simp
  moreover have "pl_to ` set s2 \<subseteq> insert b1 (pl_to ` set s1)"
    using push [of b1 "gs_bonus1 ?g" s1 i1] 2 by simp
  moreover have "pl_to ` set s3 \<subseteq> insert b2 (pl_to ` set s2)"
    using push [of b2 "gs_bonus2 ?g" s2 i2] 3 by simp
  ultimately have "pl_to ` set s3 \<subseteq> {n, b1, b2}" by (rule step)
  then show ?thesis by (simp add: plan_list 1 2 3)
qed

lemma build_plan_wf: "plan_wf cfg (build_plan cfg pid now bal fee age)"
proof -
  define out where "out = snd (plan_payout_transfers pid now bal fee age (dc_normal_recipient cfg)
      (dc_age_bonus_recipient_1 cfg) (dc_age_bonus_recipient_2 cfg))"
  obtain m where m: "m \<le> 3" "list_all2 (planned_ok pid now fee) (map word_of_nat [0..<m]) out"
    unfolding out_def using plan_ok by blast
  then have len: "length out = m" by (auto dest: list_all2_lengthD)
  have plan: "build_plan cfg pid now bal fee age = \<lparr>pp_id = pid, pp_fee_e8s = fee,
      pp_created_at_base_nanos = now, pp_transfers = map planned_to_pending out\<rparr>"
    by (simp add: build_plan_def out_def case_prod_beta)
  have "pl_to p \<in> d_recipients cfg" if "p \<in> set out" for p
    using that plan_recipients unfolding out_def d_recipients_def by blast
  moreover have "planned_ok pid now fee (word_of_nat i) (out ! i)" if "i < m" for i
    using m(2) that by (simp add: list_all2_conv_all_nth)
  ultimately show ?thesis
    using m(1) len by (auto simp: plan plan_wf_def transfer_ok_def planned_to_pending_def planned_ok_def)
qed

lemma plan_wf_key: "d_recipients cfg = d_recipients cfg' \<Longrightarrow> plan_wf cfg plan = plan_wf cfg' plan"
  by (simp add: plan_wf_def transfer_ok_def)

lemma install_plan_step:
  assumes "install_plan nonce (build_plan cfg nonce now bal fee age) (dw_state w) = (installed, st)"
    and "d_config_key cfg = d_config_key (ds_config (dw_state w))"
  shows "d_step cx w (d_with_state_mut (\<lambda>_. st) w)"
proof (cases installed)
  case False
  with assms(1) have "st = dw_state w" by (auto simp: install_plan_def split: if_splits)
  then show ?thesis by (simp add: d_step_def d_inv_def d_rel_def)
next
  case True
  let ?plan = "build_plan cfg nonce now bal fee age"
  from True assms(1) have st: "st = (dw_state w)\<lparr>ds_payout_nonce := sat_add nonce 1,
      ds_payout_plan := Some ?plan\<rparr>" "ds_payout_nonce (dw_state w) = nonce"
    by (auto simp: install_plan_def split: if_splits)
  have wf: "plan_wf (ds_config (dw_state w)) ?plan"
    using build_plan_wf [of cfg] plan_wf_key d_config_key_fields(2) [OF assms(2)] by metis
  have id: "pp_id ?plan = nonce" by (simp add: build_plan_def case_prod_beta)
  have next_id: "nonce < sat_add nonce 1 \<or> sat_add nonce 1 = u_max"
    by (auto simp: sat_add_def word_less_nat_alt unat_word_ariths)
  have "st_rel (dw_state w) st"
    using st id by (auto simp: st_rel_def le_sat_add)
  moreover have "st_inv cx self_id st" if "st_inv cx self_id (dw_state w)" for self_id
    using that st wf id next_id by (auto simp: st_inv_def)
  ultimately show ?thesis by (rule d_step_state [rotated])
qed

section \<open>Judgements\<close>

definition d_rg :: "candid_ops \<Rightarrow> (dworld \<Rightarrow> 'a \<Rightarrow> bool) \<Rightarrow> 'a dproc \<Rightarrow> dworld \<Rightarrow> bool" where
  "d_rg cx Q p w \<longleftrightarrow> rg True (d_inv cx) d_rel (d_req_ok cx) Q p w"

lemma d_rg_done: "d_inv cx w0 \<Longrightarrow> d_step cx w0 w \<Longrightarrow> Q w a \<Longrightarrow> d_rg cx Q (Done w a) w0"
  by (simp add: d_rg_def d_step_def)

lemma d_rg_trap [simp]: "d_rg cx Q Trap w0"
  by (simp add: d_rg_def)

lemma d_rg_await:
  assumes "d_inv cx w0" "d_step cx w0 w" "d_inv cx w \<Longrightarrow> d_req_ok cx w q"
    and "\<And>r w'. d_inv cx w' \<Longrightarrow> d_rel w w' \<Longrightarrow> d_rg cx Q (k r w') w'"
  shows "d_rg cx Q (Await w q k) w0"
  using assms by (simp add: d_rg_def d_step_def)

lemma d_rg_start:
  "d_rg cx Q p w1 \<Longrightarrow> d_inv cx w0 \<Longrightarrow> d_step cx w0 w1 \<Longrightarrow> d_rg cx Q p w0"
  unfolding d_rg_def d_step_def using rg_start d_rel_trans by metis

lemma d_rg_bind:
  assumes "d_rg cx Q' p w0"
    and "\<And>w a. d_inv cx w \<Longrightarrow> d_rel w0 w \<Longrightarrow> Q' w a \<Longrightarrow> d_rg cx Q (f w a) w"
  shows "d_rg cx Q (pbind p f) w0"
proof -
  have "rg True (d_inv cx) d_rel (d_req_ok cx) (\<lambda>w a. Q' w a \<and> d_rel w0 w) p w0"
    using assms(1) unfolding d_rg_def by (rule rg_since) (auto intro: d_rel_trans)
  then show ?thesis
    using assms(2) unfolding d_rg_def
    by (intro rg_bind [where Q' = "\<lambda>w a. Q' w a \<and> d_rel w0 w"]) (auto intro: d_rel_trans)
qed

lemma d_rg_return: "d_inv cx w \<Longrightarrow> d_rg cx (\<lambda>_ _. True) (d_return g a w) w"
  by (simp add: d_return_def d_rg_done release_step)

lemma d_rg_finish: "d_inv cx w \<Longrightarrow> d_rg cx (\<lambda>_ _. True) (d_finish_return g now err a w) w"
  by (auto simp: d_finish_return_def intro: d_rg_done finish_step split: option.splits)

text \<open>The result of a payout: success means that no plan is left.\<close>

definition payout_done :: "dworld \<Rightarrow> bool \<Rightarrow> bool" where
  "payout_done w ok \<longleftrightarrow> (ok \<longrightarrow> ds_payout_plan (dw_state w) = None)"

lemma payout_loop_stale:
  "\<not> d_main_guard_is_current guard w \<Longrightarrow> payout_loop ledger now guard w = Done w False"
  by (simp add: payout_loop.simps [of ledger now guard w])

lemma payout_loop_over:
  "d_main_guard_is_current guard w \<Longrightarrow> ds_payout_plan (dw_state w) = None
   \<Longrightarrow> payout_loop ledger now guard w = Done w True"
  "d_main_guard_is_current guard w \<Longrightarrow> ds_payout_plan (dw_state w) = Some plan
   \<Longrightarrow> first_pending (pp_transfers plan) = None
   \<Longrightarrow> payout_loop ledger now guard w = Done (d_with_state_mut (clear_plan plan) w) True"
  by (simp_all add: payout_loop.simps [of ledger now guard w])

definition payout_reply :: "principal \<Rightarrow> u64 \<Rightarrow> timer_lease_guard \<Rightarrow> payout_plan \<Rightarrow> nat
    \<Rightarrow> d_resp \<Rightarrow> dworld \<Rightarrow> bool dproc" where
  "payout_reply ledger now_secs guard plan i r w1 =
     (case client_transfer r of
        Inl _ \<Rightarrow> Done w1 False
      | Inr res \<Rightarrow>
         if ds_payout_plan (dw_state w1) \<noteq> Some plan then Done w1 False
         else (case res of
            Inr block \<Rightarrow> payout_loop ledger now_secs guard
              (d_with_state_mut (mark_sent plan i (decimal block) now_secs) w1)
          | Inl (Duplicate duplicate_of) \<Rightarrow> payout_loop ledger now_secs guard
              (d_with_state_mut (mark_sent plan i (decimal duplicate_of) now_secs) w1)
          | Inl err \<Rightarrow>
              Done (if d_main_guard_is_current guard w1
                      \<and> should_clear_payout_plan_on_transfer_error err
                    then d_with_state_mut (clear_plan plan) w1 else w1) False))"

lemma payout_loop_send:
  assumes "d_main_guard_is_current guard w" "ds_payout_plan (dw_state w) = Some plan"
    "first_pending (pp_transfers plan) = Some i"
  shows "payout_loop ledger now guard w = Await w
    (ReqTransfer ledger (transfer_arg_of plan (pp_transfers plan ! i)))
    (payout_reply ledger now guard plan i)"
  using assms
  by (simp add: payout_loop.simps [of ledger now guard w] payout_reply_def [abs_def])

text \<open>Induction over the loop: a reply that records a transfer continues with a plan that has one
  pending transfer less.\<close>

lemma payout_loop_rg:
  assumes "d_inv cx w" "ledger = dc_ledger_canister_id (ds_config (dw_state w))"
  shows "d_rg cx payout_done (payout_loop ledger now guard w) w"
  using assms
proof (induction "pending_count (ds_payout_plan (dw_state w))" arbitrary: w rule: less_induct)
  case less
  consider "\<not> d_main_guard_is_current guard w"
    | "d_main_guard_is_current guard w" "ds_payout_plan (dw_state w) = None"
    | plan where "d_main_guard_is_current guard w" "ds_payout_plan (dw_state w) = Some plan"
        "first_pending (pp_transfers plan) = None"
    | plan i where "d_main_guard_is_current guard w" "ds_payout_plan (dw_state w) = Some plan"
        "first_pending (pp_transfers plan) = Some i"
    by (metis option.exhaust)
  then show ?case
  proof cases
    case 1
    then show ?thesis using less(2) by (simp add: payout_loop_stale d_rg_done payout_done_def)
  next
    case 2
    then show ?thesis using less(2) by (simp add: payout_loop_over d_rg_done payout_done_def)
  next
    case (3 plan)
    then have "payout_done (d_with_state_mut (clear_plan plan) w) True"
      by (simp add: payout_done_def clear_plan_def)
    with 3 show ?thesis using less(2) by (simp add: payout_loop_over d_rg_done clear_plan_step)
  next
    case (4 plan i)
    have again: "d_rg cx payout_done (payout_loop ledger now guard
          (d_with_state_mut (mark_sent plan i b now) w1)) w1"
      if w1: "d_inv cx w1" "d_rel w w1" "ds_payout_plan (dw_state w1) = Some plan" for b w1
    proof -
      let ?w = "d_with_state_mut (mark_sent plan i b now) w1"
      have step: "d_step cx w1 ?w" using w1(3) 4(3) by (rule mark_sent_step)
      have "d_inv cx ?w" using step w1(1) by (simp add: d_step_def)
      moreover have "dc_ledger_canister_id (ds_config (dw_state w1)) = ledger"
        unfolding less(3) using w1(2) by (intro d_config_key_fields(3)) (simp add: d_rel_def st_rel_def)
      then have "ledger = dc_ledger_canister_id (ds_config (dw_state ?w))"
        by (simp add: mark_sent_def)
      moreover have "pending_count (ds_payout_plan (dw_state ?w))
          < pending_count (ds_payout_plan (dw_state w))"
        using first_pending_Some [OF 4(3)] by (simp add: mark_sent_def pending_count_def w1(3) 4(2))
      ultimately have "d_rg cx payout_done (payout_loop ledger now guard ?w) ?w"
        by (intro less(1))
      then show ?thesis using w1(1) step by (rule d_rg_start)
    qed
    have "d_rg cx payout_done (payout_reply ledger now guard plan i r w1) w1"
      if w1: "d_inv cx w1" "d_rel w w1" for r w1
    proof -
      have fail: "d_rg cx payout_done (Done w1 False) w1"
        "d_rg cx payout_done (Done (d_with_state_mut (clear_plan plan) w1) False) w1"
        using w1 by (simp_all add: d_rg_done clear_plan_step payout_done_def)
      show ?thesis
        using fail again [OF w1] unfolding payout_reply_def
        by (auto split: sum.split transfer_error.split)
    qed
    moreover have "d_req_ok cx w (ReqTransfer ledger (transfer_arg_of plan (pp_transfers plan ! i)))"
      using 4 less(2,3) by (auto simp: d_req_ok_def is_current_lease)
    ultimately show ?thesis
      using less(2) unfolding payout_loop_send [OF 4] by (intro d_rg_await) simp_all
  qed
qed


lemma config_later:
  "d_rel w w' \<Longrightarrow> d_config_key cfg = d_config_key (ds_config (dw_state w))
   \<Longrightarrow> d_config_key cfg = d_config_key (ds_config (dw_state w'))"
  by (simp add: d_rel_def st_rel_def)

lemma d_rg_bool: "d_inv cx w \<Longrightarrow> \<not> ok \<or> ds_payout_plan (dw_state w) = None \<Longrightarrow>
    d_rg cx payout_done (Done w ok) w"
  by (auto intro!: d_rg_done simp: payout_done_def)

lemma payout_loop_rg':
  "d_inv cx w \<Longrightarrow> d_config_key cfg = d_config_key (ds_config (dw_state w)) \<Longrightarrow>
     d_rg cx payout_done (payout_loop (dc_ledger_canister_id cfg) now_secs guard w) w"
  by (intro payout_loop_rg) (auto dest: d_config_key_fields)

lemma payout_install_rg:
  assumes "d_inv cx w" "d_config_key cfg = d_config_key (ds_config (dw_state w))"
  shows "d_rg cx payout_done
    (payout_install cfg nonce (build_plan cfg nonce now bal fee age) now_secs guard w) w"
proof -
  obtain inst st where inst: "install_plan nonce (build_plan cfg nonce now bal fee age) (dw_state w)
      = (inst, st)" by fastforce
  let ?w = "d_with_state_mut (\<lambda>_. st) w"
  have step: "d_step cx w ?w" using inst assms(2) by (rule install_plan_step)
  then have w: "d_inv cx ?w" "d_rel w ?w" using assms(1) by (simp_all add: d_step_def)
  have "d_rg cx payout_done (payout_install cfg nonce (build_plan cfg nonce now bal fee age)
      now_secs guard w) ?w"
    using d_rg_bool [OF w(1), of False] payout_loop_rg' [OF w(1) config_later [OF w(2) assms(2)]]
    by (simp add: payout_install_def inst)
  then show ?thesis using assms(1) step by (rule d_rg_start)
qed

lemma payout_with_fee_rg:
  assumes "d_inv cx w" "d_config_key cfg = d_config_key (ds_config (dw_state w))"
  shows "d_rg cx payout_done (payout_with_fee cfg now now_secs nonce age bal guard r w) w"
  using d_rg_bool [OF assms(1), of False] payout_install_rg [OF assms]
  by (auto simp: payout_with_fee_def split: sum.split)

lemma payout_with_balance_rg:
  assumes "d_inv cx w" "d_config_key cfg = d_config_key (ds_config (dw_state w))"
  shows "d_rg cx payout_done (payout_with_balance cfg now now_secs nonce plan age guard r w) w"
proof -
  have "d_rg cx payout_done (Await w (ReqFee (dc_ledger_canister_id cfg))
      (payout_with_fee cfg now now_secs nonce age bal guard)) w" for bal
    using assms by (intro d_rg_await payout_with_fee_rg) (auto simp: d_req_ok_def intro: config_later)
  then show ?thesis
    using d_rg_bool [OF assms(1)] payout_loop_rg' [OF assms]
    by (auto simp: payout_with_balance_def payout_generation_matches_def split: sum.split)
qed

lemma process_payout_rg:
  assumes "d_inv cx w" "d_config_key cfg = d_config_key (ds_config (dw_state w))"
  shows "d_rg cx payout_done (process_payout cfg now now_secs guard w) w"
proof (cases "d_main_guard_is_current guard w")
  case False
  then show ?thesis using assms by (simp add: process_payout_def d_rg_bool)
next
  case True
  have "d_rg cx payout_done (payout_with_balance cfg now now_secs nonce plan age guard r w') w'"
    if "d_inv cx w'" "d_rel w w'" for nonce plan age r w'
    using that(1) config_later [OF that(2) assms(2)] by (rule payout_with_balance_rg)
  with True show ?thesis
    using assms(1) by (simp add: process_payout_def d_rg_await d_req_ok_def)
qed


section \<open>Ticks, pokes and rescue\<close>

abbreviation d_ok :: "candid_ops \<Rightarrow> 'a dproc \<Rightarrow> dworld \<Rightarrow> bool" where
  "d_ok cx \<equiv> d_rg cx (\<lambda>_ _. True)"

text \<open>The configuration a run captured at its start agrees with the current one.\<close>

definition d_cfg :: "dworld \<Rightarrow> dconfig \<Rightarrow> bool" where
  "d_cfg w cfg \<longleftrightarrow> d_config_key cfg = d_config_key (ds_config (dw_state w))"

lemma d_cfg_self [simp]: "d_cfg w (ds_config (dw_state w))"
  by (simp add: d_cfg_def)

lemma d_cfg_later: "d_rel w w' \<Longrightarrow> d_cfg w cfg \<Longrightarrow> d_cfg w' cfg"
  unfolding d_cfg_def by (rule config_later)

lemma d_step_cfg: "d_step cx w w' \<Longrightarrow> d_inv cx w \<Longrightarrow> d_cfg w cfg \<Longrightarrow> d_inv cx w' \<and> d_cfg w' cfg"
  unfolding d_step_def using d_cfg_later by blast

lemma d_poke_cell_step: "d_step cx w (w\<lparr>dw_poke := rt\<rparr>)"
  by (rule d_step_cells) simp_all

lemma d_timer_poke_step: "d_step cx w (d_set_timer t (w\<lparr>dw_poke := rt\<rparr>))"
  by (rule d_step_trans [OF d_poke_cell_step set_timer_step])

lemma d_ok_done: "d_inv cx w0 \<Longrightarrow> d_step cx w0 w \<Longrightarrow> d_ok cx (Done w a) w0"
  by (simp add: d_rg_done)

text \<open>Weaker requests: those that \<open>d_req_ok\<close> does not constrain.\<close>

lemma d_req_ok_free [simp]:
  "d_req_ok cx w (ReqBalanceOf l a) = d_inv cx w" "d_req_ok cx w (ReqFee l) = d_inv cx w"
  "d_req_ok cx w (ReqFullNeuron g n) = d_inv cx w" "d_req_ok cx w (ReqRefreshVotingPower g n) = d_inv cx w"
  "d_req_ok cx w (ReqClaimOrRefresh g n) = d_inv cx w"
  by (simp_all add: d_req_ok_def)

lemma main_tick_disburse_rg:
  assumes "d_inv cx w" "d_cfg w cfg" "payout_done w ok"
  shows "d_ok cx (main_tick_disburse cfg now_secs neuron guard w ok) w"
proof (cases "ok \<and> d_main_guard_is_current guard w")
  case False
  then show ?thesis using assms(1) by (auto simp: main_tick_disburse_def d_rg_finish d_rg_return)
next
  case True
  define w1 where "w1 = d_with_state_mut
    (\<lambda>st. st\<lparr>ds_prev_age_seconds := sat_sub now_secs (dn_aging_since_timestamp_seconds neuron)\<rparr>) w"
  have step: "d_step cx w w1" unfolding w1_def by (rule d_step_quiet) (simp add: quiet_def)
  have "lease_held w1" using True by (auto simp: w1_def lease_held_def dest!: is_current_lease)
  moreover have "ds_payout_plan (dw_state w1) = None" using True assms(3) by (simp add: w1_def payout_done_def)
  moreover have "dc_governance_canister_id cfg = dc_governance_canister_id (ds_config (dw_state w1))"
    "dc_neuron_id cfg = dc_neuron_id (ds_config (dw_state w1))"
    using d_config_key_fields(1,4) [OF assms(2) [unfolded d_cfg_def]] by (simp_all add: w1_def)
  ultimately have "d_inv cx w1 \<Longrightarrow> d_req_ok cx w1 (ReqDisburseMaturity (dc_governance_canister_id cfg)
      (dc_neuron_id cfg) 100 (dw_self w1) None)"
    by (simp add: d_req_ok_def)
  then have "d_ok cx (Await w1 (ReqDisburseMaturity (dc_governance_canister_id cfg) (dc_neuron_id cfg)
        100 (dw_self w1) None) (\<lambda>r w2. d_finish_return guard now_secs
           (case client_disburse r of Inl _ \<Rightarrow> Some 1003 | Inr _ \<Rightarrow> None) Completed w2)) w"
    using assms(1) step by (intro d_rg_await d_rg_finish)
  moreover have "main_tick_disburse cfg now_secs neuron guard w ok =
      Await w1 (ReqDisburseMaturity (dc_governance_canister_id cfg) (dc_neuron_id cfg)
        100 (dw_self w1) None) (\<lambda>r w2. d_finish_return guard now_secs
           (case client_disburse r of Inl _ \<Rightarrow> Some 1003 | Inr _ \<Rightarrow> None) Completed w2)"
    using True by (simp add: main_tick_disburse_def w1_def Let_def)
  ultimately show ?thesis by simp
qed

lemma main_tick_with_neuron_rg:
  assumes "d_inv cx w" "d_cfg w cfg"
  shows "d_ok cx (main_tick_with_neuron cfg now now_secs guard r w) w"
proof -
  have "d_ok cx (pbind (process_payout cfg now now_secs guard w)
      (main_tick_disburse cfg now_secs neuron guard)) w" for neuron
    using process_payout_rg [OF assms(1) assms(2) [unfolded d_cfg_def]]
  proof (rule d_rg_bind)
    fix w' ok
    assume "d_inv cx w'" "d_rel w w'" "payout_done w' ok"
    then show "d_ok cx (main_tick_disburse cfg now_secs neuron guard w' ok) w'"
      using d_cfg_later assms(2) by (intro main_tick_disburse_rg)
  qed
  then show ?thesis
    using assms(1) by (auto simp: main_tick_with_neuron_def d_rg_finish d_rg_return split: sum.split)
qed

lemma log_result_step: "d_step cx w (case x of Inl (_::'e) \<Rightarrow> d_log_error c w | Inr (_::'v) \<Rightarrow> w)"
  by (auto intro: log_error_step split: sum.split)

lemma d_rg_await_cfg:
  assumes "d_inv cx w0" "d_cfg w0 cfg" "d_step cx w0 w" "d_inv cx w \<Longrightarrow> d_req_ok cx w q"
    and "\<And>r w'. d_inv cx w' \<Longrightarrow> d_cfg w' cfg \<Longrightarrow> d_ok cx (k r w') w'"
  shows "d_ok cx (Await w q k) w0"
proof (rule d_rg_await [OF assms(1,3,4)])
  fix r w'
  assume "d_inv cx w'" "d_rel w w'"
  moreover have "d_cfg w cfg" using d_step_cfg [OF assms(3,1,2)] by simp
  ultimately show "d_ok cx (k r w') w'" using assms(5) d_cfg_later by blast
qed

lemma main_tick_after_refresh_rg:
  assumes "d_inv cx w" "d_cfg w cfg"
  shows "d_ok cx (main_tick_after_refresh cfg now now_secs guard r w) w"
  using assms
  by (auto simp: main_tick_after_refresh_def d_rg_return
      intro!: d_rg_await_cfg [OF assms] log_result_step main_tick_with_neuron_rg)

lemma main_tick_after_claim_rg:
  assumes "d_inv cx w" "d_cfg w cfg"
  shows "d_ok cx (main_tick_after_claim cfg now now_secs guard r w) w"
  using assms
  by (auto simp: main_tick_after_claim_def d_rg_return
      intro!: d_rg_await_cfg [OF assms] log_result_step main_tick_after_refresh_rg)

lemma d_run_main_tick_rg:
  assumes "d_inv cx w" "d_cfg w cfg"
  shows "d_ok cx (d_run_main_tick_with_clients force now now_secs cfg w) w"
proof -
  obtain g w1 where acq: "d_main_guard_acquire now_secs w = (g, w1)" by fastforce
  have w1: "d_step cx w w1" using acquire_step [of cx w now_secs] acq by simp
  note inv1 = d_step_cfg [OF w1 assms]
  show ?thesis
  proof (cases g)
    case None
    then show ?thesis using assms w1 by (simp add: d_run_main_tick_with_clients_def acq d_ok_done)
  next
    case (Some guard)
    have "d_ok cx (case d_advance_main_run_marker w1 of None \<Rightarrow> Trap
        | Some w2 \<Rightarrow> Await w2 (ReqClaimOrRefresh (dc_governance_canister_id cfg) (dc_neuron_id cfg))
            (main_tick_after_claim cfg now now_secs guard)) w1"
    proof (cases "d_advance_main_run_marker w1")
      case (Some w2)
      then have "d_step cx w1 w2" by (rule advance_step)
      with inv1 Some show ?thesis
        by (auto intro!: d_rg_await_cfg [where cfg = cfg] main_tick_after_claim_rg)
    qed simp
    moreover have "d_ok cx (d_return guard a w1) w1" for a :: d_main_tick_outcome
      using inv1 by (intro d_rg_return) simp
    ultimately have "d_ok cx (d_run_main_tick_with_clients force now now_secs cfg w) w1"
      by (simp add: d_run_main_tick_with_clients_def acq Some)
    then show ?thesis using assms(1) w1 by (rule d_rg_start)
  qed
qed

lemma d_main_tick_rg: "d_inv cx w \<Longrightarrow> d_ok cx (d_main_tick force w) w"
  by (simp add: d_main_tick_def d_run_main_tick_rg)

lemma d_schedule_retry_step: "d_step cx w (d_schedule_retry m s w)"
  by (auto simp: d_schedule_retry_def d_reserve_scheduled_main_retry_def
      intro!: d_step_cells d_step_trans [OF d_step_cells set_timer_step] split: prod.split option.split)

lemma d_run_scheduled_main_tick_rg: "d_inv cx w \<Longrightarrow> d_ok cx (d_run_scheduled_main_tick w) w"
  unfolding d_run_scheduled_main_tick_def
  by (rule d_rg_bind [OF d_main_tick_rg])
    (auto intro: d_ok_done d_schedule_retry_step split: d_main_tick_outcome.split)

lemma d_ok_ignore: "d_ok cx p w \<Longrightarrow> d_ok cx (pbind p (\<lambda>w' _. Done w' ())) w"
  by (erule d_rg_bind) (simp add: d_ok_done)

lemma d_ok_from: "d_inv cx w0 \<Longrightarrow> d_step cx w0 w \<Longrightarrow> (d_inv cx w \<Longrightarrow> d_ok cx p w) \<Longrightarrow> d_ok cx p w0"
  using d_rg_start by (simp add: d_step_def)

lemma d_run_scheduled_main_retry_rg: "d_inv cx w \<Longrightarrow> d_ok cx (d_run_scheduled_main_retry n w) w"
proof -
  assume inv: "d_inv cx w"
  have step: "d_step cx w (w\<lparr>dw_retry_pending := None\<rparr>)" by (rule d_step_cells) simp_all
  then have "d_ok cx (pbind (d_run_scheduled_main_tick (w\<lparr>dw_retry_pending := None\<rparr>))
      (\<lambda>w' _. Done w' ())) w"
    using inv by (intro d_ok_from [OF inv step] d_ok_ignore d_run_scheduled_main_tick_rg)
  then show ?thesis
    using inv step by (auto simp: d_run_scheduled_main_retry_def Let_def d_ok_done)
qed

lemma poke_with_neuron_rg:
  assumes "d_inv cx w" "d_cfg w cfg"
  shows "d_ok cx (poke_with_neuron cfg now now_secs guard r w) w"
proof -
  have "d_ok cx (pbind (process_payout cfg now now_secs guard w) (\<lambda>w1 _. d_return guard () w1)) w"
    using process_payout_rg [OF assms(1) assms(2) [unfolded d_cfg_def]]
    by (rule d_rg_bind) (simp add: d_rg_return)
  then show ?thesis
    using assms(1) by (auto simp: poke_with_neuron_def d_rg_return split: sum.split)
qed

lemma d_run_worker_rg:
  assumes "d_inv cx w"
  shows "d_ok cx (d_run_worker w) w"
proof -
  obtain g w1 where acq: "d_main_guard_acquire (d_now_secs w) w = (g, w1)" by fastforce
  have w1: "d_step cx w w1" using acquire_step [of cx w "d_now_secs w"] acq by simp
  show ?thesis
    using assms w1
    by (auto simp: d_run_worker_def d_run_poke_with_clients_def acq split: option.split
        intro!: d_ok_done d_rg_await_cfg [where cfg = "ds_config (dw_state w)"] poke_with_neuron_rg)
qed

lemma d_admit_and_run_rg: "d_inv cx w \<Longrightarrow> d_ok cx (d_admit_and_run w) w"
  by (auto simp: d_admit_and_run_def Let_def split: prod.split
      intro: d_ok_done d_poke_cell_step d_ok_from [OF _ d_poke_cell_step] d_run_worker_rg)

lemma d_poke_rg: "d_inv cx w \<Longrightarrow> d_ok cx (d_poke caller n w) w"
proof -
  assume inv: "d_inv cx w"
  obtain sched rt where hint: "disburser_record_hint (dw_now w) (dw_poke w) = (sched, rt)" by fastforce
  have "d_ok cx (d_admit_and_run (w\<lparr>dw_poke := rt\<rparr>)) w"
    using inv d_poke_cell_step d_admit_and_run_rg by (rule d_ok_from)
  moreover have "d_ok cx (d_admit_and_run (d_set_timer t (w\<lparr>dw_poke := rt\<rparr>))) w" for t
    using inv d_timer_poke_step d_admit_and_run_rg by (rule d_ok_from)
  ultimately show ?thesis
    using inv by (simp add: d_poke_def d_handle_event_horizon_poke_def hint Let_def d_ok_done)
qed

lemma d_deferred_callback_rg: "d_inv cx w \<Longrightarrow> d_ok cx (d_deferred_callback w) w"
proof -
  assume inv: "d_inv cx w"
  obtain act rt where act: "disburser_deferred_timer_action (dw_now w) (dw_poke w) = (act, rt)"
    by fastforce
  have "d_ok cx (d_admit_and_run (w\<lparr>dw_poke := rt\<rparr>)) w"
    using inv d_poke_cell_step d_admit_and_run_rg by (rule d_ok_from)
  moreover have "d_ok cx (Done (d_set_timer t (w\<lparr>dw_poke := rt\<rparr>)) ()) w" for t
    using inv d_timer_poke_step by (rule d_ok_done)
  moreover have "d_ok cx (Done (w\<lparr>dw_poke := rt\<rparr>) ()) w"
    using inv d_poke_cell_step by (rule d_ok_done)
  ultimately show ?thesis
    by (simp add: d_deferred_callback_def act Let_def split: deferred_timer_action.split)
qed

lemma rescue_updated_rg: "d_inv cx w \<Longrightarrow> d_ok cx (rescue_updated now active r w) w"
  by (auto simp: rescue_updated_def quiet_def intro!: d_ok_done log_error_step d_step_quiet split: sum.split)

lemma rescue_request_ok:
  assumes "d_inv cx w"
    and "ps \<in> {[dw_self w], [dc_rescue_controller (ds_config (dw_state w)), dw_self w]}"
  shows "d_req_ok cx w (ReqUpdateSettings (controller_update_settings (dw_self w)
    (normalize_controllers cx ps)))"
proof -
  have "set ps \<subseteq> {dw_self w, dc_rescue_controller (ds_config (dw_state w))} \<and> length ps \<le> 2
      \<and> dw_self w \<in> set ps"
    using assms(2) by auto
  moreover from this have "distinct (normalize_controllers cx ps)"
    using normalize_distinct [of ps "dw_self w"] by blast
  ultimately show ?thesis
    using assms(1) by (simp add: d_req_ok_def controller_update_settings_def)
qed

lemma rescue_decide_rg:
  assumes "d_inv cx w"
  shows "d_ok cx (rescue_decide cx now w) w"
proof -
  let ?st = "dw_state w"
  let ?desired = "disburser_desired_controllers_for_rescue_state now (ds_last_successful_transfer_ts ?st)
    (dw_self w) (dc_rescue_controller (ds_config ?st)) (ds_forced_rescue_reason ?st)
    (ds_rescue_triggered ?st)"
  show ?thesis
  proof (cases ?desired)
    case None
    then show ?thesis using assms by (simp add: rescue_decide_def Let_def d_ok_done)
  next
    case (Some ps)
    have "?desired \<in> {None, Some [dw_self w], Some [dc_rescue_controller (ds_config ?st), dw_self w]}"
      by (rule disburser_rescue_state_cases)
    then have "d_req_ok cx w (ReqUpdateSettings (controller_update_settings (dw_self w)
        (normalize_controllers cx ps)))"
      using assms by (intro rescue_request_ok) (simp_all add: Some)
    then have "d_ok cx (Await w (ReqUpdateSettings (controller_update_settings (dw_self w)
        (normalize_controllers cx ps))) (rescue_updated now active)) w" for active
      using assms by (intro d_rg_await rescue_updated_rg) simp_all
    with Some show ?thesis using assms by (simp add: rescue_decide_def Let_def d_ok_done)
  qed
qed

lemma d_rescue_tick_rg: "d_inv cx w \<Longrightarrow> d_ok cx (d_rescue_tick cx w) w"
proof -
  assume inv: "d_inv cx w"
  have "quiet (latch_bootstrap_rescue n)" for n by (simp add: quiet_def latch_bootstrap_rescue_def)
  then show ?thesis
    unfolding d_rescue_tick_def by (intro d_ok_from [OF inv d_step_quiet [where f = "latch_bootstrap_rescue (d_now_secs w)"]]
        rescue_decide_rg)
qed

lemma d_fire_timer_rg: "d_inv cx w \<Longrightarrow> d_ok cx (d_fire_timer cx t w) w"
proof -
  assume inv: "d_inv cx w"
  have "d_step cx w (w\<lparr>dw_timers := ts\<rparr>)" for ts by (rule d_step_cells) simp_all
  note from_step = d_ok_from [OF inv this]
  show ?thesis
    using inv
    by (auto simp: d_fire_timer_def Let_def d_ok_done split: dtimer.split
        intro!: d_ok_ignore d_run_scheduled_main_tick_rg d_rescue_tick_rg
        intro: from_step d_ok_ignore d_main_tick_rg d_rescue_tick_rg d_run_scheduled_main_retry_rg
          d_deferred_callback_rg)
qed

lemma d_advance_clock_rg: "d_inv cx w \<Longrightarrow> d_ok cx (d_advance_clock n w) w"
  by (auto simp: d_advance_clock_def intro!: d_ok_done d_step_cells)

section \<open>The whole canister\<close>

lemma d_fresh_fields [simp]:
  "dw_self (d_fresh self_id now st) = self_id" "dw_now (d_fresh self_id now st) = now"
  "dw_state (d_fresh self_id now st) = st" "dw_stable (d_fresh self_id now st) = Some st"
  by (simp_all add: d_fresh_def)

lemma d_timers_fields [simp]:
  "dw_self (d_set_timer t w) = dw_self w" "dw_now (d_set_timer t w) = dw_now w"
  "dw_state (d_set_timer t w) = dw_state w" "dw_stable (d_set_timer t w) = dw_stable w"
  by (simp_all add: d_set_timer_def)

lemma d_install_timers_fields [simp]:
  "dw_self (d_install_timers w) = dw_self w" "dw_now (d_install_timers w) = dw_now w"
  "dw_state (d_install_timers w) = dw_state w" "dw_stable (d_install_timers w) = dw_stable w"
  by (simp_all add: d_install_timers_def)

lemma d_resume_fields [simp]:
  "dw_self (d_schedule_immediate_resume_if_needed w) = dw_self w"
  "dw_now (d_schedule_immediate_resume_if_needed w) = dw_now w"
  "dw_state (d_schedule_immediate_resume_if_needed w) = dw_state w"
  "dw_stable (d_schedule_immediate_resume_if_needed w) = dw_stable w"
  by (simp_all add: d_schedule_immediate_resume_if_needed_def)

lemma d_installed_inv: "d_installed cx w \<Longrightarrow> d_inv cx w"
proof -
  assume "d_installed cx w"
  then obtain self_id now args st where init: "disburser_init cx self_id (now div 1000000000) args = Inr st"
    and w: "w = d_install_timers (d_fresh self_id now st)"
    unfolding d_installed_def by blast
  from disburser_init_Inr [OF init] have "st_inv cx self_id st"
    by (auto simp: st_inv_def dstate_new_def)
  then show ?thesis by (simp add: w d_inv_def)
qed

lemma rescue_update_st:
  "st_rel st ((rescue_update a ts f t st)\<lparr>ds_main_lock_state_ts := l\<rparr>)"
  "st_inv cx self_id st \<Longrightarrow> st_inv cx self_id ((rescue_update a ts f t st)\<lparr>ds_main_lock_state_ts := l\<rparr>)"
proof -
  have "plan_wf (cfg\<lparr>dc_autonomous_rescue_armed := b\<rparr>) plan = plan_wf cfg plan" for cfg b plan
    by (rule plan_wf_key) (simp add: d_recipients_def)
  then show "st_inv cx self_id st \<Longrightarrow>
      st_inv cx self_id ((rescue_update a ts f t st)\<lparr>ds_main_lock_state_ts := l\<rparr>)"
    by (simp add: st_inv_def)
qed (auto simp: st_rel_def d_config_key_def)

lemma d_post_upgrade_ok:
  assumes "d_inv cx w" "d_post_upgrade cx args w = Some w'"
  shows "d_inv cx w' \<and> d_rel w w'"
proof -
  have "dw_stable w = Some (dw_state w)" using assms(1) by (simp add: d_inv_def)
  with assms(2) obtain st r where up: "disburser_apply_upgrade_args_to_state cx (dw_self w)
        (dw_state w) args (d_now_secs w) = Inr (st, r)"
    and w': "dw_self w' = dw_self w" "dw_now w' = dw_now w" "dw_state w' = st" "dw_stable w' = Some st"
    by (auto simp: d_post_upgrade_def Let_def split: sum.splits if_splits)
  from disburser_upgrade_Inr [OF up] rescue_update_st assms(1)
  have "st_inv cx (dw_self w) st \<and> st_rel (dw_state w) st" by (auto simp: d_inv_def)
  with w' show ?thesis by (simp add: d_inv_def d_rel_def)
qed

interpretation disburser: rg_system True "d_inv cx" d_rel "d_req_ok cx" "d_installed cx"
  "d_handlers cx" "d_upgrades cx" for cx
proof (unfold_locales, goal_cases)
  case (1 s)
  then show ?case by simp
next
  case (2 a b c)
  then show ?case by (rule d_rel_trans)
next
  case (3 s)
  then show ?case by (rule d_installed_inv)
next
  case (4 h s)
  then show ?case
    using d_fire_timer_rg d_poke_rg d_advance_clock_rg
    by (auto simp: d_handlers_def d_rg_def)
next
  case (5 u s s')
  then show ?case by (auto simp: d_upgrades_def d_post_upgrade_ok)
qed

section \<open>Properties\<close>

text \<open>The requests of a run: \<open>log\<close> lists them, newest first, each with the world it was sent in.\<close>

definition d_run :: "candid_ops \<Rightarrow> dworld \<Rightarrow> (dworld, d_req, d_resp, unit) proc list
    \<Rightarrow> (dworld \<times> d_req) list \<Rightarrow> bool" where
  "d_run cx = reach (d_installed cx) (d_handlers cx) (d_upgrades cx)"

lemma plan_key_nth:
  "plan_key p = plan_key q \<Longrightarrow> transfer_arg_of p (pp_transfers p ! i) = transfer_arg_of q (pp_transfers q ! i)
     \<and> length (pp_transfers p) = length (pp_transfers q)" if "i < length (pp_transfers p)"
proof -
  assume key: "plan_key p = plan_key q"
  then have len: "length (pp_transfers p) = length (pp_transfers q)"
    by (metis length_map plan_key_def payout_plan.select_convs(4) payout_plan.simps(4)
        payout_plan.surjective payout_plan.update_convs(4))
  have ts: "map (\<lambda>t. t\<lparr>pt_status := Pending\<rparr>) (pp_transfers p)
      = map (\<lambda>t. t\<lparr>pt_status := Pending\<rparr>) (pp_transfers q)" "pp_fee_e8s p = pp_fee_e8s q"
    using key by (cases p; cases q; simp add: plan_key_def)+
  have "(pp_transfers p ! i)\<lparr>pt_status := Pending\<rparr> = (pp_transfers q ! i)\<lparr>pt_status := Pending\<rparr>"
    using arg_cong [OF ts(1), of "\<lambda>xs. xs ! i"] that len by simp
  then have "pt_to (pp_transfers p ! i) = pt_to (pp_transfers q ! i)"
    "pt_amount_e8s (pp_transfers p ! i) = pt_amount_e8s (pp_transfers q ! i)"
    "pt_created_at_time_nanos (pp_transfers p ! i) = pt_created_at_time_nanos (pp_transfers q ! i)"
    "pt_memo (pp_transfers p ! i) = pt_memo (pp_transfers q ! i)"
    by (cases "pp_transfers p ! i"; cases "pp_transfers q ! i"; simp)+
  with ts(2) len show ?thesis by (simp add: transfer_arg_of_def)
qed

text \<open>What a sent transfer says about the plan it comes from.\<close>

lemma sent_transfer:
  assumes "d_req_ok cx w (ReqTransfer l a)"
  obtains plan i where "ds_payout_plan (dw_state w) = Some plan" "i < length (pp_transfers plan)"
    "i < 3" "a = transfer_arg_of plan (pp_transfers plan ! i)"
    "transfer_ok (ds_config (dw_state w)) plan i (pp_transfers plan ! i)"
    "pp_id plan < ds_payout_nonce (dw_state w) \<or> ds_payout_nonce (dw_state w) = u_max"
proof -
  from assms obtain plan i where p: "ds_payout_plan (dw_state w) = Some plan"
    "first_pending (pp_transfers plan) = Some i" "a = transfer_arg_of plan (pp_transfers plan ! i)"
    "d_inv cx w"
    by (auto simp: d_req_ok_def)
  then have "i < length (pp_transfers plan)" "plan_wf (ds_config (dw_state w)) plan"
    "pp_id plan < ds_payout_nonce (dw_state w) \<or> ds_payout_nonce (dw_state w) = u_max"
    using first_pending_Some by (auto simp: d_inv_def st_inv_def)
  with p show ?thesis by (intro that [of plan i]) (auto simp: plan_wf_def)
qed

lemma same_memo_same_transfer:
  assumes "d_req_ok cx w1 (ReqTransfer l1 a1)" "d_req_ok cx w2 (ReqTransfer l2 a2)" "d_rel w1 w2"
    and "ds_payout_nonce (dw_state w2) \<noteq> u_max" and memo: "ta_memo a1 = ta_memo a2"
  shows "a1 = a2 \<and> l1 = l2"
proof -
  from assms(1) obtain p1 i1 where p1: "ds_payout_plan (dw_state w1) = Some p1"
    "i1 < length (pp_transfers p1)" "i1 < 3" "a1 = transfer_arg_of p1 (pp_transfers p1 ! i1)"
    "transfer_ok (ds_config (dw_state w1)) p1 i1 (pp_transfers p1 ! i1)"
    "pp_id p1 < ds_payout_nonce (dw_state w1) \<or> ds_payout_nonce (dw_state w1) = u_max"
    by (rule sent_transfer)
  from assms(2) obtain p2 i2 where p2: "ds_payout_plan (dw_state w2) = Some p2"
    "i2 < length (pp_transfers p2)" "i2 < 3" "a2 = transfer_arg_of p2 (pp_transfers p2 ! i2)"
    "transfer_ok (ds_config (dw_state w2)) p2 i2 (pp_transfers p2 ! i2)"
    by (rule sent_transfer)
  have id: "pp_id p1 = pp_id p2" and "word_of_nat i1 = (word_of_nat i2 :: u64)"
    using memo p1(4,5) p2(4,5) by (simp_all add: transfer_arg_of_def transfer_ok_def)
  then have i: "i1 = i2" using p1(3) p2(3) by (simp add: word_unat_eq_iff unat_of_nat)
  have st: "st_rel (dw_state w1) (dw_state w2)" using assms(3) by (simp add: d_rel_def)
  then have "ds_payout_nonce (dw_state w1) \<le> ds_payout_nonce (dw_state w2)" by (simp add: st_rel_def)
  then have "pp_id p1 < ds_payout_nonce (dw_state w1)"
    using p1(6) assms(4) by (metis word_order.extremum_unique)
  with id have "\<not> ds_payout_nonce (dw_state w1) \<le> pp_id p2" by simp
  with st p1(1) p2(1) have "plan_key p1 = plan_key p2" by (auto simp: st_rel_def)
  with p1(2,4) p2(4) i have "a1 = a2" using plan_key_nth by blast
  moreover have "l1 = l2"
  proof -
    have "d_config_key (ds_config (dw_state w1)) = d_config_key (ds_config (dw_state w2))"
      using st by (simp add: st_rel_def)
    from d_config_key_fields(3) [OF this] show ?thesis using assms(1,2) by (simp add: d_req_ok_def)
  qed
  ultimately show ?thesis by simp
qed

text \<open>C1: no double payout: whatever the interleaving of timers, pokes, retries, clock steps, ledger
  answers (errors and lost replies included) and upgrades, two transfers the Disburser ever sends with
  the same memo are the same transfer to the same ledger, with the same creation time, recipient, fee
  and amount (the ledger's deduplication identity); only the exhaustion of the 64-bit payout counter is
  excluded.\<close>

theorem disburser_transfer_identity:
  assumes "d_run cx w ps (pre @ (w2, ReqTransfer l2 a2) # mid @ (w1, ReqTransfer l1 a1) # post)"
    and "ds_payout_nonce (dw_state w) \<noteq> u_max" and "ta_memo a1 = ta_memo a2"
  shows "a1 = a2 \<and> l1 = l2"
proof -
  note run = assms(1) [unfolded d_run_def]
  have "ds_payout_nonce (dw_state w2) \<le> ds_payout_nonce (dw_state w)"
    using disburser.reach_since [OF run, of w2 "ReqTransfer l2 a2"] by (simp add: d_rel_def st_rel_def)
  then have "ds_payout_nonce (dw_state w2) \<noteq> u_max" using assms(2) by (metis word_order.extremum_unique)
  moreover have "d_req_ok cx w1 (ReqTransfer l1 a1)" "d_req_ok cx w2 (ReqTransfer l2 a2)"
    by (rule disburser.reach_requests [OF run], simp)+
  moreover have "d_rel w1 w2" using run by (rule disburser.reach_order)
  ultimately show ?thesis using same_memo_same_transfer assms(3) by blast
qed

text \<open>C2: every transfer ever sent goes to the configured ledger under a held, unexpired lease, to one
  of the three configured recipients, with a positive amount that with its fee is a share of the plan
  persisted at that moment, and with the memo and creation time that plan fixes.\<close>

theorem disburser_transfers_planned:
  assumes "d_run cx w ps log" and "(wq, ReqTransfer l a) \<in> set log"
  shows "lease_held wq \<and> l = dc_ledger_canister_id (ds_config (dw_state wq)) \<and>
    ta_to a \<in> d_recipients (ds_config (dw_state wq)) \<and> 0 < ta_amount a \<and>
    (\<exists>plan i. ds_payout_plan (dw_state wq) = Some plan \<and> i < length (pp_transfers plan) \<and> i < 3 \<and>
       ta_memo a = Some (build_memo (pp_id plan) (word_of_nat i)) \<and>
       ta_fee a = Some (unat (pp_fee_e8s plan)) \<and>
       ta_amount a + unat (pp_fee_e8s plan) = unat (pt_gross_share_e8s (pp_transfers plan ! i)) \<and>
       ta_created_at_time a = Some (sat_add (pp_created_at_base_nanos plan) (word_of_nat i)))"
proof -
  have ok: "d_req_ok cx wq (ReqTransfer l a)"
    using disburser.reach_requests [OF assms(1) [unfolded d_run_def] assms(2)] .
  then obtain plan i where p: "ds_payout_plan (dw_state wq) = Some plan" "i < length (pp_transfers plan)"
    "i < 3" "a = transfer_arg_of plan (pp_transfers plan ! i)"
    "transfer_ok (ds_config (dw_state wq)) plan i (pp_transfers plan ! i)"
    by (rule sent_transfer)
  then have "ta_to a \<in> d_recipients (ds_config (dw_state wq)) \<and> 0 < ta_amount a"
    by (simp add: transfer_arg_of_def transfer_ok_def unat_gt_0 word_greater_zero_iff)
  moreover have "lease_held wq \<and> l = dc_ledger_canister_id (ds_config (dw_state wq))"
    using ok by (simp add: d_req_ok_def)
  ultimately show ?thesis
    using p by (auto simp: transfer_arg_of_def transfer_ok_def)
qed

text \<open>C3: maturity is disbursed only to the canister's own default account, all of it, under a held
  lease, and only when no payout plan is outstanding.\<close>

theorem disburser_maturity_requests:
  assumes "d_run cx w ps log" and "(wq, ReqDisburseMaturity gov neuron pct owner sub) \<in> set log"
  shows "lease_held wq \<and> pct = 100 \<and> owner = dw_self wq \<and> sub = None \<and>
    neuron = dc_neuron_id (ds_config (dw_state wq)) \<and> ds_payout_plan (dw_state wq) = None"
  using disburser.reach_requests [OF assms(1) [unfolded d_run_def] assms(2)]
  by (simp add: d_req_ok_def)

text \<open>C4: the Disburser never gives up its own control: every controller update it sends is for itself,
  keeps itself as a controller, and adds at most the configured rescue controller.\<close>

theorem disburser_keeps_control:
  assumes "d_run cx w ps log" and "(wq, ReqUpdateSettings arg) \<in> set log"
  shows "us_canister_id arg = dw_self wq \<and>
    (\<exists>cs. cs_controllers (us_settings arg) = Some cs \<and> distinct cs \<and> dw_self wq \<in> set cs \<and>
       set cs \<subseteq> {dw_self wq, dc_rescue_controller (ds_config (dw_state wq))})"
  using disburser.reach_requests [OF assms(1) [unfolded d_run_def] assms(2)]
  by (simp add: d_req_ok_def)

text \<open>C5: in every reachable world the stable cell holds exactly the current state, so that an upgrade at
  any await resumes from it; the configuration is valid; and a persisted plan is well formed, with an
  id below the next payout id (unless the counter is exhausted).\<close>

theorem disburser_state_invariant:
  assumes "d_run cx w ps log"
  shows "dw_stable w = Some (dw_state w) \<and> valid_dconfig cx (dw_self w) (ds_config (dw_state w)) \<and>
    (\<forall>plan. ds_payout_plan (dw_state w) = Some plan \<longrightarrow> length (pp_transfers plan) \<le> 3 \<and>
       (\<forall>i<length (pp_transfers plan). transfer_ok (ds_config (dw_state w)) plan i (pp_transfers plan ! i)) \<and>
       (pp_id plan < ds_payout_nonce (dw_state w) \<or> ds_payout_nonce (dw_state w) = u_max))"
  using disburser.reach_inv [OF assms [unfolded d_run_def]]
  by (auto simp: d_inv_def st_inv_def plan_wf_def)

end
