(* ===== verification/DisburserExamples.thy ===== *)
theory DisburserExamples
  imports DisburserSafety
begin

text \<open>
  Worked runs of the Disburser that show the safety properties at work: a payout whose ledger reply
  is lost and that is retried by a later poke, a scheduled tick that disburses maturity, and a rescue
  tick after two weeks without a payout.
\<close>

definition ex_config :: dconfig where
  "ex_config = \<lparr>dc_neuron_id = 42, dc_normal_recipient = \<lparr>acc_owner = [1], acc_subaccount = None\<rparr>,
     dc_age_bonus_recipient_1 = \<lparr>acc_owner = [2], acc_subaccount = None\<rparr>,
     dc_age_bonus_recipient_2 = \<lparr>acc_owner = [3], acc_subaccount = None\<rparr>,
     dc_ledger_canister_id = [14], dc_governance_canister_id = [5], dc_rescue_controller = [6],
     dc_autonomous_rescue_armed = Some True, dc_main_interval_seconds = 86400,
     dc_rescue_interval_seconds = 86400\<rparr>"

definition ex_args :: dinit_args where
  "ex_args = \<lparr>di_neuron_id = 42, di_normal_recipient = \<lparr>acc_owner = [1], acc_subaccount = None\<rparr>,
     di_age_bonus_recipient_1 = \<lparr>acc_owner = [2], acc_subaccount = None\<rparr>,
     di_age_bonus_recipient_2 = \<lparr>acc_owner = [3], acc_subaccount = None\<rparr>,
     di_ledger_canister_id = Some [14], di_governance_canister_id = Some [5],
     di_rescue_controller = [6], di_autonomous_rescue_armed = Some True,
     di_main_interval_seconds = None, di_rescue_interval_seconds = None\<rparr>"

definition ex_world :: dworld where
  "ex_world = d_install_timers (d_fresh [9] 5000000000000 (dstate_new ex_config 5000))"

definition ex_notification :: poke_notification where
  "ex_notification = \<lparr>pn_global_activity = False, pn_matches = [\<lparr>pm_subject = [9],
     pm_target = PokeSubaccount 0, pm_first_block_index = 0, pm_max_amount = 1\<rparr>]\<rparr>"

definition ex_poke :: "dworld \<Rightarrow> unit dproc" where
  "ex_poke = d_poke [0, 0, 0, 0, 2, 48, 17, 226, 1, 1] ex_notification"

definition ex_neuron :: d_resp where
  "ex_neuron = RespNeuron (Inr \<lparr>dn_aging_since_timestamp_seconds = 0,
     dn_maturity_disbursements_in_progress = None\<rparr>)"

definition ex_plan :: payout_plan where
  "ex_plan = \<lparr>pp_id = 1, pp_fee_e8s = 10000, pp_created_at_base_nanos = 5000000000000,
     pp_transfers = [\<lparr>pt_to = \<lparr>acc_owner = [1], acc_subaccount = None\<rparr>,
       pt_gross_share_e8s = 100000000, pt_amount_e8s = 99990000,
       pt_created_at_time_nanos = 5000000000000, pt_memo = build_memo 1 0, pt_status = Pending\<rparr>]\<rparr>"

definition ex_arg :: transfer_arg where
  "ex_arg = \<lparr>ta_from_subaccount = None, ta_to = \<lparr>acc_owner = [1], acc_subaccount = None\<rparr>,
     ta_fee = Some 10000, ta_created_at_time = Some 5000000000000, ta_memo = Some (build_memo 1 0),
     ta_amount = 99990000\<rparr>"

text \<open>The world after the first poke and 20 more seconds: the plan is persisted, its transfer
  pending, the lock free.\<close>

definition ex_world2 :: dworld where
  "ex_world2 = (let st = (dstate_new ex_config 5000)\<lparr>ds_payout_nonce := 2,
       ds_payout_plan := Some ex_plan\<rparr>
     in ex_world\<lparr>dw_state := st, dw_stable := Some st, dw_now := 5020000000000,
       dw_poke := \<lparr>pr_due_at_ns = Some 5010000000000, pr_timer_pending = True,
         pr_next_attempt_allowed_at_ns = 5010000000000\<rparr>,
       dw_timers := [PokeDeferred 10000000000, RescueInterval 86400, MainInterval 86400]\<rparr>)"

section \<open>Evaluation\<close>

lemmas ex_model = ex_config_def ex_world_def ex_world2_def ex_poke_def ex_notification_def
  ex_neuron_def ex_arg_def ex_plan_def d_install_timers_def d_fresh_def dstate_new_def d_set_timer_def

lemmas ex_world_ops = d_with_state_mut_def d_now_secs_def d_log_error_def
  d_main_guard_acquire_def tlg_acquire_def main_tick_lease_seconds_def d_main_guard_is_current_def
  d_main_guard_release_def tlg_finish_def tlg_release_def d_return_def Let_def sat_add_def sat_sub_def

lemmas ex_poke_ops = d_poke_def disburser_caller_is_whitelisted_def
  disburser_event_horizon_whitelist_def disburser_has_relevant_match_def
  d_handle_event_horizon_poke_def disburser_record_hint_def poke_runtime_init_def
  poke_interval_value d_admit_and_run_def disburser_admit_attempt_def d_run_worker_def
  d_run_poke_with_clients_def poke_with_neuron_def

lemmas ex_payout_ops = client_neuron_def client_u64_def client_transfer_def nat_to_u64_def
  neuron_in_flight_def process_payout_def payout_with_balance_def payout_with_fee_def
  payout_generation_matches_def payout_install_def install_plan_def payout_loop_stale
  payout_loop_over payout_loop_send payout_reply_def transfer_arg_of_def mark_sent_def clear_plan_def
  build_plan_def plan_payout_transfers_def compute_gross_split_def age_multiplier_fraction_def
  push_def planned_to_pending_def div_ceil_def secs_per_year_def secs_per_day_def
  max_age_for_bonus_secs_def bonus_recipient_1_pct_def

lemma ex_poke_lost_reply:
  "\<exists>log. run_script [ex_neuron, RespNat (Inr 100000000), RespNat (Inr 10000),
       RespTransfer (Inl ''timeout'')] (ex_poke ex_world) []
     = (Some (ex_world2\<lparr>dw_now := 5000000000000\<rparr>, ()), log) \<and>
     map snd log = [ReqTransfer [14] ex_arg, ReqFee [14],
       ReqBalanceOf [14] \<lparr>acc_owner = [9], acc_subaccount = None\<rparr>, ReqFullNeuron [5] 42]"
  by (simp add: ex_model ex_world_ops ex_poke_ops ex_payout_ops)

lemma ex_poke_retry:
  "\<exists>w log'. run_script [ex_neuron, RespNat (Inr 0), RespTransfer (Inr (Inl (Duplicate 7)))]
       (ex_poke ex_world2) log = (Some (w, ()), log' @ log) \<and>
     map snd log' = [ReqTransfer [14] ex_arg,
       ReqBalanceOf [14] \<lparr>acc_owner = [9], acc_subaccount = None\<rparr>, ReqFullNeuron [5] 42] \<and>
     ds_payout_nonce (dw_state w) = 2 \<and> ds_payout_plan (dw_state w) = None"
  by (simp add: ex_model ex_world_ops ex_poke_ops ex_payout_ops)

section \<open>Runs\<close>

lemma d_run_handler:
  "d_run cx w ps log \<Longrightarrow> h \<in> d_handlers cx \<Longrightarrow> run_script rs (h w) log = (Some (w', ()), log')
   \<Longrightarrow> d_run cx w' ps log'"
  unfolding d_run_def by (rule run_script_reach)

lemma ex_poke_handler: "ex_poke \<in> d_handlers cx"
  by (auto simp: d_handlers_def ex_poke_def image_iff)

lemma d_run_clock:
  "d_run cx w ps log \<Longrightarrow> dw_now w \<le> n \<Longrightarrow> d_run cx (w\<lparr>dw_now := n\<rparr>) ps log"
  using d_run_handler [of cx w ps log "d_advance_clock n" "[]" "w\<lparr>dw_now := n\<rparr>" log]
  by (simp add: d_handlers_def d_advance_clock_def)

lemma ex_installed: "d_run example_candid ex_world [] []"
proof -
  have "disburser_init example_candid [9] (5000000000000 div 1000000000) ex_args
      = Inr (dstate_new ex_config 5000)"
    by (simp add: disburser_init_def ex_args_def ex_config_def example_candid_def unwrap_or_def
        disburser_validate_config_def assert_non_anonymous_principal_def Let_def)
  then have "d_installed example_candid ex_world"
    unfolding d_installed_def ex_world_def by blast
  then show ?thesis unfolding d_run_def by (rule reach.start)
qed

lemma ex_first_payout:
  obtains log where "d_run example_candid ex_world2 [] log"
    "map snd log = [ReqTransfer [14] ex_arg, ReqFee [14],
       ReqBalanceOf [14] \<lparr>acc_owner = [9], acc_subaccount = None\<rparr>, ReqFullNeuron [5] 42]"
proof -
  obtain log where log: "run_script [ex_neuron, RespNat (Inr 100000000), RespNat (Inr 10000),
       RespTransfer (Inl ''timeout'')] (ex_poke ex_world) []
     = (Some (ex_world2\<lparr>dw_now := 5000000000000\<rparr>, ()), log)"
    "map snd log = [ReqTransfer [14] ex_arg, ReqFee [14],
       ReqBalanceOf [14] \<lparr>acc_owner = [9], acc_subaccount = None\<rparr>, ReqFullNeuron [5] 42]"
    using ex_poke_lost_reply by (elim exE conjE) (rule that; assumption)
  have "d_run example_candid (ex_world2\<lparr>dw_now := 5000000000000\<rparr>) [] log"
    using ex_installed ex_poke_handler log(1) by (rule d_run_handler)
  from d_run_clock [OF this, of 5020000000000]
  have "d_run example_candid (ex_world2\<lparr>dw_now := 5020000000000\<rparr>) [] log" by simp
  moreover have "ex_world2\<lparr>dw_now := 5020000000000\<rparr> = ex_world2"
    unfolding ex_world2_def Let_def by (rule dworld.equality) simp_all
  ultimately have "d_run example_candid ex_world2 [] log" by simp
  with log(2) show ?thesis by (intro that)
qed

lemma ex_second_payout:
  obtains w pre w2 mid w1 post where
    "d_run example_candid w [] (pre @ (w2, ReqTransfer [14] ex_arg) # mid @ (w1, ReqTransfer [14] ex_arg) # post)"
    "ds_payout_nonce (dw_state w) = 2"
proof -
  obtain log where log: "d_run example_candid ex_world2 [] log" "map snd log = [ReqTransfer [14] ex_arg,
      ReqFee [14], ReqBalanceOf [14] \<lparr>acc_owner = [9], acc_subaccount = None\<rparr>, ReqFullNeuron [5] 42]"
    by (rule ex_first_payout)
  then obtain w1 post where log1: "log = (w1, ReqTransfer [14] ex_arg) # post" by (cases log) auto
  obtain w log' where retry: "run_script [ex_neuron, RespNat (Inr 0), RespTransfer (Inr (Inl (Duplicate 7)))]
       (ex_poke ex_world2) log = (Some (w, ()), log' @ log)"
    "map snd log' = [ReqTransfer [14] ex_arg,
       ReqBalanceOf [14] \<lparr>acc_owner = [9], acc_subaccount = None\<rparr>, ReqFullNeuron [5] 42]"
    "ds_payout_nonce (dw_state w) = 2"
    using ex_poke_retry [of log] by (elim exE conjE) (rule that; assumption)
  then obtain w2 mid where log2: "log' = [] @ (w2, ReqTransfer [14] ex_arg) # mid" by (cases log') auto
  have "d_run example_candid w [] (log' @ log)"
    using log(1) ex_poke_handler retry(1) by (rule d_run_handler)
  then show ?thesis using retry(3) by (intro that [of w "[]" w2 mid w1 post]) (simp_all add: log1 log2)
qed

text \<open>The lost reply: the retry sends the very same transfer.\<close>

theorem disburser_transfer_identity_witness:
  "\<exists>w pre w2 a2 mid w1 a1 post. d_run example_candid w [] (pre @ (w2, ReqTransfer [14] a2) # mid
      @ (w1, ReqTransfer [14] a1) # post) \<and> ds_payout_nonce (dw_state w) \<noteq> u_max \<and>
      ta_memo a1 = Some (build_memo 1 0) \<and> ta_memo a2 = Some (build_memo 1 0) \<and>
      (a1 = a2 \<and> [14 :: u8] = [14])"
proof -
  obtain w pre w2 mid w1 post where run: "d_run example_candid w [] (pre @ (w2, ReqTransfer [14] ex_arg)
      # mid @ (w1, ReqTransfer [14] ex_arg) # post)" "ds_payout_nonce (dw_state w) = 2"
    by (rule ex_second_payout)
  then have nonce: "ds_payout_nonce (dw_state w) \<noteq> u_max" by simp
  have memo: "ta_memo ex_arg = Some (build_memo 1 0)" by (simp add: ex_arg_def)
  show ?thesis
    using disburser_transfer_identity [OF run(1) nonce refl]
    by (intro exI [of _ w] exI [of _ pre] exI [of _ w2] exI [of _ ex_arg] exI [of _ mid] exI [of _ w1]
        exI [of _ post] conjI [OF run(1)] conjI [OF nonce] conjI [OF memo])
qed

theorem disburser_transfers_planned_witness:
  "\<exists>log wq. d_run example_candid ex_world2 [] log \<and> (wq, ReqTransfer [14] ex_arg) \<in> set log \<and>
     lease_held wq \<and> ta_to ex_arg \<in> d_recipients (ds_config (dw_state wq))"
proof -
  obtain log where log: "d_run example_candid ex_world2 [] log" "map snd log = [ReqTransfer [14] ex_arg,
      ReqFee [14], ReqBalanceOf [14] \<lparr>acc_owner = [9], acc_subaccount = None\<rparr>, ReqFullNeuron [5] 42]"
    by (rule ex_first_payout)
  then obtain wq where wq: "(wq, ReqTransfer [14] ex_arg) \<in> set log" by (cases log) auto
  show ?thesis using log(1) wq disburser_transfers_planned [OF log(1) wq] by blast
qed

theorem disburser_state_invariant_witness:
  "valid_dconfig example_candid (dw_self ex_world2) (ds_config (dw_state ex_world2)) \<and>
     pp_id ex_plan < ds_payout_nonce (dw_state ex_world2)"
proof -
  obtain log where log: "d_run example_candid ex_world2 [] log" by (rule ex_first_payout)
  have "ds_payout_plan (dw_state ex_world2) = Some ex_plan" "ds_payout_nonce (dw_state ex_world2) = 2"
    by (simp_all add: ex_world2_def Let_def)
  with disburser_state_invariant [OF log] show ?thesis by simp
qed

lemmas ex_tick_ops = d_fire_timer_def d_run_scheduled_main_tick_def d_main_tick_def
  d_run_main_tick_with_clients_def d_remaining_def d_advance_main_run_marker_def checked_add_def
  main_tick_after_claim_def main_tick_after_refresh_def main_tick_with_neuron_def
  main_tick_disburse_def client_unit_def client_disburse_def d_finish_return_def
  d_main_guard_finish_def d_schedule_retry_def

lemma ex_maturity_tick:
  "\<exists>w log'. run_script [RespUnit (Inr ()), RespUnit (Inr ()), ex_neuron, RespNat (Inr 0),
       RespDisburse (Inr None)]
       (d_fire_timer cx (MainInterval 86400) (ex_world\<lparr>dw_now := 100000000000000\<rparr>)) []
     = (Some (w, ()), log') \<and>
     map snd log' = [ReqDisburseMaturity [5] 42 100 [9] None,
       ReqBalanceOf [14] \<lparr>acc_owner = [9], acc_subaccount = None\<rparr>, ReqFullNeuron [5] 42,
       ReqRefreshVotingPower [5] 42, ReqClaimOrRefresh [5] 42]"
  by (simp add: ex_model ex_world_ops ex_payout_ops ex_tick_ops)

theorem disburser_maturity_requests_witness:
  "\<exists>w log wq. d_run example_candid w [] log \<and>
     (wq, ReqDisburseMaturity [5] 42 100 [9] None) \<in> set log \<and>
     lease_held wq \<and> ds_payout_plan (dw_state wq) = None"
proof -
  have "dw_now ex_world = 5000000000000" by (simp add: ex_world_def)
  with d_run_clock [OF ex_installed, of 100000000000000]
  have run0: "d_run example_candid (ex_world\<lparr>dw_now := 100000000000000\<rparr>) [] []" by simp
  have h: "d_fire_timer example_candid (MainInterval 86400) \<in> d_handlers example_candid"
    by (simp add: d_handlers_def)
  obtain w log where tick: "run_script [RespUnit (Inr ()), RespUnit (Inr ()), ex_neuron,
      RespNat (Inr 0), RespDisburse (Inr None)] (d_fire_timer example_candid (MainInterval 86400)
        (ex_world\<lparr>dw_now := 100000000000000\<rparr>)) [] = (Some (w, ()), log)"
    "map snd log = [ReqDisburseMaturity [5] 42 100 [9] None,
       ReqBalanceOf [14] \<lparr>acc_owner = [9], acc_subaccount = None\<rparr>, ReqFullNeuron [5] 42,
       ReqRefreshVotingPower [5] 42, ReqClaimOrRefresh [5] 42]"
    using ex_maturity_tick [of example_candid] by (elim exE conjE) (rule that; assumption)
  then obtain wq where wq: "(wq, ReqDisburseMaturity [5] 42 100 [9] None) \<in> set log" by (cases log) auto
  have run: "d_run example_candid w [] log" using run0 h tick(1) by (rule d_run_handler)
  show ?thesis using run wq disburser_maturity_requests [OF run wq] by blast
qed

lemma ex_normalize: "normalize_controllers example_candid [[6], [9]] = [[6], [9]]"
  by (simp add: normalize_controllers_def example_candid_def)

lemma ex_rescue_tick:
  "\<exists>w log'. run_script [RespSettings (Inr ())]
       (d_fire_timer example_candid (RescueInterval 86400) (ex_world\<lparr>dw_now := 1301000000000000\<rparr>)) []
     = (Some (w, ()), log') \<and>
     map snd log' = [ReqUpdateSettings (controller_update_settings [9] [[6], [9]])]"
  by (simp add: ex_model ex_world_ops d_fire_timer_def d_rescue_tick_def rescue_decide_def
      latch_bootstrap_rescue_def disburser_bootstrap_rescue_due_def bootstrap_rescue_window_secs_def
      policy_secs_per_day_def unwrap_or_def disburser_desired_controllers_for_rescue_state_def
      rescue_updated_def client_settings_def ex_normalize)

theorem disburser_keeps_control_witness:
  "\<exists>w log wq cs. d_run example_candid w [] log \<and>
     (wq, ReqUpdateSettings (controller_update_settings [9] [[6], [9]])) \<in> set log \<and>
     cs_controllers (us_settings (controller_update_settings [9] [[6], [9]])) = Some cs \<and>
     dw_self wq \<in> set cs"
proof -
  have "dw_now ex_world = 5000000000000" by (simp add: ex_world_def)
  with d_run_clock [OF ex_installed, of 1301000000000000]
  have run0: "d_run example_candid (ex_world\<lparr>dw_now := 1301000000000000\<rparr>) [] []" by simp
  have h: "d_fire_timer example_candid (RescueInterval 86400) \<in> d_handlers example_candid"
    by (simp add: d_handlers_def)
  obtain w log where tick: "run_script [RespSettings (Inr ())]
      (d_fire_timer example_candid (RescueInterval 86400) (ex_world\<lparr>dw_now := 1301000000000000\<rparr>)) []
      = (Some (w, ()), log)"
    "map snd log = [ReqUpdateSettings (controller_update_settings [9] [[6], [9]])]"
    using ex_rescue_tick by (elim exE conjE) (rule that; assumption)
  then obtain wq where wq: "(wq, ReqUpdateSettings (controller_update_settings [9] [[6], [9]])) \<in> set log"
    by (cases log) auto
  have run: "d_run example_candid w [] log" using run0 h tick(1) by (rule d_run_handler)
  show ?thesis using run wq disburser_keeps_control [OF run wq] by blast
qed

end
