(* ===== verification/IndexTypes.thy ===== *)
theory IndexTypes
  imports Ledger
begin

text \<open>
  The index canister's transactions (\<open>crates/ic-clients/src/index.rs\<close>) and the Cycles Minting
  Canister's answers to \<open>notify_top_up\<close> (\<open>crates/ic-clients/src/cmc.rs\<close>).  \<open>Tokens\<close> is
  its number of e8s, \<open>IndexTimeStamp\<close> its nanoseconds; account identifiers are texts.
\<close>

datatype index_operation =
    OpApprove (op_fee: u64) (op_from: bytes) (op_allowance: u64) (op_spender: bytes)
  | OpBurn bytes u64
  | OpMint bytes u64
  | OpTransfer (tr_to: bytes) (tr_from: bytes) (tr_amount: u64)

record index_tx =
  ix_id :: u64
  ix_icrc1_memo :: "bytes option"
  ix_operation :: index_operation
  ix_created_at_time :: "u64 option"
  ix_timestamp :: "u64 option"

record index_page =
  ip_balance :: u64
  ip_transactions :: "index_tx list"
  ip_oldest_tx_id :: "u64 option"

datatype notify_error =
    CmcRefunded string "u64 option"
  | CmcProcessing
  | CmcTransactionTooOld u64
  | CmcInvalidTransaction string
  | CmcOther u64 string

datatype notify_retryable_error = RetryProcessing | RetryOther u64 string

datatype notify_terminal_error =
    TermRefunded string "u64 option"
  | TermTransactionTooOld u64
  | TermInvalidTransaction string

datatype notify_top_up_error =
    NotifyRetryable notify_retryable_error
  | NotifyTerminal notify_terminal_error
  | NotifyTransport string
  | NotifyDecode string
  | NotifyConvert string

definition nat_to_u128 :: "nat \<Rightarrow> string + u128" where
  "nat_to_u128 n = (if n < 2 ^ 128 then Inr (word_of_nat n) else Inl ''Nat does not fit u128'')"

definition classify_notify_top_up_result ::
  "notify_error + nat \<Rightarrow> notify_top_up_error + u128" where
  "classify_notify_top_up_result result =
     (case result of
        Inr cycles \<Rightarrow> (case nat_to_u128 cycles of Inl e \<Rightarrow> Inl (NotifyConvert e) | Inr c \<Rightarrow> Inr c)
      | Inl CmcProcessing \<Rightarrow> Inl (NotifyRetryable RetryProcessing)
      | Inl (CmcRefunded reason block) \<Rightarrow> Inl (NotifyTerminal (TermRefunded reason block))
      | Inl (CmcTransactionTooOld block) \<Rightarrow> Inl (NotifyTerminal (TermTransactionTooOld block))
      | Inl (CmcInvalidTransaction msg) \<Rightarrow> Inl (NotifyTerminal (TermInvalidTransaction msg))
      | Inl (CmcOther code msg) \<Rightarrow> Inl (NotifyRetryable (RetryOther code msg)))"

lemma classify_refund_iff:
  "classify_notify_top_up_result r = Inl (NotifyTerminal (TermRefunded reason block)) \<longleftrightarrow>
     r = Inl (CmcRefunded reason block)"
  by (auto simp: classify_notify_top_up_result_def split: sum.splits notify_error.splits)

text \<open>The staking account of a neuron in a \<open>list_neurons\<close> response; a neuron is its id and its account
  (\<open>crates/ic-clients/src/governance.rs\<close>).\<close>

fun staking_subaccount_from_list_neurons_response ::
  "u64 \<Rightarrow> (u64 option \<times> bytes) list \<Rightarrow> client_error + subaccount" where
  "staking_subaccount_from_list_neurons_response neuron_id [] =
     Inl (CallError ''list_neurons returned no public full neuron'')"
| "staking_subaccount_from_list_neurons_response neuron_id ((k, account) # neurons) =
     (if k = Some neuron_id
      then (if length account \<noteq> 32 then Inl (ConvertError ''wrong staking subaccount length'') else Inr account)
      else staking_subaccount_from_list_neurons_response neuron_id neurons)"

end
