(* ===== verification/FaucetState.thy ===== *)
theory FaucetState
  imports IndexTypes DisburserState
begin

text \<open>
  The Faucet's persistent state (\<open>canisters/faucet/src/state.rs\<close>), the dispatch record kept
  beside it (\<open>state/transfer_dispatch.rs\<close>), and the lifecycle of \<open>lib.rs\<close>.
\<close>

section \<open>Configuration and jobs\<close>

record fconfig =
  fc_staking_account :: account
  fc_payout_subaccount :: "subaccount option"
  fc_ledger_canister_id :: principal
  fc_index_canister_id :: principal
  fc_cmc_canister_id :: principal
  fc_governance_canister_id :: "principal option"
  fc_funding_source_account :: account
  fc_rescue_controller :: principal
  fc_autonomous_rescue_armed :: "bool option"
  fc_expected_first_staking_tx_id :: "u64 option"
  fc_main_interval_seconds :: u64
  fc_rescue_interval_seconds :: u64
  fc_min_tx_e8s :: u64
  fc_stake_recognition_delay_seconds :: "u64 option"

datatype transfer_kind =
    KBeneficiary | KCyclesTopUpRawFallback | KRawIcp | KNeuronStake | KRemainderToRelay

definition is_beneficiary_payout :: "transfer_kind \<Rightarrow> bool" where
  "is_beneficiary_payout k \<longleftrightarrow> k \<in> {KBeneficiary, KCyclesTopUpRawFallback, KRawIcp, KNeuronStake}"

definition requires_cmc_notify :: "transfer_kind \<Rightarrow> bool" where
  "requires_cmc_notify k \<longleftrightarrow> k = KBeneficiary"

record pending_notification =
  pn_kind :: transfer_kind
  pn_beneficiary :: principal
  pn_gross_share_e8s :: u64
  pn_amount_e8s :: u64
  pn_block_index :: u64
  pn_next_start :: "u64 option"
  pn_transfer_memo :: "bytes option"
  pn_destination_subaccount :: "subaccount option"
  pn_neuron_id :: "u64 option"

datatype pending_phase = AwaitingTransfer | TransferAccepted

record pending_transfer =
  px_notification :: pending_notification
  px_created_at_time_nanos :: u64
  px_phase :: pending_phase

record skip_range =
  sr_start_tx_id :: u64
  sr_end_tx_id :: u64

datatype faucet_rescue_reason =
    FBootstrapNoSuccess
  | IndexAnchorMissing
  | IndexLatestInvariantBroken
  | IndexLatestUnreadable
  | CmcZeroSuccessRuns
  | AccountingInvariantBroken
  | FundingTrancheBalanceMismatch
  | FundingDiscoveryUnreadable

record summary =
  su_pot_start_e8s :: u64
  su_pot_remaining_e8s :: u64
  su_denom_staking_balance_e8s :: u64
  su_effective_denom_staking_balance_e8s :: "u64 option"
  su_funding_tx_id :: "u64 option"
  su_funding_amount_e8s :: "u64 option"
  su_round_end_latest_tx_id :: "u64 option"
  su_round_end_time_nanos :: "u64 option"
  su_last_processed_funding_tx_id :: "u64 option"
  su_topped_up_count :: u64
  su_topped_up_sum_e8s :: u64
  su_topped_up_min_e8s :: "u64 option"
  su_topped_up_max_e8s :: "u64 option"
  su_failed_topups :: u64
  su_ambiguous_topups :: u64
  su_ignored_under_threshold :: u64
  su_ignored_bad_memo :: u64
  su_remainder_to_relay_e8s :: u64

text \<open>\<open>FundingTranche\<close> and \<open>FundingTrancheState\<close> have the same fields; the code converts
  between them with \<open>into\<close>.\<close>

record funding_tranche =
  ft_tx_id :: u64
  ft_timestamp_nanos :: u64
  ft_amount_e8s :: u64

record funding_scan =
  fs_anchor_last_processed_funding_tx_id :: "u64 option"
  fs_cursor :: "u64 option"
  fs_candidate :: "funding_tranche option"

record payout_job =
  pj_id :: u64
  pj_fee_e8s :: u64
  pj_pot_start_e8s :: u64
  pj_denom_staking_balance_e8s :: u64
  pj_next_start :: "u64 option"
  pj_scan_complete :: bool
  pj_ignored_under_threshold :: u64
  pj_ignored_bad_memo :: u64
  pj_gross_outflow_e8s :: u64
  pj_topped_up_count :: u64
  pj_topped_up_sum_e8s :: u64
  pj_topped_up_min_e8s :: "u64 option"
  pj_topped_up_max_e8s :: "u64 option"
  pj_failed_topups :: u64
  pj_ambiguous_topups :: u64
  pj_remainder_to_relay_e8s :: u64
  pj_pending_transfer :: "pending_transfer option"
  pj_skip_candidate_start_tx_id :: "u64 option"
  pj_skip_candidate_end_tx_id :: "u64 option"
  pj_skip_candidate_tx_count :: u64
  pj_next_created_at_time_nanos :: u64
  pj_observed_oldest_tx_id :: "u64 option"
  pj_observed_latest_tx_id :: "u64 option"
  pj_cmc_attempt_count :: "u64 option"
  pj_cmc_success_count :: "u64 option"
  pj_cmc_attempted_beneficiaries :: "principal list option"
  pj_round_start_time_nanos :: "u64 option"
  pj_round_start_latest_tx_id :: "u64 option"
  pj_round_end_time_nanos :: "u64 option"
  pj_round_end_latest_tx_id :: "u64 option"
  pj_effective_denom_staking_balance_e8s :: "u64 option"
  pj_effective_denom_scan_complete :: "bool option"
  pj_funding_tx_id :: "u64 option"
  pj_funding_tx_timestamp_nanos :: "u64 option"
  pj_funding_amount_e8s :: "u64 option"

definition payout_job_new :: "u64 \<Rightarrow> u64 \<Rightarrow> u64 \<Rightarrow> u64 \<Rightarrow> u64 \<Rightarrow> payout_job" where
  "payout_job_new job_id fee pot denom created_at =
     \<lparr>pj_id = job_id, pj_fee_e8s = fee, pj_pot_start_e8s = pot, pj_denom_staking_balance_e8s = denom,
      pj_next_start = None, pj_scan_complete = False, pj_ignored_under_threshold = 0,
      pj_ignored_bad_memo = 0, pj_gross_outflow_e8s = 0, pj_topped_up_count = 0,
      pj_topped_up_sum_e8s = 0, pj_topped_up_min_e8s = None, pj_topped_up_max_e8s = None,
      pj_failed_topups = 0, pj_ambiguous_topups = 0, pj_remainder_to_relay_e8s = 0,
      pj_pending_transfer = None, pj_skip_candidate_start_tx_id = None,
      pj_skip_candidate_end_tx_id = None, pj_skip_candidate_tx_count = 0,
      pj_next_created_at_time_nanos = created_at, pj_observed_oldest_tx_id = None,
      pj_observed_latest_tx_id = None, pj_cmc_attempt_count = Some 0, pj_cmc_success_count = Some 0,
      pj_cmc_attempted_beneficiaries = Some [], pj_round_start_time_nanos = None,
      pj_round_start_latest_tx_id = None, pj_round_end_time_nanos = None,
      pj_round_end_latest_tx_id = None, pj_effective_denom_staking_balance_e8s = None,
      pj_effective_denom_scan_complete = None, pj_funding_tx_id = None,
      pj_funding_tx_timestamp_nanos = None, pj_funding_amount_e8s = None\<rparr>"

definition configure_round_accounting ::
  "u64 option \<Rightarrow> u64 option \<Rightarrow> u64 \<Rightarrow> u64 option \<Rightarrow> u64 \<Rightarrow> bool \<Rightarrow> payout_job \<Rightarrow> payout_job" where
  "configure_round_accounting start_time start_latest end_time end_latest effective_denom complete job =
     job\<lparr>pj_round_start_time_nanos := start_time, pj_round_start_latest_tx_id := start_latest,
         pj_round_end_time_nanos := Some end_time, pj_round_end_latest_tx_id := end_latest,
         pj_effective_denom_staking_balance_e8s := Some effective_denom,
         pj_effective_denom_scan_complete := Some complete\<rparr>"

definition configure_funding_tranche :: "u64 \<Rightarrow> u64 \<Rightarrow> u64 \<Rightarrow> payout_job \<Rightarrow> payout_job" where
  "configure_funding_tranche tx_id timestamp_nanos amount_e8s job =
     job\<lparr>pj_funding_tx_id := Some tx_id, pj_funding_tx_timestamp_nanos := Some timestamp_nanos,
         pj_funding_amount_e8s := Some amount_e8s\<rparr>"

record fstate =
  fs_config :: fconfig
  fs_last_summary :: "summary option"
  fs_last_successful_transfer_ts :: "u64 option"
  fs_last_rescue_check_ts :: u64
  fs_rescue_triggered :: bool
  fs_autonomous_rescue_armed_since_ts :: "u64 option"
  fs_forced_rescue_reason :: "faucet_rescue_reason option"
  fs_skip_range_invariant_fault :: "bool option"
  fs_consecutive_index_anchor_failures :: "u8 option"
  fs_consecutive_index_latest_invariant_failures :: "u8 option"
  fs_consecutive_index_latest_unreadable_failures :: "u8 option"
  fs_consecutive_cmc_zero_success_runs :: "u8 option"
  fs_last_observed_staking_balance_e8s :: "u64 option"
  fs_last_observed_latest_tx_id :: "u64 option"
  fs_main_lock_state_ts :: "u64 option"
  fs_payout_nonce :: u64
  fs_active_payout_job :: "payout_job option"
  fs_last_main_run_ts :: u64
  fs_current_round_start_time_nanos :: "u64 option"
  fs_current_round_start_latest_tx_id :: "u64 option"
  fs_last_processed_funding_tx_id :: "u64 option"
  fs_active_funding_scan :: "funding_scan option"

definition fstate_new :: "fconfig \<Rightarrow> u64 \<Rightarrow> fstate" where
  "fstate_new cfg now_secs =
     \<lparr>fs_config = cfg, fs_last_summary = None, fs_last_successful_transfer_ts = None,
      fs_last_rescue_check_ts = 0, fs_rescue_triggered = False,
      fs_autonomous_rescue_armed_since_ts =
        (if unwrap_or (fc_autonomous_rescue_armed cfg) False then Some now_secs else None),
      fs_forced_rescue_reason = None, fs_skip_range_invariant_fault = Some False,
      fs_consecutive_index_anchor_failures = Some 0,
      fs_consecutive_index_latest_invariant_failures = Some 0,
      fs_consecutive_index_latest_unreadable_failures = Some 0,
      fs_consecutive_cmc_zero_success_runs = Some 0, fs_last_observed_staking_balance_e8s = None,
      fs_last_observed_latest_tx_id = None, fs_main_lock_state_ts = Some 0, fs_payout_nonce = 1,
      fs_active_payout_job = None, fs_last_main_run_ts = sat_sub now_secs (10 * 365 * 24 * 60 * 60),
      fs_current_round_start_time_nanos = None, fs_current_round_start_latest_tx_id = None,
      fs_last_processed_funding_tx_id = None, fs_active_funding_scan = None\<rparr>"

section \<open>The dispatch record\<close>

record dispatch_record =
  dr_job_id :: u64
  dr_pending :: pending_transfer
  dr_dispatched :: bool

definition pending_transfer_may_have_dispatched ::
  "dispatch_record option \<Rightarrow> u64 \<Rightarrow> pending_transfer \<Rightarrow> bool" where
  "pending_transfer_may_have_dispatched cell job_id pending =
     (case cell of
        Some r \<Rightarrow> if dr_job_id r = job_id \<and> dr_pending r = pending then dr_dispatched r else True
      | None \<Rightarrow> True)"

definition dispatch_cell :: "u64 \<Rightarrow> pending_transfer \<Rightarrow> bool \<Rightarrow> dispatch_record option" where
  "dispatch_cell job_id pending dispatched =
     Some \<lparr>dr_job_id = job_id, dr_pending = pending, dr_dispatched = dispatched\<rparr>"

section \<open>Lifecycle\<close>

definition min_min_tx_e8s :: u64 where "min_min_tx_e8s = 10000000"

definition faucet_validate_config :: "candid_ops \<Rightarrow> principal \<Rightarrow> fconfig \<Rightarrow> string + unit" where
  "faucet_validate_config cx self_id cfg =
     (let payout_account = \<lparr>acc_owner = self_id, acc_subaccount = fc_payout_subaccount cfg\<rparr> in
      run_asserts
       [assert_non_anonymous_principal cx ''staking_account.owner'' (acc_owner (fc_staking_account cfg)),
        assert_non_anonymous_principal cx ''ledger_canister_id'' (fc_ledger_canister_id cfg),
        assert_non_anonymous_principal cx ''index_canister_id'' (fc_index_canister_id cfg),
        assert_non_anonymous_principal cx ''cmc_canister_id'' (fc_cmc_canister_id cfg),
        (fc_governance_canister_id cfg \<noteq> None, ''governance_canister_id must be configured''),
        assert_non_anonymous_principal cx ''governance_canister_id''
          (unwrap_or (fc_governance_canister_id cfg) []),
        assert_non_anonymous_principal cx ''funding_source_account.owner''
          (acc_owner (fc_funding_source_account cfg)),
        assert_non_anonymous_principal cx ''rescue_controller'' (fc_rescue_controller cfg),
        (fc_rescue_controller cfg \<noteq> self_id,
          ''rescue_controller must not equal the faucet canister principal''),
        (fc_staking_account cfg \<noteq> payout_account,
          ''staking_account must not equal the faucet payout account''),
        (fc_funding_source_account cfg \<noteq> payout_account,
          ''funding_source_account must not equal the faucet payout account''),
        (fc_funding_source_account cfg \<noteq> fc_staking_account cfg,
          ''funding_source_account must not equal staking_account''),
        (fc_main_interval_seconds cfg > 0, ''main_interval_seconds must be greater than 0''),
        (fc_rescue_interval_seconds cfg > 0, ''rescue_interval_seconds must be greater than 0''),
        (unwrap_or (fc_stake_recognition_delay_seconds cfg) (24 * 60 * 60) > 0,
          ''stake_recognition_delay_seconds must be greater than 0''),
        (fc_min_tx_e8s cfg \<ge> min_min_tx_e8s, ''min_tx_e8s must be at least 10000000 e8s (0.1 ICP)'')])"

definition decode_subaccount_opt :: "bytes option \<Rightarrow> string + subaccount option" where
  "decode_subaccount_opt v =
     (case v of
        None \<Rightarrow> Inr None
      | Some bs \<Rightarrow> if length bs \<noteq> 32 then Inl ''expected 32-byte subaccount'' else Inr (Some bs))"

record finit_args =
  fi_staking_account :: account
  fi_payout_subaccount :: "bytes option"
  fi_ledger_canister_id :: "principal option"
  fi_index_canister_id :: "principal option"
  fi_cmc_canister_id :: "principal option"
  fi_governance_canister_id :: "principal option"
  fi_funding_source_account :: account
  fi_rescue_controller :: principal
  fi_autonomous_rescue_armed :: "bool option"
  fi_expected_first_staking_tx_id :: "u64 option"
  fi_main_interval_seconds :: "u64 option"
  fi_rescue_interval_seconds :: "u64 option"
  fi_min_tx_e8s :: "u64 option"
  fi_stake_recognition_delay_seconds :: "u64 option"

text \<open>\<open>unwrap_or_else\<close> with a default that panics when its text is not a principal.\<close>

definition or_principal :: "principal option \<Rightarrow> principal option \<Rightarrow> string \<Rightarrow> string + principal" where
  "or_principal arg fallback name =
     (case arg of Some p \<Rightarrow> Inr p
      | None \<Rightarrow> (case fallback of Some p \<Rightarrow> Inr p
          | None \<Rightarrow> Inl (''invalid hardcoded '' @ name @ '' principal'')))"

definition faucet_init :: "candid_ops \<Rightarrow> principal \<Rightarrow> u64 \<Rightarrow> finit_args \<Rightarrow> string + fstate" where
  "faucet_init cx self_id now_secs args =
     (case decode_subaccount_opt (fi_payout_subaccount args) of
        Inl e \<Rightarrow> Inl (''invalid payout_subaccount: '' @ e)
      | Inr sub \<Rightarrow>
     (case or_principal (fi_ledger_canister_id args) (icp_ledger_id cx) ''ICP ledger'' of
        Inl e \<Rightarrow> Inl e
      | Inr ledger \<Rightarrow>
     (case or_principal (fi_index_canister_id args) (icp_index_id cx) ''ICP index'' of
        Inl e \<Rightarrow> Inl e
      | Inr index \<Rightarrow>
     (case or_principal (fi_cmc_canister_id args) (cycles_minting_canister_id cx)
             ''cycles minting canister'' of
        Inl e \<Rightarrow> Inl e
      | Inr cmc \<Rightarrow>
     (case or_principal (fi_governance_canister_id args) (nns_governance_id cx) ''NNS governance'' of
        Inl e \<Rightarrow> Inl e
      | Inr governance \<Rightarrow>
      let cfg = \<lparr>fc_staking_account = fi_staking_account args, fc_payout_subaccount = sub,
            fc_ledger_canister_id = ledger, fc_index_canister_id = index, fc_cmc_canister_id = cmc,
            fc_governance_canister_id = Some governance,
            fc_funding_source_account = fi_funding_source_account args,
            fc_rescue_controller = fi_rescue_controller args,
            fc_autonomous_rescue_armed = fi_autonomous_rescue_armed args,
            fc_expected_first_staking_tx_id = fi_expected_first_staking_tx_id args,
            fc_main_interval_seconds = unwrap_or (fi_main_interval_seconds args) (24 * 60 * 60),
            fc_rescue_interval_seconds = unwrap_or (fi_rescue_interval_seconds args) (24 * 60 * 60),
            fc_min_tx_e8s = unwrap_or (fi_min_tx_e8s args) 100000000,
            fc_stake_recognition_delay_seconds =
              Some (unwrap_or (fi_stake_recognition_delay_seconds args) (24 * 60 * 60))\<rparr>
      in case faucet_validate_config cx self_id cfg of
           Inl e \<Rightarrow> Inl e
         | Inr _ \<Rightarrow> Inr (fstate_new cfg now_secs))))))"

record fupgrade_args =
  fu_autonomous_rescue_armed :: "bool option"
  fu_clear_forced_rescue :: "bool option"
  fu_last_processed_funding_tx_id :: "u64 option"
  fu_main_interval_seconds :: "u64 option"
  fu_rescue_interval_seconds :: "u64 option"
  fu_min_tx_e8s :: "u64 option"
  fu_stake_recognition_delay_seconds :: "u64 option"

definition faucet_set_armed :: "u64 \<Rightarrow> bool \<Rightarrow> fstate \<Rightarrow> fstate" where
  "faucet_set_armed now_secs armed st =
     (let st1 = st\<lparr>fs_config := (fs_config st)\<lparr>fc_autonomous_rescue_armed := Some armed\<rparr>,
            fs_autonomous_rescue_armed_since_ts := (if armed then Some now_secs else None)\<rparr>
      in if \<not> armed then st1\<lparr>fs_rescue_triggered := False\<rparr> else st1)"

definition faucet_clear_forced :: "fstate \<Rightarrow> fstate \<times> bool" where
  "faucet_clear_forced st =
     (st\<lparr>fs_forced_rescue_reason := None, fs_skip_range_invariant_fault := Some False,
        fs_consecutive_index_anchor_failures := Some 0,
        fs_consecutive_index_latest_invariant_failures := Some 0,
        fs_consecutive_index_latest_unreadable_failures := Some 0,
        fs_consecutive_cmc_zero_success_runs := Some 0\<rparr>,
      unwrap_or (fc_autonomous_rescue_armed (fs_config st)) False)"

definition faucet_set_last_processed :: "u64 \<Rightarrow> fstate \<Rightarrow> string + fstate" where
  "faucet_set_last_processed funding_tx_id st =
     (if (case fs_last_processed_funding_tx_id st of None \<Rightarrow> False | Some old \<Rightarrow> funding_tx_id < old)
      then Inl ''last_processed_funding_tx_id cannot move backwards''
      else if fs_last_processed_funding_tx_id st \<noteq> Some funding_tx_id
      then Inr (st\<lparr>fs_last_processed_funding_tx_id := Some funding_tx_id,
                  fs_active_funding_scan := None\<rparr>)
      else Inr st)"

text \<open>The remaining arguments: each is checked, then stored.\<close>

definition faucet_set_checked :: "u64 option \<Rightarrow> (u64 \<Rightarrow> bool) \<Rightarrow> string \<Rightarrow> (u64 \<Rightarrow> fconfig \<Rightarrow> fconfig)
    \<Rightarrow> string + fstate \<Rightarrow> string + fstate" where
  "faucet_set_checked arg ok msg upd r =
     (case r of Inl e \<Rightarrow> Inl e | Inr st \<Rightarrow>
       (case arg of None \<Rightarrow> Inr st
        | Some v \<Rightarrow> if ok v then Inr (st\<lparr>fs_config := upd v (fs_config st)\<rparr>) else Inl msg))"

definition faucet_apply_upgrade_args ::
  "fstate \<Rightarrow> fupgrade_args \<Rightarrow> u64 \<Rightarrow> string + fstate \<times> bool" where
  "faucet_apply_upgrade_args st a now_secs =
     (let st1 = (case fu_autonomous_rescue_armed a of None \<Rightarrow> st
            | Some armed \<Rightarrow> faucet_set_armed now_secs armed st);
          (st2, reconcile) = (if unwrap_or (fu_clear_forced_rescue a) False
            then faucet_clear_forced st1 else (st1, False));
          r3 = (case fu_last_processed_funding_tx_id a of None \<Rightarrow> Inr st2
            | Some f \<Rightarrow> faucet_set_last_processed f st2);
          r4 = faucet_set_checked (fu_main_interval_seconds a) (\<lambda>v. v > 0)
            ''main_interval_seconds must be greater than 0'' (\<lambda>v c. c\<lparr>fc_main_interval_seconds := v\<rparr>) r3;
          r5 = faucet_set_checked (fu_rescue_interval_seconds a) (\<lambda>v. v > 0)
            ''rescue_interval_seconds must be greater than 0''
            (\<lambda>v c. c\<lparr>fc_rescue_interval_seconds := v\<rparr>) r4;
          r6 = faucet_set_checked (fu_min_tx_e8s a) (\<lambda>v. v \<ge> min_min_tx_e8s)
            ''min_tx_e8s must be at least 10000000 e8s (0.1 ICP)'' (\<lambda>v c. c\<lparr>fc_min_tx_e8s := v\<rparr>) r5;
          r7 = faucet_set_checked (fu_stake_recognition_delay_seconds a) (\<lambda>v. v > 0)
            ''stake_recognition_delay_seconds must be greater than 0''
            (\<lambda>v c. c\<lparr>fc_stake_recognition_delay_seconds := Some v\<rparr>) r6
      in case r7 of Inl e \<Rightarrow> Inl e | Inr st7 \<Rightarrow> Inr (st7, reconcile))"

text \<open>The whole function; the skip ranges it clears are a component of the world.\<close>

definition faucet_apply_upgrade_args_to_state ::
  "candid_ops \<Rightarrow> principal \<Rightarrow> fstate \<Rightarrow> fupgrade_args option \<Rightarrow> u64 \<Rightarrow> string + fstate \<times> bool" where
  "faucet_apply_upgrade_args_to_state cx self_id st args now_secs =
     (case (case args of None \<Rightarrow> Inr (st, False) | Some a \<Rightarrow> faucet_apply_upgrade_args st a now_secs) of
        Inl e \<Rightarrow> Inl e
      | Inr (st1, reconcile) \<Rightarrow>
         (case faucet_validate_config cx self_id (fs_config st1) of
            Inl e \<Rightarrow> Inl e
          | Inr _ \<Rightarrow> Inr (st1\<lparr>fs_main_lock_state_ts := Some 0\<rparr>, reconcile)))"

definition validate_upgrade_quiescence :: "fstate \<Rightarrow> string + unit" where
  "validate_upgrade_quiescence st =
     (if fs_active_payout_job st \<noteq> None
      then Inl ''faucet upgrade requires no active payout job; allow the payout to finish before upgrading''
      else Inr ())"

end
