(* ===== verification/FaucetLogic.thy ===== *)
theory FaucetLogic
  imports FaucetState MemoPolicy
begin

text \<open>
  \<open>canisters/faucet/src/logic.rs\<close>: which index transactions are commitments, what a commitment is
  worth in a payout round, its share of the pot, and the accounting of a payout job.
\<close>

section \<open>Commitments\<close>

definition memo_top_up_canister_u64 :: u64 where "memo_top_up_canister_u64 = 1347768404"

record commitment =
  cm_amount_e8s :: u64
  cm_memo_bytes :: "bytes option"

datatype payout_target =
    CyclesTopUp principal
  | TargetRawIcp principal "subaccount option" bytes
  | TargetNeuronStake u64 "bytes option"

datatype commitment_validity = IgnoreUnderThreshold | IgnoreBadMemo | ValidCommitment payout_target

definition parse_payout_target_from_memo :: "candid_ops \<Rightarrow> bytes \<Rightarrow> payout_target option" where
  "parse_payout_target_from_memo cx memo =
     (case parse_memo_directive cx memo of
        None \<Rightarrow> None
      | Some (TopUp canister_id) \<Rightarrow> Some (CyclesTopUp canister_id)
      | Some (RawIcp canister_id sub m) \<Rightarrow> Some (TargetRawIcp canister_id sub m)
      | Some (NeuronStake neuron_id m) \<Rightarrow> Some (TargetNeuronStake neuron_id m))"

definition memo_bytes_from_index_tx :: "index_tx \<Rightarrow> bytes \<Rightarrow> commitment option" where
  "memo_bytes_from_index_tx tx staking_account_identifier =
     (case ix_operation tx of
        OpTransfer to _ amount \<Rightarrow>
          if to = staking_account_identifier
          then Some \<lparr>cm_amount_e8s = amount,
            cm_memo_bytes = (case ix_icrc1_memo tx of None \<Rightarrow> None
              | Some m \<Rightarrow> if m = [] then None else Some m)\<rparr>
          else None
      | _ \<Rightarrow> None)"

definition classify_commitment :: "candid_ops \<Rightarrow> u64 \<Rightarrow> commitment \<Rightarrow> commitment_validity" where
  "classify_commitment cx min_tx_e8s c =
     (if cm_amount_e8s c < min_tx_e8s then IgnoreUnderThreshold
      else case cm_memo_bytes c of
        None \<Rightarrow> IgnoreBadMemo
      | Some memo \<Rightarrow>
          if memo = [] then IgnoreBadMemo
          else case parse_payout_target_from_memo cx memo of
            None \<Rightarrow> IgnoreBadMemo
          | Some target \<Rightarrow> ValidCommitment target)"

definition cmc_deposit_account :: "principal \<Rightarrow> principal \<Rightarrow> account" where
  "cmc_deposit_account cmc_id canister_id =
     \<lparr>acc_owner = cmc_id, acc_subaccount = Some (principal_to_subaccount canister_id)\<rparr>"

definition index_tx_timestamp_nanos :: "index_tx \<Rightarrow> u64 option" where
  "index_tx_timestamp_nanos tx =
     (case ix_timestamp tx of Some t \<Rightarrow> Some t | None \<Rightarrow> ix_created_at_time tx)"

section \<open>Shares and weights\<close>

definition compute_raw_share_e8s :: "u64 \<Rightarrow> u64 \<Rightarrow> u64 \<Rightarrow> u64" where
  "compute_raw_share_e8s amount_e8s pot_start_e8s denom_e8s =
     (if pot_start_e8s = 0 \<or> denom_e8s = 0 then 0
      else let raw = unwrap_or (checked_div
             (sat_mul (as_u128 amount_e8s) (as_u128 pot_start_e8s)) (as_u128 denom_e8s)) 0
        in as_u64 (min raw (as_u128 u_max)))"

definition conservative_effective_timestamp_nanos :: "u64 \<Rightarrow> u64 \<Rightarrow> u64" where
  "conservative_effective_timestamp_nanos tx_timestamp_nanos recognition_delay_seconds =
     sat_add tx_timestamp_nanos (sat_mul recognition_delay_seconds 1000000000)"

definition compute_weighted_amount_e8s :: "u64 \<Rightarrow> u64 \<Rightarrow> u64 \<Rightarrow> u64 \<Rightarrow> u64" where
  "compute_weighted_amount_e8s raw_amount round_start round_end effective =
     (if raw_amount = 0 \<or> round_end \<le> round_start then 0
      else if effective \<le> round_start then raw_amount
      else if effective \<ge> round_end then 0
      else let duration = as_u128 (round_end - round_start);
               participating = as_u128 (round_end - effective);
               weighted = unwrap_or (checked_div (sat_mul (as_u128 raw_amount) participating) duration) 0
           in as_u64 (min weighted (as_u128 u_max)))"

definition effective_commitment_timestamp_nanos :: "u64 option \<Rightarrow> u64 \<Rightarrow> u64 \<Rightarrow> u64" where
  "effective_commitment_timestamp_nanos tx_timestamp_nanos round_end recognition_delay_seconds =
     conservative_effective_timestamp_nanos (unwrap_or tx_timestamp_nanos round_end)
       recognition_delay_seconds"

definition commitment_amount_for_payout_e8s ::
  "commitment \<Rightarrow> u64 \<Rightarrow> u64 option \<Rightarrow> u64 option \<Rightarrow> u64 option \<Rightarrow> u64 \<Rightarrow> u64 \<Rightarrow> u64 option" where
  "commitment_amount_for_payout_e8s c tx_id tx_timestamp round_start round_end_latest round_end delay =
     (if (case round_end_latest of None \<Rightarrow> False | Some e \<Rightarrow> tx_id > e) then None
      else case round_start of
        None \<Rightarrow>
          let recognized = (case tx_timestamp of None \<Rightarrow> False
                | Some t \<Rightarrow> conservative_effective_timestamp_nanos t delay \<le> round_end)
          in Some (if recognized then cm_amount_e8s c else 0)
      | Some start \<Rightarrow>
          if round_end \<le> start then Some 0
          else Some (compute_weighted_amount_e8s (cm_amount_e8s c) start round_end
                 (effective_commitment_timestamp_nanos tx_timestamp round_end delay)))"

text \<open>From \<open>scheduler/route_accounting.rs\<close>: a job without a round start is the genesis round.\<close>

definition genesis_round_amount_for_commitment_e8s ::
  "commitment \<Rightarrow> u64 \<Rightarrow> u64 option \<Rightarrow> u64 option \<Rightarrow> u64 \<Rightarrow> u64 \<Rightarrow> u64 option" where
  "genesis_round_amount_for_commitment_e8s c tx_id tx_timestamp round_end_latest round_end delay =
     (if (case round_end_latest of None \<Rightarrow> False | Some e \<Rightarrow> tx_id > e) then None
      else let recognized = (case tx_timestamp of None \<Rightarrow> False
                | Some t \<Rightarrow> conservative_effective_timestamp_nanos t delay \<le> round_end)
        in Some (if recognized then cm_amount_e8s c else 0))"

definition commitment_amount_for_job_payout_e8s ::
  "payout_job \<Rightarrow> commitment \<Rightarrow> u64 \<Rightarrow> u64 option \<Rightarrow> u64 \<Rightarrow> u64 \<Rightarrow> u64 option" where
  "commitment_amount_for_job_payout_e8s job c tx_id tx_timestamp now_nanos delay =
     (let round_end = unwrap_or (pj_round_end_time_nanos job) now_nanos in
      if pj_round_start_time_nanos job = None \<and> pj_round_start_latest_tx_id job = None
      then genesis_round_amount_for_commitment_e8s c tx_id tx_timestamp
             (pj_round_end_latest_tx_id job) round_end delay
      else commitment_amount_for_payout_e8s c tx_id tx_timestamp (pj_round_start_time_nanos job)
             (pj_round_end_latest_tx_id job) round_end delay)"

section \<open>Job accounting\<close>

definition record_ledger_accepted_transfer :: "pending_notification \<Rightarrow> payout_job \<Rightarrow> payout_job" where
  "record_ledger_accepted_transfer pending job =
     job\<lparr>pj_gross_outflow_e8s := sat_add (pj_gross_outflow_e8s job) (pn_gross_share_e8s pending)\<rparr>"

definition apply_notified_transfer :: "pending_notification \<Rightarrow> payout_job \<Rightarrow> payout_job" where
  "apply_notified_transfer pending job =
     (if is_beneficiary_payout (pn_kind pending)
      then job\<lparr>pj_topped_up_count := sat_add (pj_topped_up_count job) 1,
               pj_topped_up_sum_e8s := sat_add (pj_topped_up_sum_e8s job) (pn_amount_e8s pending),
               pj_topped_up_min_e8s := Some (case pj_topped_up_min_e8s job of
                 None \<Rightarrow> pn_amount_e8s pending | Some prev \<Rightarrow> min prev (pn_amount_e8s pending)),
               pj_topped_up_max_e8s := Some (case pj_topped_up_max_e8s job of
                 None \<Rightarrow> pn_amount_e8s pending | Some prev \<Rightarrow> max prev (pn_amount_e8s pending))\<rparr>
      else job\<lparr>pj_remainder_to_relay_e8s := pn_amount_e8s pending\<rparr>)"

definition summary_from_job :: "payout_job \<Rightarrow> summary" where
  "summary_from_job job =
     \<lparr>su_pot_start_e8s = pj_pot_start_e8s job,
      su_pot_remaining_e8s = sat_sub (pj_pot_start_e8s job) (pj_gross_outflow_e8s job),
      su_denom_staking_balance_e8s = pj_denom_staking_balance_e8s job,
      su_effective_denom_staking_balance_e8s = pj_effective_denom_staking_balance_e8s job,
      su_funding_tx_id = pj_funding_tx_id job, su_funding_amount_e8s = pj_funding_amount_e8s job,
      su_round_end_latest_tx_id = pj_round_end_latest_tx_id job,
      su_round_end_time_nanos = pj_round_end_time_nanos job,
      su_last_processed_funding_tx_id = pj_funding_tx_id job,
      su_topped_up_count = pj_topped_up_count job, su_topped_up_sum_e8s = pj_topped_up_sum_e8s job,
      su_topped_up_min_e8s = pj_topped_up_min_e8s job,
      su_topped_up_max_e8s = pj_topped_up_max_e8s job, su_failed_topups = pj_failed_topups job,
      su_ambiguous_topups = pj_ambiguous_topups job,
      su_ignored_under_threshold = pj_ignored_under_threshold job,
      su_ignored_bad_memo = pj_ignored_bad_memo job,
      su_remainder_to_relay_e8s = pj_remainder_to_relay_e8s job\<rparr>"

definition effective_denom_scan_complete :: "payout_job \<Rightarrow> bool" where
  "effective_denom_scan_complete job = unwrap_or (pj_effective_denom_scan_complete job) True"

definition effective_denom_e8s :: "payout_job \<Rightarrow> u64" where
  "effective_denom_e8s job =
     unwrap_or (pj_effective_denom_staking_balance_e8s job) (pj_denom_staking_balance_e8s job)"

section \<open>The shares read as naturals\<close>

lemma clamp_u64: "unat (as_u64 (min r (as_u128 u_max))) = min (unat r) (2 ^ 64 - 1)"
proof -
  have "unat (min r (as_u128 u_max)) = min (unat r) (2 ^ 64 - 1)"
    by (simp add: min_def word_le_nat_alt)
  then show ?thesis by (simp add: unat_as_u64_small)
qed

lemma raw_share_unat:
  "unat (compute_raw_share_e8s a pot denom) =
     (if denom = 0 then 0 else min (unat a * unat pot div unat denom) (2 ^ 64 - 1))"
proof (cases "pot = 0 \<or> denom = 0")
  case True
  then show ?thesis by (auto simp: compute_raw_share_e8s_def)
next
  case False
  then have "as_u128 denom \<noteq> 0" by (simp add: word_unat_eq_iff)
  then have "unat (unwrap_or (checked_div (sat_mul (as_u128 a) (as_u128 pot)) (as_u128 denom)) 0)
      = unat a * unat pot div unat denom"
    by (simp add: checked_div_def unwrap_or_def sat_mul_u128 unat_div_distrib unat_u128_mult)
  with False show ?thesis by (simp add: compute_raw_share_e8s_def Let_def clamp_u64)
qed

lemma scaled_le:
  fixes a x d :: nat
  assumes "x \<le> d" and "0 < d" shows "a * x div d \<le> a"
proof -
  have "a * x div d \<le> a * d div d" using assms(1) by (intro div_le_mono mult_le_mono2)
  then show ?thesis using assms(2) by simp
qed

lemma sum_div_le:
  "(\<Sum>a\<leftarrow>xs. f a * p div d) \<le> (\<Sum>a\<leftarrow>xs. f a) * p div (d :: nat)"
proof (induction xs)
  case (Cons a xs)
  have "f a * p div d + (\<Sum>a\<leftarrow>xs. f a) * p div d \<le> (f a * p + (\<Sum>a\<leftarrow>xs. f a) * p) div d"
    by (subst div_add1_eq [of "f a * p"]) (rule le_add1)
  with Cons show ?case by (simp add: add_mult_distrib)
qed simp

lemma weighted_unat:
  "unat (compute_weighted_amount_e8s a s e t) =
     (if e \<le> s then 0 else if t \<le> s then unat a else if e \<le> t then 0
      else unat a * (unat e - unat t) div (unat e - unat s))"
proof -
  consider "a = 0 \<or> e \<le> s" | "a \<noteq> 0" "\<not> e \<le> s" "t \<le> s" | "a \<noteq> 0" "\<not> e \<le> s" "\<not> t \<le> s" "e \<le> t"
    | "a \<noteq> 0" "\<not> e \<le> s" "\<not> t \<le> s" "\<not> e \<le> t" by blast
  then show ?thesis
  proof cases
    case 4
    have sub: "unat (e - s) = unat e - unat s" "unat (e - t) = unat e - unat t"
      using 4 by (simp_all add: unat_sub)
    have lt: "unat s < unat t" "unat t < unat e" using 4 by (simp_all add: not_le word_less_nat_alt)
    then have nz: "as_u128 (e - s) \<noteq> 0" by (simp add: word_unat_eq_iff sub)
    have w: "unat (unwrap_or (checked_div (sat_mul (as_u128 a) (as_u128 (e - t))) (as_u128 (e - s))) 0)
        = unat a * (unat e - unat t) div (unat e - unat s)"
      using nz by (simp add: checked_div_def unwrap_or_def sat_mul_u128 unat_div_distrib unat_u128_mult sub)
    have "unat a * (unat e - unat t) div (unat e - unat s) \<le> unat a"
      using lt by (intro scaled_le) linarith+
    then have "unat a * (unat e - unat t) div (unat e - unat s) \<le> 2 ^ 64 - 1"
      using unat_le_max [of a] by simp
    with 4 w show ?thesis by (simp add: compute_weighted_amount_e8s_def Let_def clamp_u64)
  qed (auto simp: compute_weighted_amount_e8s_def)
qed

lemma weighted_le: "compute_weighted_amount_e8s a s e t \<le> a"
proof -
  have "unat a * (unat e - unat t) div (unat e - unat s) \<le> unat a" if "\<not> t \<le> s" "\<not> e \<le> t"
  proof -
    have "unat s < unat t" "unat t < unat e" using that by (simp_all add: not_le word_less_nat_alt)
    then show ?thesis by (intro scaled_le) linarith+
  qed
  then show ?thesis by (auto simp: word_le_nat_alt weighted_unat)
qed

section \<open>Properties\<close>

text \<open>shares never exceed the pot: the shares of any list of weighted amounts whose sum is at most
  the denominator add up to at most the pot, and every share is the exact quotient rounded down.\<close>

theorem raw_shares_within_pot:
  assumes "(\<Sum>a\<leftarrow>amounts. unat a) \<le> unat denom"
  shows "(\<Sum>a\<leftarrow>amounts. unat (compute_raw_share_e8s a pot denom)) \<le> unat pot \<and>
    (\<forall>a\<in>set amounts. denom \<noteq> 0 \<longrightarrow>
       unat (compute_raw_share_e8s a pot denom) = unat a * unat pot div unat denom)"
proof (cases "denom = 0")
  case True
  then have "compute_raw_share_e8s a pot denom = 0" for a by (simp add: compute_raw_share_e8s_def)
  then show ?thesis using True by (induction amounts) simp_all
next
  case False
  then have d: "0 < unat denom" by (simp add: unat_gt_0)
  have exact: "unat (compute_raw_share_e8s a pot denom) = unat a * unat pot div unat denom"
    if "a \<in> set amounts" for a
  proof -
    have "unat a \<le> (\<Sum>a\<leftarrow>amounts. unat a)" using that by (simp add: member_le_sum_list)
    then have "unat a * unat pot \<le> unat denom * unat pot" using assms by simp
    then have "unat a * unat pot div unat denom \<le> unat denom * unat pot div unat denom" by (rule div_le_mono)
    also have "\<dots> = unat pot" using d by simp
    also have "\<dots> \<le> 2 ^ 64 - 1" using unat_le_max [of pot] by simp
    finally show ?thesis using False by (simp add: raw_share_unat)
  qed
  have "(\<Sum>a\<leftarrow>amounts. unat (compute_raw_share_e8s a pot denom))
      = (\<Sum>a\<leftarrow>amounts. unat a * unat pot div unat denom)"
    using exact by (intro arg_cong [of _ _ sum_list] map_cong) simp_all
  also have "\<dots> \<le> (\<Sum>a\<leftarrow>amounts. unat a) * unat pot div unat denom" by (rule sum_div_le)
  also have "\<dots> \<le> unat denom * unat pot div unat denom"
    using assms by (intro div_le_mono mult_le_mono1)
  also have "\<dots> = unat pot" using d by simp
  finally show ?thesis using exact by blast
qed

theorem raw_shares_within_pot_witness:
  "(\<Sum>a\<leftarrow>[40, 35, 25]. unat (compute_raw_share_e8s a 1000 100)) \<le> unat (1000 :: u64)"
  using raw_shares_within_pot [of "[40, 35, 25]" 100 1000] by simp

text \<open>the time weight of a commitment is at most its amount, is the whole amount for stake recognised
  by the start of the round, is nothing for stake recognised at its end or later, and never grows with
  the recognition time.\<close>

theorem weighted_amount_bounds:
  assumes "t \<le> t'" and "s < e"
  shows "compute_weighted_amount_e8s a s e t' \<le> compute_weighted_amount_e8s a s e t \<and>
    compute_weighted_amount_e8s a s e t \<le> a \<and>
    (t \<le> s \<longrightarrow> compute_weighted_amount_e8s a s e t = a) \<and>
    (e \<le> t \<longrightarrow> compute_weighted_amount_e8s a s e t = 0)"
proof -
  have le: "unat t \<le> unat t'" "unat s < unat e" using assms by (simp_all add: u_simps)
  have "unat (compute_weighted_amount_e8s a s e t') \<le> unat (compute_weighted_amount_e8s a s e t)"
  proof (cases "t' \<le> s \<or> e \<le> t'")
    case True
    then show ?thesis using assms(1) by (auto simp: weighted_unat)
  next
    case False
    have "unat a * (unat e - unat t') div (unat e - unat s) \<le> unat a * (unat e - unat t) div (unat e - unat s)"
      using le by (intro div_le_mono mult_le_mono2) simp
    moreover have "compute_weighted_amount_e8s a s e t' \<le> a" by (rule weighted_le)
    ultimately show ?thesis
      using False assms by (auto simp: weighted_unat word_le_nat_alt not_le)
  qed
  moreover have "compute_weighted_amount_e8s a s e t = a" if "t \<le> s"
    using that assms(2) by (auto simp: word_unat_eq_iff weighted_unat)
  moreover have "compute_weighted_amount_e8s a s e t = 0" if "e \<le> t"
    using that assms(2) by (auto simp: word_unat_eq_iff weighted_unat)
  ultimately show ?thesis using weighted_le by (simp add: word_le_nat_alt)
qed

theorem weighted_amount_bounds_witness:
  "compute_weighted_amount_e8s 100 10 20 15 \<le> compute_weighted_amount_e8s 100 10 20 12"
  using weighted_amount_bounds [of 12 15 10 20 100] by simp

end
