(* ===== verification/FaucetHealth.thy ===== *)
theory FaucetHealth
  imports FaucetLogic ControllerPolicy "HOL-Library.Option_ord"
begin

text \<open>
  \<open>canisters/faucet/src/scheduler/index_health.rs\<close>, its synchronous part: the validation of an
  index page, the counting of sustained failures and the rescue reasons they latch.  The two
  thread-local clocks of the last counted failures are the record \<open>fclocks\<close>; an observation maps
  the clocks and the state to new ones.
\<close>

section \<open>Index pages\<close>

definition page_size :: u64 where "page_size = 500"

text \<open>\<open>txs.windows(2).any(|pair| pair[0].id <= pair[1].id)\<close>, negated.\<close>

fun ids_descend :: "index_tx list \<Rightarrow> bool" where
  "ids_descend (a # b # txs) = (ix_id b < ix_id a \<and> ids_descend (b # txs))"
| "ids_descend _ = True"

definition last_tx_id :: "index_tx list \<Rightarrow> u64 option" where
  "last_tx_id txs = (if txs = [] then None else Some (ix_id (last txs)))"

definition index_page_latest_tx_id :: "index_tx list \<Rightarrow> u64 option" where
  "index_page_latest_tx_id txs = (case txs of [] \<Rightarrow> None | tx # _ \<Rightarrow> Some (ix_id tx))"

definition validate_history_page :: "index_page \<Rightarrow> u64 option \<Rightarrow> u64 option \<Rightarrow> bool option" where
  "validate_history_page response cursor expected_oldest =
     (let oldest = ip_oldest_tx_id response; txs = ip_transactions response in
      if (expected_oldest \<noteq> None \<and> oldest \<noteq> expected_oldest)
        \<or> length txs > unat page_size
        \<or> \<not> ids_descend txs
        \<or> (case (index_page_latest_tx_id txs, cursor) of
             (Some newest, Some c) \<Rightarrow> newest \<ge> c | _ \<Rightarrow> False)
        \<or> list_ex (\<lambda>tx. case oldest of None \<Rightarrow> True | Some o1 \<Rightarrow> ix_id tx < o1) txs
      then None
      else if txs = [] then
        (case (cursor, oldest) of
           (None, None) \<Rightarrow> Some True
         | (Some c, Some o1) \<Rightarrow> if c = o1 then Some True else None
         | _ \<Rightarrow> None)
      else Some (last_tx_id txs = oldest))"

section \<open>Counting failures\<close>

record fclocks =
  fk_last_anchor_failure :: "u64 option"
  fk_last_latest_failure :: "u64 option"

definition count_sustained_failure :: "u64 option \<Rightarrow> u8 \<Rightarrow> u64 \<Rightarrow> u64 \<Rightarrow> u64 option \<times> bool" where
  "count_sustained_failure prev failures now_secs min_gap_seconds =
     (if failures = 0 then (Some now_secs, True)
      else case prev of
        Some previous \<Rightarrow>
          if sat_sub now_secs previous \<ge> min_gap_seconds then (Some now_secs, True)
          else (Some previous, False)
      | None \<Rightarrow> (Some now_secs, False))"

definition min_failure_gap :: "fstate \<Rightarrow> u64" where
  "min_failure_gap st = max (fc_main_interval_seconds (fs_config st)) 60"

definition count_latest_failure :: "u64 \<Rightarrow> fclocks \<times> fstate \<Rightarrow> fclocks \<times> bool" where
  "count_latest_failure now_secs s = (case s of (k, st) \<Rightarrow>
     let (prev, counted) = count_sustained_failure (fk_last_latest_failure k)
           (max (unwrap_or (fs_consecutive_index_latest_invariant_failures st) 0)
                (unwrap_or (fs_consecutive_index_latest_unreadable_failures st) 0))
           now_secs (min_failure_gap st)
     in (k\<lparr>fk_last_latest_failure := prev\<rparr>, counted))"

definition latch_reason :: "faucet_rescue_reason \<Rightarrow> fstate \<Rightarrow> fstate" where
  "latch_reason reason st =
     (if fs_forced_rescue_reason st = None then st\<lparr>fs_forced_rescue_reason := Some reason\<rparr> else st)"

definition record_latest_unreadable_failure :: "u64 \<Rightarrow> fclocks \<times> fstate \<Rightarrow> fclocks \<times> fstate" where
  "record_latest_unreadable_failure now_secs s = (case s of (k, st) \<Rightarrow>
     (case count_latest_failure now_secs (k, st) of (k1, counted) \<Rightarrow>
      if \<not> counted then (k1, st)
      else let n = sat_add (unwrap_or (fs_consecutive_index_latest_unreadable_failures st) 0) 1;
               st1 = st\<lparr>fs_consecutive_index_latest_invariant_failures := Some 0,
                        fs_consecutive_index_latest_unreadable_failures := Some n\<rparr>
           in (k1, if n \<ge> 2 then latch_reason IndexLatestUnreadable st1 else st1)))"

definition record_latest_invariant_failure :: "u64 \<Rightarrow> fclocks \<times> fstate \<Rightarrow> fclocks \<times> fstate" where
  "record_latest_invariant_failure now_secs s = (case s of (k, st) \<Rightarrow>
     (case count_latest_failure now_secs (k, st) of (k1, counted) \<Rightarrow>
      if \<not> counted then (k1, st)
      else let n = sat_add (unwrap_or (fs_consecutive_index_latest_invariant_failures st) 0) 1;
               st1 = st\<lparr>fs_consecutive_index_latest_unreadable_failures := Some 0,
                        fs_consecutive_index_latest_invariant_failures := Some n\<rparr>
           in (k1, if n \<ge> 2 then latch_reason IndexLatestInvariantBroken st1 else st1)))"

section \<open>Observations\<close>

datatype latest_scan = ScanRead u64 "u64 option" | ScanUnreadable | ScanInvariantBroken

text \<open>\<open>scan_latest_observation\<close> after its call: \<open>None\<close> is a failed read.\<close>

definition latest_observation_of :: "u64 option \<Rightarrow> index_page option \<Rightarrow> latest_scan" where
  "latest_observation_of start resp =
     (case resp of
        None \<Rightarrow> ScanUnreadable
      | Some page \<Rightarrow>
          let valid = (if ip_transactions page = []
                then ip_oldest_tx_id page = None
                  \<or> (case (start, ip_oldest_tx_id page) of
                       (Some cursor, Some oldest) \<Rightarrow> cursor \<le> oldest | _ \<Rightarrow> False)
                else validate_history_page page start None \<noteq> None)
          in if \<not> valid then ScanInvariantBroken
             else ScanRead (ip_balance page) (index_page_latest_tx_id (ip_transactions page)))"

definition apply_anchor_observation :: "u64 option \<Rightarrow> u64 \<Rightarrow> fclocks \<times> fstate \<Rightarrow> fclocks \<times> fstate" where
  "apply_anchor_observation observed_oldest now_secs s = (case s of (k, st) \<Rightarrow>
     (case fc_expected_first_staking_tx_id (fs_config st) of
        None \<Rightarrow> (k, st)
      | Some expected_first \<Rightarrow>
          if observed_oldest = Some expected_first
          then (k\<lparr>fk_last_anchor_failure := None\<rparr>, st\<lparr>fs_consecutive_index_anchor_failures := Some 0\<rparr>)
          else (case count_sustained_failure (fk_last_anchor_failure k)
                  (unwrap_or (fs_consecutive_index_anchor_failures st) 0) now_secs (min_failure_gap st) of
            (prev, counted) \<Rightarrow>
              let k1 = k\<lparr>fk_last_anchor_failure := prev\<rparr> in
              if \<not> counted then (k1, st)
              else let n = sat_add (unwrap_or (fs_consecutive_index_anchor_failures st) 0) 1;
                       st1 = st\<lparr>fs_consecutive_index_anchor_failures := Some n\<rparr>
                   in (k1, if n \<ge> 2 then latch_reason IndexAnchorMissing st1 else st1))))"

definition apply_latest_observation :: "latest_scan \<Rightarrow> u64 \<Rightarrow> fclocks \<times> fstate \<Rightarrow> fclocks \<times> fstate" where
  "apply_latest_observation scan now_secs s = (case s of (k, st) \<Rightarrow>
     (case scan of
        ScanUnreadable \<Rightarrow> record_latest_unreadable_failure now_secs (k, st)
      | ScanInvariantBroken \<Rightarrow> record_latest_invariant_failure now_secs (k, st)
      | ScanRead balance_e8s latest_tx_id \<Rightarrow>
          let previous_tip = fs_last_observed_latest_tx_id st in
          if fs_last_observed_staking_balance_e8s st \<noteq> None \<and> latest_tx_id < previous_tip then (k, st)
          else if (case fs_last_observed_staking_balance_e8s st of None \<Rightarrow> False
                   | Some b \<Rightarrow> b \<noteq> balance_e8s) \<and> latest_tx_id = previous_tip
          then record_latest_invariant_failure now_secs (k, st)
          else (k\<lparr>fk_last_latest_failure := None\<rparr>,
                st\<lparr>fs_last_observed_staking_balance_e8s := Some balance_e8s,
                   fs_last_observed_latest_tx_id := latest_tx_id,
                   fs_consecutive_index_latest_invariant_failures := Some 0,
                   fs_consecutive_index_latest_unreadable_failures := Some 0\<rparr>)))"

definition apply_cmc_run_result :: "u64 \<Rightarrow> u64 \<Rightarrow> bool \<Rightarrow> fstate \<Rightarrow> fstate" where
  "apply_cmc_run_result attempts successes zero_success_run_counts st =
     (if attempts = 0 then st
      else if successes > 0 then st\<lparr>fs_consecutive_cmc_zero_success_runs := Some 0\<rparr>
      else if \<not> zero_success_run_counts then st
      else let n = sat_add (unwrap_or (fs_consecutive_cmc_zero_success_runs st) 0) 1;
               st1 = st\<lparr>fs_consecutive_cmc_zero_success_runs := Some n\<rparr>
           in if n \<ge> 2 then latch_reason CmcZeroSuccessRuns st1 else st1)"

definition apply_job_health_observations ::
  "payout_job \<Rightarrow> bool \<Rightarrow> u64 \<Rightarrow> fclocks \<times> fstate \<Rightarrow> fclocks \<times> fstate" where
  "apply_job_health_observations job zero_success_run_counts now_secs s =
     (case apply_anchor_observation (pj_observed_oldest_tx_id job) now_secs s of (k, st) \<Rightarrow>
       (k, apply_cmc_run_result (unwrap_or (pj_cmc_attempt_count job) 0)
             (unwrap_or (pj_cmc_success_count job) 0) zero_success_run_counts st))"

definition maybe_latch_bootstrap_rescue :: "u64 \<Rightarrow> fstate \<Rightarrow> fstate" where
  "maybe_latch_bootstrap_rescue now_secs st =
     (if fs_forced_rescue_reason st = None
        \<and> faucet_bootstrap_rescue_due now_secs (fs_autonomous_rescue_armed_since_ts st)
            (fs_last_successful_transfer_ts st)
      then st\<lparr>fs_forced_rescue_reason := Some FBootstrapNoSuccess\<rparr> else st)"

section \<open>Descending pages\<close>

lemma ids_descend_iff: "ids_descend txs \<longleftrightarrow> sorted_wrt (\<lambda>a b. ix_id b < ix_id a) txs"
proof (induction txs rule: ids_descend.induct)
  case (1 a b txs)
  then show ?case by (auto intro: less_trans)
qed simp_all

lemma descend_last: "ids_descend txs \<Longrightarrow> tx \<in> set txs \<Longrightarrow> ix_id (last txs) \<le> ix_id tx"
proof (induction txs)
  case (Cons a txs)
  then show ?case by (cases txs) (auto simp: ids_descend_iff less_imp_le)
qed simp

text \<open>a page is accepted only if it is what an honest index returns for the cursor: at most a
  page of records with strictly descending ids, all below the cursor and none below the oldest id
  the page reports, which is the expected one when there is an expectation; and it is called the
  end of history exactly when its last record, or the cursor of an empty page, is that oldest record
  (or the account has none).\<close>

theorem validate_history_page_sound:
  assumes "validate_history_page page cursor expected = Some exhausted"
  shows "length (ip_transactions page) \<le> 500 \<and>
    sorted_wrt (\<lambda>a b. ix_id b < ix_id a) (ip_transactions page) \<and>
    (\<forall>tx\<in>set (ip_transactions page). (\<forall>c. cursor = Some c \<longrightarrow> ix_id tx < c) \<and>
       (\<exists>o1. ip_oldest_tx_id page = Some o1 \<and> o1 \<le> ix_id tx)) \<and>
    (expected = None \<or> ip_oldest_tx_id page = expected) \<and>
    (exhausted \<longleftrightarrow> (if ip_transactions page = [] then cursor = ip_oldest_tx_id page
       else Some (ix_id (last (ip_transactions page))) = ip_oldest_tx_id page))"
proof -
  let ?txs = "ip_transactions page"
  have desc: "sorted_wrt (\<lambda>a b. ix_id b < ix_id a) ?txs" and len: "length ?txs \<le> 500"
    and exp: "expected = None \<or> ip_oldest_tx_id page = expected"
    using assms by (auto simp: validate_history_page_def Let_def ids_descend_iff page_size_def split: if_splits)
  have oldest: "\<exists>o1. ip_oldest_tx_id page = Some o1 \<and> o1 \<le> ix_id tx" if "tx \<in> set ?txs" for tx
    using assms that
    by (auto simp: validate_history_page_def Let_def list_ex_iff not_less split: if_splits option.splits)
  have below: "ix_id tx < c" if mem: "tx \<in> set ?txs" and cur: "cursor = Some c" for tx c
  proof -
    obtain a rest where txs: "?txs = a # rest" using mem by (cases ?txs) auto
    have "ix_id a < c"
      using assms cur txs
      by (auto simp: validate_history_page_def Let_def index_page_latest_tx_id_def not_le split: if_splits)
    moreover have "ix_id tx \<le> ix_id a" using desc txs mem by auto
    ultimately show ?thesis by simp
  qed
  have "exhausted \<longleftrightarrow> (if ?txs = [] then cursor = ip_oldest_tx_id page
       else Some (ix_id (last ?txs)) = ip_oldest_tx_id page)"
    using assms by (auto simp: validate_history_page_def Let_def last_tx_id_def split: if_splits option.splits)
  then show ?thesis using desc len exp oldest below by blast
qed

theorem validate_history_page_sound_witness:
  "sorted_wrt (\<lambda>a b. ix_id b < ix_id a)
     [\<lparr>ix_id = 9, ix_icrc1_memo = None, ix_operation = OpMint [] 1, ix_created_at_time = None, ix_timestamp = None\<rparr>,
      \<lparr>ix_id = 7, ix_icrc1_memo = None, ix_operation = OpMint [] 1, ix_created_at_time = None, ix_timestamp = None\<rparr>]"
proof -
  let ?txs = "[\<lparr>ix_id = 9, ix_icrc1_memo = None, ix_operation = OpMint [] 1, ix_created_at_time = None, ix_timestamp = None\<rparr>,
      \<lparr>ix_id = 7, ix_icrc1_memo = None, ix_operation = OpMint [] 1, ix_created_at_time = None, ix_timestamp = None\<rparr>]"
  have "validate_history_page \<lparr>ip_balance = 5, ip_transactions = ?txs, ip_oldest_tx_id = Some 7\<rparr> (Some 12) (Some 7)
      = Some True"
    by (simp add: validate_history_page_def page_size_def index_page_latest_tx_id_def last_tx_id_def)
  from validate_history_page_sound [OF this] show ?thesis by simp
qed

section \<open>Sustained outages\<close>

definition anchor_run :: "(u64 \<times> u64 option) list \<Rightarrow> fclocks \<times> fstate \<Rightarrow> fclocks \<times> fstate" where
  "anchor_run obs s = foldl (\<lambda>s (now_secs, oldest). apply_anchor_observation oldest now_secs s) s obs"

lemma anchor_run_snoc:
  "anchor_run (obs @ [(t, oldest)]) s = apply_anchor_observation oldest t (anchor_run obs s)"
  by (simp add: anchor_run_def)

lemma latch_reason_fields [simp]:
  "fs_config (latch_reason r st) = fs_config st"
  "fs_consecutive_index_anchor_failures (latch_reason r st) = fs_consecutive_index_anchor_failures st"
  "fs_forced_rescue_reason (latch_reason r st) =
     (if fs_forced_rescue_reason st = None then Some r else fs_forced_rescue_reason st)"
  by (simp_all add: latch_reason_def)

text \<open>A missing anchor, observed at two times at least the gap apart and at no time in between seen.\<close>

definition outage :: "u64 \<Rightarrow> u64 \<Rightarrow> (u64 \<times> u64 option) list \<Rightarrow> bool" where
  "outage expected gap obs \<longleftrightarrow> (\<exists>pre a mid b post. obs = pre @ a # mid @ b # post \<and>
     sat_sub (fst b) (fst a) \<ge> gap \<and> (\<forall>x\<in>set (a # mid @ [b]). snd x \<noteq> Some expected))"

definition anchor_inv :: "u64 \<Rightarrow> u64 \<Rightarrow> (u64 \<times> u64 option) list \<Rightarrow> fclocks \<times> fstate \<Rightarrow> bool" where
  "anchor_inv expected gap obs s \<longleftrightarrow> (case s of (k, st) \<Rightarrow>
     fc_expected_first_staking_tx_id (fs_config st) = Some expected \<and> min_failure_gap st = gap \<and>
     (unwrap_or (fs_consecutive_index_anchor_failures st) 0 \<noteq> 0 \<longrightarrow>
        (\<exists>pre a post. obs = pre @ a # post \<and> fk_last_anchor_failure k = Some (fst a) \<and>
           (\<forall>x\<in>set (a # post). snd x \<noteq> Some expected))) \<and>
     (fs_forced_rescue_reason st = Some IndexAnchorMissing \<longrightarrow> outage expected gap obs))"

lemma outage_snoc: "outage e g obs \<Longrightarrow> outage e g (obs @ [x])"
  unfolding outage_def by (elim exE conjE) (rule exI, rule exI, rule exI, rule exI, rule exI, auto)

lemma u8_succ_ge2: "\<not> 2 \<le> sat_add (0 :: u8) 1"
  by (simp add: u_simps)

lemma anchor_step:
  assumes "anchor_inv e g obs s"
  shows "anchor_inv e g (obs @ [(t, oldest)]) (apply_anchor_observation oldest t s)"
proof -
  obtain k st where s: "s = (k, st)" by (cases s)
  define n where "n = unwrap_or (fs_consecutive_index_anchor_failures st) 0"
  have cfg: "fc_expected_first_staking_tx_id (fs_config st) = Some e" "min_failure_gap st = g"
    and forced: "fs_forced_rescue_reason st = Some IndexAnchorMissing \<Longrightarrow> outage e g (obs @ [(t, oldest)])"
    using assms s by (auto simp: anchor_inv_def intro: outage_snoc)
  show ?thesis
  proof (cases "oldest = Some e")
    case True
    then show ?thesis using cfg forced s
      by (auto simp: anchor_inv_def apply_anchor_observation_def unwrap_or_def min_failure_gap_def)
  next
    case bad: False
    consider "n = 0" | previous where "n \<noteq> 0" "fk_last_anchor_failure k = Some previous"
      using assms s n_def by (fastforce simp: anchor_inv_def)
    then show ?thesis
    proof cases
      case 1
      then have "\<not> 2 \<le> sat_add n 1" using u8_succ_ge2 by simp
      moreover have "\<exists>pre b post. obs @ [(t, oldest)] = pre @ (t, b) # post \<and>
          b \<noteq> Some e \<and> (\<forall>x\<in>set post. snd x \<noteq> Some e)"
        using bad by (intro exI [of _ obs] exI [of _ oldest] exI [of _ "[]"]) simp
      ultimately show ?thesis using 1 cfg forced s bad
        by (auto simp: anchor_inv_def apply_anchor_observation_def count_sustained_failure_def Let_def
            n_def [symmetric] min_failure_gap_def)
    next
      case 2
      obtain pre a post where a: "obs = pre @ a # post" "fk_last_anchor_failure k = Some (fst a)"
        "\<forall>x\<in>set (a # post). snd x \<noteq> Some e"
        using assms s 2(1) n_def by (fastforce simp: anchor_inv_def)
      have all: "\<forall>x\<in>set (a # post @ [(t, oldest)]). snd x \<noteq> Some e" using a(3) bad by auto
      have obs: "obs @ [(t, oldest)] = pre @ a # (post @ [(t, oldest)])" using a(1) by simp
      show ?thesis
      proof (cases "sat_sub t (fst a) \<ge> g")
        case True
        then have "outage e g (obs @ [(t, oldest)])"
          unfolding outage_def using a(1) all
          by (intro exI [of _ pre] exI [of _ a] exI [of _ post] exI [of _ "(t, oldest)"] exI [of _ "[]"]) auto
        moreover have "\<exists>pre a post. obs @ [(t, oldest)] = pre @ a # post \<and> Some t = Some (fst a) \<and>
            (\<forall>x\<in>set (a # post). snd x \<noteq> Some e)"
          using bad by (intro exI [of _ obs] exI [of _ "(t, oldest)"] exI [of _ "[]"]) auto
        ultimately show ?thesis using 2 a(2) cfg s bad True
          by (auto simp: anchor_inv_def apply_anchor_observation_def count_sustained_failure_def Let_def
            n_def [symmetric] min_failure_gap_def)
      next
        case False
        have "\<exists>pre a' post. obs @ [(t, oldest)] = pre @ a' # post \<and> Some (fst a) = Some (fst a') \<and>
            (\<forall>x\<in>set (a' # post). snd x \<noteq> Some e)"
          using all obs by (intro exI [of _ pre] exI [of _ a] exI [of _ "post @ [(t, oldest)]"]) auto
        then show ?thesis using 2 a(2) cfg forced s bad False
          by (auto simp: anchor_inv_def apply_anchor_observation_def count_sustained_failure_def Let_def
            n_def [symmetric] min_failure_gap_def)
      qed
    qed
  qed
qed

lemma anchor_run_inv: "anchor_inv e g [] s \<Longrightarrow> anchor_inv e g obs (anchor_run obs s)"
proof (induction obs rule: rev_induct)
  case (snoc x obs)
  then show ?case by (cases x) (simp add: anchor_run_snoc anchor_step)
qed (simp add: anchor_run_def)

text \<open>a missing index anchor latches rescue only after a sustained outage: from a clear state,
  a sequence of observations latches IndexAnchorMissing only if two of them, at least the main
  interval (and a minute) apart, missed the anchor and none in between saw it.\<close>

theorem anchor_rescue_needs_outage:
  assumes "fc_expected_first_staking_tx_id (fs_config st) = Some expected"
    and "fs_consecutive_index_anchor_failures st = Some 0"
    and "fs_forced_rescue_reason st = None"
    and "fs_forced_rescue_reason (snd (anchor_run obs (k, st))) = Some IndexAnchorMissing"
  shows "outage expected (max (fc_main_interval_seconds (fs_config st)) 60) obs"
proof -
  have "anchor_inv expected (min_failure_gap st) [] (k, st)"
    using assms(1-3) by (simp add: anchor_inv_def unwrap_or_def)
  from anchor_run_inv [OF this, of obs] show ?thesis
    using assms(4) by (cases "anchor_run obs (k, st)") (simp add: anchor_inv_def min_failure_gap_def)
qed

definition sample_fconfig :: fconfig where
  "sample_fconfig = \<lparr>fc_staking_account = \<lparr>acc_owner = [1], acc_subaccount = None\<rparr>,
     fc_payout_subaccount = None, fc_ledger_canister_id = [2], fc_index_canister_id = [3],
     fc_cmc_canister_id = [4], fc_governance_canister_id = Some [5],
     fc_funding_source_account = \<lparr>acc_owner = [6], acc_subaccount = None\<rparr>, fc_rescue_controller = [7],
     fc_autonomous_rescue_armed = Some True, fc_expected_first_staking_tx_id = Some 11,
     fc_main_interval_seconds = 600, fc_rescue_interval_seconds = 600, fc_min_tx_e8s = 100000000,
     fc_stake_recognition_delay_seconds = Some 86400\<rparr>"

theorem anchor_rescue_needs_outage_witness:
  "outage 11 600 [(100, None), (200, Some 5), (700, None)]"
proof -
  let ?obs = "[(100, None), (200, Some 5), (700, None)] :: (u64 \<times> u64 option) list"
  have "fs_forced_rescue_reason (snd (anchor_run ?obs
      (\<lparr>fk_last_anchor_failure = None, fk_last_latest_failure = None\<rparr>, fstate_new sample_fconfig 0)))
      = Some IndexAnchorMissing"
    by (simp add: anchor_run_def apply_anchor_observation_def fstate_new_def sample_fconfig_def
        count_sustained_failure_def min_failure_gap_def unwrap_or_def sat_sub_def sat_add_def Let_def
        latch_reason_def)
  from anchor_rescue_needs_outage [OF _ _ _ this, of 11] show ?thesis
    by (simp add: fstate_new_def sample_fconfig_def)
qed

end
