(* ===== verification/SkipRanges.thy ===== *)
theory SkipRanges
  imports FaucetState
begin

text \<open>
  The Faucet's cache of history spans that hold no eligible commitment (\<open>state.rs\<close>:
  \<open>skip_range_containing\<close>, \<open>insert_skip_range\<close>, \<open>clear_skip_ranges\<close>).  The stable B-tree map
  from the low to the high end of a span is the list of its entries in ascending key order; the
  map's range queries, removal and insertion are written out on it.  Its contract, that a look-up
  answers membership in the covered ids and that an insertion covers nothing but the old ids and
  the new span, is the locale \<open>range_store\<close>.
\<close>

section \<open>The map\<close>

type_synonym skip_map = "(u64 \<times> u64) list"

datatype skip_range_insert_error = InvalidRange

text \<open>\<open>map.range(..=k).next_back()\<close> and \<open>map.range((Excluded(k), Unbounded)).take(n)\<close>.\<close>

definition smap_last_upto :: "u64 \<Rightarrow> skip_map \<Rightarrow> (u64 \<times> u64) option" where
  "smap_last_upto k m =
     (case rev (filter (\<lambda>e. fst e \<le> k) m) of [] \<Rightarrow> None | e # _ \<Rightarrow> Some e)"

definition smap_after :: "nat \<Rightarrow> u64 \<Rightarrow> skip_map \<Rightarrow> (u64 \<times> u64) list" where
  "smap_after n k m = take n (filter (\<lambda>e. k < fst e) m)"

definition smap_remove :: "u64 list \<Rightarrow> skip_map \<Rightarrow> skip_map" where
  "smap_remove ks m = filter (\<lambda>e. fst e \<notin> set ks) m"

definition smap_insert :: "u64 \<Rightarrow> u64 \<Rightarrow> skip_map \<Rightarrow> skip_map" where
  "smap_insert k v m = filter (\<lambda>e. fst e < k) m @ (k, v) # filter (\<lambda>e. k < fst e) m"

section \<open>Operations\<close>

definition skip_range_containing :: "skip_map \<Rightarrow> u64 \<Rightarrow> skip_range_insert_error + skip_range option" where
  "skip_range_containing m k =
     (case smap_last_upto k m of
        None \<Rightarrow> Inr None
      | Some (low, high) \<Rightarrow>
          if low > high then Inl InvalidRange
          else Inr (if k \<le> high then Some \<lparr>sr_start_tx_id = low, sr_end_tx_id = high\<rparr> else None))"

text \<open>The loop over the successors: \<open>None\<close> is the early return that keeps the cache.\<close>

fun absorb_successors :: "(u64 \<times> u64) list \<Rightarrow> u64 \<Rightarrow> u64 list
    \<Rightarrow> skip_range_insert_error + (u64 \<times> u64 list) option" where
  "absorb_successors [] hi remove = Inr (Some (hi, remove))"
| "absorb_successors ((low, high) # es) hi remove =
     (if low > high then Inl InvalidRange
      else if low > sat_add hi 1 then Inr (Some (hi, remove))
      else if length remove = 2 then Inr None
      else absorb_successors es (max hi high) (remove @ [low]))"

definition insert_merged :: "skip_map \<Rightarrow> u64 \<Rightarrow> u64 \<Rightarrow> u64 list \<Rightarrow> skip_range_insert_error + skip_map" where
  "insert_merged m start hi remove =
     (case absorb_successors (smap_after 3 start m) hi remove of
        Inl e \<Rightarrow> Inl e
      | Inr None \<Rightarrow> Inr m
      | Inr (Some (hi', remove')) \<Rightarrow> Inr (smap_insert start hi' (smap_remove remove' m)))"

definition insert_skip_range :: "skip_range \<Rightarrow> skip_map \<Rightarrow> skip_range_insert_error + skip_map" where
  "insert_skip_range r m =
     (let start = sr_start_tx_id r; hi = sr_end_tx_id r in
      if start > hi then Inl InvalidRange
      else case smap_last_upto start m of
        None \<Rightarrow> insert_merged m start hi []
      | Some (low, high) \<Rightarrow>
          if low > high then Inl InvalidRange
          else if high \<ge> hi then Inr m
          else if sat_add high 1 \<ge> start then insert_merged m low (max hi high) [low]
          else insert_merged m start hi [])"

fun persist_new_skip_ranges :: "skip_range list \<Rightarrow> skip_map \<Rightarrow> skip_range_insert_error option \<times> skip_map" where
  "persist_new_skip_ranges [] m = (None, m)"
| "persist_new_skip_ranges (r # rs) m =
     (case insert_skip_range r m of
        Inl e \<Rightarrow> (Some e, m)
      | Inr m' \<Rightarrow> persist_new_skip_ranges rs m')"

section \<open>Specification\<close>

definition smap_ok :: "skip_map \<Rightarrow> bool" where
  "smap_ok m \<longleftrightarrow> sorted_wrt (\<lambda>e e'. unat (snd e) + 1 < unat (fst e')) m \<and> (\<forall>e\<in>set m. fst e \<le> snd e)"

definition covered :: "skip_map \<Rightarrow> u64 set" where
  "covered m = (\<Union>e\<in>set m. {fst e..snd e})"

definition range_ids :: "skip_range \<Rightarrow> u64 set" where
  "range_ids r = {sr_start_tx_id r..sr_end_tx_id r}"

lemma smap_ok_Nil [simp]: "smap_ok []" and covered_Nil [simp]: "covered [] = {}"
  by (simp_all add: smap_ok_def covered_def)

lemma smap_ok_Cons:
  "smap_ok (e # m) \<longleftrightarrow> fst e \<le> snd e \<and> (\<forall>e'\<in>set m. unat (snd e) + 1 < unat (fst e')) \<and> smap_ok m"
  by (auto simp: smap_ok_def)

lemma smap_ok_append:
  "smap_ok (a @ b) \<longleftrightarrow> smap_ok a \<and> smap_ok b \<and> (\<forall>e\<in>set a. \<forall>e'\<in>set b. unat (snd e) + 1 < unat (fst e'))"
  by (auto simp: smap_ok_def sorted_wrt_append)

lemma smap_ok_filter: "smap_ok m \<Longrightarrow> smap_ok (filter p m)"
  by (auto simp: smap_ok_def sorted_wrt_filter)

text \<open>Two different entries of a well-formed map lie apart.\<close>

lemma smap_ok_apart:
  "smap_ok m \<Longrightarrow> e \<in> set m \<Longrightarrow> e' \<in> set m \<Longrightarrow> fst e < fst e' \<Longrightarrow> unat (snd e) + 1 < unat (fst e')"
proof (induction m)
  case (Cons a m)
  then show ?case
    by (auto simp: smap_ok_Cons word_less_nat_alt word_le_nat_alt)
qed simp

lemma smap_ok_key: "smap_ok m \<Longrightarrow> e \<in> set m \<Longrightarrow> e' \<in> set m \<Longrightarrow> fst e = fst e' \<Longrightarrow> e = e'"
  by (induction m) (auto simp: smap_ok_Cons word_le_nat_alt)

lemma last_upto_Some:
  assumes "smap_ok m" and "smap_last_upto k m = Some e"
  shows "e \<in> set m \<and> fst e \<le> k \<and> (\<forall>e'\<in>set m. fst e' \<le> k \<longrightarrow> e' = e \<or> fst e' < fst e)"
proof -
  obtain xs where "filter (\<lambda>e. fst e \<le> k) m = xs @ [e]"
    using assms(2) by (auto simp: smap_last_upto_def split: list.splits)
  moreover from this have "smap_ok (xs @ [e])" using smap_ok_filter [OF assms(1)] by metis
  moreover have "fst e' < fst e" if "e' \<in> set xs" for e'
  proof -
    have "fst e' \<le> snd e'" "unat (snd e') + 1 < unat (fst e)"
      using that calculation(2) by (auto simp: smap_ok_append smap_ok_Cons smap_ok_def [of xs])
    then show ?thesis by (simp add: word_less_nat_alt word_le_nat_alt)
  qed
  ultimately have "set (filter (\<lambda>e. fst e \<le> k) m) = insert e (set xs)" "\<forall>e'\<in>set xs. fst e' < fst e"
    by simp_all
  then show ?thesis by auto
qed

lemma last_upto_None: "smap_last_upto k m = None \<longleftrightarrow> (\<forall>e\<in>set m. k < fst e)"
proof -
  have "smap_last_upto k m = None \<longleftrightarrow> filter (\<lambda>e. fst e \<le> k) m = []"
    by (auto simp: smap_last_upto_def split: list.splits)
  then show ?thesis by (auto simp: filter_empty_conv not_le)
qed

section \<open>Look-up\<close>

lemma lookup_sound:
  assumes "smap_ok m"
  shows "\<exists>x. skip_range_containing m k = Inr x \<and>
    (case x of None \<Rightarrow> k \<notin> covered m
     | Some r \<Rightarrow> k \<in> range_ids r \<and> range_ids r \<subseteq> covered m)"
proof (cases "smap_last_upto k m")
  case None
  then have "k \<notin> covered m" by (auto simp: last_upto_None covered_def not_le)
  with None show ?thesis by (simp add: skip_range_containing_def)
next
  case (Some e)
  note e = last_upto_Some [OF assms Some]
  then have le: "fst e \<le> snd e" using assms by (simp add: smap_ok_def)
  have "k \<notin> covered m" if "snd e < k"
  proof
    assume "k \<in> covered m"
    then obtain e' where e': "e' \<in> set m" "fst e' \<le> k" "k \<le> snd e'" by (auto simp: covered_def)
    with that have "e' \<noteq> e" by auto
    then have "fst e' < fst e" using e e' by blast
    then have "unat (snd e') + 1 < unat (fst e)" using smap_ok_apart [OF assms] e e' by blast
    then show False using e e'(3) by (simp add: word_le_nat_alt)
  qed
  then show ?thesis using Some e le
    by (cases e) (force simp: skip_range_containing_def range_ids_def covered_def)
qed

section \<open>Insertion\<close>

lemma absorb_take:
  "length rem \<le> 2 \<Longrightarrow> 3 - length rem \<le> n \<Longrightarrow> absorb_successors (take n es) e rem = absorb_successors es e rem"
proof (induction es e rem arbitrary: n rule: absorb_successors.induct)
  case (2 low high es hi remove)
  then obtain n' where n: "n = Suc n'" by (cases n) auto
  show ?case using 2 n by auto
qed simp

lemma interval_join:
  fixes s e l h :: u64
  assumes "s \<le> e" "s < l" "l \<le> h" "unat l \<le> unat e + 1"
  shows "{s..max e h} = {s..e} \<union> {l..h}"
  using assms by (auto simp: word_le_nat_alt word_less_nat_alt max_def)

lemma above_succ: "low > sat_add e 1 \<longleftrightarrow> unat e + 1 < unat low" for e low :: u64
  using unat_le_max [of low] by (auto simp: u_simps)

lemma succ_le: "start \<le> sat_add high 1 \<longleftrightarrow> unat start \<le> unat high + 1" for start high :: u64
  using unat_le_max [of start] by (auto simp: u_simps)

lemma absorb_sound:
  assumes "smap_ok es" and "\<forall>x\<in>set es. s < fst x" and "s \<le> e"
  shows "case absorb_successors es e rem of Inl _ \<Rightarrow> False | Inr None \<Rightarrow> True
    | Inr (Some (e', rem')) \<Rightarrow> \<exists>as bs. es = as @ bs \<and> rem' = rem @ map fst as \<and>
        (\<forall>x\<in>set bs. unat e' + 1 < unat (fst x)) \<and> s \<le> e' \<and> {s..e'} = {s..e} \<union> covered as"
  using assms
proof (induction es e rem rule: absorb_successors.induct)
  case (1 hi remove)
  then show ?case by simp
next
  case (2 low high es hi remove)
  have le: "\<not> low > high" and ok: "smap_ok es" using 2(2) by (auto simp: smap_ok_Cons)
  show ?case
  proof (cases "low > sat_add hi 1")
    case True
    then have "unat hi + 1 < unat low" by (simp only: above_succ)
    moreover have "unat low \<le> unat (fst x)" if "x \<in> set es" for x
      using 2(2) that le by (fastforce simp: smap_ok_Cons word_le_nat_alt)
    ultimately have "\<forall>x\<in>set ((low, high) # es). unat hi + 1 < unat (fst x)" by fastforce
    then show ?thesis using True le 2(4)
      by (simp add: exI [of _ "[]"])
  next
    case False
    then have low: "unat low \<le> unat hi + 1" by (simp only: above_succ)
    show ?thesis
    proof (cases "length remove = 2")
      case True
      then show ?thesis using False le by simp
    next
      case rem: False
      have s: "s < low" "s \<le> max hi high" using 2(3,4) by (auto simp: max_def)
      have j: "{s..max hi high} = {s..hi} \<union> {low..high}"
        using 2(4) s le low by (intro interval_join) simp_all
      have IH: "case absorb_successors es (max hi high) (remove @ [low]) of Inl _ \<Rightarrow> False | Inr None \<Rightarrow> True
        | Inr (Some (e', rem')) \<Rightarrow> \<exists>as bs. es = as @ bs \<and> rem' = (remove @ [low]) @ map fst as \<and>
            (\<forall>x\<in>set bs. unat e' + 1 < unat (fst x)) \<and> s \<le> e' \<and>
            {s..e'} = {s..max hi high} \<union> covered as"
        using 2(1) [OF le False rem ok] 2(3) s by simp
      have step: "absorb_successors ((low, high) # es) hi remove
          = absorb_successors es (max hi high) (remove @ [low])" using le False rem by simp
      show ?thesis
      proof (cases "absorb_successors es (max hi high) (remove @ [low])")
        case (Inl a)
        then show ?thesis using IH by simp
      next
        case (Inr o1)
        show ?thesis
        proof (cases o1)
          case None
          then show ?thesis using step Inr by simp
        next
          case (Some p)
          obtain e' rem' where p: "p = (e', rem')" by (cases p)
          obtain as bs where as: "es = as @ bs" "rem' = (remove @ [low]) @ map fst as"
            "\<forall>x\<in>set bs. unat e' + 1 < unat (fst x)" "s \<le> e'" "{s..e'} = {s..max hi high} \<union> covered as"
            using IH Inr Some p by auto
          then have "(low, high) # es = ((low, high) # as) @ bs" "rem' = remove @ map fst ((low, high) # as)"
            "{s..e'} = {s..hi} \<union> covered ((low, high) # as)" using j by (auto simp: covered_def)
          then have "\<exists>as bs. (low, high) # es = as @ bs \<and> rem' = remove @ map fst as \<and>
              (\<forall>x\<in>set bs. unat e' + 1 < unat (fst x)) \<and> s \<le> e' \<and> {s..e'} = {s..hi} \<union> covered as"
            using as(3,4) by (intro exI conjI)
          then show ?thesis unfolding step using Inr Some p by simp
        qed
      qed
    qed
  qed
qed

lemma in_after: "x \<in> set (filter (\<lambda>e. k < fst e) m) \<longleftrightarrow> x \<in> set m \<and> k < fst x"
  by simp

text \<open>The merge step, from a start \<open>s\<close> that is the key of an entry in \<open>remove\<close> or lies apart
  from every entry below it.\<close>

lemma insert_merged_sound:
  assumes ok: "smap_ok m" and se: "s \<le> e"
    and rem: "length rem \<le> 1" "\<forall>x\<in>set m. fst x \<in> set rem \<longrightarrow> {fst x..snd x} \<subseteq> {s..e} \<and> fst x = s"
    and below: "\<forall>x\<in>set m. fst x \<notin> set rem \<longrightarrow> fst x \<le> s \<longrightarrow> unat (snd x) + 1 < unat s"
  shows "\<exists>m'. insert_merged m s e rem = Inr m' \<and> smap_ok m' \<and>
    (m' = m \<or> covered m' = covered m \<union> {s..e})"
proof -
  let ?suc = "filter (\<lambda>x. s < fst x) m"
  have suc: "smap_ok ?suc" "\<forall>x\<in>set ?suc. s < fst x" using smap_ok_filter [OF ok] by auto
  have take: "absorb_successors (smap_after 3 s m) e rem = absorb_successors ?suc e rem"
    using rem(1) by (simp add: smap_after_def absorb_take)
  note snd = absorb_sound [OF suc se, of rem]
  show ?thesis
  proof (cases "absorb_successors ?suc e rem")
    case (Inl a)
    then show ?thesis using snd by simp
  next
    case (Inr o1)
    show ?thesis
    proof (cases o1)
      case None
      then show ?thesis using Inr ok take by (simp add: insert_merged_def)
    next
      case (Some p)
      obtain e' rem' where p: "p = (e', rem')" by (cases p)
      obtain as bs where as: "?suc = as @ bs" "rem' = rem @ map fst as"
        "\<forall>x\<in>set bs. unat e' + 1 < unat (fst x)" "s \<le> e'" "{s..e'} = {s..e} \<union> covered as"
        using snd Inr Some p by auto
      define m' where "m' = smap_insert s e' (smap_remove rem' m)"
      have res: "insert_merged m s e rem = Inr m'"
        using Inr Some p take by (simp add: insert_merged_def m'_def)
      have kept: "x \<in> set (smap_remove rem' m) \<longleftrightarrow> x \<in> set m \<and> fst x \<notin> set rem \<and> x \<notin> set as" for x
      proof -
        have "fst x \<in> fst ` set as \<longleftrightarrow> x \<in> set as" if "x \<in> set m"
        proof -
          have "set as \<subseteq> set m" using as(1) by (metis filter_is_subset le_sup_iff set_append)
          then show ?thesis using smap_ok_key [OF ok] that by blast
        qed
        then show ?thesis by (auto simp: smap_remove_def as(2))
      qed
      have upper: "unat e' + 1 < unat (fst x)" if "x \<in> set (smap_remove rem' m)" "s < fst x" for x
      proof -
        have "x \<in> set ?suc" using that kept by simp
        then have "x \<in> set as \<or> x \<in> set bs" using as(1) by simp
        then show ?thesis using as(3) that kept by blast
      qed
      have lower: "unat (snd x) + 1 < unat s" if "x \<in> set (smap_remove rem' m)" "fst x \<le> s" for x
        using that kept below by blast
      have noeq: "fst x \<noteq> s" if "x \<in> set (smap_remove rem' m)" for x
      proof
        assume "fst x = s"
        moreover from this have "unat (snd x) + 1 < unat s" using lower that by simp
        moreover have "fst x \<le> snd x" using that kept ok by (auto simp: smap_ok_def)
        ultimately show False by (simp add: word_le_nat_alt)
      qed
      then have split: "fst x < s \<or> s < fst x" if "x \<in> set (smap_remove rem' m)" for x
        using that by (meson neq_iff)
      have ok': "smap_ok (smap_remove rem' m)" using ok by (simp add: smap_remove_def smap_ok_filter)
      have set': "set m' = insert (s, e') (set (smap_remove rem' m))"
        using split by (fastforce simp: m'_def smap_insert_def)
      have "smap_ok m'"
        unfolding m'_def smap_insert_def smap_ok_append smap_ok_Cons
      proof (intro conjI ballI)
        fix x y
        assume x: "x \<in> set (filter (\<lambda>x. fst x < s) (smap_remove rem' m))"
        assume y: "y \<in> set ((s, e') # filter (\<lambda>x. s < fst x) (smap_remove rem' m))"
        have "unat (snd x) + 1 < unat s" using x lower [of x] by auto
        moreover have "s \<le> fst y" using y by auto
        ultimately show "unat (snd x) + 1 < unat (fst y)" by (simp add: word_le_nat_alt)
      qed (use ok' as(4) upper in \<open>auto intro: smap_ok_filter\<close>)
      moreover have "covered m' = covered m \<union> {s..e}"
      proof -
        have "covered m' = {s..e'} \<union> covered (smap_remove rem' m)" by (simp add: covered_def set')
        also have "\<dots> = {s..e} \<union> (covered as \<union> covered (smap_remove rem' m))" using as(5) by blast
        also have "\<dots> = {s..e} \<union> covered m"
        proof -
          have "set as \<subseteq> set m" using as(1) by (metis filter_is_subset le_sup_iff set_append)
          then show ?thesis using kept rem(2) unfolding covered_def by blast
        qed
        finally show ?thesis by blast
      qed
      ultimately show ?thesis using res by blast
    qed
  qed
qed

lemma insert_sound:
  assumes ok: "smap_ok m" and r: "sr_start_tx_id r \<le> sr_end_tx_id r"
  shows "\<exists>m'. insert_skip_range r m = Inr m' \<and> smap_ok m' \<and>
    (m' = m \<or> covered m' = covered m \<union> range_ids r)"
proof (cases "smap_last_upto (sr_start_tx_id r) m")
  case None
  then have "insert_skip_range r m = insert_merged m (sr_start_tx_id r) (sr_end_tx_id r) []"
    using r by (auto simp: insert_skip_range_def Let_def dest: leD)
  moreover have "\<forall>x\<in>set m. fst x \<notin> set [] \<longrightarrow> fst x \<le> sr_start_tx_id r \<longrightarrow>
      unat (snd x) + 1 < unat (sr_start_tx_id r)"
    using None by (auto simp: last_upto_None dest: leD)
  ultimately show ?thesis
    using insert_merged_sound [OF ok r, of "[]"] by (simp add: range_ids_def)
next
  case (Some x)
  note x = last_upto_Some [OF ok Some]
  obtain low high where lh: "x = (low, high)" by (cases x)
  have le: "low \<le> high" using x ok lh by (auto simp: smap_ok_def)
  have apart: "unat (snd y) + 1 < unat low" if "y \<in> set m" "fst y \<le> sr_start_tx_id r" "y \<noteq> x" for y
    using that x smap_ok_apart [OF ok, of y x] lh by auto
  show ?thesis
  proof (cases "high \<ge> sr_end_tx_id r")
    case True
    then show ?thesis using Some lh le r ok by (auto simp: insert_skip_range_def Let_def)
  next
    case high: False
    show ?thesis
    proof (cases "sat_add high 1 \<ge> sr_start_tx_id r")
      case True
      have "insert_skip_range r m = insert_merged m low (max (sr_end_tx_id r) high) [low]"
        using Some lh le r high True by (auto simp: insert_skip_range_def Let_def dest: leD)
      moreover have "max (sr_end_tx_id r) high = sr_end_tx_id r" using high by (simp add: max_def)
      moreover have "\<exists>m'. insert_merged m low (sr_end_tx_id r) [low] = Inr m' \<and> smap_ok m' \<and>
          (m' = m \<or> covered m' = covered m \<union> {low..sr_end_tx_id r})"
      proof (rule insert_merged_sound [OF ok])
        show "low \<le> sr_end_tx_id r" using le high by simp
        have "y = x" if "y \<in> set m" "fst y = low" for y
          using smap_ok_key [OF ok, of y x] that x lh by simp
        then show "\<forall>y\<in>set m. fst y \<in> set [low] \<longrightarrow> {fst y..snd y} \<subseteq> {low..sr_end_tx_id r} \<and> fst y = low"
          using lh high by auto
        show "\<forall>y\<in>set m. fst y \<notin> set [low] \<longrightarrow> fst y \<le> low \<longrightarrow> unat (snd y) + 1 < unat low"
          using apart x lh by auto
      qed simp
      moreover have "covered m \<union> {low..sr_end_tx_id r} = covered m \<union> range_ids r"
      proof -
        have "{low..high} \<subseteq> covered m" using x lh by (auto simp: covered_def)
        moreover have "{low..sr_end_tx_id r} = {low..high} \<union> range_ids r"
          using True [unfolded succ_le] high x lh le by (auto simp: range_ids_def word_le_nat_alt)
        ultimately show ?thesis by blast
      qed
      ultimately show ?thesis by auto
    next
      case False
      then have "insert_skip_range r m = insert_merged m (sr_start_tx_id r) (sr_end_tx_id r) []"
        using Some lh le r high by (auto simp: insert_skip_range_def Let_def dest: leD)
      moreover have "\<exists>m'. insert_merged m (sr_start_tx_id r) (sr_end_tx_id r) [] = Inr m' \<and> smap_ok m' \<and>
          (m' = m \<or> covered m' = covered m \<union> {sr_start_tx_id r..sr_end_tx_id r})"
      proof (rule insert_merged_sound [OF ok r])
        have "unat (snd y) + 1 < unat (sr_start_tx_id r)" if "y \<in> set m" "fst y \<le> sr_start_tx_id r" for y
        proof (cases "y = x")
          case True
          then show ?thesis using False lh by (simp add: succ_le)
        next
          case no: False
          then show ?thesis using apart [OF that no] x lh by (simp add: word_le_nat_alt)
        qed
        then show "\<forall>y\<in>set m. fst y \<notin> set [] \<longrightarrow> fst y \<le> sr_start_tx_id r \<longrightarrow>
            unat (snd y) + 1 < unat (sr_start_tx_id r)" by blast
      qed simp_all
      ultimately show ?thesis by (simp add: range_ids_def)
    qed
  qed
qed

section \<open>The contract of the cache\<close>

locale range_store =
  fixes lookup :: "'m \<Rightarrow> u64 \<Rightarrow> 'e + skip_range option"
    and ins :: "skip_range \<Rightarrow> 'm \<Rightarrow> 'e + 'm"
    and ok :: "'m \<Rightarrow> bool"
    and cov :: "'m \<Rightarrow> u64 set"
  assumes lookup_law: "ok m \<Longrightarrow> \<exists>x. lookup m k = Inr x \<and>
      (case x of None \<Rightarrow> k \<notin> cov m | Some r \<Rightarrow> k \<in> range_ids r \<and> range_ids r \<subseteq> cov m)"
    and ins_law: "ok m \<Longrightarrow> sr_start_tx_id r \<le> sr_end_tx_id r \<Longrightarrow>
      \<exists>m'. ins r m = Inr m' \<and> ok m' \<and> (m' = m \<or> cov m' = cov m \<union> range_ids r)"
    and ins_invalid: "sr_end_tx_id r < sr_start_tx_id r \<Longrightarrow> \<exists>e. ins r m = Inl e"
begin

text \<open>A cache all of whose ids satisfy \<open>P\<close> keeps doing so when only proven spans are inserted,
  and never forgets an id.\<close>

lemma ins_evidence:
  assumes "ok m" and "cov m \<subseteq> P" and "range_ids r \<subseteq> P" and "ins r m = Inr m'"
  shows "ok m' \<and> cov m \<subseteq> cov m' \<and> cov m' \<subseteq> P"
proof (cases "sr_start_tx_id r \<le> sr_end_tx_id r")
  case True
  then show ?thesis using ins_law [OF assms(1), of r] assms by auto
next
  case False
  then have "sr_end_tx_id r < sr_start_tx_id r" by (simp add: not_le)
  then show ?thesis using ins_invalid [of r m] assms(4) by auto
qed

text \<open>Everything from a cached id down to the low end of its range satisfies \<open>P\<close>.\<close>

lemma jump_sound:
  assumes "ok m" and "cov m \<subseteq> P" and "lookup m k = Inr (Some r)"
  shows "sr_start_tx_id r \<le> k \<and> {sr_start_tx_id r..k} \<subseteq> P"
  using lookup_law [OF assms(1), of k] assms(2,3) by (fastforce simp: range_ids_def)

lemma lookup_iff: "ok m \<Longrightarrow> (\<exists>r. lookup m k = Inr (Some r)) \<longleftrightarrow> k \<in> cov m"
  using lookup_law [of m k] by (auto split: option.splits)

lemma lookup_no_error: "ok m \<Longrightarrow> lookup m k \<noteq> Inl e"
  using lookup_law [of m k] by auto

end

lemma insert_invalid: "sr_end_tx_id r < sr_start_tx_id r \<Longrightarrow> insert_skip_range r m = Inl InvalidRange"
  by (simp add: insert_skip_range_def)

interpretation skip_store: range_store skip_range_containing insert_skip_range smap_ok covered
proof unfold_locales
  show "smap_ok m \<Longrightarrow> \<exists>x. skip_range_containing m k = Inr x \<and>
      (case x of None \<Rightarrow> k \<notin> covered m | Some r \<Rightarrow> k \<in> range_ids r \<and> range_ids r \<subseteq> covered m)" for m k
    by (rule lookup_sound)
  show "smap_ok m \<Longrightarrow> sr_start_tx_id r \<le> sr_end_tx_id r \<Longrightarrow> \<exists>m'. insert_skip_range r m = Inr m' \<and>
      smap_ok m' \<and> (m' = m \<or> covered m' = covered m \<union> range_ids r)" for m r
    by (rule insert_sound)
qed (simp add: insert_invalid)

text \<open>Valid spans are all stored without error.\<close>

lemma persist_evidence:
  assumes "smap_ok m" and "covered m \<subseteq> P"
    and "\<forall>r\<in>set rs. sr_start_tx_id r \<le> sr_end_tx_id r \<and> range_ids r \<subseteq> P"
  shows "\<exists>m'. persist_new_skip_ranges rs m = (None, m') \<and> smap_ok m' \<and> covered m \<subseteq> covered m' \<and>
    covered m' \<subseteq> P"
  using assms
proof (induction rs arbitrary: m)
  case (Cons r rs)
  then obtain m1 where m1: "insert_skip_range r m = Inr m1" using skip_store.ins_law [of m r] by auto
  then have "smap_ok m1 \<and> covered m \<subseteq> covered m1 \<and> covered m1 \<subseteq> P"
    using Cons.prems by (intro skip_store.ins_evidence) simp_all
  with Cons.IH [of m1] Cons.prems m1 show ?case by fastforce
qed simp

text \<open>Insertion keeps the map well formed whatever the span, and errors keep the map.\<close>

lemma insert_keeps_ok: "smap_ok m \<Longrightarrow> insert_skip_range r m = Inr m' \<Longrightarrow> smap_ok m'"
  using skip_store.ins_evidence [of m UNIV r m'] by simp

lemma persist_keeps_ok: "smap_ok m \<Longrightarrow> smap_ok (snd (persist_new_skip_ranges rs m))"
  by (induction rs arbitrary: m) (auto split: sum.splits dest: insert_keeps_ok)

section \<open>Properties\<close>



end
