(* ===== verification/FaucetScan.thy ===== *)
theory FaucetScan
  imports FaucetHealth SkipRanges
begin

text \<open>
  The history scan of a payout job (\<open>scheduler/scan.rs\<close> and the denominator pass of
  \<open>scheduler/route_accounting.rs\<close>): which records are eligible commitments, the candidate span of
  ineligible records that is being learned, and the pass over one validated page.
\<close>

section \<open>Spans being learned\<close>

definition min_skip_range_tx_count :: u64 where "min_skip_range_tx_count = 10000"

record skip_candidate =
  sk_start_tx_id :: "u64 option"
  sk_end_tx_id :: "u64 option"
  sk_tx_count :: u64

definition no_candidate :: skip_candidate where
  "no_candidate = \<lparr>sk_start_tx_id = None, sk_end_tx_id = None, sk_tx_count = 0\<rparr>"

definition candidate_from_job :: "payout_job \<Rightarrow> skip_candidate" where
  "candidate_from_job job =
     \<lparr>sk_start_tx_id = pj_skip_candidate_start_tx_id job,
      sk_end_tx_id = pj_skip_candidate_end_tx_id job,
      sk_tx_count = pj_skip_candidate_tx_count job\<rparr>"

definition note_skippable :: "u64 \<Rightarrow> skip_candidate \<Rightarrow> skip_candidate" where
  "note_skippable tx_id c =
     (if sk_tx_count c = 0
      then \<lparr>sk_start_tx_id = Some tx_id, sk_end_tx_id = Some tx_id, sk_tx_count = 1\<rparr>
      else c\<lparr>sk_end_tx_id := Some tx_id, sk_tx_count := sat_add (sk_tx_count c) 1\<rparr>)"

text \<open>The finished span, if it is long enough; the outer \<open>None\<close> is the panic of a missing end.
  The candidate is reset in every case.\<close>

definition finish_span :: "skip_candidate \<Rightarrow> skip_range option option" where
  "finish_span c =
     (if sk_tx_count c \<ge> min_skip_range_tx_count
      then (case (sk_end_tx_id c, sk_start_tx_id c) of
          (Some low, Some high) \<Rightarrow> Some (Some \<lparr>sr_start_tx_id = low, sr_end_tx_id = high\<rparr>)
        | _ \<Rightarrow> None)
      else Some None)"

definition record_completed_skip_range ::
  "skip_candidate \<Rightarrow> skip_range list \<Rightarrow> (skip_candidate \<times> skip_range list) option" where
  "record_completed_skip_range c pending =
     (case finish_span c of
        None \<Rightarrow> None
      | Some None \<Rightarrow> Some (no_candidate, pending)
      | Some (Some r) \<Rightarrow> Some (no_candidate, pending @ [r]))"

definition job_set_candidate :: "skip_candidate \<Rightarrow> payout_job \<Rightarrow> payout_job" where
  "job_set_candidate c job =
     job\<lparr>pj_skip_candidate_start_tx_id := sk_start_tx_id c,
         pj_skip_candidate_end_tx_id := sk_end_tx_id c,
         pj_skip_candidate_tx_count := sk_tx_count c\<rparr>"

section \<open>Eligibility and weight of a record\<close>

text \<open>What the two passes look up: a record is eligible when it is a transfer to the staking account
  whose memo is a valid directive and whose amount reaches the minimum.\<close>

definition eligible_commitment :: "candid_ops \<Rightarrow> bytes \<Rightarrow> u64 \<Rightarrow> index_tx \<Rightarrow> commitment option" where
  "eligible_commitment cx staking_id min_tx_e8s tx =
     (case memo_bytes_from_index_tx tx staking_id of
        None \<Rightarrow> None
      | Some c \<Rightarrow> (case classify_commitment cx min_tx_e8s c of
            ValidCommitment _ \<Rightarrow> Some c | _ \<Rightarrow> None))"

definition beyond_round :: "payout_job \<Rightarrow> u64 \<Rightarrow> bool" where
  "beyond_round job tx_id =
     (case pj_round_end_latest_tx_id job of None \<Rightarrow> False | Some e \<Rightarrow> tx_id > e)"

definition commitment_weight :: "payout_job \<Rightarrow> u64 \<Rightarrow> u64 \<Rightarrow> index_tx \<Rightarrow> commitment \<Rightarrow> u64" where
  "commitment_weight job now_nanos delay tx c =
     unwrap_or (commitment_amount_for_job_payout_e8s job c (ix_id tx) (index_tx_timestamp_nanos tx)
       now_nanos delay) 0"

section \<open>The denominator pass over a page\<close>

datatype denom_outcome =
    DenomPanic
  | DenomSkipFault
  | DenomOverflow
  | DenomPage skip_candidate "skip_range list" u64

record denom_params =
  dp_cx :: candid_ops
  dp_staking_id :: bytes
  dp_min_tx_e8s :: u64
  dp_delay :: u64
  dp_now_nanos :: u64
  dp_job :: payout_job
  dp_skip :: skip_map

fun denom_txs :: "denom_params \<Rightarrow> index_tx list \<Rightarrow> skip_candidate \<Rightarrow> skip_range list \<Rightarrow> u64
    \<Rightarrow> denom_outcome" where
  "denom_txs p [] cand pending delta = DenomPage cand pending delta"
| "denom_txs p (tx # txs) cand pending delta =
     (if beyond_round (dp_job p) (ix_id tx)
      then (case record_completed_skip_range cand pending of
          None \<Rightarrow> DenomPanic
        | Some (cand1, pending1) \<Rightarrow> denom_txs p txs cand1 pending1 delta)
      else case skip_range_containing (dp_skip p) (ix_id tx) of
        Inl _ \<Rightarrow> DenomSkipFault
      | Inr (Some _) \<Rightarrow>
          (case record_completed_skip_range cand pending of
             None \<Rightarrow> DenomPanic
           | Some (cand1, pending1) \<Rightarrow> denom_txs p txs cand1 pending1 delta)
      | Inr None \<Rightarrow>
          (case eligible_commitment (dp_cx p) (dp_staking_id p) (dp_min_tx_e8s p) tx of
             None \<Rightarrow> denom_txs p txs (note_skippable (ix_id tx) cand) pending delta
           | Some c \<Rightarrow>
               (case record_completed_skip_range cand pending of
                  None \<Rightarrow> DenomPanic
                | Some (cand1, pending1) \<Rightarrow>
                    (case checked_add delta (commitment_weight (dp_job p) (dp_now_nanos p) (dp_delay p) tx c) of
                       None \<Rightarrow> DenomOverflow
                     | Some delta1 \<Rightarrow> denom_txs p txs cand1 pending1 delta1))))"

text \<open>After the page: the sum joins the job's denominator, and the end of history finishes the span.\<close>

datatype denom_page_result =
    PagePanic
  | PageSkipFault
  | PageOverflow
  | PageOk u64 skip_candidate "skip_range list"

definition denom_page :: "denom_params \<Rightarrow> bool \<Rightarrow> index_tx list \<Rightarrow> denom_page_result" where
  "denom_page p scan_complete txs =
     (case denom_txs p txs (candidate_from_job (dp_job p)) [] 0 of
        DenomPanic \<Rightarrow> PagePanic
      | DenomSkipFault \<Rightarrow> PageSkipFault
      | DenomOverflow \<Rightarrow> PageOverflow
      | DenomPage cand pending delta \<Rightarrow>
          (case checked_add (unwrap_or (pj_effective_denom_staking_balance_e8s (dp_job p)) 0) delta of
             None \<Rightarrow> PageOverflow
           | Some denominator \<Rightarrow>
               if scan_complete
               then (case record_completed_skip_range cand pending of
                   None \<Rightarrow> PagePanic
                 | Some (cand1, pending1) \<Rightarrow> PageOk denominator cand1 pending1)
               else PageOk denominator cand pending))"

text \<open>The update of the job with the page's result.\<close>

definition job_apply_denom_page ::
  "bool \<Rightarrow> u64 option \<Rightarrow> index_tx list \<Rightarrow> u64 \<Rightarrow> skip_candidate \<Rightarrow> payout_job \<Rightarrow> payout_job" where
  "job_apply_denom_page scan_complete oldest txs denominator cand job =
     (let job1 = (job_set_candidate cand job)\<lparr>
            pj_effective_denom_staking_balance_e8s := Some denominator,
            pj_observed_oldest_tx_id := oldest\<rparr>;
          job2 = (case txs of [] \<Rightarrow> job1
            | tx # _ \<Rightarrow> job1\<lparr>pj_observed_latest_tx_id :=
                Some (max (unwrap_or (pj_observed_latest_tx_id job1) (ix_id tx)) (ix_id tx))\<rparr>)
      in if scan_complete
         then (job_set_candidate no_candidate job2)\<lparr>
                pj_effective_denom_scan_complete := Some True, pj_next_start := None\<rparr>
         else (case last_tx_id txs of None \<Rightarrow> job2 | Some nxt \<Rightarrow> job2\<lparr>pj_next_start := Some nxt\<rparr>))"

section \<open>Cached jumps\<close>

text \<open>The update of \<open>skip_cached_history\<close> once its look-up found \<open>range\<close>: the learned span is
  stored first, and an error there leaves the job as it was.\<close>

datatype jump_outcome = JumpPanic | JumpError | JumpTo payout_job skip_map

definition job_after_jump :: "skip_range \<Rightarrow> bool \<Rightarrow> payout_job \<Rightarrow> payout_job" where
  "job_after_jump r complete job =
     (let job1 = (job_set_candidate no_candidate job)\<lparr>pj_next_start := Some (sr_start_tx_id r)\<rparr>
      in if \<not> complete then job1
         else if effective_denom_scan_complete job1 then job1\<lparr>pj_scan_complete := True\<rparr>
         else job1\<lparr>pj_effective_denom_scan_complete := Some True, pj_next_start := None\<rparr>)"

definition skip_jump :: "skip_range \<Rightarrow> bool \<Rightarrow> payout_job \<Rightarrow> skip_map \<Rightarrow> jump_outcome" where
  "skip_jump r complete job m =
     (if effective_denom_scan_complete job then JumpTo (job_after_jump r complete job) m
      else case finish_span (candidate_from_job job) of
        None \<Rightarrow> JumpPanic
      | Some None \<Rightarrow> JumpTo (job_after_jump r complete job) m
      | Some (Some learned) \<Rightarrow>
          (case insert_skip_range learned m of
             Inl _ \<Rightarrow> JumpError
           | Inr m1 \<Rightarrow> JumpTo (job_after_jump r complete job) m1))"

text \<open>The look-up that precedes it: the next unread id is the one below the cursor.\<close>

definition skip_target :: "payout_job \<Rightarrow> skip_map \<Rightarrow> skip_range_insert_error + (skip_range \<times> bool) option" where
  "skip_target job m =
     (case pj_observed_oldest_tx_id job of
        None \<Rightarrow> Inr None
      | Some oldest \<Rightarrow>
          (case Option.bind (pj_next_start job) (\<lambda>c. checked_sub c 1) of
             None \<Rightarrow> Inr None
           | Some unread \<Rightarrow>
               (case skip_range_containing m unread of
                  Inl e \<Rightarrow> Inl e
                | Inr None \<Rightarrow> Inr None
                | Inr (Some r) \<Rightarrow>
                    if sr_start_tx_id r < oldest then Inl InvalidRange
                    else Inr (Some (r, sr_start_tx_id r = oldest)))))"

section \<open>Barren history\<close>

text \<open>A history gives the record of each id of the account; it is fixed as far as the scan sees it.
  \<open>barren\<close> are the ids without an eligible commitment.  A list of records continues the history
  below a cursor when it leaves out no record between two of its ids.\<close>

definition barren :: "candid_ops \<Rightarrow> bytes \<Rightarrow> u64 \<Rightarrow> (u64 \<Rightarrow> index_tx option) \<Rightarrow> u64 set" where
  "barren cx staking_id min_tx h =
     {k. \<forall>tx. h k = Some tx \<longrightarrow> eligible_commitment cx staking_id min_tx tx = None}"

definition below_cursor :: "u64 option \<Rightarrow> u64 \<Rightarrow> bool" where
  "below_cursor cursor k = (case cursor of None \<Rightarrow> True | Some c \<Rightarrow> k < c)"

fun continues :: "(u64 \<Rightarrow> index_tx option) \<Rightarrow> u64 option \<Rightarrow> index_tx list \<Rightarrow> bool" where
  "continues h cursor [] = True"
| "continues h cursor (tx # txs) =
     (below_cursor cursor (ix_id tx) \<and> h (ix_id tx) = Some tx \<and>
      (\<forall>k. ix_id tx < k \<longrightarrow> below_cursor cursor k \<longrightarrow> h k = None) \<and> continues h (Some (ix_id tx)) txs)"

text \<open>The candidate's span reaches down to the cursor and is barren.\<close>

definition cand_ok :: "u64 set \<Rightarrow> u64 option \<Rightarrow> skip_candidate \<Rightarrow> bool" where
  "cand_ok B cursor c \<longleftrightarrow> sk_tx_count c = 0 \<or>
     (\<exists>low high. sk_end_tx_id c = Some low \<and> sk_start_tx_id c = Some high \<and> low \<le> high \<and>
        cursor = Some low \<and> {low..high} \<subseteq> B)"

definition ranges_ok :: "u64 set \<Rightarrow> skip_range list \<Rightarrow> bool" where
  "ranges_ok B rs \<longleftrightarrow> (\<forall>r\<in>set rs. sr_start_tx_id r \<le> sr_end_tx_id r \<and> range_ids r \<subseteq> B)"

lemma no_candidate_ok [simp]: "cand_ok B cursor no_candidate"
  by (simp add: cand_ok_def no_candidate_def)

lemma finish_span_ok:
  assumes "cand_ok B cursor c"
  shows "\<exists>r. finish_span c = Some r \<and> (\<forall>x. r = Some x \<longrightarrow> sr_start_tx_id x \<le> sr_end_tx_id x \<and> range_ids x \<subseteq> B)"
  using assms by (auto simp: cand_ok_def finish_span_def min_skip_range_tx_count_def range_ids_def)

lemma record_completed_ok:
  assumes "cand_ok B cursor c" and "ranges_ok B pending"
  shows "\<exists>pending1. record_completed_skip_range c pending = Some (no_candidate, pending1) \<and> ranges_ok B pending1"
  using finish_span_ok [OF assms(1)] assms(2)
  by (auto simp: record_completed_skip_range_def ranges_ok_def split: option.splits)

lemma note_skippable_ok:
  assumes "cand_ok B cursor c" and "below_cursor cursor k" and "k \<in> B"
    and "\<forall>j. k < j \<longrightarrow> below_cursor cursor j \<longrightarrow> j \<in> B"
  shows "cand_ok B (Some k) (note_skippable k c)"
proof (cases "sk_tx_count c = 0")
  case True
  then show ?thesis using assms(3) by (simp add: cand_ok_def note_skippable_def)
next
  case False
  then obtain low high where c: "sk_end_tx_id c = Some low" "sk_start_tx_id c = Some high" "low \<le> high"
    "cursor = Some low" "{low..high} \<subseteq> B" using assms(1) by (auto simp: cand_ok_def)
  have "j \<in> B" if "k \<le> j" "j \<le> high" for j
    using assms(3,4) c(4,5) that by (cases "j < low"; cases "j = k") (auto simp: below_cursor_def not_less)
  moreover have "k \<le> high" using assms(2) c(3,4) by (simp add: below_cursor_def)
  ultimately show ?thesis using False c by (auto simp: cand_ok_def note_skippable_def)
qed

definition end_cursor :: "u64 option \<Rightarrow> index_tx list \<Rightarrow> u64 option" where
  "end_cursor cursor txs = (case last_tx_id txs of None \<Rightarrow> cursor | Some k \<Rightarrow> Some k)"

lemma end_cursor_simps [simp]:
  "end_cursor cursor [] = cursor"
  "end_cursor cursor (tx # txs) = end_cursor (Some (ix_id tx)) txs"
  by (simp_all add: end_cursor_def last_tx_id_def)

lemma denom_txs_learn:
  assumes "continues h cursor txs" and "B = barren (dp_cx p) (dp_staking_id p) (dp_min_tx_e8s p) h"
    and "cand_ok B cursor cand" and "ranges_ok B pending"
    and "denom_txs p txs cand pending delta = out"
  shows "out \<noteq> DenomPanic \<and> (\<forall>cand' pending' delta'. out = DenomPage cand' pending' delta' \<longrightarrow>
    cand_ok B (end_cursor cursor txs) cand' \<and> ranges_ok B pending')"
  using assms
proof (induction txs arbitrary: cursor cand pending delta)
  case (Cons tx txs)
  obtain pend1 where rc: "record_completed_skip_range cand pending = Some (no_candidate, pend1)"
    "ranges_ok B pend1" using record_completed_ok [OF Cons.prems(3,4)] by blast
  have rest: "continues h (Some (ix_id tx)) txs" using Cons.prems(1) by simp
  note IH = Cons.IH [OF rest Cons.prems(2)]
  show ?case
  proof (cases "beyond_round (dp_job p) (ix_id tx)")
    case True
    then show ?thesis using IH [OF no_candidate_ok rc(2)] Cons.prems(5) rc(1) by simp
  next
    case in_round: False
    show ?thesis
    proof (cases "skip_range_containing (dp_skip p) (ix_id tx)")
      case (Inl a)
      then show ?thesis using Cons.prems(5) in_round by auto
    next
      case (Inr o1)
      show ?thesis
      proof (cases o1)
        case None
        show ?thesis
        proof (cases "eligible_commitment (dp_cx p) (dp_staking_id p) (dp_min_tx_e8s p) tx")
          case el: None
          have "cand_ok B (Some (ix_id tx)) (note_skippable (ix_id tx) cand)"
            using Cons.prems(1,2,3) el by (intro note_skippable_ok) (auto simp: barren_def)
          then show ?thesis using IH [of "note_skippable (ix_id tx) cand" pending delta]
            Cons.prems(4,5) in_round Inr None el by simp
        next
          case (Some c)
          then show ?thesis using IH [OF no_candidate_ok rc(2)] Cons.prems(5) in_round Inr None rc(1)
            by (auto split: option.splits)
        qed
      next
        case (Some r)
        then show ?thesis using IH [OF no_candidate_ok rc(2)] Cons.prems(5) in_round Inr rc(1) by simp
      qed
    qed
  qed
qed auto

section \<open>The denominator as a sum\<close>

definition tx_weight :: "denom_params \<Rightarrow> index_tx \<Rightarrow> nat" where
  "tx_weight p tx =
     (case eligible_commitment (dp_cx p) (dp_staking_id p) (dp_min_tx_e8s p) tx of
        None \<Rightarrow> 0
      | Some c \<Rightarrow> unat (commitment_weight (dp_job p) (dp_now_nanos p) (dp_delay p) tx c))"

lemma beyond_weight: "beyond_round job (ix_id tx) \<Longrightarrow> commitment_weight job now delay tx c = 0"
  by (auto simp: beyond_round_def commitment_weight_def commitment_amount_for_job_payout_e8s_def
      genesis_round_amount_for_commitment_e8s_def commitment_amount_for_payout_e8s_def unwrap_or_def
      split: option.splits)

lemma denom_txs_sum:
  assumes "smap_ok (dp_skip p)"
    and "\<forall>tx\<in>set txs. ix_id tx \<in> covered (dp_skip p) \<longrightarrow>
      eligible_commitment (dp_cx p) (dp_staking_id p) (dp_min_tx_e8s p) tx = None"
    and "denom_txs p txs cand pending delta = DenomPage cand' pending' delta'"
  shows "unat delta' = unat delta + (\<Sum>tx\<leftarrow>txs. tx_weight p tx)"
  using assms
proof (induction txs arbitrary: cand pending delta)
  case (Cons tx txs)
  note IH = Cons.IH [OF Cons.prems(1)]
  show ?case
  proof (cases "beyond_round (dp_job p) (ix_id tx)")
    case True
    then have "tx_weight p tx = 0" by (simp add: tx_weight_def beyond_weight split: option.split)
    then show ?thesis using True IH Cons.prems(2,3) by (auto split: option.splits)
  next
    case in_round: False
    obtain o1 where o1: "skip_range_containing (dp_skip p) (ix_id tx) = Inr o1"
      "case o1 of None \<Rightarrow> ix_id tx \<notin> covered (dp_skip p) | Some r \<Rightarrow> ix_id tx \<in> covered (dp_skip p)"
      using skip_store.lookup_law [OF Cons.prems(1), of "ix_id tx"] by (fastforce split: option.splits)
    show ?thesis
    proof (cases o1)
      case (Some r)
      then have "tx_weight p tx = 0" using o1 Cons.prems(2) by (simp add: tx_weight_def)
      then show ?thesis using in_round o1 Some IH Cons.prems(2,3) by (auto split: option.splits)
    next
      case None
      then show ?thesis using in_round o1 IH Cons.prems(2,3)
        by (auto simp: tx_weight_def checked_iff split: option.splits)
    qed
  qed
qed simp

lemma continues_set: "continues h cursor txs \<Longrightarrow> tx \<in> set txs \<Longrightarrow> h (ix_id tx) = Some tx"
  by (induction txs arbitrary: cursor) auto

lemma covered_ineligible:
  "continues h cursor txs \<Longrightarrow> covered m \<subseteq> barren cx sid mn h \<Longrightarrow> tx \<in> set txs \<Longrightarrow>
   ix_id tx \<in> covered m \<Longrightarrow> eligible_commitment cx sid mn tx = None"
  using continues_set [of h cursor txs tx] by (auto simp: barren_def)

section \<open>Properties\<close>

text \<open>C10: the denominator pass over a page is exact and the cache does not change it: when the cache
  covers only ids without an eligible commitment and the page continues the history below the cursor,
  the pass adds exactly the sum of the round weights of the eligible commitments of the page, and the
  sum does not wrap.\<close>

theorem denominator_page_exact:
  assumes "smap_ok (dp_skip p)"
    and "covered (dp_skip p) \<subseteq> barren (dp_cx p) (dp_staking_id p) (dp_min_tx_e8s p) h"
    and "continues h cursor txs"
    and "denom_page p scan_complete txs = PageOk denominator cand learned"
  shows "unat denominator = unat (unwrap_or (pj_effective_denom_staking_balance_e8s (dp_job p)) 0)
    + (\<Sum>tx\<leftarrow>txs. tx_weight p tx)"
proof -
  obtain cand' pending' delta where d: "denom_txs p txs (candidate_from_job (dp_job p)) [] 0
      = DenomPage cand' pending' delta"
    and sum: "checked_add (unwrap_or (pj_effective_denom_staking_balance_e8s (dp_job p)) 0) delta
      = Some denominator"
    using assms(4) by (auto simp: denom_page_def split: denom_outcome.splits option.splits if_splits)
  have "unat delta = unat (0 :: u64) + (\<Sum>tx\<leftarrow>txs. tx_weight p tx)"
    using assms(1) covered_ineligible [OF assms(3,2)] d by (intro denom_txs_sum) blast+
  then show ?thesis using sum by (simp add: checked_iff)
qed

text \<open>C11: the cache learns only barren history: a pass over a page that continues the history, from a
  candidate span that is barren down to the cursor, does not panic; every span it finishes and stores
  keeps the cache well formed and covering only ids without an eligible commitment; and the candidate
  it leaves is again barren down to the end of the page (or was finished there).\<close>

theorem skip_cache_learns_barren_history:
  assumes "smap_ok (dp_skip p)"
    and "covered (dp_skip p) \<subseteq> barren (dp_cx p) (dp_staking_id p) (dp_min_tx_e8s p) h"
    and "continues h cursor txs"
    and "cand_ok (barren (dp_cx p) (dp_staking_id p) (dp_min_tx_e8s p) h) cursor (candidate_from_job (dp_job p))"
  shows "denom_page p scan_complete txs \<noteq> PagePanic \<and>
    (\<forall>denominator cand learned. denom_page p scan_complete txs = PageOk denominator cand learned \<longrightarrow>
      cand_ok (barren (dp_cx p) (dp_staking_id p) (dp_min_tx_e8s p) h) (end_cursor cursor txs) cand \<and>
      (\<exists>m. persist_new_skip_ranges learned (dp_skip p) = (None, m) \<and> smap_ok m \<and>
        covered m \<subseteq> barren (dp_cx p) (dp_staking_id p) (dp_min_tx_e8s p) h))"
proof -
  let ?B = "barren (dp_cx p) (dp_staking_id p) (dp_min_tx_e8s p) h"
  have learn: "denom_txs p txs (candidate_from_job (dp_job p)) [] 0 \<noteq> DenomPanic"
    "\<And>cand' pending' delta'. denom_txs p txs (candidate_from_job (dp_job p)) [] 0 = DenomPage cand' pending' delta'
      \<Longrightarrow> cand_ok ?B (end_cursor cursor txs) cand' \<and> ranges_ok ?B pending'"
    using denom_txs_learn [OF assms(3) refl assms(4), of "[]" 0] by (auto simp: ranges_ok_def)
  have store: "\<exists>m. persist_new_skip_ranges learned (dp_skip p) = (None, m) \<and> smap_ok m \<and> covered m \<subseteq> ?B"
    if "ranges_ok ?B learned" for learned
    using persist_evidence [OF assms(1,2)] that unfolding ranges_ok_def by blast
  have fin: "\<exists>pending1. record_completed_skip_range cand' pending' = Some (no_candidate, pending1) \<and>
      ranges_ok ?B pending1"
    if "denom_txs p txs (candidate_from_job (dp_job p)) [] 0 = DenomPage cand' pending' delta'"
    for cand' pending' delta'
    using learn(2) [OF that] by (blast intro: record_completed_ok)
  show ?thesis
  proof (cases "denom_txs p txs (candidate_from_job (dp_job p)) [] 0")
    case (DenomPage cand' pending' delta')
    obtain pending1 where p1: "record_completed_skip_range cand' pending' = Some (no_candidate, pending1)"
      "ranges_ok ?B pending1" using fin [OF DenomPage] by blast
    show ?thesis using DenomPage learn(2) [OF DenomPage] p1 store
      by (auto simp: denom_page_def split: option.splits)
  qed (use learn(1) in \<open>simp_all add: denom_page_def\<close>)
qed

text \<open>a cached jump crosses only barren history: when the cache covers only ids without an eligible
  commitment, the scan moves its cursor strictly down to an id not below the oldest record, every id it
  passes over is barren, and it finishes the pass exactly when it reached the oldest record; a barren
  candidate span is stored on the way, so that the cache keeps covering only barren ids.\<close>

theorem cached_jump_crosses_barren_history:
  assumes "smap_ok m" and "covered m \<subseteq> B" and "pj_next_start job = Some c"
    and "cand_ok B (Some c) (candidate_from_job job)"
    and "skip_target job m = Inr (Some (r, complete))"
  shows "sr_start_tx_id r < c \<and> {sr_start_tx_id r..<c} \<subseteq> B \<and>
    (\<exists>oldest. pj_observed_oldest_tx_id job = Some oldest \<and> oldest \<le> sr_start_tx_id r \<and>
       (complete \<longleftrightarrow> oldest = sr_start_tx_id r)) \<and>
    (\<exists>m'. skip_jump r complete job m = JumpTo (job_after_jump r complete job) m' \<and> smap_ok m' \<and>
       covered m' \<subseteq> B)"
proof -
  obtain oldest unread where o1: "pj_observed_oldest_tx_id job = Some oldest"
    and u: "checked_sub c 1 = Some unread" "skip_range_containing m unread = Inr (Some r)"
    and low: "\<not> sr_start_tx_id r < oldest" and compl: "complete = (sr_start_tx_id r = oldest)"
    using assms(3,5) by (auto simp: skip_target_def split: option.splits sum.splits if_splits)
  have unread: "unat c = unat unread + 1" using u(1) by (simp add: checked_iff)
  have jump: "sr_start_tx_id r \<le> unread" "{sr_start_tx_id r..unread} \<subseteq> B"
    using skip_store.jump_sound [OF assms(1,2) u(2)] by simp_all
  have "sr_start_tx_id r < c" using jump(1) unread by (simp add: word_less_nat_alt word_le_nat_alt)
  moreover have "{sr_start_tx_id r..<c} \<subseteq> {sr_start_tx_id r..unread}"
    using unread by (auto simp: word_less_nat_alt word_le_nat_alt)
  moreover have "\<exists>m'. skip_jump r complete job m = JumpTo (job_after_jump r complete job) m' \<and> smap_ok m' \<and>
       covered m' \<subseteq> B"
  proof (cases "effective_denom_scan_complete job")
    case True
    then show ?thesis using assms(1,2) by (simp add: skip_jump_def)
  next
    case False
    obtain x where x: "finish_span (candidate_from_job job) = Some x"
      "\<forall>y. x = Some y \<longrightarrow> sr_start_tx_id y \<le> sr_end_tx_id y \<and> range_ids y \<subseteq> B"
      using finish_span_ok [OF assms(4)] by blast
    show ?thesis
    proof (cases x)
      case None
      then show ?thesis using False x assms(1,2) by (simp add: skip_jump_def)
    next
      case (Some y)
      obtain m' where m': "insert_skip_range y m = Inr m'"
        using skip_store.ins_law [OF assms(1), of y] x(2) Some by auto
      then have "smap_ok m' \<and> covered m \<subseteq> covered m' \<and> covered m' \<subseteq> B"
        using assms(1,2) x(2) Some by (intro skip_store.ins_evidence) simp_all
      then show ?thesis using False x Some m' by (simp add: skip_jump_def)
    qed
  qed
  ultimately show ?thesis using o1 low compl jump(2) by auto
qed

section \<open>Worked examples\<close>

definition sample_tx :: "u64 \<Rightarrow> bytes \<Rightarrow> u64 \<Rightarrow> index_tx" where
  "sample_tx k memo amount = \<lparr>ix_id = k, ix_icrc1_memo = Some memo,
     ix_operation = OpTransfer [77] [66] amount, ix_created_at_time = None, ix_timestamp = Some 5\<rparr>"

definition sample_history :: "u64 \<Rightarrow> index_tx option" where
  "sample_history k = (if k = 20 then Some (sample_tx 20 [200] 200000000)
     else if k = 12 then Some (sample_tx 12 [52, 50] 300000000) else None)"

definition sample_scan_job :: payout_job where
  "sample_scan_job = configure_round_accounting None None 1000000000000000 (Some 100) 0 False
     (payout_job_new 1 10000 1000000000 500000000 7)"

definition sample_params :: denom_params where
  "sample_params = \<lparr>dp_cx = example_candid, dp_staking_id = [77], dp_min_tx_e8s = 100000000,
     dp_delay = 60, dp_now_nanos = 1000000000000000, dp_job = sample_scan_job, dp_skip = [(15, 18)]\<rparr>"

lemma sample_continues: "continues sample_history (Some 21) [sample_tx 20 [200] 200000000, sample_tx 12 [52, 50] 300000000]"
  by (auto simp: sample_history_def below_cursor_def sample_tx_def)

lemmas memo_eval = eligible_commitment_def sample_tx_def memo_bytes_from_index_tx_def
  classify_commitment_def parse_payout_target_from_memo_def parse_memo_directive_def
  parse_neuron_id_text_def trim_def char_whitespace_def ascii_digit_def parse_u64_def digits_value_def
  max_target_canister_memo_bytes_def max_neuron_id_memo_bytes_def is_ascii_def

lemmas scan_eval = sample_params_def sample_scan_job_def configure_round_accounting_def payout_job_new_def
  denom_page_def candidate_from_job_def beyond_round_def skip_range_containing_def smap_last_upto_def
  note_skippable_def record_completed_skip_range_def finish_span_def min_skip_range_tx_count_def
  no_candidate_def unwrap_or_def commitment_weight_def commitment_amount_for_job_payout_e8s_def
  genesis_round_amount_for_commitment_e8s_def conservative_effective_timestamp_nanos_def
  index_tx_timestamp_nanos_def sat_mul_def sat_add_def checked_add_def

lemma sample_eligible:
  "eligible_commitment example_candid [77] 100000000 (sample_tx 12 [52, 50] 300000000)
     = Some \<lparr>cm_amount_e8s = 300000000, cm_memo_bytes = Some [52, 50]\<rparr>"
  "eligible_commitment example_candid [77] 100000000 (sample_tx 20 [200] 200000000) = None"
  by (simp_all add: memo_eval)

lemma sample_tx_fields [simp]: "ix_id (sample_tx k m a) = k" "ix_timestamp (sample_tx k m a) = Some 5"
  by (simp_all add: sample_tx_def)

lemma sample_page:
  "denom_page sample_params False [sample_tx 20 [200] 200000000, sample_tx 12 [52, 50] 300000000]
     = PageOk 300000000 no_candidate []"
  by (simp add: scan_eval sample_eligible) (simp add: word_le_nat_alt)

lemma sample_cache:
  "smap_ok (dp_skip sample_params)"
  "covered (dp_skip sample_params) \<subseteq> barren (dp_cx sample_params) (dp_staking_id sample_params)
     (dp_min_tx_e8s sample_params) sample_history"
  by (auto simp: sample_params_def smap_ok_def covered_def barren_def sample_history_def word_le_nat_alt
      split: if_splits)

theorem denominator_page_exact_witness:
  "unat (300000000 :: u64) = unat (unwrap_or (pj_effective_denom_staking_balance_e8s (dp_job sample_params)) 0)
    + (\<Sum>tx\<leftarrow>[sample_tx 20 [200] 200000000, sample_tx 12 [52, 50] 300000000]. tx_weight sample_params tx)"
  by (rule denominator_page_exact [OF sample_cache sample_continues sample_page])

theorem skip_cache_learns_barren_history_witness:
  "denom_page sample_params True [sample_tx 20 [200] 200000000, sample_tx 12 [52, 50] 300000000] \<noteq> PagePanic"
proof -
  have "cand_ok B (Some 21) (candidate_from_job (dp_job sample_params))" for B
    by (simp add: cand_ok_def scan_eval)
  from skip_cache_learns_barren_history [OF sample_cache sample_continues this, of True]
  show ?thesis by (rule conjunct1)
qed

theorem cached_jump_crosses_barren_history_witness:
  "{15..<19} \<subseteq> ({13..19} :: u64 set)"
proof -
  let ?job = "sample_scan_job\<lparr>pj_next_start := Some 19, pj_observed_oldest_tx_id := Some 12\<rparr>"
  let ?r = "\<lparr>sr_start_tx_id = 15, sr_end_tx_id = 18\<rparr>"
  have "skip_target ?job [(15, 18)] = Inr (Some (?r, False))"
    by (simp add: skip_target_def scan_eval checked_sub_def)
  moreover have "smap_ok [(15, 18)]" "covered [(15, 18)] \<subseteq> ({13..19} :: u64 set)"
    by (auto simp: smap_ok_def covered_def word_le_nat_alt)
  moreover have "cand_ok {13..19} (Some 19) (candidate_from_job ?job)"
    by (simp add: cand_ok_def scan_eval)
  ultimately have "{sr_start_tx_id ?r..<19} \<subseteq> ({13..19} :: u64 set)"
    using cached_jump_crosses_barren_history [of "[(15, 18)]" "{13..19}" ?job 19 ?r False] by simp
  then show ?thesis by simp
qed

end
