(* ===== verification/FaucetTransfer.thy ===== *)
theory FaucetTransfer
  imports Async Lease PokeGate FaucetScan
begin

text \<open>
  The Faucet's world and the life of one outgoing transfer (\<open>scheduler/cmc_notify.rs\<close>,
  \<open>scheduler/cmc_notify_transfer.rs\<close>): staging with its dispatch record, the attempt with one
  retry, the Cycles Minting Canister notification and the fall-backs to a raw transfer.  Builds
  with \<open>debug_api\<close> are not modelled.  A persistence batch is closed before the next \<open>await\<close>, so
  every change of the state is written to the stable cell at once.
\<close>

section \<open>World, requests, responses\<close>

text \<open>What the program text leaves to others: candid's principals, the text of an account identifier
  (SHA-224 and CRC-32) and the Relay principal that the build embeds.\<close>

record fenv =
  fe_cx :: candid_ops
  fe_account_id :: "account \<Rightarrow> bytes"
  fe_relay :: principal

datatype ftimer =
    FMainInterval u64
  | FRescueInterval u64
  | FReconcileTimer
  | FMainRetry u64 u64
  | FPokeDeferred u64
  | FPokeWorker

record fworld =
  fw_self :: principal
  fw_now :: u64
  fw_state :: fstate
  fw_stable :: "fstate option"
  fw_skip :: skip_map
  fw_dispatch :: "dispatch_record option"
  fw_clocks :: fclocks
  fw_run_marker :: u64
  fw_retry_pending :: "u64 option"
  fw_poke :: poke_runtime
  fw_timers :: "ftimer list"
  fw_errors :: "nat list"

datatype f_req =
    FReqFee principal
  | FReqBalanceOf principal account
  | FReqTransfer principal transfer_arg
  | FReqIndex principal bytes "u64 option" u64
  | FReqNotify principal principal u64
  | FReqListNeurons principal u64
  | FReqClaimOrRefresh principal u64
  | FReqCanisterInfo principal
  | FReqUpdateSettings update_settings_args
  | FModelBound

text \<open>\<open>FModelBound\<close> is no call: it marks the point where a loop of the payout run has used up the
  bound of the model, so that a property of the requests can state that this never happens.\<close>

text \<open>A neuron of a \<open>list_neurons\<close> response is its id and its account bytes; a failed
  \<open>canister_info\<close> call is its reject code, or none when it was not a reject.\<close>

datatype f_resp =
    FRespNat "string + nat"
  | FRespTransfer "string + (transfer_error + nat)"
  | FRespIndex "client_error + index_page"
  | FRespNotify "string + (notify_error + nat)"
  | FRespNeurons "string + (u64 option \<times> bytes) list"
  | FRespUnit "client_error + unit"
  | FRespInfo "nat option + unit"
  | FRespSettings "string + unit"

type_synonym 'a fproc = "(fworld, f_req, f_resp, 'a) proc"

definition fclient_u64 :: "f_resp \<Rightarrow> client_error + u64" where
  "fclient_u64 r = (case r of FRespNat (Inl e) \<Rightarrow> Inl (CallError e) | FRespNat (Inr n) \<Rightarrow> nat_to_u64 n
     | _ \<Rightarrow> Inl (CallError ''decode failed''))"

definition fclient_transfer :: "f_resp \<Rightarrow> client_error + (transfer_error + nat)" where
  "fclient_transfer r = (case r of FRespTransfer (Inl e) \<Rightarrow> Inl (CallError e)
     | FRespTransfer (Inr res) \<Rightarrow> Inr res | _ \<Rightarrow> Inl (CallError ''decode icrc1_transfer failed''))"

definition fclient_index :: "f_resp \<Rightarrow> client_error + index_page" where
  "fclient_index r = (case r of FRespIndex x \<Rightarrow> x | _ \<Rightarrow> Inl (CallError ''decode failed''))"

definition fclient_notify :: "f_resp \<Rightarrow> notify_top_up_error + u128" where
  "fclient_notify r = (case r of FRespNotify (Inl e) \<Rightarrow> Inl (NotifyTransport e)
     | FRespNotify (Inr res) \<Rightarrow> classify_notify_top_up_result res
     | _ \<Rightarrow> Inl (NotifyDecode ''decode failed''))"

definition fclient_subaccount :: "u64 \<Rightarrow> f_resp \<Rightarrow> client_error + subaccount" where
  "fclient_subaccount neuron_id r =
     (case r of FRespNeurons (Inl e) \<Rightarrow> Inl (CallError e)
      | FRespNeurons (Inr ns) \<Rightarrow> staking_subaccount_from_list_neurons_response neuron_id ns
      | _ \<Rightarrow> Inl (CallError ''decode list_neurons failed''))"

text \<open>\<open>ManagementCanisterInfoClient::canister_exists\<close>; 3 is \<open>RejectCode::DestinationInvalid\<close>.\<close>

definition definitely_not_a_canister :: "nat option \<Rightarrow> bool" where
  "definitely_not_a_canister reject = (reject = Some 3)"

definition canister_exists :: "f_resp \<Rightarrow> client_error + bool" where
  "canister_exists r =
     (case r of FRespInfo (Inr _) \<Rightarrow> Inr True
      | FRespInfo (Inl reject) \<Rightarrow>
          if definitely_not_a_canister reject then Inr False
          else Inl (CallError ''canister_info failed'')
      | _ \<Rightarrow> Inl (CallError ''canister_info failed''))"

section \<open>State access\<close>

definition f_with_state_mut :: "(fstate \<Rightarrow> fstate) \<Rightarrow> fworld \<Rightarrow> fworld" where
  "f_with_state_mut f w = (let st = f (fw_state w) in w\<lparr>fw_state := st, fw_stable := Some st\<rparr>)"

definition f_now_secs :: "fworld \<Rightarrow> u64" where
  "f_now_secs w = fw_now w div 1000000000"

definition f_log_error :: "nat \<Rightarrow> fworld \<Rightarrow> fworld" where
  "f_log_error code w = w\<lparr>fw_errors := code # fw_errors w\<rparr>"

definition f_set_timer :: "ftimer \<Rightarrow> fworld \<Rightarrow> fworld" where
  "f_set_timer t w = w\<lparr>fw_timers := t # fw_timers w\<rparr>"

definition latch_forced_rescue_reason :: "faucet_rescue_reason \<Rightarrow> fworld \<Rightarrow> fworld" where
  "latch_forced_rescue_reason reason w = f_with_state_mut (latch_reason reason) w"

definition latch_skip_range_invariant_rescue :: "fworld \<Rightarrow> fworld" where
  "latch_skip_range_invariant_rescue w =
     f_with_state_mut (\<lambda>st. st\<lparr>fs_skip_range_invariant_fault := Some True\<rparr>) (f_log_error 3111 w)"

text \<open>A lease token is the lock value it was taken from; it is current while the lock has that value.\<close>

definition lease_current_in :: "u64 option \<Rightarrow> fstate \<Rightarrow> bool" where
  "lease_current_in token st \<longleftrightarrow> fs_main_lock_state_ts st = token"

definition f_lease_current :: "u64 option \<Rightarrow> fworld \<Rightarrow> bool" where
  "f_lease_current token w = lease_current_in token (fw_state w)"

definition map_active_job :: "(payout_job \<Rightarrow> payout_job) \<Rightarrow> fstate \<Rightarrow> fstate" where
  "map_active_job f st = st\<lparr>fs_active_payout_job := map_option f (fs_active_payout_job st)\<rparr>"

definition f_map_job :: "(payout_job \<Rightarrow> payout_job) \<Rightarrow> fworld \<Rightarrow> fworld" where
  "f_map_job f = f_with_state_mut (map_active_job f)"

section \<open>Staging and recording\<close>

definition ledger_created_at_max_age_nanos :: u64 where
  "ledger_created_at_max_age_nanos = 24 * 60 * 60 * 1000000000"

definition ledger_created_at_max_future_skew_nanos :: u64 where
  "ledger_created_at_max_future_skew_nanos = 60 * 1000000000"

definition created_at_time_is_valid_for_ledger :: "u64 \<Rightarrow> u64 \<Rightarrow> bool" where
  "created_at_time_is_valid_for_ledger created_at now_nanos \<longleftrightarrow>
     sat_sub now_nanos created_at \<le> ledger_created_at_max_age_nanos \<and>
     created_at \<le> sat_add now_nanos ledger_created_at_max_future_skew_nanos"

definition next_created_at :: "u64 \<Rightarrow> payout_job \<Rightarrow> u64" where
  "next_created_at now_nanos job =
     (if created_at_time_is_valid_for_ledger (pj_next_created_at_time_nanos job) now_nanos
      then pj_next_created_at_time_nanos job else now_nanos)"

text \<open>\<open>None\<close>: the panic when there is no active job.\<close>

definition allocate_created_at_time_nanos :: "u64 \<Rightarrow> fworld \<Rightarrow> (u64 \<times> fworld) option" where
  "allocate_created_at_time_nanos now_nanos w =
     (case fs_active_payout_job (fw_state w) of
        None \<Rightarrow> None
      | Some job \<Rightarrow> let created = next_created_at now_nanos job in
          Some (created, f_map_job (\<lambda>j. j\<lparr>pj_next_created_at_time_nanos := sat_add created 1\<rparr>) w))"

definition owns_pending :: "u64 \<Rightarrow> pending_transfer \<Rightarrow> fstate \<Rightarrow> bool" where
  "owns_pending job_id expected st =
     (case fs_active_payout_job st of
        None \<Rightarrow> False
      | Some job \<Rightarrow> pj_id job = job_id \<and> pj_pending_transfer job = Some expected)"

definition pending_transfer_matches :: "u64 \<Rightarrow> pending_transfer \<Rightarrow> fworld \<Rightarrow> bool" where
  "pending_transfer_matches job_id expected w = owns_pending job_id expected (fw_state w)"

definition current_pending_transfer :: "fworld \<Rightarrow> (u64 \<times> pending_transfer) option" where
  "current_pending_transfer w =
     (case fs_active_payout_job (fw_state w) of
        None \<Rightarrow> None
      | Some job \<Rightarrow> map_option (Pair (pj_id job)) (pj_pending_transfer job))"

definition increment_cmc_attempts :: "u64 \<Rightarrow> pending_transfer \<Rightarrow> fworld \<Rightarrow> fworld" where
  "increment_cmc_attempts job_id expected w =
     (if \<not> requires_cmc_notify (pn_kind (px_notification expected)) then w
      else f_with_state_mut (\<lambda>st. if owns_pending job_id expected st
        then map_active_job (\<lambda>j. j\<lparr>pj_cmc_attempt_count :=
               Some (sat_add (unwrap_or (pj_cmc_attempt_count j) 0) 1)\<rparr>) st
        else st) w)"

definition max_cmc_diagnostic_witnesses :: nat where "max_cmc_diagnostic_witnesses = 16"

definition add_attempted_beneficiary :: "principal \<Rightarrow> payout_job \<Rightarrow> payout_job" where
  "add_attempted_beneficiary beneficiary job =
     (if unwrap_or (pj_cmc_success_count job) 0 > 0
      then job\<lparr>pj_cmc_attempted_beneficiaries := Some []\<rparr>
      else let bs = take max_cmc_diagnostic_witnesses (unwrap_or (pj_cmc_attempted_beneficiaries job) [])
        in job\<lparr>pj_cmc_attempted_beneficiaries := Some
             (if length bs < max_cmc_diagnostic_witnesses \<and> beneficiary \<notin> set bs
              then bs @ [beneficiary] else bs)\<rparr>)"

definition note_attempted_beneficiary :: "u64 \<Rightarrow> pending_transfer \<Rightarrow> fworld \<Rightarrow> fworld" where
  "note_attempted_beneficiary job_id expected w =
     (if \<not> requires_cmc_notify (pn_kind (px_notification expected)) then w
      else f_with_state_mut (\<lambda>st. if owns_pending job_id expected st
        then map_active_job (add_attempted_beneficiary (pn_beneficiary (px_notification expected))) st
        else st) w)"

definition f_set_dispatch :: "u64 \<Rightarrow> pending_transfer \<Rightarrow> bool \<Rightarrow> fworld \<Rightarrow> fworld" where
  "f_set_dispatch job_id pending dispatched w = w\<lparr>fw_dispatch := dispatch_cell job_id pending dispatched\<rparr>"

definition stage_pending_transfer :: "pending_notification \<Rightarrow> u64 \<Rightarrow> fworld \<Rightarrow> fworld" where
  "stage_pending_transfer pending created_at w =
     (case fs_active_payout_job (fw_state w) of
        None \<Rightarrow> f_with_state_mut id w
      | Some job \<Rightarrow>
          let staged = \<lparr>px_notification = pending, px_created_at_time_nanos = created_at,
                 px_phase = AwaitingTransfer\<rparr>
          in f_map_job (\<lambda>j. j\<lparr>pj_pending_transfer := Some staged\<rparr>)
               (f_set_dispatch (pj_id job) staged False w))"

definition accept_pending :: "u64 \<Rightarrow> pending_transfer \<Rightarrow> pending_transfer" where
  "accept_pending block_index px =
     px\<lparr>px_notification := (px_notification px)\<lparr>pn_block_index := block_index\<rparr>,
        px_phase := TransferAccepted\<rparr>"

definition mark_pending_transfer_accepted ::
  "u64 \<Rightarrow> pending_transfer \<Rightarrow> u64 \<Rightarrow> fworld \<Rightarrow> pending_transfer option \<times> fworld" where
  "mark_pending_transfer_accepted job_id expected block_index w =
     (if \<not> pending_transfer_matches job_id expected w then (None, f_with_state_mut id w)
      else let accepted = accept_pending block_index expected in
        (Some accepted, f_map_job (\<lambda>j. record_ledger_accepted_transfer (px_notification accepted)
           (j\<lparr>pj_pending_transfer := Some accepted\<rparr>)) w))"

datatype terminal_status = TerminalFailed | TerminalAmbiguous

definition count_terminal :: "terminal_status \<Rightarrow> transfer_kind \<Rightarrow> payout_job \<Rightarrow> payout_job" where
  "count_terminal status kind job =
     (if \<not> is_beneficiary_payout kind then job
      else case status of
        TerminalFailed \<Rightarrow> job\<lparr>pj_failed_topups := sat_add (pj_failed_topups job) 1\<rparr>
      | TerminalAmbiguous \<Rightarrow> job\<lparr>pj_ambiguous_topups := sat_add (pj_ambiguous_topups job) 1\<rparr>)"

definition clear_pending_transfer :: "u64 \<Rightarrow> pending_transfer \<Rightarrow> terminal_status \<Rightarrow> fworld \<Rightarrow> fworld" where
  "clear_pending_transfer job_id expected status w =
     (if \<not> pending_transfer_matches job_id expected w then f_with_state_mut id w
      else (f_map_job (\<lambda>j. (count_terminal status (pn_kind (px_notification expected)) j)
              \<lparr>pj_pending_transfer := None\<rparr>) w)\<lparr>fw_dispatch := None\<rparr>)"

definition note_index_page_with_lease :: "index_page \<Rightarrow> u64 option \<Rightarrow> u64 \<Rightarrow> u64 option \<Rightarrow> fworld \<Rightarrow> fworld" where
  "note_index_page_with_lease resp token job_id expected_cursor w =
     f_with_state_mut (\<lambda>st. if \<not> lease_current_in token st then st
       else map_active_job (\<lambda>job.
         if pj_id job \<noteq> job_id \<or> pj_next_start job \<noteq> expected_cursor then job
         else let job1 = (if pj_observed_oldest_tx_id job = None
                then job\<lparr>pj_observed_oldest_tx_id := ip_oldest_tx_id resp\<rparr> else job)
           in case index_page_latest_tx_id (ip_transactions resp) of
                None \<Rightarrow> job1
              | Some latest \<Rightarrow> job1\<lparr>pj_observed_latest_tx_id := Some
                  (case pj_observed_latest_tx_id job1 of None \<Rightarrow> latest | Some o1 \<Rightarrow> max o1 latest)\<rparr>) st) w"

definition record_completed_transfer :: "u64 \<Rightarrow> pending_transfer \<Rightarrow> u64 \<Rightarrow> fworld \<Rightarrow> fworld" where
  "record_completed_transfer job_id expected now_secs w =
     (if \<not> pending_transfer_matches job_id expected w then f_with_state_mut id w
      else let pending = px_notification expected; notify = requires_cmc_notify (pn_kind pending) in
        (f_with_state_mut (\<lambda>st. map_active_job (\<lambda>j.
            (apply_notified_transfer pending
              (if notify then j\<lparr>pj_cmc_success_count := Some (sat_add (unwrap_or (pj_cmc_success_count j) 0) 1),
                   pj_cmc_attempted_beneficiaries := Some []\<rparr> else j))
              \<lparr>pj_pending_transfer := None\<rparr>)
          (if notify then st\<lparr>fs_last_successful_transfer_ts := Some now_secs\<rparr> else st)) w)
          \<lparr>fw_dispatch := None\<rparr>)"

section \<open>One transfer attempt\<close>

datatype transfer_attempt_outcome =
    AttemptAccepted u64
  | AttemptNoDebit bool
  | AttemptUncertain
  | AttemptUnusableBlock

definition accepted_block :: "nat \<Rightarrow> transfer_attempt_outcome" where
  "accepted_block n = (if n < 2 ^ 64 then AttemptAccepted (word_of_nat n) else AttemptUnusableBlock)"

definition transfer_once :: "f_resp \<Rightarrow> transfer_attempt_outcome" where
  "transfer_once r =
     (case fclient_transfer r of
        Inl _ \<Rightarrow> AttemptUncertain
      | Inr (Inr block) \<Rightarrow> accepted_block block
      | Inr (Inl (Duplicate duplicate_of)) \<Rightarrow> accepted_block duplicate_of
      | Inr (Inl TemporarilyUnavailable) \<Rightarrow> AttemptNoDebit True
      | Inr (Inl _) \<Rightarrow> AttemptNoDebit False)"

section \<open>The transfer of a staged payout\<close>

text \<open>The clients and the numbers one run works with.\<close>

record pay_ctx =
  px_ledger :: principal
  px_cmc :: principal
  px_governance :: principal
  px_cmc_id :: principal
  px_fee_e8s :: u64
  px_now_nanos :: u64
  px_now_secs :: u64

definition f_transfer_arg :: "fworld \<Rightarrow> account \<Rightarrow> u64 \<Rightarrow> u64 \<Rightarrow> u64 \<Rightarrow> bytes \<Rightarrow> transfer_arg" where
  "f_transfer_arg w dest amount_e8s fee_e8s created_at memo_bytes =
     \<lparr>ta_from_subaccount = fc_payout_subaccount (fs_config (fw_state w)), ta_to = dest,
      ta_fee = Some (unat fee_e8s), ta_created_at_time = Some created_at, ta_memo = Some memo_bytes,
      ta_amount = unat amount_e8s\<rparr>"

text \<open>\<open>None\<close>: the panic for a neuron stake without its staking subaccount.\<close>

definition deposit_account_for_pending :: "principal \<Rightarrow> pending_notification \<Rightarrow> account option" where
  "deposit_account_for_pending cmc_id pending =
     (case pn_kind pending of
        KRawIcp \<Rightarrow> Some \<lparr>acc_owner = pn_beneficiary pending,
          acc_subaccount = pn_destination_subaccount pending\<rparr>
      | KCyclesTopUpRawFallback \<Rightarrow> Some \<lparr>acc_owner = pn_beneficiary pending, acc_subaccount = None\<rparr>
      | KRemainderToRelay \<Rightarrow> Some \<lparr>acc_owner = pn_beneficiary pending, acc_subaccount = None\<rparr>
      | KNeuronStake \<Rightarrow> (case pn_destination_subaccount pending of
            None \<Rightarrow> None
          | Some sub \<Rightarrow> Some \<lparr>acc_owner = pn_beneficiary pending, acc_subaccount = Some sub\<rparr>)
      | KBeneficiary \<Rightarrow> Some (cmc_deposit_account cmc_id (pn_beneficiary pending)))"

definition transfer_memo_for_pending :: "pending_notification \<Rightarrow> bytes" where
  "transfer_memo_for_pending pending =
     (case pn_kind pending of
        KCyclesTopUpRawFallback \<Rightarrow> []
      | KRemainderToRelay \<Rightarrow> []
      | KBeneficiary \<Rightarrow> unwrap_or (pn_transfer_memo pending) (u64_to_le_bytes memo_top_up_canister_u64)
      | KRawIcp \<Rightarrow> unwrap_or (pn_transfer_memo pending) []
      | KNeuronStake \<Rightarrow> unwrap_or (pn_transfer_memo pending) (u64_to_le_bytes memo_top_up_canister_u64))"

datatype transfer_identity_outcome =
    IdentityAccepted u64
  | IdentityNoDebit
  | IdentityUncertain
  | IdentityUnusableBlock
  | IdentityStale

definition set_dispatch_started ::
  "u64 \<Rightarrow> pending_transfer \<Rightarrow> u64 option \<Rightarrow> bool \<Rightarrow> fworld \<Rightarrow> fworld option" where
  "set_dispatch_started job_id expected token started w =
     (if \<not> f_lease_current token w \<or> \<not> pending_transfer_matches job_id expected w then None
      else Some (f_set_dispatch job_id expected started w))"

text \<open>The two attempts: the list holds the arguments of the attempts that are left.\<close>

fun transfer_attempts :: "principal \<Rightarrow> u64 \<Rightarrow> pending_transfer \<Rightarrow> u64 option \<Rightarrow> transfer_arg list
    \<Rightarrow> fworld \<Rightarrow> transfer_identity_outcome fproc" where
  "transfer_attempts ledger job_id expected token [] w = Done w IdentityUncertain"
| "transfer_attempts ledger job_id expected token (arg # args) w =
     (let prior_uncertainty = pending_transfer_may_have_dispatched (fw_dispatch w) job_id expected in
      case set_dispatch_started job_id expected token True w of
        None \<Rightarrow> Done w IdentityStale
      | Some w1 \<Rightarrow> Await w1 (FReqTransfer ledger arg) (\<lambda>r w2.
          if \<not> f_lease_current token w2 \<or> \<not> pending_transfer_matches job_id expected w2
          then Done w2 IdentityStale
          else case transfer_once r of
            AttemptAccepted block \<Rightarrow> Done w2 (IdentityAccepted block)
          | AttemptUnusableBlock \<Rightarrow> Done w2 IdentityUnusableBlock
          | AttemptNoDebit retryable \<Rightarrow>
              (case (if prior_uncertainty then Some w2
                     else set_dispatch_started job_id expected token False w2) of
                 None \<Rightarrow> Done w2 IdentityStale
               | Some w3 \<Rightarrow>
                   if \<not> retryable \<or> args = []
                   then Done w3 (if prior_uncertainty then IdentityUncertain else IdentityNoDebit)
                   else transfer_attempts ledger job_id expected token args w3)
          | AttemptUncertain \<Rightarrow> transfer_attempts ledger job_id expected token args w2))"

definition transfer_identity_with_one_retry :: "principal \<Rightarrow> u64 \<Rightarrow> pending_transfer \<Rightarrow> transfer_arg
    \<Rightarrow> transfer_arg \<Rightarrow> fworld \<Rightarrow> transfer_identity_outcome fproc" where
  "transfer_identity_with_one_retry ledger job_id expected first_arg second_arg w =
     transfer_attempts ledger job_id expected (fs_main_lock_state_ts (fw_state w))
       [first_arg, second_arg] w"

section \<open>Fall-backs\<close>

text \<open>The created-at time of a transition and the job's next one; \<open>None\<close> leaves the job as it is.\<close>

definition fresh_transition_created_at_time :: "payout_job \<Rightarrow> u64 \<Rightarrow> u64 \<Rightarrow> (u64 \<times> u64) option" where
  "fresh_transition_created_at_time job now_nanos previous_created_at =
     (let created0 = next_created_at now_nanos job in
      case (if created0 = previous_created_at then checked_add created0 1 else Some created0) of
        None \<Rightarrow> None
      | Some created \<Rightarrow>
          if \<not> created_at_time_is_valid_for_ledger created now_nanos then None
          else map_option (Pair created) (checked_add created 1))"

definition raw_fallback_of :: "pending_notification \<Rightarrow> pending_notification" where
  "raw_fallback_of pending =
     pending\<lparr>pn_kind := KCyclesTopUpRawFallback, pn_block_index := 0, pn_transfer_memo := Some [],
             pn_destination_subaccount := None, pn_neuron_id := None\<rparr>"

definition stage_transition :: "u64 \<Rightarrow> pending_transfer \<Rightarrow> u64 \<Rightarrow> (payout_job \<Rightarrow> payout_job) \<Rightarrow> fworld
    \<Rightarrow> fworld" where
  "stage_transition job_id staged next_created f w =
     f_map_job (\<lambda>j. (f j)\<lparr>pj_next_created_at_time_nanos := next_created,
         pj_pending_transfer := Some staged\<rparr>) (f_set_dispatch job_id staged False w)"

definition stage_raw_fallback_after_definite_rejection ::
  "u64 \<Rightarrow> pending_transfer \<Rightarrow> u64 \<Rightarrow> fworld \<Rightarrow> (unit + bool) \<times> fworld" where
  "stage_raw_fallback_after_definite_rejection job_id expected now_nanos w =
     (case fs_active_payout_job (fw_state w) of
        None \<Rightarrow> (Inr False, f_with_state_mut id w)
      | Some job \<Rightarrow>
          if \<not> pending_transfer_matches job_id expected w \<or> px_phase expected \<noteq> AwaitingTransfer
            \<or> pn_kind (px_notification expected) \<noteq> KBeneficiary
          then (Inr False, f_with_state_mut id w)
          else (case fresh_transition_created_at_time job now_nanos (px_created_at_time_nanos expected) of
              None \<Rightarrow> (Inl (), f_with_state_mut id w)
            | Some (created, next_created) \<Rightarrow>
                (Inr True, stage_transition job_id
                   \<lparr>px_notification = raw_fallback_of (px_notification expected),
                    px_created_at_time_nanos = created, px_phase = AwaitingTransfer\<rparr>
                   next_created id w)))"

datatype refund_transition = RefundStaged | RefundBelowFee | RefundInvariantBroken

text \<open>What the Cycles Minting Contract credits back: the amount less the ledger fee and its own
  top-up fee of twice the ledger fee.\<close>

definition refund_credit :: "pending_notification \<Rightarrow> u64 \<Rightarrow> u64 option" where
  "refund_credit accepted fee_e8s =
     (case checked_sub (pn_gross_share_e8s accepted) fee_e8s of
        None \<Rightarrow> None
      | Some original \<Rightarrow>
          if original \<noteq> pn_amount_e8s accepted then None
          else (case checked_mul fee_e8s 2 of
              None \<Rightarrow> None
            | Some top_up_fee \<Rightarrow> Option.bind (checked_sub original fee_e8s) (\<lambda>v. checked_sub v top_up_fee)))"

definition refund_fallback :: "pending_notification \<Rightarrow> u64 \<Rightarrow> u64 \<Rightarrow> pending_notification" where
  "refund_fallback accepted credit raw_amount =
     \<lparr>pn_kind = KCyclesTopUpRawFallback, pn_beneficiary = pn_beneficiary accepted,
      pn_gross_share_e8s = credit, pn_amount_e8s = raw_amount, pn_block_index = 0,
      pn_next_start = pn_next_start accepted, pn_transfer_memo = Some [],
      pn_destination_subaccount = None, pn_neuron_id = None\<rparr>"

definition transition_refunded_beneficiary_to_raw_fallback ::
  "u64 \<Rightarrow> pending_transfer \<Rightarrow> u64 \<Rightarrow> u64 \<Rightarrow> fworld \<Rightarrow> refund_transition \<times> fworld" where
  "transition_refunded_beneficiary_to_raw_fallback job_id expected fee_e8s now_nanos w =
     (case fs_active_payout_job (fw_state w) of
        None \<Rightarrow> (RefundInvariantBroken, f_with_state_mut id w)
      | Some job \<Rightarrow>
          let accepted = px_notification expected in
          if \<not> pending_transfer_matches job_id expected w \<or> px_phase expected \<noteq> TransferAccepted
            \<or> pn_kind accepted \<noteq> KBeneficiary
          then (RefundInvariantBroken, f_with_state_mut id w)
          else (case refund_credit accepted fee_e8s of
              None \<Rightarrow> (RefundInvariantBroken, f_with_state_mut id w)
            | Some credit \<Rightarrow>
                (case checked_sub (pj_gross_outflow_e8s job) credit of
                   None \<Rightarrow> (RefundInvariantBroken, f_with_state_mut id w)
                 | Some released \<Rightarrow>
                     if credit \<le> fee_e8s
                     then (RefundBelowFee, f_map_job (\<lambda>j. j\<lparr>pj_gross_outflow_e8s := released\<rparr>) w)
                     else (case (fresh_transition_created_at_time job now_nanos
                                   (px_created_at_time_nanos expected), checked_sub credit fee_e8s) of
                         (Some (created, next_created), Some raw_amount) \<Rightarrow>
                           (RefundStaged, stage_transition job_id
                              \<lparr>px_notification = refund_fallback accepted credit raw_amount,
                               px_created_at_time_nanos = created, px_phase = AwaitingTransfer\<rparr>
                              next_created (\<lambda>j. j\<lparr>pj_gross_outflow_e8s := released\<rparr>) w)
                       | _ \<Rightarrow> (RefundInvariantBroken, f_with_state_mut id w)))))"

section \<open>Ambiguous and unusable results\<close>

text \<open>The new outflow when the staged gross share still fits the pot.\<close>

definition reserve_gross :: "payout_job \<Rightarrow> pending_transfer \<Rightarrow> u64 option" where
  "reserve_gross job px =
     (case checked_add (pj_gross_outflow_e8s job) (pn_gross_share_e8s (px_notification px)) of
        None \<Rightarrow> None
      | Some outflow \<Rightarrow> if outflow \<le> pj_pot_start_e8s job then Some outflow else None)"

text \<open>The result says whether the accounting is broken.\<close>

definition record_accepted_transfer_with_unusable_block_index ::
  "u64 \<Rightarrow> pending_transfer \<Rightarrow> fworld \<Rightarrow> bool \<times> fworld" where
  "record_accepted_transfer_with_unusable_block_index job_id expected w =
     (case fs_active_payout_job (fw_state w) of
        None \<Rightarrow> (False, f_with_state_mut id w)
      | Some job \<Rightarrow>
          if \<not> pending_transfer_matches job_id expected w then (False, f_with_state_mut id w)
          else (case reserve_gross job expected of
              None \<Rightarrow> (True, f_with_state_mut id w)
            | Some outflow \<Rightarrow>
                (False, (f_map_job (\<lambda>j. (count_terminal TerminalAmbiguous (pn_kind (px_notification expected)) j)
                    \<lparr>pj_gross_outflow_e8s := outflow, pj_pending_transfer := None\<rparr>) w)\<lparr>fw_dispatch := None\<rparr>)))"

datatype gross_reservation = ReservationNotApplicable | GrossReserved | ReservationInvariantBroken

definition reserve_ambiguous_awaiting_transfer_gross ::
  "u64 \<Rightarrow> pending_transfer \<Rightarrow> fworld \<Rightarrow> gross_reservation \<times> fworld" where
  "reserve_ambiguous_awaiting_transfer_gross job_id expected w =
     (case fs_active_payout_job (fw_state w) of
        None \<Rightarrow> (ReservationNotApplicable, f_with_state_mut id w)
      | Some job \<Rightarrow>
          if \<not> pending_transfer_matches job_id expected w \<or> px_phase expected \<noteq> AwaitingTransfer
          then (ReservationNotApplicable, f_with_state_mut id w)
          else (case reserve_gross job expected of
              None \<Rightarrow> (ReservationInvariantBroken, f_with_state_mut id w)
            | Some outflow \<Rightarrow>
                (GrossReserved, f_map_job (\<lambda>j. j\<lparr>pj_gross_outflow_e8s := outflow\<rparr>) w)))"

definition reserve_then_clear_ambiguous_awaiting_transfer ::
  "u64 \<Rightarrow> pending_transfer \<Rightarrow> fworld \<Rightarrow> bool \<times> fworld" where
  "reserve_then_clear_ambiguous_awaiting_transfer job_id expected w =
     (case reserve_ambiguous_awaiting_transfer_gross job_id expected w of
        (ReservationInvariantBroken, w1) \<Rightarrow> (False, latch_forced_rescue_reason AccountingInvariantBroken w1)
      | (_, w1) \<Rightarrow> (True, clear_pending_transfer job_id expected TerminalAmbiguous w1))"

section \<open>Driving a pending transfer\<close>

definition is_proven_refund_with_block :: "notify_top_up_error + u128 \<Rightarrow> bool" where
  "is_proven_refund_with_block outcome =
     (case outcome of Inl (NotifyTerminal (TermRefunded _ (Some _))) \<Rightarrow> True | _ \<Rightarrow> False)"

definition is_terminal_notify_error :: "notify_top_up_error + u128 \<Rightarrow> bool" where
  "is_terminal_notify_error outcome = (case outcome of Inl (NotifyTerminal _) \<Rightarrow> True | _ \<Rightarrow> False)"

definition notify_succeeded :: "notify_top_up_error + u128 \<Rightarrow> bool" where
  "notify_succeeded outcome = (case outcome of Inr _ \<Rightarrow> True | Inl _ \<Rightarrow> False)"

text \<open>\<open>notify_once\<close>: the attempt is recorded in the state that the call commits.\<close>

definition notify_once :: "pay_ctx \<Rightarrow> u64 \<Rightarrow> pending_transfer
    \<Rightarrow> (notify_top_up_error + u128 \<Rightarrow> fworld \<Rightarrow> 'a fproc) \<Rightarrow> fworld \<Rightarrow> 'a fproc" where
  "notify_once cx job_id expected k w =
     Await (increment_cmc_attempts job_id expected (note_attempted_beneficiary job_id expected w))
       (FReqNotify (px_cmc cx) (pn_beneficiary (px_notification expected))
          (pn_block_index (px_notification expected)))
       (\<lambda>r. k (fclient_notify r))"

definition still_owned :: "u64 option \<Rightarrow> u64 \<Rightarrow> pending_transfer \<Rightarrow> fworld \<Rightarrow> bool" where
  "still_owned token job_id expected w \<longleftrightarrow>
     f_lease_current token w \<and> pending_transfer_matches job_id expected w"

text \<open>\<open>again\<close> is the \<open>continue\<close> of the loop, with \<open>fallback_transitions\<close> set to 1.\<close>

definition drive_refunded :: "(fworld \<Rightarrow> bool fproc) \<Rightarrow> pay_ctx \<Rightarrow> u64 \<Rightarrow> pending_transfer \<Rightarrow> fworld
    \<Rightarrow> bool fproc" where
  "drive_refunded again cx job_id accepted w =
     (case transition_refunded_beneficiary_to_raw_fallback job_id accepted (px_fee_e8s cx)
             (px_now_nanos cx) w of
        (RefundStaged, w1) \<Rightarrow> again w1
      | (RefundBelowFee, w1) \<Rightarrow> Done (clear_pending_transfer job_id accepted TerminalFailed w1) True
      | (RefundInvariantBroken, w1) \<Rightarrow>
          Done (clear_pending_transfer job_id accepted TerminalAmbiguous
            (latch_forced_rescue_reason AccountingInvariantBroken w1)) True)"

definition drive_second_notify :: "(fworld \<Rightarrow> bool fproc) \<Rightarrow> pay_ctx \<Rightarrow> u64 option \<Rightarrow> u64
    \<Rightarrow> pending_transfer \<Rightarrow> bool \<Rightarrow> notify_top_up_error + u128 \<Rightarrow> fworld \<Rightarrow> bool fproc" where
  "drive_second_notify again cx token job_id accepted first_terminal outcome w =
     (if \<not> still_owned token job_id accepted w then Done w False
      else if notify_succeeded outcome
      then Done (record_completed_transfer job_id accepted (px_now_secs cx) w) True
      else if pn_kind (px_notification accepted) = KBeneficiary \<and> is_proven_refund_with_block outcome
      then drive_refunded again cx job_id accepted w
      else Done (clear_pending_transfer job_id accepted
             (if first_terminal \<and> is_terminal_notify_error outcome
              then TerminalFailed else TerminalAmbiguous) w) True)"

definition drive_first_notify :: "(fworld \<Rightarrow> bool fproc) \<Rightarrow> pay_ctx \<Rightarrow> u64 option \<Rightarrow> u64
    \<Rightarrow> pending_transfer \<Rightarrow> notify_top_up_error + u128 \<Rightarrow> fworld \<Rightarrow> bool fproc" where
  "drive_first_notify again cx token job_id accepted outcome w =
     (if \<not> still_owned token job_id accepted w then Done w False
      else if notify_succeeded outcome
      then Done (record_completed_transfer job_id accepted (px_now_secs cx) w) True
      else if pn_kind (px_notification accepted) = KBeneficiary \<and> is_proven_refund_with_block outcome
      then drive_refunded again cx job_id accepted w
      else notify_once cx job_id accepted
             (drive_second_notify again cx token job_id accepted (is_terminal_notify_error outcome)) w)"

definition drive_accepted :: "(fworld \<Rightarrow> bool fproc) \<Rightarrow> pay_ctx \<Rightarrow> u64 option \<Rightarrow> u64
    \<Rightarrow> pending_transfer \<Rightarrow> fworld \<Rightarrow> bool fproc" where
  "drive_accepted again cx token job_id accepted w =
     (if \<not> requires_cmc_notify (pn_kind (px_notification accepted))
      then (case (pn_kind (px_notification accepted), pn_neuron_id (px_notification accepted)) of
          (KNeuronStake, Some neuron_id) \<Rightarrow>
            Await w (FReqClaimOrRefresh (px_governance cx) neuron_id)
              (\<lambda>_ w1. if \<not> still_owned token job_id accepted w1 then Done w1 False
                 else Done (record_completed_transfer job_id accepted (px_now_secs cx) w1) True)
        | _ \<Rightarrow> Done (record_completed_transfer job_id accepted (px_now_secs cx) w) True)
      else notify_once cx job_id accepted (drive_first_notify again cx token job_id accepted) w)"

definition drive_identity :: "(fworld \<Rightarrow> bool fproc) \<Rightarrow> pay_ctx \<Rightarrow> u64 option \<Rightarrow> bool \<Rightarrow> u64
    \<Rightarrow> pending_transfer \<Rightarrow> fworld \<Rightarrow> transfer_identity_outcome \<Rightarrow> bool fproc" where
  "drive_identity again cx token transitioned job_id staged w outcome =
     (case outcome of
        IdentityAccepted block \<Rightarrow>
          (case mark_pending_transfer_accepted job_id staged block w of
             (None, w1) \<Rightarrow> Done w1 False
           | (Some accepted, w1) \<Rightarrow> drive_accepted again cx token job_id accepted w1)
      | IdentityNoDebit \<Rightarrow>
          if \<not> transitioned \<and> pn_kind (px_notification staged) = KBeneficiary
          then (case stage_raw_fallback_after_definite_rejection job_id staged (px_now_nanos cx) w of
              (Inr True, w1) \<Rightarrow> again w1
            | (Inr False, w1) \<Rightarrow> Done (clear_pending_transfer job_id staged TerminalFailed w1) True
            | (Inl _, w1) \<Rightarrow> Done (clear_pending_transfer job_id staged TerminalFailed
                (latch_forced_rescue_reason AccountingInvariantBroken w1)) True)
          else Done (clear_pending_transfer job_id staged TerminalFailed w) True
      | IdentityUncertain \<Rightarrow>
          (case reserve_then_clear_ambiguous_awaiting_transfer job_id staged w of (ok, w1) \<Rightarrow> Done w1 ok)
      | IdentityUnusableBlock \<Rightarrow>
          (case record_accepted_transfer_with_unusable_block_index job_id staged w of
             (True, w1) \<Rightarrow> Done (latch_forced_rescue_reason AccountingInvariantBroken w1) False
           | (False, w1) \<Rightarrow> Done w1 True)
      | IdentityStale \<Rightarrow> Done w False)"

definition drive_iteration :: "(fworld \<Rightarrow> bool fproc) \<Rightarrow> pay_ctx \<Rightarrow> u64 option \<Rightarrow> bool
    \<Rightarrow> fworld \<Rightarrow> bool fproc" where
  "drive_iteration again cx token transitioned w =
     (case current_pending_transfer w of
        None \<Rightarrow> Done w True
      | Some (job_id, staged) \<Rightarrow>
          (case px_phase staged of
             AwaitingTransfer \<Rightarrow>
               if \<not> created_at_time_is_valid_for_ledger (px_created_at_time_nanos staged) (px_now_nanos cx)
               then (case reserve_then_clear_ambiguous_awaiting_transfer job_id staged w of
                   (ok, w1) \<Rightarrow> Done w1 ok)
               else (case deposit_account_for_pending (px_cmc_id cx) (px_notification staged) of
                   None \<Rightarrow> Trap
                 | Some dest \<Rightarrow>
                     let arg = f_transfer_arg w dest (pn_amount_e8s (px_notification staged)) (px_fee_e8s cx)
                           (px_created_at_time_nanos staged)
                           (transfer_memo_for_pending (px_notification staged))
                     in pbind (transfer_identity_with_one_retry (px_ledger cx) job_id staged arg arg w)
                          (drive_identity again cx token transitioned job_id staged))
           | TransferAccepted \<Rightarrow> drive_accepted again cx token job_id staged w))"

text \<open>
  The loop continues only after a fall-back was staged.  The bound on its rounds is not in the code:
  running out of it is modelled as a panic, and the safety proofs show that two rounds suffice.
\<close>

primrec drive_loop :: "nat \<Rightarrow> pay_ctx \<Rightarrow> u64 option \<Rightarrow> bool \<Rightarrow> fworld \<Rightarrow> bool fproc" where
  "drive_loop 0 cx token transitioned w = Trap"
| "drive_loop (Suc n) cx token transitioned w =
     drive_iteration (drive_loop n cx token True) cx token transitioned w"

definition drive_pending_transfer :: "pay_ctx \<Rightarrow> fworld \<Rightarrow> bool fproc" where
  "drive_pending_transfer cx w = drive_loop 2 cx (fs_main_lock_state_ts (fw_state w)) False w"

definition send_and_notify :: "pay_ctx \<Rightarrow> pending_notification \<Rightarrow> fworld \<Rightarrow> bool fproc" where
  "send_and_notify cx pending w =
     (if (case fs_active_payout_job (fw_state w) of None \<Rightarrow> False
          | Some job \<Rightarrow> (case checked_add (pj_gross_outflow_e8s job) (pn_gross_share_e8s pending) of
              None \<Rightarrow> True | Some outflow \<Rightarrow> outflow > pj_pot_start_e8s job))
      then Done (latch_forced_rescue_reason AccountingInvariantBroken w) False
      else case allocate_created_at_time_nanos (px_now_nanos cx) w of
        None \<Rightarrow> Trap
      | Some (created_at, w1) \<Rightarrow> drive_pending_transfer cx (stage_pending_transfer pending created_at w1))"

end
