(* ===== verification/FaucetPayout.thy ===== *)
theory FaucetPayout
  imports FaucetTransfer
begin

text \<open>
  A payout run of the Faucet (\<open>scheduler/route_accounting.rs\<close>, with \<open>neuron_staking.rs\<close>, the
  asynchronous part of \<open>index_health.rs\<close> and \<open>finalize_completed_job\<close>): discovery of the next
  funding tranche, the job, the denominator pass, the payout pass, the remainder and the finish.  The
  function \<open>process_payout_with_lease\<close> is cut at its \<open>await\<close>s into one definition per segment.
\<close>

section \<open>The context of a run\<close>

record payout_ctx =
  pc_env :: fenv
  pc_ledger :: principal
  pc_index :: principal
  pc_cmc :: principal
  pc_governance :: principal
  pc_cfg :: fconfig
  pc_now_nanos :: u64
  pc_now_secs :: u64
  pc_token :: "u64 option"

definition pay_ctx_of :: "payout_ctx \<Rightarrow> u64 \<Rightarrow> pay_ctx" where
  "pay_ctx_of pc fee_e8s =
     \<lparr>px_ledger = pc_ledger pc, px_cmc = pc_cmc pc, px_governance = pc_governance pc,
      px_cmc_id = fc_cmc_canister_id (pc_cfg pc), px_fee_e8s = fee_e8s,
      px_now_nanos = pc_now_nanos pc, px_now_secs = pc_now_secs pc\<rparr>"

definition pc_staking_id :: "payout_ctx \<Rightarrow> bytes" where
  "pc_staking_id pc = fe_account_id (pc_env pc) (fc_staking_account (pc_cfg pc))"

definition pc_current :: "payout_ctx \<Rightarrow> fworld \<Rightarrow> bool" where
  "pc_current pc w = f_lease_current (pc_token pc) w"

definition payout_account :: "fworld \<Rightarrow> account" where
  "payout_account w = \<lparr>acc_owner = fw_self w,
     acc_subaccount = fc_payout_subaccount (fs_config (fw_state w))\<rparr>"

definition recognition_delay_seconds :: "fworld \<Rightarrow> u64" where
  "recognition_delay_seconds w =
     unwrap_or (fc_stake_recognition_delay_seconds (fs_config (fw_state w))) (24 * 60 * 60)"

section \<open>Index health\<close>

definition f_with_health :: "(fclocks \<times> fstate \<Rightarrow> fclocks \<times> fstate) \<Rightarrow> fworld \<Rightarrow> fworld" where
  "f_with_health f w = (case f (fw_clocks w, fw_state w) of (k, st) \<Rightarrow>
     w\<lparr>fw_clocks := k, fw_state := st, fw_stable := Some st\<rparr>)"

definition health_if_current :: "u64 option \<Rightarrow> (fclocks \<times> fstate \<Rightarrow> fclocks \<times> fstate) \<Rightarrow> fworld \<Rightarrow> fworld" where
  "health_if_current token f w = (if f_lease_current token w then f_with_health f w else f_with_state_mut id w)"

definition index_response :: "f_resp \<Rightarrow> index_page option" where
  "index_response r = (case fclient_index r of Inl _ \<Rightarrow> None | Inr page \<Rightarrow> Some page)"

definition observe_latest :: "payout_ctx \<Rightarrow> fworld \<Rightarrow> unit fproc" where
  "observe_latest pc w =
     Await w (FReqIndex (pc_index pc) (pc_staking_id pc) None page_size)
       (\<lambda>r w1. Done (health_if_current (pc_token pc)
          (apply_latest_observation (latest_observation_of None (index_response r)) (pc_now_secs pc)) w1) ())"

definition probe_index_health_with_lease :: "payout_ctx \<Rightarrow> u64 \<Rightarrow> fworld \<Rightarrow> unit fproc" where
  "probe_index_health_with_lease pc denom_balance_e8s w =
     (let prev_balance = fs_last_observed_staking_balance_e8s (fw_state w) in
      Await w (FReqIndex (pc_index pc) (pc_staking_id pc) None 1) (\<lambda>r w1.
        case index_response r of
          None \<Rightarrow> Done (health_if_current (pc_token pc)
              (apply_latest_observation ScanUnreadable (pc_now_secs pc)) w1) ()
        | Some first_page \<Rightarrow>
            if \<not> pc_current pc w1 then Done w1 ()
            else let w2 = f_with_health (apply_anchor_observation (ip_oldest_tx_id first_page) (pc_now_secs pc)) w1
              in if prev_balance = Some denom_balance_e8s then Done w2 () else observe_latest pc w2))"

definition refresh_index_latest_health_after_payout_with_lease :: "payout_ctx \<Rightarrow> u64 \<Rightarrow> fworld \<Rightarrow> unit fproc" where
  "refresh_index_latest_health_after_payout_with_lease pc denom_balance_e8s w =
     (if fs_last_observed_staking_balance_e8s (fw_state w) = Some denom_balance_e8s then Done w ()
      else observe_latest pc w)"

text \<open>The end of a run: the bootstrap latch, if the lease is still held.\<close>

definition latch_if_current :: "payout_ctx \<Rightarrow> fworld \<Rightarrow> bool fproc" where
  "latch_if_current pc w = Done (if pc_current pc w
     then f_with_state_mut (maybe_latch_bootstrap_rescue (pc_now_secs pc)) w else w) True"

definition probe_and_end :: "payout_ctx \<Rightarrow> u64 \<Rightarrow> fworld \<Rightarrow> bool fproc" where
  "probe_and_end pc denom_e8s w =
     pbind (probe_index_health_with_lease pc denom_e8s w) (\<lambda>w1 _. latch_if_current pc w1)"

section \<open>Funding discovery\<close>

datatype funding_discovery =
    FundingFound funding_tranche
  | FundingInProgress
  | FundingEmpty
  | FundingIndexReadFailed
  | FundingMissingTimestamp

definition begin_funding_scan :: "u64 option \<Rightarrow> u64 option \<Rightarrow> fstate \<Rightarrow> funding_scan option \<times> fstate" where
  "begin_funding_scan token last_processed st =
     (if \<not> lease_current_in token st \<or> fs_last_processed_funding_tx_id st \<noteq> last_processed
        \<or> fs_active_payout_job st \<noteq> None
      then (None, st)
      else case fs_active_funding_scan st of
        Some scan \<Rightarrow>
          if fs_anchor_last_processed_funding_tx_id scan = last_processed then (Some scan, st)
          else let fresh = \<lparr>fs_anchor_last_processed_funding_tx_id = last_processed, fs_cursor = None,
                 fs_candidate = None\<rparr> in (Some fresh, st\<lparr>fs_active_funding_scan := Some fresh\<rparr>)
      | None \<Rightarrow> let fresh = \<lparr>fs_anchor_last_processed_funding_tx_id = last_processed, fs_cursor = None,
                 fs_candidate = None\<rparr> in (Some fresh, st\<lparr>fs_active_funding_scan := Some fresh\<rparr>))"

definition owns_scan :: "u64 option \<Rightarrow> u64 option \<Rightarrow> funding_scan \<Rightarrow> fstate \<Rightarrow> bool" where
  "owns_scan token last_processed expected st \<longleftrightarrow>
     lease_current_in token st \<and> fs_last_processed_funding_tx_id st = last_processed \<and>
     fs_active_payout_job st = None \<and> fs_active_funding_scan st = Some expected"

text \<open>The records of one page: \<open>None\<close> when a qualifying transfer has no timestamp, else the candidate
  and whether a processed transfer was reached.\<close>

definition qualifying_funding :: "bytes \<Rightarrow> bytes \<Rightarrow> u64 \<Rightarrow> index_tx \<Rightarrow> u64 option" where
  "qualifying_funding source_id payout_id fee_e8s tx =
     (case ix_operation tx of
        OpTransfer to from amount \<Rightarrow>
          if from = source_id \<and> to = payout_id \<and> amount > fee_e8s then Some amount else None
      | _ \<Rightarrow> None)"

fun funding_txs :: "bytes \<Rightarrow> bytes \<Rightarrow> u64 option \<Rightarrow> u64 \<Rightarrow> index_tx list \<Rightarrow> funding_tranche option
    \<Rightarrow> (funding_tranche option \<times> bool) option" where
  "funding_txs source_id payout_id last_processed fee_e8s [] cand = Some (cand, False)"
| "funding_txs source_id payout_id last_processed fee_e8s (tx # txs) cand =
     (if (case last_processed of None \<Rightarrow> False | Some l \<Rightarrow> ix_id tx \<le> l) then Some (cand, True)
      else case qualifying_funding source_id payout_id fee_e8s tx of
        None \<Rightarrow> funding_txs source_id payout_id last_processed fee_e8s txs cand
      | Some amount \<Rightarrow>
          (case index_tx_timestamp_nanos tx of
             None \<Rightarrow> None
           | Some t \<Rightarrow> funding_txs source_id payout_id last_processed fee_e8s txs
               (if (case cand of None \<Rightarrow> True | Some old \<Rightarrow> ix_id tx < ft_tx_id old)
                then Some \<lparr>ft_tx_id = ix_id tx, ft_timestamp_nanos = t, ft_amount_e8s = amount\<rparr>
                else cand)))"

text \<open>One step of the discovery on a page: the discovery's result, or the next scan and the oldest id.\<close>

definition funding_step :: "payout_ctx \<Rightarrow> bytes \<Rightarrow> bytes \<Rightarrow> u64 option \<Rightarrow> u64 \<Rightarrow> u64 option \<Rightarrow> funding_scan
    \<Rightarrow> f_resp \<Rightarrow> funding_discovery + (bool \<times> funding_scan \<times> u64 option)" where
  "funding_step pc source_id payout_id last_processed fee_e8s observed_oldest scan r =
     (case index_response r of
        None \<Rightarrow> Inl FundingIndexReadFailed
      | Some resp \<Rightarrow>
          if fs_candidate scan \<noteq> None \<and> ip_oldest_tx_id resp = None then Inl FundingIndexReadFailed
          else (case validate_history_page resp (fs_cursor scan) observed_oldest of
              None \<Rightarrow> Inl FundingIndexReadFailed
            | Some exhausted \<Rightarrow>
                (case funding_txs source_id payout_id last_processed fee_e8s (ip_transactions resp)
                        (fs_candidate scan) of
                   None \<Rightarrow> Inl FundingMissingTimestamp
                 | Some (cand, reached) \<Rightarrow>
                     Inr (exhausted \<or> reached,
                       scan\<lparr>fs_candidate := cand,
                            fs_cursor := end_cursor (fs_cursor scan) (ip_transactions resp)\<rparr>,
                       ip_oldest_tx_id resp))))"

primrec funding_pages :: "nat \<Rightarrow> payout_ctx \<Rightarrow> bytes \<Rightarrow> bytes \<Rightarrow> u64 option \<Rightarrow> u64 \<Rightarrow> u64 option
    \<Rightarrow> funding_scan \<Rightarrow> fworld \<Rightarrow> funding_discovery option fproc" where
  "funding_pages 0 pc source_id payout_id last_processed fee_e8s observed_oldest scan w =
     Done w (Some FundingInProgress)"
| "funding_pages (Suc n) pc source_id payout_id last_processed fee_e8s observed_oldest scan w =
     (if \<not> owns_scan (pc_token pc) last_processed scan (fw_state w) then Done w None
      else Await w (FReqIndex (pc_index pc) payout_id (fs_cursor scan) page_size) (\<lambda>r w1.
        if \<not> owns_scan (pc_token pc) last_processed scan (fw_state w1) then Done w1 None
        else case funding_step pc source_id payout_id last_processed fee_e8s observed_oldest scan r of
          Inl result \<Rightarrow> Done w1 (Some result)
        | Inr (complete, next_scan, oldest) \<Rightarrow>
            let w2 = f_with_state_mut (\<lambda>st. st\<lparr>fs_active_funding_scan :=
                  (if complete then None else Some next_scan)\<rparr>) w1
            in if complete
               then Done w2 (Some (case fs_candidate next_scan of
                   None \<Rightarrow> FundingEmpty | Some c \<Rightarrow> FundingFound c))
               else funding_pages n pc source_id payout_id last_processed fee_e8s oldest next_scan w2))"

definition max_funding_scan_pages_per_tick :: nat where "max_funding_scan_pages_per_tick = 128"

definition discover_oldest_unprocessed_funding_tranche_with_lease ::
  "payout_ctx \<Rightarrow> bytes \<Rightarrow> bytes \<Rightarrow> u64 option \<Rightarrow> u64 \<Rightarrow> fworld \<Rightarrow> funding_discovery option fproc" where
  "discover_oldest_unprocessed_funding_tranche_with_lease pc payout_id source_id last_processed fee_e8s w =
     (if \<not> pc_current pc w then Done w None
      else case begin_funding_scan (pc_token pc) last_processed (fw_state w) of
        (None, st) \<Rightarrow> Done (f_with_state_mut (\<lambda>_. st) w) None
      | (Some scan, st) \<Rightarrow>
          funding_pages max_funding_scan_pages_per_tick pc source_id payout_id last_processed fee_e8s None
            scan (f_with_state_mut (\<lambda>_. st) w))"

section \<open>The job\<close>

definition ensure_active_job_with_boundary ::
  "u64 \<Rightarrow> u64 \<Rightarrow> u64 \<Rightarrow> u64 \<Rightarrow> u64 \<Rightarrow> u64 option \<Rightarrow> funding_tranche option \<Rightarrow> fstate \<Rightarrow> fstate" where
  "ensure_active_job_with_boundary now_nanos fee_e8s pot_start_e8s denom_e8s round_end_time
       round_end_latest funding st =
     (if fs_active_payout_job st \<noteq> None then st
      else let job0 = payout_job_new (fs_payout_nonce st) fee_e8s pot_start_e8s denom_e8s now_nanos;
               job1 = (case funding of None \<Rightarrow> job0
                 | Some t \<Rightarrow> configure_funding_tranche (ft_tx_id t) (ft_timestamp_nanos t) (ft_amount_e8s t) job0);
               job2 = (case fs_current_round_start_time_nanos st of
                   Some start \<Rightarrow> configure_round_accounting (Some start)
                     (fs_current_round_start_latest_tx_id st) round_end_time round_end_latest 0 False job1
                 | None \<Rightarrow> configure_round_accounting None None round_end_time round_end_latest 0 False job1)
           in st\<lparr>fs_payout_nonce := sat_add (fs_payout_nonce st) 1, fs_active_payout_job := Some job2\<rparr>)"

text \<open>The ownership checks of the scan: the lease is current and the active job satisfies \<open>ok\<close>.\<close>

definition owns_job :: "u64 option \<Rightarrow> (payout_job \<Rightarrow> bool) \<Rightarrow> fworld \<Rightarrow> bool" where
  "owns_job token ok w \<longleftrightarrow> f_lease_current token w \<and>
     (case fs_active_payout_job (fw_state w) of None \<Rightarrow> False | Some active \<Rightarrow> ok active)"

definition map_job_if :: "u64 option \<Rightarrow> (payout_job \<Rightarrow> bool) \<Rightarrow> (payout_job \<Rightarrow> payout_job) \<Rightarrow> fworld \<Rightarrow> fworld" where
  "map_job_if token ok f w = f_with_state_mut (\<lambda>st. if \<not> lease_current_in token st then st
     else map_active_job (\<lambda>j. if ok j then f j else j) st) w"

text \<open>\<open>skip_cached_history\<close>; \<open>None\<close> is a panic.\<close>

definition skip_cached_history ::
  "payout_job \<Rightarrow> u64 option \<Rightarrow> fworld \<Rightarrow> ((skip_range_insert_error + bool) \<times> fworld) option" where
  "skip_cached_history job token w =
     (case skip_target job (fw_skip w) of
        Inl e \<Rightarrow> Some (Inl e, w)
      | Inr None \<Rightarrow> Some (Inr False, w)
      | Inr (Some (r, complete)) \<Rightarrow>
          (case fs_active_payout_job (fw_state w) of
             None \<Rightarrow> Some (Inr False, f_with_state_mut id w)
           | Some active \<Rightarrow>
               if \<not> f_lease_current token w \<or> pj_id active \<noteq> pj_id job
                 \<or> pj_next_start active \<noteq> pj_next_start job
                 \<or> pj_effective_denom_scan_complete active \<noteq> pj_effective_denom_scan_complete job
                 \<or> pj_scan_complete active \<noteq> pj_scan_complete job
                 \<or> pj_pending_transfer active \<noteq> None
               then Some (Inr False, f_with_state_mut id w)
               else (case skip_jump r complete active (fw_skip w) of
                   JumpPanic \<Rightarrow> None
                 | JumpError \<Rightarrow> Some (Inl InvalidRange, f_with_state_mut id w)
                 | JumpTo job' m \<Rightarrow> Some (Inr True, (f_map_job (\<lambda>_. job') w)\<lparr>fw_skip := m\<rparr>))))"

definition flush_scan_progress ::
  "u64 \<Rightarrow> u64 \<Rightarrow> u64 option \<Rightarrow> skip_candidate \<Rightarrow> u64 option \<Rightarrow> u64 \<Rightarrow> u64 option \<Rightarrow> fworld \<Rightarrow> fworld" where
  "flush_scan_progress small bad next_start cand token job_id expected_cursor w =
     (if small = 0 \<and> bad = 0 \<and> next_start = None \<and> sk_tx_count cand = 0 then w
      else map_job_if token (\<lambda>j. pj_id j = job_id \<and> pj_next_start j = expected_cursor)
        (\<lambda>j. job_set_candidate cand (j\<lparr>
           pj_ignored_under_threshold := sat_add (pj_ignored_under_threshold j) small,
           pj_ignored_bad_memo := sat_add (pj_ignored_bad_memo j) bad,
           pj_next_start := (if next_start \<noteq> None then next_start else pj_next_start j)\<rparr>)) w)"

section \<open>The denominator page\<close>

definition denom_params_of :: "payout_ctx \<Rightarrow> payout_job \<Rightarrow> fworld \<Rightarrow> denom_params" where
  "denom_params_of pc job w =
     \<lparr>dp_cx = fe_cx (pc_env pc), dp_staking_id = pc_staking_id pc,
      dp_min_tx_e8s = fc_min_tx_e8s (fs_config (fw_state w)), dp_delay = recognition_delay_seconds w,
      dp_now_nanos = pc_now_nanos pc, dp_job = job, dp_skip = fw_skip w\<rparr>"

definition max_index_pages_per_payout_tick :: u64 where "max_index_pages_per_payout_tick = 64"

text \<open>\<open>again\<close> is the \<open>continue\<close> of the driver loop, with the count of pages scanned so far.\<close>

definition same_denom_cursor :: "payout_job \<Rightarrow> payout_job \<Rightarrow> bool" where
  "same_denom_cursor job active \<longleftrightarrow> pj_id active = pj_id job \<and>
     pj_next_start active = pj_next_start job \<and>
     pj_effective_denom_scan_complete active = Some False"

definition denom_store :: "(u64 \<Rightarrow> fworld \<Rightarrow> bool fproc) \<Rightarrow> payout_ctx \<Rightarrow> payout_job \<Rightarrow> u64 \<Rightarrow> bool
    \<Rightarrow> index_page \<Rightarrow> u64 \<Rightarrow> skip_candidate \<Rightarrow> skip_range list \<Rightarrow> fworld \<Rightarrow> bool fproc" where
  "denom_store again pc job pages scan_complete resp denominator cand learned w =
     (case persist_new_skip_ranges learned (fw_skip w) of
        (Some _, m) \<Rightarrow> Done (latch_skip_range_invariant_rescue (w\<lparr>fw_skip := m\<rparr>)) True
      | (None, m) \<Rightarrow>
          let w1 = map_job_if (pc_token pc) (same_denom_cursor job)
                (job_apply_denom_page scan_complete (ip_oldest_tx_id resp) (ip_transactions resp)
                   denominator cand) (w\<lparr>fw_skip := m\<rparr>)
          in if \<not> scan_complete \<and> pages \<ge> max_index_pages_per_payout_tick then Done w1 True
             else again pages w1)"

definition denom_response :: "(u64 \<Rightarrow> fworld \<Rightarrow> bool fproc) \<Rightarrow> payout_ctx \<Rightarrow> payout_job \<Rightarrow> u64
    \<Rightarrow> f_resp \<Rightarrow> fworld \<Rightarrow> bool fproc" where
  "denom_response again pc job pages0 r w =
     (case index_response r of
        None \<Rightarrow> Done w False
      | Some resp \<Rightarrow>
          if \<not> owns_job (pc_token pc) (same_denom_cursor job) w then Done w True
          else let pages = sat_add pages0 1;
                   expected_oldest = fc_expected_first_staking_tx_id (fs_config (fw_state w));
                   oldest = ip_oldest_tx_id resp
            in if expected_oldest \<noteq> None \<and> oldest \<noteq> expected_oldest
               then Done (f_with_health (apply_anchor_observation oldest (pc_now_secs pc)) w) True
               else (case validate_history_page resp (pj_next_start job)
                       (case pj_observed_oldest_tx_id job of None \<Rightarrow> expected_oldest | Some o1 \<Rightarrow> Some o1) of
                   None \<Rightarrow> Done w False
                 | Some scan_complete \<Rightarrow>
                     (case denom_page (denom_params_of pc job w) scan_complete (ip_transactions resp) of
                        PagePanic \<Rightarrow> Trap
                      | PageSkipFault \<Rightarrow> Done (latch_skip_range_invariant_rescue w) True
                      | PageOverflow \<Rightarrow> Done w False
                      | PageOk denominator cand learned \<Rightarrow>
                          denom_store again pc job pages scan_complete resp denominator cand learned w)))"

section \<open>The payout page\<close>

record page_acc =
  pa_small :: u64
  pa_bad :: u64
  pa_next :: "u64 option"
  pa_persisted :: "u64 option"

text \<open>What a payout target becomes: kind, beneficiary, memo, destination subaccount, neuron.\<close>

record payout_dest =
  pd_kind :: transfer_kind
  pd_beneficiary :: principal
  pd_memo :: "bytes option"
  pd_subaccount :: "subaccount option"
  pd_neuron :: "u64 option"

definition pending_of :: "payout_dest \<Rightarrow> u64 \<Rightarrow> u64 \<Rightarrow> u64 \<Rightarrow> pending_notification" where
  "pending_of d gross fee_e8s tx_id =
     \<lparr>pn_kind = pd_kind d, pn_beneficiary = pd_beneficiary d, pn_gross_share_e8s = gross,
      pn_amount_e8s = sat_sub gross fee_e8s, pn_block_index = 0, pn_next_start = Some tx_id,
      pn_transfer_memo = pd_memo d, pn_destination_subaccount = pd_subaccount d,
      pn_neuron_id = pd_neuron d\<rparr>"

definition at_payout_cursor :: "payout_job \<Rightarrow> u64 option \<Rightarrow> payout_job \<Rightarrow> bool" where
  "at_payout_cursor job cursor active \<longleftrightarrow> pj_id active = pj_id job \<and>
     pj_next_start active = cursor \<and> \<not> pj_scan_complete active"

definition pay_commitment :: "(page_acc \<Rightarrow> fworld \<Rightarrow> bool fproc) \<Rightarrow> payout_ctx \<Rightarrow> payout_job \<Rightarrow> page_acc
    \<Rightarrow> payout_job \<Rightarrow> payout_dest \<Rightarrow> u64 \<Rightarrow> u64 \<Rightarrow> fworld \<Rightarrow> bool fproc" where
  "pay_commitment continue_page pc job acc snapshot d gross tx_id w =
     (let w1 = flush_scan_progress (pa_small acc) (pa_bad acc) (pa_next acc) no_candidate (pc_token pc)
            (pj_id job) (pa_persisted acc) w;
          acc1 = acc\<lparr>pa_small := 0, pa_bad := 0,
            pa_persisted := (if pa_next acc \<noteq> None then pa_next acc else pa_persisted acc)\<rparr>
      in if \<not> owns_job (pc_token pc) (\<lambda>j. pj_id j = pj_id job \<and> pj_next_start j = pa_next acc1) w1
         then Done w1 True
         else pbind (send_and_notify (pay_ctx_of pc (pj_fee_e8s snapshot))
                (pending_of d gross (pj_fee_e8s snapshot) tx_id) w1) (\<lambda>w2 ok.
           if \<not> ok then Done w2 True
           else if \<not> owns_job (pc_token pc) (at_payout_cursor job (pa_persisted acc1)) w2 then Done w2 True
           else continue_page acc1 w2))"

text \<open>The neuron's staking subaccount, read with one retry, and what follows.\<close>

definition neuron_staking_subaccount_retry_once :: "payout_ctx \<Rightarrow> u64
    \<Rightarrow> (client_error + subaccount \<Rightarrow> fworld \<Rightarrow> bool fproc) \<Rightarrow> fworld \<Rightarrow> bool fproc" where
  "neuron_staking_subaccount_retry_once pc neuron_id k w =
     Await w (FReqListNeurons (pc_governance pc) neuron_id) (\<lambda>r w1.
       case fclient_subaccount neuron_id r of
         Inr sub \<Rightarrow> k (Inr sub) w1
       | Inl _ \<Rightarrow> Await w1 (FReqListNeurons (pc_governance pc) neuron_id)
           (\<lambda>r2 w2. k (fclient_subaccount neuron_id r2) w2))"

definition stake_resolved :: "(page_acc \<Rightarrow> fworld \<Rightarrow> bool fproc) \<Rightarrow> payout_ctx \<Rightarrow> payout_job \<Rightarrow> page_acc
    \<Rightarrow> payout_job \<Rightarrow> u64 \<Rightarrow> bytes option \<Rightarrow> u64 \<Rightarrow> u64 \<Rightarrow> client_error + subaccount \<Rightarrow> fworld
    \<Rightarrow> bool fproc" where
  "stake_resolved continue_page pc job acc snapshot neuron_id memo gross tx_id res w =
     (if \<not> owns_job (pc_token pc) (at_payout_cursor job (pa_persisted acc)) w then Done w True
      else case res of
        Inl _ \<Rightarrow> continue_page acc (map_job_if (pc_token pc) (\<lambda>j. pj_id j = pj_id job)
            (\<lambda>j. j\<lparr>pj_failed_topups := sat_add (pj_failed_topups j) 1\<rparr>) w)
      | Inr sub \<Rightarrow>
          (case fc_governance_canister_id (pc_cfg pc) of
             None \<Rightarrow> Trap
           | Some governance \<Rightarrow> pay_commitment continue_page pc job acc snapshot
               \<lparr>pd_kind = KNeuronStake, pd_beneficiary = governance, pd_memo = memo,
                pd_subaccount = Some sub, pd_neuron = Some neuron_id\<rparr> gross tx_id w))"

definition pay_target :: "(page_acc \<Rightarrow> fworld \<Rightarrow> bool fproc) \<Rightarrow> payout_ctx \<Rightarrow> payout_job \<Rightarrow> page_acc
    \<Rightarrow> payout_job \<Rightarrow> payout_target \<Rightarrow> u64 \<Rightarrow> u64 \<Rightarrow> fworld \<Rightarrow> bool fproc" where
  "pay_target continue_page pc job acc snapshot target gross tx_id w =
     (case target of
        CyclesTopUp canister_id \<Rightarrow> pay_commitment continue_page pc job acc snapshot
          \<lparr>pd_kind = KBeneficiary, pd_beneficiary = canister_id, pd_memo = None, pd_subaccount = None,
           pd_neuron = None\<rparr> gross tx_id w
      | TargetRawIcp canister_id sub memo \<Rightarrow> pay_commitment continue_page pc job acc snapshot
          \<lparr>pd_kind = KRawIcp, pd_beneficiary = canister_id, pd_memo = Some memo, pd_subaccount = sub,
           pd_neuron = None\<rparr> gross tx_id w
      | TargetNeuronStake neuron_id memo \<Rightarrow> neuron_staking_subaccount_retry_once pc neuron_id
          (stake_resolved continue_page pc job acc snapshot neuron_id memo gross tx_id) w)"

text \<open>One record of the page; \<open>continue_page\<close> goes on with the next one.\<close>

definition payout_tx :: "(page_acc \<Rightarrow> fworld \<Rightarrow> bool fproc) \<Rightarrow> payout_ctx \<Rightarrow> payout_job \<Rightarrow> index_tx
    \<Rightarrow> page_acc \<Rightarrow> fworld \<Rightarrow> bool fproc" where
  "payout_tx continue_page pc job tx acc0 w =
     (let acc = acc0\<lparr>pa_next := Some (ix_id tx)\<rparr> in
      if beyond_round job (ix_id tx) then continue_page acc w
      else case skip_range_containing (fw_skip w) (ix_id tx) of
        Inl _ \<Rightarrow> Done (latch_skip_range_invariant_rescue w) True
      | Inr (Some _) \<Rightarrow> continue_page acc w
      | Inr None \<Rightarrow>
          (case memo_bytes_from_index_tx tx (pc_staking_id pc) of
             None \<Rightarrow> continue_page acc w
           | Some c \<Rightarrow>
               (case fs_active_payout_job (fw_state w) of
                  None \<Rightarrow> Trap
                | Some snapshot \<Rightarrow>
                    (case classify_commitment (fe_cx (pc_env pc)) (fc_min_tx_e8s (fs_config (fw_state w))) c of
                       IgnoreUnderThreshold \<Rightarrow> continue_page (acc\<lparr>pa_small := sat_add (pa_small acc) 1\<rparr>) w
                     | IgnoreBadMemo \<Rightarrow> continue_page (acc\<lparr>pa_bad := sat_add (pa_bad acc) 1\<rparr>) w
                     | ValidCommitment target \<Rightarrow>
                         let gross = compute_raw_share_e8s
                               (commitment_weight snapshot (pc_now_nanos pc) (recognition_delay_seconds w) tx c)
                               (pj_pot_start_e8s snapshot) (effective_denom_e8s snapshot)
                         in if gross \<le> pj_fee_e8s snapshot then continue_page acc w
                            else if sat_add (pj_gross_outflow_e8s snapshot) gross > pj_pot_start_e8s snapshot
                            then Done (latch_forced_rescue_reason AccountingInvariantBroken w) True
                            else pay_target continue_page pc job acc snapshot target gross (ix_id tx) w))))"

primrec payout_txs :: "(page_acc \<Rightarrow> fworld \<Rightarrow> bool fproc) \<Rightarrow> payout_ctx \<Rightarrow> payout_job \<Rightarrow> index_tx list
    \<Rightarrow> page_acc \<Rightarrow> fworld \<Rightarrow> bool fproc" where
  "payout_txs page_done pc job [] acc w = page_done acc w"
| "payout_txs page_done pc job (tx # txs) acc w = payout_tx (payout_txs page_done pc job txs) pc job tx acc w"

definition payout_page_done :: "(u64 \<Rightarrow> fworld \<Rightarrow> bool fproc) \<Rightarrow> payout_ctx \<Rightarrow> payout_job \<Rightarrow> u64 \<Rightarrow> bool
    \<Rightarrow> u64 option \<Rightarrow> page_acc \<Rightarrow> fworld \<Rightarrow> bool fproc" where
  "payout_page_done again pc job pages scan_complete last_id acc w =
     (let w1 = map_job_if (pc_token pc) (\<lambda>j. pj_id j = pj_id job \<and> pj_next_start j = pa_persisted acc)
            (\<lambda>j. let j1 = job_set_candidate no_candidate (j\<lparr>
                   pj_ignored_under_threshold := sat_add (pj_ignored_under_threshold j) (pa_small acc),
                   pj_ignored_bad_memo := sat_add (pj_ignored_bad_memo j) (pa_bad acc),
                   pj_next_start := (if pa_next acc \<noteq> None then pa_next acc else pj_next_start j)\<rparr>)
               in if scan_complete then j1\<lparr>pj_scan_complete := True\<rparr> else j1\<lparr>pj_next_start := last_id\<rparr>) w
      in if \<not> owns_job (pc_token pc) (\<lambda>j. pj_id j = pj_id job) w1 then Done w1 True
         else if \<not> scan_complete \<and> pages \<ge> max_index_pages_per_payout_tick then Done w1 True
         else again pages w1)"

definition payout_response :: "(u64 \<Rightarrow> fworld \<Rightarrow> bool fproc) \<Rightarrow> payout_ctx \<Rightarrow> payout_job \<Rightarrow> u64
    \<Rightarrow> f_resp \<Rightarrow> fworld \<Rightarrow> bool fproc" where
  "payout_response again pc job pages0 r w =
     (case index_response r of
        None \<Rightarrow> Done w False
      | Some resp \<Rightarrow>
          if \<not> owns_job (pc_token pc) (\<lambda>j. at_payout_cursor job (pj_next_start job) j
               \<and> effective_denom_scan_complete j) w then Done w True
          else let pages = sat_add pages0 1;
                   expected_oldest = fc_expected_first_staking_tx_id (fs_config (fw_state w))
            in (case validate_history_page resp (pj_next_start job)
                  (case pj_observed_oldest_tx_id job of None \<Rightarrow> expected_oldest | Some o1 \<Rightarrow> Some o1) of
              None \<Rightarrow> Done (f_with_health (record_latest_invariant_failure (pc_now_secs pc)) w) False
            | Some scan_complete \<Rightarrow>
                payout_txs (payout_page_done again pc job pages scan_complete
                    (end_cursor (pj_next_start job) (ip_transactions resp)))
                  pc job (ip_transactions resp)
                  \<lparr>pa_small = 0, pa_bad = 0, pa_next = pj_next_start job, pa_persisted = pj_next_start job\<rparr>
                  (note_index_page_with_lease resp (pc_token pc) (pj_id job) (pj_next_start job) w)))"

section \<open>The end of a job\<close>

primrec any_canister_exists :: "principal list \<Rightarrow> fworld \<Rightarrow> bool fproc" where
  "any_canister_exists [] w = Done w False"
| "any_canister_exists (b # bs) w =
     Await w (FReqCanisterInfo b) (\<lambda>r w1. if canister_exists r = Inr True then Done w1 True
       else any_canister_exists bs w1)"

definition zero_success_run_counts_toward_rescue :: "payout_job \<Rightarrow> fworld \<Rightarrow> bool fproc" where
  "zero_success_run_counts_toward_rescue job w =
     (if unwrap_or (pj_cmc_attempt_count job) 0 = 0 \<or> unwrap_or (pj_cmc_success_count job) 0 > 0
      then Done w False
      else any_canister_exists (take max_cmc_diagnostic_witnesses
             (unwrap_or (pj_cmc_attempted_beneficiaries job) [])) w)"

definition finalize_state :: "payout_job \<Rightarrow> bool \<Rightarrow> u64 \<Rightarrow> fclocks \<times> fstate \<Rightarrow> fclocks \<times> fstate" where
  "finalize_state job zero_success_run_counts now_secs s =
     (case apply_job_health_observations job zero_success_run_counts now_secs
             (fst s, (snd s)\<lparr>fs_active_payout_job := None\<rparr>) of
        (k, st) \<Rightarrow>
          let st1 = (case pj_round_end_time_nanos job of None \<Rightarrow> st
                | Some t \<Rightarrow> st\<lparr>fs_current_round_start_time_nanos := Some t,
                     fs_current_round_start_latest_tx_id :=
                       (case pj_round_end_latest_tx_id job of
                          None \<Rightarrow> pj_observed_latest_tx_id job | Some e \<Rightarrow> Some e)\<rparr>);
              st2 = (case pj_funding_tx_id job of None \<Rightarrow> st1
                | Some f \<Rightarrow> st1\<lparr>fs_last_processed_funding_tx_id := Some f\<rparr>)
          in (k, st2\<lparr>fs_last_summary := Some (summary_from_job job)\<rparr>))"

definition finalize_completed_job :: "payout_ctx \<Rightarrow> u64 \<Rightarrow> fworld \<Rightarrow> bool fproc" where
  "finalize_completed_job pc expected_job_id w =
     (case fs_active_payout_job (fw_state w) of
        None \<Rightarrow> Done w False
      | Some job \<Rightarrow>
          if \<not> pc_current pc w \<or> pj_id job \<noteq> expected_job_id then Done w False
          else pbind (zero_success_run_counts_toward_rescue job w) (\<lambda>w1 counts.
            if \<not> owns_job (pc_token pc) (\<lambda>j. pj_id j = expected_job_id) w1
            then Done (f_with_state_mut id w1) False
            else Done (f_with_health (finalize_state job counts (pc_now_secs pc)) w1) True))"

definition finish_payout :: "payout_ctx \<Rightarrow> payout_job \<Rightarrow> fworld \<Rightarrow> bool fproc" where
  "finish_payout pc job w =
     pbind (finalize_completed_job pc (pj_id job) w) (\<lambda>w1 ok.
       if \<not> ok then Done w1 True
       else Await w1 (FReqBalanceOf (pc_ledger pc) (fc_staking_account (pc_cfg pc))) (\<lambda>r w2.
         case fclient_u64 r of
           Inl _ \<Rightarrow> latch_if_current pc w2
         | Inr balance \<Rightarrow>
             if \<not> pc_current pc w2 then Done w2 True
             else pbind (refresh_index_latest_health_after_payout_with_lease pc balance w2)
                    (\<lambda>w3 _. latch_if_current pc w3)))"

definition remainder_pending :: "payout_ctx \<Rightarrow> u64 \<Rightarrow> u64 \<Rightarrow> pending_notification" where
  "remainder_pending pc gross amount =
     \<lparr>pn_kind = KRemainderToRelay, pn_beneficiary = fe_relay (pc_env pc), pn_gross_share_e8s = gross,
      pn_amount_e8s = amount, pn_block_index = 0, pn_next_start = None, pn_transfer_memo = Some [],
      pn_destination_subaccount = None, pn_neuron_id = None\<rparr>"

text \<open>The completed scan: the remainder, then the finish; both \<open>expect\<close>s are panics.\<close>

definition complete_payout :: "payout_ctx \<Rightarrow> payout_job \<Rightarrow> fworld \<Rightarrow> bool fproc" where
  "complete_payout pc job w =
     (case checked_sub (pj_pot_start_e8s job) (pj_gross_outflow_e8s job) of
        None \<Rightarrow> Trap
      | Some remainder_gross \<Rightarrow>
          if remainder_gross > pj_fee_e8s job \<and> pj_remainder_to_relay_e8s job = 0
          then (case checked_sub remainder_gross (pj_fee_e8s job) of
              None \<Rightarrow> Trap
            | Some amount \<Rightarrow>
                pbind (send_and_notify (pay_ctx_of pc (pj_fee_e8s job))
                        (remainder_pending pc remainder_gross amount) w)
                  (\<lambda>w1 ok. if \<not> ok then Done w1 True else finish_payout pc job w1))
          else finish_payout pc job w)"

section \<open>The driver loop\<close>

definition payout_scan_step :: "(u64 \<Rightarrow> fworld \<Rightarrow> bool fproc) \<Rightarrow> payout_ctx \<Rightarrow> payout_job \<Rightarrow> u64 \<Rightarrow> fworld
    \<Rightarrow> bool fproc" where
  "payout_scan_step again pc job pages w =
     (if \<not> effective_denom_scan_complete job
      then Await w (FReqIndex (pc_index pc) (pc_staking_id pc) (pj_next_start job) page_size)
             (denom_response again pc job pages)
      else if pj_scan_complete job then complete_payout pc job w
      else Await w (FReqIndex (pc_index pc) (pc_staking_id pc) (pj_next_start job) page_size)
             (payout_response again pc job pages))"

definition payout_iteration :: "(u64 \<Rightarrow> fworld \<Rightarrow> bool fproc) \<Rightarrow> payout_ctx \<Rightarrow> u64 \<Rightarrow> fworld \<Rightarrow> bool fproc" where
  "payout_iteration again pc pages w =
     (if \<not> pc_current pc w then Done w True
      else case fs_active_payout_job (fw_state w) of
        None \<Rightarrow> Done (f_with_state_mut (maybe_latch_bootstrap_rescue (pc_now_secs pc)) w) True
      | Some job \<Rightarrow>
          if pj_pending_transfer job \<noteq> None
          then pbind (drive_pending_transfer (pay_ctx_of pc (pj_fee_e8s job)) w)
                 (\<lambda>w1 ok. if \<not> ok then Done w1 True else again pages w1)
          else if pj_scan_complete job then payout_scan_step again pc job pages w
          else if pages \<ge> max_index_pages_per_payout_tick then Done w True
          else (case skip_cached_history job (pc_token pc) w of
              None \<Rightarrow> Trap
            | Some (Inl _, w1) \<Rightarrow> Done (latch_skip_range_invariant_rescue w1) True
            | Some (Inr True, w1) \<Rightarrow> again (pages + 1) w1
            | Some (Inr False, w1) \<Rightarrow> payout_scan_step again pc job pages w1))"

text \<open>
  The loop of the code has no counter but the pages; each page or jump is followed by at most one
  drive of a pending transfer, so 140 rounds are enough for 64 pages.  Using them up is the marker
  request, which the safety proofs show never to be sent.
\<close>

primrec payout_rounds :: "nat \<Rightarrow> payout_ctx \<Rightarrow> u64 \<Rightarrow> fworld \<Rightarrow> bool fproc" where
  "payout_rounds 0 pc pages w = Await w FModelBound (\<lambda>_ w1. Done w1 False)"
| "payout_rounds (Suc n) pc pages w = payout_iteration (payout_rounds n pc) pc pages w"

definition payout_round_bound :: nat where "payout_round_bound = 140"

section \<open>Opening a job\<close>

definition funding_unchanged :: "u64 option \<Rightarrow> u64 \<Rightarrow> fworld \<Rightarrow> bool" where
  "funding_unchanged last_processed nonce w \<longleftrightarrow>
     fs_last_processed_funding_tx_id (fw_state w) = last_processed \<and>
     fs_payout_nonce (fw_state w) = nonce \<and> fs_active_payout_job (fw_state w) = None"

definition open_job :: "payout_ctx \<Rightarrow> u64 \<Rightarrow> u64 \<Rightarrow> u64 option \<Rightarrow> u64 \<Rightarrow> funding_tranche \<Rightarrow> fworld
    \<Rightarrow> bool fproc" where
  "open_job pc fee_e8s denom_e8s last_processed nonce tranche w =
     (if \<not> pc_current pc w \<or> \<not> funding_unchanged last_processed nonce w then Done w True
      else payout_rounds payout_round_bound pc 0
        (f_with_state_mut (ensure_active_job_with_boundary (pc_now_nanos pc) fee_e8s (ft_amount_e8s tranche)
           denom_e8s (ft_timestamp_nanos tranche) (Some (ft_tx_id tranche)) (Some tranche)) w))"

definition balance_reread :: "payout_ctx \<Rightarrow> u64 \<Rightarrow> u64 \<Rightarrow> u64 option \<Rightarrow> u64 \<Rightarrow> funding_tranche \<Rightarrow> f_resp
    \<Rightarrow> fworld \<Rightarrow> bool fproc" where
  "balance_reread pc fee_e8s denom_e8s last_processed nonce tranche r w =
     (if \<not> pc_current pc w \<or> \<not> funding_unchanged last_processed nonce w then Done w True
      else case fclient_u64 r of
        Inl _ \<Rightarrow> Done w False
      | Inr current_balance \<Rightarrow>
          if current_balance < ft_amount_e8s tranche
          then Done (latch_forced_rescue_reason FundingTrancheBalanceMismatch w) True
          else open_job pc fee_e8s denom_e8s last_processed nonce tranche w)"

definition funding_discovered :: "payout_ctx \<Rightarrow> u64 \<Rightarrow> u64 \<Rightarrow> u64 \<Rightarrow> u64 option \<Rightarrow> u64 \<Rightarrow> fworld
    \<Rightarrow> funding_discovery option \<Rightarrow> bool fproc" where
  "funding_discovered pc fee_e8s payout_balance denom_e8s last_processed nonce w discovery =
     (case discovery of
        None \<Rightarrow> Done w True
      | Some (FundingFound tranche) \<Rightarrow>
          if payout_balance < ft_amount_e8s tranche
          then Await w (FReqBalanceOf (pc_ledger pc) (payout_account w))
                 (balance_reread pc fee_e8s denom_e8s last_processed nonce tranche)
          else open_job pc fee_e8s denom_e8s last_processed nonce tranche w
      | Some FundingInProgress \<Rightarrow> probe_and_end pc denom_e8s w
      | Some FundingEmpty \<Rightarrow> probe_and_end pc denom_e8s w
      | Some FundingIndexReadFailed \<Rightarrow> Done w False
      | Some FundingMissingTimestamp \<Rightarrow>
          Done (latch_forced_rescue_reason FundingDiscoveryUnreadable w) True)"

definition payout_with_denom :: "payout_ctx \<Rightarrow> u64 \<Rightarrow> u64 \<Rightarrow> f_resp \<Rightarrow> fworld \<Rightarrow> bool fproc" where
  "payout_with_denom pc fee_e8s payout_balance r w =
     (case fclient_u64 r of
        Inl _ \<Rightarrow> Done w False
      | Inr denom_e8s \<Rightarrow>
          if \<not> pc_current pc w then Done w True
          else if payout_balance \<le> fee_e8s \<or> denom_e8s = 0 then probe_and_end pc denom_e8s w
          else let last_processed = fs_last_processed_funding_tx_id (fw_state w);
                   nonce = fs_payout_nonce (fw_state w)
            in pbind (discover_oldest_unprocessed_funding_tranche_with_lease pc
                   (fe_account_id (pc_env pc) (payout_account w))
                   (fe_account_id (pc_env pc) (fc_funding_source_account (pc_cfg pc)))
                   last_processed fee_e8s w)
                 (funding_discovered pc fee_e8s payout_balance denom_e8s last_processed nonce))"

definition f_payout_with_balance :: "payout_ctx \<Rightarrow> u64 \<Rightarrow> f_resp \<Rightarrow> fworld \<Rightarrow> bool fproc" where
  "f_payout_with_balance pc fee_e8s r w =
     (case fclient_u64 r of
        Inl _ \<Rightarrow> Done w False
      | Inr payout_balance \<Rightarrow>
          if \<not> pc_current pc w then Done w True
          else Await w (FReqBalanceOf (pc_ledger pc) (fc_staking_account (pc_cfg pc)))
                 (payout_with_denom pc fee_e8s payout_balance))"

definition f_payout_with_fee :: "payout_ctx \<Rightarrow> f_resp \<Rightarrow> fworld \<Rightarrow> bool fproc" where
  "f_payout_with_fee pc r w =
     (case fclient_u64 r of
        Inl _ \<Rightarrow> Done w False
      | Inr fee_e8s \<Rightarrow>
          if \<not> pc_current pc w then Done w True
          else Await w (FReqBalanceOf (pc_ledger pc) (payout_account w)) (f_payout_with_balance pc fee_e8s))"

definition process_payout_with_lease :: "payout_ctx \<Rightarrow> fworld \<Rightarrow> bool fproc" where
  "process_payout_with_lease pc0 w =
     (if \<not> pc_current pc0 w then Done w True
      else let pc = pc0\<lparr>pc_cfg := fs_config (fw_state w)\<rparr> in
        if fs_active_payout_job (fw_state w) = None
        then Await w (FReqFee (pc_ledger pc)) (f_payout_with_fee pc)
        else payout_rounds payout_round_bound pc 0 w)"

end
