(* ===== verification/FaucetTick.thy ===== *)
theory FaucetTick
  imports FaucetPayout ControllerPolicy
begin

text \<open>
  The Faucet at work: the main guard, the ticks and their retries (\<open>scheduler/tick.rs\<close>), rescue
  (\<open>rescue.rs\<close>), pokes (\<open>poke.rs\<close>), and the entry points of \<open>lib.rs\<close>.
\<close>

section \<open>The main guard\<close>

definition f_main_tick_lease_seconds :: u64 where "f_main_tick_lease_seconds = 15 * 60"

definition f_main_guard_acquire :: "u64 \<Rightarrow> fworld \<Rightarrow> timer_lease_guard option \<times> fworld" where
  "f_main_guard_acquire now_secs w =
     (case tlg_acquire now_secs f_main_tick_lease_seconds (fs_main_lock_state_ts (fw_state w)) of
        None \<Rightarrow> (None, f_with_state_mut id w)
      | Some inner \<Rightarrow> (Some inner,
          f_with_state_mut (\<lambda>st. st\<lparr>fs_main_lock_state_ts := Some (tlg_expires inner)\<rparr>) w))"

text \<open>\<open>Drop for MainGuard\<close>.\<close>

definition f_main_guard_release :: "timer_lease_guard \<Rightarrow> fworld \<Rightarrow> fworld" where
  "f_main_guard_release g w =
     (if \<not> tlg_active g then w
      else f_with_state_mut (\<lambda>st. if fst (tlg_release g (fs_main_lock_state_ts st)) = Released
             then st\<lparr>fs_main_lock_state_ts := Some 0\<rparr> else st) w)"

text \<open>\<open>None\<close> is the panic of an exhausted marker.\<close>

definition f_advance_main_run_marker :: "fworld \<Rightarrow> fworld option" where
  "f_advance_main_run_marker w =
     (case checked_add (fw_run_marker w) 1 of
        None \<Rightarrow> None
      | Some mk \<Rightarrow> Some (w\<lparr>fw_run_marker := mk, fw_retry_pending := None\<rparr>))"

definition f_main_guard_finish :: "timer_lease_guard \<Rightarrow> u64 \<Rightarrow> nat option \<Rightarrow> fworld \<Rightarrow> fworld option" where
  "f_main_guard_finish g now_secs err w =
     (let (outcome, g') = tlg_release g (fs_main_lock_state_ts (fw_state w)) in
      case (if outcome = Released
            then map_option (f_with_state_mut (\<lambda>st. st\<lparr>fs_last_main_run_ts := now_secs,
                   fs_main_lock_state_ts := Some 0\<rparr>)) (f_advance_main_run_marker w)
            else Some (f_with_state_mut id w)) of
        None \<Rightarrow> None
      | Some w1 \<Rightarrow> Some (f_main_guard_release g'
          (case err of None \<Rightarrow> w1 | Some code \<Rightarrow> f_log_error code w1)))"

definition lease_token_of :: "timer_lease_guard \<Rightarrow> u64 option" where
  "lease_token_of g = Some (tlg_expires g)"

section \<open>Rescue\<close>

definition f_rescue_updated :: "u64 \<Rightarrow> bool \<Rightarrow> u64 option option \<Rightarrow> f_resp \<Rightarrow> fworld \<Rightarrow> unit fproc" where
  "f_rescue_updated now_secs rescue_active token r w =
     (if (case r of FRespSettings (Inr _) \<Rightarrow> True | _ \<Rightarrow> False)
      then Done (f_with_state_mut (\<lambda>st.
             if (case token of None \<Rightarrow> False | Some t \<Rightarrow> \<not> lease_current_in t st) then st
             else st\<lparr>fs_last_rescue_check_ts := now_secs, fs_rescue_triggered := rescue_active\<rparr>) w) ()
      else Done (f_log_error 3101 w) ())"

definition f_rescue_decide :: "fenv \<Rightarrow> u64 \<Rightarrow> u64 option option \<Rightarrow> fworld \<Rightarrow> unit fproc" where
  "f_rescue_decide e now_secs token w =
     (let st = fw_state w; rescue_controller = fc_rescue_controller (fs_config st) in
      case faucet_desired_rescue_controllers (fe_cx e) now_secs
             (unwrap_or (fc_autonomous_rescue_armed (fs_config st)) False)
             (fs_last_successful_transfer_ts st) rescue_controller
             (fs_forced_rescue_reason st \<noteq> None)
             (unwrap_or (fs_skip_range_invariant_fault st) False) (fw_self w) of
        None \<Rightarrow> Done w ()
      | Some desired \<Rightarrow> Await w (FReqUpdateSettings (controller_update_settings (fw_self w) desired))
          (f_rescue_updated now_secs (rescue_controller \<in> set desired) token))"

definition attempt_rescue_with_optional_main_lease :: "fenv \<Rightarrow> u64 \<Rightarrow> u64 option option \<Rightarrow> fworld
    \<Rightarrow> unit fproc" where
  "attempt_rescue_with_optional_main_lease e now_secs token w =
     f_rescue_decide e now_secs token (f_with_state_mut (maybe_latch_bootstrap_rescue now_secs) w)"

section \<open>The main tick\<close>

datatype f_main_tick_outcome = FCompleted | FMainGuardBusy | FDeferred u64

definition f_return :: "timer_lease_guard \<Rightarrow> 'a \<Rightarrow> fworld \<Rightarrow> 'a fproc" where
  "f_return guard a w = Done (f_main_guard_release guard w) a"

definition main_tick_finish :: "timer_lease_guard \<Rightarrow> u64 \<Rightarrow> bool \<Rightarrow> fworld \<Rightarrow> f_main_tick_outcome fproc" where
  "main_tick_finish guard now_secs ok w =
     (case f_main_guard_finish guard now_secs (if ok then None else Some 3001) w of
        None \<Rightarrow> Trap
      | Some w1 \<Rightarrow> Done w1 FCompleted)"

definition main_tick_paid :: "fenv \<Rightarrow> timer_lease_guard \<Rightarrow> u64 \<Rightarrow> fworld \<Rightarrow> bool
    \<Rightarrow> f_main_tick_outcome fproc" where
  "main_tick_paid e guard now_secs w ok =
     (if ok \<and> f_lease_current (lease_token_of guard) w
      then pbind (attempt_rescue_with_optional_main_lease e now_secs (Some (lease_token_of guard)) w)
             (\<lambda>w1 _. main_tick_finish guard now_secs ok w1)
      else main_tick_finish guard now_secs ok w)"

definition f_remaining :: "u64 \<Rightarrow> fstate \<Rightarrow> u64" where
  "f_remaining now_secs st = sat_sub (sat_add (fs_last_main_run_ts st)
     (sat_sub (fc_main_interval_seconds (fs_config st)) 60)) now_secs"

definition run_ctx :: "fenv \<Rightarrow> fconfig \<Rightarrow> principal \<Rightarrow> u64 \<Rightarrow> timer_lease_guard \<Rightarrow> payout_ctx" where
  "run_ctx e cfg governance now_nanos guard =
     \<lparr>pc_env = e, pc_ledger = fc_ledger_canister_id cfg, pc_index = fc_index_canister_id cfg,
      pc_cmc = fc_cmc_canister_id cfg, pc_governance = governance, pc_cfg = cfg,
      pc_now_nanos = now_nanos, pc_now_secs = now_nanos div 1000000000,
      pc_token = lease_token_of guard\<rparr>"

definition f_run_main_tick_with_clients :: "fenv \<Rightarrow> bool \<Rightarrow> fconfig \<Rightarrow> principal \<Rightarrow> u64 \<Rightarrow> fworld
    \<Rightarrow> f_main_tick_outcome fproc" where
  "f_run_main_tick_with_clients e force cfg governance now_nanos w =
     (let now_secs = now_nanos div 1000000000 in
      case f_main_guard_acquire now_secs w of
        (None, w1) \<Rightarrow> Done w1 FMainGuardBusy
      | (Some guard, w1) \<Rightarrow>
          if \<not> force \<and> f_remaining now_secs (fw_state w1) > 0
          then f_return guard (FDeferred (f_remaining now_secs (fw_state w1))) w1
          else (case f_advance_main_run_marker w1 of
              None \<Rightarrow> Trap
            | Some w2 \<Rightarrow> pbind (process_payout_with_lease (run_ctx e cfg governance now_nanos guard) w2)
                (main_tick_paid e guard now_secs)))"

definition f_main_tick :: "fenv \<Rightarrow> bool \<Rightarrow> fworld \<Rightarrow> f_main_tick_outcome fproc" where
  "f_main_tick e force w =
     (let cfg = fs_config (fw_state w) in
      case fc_governance_canister_id cfg of
        None \<Rightarrow> Trap
      | Some governance \<Rightarrow> f_run_main_tick_with_clients e force cfg governance (fw_now w) w)"

definition resume_active_job_if_present :: "fenv \<Rightarrow> fworld \<Rightarrow> unit fproc" where
  "resume_active_job_if_present e w =
     (if fs_active_payout_job (fw_state w) \<noteq> None
      then pbind (f_main_tick e True w) (\<lambda>w1 _. Done w1 ()) else Done w ())"

definition f_rescue_tick :: "fenv \<Rightarrow> fworld \<Rightarrow> unit fproc" where
  "f_rescue_tick e w =
     pbind (attempt_rescue_with_optional_main_lease e (f_now_secs w) None w)
       (\<lambda>w1 _. resume_active_job_if_present e w1)"

section \<open>Scheduling and retries\<close>

definition f_reserve_scheduled_main_retry :: "fworld \<Rightarrow> u64 option \<times> fworld" where
  "f_reserve_scheduled_main_retry w =
     (if fw_retry_pending w = Some (fw_run_marker w) then (None, w)
      else (Some (fw_run_marker w), w\<lparr>fw_retry_pending := Some (fw_run_marker w)\<rparr>))"

definition f_scheduled_main_retry_seconds :: u64 where "f_scheduled_main_retry_seconds = 60"

definition f_schedule_retry :: "u64 \<Rightarrow> u64 \<Rightarrow> fworld \<Rightarrow> fworld" where
  "f_schedule_retry marker retry_after_seconds w =
     (if fw_run_marker w = marker
      then (case f_reserve_scheduled_main_retry w of
          (None, w1) \<Rightarrow> w1
        | (Some reservation, w1) \<Rightarrow> f_set_timer (FMainRetry reservation retry_after_seconds) w1)
      else w)"

definition f_run_scheduled_main_tick :: "fenv \<Rightarrow> fworld \<Rightarrow> unit fproc" where
  "f_run_scheduled_main_tick e w =
     pbind (f_main_tick e False w) (\<lambda>w1 outcome. case outcome of
         FCompleted \<Rightarrow> Done w1 ()
       | FMainGuardBusy \<Rightarrow>
           Done (f_schedule_retry (fw_run_marker w) f_scheduled_main_retry_seconds w1) ()
       | FDeferred remaining \<Rightarrow> Done (f_schedule_retry (fw_run_marker w) remaining w1) ())"

definition f_run_scheduled_main_retry :: "fenv \<Rightarrow> u64 \<Rightarrow> fworld \<Rightarrow> unit fproc" where
  "f_run_scheduled_main_retry e reservation w =
     (if fw_retry_pending w \<noteq> Some reservation then Done w ()
      else let w1 = w\<lparr>fw_retry_pending := None\<rparr> in
        if fw_run_marker w1 = reservation then f_run_scheduled_main_tick e w1 else Done w1 ())"

section \<open>Pokes\<close>

definition f_run_worker_with_clients :: "fenv \<Rightarrow> fconfig \<Rightarrow> principal \<Rightarrow> u64 \<Rightarrow> fworld \<Rightarrow> unit fproc" where
  "f_run_worker_with_clients e cfg governance now_nanos w =
     (case f_main_guard_acquire (now_nanos div 1000000000) w of
        (None, w1) \<Rightarrow> Done w1 ()
      | (Some guard, w1) \<Rightarrow> pbind (process_payout_with_lease (run_ctx e cfg governance now_nanos guard) w1)
          (\<lambda>w2 _. f_return guard () w2))"

definition f_run_worker :: "fenv \<Rightarrow> fworld \<Rightarrow> unit fproc" where
  "f_run_worker e w =
     (let cfg = fs_config (fw_state w) in
      case fc_governance_canister_id cfg of
        None \<Rightarrow> Trap
      | Some governance \<Rightarrow> f_run_worker_with_clients e cfg governance (fw_now w) w)"

definition f_deferred_callback :: "fenv \<Rightarrow> fworld \<Rightarrow> unit fproc" where
  "f_deferred_callback e w =
     (let (act, rt) = faucet_deferred_timer_action (fw_now w) (fw_poke w); w1 = w\<lparr>fw_poke := rt\<rparr>
      in case act of
           Stop \<Rightarrow> Done w1 ()
         | Reschedule remaining \<Rightarrow> Done (f_set_timer (FPokeDeferred remaining) w1) ()
         | Attempt \<Rightarrow> (let (ok, rt2) = faucet_admit_attempt (fw_now w1) (fw_poke w1);
                          w2 = w1\<lparr>fw_poke := rt2\<rparr>
                      in if ok then f_run_worker e w2 else Done w2 ()))"

definition f_handle_event_horizon_poke :: "fworld \<Rightarrow> fworld" where
  "f_handle_event_horizon_poke w =
     (let (sched, rt) = faucet_record_hint (fw_now w) (fw_poke w); w1 = w\<lparr>fw_poke := rt\<rparr>;
          w2 = (if sched then f_set_timer (FPokeDeferred poke_interval_nanos) w1 else w1);
          (ok, rt2) = faucet_admit_attempt (fw_now w2) (fw_poke w2); w3 = w2\<lparr>fw_poke := rt2\<rparr>
      in if ok then f_set_timer FPokeWorker w3 else w3)"

definition faucet_event_horizon_whitelist :: "principal list" where
  "faucet_event_horizon_whitelist = [[0, 0, 0, 0, 2, 48, 17, 226, 1, 1]]"

definition faucet_poke_min_amount_e8s :: nat where "faucet_poke_min_amount_e8s = 100000000"

definition faucet_has_relevant_match :: "poke_match list \<Rightarrow> principal \<Rightarrow> bool" where
  "faucet_has_relevant_match ms subject =
     list_ex (\<lambda>x. pm_subject x = subject \<and> pm_target x = PokeSubaccount 0
       \<and> pm_max_amount x \<ge> faucet_poke_min_amount_e8s) ms"

definition f_poke :: "principal \<Rightarrow> poke_notification \<Rightarrow> fworld \<Rightarrow> unit fproc" where
  "f_poke caller notification w =
     Done (if caller \<in> set faucet_event_horizon_whitelist
             \<and> faucet_has_relevant_match (pn_matches notification) (fw_self w)
           then f_handle_event_horizon_poke w else w) ()"

section \<open>Timers, lifecycle and the whole canister\<close>

definition f_install_timers :: "fworld \<Rightarrow> fworld" where
  "f_install_timers w =
     f_set_timer (FRescueInterval (max (fc_rescue_interval_seconds (fs_config (fw_state w))) 60))
       (f_set_timer (FMainInterval (max (fc_main_interval_seconds (fs_config (fw_state w))) 60)) w)"

definition f_fresh :: "principal \<Rightarrow> u64 \<Rightarrow> fstate \<Rightarrow> dispatch_record option \<Rightarrow> fworld" where
  "f_fresh self_id now st dispatch = \<lparr>fw_self = self_id, fw_now = now, fw_state = st, fw_stable = Some st,
     fw_skip = [], fw_dispatch = dispatch,
     fw_clocks = \<lparr>fk_last_anchor_failure = None, fk_last_latest_failure = None\<rparr>,
     fw_run_marker = 0, fw_retry_pending = None, fw_poke = poke_runtime_init, fw_timers = [],
     fw_errors = []\<rparr>"

definition f_installed :: "fenv \<Rightarrow> fworld \<Rightarrow> bool" where
  "f_installed e w \<longleftrightarrow> (\<exists>self_id now args st.
     faucet_init (fe_cx e) self_id (now div 1000000000) args = Inr st \<and>
     w = f_install_timers (f_fresh self_id now st None))"

text \<open>An upgrade clears the skip ranges and keeps the dispatch record; \<open>None\<close> is a trap.\<close>

definition f_post_upgrade :: "fenv \<Rightarrow> fupgrade_args option \<Rightarrow> fworld \<Rightarrow> fworld option" where
  "f_post_upgrade e args w =
     (case fw_stable w of
        None \<Rightarrow> None
      | Some st \<Rightarrow>
         (case validate_upgrade_quiescence st of
            Inl _ \<Rightarrow> None
          | Inr _ \<Rightarrow>
             (case faucet_apply_upgrade_args_to_state (fe_cx e) (fw_self w) st args (f_now_secs w) of
                Inl _ \<Rightarrow> None
              | Inr (st1, reconcile) \<Rightarrow>
                  let w1 = f_install_timers (f_fresh (fw_self w) (fw_now w) st1 (fw_dispatch w))
                  in Some (if reconcile then f_set_timer FReconcileTimer w1 else w1))))"

text \<open>A timer callback; the delay is not modelled, a timer may fire at any later moment.\<close>

definition f_fire_timer :: "fenv \<Rightarrow> ftimer \<Rightarrow> fworld \<Rightarrow> unit fproc" where
  "f_fire_timer e t w =
     (if t \<notin> set (fw_timers w) then Done w ()
      else let w1 = w\<lparr>fw_timers := remove1 t (fw_timers w)\<rparr> in
        case t of
          FMainInterval _ \<Rightarrow> f_run_scheduled_main_tick e w
        | FRescueInterval _ \<Rightarrow> f_rescue_tick e w
        | FReconcileTimer \<Rightarrow> f_rescue_tick e w1
        | FMainRetry reservation _ \<Rightarrow> f_run_scheduled_main_retry e reservation w1
        | FPokeDeferred _ \<Rightarrow> f_deferred_callback e w1
        | FPokeWorker \<Rightarrow> f_run_worker e w1)"

definition f_advance_clock :: "u64 \<Rightarrow> fworld \<Rightarrow> unit fproc" where
  "f_advance_clock now w = Done (if fw_now w \<le> now then w\<lparr>fw_now := now\<rparr> else w) ()"

definition f_handlers :: "fenv \<Rightarrow> (fworld \<Rightarrow> unit fproc) set" where
  "f_handlers e = range (f_fire_timer e) \<union> range (\<lambda>(caller, n). f_poke caller n)
     \<union> range f_advance_clock"

definition f_upgrades :: "fenv \<Rightarrow> (fworld \<Rightarrow> fworld option) set" where
  "f_upgrades e = range (f_post_upgrade e)"

end
