(* ===== verification/FaucetInvariant.thy ===== *)
theory FaucetInvariant
  imports FaucetTick
begin

text \<open>
  The invariant of the Faucet's world, the relation between the worlds of two moments, and the
  operations on the state as steps that keep the one and follow the other.  The payout nonce
  saturates: from then on job ids repeat, and the facts that tie a suspended run to its job by the
  id are lost.  They are stated up to that exhaustion (after 2 to the 64 jobs).
\<close>

section \<open>Jobs\<close>

text \<open>What never changes in a job.\<close>

definition job_key :: "payout_job \<Rightarrow> u64 \<times> u64 \<times> u64 \<times> u64 option \<times> u64 option \<times> u64 option \<times> u64 option" where
  "job_key j = (pj_id j, pj_fee_e8s j, pj_pot_start_e8s j, pj_funding_tx_id j,
     pj_round_start_time_nanos j, pj_round_end_time_nanos j, pj_round_end_latest_tx_id j)"

text \<open>The same job at a later moment: once the denominator is complete, it is final.\<close>

definition same_job :: "payout_job \<Rightarrow> payout_job \<Rightarrow> bool" where
  "same_job j j' \<longleftrightarrow> job_key j = job_key j' \<and>
     (effective_denom_scan_complete j \<longrightarrow> effective_denom_scan_complete j' \<and>
        effective_denom_e8s j' = effective_denom_e8s j)"

definition pend_ok :: "payout_job \<Rightarrow> pending_transfer \<Rightarrow> bool" where
  "pend_ok j px \<longleftrightarrow>
     (case px_phase px of
        AwaitingTransfer \<Rightarrow> unat (pj_gross_outflow_e8s j)
          + unat (pn_gross_share_e8s (px_notification px)) \<le> unat (pj_pot_start_e8s j)
      | TransferAccepted \<Rightarrow> pn_gross_share_e8s (px_notification px) \<le> pj_gross_outflow_e8s j) \<and>
     (pn_kind (px_notification px) = KNeuronStake \<longrightarrow>
        pn_destination_subaccount (px_notification px) \<noteq> None)"

definition job_ok :: "payout_job \<Rightarrow> bool" where
  "job_ok j \<longleftrightarrow> pj_gross_outflow_e8s j \<le> pj_pot_start_e8s j \<and>
     (\<forall>px. pj_pending_transfer j = Some px \<longrightarrow> pend_ok j px) \<and>
     (pj_skip_candidate_tx_count j \<noteq> 0 \<longrightarrow>
        pj_skip_candidate_start_tx_id j \<noteq> None \<and> pj_skip_candidate_end_tx_id j \<noteq> None)"

text \<open>Funds are staged only at the job's own fee and after its denominator pass.\<close>

definition pend_exact :: "payout_job \<Rightarrow> pending_notification \<Rightarrow> bool" where
  "pend_exact j pn \<longleftrightarrow>
     unat (pn_amount_e8s pn) + unat (pj_fee_e8s j) = unat (pn_gross_share_e8s pn) \<and>
     effective_denom_scan_complete j"

definition job_exact :: "payout_job \<Rightarrow> bool" where
  "job_exact j \<longleftrightarrow>
     (\<forall>px. pj_pending_transfer j = Some px \<longrightarrow> pend_exact j (px_notification px)) \<and>
     (pj_scan_complete j \<longrightarrow> effective_denom_scan_complete j)"

lemma same_job_refl [simp, intro]: "same_job j j"
  by (simp add: same_job_def)

lemma same_job_trans: "same_job a b \<Longrightarrow> same_job b c \<Longrightarrow> same_job a c"
  by (auto simp: same_job_def)

lemma same_job_fields:
  assumes "same_job j j'"
  shows "pj_id j' = pj_id j" "pj_fee_e8s j' = pj_fee_e8s j" "pj_pot_start_e8s j' = pj_pot_start_e8s j"
    "pj_funding_tx_id j' = pj_funding_tx_id j"
    "effective_denom_scan_complete j \<Longrightarrow> effective_denom_scan_complete j'"
  using assms by (simp_all add: same_job_def job_key_def)

section \<open>States\<close>

definition exhausted :: "fstate \<Rightarrow> bool" where
  "exhausted st \<longleftrightarrow> fs_payout_nonce st = u_max"

definition scan_ok :: "funding_scan option \<Rightarrow> bool" where
  "scan_ok sc \<longleftrightarrow> (\<forall>s t. sc = Some s \<longrightarrow> fs_candidate s = Some t \<longrightarrow>
     fs_anchor_last_processed_funding_tx_id s < Some (ft_tx_id t))"

definition job_current :: "fstate \<Rightarrow> payout_job \<Rightarrow> bool" where
  "job_current st j \<longleftrightarrow> pj_id j < fs_payout_nonce st \<and>
     fs_last_processed_funding_tx_id st < pj_funding_tx_id j \<and> job_exact j"

definition f_st_inv :: "fenv \<Rightarrow> principal \<Rightarrow> fstate \<Rightarrow> bool" where
  "f_st_inv e self_id st \<longleftrightarrow> faucet_validate_config (fe_cx e) self_id (fs_config st) = Inr () \<and>
     scan_ok (fs_active_funding_scan st) \<and>
     (\<forall>j. fs_active_payout_job st = Some j \<longrightarrow> job_ok j \<and> (exhausted st \<or> job_current st j))"

text \<open>The configuration up to the fields that upgrades change.\<close>

definition f_config_key :: "fconfig \<Rightarrow> fconfig" where
  "f_config_key cfg = cfg\<lparr>fc_autonomous_rescue_armed := None, fc_main_interval_seconds := 0,
     fc_rescue_interval_seconds := 0, fc_min_tx_e8s := 0, fc_stake_recognition_delay_seconds := None\<rparr>"

text \<open>A job that is active later is the one active now or has a fresh id; the one active now stays
  active until its tranche has been processed.\<close>

definition jobs_continue :: "fstate \<Rightarrow> fstate \<Rightarrow> bool" where
  "jobs_continue st st' \<longleftrightarrow>
     (\<forall>j'. fs_active_payout_job st' = Some j' \<longrightarrow>
        (\<exists>j. fs_active_payout_job st = Some j \<and> same_job j j') \<or> fs_payout_nonce st \<le> pj_id j') \<and>
     (\<forall>j. fs_active_payout_job st = Some j \<longrightarrow>
        (\<exists>j'. fs_active_payout_job st' = Some j' \<and> same_job j j') \<or>
        pj_funding_tx_id j \<le> fs_last_processed_funding_tx_id st')"

definition f_st_rel :: "fstate \<Rightarrow> fstate \<Rightarrow> bool" where
  "f_st_rel st st' \<longleftrightarrow> f_config_key (fs_config st) = f_config_key (fs_config st') \<and>
     fs_payout_nonce st \<le> fs_payout_nonce st' \<and>
     (exhausted st' \<or> fs_last_processed_funding_tx_id st \<le> fs_last_processed_funding_tx_id st' \<and>
        jobs_continue st st')"

definition f_inv :: "fenv \<Rightarrow> fworld \<Rightarrow> bool" where
  "f_inv e w \<longleftrightarrow> fw_stable w = Some (fw_state w) \<and> f_st_inv e (fw_self w) (fw_state w) \<and>
     smap_ok (fw_skip w)"

definition f_rel :: "fworld \<Rightarrow> fworld \<Rightarrow> bool" where
  "f_rel w w' \<longleftrightarrow> fw_self w = fw_self w' \<and> fw_now w \<le> fw_now w' \<and>
     f_st_rel (fw_state w) (fw_state w')"

lemma jobs_continue_refl [simp, intro]: "jobs_continue st st"
  by (auto simp: jobs_continue_def)

lemma jobs_continue_trans:
  assumes "jobs_continue a b" "jobs_continue b c" "fs_payout_nonce a \<le> fs_payout_nonce b"
    "fs_last_processed_funding_tx_id b \<le> fs_last_processed_funding_tx_id c"
  shows "jobs_continue a c"
proof -
  have "(\<exists>j. fs_active_payout_job a = Some j \<and> same_job j j') \<or> fs_payout_nonce a \<le> pj_id j'"
    if act: "fs_active_payout_job c = Some j'" for j'
  proof (cases "\<exists>j. fs_active_payout_job b = Some j \<and> same_job j j'")
    case True
    then obtain j where j: "fs_active_payout_job b = Some j" "same_job j j'" by blast
    from assms(1) j(1) consider i where "fs_active_payout_job a = Some i" "same_job i j"
      | "fs_payout_nonce a \<le> pj_id j" unfolding jobs_continue_def by blast
    then show ?thesis
    proof cases
      case 1
      then show ?thesis using same_job_trans j(2) by blast
    next
      case 2
      then show ?thesis using same_job_fields(1) [OF j(2)] by simp
    qed
  next
    case False
    then have "fs_payout_nonce b \<le> pj_id j'" using assms(2) act unfolding jobs_continue_def by blast
    then show ?thesis using order_trans [OF assms(3)] by blast
  qed
  moreover have "(\<exists>j'. fs_active_payout_job c = Some j' \<and> same_job j j') \<or>
      pj_funding_tx_id j \<le> fs_last_processed_funding_tx_id c"
    if act: "fs_active_payout_job a = Some j" for j
  proof (cases "\<exists>i. fs_active_payout_job b = Some i \<and> same_job j i")
    case True
    then obtain i where i: "fs_active_payout_job b = Some i" "same_job j i" by blast
    from assms(2) i(1) consider k where "fs_active_payout_job c = Some k" "same_job i k"
      | "pj_funding_tx_id i \<le> fs_last_processed_funding_tx_id c" unfolding jobs_continue_def by blast
    then show ?thesis
    proof cases
      case 1
      then show ?thesis using same_job_trans i(2) by blast
    next
      case 2
      then show ?thesis using same_job_fields(4) [OF i(2)] by simp
    qed
  next
    case False
    then have "pj_funding_tx_id j \<le> fs_last_processed_funding_tx_id b"
      using assms(1) act unfolding jobs_continue_def by blast
    then show ?thesis using order_trans [OF _ assms(4)] by blast
  qed
  ultimately show ?thesis by (simp add: jobs_continue_def)
qed

lemma exhausted_later: "exhausted st \<Longrightarrow> fs_payout_nonce st \<le> fs_payout_nonce st' \<Longrightarrow> exhausted st'"
  unfolding exhausted_def by (metis word_order.extremum_unique)

lemma f_st_rel_refl [simp, intro]: "f_st_rel st st"
  by (simp add: f_st_rel_def)

lemma f_st_rel_trans:
  assumes "f_st_rel a b" "f_st_rel b c"
  shows "f_st_rel a c"
proof (cases "exhausted c")
  case True
  then show ?thesis using assms by (auto simp: f_st_rel_def)
next
  case False
  then have "\<not> exhausted b" using assms(2) exhausted_later by (auto simp: f_st_rel_def)
  with False assms have "jobs_continue a c" by (auto simp: f_st_rel_def intro: jobs_continue_trans)
  with False \<open>\<not> exhausted b\<close> assms show ?thesis by (auto simp: f_st_rel_def)
qed

lemma f_rel_refl [simp, intro]: "f_rel w w"
  by (simp add: f_rel_def)

lemma f_rel_trans: "f_rel a b \<Longrightarrow> f_rel b c \<Longrightarrow> f_rel a c"
  unfolding f_rel_def using f_st_rel_trans order_trans by metis

lemma f_config_key_fields:
  assumes "f_config_key c = f_config_key c'"
  shows "fc_staking_account c = fc_staking_account c'"
    "fc_payout_subaccount c = fc_payout_subaccount c'"
    "fc_ledger_canister_id c = fc_ledger_canister_id c'"
    "fc_index_canister_id c = fc_index_canister_id c'"
    "fc_cmc_canister_id c = fc_cmc_canister_id c'"
    "fc_governance_canister_id c = fc_governance_canister_id c'"
    "fc_funding_source_account c = fc_funding_source_account c'"
    "fc_rescue_controller c = fc_rescue_controller c'"
  using assms by (cases c; cases c'; simp add: f_config_key_def)+

section \<open>Steps\<close>

definition f_step :: "fenv \<Rightarrow> fworld \<Rightarrow> fworld \<Rightarrow> bool" where
  "f_step e w w' \<longleftrightarrow> (f_inv e w \<longrightarrow> f_inv e w' \<and> f_rel w w')"

lemma f_step_refl [simp, intro]: "f_step e w w"
  by (simp add: f_step_def)

lemma f_step_trans: "f_step e a b \<Longrightarrow> f_step e b c \<Longrightarrow> f_step e a c"
  unfolding f_step_def using f_rel_trans by blast

lemma f_with_state_mut_fields [simp]:
  "fw_state (f_with_state_mut f w) = f (fw_state w)"
  "fw_stable (f_with_state_mut f w) = Some (f (fw_state w))"
  "fw_self (f_with_state_mut f w) = fw_self w"
  "fw_now (f_with_state_mut f w) = fw_now w"
  "fw_skip (f_with_state_mut f w) = fw_skip w"
  "fw_dispatch (f_with_state_mut f w) = fw_dispatch w"
  "fw_run_marker (f_with_state_mut f w) = fw_run_marker w"
  by (simp_all add: f_with_state_mut_def Let_def)

lemma f_with_state_mut_comp:
  "f_with_state_mut f (f_with_state_mut g w) = f_with_state_mut (\<lambda>st. f (g st)) w"
  by (simp add: f_with_state_mut_def Let_def)

lemma f_step_state:
  assumes "\<And>self_id. f_st_inv e self_id (fw_state w) \<Longrightarrow> f_st_inv e self_id (f (fw_state w)) \<and>
     f_st_rel (fw_state w) (f (fw_state w))"
  shows "f_step e w (f_with_state_mut f w)"
  using assms [of "fw_self w"] by (simp add: f_step_def f_inv_def f_rel_def)

lemma f_step_cells:
  "fw_self w' = fw_self w \<Longrightarrow> fw_now w \<le> fw_now w' \<Longrightarrow> fw_state w' = fw_state w
   \<Longrightarrow> fw_stable w' = fw_stable w \<Longrightarrow> (smap_ok (fw_skip w) \<Longrightarrow> smap_ok (fw_skip w')) \<Longrightarrow> f_step e w w'"
  by (simp add: f_step_def f_inv_def f_rel_def)

text \<open>Changes that leave configuration, nonce, job, cursor and funding scan alone.\<close>

definition f_core :: "fstate \<Rightarrow> fconfig \<times> u64 \<times> payout_job option \<times> u64 option \<times> funding_scan option" where
  "f_core st = (fs_config st, fs_payout_nonce st, fs_active_payout_job st,
     fs_last_processed_funding_tx_id st, fs_active_funding_scan st)"

lemma f_core_fields:
  assumes "f_core st' = f_core st"
  shows "fs_config st' = fs_config st" "fs_payout_nonce st' = fs_payout_nonce st"
    "fs_active_payout_job st' = fs_active_payout_job st"
    "fs_last_processed_funding_tx_id st' = fs_last_processed_funding_tx_id st"
    "fs_active_funding_scan st' = fs_active_funding_scan st"
  using assms by (simp_all only: f_core_def prod.inject)

lemma f_core_inv:
  assumes "f_core st' = f_core st" shows "f_st_inv e self_id st' = f_st_inv e self_id st"
  unfolding f_st_inv_def exhausted_def job_current_def f_core_fields [OF assms] by (rule refl)

lemma f_core_rel:
  assumes "f_core st' = f_core st" shows "f_st_rel st st'"
  using f_st_rel_refl [of st]
  unfolding f_st_rel_def jobs_continue_def exhausted_def f_core_fields [OF assms] .

lemma f_step_core: "f_core (f (fw_state w)) = f_core (fw_state w) \<Longrightarrow> f_step e w (f_with_state_mut f w)"
  using f_core_inv f_core_rel by (intro f_step_state) blast

lemma f_step_id [simp, intro]: "f_step e w (f_with_state_mut id w)"
  by (rule f_step_core) simp

text \<open>An update of the active job.\<close>

definition job_upd :: "fstate \<Rightarrow> payout_job \<Rightarrow> payout_job \<Rightarrow> bool" where
  "job_upd st j j' \<longleftrightarrow> (job_ok j \<longrightarrow> job_ok j') \<and>
     (exhausted st \<or> same_job j j' \<and> (job_exact j \<longrightarrow> job_exact j'))"

lemma job_upd_step:
  assumes act: "fs_active_payout_job st = Some j" and upd: "job_upd st j j'"
    and st': "st' = st\<lparr>fs_active_payout_job := Some j'\<rparr>"
  shows "(f_st_inv e self_id st \<longrightarrow> f_st_inv e self_id st') \<and> f_st_rel st st'"
proof (cases "exhausted st")
  case True
  then have "exhausted st'" using st' by (simp add: exhausted_def)
  then show ?thesis using assms by (auto simp: f_st_inv_def f_st_rel_def job_upd_def)
next
  case False
  then have j': "same_job j j'" "job_exact j \<longrightarrow> job_exact j'" "job_ok j \<longrightarrow> job_ok j'"
    using upd by (simp_all add: job_upd_def)
  then have "jobs_continue st st'" using act st' by (simp add: jobs_continue_def)
  moreover have "job_current st j \<longrightarrow> job_current st' j'"
    using j' same_job_fields [OF j'(1)] st' by (auto simp: job_current_def)
  ultimately show ?thesis
    using act st' False j'(3) by (auto simp: f_st_inv_def f_st_rel_def exhausted_def)
qed

lemma map_active_job_Some:
  "fs_active_payout_job st = Some j \<Longrightarrow> map_active_job f st = st\<lparr>fs_active_payout_job := Some (f j)\<rparr>"
  by (simp add: map_active_job_def)

lemma map_active_job_None [simp]: "fs_active_payout_job st = None \<Longrightarrow> map_active_job f st = st"
  by (simp add: map_active_job_def)

lemma f_step_map_job:
  assumes "\<And>j. fs_active_payout_job (fw_state w) = Some j \<Longrightarrow> job_upd (fw_state w) j (f j)"
  shows "f_step e w (f_map_job f w)"
proof (cases "fs_active_payout_job (fw_state w)")
  case None
  then show ?thesis unfolding f_map_job_def by (intro f_step_core) simp
next
  case (Some j)
  then show ?thesis
    using job_upd_step [OF Some assms [OF Some] refl] unfolding f_map_job_def
    by (intro f_step_state) (simp add: map_active_job_Some)
qed

lemma job_upd_refl [simp, intro]: "job_upd st j j"
  by (simp add: job_upd_def)

text \<open>Updates of the counters and observations of a job.\<close>

definition job_core :: "payout_job \<Rightarrow> payout_job" where
  "job_core j = j\<lparr>pj_next_start := None, pj_ignored_under_threshold := 0,
     pj_ignored_bad_memo := 0, pj_topped_up_count := 0, pj_topped_up_sum_e8s := 0,
     pj_topped_up_min_e8s := None, pj_topped_up_max_e8s := None, pj_failed_topups := 0,
     pj_ambiguous_topups := 0, pj_remainder_to_relay_e8s := 0, pj_next_created_at_time_nanos := 0,
     pj_observed_oldest_tx_id := None, pj_observed_latest_tx_id := None, pj_cmc_attempt_count := None,
     pj_cmc_success_count := None, pj_cmc_attempted_beneficiaries := None\<rparr>"

lemma job_core_reads:
  "job_key (job_core j) = job_key j" "pj_gross_outflow_e8s (job_core j) = pj_gross_outflow_e8s j"
  "pj_pending_transfer (job_core j) = pj_pending_transfer j"
  "pj_skip_candidate_tx_count (job_core j) = pj_skip_candidate_tx_count j"
  "pj_skip_candidate_start_tx_id (job_core j) = pj_skip_candidate_start_tx_id j"
  "pj_skip_candidate_end_tx_id (job_core j) = pj_skip_candidate_end_tx_id j"
  "effective_denom_scan_complete (job_core j) = effective_denom_scan_complete j"
  "effective_denom_e8s (job_core j) = effective_denom_e8s j" "pj_scan_complete (job_core j) = pj_scan_complete j"
  "pj_pot_start_e8s (job_core j) = pj_pot_start_e8s j" "pj_fee_e8s (job_core j) = pj_fee_e8s j"
  by (simp_all add: job_core_def job_key_def effective_denom_scan_complete_def effective_denom_e8s_def)

lemma job_core_fields:
  assumes "job_core j' = job_core j"
  shows "job_key j' = job_key j" "pj_gross_outflow_e8s j' = pj_gross_outflow_e8s j"
    "pj_pending_transfer j' = pj_pending_transfer j"
    "pj_skip_candidate_tx_count j' = pj_skip_candidate_tx_count j"
    "pj_skip_candidate_start_tx_id j' = pj_skip_candidate_start_tx_id j"
    "pj_skip_candidate_end_tx_id j' = pj_skip_candidate_end_tx_id j"
    "effective_denom_scan_complete j' = effective_denom_scan_complete j"
    "effective_denom_e8s j' = effective_denom_e8s j" "pj_scan_complete j' = pj_scan_complete j"
    "pj_pot_start_e8s j' = pj_pot_start_e8s j" "pj_fee_e8s j' = pj_fee_e8s j"
  using job_core_reads [of j] job_core_reads [of j'] unfolding assms by simp_all

lemma job_upd_core:
  assumes "job_core j' = job_core j" shows "job_upd st j j'"
  unfolding job_upd_def job_ok_def job_exact_def same_job_def pend_ok_def pend_exact_def
    job_core_fields [OF assms] by simp


lemma f_step_map_if:
  assumes "\<And>j. fs_active_payout_job (fw_state w) = Some j \<Longrightarrow> p (fw_state w) \<Longrightarrow> job_upd (fw_state w) j (f j)"
  shows "f_step e w (f_with_state_mut (\<lambda>st. if p st then map_active_job f st else st) w)"
proof (cases "p (fw_state w)")
  case True
  then have "f_with_state_mut (\<lambda>st. if p st then map_active_job f st else st) w = f_map_job f w"
    by (simp add: f_map_job_def f_with_state_mut_def)
  with assms True show ?thesis by (simp add: f_step_map_job)
next
  case False
  then show ?thesis by (intro f_step_core) simp
qed

lemma f_step_map_unless:
  assumes "\<And>j. fs_active_payout_job (fw_state w) = Some j \<Longrightarrow> p (fw_state w) \<Longrightarrow> job_upd (fw_state w) j (f j)"
  shows "f_step e w (f_with_state_mut (\<lambda>st. if \<not> p st then st else map_active_job f st) w)"
proof -
  have "(\<lambda>st. if \<not> p st then st else map_active_job f st) = (\<lambda>st. if p st then map_active_job f st else st)"
    by auto
  then show ?thesis using f_step_map_if [OF assms] by simp
qed

lemma map_job_if_step:
  assumes "\<And>j. fs_active_payout_job (fw_state w) = Some j \<Longrightarrow> f_lease_current token w \<Longrightarrow> ok j
    \<Longrightarrow> job_upd (fw_state w) j (f j)"
  shows "f_step e w (map_job_if token ok f w)"
  unfolding map_job_if_def using assms by (intro f_step_map_unless) (simp add: f_lease_current_def)

section \<open>Jobs known by their id\<close>

text \<open>What a suspended run knows of the job it works on: an active job with its id is that job.\<close>

definition captured :: "payout_job \<Rightarrow> fstate \<Rightarrow> bool" where
  "captured job st \<longleftrightarrow> exhausted st \<or> pj_id job < fs_payout_nonce st \<and>
     (\<forall>j. fs_active_payout_job st = Some j \<longrightarrow> pj_id j = pj_id job \<longrightarrow> same_job job j)"

lemma captured_active:
  "f_st_inv e self_id st \<Longrightarrow> fs_active_payout_job st = Some job \<Longrightarrow> captured job st"
  by (auto simp: f_st_inv_def captured_def job_current_def)

lemma captured_later:
  assumes "captured job st" "f_st_rel st st'"
  shows "captured job st'"
proof (cases "exhausted st'")
  case True
  then show ?thesis by (simp add: captured_def)
next
  case False
  then have ne: "\<not> exhausted st" and nonce: "fs_payout_nonce st \<le> fs_payout_nonce st'"
    and cont: "jobs_continue st st'"
    using assms(2) exhausted_later by (auto simp: f_st_rel_def)
  with assms(1) have id: "pj_id job < fs_payout_nonce st"
    and same: "\<And>j. fs_active_payout_job st = Some j \<Longrightarrow> pj_id j = pj_id job \<Longrightarrow> same_job job j"
    by (simp_all add: captured_def)
  have "same_job job j'" if act: "fs_active_payout_job st' = Some j'" "pj_id j' = pj_id job" for j'
  proof -
    have "\<not> fs_payout_nonce st \<le> pj_id j'" using id act(2) by simp
    then obtain j where j: "fs_active_payout_job st = Some j" "same_job j j'"
      using cont act(1) unfolding jobs_continue_def by blast
    moreover have "pj_id j = pj_id job" using same_job_fields(1) [OF j(2)] act(2) by simp
    ultimately show ?thesis using same [OF j(1)] same_job_trans by blast
  qed
  moreover have "pj_id job < fs_payout_nonce st'" using id nonce by simp
  ultimately show ?thesis by (simp add: captured_def)
qed

lemma captured_same:
  "captured job st \<Longrightarrow> \<not> exhausted st \<Longrightarrow> fs_active_payout_job st = Some j \<Longrightarrow> pj_id j = pj_id job
   \<Longrightarrow> same_job job j"
  by (simp add: captured_def)

section \<open>Cells\<close>

lemma f_log_error_step: "f_step e w (f_log_error code w)"
  by (rule f_step_cells) (simp_all add: f_log_error_def)

lemma f_set_timer_step: "f_step e w (f_set_timer t w)"
  by (rule f_step_cells) (simp_all add: f_set_timer_def)

lemma f_set_dispatch_step: "f_step e w (f_set_dispatch job_id px d w)"
  by (rule f_step_cells) (simp_all add: f_set_dispatch_def)

lemma f_dispatch_step: "f_step e w (w\<lparr>fw_dispatch := d\<rparr>)"
  by (rule f_step_cells) simp_all

lemma latch_forced_step: "f_step e w (latch_forced_rescue_reason r w)"
  unfolding latch_forced_rescue_reason_def by (rule f_step_core) (simp add: f_core_def latch_reason_def)

lemma latch_skip_step: "f_step e w (latch_skip_range_invariant_rescue w)"
  unfolding latch_skip_range_invariant_rescue_def
  by (rule f_step_trans [OF f_log_error_step]) (rule f_step_core, simp add: f_core_def)

section \<open>The pending transfer\<close>

lemma owns_pending_iff:
  "owns_pending job_id px st \<longleftrightarrow> (\<exists>j. fs_active_payout_job st = Some j \<and> pj_id j = job_id \<and>
     pj_pending_transfer j = Some px)"
  by (simp add: owns_pending_def split: option.split)

lemma allocate_step: "allocate_created_at_time_nanos now w = Some (t, w') \<Longrightarrow> f_step e w w'"
  by (auto simp: allocate_created_at_time_nanos_def job_core_def Let_def split: option.splits
      intro!: f_step_map_job job_upd_core)

lemma increment_step: "f_step e w (increment_cmc_attempts job_id px w)"
  by (auto simp: increment_cmc_attempts_def job_core_def intro!: f_step_map_if job_upd_core)

lemma note_attempted_step: "f_step e w (note_attempted_beneficiary job_id px w)"
  by (auto simp: note_attempted_beneficiary_def add_attempted_beneficiary_def job_core_def Let_def
      intro!: f_step_map_if job_upd_core)

text \<open>A change of the pending transfer and of the outflow, beside counters.\<close>

lemma job_upd_pending:
  assumes "job_core j' = (job_core j)\<lparr>pj_gross_outflow_e8s := out, pj_pending_transfer := px\<rparr>"
    and "job_ok j \<Longrightarrow> out \<le> pj_pot_start_e8s j"
    and "\<And>p. px = Some p \<Longrightarrow> job_ok j \<Longrightarrow> pend_ok (j\<lparr>pj_gross_outflow_e8s := out\<rparr>) p"
    and "\<And>p. px = Some p \<Longrightarrow> \<not> exhausted st \<Longrightarrow> job_exact j \<Longrightarrow> pend_exact j (px_notification p)"
  shows "job_upd st j j'"
proof -
  let ?k = "j\<lparr>pj_gross_outflow_e8s := out, pj_pending_transfer := px\<rparr>"
  have pe: "pend_exact ?k pn = pend_exact j pn" "pend_ok ?k p = pend_ok (j\<lparr>pj_gross_outflow_e8s := out\<rparr>) p"
    for pn p by (simp_all add: pend_exact_def pend_ok_def effective_denom_scan_complete_def
        split: pending_phase.split)
  have "job_ok ?k" if ok: "job_ok j"
  proof -
    have "pend_ok ?k p" if "px = Some p" for p using assms(3) [OF that ok] pe(2) by blast
    then show ?thesis using assms(2) [OF ok] ok unfolding job_ok_def by simp
  qed
  moreover have "same_job j ?k"
    by (simp add: same_job_def job_key_def effective_denom_scan_complete_def effective_denom_e8s_def)
  moreover have "job_exact ?k" if ne: "\<not> exhausted st" and ex: "job_exact j"
  proof -
    have "pend_exact ?k (px_notification p)" if "px = Some p" for p
      using assms(4) [OF that ne ex] pe(1) by blast
    then show ?thesis using ex by (simp add: job_exact_def effective_denom_scan_complete_def)
  qed
  ultimately have "job_upd st j ?k" by (auto simp: job_upd_def)
  moreover have "job_core j' = job_core ?k" unfolding assms(1) by (simp add: job_core_def)
  then have "job_upd st ?k j'" by (rule job_upd_core)
  ultimately show ?thesis by (auto simp: job_upd_def intro: same_job_trans)
qed


definition no_pending :: "fstate \<Rightarrow> bool" where
  "no_pending st \<longleftrightarrow> (\<forall>j. fs_active_payout_job st = Some j \<longrightarrow> pj_pending_transfer j = None)"

lemma f_cells_state [simp]:
  "fw_state (f_set_dispatch job_id px d w) = fw_state w" "fw_state (f_log_error c w) = fw_state w"
  "fw_state (w\<lparr>fw_dispatch := x\<rparr>) = fw_state w" "fw_state (f_set_timer t w) = fw_state w"
  "fw_dispatch (f_set_dispatch job_id px d w) = dispatch_cell job_id px d"
  by (simp_all add: f_set_dispatch_def f_log_error_def f_set_timer_def)

lemma f_map_job_state [simp]:
  "fw_state (f_map_job f w) = map_active_job f (fw_state w)"
  by (simp add: f_map_job_def)

lemma map_active_job_read [simp]:
  "fs_active_payout_job (map_active_job f st) = map_option f (fs_active_payout_job st)"
  "fs_main_lock_state_ts (map_active_job f st) = fs_main_lock_state_ts st"
  "fs_config (map_active_job f st) = fs_config st"
  "fs_payout_nonce (map_active_job f st) = fs_payout_nonce st"
  by (simp_all add: map_active_job_def)

text \<open>An update that replaces the pending transfer and the outflow of the job.\<close>

lemma f_step_pending:
  assumes "\<And>j. fs_active_payout_job (fw_state w) = Some j \<Longrightarrow>
      job_core (f j) = (job_core j)\<lparr>pj_gross_outflow_e8s := out j, pj_pending_transfer := px\<rparr>"
    and "\<And>j. fs_active_payout_job (fw_state w) = Some j \<Longrightarrow> job_ok j \<Longrightarrow> out j \<le> pj_pot_start_e8s j"
    and "\<And>j p. fs_active_payout_job (fw_state w) = Some j \<Longrightarrow> px = Some p \<Longrightarrow> job_ok j
      \<Longrightarrow> pend_ok (j\<lparr>pj_gross_outflow_e8s := out j\<rparr>) p"
    and "\<And>j p. fs_active_payout_job (fw_state w) = Some j \<Longrightarrow> px = Some p
      \<Longrightarrow> \<not> exhausted (fw_state w) \<Longrightarrow> job_exact j \<Longrightarrow> pend_exact j (px_notification p)"
  shows "f_step e w (f_map_job f w)"
  using assms by (intro f_step_map_job job_upd_pending)

lemma stage_pending_step:
  assumes "\<And>j. fs_active_payout_job (fw_state w) = Some j \<Longrightarrow>
      unat (pj_gross_outflow_e8s j) + unat (pn_gross_share_e8s pn) \<le> unat (pj_pot_start_e8s j)"
    and "pn_kind pn = KNeuronStake \<Longrightarrow> pn_destination_subaccount pn \<noteq> None"
    and "\<And>j. fs_active_payout_job (fw_state w) = Some j \<Longrightarrow> \<not> exhausted (fw_state w) \<Longrightarrow> pend_exact j pn"
  shows "f_step e w (stage_pending_transfer pn created w)"
proof (cases "fs_active_payout_job (fw_state w)")
  case None
  then show ?thesis by (simp add: stage_pending_transfer_def)
next
  case (Some j)
  let ?px = "\<lparr>px_notification = pn, px_created_at_time_nanos = created, px_phase = AwaitingTransfer\<rparr>"
  let ?w = "f_set_dispatch (pj_id j) ?px False w"
  have "f_step e ?w (f_map_job (\<lambda>j. j\<lparr>pj_pending_transfer := Some ?px\<rparr>) ?w)"
    using Some assms by (intro f_step_pending [where out = pj_gross_outflow_e8s and px = "Some ?px"])
      (auto simp: job_core_def pend_ok_def job_ok_def)
  then have "f_step e w (f_map_job (\<lambda>j. j\<lparr>pj_pending_transfer := Some ?px\<rparr>) ?w)"
    by (rule f_step_trans [OF f_set_dispatch_step])
  then show ?thesis using Some by (simp add: stage_pending_transfer_def Let_def)
qed

lemma pending_facts:
  assumes "owns_pending job_id px (fw_state w)" "fs_active_payout_job (fw_state w) = Some j"
  shows "pj_id j = job_id" "pj_pending_transfer j = Some px" "job_ok j \<Longrightarrow> pend_ok j px"
    "job_exact j \<Longrightarrow> pend_exact j (px_notification px)"
  using assms by (auto simp: owns_pending_iff job_ok_def job_exact_def)

lemma mark_accepted_step:
  assumes "mark_pending_transfer_accepted job_id px b w = (r, w')" "px_phase px = AwaitingTransfer"
  shows "f_step e w w'" "r = Some a \<Longrightarrow> a = accept_pending b px \<and> owns_pending job_id a (fw_state w')"
proof -
  note ops = mark_pending_transfer_accepted_def pending_transfer_matches_def
  show "f_step e w w'"
  proof (cases "owns_pending job_id px (fw_state w)")
    case False
    then have "w' = f_with_state_mut id w" using assms(1) by (simp add: ops)
    then show ?thesis by simp
  next
    case True
    let ?g = "pn_gross_share_e8s (px_notification px)"
    have w': "w' = f_map_job (\<lambda>j. record_ledger_accepted_transfer (px_notification (accept_pending b px))
        (j\<lparr>pj_pending_transfer := Some (accept_pending b px)\<rparr>)) w"
      using assms(1) True by (auto simp: ops Let_def)
    have room: "unat (pj_gross_outflow_e8s j) + unat ?g \<le> unat (pj_pot_start_e8s j)"
      if "fs_active_payout_job (fw_state w) = Some j" "job_ok j" for j
      using pending_facts(3) [OF True that] assms(2) by (simp add: pend_ok_def)
    show ?thesis unfolding w'
    proof (rule f_step_pending [where out = "\<lambda>j. sat_add (pj_gross_outflow_e8s j) ?g"
          and px = "Some (accept_pending b px)"])
      fix j
      assume j: "fs_active_payout_job (fw_state w) = Some j"
      show "job_core (record_ledger_accepted_transfer (px_notification (accept_pending b px))
          (j\<lparr>pj_pending_transfer := Some (accept_pending b px)\<rparr>)) = (job_core j)
          \<lparr>pj_gross_outflow_e8s := sat_add (pj_gross_outflow_e8s j) ?g,
           pj_pending_transfer := Some (accept_pending b px)\<rparr>"
        by (simp add: record_ledger_accepted_transfer_def accept_pending_def job_core_def)
      assume ok: "job_ok j"
      show "sat_add (pj_gross_outflow_e8s j) ?g \<le> pj_pot_start_e8s j"
        using room [OF j ok] unat_le_max [of "pj_pot_start_e8s j"] by (simp add: u_simps)
    next
      fix j p
      assume j: "fs_active_payout_job (fw_state w) = Some j" "Some (accept_pending b px) = Some p"
      show "pend_ok (j\<lparr>pj_gross_outflow_e8s := sat_add (pj_gross_outflow_e8s j) ?g\<rparr>) p" if ok: "job_ok j"
        using pending_facts(3) [OF True j(1) ok] j(2) unat_le_max [of ?g]
        by (auto simp: pend_ok_def accept_pending_def u_simps)
      show "pend_exact j (px_notification p)" if ok: "job_exact j"
        using pending_facts(4) [OF True j(1) ok] j(2) by (auto simp: pend_exact_def accept_pending_def)
    qed
  qed
  show "r = Some a \<Longrightarrow> a = accept_pending b px \<and> owns_pending job_id a (fw_state w')"
    using assms(1) by (auto simp: ops Let_def owns_pending_iff record_ledger_accepted_transfer_def
        accept_pending_def split: if_splits)
qed

text \<open>Dropping the pending transfer with a new outflow.\<close>

lemma drop_pending_step:
  assumes "\<And>j. fs_active_payout_job (fw_state w) = Some j \<Longrightarrow>
      job_core (f j) = (job_core j)\<lparr>pj_gross_outflow_e8s := out j, pj_pending_transfer := None\<rparr>"
    and "\<And>j. fs_active_payout_job (fw_state w) = Some j \<Longrightarrow> job_ok j \<Longrightarrow> out j \<le> pj_pot_start_e8s j"
  shows "f_step e w ((f_map_job f w)\<lparr>fw_dispatch := d\<rparr>)"
proof -
  have "f_step e w (f_map_job f w)"
    by (rule f_step_pending [where px = None]) (use assms in auto)
  then show ?thesis using f_dispatch_step by (rule f_step_trans)
qed

lemma clear_step: "f_step e w (clear_pending_transfer job_id px status w)"
proof (cases "owns_pending job_id px (fw_state w)")
  case False
  then show ?thesis by (simp add: clear_pending_transfer_def pending_transfer_matches_def)
next
  case True
  have "f_step e w ((f_map_job (\<lambda>j. (count_terminal status (pn_kind (px_notification px)) j)
      \<lparr>pj_pending_transfer := None\<rparr>) w)\<lparr>fw_dispatch := None\<rparr>)"
    by (rule drop_pending_step [where out = pj_gross_outflow_e8s])
      (auto simp: count_terminal_def job_core_def job_ok_def split: terminal_status.split)
  with True show ?thesis by (simp add: clear_pending_transfer_def pending_transfer_matches_def)
qed

lemma clear_no_pending:
  "owns_pending job_id px (fw_state w) \<Longrightarrow> no_pending (fw_state (clear_pending_transfer job_id px status w))"
  by (auto simp: clear_pending_transfer_def pending_transfer_matches_def no_pending_def)


lemma f_map_job_quiet:
  "f_with_state_mut (\<lambda>st. map_active_job f (g st)) w = f_map_job f (f_with_state_mut g w)"
  by (simp add: f_map_job_def f_with_state_mut_comp)

lemma record_completed_step: "f_step e w (record_completed_transfer job_id px now w)"
proof (cases "owns_pending job_id px (fw_state w)")
  case False
  then show ?thesis by (simp add: record_completed_transfer_def pending_transfer_matches_def)
next
  case True
  define notify where "notify = requires_cmc_notify (pn_kind (px_notification px))"
  define g where "g st = (if notify then st\<lparr>fs_last_successful_transfer_ts := Some now\<rparr> else st)"
    for st :: fstate
  have "f_step e w (f_with_state_mut g w)" by (rule f_step_core) (simp add: g_def f_core_def)
  moreover have "f_step e (f_with_state_mut g w) ((f_map_job (\<lambda>j. (apply_notified_transfer (px_notification px)
      (if notify then j\<lparr>pj_cmc_success_count := Some (sat_add (unwrap_or (pj_cmc_success_count j) 0) 1),
         pj_cmc_attempted_beneficiaries := Some []\<rparr> else j))\<lparr>pj_pending_transfer := None\<rparr>)
      (f_with_state_mut g w))\<lparr>fw_dispatch := None\<rparr>)"
    by (rule drop_pending_step [where out = pj_gross_outflow_e8s])
      (auto simp: apply_notified_transfer_def job_core_def job_ok_def)
  ultimately have "f_step e w ((f_map_job (\<lambda>j. (apply_notified_transfer (px_notification px)
      (if notify then j\<lparr>pj_cmc_success_count := Some (sat_add (unwrap_or (pj_cmc_success_count j) 0) 1),
         pj_cmc_attempted_beneficiaries := Some []\<rparr> else j))\<lparr>pj_pending_transfer := None\<rparr>)
      (f_with_state_mut g w))\<lparr>fw_dispatch := None\<rparr>)" by (rule f_step_trans)
  then show ?thesis
    using True by (simp add: record_completed_transfer_def pending_transfer_matches_def Let_def
        notify_def [symmetric] g_def [symmetric] f_map_job_quiet)
qed

lemma record_completed_no_pending:
  "owns_pending job_id px (fw_state w) \<Longrightarrow> no_pending (fw_state (record_completed_transfer job_id px now w))"
  by (auto simp: record_completed_transfer_def pending_transfer_matches_def no_pending_def Let_def)

text \<open>A fall-back replaces the pending transfer by one that is awaiting again.\<close>

definition fallback_staged :: "u64 \<Rightarrow> fworld \<Rightarrow> bool" where
  "fallback_staged job_id w \<longleftrightarrow> (\<exists>px. owns_pending job_id px (fw_state w) \<and>
     pn_kind (px_notification px) = KCyclesTopUpRawFallback \<and> px_phase px = AwaitingTransfer)"

lemma stage_transition_step:
  assumes own: "owns_pending job_id px (fw_state w)"
    and "\<And>j. job_core (f j) = (job_core j)\<lparr>pj_gross_outflow_e8s := out j\<rparr>"
    and "\<And>j. fs_active_payout_job (fw_state w) = Some j \<Longrightarrow> job_ok j \<Longrightarrow> out j \<le> pj_pot_start_e8s j"
    and "\<And>j. fs_active_payout_job (fw_state w) = Some j \<Longrightarrow> job_ok j
      \<Longrightarrow> pend_ok (j\<lparr>pj_gross_outflow_e8s := out j\<rparr>) staged"
    and "\<And>j. fs_active_payout_job (fw_state w) = Some j \<Longrightarrow> \<not> exhausted (fw_state w) \<Longrightarrow> job_exact j
      \<Longrightarrow> pend_exact j (px_notification staged)"
    and "pn_kind (px_notification staged) = KCyclesTopUpRawFallback" "px_phase staged = AwaitingTransfer"
  shows "f_step e w (stage_transition job_id staged nxt f w) \<and>
    fallback_staged job_id (stage_transition job_id staged nxt f w)"
proof
  have core: "job_core ((f j)\<lparr>pj_next_created_at_time_nanos := nxt, pj_pending_transfer := Some staged\<rparr>)
      = (job_core j)\<lparr>pj_gross_outflow_e8s := out j, pj_pending_transfer := Some staged\<rparr>" for j
  proof -
    have "job_core ((f j)\<lparr>pj_next_created_at_time_nanos := nxt, pj_pending_transfer := Some staged\<rparr>)
        = (job_core (f j))\<lparr>pj_pending_transfer := Some staged\<rparr>" by (simp add: job_core_def)
    then show ?thesis by (simp add: assms(2))
  qed
  have "f_step e (f_set_dispatch job_id staged False w) (stage_transition job_id staged nxt f w)"
    unfolding stage_transition_def
    by (rule f_step_pending [where out = out and px = "Some staged"]) (use core assms(3-5) in auto)
  then show "f_step e w (stage_transition job_id staged nxt f w)"
    using f_set_dispatch_step by (rule f_step_trans [rotated])
  have "pj_id (f j) = pj_id j" for j
    using arg_cong [OF assms(2) [of j], of pj_id] by (simp add: job_core_def)
  then show "fallback_staged job_id (stage_transition job_id staged nxt f w)"
    using own assms(6,7) by (auto simp: fallback_staged_def stage_transition_def owns_pending_iff)
qed

lemma stage_raw_step:
  assumes "stage_raw_fallback_after_definite_rejection job_id px now w = (r, w')"
  shows "f_step e w w' \<and> (r = Inr True \<longrightarrow> fallback_staged job_id w') \<and>
    (r \<noteq> Inr True \<longrightarrow> fw_state w' = fw_state w)"
proof (cases "r = Inr True")
  case False
  then show ?thesis
    using assms by (auto simp: stage_raw_fallback_after_definite_rejection_def
        split: option.splits if_splits prod.splits)
next
  case True
  then obtain created nxt where own: "owns_pending job_id px (fw_state w)" "px_phase px = AwaitingTransfer"
    and w': "w' = stage_transition job_id \<lparr>px_notification = raw_fallback_of (px_notification px),
      px_created_at_time_nanos = created, px_phase = AwaitingTransfer\<rparr> nxt id w"
    using assms by (auto simp: stage_raw_fallback_after_definite_rejection_def pending_transfer_matches_def
        split: option.splits if_splits prod.splits)
  have "f_step e w w' \<and> fallback_staged job_id w'"
    unfolding w'
  proof (rule stage_transition_step [OF own(1), where out = pj_gross_outflow_e8s])
    fix j
    assume j: "fs_active_payout_job (fw_state w) = Some j"
    show "pend_ok (j\<lparr>pj_gross_outflow_e8s := pj_gross_outflow_e8s j\<rparr>)
        \<lparr>px_notification = raw_fallback_of (px_notification px), px_created_at_time_nanos = created,
         px_phase = AwaitingTransfer\<rparr>" if "job_ok j"
      using pending_facts(3) [OF own(1) j that] own(2) by (simp add: pend_ok_def raw_fallback_of_def)
    show "pend_exact j (px_notification \<lparr>px_notification = raw_fallback_of (px_notification px),
        px_created_at_time_nanos = created, px_phase = AwaitingTransfer\<rparr>)" if "job_exact j"
      using pending_facts(4) [OF own(1) j that] by (simp add: pend_exact_def raw_fallback_of_def)
  qed (simp_all add: job_core_def job_ok_def raw_fallback_of_def)
  with True show ?thesis by simp
qed


lemma f_map_job_comp: "f_map_job f (f_map_job g w) = f_map_job (\<lambda>j. f (g j)) w"
  by (simp add: f_map_job_def f_with_state_mut_def Let_def map_active_job_def option.map_comp comp_def)

lemma refund_credit_Some:
  "refund_credit pn fee = Some credit \<Longrightarrow>
     unat (pn_gross_share_e8s pn) = unat credit + 4 * unat fee \<and>
     unat (pn_amount_e8s pn) + unat fee = unat (pn_gross_share_e8s pn)"
  by (auto simp: refund_credit_def checked_iff split: option.splits if_splits bind_splits)

lemma drop_after_update:
  assumes own: "owns_pending job_id px (fw_state w)"
    and f: "\<And>j. pj_id (f j) = pj_id j \<and> pj_pending_transfer (f j) = pj_pending_transfer j"
    and core: "\<And>j. job_core (f j) = (job_core j)\<lparr>pj_gross_outflow_e8s := out j\<rparr>"
    and "\<And>j. fs_active_payout_job (fw_state w) = Some j \<Longrightarrow> job_ok j \<Longrightarrow> out j \<le> pj_pot_start_e8s j"
  shows "f_step e w (clear_pending_transfer job_id px status (f_map_job f w)) \<and>
    no_pending (fw_state (clear_pending_transfer job_id px status (f_map_job f w)))"
proof
  have own': "owns_pending job_id px (fw_state (f_map_job f w))"
    using own f by (auto simp: owns_pending_iff)
  then show "no_pending (fw_state (clear_pending_transfer job_id px status (f_map_job f w)))"
    by (rule clear_no_pending)
  let ?k = "pn_kind (px_notification px)"
  have cnt: "job_core (count_terminal status ?k j) = job_core j" for j
    by (simp add: count_terminal_def job_core_def split: terminal_status.split)
  have "job_core ((count_terminal status ?k (f j))\<lparr>pj_pending_transfer := None\<rparr>)
      = (job_core j)\<lparr>pj_gross_outflow_e8s := out j, pj_pending_transfer := None\<rparr>" for j
  proof -
    have "job_core ((count_terminal status ?k (f j))\<lparr>pj_pending_transfer := None\<rparr>)
        = (job_core (count_terminal status ?k (f j)))\<lparr>pj_pending_transfer := None\<rparr>" by (simp add: job_core_def)
    then show ?thesis by (simp add: cnt core)
  qed
  then have "f_step e w ((f_map_job (\<lambda>j. (count_terminal status ?k (f j))\<lparr>pj_pending_transfer := None\<rparr>) w)
      \<lparr>fw_dispatch := None\<rparr>)"
    using assms(4) by (intro drop_pending_step [where out = out])
  moreover have "clear_pending_transfer job_id px status (f_map_job f w) =
      (f_map_job (\<lambda>j. (count_terminal status ?k (f j))\<lparr>pj_pending_transfer := None\<rparr>) w)\<lparr>fw_dispatch := None\<rparr>"
    using own' by (simp add: clear_pending_transfer_def pending_transfer_matches_def f_map_job_comp)
  ultimately show "f_step e w (clear_pending_transfer job_id px status (f_map_job f w))" by simp
qed

lemma refund_steps:
  assumes tr: "transition_refunded_beneficiary_to_raw_fallback job_id px fee now w = (r, w')"
    and fee: "\<And>j. fs_active_payout_job (fw_state w) = Some j \<Longrightarrow> \<not> exhausted (fw_state w)
      \<Longrightarrow> pj_fee_e8s j = fee"
  shows "r = RefundStaged \<Longrightarrow> f_step e w w' \<and> fallback_staged job_id w'"
    and "r = RefundBelowFee \<Longrightarrow> f_step e w (clear_pending_transfer job_id px status w') \<and>
      no_pending (fw_state (clear_pending_transfer job_id px status w'))"
    and "r = RefundInvariantBroken \<Longrightarrow> f_step e w w' \<and> fw_state w' = fw_state w"
proof -
  note ops = transition_refunded_beneficiary_to_raw_fallback_def pending_transfer_matches_def Let_def
  show "r = RefundInvariantBroken \<Longrightarrow> f_step e w w' \<and> fw_state w' = fw_state w"
    using tr by (auto simp: ops split: option.splits if_splits prod.splits)
next
  assume r: "r = RefundBelowFee"
  then obtain job credit released where own: "owns_pending job_id px (fw_state w)"
    and act: "fs_active_payout_job (fw_state w) = Some job"
    and rel: "checked_sub (pj_gross_outflow_e8s job) credit = Some released"
    and w': "w' = f_map_job (\<lambda>j. j\<lparr>pj_gross_outflow_e8s := released\<rparr>) w"
    using tr by (auto simp: transition_refunded_beneficiary_to_raw_fallback_def pending_transfer_matches_def
        Let_def split: option.splits if_splits prod.splits)
  show "f_step e w (clear_pending_transfer job_id px status w') \<and>
      no_pending (fw_state (clear_pending_transfer job_id px status w'))"
    unfolding w'
  proof (rule drop_after_update [OF own, where out = "\<lambda>_. released"])
    fix j
    assume "fs_active_payout_job (fw_state w) = Some j" "job_ok j"
    then show "released \<le> pj_pot_start_e8s j"
      using act rel by (auto simp: job_ok_def checked_iff word_le_nat_alt)
  qed (simp_all add: job_core_def)
next
  assume r: "r = RefundStaged"
  then obtain job credit released raw created nxt where own: "owns_pending job_id px (fw_state w)"
    and acc: "px_phase px = TransferAccepted"
    and act: "fs_active_payout_job (fw_state w) = Some job"
    and credit: "refund_credit (px_notification px) fee = Some credit"
    and rel: "checked_sub (pj_gross_outflow_e8s job) credit = Some released"
    and raw: "checked_sub credit fee = Some raw"
    and w': "w' = stage_transition job_id \<lparr>px_notification = refund_fallback (px_notification px) credit raw,
        px_created_at_time_nanos = created, px_phase = AwaitingTransfer\<rparr> nxt
        (\<lambda>j. j\<lparr>pj_gross_outflow_e8s := released\<rparr>) w"
    using tr by (auto simp: transition_refunded_beneficiary_to_raw_fallback_def pending_transfer_matches_def
        Let_def split: option.splits if_splits prod.splits)
  show "f_step e w w' \<and> fallback_staged job_id w'"
    unfolding w'
  proof (rule stage_transition_step [OF own, where out = "\<lambda>_. released"])
    fix j
    assume j: "fs_active_payout_job (fw_state w) = Some j"
    then have job: "j = job" using act by simp
    show "released \<le> pj_pot_start_e8s j" if "job_ok j"
      using that rel job by (auto simp: job_ok_def checked_iff word_le_nat_alt)
    show "pend_ok (j\<lparr>pj_gross_outflow_e8s := released\<rparr>)
        \<lparr>px_notification = refund_fallback (px_notification px) credit raw,
         px_created_at_time_nanos = created, px_phase = AwaitingTransfer\<rparr>" if "job_ok j"
      using that rel job by (auto simp: pend_ok_def refund_fallback_def job_ok_def checked_iff word_le_nat_alt)
    show "pend_exact j (px_notification \<lparr>px_notification = refund_fallback (px_notification px) credit raw,
        px_created_at_time_nanos = created, px_phase = AwaitingTransfer\<rparr>)"
      if "\<not> exhausted (fw_state w)" "job_exact j"
      using pending_facts(4) [OF own j that(2)] fee [OF j that(1)] raw
      by (simp add: pend_exact_def refund_fallback_def checked_iff)
  qed (simp_all add: job_core_def refund_fallback_def)
qed

text \<open>Ambiguous and unusable results: the staged share is counted as spent.\<close>

lemma reserve_gross_Some:
  "reserve_gross j px = Some out \<Longrightarrow> out \<le> pj_pot_start_e8s j \<and>
     unat out = unat (pj_gross_outflow_e8s j) + unat (pn_gross_share_e8s (px_notification px))"
  by (auto simp: reserve_gross_def checked_iff split: option.splits if_splits)

lemma reserve_clear_step:
  assumes "reserve_then_clear_ambiguous_awaiting_transfer job_id px w = (ok, w')"
    and own: "owns_pending job_id px (fw_state w)" and phase: "px_phase px = AwaitingTransfer"
  shows "f_step e w w' \<and> (ok \<longrightarrow> no_pending (fw_state w'))"
proof -
  obtain job where act: "fs_active_payout_job (fw_state w) = Some job"
    using own by (auto simp: owns_pending_iff)
  note ops = reserve_then_clear_ambiguous_awaiting_transfer_def
    reserve_ambiguous_awaiting_transfer_gross_def pending_transfer_matches_def
  show ?thesis
  proof (cases "reserve_gross job px")
    case None
    then have "\<not> ok" "w' = latch_forced_rescue_reason AccountingInvariantBroken (f_with_state_mut id w)"
      using assms(1) own act phase by (simp_all add: ops)
    then show ?thesis using f_step_trans [OF f_step_id latch_forced_step] by simp
  next
    case (Some out)
    have "w' = clear_pending_transfer job_id px TerminalAmbiguous
        (f_map_job (\<lambda>j. j\<lparr>pj_gross_outflow_e8s := out\<rparr>) w)"
      using assms(1) own act phase Some by (simp add: ops)
    moreover have "f_step e w (clear_pending_transfer job_id px TerminalAmbiguous
          (f_map_job (\<lambda>j. j\<lparr>pj_gross_outflow_e8s := out\<rparr>) w)) \<and>
        no_pending (fw_state (clear_pending_transfer job_id px TerminalAmbiguous
          (f_map_job (\<lambda>j. j\<lparr>pj_gross_outflow_e8s := out\<rparr>) w)))"
      by (rule drop_after_update [OF own, where out = "\<lambda>_. out"])
        (use act reserve_gross_Some [OF Some] in \<open>auto simp: job_core_def\<close>)
    ultimately show ?thesis by simp
  qed
qed

lemma record_unusable_step:
  assumes "record_accepted_transfer_with_unusable_block_index job_id px w = (broken, w')"
  shows "f_step e w w' \<and> (\<not> broken \<longrightarrow> owns_pending job_id px (fw_state w) \<longrightarrow> no_pending (fw_state w'))"
proof (cases "\<exists>job out. fs_active_payout_job (fw_state w) = Some job \<and> owns_pending job_id px (fw_state w)
    \<and> reserve_gross job px = Some out")
  case False
  then show ?thesis
    using assms by (auto simp: record_accepted_transfer_with_unusable_block_index_def owns_pending_iff
        pending_transfer_matches_def split: option.splits if_splits)
next
  case True
  then obtain job out where act: "fs_active_payout_job (fw_state w) = Some job"
    and own: "owns_pending job_id px (fw_state w)" and res: "reserve_gross job px = Some out" by blast
  let ?f = "\<lambda>j. (count_terminal TerminalAmbiguous (pn_kind (px_notification px)) j)
      \<lparr>pj_gross_outflow_e8s := out, pj_pending_transfer := None\<rparr>"
  have "w' = (f_map_job ?f w)\<lparr>fw_dispatch := None\<rparr>"
    using assms act own res
    by (simp add: record_accepted_transfer_with_unusable_block_index_def pending_transfer_matches_def)
  moreover have "f_step e w ((f_map_job ?f w)\<lparr>fw_dispatch := None\<rparr>)"
    by (rule drop_pending_step [where out = "\<lambda>_. out"])
      (use act reserve_gross_Some [OF res] in \<open>auto simp: job_core_def count_terminal_def\<close>)
  ultimately show ?thesis by (auto simp: no_pending_def)
qed


section \<open>The scan\<close>

definition cand_some :: "skip_candidate \<Rightarrow> bool" where
  "cand_some c \<longleftrightarrow> sk_tx_count c \<noteq> 0 \<longrightarrow> sk_start_tx_id c \<noteq> None \<and> sk_end_tx_id c \<noteq> None"

lemma cand_some_none [simp]: "cand_some no_candidate"
  by (simp add: cand_some_def no_candidate_def)

lemma cand_some_job: "job_ok j \<Longrightarrow> cand_some (candidate_from_job j)"
  by (simp add: cand_some_def candidate_from_job_def job_ok_def)

lemma job_upd_scan:
  assumes core: "job_core j' = job_core (job_set_candidate c (j\<lparr>pj_effective_denom_staking_balance_e8s := d,
      pj_effective_denom_scan_complete := b, pj_scan_complete := f\<rparr>))"
    and "cand_some c"
    and fixed: "effective_denom_scan_complete j \<Longrightarrow> d = pj_effective_denom_staking_balance_e8s j \<and>
      effective_denom_scan_complete (j\<lparr>pj_effective_denom_scan_complete := b\<rparr>)"
    and finished: "\<not> exhausted st \<Longrightarrow> job_exact j \<Longrightarrow> f
      \<Longrightarrow> effective_denom_scan_complete (j\<lparr>pj_effective_denom_scan_complete := b\<rparr>)"
  shows "job_upd st j j'"
proof -
  let ?k = "job_set_candidate c (j\<lparr>pj_effective_denom_staking_balance_e8s := d,
      pj_effective_denom_scan_complete := b, pj_scan_complete := f\<rparr>)"
  have pe: "pend_ok ?k px = pend_ok j px" for px
    by (simp add: pend_ok_def job_set_candidate_def split: pending_phase.split)
  have "job_ok j \<longrightarrow> job_ok ?k"
    using assms(2) pe by (simp add: job_ok_def cand_some_def) (simp add: job_set_candidate_def)
  moreover have "same_job j ?k"
    using fixed by (simp add: same_job_def job_key_def job_set_candidate_def effective_denom_scan_complete_def
        effective_denom_e8s_def)
  moreover have "job_exact ?k" if "\<not> exhausted st" "job_exact j"
    using fixed finished [OF that] that(2)
    by (auto simp: job_exact_def pend_exact_def job_set_candidate_def effective_denom_scan_complete_def)
  ultimately have "job_upd st j ?k" by (auto simp: job_upd_def)
  moreover have "job_upd st ?k j'" using core by (rule job_upd_core)
  ultimately show ?thesis by (auto simp: job_upd_def intro: same_job_trans)
qed

lemma job_upd_keep:
  assumes "job_core j' = job_core (job_set_candidate no_candidate j)" shows "job_upd st j j'"
  by (rule job_upd_scan [where c = no_candidate and d = "pj_effective_denom_staking_balance_e8s j"
        and b = "pj_effective_denom_scan_complete j" and f = "pj_scan_complete j"])
    (use assms in \<open>simp_all add: job_exact_def\<close>)

lemma note_index_page_step: "f_step e w (note_index_page_with_lease resp token job_id c w)"
proof -
  have "job_core (job1\<lparr>pj_observed_latest_tx_id := x\<rparr>) = job_core job1"
    "job_core (job1\<lparr>pj_observed_oldest_tx_id := x\<rparr>) = job_core job1" for job1 x
    by (simp_all add: job_core_def)
  then show ?thesis
    unfolding note_index_page_with_lease_def
    by (intro f_step_map_unless job_upd_core) (simp add: Let_def split: option.split)
qed

lemma flush_step: "f_step e w (flush_scan_progress small bad nxt no_candidate token job_id c w)"
  unfolding flush_scan_progress_def
  by (auto intro!: map_job_if_step job_upd_keep simp: job_core_def job_set_candidate_def)

lemma cand_completed:
  assumes "cand_some cand"
  shows "\<exists>rs'. record_completed_skip_range cand rs = Some (no_candidate, rs')"
proof (cases "min_skip_range_tx_count \<le> sk_tx_count cand")
  case False
  then show ?thesis by (simp add: record_completed_skip_range_def finish_span_def)
next
  case True
  then have "sk_tx_count cand \<noteq> 0" by (auto simp: min_skip_range_tx_count_def word_le_nat_alt)
  then obtain low high where "sk_end_tx_id cand = Some low" "sk_start_tx_id cand = Some high"
    using assms by (auto simp: cand_some_def)
  then show ?thesis by (simp add: record_completed_skip_range_def finish_span_def)
qed

lemma denom_txs_cand:
  assumes "cand_some cand"
  shows "denom_txs p txs cand pending delta \<noteq> DenomPanic \<and>
    (\<forall>c rs d. denom_txs p txs cand pending delta = DenomPage c rs d \<longrightarrow> cand_some c)"
  using assms
proof (induction txs arbitrary: cand pending delta)
  case (Cons tx txs)
  obtain pend1 where rc: "record_completed_skip_range cand pending = Some (no_candidate, pend1)"
    using cand_completed [OF Cons.prems] by blast
  have note_some: "cand_some (note_skippable k cand)" for k
    using Cons.prems by (auto simp: note_skippable_def cand_some_def)
  have IH: "denom_txs p txs c rs d \<noteq> DenomPanic \<and>
      (\<forall>c' rs' d'. denom_txs p txs c rs d = DenomPage c' rs' d' \<longrightarrow> cand_some c')"
    if "cand_some c" for c rs d using that by (rule Cons.IH)
  show ?case
    using IH [OF note_some, of "ix_id tx" pending delta] IH [OF cand_some_none]
    by (simp add: rc split: sum.split option.split)
qed simp

lemma denom_page_cand:
  assumes "cand_some (candidate_from_job (dp_job p))"
  shows "denom_page p b txs \<noteq> PagePanic \<and> (\<forall>d c rs. denom_page p b txs = PageOk d c rs \<longrightarrow> cand_some c)"
proof (cases "denom_txs p txs (candidate_from_job (dp_job p)) [] 0")
  case (DenomPage cand rs delta)
  then have "cand_some cand" using denom_txs_cand [OF assms, of p txs "[]" 0] by simp
  moreover obtain rs' where "record_completed_skip_range cand rs = Some (no_candidate, rs')"
    using cand_completed [OF \<open>cand_some cand\<close>] by blast
  ultimately show ?thesis using DenomPage by (auto simp: denom_page_def split: option.split)
qed (use denom_txs_cand [OF assms, of p txs "[]" 0] in \<open>simp_all add: denom_page_def\<close>)


text \<open>The end of a page: the pass over it may have finished.\<close>

lemma page_done_step:
  assumes "\<And>j. job_core (g j) = job_core (job_set_candidate no_candidate (j\<lparr>pj_scan_complete := f j\<rparr>))"
    and "\<And>j. fs_active_payout_job (fw_state w) = Some j \<Longrightarrow> ok j \<Longrightarrow> \<not> exhausted (fw_state w) \<Longrightarrow> f j
      \<Longrightarrow> effective_denom_scan_complete j \<or> pj_scan_complete j"
  shows "f_step e w (map_job_if token ok g w)"
proof (rule map_job_if_step)
  fix j
  assume j: "fs_active_payout_job (fw_state w) = Some j" "ok j"
  show "job_upd (fw_state w) j (g j)"
    by (rule job_upd_scan [where c = no_candidate and d = "pj_effective_denom_staking_balance_e8s j"
        and b = "pj_effective_denom_scan_complete j" and f = "f j"])
      (use assms(1) assms(2) [OF j] in \<open>auto simp: job_exact_def\<close>)
qed

lemma denom_page_core:
  "job_core (job_apply_denom_page sc oldest txs d cand j) = job_core (job_set_candidate
     (if sc then no_candidate else cand) (j\<lparr>pj_effective_denom_staking_balance_e8s := Some d,
        pj_effective_denom_scan_complete :=
          (if sc then Some True else pj_effective_denom_scan_complete j),
        pj_scan_complete := pj_scan_complete j\<rparr>))"
  by (simp add: job_apply_denom_page_def job_set_candidate_def job_core_def Let_def split: list.split option.split)

lemma denom_store_step:
  assumes "cand_some cand"
  shows "f_step e w (map_job_if token (same_denom_cursor job) (job_apply_denom_page sc oldest txs d cand) w)"
proof (rule map_job_if_step)
  fix j
  assume "same_denom_cursor job j"
  then have "\<not> effective_denom_scan_complete j"
    by (simp add: same_denom_cursor_def effective_denom_scan_complete_def unwrap_or_def)
  then show "job_upd (fw_state w) j (job_apply_denom_page sc oldest txs d cand j)"
    using assms by (intro job_upd_scan [OF denom_page_core])
      (auto simp: job_exact_def effective_denom_scan_complete_def)
qed

lemma f_skip_step: "smap_ok m \<Longrightarrow> f_step e w (w\<lparr>fw_skip := m\<rparr>)"
  by (rule f_step_cells) simp_all

lemma jump_core:
  "job_core (job_after_jump r complete j) = job_core (job_set_candidate no_candidate
     (j\<lparr>pj_effective_denom_staking_balance_e8s := pj_effective_denom_staking_balance_e8s j,
        pj_effective_denom_scan_complete := (if complete \<and> \<not> effective_denom_scan_complete j then Some True
          else pj_effective_denom_scan_complete j),
        pj_scan_complete := (complete \<and> effective_denom_scan_complete j \<or> pj_scan_complete j)\<rparr>))"
  by (simp add: job_after_jump_def job_set_candidate_def job_core_def Let_def effective_denom_scan_complete_def)

lemma skip_jump_cases:
  assumes "skip_jump r complete j m = out" "job_ok j" "smap_ok m"
  shows "out \<noteq> JumpPanic \<and> (\<forall>j' m'. out = JumpTo j' m' \<longrightarrow> j' = job_after_jump r complete j \<and> smap_ok m')"
proof (cases "effective_denom_scan_complete j")
  case True
  then show ?thesis using assms by (auto simp: skip_jump_def)
next
  case False
  obtain rs' where "record_completed_skip_range (candidate_from_job j) [] = Some (no_candidate, rs')"
    using cand_completed [OF cand_some_job [OF assms(2)]] by blast
  then obtain x where x: "finish_span (candidate_from_job j) = Some x"
    by (auto simp: record_completed_skip_range_def split: option.splits)
  show ?thesis
  proof (cases x)
    case None
    then show ?thesis using assms False x by (auto simp: skip_jump_def)
  next
    case (Some y)
    then show ?thesis
      using assms False x insert_keeps_ok [OF assms(3), of y] by (auto simp: skip_jump_def split: sum.splits)
  qed
qed

lemma skip_cached_step:
  assumes inv: "f_inv e w" and out: "skip_cached_history job token w = res"
  shows "res \<noteq> None" "res = Some (r, w') \<Longrightarrow> f_step e w w'"
    "res = Some (Inr False, w') \<Longrightarrow> fw_state w' = fw_state w"
proof -
  have "res \<noteq> None \<and> (\<forall>r w'. res = Some (r, w') \<longrightarrow> f_step e w w' \<and> (r = Inr False \<longrightarrow> fw_state w' = fw_state w))"
  proof (cases "skip_target job (fw_skip w)")
    case (Inr t)
    show ?thesis
    proof (cases t)
      case (Some rc)
      obtain r complete where rc: "rc = (r, complete)" by fastforce
      show ?thesis
      proof (cases "fs_active_payout_job (fw_state w)")
        case None
        then show ?thesis using out Inr Some rc by (auto simp: skip_cached_history_def)
      next
        case act: (Some active)
        have ok: "job_ok active" "smap_ok (fw_skip w)"
          using inv act by (simp_all add: f_inv_def f_st_inv_def)
        note jump = skip_jump_cases [OF refl ok, of r complete]
        have upd: "f_step e w ((f_map_job (\<lambda>_. job_after_jump r complete active) w)\<lparr>fw_skip := m\<rparr>)"
          if "smap_ok m" for m
        proof -
          have "job_upd (fw_state w) active (job_after_jump r complete active)"
            by (rule job_upd_scan [OF jump_core]) (auto simp: effective_denom_scan_complete_def job_exact_def)
          then have "f_step e w (f_map_job (\<lambda>_. job_after_jump r complete active) w)"
            using act by (intro f_step_map_job) simp
          then show ?thesis using f_skip_step [OF that] by (rule f_step_trans)
        qed
        show ?thesis
          using out Inr Some rc act jump upd
          by (cases "skip_jump r complete active (fw_skip w)")
            (auto simp: skip_cached_history_def split: if_split_asm)
      qed
    qed (use out Inr in \<open>auto simp: skip_cached_history_def\<close>)
  qed (use out in \<open>auto simp: skip_cached_history_def\<close>)
  then show "res \<noteq> None" "res = Some (r, w') \<Longrightarrow> f_step e w w'"
    "res = Some (Inr False, w') \<Longrightarrow> fw_state w' = fw_state w" by blast+
qed

section \<open>Health\<close>

lemma f_core_health:
  "f_core (snd (apply_anchor_observation o1 now (k, st))) = f_core st"
  "f_core (snd (record_latest_unreadable_failure now (k, st))) = f_core st"
  "f_core (snd (record_latest_invariant_failure now (k, st))) = f_core st"
  "f_core (apply_cmc_run_result a b c st) = f_core st"
  "f_core (maybe_latch_bootstrap_rescue now st) = f_core st"
  by (simp_all add: apply_anchor_observation_def record_latest_unreadable_failure_def
      record_latest_invariant_failure_def apply_cmc_run_result_def maybe_latch_bootstrap_rescue_def
      latch_reason_def f_core_def Let_def split: option.split prod.split)

lemma f_core_latest: "f_core (snd (apply_latest_observation scan now (k, st))) = f_core st"
  by (simp add: apply_latest_observation_def f_core_health Let_def split: latest_scan.split)
    (simp add: f_core_def)

lemma f_core_job_health: "f_core (snd (apply_job_health_observations job b now (k, st))) = f_core st"
  using f_core_health(1) [of "pj_observed_oldest_tx_id job" now k st]
  by (cases "apply_anchor_observation (pj_observed_oldest_tx_id job) now (k, st)")
    (simp add: apply_job_health_observations_def f_core_health)

lemma f_with_health_fields [simp]:
  "fw_state (f_with_health f w) = snd (f (fw_clocks w, fw_state w))"
  "fw_stable (f_with_health f w) = Some (snd (f (fw_clocks w, fw_state w)))"
  "fw_self (f_with_health f w) = fw_self w" "fw_now (f_with_health f w) = fw_now w"
  "fw_skip (f_with_health f w) = fw_skip w" "fw_dispatch (f_with_health f w) = fw_dispatch w"
  "fw_run_marker (f_with_health f w) = fw_run_marker w"
  by (simp_all add: f_with_health_def split: prod.split)

lemma f_with_health_step:
  assumes "f_core (snd (f (fw_clocks w, fw_state w))) = f_core (fw_state w)"
  shows "f_step e w (f_with_health f w)"
  using f_core_inv [OF assms] f_core_rel [OF assms] by (simp add: f_step_def f_inv_def f_rel_def)

lemma health_if_current_step:
  assumes "f_core (snd (f (fw_clocks w, fw_state w))) = f_core (fw_state w)"
  shows "f_step e w (health_if_current token f w)"
  using f_with_health_step [where f = f, OF assms] by (simp add: health_if_current_def)

lemma latch_bootstrap_step: "f_step e w (f_with_state_mut (maybe_latch_bootstrap_rescue now) w)"
  by (rule f_step_core) (rule f_core_health)


section \<open>Opening and finishing a job\<close>

lemma next_nonce: "\<not> (sat_add n 1 = u_max) \<Longrightarrow> n < sat_add n 1" for n :: u64
  by (auto simp: sat_add_def word_less_nat_alt unat_word_ariths split: if_splits)

definition opened_job :: "payout_job \<Rightarrow> bool" where
  "opened_job j \<longleftrightarrow> pj_gross_outflow_e8s j = 0 \<and> pj_pending_transfer j = None \<and>
     pj_skip_candidate_tx_count j = 0 \<and> \<not> pj_scan_complete j"

lemma opened_ok: "opened_job j \<Longrightarrow> job_ok j \<and> job_exact j"
  by (simp add: opened_job_def job_ok_def job_exact_def)

lemma ensure_job_step:
  assumes "fs_last_processed_funding_tx_id (fw_state w) < Some (ft_tx_id t)"
  shows "f_step e w (f_with_state_mut (ensure_active_job_with_boundary now fee pot denom end_time end_latest
    (Some t)) w)"
proof (cases "fs_active_payout_job (fw_state w)")
  case (Some j)
  then show ?thesis by (intro f_step_core) (simp add: ensure_active_job_with_boundary_def)
next
  case None
  let ?st = "fw_state w"
  obtain j where st': "ensure_active_job_with_boundary now fee pot denom end_time end_latest (Some t) ?st
      = ?st\<lparr>fs_payout_nonce := sat_add (fs_payout_nonce ?st) 1, fs_active_payout_job := Some j\<rparr>"
    and j: "opened_job j" "pj_id j = fs_payout_nonce ?st" "pj_funding_tx_id j = Some (ft_tx_id t)"
  proof -
    let ?job = "\<lambda>start latest. configure_round_accounting start latest end_time end_latest 0 False
      (configure_funding_tranche (ft_tx_id t) (ft_timestamp_nanos t) (ft_amount_e8s t)
        (payout_job_new (fs_payout_nonce ?st) fee pot denom now))"
    have job: "opened_job (?job s l) \<and> pj_id (?job s l) = fs_payout_nonce ?st \<and>
        pj_funding_tx_id (?job s l) = Some (ft_tx_id t)" for s l
      by (simp add: opened_job_def payout_job_new_def configure_round_accounting_def configure_funding_tranche_def)
    have "\<exists>s l. ensure_active_job_with_boundary now fee pot denom end_time end_latest (Some t) ?st
      = ?st\<lparr>fs_payout_nonce := sat_add (fs_payout_nonce ?st) 1, fs_active_payout_job := Some (?job s l)\<rparr>"
      using None by (auto simp: ensure_active_job_with_boundary_def Let_def split: option.split)
    then show thesis using job that by blast
  qed
  show ?thesis
  proof (rule f_step_state)
    fix self_id
    assume inv: "f_st_inv e self_id ?st"
    have "jobs_continue ?st (?st\<lparr>fs_payout_nonce := sat_add (fs_payout_nonce ?st) 1, fs_active_payout_job := Some j\<rparr>)"
      using None j(2) by (simp add: jobs_continue_def)
    then show "f_st_inv e self_id (ensure_active_job_with_boundary now fee pot denom end_time end_latest
          (Some t) ?st) \<and>
        f_st_rel ?st (ensure_active_job_with_boundary now fee pot denom end_time end_latest (Some t) ?st)"
      unfolding st' using inv opened_ok [OF j(1)] next_nonce assms j(2,3)
      by (auto simp: f_st_inv_def f_st_rel_def exhausted_def job_current_def le_sat_add)
  qed
qed

lemma finalize_step:
  assumes cap: "captured job (fw_state w)" and act: "fs_active_payout_job (fw_state w) = Some j"
    and id: "pj_id j = pj_id job"
  shows "f_step e w (f_with_health (finalize_state job b now) w)"
proof -
  let ?st = "fw_state w"
  let ?s = "?st\<lparr>fs_active_payout_job := None\<rparr>"
  obtain k st where h: "apply_job_health_observations job b now (fw_clocks w, ?s) = (k, st)" by fastforce
  then have core: "f_core st = f_core ?s" using f_core_job_health [of job b now "fw_clocks w" ?s] by simp
  define st' where "st' = snd (finalize_state job b now (fw_clocks w, ?st))"
  have st': "fs_config st' = fs_config ?st" "fs_payout_nonce st' = fs_payout_nonce ?st"
    "fs_active_payout_job st' = None" "fs_active_funding_scan st' = fs_active_funding_scan ?st"
    "fs_last_processed_funding_tx_id st' = (case pj_funding_tx_id job of
       None \<Rightarrow> fs_last_processed_funding_tx_id ?st | Some f \<Rightarrow> Some f)"
    using f_core_fields [OF core]
    by (simp_all add: st'_def finalize_state_def h split: option.split)
  show ?thesis
  proof (cases "exhausted ?st")
    case True
    then show ?thesis
      using st' by (simp add: f_step_def f_inv_def f_rel_def f_st_inv_def f_st_rel_def exhausted_def
          st'_def [symmetric])
  next
    case False
    have "same_job job j" using captured_same [OF cap False act id] .
    then have fund: "pj_funding_tx_id j = pj_funding_tx_id job" by (rule same_job_fields)
    have "f_st_rel ?st st'" if inv: "f_inv e w"
    proof -
      have "fs_last_processed_funding_tx_id ?st < pj_funding_tx_id j"
        using inv False act by (simp add: f_inv_def f_st_inv_def job_current_def)
      then have "fs_last_processed_funding_tx_id st' = pj_funding_tx_id j"
        "fs_last_processed_funding_tx_id ?st \<le> pj_funding_tx_id j"
        using st'(5) fund by (cases "pj_funding_tx_id job"; auto)+
      then show ?thesis using st' act by (simp add: f_st_rel_def jobs_continue_def)
    qed
    then show ?thesis
      using st' by (simp add: f_step_def f_inv_def f_rel_def f_st_inv_def st'_def [symmetric])
  qed
qed

section \<open>The funding scan\<close>

definition scan_wf :: "u64 option \<Rightarrow> funding_scan \<Rightarrow> bool" where
  "scan_wf anchor scan \<longleftrightarrow> fs_anchor_last_processed_funding_tx_id scan = anchor \<and>
     (\<forall>t. fs_candidate scan = Some t \<longrightarrow> anchor < Some (ft_tx_id t))"

lemma scan_wf_ok: "scan_wf anchor scan \<Longrightarrow> scan_ok (Some scan)"
  by (simp add: scan_wf_def scan_ok_def)

lemma set_scan_step:
  assumes "scan_ok (fs_active_funding_scan (f (fw_state w)))"
    and "f (fw_state w) = (fw_state w)\<lparr>fs_active_funding_scan := fs_active_funding_scan (f (fw_state w))\<rparr>"
  shows "f_step e w (f_with_state_mut f w)"
proof (rule f_step_state)
  fix self_id
  let ?st = "fw_state w" and ?sc = "fs_active_funding_scan (f (fw_state w))"
  assume inv: "f_st_inv e self_id ?st"
  have "jobs_continue ?st (?st\<lparr>fs_active_funding_scan := ?sc\<rparr>)" by (auto simp: jobs_continue_def)
  then have "f_st_inv e self_id (?st\<lparr>fs_active_funding_scan := ?sc\<rparr>) \<and>
      f_st_rel ?st (?st\<lparr>fs_active_funding_scan := ?sc\<rparr>)"
    using inv assms(1) by (simp add: f_st_inv_def f_st_rel_def exhausted_def job_current_def)
  then show "f_st_inv e self_id (f ?st) \<and> f_st_rel ?st (f ?st)" using assms(2) by simp
qed

lemma begin_scan_cases:
  "begin_funding_scan token anchor st0 \<in> {(None, st0)} \<union>
     {(Some scan, st0) |scan. fs_active_funding_scan st0 = Some scan \<and>
        fs_anchor_last_processed_funding_tx_id scan = anchor} \<union>
     {(Some scan, st0\<lparr>fs_active_funding_scan := Some scan\<rparr>) |scan.
        fs_anchor_last_processed_funding_tx_id scan = anchor \<and> fs_candidate scan = None}"
  by (simp add: begin_funding_scan_def Let_def split: option.split)

lemma begin_scan:
  assumes inv: "f_inv e w" and r: "begin_funding_scan token anchor (fw_state w) = (r, st)"
  shows "f_step e w (f_with_state_mut (\<lambda>_. st) w)" "r = Some scan \<Longrightarrow> scan_wf anchor scan"
proof -
  have ok: "scan_ok (fs_active_funding_scan (fw_state w))" using inv by (simp add: f_inv_def f_st_inv_def)
  consider "r = None" "st = fw_state w"
    | sc where "r = Some sc" "st = fw_state w" "fs_active_funding_scan (fw_state w) = Some sc"
        "fs_anchor_last_processed_funding_tx_id sc = anchor"
    | sc where "r = Some sc" "st = (fw_state w)\<lparr>fs_active_funding_scan := Some sc\<rparr>"
        "fs_anchor_last_processed_funding_tx_id sc = anchor" "fs_candidate sc = None"
    using begin_scan_cases [of token anchor "fw_state w"] unfolding r by blast
  then have "f_step e w (f_with_state_mut (\<lambda>_. st) w) \<and> (r = Some scan \<longrightarrow> scan_wf anchor scan)"
  proof cases
    case 1
    then show ?thesis by (simp add: f_step_core)
  next
    case 2
    then show ?thesis using ok by (auto simp: f_step_core scan_ok_def scan_wf_def)
  next
    case 3
    then have "f_step e w (f_with_state_mut (\<lambda>_. st) w)"
      by (intro set_scan_step) (simp_all add: scan_ok_def)
    with 3 show ?thesis by (auto simp: scan_wf_def)
  qed
  then show "f_step e w (f_with_state_mut (\<lambda>_. st) w)" "r = Some scan \<Longrightarrow> scan_wf anchor scan" by blast+
qed

lemma funding_txs_after:
  assumes "funding_txs src pay anchor fee txs cand = Some (cand', reached)"
    and "\<And>t. cand = Some t \<Longrightarrow> anchor < Some (ft_tx_id t)"
  shows "cand' = Some t \<Longrightarrow> anchor < Some (ft_tx_id t)"
  using assms
proof (induction txs arbitrary: cand)
  case (Cons tx txs)
  show ?case
  proof (cases "case anchor of None \<Rightarrow> False | Some l \<Rightarrow> ix_id tx \<le> l")
    case True
    then show ?thesis using Cons.prems by simp
  next
    case False
    then have new: "anchor < Some (ix_id tx)" by (cases anchor) (auto simp: not_le)
    show ?thesis
    proof (cases "qualifying_funding src pay fee tx")
      case None
      then have "funding_txs src pay anchor fee txs cand = Some (cand', reached)"
        using Cons.prems(2) False by simp
      then show ?thesis using Cons.IH [OF Cons.prems(1)] Cons.prems(3) by blast
    next
      case (Some amount)
      then obtain time where time: "index_tx_timestamp_nanos tx = Some time"
        using Cons.prems(2) False by (cases "index_tx_timestamp_nanos tx") simp_all
      let ?c = "if (case cand of None \<Rightarrow> True | Some old \<Rightarrow> ix_id tx < ft_tx_id old)
        then Some \<lparr>ft_tx_id = ix_id tx, ft_timestamp_nanos = time, ft_amount_e8s = amount\<rparr> else cand"
      have "funding_txs src pay anchor fee txs ?c = Some (cand', reached)"
        using Cons.prems(2) False Some time by simp
      moreover have "anchor < Some (ft_tx_id t)" if "?c = Some t" for t
        using that new Cons.prems(3) by (cases "?c = cand") (auto split: if_split_asm)
      ultimately show ?thesis using Cons.IH [OF Cons.prems(1)] by blast
    qed
  qed
qed simp


section \<open>The guard\<close>

lemma f_acquire_step: "f_step e w (snd (f_main_guard_acquire now w))"
  by (auto simp: f_main_guard_acquire_def f_core_def intro!: f_step_core split: option.splits)

lemma f_release_step: "f_step e w (f_main_guard_release g w)"
  by (auto simp: f_main_guard_release_def f_core_def intro!: f_step_core)

lemma f_advance_step: "f_advance_main_run_marker w = Some w' \<Longrightarrow> f_step e w w'"
  by (auto simp: f_advance_main_run_marker_def intro!: f_step_cells split: option.splits)

lemma f_finish_step:
  assumes "f_main_guard_finish g now err w = Some w'"
  shows "f_step e w w'"
proof -
  have rec: "f_step e w1 (f_with_state_mut (\<lambda>st. st\<lparr>fs_last_main_run_ts := now, fs_main_lock_state_ts := Some 0\<rparr>) w1)"
    for w1 by (rule f_step_core) (simp add: f_core_def)
  obtain outcome g' where rel: "tlg_release g (fs_main_lock_state_ts (fw_state w)) = (outcome, g')" by fastforce
  obtain w1 where w1: "(if outcome = Released
            then map_option (f_with_state_mut (\<lambda>st. st\<lparr>fs_last_main_run_ts := now,
                   fs_main_lock_state_ts := Some 0\<rparr>)) (f_advance_main_run_marker w)
            else Some (f_with_state_mut id w)) = Some w1"
    and w': "w' = f_main_guard_release g' (case err of None \<Rightarrow> w1 | Some code \<Rightarrow> f_log_error code w1)"
    using assms by (auto simp: f_main_guard_finish_def rel split: option.splits)
  have "f_step e w w1"
    using w1 by (auto split: if_splits intro: f_step_trans [OF f_advance_step rec])
  moreover have "f_step e w1 (case err of None \<Rightarrow> w1 | Some code \<Rightarrow> f_log_error code w1)"
    by (auto intro: f_log_error_step split: option.split)
  ultimately show ?thesis unfolding w' using f_step_trans f_release_step by blast
qed

section \<open>Installation and upgrade\<close>

lemma faucet_init_Inr:
  "faucet_init cx self_id now args = Inr st \<Longrightarrow>
     \<exists>cfg. st = fstate_new cfg now \<and> faucet_validate_config cx self_id cfg = Inr ()"
  by (auto simp: faucet_init_def Let_def split: sum.splits)

definition upgraded :: "fstate \<Rightarrow> fstate \<Rightarrow> bool" where
  "upgraded st st' \<longleftrightarrow> f_config_key (fs_config st') = f_config_key (fs_config st) \<and>
     fs_payout_nonce st' = fs_payout_nonce st \<and> fs_active_payout_job st' = fs_active_payout_job st \<and>
     fs_last_processed_funding_tx_id st \<le> fs_last_processed_funding_tx_id st' \<and>
     (fs_active_funding_scan st' = fs_active_funding_scan st \<or> fs_active_funding_scan st' = None)"

lemma upgraded_refl [simp]: "upgraded st st"
  by (simp add: upgraded_def)

lemma upgraded_trans: "upgraded a b \<Longrightarrow> upgraded b c \<Longrightarrow> upgraded a c"
  unfolding upgraded_def by (metis order_trans)

lemma set_checked_upgraded:
  assumes "faucet_set_checked arg ok msg upd r = Inr st'"
    and "\<And>v c. f_config_key (upd v c) = f_config_key c"
  shows "\<exists>st. r = Inr st \<and> upgraded st st'"
  using assms by (auto simp: faucet_set_checked_def upgraded_def split: sum.splits option.splits if_splits)

lemma set_last_upgraded: "faucet_set_last_processed f st = Inr st' \<Longrightarrow> upgraded st st'"
  by (auto simp: faucet_set_last_processed_def upgraded_def not_less split: if_splits option.splits)

lemma all_checked_upgraded:
  assumes "faucet_set_checked a4 (\<lambda>v. v > 0) ''stake_recognition_delay_seconds must be greater than 0''
      (\<lambda>v c. c\<lparr>fc_stake_recognition_delay_seconds := Some v\<rparr>)
      (faucet_set_checked a3 (\<lambda>v. v \<ge> min_min_tx_e8s)
        ''min_tx_e8s must be at least 10000000 e8s (0.1 ICP)'' (\<lambda>v c. c\<lparr>fc_min_tx_e8s := v\<rparr>)
      (faucet_set_checked a2 (\<lambda>v. v > 0)
        ''rescue_interval_seconds must be greater than 0'' (\<lambda>v c. c\<lparr>fc_rescue_interval_seconds := v\<rparr>)
      (faucet_set_checked a1 (\<lambda>v. v > 0)
        ''main_interval_seconds must be greater than 0'' (\<lambda>v c. c\<lparr>fc_main_interval_seconds := v\<rparr>) r3)))
    = Inr st'"
  shows "\<exists>s3. r3 = Inr s3 \<and> upgraded s3 st'"
proof -
  have "f_config_key (c\<lparr>fc_stake_recognition_delay_seconds := d\<rparr>) = f_config_key c"
    "f_config_key (c\<lparr>fc_min_tx_e8s := v\<rparr>) = f_config_key c"
    "f_config_key (c\<lparr>fc_rescue_interval_seconds := v\<rparr>) = f_config_key c"
    "f_config_key (c\<lparr>fc_main_interval_seconds := v\<rparr>) = f_config_key c" for c v d
    by (simp_all add: f_config_key_def)
  note step = set_checked_upgraded [OF _ this(1)] set_checked_upgraded [OF _ this(2)]
    set_checked_upgraded [OF _ this(3)] set_checked_upgraded [OF _ this(4)]
  show ?thesis using assms by (auto dest!: step intro: upgraded_trans)
qed

lemma paired_Inr:
  "(case x of Inl e \<Rightarrow> Inl e | Inr s \<Rightarrow> Inr (s, b)) = Inr (s', r) \<Longrightarrow> x = Inr s'"
  by (simp split: sum.splits)

lemma apply_upgrade_args_upgraded:
  assumes "faucet_apply_upgrade_args st a now = Inr (st', r)"
  shows "upgraded st st'"
proof -
  let ?st1 = "case fu_autonomous_rescue_armed a of None \<Rightarrow> st | Some armed \<Rightarrow> faucet_set_armed now armed st"
  let ?p2 = "if unwrap_or (fu_clear_forced_rescue a) False then faucet_clear_forced ?st1 else (?st1, False)"
  have "upgraded st ?st1"
    by (simp add: faucet_set_armed_def upgraded_def f_config_key_def Let_def split: option.split)
  moreover have "upgraded ?st1 (fst ?p2)" by (simp add: faucet_clear_forced_def upgraded_def)
  ultimately have 2: "upgraded st (fst ?p2)" by (rule upgraded_trans)
  have "\<exists>s3. (case fu_last_processed_funding_tx_id a of None \<Rightarrow> Inr (fst ?p2)
      | Some f \<Rightarrow> faucet_set_last_processed f (fst ?p2)) = Inr s3 \<and> upgraded s3 st'"
    using assms unfolding faucet_apply_upgrade_args_def Let_def case_prod_beta
    by (rule all_checked_upgraded [OF paired_Inr])
  then obtain s3 where s3: "(case fu_last_processed_funding_tx_id a of None \<Rightarrow> Inr (fst ?p2)
      | Some f \<Rightarrow> faucet_set_last_processed f (fst ?p2)) = Inr s3" "upgraded s3 st'" by blast
  have "upgraded (fst ?p2) s3"
  proof (cases "fu_last_processed_funding_tx_id a")
    case None
    then show ?thesis using s3(1) by simp
  next
    case (Some f)
    then show ?thesis using s3(1) by (intro set_last_upgraded [of f]) simp
  qed
  with 2 s3(2) show ?thesis using upgraded_trans by blast
qed

lemma f_install_timers_fields [simp]:
  "fw_self (f_install_timers w) = fw_self w" "fw_now (f_install_timers w) = fw_now w"
  "fw_state (f_install_timers w) = fw_state w" "fw_stable (f_install_timers w) = fw_stable w"
  "fw_skip (f_install_timers w) = fw_skip w"
  by (simp_all add: f_install_timers_def f_set_timer_def)

lemma f_installed_inv: "f_installed e w \<Longrightarrow> f_inv e w"
proof -
  assume "f_installed e w"
  then obtain self_id now args st where init: "faucet_init (fe_cx e) self_id (now div 1000000000) args = Inr st"
    and w: "w = f_install_timers (f_fresh self_id now st None)"
    unfolding f_installed_def by blast
  from faucet_init_Inr [OF init] have "f_st_inv e self_id st"
    by (auto simp: f_st_inv_def fstate_new_def scan_ok_def)
  then show ?thesis by (simp add: w f_inv_def f_fresh_def)
qed

lemma f_post_upgrade_facts:
  assumes "f_inv e w" "f_post_upgrade e args w = Some w'"
  shows "fs_active_payout_job (fw_state w) = None" "upgraded (fw_state w) (fw_state w')"
    "fw_stable w' = Some (fw_state w')" "fw_self w' = fw_self w" "fw_now w' = fw_now w" "fw_skip w' = []"
    "faucet_validate_config (fe_cx e) (fw_self w) (fs_config (fw_state w')) = Inr ()"
proof -
  have stable: "fw_stable w = Some (fw_state w)" using assms(1) by (simp add: f_inv_def)
  with assms(2) obtain st1 r where quiet: "validate_upgrade_quiescence (fw_state w) = Inr ()"
    and up: "faucet_apply_upgrade_args_to_state (fe_cx e) (fw_self w) (fw_state w) args (f_now_secs w) = Inr (st1, r)"
    and w': "w' = (if r then f_set_timer FReconcileTimer
        (f_install_timers (f_fresh (fw_self w) (fw_now w) st1 (fw_dispatch w)))
        else f_install_timers (f_fresh (fw_self w) (fw_now w) st1 (fw_dispatch w)))"
    by (auto simp: f_post_upgrade_def Let_def split: sum.splits)
  obtain st0 where st0: "upgraded (fw_state w) st0" "st1 = st0\<lparr>fs_main_lock_state_ts := Some 0\<rparr>"
    and valid: "faucet_validate_config (fe_cx e) (fw_self w) (fs_config st0) = Inr ()"
  proof (cases args)
    case None
    then show thesis using up that [of "fw_state w"]
      by (auto simp: faucet_apply_upgrade_args_to_state_def split: sum.splits)
  next
    case (Some a)
    then show thesis using up that
      by (auto simp: faucet_apply_upgrade_args_to_state_def split: sum.splits
          dest: apply_upgrade_args_upgraded)
  qed
  show "fs_active_payout_job (fw_state w) = None"
    using quiet by (simp add: validate_upgrade_quiescence_def split: if_splits)
  show "upgraded (fw_state w) (fw_state w')" "fw_stable w' = Some (fw_state w')" "fw_self w' = fw_self w"
    "fw_now w' = fw_now w" "fw_skip w' = []"
    "faucet_validate_config (fe_cx e) (fw_self w) (fs_config (fw_state w')) = Inr ()"
    using st0 valid by (simp_all add: w' f_fresh_def f_set_timer_def upgraded_def)
qed

lemma f_post_upgrade_ok:
  assumes "f_inv e w" "f_post_upgrade e args w = Some w'"
  shows "f_inv e w' \<and> f_rel w w'"
proof -
  note facts = f_post_upgrade_facts [OF assms]
  have none: "fs_active_payout_job (fw_state w') = None" using facts(1,2) by (simp add: upgraded_def)
  have "scan_ok (fs_active_funding_scan (fw_state w'))"
    using facts(2) assms(1) by (auto simp: upgraded_def f_inv_def f_st_inv_def scan_ok_def)
  then have "f_inv e w'" using facts none by (simp add: f_inv_def f_st_inv_def)
  moreover have "f_st_rel (fw_state w) (fw_state w')"
    using facts(1,2) none by (auto simp: upgraded_def f_st_rel_def jobs_continue_def)
  ultimately show ?thesis using facts by (simp add: f_rel_def)
qed

end
