(* ===== verification/FaucetSafety.thy ===== *)
theory FaucetSafety
  imports FaucetInvariant
begin

text \<open>
  What the Faucet guarantees in every interleaving of its timers, pokes, retries and upgrades: the
  rely-guarantee judgement of each handler, the interpretation of \<open>rg_system\<close>, and the properties
  of every request it ever sends.
\<close>

section \<open>The requests\<close>

text \<open>A transfer is the one staged in the active job, with its dispatch recorded.\<close>

definition transfer_of :: "fworld \<Rightarrow> principal \<Rightarrow> u64 \<Rightarrow> pending_transfer \<Rightarrow> transfer_arg \<Rightarrow> bool" where
  "transfer_of w cmc_id fee px arg \<longleftrightarrow>
     ta_from_subaccount arg = fc_payout_subaccount (fs_config (fw_state w)) \<and>
     deposit_account_for_pending cmc_id (px_notification px) = Some (ta_to arg) \<and>
     ta_amount arg = unat (pn_amount_e8s (px_notification px)) \<and> ta_fee arg = Some (unat fee) \<and>
     ta_memo arg = Some (transfer_memo_for_pending (px_notification px)) \<and>
     ta_created_at_time arg = Some (px_created_at_time_nanos px)"

definition transfer_req_ok :: "fworld \<Rightarrow> principal \<Rightarrow> transfer_arg \<Rightarrow> bool" where
  "transfer_req_ok w ledger arg \<longleftrightarrow> ledger = fc_ledger_canister_id (fs_config (fw_state w)) \<and>
     (\<exists>j px fee. fs_active_payout_job (fw_state w) = Some j \<and> pj_pending_transfer j = Some px \<and>
        px_phase px = AwaitingTransfer \<and> fw_dispatch w = dispatch_cell (pj_id j) px True \<and>
        (exhausted (fw_state w) \<or> fee = pj_fee_e8s j) \<and>
        transfer_of w (fc_cmc_canister_id (fs_config (fw_state w))) fee px arg)"

text \<open>A follow-up of an accepted transfer.\<close>

definition accepted_in :: "fworld \<Rightarrow> pending_notification \<Rightarrow> bool" where
  "accepted_in w pn \<longleftrightarrow> (\<exists>j px. fs_active_payout_job (fw_state w) = Some j \<and>
     pj_pending_transfer j = Some px \<and> px_phase px = TransferAccepted \<and> px_notification px = pn)"

definition f_req_ok :: "fenv \<Rightarrow> fworld \<Rightarrow> f_req \<Rightarrow> bool" where
  "f_req_ok e w q \<longleftrightarrow> f_inv e w \<and> (case q of
       FReqTransfer ledger arg \<Rightarrow> transfer_req_ok w ledger arg
     | FReqNotify cmc beneficiary block \<Rightarrow> cmc = fc_cmc_canister_id (fs_config (fw_state w)) \<and>
         (\<exists>pn. accepted_in w pn \<and> pn_kind pn = KBeneficiary \<and> pn_beneficiary pn = beneficiary \<and>
            pn_block_index pn = block)
     | FReqClaimOrRefresh gov neuron \<Rightarrow> Some gov = fc_governance_canister_id (fs_config (fw_state w)) \<and>
         (\<exists>pn. accepted_in w pn \<and> pn_kind pn = KNeuronStake \<and> pn_neuron_id pn = Some neuron)
     | FReqUpdateSettings arg \<Rightarrow> us_canister_id arg = fw_self w \<and>
         (\<exists>cs. cs_controllers (us_settings arg) = Some cs \<and> distinct cs \<and> fw_self w \<in> set cs \<and>
            set cs \<subseteq> {fw_self w, fc_rescue_controller (fs_config (fw_state w))})
     | FModelBound \<Rightarrow> exhausted (fw_state w)
     | _ \<Rightarrow> True)"

lemma f_req_ok_free [simp]:
  "f_req_ok e w (FReqFee l) = f_inv e w" "f_req_ok e w (FReqBalanceOf l a) = f_inv e w"
  "f_req_ok e w (FReqIndex i s cu m) = f_inv e w" "f_req_ok e w (FReqListNeurons g n) = f_inv e w"
  "f_req_ok e w (FReqCanisterInfo c) = f_inv e w"
  by (simp_all add: f_req_ok_def)

section \<open>Judgements\<close>

definition f_rg :: "bool \<Rightarrow> fenv \<Rightarrow> (fworld \<Rightarrow> 'a \<Rightarrow> bool) \<Rightarrow> 'a fproc \<Rightarrow> fworld \<Rightarrow> bool" where
  "f_rg T e Q p w \<longleftrightarrow> rg T (f_inv e) f_rel (f_req_ok e) Q p w"

lemma f_rg_done: "f_inv e w0 \<Longrightarrow> f_step e w0 w \<Longrightarrow> Q w a \<Longrightarrow> f_rg T e Q (Done w a) w0"
  by (simp add: f_rg_def f_step_def)

lemma f_rg_trap [simp]: "f_rg True e Q Trap w0"
  by (simp add: f_rg_def)

lemma f_rg_await:
  assumes "f_inv e w0" "f_step e w0 w" "f_inv e w \<Longrightarrow> f_req_ok e w q"
    and "\<And>r w'. f_inv e w' \<Longrightarrow> f_rel w w' \<Longrightarrow> f_rg T e Q (k r w') w'"
  shows "f_rg T e Q (Await w q k) w0"
  using assms by (simp add: f_rg_def f_step_def)

lemma f_rg_start: "f_inv e w0 \<Longrightarrow> f_step e w0 w1 \<Longrightarrow> (f_inv e w1 \<Longrightarrow> f_rel w0 w1 \<Longrightarrow> f_rg T e Q p w1)
    \<Longrightarrow> f_rg T e Q p w0"
  unfolding f_rg_def f_step_def using rg_start f_rel_trans by metis

lemma f_rg_conseq: "f_rg T e Q p w \<Longrightarrow> (\<And>w a. Q w a \<Longrightarrow> Q' w a) \<Longrightarrow> f_rg T e Q' p w"
  unfolding f_rg_def by (erule rg_conseq)

lemma f_rg_bind:
  assumes "f_rg T e Q' p w0"
    and "\<And>w a. f_inv e w \<Longrightarrow> f_rel w0 w \<Longrightarrow> Q' w a \<Longrightarrow> f_rg T e Q (f w a) w"
  shows "f_rg T e Q (pbind p f) w0"
proof -
  have "rg T (f_inv e) f_rel (f_req_ok e) (\<lambda>w a. Q' w a \<and> f_rel w0 w) p w0"
    using assms(1) unfolding f_rg_def by (rule rg_since) (auto intro: f_rel_trans)
  then show ?thesis
    using assms(2) unfolding f_rg_def
    by (intro rg_bind [where Q' = "\<lambda>w a. Q' w a \<and> f_rel w0 w"]) (auto intro: f_rel_trans)
qed

abbreviation f_ok :: "bool \<Rightarrow> fenv \<Rightarrow> 'a fproc \<Rightarrow> fworld \<Rightarrow> bool" where
  "f_ok T e \<equiv> f_rg T e (\<lambda>_ _. True)"

section \<open>One transfer\<close>

text \<open>What a run knows while it works on the pending transfer of the job \<open>job_id\<close>: its clients are
  the configured ones and its fee is the job's.\<close>

definition pay_ok :: "pay_ctx \<Rightarrow> u64 \<Rightarrow> fworld \<Rightarrow> bool" where
  "pay_ok cx job_id w \<longleftrightarrow> px_ledger cx = fc_ledger_canister_id (fs_config (fw_state w)) \<and>
     px_cmc cx = fc_cmc_canister_id (fs_config (fw_state w)) \<and>
     px_cmc_id cx = fc_cmc_canister_id (fs_config (fw_state w)) \<and>
     Some (px_governance cx) = fc_governance_canister_id (fs_config (fw_state w)) \<and>
     (\<exists>job. captured job (fw_state w) \<and> pj_id job = job_id \<and> pj_fee_e8s job = px_fee_e8s cx)"

lemma rel_config:
  "f_rel w w' \<Longrightarrow> f_config_key (fs_config (fw_state w)) = f_config_key (fs_config (fw_state w'))"
  by (simp add: f_rel_def f_st_rel_def)

lemma rel_captured: "captured job (fw_state w) \<Longrightarrow> f_rel w w' \<Longrightarrow> captured job (fw_state w')"
  unfolding f_rel_def using captured_later by blast

lemma pay_ok_later: "pay_ok cx job_id w \<Longrightarrow> f_rel w w' \<Longrightarrow> pay_ok cx job_id w'"
proof -
  assume ok: "pay_ok cx job_id w" and rel: "f_rel w w'"
  note cfg = f_config_key_fields [OF rel_config [OF rel], symmetric]
  from ok obtain job where "captured job (fw_state w)" "pj_id job = job_id" "pj_fee_e8s job = px_fee_e8s cx"
    by (auto simp: pay_ok_def)
  then have "\<exists>job. captured job (fw_state w') \<and> pj_id job = job_id \<and> pj_fee_e8s job = px_fee_e8s cx"
    using rel_captured [OF _ rel] by blast
  then show ?thesis using ok cfg by (simp add: pay_ok_def)
qed

lemma pay_ok_fee:
  assumes "pay_ok cx job_id w" "fs_active_payout_job (fw_state w) = Some j" "pj_id j = job_id"
  shows "exhausted (fw_state w) \<or> px_fee_e8s cx = pj_fee_e8s j"
proof -
  obtain job where "captured job (fw_state w)" "pj_id job = job_id" "pj_fee_e8s job = px_fee_e8s cx"
    using assms(1) by (auto simp: pay_ok_def)
  then show ?thesis using captured_same [OF _ _ assms(2)] assms(3) same_job_fields(2) by metis
qed

definition sends :: "pay_ctx \<Rightarrow> u64 \<Rightarrow> pending_transfer \<Rightarrow> transfer_arg \<Rightarrow> fworld \<Rightarrow> bool" where
  "sends cx job_id px arg w \<longleftrightarrow> pay_ok cx job_id w \<and> px_phase px = AwaitingTransfer \<and>
     transfer_of w (px_cmc_id cx) (px_fee_e8s cx) px arg"

lemma sends_later: "sends cx job_id px arg w \<Longrightarrow> f_rel w w' \<Longrightarrow> sends cx job_id px arg w'"
  using pay_ok_later [of cx job_id w w'] f_config_key_fields(2) [OF rel_config, of w w']
  by (simp add: sends_def transfer_of_def)

definition identity_done :: "u64 \<Rightarrow> pending_transfer \<Rightarrow> fworld \<Rightarrow> transfer_identity_outcome \<Rightarrow> bool" where
  "identity_done job_id px w out \<longleftrightarrow> out = IdentityStale \<or> owns_pending job_id px (fw_state w)"

lemma sends_request:
  assumes "sends cx job_id px arg w" "owns_pending job_id px (fw_state w)" "f_inv e w"
    and "fw_dispatch w = dispatch_cell job_id px True"
  shows "f_req_ok e w (FReqTransfer (px_ledger cx) arg)"
proof -
  obtain j where j: "fs_active_payout_job (fw_state w) = Some j" "pj_id j = job_id"
    "pj_pending_transfer j = Some px" using assms(2) by (auto simp: owns_pending_iff)
  have "exhausted (fw_state w) \<or> px_fee_e8s cx = pj_fee_e8s j"
    using assms(1) j(1,2) by (intro pay_ok_fee) (simp_all add: sends_def)
  then show ?thesis
    using assms j unfolding f_req_ok_def transfer_req_ok_def sends_def pay_ok_def by auto
qed

lemma transfer_attempts_rg:
  assumes "f_inv e w" "\<And>a. a \<in> set args \<Longrightarrow> sends cx job_id px a w"
    and "args = [] \<Longrightarrow> owns_pending job_id px (fw_state w)"
  shows "f_rg T e (identity_done job_id px) (transfer_attempts (px_ledger cx) job_id px token args w) w"
  using assms
proof (induction args arbitrary: w)
  case Nil
  then show ?case by (simp add: f_rg_done identity_done_def)
next
  case (Cons arg args)
  define prior where "prior = pending_transfer_may_have_dispatched (fw_dispatch w) job_id px"
  show ?case
  proof (cases "set_dispatch_started job_id px token True w")
    case None
    then show ?thesis using Cons.prems(1) by (simp add: f_rg_done identity_done_def Let_def)
  next
    case (Some w1)
    then have own: "owns_pending job_id px (fw_state w)" and w1: "w1 = f_set_dispatch job_id px True w"
      by (auto simp: set_dispatch_started_def pending_transfer_matches_def split: if_splits)
    have step: "f_step e w w1" unfolding w1 by (rule f_set_dispatch_step)
    then have rel1: "f_rel w w1" using Cons.prems(1) by (simp add: f_step_def)
    have sends1: "sends cx job_id px a w1" if "a \<in> set (arg # args)" for a
      using sends_later Cons.prems(2) [OF that] rel1 by blast
    have req: "f_req_ok e w1 (FReqTransfer (px_ledger cx) arg)" if "f_inv e w1"
      using that sends1 [of arg] own by (intro sends_request) (simp_all add: w1)
    have resume: "f_rg T e (identity_done job_id px)
       (if \<not> f_lease_current token w2 \<or> \<not> pending_transfer_matches job_id px w2
          then Done w2 IdentityStale
          else case transfer_once r of
            AttemptAccepted block \<Rightarrow> Done w2 (IdentityAccepted block)
          | AttemptUnusableBlock \<Rightarrow> Done w2 IdentityUnusableBlock
          | AttemptNoDebit retryable \<Rightarrow>
              (case (if prior then Some w2 else set_dispatch_started job_id px token False w2) of
                 None \<Rightarrow> Done w2 IdentityStale
               | Some w3 \<Rightarrow>
                   if \<not> retryable \<or> args = []
                   then Done w3 (if prior then IdentityUncertain else IdentityNoDebit)
                   else transfer_attempts (px_ledger cx) job_id px token args w3)
          | AttemptUncertain \<Rightarrow> transfer_attempts (px_ledger cx) job_id px token args w2) w2"
      if w2: "f_inv e w2" "f_rel w1 w2" for r w2
    proof (cases "f_lease_current token w2 \<and> pending_transfer_matches job_id px w2")
      case False
      then show ?thesis using w2(1) by (auto simp: f_rg_done identity_done_def)
    next
      case True
      then have own2: "owns_pending job_id px (fw_state w2)" by (simp add: pending_transfer_matches_def)
      have sends2: "sends cx job_id px a w2" if "a \<in> set args" for a
        using sends_later [OF sends1 w2(2)] that by simp
      have again: "f_rg T e (identity_done job_id px) (transfer_attempts (px_ledger cx) job_id px token args w2) w2"
        using w2(1) sends2 own2 by (intro Cons.IH) simp_all
      let ?w3 = "f_set_dispatch job_id px False w2"
      have step3: "f_step e w2 ?w3" by (rule f_set_dispatch_step)
      have done3: "f_rg T e (identity_done job_id px) (Done ?w3 out) w2" for out
        using w2(1) step3 own2 by (intro f_rg_done) (simp_all add: identity_done_def)
      have again3: "f_rg T e (identity_done job_id px) (transfer_attempts (px_ledger cx) job_id px token args ?w3) w2"
      proof (rule f_rg_start [OF w2(1) step3])
        assume "f_inv e ?w3" "f_rel w2 ?w3"
        then show "f_rg T e (identity_done job_id px) (transfer_attempts (px_ledger cx) job_id px token args ?w3) ?w3"
          using sends_later [OF sends2] own2 by (intro Cons.IH) auto
      qed
      have no_debit: "(if prior then Some w2 else set_dispatch_started job_id px token False w2)
          = Some (if prior then w2 else ?w3)" using True by (auto simp: set_dispatch_started_def)
      have done2: "f_rg T e (identity_done job_id px) (Done w2 out) w2" for out
        using w2(1) own2 by (intro f_rg_done) (simp_all add: identity_done_def)
      show ?thesis
        using True done2 done3 again again3
        by (cases "transfer_once r") (simp_all add: no_debit)
    qed
    show ?thesis
      unfolding transfer_attempts.simps Let_def Some option.case prior_def [symmetric]
      using Cons.prems(1) step req resume by (rule f_rg_await)
  qed
qed


section \<open>Driving\<close>

definition drive_done :: "fworld \<Rightarrow> bool \<Rightarrow> bool" where
  "drive_done w ok \<longleftrightarrow> (ok \<longrightarrow> no_pending (fw_state w))"

lemma owns_pending_map:
  "(\<And>j. pj_id (g j) = pj_id j \<and> pj_pending_transfer (g j) = pj_pending_transfer j)
   \<Longrightarrow> owns_pending i p (map_active_job g st) = owns_pending i p st"
  by (cases "fs_active_payout_job st") (simp_all add: owns_pending_def)

lemma attempts_keep_pending [simp]:
  "owns_pending i p (fw_state (increment_cmc_attempts job_id px w)) = owns_pending i p (fw_state w)"
  "owns_pending i p (fw_state (note_attempted_beneficiary job_id px w)) = owns_pending i p (fw_state w)"
proof -
  have "pj_id (add_attempted_beneficiary b j) = pj_id j \<and>
      pj_pending_transfer (add_attempted_beneficiary b j) = pj_pending_transfer j" for b j
    by (simp add: add_attempted_beneficiary_def Let_def)
  note add = owns_pending_map [of "add_attempted_beneficiary b" for b, OF this]
  show "owns_pending i p (fw_state (note_attempted_beneficiary job_id px w)) = owns_pending i p (fw_state w)"
    by (simp add: note_attempted_beneficiary_def add)
  have "owns_pending i p (map_active_job (\<lambda>j. j\<lparr>pj_cmc_attempt_count :=
      Some (sat_add (unwrap_or (pj_cmc_attempt_count j) 0) 1)\<rparr>) st) = owns_pending i p st" for st
    by (rule owns_pending_map) simp
  then show "owns_pending i p (fw_state (increment_cmc_attempts job_id px w)) = owns_pending i p (fw_state w)"
    by (simp add: increment_cmc_attempts_def)
qed

lemma accepted_inI: "owns_pending job_id px (fw_state w) \<Longrightarrow> px_phase px = TransferAccepted
    \<Longrightarrow> accepted_in w (px_notification px)"
  by (auto simp: accepted_in_def owns_pending_iff)

lemma notify_once_rg:
  assumes "f_inv e w" "pay_ok cx job_id w" "owns_pending job_id px (fw_state w)"
    and "px_phase px = TransferAccepted" "pn_kind (px_notification px) = KBeneficiary"
    and k: "\<And>r w'. f_inv e w' \<Longrightarrow> f_rel w w' \<Longrightarrow> f_rg T e Q (k r w') w'"
  shows "f_rg T e Q (notify_once cx job_id px k w) w"
proof -
  let ?w = "increment_cmc_attempts job_id px (note_attempted_beneficiary job_id px w)"
  have step: "f_step e w ?w" by (rule f_step_trans [OF note_attempted_step increment_step])
  then have rel: "f_rel w ?w" using assms(1) by (simp add: f_step_def)
  show ?thesis
    unfolding notify_once_def
  proof (rule f_rg_await [OF assms(1) step])
    assume inv: "f_inv e ?w"
    have "px_cmc cx = fc_cmc_canister_id (fs_config (fw_state ?w))"
      using pay_ok_later [OF assms(2) rel] by (simp add: pay_ok_def)
    moreover have "accepted_in ?w (px_notification px)"
      using assms(3,4) by (intro accepted_inI) simp_all
    ultimately show "f_req_ok e ?w (FReqNotify (px_cmc cx) (pn_beneficiary (px_notification px))
        (pn_block_index (px_notification px)))"
      using inv assms(5) by (auto simp: f_req_ok_def)
  next
    fix r w'
    assume "f_inv e w'" "f_rel ?w w'"
    then show "f_rg T e Q (k (fclient_notify r) w') w'" using f_rel_trans [OF rel] by (intro k)
  qed
qed

lemma drive_finish_rg:
  assumes "f_inv e w" "owns_pending job_id px (fw_state w)"
  shows "f_rg T e drive_done (Done (record_completed_transfer job_id px now w) True) w"
    "f_rg T e drive_done (Done (clear_pending_transfer job_id px status w) True) w"
    "f_rg T e drive_done (Done (clear_pending_transfer job_id px status
       (latch_forced_rescue_reason reason w)) True) w"
proof -
  have "owns_pending job_id px (fw_state (latch_forced_rescue_reason reason w))"
    using assms(2) by (simp add: owns_pending_iff latch_forced_rescue_reason_def latch_reason_def)
  then show "f_rg T e drive_done (Done (clear_pending_transfer job_id px status
       (latch_forced_rescue_reason reason w)) True) w"
    using assms(1) f_step_trans [OF latch_forced_step clear_step]
    by (intro f_rg_done) (simp_all add: drive_done_def clear_no_pending)
qed (use assms in \<open>simp_all add: f_rg_done drive_done_def record_completed_step clear_step
      record_completed_no_pending clear_no_pending\<close>)

lemma drive_stop_rg: "f_inv e w \<Longrightarrow> f_rg T e drive_done (Done w False) w"
  by (simp add: f_rg_done drive_done_def)


text \<open>\<open>resumes\<close>: the loop may go on from any world in which a fall-back has been staged.\<close>

definition resumes :: "bool \<Rightarrow> fenv \<Rightarrow> pay_ctx \<Rightarrow> u64 \<Rightarrow> (fworld \<Rightarrow> bool fproc) \<Rightarrow> bool" where
  "resumes T e cx job_id again \<longleftrightarrow> (\<forall>w. f_inv e w \<longrightarrow> pay_ok cx job_id w \<longrightarrow> fallback_staged job_id w
     \<longrightarrow> f_rg T e drive_done (again w) w)"

lemma resume_step:
  assumes "resumes T e cx job_id again" "f_inv e w" "pay_ok cx job_id w" "f_step e w w'"
    "fallback_staged job_id w'"
  shows "f_rg T e drive_done (again w') w"
  using assms(2,4)
proof (rule f_rg_start)
  assume "f_inv e w'" "f_rel w w'"
  then show "f_rg T e drive_done (again w') w'"
    using assms(1,3,5) pay_ok_later unfolding resumes_def by blast
qed

lemma drive_refunded_rg:
  assumes "resumes T e cx job_id again" "f_inv e w" "pay_ok cx job_id w"
    "owns_pending job_id px (fw_state w)"
  shows "f_rg T e drive_done (drive_refunded again cx job_id px w) w"
proof -
  obtain r w1 where tr: "transition_refunded_beneficiary_to_raw_fallback job_id px (px_fee_e8s cx)
      (px_now_nanos cx) w = (r, w1)" by fastforce
  have "pj_fee_e8s j = px_fee_e8s cx" if "fs_active_payout_job (fw_state w) = Some j" "\<not> exhausted (fw_state w)" for j
    using pay_ok_fee [OF assms(3) that(1)] assms(4) that by (auto simp: owns_pending_iff)
  note st = refund_steps [OF tr this]
  show ?thesis
  proof (cases r)
    case RefundStaged
    then show ?thesis
      using resume_step [OF assms(1-3)] st(1) by (simp add: drive_refunded_def tr)
  next
    case RefundBelowFee
    then show ?thesis
      using st(2) assms(2) by (simp add: drive_refunded_def tr f_rg_done drive_done_def)
  next
    case RefundInvariantBroken
    then have w1: "f_step e w w1" "owns_pending job_id px (fw_state w1)"
      using st(3) [of e] assms(4) by simp_all
    have "f_rg T e drive_done (Done (clear_pending_transfer job_id px TerminalAmbiguous
       (latch_forced_rescue_reason AccountingInvariantBroken w1)) True) w"
      using drive_finish_rg(3) [OF _ w1(2)] by (rule f_rg_start [OF assms(2) w1(1)])
    then show ?thesis using RefundInvariantBroken by (simp add: drive_refunded_def tr)
  qed
qed

lemma still_owned_pending: "still_owned token job_id px w \<Longrightarrow> owns_pending job_id px (fw_state w)"
  by (simp add: still_owned_def pending_transfer_matches_def)

lemma drive_second_notify_rg:
  assumes "pn_kind (px_notification px) = KBeneficiary \<Longrightarrow> resumes T e cx job_id again"
    and "f_inv e w" "pay_ok cx job_id w"
  shows "f_rg T e drive_done (drive_second_notify again cx token job_id px first outcome w) w"
  using assms drive_refunded_rg drive_finish_rg drive_stop_rg
  by (auto simp: drive_second_notify_def dest!: still_owned_pending)

lemma drive_first_notify_rg:
  assumes "pn_kind (px_notification px) = KBeneficiary" "resumes T e cx job_id again"
    and "f_inv e w" "pay_ok cx job_id w" "px_phase px = TransferAccepted"
  shows "f_rg T e drive_done (drive_first_notify again cx token job_id px outcome w) w"
proof (cases "still_owned token job_id px w")
  case False
  then show ?thesis using assms(3) by (simp add: drive_first_notify_def drive_stop_rg)
next
  case True
  then have own: "owns_pending job_id px (fw_state w)" by (rule still_owned_pending)
  have "f_rg T e drive_done (notify_once cx job_id px
      (drive_second_notify again cx token job_id px (is_terminal_notify_error outcome)) w) w"
    using assms own pay_ok_later by (intro notify_once_rg drive_second_notify_rg) auto
  then show ?thesis
    using True own assms drive_refunded_rg drive_finish_rg by (auto simp: drive_first_notify_def)
qed

lemma drive_accepted_rg:
  assumes "pn_kind (px_notification px) = KBeneficiary \<Longrightarrow> resumes T e cx job_id again"
    and "f_inv e w" "pay_ok cx job_id w" "px_phase px = TransferAccepted"
    and own: "owns_pending job_id px (fw_state w)"
  shows "f_rg T e drive_done (drive_accepted again cx token job_id px w) w"
proof (cases "pn_kind (px_notification px) = KBeneficiary")
  case True
  then have "f_rg T e drive_done (notify_once cx job_id px (drive_first_notify again cx token job_id px) w) w"
    using assms pay_ok_later by (intro notify_once_rg drive_first_notify_rg) auto
  then show ?thesis using True by (simp add: drive_accepted_def requires_cmc_notify_def)
next
  case False
  have claim: "f_rg T e drive_done (Await w (FReqClaimOrRefresh (px_governance cx) neuron_id)
      (\<lambda>_ w1. if \<not> still_owned token job_id px w1 then Done w1 False
         else Done (record_completed_transfer job_id px (px_now_secs cx) w1) True)) w"
    if "pn_kind (px_notification px) = KNeuronStake" "pn_neuron_id (px_notification px) = Some neuron_id" for neuron_id
  proof (rule f_rg_await [OF assms(2) f_step_refl])
    show "f_req_ok e w (FReqClaimOrRefresh (px_governance cx) neuron_id)"
      using assms(2,3) accepted_inI [OF own assms(4)] that by (auto simp: f_req_ok_def pay_ok_def)
  qed (auto intro: drive_stop_rg drive_finish_rg dest: still_owned_pending)
  show ?thesis
    using False claim drive_finish_rg(1) [OF assms(2) own]
    by (auto simp: drive_accepted_def requires_cmc_notify_def split: transfer_kind.split option.split)
qed

lemma drive_identity_rg:
  assumes "pn_kind (px_notification px) = KBeneficiary \<Longrightarrow> resumes T e cx job_id again"
    and "f_inv e w" "pay_ok cx job_id w" "px_phase px = AwaitingTransfer" "identity_done job_id px w out"
  shows "f_rg T e drive_done (drive_identity again cx token transitioned job_id px w out) w"
proof (cases out)
  case (IdentityAccepted b)
  obtain r w1 where mark: "mark_pending_transfer_accepted job_id px b w = (r, w1)" by fastforce
  have step: "f_step e w w1" using mark assms(4) by (rule mark_accepted_step)
  show ?thesis
  proof (cases r)
    case None
    then show ?thesis
      using assms(2) step by (simp add: drive_identity_def IdentityAccepted mark f_rg_done drive_done_def)
  next
    case (Some a)
    then have a: "a = accept_pending b px" "owns_pending job_id a (fw_state w1)"
      using mark_accepted_step(2) [OF mark assms(4), of a] by blast+
    have "f_rg T e drive_done (drive_accepted again cx token job_id a w1) w"
    proof (rule f_rg_start [OF assms(2) step])
      assume "f_inv e w1" "f_rel w w1"
      then show "f_rg T e drive_done (drive_accepted again cx token job_id a w1) w1"
        using a assms(1) pay_ok_later [OF assms(3)]
        by (intro drive_accepted_rg) (simp_all add: accept_pending_def)
    qed
    then show ?thesis by (simp add: drive_identity_def IdentityAccepted mark Some)
  qed
next
  case IdentityNoDebit
  then have own: "owns_pending job_id px (fw_state w)" using assms(5) by (simp add: identity_done_def)
  obtain r w1 where raw: "stage_raw_fallback_after_definite_rejection job_id px (px_now_nanos cx) w = (r, w1)"
    by fastforce
  note st = stage_raw_step [OF raw]
  have stop: "f_rg T e drive_done (Done (clear_pending_transfer job_id px TerminalFailed w1) True) w"
    "f_rg T e drive_done (Done (clear_pending_transfer job_id px TerminalFailed
       (latch_forced_rescue_reason AccountingInvariantBroken w1)) True) w" if "r \<noteq> Inr True"
    using st [of e] that own by (auto intro!: f_rg_start [OF assms(2)] drive_finish_rg)
  have go: "f_rg T e drive_done (again w1) w" if "pn_kind (px_notification px) = KBeneficiary" "r = Inr True"
    using resume_step [OF assms(1) [OF that(1)] assms(2,3)] st that(2) by blast
  show ?thesis
    using stop go drive_finish_rg(2) [OF assms(2) own]
    by (auto simp: drive_identity_def IdentityNoDebit raw split: sum.split bool.split)
next
  case IdentityUncertain
  then have own: "owns_pending job_id px (fw_state w)" using assms(5) by (simp add: identity_done_def)
  obtain ok w1 where "reserve_then_clear_ambiguous_awaiting_transfer job_id px w = (ok, w1)" by fastforce
  then show ?thesis
    using reserve_clear_step [OF _ own assms(4)] assms(2)
    by (auto simp: drive_identity_def IdentityUncertain drive_done_def intro!: f_rg_done)
next
  case IdentityUnusableBlock
  then have own: "owns_pending job_id px (fw_state w)" using assms(5) by (simp add: identity_done_def)
  obtain broken w1 where rec: "record_accepted_transfer_with_unusable_block_index job_id px w = (broken, w1)"
    by fastforce
  have "f_step e w (latch_forced_rescue_reason AccountingInvariantBroken w1)"
    using record_unusable_step [OF rec] latch_forced_step f_step_trans by blast
  then show ?thesis
    using record_unusable_step [OF rec] own assms(2)
    by (cases broken) (auto simp: drive_identity_def IdentityUnusableBlock rec drive_done_def intro!: f_rg_done)
next
  case IdentityStale
  then show ?thesis using assms(2) by (simp add: drive_identity_def drive_stop_rg)
qed


lemma drive_iteration_rg:
  assumes inv: "f_inv e w"
    and pay: "\<And>job_id px. current_pending_transfer w = Some (job_id, px) \<Longrightarrow> pay_ok cx job_id w"
    and again: "\<And>job_id px. current_pending_transfer w = Some (job_id, px)
      \<Longrightarrow> pn_kind (px_notification px) = KBeneficiary \<Longrightarrow> resumes T e cx job_id again"
  shows "f_rg T e drive_done (drive_iteration again cx token transitioned w) w"
proof (cases "current_pending_transfer w")
  case None
  then have "no_pending (fw_state w)"
    by (auto simp: current_pending_transfer_def no_pending_def split: option.splits)
  then show ?thesis using None inv by (simp add: drive_iteration_def f_rg_done drive_done_def)
next
  case (Some c)
  obtain job_id px where c: "c = (job_id, px)" by fastforce
  note cur = Some [unfolded c]
  obtain j where j: "fs_active_payout_job (fw_state w) = Some j" "pj_id j = job_id"
    "pj_pending_transfer j = Some px"
    using cur by (auto simp: current_pending_transfer_def split: option.splits)
  then have own: "owns_pending job_id px (fw_state w)" by (simp add: owns_pending_iff)
  show ?thesis
  proof (cases "px_phase px")
    case TransferAccepted
    then show ?thesis
      using drive_accepted_rg [OF again [OF cur] inv pay [OF cur] _ own]
      by (simp add: drive_iteration_def cur)
  next
    case AwaitingTransfer
    have "pend_ok j px" using inv j by (simp add: f_inv_def f_st_inv_def job_ok_def)
    then have "\<exists>dest. deposit_account_for_pending (px_cmc_id cx) (px_notification px) = Some dest"
      by (cases "pn_kind (px_notification px)") (auto simp: deposit_account_for_pending_def pend_ok_def)
    then obtain dest where dest: "deposit_account_for_pending (px_cmc_id cx) (px_notification px) = Some dest"
      by blast
    let ?arg = "f_transfer_arg w dest (pn_amount_e8s (px_notification px)) (px_fee_e8s cx)
        (px_created_at_time_nanos px) (transfer_memo_for_pending (px_notification px))"
    have sends: "sends cx job_id px ?arg w"
      using pay [OF cur] dest AwaitingTransfer by (simp add: sends_def transfer_of_def f_transfer_arg_def)
    have "f_rg T e drive_done (pbind (transfer_identity_with_one_retry (px_ledger cx) job_id px ?arg ?arg w)
        (drive_identity again cx token transitioned job_id px)) w"
    proof (rule f_rg_bind)
      show "f_rg T e (identity_done job_id px)
          (transfer_identity_with_one_retry (px_ledger cx) job_id px ?arg ?arg w) w"
        unfolding transfer_identity_with_one_retry_def using inv sends
        by (intro transfer_attempts_rg) auto
      fix w' out
      assume "f_inv e w'" "f_rel w w'" "identity_done job_id px w' out"
      then show "f_rg T e drive_done (drive_identity again cx token transitioned job_id px w' out) w'"
        using again [OF cur] pay_ok_later [OF pay [OF cur]] AwaitingTransfer by (intro drive_identity_rg)
    qed
    moreover obtain ok w1 where res: "reserve_then_clear_ambiguous_awaiting_transfer job_id px w = (ok, w1)"
      by fastforce
    then have "f_rg T e drive_done (Done w1 ok) w"
      using reserve_clear_step [OF res own AwaitingTransfer] inv by (intro f_rg_done) (simp_all add: drive_done_def)
    ultimately show ?thesis
      using dest AwaitingTransfer by (simp add: drive_iteration_def cur res Let_def)
  qed
qed

text \<open>The second round works on a fall-back, which has no fall-back of its own.\<close>

lemma drive_pending_rg:
  assumes inv: "f_inv e w"
    and pay: "\<And>job_id px. current_pending_transfer w = Some (job_id, px) \<Longrightarrow> pay_ok cx job_id w"
  shows "f_rg T e drive_done (drive_pending_transfer cx w) w"
proof -
  let ?token = "fs_main_lock_state_ts (fw_state w)"
  have second: "resumes T e cx job_id (drive_loop 1 cx ?token True)" for job_id
    unfolding resumes_def
  proof (intro allI impI)
    fix w'
    assume w': "f_inv e w'" "pay_ok cx job_id w'" "fallback_staged job_id w'"
    then obtain px where px: "owns_pending job_id px (fw_state w')"
      "pn_kind (px_notification px) = KCyclesTopUpRawFallback" by (auto simp: fallback_staged_def)
    then have cur: "current_pending_transfer w' = Some (job_id, px)"
      by (auto simp: current_pending_transfer_def owns_pending_iff)
    show "f_rg T e drive_done (drive_loop 1 cx ?token True w') w'"
      unfolding One_nat_def drive_loop.simps
      by (rule drive_iteration_rg [OF w'(1)]) (use cur px(2) w'(2) in auto)
  qed
  show ?thesis
    unfolding drive_pending_transfer_def numeral_2_eq_2 drive_loop.simps(2) [of "Suc 0"]
    using drive_iteration_rg [OF inv pay] second by simp
qed

text \<open>Staging and driving: the run knows its job, and the share fits.\<close>

lemma send_and_notify_rg:
  assumes inv: "f_inv e w" and act: "fs_active_payout_job (fw_state w) = Some j"
    and pay: "pay_ok cx (pj_id j) w"
    and "pn_kind pn = KNeuronStake \<Longrightarrow> pn_destination_subaccount pn \<noteq> None"
    and exact: "\<not> exhausted (fw_state w) \<Longrightarrow> pend_exact j pn"
  shows "f_rg T e drive_done (send_and_notify cx pn w) w"
proof (cases "case checked_add (pj_gross_outflow_e8s j) (pn_gross_share_e8s pn) of
    None \<Rightarrow> True | Some outflow \<Rightarrow> outflow > pj_pot_start_e8s j")
  case True
  then show ?thesis
    using act inv by (simp add: send_and_notify_def f_rg_done latch_forced_step drive_done_def)
next
  case False
  then obtain outflow where out: "checked_add (pj_gross_outflow_e8s j) (pn_gross_share_e8s pn) = Some outflow"
    "outflow \<le> pj_pot_start_e8s j" by (auto simp: not_less split: option.splits)
  then have room: "unat (pj_gross_outflow_e8s j) + unat (pn_gross_share_e8s pn) \<le> unat (pj_pot_start_e8s j)"
    by (simp add: checked_iff word_le_nat_alt)
  let ?c = "next_created_at (px_now_nanos cx) j"
  let ?w1 = "f_map_job (\<lambda>j. j\<lparr>pj_next_created_at_time_nanos := sat_add ?c 1\<rparr>) w"
  have alloc: "allocate_created_at_time_nanos (px_now_nanos cx) w = Some (?c, ?w1)"
    using act by (simp add: allocate_created_at_time_nanos_def Let_def)
  have act1: "fs_active_payout_job (fw_state ?w1) = Some (j\<lparr>pj_next_created_at_time_nanos := sat_add ?c 1\<rparr>)"
    using act by simp
  have nonce1: "exhausted (fw_state ?w1) = exhausted (fw_state w)" by (simp add: exhausted_def)
  let ?w2 = "stage_pending_transfer pn ?c ?w1"
  have stage: "f_step e ?w1 ?w2"
    using act1 room assms(4) exact unfolding nonce1 [symmetric]
    by (intro stage_pending_step) (auto simp: pend_exact_def effective_denom_scan_complete_def)
  then have step: "f_step e w ?w2" by (rule f_step_trans [OF allocate_step [OF alloc]])
  have cur: "job_id = pj_id j" if "current_pending_transfer ?w2 = Some (job_id, px)" for job_id px
    using that act1 by (auto simp: current_pending_transfer_def stage_pending_transfer_def Let_def)
  have "f_rg T e drive_done (drive_pending_transfer cx ?w2) w"
  proof (rule f_rg_start [OF inv step])
    assume "f_inv e ?w2" "f_rel w ?w2"
    then show "f_rg T e drive_done (drive_pending_transfer cx ?w2) ?w2"
      using pay_ok_later [OF pay] cur by (intro drive_pending_rg) auto
  qed
  then show ?thesis using False act by (simp add: send_and_notify_def alloc)
qed


section \<open>A payout run\<close>

text \<open>The context of a run agrees with the configuration, and goes on doing so.\<close>

definition pc_ok :: "payout_ctx \<Rightarrow> fworld \<Rightarrow> bool" where
  "pc_ok pc w \<longleftrightarrow> pc_ledger pc = fc_ledger_canister_id (fs_config (fw_state w)) \<and>
     pc_cmc pc = fc_cmc_canister_id (fs_config (fw_state w)) \<and>
     Some (pc_governance pc) = fc_governance_canister_id (fs_config (fw_state w)) \<and>
     f_config_key (pc_cfg pc) = f_config_key (fs_config (fw_state w))"

lemma pc_ok_later: "pc_ok pc w \<Longrightarrow> f_rel w w' \<Longrightarrow> pc_ok pc w'"
  using f_config_key_fields [OF rel_config, of w w'] rel_config [of w w'] by (simp add: pc_ok_def)

lemma pc_pay_ok:
  assumes "pc_ok pc w" "captured job (fw_state w)" "pj_fee_e8s job = fee"
  shows "pay_ok (pay_ctx_of pc fee) (pj_id job) w"
  using assms f_config_key_fields(5) [of "pc_cfg pc" "fs_config (fw_state w)"]
  by (auto simp: pay_ok_def pay_ctx_of_def pc_ok_def)

text \<open>The rounds of the driver loop that are left: two for each page, and one to end.\<close>

definition rounds_needed :: "u64 \<Rightarrow> fworld \<Rightarrow> nat" where
  "rounds_needed pages w = 2 * (64 - unat pages) + (if no_pending (fw_state w) then 1 else 2)"

definition goes_on :: "bool \<Rightarrow> fenv \<Rightarrow> payout_ctx \<Rightarrow> nat \<Rightarrow> (u64 \<Rightarrow> fworld \<Rightarrow> bool fproc) \<Rightarrow> bool" where
  "goes_on T e pc n again \<longleftrightarrow> (\<forall>pages w. f_inv e w \<longrightarrow> pc_ok pc w
     \<longrightarrow> exhausted (fw_state w) \<or> rounds_needed pages w \<le> n \<longrightarrow> f_ok T e (again pages w) w)"

lemma goes_on_step:
  assumes "goes_on T e pc n again" "f_inv e w" "pc_ok pc w" "f_step e w w'"
    "\<not> exhausted (fw_state w') \<Longrightarrow> rounds_needed pages w' \<le> n"
  shows "f_ok T e (again pages w') w"
  using assms(2,4)
proof (rule f_rg_start)
  assume "f_inv e w'" "f_rel w w'"
  then show "f_ok T e (again pages w') w'"
    using assms(1,5) pc_ok_later [OF assms(3)] unfolding goes_on_def by blast
qed

text \<open>A page uses up a round of the next page.\<close>

lemma page_rounds:
  assumes "2 * (64 - unat pages) \<le> n" "pages < 64"
  shows "rounds_needed (pages + 1) w \<le> n" "rounds_needed (sat_add pages 1) w \<le> n"
proof -
  have "unat (pages + 1) = unat pages + 1" "unat (sat_add pages 1) = unat pages + 1" "unat pages < 64"
    using assms(2) by (simp_all add: word_less_nat_alt unat_word_ariths u_simps)
  moreover from this have "2 * (63 - unat pages) + 2 \<le> n" using assms(1) by arith
  ultimately show "rounds_needed (pages + 1) w \<le> n" "rounds_needed (sat_add pages 1) w \<le> n"
    by (simp_all add: rounds_needed_def)
qed

lemma f_ok_end: "f_inv e w \<Longrightarrow> f_step e w w' \<Longrightarrow> f_ok T e (Done w' a) w"
  by (simp add: f_rg_done)

lemma f_ok_stay: "f_inv e w \<Longrightarrow> f_ok T e (Done w a) w"
  by (simp add: f_rg_done)

lemma f_ok_if: "(c \<Longrightarrow> f_ok T e p w) \<Longrightarrow> (\<not> c \<Longrightarrow> f_ok T e q w)
    \<Longrightarrow> f_ok T e (if c then p else q) w"
  by simp

section \<open>The denominator page\<close>

lemma denom_store_ok:
  assumes on: "goes_on T e pc n again" and inv: "f_inv e w" and pc: "pc_ok pc w" and cand: "cand_some cand"
    and rounds: "\<And>w'. sc \<or> pages < 64 \<Longrightarrow> \<not> exhausted (fw_state w) \<Longrightarrow> rounds_needed pages w' \<le> n"
  shows "f_ok T e (denom_store again pc job pages sc resp d cand learned w) w"
proof -
  obtain r m where per: "persist_new_skip_ranges learned (fw_skip w) = (r, m)" by fastforce
  have "smap_ok m" using inv persist_keeps_ok [of "fw_skip w" learned] per by (simp add: f_inv_def)
  then have m: "f_step e w (w\<lparr>fw_skip := m\<rparr>)" by (rule f_skip_step)
  let ?w1 = "map_job_if (pc_token pc) (same_denom_cursor job)
      (job_apply_denom_page sc (ip_oldest_tx_id resp) (ip_transactions resp) d cand) (w\<lparr>fw_skip := m\<rparr>)"
  have w1: "f_step e w ?w1" using m denom_store_step [OF cand] by (rule f_step_trans)
  have ex: "exhausted (fw_state ?w1) = exhausted (fw_state w)"
    by (simp add: map_job_if_def exhausted_def)
  have "f_ok T e (again pages ?w1) w" if "sc \<or> pages < 64"
    using rounds [OF that] by (intro goes_on_step [OF on inv pc w1]) (simp add: ex)
  then show ?thesis
    using inv w1 f_step_trans [OF m latch_skip_step]
    by (cases r) (auto simp: denom_store_def per Let_def max_index_pages_per_payout_tick_def not_le
        intro!: f_ok_end)
qed

lemma denom_response_ok:
  assumes on: "goes_on T e pc n again" and inv: "f_inv e w" and pc: "pc_ok pc w"
    and cand: "cand_some (candidate_from_job job)"
    and rounds: "\<And>w'. \<not> exhausted (fw_state w) \<Longrightarrow> rounds_needed (sat_add pages 1) w' \<le> n"
  shows "f_ok T e (denom_response again pc job pages r w) w"
proof (cases "index_response r")
  case None
  then show ?thesis using inv by (simp add: denom_response_def f_ok_stay)
next
  case (Some resp)
  have store: "f_ok T e (denom_store again pc job (sat_add pages 1) sc resp d c learned w) w"
    if "cand_some c" for sc d c learned
    using on inv pc that rounds by (rule denom_store_ok)
  have page: "denom_page (denom_params_of pc job w) sc txs \<noteq> PagePanic"
    "denom_page (denom_params_of pc job w) sc txs = PageOk d c rs \<Longrightarrow> cand_some c" for sc txs d c rs
    using denom_page_cand [of "denom_params_of pc job w" sc txs] cand by (simp_all add: denom_params_of_def)
  have anchor: "f_step e w (f_with_health (apply_anchor_observation o1 now) w)" for o1 now
    by (rule f_with_health_step) (rule f_core_health)
  show ?thesis
    using inv store page anchor
    by (auto simp: denom_response_def Some Let_def f_ok_stay
        intro!: f_ok_end latch_skip_step split: option.split denom_page_result.split)
qed


section \<open>The payout page\<close>

text \<open>What the walk over a page keeps: the run, its job with a complete denominator, and a round of
  the loop for the page's end.\<close>

definition at_job :: "payout_job \<Rightarrow> fworld \<Rightarrow> bool" where
  "at_job job w \<longleftrightarrow> captured job (fw_state w) \<and>
     map_option pj_id (fs_active_payout_job (fw_state w)) = Some (pj_id job)"

lemma map_active_job_id:
  "(\<And>j. pj_id (f j) = pj_id j) \<Longrightarrow>
     map_option pj_id (fs_active_payout_job (map_active_job f st)) = map_option pj_id (fs_active_payout_job st)"
  by (cases "fs_active_payout_job st") simp_all

lemma note_index_page_job:
  "map_option pj_id (fs_active_payout_job (fw_state (note_index_page_with_lease resp token job_id c w)))
     = map_option pj_id (fs_active_payout_job (fw_state w))"
proof -
  let ?f = "\<lambda>job. if pj_id job \<noteq> job_id \<or> pj_next_start job \<noteq> c then job
      else let job1 = (if pj_observed_oldest_tx_id job = None
             then job\<lparr>pj_observed_oldest_tx_id := ip_oldest_tx_id resp\<rparr> else job)
        in case index_page_latest_tx_id (ip_transactions resp) of
             None \<Rightarrow> job1
           | Some latest \<Rightarrow> job1\<lparr>pj_observed_latest_tx_id := Some
               (case pj_observed_latest_tx_id job1 of None \<Rightarrow> latest | Some o1 \<Rightarrow> max o1 latest)\<rparr>"
  have "pj_id (?f j) = pj_id j" for j by (simp add: Let_def split: option.split)
  then have "map_option pj_id (fs_active_payout_job (map_active_job ?f st))
      = map_option pj_id (fs_active_payout_job st)" for st by (rule map_active_job_id)
  then show ?thesis unfolding note_index_page_with_lease_def f_with_state_mut_fields by simp
qed

text \<open>The run's context, and whether the nonces were exhausted when the page was read.\<close>

definition run_ok :: "bool \<Rightarrow> payout_ctx \<Rightarrow> fworld \<Rightarrow> bool" where
  "run_ok b pc w \<longleftrightarrow> pc_ok pc w \<and> (b \<longrightarrow> exhausted (fw_state w))"

lemma run_okD: "run_ok b pc w \<Longrightarrow> pc_ok pc w"
  by (simp add: run_ok_def)

lemma rel_exhausted: "f_rel w w' \<Longrightarrow> exhausted (fw_state w) \<Longrightarrow> exhausted (fw_state w')"
  using exhausted_later by (auto simp: f_rel_def f_st_rel_def)

lemma run_ok_later: "run_ok b pc w \<Longrightarrow> f_rel w w' \<Longrightarrow> run_ok b pc w'"
  unfolding run_ok_def using pc_ok_later [of pc w w'] rel_exhausted [of w w'] by blast

definition walking :: "bool \<Rightarrow> fenv \<Rightarrow> bool \<Rightarrow> payout_ctx \<Rightarrow> payout_job \<Rightarrow> (page_acc \<Rightarrow> fworld \<Rightarrow> bool fproc) \<Rightarrow> bool" where
  "walking T e b pc job k \<longleftrightarrow> (\<forall>acc w. f_inv e w \<longrightarrow> run_ok b pc w \<longrightarrow> at_job job w \<longrightarrow> f_ok T e (k acc w) w)"

lemma walkingD: "walking T e b pc job k \<Longrightarrow> f_inv e w \<Longrightarrow> run_ok b pc w \<Longrightarrow> at_job job w \<Longrightarrow> f_ok T e (k acc w) w"
  by (simp add: walking_def)

lemma owns_jobD: "owns_job token ok w \<Longrightarrow> \<exists>j. fs_active_payout_job (fw_state w) = Some j \<and> ok j"
  by (auto simp: owns_job_def split: option.splits)

lemma owned_at_job:
  "owns_job token ok w \<Longrightarrow> (\<And>j. ok j \<Longrightarrow> pj_id j = pj_id job) \<Longrightarrow> captured job (fw_state w) \<Longrightarrow> at_job job w"
  using owns_jobD [of token ok w] by (auto simp: at_job_def)

lemma pay_commitment_ok:
  assumes walk: "walking T e b pc job k" and inv: "f_inv e w" and pc: "run_ok b pc w"
    and cap: "captured job (fw_state w)" and complete: "effective_denom_scan_complete job"
    and snap: "captured snapshot (fw_state w)" "pj_id snapshot = pj_id job"
    and fee: "pj_fee_e8s snapshot < gross"
    and dest: "pd_kind d = KNeuronStake \<Longrightarrow> pd_subaccount d \<noteq> None"
  shows "f_ok T e (pay_commitment k pc job acc snapshot d gross tx_id w) w"
proof -
  let ?w1 = "flush_scan_progress (pa_small acc) (pa_bad acc) (pa_next acc) no_candidate (pc_token pc)
      (pj_id job) (pa_persisted acc) w"
  let ?acc = "acc\<lparr>pa_small := 0, pa_bad := 0,
      pa_persisted := (if pa_next acc \<noteq> None then pa_next acc else pa_persisted acc)\<rparr>"
  have step: "f_step e w ?w1" by (rule flush_step)
  then have rel: "f_rel w ?w1" and inv1: "f_inv e ?w1" using inv by (simp_all add: f_step_def)
  have send: "f_ok T e (pbind (send_and_notify (pay_ctx_of pc (pj_fee_e8s snapshot))
      (pending_of d gross (pj_fee_e8s snapshot) tx_id) ?w1) (\<lambda>w2 ok.
         if \<not> ok then Done w2 True
         else if \<not> owns_job (pc_token pc) (at_payout_cursor job c) w2 then Done w2 True
         else k ?acc w2)) ?w1"
    if own: "owns_job (pc_token pc) (\<lambda>j. pj_id j = pj_id job \<and> pj_next_start j = c0) ?w1" for c c0
  proof -
    obtain j where j: "fs_active_payout_job (fw_state ?w1) = Some j" "pj_id j = pj_id job"
      using owns_jobD [OF own] by blast
    have cap1: "captured job (fw_state ?w1)" "captured snapshot (fw_state ?w1)"
      using rel_captured [OF cap rel] rel_captured [OF snap(1) rel] by simp_all
    have pay: "pay_ok (pay_ctx_of pc (pj_fee_e8s snapshot)) (pj_id j) ?w1"
      using pc_pay_ok [OF run_okD [OF run_ok_later [OF pc rel]] cap1(2) refl] j(2) snap(2) by simp
    have "pend_exact j (pending_of d gross (pj_fee_e8s snapshot) tx_id)" if ne: "\<not> exhausted (fw_state ?w1)"
    proof -
      have "same_job job j" "same_job snapshot j"
        using captured_same [OF cap1(1) ne j(1)] captured_same [OF cap1(2) ne j(1)] j(2) snap(2) by simp_all
      then have "pj_fee_e8s j = pj_fee_e8s snapshot" "effective_denom_scan_complete j"
        using same_job_fields(2) [of snapshot j] same_job_fields(5) [of job j] complete by simp_all
      then show ?thesis using fee by (simp add: pend_exact_def pending_of_def u_simps)
    qed
    then have "f_rg T e drive_done (send_and_notify (pay_ctx_of pc (pj_fee_e8s snapshot))
        (pending_of d gross (pj_fee_e8s snapshot) tx_id) ?w1) ?w1"
      using inv1 j(1) pay dest by (intro send_and_notify_rg) (simp_all add: pending_of_def)
    then show ?thesis
    proof (rule f_rg_bind)
      fix w2 ok
      assume w2: "f_inv e w2" "f_rel ?w1 w2"
      have go: "f_ok T e (k ?acc w2) w2" if "owns_job (pc_token pc) (at_payout_cursor job c) w2"
        using owned_at_job [OF that] run_ok_later [OF run_ok_later [OF pc rel] w2(2)]
          rel_captured [OF cap1(1) w2(2)] w2(1)
        by (intro walkingD [OF walk]) (simp_all add: at_payout_cursor_def)
      show "f_ok T e (if \<not> ok then Done w2 True
         else if \<not> owns_job (pc_token pc) (at_payout_cursor job c) w2 then Done w2 True
         else k ?acc w2) w2"
        using f_ok_stay [OF w2(1)] go by auto
    qed
  qed
  have "f_ok T e (pay_commitment k pc job acc snapshot d gross tx_id w) ?w1"
    unfolding pay_commitment_def Let_def
    using send [of "pa_next ?acc" "pa_persisted ?acc"] f_ok_stay [OF inv1] by auto
  then show ?thesis by (rule f_rg_start [OF inv step])
qed


lemma pc_governance:
  "pc_ok pc w \<Longrightarrow> fc_governance_canister_id (pc_cfg pc) = Some (pc_governance pc)"
  using f_config_key_fields(6) [of "pc_cfg pc" "fs_config (fw_state w)"] by (simp add: pc_ok_def)

text \<open>The commitment of a record: its snapshot is the job, and its share exceeds the fee.\<close>

definition record_ok :: "payout_job \<Rightarrow> payout_job \<Rightarrow> u64 \<Rightarrow> bool" where
  "record_ok job snapshot gross \<longleftrightarrow> effective_denom_scan_complete job \<and>
     pj_id snapshot = pj_id job \<and> pj_fee_e8s snapshot < gross"

lemma stake_resolved_ok:
  assumes walk: "walking T e b pc job k" and inv: "f_inv e w" and pc: "run_ok b pc w"
    and cap: "captured job (fw_state w)" "captured snapshot (fw_state w)"
    and rec: "record_ok job snapshot gross"
  shows "f_ok T e (stake_resolved k pc job acc snapshot neuron_id memo gross tx_id res w) w"
proof (cases "owns_job (pc_token pc) (at_payout_cursor job (pa_persisted acc)) w")
  case False
  then show ?thesis using inv by (simp add: stake_resolved_def f_ok_stay)
next
  case True
  then have at: "at_job job w" using owned_at_job [OF True _ cap(1)] by (simp add: at_payout_cursor_def)
  show ?thesis
  proof (cases res)
    case (Inl err)
    let ?w1 = "map_job_if (pc_token pc) (\<lambda>j. pj_id j = pj_id job)
        (\<lambda>j. j\<lparr>pj_failed_topups := sat_add (pj_failed_topups j) 1\<rparr>) w"
    have step: "f_step e w ?w1" by (intro map_job_if_step job_upd_core) (simp add: job_core_def)
    have "f_ok T e (k acc ?w1) w"
    proof (rule f_rg_start [OF inv step])
      assume w1: "f_inv e ?w1" "f_rel w ?w1"
      have "at_job job ?w1"
        using at rel_captured [OF cap(1) w1(2)] by (auto simp: at_job_def map_job_if_def)
      then show "f_ok T e (k acc ?w1) ?w1" using walkingD [OF walk w1(1) run_ok_later [OF pc w1(2)]] by simp
    qed
    then show ?thesis using True by (simp add: stake_resolved_def Inl)
  next
    case (Inr sub)
    have "f_ok T e (pay_commitment k pc job acc snapshot
        \<lparr>pd_kind = KNeuronStake, pd_beneficiary = pc_governance pc, pd_memo = memo,
         pd_subaccount = Some sub, pd_neuron = Some neuron_id\<rparr> gross tx_id w) w"
      using rec by (intro pay_commitment_ok [OF walk inv pc cap(1) _ cap(2)]) (simp_all add: record_ok_def)
    then show ?thesis using True by (simp add: stake_resolved_def Inr pc_governance [OF run_okD [OF pc]])
  qed
qed

lemma pay_target_ok:
  assumes walk: "walking T e b pc job k" and inv: "f_inv e w" and pc: "run_ok b pc w"
    and cap: "captured job (fw_state w)" "captured snapshot (fw_state w)"
    and rec: "record_ok job snapshot gross"
  shows "f_ok T e (pay_target k pc job acc snapshot target gross tx_id w) w"
proof -
  have direct: "f_ok T e (pay_commitment k pc job acc snapshot d gross tx_id w) w"
    if "pd_kind d \<noteq> KNeuronStake" for d
    using rec that by (intro pay_commitment_ok [OF walk inv pc cap(1) _ cap(2)]) (simp_all add: record_ok_def)
  have resolved: "f_ok T e (stake_resolved k pc job acc snapshot neuron_id memo gross tx_id res w') w'"
    if "f_inv e w'" "f_rel w w'" for neuron_id memo res w'
    using walk that(1) run_ok_later [OF pc that(2)] rel_captured [OF cap(1) that(2)]
      rel_captured [OF cap(2) that(2)] rec by (rule stake_resolved_ok)
  have "f_ok T e (neuron_staking_subaccount_retry_once pc neuron_id
      (stake_resolved k pc job acc snapshot neuron_id memo gross tx_id) w) w" for neuron_id memo
    unfolding neuron_staking_subaccount_retry_once_def
  proof (rule f_rg_await [OF inv f_step_refl])
    show "f_req_ok e w (FReqListNeurons (pc_governance pc) neuron_id)" using inv by simp
    fix r w1
    assume w1: "f_inv e w1" "f_rel w w1"
    have retry: "f_ok T e (Await w1 (FReqListNeurons (pc_governance pc) neuron_id)
        (\<lambda>r2 w2. stake_resolved k pc job acc snapshot neuron_id memo gross tx_id
           (fclient_subaccount neuron_id r2) w2)) w1"
      using w1 by (intro f_rg_await [OF w1(1) f_step_refl] resolved) (auto intro: f_rel_trans)
    show "f_ok T e (case fclient_subaccount neuron_id r of
         Inr sub \<Rightarrow> stake_resolved k pc job acc snapshot neuron_id memo gross tx_id (Inr sub) w1
       | Inl _ \<Rightarrow> Await w1 (FReqListNeurons (pc_governance pc) neuron_id)
           (\<lambda>r2 w2. stake_resolved k pc job acc snapshot neuron_id memo gross tx_id
             (fclient_subaccount neuron_id r2) w2)) w1"
      using retry resolved [OF w1] by (cases "fclient_subaccount neuron_id r") simp_all
  qed
  then show ?thesis using direct by (simp add: pay_target_def split: payout_target.split)
qed

lemma payout_tx_ok:
  assumes walk: "walking T e b pc job k" and inv: "f_inv e w" and pc: "run_ok b pc w"
    and at: "at_job job w" and complete: "effective_denom_scan_complete job"
  shows "f_ok T e (payout_tx k pc job tx acc w) w"
proof -
  obtain j where j: "fs_active_payout_job (fw_state w) = Some j" "pj_id j = pj_id job"
    and cap: "captured job (fw_state w)" using at by (auto simp: at_job_def)
  have capj: "captured j (fw_state w)" using inv j(1) by (auto simp: f_inv_def intro: captured_active)
  have go: "f_ok T e (k a w) w" for a by (rule walkingD [OF walk inv pc at])
  have pay: "f_ok T e (pay_target k pc job a j target gross tx_id w) w" if "pj_fee_e8s j < gross" for a target gross tx_id
    using walk inv pc cap capj by (rule pay_target_ok) (simp add: record_ok_def complete j(2) that)
  have latch: "f_ok T e (Done (latch_skip_range_invariant_rescue w) True) w"
    "f_ok T e (Done (latch_forced_rescue_reason reason w) True) w" for reason
    using inv by (simp_all add: f_ok_end latch_skip_step latch_forced_step)
  show ?thesis
    using go pay latch j(1)
    by (simp add: payout_tx_def Let_def not_le split: sum.split option.split commitment_validity.split)
qed

lemma payout_txs_walking:
  assumes "walking T e b pc job k" "effective_denom_scan_complete job"
  shows "walking T e b pc job (payout_txs k pc job txs)"
proof (induction txs)
  case Nil
  then show ?case using assms(1) by (simp add: walking_def)
next
  case (Cons tx txs)
  then show ?case using assms(2) payout_tx_ok unfolding walking_def payout_txs.simps by blast
qed


lemma map_job_if_exhausted [simp]:
  "exhausted (fw_state (map_job_if token ok f w)) = exhausted (fw_state w)"
  by (simp add: map_job_if_def exhausted_def)

lemma payout_page_done_ok:
  assumes on: "goes_on T e pc n again" and inv: "f_inv e w" and pc: "pc_ok pc w"
    and cap: "captured job (fw_state w)" and complete: "effective_denom_scan_complete job"
    and rounds: "\<And>w'. sc \<or> pages < 64 \<Longrightarrow> \<not> exhausted (fw_state w) \<Longrightarrow> rounds_needed pages w' \<le> n"
  shows "f_ok T e (payout_page_done again pc job pages sc last_id acc w) w"
proof -
  let ?g = "\<lambda>j. let j1 = job_set_candidate no_candidate (j\<lparr>
         pj_ignored_under_threshold := sat_add (pj_ignored_under_threshold j) (pa_small acc),
         pj_ignored_bad_memo := sat_add (pj_ignored_bad_memo j) (pa_bad acc),
         pj_next_start := (if pa_next acc \<noteq> None then pa_next acc else pj_next_start j)\<rparr>)
       in if sc then j1\<lparr>pj_scan_complete := True\<rparr> else j1\<lparr>pj_next_start := last_id\<rparr>"
  let ?w1 = "map_job_if (pc_token pc) (\<lambda>j. pj_id j = pj_id job \<and> pj_next_start j = pa_persisted acc) ?g w"
  have step: "f_step e w ?w1"
  proof (rule page_done_step [where f = "\<lambda>j. sc \<or> pj_scan_complete j"])
    show "job_core (?g j) = job_core (job_set_candidate no_candidate (j\<lparr>pj_scan_complete := sc \<or> pj_scan_complete j\<rparr>))" for j
      by (simp add: job_core_def job_set_candidate_def Let_def)
    fix j
    assume j: "fs_active_payout_job (fw_state w) = Some j" "pj_id j = pj_id job \<and> pj_next_start j = pa_persisted acc"
      "\<not> exhausted (fw_state w)"
    then have "same_job job j" using captured_same [OF cap] by simp
    then show "effective_denom_scan_complete j \<or> pj_scan_complete j" using same_job_fields(5) complete by blast
  qed
  have "f_ok T e (again pages ?w1) w" if "sc \<or> pages < 64"
    using rounds [OF that] by (intro goes_on_step [OF on inv pc step]) simp
  then show ?thesis
    using f_ok_end [OF inv step, of T True]
    by (auto simp: payout_page_done_def Let_def max_index_pages_per_payout_tick_def not_le)
qed

lemma payout_response_ok:
  assumes on: "goes_on T e pc n again" and inv: "f_inv e w" and pc: "pc_ok pc w"
    and cap: "captured job (fw_state w)" and complete: "effective_denom_scan_complete job"
    and rounds: "\<And>w'. \<not> exhausted (fw_state w) \<Longrightarrow> rounds_needed (sat_add pages 1) w' \<le> n"
  shows "f_ok T e (payout_response again pc job pages r w) w"
proof (cases "index_response r")
  case None
  then show ?thesis using inv by (simp add: payout_response_def f_ok_stay)
next
  case (Some resp)
  show ?thesis
  proof (cases "owns_job (pc_token pc) (\<lambda>j. at_payout_cursor job (pj_next_start job) j
      \<and> effective_denom_scan_complete j) w")
    case False
    then show ?thesis using inv by (simp add: payout_response_def Some f_ok_stay)
  next
    case True
    then have at: "at_job job w" by (rule owned_at_job [OF _ _ cap]) (simp add: at_payout_cursor_def)
    have run: "run_ok (exhausted (fw_state w)) pc w" using pc by (simp add: run_ok_def)
    let ?w1 = "note_index_page_with_lease resp (pc_token pc) (pj_id job) (pj_next_start job) w"
    have step: "f_step e w ?w1" by (rule note_index_page_step)
    have walk: "walking T e (exhausted (fw_state w)) pc job (payout_txs (payout_page_done again pc job (sat_add pages 1) sc last_id) pc job txs)"
      for sc last_id txs
    proof (rule payout_txs_walking [OF _ complete])
      show "walking T e (exhausted (fw_state w)) pc job (payout_page_done again pc job (sat_add pages 1) sc last_id)"
        unfolding walking_def using rounds complete
        by (intro allI impI payout_page_done_ok [OF on]) (simp_all add: at_job_def run_ok_def)
    qed
    have "f_ok T e (payout_txs (payout_page_done again pc job (sat_add pages 1) sc last_id) pc job txs acc ?w1) w"
      for sc last_id txs acc
    proof (rule f_rg_start [OF inv step])
      assume w1: "f_inv e ?w1" "f_rel w ?w1"
      have "at_job job ?w1"
        using at rel_captured [OF cap w1(2)] unfolding at_job_def note_index_page_job by blast
      then show "f_ok T e (payout_txs (payout_page_done again pc job (sat_add pages 1) sc last_id) pc job txs acc ?w1) ?w1"
        using walkingD [OF walk w1(1) run_ok_later [OF run w1(2)]] by blast
    qed
    moreover have "f_ok T e (Done (f_with_health (record_latest_invariant_failure (pc_now_secs pc)) w) False) w"
      by (intro f_ok_end [OF inv] f_with_health_step) (rule f_core_health)
    ultimately show ?thesis
      using True by (simp add: payout_response_def Some Let_def split: option.split)
  qed
qed


section \<open>The end of a job\<close>

lemma any_canister_ok: "f_inv e w \<Longrightarrow> f_ok T e (any_canister_exists bs w) w"
proof (induction bs arbitrary: w)
  case Nil
  then show ?case by (simp add: f_ok_stay)
next
  case (Cons b bs)
  then show ?case by (auto intro!: f_rg_await f_ok_stay)
qed

lemma finalize_ok:
  assumes inv: "f_inv e w"
  shows "f_ok T e (finalize_completed_job pc job_id w) w"
proof (cases "fs_active_payout_job (fw_state w)")
  case None
  then show ?thesis using inv by (simp add: finalize_completed_job_def f_ok_stay)
next
  case (Some job)
  have cap: "captured job (fw_state w)" using inv Some by (auto simp: f_inv_def intro: captured_active)
  have "f_ok T e (zero_success_run_counts_toward_rescue job w) w"
    using inv by (simp add: zero_success_run_counts_toward_rescue_def f_ok_stay any_canister_ok)
  then have "f_ok T e (pbind (zero_success_run_counts_toward_rescue job w) (\<lambda>w1 counts.
      if \<not> owns_job (pc_token pc) (\<lambda>j. pj_id j = job_id) w1
      then Done (f_with_state_mut id w1) False
      else Done (f_with_health (finalize_state job counts (pc_now_secs pc)) w1) True)) w"
    if id: "pj_id job = job_id"
  proof (rule f_rg_bind)
    fix w1 counts
    assume w1: "f_inv e w1" "f_rel w w1"
    have fin: "f_step e w1 (f_with_health (finalize_state job counts (pc_now_secs pc)) w1)"
      if own: "owns_job (pc_token pc) (\<lambda>j. pj_id j = job_id) w1"
    proof -
      obtain j where j: "fs_active_payout_job (fw_state w1) = Some j" "pj_id j = job_id"
        using owns_jobD [OF own] by (elim exE conjE)
      then have "pj_id j = pj_id job" using id by simp
      then show ?thesis by (rule finalize_step [OF rel_captured [OF cap w1(2)] j(1)])
    qed
    show "f_ok T e (if \<not> owns_job (pc_token pc) (\<lambda>j. pj_id j = job_id) w1
        then Done (f_with_state_mut id w1) False
        else Done (f_with_health (finalize_state job counts (pc_now_secs pc)) w1) True) w1"
    proof (rule f_ok_if)
      show "f_ok T e (Done (f_with_state_mut id w1) False) w1"
        by (rule f_ok_end [OF w1(1)]) (rule f_step_id)
      assume "\<not> \<not> owns_job (pc_token pc) (\<lambda>j. pj_id j = job_id) w1"
      then show "f_ok T e (Done (f_with_health (finalize_state job counts (pc_now_secs pc)) w1) True) w1"
        by (intro f_ok_end [OF w1(1)] fin) simp
    qed
  qed
  then have "f_ok T e (if \<not> pc_current pc w \<or> pj_id job \<noteq> job_id then Done w False
      else pbind (zero_success_run_counts_toward_rescue job w) (\<lambda>w1 counts.
        if \<not> owns_job (pc_token pc) (\<lambda>j. pj_id j = job_id) w1
        then Done (f_with_state_mut id w1) False
        else Done (f_with_health (finalize_state job counts (pc_now_secs pc)) w1) True)) w"
    by (intro f_ok_if f_ok_stay [OF inv]) blast
  then show ?thesis unfolding finalize_completed_job_def Some option.case .
qed

lemma latch_if_current_ok: "f_inv e w \<Longrightarrow> f_ok T e (latch_if_current pc w) w"
  by (auto simp: latch_if_current_def intro: f_ok_end latch_bootstrap_step)

lemma observe_latest_ok: "f_inv e w \<Longrightarrow> f_ok T e (observe_latest pc w) w"
  unfolding observe_latest_def
  by (intro f_rg_await f_ok_end health_if_current_step) (simp_all add: f_core_latest)

lemma f_ok_bind:
  "f_ok T e p w \<Longrightarrow> (\<And>w' a. f_inv e w' \<Longrightarrow> f_rel w w' \<Longrightarrow> f_ok T e (f w' a) w') \<Longrightarrow> f_ok T e (pbind p f) w"
  by (erule f_rg_bind)

lemma finish_payout_ok:
  assumes "f_inv e w"
  shows "f_ok T e (finish_payout pc job w) w"
  unfolding finish_payout_def
proof (rule f_ok_bind [OF finalize_ok [OF assms]])
  fix w1 ok
  assume w1: "f_inv e w1"
  have stay: "f_ok T e (Done w1 True) w1" using w1 by (rule f_ok_stay)
  have refresh: "f_ok T e (pbind (refresh_index_latest_health_after_payout_with_lease pc balance w2)
      (\<lambda>w3 _. latch_if_current pc w3)) w2" if "f_inv e w2" for balance w2
    using that by (intro f_ok_bind latch_if_current_ok)
      (simp_all add: refresh_index_latest_health_after_payout_with_lease_def f_ok_stay observe_latest_ok)
  have "f_ok T e (Await w1 (FReqBalanceOf (pc_ledger pc) (fc_staking_account (pc_cfg pc))) (\<lambda>r w2.
         case fclient_u64 r of
           Inl _ \<Rightarrow> latch_if_current pc w2
         | Inr balance \<Rightarrow>
             if \<not> pc_current pc w2 then Done w2 True
             else pbind (refresh_index_latest_health_after_payout_with_lease pc balance w2)
                    (\<lambda>w3 _. latch_if_current pc w3))) w1"
    using w1 refresh by (intro f_rg_await) (auto intro: latch_if_current_ok f_ok_stay split: sum.split)
  then show "f_ok T e (if \<not> ok then Done w1 True else Await w1
      (FReqBalanceOf (pc_ledger pc) (fc_staking_account (pc_cfg pc))) (\<lambda>r w2.
         case fclient_u64 r of
           Inl _ \<Rightarrow> latch_if_current pc w2
         | Inr balance \<Rightarrow>
             if \<not> pc_current pc w2 then Done w2 True
             else pbind (refresh_index_latest_health_after_payout_with_lease pc balance w2)
                    (\<lambda>w3 _. latch_if_current pc w3))) w1"
    using stay by (cases ok) simp_all
qed

text \<open>The remainder of the pot: neither \<open>expect\<close> can fail.\<close>

lemma complete_payout_ok:
  assumes inv: "f_inv e w" and pc: "pc_ok pc w" and act: "fs_active_payout_job (fw_state w) = Some job"
    and complete: "effective_denom_scan_complete job"
  shows "f_ok T e (complete_payout pc job w) w"
proof -
  have ok: "job_ok job" and cap: "captured job (fw_state w)"
    using inv act by (auto simp: f_inv_def f_st_inv_def intro: captured_active)
  then obtain rest where rest: "checked_sub (pj_pot_start_e8s job) (pj_gross_outflow_e8s job) = Some rest"
    by (cases "checked_sub (pj_pot_start_e8s job) (pj_gross_outflow_e8s job)")
      (auto simp: job_ok_def checked_iff word_le_nat_alt)
  have finish: "f_ok T e (finish_payout pc job w') w'" if "f_inv e w'" for w'
    using that by (rule finish_payout_ok)
  have send: "f_ok T e (pbind (send_and_notify (pay_ctx_of pc (pj_fee_e8s job)) (remainder_pending pc rest amount) w)
      (\<lambda>w1 ok. if \<not> ok then Done w1 True else finish_payout pc job w1)) w"
    if amount: "checked_sub rest (pj_fee_e8s job) = Some amount" for amount
  proof -
    have "f_rg T e drive_done (send_and_notify (pay_ctx_of pc (pj_fee_e8s job)) (remainder_pending pc rest amount) w) w"
      using inv act pc_pay_ok [OF pc cap refl] amount complete
      by (intro send_and_notify_rg) (simp_all add: remainder_pending_def pend_exact_def checked_iff)
    then show ?thesis
    proof (rule f_rg_bind)
      fix w1 ok
      assume "f_inv e w1"
      then show "f_ok T e (if \<not> ok then Done w1 True else finish_payout pc job w1) w1"
        by (simp add: f_ok_stay finish)
    qed
  qed
  have "checked_sub rest (pj_fee_e8s job) \<noteq> None" if "rest > pj_fee_e8s job"
    using that by (auto simp: checked_iff word_less_nat_alt)
  then show ?thesis
    using send finish [OF inv] by (auto simp: complete_payout_def rest)
qed

section \<open>The driver loop\<close>

lemma page_left:
  assumes "rounds_needed pages w \<le> Suc n" "pages < 64"
  shows "rounds_needed (sat_add pages 1) w' \<le> n" "rounds_needed (pages + 1) w' \<le> n"
proof -
  have "2 * (64 - unat pages) \<le> n" using assms(1) by (simp add: rounds_needed_def split: if_splits)
  then show "rounds_needed (sat_add pages 1) w' \<le> n" "rounds_needed (pages + 1) w' \<le> n"
    using assms(2) by (simp_all add: page_rounds)
qed

lemma payout_scan_step_ok:
  assumes on: "goes_on T e pc n again" and inv: "f_inv e w" and pc: "pc_ok pc w"
    and act: "fs_active_payout_job (fw_state w) = Some job"
    and rounds: "exhausted (fw_state w) \<or> rounds_needed pages w \<le> Suc n"
    and pages: "pj_scan_complete job \<or> pages < 64"
  shows "f_ok T e (payout_scan_step again pc job pages w) w"
proof -
  have ok: "job_ok job" and cap: "captured job (fw_state w)"
    and exact: "exhausted (fw_state w) \<or> job_exact job"
    using inv act by (auto simp: f_inv_def f_st_inv_def job_current_def intro: captured_active)
  have left: "rounds_needed (sat_add pages 1) w' \<le> n"
    if "\<not> exhausted (fw_state w)" "\<not> pj_scan_complete job" for w'
    using that rounds pages page_left(1) by blast
  show ?thesis
  proof (cases "effective_denom_scan_complete job")
    case False
    then have "\<not> exhausted (fw_state w) \<Longrightarrow> \<not> pj_scan_complete job" using exact by (auto simp: job_exact_def)
    then have rounds': "rounds_needed (sat_add pages 1) w' \<le> n"
      if "f_rel w w1" "\<not> exhausted (fw_state w1)" for w1 w'
      using left rel_exhausted [OF that(1)] that(2) by blast
    have "f_ok T e (Await w (FReqIndex (pc_index pc) (pc_staking_id pc) (pj_next_start job) page_size)
        (denom_response again pc job pages)) w"
      using inv pc cand_some_job [OF ok] rounds'
      by (intro f_rg_await [OF inv f_step_refl] denom_response_ok [OF on]) (simp_all add: pc_ok_later)
    then show ?thesis using False by (simp add: payout_scan_step_def)
  next
    case True
    show ?thesis
    proof (cases "pj_scan_complete job")
      case fin: True
      then show ?thesis using True complete_payout_ok [OF inv pc act] by (simp add: payout_scan_step_def)
    next
      case False
      then have rounds': "rounds_needed (sat_add pages 1) w' \<le> n"
        if "f_rel w w1" "\<not> exhausted (fw_state w1)" for w1 w'
        using left rel_exhausted [OF that(1)] that(2) by blast
      have "f_ok T e (Await w (FReqIndex (pc_index pc) (pc_staking_id pc) (pj_next_start job) page_size)
          (payout_response again pc job pages)) w"
        using inv pc True rounds' rel_captured [OF cap]
        by (intro f_rg_await [OF inv f_step_refl] payout_response_ok [OF on]) (simp_all add: pc_ok_later)
      then show ?thesis using True False by (simp add: payout_scan_step_def)
    qed
  qed
qed

lemma payout_iteration_ok:
  assumes on: "goes_on T e pc n again" and inv: "f_inv e w" and pc: "pc_ok pc w"
    and rounds: "exhausted (fw_state w) \<or> rounds_needed pages w \<le> Suc n"
  shows "f_ok T e (payout_iteration again pc pages w) w"
proof (cases "fs_active_payout_job (fw_state w)")
  case None
  then show ?thesis using inv by (simp add: payout_iteration_def f_ok_stay f_ok_end latch_bootstrap_step)
next
  case act: (Some job)
  have cap: "captured job (fw_state w)" using inv act by (auto simp: f_inv_def intro: captured_active)
  show ?thesis
  proof (cases "pj_pending_transfer job")
    case (Some px)
    have cur: "job_id = pj_id job" if "current_pending_transfer w = Some (job_id, px')" for job_id px'
      using that act by (auto simp: current_pending_transfer_def split: option.splits)
    have "f_rg T e drive_done (drive_pending_transfer (pay_ctx_of pc (pj_fee_e8s job)) w) w"
      using pc_pay_ok [OF pc cap refl] cur by (intro drive_pending_rg [OF inv]) auto
    then have "f_ok T e (pbind (drive_pending_transfer (pay_ctx_of pc (pj_fee_e8s job)) w)
        (\<lambda>w1 ok. if \<not> ok then Done w1 True else again pages w1)) w"
    proof (rule f_rg_bind)
      fix w1 ok
      assume w1: "f_inv e w1" "f_rel w w1" "drive_done w1 ok"
      have "f_ok T e (again pages w1) w1" if ok
      proof -
        have "no_pending (fw_state w1)" "\<not> no_pending (fw_state w)"
          using that w1(3) act Some by (simp_all add: drive_done_def no_pending_def)
        then have "exhausted (fw_state w1) \<or> rounds_needed pages w1 \<le> n"
          using rounds rel_exhausted [OF w1(2)] by (auto simp: rounds_needed_def)
        then show ?thesis using on w1(1) pc_ok_later [OF pc w1(2)] unfolding goes_on_def by blast
      qed
      then show "f_ok T e (if \<not> ok then Done w1 True else again pages w1) w1"
        by (intro f_ok_if f_ok_stay [OF w1(1)]) simp
    qed
    then show ?thesis using Some act inv by (simp add: payout_iteration_def f_ok_stay)
  next
    case None
    show ?thesis
    proof (cases "pj_scan_complete job \<or> pages \<ge> 64")
      case True
      have "f_ok T e (payout_scan_step again pc job pages w) w" if "pj_scan_complete job"
        using on inv pc act rounds that by (intro payout_scan_step_ok) simp_all
      then show ?thesis
        using None act inv True
        by (auto simp: payout_iteration_def f_ok_stay max_index_pages_per_payout_tick_def)
    next
      case False
      then have less: "pages < 64" by (simp add: not_le)
      obtain r w1 where sk: "skip_cached_history job (pc_token pc) w = Some (r, w1)"
        using skip_cached_step(1) [OF inv refl] by (metis not_None_eq prod.exhaust)
      have step: "f_step e w w1" using skip_cached_step(2) [OF inv sk] by simp
      have jump: "f_ok T e (again (pages + 1) w1) w"
        using rounds page_left(2) [OF _ less] rel_exhausted step inv
        by (intro goes_on_step [OF on inv pc step]) (auto simp: f_step_def)
      have scan: "f_ok T e (payout_scan_step again pc job pages w1) w" if "r = Inr False"
      proof (rule f_rg_start [OF inv step])
        assume w1: "f_inv e w1" "f_rel w w1"
        have st: "fw_state w1 = fw_state w" using skip_cached_step(3) [OF inv sk] that by simp
        show "f_ok T e (payout_scan_step again pc job pages w1) w1"
          using on w1(1) pc_ok_later [OF pc w1(2)] act rounds less
          by (intro payout_scan_step_ok) (simp_all add: st rounds_needed_def)
      qed
      have fault: "f_ok T e (Done (latch_skip_range_invariant_rescue w1) True) w"
        using inv f_step_trans [OF step latch_skip_step] by (rule f_ok_end)
      have "payout_iteration again pc pages w = (if \<not> pc_current pc w then Done w True
          else case r of Inl _ \<Rightarrow> Done (latch_skip_range_invariant_rescue w1) True
            | Inr b \<Rightarrow> if b then again (pages + 1) w1 else payout_scan_step again pc job pages w1)"
        using act None False
        by (simp add: payout_iteration_def sk max_index_pages_per_payout_tick_def split: sum.split bool.split)
      moreover have "f_ok T e \<dots> w"
        using jump scan fault by (intro f_ok_if f_ok_stay [OF inv]) (simp split: sum.split)
      ultimately show ?thesis by simp
    qed
  qed
qed

text \<open>The loop: the bound is used up only after the nonces are.\<close>

lemma payout_rounds_goes_on: "goes_on T e pc n (payout_rounds n pc)"
proof (induction n)
  case 0
  show ?case
    unfolding goes_on_def
  proof (intro allI impI)
    fix pages w
    assume w: "f_inv e w" "pc_ok pc w" "exhausted (fw_state w) \<or> rounds_needed pages w \<le> 0"
    then have "exhausted (fw_state w)" by (auto simp: rounds_needed_def split: if_splits)
    then have "f_req_ok e w FModelBound" using w(1) by (simp add: f_req_ok_def)
    then show "f_ok T e (payout_rounds 0 pc pages w) w"
      using w(1) by (auto intro!: f_rg_await f_ok_stay)
  qed
next
  case (Suc n)
  then show ?case unfolding goes_on_def [of _ _ _ "Suc n"] payout_rounds.simps
    by (blast intro: payout_iteration_ok)
qed

lemma payout_rounds_ok: "f_inv e w \<Longrightarrow> pc_ok pc w \<Longrightarrow> f_ok T e (payout_rounds payout_round_bound pc 0 w) w"
proof -
  assume w: "f_inv e w" "pc_ok pc w"
  have "rounds_needed 0 w \<le> payout_round_bound" by (simp add: rounds_needed_def payout_round_bound_def)
  then show ?thesis using payout_rounds_goes_on w unfolding goes_on_def by blast
qed

section \<open>Opening a job\<close>

lemma open_job_ok:
  assumes inv: "f_inv e w" and pc: "pc_ok pc w" and t: "last_processed < Some (ft_tx_id t)"
  shows "f_ok T e (open_job pc fee denom last_processed nonce t w) w"
proof (cases "pc_current pc w \<and> funding_unchanged last_processed nonce w")
  case False
  then show ?thesis using inv by (auto simp: open_job_def f_ok_stay)
next
  case True
  let ?w1 = "f_with_state_mut (ensure_active_job_with_boundary (pc_now_nanos pc) fee (ft_amount_e8s t)
           denom (ft_timestamp_nanos t) (Some (ft_tx_id t)) (Some t)) w"
  have step: "f_step e w ?w1" using True t by (intro ensure_job_step) (simp add: funding_unchanged_def)
  have "f_ok T e (payout_rounds payout_round_bound pc 0 ?w1) w"
    using inv step
  proof (rule f_rg_start)
    assume "f_inv e ?w1" "f_rel w ?w1"
    then show "f_ok T e (payout_rounds payout_round_bound pc 0 ?w1) ?w1"
      using pc_ok_later [OF pc] by (intro payout_rounds_ok)
  qed
  then show ?thesis using True by (simp add: open_job_def)
qed

lemma balance_reread_ok:
  assumes inv: "f_inv e w" and pc: "pc_ok pc w" and t: "last_processed < Some (ft_tx_id t)"
  shows "f_ok T e (balance_reread pc fee denom last_processed nonce t r w) w"
  using assms
  by (auto simp: balance_reread_def split: sum.split
      intro!: f_ok_stay f_ok_end latch_forced_step open_job_ok)

text \<open>What the discovery promises: a tranche that was not processed.\<close>

definition discovered :: "u64 option \<Rightarrow> fworld \<Rightarrow> funding_discovery option \<Rightarrow> bool" where
  "discovered last_processed w r \<longleftrightarrow>
     (\<forall>t. r = Some (FundingFound t) \<longrightarrow> last_processed < Some (ft_tx_id t))"

lemma funding_step_facts:
  assumes "funding_step pc src pay anchor fee oldest scan r = res"
    and "\<And>t. fs_candidate scan = Some t \<Longrightarrow> anchor < Some (ft_tx_id t)"
  shows "res \<noteq> Inl (FundingFound t)"
    "res = Inr (complete, next_scan, o1) \<Longrightarrow> fs_candidate next_scan = Some t \<Longrightarrow> anchor < Some (ft_tx_id t)"
    "res = Inr (complete, next_scan, o1) \<Longrightarrow> fs_anchor_last_processed_funding_tx_id next_scan
       = fs_anchor_last_processed_funding_tx_id scan"
proof -
  show "res \<noteq> Inl (FundingFound t)"
    unfolding assms(1) [symmetric] by (auto simp: funding_step_def split: option.split)
  assume res: "res = Inr (complete, next_scan, o1)"
  then obtain resp where resp: "index_response r = Some resp"
    using assms(1) by (cases "index_response r") (auto simp: funding_step_def)
  obtain cand reached where
    txs: "funding_txs src pay anchor fee (ip_transactions resp) (fs_candidate scan) = Some (cand, reached)"
    using assms(1) res
    by (cases "funding_txs src pay anchor fee (ip_transactions resp) (fs_candidate scan)")
      (auto simp: funding_step_def resp split: option.splits if_splits)
  have nxt: "next_scan = scan\<lparr>fs_candidate := cand,
                fs_cursor := end_cursor (fs_cursor scan) (ip_transactions resp)\<rparr>"
    using assms(1) res by (auto simp: funding_step_def resp txs split: option.splits if_splits)
  show "fs_anchor_last_processed_funding_tx_id next_scan = fs_anchor_last_processed_funding_tx_id scan"
    by (simp add: nxt)
  assume "fs_candidate next_scan = Some t"
  then show "anchor < Some (ft_tx_id t)" using funding_txs_after [OF txs assms(2)] nxt by simp
qed

lemma funding_pages_ok:
  assumes "f_inv e w" "scan_wf last_processed scan"
  shows "f_rg T e (discovered last_processed)
    (funding_pages n pc source_id payout_id last_processed fee observed_oldest scan w) w"
  using assms
proof (induction n arbitrary: w scan observed_oldest)
  case 0
  then show ?case by (simp add: f_rg_done discovered_def)
next
  case (Suc n)
  have quit: "f_rg T e (discovered last_processed) (Done w' None) w'" if "f_inv e w'" for w'
    using that by (intro f_rg_done) (simp_all add: discovered_def)
  have resume: "f_rg T e (discovered last_processed)
      (case funding_step pc source_id payout_id last_processed fee observed_oldest scan r of
          Inl result \<Rightarrow> Done w1 (Some result)
        | Inr (complete, next_scan, oldest) \<Rightarrow>
            let w2 = f_with_state_mut (\<lambda>st. st\<lparr>fs_active_funding_scan :=
                  (if complete then None else Some next_scan)\<rparr>) w1
            in if complete
               then Done w2 (Some (case fs_candidate next_scan of
                   None \<Rightarrow> FundingEmpty | Some c \<Rightarrow> FundingFound c))
               else funding_pages n pc source_id payout_id last_processed fee oldest next_scan w2) w1"
    if w1: "f_inv e w1" for r w1
  proof (cases "funding_step pc source_id payout_id last_processed fee observed_oldest scan r")
    case (Inl result)
    have "result \<noteq> FundingFound t" for t
      using funding_step_facts(1) [OF Inl] Suc.prems(2) by (simp add: scan_wf_def)
    then show ?thesis using Inl w1 by (simp add: discovered_def f_rg_done)
  next
    case (Inr res)
    obtain complete nxt oldest where res: "res = (complete, nxt, oldest)" by (cases res) auto
    have cand: "last_processed < Some (ft_tx_id t)" if "fs_candidate nxt = Some t" for t
      using funding_step_facts(2) [OF Inr _ _ that] Suc.prems(2) res by (simp add: scan_wf_def)
    have wf: "scan_wf last_processed nxt"
      using cand funding_step_facts(3) [OF Inr] Suc.prems(2) res by (simp add: scan_wf_def)
    let ?w2 = "f_with_state_mut (\<lambda>st. st\<lparr>fs_active_funding_scan :=
                  (if complete then None else Some nxt)\<rparr>) w1"
    have step: "f_step e w1 ?w2"
      using scan_wf_ok [OF wf] by (intro set_scan_step) (auto simp: scan_ok_def)
    show ?thesis
    proof (cases complete)
      case True
      have "f_rg T e (discovered last_processed) (Done ?w2 (Some (case fs_candidate nxt of
          None \<Rightarrow> FundingEmpty | Some c \<Rightarrow> FundingFound c))) w1"
        using w1 step cand by (intro f_rg_done) (auto simp: discovered_def split: option.split)
      then show ?thesis using True by (simp add: Inr res)
    next
      case False
      have "f_rg T e (discovered last_processed)
          (funding_pages n pc source_id payout_id last_processed fee oldest nxt ?w2) w1"
        using w1 step
      proof (rule f_rg_start)
        assume "f_inv e ?w2"
        then show "f_rg T e (discovered last_processed)
          (funding_pages n pc source_id payout_id last_processed fee oldest nxt ?w2) ?w2"
          using wf by (rule Suc.IH)
      qed
      then show ?thesis using False by (simp add: Inr res)
    qed
  qed
  have "f_rg T e (discovered last_processed)
      (Await w (FReqIndex (pc_index pc) payout_id (fs_cursor scan) page_size) (\<lambda>r w1.
        if \<not> owns_scan (pc_token pc) last_processed scan (fw_state w1) then Done w1 None
        else case funding_step pc source_id payout_id last_processed fee observed_oldest scan r of
          Inl result \<Rightarrow> Done w1 (Some result)
        | Inr (complete, next_scan, oldest) \<Rightarrow>
            let w2 = f_with_state_mut (\<lambda>st. st\<lparr>fs_active_funding_scan :=
                  (if complete then None else Some next_scan)\<rparr>) w1
            in if complete
               then Done w2 (Some (case fs_candidate next_scan of
                   None \<Rightarrow> FundingEmpty | Some c \<Rightarrow> FundingFound c))
               else funding_pages n pc source_id payout_id last_processed fee oldest next_scan w2)) w"
  proof (rule f_rg_await [OF Suc.prems(1) f_step_refl])
    show "f_req_ok e w (FReqIndex (pc_index pc) payout_id (fs_cursor scan) page_size)"
      using Suc.prems(1) by simp
    fix r w1
    assume "f_inv e w1"
    then show "f_rg T e (discovered last_processed)
       (if \<not> owns_scan (pc_token pc) last_processed scan (fw_state w1) then Done w1 None
        else case funding_step pc source_id payout_id last_processed fee observed_oldest scan r of
          Inl result \<Rightarrow> Done w1 (Some result)
        | Inr (complete, next_scan, oldest) \<Rightarrow>
            let w2 = f_with_state_mut (\<lambda>st. st\<lparr>fs_active_funding_scan :=
                  (if complete then None else Some next_scan)\<rparr>) w1
            in if complete
               then Done w2 (Some (case fs_candidate next_scan of
                   None \<Rightarrow> FundingEmpty | Some c \<Rightarrow> FundingFound c))
               else funding_pages n pc source_id payout_id last_processed fee oldest next_scan w2) w1"
      using quit [of w1] resume [of w1 r] by presburger
  qed
  then show ?case using quit [OF Suc.prems(1)] unfolding funding_pages.simps by presburger
qed

end
