(* ===== verification/FaucetRun.thy ===== *)
theory FaucetRun
  imports FaucetSafety
begin

text \<open>
  The judgements of the Faucet's entry points, from a payout run up to timers, pokes and upgrades, and
  the interpretation of \<open>rg_system\<close> on the whole canister.
\<close>

section \<open>A payout run\<close>

lemma probe_and_end_ok:
  assumes inv: "f_inv e w"
  shows "f_ok T e (probe_and_end pc denom w) w"
proof -
  have probe: "f_ok T e (probe_index_health_with_lease pc denom w) w"
    unfolding probe_index_health_with_lease_def Let_def
  proof (rule f_rg_await [OF inv f_step_refl])
    show "f_req_ok e w (FReqIndex (pc_index pc) (pc_staking_id pc) None 1)" using inv by simp
    fix r w1
    assume w1: "f_inv e w1"
    have anchor: "f_step e w1 (f_with_health (apply_anchor_observation o1 now) w1)" for o1 now
      by (rule f_with_health_step) (rule f_core_health)
    have latest: "f_step e w1 (health_if_current (pc_token pc) (apply_latest_observation ScanUnreadable now) w1)" for now
      by (rule health_if_current_step) (rule f_core_latest)
    have observe: "f_ok T e (observe_latest pc (f_with_health (apply_anchor_observation o1 now) w1)) w1" for o1 now
      using w1 anchor observe_latest_ok by (rule f_rg_start)
    show "f_ok T e (case index_response r of
          None \<Rightarrow> Done (health_if_current (pc_token pc)
              (apply_latest_observation ScanUnreadable (pc_now_secs pc)) w1) ()
        | Some first_page \<Rightarrow>
            if \<not> pc_current pc w1 then Done w1 ()
            else if fs_last_observed_staking_balance_e8s (fw_state w) = Some denom
            then Done (f_with_health (apply_anchor_observation (ip_oldest_tx_id first_page) (pc_now_secs pc)) w1) ()
            else observe_latest pc
              (f_with_health (apply_anchor_observation (ip_oldest_tx_id first_page) (pc_now_secs pc)) w1)) w1"
      using f_ok_stay [OF w1, where a = "()"] f_ok_end [OF w1 latest, where a = "()"] f_ok_end [OF w1 anchor, where a = "()"] observe
      by (cases "index_response r") (simp_all add: Let_def)
  qed
  then show ?thesis unfolding probe_and_end_def by (rule f_ok_bind) (rule latch_if_current_ok)
qed

lemma funding_discovered_ok:
  assumes inv: "f_inv e w" and pc: "pc_ok pc w" and found: "discovered last_processed w d"
  shows "f_ok T e (funding_discovered pc fee balance denom last_processed nonce w d) w"
proof -
  have t: "last_processed < Some (ft_tx_id t)" if "d = Some (FundingFound t)" for t
    using found that by (simp add: discovered_def)
  have reread: "f_ok T e (Await w (FReqBalanceOf (pc_ledger pc) (payout_account w))
      (balance_reread pc fee denom last_processed nonce t)) w" if "d = Some (FundingFound t)" for t
    using inv by (intro f_rg_await [OF inv f_step_refl] balance_reread_ok t [OF that])
      (simp_all add: pc_ok_later [OF pc])
  have opn: "f_ok T e (open_job pc fee denom last_processed nonce t w) w" if "d = Some (FundingFound t)" for t
    using inv pc t [OF that] by (rule open_job_ok)
  have probe: "f_ok T e (probe_and_end pc denom w) w" using inv by (rule probe_and_end_ok)
  have ends: "f_ok T e (Done w b) w" "f_ok T e (Done (latch_forced_rescue_reason reason w) b) w" for b :: bool and reason
    using inv by (simp_all add: f_ok_stay f_ok_end latch_forced_step)
  show ?thesis
    using reread opn probe ends
    by (cases d) (simp_all add: funding_discovered_def split: funding_discovery.split)
qed

lemma discover_ok:
  assumes inv: "f_inv e w"
  shows "f_rg T e (discovered last_processed)
    (discover_oldest_unprocessed_funding_tranche_with_lease pc payout_id source_id last_processed fee w) w"
proof -
  obtain r st where b: "begin_funding_scan (pc_token pc) last_processed (fw_state w) = (r, st)" by fastforce
  note step = begin_scan(1) [OF inv b]
  have "f_rg T e (discovered last_processed) (case r of
        None \<Rightarrow> Done (f_with_state_mut (\<lambda>_. st) w) None
      | Some scan \<Rightarrow>
          funding_pages max_funding_scan_pages_per_tick pc source_id payout_id last_processed fee None
            scan (f_with_state_mut (\<lambda>_. st) w)) w"
  proof (cases r)
    case None
    have "discovered last_processed (f_with_state_mut (\<lambda>_. st) w) None" by (simp add: discovered_def)
    then show ?thesis using f_rg_done [OF inv step] None by simp
  next
    case (Some scan)
    have "f_rg T e (discovered last_processed)
        (funding_pages max_funding_scan_pages_per_tick pc source_id payout_id last_processed fee None
            scan (f_with_state_mut (\<lambda>_. st) w)) w"
      using inv step funding_pages_ok [OF _ begin_scan(2) [OF inv b Some]] by (rule f_rg_start)
    then show ?thesis using Some by simp
  qed
  then show ?thesis
    using inv by (cases r) (simp_all add: discover_oldest_unprocessed_funding_tranche_with_lease_def b
        f_rg_done discovered_def)
qed

lemma payout_with_denom_ok:
  assumes inv: "f_inv e w" and pc: "pc_ok pc w"
  shows "f_ok T e (payout_with_denom pc fee balance r w) w"
proof -
  let ?anchor = "fs_last_processed_funding_tx_id (fw_state w)" and ?nonce = "fs_payout_nonce (fw_state w)"
  have run: "f_ok T e (pbind (discover_oldest_unprocessed_funding_tranche_with_lease pc
        (fe_account_id (pc_env pc) (payout_account w))
        (fe_account_id (pc_env pc) (fc_funding_source_account (pc_cfg pc))) ?anchor fee w)
      (funding_discovered pc fee balance denom ?anchor ?nonce)) w" for denom
    by (rule f_rg_bind [OF discover_ok [OF inv]])
      (blast intro: funding_discovered_ok pc_ok_later [OF pc])
  have "f_ok T e (Done w b) w" "f_ok T e (probe_and_end pc denom w) w" for b :: bool and denom
    using inv by (simp_all add: f_ok_stay probe_and_end_ok)
  then show ?thesis using run by (cases "fclient_u64 r") (simp_all add: payout_with_denom_def Let_def)
qed

lemma f_payout_with_balance_ok:
  assumes inv: "f_inv e w" and pc: "pc_ok pc w"
  shows "f_ok T e (f_payout_with_balance pc fee r w) w"
proof -
  have "f_ok T e (Await w (FReqBalanceOf (pc_ledger pc) (fc_staking_account (pc_cfg pc)))
      (payout_with_denom pc fee balance)) w" for balance
    using inv by (intro f_rg_await [OF inv f_step_refl] payout_with_denom_ok) (simp_all add: pc_ok_later [OF pc])
  then show ?thesis using f_ok_stay [OF inv]
    by (cases "fclient_u64 r") (simp_all add: f_payout_with_balance_def f_rg_done inv)
qed

lemma f_payout_with_fee_ok:
  assumes inv: "f_inv e w" and pc: "pc_ok pc w"
  shows "f_ok T e (f_payout_with_fee pc r w) w"
proof -
  have "f_ok T e (Await w (FReqBalanceOf (pc_ledger pc) (payout_account w)) (f_payout_with_balance pc fee)) w" for fee
    using inv by (intro f_rg_await [OF inv f_step_refl] f_payout_with_balance_ok) (simp_all add: pc_ok_later [OF pc])
  then show ?thesis by (cases "fclient_u64 r") (simp_all add: f_payout_with_fee_def f_rg_done inv)
qed

lemma process_payout_ok:
  assumes inv: "f_inv e w" and pc: "pc_ok pc w"
  shows "f_ok T e (process_payout_with_lease pc w) w"
proof -
  let ?pc = "pc\<lparr>pc_cfg := fs_config (fw_state w)\<rparr>"
  have pc': "pc_ok ?pc w" using pc by (simp add: pc_ok_def)
  have "f_ok T e (Await w (FReqFee (pc_ledger ?pc)) (f_payout_with_fee ?pc)) w"
    using inv by (intro f_rg_await [OF inv f_step_refl] f_payout_with_fee_ok) (simp_all add: pc_ok_later [OF pc'])
  then show ?thesis
    using payout_rounds_ok [OF inv pc', of T] by (simp add: process_payout_with_lease_def Let_def f_rg_done inv)
qed

section \<open>Rescue\<close>

lemma f_rescue_updated_ok: "f_inv e w \<Longrightarrow> f_ok T e (f_rescue_updated now active token r w) w"
  by (auto simp: f_rescue_updated_def f_core_def intro!: f_ok_end f_log_error_step f_step_core)

lemma f_rescue_decide_ok:
  assumes inv: "f_inv e w"
  shows "f_ok T e (f_rescue_decide e now token w) w"
proof -
  let ?st = "fw_state w"
  let ?rescue = "fc_rescue_controller (fs_config ?st)"
  let ?desired = "faucet_desired_rescue_controllers (fe_cx e) now
     (unwrap_or (fc_autonomous_rescue_armed (fs_config ?st)) False)
     (fs_last_successful_transfer_ts ?st) ?rescue (fs_forced_rescue_reason ?st \<noteq> None)
     (unwrap_or (fs_skip_range_invariant_fault ?st) False) (fw_self w)"
  show ?thesis
  proof (cases ?desired)
    case None
    then show ?thesis using inv by (simp add: f_rescue_decide_def Let_def f_ok_stay)
  next
    case (Some cs)
    obtain ps where ps: "cs = normalize_controllers (fe_cx e) ps" "ps \<in> {[fw_self w], [?rescue, fw_self w]}"
      using faucet_desired_cases [OF Some] by blast
    have "distinct cs" unfolding ps(1) using ps(2)
      by (intro normalize_distinct [of ps "fw_self w" ?rescue]) auto
    then have "f_req_ok e w (FReqUpdateSettings (controller_update_settings (fw_self w) cs))"
      using inv ps by (auto simp: f_req_ok_def controller_update_settings_def)
    then have "f_ok T e (Await w (FReqUpdateSettings (controller_update_settings (fw_self w) cs))
        (f_rescue_updated now (?rescue \<in> set cs) token)) w"
      by (intro f_rg_await [OF inv f_step_refl] f_rescue_updated_ok)
    then show ?thesis using Some by (simp add: f_rescue_decide_def Let_def)
  qed
qed

lemma attempt_rescue_ok:
  assumes inv: "f_inv e w"
  shows "f_ok T e (attempt_rescue_with_optional_main_lease e now token w) w"
  unfolding attempt_rescue_with_optional_main_lease_def
  using inv latch_bootstrap_step f_rescue_decide_ok by (rule f_rg_start)

section \<open>Ticks, pokes and timers\<close>

lemma run_ctx_ok:
  assumes "fc_governance_canister_id (fs_config (fw_state w0)) = Some governance" "f_rel w0 w"
  shows "pc_ok (run_ctx e (fs_config (fw_state w0)) governance now guard) w"
proof -
  have "pc_ok (run_ctx e (fs_config (fw_state w0)) governance now guard) w0"
    using assms(1) by (simp add: pc_ok_def run_ctx_def)
  then show ?thesis using assms(2) by (rule pc_ok_later)
qed

lemma main_tick_finish_ok:
  assumes inv: "f_inv e w" shows "f_ok True e (main_tick_finish guard now ok w) w"
  using f_finish_step inv
  by (cases "f_main_guard_finish guard now (if ok then None else Some 3001) w")
    (simp_all add: main_tick_finish_def f_rg_done)

lemma main_tick_paid_ok:
  assumes inv: "f_inv e w" shows "f_ok True e (main_tick_paid e guard now w ok) w"
  unfolding main_tick_paid_def
  by (rule f_ok_if) (auto intro: f_ok_bind attempt_rescue_ok main_tick_finish_ok inv)

lemma f_main_tick_ok:
  assumes inv: "f_inv e w" shows "f_ok True e (f_main_tick e force w) w"
proof (cases "fc_governance_canister_id (fs_config (fw_state w))")
  case None
  then show ?thesis by (simp add: f_main_tick_def)
next
  case (Some governance)
  let ?now = "fw_now w" and ?cfg = "fs_config (fw_state w)"
  obtain g w1 where acq: "f_main_guard_acquire (?now div 1000000000) w = (g, w1)" by fastforce
  have step: "f_step e w w1" using f_acquire_step [of e w "?now div 1000000000"] acq by simp
  have run: "f_ok True e (pbind (process_payout_with_lease (run_ctx e ?cfg governance ?now guard) w2)
      (main_tick_paid e guard (?now div 1000000000))) w"
    if adv: "f_advance_main_run_marker w1 = Some w2" for guard w2
    using inv f_step_trans [OF step f_advance_step [OF adv]]
  proof (rule f_rg_start)
    assume w2: "f_inv e w2" "f_rel w w2"
    then show "f_ok True e (pbind (process_payout_with_lease (run_ctx e ?cfg governance ?now guard) w2)
        (main_tick_paid e guard (?now div 1000000000))) w2"
      by (intro f_ok_bind process_payout_ok run_ctx_ok main_tick_paid_ok Some)
  qed
  have ends: "f_ok True e (Done w1 FMainGuardBusy) w"
    "f_ok True e (f_return guard out w1) w" for guard and out :: f_main_tick_outcome
    using inv step f_step_trans [OF step f_release_step] by (simp_all add: f_rg_done f_return_def)
  show ?thesis
    using run ends
    by (cases g; cases "f_advance_main_run_marker w1")
      (simp_all add: f_main_tick_def Some f_run_main_tick_with_clients_def acq Let_def)
qed

lemma f_rescue_tick_ok: "f_inv e w \<Longrightarrow> f_ok True e (f_rescue_tick e w) w"
proof -
  have resume: "f_ok True e (resume_active_job_if_present e w) w" if "f_inv e w" for w
    unfolding resume_active_job_if_present_def
    by (intro f_ok_if f_ok_bind f_main_tick_ok f_ok_stay that)
  assume "f_inv e w"
  then show ?thesis unfolding f_rescue_tick_def by (intro f_ok_bind attempt_rescue_ok resume)
qed

lemma f_schedule_retry_step: "f_step e w (f_schedule_retry marker after w)"
proof -
  have "f_step e w (f_set_timer t (w\<lparr>fw_retry_pending := r\<rparr>))" for t r
    by (rule f_step_trans [OF f_step_cells f_set_timer_step]) simp_all
  then show ?thesis by (simp add: f_schedule_retry_def f_reserve_scheduled_main_retry_def)
qed

lemma f_run_scheduled_main_tick_ok:
  assumes "f_inv e w" shows "f_ok True e (f_run_scheduled_main_tick e w) w"
  unfolding f_run_scheduled_main_tick_def
  by (rule f_ok_bind [OF f_main_tick_ok [OF assms]])
    (auto simp: f_rg_done f_schedule_retry_step split: f_main_tick_outcome.split)

lemma f_run_worker_ok:
  assumes inv: "f_inv e w" shows "f_ok True e (f_run_worker e w) w"
proof (cases "fc_governance_canister_id (fs_config (fw_state w))")
  case None
  then show ?thesis by (simp add: f_run_worker_def)
next
  case (Some governance)
  let ?now = "fw_now w" and ?cfg = "fs_config (fw_state w)"
  obtain g w1 where acq: "f_main_guard_acquire (?now div 1000000000) w = (g, w1)" by fastforce
  have step: "f_step e w w1" using f_acquire_step [of e w "?now div 1000000000"] acq by simp
  have run: "f_ok True e (pbind (process_payout_with_lease (run_ctx e ?cfg governance ?now guard) w1)
      (\<lambda>w2 _. f_return guard () w2)) w" for guard
    using inv step
  proof (rule f_rg_start)
    assume w1: "f_inv e w1" "f_rel w w1"
    then show "f_ok True e (pbind (process_payout_with_lease (run_ctx e ?cfg governance ?now guard) w1)
        (\<lambda>w2 _. f_return guard () w2)) w1"
      by (intro f_ok_bind process_payout_ok run_ctx_ok Some)
        (simp_all add: f_return_def f_rg_done f_release_step)
  qed
  then show ?thesis using inv step
    by (cases g) (simp_all add: f_run_worker_def Some f_run_worker_with_clients_def acq Let_def f_rg_done)
qed

lemma f_poke_cell_step: "f_step e w (w\<lparr>fw_poke := rt\<rparr>)"
  by (rule f_step_cells) simp_all

lemma f_deferred_callback_ok:
  assumes inv: "f_inv e w" shows "f_ok True e (f_deferred_callback e w) w"
proof -
  obtain act rt where act: "faucet_deferred_timer_action (fw_now w) (fw_poke w) = (act, rt)" by fastforce
  let ?w1 = "w\<lparr>fw_poke := rt\<rparr>"
  obtain ok rt2 where adm: "faucet_admit_attempt (fw_now ?w1) (fw_poke ?w1) = (ok, rt2)" by fastforce
  let ?w2 = "?w1\<lparr>fw_poke := rt2\<rparr>"
  have w2: "f_step e w ?w2" by (rule f_step_trans [OF f_poke_cell_step f_poke_cell_step])
  have run: "f_ok True e (f_run_worker e ?w2) w" using inv w2 f_run_worker_ok by (rule f_rg_start)
  have "f_step e w (f_set_timer t ?w1)" for t by (rule f_step_trans [OF f_poke_cell_step f_set_timer_step])
  then show ?thesis
    using run inv w2 adm by (cases act) (simp_all add: f_deferred_callback_def act f_rg_done f_poke_cell_step Let_def)
qed

lemma f_handle_poke_step: "f_step e w (f_handle_event_horizon_poke w)"
proof -
  obtain s rt where h: "faucet_record_hint (fw_now w) (fw_poke w) = (s, rt)" by fastforce
  let ?w2 = "if s then f_set_timer (FPokeDeferred poke_interval_nanos) (w\<lparr>fw_poke := rt\<rparr>) else w\<lparr>fw_poke := rt\<rparr>"
  obtain ok rt2 where a: "faucet_admit_attempt (fw_now ?w2) (fw_poke ?w2) = (ok, rt2)" by fastforce
  have "f_step e w ?w2" using f_step_trans [OF f_poke_cell_step f_set_timer_step] by (simp add: f_poke_cell_step)
  then have "f_step e w (?w2\<lparr>fw_poke := rt2\<rparr>)" by (rule f_step_trans [OF _ f_poke_cell_step])
  then have "f_step e w (if ok then f_set_timer FPokeWorker (?w2\<lparr>fw_poke := rt2\<rparr>) else ?w2\<lparr>fw_poke := rt2\<rparr>)"
    using f_step_trans [OF _ f_set_timer_step] by simp
  then show ?thesis using h a by (simp add: f_handle_event_horizon_poke_def Let_def)
qed

lemma f_poke_ok: "f_inv e w \<Longrightarrow> f_ok T e (f_poke caller n w) w"
  by (simp add: f_poke_def f_rg_done f_handle_poke_step)

lemma f_fire_timer_ok:
  assumes inv: "f_inv e w" shows "f_ok True e (f_fire_timer e t w) w"
proof -
  let ?w1 = "w\<lparr>fw_timers := remove1 t (fw_timers w)\<rparr>"
  have step: "f_step e w ?w1" by (rule f_step_cells) simp_all
  have later: "f_ok True e (p ?w1) w" if "\<And>w. f_inv e w \<Longrightarrow> f_ok True e (p w) w" for p :: "fworld \<Rightarrow> unit fproc"
    using inv step that by (rule f_rg_start)
  have retry: "f_ok True e (f_run_scheduled_main_retry e n w) w" if "f_inv e w" for n w
  proof -
    have cell: "f_step e w (w\<lparr>fw_retry_pending := None\<rparr>)" by (rule f_step_cells) simp_all
    have "f_ok True e (f_run_scheduled_main_tick e (w\<lparr>fw_retry_pending := None\<rparr>)) w"
      using that cell f_run_scheduled_main_tick_ok by (rule f_rg_start)
    then show ?thesis using that cell by (simp add: f_run_scheduled_main_retry_def f_rg_done Let_def)
  qed
  have later_retry: "f_ok True e (f_run_scheduled_main_retry e n ?w1) w" for n
    by (rule later) (rule retry)
  show ?thesis
    using inv later [OF f_rescue_tick_ok] later_retry later [OF f_deferred_callback_ok]
      later [OF f_run_worker_ok]
    by (cases t) (simp_all add: f_fire_timer_def Let_def f_rg_done f_run_scheduled_main_tick_ok f_rescue_tick_ok)
qed

lemma f_advance_clock_ok: "f_inv e w \<Longrightarrow> f_ok T e (f_advance_clock n w) w"
  by (auto simp: f_advance_clock_def intro!: f_ok_end f_step_cells)

section \<open>The whole canister\<close>

interpretation faucet: rg_system True "f_inv e" f_rel "f_req_ok e" "f_installed e"
  "f_handlers e" "f_upgrades e" for e
proof (unfold_locales, goal_cases)
  case (1 s)
  then show ?case by simp
next
  case (2 a b c)
  then show ?case by (rule f_rel_trans)
next
  case (3 s)
  then show ?case by (rule f_installed_inv)
next
  case (4 h s)
  then show ?case
    using f_fire_timer_ok f_poke_ok f_advance_clock_ok
    by (auto simp: f_handlers_def f_rg_def)
next
  case (5 u s s')
  then show ?case by (auto simp: f_upgrades_def f_post_upgrade_ok)
qed

end
