(* ===== verification/FaucetProperties.thy ===== *)
theory FaucetProperties
  imports FaucetRun
begin

text \<open>
  What the Faucet guarantees in every interleaving of its timers, pokes, retries, clock steps, replies
  and upgrades, as properties of the requests it has sent and of the worlds it can reach.
\<close>

text \<open>The requests of a run: \<open>log\<close> lists them, newest first, each with the world it was sent in.\<close>

definition f_run :: "fenv \<Rightarrow> fworld \<Rightarrow> (fworld, f_req, f_resp, unit) proc list
    \<Rightarrow> (fworld \<times> f_req) list \<Rightarrow> bool" where
  "f_run e = reach (f_installed e) (f_handlers e) (f_upgrades e)"

lemma sent_ok: "f_run e w ps log \<Longrightarrow> (wq, q) \<in> set log \<Longrightarrow> f_req_ok e wq q"
  unfolding f_run_def by (rule faucet.reach_requests)

lemma sent_before: "f_run e w ps log \<Longrightarrow> (wq, q) \<in> set log \<Longrightarrow> f_rel wq w"
  unfolding f_run_def by (rule faucet.reach_since)

lemma sent_in_order: "f_run e w ps (pre @ (w2, q2) # mid @ (w1, q1) # post) \<Longrightarrow> f_rel w1 w2"
  unfolding f_run_def by (rule faucet.reach_order)

text \<open>The job and the staged transfer behind a transfer request.\<close>

lemma sent_transfer_job:
  assumes "f_req_ok e w (FReqTransfer l a)"
  obtains j px fee where "fs_active_payout_job (fw_state w) = Some j" "pj_pending_transfer j = Some px"
    "px_phase px = AwaitingTransfer" "fw_dispatch w = dispatch_cell (pj_id j) px True"
    "l = fc_ledger_canister_id (fs_config (fw_state w))"
    "transfer_of w (fc_cmc_canister_id (fs_config (fw_state w))) fee px a"
    "exhausted (fw_state w) \<or> fee = pj_fee_e8s j" "f_inv e w"
  using assms by (auto simp: f_req_ok_def transfer_req_ok_def)

lemma not_exhausted_before:
  "f_rel w w' \<Longrightarrow> fs_payout_nonce (fw_state w') \<noteq> u_max \<Longrightarrow> \<not> exhausted (fw_state w)"
  using rel_exhausted [of w w'] by (auto simp: exhausted_def)

lemma two_sent:
  assumes run: "f_run e w ps (pre @ (w2, q2) # mid @ (w1, q1) # post)"
    and "fs_payout_nonce (fw_state w) \<noteq> u_max"
  shows "f_rel w1 w2" "f_req_ok e w1 q1" "f_req_ok e w2 q2" "\<not> exhausted (fw_state w2)"
    "\<not> exhausted (fw_state w1)"
proof -
  show rel: "f_rel w1 w2" using run by (rule sent_in_order)
  show "f_req_ok e w1 q1" "f_req_ok e w2 q2" by (rule sent_ok [OF run], simp)+
  have "f_rel w2 w" using sent_before [OF run, of w2 q2] by simp
  then show fresh: "\<not> exhausted (fw_state w2)" using assms(2) by (rule not_exhausted_before)
  show "\<not> exhausted (fw_state w1)" using rel_exhausted [OF rel] fresh by blast
qed

text \<open>C13: every ledger transfer the Faucet ever sends, in any interleaving, goes from its payout account
  to the configured ledger, is the transfer staged in the active payout job with its dispatch already
  recorded, and fits the job's funding tranche: what has left the tranche before plus the gross share
  is at most the tranche; amount and fee together are the gross share, and the weighting denominator
  was completely scanned (the last two unless the 64-bit payout counter is exhausted).\<close>

theorem faucet_transfers_within_tranche:
  assumes "f_run e w ps log" and "(wq, FReqTransfer l a) \<in> set log"
  shows "l = fc_ledger_canister_id (fs_config (fw_state wq)) \<and>
    ta_from_subaccount a = fc_payout_subaccount (fs_config (fw_state wq)) \<and>
    (\<exists>j px. fs_active_payout_job (fw_state wq) = Some j \<and> pj_pending_transfer j = Some px \<and>
       px_phase px = AwaitingTransfer \<and> fw_dispatch wq = dispatch_cell (pj_id j) px True \<and>
       ta_created_at_time a = Some (px_created_at_time_nanos px) \<and>
       unat (pj_gross_outflow_e8s j) + unat (pn_gross_share_e8s (px_notification px))
         \<le> unat (pj_pot_start_e8s j) \<and>
       (fs_payout_nonce (fw_state wq) \<noteq> u_max \<longrightarrow>
          ta_fee a = Some (unat (pj_fee_e8s j)) \<and> effective_denom_scan_complete j \<and>
          ta_amount a + unat (pj_fee_e8s j) = unat (pn_gross_share_e8s (px_notification px))))"
proof -
  obtain j px fee where j: "fs_active_payout_job (fw_state wq) = Some j" "pj_pending_transfer j = Some px"
    "px_phase px = AwaitingTransfer" "fw_dispatch wq = dispatch_cell (pj_id j) px True"
    "l = fc_ledger_canister_id (fs_config (fw_state wq))"
    "transfer_of wq (fc_cmc_canister_id (fs_config (fw_state wq))) fee px a"
    "exhausted (fw_state wq) \<or> fee = pj_fee_e8s j" and inv: "f_inv e wq"
    by (rule sent_transfer_job [OF sent_ok [OF assms]])
  have ok: "job_ok j" and exact: "exhausted (fw_state wq) \<or> job_exact j"
    using inv j(1) by (auto simp: f_inv_def f_st_inv_def job_current_def)
  have "unat (pj_gross_outflow_e8s j) + unat (pn_gross_share_e8s (px_notification px)) \<le> unat (pj_pot_start_e8s j)"
    using ok j(2,3) by (simp add: job_ok_def pend_ok_def)
  moreover have "fee = pj_fee_e8s j \<and> pend_exact j (px_notification px)"
    if "fs_payout_nonce (fw_state wq) \<noteq> u_max"
    using that exact j(2,7) by (simp add: exhausted_def job_exact_def)
  ultimately show ?thesis using j by (auto simp: transfer_of_def pend_exact_def)
qed

text \<open>C14: a funding tranche is paid out by one job only: the tranches of the transfers ever sent never go
  backwards, and two transfers for the same tranche belong to the same job, with the same pot and fee
  and the same final denominator; so a restart, a retry or an upgrade never reopens a tranche (until
  the 64-bit payout counter is exhausted).\<close>

theorem faucet_tranche_paid_once:
  assumes "f_run e w ps (pre @ (w2, FReqTransfer l2 a2) # mid @ (w1, FReqTransfer l1 a1) # post)"
    and "fs_payout_nonce (fw_state w) \<noteq> u_max"
    and "fs_active_payout_job (fw_state w1) = Some j1" and "fs_active_payout_job (fw_state w2) = Some j2"
  shows "pj_funding_tx_id j1 \<le> pj_funding_tx_id j2 \<and>
    (pj_funding_tx_id j1 = pj_funding_tx_id j2 \<longrightarrow> pj_id j1 = pj_id j2 \<and>
       pj_pot_start_e8s j1 = pj_pot_start_e8s j2 \<and> pj_fee_e8s j1 = pj_fee_e8s j2 \<and>
       effective_denom_e8s j1 = effective_denom_e8s j2)"
proof -
  note rel = two_sent(1) [OF assms(1,2)] and ok = two_sent(2,3) [OF assms(1,2)]
    and fresh = two_sent(4) [OF assms(1,2)] and fresh1 = two_sent(5) [OF assms(1,2)]
  have cont: "jobs_continue (fw_state w1) (fw_state w2)"
    using rel fresh by (simp add: f_rel_def f_st_rel_def)
  have cur: "job_current (fw_state w2) j2" using ok(2) fresh assms(4)
    by (auto simp: f_req_ok_def f_inv_def f_st_inv_def)
  have exact: "job_exact j1" using ok(1) fresh1 assms(3)
    by (auto simp: f_req_ok_def f_inv_def f_st_inv_def job_current_def)
  have pend: "\<exists>px. pj_pending_transfer j1 = Some px" using ok(1) assms(3)
    by (auto simp: f_req_ok_def transfer_req_ok_def)
  then have complete: "effective_denom_scan_complete j1" using exact by (auto simp: job_exact_def pend_exact_def)
  consider "same_job j1 j2" | "pj_funding_tx_id j1 \<le> fs_last_processed_funding_tx_id (fw_state w2)"
    using cont assms(3,4) by (auto simp: jobs_continue_def)
  then show ?thesis
  proof cases
    case 1
    then show ?thesis using complete by (simp add: same_job_def job_key_def)
  next
    case 2
    then have "pj_funding_tx_id j1 < pj_funding_tx_id j2"
      using cur unfolding job_current_def by (blast intro: le_less_trans)
    then show ?thesis by auto
  qed
qed

text \<open>C15: retries are idempotent for the ledger: two transfers sent for the same staged transfer of the
  same job are the same transfer to the same ledger, creation time and memo included, so that the
  ledger's deduplication recognises the second.\<close>

theorem faucet_transfer_retry_identity:
  assumes "f_run e w ps (pre @ (w2, FReqTransfer l2 a2) # mid @ (w1, FReqTransfer l1 a1) # post)"
    and "fs_payout_nonce (fw_state w) \<noteq> u_max"
    and "fs_active_payout_job (fw_state w1) = Some j1" and "fs_active_payout_job (fw_state w2) = Some j2"
    and "pj_id j1 = pj_id j2" and "pj_pending_transfer j1 = pj_pending_transfer j2"
  shows "a1 = a2 \<and> l1 = l2"
proof -
  note rel = two_sent(1) [OF assms(1,2)] and ok = two_sent(2,3) [OF assms(1,2)]
    and fresh = two_sent(4) [OF assms(1,2)] and fresh1 = two_sent(5) [OF assms(1,2)]
  have "captured j1 (fw_state w1)" using ok(1) assms(3) by (auto simp: f_req_ok_def f_inv_def intro: captured_active)
  then have same: "same_job j1 j2"
    using captured_same [OF rel_captured [OF _ rel] fresh assms(4)] assms(5) by simp
  note cfg = f_config_key_fields [OF rel_config [OF rel]]
  obtain px1 fee1 where 1: "pj_pending_transfer j1 = Some px1" "l1 = fc_ledger_canister_id (fs_config (fw_state w1))"
    "transfer_of w1 (fc_cmc_canister_id (fs_config (fw_state w1))) fee1 px1 a1" "fee1 = pj_fee_e8s j1"
    using sent_transfer_job [OF ok(1)] assms(3) fresh1 by (metis option.inject)
  obtain px2 fee2 where 2: "pj_pending_transfer j2 = Some px2" "l2 = fc_ledger_canister_id (fs_config (fw_state w2))"
    "transfer_of w2 (fc_cmc_canister_id (fs_config (fw_state w2))) fee2 px2 a2" "fee2 = pj_fee_e8s j2"
    using sent_transfer_job [OF ok(2)] assms(4) fresh by (metis option.inject)
  have "px1 = px2" "fee1 = fee2" using 1 2 assms(6) same_job_fields(2) [OF same] by simp_all
  then have "a1 = a2" using 1(3) 2(3) cfg by (auto simp: transfer_of_def intro: transfer_arg.equality)
  then show ?thesis using 1(2) 2(2) cfg by simp
qed


text \<open>C17: the Faucet never gives up its own control: every controller update it sends is for itself,
  keeps itself as a controller, and adds at most the configured rescue controller.\<close>

theorem faucet_keeps_control:
  assumes "f_run e w ps log" and "(wq, FReqUpdateSettings arg) \<in> set log"
  shows "us_canister_id arg = fw_self wq \<and>
    (\<exists>cs. cs_controllers (us_settings arg) = Some cs \<and> distinct cs \<and> fw_self wq \<in> set cs \<and>
       set cs \<subseteq> {fw_self wq, fc_rescue_controller (fs_config (fw_state wq))})"
  using sent_ok [OF assms] by (simp add: f_req_ok_def)


text \<open>C19: no panic in a payout run: from every world that satisfies the invariant, whatever the other
  canisters answer and whatever other messages do to the state at its awaits (within the invariant and
  the relation that every message keeps), a payout run never reaches a failing expect, and it
  restores the invariant at each await and at its end.\<close>

theorem faucet_payout_run_never_panics:
  assumes "f_inv e w" and "pc_ok pc w"
  shows "rg False (f_inv e) f_rel (\<lambda>_ _. True) (\<lambda>_ _. True) (process_payout_with_lease pc w) w"
proof -
  have "f_rg False e (\<lambda>_ _. True) (process_payout_with_lease pc w) w"
    using assms by (rule process_payout_ok)
  then show ?thesis unfolding f_rg_def by (rule rg_conseq) simp_all
qed

text \<open>C20: the invariant of the Faucet: in every reachable world the stable cell holds the current state,
  the configuration is valid, the skip ranges are disjoint and well formed; and the active job has paid
  out at most its tranche and (until the payout counter is exhausted) works on a tranche that was not
  processed before, under an id that was handed out.\<close>

theorem faucet_state_invariant:
  assumes "f_run e w ps log"
  shows "fw_stable w = Some (fw_state w) \<and>
    faucet_validate_config (fe_cx e) (fw_self w) (fs_config (fw_state w)) = Inr () \<and>
    smap_ok (fw_skip w) \<and>
    (\<forall>j. fs_active_payout_job (fw_state w) = Some j \<longrightarrow> pj_gross_outflow_e8s j \<le> pj_pot_start_e8s j \<and>
       (fs_payout_nonce (fw_state w) \<noteq> u_max \<longrightarrow> pj_id j < fs_payout_nonce (fw_state w) \<and>
          fs_last_processed_funding_tx_id (fw_state w) < pj_funding_tx_id j \<and>
          (pj_scan_complete j \<longrightarrow> effective_denom_scan_complete j)))"
  using faucet.reach_inv [OF assms [unfolded f_run_def]]
  by (auto simp: f_inv_def f_st_inv_def job_ok_def job_current_def job_exact_def exhausted_def)

text \<open>C21: an upgrade is refused while a payout job is active; an accepted one keeps the accounts and
  canister ids of the configuration, the payout counter and the dispatch record, never moves the cursor
  of processed tranches back, and drops the skip ranges.\<close>

theorem faucet_upgrade_keeps_history:
  assumes "f_run e w ps log" and "f_post_upgrade e args w = Some w'"
  shows "fs_active_payout_job (fw_state w) = None \<and> fs_active_payout_job (fw_state w') = None \<and>
    f_config_key (fs_config (fw_state w')) = f_config_key (fs_config (fw_state w)) \<and>
    fs_payout_nonce (fw_state w') = fs_payout_nonce (fw_state w) \<and> fw_dispatch w' = fw_dispatch w \<and>
    fs_last_processed_funding_tx_id (fw_state w) \<le> fs_last_processed_funding_tx_id (fw_state w') \<and>
    fw_skip w' = [] \<and> fw_stable w' = Some (fw_state w')"
proof -
  have inv: "f_inv e w" using faucet.reach_inv assms(1) [unfolded f_run_def] .
  note facts = f_post_upgrade_facts [OF inv assms(2)]
  have "fw_dispatch w' = fw_dispatch w"
    using assms(2) by (auto simp: f_post_upgrade_def Let_def f_install_timers_def f_set_timer_def f_fresh_def
        split: option.splits sum.splits prod.splits)
  then show ?thesis using facts by (simp add: upgraded_def)
qed

section \<open>The refund fall-back\<close>

text \<open>the fall-back after a proven refund conserves the tranche: what the Cycles Minting Canister
  credits back (the gross share less four ledger fees) is released from the outflow and becomes the
  gross share of a raw transfer to the same beneficiary, whose amount and fee are that credit; the
  fall-back is a new ledger transfer, with another creation time, not yet dispatched.\<close>

theorem refund_fallback_conserves_tranche:
  assumes "transition_refunded_beneficiary_to_raw_fallback job_id px fee now w = (RefundStaged, w')"
    and "fs_active_payout_job (fw_state w) = Some j"
  shows "\<exists>j' px'. fs_active_payout_job (fw_state w') = Some j' \<and> pj_id j' = pj_id j \<and>
    pj_pending_transfer j' = Some px' \<and> px_phase px' = AwaitingTransfer \<and>
    fw_dispatch w' = dispatch_cell job_id px' False \<and>
    pn_kind (px_notification px') = KCyclesTopUpRawFallback \<and>
    pn_beneficiary (px_notification px') = pn_beneficiary (px_notification px) \<and>
    px_created_at_time_nanos px' \<noteq> px_created_at_time_nanos px \<and>
    unat (pj_gross_outflow_e8s j') + unat (pn_gross_share_e8s (px_notification px'))
      = unat (pj_gross_outflow_e8s j) \<and>
    unat (pn_gross_share_e8s (px_notification px')) + 4 * unat fee
      = unat (pn_gross_share_e8s (px_notification px)) \<and>
    unat (pn_amount_e8s (px_notification px')) + unat fee
      = unat (pn_gross_share_e8s (px_notification px')) \<and> 0 < pn_amount_e8s (px_notification px')"
proof -
  obtain credit where credit: "refund_credit (px_notification px) fee = Some credit"
    using assms by (cases "refund_credit (px_notification px) fee")
      (auto simp: transition_refunded_beneficiary_to_raw_fallback_def Let_def split: if_splits)
  obtain released where released: "checked_sub (pj_gross_outflow_e8s j) credit = Some released"
    using assms credit by (cases "checked_sub (pj_gross_outflow_e8s j) credit")
      (auto simp: transition_refunded_beneficiary_to_raw_fallback_def Let_def split: if_splits)
  have above: "\<not> credit \<le> fee"
    using assms credit released
    by (auto simp: transition_refunded_beneficiary_to_raw_fallback_def Let_def split: if_splits)
  obtain created nxt where fresh:
    "fresh_transition_created_at_time j now (px_created_at_time_nanos px) = Some (created, nxt)"
    using assms credit released above
    by (cases "fresh_transition_created_at_time j now (px_created_at_time_nanos px)")
      (auto simp: transition_refunded_beneficiary_to_raw_fallback_def Let_def split: if_splits)
  obtain raw where raw: "checked_sub credit fee = Some raw"
    using above by (cases "checked_sub credit fee") (auto simp: checked_iff word_less_nat_alt not_le)
  let ?px = "\<lparr>px_notification = refund_fallback (px_notification px) credit raw,
     px_created_at_time_nanos = created, px_phase = AwaitingTransfer\<rparr>"
  have w': "w' = stage_transition job_id ?px nxt (\<lambda>j. j\<lparr>pj_gross_outflow_e8s := released\<rparr>) w"
    using assms credit released above fresh raw
    by (auto simp: transition_refunded_beneficiary_to_raw_fallback_def Let_def split: if_splits)
  have act: "fs_active_payout_job (fw_state w') = Some (j\<lparr>pj_gross_outflow_e8s := released,
      pj_next_created_at_time_nanos := nxt, pj_pending_transfer := Some ?px\<rparr>)"
    using assms(2) by (simp add: w' stage_transition_def)
  have "created \<noteq> px_created_at_time_nanos px"
    using fresh by (auto simp: fresh_transition_created_at_time_def Let_def checked_iff
        split: if_splits option.splits)
  moreover have "fw_dispatch w' = dispatch_cell job_id ?px False"
    by (simp add: w' stage_transition_def f_map_job_def f_set_dispatch_def)
  moreover have "0 < raw" using raw above by (simp add: checked_iff word_less_nat_alt not_le)
  ultimately show ?thesis
    using act refund_credit_Some [OF credit] released raw
    by (intro exI [of _ "j\<lparr>pj_gross_outflow_e8s := released, pj_next_created_at_time_nanos := nxt,
        pj_pending_transfer := Some ?px\<rparr>"] exI [of _ ?px])
      (simp add: refund_fallback_def checked_iff)
qed

section \<open>The funding scan\<close>

definition processed_funding :: "u64 option \<Rightarrow> index_tx \<Rightarrow> bool" where
  "processed_funding anchor tx = (case anchor of None \<Rightarrow> False | Some l \<Rightarrow> ix_id tx \<le> l)"

text \<open>The qualifying transfers of a page that come before the first processed one.\<close>

definition new_funding :: "bytes \<Rightarrow> bytes \<Rightarrow> u64 option \<Rightarrow> u64 \<Rightarrow> index_tx list \<Rightarrow> index_tx list" where
  "new_funding source_id payout_id anchor fee txs =
     filter (\<lambda>tx. qualifying_funding source_id payout_id fee tx \<noteq> None)
       (takeWhile (\<lambda>tx. \<not> processed_funding anchor tx) txs)"

text \<open>The tranche of a qualifying transfer, and the older of two.\<close>

definition tranche_of :: "bytes \<Rightarrow> bytes \<Rightarrow> u64 \<Rightarrow> index_tx \<Rightarrow> funding_tranche" where
  "tranche_of source_id payout_id fee tx =
     \<lparr>ft_tx_id = ix_id tx, ft_timestamp_nanos = unwrap_or (index_tx_timestamp_nanos tx) 0,
      ft_amount_e8s = unwrap_or (qualifying_funding source_id payout_id fee tx) 0\<rparr>"

definition older_tranche :: "funding_tranche \<Rightarrow> funding_tranche option \<Rightarrow> funding_tranche option" where
  "older_tranche t cand = (case cand of None \<Rightarrow> Some t
     | Some old \<Rightarrow> if ft_tx_id t < ft_tx_id old then Some t else Some old)"

lemma new_funding_simps [simp]:
  "new_funding s p a fee [] = []"
  "processed_funding a tx \<Longrightarrow> new_funding s p a fee (tx # txs) = []"
  "\<not> processed_funding a tx \<Longrightarrow> new_funding s p a fee (tx # txs) =
     (if qualifying_funding s p fee tx = None then [] else [tx]) @ new_funding s p a fee txs"
  by (simp_all add: new_funding_def)

text \<open>reading a page of the funding scan is the fold of the older tranche over the qualifying
  transfers that come before the first processed one; it fails exactly when one of these has no
  timestamp, and it reports that the processed history was reached exactly when the page holds a
  processed transfer.\<close>

theorem funding_txs_is_fold_of_older:
  "funding_txs source_id payout_id anchor fee txs cand =
     (let new = new_funding source_id payout_id anchor fee txs in
      if \<exists>tx\<in>set new. index_tx_timestamp_nanos tx = None then None
      else Some (fold (\<lambda>tx. older_tranche (tranche_of source_id payout_id fee tx)) new cand,
             list_ex (processed_funding anchor) txs))"
proof (induction txs arbitrary: cand)
  case Nil
  then show ?case by simp
next
  case (Cons tx txs)
  show ?case
  proof (cases "processed_funding anchor tx")
    case True
    then show ?thesis by (simp add: processed_funding_def [symmetric])
  next
    case False
    then have skip: "\<not> (case anchor of None \<Rightarrow> False | Some l \<Rightarrow> ix_id tx \<le> l)"
      by (simp add: processed_funding_def)
    show ?thesis
    proof (cases "qualifying_funding source_id payout_id fee tx")
      case None
      then show ?thesis using False skip Cons.IH [of cand] by (simp add: Let_def)
    next
      case (Some amount)
      show ?thesis
      proof (cases "index_tx_timestamp_nanos tx")
        case None
        then show ?thesis using False skip Some by (simp add: Let_def)
      next
        case time: (Some t)
        have "(if (case cand of None \<Rightarrow> True | Some old \<Rightarrow> ix_id tx < ft_tx_id old)
            then Some \<lparr>ft_tx_id = ix_id tx, ft_timestamp_nanos = t, ft_amount_e8s = amount\<rparr> else cand)
          = older_tranche (tranche_of source_id payout_id fee tx) cand"
          using Some time by (cases cand) (simp_all add: older_tranche_def tranche_of_def unwrap_or_def)
        then show ?thesis
          using False skip Some time
            Cons.IH [of "older_tranche (tranche_of source_id payout_id fee tx) cand"]
          by (simp add: Let_def)
      qed
    qed
  qed
qed

end
