(* ===== verification/FaucetExamples.thy ===== *)
theory FaucetExamples
  imports FaucetProperties
begin

text \<open>
  A worked run of the Faucet: one main tick that finds a funding tranche, weighs the only commitment,
  pays it out over a lost ledger reply, notifies the Cycles Minting Canister and finishes.  It shows the
  properties at work, hypotheses included.
\<close>

section \<open>Scenario\<close>

definition ex_fenv :: fenv where
  "ex_fenv = \<lparr>fe_cx = example_candid, fe_account_id = acc_owner, fe_relay = [8]\<rparr>"

definition ex_fconfig :: fconfig where
  "ex_fconfig = \<lparr>fc_staking_account = \<lparr>acc_owner = [1], acc_subaccount = None\<rparr>,
     fc_payout_subaccount = None, fc_ledger_canister_id = [2], fc_index_canister_id = [3],
     fc_cmc_canister_id = [14], fc_governance_canister_id = Some [5],
     fc_funding_source_account = \<lparr>acc_owner = [6], acc_subaccount = None\<rparr>, fc_rescue_controller = [7],
     fc_autonomous_rescue_armed = Some True, fc_expected_first_staking_tx_id = None,
     fc_main_interval_seconds = 600, fc_rescue_interval_seconds = 600, fc_min_tx_e8s = 100000000,
     fc_stake_recognition_delay_seconds = Some 86400\<rparr>"

definition ex_fargs :: finit_args where
  "ex_fargs = \<lparr>fi_staking_account = \<lparr>acc_owner = [1], acc_subaccount = None\<rparr>,
     fi_payout_subaccount = None, fi_ledger_canister_id = Some [2], fi_index_canister_id = Some [3],
     fi_cmc_canister_id = Some [14], fi_governance_canister_id = Some [5],
     fi_funding_source_account = \<lparr>acc_owner = [6], acc_subaccount = None\<rparr>,
     fi_rescue_controller = [7], fi_autonomous_rescue_armed = Some True,
     fi_expected_first_staking_tx_id = None, fi_main_interval_seconds = Some 600,
     fi_rescue_interval_seconds = Some 600, fi_min_tx_e8s = None,
     fi_stake_recognition_delay_seconds = None\<rparr>"

definition ex_fworld :: fworld where
  "ex_fworld = f_install_timers (f_fresh [9] 100000000000000 (fstate_new ex_fconfig 100000) None)"

definition ex_funding_page :: index_page where
  "ex_funding_page = \<lparr>ip_balance = 200000000, ip_transactions = [\<lparr>ix_id = 20, ix_icrc1_memo = None,
     ix_operation = OpTransfer [9] [6] 200000000, ix_created_at_time = None,
     ix_timestamp = Some 90000000000000\<rparr>], ip_oldest_tx_id = Some 20\<rparr>"

definition ex_staking_page :: index_page where
  "ex_staking_page = \<lparr>ip_balance = 100000000, ip_transactions = [\<lparr>ix_id = 10,
     ix_icrc1_memo = Some [97], ix_operation = OpTransfer [1] [30] 100000000,
     ix_created_at_time = None, ix_timestamp = Some 1000000000\<rparr>], ip_oldest_tx_id = Some 10\<rparr>"

text \<open>The answers to one main tick: fee, balances, the funding page, the denominator and the payout
  page, a lost reply and the retried transfer, the notification, and the health and rescue calls.\<close>

definition ex_script :: "f_resp list" where
  "ex_script = [FRespNat (Inr 10000), FRespNat (Inr 200000000), FRespNat (Inr 100000000),
     FRespIndex (Inr ex_funding_page), FRespIndex (Inr ex_staking_page),
     FRespIndex (Inr ex_staking_page), FRespTransfer (Inl ''timeout''), FRespTransfer (Inr (Inr 55)),
     FRespNotify (Inr (Inr 1000)), FRespNat (Inr 100000000), FRespIndex (Inr ex_staking_page),
     FRespSettings (Inr ())]"

lemma ex_finstalled: "f_installed ex_fenv ex_fworld"
proof -
  have "faucet_init (fe_cx ex_fenv) [9] (100000000000000 div 1000000000) ex_fargs
      = Inr (fstate_new ex_fconfig 100000)"
    by (simp add: ex_fenv_def faucet_init_def ex_fargs_def ex_fconfig_def example_candid_def unwrap_or_def
        decode_subaccount_opt_def or_principal_def
        faucet_validate_config_def assert_non_anonymous_principal_def min_min_tx_e8s_def Let_def)
  then show ?thesis unfolding f_installed_def ex_fworld_def by blast
qed

section \<open>Evaluation\<close>

lemmas ex_fmodel = ex_fenv_def ex_fconfig_def ex_fworld_def ex_funding_page_def ex_staking_page_def
  f_install_timers_def f_fresh_def fstate_new_def f_set_timer_def example_candid_def

lemmas ex_fworld_ops = f_with_state_mut_def f_now_secs_def f_log_error_def f_main_guard_acquire_def
  tlg_acquire_def f_main_tick_lease_seconds_def f_main_guard_release_def tlg_finish_def tlg_release_def
  f_return_def Let_def sat_add_def sat_sub_def f_lease_current_def lease_current_in_def unwrap_or_def

lemmas ex_ftick_ops = f_fire_timer_def f_run_scheduled_main_tick_def f_main_tick_def
  f_run_main_tick_with_clients_def f_remaining_def f_advance_main_run_marker_def checked_add_def
  process_payout_with_lease_def run_ctx_def pc_current_def lease_token_of_def

lemmas ex_ffunding_ops = f_payout_with_fee_def fclient_u64_def nat_to_u64_def f_payout_with_balance_def
  payout_with_denom_def discover_oldest_unprocessed_funding_tranche_with_lease_def
  begin_funding_scan_def max_funding_scan_pages_per_tick_def payout_account_def

lemmas funding_pages_128 = funding_pages.simps(2) [of 127, simplified]

lemma payout_rounds_next:
  "0 < n \<Longrightarrow> payout_rounds n pc pages w = payout_iteration (payout_rounds (n - 1) pc) pc pages w"
  by (cases n) simp_all

lemmas ex_ffound_ops = owns_scan_def funding_pages_128 funding_step_def index_response_def fclient_index_def
  validate_history_page_def index_page_latest_tx_id_def last_tx_id_def page_size_def qualifying_funding_def
  index_tx_timestamp_nanos_def end_cursor_def funding_discovered_def open_job_def funding_unchanged_def
  ensure_active_job_with_boundary_def payout_job_new_def configure_funding_tranche_def
  configure_round_accounting_def payout_rounds_next payout_round_bound_def payout_iteration_def
  max_index_pages_per_payout_tick_def skip_cached_history_def skip_target_def payout_scan_step_def

lemmas ex_fdenom_ops = effective_denom_scan_complete_def pc_staking_id_def denom_response_def
  owns_job_def same_denom_cursor_def denom_page_def denom_params_of_def recognition_delay_seconds_def
  beyond_round_def skip_range_containing_def smap_last_upto_def eligible_commitment_def
  memo_bytes_from_index_tx_def classify_commitment_def parse_payout_target_from_memo_def
  parse_memo_directive_def max_target_canister_memo_bytes_def is_ascii_def trim_def char_whitespace_def
  parse_neuron_id_text_def max_neuron_id_memo_bytes_def ascii_digit_def parse_declared_principal_text_def
  principal_text_with_group_separators_def record_completed_skip_range_def finish_span_def
  candidate_from_job_def min_skip_range_tx_count_def no_candidate_def commitment_weight_def
  commitment_amount_for_job_payout_e8s_def genesis_round_amount_for_commitment_e8s_def
  conservative_effective_timestamp_nanos_def sat_mul_def denom_store_def map_job_if_def map_active_job_def
  job_apply_denom_page_def job_set_candidate_def

lemmas drive_loop_2 = drive_loop.simps(2) [of 1, unfolded Suc_1]

lemmas ex_fpay_ops = payout_response_def at_payout_cursor_def note_index_page_with_lease_def payout_tx_def
  effective_denom_e8s_def pay_target_def pay_commitment_def
  flush_scan_progress_def pay_ctx_of_def pending_of_def send_and_notify_def allocate_created_at_time_nanos_def
  next_created_at_def created_at_time_is_valid_for_ledger_def ledger_created_at_max_age_nanos_def
  ledger_created_at_max_future_skew_nanos_def stage_pending_transfer_def f_map_job_def f_set_dispatch_def
  dispatch_cell_def drive_pending_transfer_def drive_loop_2 drive_iteration_def current_pending_transfer_def
  deposit_account_for_pending_def cmc_deposit_account_def transfer_memo_for_pending_def f_transfer_arg_def
  transfer_identity_with_one_retry_def pending_transfer_may_have_dispatched_def set_dispatch_started_def
  pending_transfer_matches_def owns_pending_def transfer_once_def fclient_transfer_def accepted_block_def
  drive_identity_def mark_pending_transfer_accepted_def accept_pending_def record_ledger_accepted_transfer_def
  drive_accepted_def requires_cmc_notify_def notify_once_def increment_cmc_attempts_def
  note_attempted_beneficiary_def add_attempted_beneficiary_def max_cmc_diagnostic_witnesses_def

lemmas ex_fend_ops = fclient_notify_def classify_notify_top_up_result_def nat_to_u128_def drive_first_notify_def
  still_owned_def notify_succeeded_def record_completed_transfer_def apply_notified_transfer_def
  is_beneficiary_payout_def payout_page_done_def complete_payout_def checked_sub_def finish_payout_def
  finalize_completed_job_def zero_success_run_counts_toward_rescue_def f_with_health_def finalize_state_def
  apply_job_health_observations_def apply_anchor_observation_def apply_cmc_run_result_def summary_from_job_def
  refresh_index_latest_health_after_payout_with_lease_def observe_latest_def latest_observation_of_def
  health_if_current_def apply_latest_observation_def latch_if_current_def maybe_latch_bootstrap_rescue_def
  faucet_bootstrap_rescue_due_def bootstrap_rescue_window_secs_def policy_secs_per_day_def
  main_tick_paid_def attempt_rescue_with_optional_main_lease_def f_rescue_decide_def
  faucet_desired_rescue_controllers_def f_rescue_updated_def main_tick_finish_def f_main_guard_finish_def
  faucet_desired_controllers_def healthy_window_secs_def broken_window_secs_def

lemma ex_word [simp]: "\<not> (64 :: u64) \<le> 1" by (simp add: word_le_nat_alt)

lemma ex_share [simp]: "compute_raw_share_e8s 100000000 200000000 100000000 = 200000000"
  by (simp add: compute_raw_share_e8s_def sat_mul_def checked_div_def unwrap_or_def Let_def word_less_nat_alt)

section \<open>The run\<close>

definition ex_farg :: transfer_arg where
  "ex_farg = \<lparr>ta_from_subaccount = None,
     ta_to = \<lparr>acc_owner = [14], acc_subaccount = Some (principal_to_subaccount [97])\<rparr>,
     ta_fee = Some 10000, ta_created_at_time = Some 100000000000000,
     ta_memo = Some (u64_to_le_bytes memo_top_up_canister_u64), ta_amount = 199990000\<rparr>"

definition ex_fpending :: pending_transfer where
  "ex_fpending = \<lparr>px_notification = \<lparr>pn_kind = KBeneficiary, pn_beneficiary = [97],
       pn_gross_share_e8s = 200000000, pn_amount_e8s = 199990000, pn_block_index = 0,
       pn_next_start = Some 10, pn_transfer_memo = None, pn_destination_subaccount = None,
       pn_neuron_id = None\<rparr>, px_created_at_time_nanos = 100000000000000, px_phase = AwaitingTransfer\<rparr>"

definition job_glance :: "fworld \<times> f_req \<Rightarrow> f_req \<times> (u64 \<times> u64 option \<times> pending_transfer option) option" where
  "job_glance e = (snd e, map_option (\<lambda>j. (pj_id j, pj_funding_tx_id j, pj_pending_transfer j))
     (fs_active_payout_job (fw_state (fst e))))"

lemma ex_main_tick:
  "\<exists>w log. run_script ex_script (f_fire_timer ex_fenv (FMainInterval 600) ex_fworld) []
      = (Some (w, ()), log) \<and>
    map snd log = [FReqUpdateSettings (controller_update_settings [9]
        (normalize_controllers (fe_cx ex_fenv) [[9]])), FReqIndex [3] [1] None 500,
      FReqBalanceOf [2] \<lparr>acc_owner = [1], acc_subaccount = None\<rparr>, FReqNotify [14] [97] 55,
      FReqTransfer [2] ex_farg, FReqTransfer [2] ex_farg, FReqIndex [3] [1] None 500,
      FReqIndex [3] [1] None 500, FReqIndex [3] [9] None 500,
      FReqBalanceOf [2] \<lparr>acc_owner = [1], acc_subaccount = None\<rparr>,
      FReqBalanceOf [2] \<lparr>acc_owner = [9], acc_subaccount = None\<rparr>, FReqFee [2]] \<and>
    map job_glance (take 2 (drop 4 log)) = [(FReqTransfer [2] ex_farg, Some (1, Some 20, Some ex_fpending)),
      (FReqTransfer [2] ex_farg, Some (1, Some 20, Some ex_fpending))] \<and>
    fs_payout_nonce (fw_state w) = 2 \<and> fs_last_processed_funding_tx_id (fw_state w) = Some 20"
  supply if_split [split del]
  by (simp add: ex_script_def ex_farg_def ex_fpending_def job_glance_def ex_fmodel ex_fworld_ops
      ex_ftick_ops ex_ffunding_ops ex_ffound_ops ex_fdenom_ops ex_fpay_ops ex_fend_ops)

section \<open>The interleaving it belongs to\<close>

lemma f_run_handler:
  "f_run e w ps log \<Longrightarrow> h \<in> f_handlers e \<Longrightarrow> run_script rs (h w) log = (Some (w', ()), log')
   \<Longrightarrow> f_run e w' ps log'"
  unfolding f_run_def by (rule run_script_reach)

lemma ex_frun0: "f_run ex_fenv ex_fworld [] []"
  unfolding f_run_def by (rule reach.start) (rule ex_finstalled)

lemma ex_frun:
  obtains w w2 w1 wu wn pre mid post j1 j2 where
    "f_run ex_fenv w [] (pre @ (w2, FReqTransfer [2] ex_farg) # [] @ (w1, FReqTransfer [2] ex_farg) # post)"
    "fs_payout_nonce (fw_state w) = 2" "fs_last_processed_funding_tx_id (fw_state w) = Some 20"
    "fs_active_payout_job (fw_state w1) = Some j1" "fs_active_payout_job (fw_state w2) = Some j2"
    "pj_id j1 = 1" "pj_id j2 = 1" "pj_funding_tx_id j1 = Some 20" "pj_funding_tx_id j2 = Some 20"
    "pj_pending_transfer j1 = Some ex_fpending" "pj_pending_transfer j2 = Some ex_fpending"
    "pre = (wu, FReqUpdateSettings (controller_update_settings [9]
        (normalize_controllers (fe_cx ex_fenv) [[9]]))) # mid @ [(wn, FReqNotify [14] [97] 55)]"
proof -
  obtain w log where run: "run_script ex_script (f_fire_timer ex_fenv (FMainInterval 600) ex_fworld) []
      = (Some (w, ()), log)"
    and reqs: "map snd log = [FReqUpdateSettings (controller_update_settings [9]
        (normalize_controllers (fe_cx ex_fenv) [[9]])), FReqIndex [3] [1] None 500,
      FReqBalanceOf [2] \<lparr>acc_owner = [1], acc_subaccount = None\<rparr>, FReqNotify [14] [97] 55,
      FReqTransfer [2] ex_farg, FReqTransfer [2] ex_farg, FReqIndex [3] [1] None 500,
      FReqIndex [3] [1] None 500, FReqIndex [3] [9] None 500,
      FReqBalanceOf [2] \<lparr>acc_owner = [1], acc_subaccount = None\<rparr>,
      FReqBalanceOf [2] \<lparr>acc_owner = [9], acc_subaccount = None\<rparr>, FReqFee [2]]"
    and glance: "map job_glance (take 2 (drop 4 log)) = [(FReqTransfer [2] ex_farg, Some (1, Some 20, Some ex_fpending)),
      (FReqTransfer [2] ex_farg, Some (1, Some 20, Some ex_fpending))]"
    and w: "fs_payout_nonce (fw_state w) = 2" "fs_last_processed_funding_tx_id (fw_state w) = Some 20"
    using ex_main_tick by (elim exE conjE) (rule that; assumption)
  have h: "f_fire_timer ex_fenv (FMainInterval 600) \<in> f_handlers ex_fenv" by (simp add: f_handlers_def)
  have reached: "f_run ex_fenv w [] log" using ex_frun0 h run by (rule f_run_handler)
  obtain wu w3 w4 wn w2 w1 post where log: "log = (wu, FReqUpdateSettings (controller_update_settings [9]
        (normalize_controllers (fe_cx ex_fenv) [[9]]))) # (w3, FReqIndex [3] [1] None 500) #
      (w4, FReqBalanceOf [2] \<lparr>acc_owner = [1], acc_subaccount = None\<rparr>) # (wn, FReqNotify [14] [97] 55) #
      (w2, FReqTransfer [2] ex_farg) # (w1, FReqTransfer [2] ex_farg) # post"
    using reqs by (auto simp: map_eq_Cons_conv)
  obtain j1 j2 where j: "fs_active_payout_job (fw_state w1) = Some j1" "fs_active_payout_job (fw_state w2) = Some j2"
    "pj_id j1 = 1" "pj_id j2 = 1" "pj_funding_tx_id j1 = Some 20" "pj_funding_tx_id j2 = Some 20"
    "pj_pending_transfer j1 = Some ex_fpending" "pj_pending_transfer j2 = Some ex_fpending"
    using glance by (auto simp: log job_glance_def)
  let ?mid = "[(w3, FReqIndex [3] [1] None 500),
      (w4, FReqBalanceOf [2] \<lparr>acc_owner = [1], acc_subaccount = None\<rparr>)]"
  show thesis
    by (rule that [OF _ w j refl, of wu ?mid wn post]) (use reached in \<open>simp add: log\<close>)
qed

section \<open>Witnesses\<close>

theorem faucet_transfers_within_tranche_witness:
  "\<exists>w log wq j. f_run ex_fenv w [] log \<and> (wq, FReqTransfer [2] ex_farg) \<in> set log \<and>
     fs_active_payout_job (fw_state wq) = Some j \<and>
     unat (pj_gross_outflow_e8s j) + 200000000 \<le> unat (pj_pot_start_e8s j)"
proof -
  obtain w w2 w1 wu wn pre mid post j1 j2 where run: "f_run ex_fenv w [] (pre @ (w2, FReqTransfer [2] ex_farg)
      # [] @ (w1, FReqTransfer [2] ex_farg) # post)" and j: "fs_active_payout_job (fw_state w1) = Some j1"
    "pj_pending_transfer j1 = Some ex_fpending"
    by (rule ex_frun)
  have sent: "(w1, FReqTransfer [2] ex_farg) \<in> set (pre @ (w2, FReqTransfer [2] ex_farg)
      # [] @ (w1, FReqTransfer [2] ex_farg) # post)" by simp
  have "unat (pj_gross_outflow_e8s j1) + 200000000 \<le> unat (pj_pot_start_e8s j1)"
    using faucet_transfers_within_tranche [OF run sent] j by (auto simp: ex_fpending_def)
  with run sent j(1) show ?thesis by blast
qed

theorem faucet_tranche_paid_once_witness:
  "\<exists>w w2 w1 pre post (j1 :: payout_job) (j2 :: payout_job). f_run ex_fenv w [] (pre @ (w2, FReqTransfer [2] ex_farg) # []
      @ (w1, FReqTransfer [2] ex_farg) # post) \<and> pj_funding_tx_id j1 = Some 20 \<and>
     pj_pot_start_e8s j1 = pj_pot_start_e8s j2 \<and> pj_fee_e8s j1 = pj_fee_e8s j2"
proof -
  obtain w w2 w1 wu wn pre mid post j1 j2 where run: "f_run ex_fenv w [] (pre @ (w2, FReqTransfer [2] ex_farg)
      # [] @ (w1, FReqTransfer [2] ex_farg) # post)" "fs_payout_nonce (fw_state w) = 2"
    and j: "fs_active_payout_job (fw_state w1) = Some j1" "fs_active_payout_job (fw_state w2) = Some j2"
    "pj_funding_tx_id j1 = Some 20" "pj_funding_tx_id j2 = Some 20"
    by (rule ex_frun)
  have "fs_payout_nonce (fw_state w) \<noteq> u_max" using run(2) by simp
  from faucet_tranche_paid_once [OF run(1) this j(1,2)]
  have "pj_pot_start_e8s j1 = pj_pot_start_e8s j2" "pj_fee_e8s j1 = pj_fee_e8s j2" using j(3,4) by simp_all
  with run(1) j(3) show ?thesis by blast
qed

theorem faucet_transfer_retry_identity_witness:
  "\<exists>w w2 w1 pre post a1 a2. f_run ex_fenv w [] (pre @ (w2, FReqTransfer [2] a2) # []
      @ (w1, FReqTransfer [2] a1) # post) \<and> (a1 = a2 \<and> [2 :: u8] = [2])"
proof -
  obtain w w2 w1 wu wn pre mid post j1 j2 where run: "f_run ex_fenv w [] (pre @ (w2, FReqTransfer [2] ex_farg)
      # [] @ (w1, FReqTransfer [2] ex_farg) # post)" "fs_payout_nonce (fw_state w) = 2"
    and j: "fs_active_payout_job (fw_state w1) = Some j1" "fs_active_payout_job (fw_state w2) = Some j2"
    "pj_id j1 = 1" "pj_id j2 = 1"
    "pj_pending_transfer j1 = Some ex_fpending" "pj_pending_transfer j2 = Some ex_fpending"
    by (rule ex_frun)
  have "fs_payout_nonce (fw_state w) \<noteq> u_max" "pj_id j1 = pj_id j2"
    "pj_pending_transfer j1 = pj_pending_transfer j2" using run(2) j(3-6) by simp_all
  from faucet_transfer_retry_identity [OF run(1) this(1) j(1,2) this(2,3)] run(1) show ?thesis by blast
qed


theorem faucet_keeps_control_witness:
  "\<exists>w log wu arg. f_run ex_fenv w [] log \<and> (wu, FReqUpdateSettings arg) \<in> set log \<and>
     us_canister_id arg = fw_self wu"
proof -
  obtain w w2 w1 wu wn pre mid post j1 j2 where run: "f_run ex_fenv w [] (pre @ (w2, FReqTransfer [2] ex_farg)
      # [] @ (w1, FReqTransfer [2] ex_farg) # post)"
    and pre: "pre = (wu, FReqUpdateSettings (controller_update_settings [9]
        (normalize_controllers (fe_cx ex_fenv) [[9]]))) # mid @ [(wn, FReqNotify [14] [97] 55)]"
    by (rule ex_frun)
  have sent: "(wu, FReqUpdateSettings (controller_update_settings [9]
        (normalize_controllers (fe_cx ex_fenv) [[9]]))) \<in> set (pre @ (w2, FReqTransfer [2] ex_farg)
      # [] @ (w1, FReqTransfer [2] ex_farg) # post)" by (simp add: pre)
  from faucet_keeps_control [OF run sent] run sent show ?thesis by blast
qed


theorem faucet_payout_run_never_panics_witness:
  "rg False (f_inv ex_fenv) f_rel (\<lambda>_ _. True) (\<lambda>_ _. True)
     (process_payout_with_lease (run_ctx ex_fenv ex_fconfig [5] 100000000000000
        \<lparr>tlg_active = True, tlg_expires = 100900\<rparr>) ex_fworld) ex_fworld"
proof -
  have "f_inv ex_fenv ex_fworld" by (rule f_installed_inv [OF ex_finstalled])
  moreover have "pc_ok (run_ctx ex_fenv ex_fconfig [5] 100000000000000
        \<lparr>tlg_active = True, tlg_expires = 100900\<rparr>) ex_fworld"
    by (simp add: pc_ok_def run_ctx_def ex_fworld_def f_fresh_def fstate_new_def ex_fconfig_def)
  ultimately show ?thesis by (rule faucet_payout_run_never_panics)
qed

theorem faucet_state_invariant_witness:
  "\<exists>w :: fworld. fs_payout_nonce (fw_state w) = 2 \<and> fw_stable w = Some (fw_state w) \<and> smap_ok (fw_skip w)"
proof -
  obtain w w2 w1 wu wn pre mid post j1 j2 where run: "f_run ex_fenv w [] (pre @ (w2, FReqTransfer [2] ex_farg)
      # [] @ (w1, FReqTransfer [2] ex_farg) # post)" "fs_payout_nonce (fw_state w) = 2"
    by (rule ex_frun)
  have "fw_stable w = Some (fw_state w)" "smap_ok (fw_skip w)" using faucet_state_invariant [OF run(1)] by simp_all
  with run(2) show ?thesis by (intro exI [of _ w] conjI)
qed

theorem faucet_upgrade_keeps_history_witness:
  "\<exists>w'. f_post_upgrade ex_fenv None ex_fworld = Some w' \<and> fs_active_payout_job (fw_state w') = None \<and>
     fw_skip w' = []"
proof -
  have "fs_active_payout_job (fw_state ex_fworld) = None" "fw_stable ex_fworld = Some (fw_state ex_fworld)"
    "faucet_validate_config (fe_cx ex_fenv) (fw_self ex_fworld) (fs_config (fw_state ex_fworld)) = Inr ()"
    using f_installed_inv [OF ex_finstalled]
    by (simp_all add: f_inv_def f_st_inv_def) (simp add: ex_fworld_def f_fresh_def fstate_new_def)
  then obtain w' where up: "f_post_upgrade ex_fenv None ex_fworld = Some w'"
    by (simp add: f_post_upgrade_def validate_upgrade_quiescence_def faucet_apply_upgrade_args_to_state_def)
  from faucet_upgrade_keeps_history [OF ex_frun0 up] up show ?thesis by blast
qed

definition ex_refund_world :: fworld where
  "ex_refund_world = ex_fworld\<lparr>fw_state := (fw_state ex_fworld)\<lparr>fs_active_payout_job :=
     Some ((payout_job_new 1 10000 200000000 100000000 100000000000000)\<lparr>pj_gross_outflow_e8s := 200000000,
       pj_pending_transfer := Some (accept_pending 55 ex_fpending)\<rparr>)\<rparr>\<rparr>"

theorem refund_fallback_conserves_tranche_witness:
  "\<exists>(w' :: fworld) j' px'. fs_active_payout_job (fw_state w') = Some j' \<and> pj_pending_transfer j' = Some px' \<and>
     unat (pn_gross_share_e8s (px_notification px')) + 4 * unat (10000 :: u64) = unat (200000000 :: u64)"
proof -
  have "fst (transition_refunded_beneficiary_to_raw_fallback 1 (accept_pending 55 ex_fpending) 10000
      100000000000000 ex_refund_world) = RefundStaged"
    by (simp add: transition_refunded_beneficiary_to_raw_fallback_def ex_refund_world_def accept_pending_def
        ex_fpending_def pending_transfer_matches_def owns_pending_def payout_job_new_def refund_credit_def
        checked_sub_def checked_mul_def fresh_transition_created_at_time_def next_created_at_def
        created_at_time_is_valid_for_ledger_def ledger_created_at_max_age_nanos_def sat_sub_def sat_add_def
        ledger_created_at_max_future_skew_nanos_def checked_add_def Let_def)
  then obtain w' where tr: "transition_refunded_beneficiary_to_raw_fallback 1 (accept_pending 55 ex_fpending)
      10000 100000000000000 ex_refund_world = (RefundStaged, w')" by (metis prod.collapse)
  obtain j where j: "fs_active_payout_job (fw_state ex_refund_world) = Some j" by (simp add: ex_refund_world_def)
  obtain j' px' where "fs_active_payout_job (fw_state w') = Some j'" "pj_pending_transfer j' = Some px'"
    "unat (pn_gross_share_e8s (px_notification px')) + 4 * unat (10000 :: u64)
      = unat (pn_gross_share_e8s (px_notification (accept_pending 55 ex_fpending)))"
    using refund_fallback_conserves_tranche [OF tr j] by (elim exE conjE) (rule that; assumption)
  then show ?thesis
    by (intro exI [of _ w'] exI [of _ j'] exI [of _ px'] conjI) (simp_all add: accept_pending_def ex_fpending_def)
qed

end
