(* ===== verification/AccountId.thy ===== *)
theory AccountId
  imports Accounts
begin

text \<open>
  Ledger account identifiers (\<open>crates/ic-clients/src/account_identifier.rs\<close>), post-upgrade argument
  decoding (\<open>crates/ic-clients/src/lifecycle.rs\<close>) and persistence batching
  (\<open>crates/persistence-batch/src/lib.rs\<close>).  The hash functions and the Candid decoder belong to
  other crates and are parameters.
\<close>

section \<open>Account identifiers\<close>

text \<open>\<open>sha2::Sha224\<close> and \<open>crc32fast::hash\<close> of a byte string.\<close>

record hash_ops =
  hash_sha224 :: "bytes \<Rightarrow> bytes"
  hash_crc32 :: "bytes \<Rightarrow> u32"

text \<open>What the code relies on: a SHA-224 digest has 28 bytes (the type of the digest says so).\<close>

definition digest_length :: "hash_ops \<Rightarrow> bool" where
  "digest_length h \<longleftrightarrow> (\<forall>bs. length (hash_sha224 h bs) = 28)"

definition u32_to_be_bytes :: "u32 \<Rightarrow> bytes" where
  "u32_to_be_bytes x = map (\<lambda>i. word_of_nat (unat x div 256 ^ i)) [3, 2, 1, 0]"

definition account_identifier_bytes :: "hash_ops \<Rightarrow> principal \<Rightarrow> subaccount option \<Rightarrow> bytes" where
  "account_identifier_bytes h owner subaccount =
     (let sub = case_option (replicate 32 0) id subaccount;
          hash = hash_sha224 h (10 # ascii ''account-id'' @ owner @ sub)
      in u32_to_be_bytes (hash_crc32 h hash) @ hash)"

text \<open>\<open>hex::encode\<close>, and the textual form.\<close>

definition hex_digit :: "nat \<Rightarrow> u8" where
  "hex_digit n = (if n < 10 then word_of_nat (48 + n) else word_of_nat (87 + n))"

definition hex_encode :: "bytes \<Rightarrow> bytes" where
  "hex_encode bs = concat (map (\<lambda>b. [hex_digit (unat b div 16), hex_digit (unat b mod 16)]) bs)"

definition account_identifier_text :: "hash_ops \<Rightarrow> principal \<Rightarrow> subaccount option \<Rightarrow> bytes" where
  "account_identifier_text h owner subaccount =
     hex_encode (account_identifier_bytes h owner subaccount)"

definition account_identifier_text_for_account :: "hash_ops \<Rightarrow> account \<Rightarrow> bytes" where
  "account_identifier_text_for_account h a =
     account_identifier_text h (acc_owner a) (acc_subaccount a)"

lemma length_account_identifier_bytes [simp]:
  "digest_length h \<Longrightarrow> length (account_identifier_bytes h owner sub) = 32"
  by (simp add: account_identifier_bytes_def digest_length_def u32_to_be_bytes_def Let_def)

text \<open>The text of an identifier determines its bytes.\<close>

lemma hex_digit_unat: "n < 16 \<Longrightarrow> unat (hex_digit n) = (if n < 10 then 48 + n else 87 + n)"
  by (simp add: hex_digit_def unat_of_nat del: of_nat_add)

lemma hex_digit_inject: "m < 16 \<Longrightarrow> n < 16 \<Longrightarrow> hex_digit m = hex_digit n \<longleftrightarrow> m = n"
proof
  assume n: "m < 16" "n < 16" and "hex_digit m = hex_digit n"
  then have "unat (hex_digit m) = unat (hex_digit n)" by simp
  with n show "m = n"
    by (cases "m < 10"; cases "n < 10") (simp_all add: hex_digit_unat del: of_nat_add)
qed simp

lemma hex_pair_inject:
  "hex_digit (unat b div 16) = hex_digit (unat c div 16) \<and>
   hex_digit (unat b mod 16) = hex_digit (unat c mod 16) \<longleftrightarrow> b = c" for b c :: u8
proof -
  have "unat b div 16 < 16" "unat c div 16 < 16"
    using u8_lt [of b] u8_lt [of c] by (simp_all add: less_mult_imp_div_less)
  then have "hex_digit (unat b div 16) = hex_digit (unat c div 16) \<and>
      hex_digit (unat b mod 16) = hex_digit (unat c mod 16) \<longleftrightarrow>
      unat b div 16 = unat c div 16 \<and> unat b mod 16 = unat c mod 16"
    by (simp add: hex_digit_inject)
  also have "\<dots> \<longleftrightarrow> unat b = unat c" by (metis div_mult_mod_eq)
  finally show ?thesis by (simp add: word_unat_eq_iff)
qed

lemma hex_encode_inject: "hex_encode bs = hex_encode cs \<longleftrightarrow> bs = cs"
proof (induction bs arbitrary: cs)
  case Nil
  then show ?case by (cases cs) (simp_all add: hex_encode_def)
next
  case (Cons b bs)
  show ?case
  proof (cases cs)
    case (Cons c cs')
    then show ?thesis using Cons.IH [of cs'] hex_pair_inject [of b c] by (auto simp: hex_encode_def)
  qed (simp add: hex_encode_def)
qed

section \<open>Upgrade arguments\<close>

text \<open>
  \<open>zero_args\<close> is Candid's encoding of no arguments; \<open>decode_init\<close> and \<open>decode_upgrade\<close>
  are \<open>candid::decode_one\<close> at the canister's two argument types.  The result type is
  \<open>Result<Option<UpgradeArgs>, String>\<close>, with the two messages as constructors.
\<close>

datatype upgrade_args_error = ReceivedInitArgs bytes | UndecodableUpgradeArgs bytes

definition decode_post_upgrade_args :: "bytes \<Rightarrow> (bytes \<Rightarrow> 'i option) \<Rightarrow> (bytes \<Rightarrow> 'u option option)
    \<Rightarrow> bytes \<Rightarrow> bytes \<Rightarrow> upgrade_args_error + 'u option" where
  "decode_post_upgrade_args zero_args decode_init decode_upgrade canister_name raw =
     (if raw = [] \<or> raw = zero_args then Inr None
      else if decode_init raw \<noteq> None then Inl (ReceivedInitArgs canister_name)
      else case decode_upgrade raw of
          None \<Rightarrow> Inl (UndecodableUpgradeArgs canister_name)
        | Some args \<Rightarrow> Inr args)"

text \<open>Bytes that decode as install arguments never reach an upgrade, unless they are the empty
  encoding.\<close>

lemma upgrade_args_not_init:
  "decode_post_upgrade_args zero di du name raw = Inr (Some args)
     \<Longrightarrow> di raw = None \<and> du raw = Some (Some args)"
  by (auto simp: decode_post_upgrade_args_def split: if_splits option.splits)

section \<open>Persistence batches\<close>

definition batch_is_active :: "u32 \<Rightarrow> bool" where
  "batch_is_active depth \<longleftrightarrow> depth > 0"

definition begin_depth :: "u32 \<Rightarrow> u32" where
  "begin_depth depth = sat_add depth 1"

text \<open>\<open>None\<close> is the failed assertion.\<close>

definition finish_depth :: "u32 \<Rightarrow> bool \<Rightarrow> (u32 \<times> bool) option" where
  "finish_depth depth dirty =
     (if depth > 0 then let next_depth = depth - 1 in Some (next_depth, next_depth = 0 \<and> dirty)
      else None)"

text \<open>A guard and its drop: whether the drop callback runs, and the guard afterwards.\<close>

record persistence_batch =
  pb_active :: bool
  pb_on_drop :: bool

definition persistence_batch_new :: persistence_batch where
  "persistence_batch_new = \<lparr>pb_active = True, pb_on_drop = True\<rparr>"

definition persistence_batch_drop :: "persistence_batch \<Rightarrow> bool \<times> persistence_batch" where
  "persistence_batch_drop b =
     (if \<not> pb_active b then (False, b) else (pb_on_drop b, b\<lparr>pb_active := False\<rparr>))"

text \<open>Nested batches: a begin that did not saturate is undone by its finish, which flushes exactly
  when it closes the outermost dirty batch.\<close>

lemma finish_begin:
  assumes "depth \<noteq> u_max"
  shows "finish_depth (begin_depth depth) dirty = Some (depth, depth = 0 \<and> dirty)"
proof -
  have "unat depth \<noteq> 2 ^ 32 - 1" using assms by (auto simp: word_unat_eq_iff)
  then have "unat depth + 1 < 2 ^ 32" using unat_lt [of depth] by simp
  then have "begin_depth depth = depth + 1" "unat (depth + 1) = unat depth + 1"
    by (simp_all add: begin_depth_def sat_add_def unat_word_ariths)
  then show ?thesis by (simp add: finish_depth_def word_less_nat_alt Let_def)
qed

lemma batch_flushes_once:
  "persistence_batch_drop (snd (persistence_batch_drop b)) = (False, snd (persistence_batch_drop b))"
  by (simp add: persistence_batch_drop_def)

end
