(* ===== verification/SnsState.thy ===== *)
theory SnsState
  imports Async Lease AccountId "HOL-Library.AList" "HOL-Library.List_Lexorder"
begin

text \<open>
  The SNS rewards canister (\<open>src/canisters/sns-rewards/src\<close>): the neurons it reads, the choice of a
  neuron's owner (\<open>policy.rs\<close>), its state with the two owner indexes (\<open>state.rs\<close>) and the
  queries (\<open>lib.rs\<close>).
\<close>

section \<open>Neurons and their owner\<close>

text \<open>\<open>NeuronId\<close> is its byte string.\<close>

record sns_permission =
  np_principal :: "principal option"
  np_types :: "u32 list" \<comment> \<open>\<open>Vec<i32>\<close>, read only for equality\<close>

record sns_neuron =
  sn_id :: "bytes option"
  sn_permissions :: "sns_permission list"
  sn_stake_e8s :: u64
  sn_fees_e8s :: u64

definition sns_owner_scan_interval_seconds :: u64 where
  "sns_owner_scan_interval_seconds = 86400"

definition sns_neuron_page_size :: u32 where
  "sns_neuron_page_size = 100"

definition sns_owner_scan_max_pages :: u32 where
  "sns_owner_scan_max_pages = 10000"

definition max_account_lookups_per_call :: nat where
  "max_account_lookups_per_call = 128"

definition scan_lease_seconds :: u64 where
  "scan_lease_seconds = 30 * 60"

definition effective_stake_is_positive :: "sns_neuron \<Rightarrow> bool" where
  "effective_stake_is_positive n \<longleftrightarrow> sat_sub (sn_stake_e8s n) (sn_fees_e8s n) > 0"

text \<open>\<open>by_principal\<close>: each principal with its set of permission types, as a list.\<close>

definition collect_permission ::
  "(principal \<times> u32 list) list \<Rightarrow> sns_permission \<Rightarrow> (principal \<times> u32 list) list" where
  "collect_permission by_principal permission = (case np_principal permission of
       None \<Rightarrow> by_principal
     | Some p \<Rightarrow> AList.map_default p (remdups (np_types permission))
         (\<lambda>ts. List.union (np_types permission) ts) by_principal)"

definition by_principal_of :: "sns_permission list \<Rightarrow> (principal \<times> u32 list) list" where
  "by_principal_of permissions = sort_key fst (foldl collect_permission [] permissions)"

text \<open>The comparison of \<open>max_by\<close> says \<open>Greater\<close>; on ties \<open>max_by\<close> keeps the later element.\<close>

definition owner_greater :: "principal \<times> u32 list \<Rightarrow> principal \<times> u32 list \<Rightarrow> bool" where
  "owner_greater l r \<longleftrightarrow> length (snd r) < length (snd l) \<or>
     length (snd l) = length (snd r) \<and> fst l < fst r"

fun max_by_owner :: "(principal \<times> u32 list) list \<Rightarrow> (principal \<times> u32 list) option" where
  "max_by_owner [] = None"
| "max_by_owner (x # xs) = Some (foldl (\<lambda>acc y. if owner_greater acc y then acc else y) x xs)"

definition select_owner :: "sns_permission list \<Rightarrow> principal option" where
  "select_owner permissions = map_option fst (max_by_owner (by_principal_of permissions))"

definition owner_for_neuron :: "sns_neuron \<Rightarrow> principal option" where
  "owner_for_neuron n =
     (if effective_stake_is_positive n then select_owner (sn_permissions n) else None)"

section \<open>State\<close>

record sns_config =
  sc_reward_sns_root :: "principal option"

datatype owner_slot = SlotA | SlotB

fun other_slot :: "owner_slot \<Rightarrow> owner_slot" where
  "other_slot SlotA = SlotB"
| "other_slot SlotB = SlotA"

record owner_snapshot =
  os_snapshot_id :: u64
  os_active_slot :: owner_slot
  os_root :: principal
  os_governance :: principal
  os_ledger :: principal
  os_started_at :: u64
  os_completed_at :: u64
  os_neuron_count :: u64
  os_owner_count :: u64

record owner_scan =
  oc_staging_slot :: owner_slot
  oc_root :: principal
  oc_governance :: principal
  oc_ledger :: principal
  oc_started_at :: u64
  oc_start_page_at :: "bytes option"
  oc_pages_processed :: u32
  oc_neurons_processed :: u64

record sns_state =
  ss_config :: sns_config
  ss_next_snapshot_id :: u64
  ss_active_snapshot :: "owner_snapshot option"
  ss_scan :: "owner_scan option"
  ss_last_scan_started_at :: u64
  ss_scan_lock :: "u64 option"

definition sns_state_new :: "sns_config \<Rightarrow> sns_state" where
  "sns_state_new config = \<lparr>ss_config = config, ss_next_snapshot_id = 1, ss_active_snapshot = None,
     ss_scan = None, ss_last_scan_started_at = 0, ss_scan_lock = Some 0\<rparr>"

text \<open>
  The canister: the clock (nanoseconds), the heap state and the persisted copy (\<open>None\<close> is
  \<open>Uninitialized\<close>), the two owner indexes as association lists from account identifiers, and
  the pending one-shot timers.  \<open>sw_next_timer\<close> is \<open>NEXT_SCAN_TIMER\<close> with its fire time and
  \<open>force\<close> flag; \<open>sw_continuations\<close> counts the zero-delay continuation timers.  The last two
  fields do not exist in the code: they record the neurons the running scan has accepted and
  those behind the active snapshot.
\<close>

record sns_world =
  sw_now :: u64
  sw_st :: sns_state
  sw_stable :: "sns_state option"
  sw_owners :: "owner_slot \<Rightarrow> (bytes \<times> principal) list"
  sw_next_timer :: "(nat \<times> bool) option"
  sw_continuations :: nat
  sw_scanned :: "sns_neuron list"
  sw_published :: "sns_neuron list"

definition sns_set_state :: "sns_state \<Rightarrow> sns_world \<Rightarrow> sns_world" where
  "sns_set_state st w = w\<lparr>sw_st := st, sw_stable := Some st\<rparr>"

definition sns_with_state_mut :: "(sns_state \<Rightarrow> sns_state) \<Rightarrow> sns_world \<Rightarrow> sns_world" where
  "sns_with_state_mut f w = sns_set_state (f (sw_st w)) w"

definition sns_restore :: "sns_world \<Rightarrow> sns_state option" where
  "sns_restore w = sw_stable w"

definition clear_slot :: "owner_slot \<Rightarrow> sns_world \<Rightarrow> sns_world" where
  "clear_slot slot w = w\<lparr>sw_owners := (sw_owners w)(slot := [])\<rparr>"

definition clear_all_owners :: "sns_world \<Rightarrow> sns_world" where
  "clear_all_owners w = clear_slot SlotB (clear_slot SlotA w)"

definition insert_owner :: "hash_ops \<Rightarrow> owner_slot \<Rightarrow> principal \<Rightarrow> sns_world \<Rightarrow> sns_world" where
  "insert_owner h slot owner w = w\<lparr>sw_owners := (sw_owners w)(slot :=
     AList.update (account_identifier_bytes h owner None) owner (sw_owners w slot))\<rparr>"

definition lookup_owner :: "owner_slot \<Rightarrow> bytes \<Rightarrow> sns_world \<Rightarrow> principal option" where
  "lookup_owner slot account_identifier w = map_of (sw_owners w slot) account_identifier"

definition slot_len :: "owner_slot \<Rightarrow> sns_world \<Rightarrow> u64" where
  "slot_len slot w = word_of_nat (length (sw_owners w slot))"

definition invalidate_for_root :: "principal option \<Rightarrow> sns_world \<Rightarrow> sns_world" where
  "invalidate_for_root root w = sns_with_state_mut
     (\<lambda>st. st\<lparr>ss_config := (ss_config st)\<lparr>sc_reward_sns_root := root\<rparr>, ss_active_snapshot := None,
        ss_scan := None, ss_last_scan_started_at := 0, ss_scan_lock := Some 0\<rparr>)
     (clear_all_owners w)"

section \<open>Queries\<close>

record relay_reward_context =
  rc_root :: principal
  rc_governance :: principal
  rc_ledger :: principal
  rc_snapshot_id :: u64
  rc_started_at :: u64
  rc_completed_at :: u64

definition context_from_state :: "sns_world \<Rightarrow> relay_reward_context option" where
  "context_from_state w = (case sc_reward_sns_root (ss_config (sw_st w)) of
       None \<Rightarrow> None
     | Some configured_root \<Rightarrow> (case ss_active_snapshot (sw_st w) of
         None \<Rightarrow> None
       | Some s \<Rightarrow> if os_root s \<noteq> configured_root then None
           else Some \<lparr>rc_root = os_root s, rc_governance = os_governance s, rc_ledger = os_ledger s,
             rc_snapshot_id = os_snapshot_id s, rc_started_at = os_started_at s,
             rc_completed_at = os_completed_at s\<rparr>))"

record resolve_args =
  ra_snapshot_id :: u64
  ra_account_identifiers :: "bytes list"

datatype resolve_result =
    ResolveOk "principal option list"
  | SnapshotChanged
  | TooManyAccounts
  | InvalidAccountIdentifier u32

fun first_malformed :: "nat \<Rightarrow> bytes list \<Rightarrow> nat option" where
  "first_malformed i [] = None"
| "first_malformed i (x # xs) = (if length x \<noteq> 32 then Some i else first_malformed (Suc i) xs)"

definition resolve_default_icp_accounts :: "resolve_args \<Rightarrow> sns_world \<Rightarrow> resolve_result" where
  "resolve_default_icp_accounts args w =
     (if length (ra_account_identifiers args) > max_account_lookups_per_call then TooManyAccounts
      else case first_malformed 0 (ra_account_identifiers args) of
        Some index \<Rightarrow> InvalidAccountIdentifier (word_of_nat index)
      | None \<Rightarrow> (case ss_active_snapshot (sw_st w) of
          None \<Rightarrow> SnapshotChanged
        | Some snapshot \<Rightarrow>
            if os_snapshot_id snapshot \<noteq> ra_snapshot_id args then SnapshotChanged
            else ResolveOk (map (\<lambda>identifier. lookup_owner (os_active_slot snapshot) identifier w)
              (ra_account_identifiers args))))"

section \<open>Choosing the owner\<close>

text \<open>The permission types a principal holds in a list of permissions.\<close>

definition held_types :: "principal \<Rightarrow> sns_permission list \<Rightarrow> u32 set" where
  "held_types p ps = (\<Union>permission \<in> {x \<in> set ps. np_principal x = Some p}. set (np_types permission))"

definition holders :: "sns_permission list \<Rightarrow> principal set" where
  "holders ps = {p. \<exists>x\<in>set ps. np_principal x = Some p}"

lemma held_types_snoc:
  "held_types p (ps @ [x]) =
     (if np_principal x = Some p then held_types p ps \<union> set (np_types x) else held_types p ps)"
  by (auto simp: held_types_def)

lemma holders_snoc:
  "holders (ps @ [x]) = (case np_principal x of None \<Rightarrow> holders ps | Some p \<Rightarrow> insert p (holders ps))"
  by (auto simp: holders_def split: option.splits)

lemma held_types_not_holder: "p \<notin> holders ps \<Longrightarrow> held_types p ps = {}"
  by (auto simp: held_types_def holders_def)

text \<open>The collected list has each holder once, with its permission types without repetition.\<close>

definition collected :: "sns_permission list \<Rightarrow> (principal \<times> u32 list) list \<Rightarrow> bool" where
  "collected ps m \<longleftrightarrow> distinct (map fst m) \<and> fst ` set m = holders ps \<and>
     (\<forall>(p, ts) \<in> set m. distinct ts \<and> set ts = held_types p ps)"

lemma collect_permissions_collected: "collected ps (foldl collect_permission [] ps)"
proof (induction ps rule: rev_induct)
  case Nil
  then show ?case by (simp add: collected_def holders_def)
next
  case (snoc x ps)
  let ?m = "foldl collect_permission [] ps"
  have IH: "distinct (map fst ?m)" "fst ` set ?m = holders ps"
    "\<And>p ts. (p, ts) \<in> set ?m \<Longrightarrow> distinct ts \<and> set ts = held_types p ps"
    using snoc unfolding collected_def by auto
  show ?case
  proof (cases "np_principal x")
    case None
    then show ?thesis
      using IH unfolding collected_def foldl_append
      by (auto simp: collect_permission_def holders_snoc held_types_snoc)
  next
    case (Some p)
    let ?f = "\<lambda>ts. List.union (np_types x) ts"
    let ?m' = "AList.map_default p (remdups (np_types x)) ?f ?m"
    have m': "foldl collect_permission [] (ps @ [x]) = ?m'" by (simp add: collect_permission_def Some)
    have d: "distinct (map fst ?m')" using IH(1) by (rule distinct_map_default)
    have look: "map_of ?m' = (map_of ?m)(p \<mapsto> (case map_of ?m p of None \<Rightarrow> remdups (np_types x) | Some ts \<Rightarrow> ?f ts))"
      by (simp add: map_of_map_default split: option.split)
    have keys: "fst ` set ?m' = insert p (holders ps)"
      using IH(2) by (simp add: dom_map_default)
    have vals: "distinct ts \<and> set ts = held_types q (ps @ [x])" if "(q, ts) \<in> set ?m'" for q ts
    proof -
      have q: "map_of ?m' q = Some ts" using d that by simp
      show ?thesis
      proof (cases "q = p")
        case False
        then have "map_of ?m q = Some ts" using q look by simp
        then have "(q, ts) \<in> set ?m" by (rule map_of_SomeD)
        then show ?thesis using IH(3) False Some by (simp add: held_types_snoc)
      next
        case True
        show ?thesis
        proof (cases "map_of ?m p")
          case None
          then have "p \<notin> holders ps" using IH(2) by (simp add: map_of_eq_None_iff)
          then have "held_types p ps = {}" by (rule held_types_not_holder)
          moreover have "ts = remdups (np_types x)" using q look None True by simp
          ultimately show ?thesis using True Some by (simp add: held_types_snoc)
        next
          case (Some ts')
          then have "distinct ts' \<and> set ts' = held_types p ps" using IH(3) by (auto dest: map_of_SomeD)
          moreover have "ts = ?f ts'" using q look Some True by simp
          ultimately show ?thesis using True \<open>np_principal x = Some p\<close>
            by (simp add: held_types_snoc Un_commute)
        qed
      qed
    qed
    have "holders (ps @ [x]) = insert p (holders ps)" by (simp add: holders_snoc Some)
    then show ?thesis unfolding m' collected_def using d keys vals by blast
  qed
qed

lemma by_principal_collected: "collected ps (by_principal_of ps)"
  using collect_permissions_collected [of ps]
  by (simp add: collected_def by_principal_of_def distinct_map inj_on_def)

lemma owner_greater_trans: "owner_greater a b \<Longrightarrow> owner_greater b c \<Longrightarrow> owner_greater a c"
  by (auto simp: owner_greater_def)

lemma owner_greater_total: "fst a \<noteq> fst b \<Longrightarrow> owner_greater a b \<or> owner_greater b a"
  by (auto simp: owner_greater_def)

abbreviation keep_greater :: "principal \<times> u32 list \<Rightarrow> principal \<times> u32 list \<Rightarrow> principal \<times> u32 list" where
  "keep_greater acc y \<equiv> if owner_greater acc y then acc else y"

lemma max_by_owner_fold:
  assumes "distinct (map fst (x # xs))"
  shows "foldl keep_greater x xs \<in> set (x # xs) \<and>
    (\<forall>y\<in>set (x # xs). y \<noteq> foldl keep_greater x xs \<longrightarrow> owner_greater (foldl keep_greater x xs) y)"
  using assms
proof (induction xs arbitrary: x)
  case Nil
  then show ?case by simp
next
  case (Cons y ys)
  have step: "foldl keep_greater x (y # ys) = foldl keep_greater a ys \<and>
      distinct (map fst (a # ys)) \<and> {a, b} = {x, y} \<and> owner_greater a b"
    if "(a, b) = (if owner_greater x y then (x, y) else (y, x))" for a b
    using that Cons.prems owner_greater_total [of x y] by (cases "owner_greater x y") auto
  obtain a b where ab: "(a, b) = (if owner_greater x y then (x, y) else (y, x))" by (metis surj_pair)
  note step = step [OF ab]
  define r where "r = foldl keep_greater a ys"
  have IH: "r \<in> set (a # ys)" "\<forall>z\<in>set (a # ys). z \<noteq> r \<longrightarrow> owner_greater r z"
    using Cons.IH [of a] step unfolding r_def by blast+
  have "owner_greater r b"
  proof (cases "a = r")
    case True
    then show ?thesis using step by simp
  next
    case False
    then have "owner_greater r a" using IH by simp
    then show ?thesis using step owner_greater_trans by blast
  qed
  moreover have "set (x # y # ys) = insert b (set (a # ys))" using step by (simp add: insert_commute) blast
  ultimately show ?case using IH step unfolding r_def by simp
qed

lemma max_by_owner_Some:
  assumes "distinct (map fst m)" and "max_by_owner m = Some z"
  shows "z \<in> set m \<and> (\<forall>y\<in>set m. y \<noteq> z \<longrightarrow> owner_greater z y)"
proof (cases m)
  case Nil
  then show ?thesis using assms(2) by simp
next
  case (Cons x xs)
  with assms(2) have "z = foldl keep_greater x xs" by simp
  then show ?thesis using max_by_owner_fold [of x xs] assms(1) unfolding Cons by blast
qed

lemma max_by_owner_None [simp]: "max_by_owner m = None \<longleftrightarrow> m = []"
  by (cases m) simp_all

lemma select_owner_None: "select_owner ps = None \<longleftrightarrow> holders ps = {}"
  using by_principal_collected [of ps] by (auto simp: select_owner_def collected_def)

lemma select_owner_best:
  assumes "select_owner ps = Some p"
  shows "p \<in> holders ps \<and> (\<forall>q\<in>holders ps. q \<noteq> p \<longrightarrow>
    card (held_types q ps) < card (held_types p ps) \<or>
    card (held_types q ps) = card (held_types p ps) \<and> p < q)"
proof -
  let ?m = "by_principal_of ps"
  have m: "distinct (map fst ?m)" "fst ` set ?m = holders ps"
    "\<And>q ts. (q, ts) \<in> set ?m \<Longrightarrow> distinct ts \<and> set ts = held_types q ps"
    using by_principal_collected [of ps] unfolding collected_def by auto
  have len: "length ts = card (held_types q ps)" if "(q, ts) \<in> set ?m" for q ts
    using m(3) [OF that] distinct_card [of ts] by simp
  obtain ts where z: "max_by_owner ?m = Some (p, ts)"
    using assms by (auto simp: select_owner_def)
  note best = max_by_owner_Some [OF m(1) z]
  have "card (held_types q ps) < card (held_types p ps) \<or>
    card (held_types q ps) = card (held_types p ps) \<and> p < q" if "q \<in> holders ps" "q \<noteq> p" for q
  proof -
    from that(1) obtain us where us: "(q, us) \<in> set ?m" using m(2) by force
    with best that(2) have "owner_greater (p, ts) (q, us)" by blast
    then have "length us < length ts \<or> length us = length ts \<and> p < q"
      by (simp only: owner_greater_def fst_conv snd_conv) metis
    moreover have "(p, ts) \<in> set ?m" using best ..
    ultimately show ?thesis by (simp only: len [OF us] len)
  qed
  moreover have "p \<in> holders ps" using best unfolding m(2) [symmetric] by force
  ultimately show ?thesis by blast
qed

lemma select_owner_unique:
  assumes "p \<in> holders ps" and best: "\<forall>q\<in>holders ps. q \<noteq> p \<longrightarrow>
    card (held_types q ps) < card (held_types p ps) \<or>
    card (held_types q ps) = card (held_types p ps) \<and> p < q"
  shows "select_owner ps = Some p"
proof -
  obtain p' where p': "select_owner ps = Some p'"
    using assms(1) select_owner_None [of ps] by (cases "select_owner ps") auto
  note best' = select_owner_best [OF p']
  have "p' = p"
  proof (rule ccontr)
    assume "p' \<noteq> p"
    with best best' assms(1) have
      "card (held_types p' ps) < card (held_types p ps) \<or>
        card (held_types p' ps) = card (held_types p ps) \<and> p < p'"
      "card (held_types p ps) < card (held_types p' ps) \<or>
        card (held_types p ps) = card (held_types p' ps) \<and> p' < p"
      by auto
    then show False by auto
  qed
  with p' show ?thesis by simp
qed

section \<open>The index of a list of neurons\<close>

definition index_neuron :: "hash_ops \<Rightarrow> (bytes \<times> principal) list \<Rightarrow> sns_neuron
    \<Rightarrow> (bytes \<times> principal) list" where
  "index_neuron h m n = (case owner_for_neuron n of None \<Rightarrow> m
     | Some owner \<Rightarrow> AList.update (account_identifier_bytes h owner None) owner m)"

definition owner_index :: "hash_ops \<Rightarrow> sns_neuron list \<Rightarrow> (bytes \<times> principal) list" where
  "owner_index h ns = foldl (index_neuron h) [] ns"

lemma owner_index_Nil [simp]: "owner_index h [] = []"
  by (simp add: owner_index_def)

lemma owner_index_append: "owner_index h (ns @ ms) = foldl (index_neuron h) (owner_index h ns) ms"
  by (simp add: owner_index_def)

text \<open>The owners of a list of neurons are what its index answers with.\<close>

definition owners_of :: "sns_neuron list \<Rightarrow> principal set" where
  "owners_of ns = {p. \<exists>n\<in>set ns. owner_for_neuron n = Some p}"

lemma owner_index_sound:
  "distinct (map fst (owner_index h ns)) \<and>
   (\<forall>a p. map_of (owner_index h ns) a = Some p \<longrightarrow>
      p \<in> owners_of ns \<and> a = account_identifier_bytes h p None) \<and>
   fst ` set (owner_index h ns) = (\<lambda>p. account_identifier_bytes h p None) ` owners_of ns"
proof (induction ns rule: rev_induct)
  case Nil
  then show ?case by (simp add: owners_of_def)
next
  case (snoc n ns)
  show ?case
  proof (cases "owner_for_neuron n")
    case None
    then have "owners_of (ns @ [n]) = owners_of ns" by (auto simp: owners_of_def)
    then show ?thesis using snoc None by (simp add: owner_index_append index_neuron_def)
  next
    case (Some p)
    then have "owners_of (ns @ [n]) = insert p (owners_of ns)" by (auto simp: owners_of_def)
    then show ?thesis using snoc Some
      by (auto simp: owner_index_append index_neuron_def distinct_update update_conv' dom_update
          simp flip: update_conv)
  qed
qed

end
