(* ===== verification/SnsScan.thy ===== *)
theory SnsScan
  imports SnsState
begin

text \<open>
  The owner scan of the SNS rewards canister (\<open>scheduler.rs\<close>) and its life cycle (\<open>lib.rs\<close>): a scan
  builds the owner index of the inactive slot page by page under a timer lease, and publishes it
  with the page that is not full.
\<close>

section \<open>Calls\<close>

record sns_canisters =
  lc_root :: "principal option"
  lc_governance :: "principal option"
  lc_ledger :: "principal option"

datatype sns_req =
    SReqListSnsCanisters principal \<comment> \<open>root\<close>
  | SReqListNeurons principal u32 "bytes option" \<comment> \<open>governance, limit, \<open>start_page_at\<close>\<close>

text \<open>\<open>None\<close> is a failed call or an undecodable reply; a vector that a 32-bit length cannot count
  does not decode.\<close>

datatype sns_resp =
    SRespCanisters "sns_canisters option"
  | SRespNeurons "sns_neuron list option"

fun resp_canisters :: "sns_resp \<Rightarrow> sns_canisters option" where
  "resp_canisters (SRespCanisters r) = r"
| "resp_canisters (SRespNeurons _) = None"

fun resp_neurons :: "sns_resp \<Rightarrow> sns_neuron list option" where
  "resp_neurons (SRespNeurons r) = (case r of None \<Rightarrow> None
     | Some neurons \<Rightarrow> if length neurons < 2 ^ 32 then Some neurons else None)"
| "resp_neurons (SRespCanisters _) = None"

type_synonym 'a sns_proc = "(sns_world, sns_req, sns_resp, 'a) proc"

section \<open>The scan guard\<close>

definition owns_scan :: "timer_lease_guard \<Rightarrow> principal \<Rightarrow> owner_scan option \<Rightarrow> sns_world \<Rightarrow> bool" where
  "owns_scan g root expected w \<longleftrightarrow>
     tlg_active g \<and> ss_scan_lock (sw_st w) = Some (tlg_expires g) \<and>
     sc_reward_sns_root (ss_config (sw_st w)) = Some root \<and> ss_scan (sw_st w) = expected"

definition scan_guard_acquire :: "u64 \<Rightarrow> sns_world \<Rightarrow> timer_lease_guard option \<times> sns_world" where
  "scan_guard_acquire now_secs w =
     (case tlg_acquire now_secs scan_lease_seconds (ss_scan_lock (sw_st w)) of
        None \<Rightarrow> (None, sns_with_state_mut (\<lambda>st. st) w)
      | Some g \<Rightarrow> (Some g, sns_with_state_mut (\<lambda>st. st\<lparr>ss_scan_lock := Some (tlg_expires g)\<rparr>) w))"

definition scan_guard_drop :: "timer_lease_guard \<Rightarrow> sns_world \<Rightarrow> sns_world" where
  "scan_guard_drop g w = (if \<not> tlg_active g then w
     else sns_with_state_mut (\<lambda>st. if fst (tlg_release g (ss_scan_lock st)) = Released
       then st\<lparr>ss_scan_lock := Some 0\<rparr> else st) w)"

section \<open>Timers\<close>

definition scan_start_retry_seconds :: nat where "scan_start_retry_seconds = 60"
definition scan_busy_recheck_seconds :: nat where "scan_busy_recheck_seconds = 60"
definition scan_page_failure_recheck_seconds :: nat where
  "scan_page_failure_recheck_seconds = 5 * 60"

text \<open>Delays are in nanoseconds; the timer that was pending is replaced.\<close>

definition schedule_scan_check :: "nat \<Rightarrow> bool \<Rightarrow> sns_world \<Rightarrow> sns_world" where
  "schedule_scan_check delay force w = w\<lparr>sw_next_timer := Some (unat (sw_now w) + delay, force)\<rparr>"

definition next_due_delay :: "u64 \<Rightarrow> u64 \<Rightarrow> nat" where
  "next_due_delay last_started_at now_nanos =
     (if last_started_at = 0 then 0
      else let due_at = sat_add last_started_at (sat_mul sns_owner_scan_interval_seconds 1000000000)
        in unat (sat_sub due_at now_nanos))"

definition schedule_next_due_check :: "u64 \<Rightarrow> sns_world \<Rightarrow> sns_world" where
  "schedule_next_due_check now_nanos w =
     schedule_scan_check (next_due_delay (ss_last_scan_started_at (sw_st w)) now_nanos) False w"

definition schedule_start_retry :: "sns_world \<Rightarrow> sns_world" where
  "schedule_start_retry = schedule_scan_check (scan_start_retry_seconds * 1000000000) False"

definition schedule_continuation :: "sns_world \<Rightarrow> sns_world" where
  "schedule_continuation w = w\<lparr>sw_continuations := Suc (sw_continuations w)\<rparr>"

definition sns_install_timers :: "bool \<Rightarrow> sns_world \<Rightarrow> sns_world" where
  "sns_install_timers debug_api = schedule_scan_check 0 debug_api"

section \<open>Starting a scan\<close>

datatype start_scan_result = StartStarted u64 | StartNotConfigured | StartStale | StartFailed

definition resolve_components :: "principal \<Rightarrow> sns_canisters \<Rightarrow> string + principal \<times> principal" where
  "resolve_components configured_root resolved =
     (if lc_root resolved \<noteq> Some configured_root then Inl ''resolved_root_mismatch''
      else case lc_governance resolved of
        None \<Rightarrow> Inl ''missing_governance''
      | Some governance \<Rightarrow> (case lc_ledger resolved of
          None \<Rightarrow> Inl ''missing_ledger''
        | Some ledger \<Rightarrow> Inr (governance, ledger)))"

text \<open>The tail of \<open>finish_start_scan\<close>: the inactive slot is cleared and the scan recorded.\<close>

definition begin_scan :: "principal \<Rightarrow> principal \<Rightarrow> principal \<Rightarrow> sns_world \<Rightarrow> start_scan_result \<times> sns_world" where
  "begin_scan root governance ledger w =
     (let staging_slot = (case ss_active_snapshot (sw_st w) of
            Some snapshot \<Rightarrow> other_slot (os_active_slot snapshot) | None \<Rightarrow> SlotA);
          w1 = (clear_slot staging_slot w)\<lparr>sw_scanned := []\<rparr>;
          now_nanos = sw_now w;
          scan = \<lparr>oc_staging_slot = staging_slot, oc_root = root, oc_governance = governance,
            oc_ledger = ledger, oc_started_at = now_nanos, oc_start_page_at = None,
            oc_pages_processed = 0, oc_neurons_processed = 0\<rparr>
      in (StartStarted now_nanos,
          sns_with_state_mut (\<lambda>st. st\<lparr>ss_last_scan_started_at := now_nanos, ss_scan := Some scan\<rparr>) w1))"

definition finish_start_scan :: "timer_lease_guard \<Rightarrow> principal \<Rightarrow> sns_canisters option \<Rightarrow> sns_world
    \<Rightarrow> start_scan_result \<times> sns_world" where
  "finish_start_scan g root response w =
     (if \<not> owns_scan g root None w then (StartStale, w)
      else case response of None \<Rightarrow> (StartFailed, w)
      | Some resolved \<Rightarrow> (case resolve_components root resolved of
          Inl reason \<Rightarrow> (StartFailed, w)
        | Inr (governance, ledger) \<Rightarrow> begin_scan root governance ledger w))"

definition start_scan :: "timer_lease_guard \<Rightarrow> sns_world \<Rightarrow> start_scan_result sns_proc" where
  "start_scan g w = (case sc_reward_sns_root (ss_config (sw_st w)) of
       None \<Rightarrow> Done w StartNotConfigured
     | Some root \<Rightarrow> Await w (SReqListSnsCanisters root) (\<lambda>r w'.
         case finish_start_scan g root (resp_canisters r) w' of (result, w'') \<Rightarrow> Done w'' result))"

section \<open>A page\<close>

datatype page_error = MissingNeuronId | MalformedNeuronId | NonProgressingCursor

fun validate_neurons :: "bytes option \<Rightarrow> sns_neuron list \<Rightarrow> page_error option" where
  "validate_neurons previous [] = None"
| "validate_neurons previous (n # ns) = (case sn_id n of
       None \<Rightarrow> Some MissingNeuronId
     | Some nid \<Rightarrow>
         if length nid \<noteq> 32 then Some MalformedNeuronId
         else if (case previous of None \<Rightarrow> False | Some cursor \<Rightarrow> nid \<le> cursor)
           then Some NonProgressingCursor
         else validate_neurons (Some nid) ns)"

definition validate_page :: "owner_scan \<Rightarrow> sns_neuron list \<Rightarrow> page_error + bytes option" where
  "validate_page scan neurons = (case validate_neurons (oc_start_page_at scan) neurons of
       Some e \<Rightarrow> Inl e
     | None \<Rightarrow> Inr (if neurons = [] then None else sn_id (last neurons)))"

definition fail_scan :: "sns_world \<Rightarrow> sns_world" where
  "fail_scan = sns_with_state_mut (\<lambda>st. st\<lparr>ss_scan := None\<rparr>)"

datatype page_result = PageInProgress | PageStale | PageCompleted | PageFailed

text \<open>The owners of the page's neurons go into the staging slot.\<close>

definition insert_page_owners :: "hash_ops \<Rightarrow> owner_slot \<Rightarrow> sns_neuron list \<Rightarrow> sns_world \<Rightarrow> sns_world" where
  "insert_page_owners h slot neurons w =
     foldl (\<lambda>w n. case owner_for_neuron n of None \<Rightarrow> w | Some owner \<Rightarrow> insert_owner h slot owner w)
       w neurons"

definition advance_scan :: "bytes option \<Rightarrow> nat \<Rightarrow> owner_scan \<Rightarrow> owner_scan" where
  "advance_scan next_cursor n current = current\<lparr>oc_pages_processed := oc_pages_processed current + 1,
     oc_neurons_processed := sat_add (oc_neurons_processed current) (word_of_nat n),
     oc_start_page_at := next_cursor\<rparr>"

text \<open>Publishing takes the scan; \<open>None\<close> is the failed \<open>expect\<close>.\<close>

definition publish_scan :: "u64 \<Rightarrow> sns_world \<Rightarrow> sns_world option" where
  "publish_scan now_nanos w = (case ss_scan (sw_st w) of
       None \<Rightarrow> None
     | Some completed \<Rightarrow>
         let snapshot = \<lparr>os_snapshot_id = ss_next_snapshot_id (sw_st w),
               os_active_slot = oc_staging_slot completed, os_root = oc_root completed,
               os_governance = oc_governance completed, os_ledger = oc_ledger completed,
               os_started_at = oc_started_at completed, os_completed_at = now_nanos,
               os_neuron_count = oc_neurons_processed completed,
               os_owner_count = slot_len (oc_staging_slot completed) w\<rparr>
         in Some (sns_with_state_mut (\<lambda>st. st\<lparr>ss_scan := None, ss_active_snapshot := Some snapshot,
              ss_next_snapshot_id := sat_add (ss_next_snapshot_id st) 1\<rparr>)
              (w\<lparr>sw_published := sw_scanned w\<rparr>)))"

text \<open>The part of \<open>finish_page\<close> after the validation; \<open>None\<close> is a panic.\<close>

definition accept_page :: "hash_ops \<Rightarrow> owner_scan \<Rightarrow> sns_neuron list \<Rightarrow> bytes option \<Rightarrow> u64 \<Rightarrow> bool
    \<Rightarrow> sns_world \<Rightarrow> (page_result \<times> sns_world) option" where
  "accept_page h scan neurons next_cursor now_nanos schedule_next_page w =
     (let w1 = (insert_page_owners h (oc_staging_slot scan) neurons w)
            \<lparr>sw_scanned := sw_scanned w @ neurons\<rparr>;
          is_final = length neurons < unat sns_neuron_page_size
      in case ss_scan (sw_st w1) of
          None \<Rightarrow> None
        | Some current \<Rightarrow>
            let updated = advance_scan next_cursor (length neurons) current;
                w2 = sns_with_state_mut (\<lambda>st. st\<lparr>ss_scan := Some updated\<rparr>) w1
            in if \<not> is_final then
                if sns_owner_scan_max_pages \<le> oc_pages_processed updated
                then Some (PageFailed, fail_scan w2)
                else Some (PageInProgress,
                  if schedule_next_page then schedule_continuation w2 else w2)
              else map_option (Pair PageCompleted) (publish_scan now_nanos w2))"

definition finish_page :: "hash_ops \<Rightarrow> timer_lease_guard \<Rightarrow> owner_scan \<Rightarrow> sns_neuron list option
    \<Rightarrow> u64 \<Rightarrow> bool \<Rightarrow> sns_world \<Rightarrow> (page_result \<times> sns_world) option" where
  "finish_page h g scan response now_nanos schedule_next_page w =
     (if \<not> owns_scan g (oc_root scan) (Some scan) w then Some (PageStale, w)
      else case response of None \<Rightarrow> Some (PageFailed, fail_scan w)
      | Some neurons \<Rightarrow> (case validate_page scan neurons of
          Inl e \<Rightarrow> Some (PageFailed, fail_scan w)
        | Inr next_cursor \<Rightarrow>
            accept_page h scan neurons next_cursor now_nanos schedule_next_page w))"

definition process_one_page :: "hash_ops \<Rightarrow> timer_lease_guard \<Rightarrow> u64 \<Rightarrow> bool \<Rightarrow> sns_world
    \<Rightarrow> page_result sns_proc" where
  "process_one_page h g now_nanos schedule_next_page w = (case ss_scan (sw_st w) of
       None \<Rightarrow> Done w PageFailed
     | Some scan \<Rightarrow>
         if sns_owner_scan_max_pages \<le> oc_pages_processed scan then Done (fail_scan w) PageFailed
         else Await w (SReqListNeurons (oc_governance scan) sns_neuron_page_size (oc_start_page_at scan))
           (\<lambda>r w'. case finish_page h g scan (resp_neurons r) now_nanos schedule_next_page w' of
              None \<Rightarrow> Trap
            | Some (result, w'') \<Rightarrow> Done w'' result))"

section \<open>The tick\<close>

definition scan_paged :: "timer_lease_guard \<Rightarrow> sns_world \<Rightarrow> page_result \<Rightarrow> unit sns_proc" where
  "scan_paged g w result = Done (scan_guard_drop g (case result of
       PageInProgress \<Rightarrow> w
     | PageStale \<Rightarrow> w
     | PageCompleted \<Rightarrow> schedule_next_due_check (sw_now w) w
     | PageFailed \<Rightarrow> schedule_scan_check (scan_page_failure_recheck_seconds * 1000000000) False w)) ()"

definition scan_page :: "hash_ops \<Rightarrow> timer_lease_guard \<Rightarrow> bool \<Rightarrow> sns_world \<Rightarrow> unit sns_proc" where
  "scan_page h g force w = pbind (process_one_page h g (sw_now w) (\<not> force) w) (scan_paged g)"

definition scan_started :: "hash_ops \<Rightarrow> timer_lease_guard \<Rightarrow> bool \<Rightarrow> sns_world \<Rightarrow> start_scan_result
    \<Rightarrow> unit sns_proc" where
  "scan_started h g force w result = (case result of
       StartStarted started_at \<Rightarrow> scan_page h g force (schedule_next_due_check started_at w)
     | StartNotConfigured \<Rightarrow> Done (scan_guard_drop g w) ()
     | StartStale \<Rightarrow> Done (scan_guard_drop g w) ()
     | StartFailed \<Rightarrow> Done (scan_guard_drop g (schedule_start_retry w)) ())"

definition scan_due :: "bool \<Rightarrow> u64 \<Rightarrow> sns_state \<Rightarrow> bool" where
  "scan_due force now_nanos st \<longleftrightarrow> force \<or> ss_last_scan_started_at st = 0 \<or>
     sat_sub now_nanos (ss_last_scan_started_at st) \<ge> sns_owner_scan_interval_seconds * 1000000000"

definition scan_tick :: "hash_ops \<Rightarrow> bool \<Rightarrow> sns_world \<Rightarrow> unit sns_proc" where
  "scan_tick h force w = (let now_nanos = sw_now w; now_secs = now_nanos div 1000000000 in
     case scan_guard_acquire now_secs w of
       (None, w1) \<Rightarrow> Done (if force then w1
         else schedule_scan_check (scan_busy_recheck_seconds * 1000000000) False w1) ()
     | (Some g, w1) \<Rightarrow>
         if ss_scan (sw_st w1) = None then
           if \<not> scan_due force now_nanos (sw_st w1)
           then Done (scan_guard_drop g (schedule_next_due_check now_nanos w1)) ()
           else pbind (start_scan g w1) (scan_started h g force)
         else scan_page h g force w1)"

section \<open>Timers, installation and upgrades\<close>

definition fire_next_scan_timer :: "hash_ops \<Rightarrow> sns_world \<Rightarrow> unit sns_proc" where
  "fire_next_scan_timer h w = (case sw_next_timer w of
       None \<Rightarrow> Done w ()
     | Some (at_nanos, force) \<Rightarrow>
         if unat (sw_now w) < at_nanos then Done w ()
         else scan_tick h force (w\<lparr>sw_next_timer := None\<rparr>))"

definition fire_continuation :: "hash_ops \<Rightarrow> sns_world \<Rightarrow> unit sns_proc" where
  "fire_continuation h w = (case sw_continuations w of
       0 \<Rightarrow> Done w ()
     | Suc n \<Rightarrow> scan_tick h False (w\<lparr>sw_continuations := n\<rparr>))"

definition sns_advance_clock :: "u64 \<Rightarrow> sns_world \<Rightarrow> unit sns_proc" where
  "sns_advance_clock now w = Done (if sw_now w \<le> now then w\<lparr>sw_now := now\<rparr> else w) ()"

record sns_init_args =
  si_reward_sns_root :: "principal option"

definition sns_fresh :: "u64 \<Rightarrow> sns_state \<Rightarrow> sns_world" where
  "sns_fresh now st = \<lparr>sw_now = now, sw_st = st, sw_stable = None, sw_owners = \<lambda>_. [],
     sw_next_timer = None, sw_continuations = 0, sw_scanned = [], sw_published = []\<rparr>"

definition sns_init :: "bool \<Rightarrow> u64 \<Rightarrow> sns_init_args \<Rightarrow> sns_world" where
  "sns_init debug_api now args =
     (let st = sns_state_new \<lparr>sc_reward_sns_root = si_reward_sns_root args\<rparr>
      in sns_install_timers debug_api (sns_set_state st (sns_fresh now st)))"

record sns_upgrade_args =
  su_reward_sns_root :: "principal option option"

definition sns_post_upgrade :: "bool \<Rightarrow> sns_upgrade_args option \<Rightarrow> sns_world \<Rightarrow> sns_world option" where
  "sns_post_upgrade debug_api args w = (case sns_restore w of
       None \<Rightarrow> None
     | Some restored \<Rightarrow>
         let w1 = sns_set_state (restored\<lparr>ss_scan_lock := Some 0\<rparr>)
               (w\<lparr>sw_next_timer := None, sw_continuations := 0\<rparr>);
             w2 = (case Option.bind args su_reward_sns_root of
                 None \<Rightarrow> w1
               | Some new_root \<Rightarrow>
                   if sc_reward_sns_root (ss_config (sw_st w1)) \<noteq> new_root
                   then invalidate_for_root new_root w1 else w1)
         in Some (sns_install_timers debug_api w2))"

end
