(* ===== verification/SnsSafety.thy ===== *)
theory SnsSafety
  imports SnsScan
begin

text \<open>
  The invariant of the SNS rewards canister, the rely-guarantee judgements of its scan and the
  interpretation of \<open>rg_system\<close>, which gives the properties of every interleaving.
\<close>

section \<open>The invariant\<close>

text \<open>Neurons in the order of a complete listing: 32-byte identifiers, strictly ascending.\<close>

definition listed :: "sns_neuron list \<Rightarrow> bool" where
  "listed ns \<longleftrightarrow> (\<forall>n\<in>set ns. \<exists>nid. sn_id n = Some nid \<and> length nid = 32) \<and>
     sorted_wrt (\<lambda>n m. the (sn_id n) < the (sn_id m)) ns"

definition cursor_of :: "sns_neuron list \<Rightarrow> bytes option" where
  "cursor_of ns = (if ns = [] then None else sn_id (last ns))"

definition scan_inv :: "hash_ops \<Rightarrow> sns_world \<Rightarrow> owner_scan \<Rightarrow> bool" where
  "scan_inv h w sc \<longleftrightarrow>
     (\<forall>sn. ss_active_snapshot (sw_st w) = Some sn \<longrightarrow> oc_staging_slot sc \<noteq> os_active_slot sn) \<and>
     sc_reward_sns_root (ss_config (sw_st w)) = Some (oc_root sc) \<and>
     sw_owners w (oc_staging_slot sc) = owner_index h (sw_scanned w) \<and>
     listed (sw_scanned w) \<and> oc_start_page_at sc = cursor_of (sw_scanned w) \<and>
     oc_pages_processed sc < sns_owner_scan_max_pages \<and>
     unat (oc_neurons_processed sc) = length (sw_scanned w) \<and>
     length (sw_scanned w) \<le> unat (oc_pages_processed sc) * 2 ^ 32 \<and>
     unat (oc_pages_processed sc) * 100 \<le> length (sw_scanned w) \<and>
     oc_started_at sc \<le> sw_now w \<and> oc_started_at sc = ss_last_scan_started_at (sw_st w)"

definition snapshot_inv :: "hash_ops \<Rightarrow> sns_world \<Rightarrow> owner_snapshot \<Rightarrow> bool" where
  "snapshot_inv h w sn \<longleftrightarrow>
     sc_reward_sns_root (ss_config (sw_st w)) = Some (os_root sn) \<and>
     sw_owners w (os_active_slot sn) = owner_index h (sw_published w) \<and>
     listed (sw_published w) \<and>
     unat (os_neuron_count sn) = length (sw_published w) \<and>
     os_owner_count sn = slot_len (os_active_slot sn) w \<and>
     os_started_at sn \<le> os_completed_at sn \<and> os_completed_at sn \<le> sw_now w \<and>
     (os_snapshot_id sn < ss_next_snapshot_id (sw_st w) \<or>
       os_snapshot_id sn = u_max \<and> ss_next_snapshot_id (sw_st w) = u_max)"

definition sns_inv :: "hash_ops \<Rightarrow> sns_world \<Rightarrow> bool" where
  "sns_inv h w \<longleftrightarrow> sw_stable w = Some (sw_st w) \<and>
     (\<forall>sc. ss_scan (sw_st w) = Some sc \<longrightarrow> scan_inv h w sc) \<and>
     (\<forall>sn. ss_active_snapshot (sw_st w) = Some sn \<longrightarrow> snapshot_inv h w sn)"

text \<open>What later worlds keep: a snapshot seen later is the one seen now, with the same owner index,
  or has an identifier that is not used yet.\<close>

definition sns_rel :: "sns_world \<Rightarrow> sns_world \<Rightarrow> bool" where
  "sns_rel w w' \<longleftrightarrow> sw_now w \<le> sw_now w' \<and>
     ss_next_snapshot_id (sw_st w) \<le> ss_next_snapshot_id (sw_st w') \<and>
     (\<forall>sn. ss_active_snapshot (sw_st w') = Some sn \<longrightarrow>
        ss_active_snapshot (sw_st w) = Some sn \<and>
          sw_owners w' (os_active_slot sn) = sw_owners w (os_active_slot sn) \<or>
        ss_next_snapshot_id (sw_st w) \<le> os_snapshot_id sn)"

lemma sns_rel_refl [simp]: "sns_rel w w"
  by (simp add: sns_rel_def)

lemma sns_rel_trans: "sns_rel a b \<Longrightarrow> sns_rel b c \<Longrightarrow> sns_rel a c"
  unfolding sns_rel_def by (metis order_trans)

fun sns_req_ok :: "sns_world \<Rightarrow> sns_req \<Rightarrow> bool" where
  "sns_req_ok w (SReqListSnsCanisters root) \<longleftrightarrow> sc_reward_sns_root (ss_config (sw_st w)) = Some root"
| "sns_req_ok w (SReqListNeurons governance limit cursor) \<longleftrightarrow> (\<exists>sc. ss_scan (sw_st w) = Some sc \<and>
     governance = oc_governance sc \<and> cursor = oc_start_page_at sc \<and> limit = sns_neuron_page_size)"

abbreviation sns_sent_ok :: "hash_ops \<Rightarrow> sns_world \<Rightarrow> sns_req \<Rightarrow> bool" where
  "sns_sent_ok h w q \<equiv> sns_inv h w \<and> sns_req_ok w q"

abbreviation sns_rg :: "hash_ops \<Rightarrow> (sns_world \<Rightarrow> 'a \<Rightarrow> bool) \<Rightarrow> 'a sns_proc \<Rightarrow> sns_world \<Rightarrow> bool" where
  "sns_rg h \<equiv> rg False (sns_inv h) sns_rel (sns_sent_ok h)"

text \<open>A step from a world: it leaves a world with the invariant that is related to it.\<close>

definition sns_step :: "hash_ops \<Rightarrow> sns_world \<Rightarrow> sns_world \<Rightarrow> bool" where
  "sns_step h w w' \<longleftrightarrow> sns_inv h w' \<and> sns_rel w w'"

lemma sns_step_refl: "sns_inv h w \<Longrightarrow> sns_step h w w"
  by (simp add: sns_step_def)

lemma sns_step_trans: "sns_step h a b \<Longrightarrow> (sns_inv h b \<Longrightarrow> sns_step h b c) \<Longrightarrow> sns_step h a c"
  using sns_rel_trans by (auto simp: sns_step_def)

text \<open>Steps that leave scan, snapshot, configuration and owners alone.\<close>

lemma sns_step_cells:
  assumes inv: "sns_inv h w" and st: "sw_st w' = (sw_st w)\<lparr>ss_scan_lock := lock\<rparr>"
    and "sw_stable w' = Some (sw_st w')" "sw_owners w' = sw_owners w" "sw_scanned w' = sw_scanned w"
    "sw_published w' = sw_published w" and now: "sw_now w \<le> sw_now w'"
  shows "sns_step h w w'"
proof -
  have "sns_rel w w'" using assms by (simp add: sns_rel_def)
  moreover have "scan_inv h w' sc" if "ss_scan (sw_st w) = Some sc" for sc
    using inv that assms(2-6) by (auto simp: sns_inv_def scan_inv_def intro: order_trans [OF _ now])
  moreover have "snapshot_inv h w' sn" if "ss_active_snapshot (sw_st w) = Some sn" for sn
    using inv that assms(2-6) order_trans [OF _ now] by (simp add: sns_inv_def snapshot_inv_def slot_len_def)
  ultimately show ?thesis using assms by (simp add: sns_step_def sns_inv_def)
qed

lemma lock_self: "st\<lparr>ss_scan_lock := ss_scan_lock st\<rparr> = (st :: sns_state)"
  by simp

lemma sns_inv_stable: "sns_inv h w \<Longrightarrow> sw_stable w = Some (sw_st w)"
  by (simp add: sns_inv_def)

lemma schedule_step: "sns_inv h w \<Longrightarrow> sns_step h w (schedule_scan_check delay force w)"
  by (rule sns_step_cells [where lock = "ss_scan_lock (sw_st w)"]) (simp_all add: schedule_scan_check_def sns_inv_stable)

lemma next_due_step: "sns_inv h w \<Longrightarrow> sns_step h w (schedule_next_due_check now w)"
  by (simp add: schedule_next_due_check_def schedule_step)

lemma start_retry_step: "sns_inv h w \<Longrightarrow> sns_step h w (schedule_start_retry w)"
  by (simp add: schedule_start_retry_def schedule_step)

lemma guard_drop_step: "sns_inv h w \<Longrightarrow> sns_step h w (scan_guard_drop g w)"
  by (rule sns_step_cells [where lock = "ss_scan_lock (sw_st (scan_guard_drop g w))"])
    (simp_all add: scan_guard_drop_def sns_with_state_mut_def sns_set_state_def sns_inv_stable)

lemma sns_acquire_step: "sns_inv h w \<Longrightarrow> sns_step h w (snd (scan_guard_acquire now w))"
  by (rule sns_step_cells [where lock = "ss_scan_lock (sw_st (snd (scan_guard_acquire now w)))"])
    (simp_all add: scan_guard_acquire_def sns_with_state_mut_def sns_set_state_def sns_inv_stable split: option.split)

lemma continuation_step: "sns_inv h w \<Longrightarrow> sns_step h w (schedule_continuation w)"
  by (rule sns_step_cells [where lock = "ss_scan_lock (sw_st w)"]) (simp_all add: schedule_continuation_def sns_inv_stable)

section \<open>Scan steps\<close>

lemma fail_scan_step: "sns_inv h w \<Longrightarrow> sns_step h w (fail_scan w)"
  by (auto simp: sns_step_def sns_inv_def sns_rel_def fail_scan_def sns_with_state_mut_def sns_set_state_def
      snapshot_inv_def slot_len_def)

lemma other_slot_neq [simp]: "other_slot s \<noteq> s" "s \<noteq> other_slot s"
  by (cases s; simp)+

lemma listed_Nil [simp]: "listed []"
  by (simp add: listed_def)

lemma begin_scan_step:
  assumes "sns_inv h w" "ss_scan (sw_st w) = None" "sc_reward_sns_root (ss_config (sw_st w)) = Some root"
  shows "sns_step h w (snd (begin_scan root governance ledger w))"
  using assms
  by (cases "ss_active_snapshot (sw_st w)")
    (auto simp: begin_scan_def Let_def sns_step_def sns_inv_def sns_rel_def scan_inv_def snapshot_inv_def
      slot_len_def sns_with_state_mut_def sns_set_state_def clear_slot_def cursor_of_def
      sns_owner_scan_max_pages_def)

lemma finish_start_scan_step:
  assumes inv: "sns_inv h w"
  shows "sns_step h w (snd (finish_start_scan g root response w))"
proof (cases "owns_scan g root None w")
  case False
  then show ?thesis using inv by (simp add: finish_start_scan_def sns_step_refl)
next
  case True
  then have "sns_step h w (snd (begin_scan root governance ledger w))" for governance ledger
    using inv by (intro begin_scan_step) (simp_all add: owns_scan_def)
  then show ?thesis using inv True
    by (simp add: finish_start_scan_def sns_step_refl split: option.split sum.split prod.split)
qed

lemma insert_page_owners_conv:
  "insert_page_owners h slot ns w =
     w\<lparr>sw_owners := (sw_owners w)(slot := foldl (index_neuron h) (sw_owners w slot) ns)\<rparr>"
proof (induction ns arbitrary: w)
  case Nil
  then show ?case by (simp add: insert_page_owners_def)
next
  case (Cons n ns)
  let ?w = "case owner_for_neuron n of None \<Rightarrow> w | Some owner \<Rightarrow> insert_owner h slot owner w"
  have "?w = w\<lparr>sw_owners := (sw_owners w)(slot := index_neuron h (sw_owners w slot) n)\<rparr>"
    by (simp add: insert_owner_def index_neuron_def split: option.split)
  then show ?case using Cons.IH [of ?w] by (simp add: insert_page_owners_def cong: if_cong)
qed

lemma validate_neurons_ok:
  "validate_neurons previous ns = None \<Longrightarrow> listed ns \<and>
     (\<forall>c. previous = Some c \<longrightarrow> (\<forall>n\<in>set ns. c < the (sn_id n)))"
proof (induction previous ns rule: validate_neurons.induct)
  case (1 previous)
  then show ?case by simp
next
  case (2 previous n ns)
  then obtain nid where n: "sn_id n = Some nid" by (cases "sn_id n") simp_all
  with 2(2) have nid: "length nid = 32"
      "\<not> (case previous of None \<Rightarrow> False | Some cursor \<Rightarrow> nid \<le> cursor)"
      "validate_neurons (Some nid) ns = None"
    by (simp_all split: if_splits)
  then have ns: "listed ns" "\<forall>m\<in>set ns. nid < the (sn_id m)"
    using 2(1) [OF n] by simp_all
  moreover have "c < nid" if "previous = Some c" for c using nid(2) that by simp
  ultimately show ?case using n nid(1) by (auto simp: listed_def intro: less_trans)
qed

lemma listed_append:
  assumes "listed ns" "listed ms" "\<And>c m. cursor_of ns = Some c \<Longrightarrow> m \<in> set ms \<Longrightarrow> c < the (sn_id m)"
  shows "listed (ns @ ms)"
proof -
  have "the (sn_id n) < the (sn_id m)" if "n \<in> set ns" "m \<in> set ms" for n m
  proof -
    from that(1) have ne: "ns \<noteq> []" by auto
    with assms(1) obtain c where c: "sn_id (last ns) = Some c"
      using last_in_set unfolding listed_def by blast
    have ns: "ns = butlast ns @ [last ns]" using ne by simp
    have "the (sn_id n) \<le> c"
    proof (cases "n \<in> set (butlast ns)")
      case True
      have "sorted_wrt (\<lambda>n m. the (sn_id n) < the (sn_id m)) (butlast ns @ [last ns])"
        using assms(1) ns by (simp add: listed_def)
      with True c show ?thesis by (simp add: sorted_wrt_append less_imp_le)
    next
      case False
      with that(1) ns have "n = last ns" by (metis UnE empty_iff insert_iff list.set(1) list.simps(15) set_append)
      with c show ?thesis by simp
    qed
    also have "c < the (sn_id m)" using assms(3) [of c m] that(2) ne c by (simp add: cursor_of_def)
    finally show ?thesis .
  qed
  with assms(1,2) show ?thesis by (auto simp: listed_def sorted_wrt_append)
qed

text \<open>The world with an accepted page counted: everything but the page cap of the invariant.\<close>

definition with_page :: "hash_ops \<Rightarrow> owner_scan \<Rightarrow> sns_neuron list \<Rightarrow> sns_world \<Rightarrow> sns_world" where
  "with_page h sc ns w = sns_with_state_mut
     (\<lambda>st. st\<lparr>ss_scan := Some (advance_scan (cursor_of ns) (length ns) sc)\<rparr>)
     ((insert_page_owners h (oc_staging_slot sc) ns w)\<lparr>sw_scanned := sw_scanned w @ ns\<rparr>)"

lemma validate_page_cursor: "validate_page sc ns = Inr c \<Longrightarrow> c = cursor_of ns"
  by (auto simp: validate_page_def cursor_of_def split: option.splits)

lemma accept_page_conv:
  assumes "ss_scan (sw_st w) = Some sc"
  shows "accept_page h sc ns (cursor_of ns) now_nanos next_page w =
    (if length ns < 100 then map_option (Pair PageCompleted) (publish_scan now_nanos (with_page h sc ns w))
     else if sns_owner_scan_max_pages \<le> oc_pages_processed sc + 1
     then Some (PageFailed, fail_scan (with_page h sc ns w))
     else Some (PageInProgress, if next_page then schedule_continuation (with_page h sc ns w) else with_page h sc ns w))"
  using assms
  by (simp add: accept_page_def Let_def with_page_def insert_page_owners_conv advance_scan_def sns_neuron_page_size_def)

lemma with_page_facts:
  assumes inv: "sns_inv h w" and sc: "ss_scan (sw_st w) = Some sc"
    and page: "validate_page sc ns = Inr c" and small: "length ns < 2 ^ 32"
  defines "w2 \<equiv> with_page h sc ns w" and "sc2 \<equiv> advance_scan (cursor_of ns) (length ns) sc"
  shows "ss_scan (sw_st w2) = Some sc2"
    "sw_owners w2 = (sw_owners w)(oc_staging_slot sc := owner_index h (sw_scanned w @ ns))"
    "sw_scanned w2 = sw_scanned w @ ns" "sw_stable w2 = Some (sw_st w2)" "sw_published w2 = sw_published w"
    "sw_now w2 = sw_now w" "sw_st w2 = (sw_st w)\<lparr>ss_scan := Some sc2\<rparr>"
    "listed (sw_scanned w @ ns)"
    "unat (oc_pages_processed sc2) = unat (oc_pages_processed sc) + 1"
    "unat (oc_neurons_processed sc2) = length (sw_scanned w @ ns)"
    "length (sw_scanned w @ ns) \<le> unat (oc_pages_processed sc2) * 2 ^ 32"
    "oc_staging_slot sc2 = oc_staging_slot sc"
proof -
  have scan: "scan_inv h w sc" using inv sc by (simp add: sns_inv_def)
  show "ss_scan (sw_st w2) = Some sc2" "sw_scanned w2 = sw_scanned w @ ns" "sw_stable w2 = Some (sw_st w2)"
    "sw_published w2 = sw_published w" "sw_now w2 = sw_now w" "sw_st w2 = (sw_st w)\<lparr>ss_scan := Some sc2\<rparr>"
    "oc_staging_slot sc2 = oc_staging_slot sc"
    by (simp_all add: w2_def sc2_def with_page_def insert_page_owners_conv sns_with_state_mut_def
        sns_set_state_def advance_scan_def)
  show "sw_owners w2 = (sw_owners w)(oc_staging_slot sc := owner_index h (sw_scanned w @ ns))"
    using scan by (simp add: w2_def with_page_def insert_page_owners_conv sns_with_state_mut_def
        sns_set_state_def scan_inv_def owner_index_append)
  have v: "validate_neurons (oc_start_page_at sc) ns = None"
    using page by (simp add: validate_page_def split: option.splits)
  from validate_neurons_ok [OF v] scan show "listed (sw_scanned w @ ns)"
    by (intro listed_append) (simp_all add: scan_inv_def)
  have cap: "unat (oc_pages_processed sc) < 10000"
    using scan by (simp add: scan_inv_def sns_owner_scan_max_pages_def word_less_nat_alt)
  then show pages: "unat (oc_pages_processed sc2) = unat (oc_pages_processed sc) + 1"
    by (simp add: sc2_def advance_scan_def unat_word_ariths)
  have len: "length (sw_scanned w) \<le> unat (oc_pages_processed sc) * 2 ^ 32"
    using scan unfolding scan_inv_def by blast
  with small pages show "length (sw_scanned w @ ns) \<le> unat (oc_pages_processed sc2) * 2 ^ 32" by simp
  have "length (sw_scanned w) \<le> 10000 * 2 ^ 32" using len cap by simp
  then have "length (sw_scanned w) + length ns < 2 ^ 64 - 1" using small by simp
  moreover have "unat (word_of_nat (length ns) :: u64) = length ns" using small by (simp add: unat_of_nat)
  moreover have "unat (oc_neurons_processed sc) = length (sw_scanned w)"
    using scan by (simp add: scan_inv_def)
  ultimately show "unat (oc_neurons_processed sc2) = length (sw_scanned w @ ns)"
    by (simp add: sc2_def advance_scan_def unat_sat_add)
qed

lemma with_page_snapshot:
  assumes inv: "sns_inv h w" and sc: "ss_scan (sw_st w) = Some sc"
    and page: "validate_page sc ns = Inr c" "length ns < 2 ^ 32"
    and sn: "ss_active_snapshot (sw_st w) = Some sn"
  shows "snapshot_inv h (with_page h sc ns w) sn"
    "sw_owners (with_page h sc ns w) (os_active_slot sn) = sw_owners w (os_active_slot sn)"
proof -
  note facts = with_page_facts [OF inv sc page]
  have "oc_staging_slot sc \<noteq> os_active_slot sn" "snapshot_inv h w sn"
    using inv sc sn by (simp_all add: sns_inv_def scan_inv_def)
  then show "sw_owners (with_page h sc ns w) (os_active_slot sn) = sw_owners w (os_active_slot sn)"
    "snapshot_inv h (with_page h sc ns w) sn"
    by (simp_all add: facts(2,5,6,7) snapshot_inv_def slot_len_def)
qed

lemma page_failed_step:
  assumes inv: "sns_inv h w" and sc: "ss_scan (sw_st w) = Some sc"
    and page: "validate_page sc ns = Inr c" "length ns < 2 ^ 32"
  shows "sns_step h w (fail_scan (with_page h sc ns w))"
proof -
  note facts = with_page_facts [OF inv sc page]
  let ?w = "fail_scan (with_page h sc ns w)"
  have w: "sw_st ?w = (sw_st w)\<lparr>ss_scan := None\<rparr>" "sw_stable ?w = Some (sw_st ?w)"
    "sw_owners ?w = sw_owners (with_page h sc ns w)" "sw_published ?w = sw_published w" "sw_now ?w = sw_now w"
    by (simp_all add: fail_scan_def sns_with_state_mut_def sns_set_state_def facts(5,6,7))
  have "snapshot_inv h ?w sn" if "ss_active_snapshot (sw_st w) = Some sn" for sn
    using with_page_snapshot(1) [OF assms that] by (simp add: snapshot_inv_def slot_len_def w facts(5,6,7))
  moreover have "sns_rel w ?w"
    using with_page_snapshot(2) [OF assms] by (simp add: sns_rel_def w)
  ultimately show ?thesis by (simp add: sns_step_def sns_inv_def w)
qed

lemma page_in_progress_step:
  assumes inv: "sns_inv h w" and sc: "ss_scan (sw_st w) = Some sc"
    and page: "validate_page sc ns = Inr c" "length ns < 2 ^ 32"
    and full: "100 \<le> length ns" and cap: "\<not> sns_owner_scan_max_pages \<le> oc_pages_processed sc + 1"
  shows "sns_step h w (with_page h sc ns w)"
proof -
  note facts = with_page_facts [OF inv sc page]
  let ?w = "with_page h sc ns w" and ?sc = "advance_scan (cursor_of ns) (length ns) sc"
  have scan: "scan_inv h w sc" using inv sc by (simp add: sns_inv_def)
  have ns: "ns \<noteq> []" using full by auto
  have keep: "oc_root ?sc = oc_root sc" "oc_started_at ?sc = oc_started_at sc"
    "oc_start_page_at ?sc = cursor_of ns" "oc_pages_processed ?sc = oc_pages_processed sc + 1"
    by (simp_all add: advance_scan_def)
  have "unat (oc_pages_processed ?sc) * 100 \<le> length (sw_scanned w @ ns)"
    using scan full facts(9) by (simp add: scan_inv_def)
  moreover have "cursor_of (sw_scanned w @ ns) = cursor_of ns" using ns by (simp add: cursor_of_def)
  moreover have "oc_pages_processed sc + 1 < sns_owner_scan_max_pages" using cap by (simp add: not_le)
  moreover have "ss_last_scan_started_at (sw_st w) \<le> sw_now w" using scan by (auto simp: scan_inv_def)
  ultimately have "scan_inv h ?w ?sc"
    using scan facts(8-12) by (simp add: scan_inv_def facts(2,3,6,7) keep)
  moreover have "snapshot_inv h ?w sn" if "ss_active_snapshot (sw_st w) = Some sn" for sn
    using with_page_snapshot(1) [OF inv sc page that] .
  moreover have "sns_rel w ?w"
    using with_page_snapshot(2) [OF inv sc page] by (simp add: sns_rel_def facts(6,7))
  ultimately show ?thesis using facts(4) by (simp add: sns_step_def sns_inv_def facts(7))
qed

lemma publish_step:
  assumes inv: "sns_inv h w" and sc: "ss_scan (sw_st w) = Some sc"
    and page: "validate_page sc ns = Inr c" "length ns < 2 ^ 32"
    and time: "oc_started_at sc \<le> now_nanos" "now_nanos \<le> sw_now w"
  shows "\<exists>w'. publish_scan now_nanos (with_page h sc ns w) = Some w' \<and> sns_step h w w'"
proof -
  note facts = with_page_facts [OF inv sc page]
  let ?w = "with_page h sc ns w" and ?sc = "advance_scan (cursor_of ns) (length ns) sc"
  have scan: "scan_inv h w sc" using inv sc by (simp add: sns_inv_def)
  have keep: "oc_root ?sc = oc_root sc" "oc_started_at ?sc = oc_started_at sc"
    by (simp_all add: advance_scan_def)
  obtain w' where w': "publish_scan now_nanos ?w = Some w'"
    by (simp add: publish_scan_def facts(1) Let_def)
  define sn where "sn = \<lparr>os_snapshot_id = ss_next_snapshot_id (sw_st w), os_active_slot = oc_staging_slot sc,
     os_root = oc_root ?sc, os_governance = oc_governance ?sc, os_ledger = oc_ledger ?sc,
     os_started_at = oc_started_at ?sc, os_completed_at = now_nanos,
     os_neuron_count = oc_neurons_processed ?sc, os_owner_count = slot_len (oc_staging_slot sc) ?w\<rparr>"
  have w: "sw_st w' = (sw_st w)\<lparr>ss_scan := None, ss_active_snapshot := Some sn,
        ss_next_snapshot_id := sat_add (ss_next_snapshot_id (sw_st w)) 1\<rparr>"
    "sw_stable w' = Some (sw_st w')" "sw_owners w' = sw_owners ?w" "sw_published w' = sw_scanned w @ ns"
    "sw_now w' = sw_now w"
    using w' by (auto simp: publish_scan_def facts Let_def sn_def sns_with_state_mut_def sns_set_state_def)
  have next_id: "os_snapshot_id sn < ss_next_snapshot_id (sw_st w') \<or>
      os_snapshot_id sn = u_max \<and> ss_next_snapshot_id (sw_st w') = u_max"
  proof (cases "ss_next_snapshot_id (sw_st w) = u_max")
    case True
    then show ?thesis by (simp add: w(1) sn_def sat_add_def)
  next
    case False
    then have "unat (ss_next_snapshot_id (sw_st w)) \<noteq> 2 ^ 64 - 1" by (auto simp: word_unat_eq_iff)
    then show ?thesis using unat_lt [of "ss_next_snapshot_id (sw_st w)"]
      by (simp add: w(1) sn_def u_simps)
  qed
  have "snapshot_inv h w' sn"
    using scan facts(2,8,10) time next_id
    by (simp add: snapshot_inv_def scan_inv_def w(1,3,4,5) sn_def keep slot_len_def)
  moreover have "sns_rel w w'" by (simp add: sns_rel_def w(1,3,5) sn_def le_sat_add)
  ultimately have "sns_step h w w'" using w(2) by (simp add: sns_step_def sns_inv_def w(1))
  with w' show ?thesis by blast
qed

lemma finish_page_step:
  assumes inv: "sns_inv h w" and time: "oc_started_at sc \<le> now_nanos" "now_nanos \<le> sw_now w"
  shows "\<exists>result w'. finish_page h g sc (resp_neurons r) now_nanos next_page w = Some (result, w') \<and> sns_step h w w'"
proof (cases "owns_scan g (oc_root sc) (Some sc) w")
  case False
  then show ?thesis using inv by (simp add: finish_page_def sns_step_refl)
next
  case True
  then have sc: "ss_scan (sw_st w) = Some sc" by (simp add: owns_scan_def)
  show ?thesis
  proof (cases "resp_neurons r")
    case None
    then show ?thesis using True inv by (simp add: finish_page_def fail_scan_step)
  next
    case (Some ns)
    then have small: "length ns < 2 ^ 32" by (cases r) (simp_all split: option.splits if_splits)
    show ?thesis
    proof (cases "validate_page sc ns")
      case (Inl e)
      then show ?thesis using True inv Some by (simp add: finish_page_def fail_scan_step)
    next
      case (Inr c)
      then have c: "c = cursor_of ns" by (rule validate_page_cursor)
      obtain w' where w': "publish_scan now_nanos (with_page h sc ns w) = Some w'" "sns_step h w w'"
        using publish_step [OF inv sc Inr small time] by blast
      have go: "sns_step h w (with_page h sc ns w)"
        if "100 \<le> length ns" "\<not> sns_owner_scan_max_pages \<le> oc_pages_processed sc + 1"
        by (rule page_in_progress_step [OF inv sc Inr small that])
      have cont: "sns_step h w (schedule_continuation (with_page h sc ns w))"
        if "100 \<le> length ns" "\<not> sns_owner_scan_max_pages \<le> oc_pages_processed sc + 1"
        using go [OF that] continuation_step by (rule sns_step_trans)
      show ?thesis
        using True Some Inr w' go cont page_failed_step [OF inv sc Inr small]
        by (simp add: finish_page_def c accept_page_conv [OF sc] not_less)
    qed
  qed
qed

section \<open>The tick in every interleaving\<close>

lemma sns_rg_done: "sns_inv h w0 \<Longrightarrow> sns_step h w0 w \<Longrightarrow> Q w a \<Longrightarrow> sns_rg h Q (Done w a) w0"
  by (simp add: sns_step_def)

lemma sns_rg_start: "sns_step h w0 w \<Longrightarrow> (sns_inv h w \<Longrightarrow> sns_rg h Q p w) \<Longrightarrow> sns_rg h Q p w0"
  unfolding sns_step_def by (rule rg_start [of _ _ _ _ _ _ w]) (auto intro: sns_rel_trans)

lemma sns_rg_bind:
  "sns_rg h Q' p w0 \<Longrightarrow> (\<And>w a. sns_inv h w \<Longrightarrow> Q' w a \<Longrightarrow> sns_rg h Q (f w a) w) \<Longrightarrow> sns_rg h Q (pbind p f) w0"
  by (rule rg_bind [of _ _ _ _ Q']) (auto intro: sns_rel_trans)

abbreviation any_result :: "sns_world \<Rightarrow> 'a \<Rightarrow> bool" where
  "any_result \<equiv> \<lambda>_ _. True"

lemma start_scan_ok:
  assumes inv: "sns_inv h w" shows "sns_rg h any_result (start_scan g w) w"
proof (cases "sc_reward_sns_root (ss_config (sw_st w))")
  case None
  then show ?thesis using inv by (simp add: start_scan_def)
next
  case (Some root)
  have "sns_rg h any_result (case finish_start_scan g root (resp_canisters r) w' of (result, w'') \<Rightarrow> Done w'' result) w'"
    if "sns_inv h w'" for r w'
    using finish_start_scan_step [OF that, of g root "resp_canisters r"]
    by (auto simp: sns_step_def split: prod.split)
  then show ?thesis using inv Some by (simp add: start_scan_def)
qed

lemma process_one_page_ok:
  assumes inv: "sns_inv h w"
  shows "sns_rg h any_result (process_one_page h g (sw_now w) next_page w) w"
proof (cases "ss_scan (sw_st w)")
  case None
  then show ?thesis using inv by (simp add: process_one_page_def)
next
  case (Some sc)
  then have time: "oc_started_at sc \<le> sw_now w" using inv by (auto simp: sns_inv_def scan_inv_def)
  have "sns_rg h any_result (case finish_page h g sc (resp_neurons r) (sw_now w) next_page w' of
      None \<Rightarrow> Trap | Some (result, w'') \<Rightarrow> Done w'' result) w'" if "sns_inv h w'" "sns_rel w w'" for r w'
  proof -
    note w' = that
    have "sw_now w \<le> sw_now w'" using w'(2) by (simp add: sns_rel_def)
    then obtain result w'' where "finish_page h g sc (resp_neurons r) (sw_now w) next_page w' = Some (result, w'')"
      "sns_step h w' w''"
      using finish_page_step [OF w'(1) time] by blast
    then show ?thesis by (simp add: sns_step_def)
  qed
  then show ?thesis using inv Some fail_scan_step [OF inv]
    by (simp add: process_one_page_def sns_step_def)
qed

lemma scan_paged_ok:
  assumes inv: "sns_inv h w" shows "sns_rg h any_result (scan_paged g w result) w"
proof -
  have drop: "sns_step h w (scan_guard_drop g w')" if "sns_step h w w'" for w'
    using that guard_drop_step by (rule sns_step_trans)
  show ?thesis
    unfolding scan_paged_def
    by (intro sns_rg_done [OF inv] drop TrueI)
      (simp add: inv sns_step_refl next_due_step schedule_step split: page_result.split)
qed

lemma scan_page_ok: "sns_inv h w \<Longrightarrow> sns_rg h any_result (scan_page h g force w) w"
  unfolding scan_page_def by (rule sns_rg_bind [OF process_one_page_ok]) (simp_all add: scan_paged_ok)

lemma scan_started_ok:
  assumes inv: "sns_inv h w" shows "sns_rg h any_result (scan_started h g force w result) w"
proof -
  have "sns_rg h any_result (scan_page h g force (schedule_next_due_check t w)) w" for t
    using next_due_step [OF inv] scan_page_ok by (rule sns_rg_start)
  moreover have "sns_step h w (scan_guard_drop g (schedule_start_retry w))"
    using start_retry_step [OF inv] guard_drop_step by (rule sns_step_trans)
  ultimately show ?thesis using inv guard_drop_step [OF inv, of g]
    by (cases result) (simp_all add: scan_started_def sns_step_def)
qed

lemma scan_tick_ok:
  assumes inv: "sns_inv h w" shows "sns_rg h any_result (scan_tick h force w) w"
proof -
  obtain g w1 where acq: "scan_guard_acquire (sw_now w div 1000000000) w = (g, w1)" by fastforce
  then have step: "sns_step h w w1" using sns_acquire_step [OF inv, of "sw_now w div 1000000000"] by simp
  have timer: "sns_step h w (schedule_scan_check d False w1)" for d
    using step schedule_step by (rule sns_step_trans)
  have idle: "sns_step h w (scan_guard_drop g' (schedule_next_due_check n w1))" for g' n
    using sns_step_trans [OF step next_due_step] guard_drop_step by (rule sns_step_trans)
  have start: "sns_rg h any_result (pbind (start_scan g' w1) (scan_started h g' force)) w" for g'
    using step by (rule sns_rg_start) (intro sns_rg_bind [OF start_scan_ok] scan_started_ok)
  have page: "sns_rg h any_result (scan_page h g' force w1) w" for g'
    using step scan_page_ok by (rule sns_rg_start)
  show ?thesis
    using start page timer idle step
    by (cases g) (simp_all add: scan_tick_def Let_def acq sns_step_def)
qed

lemma fire_next_scan_timer_ok:
  assumes inv: "sns_inv h w" shows "sns_rg h any_result (fire_next_scan_timer h w) w"
proof -
  have "sns_step h w (w\<lparr>sw_next_timer := None\<rparr>)"
    using inv by (intro sns_step_cells [where lock = "ss_scan_lock (sw_st w)"]) (simp_all add: sns_inv_stable)
  then have "sns_rg h any_result (scan_tick h force (w\<lparr>sw_next_timer := None\<rparr>)) w" for force
    by (rule sns_rg_start) (rule scan_tick_ok)
  then show ?thesis using inv by (simp add: fire_next_scan_timer_def split: option.split)
qed

lemma fire_continuation_ok:
  assumes inv: "sns_inv h w" shows "sns_rg h any_result (fire_continuation h w) w"
proof -
  have "sns_step h w (w\<lparr>sw_continuations := n\<rparr>)" for n
    using inv by (intro sns_step_cells [where lock = "ss_scan_lock (sw_st w)"]) (simp_all add: sns_inv_stable)
  then have "sns_rg h any_result (scan_tick h False (w\<lparr>sw_continuations := n\<rparr>)) w" for n
    by (rule sns_rg_start) (rule scan_tick_ok)
  then show ?thesis using inv by (simp add: fire_continuation_def split: nat.split)
qed

lemma sns_advance_clock_ok:
  assumes inv: "sns_inv h w" shows "sns_rg h any_result (sns_advance_clock now w) w"
proof -
  have "sns_step h w (w\<lparr>sw_now := now\<rparr>)" if "sw_now w \<le> now"
    using inv that by (intro sns_step_cells [where lock = "ss_scan_lock (sw_st w)"]) (simp_all add: sns_inv_stable)
  then show ?thesis using inv by (simp add: sns_advance_clock_def sns_step_def)
qed

lemma sns_post_upgrade_step:
  assumes inv: "sns_inv h w" and up: "sns_post_upgrade debug_api args w = Some w'"
  shows "sns_step h w w'"
proof -
  let ?w1 = "sns_set_state ((sw_st w)\<lparr>ss_scan_lock := Some 0\<rparr>) (w\<lparr>sw_next_timer := None, sw_continuations := 0\<rparr>)"
  have w1: "sns_step h w ?w1"
    using inv by (intro sns_step_cells [where lock = "Some 0"]) (simp_all add: sns_set_state_def)
  have clear: "sns_step h ?w1 (invalidate_for_root root ?w1)" for root
    by (simp add: sns_step_def sns_inv_def sns_rel_def invalidate_for_root_def sns_with_state_mut_def
        sns_set_state_def clear_all_owners_def clear_slot_def)
  have install: "sns_step h w (sns_install_timers debug_api w'')" if "sns_step h w w''" for w''
    using that unfolding sns_install_timers_def by (rule sns_step_trans) (rule schedule_step)
  have "\<exists>w''. sns_step h w w'' \<and> w' = sns_install_timers debug_api w''"
    using up w1 sns_step_trans [OF w1 clear] sns_inv_stable [OF inv]
    by (auto simp: sns_post_upgrade_def sns_restore_def Let_def split: option.splits if_splits)
  then show ?thesis using install by blast
qed

definition sns_installed :: "bool \<Rightarrow> sns_world \<Rightarrow> bool" where
  "sns_installed debug_api w \<longleftrightarrow> (\<exists>now args. w = sns_init debug_api now args)"

definition sns_handlers :: "hash_ops \<Rightarrow> (sns_world \<Rightarrow> unit sns_proc) set" where
  "sns_handlers h = {fire_next_scan_timer h, fire_continuation h, scan_tick h True} \<union> range sns_advance_clock"

definition sns_upgrades :: "bool \<Rightarrow> (sns_world \<Rightarrow> sns_world option) set" where
  "sns_upgrades debug_api = range (sns_post_upgrade debug_api)"

interpretation sns: rg_system False "sns_inv h" sns_rel "sns_sent_ok h" "sns_installed debug_api"
  "sns_handlers h" "sns_upgrades debug_api" for h debug_api
proof (unfold_locales, goal_cases)
  case (1 s)
  then show ?case by simp
next
  case (2 a b c)
  then show ?case by (rule sns_rel_trans)
next
  case (3 s)
  then show ?case
    by (auto simp: sns_installed_def sns_init_def Let_def sns_install_timers_def schedule_scan_check_def
        sns_set_state_def sns_fresh_def sns_state_new_def sns_inv_def)
next
  case (4 h' s)
  then show ?case
    using fire_next_scan_timer_ok fire_continuation_ok scan_tick_ok sns_advance_clock_ok
    by (auto simp: sns_handlers_def)
next
  case (5 u s s')
  then show ?case using sns_post_upgrade_step by (auto simp: sns_upgrades_def sns_step_def)
qed

end
