(* ===== verification/SnsProperties.thy ===== *)
theory SnsProperties
  imports SnsSafety
begin

text \<open>
  What the SNS rewards canister guarantees: in every interleaving of its timers, replies, clock steps
  and upgrades, and for an undisturbed scan.
\<close>

definition sns_run :: "hash_ops \<Rightarrow> bool \<Rightarrow> sns_world \<Rightarrow> (sns_world, sns_req, sns_resp, unit) proc list
    \<Rightarrow> (sns_world \<times> sns_req) list \<Rightarrow> bool" where
  "sns_run h debug_api = reach (sns_installed debug_api) (sns_handlers h) (sns_upgrades debug_api)"

lemma sns_run_inv: "sns_run h d w ps log \<Longrightarrow> sns_inv h w"
  unfolding sns_run_def by (rule sns.reach_inv)

lemma sns_sent_before: "sns_run h d w ps log \<Longrightarrow> (wq, q) \<in> set log \<Longrightarrow> sns_rel wq w"
  unfolding sns_run_def by (rule sns.reach_since)

lemma sns_sent_ok: "sns_run h d w ps log \<Longrightarrow> (wq, q) \<in> set log \<Longrightarrow> sns_inv h wq \<and> sns_req_ok wq q"
  unfolding sns_run_def by (rule sns.reach_requests)

section \<open>An undisturbed scan\<close>

text \<open>A world in which a continuation timer runs the next page: nobody holds the lease.\<close>

definition scan_ready :: "sns_world \<Rightarrow> bool" where
  "scan_ready w \<longleftrightarrow> case_option 0 id (ss_scan_lock (sw_st w)) \<le> sw_now w div 1000000000 \<and>
     0 < sw_continuations w"

text \<open>The continuation timers of a scan, each page answered by the next list of neurons.\<close>

fun drive_scan :: "hash_ops \<Rightarrow> sns_neuron list list \<Rightarrow> sns_world \<Rightarrow> sns_world option" where
  "drive_scan h [] w = Some w"
| "drive_scan h (ns # pages) w =
     (case fst (run_script [SRespNeurons (Some ns)] (fire_continuation h w) []) of
        None \<Rightarrow> None
      | Some (w', _) \<Rightarrow> drive_scan h pages w')"

lemma scan_tick_page:
  assumes ready: "case_option 0 id (ss_scan_lock (sw_st w)) \<le> sw_now w div 1000000000"
    and sc: "ss_scan (sw_st w) = Some sc" "oc_pages_processed sc < sns_owner_scan_max_pages"
      "sc_reward_sns_root (ss_config (sw_st w)) = Some (oc_root sc)"
    and page: "validate_page sc ns = Inr c" "length ns < 2 ^ 32"
  defines "g \<equiv> \<lparr>tlg_active = True, tlg_expires = sat_add (sw_now w div 1000000000) scan_lease_seconds\<rparr>"
  defines "w1 \<equiv> sns_with_state_mut (\<lambda>st. st\<lparr>ss_scan_lock := Some (tlg_expires g)\<rparr>) w"
  shows "scan_guard_acquire (sw_now w div 1000000000) w = (Some g, w1)"
    "fst (run_script [SRespNeurons (Some ns)] (scan_tick h False w) []) =
       (case accept_page h sc ns (cursor_of ns) (sw_now w) True w1 of
          None \<Rightarrow> None
        | Some (result, w2) \<Rightarrow> fst (run_script [] (scan_paged g w2 result) []))"
proof -
  show acq: "scan_guard_acquire (sw_now w div 1000000000) w = (Some g, w1)"
    using ready by (simp add: scan_guard_acquire_def tlg_acquire_def g_def w1_def not_less)
  have w1: "ss_scan (sw_st w1) = Some sc" "sw_now w1 = sw_now w"
    by (simp_all add: w1_def sns_with_state_mut_def sns_set_state_def sc)
  have own: "owns_scan g (oc_root sc) (Some sc) w1"
    by (simp add: owns_scan_def w1_def sns_with_state_mut_def sns_set_state_def sc g_def)
  have "finish_page h g sc (resp_neurons (SRespNeurons (Some ns))) (sw_now w) True w1 =
      accept_page h sc ns (cursor_of ns) (sw_now w) True w1"
    using own page validate_page_cursor [OF page(1)] by (simp add: finish_page_def)
  then show "fst (run_script [SRespNeurons (Some ns)] (scan_tick h False w) []) =
       (case accept_page h sc ns (cursor_of ns) (sw_now w) True w1 of
          None \<Rightarrow> None
        | Some (result, w2) \<Rightarrow> fst (run_script [] (scan_paged g w2 result) []))"
    using sc(2) w1
    by (simp add: scan_tick_def Let_def acq scan_page_def process_one_page_def scan_paged_def not_le
        split: option.split prod.split)
qed

text \<open>What the model of a driven page leaves: a page counted, or the snapshot published.\<close>

definition page_counted :: "hash_ops \<Rightarrow> sns_neuron list \<Rightarrow> sns_world \<Rightarrow> sns_world \<Rightarrow> bool" where
  "page_counted h ns w w' \<longleftrightarrow> sns_inv h w' \<and> scan_ready w' \<and> sw_scanned w' = sw_scanned w @ ns \<and>
     map_option (\<lambda>sc. sc\<lparr>oc_pages_processed := 0, oc_neurons_processed := 0, oc_start_page_at := None\<rparr>) (ss_scan (sw_st w')) =
       map_option (\<lambda>sc. sc\<lparr>oc_pages_processed := 0, oc_neurons_processed := 0, oc_start_page_at := None\<rparr>) (ss_scan (sw_st w)) \<and>
     map_option (\<lambda>sc. unat (oc_pages_processed sc)) (ss_scan (sw_st w')) =
       map_option (\<lambda>sc. unat (oc_pages_processed sc) + 1) (ss_scan (sw_st w))"

lemma drop_owner:
  "scan_guard_drop g w = sns_with_state_mut (\<lambda>st. st\<lparr>ss_scan_lock := Some 0\<rparr>) w"
  if "tlg_active g" "ss_scan_lock (sw_st w) = Some (tlg_expires g)"
  using that by (simp add: scan_guard_drop_def tlg_release_def Let_def sns_with_state_mut_def)

lemma fire_continuation_tick:
  "0 < sw_continuations w \<Longrightarrow>
   fire_continuation h w = scan_tick h False (w\<lparr>sw_continuations := sw_continuations w - 1\<rparr>)"
  by (cases "sw_continuations w") (simp_all add: fire_continuation_def)

text \<open>A continuation timer takes the lease and asks for the page with the state unchanged but for it.\<close>

lemma driven_tick:
  assumes inv: "sns_inv h w" and ready: "scan_ready w" and sc: "ss_scan (sw_st w) = Some sc"
    and page: "validate_page sc ns = Inr c" "length ns < 2 ^ 32"
  obtains g w1 where "tlg_active g" "sns_inv h w1" "ss_scan (sw_st w1) = Some sc"
    "sw_scanned w1 = sw_scanned w" "sw_now w1 = sw_now w" "ss_scan_lock (sw_st w1) = Some (tlg_expires g)"
    "fst (run_script [SRespNeurons (Some ns)] (fire_continuation h w) []) =
       (case accept_page h sc ns (cursor_of ns) (sw_now w) True w1 of
          None \<Rightarrow> None
        | Some (result, w2) \<Rightarrow> fst (run_script [] (scan_paged g w2 result) []))"
proof
  let ?v = "w\<lparr>sw_continuations := sw_continuations w - 1\<rparr>"
  let ?g = "\<lparr>tlg_active = True, tlg_expires = sat_add (sw_now w div 1000000000) scan_lease_seconds\<rparr>"
  let ?w1 = "sns_with_state_mut (\<lambda>st. st\<lparr>ss_scan_lock := Some (tlg_expires ?g)\<rparr>) ?v"
  have scan: "scan_inv h w sc" using inv sc by (simp add: sns_inv_def)
  have v: "sns_step h w ?v"
    using inv by (intro sns_step_cells [where lock = "ss_scan_lock (sw_st w)"]) (simp_all add: sns_inv_stable)
  have acq: "scan_guard_acquire (sw_now ?v div 1000000000) ?v = (Some ?g, ?w1)"
    using scan_tick_page(1) [of ?v sc ns c] ready sc scan page by (simp add: scan_ready_def scan_inv_def)
  show "fst (run_script [SRespNeurons (Some ns)] (fire_continuation h w) []) =
       (case accept_page h sc ns (cursor_of ns) (sw_now w) True ?w1 of
          None \<Rightarrow> None
        | Some (result, w2) \<Rightarrow> fst (run_script [] (scan_paged ?g w2 result) []))"
  proof -
    have pre: "case_option 0 id (ss_scan_lock (sw_st ?v)) \<le> sw_now ?v div 1000000000"
      "ss_scan (sw_st ?v) = Some sc" "oc_pages_processed sc < sns_owner_scan_max_pages"
      "sc_reward_sns_root (ss_config (sw_st ?v)) = Some (oc_root sc)" "0 < sw_continuations w"
      using ready sc scan by (simp_all add: scan_ready_def scan_inv_def)
    have now: "sw_now ?v = sw_now w" by simp
    show ?thesis unfolding fire_continuation_tick [OF pre(5)]
      by (rule scan_tick_page(2) [OF pre(1-4) page, unfolded now])
  qed
  show "sns_inv h ?w1" using v sns_acquire_step [of h ?v "sw_now ?v div 1000000000"] acq
    by (simp add: sns_step_def)
qed (simp_all add: sc sns_with_state_mut_def sns_set_state_def)

lemma driven_page:
  assumes inv: "sns_inv h w" and ready: "scan_ready w" and sc: "ss_scan (sw_st w) = Some sc"
    and page: "validate_page sc ns = Inr c" "length ns < 2 ^ 32"
    and full: "100 \<le> length ns" and cap: "unat (oc_pages_processed sc) + 1 < 10000"
  shows "\<exists>w'. fst (run_script [SRespNeurons (Some ns)] (fire_continuation h w) []) = Some (w', ()) \<and>
    page_counted h ns w w'"
proof -
  obtain g w1 where g: "tlg_active g" and w1: "sns_inv h w1" "ss_scan (sw_st w1) = Some sc"
      "sw_scanned w1 = sw_scanned w" "sw_now w1 = sw_now w" "ss_scan_lock (sw_st w1) = Some (tlg_expires g)"
    and tick: "fst (run_script [SRespNeurons (Some ns)] (fire_continuation h w) []) =
       (case accept_page h sc ns (cursor_of ns) (sw_now w) True w1 of
          None \<Rightarrow> None
        | Some (result, w2) \<Rightarrow> fst (run_script [] (scan_paged g w2 result) []))"
    by (rule driven_tick [OF inv ready sc page])
  have pages: "unat (oc_pages_processed sc + 1) = unat (oc_pages_processed sc) + 1"
    using cap by (simp add: unat_word_ariths)
  then have below: "\<not> sns_owner_scan_max_pages \<le> oc_pages_processed sc + 1"
    using cap by (simp add: sns_owner_scan_max_pages_def word_le_nat_alt)
  let ?w2 = "schedule_continuation (with_page h sc ns w1)"
  note facts = with_page_facts [OF w1(1,2) page]
  have run: "fst (run_script [SRespNeurons (Some ns)] (fire_continuation h w) []) = Some (scan_guard_drop g ?w2, ())"
    using full below tick
    by (simp add: accept_page_conv [OF w1(2)] scan_paged_def)
  have w2: "sns_inv h ?w2" "ss_scan_lock (sw_st ?w2) = Some (tlg_expires g)"
    using page_in_progress_step [OF w1(1,2) page full below] continuation_step
    by (simp_all add: sns_step_def schedule_continuation_def facts(7) w1(5))
  have drop: "scan_guard_drop g ?w2 = sns_with_state_mut (\<lambda>st. st\<lparr>ss_scan_lock := Some 0\<rparr>) ?w2"
    using w2(2) by (intro drop_owner) (simp_all add: g)
  have "sns_inv h (scan_guard_drop g ?w2)" using guard_drop_step [OF w2(1)] by (simp add: sns_step_def)
  moreover have "scan_ready (scan_guard_drop g ?w2)" "sw_scanned (scan_guard_drop g ?w2) = sw_scanned w @ ns"
    "ss_scan (sw_st (scan_guard_drop g ?w2)) = Some (advance_scan (cursor_of ns) (length ns) sc)"
    unfolding drop by (simp_all add: scan_ready_def sns_with_state_mut_def sns_set_state_def
        schedule_continuation_def facts(1,3) w1(3))
  ultimately have "page_counted h ns w (scan_guard_drop g ?w2)"
    unfolding page_counted_def using sc pages by (simp add: advance_scan_def)
  with run show ?thesis by blast
qed

text \<open>The last page publishes.\<close>

lemma driven_final_page:
  assumes inv: "sns_inv h w" and ready: "scan_ready w" and sc: "ss_scan (sw_st w) = Some sc"
    and page: "validate_page sc ns = Inr c" and final: "length ns < 100"
  shows "\<exists>w' sn. fst (run_script [SRespNeurons (Some ns)] (fire_continuation h w) []) = Some (w', ()) \<and>
    sns_inv h w' \<and> ss_scan (sw_st w') = None \<and> ss_active_snapshot (sw_st w') = Some sn \<and>
    os_active_slot sn = oc_staging_slot sc \<and> os_governance sn = oc_governance sc \<and>
    sw_published w' = sw_scanned w @ ns \<and> sw_next_timer w' \<noteq> None \<and>
    ss_scan_lock (sw_st w') = Some 0"
proof -
  have scan: "scan_inv h w sc" using inv sc by (simp add: sns_inv_def)
  have small: "length ns < 2 ^ 32" using final by simp
  obtain g w1 where g: "tlg_active g" and w1: "sns_inv h w1" "ss_scan (sw_st w1) = Some sc"
      "sw_scanned w1 = sw_scanned w" "sw_now w1 = sw_now w" "ss_scan_lock (sw_st w1) = Some (tlg_expires g)"
    and tick: "fst (run_script [SRespNeurons (Some ns)] (fire_continuation h w) []) =
       (case accept_page h sc ns (cursor_of ns) (sw_now w) True w1 of
          None \<Rightarrow> None
        | Some (result, w2) \<Rightarrow> fst (run_script [] (scan_paged g w2 result) []))"
    by (rule driven_tick [OF inv ready sc page small])
  have time: "oc_started_at sc \<le> sw_now w" using scan by (auto simp: scan_inv_def)
  obtain w2 where w2: "publish_scan (sw_now w) (with_page h sc ns w1) = Some w2" "sns_step h w1 w2"
    using publish_step [OF w1(1,2) page small, of "sw_now w"] time w1(4) by auto
  note facts = with_page_facts [OF w1(1,2) page small]
  obtain sn where sn: "ss_scan (sw_st w2) = None" "ss_active_snapshot (sw_st w2) = Some sn"
    "os_active_slot sn = oc_staging_slot sc" "os_governance sn = oc_governance sc"
    "sw_published w2 = sw_scanned w @ ns" "ss_scan_lock (sw_st w2) = Some (tlg_expires g)"
    using w2(1) w1(3,5)
    by (auto simp: publish_scan_def Let_def facts(1,3,7,12) advance_scan_def sns_with_state_mut_def sns_set_state_def)
  let ?w3 = "schedule_next_due_check (sw_now w2) w2"
  have w3: "sns_inv h ?w3" using w2(2) next_due_step by (simp add: sns_step_def)
  have same: "sw_st ?w3 = sw_st w2" "sw_published ?w3 = sw_published w2" "sw_next_timer ?w3 \<noteq> None"
    by (simp_all add: schedule_next_due_check_def schedule_scan_check_def)
  have run: "fst (run_script [SRespNeurons (Some ns)] (fire_continuation h w) []) = Some (scan_guard_drop g ?w3, ())"
    using final tick w2(1)
    by (simp add: accept_page_conv [OF w1(2)] scan_paged_def)
  have drop: "scan_guard_drop g ?w3 = sns_with_state_mut (\<lambda>st. st\<lparr>ss_scan_lock := Some 0\<rparr>) ?w3"
    using sn(6) by (intro drop_owner) (simp_all add: g same)
  have "sns_inv h (scan_guard_drop g ?w3)" using guard_drop_step [OF w3] by (simp add: sns_step_def)
  moreover have "ss_scan (sw_st (scan_guard_drop g ?w3)) = None"
    "ss_active_snapshot (sw_st (scan_guard_drop g ?w3)) = Some sn"
    "sw_published (scan_guard_drop g ?w3) = sw_scanned w @ ns" "sw_next_timer (scan_guard_drop g ?w3) \<noteq> None"
    "ss_scan_lock (sw_st (scan_guard_drop g ?w3)) = Some 0"
    using sn same(3) unfolding drop by (simp_all add: sns_with_state_mut_def sns_set_state_def same(1,2))
  ultimately show ?thesis using run sn(3,4) by blast
qed

lemma validate_neurons_append:
  "validate_neurons previous (ns @ ms) = None \<longleftrightarrow> validate_neurons previous ns = None \<and>
     validate_neurons (if ns = [] then previous else cursor_of ns) ms = None"
proof (induction previous ns rule: validate_neurons.induct)
  case (1 previous)
  then show ?case by simp
next
  case (2 previous n ns)
  show ?case
  proof (cases "sn_id n")
    case (Some nid)
    have "cursor_of (n # ns) = (if ns = [] then Some nid else cursor_of ns)"
      by (simp add: cursor_of_def Some)
    then show ?thesis using 2 [OF Some] Some by (cases "ns = []") simp_all
  qed simp
qed

lemma validate_neurons_page:
  "validate_neurons (oc_start_page_at sc) ns = None \<Longrightarrow> validate_page sc ns = Inr (cursor_of ns)"
  by (simp add: validate_page_def cursor_of_def)

lemma drive_scan_completes:
  assumes "sns_inv h w" "scan_ready w" "ss_scan (sw_st w) = Some sc"
    and "\<forall>ns\<in>set full. 100 \<le> length ns \<and> length ns < 2 ^ 32" and "length final < 100"
    and "validate_neurons (oc_start_page_at sc) (concat full @ final) = None"
    and "unat (oc_pages_processed sc) + length full < 10000"
  shows "\<exists>w' sn. drive_scan h (full @ [final]) w = Some w' \<and> sns_inv h w' \<and> ss_scan (sw_st w') = None \<and>
    ss_active_snapshot (sw_st w') = Some sn \<and> os_active_slot sn = oc_staging_slot sc \<and>
    os_governance sn = oc_governance sc \<and>
    sw_published w' = sw_scanned w @ concat full @ final \<and> sw_next_timer w' \<noteq> None \<and>
    ss_scan_lock (sw_st w') = Some 0"
  using assms
proof (induction full arbitrary: w sc)
  case Nil
  then have page: "validate_page sc final = Inr (cursor_of final)" by (simp add: validate_neurons_page)
  obtain w' sn where w': "fst (run_script [SRespNeurons (Some final)] (fire_continuation h w) []) = Some (w', ())"
    and rest: "sns_inv h w'" "ss_scan (sw_st w') = None" "ss_active_snapshot (sw_st w') = Some sn"
      "os_active_slot sn = oc_staging_slot sc" "os_governance sn = oc_governance sc"
      "sw_published w' = sw_scanned w @ final" "sw_next_timer w' \<noteq> None" "ss_scan_lock (sw_st w') = Some 0"
    using driven_final_page [OF Nil.prems(1,2,3) page Nil.prems(5)] by blast
  have "drive_scan h ([] @ [final]) w = Some w'" using w' by simp
  with rest show ?case by simp
next
  case (Cons ns full)
  from Cons.prems(4) have ns: "100 \<le> length ns" "length ns < 2 ^ 32" "ns \<noteq> []" by auto
  have valid: "validate_neurons (oc_start_page_at sc) ns = None"
    "validate_neurons (cursor_of ns) (concat full @ final) = None"
    using Cons.prems(6) ns(3) by (simp_all add: validate_neurons_append)
  have cap: "unat (oc_pages_processed sc) + 1 < 10000" using Cons.prems(7) by simp
  obtain w1 where w1: "fst (run_script [SRespNeurons (Some ns)] (fire_continuation h w) []) = Some (w1, ())"
    and counted: "page_counted h ns w w1"
    using driven_page [OF Cons.prems(1,2,3) validate_neurons_page [OF valid(1)] ns(2,1) cap] by blast
  then obtain sc1 where sc1: "ss_scan (sw_st w1) = Some sc1"
    "unat (oc_pages_processed sc1) = unat (oc_pages_processed sc) + 1"
    "sc1\<lparr>oc_pages_processed := 0, oc_neurons_processed := 0, oc_start_page_at := None\<rparr> =
       sc\<lparr>oc_pages_processed := 0, oc_neurons_processed := 0, oc_start_page_at := None\<rparr>"
    using Cons.prems(3) by (auto simp: page_counted_def)
  from arg_cong [OF sc1(3), of oc_staging_slot] arg_cong [OF sc1(3), of oc_governance]
  have same: "oc_staging_slot sc1 = oc_staging_slot sc" "oc_governance sc1 = oc_governance sc" by simp_all
  have inv: "sns_inv h w1" "scan_ready w1" "sw_scanned w1 = sw_scanned w @ ns"
    using counted by (simp_all add: page_counted_def)
  have cursor: "oc_start_page_at sc1 = cursor_of ns"
    using inv(1,3) sc1(1) ns(3) by (simp add: sns_inv_def scan_inv_def cursor_of_def)
  have "\<exists>w' sn. drive_scan h (full @ [final]) w1 = Some w' \<and> sns_inv h w' \<and> ss_scan (sw_st w') = None \<and>
      ss_active_snapshot (sw_st w') = Some sn \<and> os_active_slot sn = oc_staging_slot sc1 \<and>
      os_governance sn = oc_governance sc1 \<and> sw_published w' = sw_scanned w1 @ concat full @ final \<and>
      sw_next_timer w' \<noteq> None \<and> ss_scan_lock (sw_st w') = Some 0"
    using Cons.prems(4,5,7) valid(2) sc1(2) by (intro Cons.IH inv(1,2) sc1(1)) (simp_all add: cursor)
  then show ?case using w1 by (simp add: same inv(3))
qed

section \<open>Properties\<close>

text \<open>C26: the owner of a neuron is the principal with the most distinct permission types over all its
  permission entries, the smallest principal (bytewise) among equals; only a neuron without any
  principal, or whose stake does not exceed its fees, has no owner.\<close>

theorem sns_owner_is_best_holder:
  "(owner_for_neuron n = Some p \<longleftrightarrow>
      sn_fees_e8s n < sn_stake_e8s n \<and> p \<in> holders (sn_permissions n) \<and>
      (\<forall>q\<in>holders (sn_permissions n). q \<noteq> p \<longrightarrow>
         card (held_types q (sn_permissions n)) < card (held_types p (sn_permissions n)) \<or>
         card (held_types q (sn_permissions n)) = card (held_types p (sn_permissions n)) \<and> p < q)) \<and>
   (owner_for_neuron n = None \<longleftrightarrow> sn_stake_e8s n \<le> sn_fees_e8s n \<or> holders (sn_permissions n) = {})"
proof -
  have stake: "effective_stake_is_positive n \<longleftrightarrow> sn_fees_e8s n < sn_stake_e8s n"
    by (simp add: effective_stake_is_positive_def u_simps)
  show ?thesis
    using select_owner_best [of "sn_permissions n" p] select_owner_unique [of p "sn_permissions n"]
      select_owner_None [of "sn_permissions n"]
    unfolding owner_for_neuron_def stake by (auto simp: not_less)
qed


text \<open>C22: answers for one snapshot identifier never change: two batches of lookups that succeed with the
  same arguments, one at the time of some earlier request and one later, give the same owners,
  whatever scans, failures and upgrades happen in between (up to the last 64-bit identifier).\<close>

theorem sns_answers_stable:
  assumes "sns_run h d w ps log" and "(wq, q) \<in> set log" and "ra_snapshot_id args \<noteq> u_max"
    and "resolve_default_icp_accounts args wq = ResolveOk xs"
    and "resolve_default_icp_accounts args w = ResolveOk ys"
  shows "xs = ys \<and> (\<forall>c. context_from_state w = Some c \<longrightarrow> context_from_state wq = Some c)"
proof -
  have rel: "sns_rel wq w" using assms(1,2) by (rule sns_sent_before)
  have inv: "sns_inv h wq" "sns_inv h w" using sns_sent_ok [OF assms(1,2)] sns_run_inv [OF assms(1)] by blast+
  obtain sq where sq: "ss_active_snapshot (sw_st wq) = Some sq" "os_snapshot_id sq = ra_snapshot_id args"
    "xs = map (\<lambda>a. lookup_owner (os_active_slot sq) a wq) (ra_account_identifiers args)"
    using assms(4) by (auto simp: resolve_default_icp_accounts_def split: if_splits option.splits)
  obtain sn where sn: "ss_active_snapshot (sw_st w) = Some sn" "os_snapshot_id sn = ra_snapshot_id args"
    "ys = map (\<lambda>a. lookup_owner (os_active_slot sn) a w) (ra_account_identifiers args)"
    using assms(5) by (auto simp: resolve_default_icp_accounts_def split: if_splits option.splits)
  have "os_snapshot_id sq < ss_next_snapshot_id (sw_st wq)"
    using inv(1) sq(1,2) assms(3) by (auto simp: sns_inv_def snapshot_inv_def)
  then have "\<not> ss_next_snapshot_id (sw_st wq) \<le> os_snapshot_id sn" by (simp add: sq(2) sn(2))
  with rel sn(1) have same: "ss_active_snapshot (sw_st wq) = Some sn"
    "sw_owners w (os_active_slot sn) = sw_owners wq (os_active_slot sn)"
    by (auto simp: sns_rel_def)
  have "snapshot_inv h wq sn" "snapshot_inv h w sn" using inv same(1) sn(1) by (simp_all add: sns_inv_def)
  then have "sc_reward_sns_root (ss_config (sw_st wq)) = sc_reward_sns_root (ss_config (sw_st w))"
    by (simp add: snapshot_inv_def)
  then have "context_from_state w = context_from_state wq"
    by (cases "sc_reward_sns_root (ss_config (sw_st w))")
      (simp_all add: context_from_state_def same(1) sn(1))
  moreover have "xs = ys" using sq sn same by (simp add: lookup_owner_def)
  ultimately show ?thesis by simp
qed

text \<open>C24: an undisturbed scan ends: from any reachable world with a scan under way, its lease free and a
  continuation timer pending, full pages followed by a shorter one, in ascending order and below
  the page cap, make the continuation timers publish a snapshot of exactly these neurons from the
  governance canister of the scan, release the lease and leave the next check scheduled.\<close>

theorem sns_scan_completes:
  assumes "sns_run h d w ps log" and "scan_ready w" and "ss_scan (sw_st w) = Some sc"
    and "\<forall>ns\<in>set full. 100 \<le> length ns \<and> length ns < 2 ^ 32" and "length final < 100"
    and "validate_neurons (oc_start_page_at sc) (concat full @ final) = None"
    and "unat (oc_pages_processed sc) + length full < 10000"
  shows "\<exists>w' sn. drive_scan h (full @ [final]) w = Some w' \<and> ss_scan (sw_st w') = None \<and>
    ss_active_snapshot (sw_st w') = Some sn \<and> os_active_slot sn = oc_staging_slot sc \<and>
    os_governance sn = oc_governance sc \<and> sw_published w' = sw_scanned w @ concat full @ final \<and>
    sw_owners w' (os_active_slot sn) = owner_index h (sw_scanned w @ concat full @ final) \<and>
    sw_next_timer w' \<noteq> None \<and> ss_scan_lock (sw_st w') = Some 0"
proof -
  obtain w' sn where w': "drive_scan h (full @ [final]) w = Some w'" "sns_inv h w'"
    "ss_active_snapshot (sw_st w') = Some sn"
    and rest: "ss_scan (sw_st w') = None" "os_active_slot sn = oc_staging_slot sc" "os_governance sn = oc_governance sc"
      "sw_published w' = sw_scanned w @ concat full @ final" "sw_next_timer w' \<noteq> None"
      "ss_scan_lock (sw_st w') = Some 0"
    using drive_scan_completes [OF sns_run_inv [OF assms(1)] assms(2-7)] by blast
  then have "sw_owners w' (os_active_slot sn) = owner_index h (sw_scanned w @ concat full @ final)"
    by (simp add: sns_inv_def snapshot_inv_def)
  with w' rest show ?thesis by blast
qed

text \<open>C25: no message of the canister panics, in any interleaving: neither a handler started in a
  reachable world nor a suspended one resumed with whatever reply; and every listing request goes
  to the governance canister of the running scan with its cursor, fewer than the page cap pages
  having been accepted.\<close>

theorem sns_never_panics:
  assumes "sns_run h d w ps log"
  shows "(\<forall>p\<in>sns_handlers h. p w \<noteq> Trap) \<and> (\<forall>sa q k r. Await sa q k \<in> set ps \<longrightarrow> k r w \<noteq> Trap) \<and>
    (\<forall>wq g n c. (wq, SReqListNeurons g n c) \<in> set log \<longrightarrow> (\<exists>sc. ss_scan (sw_st wq) = Some sc \<and>
       g = oc_governance sc \<and> c = oc_start_page_at sc \<and> n = 100 \<and> oc_pages_processed sc < 10000))"
proof -
  have reach: "reach (sns_installed d) (sns_handlers h) (sns_upgrades d) w ps log"
    using assms by (simp add: sns_run_def)
  have "\<exists>sc. ss_scan (sw_st wq) = Some sc \<and> g = oc_governance sc \<and> c = oc_start_page_at sc \<and> n = 100 \<and>
      oc_pages_processed sc < 10000" if "(wq, SReqListNeurons g n c) \<in> set log" for wq g n c
    using sns_sent_ok [OF assms that]
    by (auto simp: sns_inv_def scan_inv_def sns_neuron_page_size_def sns_owner_scan_max_pages_def)
  moreover have "p w \<noteq> Trap" if "p \<in> sns_handlers h" for p
    using sns.no_trap_spawn [OF _ reach that] by simp
  moreover have "k r w \<noteq> Trap" if "Await sa q k \<in> set ps" for sa q k r
    using sns.no_trap_resume [OF _ reach that] by simp
  ultimately show ?thesis by blast
qed

end
