(* ===== verification/SnsExamples.thy ===== *)
theory SnsExamples
  imports SnsProperties
begin

text \<open>
  A worked example for the SNS rewards properties: an installed canister completes a scan of one page,
  answers from it, and starts over; and a scan that needs a second page.
\<close>

definition ex_hash :: hash_ops where
  "ex_hash = \<lparr>hash_sha224 = \<lambda>bs. take 28 (drop 11 bs @ replicate 28 0), hash_crc32 = \<lambda>_. 7\<rparr>"

definition ex_neuron :: "nat \<Rightarrow> sns_neuron" where
  "ex_neuron i = \<lparr>sn_id = Some (replicate 31 0 @ [word_of_nat i]), sn_permissions = [],
     sn_stake_e8s = 0, sn_fees_e8s = 0\<rparr>"

definition ex_owned :: sns_neuron where
  "ex_owned = \<lparr>sn_id = Some (replicate 31 0 @ [200]),
     sn_permissions = [\<lparr>np_principal = Some [8], np_types = [1, 2]\<rparr>, \<lparr>np_principal = Some [9], np_types = [1]\<rparr>],
     sn_stake_e8s = 500, sn_fees_e8s = 20\<rparr>"

definition ex_sns :: sns_world where
  "ex_sns = sns_init False 5000000000 \<lparr>si_reward_sns_root = Some [1]\<rparr>"

abbreviation ex_canisters :: sns_canisters where
  "ex_canisters \<equiv> \<lparr>lc_root = Some [1], lc_governance = Some [2], lc_ledger = Some [3]\<rparr>"

lemmas ex_sns_defs = ex_sns_def sns_init_def sns_fresh_def sns_state_new_def sns_install_timers_def
  schedule_scan_check_def sns_set_state_def

lemmas tick_defs = fire_next_scan_timer_def scan_tick_def scan_guard_acquire_def tlg_acquire_def sat_add_def
  scan_lease_seconds_def sns_with_state_mut_def sns_set_state_def start_scan_def finish_start_scan_def
  scan_due_def owns_scan_def resolve_components_def begin_scan_def clear_slot_def scan_started_def
  schedule_next_due_check_def next_due_delay_def sat_mul_def sat_sub_def sns_owner_scan_interval_seconds_def
  schedule_scan_check_def scan_page_def process_one_page_def finish_page_def
  sns_owner_scan_max_pages_def sns_neuron_page_size_def scan_paged_def scan_guard_drop_def tlg_release_def
  schedule_start_retry_def scan_start_retry_seconds_def Let_def

lemma ex_owned_id [simp]: "sn_id ex_owned = Some (replicate 31 0 @ [200])"
  by (simp add: ex_owned_def)

lemma ex_owner [simp]: "owner_for_neuron ex_owned = Some [8]"
proof -
  let ?ps = "sn_permissions ex_owned"
  have best: "holders ?ps = {[8], [9]}" by (auto simp: holders_def ex_owned_def)
  have "{x \<in> set ?ps. np_principal x = Some [8]} = {\<lparr>np_principal = Some [8], np_types = [1, 2]\<rparr>}"
    "{x \<in> set ?ps. np_principal x = Some [9]} = {\<lparr>np_principal = Some [9], np_types = [1]\<rparr>}"
    by (auto simp: ex_owned_def)
  then have types: "held_types [8] ?ps = {1, 2}" "held_types [9] ?ps = {1}" by (simp_all add: held_types_def)
  have "select_owner ?ps = Some [8]" by (rule select_owner_unique) (simp_all add: best types)
  then show ?thesis by (simp add: owner_for_neuron_def effective_stake_is_positive_def ex_owned_def sat_sub_def)
qed

text \<open>Worlds of the example, five seconds after the epoch.\<close>

definition ex_state :: "owner_snapshot option \<Rightarrow> u64 \<Rightarrow> owner_scan option \<Rightarrow> u64 \<Rightarrow> u64 \<Rightarrow> sns_state" where
  "ex_state snapshot next_id scan started lock = \<lparr>ss_config = \<lparr>sc_reward_sns_root = Some [1]\<rparr>,
     ss_next_snapshot_id = next_id, ss_active_snapshot = snapshot, ss_scan = scan,
     ss_last_scan_started_at = started, ss_scan_lock = Some lock\<rparr>"

definition ex_world :: "sns_state \<Rightarrow> (owner_slot \<Rightarrow> (bytes \<times> principal) list) \<Rightarrow> (nat \<times> bool) option \<Rightarrow> nat
    \<Rightarrow> sns_neuron list \<Rightarrow> sns_neuron list \<Rightarrow> sns_world" where
  "ex_world st owners timer continuations scanned published = \<lparr>sw_now = 5000000000, sw_st = st,
     sw_stable = Some st, sw_owners = owners, sw_next_timer = timer, sw_continuations = continuations,
     sw_scanned = scanned, sw_published = published\<rparr>"

definition ex_scan :: "bytes option \<Rightarrow> u32 \<Rightarrow> u64 \<Rightarrow> owner_scan" where
  "ex_scan cursor pages neurons = \<lparr>oc_staging_slot = SlotA, oc_root = [1], oc_governance = [2],
     oc_ledger = [3], oc_started_at = 5000000000, oc_start_page_at = cursor,
     oc_pages_processed = pages, oc_neurons_processed = neurons\<rparr>"

definition ex_snapshot :: owner_snapshot where
  "ex_snapshot = \<lparr>os_snapshot_id = 1, os_active_slot = SlotA, os_root = [1], os_governance = [2],
     os_ledger = [3], os_started_at = 5000000000, os_completed_at = 5000000000,
     os_neuron_count = 1, os_owner_count = 1\<rparr>"

definition ex_account :: bytes where
  "ex_account = account_identifier_bytes ex_hash [8] None"

definition ex_index :: "owner_slot \<Rightarrow> (bytes \<times> principal) list" where
  "ex_index = (\<lambda>_. [])(SlotA := [(ex_account, [8])])"

lemmas ex_world_defs = ex_state_def ex_world_def ex_scan_def ex_snapshot_def ex_index_def ex_account_def

abbreviation ex_asked :: "(sns_world \<times> sns_req) list" where
  "ex_asked \<equiv>
    [(ex_world (ex_state None 1 (Some (ex_scan None 0 0)) 5000000000 1805) (\<lambda>_. [])
        (Some (86405000000000, False)) 0 [] [], SReqListNeurons [2] 100 None),
     (ex_world (ex_state None 1 None 0 1805) (\<lambda>_. []) None 0 [] [], SReqListSnsCanisters [1])]"

abbreviation ex_published :: sns_world where
  "ex_published \<equiv> ex_world (ex_state (Some ex_snapshot) 2 None 5000000000 0) ex_index
     (Some (86405000000000, False)) 0 [ex_owned] [ex_owned]"

lemma ex_clear: "(\<lambda>_. [])(slot := []) = (\<lambda>_. [])"
  by auto

lemma ex_first_scan:
  "run_script [SRespCanisters (Some ex_canisters), SRespNeurons (Some [ex_owned])]
     (fire_next_scan_timer ex_hash ex_sns) [] = (Some (ex_published, ()), ex_asked)"
  supply if_split [split del]
  by (simp add: ex_sns_defs tick_defs validate_page_def accept_page_def advance_scan_def publish_scan_def
      insert_page_owners_def insert_owner_def slot_len_def word_le_nat_alt ex_world_defs ex_clear)

lemma ex_retry:
  "run_script [SRespCanisters None] (scan_tick ex_hash True ex_published) ex_asked =
     (Some (ex_world (ex_state (Some ex_snapshot) 2 None 5000000000 0) ex_index
        (Some (65000000000, False)) 0 [ex_owned] [ex_owned], ()),
      (ex_world (ex_state (Some ex_snapshot) 2 None 5000000000 1805) ex_index
        (Some (86405000000000, False)) 0 [ex_owned] [ex_owned], SReqListSnsCanisters [1]) # ex_asked)"
  supply if_split [split del]
  by (simp add: tick_defs word_le_nat_alt ex_world_defs)

text \<open>The run so far.\<close>

lemma ex_sns_installed: "sns_installed False ex_sns"
  by (auto simp: sns_installed_def ex_sns_def)

lemma ex_run: "sns_run ex_hash False ex_published [] ex_asked"
proof -
  have "fire_next_scan_timer ex_hash \<in> sns_handlers ex_hash" by (simp add: sns_handlers_def)
  with reach.start [where init = "sns_installed False", OF ex_sns_installed]
  show ?thesis unfolding sns_run_def using ex_first_scan by (rule run_script_reach)
qed

lemma ex_run_later:
  "sns_run ex_hash False
     (ex_world (ex_state (Some ex_snapshot) 2 None 5000000000 0) ex_index
        (Some (65000000000, False)) 0 [ex_owned] [ex_owned]) []
     ((ex_world (ex_state (Some ex_snapshot) 2 None 5000000000 1805) ex_index
        (Some (86405000000000, False)) 0 [ex_owned] [ex_owned], SReqListSnsCanisters [1]) # ex_asked)"
proof -
  have "scan_tick ex_hash True \<in> sns_handlers ex_hash" by (simp add: sns_handlers_def)
  from run_script_reach [OF ex_run [unfolded sns_run_def] this ex_retry]
  show ?thesis by (simp add: sns_run_def)
qed

section \<open>Witnesses\<close>

lemma ex_account_length: "length ex_account = 32"
  unfolding ex_account_def by (rule length_account_identifier_bytes) (auto simp: digest_length_def ex_hash_def min_def)

lemma ex_lookup:
  assumes "ss_active_snapshot (sw_st w) = Some ex_snapshot" "sw_owners w = ex_index"
  shows "resolve_default_icp_accounts \<lparr>ra_snapshot_id = 1, ra_account_identifiers = [ex_account]\<rparr> w =
    ResolveOk [Some [8]]"
  using assms by (simp add: resolve_default_icp_accounts_def max_account_lookups_per_call_def ex_account_length
      ex_snapshot_def lookup_owner_def ex_index_def)

theorem sns_owner_is_best_holder_witness:
  "[8] \<in> holders (sn_permissions ex_owned) \<and>
   card (held_types [9] (sn_permissions ex_owned)) \<le> card (held_types [8] (sn_permissions ex_owned))"
proof -
  have "[9] \<in> holders (sn_permissions ex_owned)" by (auto simp: holders_def ex_owned_def)
  then show ?thesis using sns_owner_is_best_holder [of ex_owned "[8]"] by auto
qed


abbreviation ex_later :: sns_world where
  "ex_later \<equiv> ex_world (ex_state (Some ex_snapshot) 2 None 5000000000 0) ex_index
     (Some (65000000000, False)) 0 [ex_owned] [ex_owned]"

abbreviation ex_earlier :: sns_world where
  "ex_earlier \<equiv> ex_world (ex_state (Some ex_snapshot) 2 None 5000000000 1805) ex_index
     (Some (86405000000000, False)) 0 [ex_owned] [ex_owned]"

theorem sns_answers_stable_witness:
  "ResolveOk [Some [8]] = resolve_default_icp_accounts \<lparr>ra_snapshot_id = 1, ra_account_identifiers = [ex_account]\<rparr> ex_later \<and>
   (\<exists>c. context_from_state ex_later = Some c \<and> context_from_state ex_earlier = Some c)"
proof -
  let ?args = "\<lparr>ra_snapshot_id = 1, ra_account_identifiers = [ex_account]\<rparr>"
  obtain c where c: "context_from_state ex_later = Some c"
    by (simp add: context_from_state_def ex_world_def ex_state_def ex_snapshot_def)
  have "resolve_default_icp_accounts ?args ex_earlier = ResolveOk [Some [8]]"
    "resolve_default_icp_accounts ?args ex_later = ResolveOk [Some [8]]"
    by (rule ex_lookup; simp add: ex_world_def ex_state_def)+
  from sns_answers_stable [OF ex_run_later list.set_intros(1) _ this] c
  show ?thesis using ex_lookup [of ex_later] by (simp add: ex_world_def ex_state_def)
qed

theorem sns_never_panics_witness:
  "\<exists>sc. ss_scan (sw_st (ex_world (ex_state None 1 (Some (ex_scan None 0 0)) 5000000000 1805) (\<lambda>_. [])
        (Some (86405000000000, False)) 0 [] [])) = Some sc \<and> [2] = oc_governance sc"
  using sns_never_panics [OF ex_run] by auto

text \<open>A scan that needs a second page: a full page of neurons without owner, then \<open>ex_owned\<close>.\<close>

definition ex_full :: "sns_neuron list" where
  "ex_full = map ex_neuron [0..<100]"

lemma append_less_append [simp]: "xs @ ys < xs @ zs \<longleftrightarrow> ys < zs" for xs :: "u8 list"
  by (induction xs) simp_all

lemma ex_pages_listed: "listed (ex_full @ [ex_owned])"
proof -
  have "(word_of_nat i :: u8) < word_of_nat j" if "i < j" "j < 256" for i j
    using that by (simp add: word_less_nat_alt unat_of_nat)
  moreover from this [of _ 200] have "(word_of_nat i :: u8) < 200" if "i < 100" for i
    using that by simp
  ultimately show ?thesis
    by (auto simp: listed_def ex_full_def ex_neuron_def sorted_wrt_append sorted_wrt_map
        intro!: sorted_wrt_mono_rel [OF _ sorted_wrt_upt] simp del: replicate_append_same)
qed

lemma listed_valid:
  "listed ns \<Longrightarrow> (\<And>c n. previous = Some c \<Longrightarrow> n \<in> set ns \<Longrightarrow> c < the (sn_id n)) \<Longrightarrow>
   validate_neurons previous ns = None"
proof (induction ns arbitrary: previous)
  case (Cons n ns)
  from Cons.prems(1) obtain nid where n: "sn_id n = Some nid" "length nid = 32" by (auto simp: listed_def)
  have "validate_neurons (Some nid) ns = None"
    using Cons.prems(1) n by (intro Cons.IH) (auto simp: listed_def)
  moreover have "\<not> (case previous of None \<Rightarrow> False | Some cursor \<Rightarrow> nid \<le> cursor)"
    using Cons.prems(2) [of _ n] n by (auto simp: not_le split: option.split)
  ultimately show ?case using n by simp
qed simp

lemma ex_pages_valid: "validate_neurons None (ex_full @ [ex_owned]) = None"
  by (rule listed_valid [OF ex_pages_listed]) simp

lemma ex_full_facts [simp]:
  "length ex_full = 100" "ex_full \<noteq> []" "insert_page_owners h slot ex_full w = w"
  "oc_start_page_at sc = None \<Longrightarrow> validate_page sc ex_full = Inr (cursor_of ex_full)"
proof -
  show "length ex_full = 100" by (simp add: ex_full_def)
  then show ne: "ex_full \<noteq> []" by auto
  have "foldl (\<lambda>w n. case owner_for_neuron n of None \<Rightarrow> w | Some owner \<Rightarrow> insert_owner h slot owner w) w
      (map ex_neuron is) = w" for "is" :: "nat list"
    by (induction "is") (simp_all add: owner_for_neuron_def effective_stake_is_positive_def ex_neuron_def sat_sub_def)
  then show "insert_page_owners h slot ex_full w = w" by (simp add: insert_page_owners_def ex_full_def)
  show "validate_page sc ex_full = Inr (cursor_of ex_full)" if "oc_start_page_at sc = None"
    using ex_pages_valid that by (intro validate_neurons_page) (simp add: validate_neurons_append)
qed

abbreviation ex_midway :: sns_world where
  "ex_midway \<equiv> ex_world (ex_state None 1 (Some (ex_scan (cursor_of ex_full) 1 100)) 5000000000 0) (\<lambda>_. [])
     (Some (86405000000000, False)) 1 ex_full []"

lemma ex_first_page:
  "run_script [SRespCanisters (Some ex_canisters), SRespNeurons (Some ex_full)]
     (fire_next_scan_timer ex_hash ex_sns) [] = (Some (ex_midway, ()), ex_asked)"
  supply if_split [split del]
  by (simp add: ex_sns_defs tick_defs accept_page_def advance_scan_def schedule_continuation_def
      word_le_nat_alt ex_world_defs ex_clear)

theorem sns_scan_completes_witness:
  "\<exists>w' sn. drive_scan ex_hash ([] @ [[ex_owned]]) ex_midway = Some w' \<and> ss_active_snapshot (sw_st w') = Some sn \<and>
     sw_published w' = ex_full @ [ex_owned] \<and> sw_owners w' (os_active_slot sn) = owner_index ex_hash (ex_full @ [ex_owned])"
proof -
  have "fire_next_scan_timer ex_hash \<in> sns_handlers ex_hash" by (simp add: sns_handlers_def)
  with reach.start [where init = "sns_installed False", OF ex_sns_installed]
  have run: "sns_run ex_hash False ex_midway [] ex_asked"
    unfolding sns_run_def using ex_first_page by (rule run_script_reach)
  have ready: "scan_ready ex_midway" by (simp add: scan_ready_def ex_world_def ex_state_def)
  have scan: "ss_scan (sw_st ex_midway) = Some (ex_scan (cursor_of ex_full) 1 100)"
    by (simp add: ex_world_def ex_state_def)
  have "validate_neurons (cursor_of ex_full) [ex_owned] = None"
    using ex_pages_valid by (simp add: validate_neurons_append del: validate_neurons.simps)
  then have "validate_neurons (oc_start_page_at (ex_scan (cursor_of ex_full) 1 100)) (concat [] @ [ex_owned]) = None"
    by (simp add: ex_scan_def del: validate_neurons.simps)
  from sns_scan_completes [OF run ready scan _ _ this]
  show ?thesis by (simp add: ex_scan_def ex_world_def del: drive_scan.simps) blast
qed

end
