(* ===== verification/Threads.thy ===== *)
theory Threads
  imports Async
begin

text \<open>
  Rely-guarantee reasoning about handlers that own something.  The judgement \<open>rgt\<close> separates what
  a handler relies on from what it guarantees; a handler is known by a ticket, unique among all
  handlers ever started, so that a lease can be attributed to the handler that took it.  The locale
  \<open>rg_threads\<close> states when handlers judged for themselves behave so in every interleaving.
\<close>

primrec rgt :: "bool \<Rightarrow> ('s \<Rightarrow> bool) \<Rightarrow> ('s \<Rightarrow> 's \<Rightarrow> bool) \<Rightarrow> ('s \<Rightarrow> 's \<Rightarrow> bool) \<Rightarrow> ('s \<Rightarrow> 'q \<Rightarrow> bool)
    \<Rightarrow> ('s \<Rightarrow> 'a \<Rightarrow> bool) \<Rightarrow> ('s, 'q, 'r, 'a) proc \<Rightarrow> 's \<Rightarrow> bool" where
  "rgt T I R G C Q (Done s a) = (\<lambda>s0. I s \<and> G s0 s \<and> Q s a)"
| "rgt T I R G C Q (Await s q k) = (\<lambda>s0. I s \<and> G s0 s \<and> C s q \<and>
     (\<forall>r s'. I s' \<longrightarrow> R s s' \<longrightarrow> rgt T I R G C Q (k r s') s'))"
| "rgt T I R G C Q Trap = (\<lambda>s0. T)"

lemma rgt_start:
  assumes "rgt T I R G C Q p s1" "G s0 s1" "\<And>a b c. G a b \<Longrightarrow> G b c \<Longrightarrow> G a c"
  shows "rgt T I R G C Q p s0"
  using assms(1) by (cases p) (auto intro: assms(3)[OF assms(2)])

lemma rgt_post:
  assumes "rgt T I R G C Q p s0" "\<And>s a. I s \<Longrightarrow> Q s a \<Longrightarrow> Q' s a"
  shows "rgt T I R G C Q' p s0"
  using assms(1)
proof (induction p arbitrary: s0)
  case (Await s q k)
  then show ?case by (auto intro: Await.IH [OF rangeI rangeI])
qed (use assms(2) in simp_all)

lemma rgt_bind:
  assumes "rgt T I R G C Q' p s0"
    and "\<And>s a. I s \<Longrightarrow> Q' s a \<Longrightarrow> rgt T I R G C Q (f s a) s"
    and trans: "\<And>a b c. G a b \<Longrightarrow> G b c \<Longrightarrow> G a c"
  shows "rgt T I R G C Q (pbind p f) s0"
  using assms(1)
proof (induction p arbitrary: s0)
  case (Done s a)
  then have "rgt T I R G C Q (f s a) s" using assms(2) by simp
  then show ?case using Done trans by (auto intro: rgt_start)
next
  case (Await s q k)
  then show ?case by (auto intro: Await.IH [OF rangeI rangeI])
next
  case Trap
  then show ?case by simp
qed

text \<open>A handler whose result nobody reads.\<close>

lemma rgt_unit:
  assumes "rgt T I R G C Q p s0"
  shows "rgt T I R G C (\<lambda>_ _. True) (pbind p (\<lambda>s _. Done s ())) s0"
  using assms
proof (induction p arbitrary: s0)
  case (Await s q k)
  then show ?case by (auto intro: Await.IH [OF rangeI rangeI])
qed simp_all

text \<open>Requests sent under a judgement also satisfy what follows from the invariant.\<close>

lemma rgt_requests:
  assumes "rgt T I R G C Q p s0" "\<And>s q. I s \<Longrightarrow> C s q \<Longrightarrow> C' s q"
  shows "rgt T I R G C' Q p s0"
  using assms(1)
proof (induction p arbitrary: s0)
  case (Await s q k)
  then show ?case by (auto intro: Await.IH [OF rangeI rangeI] assms(2))
qed simp_all

section \<open>Systems of handlers\<close>

text \<open>
  \<open>ticket s\<close> is the number of handlers started; a handler started in \<open>s\<close> has the ticket
  \<open>ticket s\<close>.  \<open>R i\<close> is what the handler with ticket \<open>i\<close> relies on, \<open>G i\<close> what it
  guarantees; \<open>K\<close> is what holds between any two states of a run.
\<close>

locale rg_threads =
  fixes T :: bool
    and I :: "'s \<Rightarrow> bool"
    and R G :: "nat \<Rightarrow> 's \<Rightarrow> 's \<Rightarrow> bool"
    and K :: "'s \<Rightarrow> 's \<Rightarrow> bool"
    and C :: "'s \<Rightarrow> 'q \<Rightarrow> bool"
    and ticket :: "'s \<Rightarrow> nat"
    and init :: "'s \<Rightarrow> bool"
    and H :: "('s \<Rightarrow> ('s, 'q, 'r, unit) proc) set"
    and U :: "('s \<Rightarrow> 's option) set"
  assumes R_refl: "R i s s"
    and R_trans: "R i a b \<Longrightarrow> R i b c \<Longrightarrow> R i a c"
    and K_refl: "K s s"
    and K_trans: "K a b \<Longrightarrow> K b c \<Longrightarrow> K a c"
    and compatible: "i \<noteq> j \<Longrightarrow> I s \<Longrightarrow> I s' \<Longrightarrow> G i s s' \<Longrightarrow> R j s s'"
    and guarantee_K: "G i s s' \<Longrightarrow> K s s'"
    and ticket_used: "G i s s' \<Longrightarrow> i < ticket s' \<and> ticket s \<le> ticket s'"
    and init_inv: "init s \<Longrightarrow> I s"
    and handlers: "h \<in> H \<Longrightarrow> I s \<Longrightarrow> rgt T I (R (ticket s)) (G (ticket s)) C (\<lambda>_ _. True) (h s) s"
    and upgrades: "u \<in> U \<Longrightarrow> I s \<Longrightarrow> u s = Some s' \<Longrightarrow> I s' \<and> K s s'"
begin

text \<open>A suspended handler with its ticket.\<close>

definition waiting :: "'s \<Rightarrow> nat \<Rightarrow> ('s, 'q, 'r, unit) proc \<Rightarrow> bool" where
  "waiting s i p \<longleftrightarrow> i < ticket s \<and> (\<exists>sa q k. p = Await sa q k \<and> R i sa s \<and>
     (\<forall>r s'. I s' \<longrightarrow> R i sa s' \<longrightarrow> rgt T I (R i) (G i) C (\<lambda>_ _. True) (k r s') s'))"

lemma waiting_step: "waiting s j p \<Longrightarrow> I s \<Longrightarrow> I s' \<Longrightarrow> G i s s' \<Longrightarrow> i \<noteq> j \<Longrightarrow> waiting s' j p"
proof -
  assume w: "waiting s j p" and step: "I s" "I s'" "G i s s'" "i \<noteq> j"
  then have now: "R j s s'" "ticket s \<le> ticket s'" using compatible ticket_used by simp_all
  from w obtain sa q k where p: "p = Await sa q k" "R j sa s" "j < ticket s"
    "\<forall>r s'. I s' \<longrightarrow> R j sa s' \<longrightarrow> rgt T I (R j) (G j) C (\<lambda>_ _. True) (k r s') s'"
    unfolding waiting_def by (elim conjE exE) simp
  have "R j sa s'" using p(2) now(1) by (rule R_trans)
  then show ?thesis using p now(2) unfolding waiting_def by simp
qed

lemma waiting_new:
  "rgt T I (R i) (G i) C (\<lambda>_ _. True) (Await s q k) s0 \<Longrightarrow> waiting s i (Await s q k)"
  unfolding waiting_def using R_refl ticket_used by fastforce

lemma waiting_resume:
  "waiting s i (Await sa q k) \<Longrightarrow> I s \<Longrightarrow> rgt T I (R i) (G i) C (\<lambda>_ _. True) (k r s) s"
  unfolding waiting_def by auto

text \<open>All suspended handlers, with tickets that differ.\<close>

definition all_waiting :: "'s \<Rightarrow> ('s, 'q, 'r, unit) proc list \<Rightarrow> bool" where
  "all_waiting s ps \<longleftrightarrow> (\<exists>is. distinct is \<and> list_all2 (waiting s) is ps)"

lemma all_waiting_others:
  assumes "distinct is" "list_all2 (waiting s) is ps" "I s" "I s'" "G i s s'" "i \<notin> set is"
  shows "list_all2 (waiting s') is ps"
proof -
  have "waiting s' (is ! n) (ps ! n)" if "n < length is" "waiting s (is ! n) (ps ! n)" for n
    using that assms(3-6) waiting_step by (metis nth_mem)
  then show ?thesis using assms(2) by (simp add: list_all2_conv_all_nth)
qed

lemma list_all2_fresh:
  assumes "list_all2 (waiting s) is ps"
  shows "ticket s \<notin> set is"
proof
  assume "ticket s \<in> set is"
  then obtain n where "n < length is" "is ! n = ticket s" by (auto simp: in_set_conv_nth)
  then have "waiting s (ticket s) (ps ! n)" using assms by (auto simp: list_all2_conv_all_nth)
  then show False by (simp add: waiting_def)
qed

fun log_ok :: "'s \<Rightarrow> ('s \<times> 'q) list \<Rightarrow> bool" where
  "log_ok s [] = True"
| "log_ok s ((sq, q) # log) = (K sq s \<and> I sq \<and> C sq q \<and> log_ok sq log)"

lemma log_ok_later: "log_ok s log \<Longrightarrow> K s s' \<Longrightarrow> log_ok s' log"
  by (cases log) (auto intro: K_trans)

lemma log_ok_in: "log_ok s log \<Longrightarrow> (sq, q) \<in> set log \<Longrightarrow> I sq \<and> C sq q \<and> K sq s"
  by (induction s log rule: log_ok.induct) (auto intro: K_trans)

lemma log_ok_pair: "log_ok s log \<Longrightarrow> log = pre @ (s2, q2) # mid @ (s1, q1) # post \<Longrightarrow> K s1 s2"
proof (induction pre arbitrary: s log)
  case Nil
  then show ?case using log_ok_in [of s2 "mid @ (s1, q1) # post" s1 q1] by simp
next
  case (Cons e pre)
  then show ?case by (cases e) auto
qed

text \<open>What a step of the handler with ticket \<open>i\<close> leaves.\<close>

lemma step_ok:
  assumes ok: "I s" "distinct is" "list_all2 (waiting s) is ps" "log_ok s log" and i: "i \<notin> set is"
    and step: "I s'" "G i s s'"
  shows "list_all2 (waiting s') is ps" "log_ok s' log"
  using all_waiting_others [OF ok(2,3,1) step i] log_ok_later [OF ok(4) guarantee_K [OF step(2)]] by simp_all

lemma middle:
  assumes "list_all2 (waiting s) is (ps @ p # ps')" "distinct is"
  obtains js i js' where "is = js @ i # js'" "list_all2 (waiting s) (js @ js') (ps @ ps')"
    "waiting s i p" "i \<notin> set (js @ js')" "distinct (js @ js')" "length js = length ps"
proof -
  from assms(1) obtain us vs where split: "is = us @ vs" "list_all2 (waiting s) us ps"
    "list_all2 (waiting s) vs (p # ps')" by (auto simp: list_all2_append2)
  then obtain i js' where vs: "vs = i # js'" "waiting s i p" "list_all2 (waiting s) js' ps'"
    by (auto simp: list_all2_Cons2)
  show thesis
  proof (rule that)
    show "is = us @ i # js'" using split vs by simp
    show "list_all2 (waiting s) (us @ js') (ps @ ps')" using split(2) vs(3) by (rule list_all2_appendI)
    show "waiting s i p" by (rule vs(2))
    show "i \<notin> set (us @ js')" "distinct (us @ js')" using assms(2) split vs by auto
    show "length us = length ps" using split(2) by (rule list_all2_lengthD)
  qed
qed

lemma reach_ok:
  assumes "reach init H U s ps log"
  shows "I s \<and> all_waiting s ps \<and> log_ok s log"
  using assms
proof induction
  case (start s)
  then show ?case by (simp add: init_inv all_waiting_def)
next
  case (spawn_done s ps log h s' a)
  then obtain "is" where w: "distinct is" "list_all2 (waiting s) is ps" unfolding all_waiting_def by blast
  have "I s" "log_ok s log" using spawn_done.IH by simp_all
  have step: "I s'" "G (ticket s) s s'"
    using handlers [OF spawn_done.hyps(2) \<open>I s\<close>] unfolding spawn_done.hyps(3) by simp_all
  from step_ok [OF \<open>I s\<close> w \<open>log_ok s log\<close> list_all2_fresh [OF w(2)] step] w(1) step(1)
  show ?case unfolding all_waiting_def by blast
next
  case (spawn_await s ps log h s' q k)
  then obtain "is" where w: "distinct is" "list_all2 (waiting s) is ps" unfolding all_waiting_def by blast
  have "I s" "log_ok s log" using spawn_await.IH by simp_all
  have h: "rgt T I (R (ticket s)) (G (ticket s)) C (\<lambda>_ _. True) (Await s' q k) s"
    using handlers [OF spawn_await.hyps(2) \<open>I s\<close>] unfolding spawn_await.hyps(3) .
  then have step: "I s'" "G (ticket s) s s'" "C s' q" by simp_all
  note rest = step_ok [OF \<open>I s\<close> w \<open>log_ok s log\<close> list_all2_fresh [OF w(2)] step(1,2)]
  have "distinct (ticket s # is)" using w list_all2_fresh by simp
  moreover have "list_all2 (waiting s') (ticket s # is) (Await s' q k # ps)"
    using rest(1) waiting_new [OF h] by simp
  ultimately have "all_waiting s' (Await s' q k # ps)" unfolding all_waiting_def by blast
  then show ?case using step rest(2) K_refl by simp
next
  case (spawn_trap s ps log h)
  then show ?case by simp
next
  case (resume_done s ps sa q k ps' log r s' a)
  then obtain "is" where w: "distinct is" "list_all2 (waiting s) is (ps @ Await sa q k # ps')"
    unfolding all_waiting_def by blast
  from middle [OF w(2,1)] obtain js i js' where m: "list_all2 (waiting s) (js @ js') (ps @ ps')"
    "waiting s i (Await sa q k)" "i \<notin> set (js @ js')" "distinct (js @ js')" by metis
  have "I s" "log_ok s log" using resume_done.IH by simp_all
  have step: "I s'" "G i s s'"
    using waiting_resume [OF m(2) \<open>I s\<close>, of r] unfolding resume_done.hyps(2) by simp_all
  from step_ok [OF \<open>I s\<close> m(4,1) \<open>log_ok s log\<close> m(3) step] m(4) step(1)
  show ?case unfolding all_waiting_def by blast
next
  case (resume_await s ps sa q k ps' log r s' q' k')
  then obtain "is" where w: "distinct is" "list_all2 (waiting s) is (ps @ Await sa q k # ps')"
    unfolding all_waiting_def by blast
  from middle [OF w(2,1)] obtain js i js' where m: "list_all2 (waiting s) (js @ js') (ps @ ps')"
    "waiting s i (Await sa q k)" "i \<notin> set (js @ js')" "distinct (js @ js')" "length js = length ps" by metis
  have "I s" "log_ok s log" using resume_await.IH by simp_all
  have k: "rgt T I (R i) (G i) C (\<lambda>_ _. True) (Await s' q' k') s"
    using waiting_resume [OF m(2) \<open>I s\<close>, of r] unfolding resume_await.hyps(2) .
  then have step: "I s'" "G i s s'" "C s' q'" by simp_all
  note rest = step_ok [OF \<open>I s\<close> m(4,1) \<open>log_ok s log\<close> m(3) step(1,2)]
  have "list_all2 (waiting s') js ps" "list_all2 (waiting s') js' ps'"
    using rest(1) m(5) by (simp_all add: list_all2_append)
  then have "list_all2 (waiting s') (js @ i # js') (ps @ Await s' q' k' # ps')"
    using waiting_new [OF k] by (auto intro: list_all2_appendI)
  moreover have "distinct (js @ i # js')" using m(3,4) by auto
  ultimately have "all_waiting s' (ps @ Await s' q' k' # ps')" unfolding all_waiting_def by blast
  then show ?case using step rest(2) K_refl by simp
next
  case (resume_trap s ps sa q k ps' log r)
  then obtain "is" where w: "distinct is" "list_all2 (waiting s) is (ps @ Await sa q k # ps')"
    unfolding all_waiting_def by blast
  from middle [OF w(2,1)] have "all_waiting s (ps @ ps')" unfolding all_waiting_def by metis
  then show ?case using resume_trap.IH by simp
next
  case (upgrade s ps log u s')
  then show ?case using upgrades [of u s s'] by (auto simp: all_waiting_def intro: log_ok_later)
qed

lemma reach_inv: "reach init H U s ps log \<Longrightarrow> I s"
  using reach_ok by blast

lemma reach_requests: "reach init H U s ps log \<Longrightarrow> (sq, q) \<in> set log \<Longrightarrow> I sq \<and> C sq q"
  using reach_ok log_ok_in by blast

lemma reach_order: "reach init H U s ps (pre @ (s2, q2) # mid @ (s1, q1) # post) \<Longrightarrow> K s1 s2"
  using reach_ok log_ok_pair by blast

lemma reach_since: "reach init H U s ps log \<Longrightarrow> (sq, q) \<in> set log \<Longrightarrow> K sq s"
  using reach_ok log_ok_in by blast

end

end
