(* ===== verification/Asks.thy ===== *)
theory Asks
  imports Threads
begin

text \<open>
  Asynchronous code that only asks: it calls other canisters and computes with their answers, but touches no
  state of its own canister.  Such code is a tree of questions; \<open>perform\<close> runs it as a process of any
  canister.
\<close>

datatype (dead 'q, dead 'r, 'a) ask =
    Answer 'a
  | Ask 'q "'r \<Rightarrow> ('q, 'r, 'a) ask"

primrec ask_bind :: "('q, 'r, 'a) ask \<Rightarrow> ('a \<Rightarrow> ('q, 'r, 'b) ask) \<Rightarrow> ('q, 'r, 'b) ask" where
  "ask_bind (Answer a) f = f a"
| "ask_bind (Ask q k) f = Ask q (\<lambda>r. ask_bind (k r) f)"

text \<open>Questions are sent through \<open>req\<close>, answers read by \<open>resp\<close>.\<close>

primrec perform :: "('q \<Rightarrow> 'req) \<Rightarrow> ('resp \<Rightarrow> 'r) \<Rightarrow> ('q, 'r, 'a) ask \<Rightarrow> 's \<Rightarrow> ('s, 'req, 'resp, 'a) proc" where
  "perform req resp (Answer a) = (\<lambda>s. Done s a)"
| "perform req resp (Ask q k) = (\<lambda>s. Await s (req q) (\<lambda>r s'. perform req resp (k (resp r)) s'))"

text \<open>What holds of every question and of the answer, whatever the replies are.\<close>

primrec asks :: "('q \<Rightarrow> bool) \<Rightarrow> ('a \<Rightarrow> bool) \<Rightarrow> ('q, 'r, 'a) ask \<Rightarrow> bool" where
  "asks C Q (Answer a) \<longleftrightarrow> Q a"
| "asks C Q (Ask q k) \<longleftrightarrow> C q \<and> (\<forall>r. asks C Q (k r))"

lemma asks_bind:
  assumes "asks C Q' p" "\<And>a. Q' a \<Longrightarrow> asks C Q (f a)"
  shows "asks C Q (ask_bind p f)"
  using assms(1)
proof (induction p)
  case (Ask q k)
  then show ?case by (auto intro: Ask.IH [OF rangeI])
qed (use assms(2) in simp)

lemma asks_mono:
  assumes "asks C Q p" "\<And>q. C q \<Longrightarrow> C' q" "\<And>a. Q a \<Longrightarrow> Q' a"
  shows "asks C' Q' p"
  using assms(1)
proof (induction p)
  case (Ask q k)
  then show ?case by (auto intro: assms(2) Ask.IH [OF rangeI])
qed (use assms(3) in simp)

text \<open>The questions asked on one list of replies, and the answer when the replies are enough.\<close>

fun run_ask :: "'r list \<Rightarrow> ('q, 'r, 'a) ask \<Rightarrow> 'a option \<times> 'q list" where
  "run_ask rs (Answer a) = (Some a, [])"
| "run_ask [] (Ask q k) = (None, [q])"
| "run_ask (r # rs) (Ask q k) = (case run_ask rs (k r) of (a, qs) \<Rightarrow> (a, q # qs))"

lemma run_ask_asks: "asks C Q p \<Longrightarrow> run_ask rs p = (a, qs) \<Longrightarrow> list_all C qs \<and> (\<forall>x. a = Some x \<longrightarrow> Q x)"
  by (induction rs p arbitrary: a qs rule: run_ask.induct) (auto split: prod.splits)

text \<open>The same with the history of questions and replies.\<close>

primrec asks_since :: "(('q \<times> 'r) list \<Rightarrow> 'a \<Rightarrow> bool) \<Rightarrow> ('q, 'r, 'a) ask \<Rightarrow> ('q \<times> 'r) list \<Rightarrow> bool" where
  "asks_since Q (Answer a) = (\<lambda>h. Q h a)"
| "asks_since Q (Ask q k) = (\<lambda>h. \<forall>r. asks_since Q (k r) (h @ [(q, r)]))"

lemma asks_since_bind:
  assumes "asks_since Q' p h" "\<And>h' a. Q' h' a \<Longrightarrow> asks_since Q (f a) h'"
  shows "asks_since Q (ask_bind p f) h"
  using assms(1)
proof (induction p arbitrary: h)
  case (Ask q k)
  then show ?case by (auto intro: Ask.IH [OF rangeI])
qed (use assms(2) in simp)

lemma run_ask_since:
  "asks_since Q p h \<Longrightarrow> run_ask rs p = (Some a, qs) \<Longrightarrow> length qs \<le> length rs \<and> Q (h @ zip qs rs) a"
proof (induction rs p arbitrary: a qs h rule: run_ask.induct)
  case (3 r rs q k)
  obtain b qs' where run: "run_ask rs (k r) = (b, qs')" by fastforce
  then have "b = Some a" "qs = q # qs'" using 3(3) by simp_all
  moreover have "asks_since Q (k r) (h @ [(q, r)])" using 3(2) by simp
  ultimately show ?case using 3(1) [of "h @ [(q, r)]" a qs'] run by simp
qed simp_all

text \<open>Code that only asks keeps whatever its canister guarantees.\<close>

lemma perform_rgt:
  assumes "asks C' Q' p" "I s" "\<And>s. I s \<Longrightarrow> G s s" "\<And>s q. I s \<Longrightarrow> C' q \<Longrightarrow> C s (req q)"
    and "\<And>s a. I s \<Longrightarrow> Q' a \<Longrightarrow> Q s a"
  shows "rgt T I R G C Q (perform req resp p s) s"
  using assms(1,2)
proof (induction p arbitrary: s)
  case (Answer a)
  then show ?case using assms(3,5) by simp
next
  case (Ask q k)
  then show ?case using assms(3,4) by (auto intro: Ask.IH [OF rangeI])
qed

end
