(* ===== verification/RelayTypes.thy ===== *)
theory RelayTypes
  imports Ledger
begin

text \<open>
  The state of the Relay canister (\<open>src/canisters/relay/src/state.rs\<close>) and the types of its plans
  (\<open>logic.rs\<close>).  An ordered map is an association list in key order; maps are read by
  \<open>map_of\<close> and traversed as lists.
\<close>

datatype cycles_probe_policy =
    ProbeAuto
  | ProbeFixedBlackhole principal

datatype surplus_target =
    SurplusCanister principal
  | SurplusNeuron u64

record surplus_recipient =
  sp_target :: surplus_target
  sp_memo :: "bytes option"

record rconfig =
  rcf_managed_canisters :: "principal list"
  rcf_ledger_canister_id :: principal
  rcf_cmc_canister_id :: principal
  rcf_governance_canister_id :: principal
  rcf_sns_rewards_canister_id :: principal
  rcf_icp_index_canister_id :: principal
  rcf_cycles_probe_policy :: cycles_probe_policy
  rcf_main_interval_seconds :: u64
  rcf_max_transfers_per_tick :: "u32 option"
  rcf_surplus_recipients :: "surplus_recipient list"

datatype relay_mode = BaselineOnly | TopUpThenSurplus | Degraded | NoFunds

datatype cycles_sample_source =
    SelfCanister | DirectCanisterStatus | BlackholeStatus | NnsRootStatus | SnsRootStatus | SnsSwapStatus

record cycles_snapshot =
  cy_cycles :: u128
  cy_timestamp_nanos :: u64
  cy_source :: cycles_sample_source

record probe_failure =
  pf_canister_id :: principal
  pf_error :: string
  pf_consecutive_failures :: u32

datatype probe_classification =
    Observable
  | TransientProbeFailure u32
  | UnavailableAfterConsecutiveFailures u32

record target_probe_status =
  tp_canister_id :: principal
  tp_consecutive_probe_failures :: u32
  tp_classification :: probe_classification
  tp_skipped_reason :: "string option"

record canister_burn_sample =
  cb_canister_id :: principal
  cb_previous_cycles :: "u128 option"
  cb_current_cycles :: u128
  cb_relay_minted_cycles :: u128
  cb_burn_cycles :: u128
  cb_carried_deficit_cycles :: u128
  cb_target_topup_cycles :: u128
  cb_gross_share_e8s :: u64
  cb_amount_e8s :: u64
  cb_sent_topup_e8s :: u64
  cb_actual_minted_cycles :: u128
  cb_remaining_deficit_cycles :: u128
  cb_skipped_reason :: "string option"

record conversion_estimate =
  ce_cycles_per_e8 :: u128
  ce_timestamp_nanos :: u64

record surplus_transfer_sample =
  xs_target :: surplus_target
  xs_account :: account
  xs_gross_share_e8s :: u64
  xs_amount_e8s :: u64
  xs_memo_len :: "u32 option"
  xs_skipped_reason :: "string option"

record relay_summary =
  ry_mode :: relay_mode
  ry_started_at_ts_nanos :: u64
  ry_completed_at_ts_nanos :: "u64 option"
  ry_default_account_balance_start_e8s :: u64
  ry_fee_e8s :: u64
  ry_managed_canister_count :: u32
  ry_min_cycles_balance :: "u128 option"
  ry_total_burn_cycles :: u128
  ry_total_target_topup_cycles :: u128
  ry_total_actual_minted_cycles :: u128
  ry_total_carried_deficit_cycles :: u128
  ry_total_remaining_deficit_cycles :: u128
  ry_deficit_canister_count :: u32
  ry_transfer_count :: u32
  ry_ledger_transfer_count :: u32
  ry_ledger_sent_e8s :: u64
  ry_ledger_fees_e8s :: u64
  ry_cmc_notify_success_count :: u32
  ry_cmc_notify_failed_count :: u32
  ry_cmc_notify_ambiguous_count :: u32
  ry_planned_retained_e8s :: u64
  ry_known_unspent_e8s :: u64
  ry_ambiguous_e8s :: u64
  ry_failed_transfers :: u32
  ry_ambiguous_transfers :: u32
  ry_partial_tick_count :: u32
  ry_probe_failures :: "probe_failure list"
  ry_target_probe_statuses :: "target_probe_status list"
  ry_canisters :: "canister_burn_sample list"
  ry_conversion_estimate_used :: "conversion_estimate option"
  ry_surplus_e8s_before_fees :: u64
  ry_surplus_transfers :: "surplus_transfer_sample list"
  ry_skipped_surplus_reason :: "string option"
  ry_surplus_allowed_despite_unavailable_targets :: bool

definition relay_summary_started :: "relay_mode \<Rightarrow> u64 \<Rightarrow> u32 \<Rightarrow> relay_summary" where
  "relay_summary_started mode started_at_ts_nanos managed_canister_count =
     \<lparr>ry_mode = mode, ry_started_at_ts_nanos = started_at_ts_nanos, ry_completed_at_ts_nanos = None,
      ry_default_account_balance_start_e8s = 0, ry_fee_e8s = 0,
      ry_managed_canister_count = managed_canister_count, ry_min_cycles_balance = None,
      ry_total_burn_cycles = 0, ry_total_target_topup_cycles = 0, ry_total_actual_minted_cycles = 0,
      ry_total_carried_deficit_cycles = 0, ry_total_remaining_deficit_cycles = 0,
      ry_deficit_canister_count = 0, ry_transfer_count = 0, ry_ledger_transfer_count = 0,
      ry_ledger_sent_e8s = 0, ry_ledger_fees_e8s = 0, ry_cmc_notify_success_count = 0,
      ry_cmc_notify_failed_count = 0, ry_cmc_notify_ambiguous_count = 0, ry_planned_retained_e8s = 0,
      ry_known_unspent_e8s = 0, ry_ambiguous_e8s = 0, ry_failed_transfers = 0,
      ry_ambiguous_transfers = 0, ry_partial_tick_count = 0, ry_probe_failures = [],
      ry_target_probe_statuses = [], ry_canisters = [], ry_conversion_estimate_used = None,
      ry_surplus_e8s_before_fees = 0, ry_surplus_transfers = [], ry_skipped_surplus_reason = None,
      ry_surplus_allowed_despite_unavailable_targets = False\<rparr>"

text \<open>The totals are wrapping sums, the count a cast.\<close>

definition refresh_canister_totals :: "relay_summary \<Rightarrow> relay_summary" where
  "refresh_canister_totals s = s\<lparr>
     ry_total_target_topup_cycles := sum_list (map cb_target_topup_cycles (ry_canisters s)),
     ry_total_actual_minted_cycles := sum_list (map cb_actual_minted_cycles (ry_canisters s)),
     ry_total_carried_deficit_cycles := sum_list (map cb_carried_deficit_cycles (ry_canisters s)),
     ry_total_remaining_deficit_cycles := sum_list (map cb_remaining_deficit_cycles (ry_canisters s)),
     ry_deficit_canister_count :=
       word_of_nat (length (filter (\<lambda>c. cb_remaining_deficit_cycles c > 0) (ry_canisters s)))\<rparr>"

datatype active_relay_mode = ActiveTopUpThenSurplus

datatype relay_transfer_kind =
    CmcTopUp principal
  | SurplusIcp surplus_target account "bytes option"
  | FaucetCommitment u64 account subaccount bytes

datatype relay_transfer_phase = RAwaitingTransfer | RTransferAccepted u64

record relay_transfer =
  rt_kind :: relay_transfer_kind
  rt_gross_share_e8s :: u64
  rt_amount_e8s :: u64
  rt_created_at_time_nanos :: u64
  rt_phase :: relay_transfer_phase

record relay_job =
  rj_id :: u64
  rj_mode :: active_relay_mode
  rj_started_at_ts_nanos :: u64
  rj_fee_e8s :: u64
  rj_balance_start_e8s :: u64
  rj_current_cycles :: "(principal \<times> cycles_snapshot) list"
  rj_canisters :: "canister_burn_sample list"
  rj_surplus_transfers :: "surplus_transfer_sample list"
  rj_surplus_memos :: "bytes option list"
  rj_surplus_phase_planned :: bool
  rj_pending_transfer :: "relay_transfer option"
  rj_next_transfer_index :: u32
  rj_surplus_transfer_index :: u32
  rj_next_created_at_time_nanos :: u64
  rj_summary :: relay_summary

record faucet_commitment_transfer =
  fx_transfer :: relay_transfer
  fx_fee_e8s :: u64
  fx_balance_start_e8s :: u64

text \<open>\<open>CyclesProbeRoute\<close> of \<open>crates/ic-clients/src/cycles_probe.rs\<close> is the parameter \<open>'p\<close>.\<close>

record 'p rstate =
  rs_config :: rconfig
  rs_last_main_run_ts :: u64
  rs_main_lock_state_ts :: "u64 option"
  rs_splitter_lock_state_ts :: "u64 option"
  rs_splitter_main_continuation_requested :: bool
  rs_splitter_main_continuation_timer_pending :: bool
  rs_last_completed_cycles :: "(principal \<times> cycles_snapshot) list"
  rs_relay_minted_cycles_since_sample :: "(principal \<times> u128) list"
  rs_recovery_deficit_cycles :: "(principal \<times> u128) list"
  rs_consecutive_probe_failures :: "(principal \<times> u32) list"
  rs_cached_cycles_probe_routes :: "(principal \<times> 'p) list"
  rs_conversion_estimate :: "conversion_estimate option"
  rs_last_known_ledger_fee_e8s :: "u64 option"
  rs_active_job :: "relay_job option"
  rs_active_faucet_commitment_transfer :: "faucet_commitment_transfer option"
  rs_last_summary :: "relay_summary option"
  rs_next_job_id :: u64

definition rstate_new :: "rconfig \<Rightarrow> u64 \<Rightarrow> 'p rstate" where
  "rstate_new config now_secs = \<lparr>rs_config = config,
     rs_last_main_run_ts = sat_sub now_secs (10 * 365 * 24 * 60 * 60),
     rs_main_lock_state_ts = Some 0, rs_splitter_lock_state_ts = Some 0,
     rs_splitter_main_continuation_requested = False,
     rs_splitter_main_continuation_timer_pending = False, rs_last_completed_cycles = [],
     rs_relay_minted_cycles_since_sample = [], rs_recovery_deficit_cycles = [],
     rs_consecutive_probe_failures = [], rs_cached_cycles_probe_routes = [],
     rs_conversion_estimate = None, rs_last_known_ledger_fee_e8s = None, rs_active_job = None,
     rs_active_faucet_commitment_transfer = None, rs_last_summary = None, rs_next_job_id = 1\<rparr>"

section \<open>Plans\<close>

record burn_plan =
  bp_canister_id :: principal
  bp_previous_cycles :: "u128 option"
  bp_current_cycles :: u128
  bp_relay_minted_cycles :: u128
  bp_burn_cycles :: u128
  bp_carried_deficit_cycles :: u128
  bp_target_topup_cycles :: u128
  bp_gross_share_e8s :: u64
  bp_amount_e8s :: u64
  bp_actual_minted_cycles :: u128
  bp_remaining_deficit_cycles :: u128
  bp_skipped_reason :: "string option"

record resolved_surplus_recipient =
  rr_target :: surplus_target
  rr_account :: account
  rr_memo :: "bytes option"

record allocation_plan =
  al_topups :: "burn_plan list"
  al_topup_phase_fully_funded :: bool
  al_skipped_surplus_reason :: "string option"

record faucet_commitment_plan =
  fp_source_account :: account
  fp_destination_account :: account
  fp_balance_start_e8s :: u64
  fp_fee_e8s :: u64
  fp_amount_e8s :: u64
  fp_memo :: bytes

datatype splitter_destination = ToDefaultAccount | ToSubaccountOne

record splitter_leg_plan =
  lp_destination :: splitter_destination
  lp_gross_share_e8s :: u64
  lp_amount_e8s :: u64
  lp_fee_e8s :: u64
  lp_created_at_time_nanos :: u64

record splitter_plan =
  sl_splitter_number :: u8
  sl_percentage_to_default :: u8
  sl_source_subaccount :: subaccount
  sl_balance_start_e8s :: u64
  sl_default_leg :: splitter_leg_plan
  sl_subaccount_one_leg :: splitter_leg_plan

end
