(* ===== verification/RelayLogic.thy ===== *)
theory RelayLogic
  imports RelayTypes FaucetLogic "HOL-Library.Product_Lexorder"
begin

text \<open>
  The Relay's arithmetic and plans (\<open>src/canisters/relay/src/logic.rs\<close>): splitter plans, the
  commitment of subaccount 1, cycle burn and top-up targets, the proportional allocation of a
  balance that does not cover them, and equal surplus shares.
\<close>

definition topup_headroom_numerator :: u128 where "topup_headroom_numerator = 101"
definition topup_headroom_denominator :: u128 where "topup_headroom_denominator = 100"
definition conversion_estimate_max_age_nanos :: u64 where
  "conversion_estimate_max_age_nanos = 14 * 24 * 60 * 60 * 1000000000"
definition min_raw_icp_recipient_amount_e8s :: u64 where
  "min_raw_icp_recipient_amount_e8s = 100000000"
definition splitter_percentages :: "u8 list" where
  "splitter_percentages = [10, 20, 30, 40, 50, 60, 70, 80, 90]"
definition faucet_neuron_id :: u64 where "faucet_neuron_id = 11614578985374291210"
definition target_unavailable_failure_threshold :: u32 where
  "target_unavailable_failure_threshold = 3"
definition bootstrap_cycles_per_e8 :: u128 where "bootstrap_cycles_per_e8 = 100000"

text \<open>\<open>jupiter_memo_policy::MAX_RELAY_SURPLUS_MEMO_BYTES\<close>.\<close>

definition max_relay_surplus_memo_bytes :: nat where "max_relay_surplus_memo_bytes = 32"

section \<open>Accounts and splitter plans\<close>

definition relay_default_account :: "principal \<Rightarrow> account" where
  "relay_default_account self_id = \<lparr>acc_owner = self_id, acc_subaccount = None\<rparr>"

definition relay_numbered_subaccount :: "u8 \<Rightarrow> subaccount" where
  "relay_numbered_subaccount number = (replicate 32 0)[31 := number]"

definition relay_subaccount_one :: subaccount where
  "relay_subaccount_one = relay_numbered_subaccount 1"

definition relay_subaccount_one_account :: "principal \<Rightarrow> account" where
  "relay_subaccount_one_account self_id =
     \<lparr>acc_owner = self_id, acc_subaccount = Some relay_subaccount_one\<rparr>"

definition splitter_percentage :: "u8 \<Rightarrow> u8 option" where
  "splitter_percentage number = find (\<lambda>candidate. candidate = number) splitter_percentages"

definition splitter_source_account :: "principal \<Rightarrow> u8 \<Rightarrow> account option" where
  "splitter_source_account relay_id number = map_option
     (\<lambda>_. \<lparr>acc_owner = relay_id, acc_subaccount = Some (relay_numbered_subaccount number)\<rparr>)
     (splitter_percentage number)"

fun splitter_destination_account :: "principal \<Rightarrow> splitter_destination \<Rightarrow> account" where
  "splitter_destination_account relay_id ToDefaultAccount = relay_default_account relay_id"
| "splitter_destination_account relay_id ToSubaccountOne = relay_subaccount_one_account relay_id"

definition build_splitter_plan :: "u8 \<Rightarrow> u64 \<Rightarrow> u64 \<Rightarrow> u64 \<Rightarrow> string + splitter_plan" where
  "build_splitter_plan splitter_number balance_start_e8s fee_e8s now_nanos =
     (case splitter_percentage splitter_number of None \<Rightarrow> Inl ''splitter_not_protocol_defined''
      | Some percentage_to_default \<Rightarrow>
        if balance_start_e8s = 0 then Inl ''splitter_no_funds''
        else if balance_start_e8s \<le> fee_e8s
            \<or> balance_start_e8s - fee_e8s < min_raw_icp_recipient_amount_e8s
          then Inl ''splitter_below_1_icp_net''
        else case checked_mul (as_u128 balance_start_e8s) (ucast percentage_to_default) of
          None \<Rightarrow> Inl ''splitter_share_overflow''
        | Some product \<Rightarrow>
          if 2 ^ 64 \<le> unat (product div 100) then Inl ''splitter_share_overflow''
          else let default_gross_e8s = as_u64 (product div 100) in
          case checked_sub balance_start_e8s default_gross_e8s of
            None \<Rightarrow> Inl ''splitter_share_underflow''
          | Some subaccount_one_gross_e8s \<Rightarrow>
            if default_gross_e8s \<le> fee_e8s \<or> subaccount_one_gross_e8s \<le> fee_e8s
            then Inl ''splitter_share_does_not_exceed_fee''
            else case checked_add now_nanos 1 of None \<Rightarrow> Inl ''splitter_created_at_overflow''
            | Some subaccount_one_created_at_time_nanos \<Rightarrow> Inr
              \<lparr>sl_splitter_number = splitter_number, sl_percentage_to_default = percentage_to_default,
               sl_source_subaccount = relay_numbered_subaccount splitter_number,
               sl_balance_start_e8s = balance_start_e8s,
               sl_default_leg = \<lparr>lp_destination = ToDefaultAccount,
                 lp_gross_share_e8s = default_gross_e8s, lp_amount_e8s = default_gross_e8s - fee_e8s,
                 lp_fee_e8s = fee_e8s, lp_created_at_time_nanos = now_nanos\<rparr>,
               sl_subaccount_one_leg = \<lparr>lp_destination = ToSubaccountOne,
                 lp_gross_share_e8s = subaccount_one_gross_e8s,
                 lp_amount_e8s = subaccount_one_gross_e8s - fee_e8s, lp_fee_e8s = fee_e8s,
                 lp_created_at_time_nanos = subaccount_one_created_at_time_nanos\<rparr>\<rparr>)"

section \<open>The commitment of subaccount 1\<close>

definition relay_faucet_commitment_memo :: "candid_ops \<Rightarrow> principal \<Rightarrow> bytes option" where
  "relay_faucet_commitment_memo cx self_id =
     (let memo = filter (\<lambda>b. b \<noteq> 45) (principal_to_text cx self_id) @ ascii ''.Relay''
      in if \<not> list_all (\<lambda>b. b < 128) memo then None
         else if length memo > 32 then None else Some memo)"

definition build_faucet_commitment_plan :: "candid_ops \<Rightarrow> principal \<Rightarrow> principal \<Rightarrow> subaccount \<Rightarrow> u64 \<Rightarrow> u64
    \<Rightarrow> string + faucet_commitment_plan" where
  "build_faucet_commitment_plan cx relay_id governance_id staking_subaccount balance_start_e8s fee_e8s =
     (if balance_start_e8s = 0 then Inl ''subaccount_1_no_funds''
      else if balance_start_e8s \<le> fee_e8s then Inl ''subaccount_1_below_1_icp_net''
      else let amount_e8s = balance_start_e8s - fee_e8s in
        if amount_e8s < min_raw_icp_recipient_amount_e8s then Inl ''subaccount_1_below_1_icp_net''
        else case relay_faucet_commitment_memo cx relay_id of
          None \<Rightarrow> Inl ''subaccount_1_memo_invalid''
        | Some memo \<Rightarrow> Inr \<lparr>fp_source_account = relay_subaccount_one_account relay_id,
            fp_destination_account = \<lparr>acc_owner = governance_id, acc_subaccount = Some staking_subaccount\<rparr>,
            fp_balance_start_e8s = balance_start_e8s, fp_fee_e8s = fee_e8s,
            fp_amount_e8s = amount_e8s, fp_memo = memo\<rparr>)"

section \<open>Burn, targets and estimates\<close>

definition compute_burn :: "u128 \<Rightarrow> u128 \<Rightarrow> u128 \<Rightarrow> u128" where
  "compute_burn previous relay_minted_cycles current =
     sat_sub (sat_add previous relay_minted_cycles) current"

definition ceil_div :: "u128 \<Rightarrow> u128 \<Rightarrow> u128" where
  "ceil_div numerator denominator =
     (if numerator = 0 then 0 else sat_add numerator (denominator - 1) div denominator)"

definition target_topup_cycles :: "u128 \<Rightarrow> u128" where
  "target_topup_cycles burn_cycles =
     ceil_div (sat_mul burn_cycles topup_headroom_numerator) topup_headroom_denominator"

definition topup_net_e8s :: "u128 \<Rightarrow> conversion_estimate \<Rightarrow> u64" where
  "topup_net_e8s target_cycles estimate =
     (if target_cycles = 0 \<or> ce_cycles_per_e8 estimate = 0 then 0
      else as_u64 (min (ceil_div target_cycles (ce_cycles_per_e8 estimate)) (as_u128 u_max)))"

definition conversion_estimate_is_usable :: "conversion_estimate \<Rightarrow> u64 \<Rightarrow> bool" where
  "conversion_estimate_is_usable estimate now_nanos \<longleftrightarrow> ce_cycles_per_e8 estimate > 0 \<and>
     sat_sub now_nanos (ce_timestamp_nanos estimate) \<le> conversion_estimate_max_age_nanos"

definition conversion_estimate_from_cmc_rate :: "u64 \<Rightarrow> u64 \<Rightarrow> string + conversion_estimate" where
  "conversion_estimate_from_cmc_rate xdr_permyriad_per_icp timestamp_seconds =
     (if xdr_permyriad_per_icp = 0
      then Inl ''CMC ICP/XDR conversion rate produced zero cycles per e8''
      else case checked_mul timestamp_seconds 1000000000 of
        None \<Rightarrow> Inl ''timestamp seconds to nanoseconds overflows u64''
      | Some timestamp_nanos \<Rightarrow> Inr \<lparr>ce_cycles_per_e8 = as_u128 xdr_permyriad_per_icp,
          ce_timestamp_nanos = timestamp_nanos\<rparr>)"

definition classify_target_probe :: "bool \<Rightarrow> u32 \<Rightarrow> probe_classification" where
  "classify_target_probe observed consecutive_failures =
     (if observed then Observable
      else if consecutive_failures \<ge> target_unavailable_failure_threshold
      then UnavailableAfterConsecutiveFailures consecutive_failures
      else TransientProbeFailure consecutive_failures)"

text \<open>A \<open>BTreeSet<Principal>\<close> as a sorted list; the order of \<open>Principal\<close> is a parameter.\<close>

fun set_insert :: "('k \<Rightarrow> 'k \<Rightarrow> bool) \<Rightarrow> 'k \<Rightarrow> 'k list \<Rightarrow> 'k list" where
  "set_insert lt x [] = [x]"
| "set_insert lt x (y # ys) =
     (if x = y then y # ys else if lt x y then x # y # ys else y # set_insert lt x ys)"

definition effective_managed_canisters ::
  "(principal \<Rightarrow> principal \<Rightarrow> bool) \<Rightarrow> principal list \<Rightarrow> principal \<Rightarrow> principal list" where
  "effective_managed_canisters lt configured self_id =
     set_insert lt self_id (fold (set_insert lt) configured [])"

section \<open>Configuration\<close>

datatype rconfig_error =
    PrincipalAnonymous string
  | PrincipalManagement string
  | MaxTransfersZero
  | DuplicateManagedCanister principal
  | NeuronIdZero
  | SurplusMemoTooLong surplus_target nat
  | DuplicateSurplusTarget
  | MainIntervalTooShort

definition validate_canister_principal :: "candid_ops \<Rightarrow> string \<Rightarrow> principal \<Rightarrow> rconfig_error + unit" where
  "validate_canister_principal cx name p =
     (if p = principal_anonymous cx then Inl (PrincipalAnonymous name)
      else if p = principal_management cx then Inl (PrincipalManagement name) else Inr ())"

text \<open>\<open>?\<close> on a \<open>Result<(), String>\<close>.\<close>

definition and_then :: "'e + unit \<Rightarrow> 'e + unit \<Rightarrow> 'e + unit" where
  "and_then a b = (case a of Inl e \<Rightarrow> Inl e | Inr _ \<Rightarrow> b)"

fun validate_managed :: "candid_ops \<Rightarrow> principal list \<Rightarrow> principal list \<Rightarrow> rconfig_error + unit" where
  "validate_managed cx seen [] = Inr ()"
| "validate_managed cx seen (c # cs) = and_then (validate_canister_principal cx ''managed_canisters'' c)
     (if c \<in> set seen then Inl (DuplicateManagedCanister c) else validate_managed cx (c # seen) cs)"

fun validate_recipients :: "candid_ops \<Rightarrow> surplus_target list \<Rightarrow> surplus_recipient list \<Rightarrow> rconfig_error + unit" where
  "validate_recipients cx targets [] = Inr ()"
| "validate_recipients cx targets (r # rs) = and_then
     (case sp_target r of
        SurplusCanister c \<Rightarrow> validate_canister_principal cx ''surplus_recipients.target.Canister'' c
      | SurplusNeuron n \<Rightarrow> if n = 0 then Inl NeuronIdZero else Inr ())
     (and_then
       (case sp_memo r of None \<Rightarrow> Inr ()
        | Some memo \<Rightarrow> if length memo > max_relay_surplus_memo_bytes
            then Inl (SurplusMemoTooLong (sp_target r) (length memo)) else Inr ())
       (if sp_target r \<in> set targets then Inl DuplicateSurplusTarget
        else validate_recipients cx (sp_target r # targets) rs))"

definition rvalidate_config :: "candid_ops \<Rightarrow> rconfig \<Rightarrow> rconfig_error + unit" where
  "rvalidate_config cx cfg =
     and_then (validate_canister_principal cx ''ledger_canister_id'' (rcf_ledger_canister_id cfg))
     (and_then (validate_canister_principal cx ''cmc_canister_id'' (rcf_cmc_canister_id cfg))
     (and_then (validate_canister_principal cx ''governance_canister_id'' (rcf_governance_canister_id cfg))
     (and_then (case rcf_cycles_probe_policy cfg of ProbeAuto \<Rightarrow> Inr ()
        | ProbeFixedBlackhole c \<Rightarrow> validate_canister_principal cx ''blackhole_canister_id'' c)
     (and_then (validate_canister_principal cx ''sns_rewards_canister_id'' (rcf_sns_rewards_canister_id cfg))
     (and_then (validate_canister_principal cx ''icp_index_canister_id'' (rcf_icp_index_canister_id cfg))
     (if rcf_max_transfers_per_tick cfg = Some 0 then Inl MaxTransfersZero
      else and_then (validate_managed cx [] (rcf_managed_canisters cfg))
        (and_then (validate_recipients cx [] (rcf_surplus_recipients cfg))
          (if rcf_main_interval_seconds cfg < 60 then Inl MainIntervalTooShort else Inr ()))))))))"

end
