(* ===== verification/CyclesProbe.thy ===== *)
theory CyclesProbe
  imports Asks RelayLogic
begin

text \<open>
  How a canister's cycles balance is read (\<open>src/crates/ic-clients/src/cycles_probe.rs\<close>): routes through
  the canister itself, the black holes, the NNS root and the SNS roots, each tried at most once.  The order of
  principals and their texts are parameters; the hard-coded principals are fields of \<open>probe_env\<close>.
\<close>

datatype cycles_probe_route =
    RouteDirect
  | RouteBlackhole principal
  | RouteNnsRoot
  | RouteSnsRoot principal
  | RouteSnsSwap principal principal

datatype probe_audience = CurrentCaller | AnyCanister

record direct_observation =
  do_cycles :: u128
  do_visibility :: visibility
  do_controllers :: "principal list"

record cycles_probe_success =
  pb_cycles :: u128
  pb_route :: "cycles_probe_route option"

record cycles_probe_failure =
  pb_message :: string
  pb_attempted_routes :: "cycles_probe_route list"

record deployed_sns =
  ds_root :: "principal option"
  ds_sns_governance :: "principal option"
  ds_sns_ledger :: "principal option"
  ds_swap :: "principal option"
  ds_index :: "principal option"

record sns_canister_list =
  cl_root :: "principal option"
  cl_governance :: "principal option"
  cl_ledger :: "principal option"
  cl_swap :: "principal option"
  cl_index :: "principal option"
  cl_dapps :: "principal list"
  cl_archives :: "principal list"
  cl_extensions :: "principal list option"

text \<open>The calls of \<open>CyclesProbeClient\<close> and their replies; a balance is a \<open>Nat\<close>.\<close>

datatype probe_req =
    PqDirectStatus principal
  | PqBlackhole principal principal
  | PqNnsRoot principal
  | PqDeployedSnses
  | PqControllers principal
  | PqSnsCanisters principal
  | PqSnsRoot principal principal
  | PqSnsSwap principal

datatype probe_resp =
    PrStatus "string + (nat \<times> visibility \<times> principal list)"
  | PrCycles "string + nat"
  | PrDeployed "string + deployed_sns list"
  | PrControllers "string + principal list"
  | PrSnsCanisters "string + sns_canister_list"

type_synonym 'a probe = "(probe_req, probe_resp, 'a) ask"

record probe_env =
  pe_less :: "principal \<Rightarrow> principal \<Rightarrow> bool"
  pe_text :: "principal \<Rightarrow> string"
  pe_thirteen_node_blackhole :: principal
  pe_fiduciary_blackhole :: principal
  pe_nns_root :: principal

record probe_client =
  pc_configured_sns_root :: "principal option"
  pc_self_cycles :: "principal \<Rightarrow> u128 option"

section \<open>Replies\<close>

definition client_error_text :: "client_error \<Rightarrow> string" where
  "client_error_text e = (case e of CallError m \<Rightarrow> ''inter-canister call failed: '' @ m
     | ConvertError m \<Rightarrow> ''conversion error: '' @ m)"

definition probe_nat_to_u128 :: "nat \<Rightarrow> client_error + u128" where
  "probe_nat_to_u128 n = (if n < 2 ^ 128 then Inr (word_of_nat n) else Inl (ConvertError ''Nat does not fit u128''))"

definition decode_failed :: "client_error + 'a" where
  "decode_failed = Inl (CallError ''decode failed'')"

definition read_cycles :: "probe_resp \<Rightarrow> client_error + u128" where
  "read_cycles r = (case r of PrCycles (Inl e) \<Rightarrow> Inl (CallError e) | PrCycles (Inr n) \<Rightarrow> probe_nat_to_u128 n
     | _ \<Rightarrow> decode_failed)"

definition direct_observation_from_status :: "probe_resp \<Rightarrow> client_error + direct_observation" where
  "direct_observation_from_status r = (case r of PrStatus (Inl e) \<Rightarrow> Inl (CallError e)
     | PrStatus (Inr (n, v, cs)) \<Rightarrow> (case probe_nat_to_u128 n of Inl e \<Rightarrow> Inl e
         | Inr cycles \<Rightarrow> Inr \<lparr>do_cycles = cycles, do_visibility = v, do_controllers = cs\<rparr>)
     | _ \<Rightarrow> decode_failed)"

definition read_controllers :: "probe_resp \<Rightarrow> client_error + principal list" where
  "read_controllers r = (case r of PrControllers (Inl e) \<Rightarrow> Inl (CallError e) | PrControllers (Inr cs) \<Rightarrow> Inr cs
     | _ \<Rightarrow> decode_failed)"

definition read_deployed :: "probe_resp \<Rightarrow> client_error + deployed_sns list" where
  "read_deployed r = (case r of PrDeployed (Inl e) \<Rightarrow> Inl (CallError e) | PrDeployed (Inr ds) \<Rightarrow> Inr ds
     | _ \<Rightarrow> decode_failed)"

definition read_sns_canisters :: "probe_resp \<Rightarrow> client_error + sns_canister_list" where
  "read_sns_canisters r = (case r of PrSnsCanisters (Inl e) \<Rightarrow> Inl (CallError e) | PrSnsCanisters (Inr l) \<Rightarrow> Inr l
     | _ \<Rightarrow> decode_failed)"

section \<open>The state of a probe\<close>

record probe_state =
  pr_attempted_routes :: "cycles_probe_route list"
  pr_errors :: "string list"
  pr_known_controllers :: "principal list option"

definition probe_state_default :: probe_state where
  "probe_state_default = \<lparr>pr_attempted_routes = [], pr_errors = [], pr_known_controllers = None\<rparr>"

fun join_text :: "string \<Rightarrow> string list \<Rightarrow> string" where
  "join_text sep [] = ''''"
| "join_text sep [x] = x"
| "join_text sep (x # y # ys) = x @ sep @ join_text sep (y # ys)"

type_synonym probe_result = "cycles_probe_failure + cycles_probe_success"

definition probe_success :: "u128 \<Rightarrow> cycles_probe_route option \<Rightarrow> cycles_probe_success" where
  "probe_success cycles route = \<lparr>pb_cycles = cycles, pb_route = route\<rparr>"

definition probe_fails :: "probe_state \<Rightarrow> string \<Rightarrow> probe_result" where
  "probe_fails st message = Inl \<lparr>pb_message = (if pr_errors st = [] then message
       else message @ ''; previous errors: '' @ join_text ''; '' (pr_errors st)),
     pb_attempted_routes = pr_attempted_routes st\<rparr>"

definition note_probe_error :: "string \<Rightarrow> probe_state \<Rightarrow> probe_state" where
  "note_probe_error message st = st\<lparr>pr_errors := pr_errors st @ [message]\<rparr>"

section \<open>Routes\<close>

definition status_visibility_label :: "visibility \<Rightarrow> string" where
  "status_visibility_label v = (case v of Controllers \<Rightarrow> ''controllers'' | Public \<Rightarrow> ''public''
     | AllowedViewers _ \<Rightarrow> ''allowed_viewers'')"

definition not_reusable :: "visibility \<Rightarrow> string" where
  "not_reusable v = ''direct canister_status succeeded but status visibility `'' @ status_visibility_label v @
     ''` is not reusable by any canister''"

definition route_question :: "cycles_probe_route \<Rightarrow> principal \<Rightarrow> probe_req" where
  "route_question route target = (case route of
       RouteDirect \<Rightarrow> PqDirectStatus target
     | RouteBlackhole canister_id \<Rightarrow> PqBlackhole canister_id target
     | RouteNnsRoot \<Rightarrow> PqNnsRoot target
     | RouteSnsRoot root_canister_id \<Rightarrow> PqSnsRoot root_canister_id target
     | RouteSnsSwap _ swap_canister_id \<Rightarrow> PqSnsSwap swap_canister_id)"

definition observe_route :: "probe_env \<Rightarrow> probe_audience \<Rightarrow> cycles_probe_route \<Rightarrow> probe_state \<Rightarrow> probe_resp
    \<Rightarrow> probe_state \<times> (client_error + cycles_probe_success option)" where
  "observe_route env audience route st r = (case route of
       RouteDirect \<Rightarrow> (case direct_observation_from_status r of
           Inl e \<Rightarrow> (st, Inl e)
         | Inr observation \<Rightarrow>
             let st1 = st\<lparr>pr_known_controllers :=
               Some (fold (set_insert (pe_less env)) (do_controllers observation) [])\<rparr> in
             if audience = AnyCanister \<and> do_visibility observation \<noteq> Public
             then (note_probe_error (not_reusable (do_visibility observation)) st1, Inr None)
             else (st1, Inr (Some (probe_success (do_cycles observation) (Some route)))))
     | _ \<Rightarrow> (case read_cycles r of Inl e \<Rightarrow> (st, Inl e)
         | Inr cycles \<Rightarrow> (st, Inr (Some (probe_success cycles (Some route))))))"

definition execute_route :: "probe_env \<Rightarrow> probe_audience \<Rightarrow> principal \<Rightarrow> cycles_probe_route \<Rightarrow> probe_state
    \<Rightarrow> (probe_state \<times> (client_error + cycles_probe_success option)) probe" where
  "execute_route env audience target route st =
     (if route \<in> set (pr_attempted_routes st) then Answer (st, Inr None)
      else let st1 = st\<lparr>pr_attempted_routes := pr_attempted_routes st @ [route]\<rparr> in
        Ask (route_question route target) (\<lambda>r. Answer (observe_route env audience route st1 r)))"

text \<open>Try a route; \<open>next\<close> goes on without an observation, \<open>failed\<close> after an error.\<close>

definition try_route :: "probe_env \<Rightarrow> probe_audience \<Rightarrow> principal \<Rightarrow> cycles_probe_route
    \<Rightarrow> (probe_state \<Rightarrow> client_error \<Rightarrow> probe_result probe) \<Rightarrow> (probe_state \<Rightarrow> probe_result probe)
    \<Rightarrow> probe_state \<Rightarrow> probe_result probe" where
  "try_route env audience target route failed next st =
     ask_bind (execute_route env audience target route st) (\<lambda>(st1, result). case result of
         Inr (Some success) \<Rightarrow> Answer (Inr success)
       | Inr None \<Rightarrow> next st1
       | Inl e \<Rightarrow> failed st1 e)"

text \<open>An error that is noted before the probe goes on.\<close>

definition noted :: "string \<Rightarrow> (probe_state \<Rightarrow> 'a) \<Rightarrow> probe_state \<Rightarrow> client_error \<Rightarrow> 'a" where
  "noted message next st e = next (note_probe_error (message @ client_error_text e) st)"

section \<open>SNS routes\<close>

definition framework_route_from_deployed_sns :: "principal \<Rightarrow> deployed_sns \<Rightarrow> cycles_probe_route option" where
  "framework_route_from_deployed_sns target sns = (case ds_root sns of None \<Rightarrow> None
     | Some root \<Rightarrow>
       if Some target \<in> set [Some root, ds_sns_governance sns, ds_sns_ledger sns, ds_index sns]
       then Some (RouteSnsRoot root)
       else if ds_swap sns = Some target then Some (RouteSnsSwap root target) else None)"

definition route_from_list_sns_canisters :: "principal \<Rightarrow> principal \<Rightarrow> sns_canister_list
    \<Rightarrow> cycles_probe_route option" where
  "route_from_list_sns_canisters candidate_root target l =
     (if cl_root l \<noteq> Some candidate_root then None
      else if Some target \<in> set [cl_root l, cl_governance l, cl_ledger l, cl_index l]
      then Some (RouteSnsRoot candidate_root)
      else if cl_swap l = Some target then Some (RouteSnsSwap candidate_root target)
      else if target \<in> set (cl_dapps l) \<or> target \<in> set (cl_archives l)
        \<or> (case cl_extensions l of None \<Rightarrow> False | Some ids \<Rightarrow> target \<in> set ids)
      then Some (RouteSnsRoot candidate_root) else None)"

text \<open>The roots of the deployed SNSs up to the first that gives a route itself.\<close>

fun scan_deployed :: "principal \<Rightarrow> principal list \<Rightarrow> deployed_sns list
    \<Rightarrow> cycles_probe_route option \<times> principal list" where
  "scan_deployed target roots [] = (None, roots)"
| "scan_deployed target roots (sns # rest) = (case ds_root sns of
       None \<Rightarrow> scan_deployed target roots rest
     | Some root \<Rightarrow> (case framework_route_from_deployed_sns target sns of
         Some route \<Rightarrow> (Some route, root # roots)
       | None \<Rightarrow> scan_deployed target (root # roots) rest))"

fun ask_candidate_roots :: "probe_env \<Rightarrow> principal \<Rightarrow> string list \<Rightarrow> principal list
    \<Rightarrow> (client_error + cycles_probe_route option) probe" where
  "ask_candidate_roots env target errors [] = Answer (if errors \<noteq> []
     then Inl (CallError (''failed to query candidate SNS roots: '' @ join_text ''; '' errors)) else Inr None)"
| "ask_candidate_roots env target errors (root # roots) =
     Ask (PqSnsCanisters root) (\<lambda>r. case read_sns_canisters r of
         Inl e \<Rightarrow> ask_candidate_roots env target
           (errors @ [pe_text env root @ '': '' @ client_error_text e]) roots
       | Inr l \<Rightarrow> (case route_from_list_sns_canisters root target l of
           Some route \<Rightarrow> Answer (Inr (Some route))
         | None \<Rightarrow> ask_candidate_roots env target errors roots))"

definition discover_deployed :: "probe_env \<Rightarrow> principal \<Rightarrow> principal list option
    \<Rightarrow> (client_error + cycles_probe_route option) probe" where
  "discover_deployed env target controllers =
     Ask PqDeployedSnses (\<lambda>r. case read_deployed r of
         Inl e \<Rightarrow> Answer (Inl e)
       | Inr deployed \<Rightarrow> (case scan_deployed target [] deployed of
           (Some route, roots) \<Rightarrow> Answer (Inr (Some route))
         | (None, roots) \<Rightarrow>
             let candidate_roots = filter (\<lambda>c. c \<in> set roots)
               (case controllers of None \<Rightarrow> [] | Some cs \<Rightarrow> cs) in
             if candidate_roots = [] then Answer (Inr None)
             else ask_candidate_roots env target [] candidate_roots))"

definition discover_sns_route :: "probe_env \<Rightarrow> probe_client \<Rightarrow> principal \<Rightarrow> principal list option
    \<Rightarrow> (client_error + cycles_probe_route option) probe" where
  "discover_sns_route env client target controllers = (case pc_configured_sns_root client of
       None \<Rightarrow> discover_deployed env target controllers
     | Some root \<Rightarrow> Ask (PqSnsCanisters root) (\<lambda>r. case read_sns_canisters r of
         Inl e \<Rightarrow> discover_deployed env target controllers
       | Inr l \<Rightarrow>
           if cl_governance l \<noteq> None \<and> cl_ledger l \<noteq> None \<and> cl_root l = Some root
           then (case route_from_list_sns_canisters root target l of
               Some route \<Rightarrow> Answer (Inr (Some route))
             | None \<Rightarrow> discover_deployed env target controllers)
           else discover_deployed env target controllers))"

section \<open>The probe\<close>

definition no_route :: string where
  "no_route = ''no cycles probe route could observe target''"

definition probe_sns :: "probe_env \<Rightarrow> probe_audience \<Rightarrow> probe_client \<Rightarrow> principal \<Rightarrow> principal list option
    \<Rightarrow> probe_state \<Rightarrow> probe_result probe" where
  "probe_sns env audience client target controllers st =
     ask_bind (discover_sns_route env client target controllers) (\<lambda>found. case found of
         Inr (Some route) \<Rightarrow> try_route env audience target route
           (\<lambda>st e. Answer (probe_fails st (''SNS route probe failed after discovery: '' @ client_error_text e)))
           (\<lambda>st. Answer (probe_fails st no_route)) st
       | Inr None \<Rightarrow> Answer (probe_fails st no_route)
       | Inl e \<Rightarrow> Answer (probe_fails st (''SNS route discovery failed: '' @ client_error_text e)))"

definition probe_controller_nns_root :: "probe_env \<Rightarrow> probe_audience \<Rightarrow> probe_client \<Rightarrow> principal
    \<Rightarrow> principal list option \<Rightarrow> probe_state \<Rightarrow> probe_result probe" where
  "probe_controller_nns_root env audience client target controllers =
     (let next = probe_sns env audience client target controllers in
      if pe_nns_root env \<in> set (case controllers of None \<Rightarrow> [] | Some cs \<Rightarrow> cs)
      then try_route env audience target RouteNnsRoot (noted ''NNS root route failed: '' next) next
      else next)"

fun probe_blackholes :: "probe_env \<Rightarrow> probe_audience \<Rightarrow> principal \<Rightarrow> principal list
    \<Rightarrow> (probe_state \<Rightarrow> probe_result probe) \<Rightarrow> principal list \<Rightarrow> probe_state \<Rightarrow> probe_result probe" where
  "probe_blackholes env audience target controllers next [] st = next st"
| "probe_blackholes env audience target controllers next (canister_id # ids) st =
     (if canister_id \<notin> set controllers then probe_blackholes env audience target controllers next ids st
      else try_route env audience target (RouteBlackhole canister_id)
        (noted (''blackhole '' @ pe_text env canister_id @ '' failed: '')
          (probe_blackholes env audience target controllers next ids))
        (probe_blackholes env audience target controllers next ids) st)"

definition production_blackholes :: "probe_env \<Rightarrow> principal list" where
  "production_blackholes env = [pe_thirteen_node_blackhole env, pe_fiduciary_blackhole env]"

definition probe_by_controllers :: "probe_env \<Rightarrow> probe_audience \<Rightarrow> probe_client \<Rightarrow> principal
    \<Rightarrow> principal list option \<Rightarrow> probe_state \<Rightarrow> probe_result probe" where
  "probe_by_controllers env audience client target controllers st =
     (let next = probe_controller_nns_root env audience client target controllers in
      case controllers of None \<Rightarrow> next st
      | Some cs \<Rightarrow> probe_blackholes env audience target cs next (production_blackholes env) st)"

definition probe_controllers :: "probe_env \<Rightarrow> probe_audience \<Rightarrow> probe_client \<Rightarrow> principal
    \<Rightarrow> probe_state \<Rightarrow> probe_result probe" where
  "probe_controllers env audience client target st = (case pr_known_controllers st of
       Some controllers \<Rightarrow> probe_by_controllers env audience client target (Some controllers) st
     | None \<Rightarrow> Ask (PqControllers target) (\<lambda>r. case read_controllers r of
         Inr controllers \<Rightarrow> probe_by_controllers env audience client target
           (Some (fold (set_insert (pe_less env)) controllers [])) st
       | Inl e \<Rightarrow> probe_by_controllers env audience client target None
           (note_probe_error (''canister_info controller discovery failed: '' @ client_error_text e) st)))"

definition probe_cached :: "probe_env \<Rightarrow> probe_audience \<Rightarrow> probe_client \<Rightarrow> principal
    \<Rightarrow> cycles_probe_route option \<Rightarrow> probe_state \<Rightarrow> probe_result probe" where
  "probe_cached env audience client target cached_route = (case cached_route of
       None \<Rightarrow> probe_controllers env audience client target
     | Some route \<Rightarrow> try_route env audience target route
         (noted ''cached route failed: '' (probe_controllers env audience client target))
         (probe_controllers env audience client target))"

definition probe_fixed :: "probe_env \<Rightarrow> probe_audience \<Rightarrow> probe_client \<Rightarrow> cycles_probe_policy \<Rightarrow> principal
    \<Rightarrow> cycles_probe_route option \<Rightarrow> probe_state \<Rightarrow> probe_result probe" where
  "probe_fixed env audience client policy target cached_route = (case policy of
       ProbeFixedBlackhole canister_id \<Rightarrow> try_route env audience target (RouteBlackhole canister_id)
         (\<lambda>st e. Answer (probe_fails st (''fixed blackhole probe failed: '' @ client_error_text e)))
         (\<lambda>st. Answer (probe_fails st ''fixed blackhole route was already attempted''))
     | ProbeAuto \<Rightarrow> probe_cached env audience client target cached_route)"

definition probe_nns_self :: "probe_env \<Rightarrow> probe_audience \<Rightarrow> probe_client \<Rightarrow> cycles_probe_policy \<Rightarrow> principal
    \<Rightarrow> cycles_probe_route option \<Rightarrow> probe_state \<Rightarrow> probe_result probe" where
  "probe_nns_self env audience client policy target cached_route =
     (let next = probe_fixed env audience client policy target cached_route in
      if policy = ProbeAuto \<and> target = pe_nns_root env
      then try_route env audience target RouteNnsRoot (noted ''canonical NNS root self-status failed: '' next) next
      else next)"

definition probe_blackhole_self :: "probe_env \<Rightarrow> probe_audience \<Rightarrow> probe_client \<Rightarrow> cycles_probe_policy \<Rightarrow> principal
    \<Rightarrow> cycles_probe_route option \<Rightarrow> probe_state \<Rightarrow> probe_result probe" where
  "probe_blackhole_self env audience client policy target cached_route =
     (let next = probe_nns_self env audience client policy target cached_route in
      if target \<in> set (production_blackholes env)
      then try_route env audience target (RouteBlackhole target)
        (case policy of
          ProbeFixedBlackhole _ \<Rightarrow> \<lambda>st e. Answer (probe_fails st
            (''canonical blackhole self-status failed: '' @ client_error_text e))
        | ProbeAuto \<Rightarrow> noted ''canonical blackhole self-status failed: '' next) next
      else next)"

definition probe_cycles_for_audience :: "probe_env \<Rightarrow> probe_client \<Rightarrow> cycles_probe_policy \<Rightarrow> principal
    \<Rightarrow> cycles_probe_route option \<Rightarrow> probe_audience \<Rightarrow> probe_result probe" where
  "probe_cycles_for_audience env client policy target cached_route audience =
     (case (if audience = CurrentCaller then pc_self_cycles client target else None) of
        Some cycles \<Rightarrow> Answer (Inr (probe_success cycles None))
      | None \<Rightarrow>
          let next = probe_blackhole_self env audience client policy target cached_route in
          if policy = ProbeAuto
          then try_route env audience target RouteDirect (noted ''direct route failed: '' next) next
            probe_state_default
          else next probe_state_default)"

definition probe_cycles :: "probe_env \<Rightarrow> probe_client \<Rightarrow> cycles_probe_policy \<Rightarrow> principal
    \<Rightarrow> cycles_probe_route option \<Rightarrow> probe_result probe" where
  "probe_cycles env client policy target cached_route =
     probe_cycles_for_audience env client policy target cached_route CurrentCaller"

end
