(* ===== verification/CyclesProbeProperties.thy ===== *)
theory CyclesProbeProperties
  imports CyclesProbe
begin

text \<open>
  What a cycles probe guarantees: its answer was observed on the route it reports, no route is tried twice, and
  a fixed black hole policy asks nobody else.
\<close>

text \<open>The reply on a route that gives these cycles to this audience.\<close>

definition route_observes :: "probe_audience \<Rightarrow> cycles_probe_route \<Rightarrow> probe_resp \<Rightarrow> u128 \<Rightarrow> bool" where
  "route_observes audience route r cycles \<longleftrightarrow> (if route = RouteDirect
     then \<exists>observation. direct_observation_from_status r = Inr observation \<and> do_cycles observation = cycles \<and>
       (audience = AnyCanister \<longrightarrow> do_visibility observation = Public)
     else read_cycles r = Inr cycles)"

definition probe_sound :: "probe_audience \<Rightarrow> principal \<Rightarrow> (probe_req \<times> probe_resp) list \<Rightarrow> probe_result \<Rightarrow> bool" where
  "probe_sound audience target h result \<longleftrightarrow> (case result of
     Inr success \<Rightarrow> \<exists>route r. pb_route success = Some route \<and> h \<noteq> [] \<and>
       last h = (route_question route target, r) \<and> route_observes audience route r (pb_cycles success)
   | Inl failure \<Rightarrow> distinct (pb_attempted_routes failure) \<and>
       (\<forall>route \<in> set (pb_attempted_routes failure). route_question route target \<in> fst ` set h))"

definition probe_going :: "principal \<Rightarrow> probe_state \<Rightarrow> (probe_req \<times> probe_resp) list \<Rightarrow> bool" where
  "probe_going target st h \<longleftrightarrow> distinct (pr_attempted_routes st) \<and>
     (\<forall>route \<in> set (pr_attempted_routes st). route_question route target \<in> fst ` set h)"

lemma probe_going_fields [simp]:
  "probe_going target (note_probe_error m st) h = probe_going target st h"
  "probe_going target (st\<lparr>pr_known_controllers := cs\<rparr>) h = probe_going target st h"
  "probe_going target st h \<Longrightarrow> probe_going target st (h @ h')"
  by (auto simp: probe_going_def note_probe_error_def)

lemma probe_fails_sound: "probe_going target st h \<Longrightarrow> probe_sound audience target h (probe_fails st m)"
  by (simp add: probe_sound_def probe_fails_def probe_going_def)

lemma execute_route_since:
  assumes "probe_going target st h"
  shows "asks_since (\<lambda>h (st', result). probe_going target st' h \<and>
    (case result of Inr (Some success) \<Rightarrow> probe_sound audience target h (Inr success) | _ \<Rightarrow> True))
    (execute_route env audience target route st) h"
proof (cases "route \<in> set (pr_attempted_routes st)")
  case True
  then show ?thesis using assms by (simp add: execute_route_def)
next
  case False
  let ?st = "st\<lparr>pr_attempted_routes := pr_attempted_routes st @ [route]\<rparr>"
  have "probe_going target st' h' \<and>
      (case result of Inr (Some success) \<Rightarrow> probe_sound audience target h' (Inr success) | _ \<Rightarrow> True)"
    if "observe_route env audience route ?st r = (st', result)" "h' = h @ [(route_question route target, r)]"
    for r st' result h'
  proof -
    have "probe_going target ?st h'" using assms False that(2) by (auto simp: probe_going_def)
    then show ?thesis using that
      by (auto simp: observe_route_def Let_def probe_sound_def probe_success_def route_observes_def
          split: cycles_probe_route.splits sum.splits if_splits)
  qed
  then show ?thesis using False by (auto simp: execute_route_def Let_def split: prod.split)
qed

lemma try_route_since:
  assumes "probe_going target st h"
    and "\<And>st e h. probe_going target st h \<Longrightarrow> asks_since (probe_sound audience target) (failed st e) h"
    and "\<And>st h. probe_going target st h \<Longrightarrow> asks_since (probe_sound audience target) (next' st) h"
  shows "asks_since (probe_sound audience target) (try_route env audience target route failed next' st) h"
  unfolding try_route_def using execute_route_since [OF assms(1)]
  by (rule asks_since_bind) (auto intro: assms(2,3) split: sum.split option.split)

text \<open>What follows a route keeps the probe sound from any state of a probe that goes on.\<close>

definition goes_on_sound :: "probe_audience \<Rightarrow> principal \<Rightarrow> (probe_state \<Rightarrow> probe_result probe) \<Rightarrow> bool" where
  "goes_on_sound audience target p \<longleftrightarrow>
     (\<forall>st h. probe_going target st h \<longrightarrow> asks_since (probe_sound audience target) (p st) h)"

lemma goes_on_soundI:
  "(\<And>st h. probe_going target st h \<Longrightarrow> asks_since (probe_sound audience target) (p st) h) \<Longrightarrow>
   goes_on_sound audience target p"
  by (simp add: goes_on_sound_def)

lemma goes_on_soundD:
  "goes_on_sound audience target p \<Longrightarrow> probe_going target st h \<Longrightarrow> asks_since (probe_sound audience target) (p st) h"
  by (simp add: goes_on_sound_def)

lemma fails_goes_on: "goes_on_sound audience target (\<lambda>st. Answer (probe_fails st m))"
  by (simp add: goes_on_sound_def probe_fails_sound)

lemma try_noted_goes_on:
  assumes "goes_on_sound audience target next'"
  shows "goes_on_sound audience target (try_route env audience target route (noted m next') next')"
  using assms by (intro goes_on_soundI try_route_since) (auto simp: noted_def intro: goes_on_soundD)

lemma try_fails_goes_on:
  assumes "goes_on_sound audience target next'"
  shows "goes_on_sound audience target
    (try_route env audience target route (\<lambda>st e. Answer (probe_fails st (m e))) next')"
  using assms by (intro goes_on_soundI try_route_since) (auto intro: goes_on_soundD probe_fails_sound)

lemma candidate_roots_since:
  assumes "probe_going target st h"
  shows "asks_since (\<lambda>h _. probe_going target st h) (ask_candidate_roots env target errors roots) h"
  using assms
proof (induction env target errors roots arbitrary: h rule: ask_candidate_roots.induct)
  case (2 env target errors root roots)
  then show ?case by (auto split: sum.split option.split)
qed simp

lemma discover_since:
  assumes "probe_going target st h"
  shows "asks_since (\<lambda>h _. probe_going target st h) (discover_sns_route env client target controllers) h"
proof -
  have deployed: "asks_since (\<lambda>h _. probe_going target st h) (discover_deployed env target controllers) h"
    if "probe_going target st h" for h
    using that by (auto simp: discover_deployed_def Let_def intro: candidate_roots_since split: sum.split option.split prod.split)
  show ?thesis using assms
    by (auto simp: discover_sns_route_def intro: deployed split: sum.split option.split)
qed

lemma sns_goes_on: "goes_on_sound audience target (probe_sns env audience client target controllers)"
proof (rule goes_on_soundI)
  fix st h
  assume "probe_going target st h"
  from discover_since [OF this, of env client controllers]
  show "asks_since (probe_sound audience target) (probe_sns env audience client target controllers st) h"
    unfolding probe_sns_def
  proof (rule asks_since_bind)
    fix h' found
    assume "probe_going target st h'"
    then show "asks_since (probe_sound audience target) (case found of
        Inr (Some route) \<Rightarrow> try_route env audience target route
          (\<lambda>st e. Answer (probe_fails st (''SNS route probe failed after discovery: '' @ client_error_text e)))
          (\<lambda>st. Answer (probe_fails st no_route)) st
      | Inr None \<Rightarrow> Answer (probe_fails st no_route)
      | Inl e \<Rightarrow> Answer (probe_fails st (''SNS route discovery failed: '' @ client_error_text e))) h'"
      by (auto simp: probe_fails_sound intro: goes_on_soundD [OF try_fails_goes_on [OF fails_goes_on]]
          split: sum.split option.split)
  qed
qed

lemma nns_root_goes_on: "goes_on_sound audience target (probe_controller_nns_root env audience client target controllers)"
  by (simp add: probe_controller_nns_root_def Let_def sns_goes_on try_noted_goes_on)

lemma blackholes_goes_on:
  assumes "goes_on_sound audience target next'"
  shows "goes_on_sound audience target (probe_blackholes env audience target controllers next' ids)"
proof (induction ids)
  case Nil
  then show ?case using assms by (simp add: goes_on_sound_def)
next
  case (Cons canister_id ids)
  from Cons try_noted_goes_on [OF Cons] show ?case by (simp add: goes_on_sound_def)
qed

lemma controllers_goes_on: "goes_on_sound audience target (probe_controllers env audience client target)"
proof -
  have "goes_on_sound audience target (probe_by_controllers env audience client target cs)" for cs
    using nns_root_goes_on blackholes_goes_on [OF nns_root_goes_on]
    by (cases cs) (simp_all add: goes_on_sound_def probe_by_controllers_def)
  then show ?thesis
    by (auto simp: goes_on_sound_def probe_controllers_def split: option.split sum.split)
qed

lemma self_goes_on: "goes_on_sound audience target (probe_blackhole_self env audience client policy target cached_route)"
proof -
  have cached: "goes_on_sound audience target (probe_cached env audience client target cached_route)"
    by (cases cached_route) (simp_all add: probe_cached_def controllers_goes_on try_noted_goes_on)
  have fixed: "goes_on_sound audience target (probe_fixed env audience client policy target cached_route)"
    by (cases policy) (simp_all add: probe_fixed_def cached try_fails_goes_on fails_goes_on)
  have nns: "goes_on_sound audience target (probe_nns_self env audience client policy target cached_route)"
    unfolding probe_nns_self_def Let_def using fixed try_noted_goes_on [OF fixed] by auto
  then show ?thesis
    by (cases policy) (simp_all add: probe_blackhole_self_def Let_def try_noted_goes_on try_fails_goes_on)
qed

lemma probe_since:
  assumes "audience = AnyCanister \<or> pc_self_cycles client target = None"
  shows "asks_since (probe_sound audience target)
    (probe_cycles_for_audience env client policy target cached_route audience) []"
proof -
  have "probe_going target probe_state_default []" by (simp add: probe_going_def probe_state_default_def)
  then show ?thesis using assms self_goes_on try_noted_goes_on [OF self_goes_on]
    by (auto simp: probe_cycles_for_audience_def goes_on_sound_def Let_def)
qed

text \<open>C34: A probe's answer is an observation: whatever the canisters asked reply, a successful probe reports
  the cycles its last question brought on the route it names, a probe for any canister takes a direct status
  only when that status is public, and a failed probe has tried each of its routes once.\<close>

theorem probe_answer_observed:
  assumes "audience = AnyCanister \<or> pc_self_cycles client target = None"
    and "run_ask replies (probe_cycles_for_audience env client policy target cached_route audience) = (Some result, questions)"
  shows "length questions \<le> length replies \<and> probe_sound audience target (zip questions replies) result"
  using run_ask_since [OF probe_since [OF assms(1)] assms(2)] by simp

section \<open>A fixed black hole\<close>

definition fixed_question :: "probe_env \<Rightarrow> principal \<Rightarrow> principal \<Rightarrow> probe_req \<Rightarrow> bool" where
  "fixed_question env blackhole target q \<longleftrightarrow> q = PqBlackhole blackhole target \<or>
     (target \<in> set (production_blackholes env) \<and> q = PqBlackhole target target)"

lemma try_route_asks:
  assumes "C (route_question route target)" "\<And>st e. asks C (\<lambda>_. True) (failed st e)" "\<And>st. asks C (\<lambda>_. True) (next' st)"
  shows "asks C (\<lambda>_. True) (try_route env audience target route failed next' st)"
proof -
  have "asks C (\<lambda>_. True) (execute_route env audience target route st)"
    using assms(1) by (simp add: execute_route_def Let_def)
  then show ?thesis unfolding try_route_def
    by (rule asks_bind) (auto intro: assms split: sum.split option.split prod.split)
qed

text \<open>Under a fixed black hole policy a probe asks no canister but that black hole, and one of the
  production black holes only about itself.\<close>

theorem fixed_probe_asks_its_blackhole:
  assumes "run_ask replies (probe_cycles_for_audience env client (ProbeFixedBlackhole blackhole) target cached_route
      audience) = (result, questions)"
  shows "list_all (fixed_question env blackhole target) questions"
proof -
  let ?C = "fixed_question env blackhole target"
  have fixed: "asks ?C (\<lambda>_. True) (probe_fixed env audience client (ProbeFixedBlackhole blackhole) target cached_route st)" for st
    unfolding probe_fixed_def by (simp, rule try_route_asks) (simp_all add: route_question_def fixed_question_def)
  then have "asks ?C (\<lambda>_. True) (probe_blackhole_self env audience client (ProbeFixedBlackhole blackhole) target cached_route st)" for st
    by (auto simp: probe_blackhole_self_def probe_nns_self_def Let_def route_question_def fixed_question_def
        intro!: try_route_asks)
  then have "asks ?C (\<lambda>_. True) (probe_cycles_for_audience env client (ProbeFixedBlackhole blackhole) target cached_route audience)"
    by (auto simp: probe_cycles_for_audience_def Let_def split: option.split)
  from run_ask_asks [OF this assms] show ?thesis by simp
qed

section \<open>Witnesses\<close>

definition ex_probe_env :: probe_env where
  "ex_probe_env = \<lparr>pe_less = (\<lambda>p q. length p < length q), pe_text = (\<lambda>_. ''x''), pe_thirteen_node_blackhole = [13],
     pe_fiduciary_blackhole = [14], pe_nns_root = [15]\<rparr>"

definition ex_probe_client :: probe_client where
  "ex_probe_client = \<lparr>pc_configured_sns_root = None, pc_self_cycles = (\<lambda>_. None)\<rparr>"

lemma probe_answer_observed_witness:
  "probe_sound CurrentCaller [1]
    (zip [PqDirectStatus [1], PqControllers [1], PqBlackhole [14] [1]]
      [PrStatus (Inl ''refused''), PrControllers (Inr [[14]]), PrCycles (Inr 900)])
    (Inr \<lparr>pb_cycles = 900, pb_route = Some (RouteBlackhole [14])\<rparr>)"
proof -
  have "run_ask [PrStatus (Inl ''refused''), PrControllers (Inr [[14]]), PrCycles (Inr 900)]
      (probe_cycles_for_audience ex_probe_env ex_probe_client ProbeAuto [1] None CurrentCaller) =
    (Some (Inr \<lparr>pb_cycles = 900, pb_route = Some (RouteBlackhole [14])\<rparr>),
     [PqDirectStatus [1], PqControllers [1], PqBlackhole [14] [1]])"
    by (simp add: probe_cycles_for_audience_def ex_probe_env_def ex_probe_client_def try_route_def execute_route_def
      probe_state_default_def observe_route_def direct_observation_from_status_def noted_def note_probe_error_def
      probe_blackhole_self_def production_blackholes_def probe_nns_self_def probe_fixed_def probe_cached_def
      probe_controllers_def read_controllers_def probe_by_controllers_def route_question_def read_cycles_def
      probe_nat_to_u128_def probe_success_def client_error_text_def Let_def)
  from probe_answer_observed [OF _ this] show ?thesis by (simp add: ex_probe_client_def)
qed

lemma fixed_probe_asks_its_blackhole_witness:
  "list_all (fixed_question ex_probe_env [20] [1]) [PqBlackhole [20] [1]]"
proof -
  have "run_ask [PrCycles (Inl ''refused'')] (probe_cycles_for_audience ex_probe_env ex_probe_client
      (ProbeFixedBlackhole [20]) [1] None CurrentCaller) =
    (Some (probe_fails \<lparr>pr_attempted_routes = [RouteBlackhole [20]], pr_errors = [], pr_known_controllers = None\<rparr>
       (''fixed blackhole probe failed: '' @ client_error_text (CallError ''refused''))), [PqBlackhole [20] [1]])"
    by (simp add: probe_cycles_for_audience_def ex_probe_env_def ex_probe_client_def try_route_def execute_route_def
      probe_state_default_def observe_route_def probe_blackhole_self_def production_blackholes_def probe_nns_self_def
      probe_fixed_def route_question_def read_cycles_def Let_def)
  from fixed_probe_asks_its_blackhole [OF this] show ?thesis .
qed

end
