(* ===== verification/RelayAllocation.thy ===== *)
theory RelayAllocation
  imports RelayLogic
begin

text \<open>
  The Relay's allocation of a balance over cycle top-ups and surplus recipients (second half of
  \<open>src/canisters/relay/src/logic.rs\<close>).
\<close>

section \<open>Reasons\<close>

definition skip_zero_burn :: string where "skip_zero_burn = ''zero_burn''"
definition skip_gross_share_does_not_exceed_fee :: string where
  "skip_gross_share_does_not_exceed_fee = ''gross_share_does_not_exceed_fee''"
definition skip_insufficient_balance_for_topups :: string where
  "skip_insufficient_balance_for_topups = ''insufficient_balance_for_topups''"
definition skip_no_positive_burn :: string where "skip_no_positive_burn = ''no_positive_burn''"
definition skip_no_raw_icp_recipients :: string where
  "skip_no_raw_icp_recipients = ''no_raw_icp_recipients''"
definition skip_missing_conversion_estimate :: string where
  "skip_missing_conversion_estimate = ''missing_conversion_estimate''"
definition skip_no_surplus_recipients :: string where
  "skip_no_surplus_recipients = ''no_surplus_recipients''"
definition skip_no_surplus :: string where "skip_no_surplus = ''no_surplus''"
definition skip_raw_icp_share_below_1_icp :: string where
  "skip_raw_icp_share_below_1_icp = ''raw_icp_share_below_1_icp''"
definition all_cycles_batch_below_fee_efficient_threshold :: string where
  "all_cycles_batch_below_fee_efficient_threshold = ''all_cycles_batch_below_fee_efficient_threshold''"

lemmas skip_reasons = skip_zero_burn_def skip_gross_share_does_not_exceed_fee_def
  skip_insufficient_balance_for_topups_def skip_no_positive_burn_def skip_no_raw_icp_recipients_def
  skip_missing_conversion_estimate_def skip_no_surplus_recipients_def skip_no_surplus_def
  skip_raw_icp_share_below_1_icp_def all_cycles_batch_below_fee_efficient_threshold_def

section \<open>Burn plans\<close>

definition burn_plans :: "(principal \<times> cycles_snapshot) list \<Rightarrow> (principal \<times> cycles_snapshot) list
    \<Rightarrow> (principal \<times> u128) list \<Rightarrow> (principal \<times> u128) list \<Rightarrow> bool \<Rightarrow> burn_plan list" where
  "burn_plans current previous relay_minted recovery_deficits use_headroom_target =
     map (\<lambda>(canister_id, current_snapshot).
       let previous_cycles = map_option cy_cycles (map_of previous canister_id);
           relay_minted_cycles = case_option 0 id (map_of relay_minted canister_id);
           burn_cycles = (case previous_cycles of None \<Rightarrow> 0
             | Some prev \<Rightarrow> compute_burn prev relay_minted_cycles (cy_cycles current_snapshot));
           carried_deficit_cycles = case_option 0 id (map_of recovery_deficits canister_id);
           new_burn_target_cycles =
             (if use_headroom_target then target_topup_cycles burn_cycles else burn_cycles)
       in \<lparr>bp_canister_id = canister_id, bp_previous_cycles = previous_cycles,
           bp_current_cycles = cy_cycles current_snapshot, bp_relay_minted_cycles = relay_minted_cycles,
           bp_burn_cycles = burn_cycles, bp_carried_deficit_cycles = carried_deficit_cycles,
           bp_target_topup_cycles = sat_add carried_deficit_cycles new_burn_target_cycles,
           bp_gross_share_e8s = 0, bp_amount_e8s = 0, bp_actual_minted_cycles = 0,
           bp_remaining_deficit_cycles = sat_add carried_deficit_cycles new_burn_target_cycles,
           bp_skipped_reason = None\<rparr>) current"

section \<open>Proportional allocation\<close>

text \<open>The floor share and the remainder of one canister.\<close>

definition floor_share :: "u64 \<Rightarrow> u64 \<Rightarrow> u64 \<Rightarrow> u64 \<times> u128" where
  "floor_share total_desired_gross available_balance_e8s gross =
     (if gross = 0 then (0, 0)
      else let product = sat_mul (as_u128 available_balance_e8s) (as_u128 gross) in
        (as_u64 (min (product div as_u128 total_desired_gross) (as_u128 gross)),
         product mod as_u128 total_desired_gross))"

text \<open>The indices by descending remainder, then ascending index.\<close>

definition remainder_order :: "u128 list \<Rightarrow> nat list" where
  "remainder_order remainders =
     map fst (sort_key (\<lambda>(index, r). (- uint r, index)) (enumerate 0 remainders))"

text \<open>One pass of the loop body: the shares, \<open>used\<close> and \<open>advanced\<close>.\<close>

fun topup_pass :: "u64 list \<Rightarrow> u64 \<Rightarrow> nat list \<Rightarrow> u64 list \<times> u64 \<times> bool \<Rightarrow> u64 list \<times> u64 \<times> bool" where
  "topup_pass desired available [] (shares, used, advanced) = (shares, used, advanced)"
| "topup_pass desired available (index # order) (shares, used, advanced) =
     (if used \<ge> available then (shares, used, advanced)
      else if shares ! index < desired ! index
      then topup_pass desired available order
        (shares[index := sat_add (shares ! index) 1], sat_add used 1, True)
      else topup_pass desired available order (shares, used, advanced))"

lemma sat_add_1_less: "used < available \<Longrightarrow> unat (sat_add used 1) = unat used + 1" for used available :: u64
  using unat_lt [of available] by (simp add: u_simps)

lemma topup_pass_used:
  assumes "topup_pass desired available order (shares, used, adv) = (shares', used', adv')"
  shows "used \<le> used' \<and> (adv' \<longrightarrow> adv \<or> used < used') \<and> (adv \<longrightarrow> adv')"
  using assms
proof (induction order arbitrary: shares used adv)
  case Nil
  then show ?case by simp
next
  case (Cons i order)
  then show ?case
    using sat_add_1_less [of used available]
    by (fastforce simp: not_le word_le_nat_alt word_less_nat_alt split: if_splits)
qed

function topup_loop :: "u64 list \<Rightarrow> u64 \<Rightarrow> nat list \<Rightarrow> u64 list \<Rightarrow> u64 \<Rightarrow> u64 list" where
  "topup_loop desired available order shares used =
     (if used < available then
        (case topup_pass desired available order (shares, used, False) of (shares', used', advanced) \<Rightarrow>
           if \<not> advanced then shares' else topup_loop desired available order shares' used')
      else shares)"
  by pat_completeness auto

termination
  by (relation "measure (\<lambda>(_, available, _, _, used). unat available - unat used)")
    (auto simp: word_less_nat_alt dest!: topup_pass_used [OF sym])

declare topup_loop.simps [simp del]

definition proportional_topup_gross_allocations :: "u64 list \<Rightarrow> u64 \<Rightarrow> u64 \<Rightarrow> u64 list" where
  "proportional_topup_gross_allocations desired_gross total_desired_gross available_balance_e8s =
     (let allocations = map (floor_share total_desired_gross available_balance_e8s) desired_gross;
          used = foldl sat_add 0 (map fst allocations);
          order = remainder_order (map snd allocations)
      in topup_loop desired_gross available_balance_e8s order (map fst allocations) used)"

section \<open>The allocation plan\<close>

text \<open>The gross amount a plan asks for, with the reasons noted on the plan.\<close>

definition desired_topup :: "u64 \<Rightarrow> conversion_estimate \<Rightarrow> burn_plan \<Rightarrow> burn_plan \<times> u64" where
  "desired_topup fee_e8s estimate plan =
     (let net = topup_net_e8s (bp_target_topup_cycles plan) estimate in
      if net = 0 then
        (if bp_target_topup_cycles plan = 0
         then plan\<lparr>bp_skipped_reason := Some skip_zero_burn\<rparr> else plan, 0)
      else let gross = sat_add net fee_e8s in
        if gross \<le> fee_e8s
        then (plan\<lparr>bp_skipped_reason := Some skip_gross_share_does_not_exceed_fee\<rparr>, 0)
        else (plan, gross))"

definition with_gross :: "u64 \<Rightarrow> u64 \<Rightarrow> burn_plan \<Rightarrow> burn_plan" where
  "with_gross fee_e8s gross plan =
     plan\<lparr>bp_gross_share_e8s := gross, bp_amount_e8s := gross - fee_e8s\<rparr>"

definition fund_fully :: "u64 \<Rightarrow> burn_plan \<Rightarrow> u64 \<Rightarrow> burn_plan" where
  "fund_fully fee_e8s plan gross = (if gross > 0 then with_gross fee_e8s gross plan else plan)"

definition fund_partly :: "u64 \<Rightarrow> burn_plan \<Rightarrow> u64 \<Rightarrow> burn_plan" where
  "fund_partly fee_e8s plan gross =
     (if gross > fee_e8s then with_gross fee_e8s gross plan
      else if bp_skipped_reason plan = None
      then plan\<lparr>bp_skipped_reason := Some skip_gross_share_does_not_exceed_fee\<rparr> else plan)"

definition note_insufficient :: "burn_plan \<Rightarrow> u64 \<Rightarrow> burn_plan" where
  "note_insufficient plan desired =
     (if desired > 0 \<and> bp_amount_e8s plan = 0 \<and> bp_skipped_reason plan = None
      then plan\<lparr>bp_skipped_reason := Some skip_insufficient_balance_for_topups\<rparr> else plan)"

definition usable_or_bootstrap :: "conversion_estimate option \<Rightarrow> u64 \<Rightarrow> conversion_estimate" where
  "usable_or_bootstrap conversion_estimate now_nanos =
     (case conversion_estimate of
        Some e \<Rightarrow> if conversion_estimate_is_usable e now_nanos then e
          else \<lparr>ce_cycles_per_e8 = bootstrap_cycles_per_e8, ce_timestamp_nanos = now_nanos\<rparr>
      | None \<Rightarrow> \<lparr>ce_cycles_per_e8 = bootstrap_cycles_per_e8, ce_timestamp_nanos = now_nanos\<rparr>)"

definition build_allocation_plan :: "(principal \<times> cycles_snapshot) list
    \<Rightarrow> (principal \<times> cycles_snapshot) list \<Rightarrow> (principal \<times> u128) list \<Rightarrow> (principal \<times> u128) list
    \<Rightarrow> u64 \<Rightarrow> u64 \<Rightarrow> conversion_estimate option \<Rightarrow> u64 \<Rightarrow> allocation_plan" where
  "build_allocation_plan current previous relay_minted recovery_deficits available_balance_e8s fee_e8s
       conversion_estimate now_nanos =
     (let estimate = usable_or_bootstrap conversion_estimate now_nanos;
          desired = map (desired_topup fee_e8s estimate)
            (burn_plans current previous relay_minted recovery_deficits True);
          topups = map fst desired;
          desired_gross = map snd desired;
          total_desired_gross = foldl sat_add 0 desired_gross;
          fully_funded = total_desired_gross \<le> available_balance_e8s;
          funded = (if fully_funded then map2 (fund_fully fee_e8s) topups desired_gross
            else if total_desired_gross > 0 then map2 (fund_partly fee_e8s) topups
              (proportional_topup_gross_allocations desired_gross total_desired_gross available_balance_e8s)
            else topups)
      in \<lparr>al_topups = (if fully_funded then funded else map2 note_insufficient funded desired_gross),
          al_topup_phase_fully_funded = fully_funded,
          al_skipped_surplus_reason =
            (if fully_funded then None else Some skip_insufficient_balance_for_topups)\<rparr>)"

text \<open>Spending everything on top-ups: shares by need, no head-room.\<close>

definition spend_share :: "u64 \<Rightarrow> u128 \<Rightarrow> burn_plan \<Rightarrow> u64" where
  "spend_share available_balance_e8s total_positive_need plan =
     (if bp_target_topup_cycles plan = 0 then 0
      else as_u64 (min (sat_mul (as_u128 available_balance_e8s) (bp_target_topup_cycles plan)
        div total_positive_need) (as_u128 u_max)))"

definition spend_topup :: "u64 \<Rightarrow> burn_plan \<Rightarrow> u64 \<Rightarrow> burn_plan" where
  "spend_topup fee_e8s plan gross =
     (if bp_target_topup_cycles plan = 0 then plan\<lparr>bp_skipped_reason := Some skip_zero_burn\<rparr>
      else let plan = plan\<lparr>bp_gross_share_e8s := gross\<rparr> in
        if as_u128 gross < sat_mul (as_u128 fee_e8s) 2 \<or> gross \<le> fee_e8s
        then plan\<lparr>bp_skipped_reason := Some all_cycles_batch_below_fee_efficient_threshold\<rparr>
        else plan\<lparr>bp_amount_e8s := gross - fee_e8s\<rparr>)"

definition build_spend_all_cycles_plan :: "(principal \<times> cycles_snapshot) list
    \<Rightarrow> (principal \<times> cycles_snapshot) list \<Rightarrow> (principal \<times> u128) list \<Rightarrow> (principal \<times> u128) list
    \<Rightarrow> u64 \<Rightarrow> u64 \<Rightarrow> allocation_plan" where
  "build_spend_all_cycles_plan current previous relay_minted recovery_deficits available_balance_e8s fee_e8s =
     (let topups = burn_plans current previous relay_minted recovery_deficits False;
          total_positive_need = sum_list (map bp_target_topup_cycles
            (filter (\<lambda>p. bp_target_topup_cycles p > 0) topups))
      in if total_positive_need = 0
         then \<lparr>al_topups = map (\<lambda>p. p\<lparr>bp_skipped_reason := Some skip_no_positive_burn\<rparr>) topups,
               al_topup_phase_fully_funded = True,
               al_skipped_surplus_reason = Some skip_no_positive_burn\<rparr>
         else let spent = map2 (spend_topup fee_e8s) topups
                    (map (spend_share available_balance_e8s total_positive_need) topups)
           in \<lparr>al_topups = spent, al_topup_phase_fully_funded = True,
               al_skipped_surplus_reason = Some
                 (if list_ex (\<lambda>p. bp_amount_e8s p > 0) spent then skip_no_raw_icp_recipients
                  else all_cycles_batch_below_fee_efficient_threshold)\<rparr>)"

section \<open>Surplus\<close>

definition equal_share :: "nat \<Rightarrow> u64 \<Rightarrow> u64 \<Rightarrow> u64 \<times> u64 \<times> string option" where
  "equal_share n available_balance_e8s fee_e8s =
     (let gross = available_balance_e8s div word_of_nat n in
      if gross \<le> fee_e8s then (gross, 0, Some skip_gross_share_does_not_exceed_fee)
      else let candidate_amount = gross - fee_e8s in
        if candidate_amount < min_raw_icp_recipient_amount_e8s
        then (gross, 0, Some skip_raw_icp_share_below_1_icp)
        else (gross, candidate_amount, None))"

definition allocate_equal_surplus_shares ::
  "resolved_surplus_recipient list \<Rightarrow> u64 \<Rightarrow> u64 \<Rightarrow> surplus_transfer_sample list" where
  "allocate_equal_surplus_shares recipients available_balance_e8s fee_e8s =
     (if recipients = [] then []
      else case equal_share (length recipients) available_balance_e8s fee_e8s of
        (gross, amount_e8s, skipped_reason) \<Rightarrow> map (\<lambda>recipient.
          \<lparr>xs_target = rr_target recipient, xs_account = rr_account recipient,
           xs_gross_share_e8s = gross, xs_amount_e8s = amount_e8s,
           xs_memo_len = map_option (\<lambda>memo. word_of_nat (length memo)) (rr_memo recipient),
           xs_skipped_reason = skipped_reason\<rparr>) recipients)"

fun first_skip_reason :: "surplus_transfer_sample list \<Rightarrow> string option" where
  "first_skip_reason [] = None"
| "first_skip_reason (x # xs) = (case xs_skipped_reason x of None \<Rightarrow> first_skip_reason xs
     | Some r \<Rightarrow> Some r)"

definition build_surplus_plan :: "resolved_surplus_recipient list \<Rightarrow> u64 \<Rightarrow> u64
    \<Rightarrow> conversion_estimate option \<Rightarrow> u64 \<Rightarrow> surplus_transfer_sample list \<times> u64 \<times> string option" where
  "build_surplus_plan recipients available_balance_e8s fee_e8s conversion_estimate now_nanos =
     (if (case conversion_estimate of None \<Rightarrow> True
          | Some e \<Rightarrow> \<not> conversion_estimate_is_usable e now_nanos)
      then ([], 0, Some skip_missing_conversion_estimate)
      else let surplus = allocate_equal_surplus_shares recipients available_balance_e8s fee_e8s;
               reason = (if recipients = [] then Some skip_no_surplus_recipients
                 else if available_balance_e8s = 0 then Some skip_no_surplus
                 else if list_all (\<lambda>p. xs_amount_e8s p = 0) surplus then
                   (case first_skip_reason surplus of Some r \<Rightarrow> Some r
                    | None \<Rightarrow> Some skip_gross_share_does_not_exceed_fee)
                 else None)
        in (surplus, available_balance_e8s, reason))"

definition resolve_canister_surplus_recipient ::
  "surplus_recipient \<Rightarrow> resolved_surplus_recipient option" where
  "resolve_canister_surplus_recipient recipient = (case sp_target recipient of
       SurplusCanister canister_id \<Rightarrow> Some \<lparr>rr_target = sp_target recipient,
         rr_account = \<lparr>acc_owner = canister_id, acc_subaccount = None\<rparr>, rr_memo = sp_memo recipient\<rparr>
     | SurplusNeuron _ \<Rightarrow> None)"

text \<open>The equality of \<open>Account\<close> in a \<open>BTreeSet\<close> belongs to the \<open>icrc_ledger_types\<close> crate: it is
  the equality of the keys \<open>account_key\<close> gives, a parameter.  The duplicate account, when there is
  one, is the error.\<close>

fun reject_duplicates_from :: "(account \<Rightarrow> 'k) \<Rightarrow> 'k list \<Rightarrow> resolved_surplus_recipient list
    \<Rightarrow> account option" where
  "reject_duplicates_from account_key seen [] = None"
| "reject_duplicates_from account_key seen (r # rs) =
     (if account_key (rr_account r) \<in> set seen then Some (rr_account r)
      else reject_duplicates_from account_key (account_key (rr_account r) # seen) rs)"

definition reject_duplicate_resolved_destinations ::
  "(account \<Rightarrow> 'k) \<Rightarrow> resolved_surplus_recipient list \<Rightarrow> account + unit" where
  "reject_duplicate_resolved_destinations account_key resolved =
     (case reject_duplicates_from account_key [] resolved of None \<Rightarrow> Inr () | Some a \<Rightarrow> Inl a)"

definition burn_sample_of :: "burn_plan \<Rightarrow> canister_burn_sample" where
  "burn_sample_of p = \<lparr>cb_canister_id = bp_canister_id p, cb_previous_cycles = bp_previous_cycles p,
     cb_current_cycles = bp_current_cycles p, cb_relay_minted_cycles = bp_relay_minted_cycles p,
     cb_burn_cycles = bp_burn_cycles p, cb_carried_deficit_cycles = bp_carried_deficit_cycles p,
     cb_target_topup_cycles = bp_target_topup_cycles p, cb_gross_share_e8s = bp_gross_share_e8s p,
     cb_amount_e8s = bp_amount_e8s p, cb_sent_topup_e8s = 0,
     cb_actual_minted_cycles = bp_actual_minted_cycles p,
     cb_remaining_deficit_cycles = bp_remaining_deficit_cycles p,
     cb_skipped_reason = bp_skipped_reason p\<rparr>"

end
