(* ===== verification/RelayPlans.thy ===== *)
theory RelayPlans
  imports RelayAllocation "HOL-Library.Multiset"
begin

text \<open>
  What the Relay's plans guarantee: the proportional allocation hands out exactly the balance, by
  largest remainder; no plan spends more than the balance; a splitter plan divides its balance.
\<close>

section \<open>Sums of machine integers\<close>

abbreviation nsum :: "u64 list \<Rightarrow> nat" where
  "nsum xs \<equiv> sum_list (map unat xs)"

lemma foldl_sat_add: "unat (foldl sat_add a xs) = min (unat a + nsum xs) (2 ^ 64 - 1)" for a :: u64
proof (induction xs arbitrary: a)
  case Nil
  then show ?case using unat_le_max [of a] by simp
next
  case (Cons x xs)
  show ?case using Cons [of "sat_add a x"] by (simp add: u_simps)
qed

section \<open>One pass over the remainders\<close>

text \<open>The indices a pass raises: the first with room, as many as there is balance left.\<close>

definition raised :: "u64 list \<Rightarrow> u64 list \<Rightarrow> nat \<Rightarrow> nat list \<Rightarrow> nat list" where
  "raised desired shares left order = take left (filter (\<lambda>i. shares ! i < desired ! i) order)"

lemma topup_pass_spec:
  assumes "topup_pass desired available order (shares, used, adv) = (shares', used', adv')"
    and "distinct order" "set order \<subseteq> {..<length shares}" "used \<le> available"
  shows "length shares' = length shares \<and>
    (\<forall>i<length shares. unat (shares' ! i) = unat (shares ! i) +
       (if i \<in> set (raised desired shares (unat available - unat used) order) then 1 else 0)) \<and>
    unat used' = unat used + length (raised desired shares (unat available - unat used) order) \<and>
    (adv' \<longleftrightarrow> adv \<or> raised desired shares (unat available - unat used) order \<noteq> [])"
  using assms
proof (induction order arbitrary: shares used adv)
  case Nil
  then show ?case by (simp add: raised_def)
next
  case (Cons i order)
  show ?case
  proof (cases "used < available \<and> shares ! i < desired ! i")
    case False
    show ?thesis
    proof (cases "used < available")
      case True
      with False have skip: "\<not> shares ! i < desired ! i" "\<not> available \<le> used" by (simp_all add: not_le)
      then have "topup_pass desired available order (shares, used, adv) = (shares', used', adv')"
        using Cons.prems(1) by simp
      from Cons.IH [OF this] Cons.prems skip show ?thesis by (simp add: raised_def)
    next
      case False
      then have "used = available" using Cons.prems(4) by simp
      then show ?thesis using Cons.prems(1) by (simp add: raised_def)
    qed
  next
    case True
    let ?s = "shares[i := sat_add (shares ! i) 1]" and ?u = "sat_add used 1"
    have room: "unat ?u = unat used + 1" "unat (sat_add (shares ! i) 1) = unat (shares ! i) + 1"
      using True sat_add_1_less by blast+
    have "\<not> available \<le> used" using True by (simp add: not_le)
    then have pass: "topup_pass desired available order (?s, ?u, True) = (shares', used', adv')"
      using Cons.prems(1) True by simp
    have i: "i < length shares" "i \<notin> set order" using Cons.prems(2,3) by auto
    have eligible: "filter (\<lambda>j. ?s ! j < desired ! j) order = filter (\<lambda>j. shares ! j < desired ! j) order"
    proof (rule filter_cong [OF refl])
      fix j assume "j \<in> set order"
      then have "j \<noteq> i" using i(2) by auto
      then show "?s ! j < desired ! j \<longleftrightarrow> shares ! j < desired ! j" by simp
    qed
    have less: "unat used < unat available" using True by (simp add: word_less_nat_alt)
    then obtain k where k: "unat available - unat used = Suc k" "unat available - (unat used + 1) = k"
      by (cases "unat available - unat used") auto
    have le: "?u \<le> available" using room(1) less by (simp add: word_le_nat_alt)
    note IH = Cons.IH [OF pass _ _ le, unfolded raised_def eligible room(1) k(2)]
    have chosen: "raised desired shares (unat available - unat used) (i # order) = i # take k (filter (\<lambda>j. shares ! j < desired ! j) order)"
      using True by (simp add: raised_def k(1))
    have "i \<notin> set (take k (filter (\<lambda>j. shares ! j < desired ! j) order))"
      using i(2) set_take_subset by fastforce
    then show ?thesis using IH Cons.prems(2,3) i room(2)
      by (auto simp: chosen nth_list_update)
  qed
qed

lemma remainder_order_facts:
  "distinct (remainder_order rs)" "set (remainder_order rs) = {..<length rs}"
proof -
  let ?es = "enumerate 0 rs" and ?f = "\<lambda>(index, r :: u128). (- uint r, index)"
  have "mset (remainder_order rs) = mset (map fst ?es)"
    unfolding remainder_order_def mset_map mset_sort ..
  then have "mset (remainder_order rs) = mset [0..<length rs]" by (simp only: map_fst_enumerate add_0)
  then show "distinct (remainder_order rs)" "set (remainder_order rs) = {..<length rs}"
    by (metis distinct_upt mset_eq_imp_distinct_iff, metis mset_eq_setD atLeast_upt lessThan_atLeast0 set_upt)
qed

text \<open>Earlier in the order means a remainder at least as large.\<close>

lemma remainder_order_sorted:
  assumes "remainder_order rs = as @ i # bs" "j \<in> set bs" "i < length rs" "j < length rs"
  shows "rs ! j \<le> rs ! i"
proof -
  let ?es = "enumerate 0 rs" and ?f = "\<lambda>(index, r :: u128). (- uint r, index)"
  let ?s = "sort_key ?f ?es"
  have pair: "snd e = rs ! fst e" if "e \<in> set ?s" for e
  proof -
    from that have "e \<in> set ?es" by (simp only: set_sort)
    then show ?thesis by (simp add: in_set_enumerate_eq)
  qed
  obtain xs e ys where s: "?s = xs @ e # ys" "map fst xs = as" "fst e = i" "map fst ys = bs"
    using assms(1) unfolding remainder_order_def by (auto simp: map_eq_append_conv map_eq_Cons_conv)
  from assms(2) s(4) obtain d where d: "d \<in> set ys" "fst d = j" by auto
  have "sorted (map ?f (xs @ e # ys))" using s(1) by (metis sorted_sort_key)
  then have "?f e \<le> ?f d" using d(1) by (auto simp: sorted_append)
  then have "uint (snd d) \<le> uint (snd e)" by (cases e; cases d) (auto simp: less_eq_prod_def split: if_splits)
  moreover have "snd e = rs ! i" "snd d = rs ! j" using pair s d by auto
  ultimately show ?thesis by (simp add: word_le_def)
qed

section \<open>The proportional allocation\<close>

text \<open>The exact floor of a share, and its remainder, as naturals.\<close>

lemma floor_share_unat:
  assumes "available < tot"
  shows "unat (fst (floor_share tot available gross)) = unat available * unat gross div unat tot"
    "unat (snd (floor_share tot available gross)) = unat available * unat gross mod unat tot"
proof -
  have pos: "0 < unat tot" and less: "unat available < unat tot"
    using assms by (simp_all add: word_less_nat_alt)
  have "unat available * unat gross div unat tot \<le> unat tot * unat gross div unat tot"
    using less by (intro div_le_mono mult_le_mono1) simp
  then have le: "unat available * unat gross div unat tot \<le> unat gross" using pos by simp
  let ?p = "as_u128 available * as_u128 gross"
  have p: "unat ?p = unat available * unat gross" by (simp add: u_simps)
  have quot: "unat (?p div as_u128 tot) = unat available * unat gross div unat tot"
    by (simp add: unat_div_distrib p)
  then have small: "?p div as_u128 tot \<le> as_u128 gross" using le by (simp add: word_le_nat_alt)
  have "unat gross < 2 ^ 64" using unat_lt [of gross] by simp
  then have "unat (as_u64 (?p div as_u128 tot)) = unat available * unat gross div unat tot"
    using quot le by (simp add: unat_as_u64_small)
  then show "unat (fst (floor_share tot available gross)) = unat available * unat gross div unat tot"
    using small by (simp add: floor_share_def sat_mul_u128 Let_def min_absorb1)
  show "unat (snd (floor_share tot available gross)) = unat available * unat gross mod unat tot"
    by (simp add: floor_share_def sat_mul_u128 Let_def unat_mod_distrib p)
qed

text \<open>What the floors leave over is less than the number of canisters that ask for something.\<close>

lemma floors_leave_little:
  fixes gs :: "nat list"
  assumes "a < t" "sum_list gs = t"
  shows "(\<Sum>g\<leftarrow>gs. a * g div t) \<le> a" "a - (\<Sum>g\<leftarrow>gs. a * g div t) \<le> length (filter (\<lambda>g. 0 < g) gs)"
proof -
  have pos: "0 < t" using assms(1) by simp
  have split: "t * (\<Sum>g\<leftarrow>gs. a * g div t) + (\<Sum>g\<leftarrow>gs. a * g mod t) = a * sum_list gs"
    by (induction gs) (simp_all add: algebra_simps)
  have "(\<Sum>g\<leftarrow>gs. a * g mod t) \<le> t * length (filter (\<lambda>g. 0 < g) gs)"
  proof (induction gs)
    case (Cons g gs)
    have "a * g mod t \<le> t" using pos by (simp add: less_imp_le)
    then show ?case using Cons by (cases "0 < g") simp_all
  qed simp
  moreover have eq: "t * (\<Sum>g\<leftarrow>gs. a * g div t) + (\<Sum>g\<leftarrow>gs. a * g mod t) = t * a"
    using split assms(2) by (simp add: mult.commute)
  ultimately have "t * a \<le> t * ((\<Sum>g\<leftarrow>gs. a * g div t) + length (filter (\<lambda>g. 0 < g) gs))"
    by (simp add: distrib_left)
  then show "a - (\<Sum>g\<leftarrow>gs. a * g div t) \<le> length (filter (\<lambda>g. 0 < g) gs)" using pos by simp
  from eq have "t * (\<Sum>g\<leftarrow>gs. a * g div t) \<le> t * a" by linarith
  with pos show "(\<Sum>g\<leftarrow>gs. a * g div t) \<le> a" by (metis mult_le_cancel1)
qed

lemma length_filter_order:
  assumes "distinct order" "set order = {..<length xs}"
  shows "length (filter (\<lambda>i. P (xs ! i)) order) = length (filter P xs)"
proof -
  have "length (filter (\<lambda>i. P (xs ! i)) order) = card {i. i < length xs \<and> P (xs ! i)}"
    using assms by (subst distinct_card [symmetric]) (auto intro: arg_cong [where f = card])
  then show ?thesis by (simp add: length_filter_conv_card)
qed

lemma nsum_nth: "nsum xs = (\<Sum>i<length xs. unat (xs ! i))"
  by (simp add: sum_list_sum_nth atLeast0LessThan)

lemma card_if_sum: "(\<Sum>i<n. if i \<in> A then 1 else 0) = card {i. i < n \<and> i \<in> A}" for n :: nat
proof -
  have "{i \<in> {..<n}. i \<in> A} = {i. i < n \<and> i \<in> A}" by auto
  then show ?thesis by (simp add: sum.If_cases Int_def)
qed

text \<open>The indices that receive one more than their floor.\<close>

definition topped_up :: "u64 list \<Rightarrow> u64 \<Rightarrow> u64 \<Rightarrow> nat list" where
  "topped_up desired tot available =
     (let floors = map (floor_share tot available) desired
      in take (unat available - nsum (map fst floors))
        (filter (\<lambda>i. 0 < desired ! i) (remainder_order (map snd floors))))"

lemma proportional_spec:
  assumes whole: "nsum desired = unat tot" and less: "available < tot"
  shows "length (proportional_topup_gross_allocations desired tot available) = length desired \<and>
    (\<forall>i<length desired. unat (proportional_topup_gross_allocations desired tot available ! i) =
       unat available * unat (desired ! i) div unat tot +
       (if i \<in> set (topped_up desired tot available) then 1 else 0)) \<and>
    nsum (proportional_topup_gross_allocations desired tot available) = unat available"
proof -
  let ?floors = "map (floor_share tot available) desired"
  let ?shares = "map fst ?floors" and ?order = "remainder_order (map snd ?floors)"
  define used where "used = foldl sat_add 0 ?shares"
  have lt: "unat available < unat tot" using less by (simp add: word_less_nat_alt)
  have share: "unat (?shares ! i) = unat available * unat (desired ! i) div unat tot" if "i < length desired" for i
    using that by (simp add: floor_share_unat [OF less])
  have sum: "nsum ?shares = (\<Sum>g\<leftarrow>map unat desired. unat available * g div unat tot)"
    by (simp add: floor_share_unat [OF less] comp_def)
  note little = floors_leave_little [OF lt whole, folded sum]
  have used: "unat used = nsum ?shares"
    using little(1) unat_le_max [of available] by (simp add: used_def foldl_sat_add)
  have order: "distinct ?order" "set ?order = {..<length desired}"
    using remainder_order_facts [of "map snd ?floors"] by simp_all
  have room: "?shares ! i < desired ! i \<longleftrightarrow> 0 < desired ! i" if "i < length desired" for i
  proof -
    have "unat available * unat (desired ! i) div unat tot < unat (desired ! i)" if "0 < unat (desired ! i)"
      using that lt by (simp add: div_less_iff_less_mult)
    then show ?thesis using share [OF that] by (cases "desired ! i = 0") (auto simp: word_less_nat_alt unat_gt_0)
  qed
  have eligible: "filter (\<lambda>i. ?shares ! i < desired ! i) ?order = filter (\<lambda>i. 0 < desired ! i) ?order"
    using order(2) room by (intro filter_cong) auto
  have raised: "raised desired ?shares (unat available - unat used) ?order = topped_up desired tot available"
    unfolding raised_def topped_up_def Let_def eligible used ..
  have "length (filter (\<lambda>i. 0 < desired ! i) ?order) = length (filter (\<lambda>g. 0 < g) (map unat desired))"
    using length_filter_order [OF order] by (simp add: filter_map comp_def unat_gt_0 word_gt_0)
  then have count: "length (topped_up desired tot available) = unat available - nsum ?shares"
    using little(2) by (simp add: topped_up_def Let_def comp_assoc)
  obtain s u adv where pass: "topup_pass desired available ?order (?shares, used, False) = (s, u, adv)"
    by (metis prod_cases3)
  have "used \<le> available" using little(1) used by (simp add: word_le_nat_alt)
  from topup_pass_spec [OF pass order(1) _ this] order(2)
  have s: "length s = length desired"
    "\<And>i. i < length desired \<Longrightarrow> unat (s ! i) = unat (?shares ! i) + (if i \<in> set (topped_up desired tot available) then 1 else 0)"
    "unat u = unat used + length (topped_up desired tot available)"
    unfolding raised by auto
  have full: "unat u = unat available" using s(3) count used little(1) by simp
  have result: "proportional_topup_gross_allocations desired tot available =
      (if used < available then s else ?shares)"
  proof -
    have "\<not> u < available" using full by (simp add: word_less_nat_alt)
    then have stop: "topup_loop desired available ?order s u = s" by (subst topup_loop.simps) simp
    show ?thesis
      unfolding proportional_topup_gross_allocations_def Let_def used_def [symmetric]
        topup_loop.simps [of _ _ _ ?shares used] pass prod.case stop if_cancel ..
  qed
  show ?thesis
  proof (cases "used < available")
    case True
    have "nsum s = (\<Sum>i<length desired. unat (s ! i))" using nsum_nth [of s] s(1) by simp
    also have "\<dots> = (\<Sum>i<length desired. unat (?shares ! i)) + card (set (topped_up desired tot available))"
    proof -
      have "set (topped_up desired tot available) \<subseteq> {..<length desired}"
        using order(2) set_take_subset by (fastforce simp: topped_up_def Let_def)
      then have "{i. i < length desired \<and> i \<in> set (topped_up desired tot available)} = set (topped_up desired tot available)"
        by auto
      then show ?thesis by (simp add: s(2) sum.distrib card_if_sum)
    qed
    also have "card (set (topped_up desired tot available)) = length (topped_up desired tot available)"
      using order(1) by (intro distinct_card) (simp add: topped_up_def Let_def)
    also have "(\<Sum>i<length desired. unat (?shares ! i)) = nsum ?shares" using nsum_nth [of ?shares] by simp
    finally have "nsum s = unat available" using count little(1) sum by simp
    then show ?thesis using True result s(1,2) share by simp
  next
    case False
    then have "unat used = unat available" using \<open>used \<le> available\<close> by simp
    then have "topped_up desired tot available = []" "nsum ?shares = unat available" using count used by simp_all
    then show ?thesis using False result share by (simp del: nth_map)
  qed
qed

lemma filter_split:
  assumes "filter P xs = as @ i # bs"
  shows "\<exists>as' bs'. xs = as' @ i # bs' \<and> set bs \<subseteq> set bs'"
  using assms
proof (induction xs arbitrary: as)
  case (Cons x xs)
  show ?case
  proof (cases "P x \<and> as \<noteq> []")
    case True
    with Cons.prems have "filter P xs = tl as @ i # bs" by (cases as) auto
    from Cons.IH [OF this] show ?thesis by (metis append_Cons)
  next
    case False
    show ?thesis
    proof (cases "P x")
      case True
      with False Cons.prems have "x = i" "filter P xs = bs" by auto
      then have "x # xs = [] @ i # xs" "set bs \<subseteq> set xs" by auto
      then show ?thesis by blast
    next
      case False
      with Cons.prems have "filter P xs = as @ i # bs" by simp
      from Cons.IH [OF this] show ?thesis by (metis append_Cons)
    qed
  qed
qed simp

text \<open>C27: When the balance does not cover the top-ups, the Relay hands out exactly the balance: every
  canister gets the floor of its proportional share or one unit more, nobody more than asked for,
  and the extra units go to the largest remainders.\<close>

theorem proportional_allocation_exact:
  assumes "nsum desired = unat tot" "available < tot"
    and "shares = proportional_topup_gross_allocations desired tot available"
  shows "length shares = length desired \<and> nsum shares = unat available \<and>
    (\<forall>i<length desired.
       (unat (shares ! i) = unat available * unat (desired ! i) div unat tot \<or>
        unat (shares ! i) = unat available * unat (desired ! i) div unat tot + 1) \<and>
       shares ! i \<le> desired ! i) \<and>
    (\<forall>i<length desired. \<forall>j<length desired. 0 < desired ! j \<longrightarrow>
       unat (shares ! i) = unat available * unat (desired ! i) div unat tot + 1 \<longrightarrow>
       unat (shares ! j) = unat available * unat (desired ! j) div unat tot \<longrightarrow>
       unat available * unat (desired ! j) mod unat tot \<le> unat available * unat (desired ! i) mod unat tot)"
proof -
  let ?floors = "map (floor_share tot available) desired" and ?T = "topped_up desired tot available"
  let ?order = "remainder_order (map snd ?floors)"
  note spec = proportional_spec [OF assms(1,2), folded assms(3)]
  have lt: "unat available < unat tot" using assms(2) by (simp add: word_less_nat_alt)
  obtain k where T: "?T = take k (filter (\<lambda>i. 0 < desired ! i) ?order)" by (simp add: topped_up_def Let_def)
  have bound: "shares ! i \<le> desired ! i" if i: "i < length desired" for i
  proof (cases "desired ! i = 0")
    case True
    then have "i \<notin> set ?T" using set_take_subset T by fastforce
    then show ?thesis using spec i True by (auto simp: word_le_nat_alt)
  next
    case False
    then have "0 < unat (desired ! i)" by (simp add: unat_gt_0)
    then have "unat available * unat (desired ! i) div unat tot < unat (desired ! i)"
      using lt by (simp add: div_less_iff_less_mult)
    then show ?thesis using spec i by (auto simp: word_le_nat_alt)
  qed
  have priority: "unat available * unat (desired ! j) mod unat tot \<le> unat available * unat (desired ! i) mod unat tot"
    if ij: "i < length desired" "j < length desired" "0 < desired ! j" "i \<in> set ?T" "j \<notin> set ?T" for i j
  proof -
    define F where "F = filter (\<lambda>i. 0 < desired ! i) ?order"
    define D where "D = drop k F"
    have F: "F = take k F @ D" by (simp add: D_def)
    have "j \<in> set F" using ij remainder_order_facts(2) [of "map snd ?floors"] by (simp add: F_def)
    then have later: "j \<in> set D" using ij(5) T F F_def by (metis Un_iff set_append)
    from ij(4) T F_def obtain as bs where "take k F = as @ i # bs" by (metis in_set_conv_decomp)
    then have "filter (\<lambda>i. 0 < desired ! i) ?order = as @ i # (bs @ D)"
      using F F_def by simp
    from filter_split [OF this] later obtain as' bs' where split: "?order = as' @ i # bs'" "j \<in> set bs'"
      by auto
    have "map snd ?floors ! j \<le> map snd ?floors ! i"
      using remainder_order_sorted [OF split] ij(1,2) by simp
    then show ?thesis using ij(1,2) floor_share_unat(2) [OF assms(2)] by (simp add: word_le_nat_alt)
  qed
  show ?thesis
  proof (intro conjI allI impI)
    show "length shares = length desired" "nsum shares = unat available" using spec by auto
  next
    fix i assume "i < length desired"
    then show "unat (shares ! i) = unat available * unat (desired ! i) div unat tot \<or>
        unat (shares ! i) = unat available * unat (desired ! i) div unat tot + 1" "shares ! i \<le> desired ! i"
      using spec bound by auto
  next
    fix i j assume "i < length desired" "j < length desired" "0 < desired ! j"
      "unat (shares ! i) = unat available * unat (desired ! i) div unat tot + 1"
      "unat (shares ! j) = unat available * unat (desired ! j) div unat tot"
    then show "unat available * unat (desired ! j) mod unat tot \<le> unat available * unat (desired ! i) mod unat tot"
      using spec priority by (auto split: if_splits)
  qed
qed

lemma proportional_allocation_exact_witness:
  "length [10, 7, 7 :: u64] = 3 \<and> nsum [3, 2, 2] = unat (7 :: u64)"
proof -
  have shares: "[3, 2, 2] = proportional_topup_gross_allocations [10, 7, 7] 24 7"
  proof -
    have floors: "map (floor_share 24 7) [10, 7, 7 :: u64] = [(2, 22), (2, 1), (2, 1)]"
      by (simp add: floor_share_def sat_mul_def Let_def min_def word_le_nat_alt)
    have order: "remainder_order [22, 1, 1] = [0, 1, 2]"
      by (simp add: remainder_order_def less_eq_prod_def)
    have "topup_loop [10, 7, 7] 7 [0, 1, 2] [2, 2, 2] 6 = [3, 2, 2 :: u64]"
      by (simp add: topup_loop.simps sat_add_def word_less_nat_alt word_le_nat_alt)
    then show ?thesis
      unfolding proportional_topup_gross_allocations_def floors
      by (simp add: order sat_add_def)
  qed
  have "nsum [10, 7, 7] = unat (24 :: u64)" "(7 :: u64) < 24" by simp_all
  from proportional_allocation_exact [OF this shares] show ?thesis by simp
qed

section \<open>What the plans spend\<close>

abbreviation gross_total :: "burn_plan list \<Rightarrow> nat" where
  "gross_total ps \<equiv> nsum (map bp_gross_share_e8s ps)"

text \<open>A plan entry is paid out, for its share less the fee, or has no share at all.\<close>

definition spends :: "u64 \<Rightarrow> burn_plan \<Rightarrow> bool" where
  "spends fee p \<longleftrightarrow>
     bp_gross_share_e8s p = 0 \<and> bp_amount_e8s p = 0 \<or>
     unat (bp_gross_share_e8s p) = unat (bp_amount_e8s p) + unat fee \<and> 0 < bp_amount_e8s p"

definition unspent :: "burn_plan \<Rightarrow> bool" where
  "unspent p \<longleftrightarrow> bp_gross_share_e8s p = 0 \<and> bp_amount_e8s p = 0"

lemma burn_plans_unspent: "list_all unspent (burn_plans cur prev minted deficits headroom)"
  by (auto simp: burn_plans_def list_all_iff unspent_def Let_def split: prod.splits)

lemma desired_topup_facts:
  assumes "unspent p"
  shows "unspent (fst (desired_topup fee e p))" "snd (desired_topup fee e p) = 0 \<or> fee < snd (desired_topup fee e p)"
  using assms by (auto simp: desired_topup_def unspent_def Let_def not_le)

lemma with_gross_spends:
  assumes "fee < g" "unspent p"
  shows "spends fee (with_gross fee g p)" "bp_gross_share_e8s (with_gross fee g p) = g"
proof -
  have "unat (g - fee) = unat g - unat fee" using assms by (simp add: unat_sub)
  then show "spends fee (with_gross fee g p)"
    using assms by (simp add: spends_def with_gross_def word_less_nat_alt)
qed (simp add: with_gross_def)

lemma fund_fully_facts:
  assumes "unspent p" "g = 0 \<or> fee < g"
  shows "spends fee (fund_fully fee p g)" "unat (bp_gross_share_e8s (fund_fully fee p g)) \<le> unat g"
proof -
  consider "g = 0" | "fee < g" "0 < g" using assms(2) by (metis le_less_trans word_zero_le)
  then show "spends fee (fund_fully fee p g)" "unat (bp_gross_share_e8s (fund_fully fee p g)) \<le> unat g"
    using with_gross_spends assms(1) by (cases; auto simp: fund_fully_def spends_def unspent_def)+
qed

lemma fund_partly_facts:
  assumes "unspent p"
  shows "spends fee (fund_partly fee p g)" "unat (bp_gross_share_e8s (fund_partly fee p g)) \<le> unat g"
  using with_gross_spends assms by (auto simp: fund_partly_def spends_def unspent_def)

lemma note_insufficient_facts [simp]:
  "spends fee (note_insufficient p d) = spends fee p"
  "bp_gross_share_e8s (note_insufficient p d) = bp_gross_share_e8s p"
  by (simp_all add: note_insufficient_def spends_def)

lemma map2_funded:
  assumes "list_all2 (\<lambda>p g. spends fee (f p g) \<and> unat (bp_gross_share_e8s (f p g)) \<le> unat g) ps gs"
  shows "list_all (spends fee) (map2 f ps gs) \<and> gross_total (map2 f ps gs) \<le> nsum gs"
  using assms by (induction rule: list_all2_induct) auto

lemma map2_note_insufficient:
  assumes "length ps = length ds"
  shows "list_all (spends fee) (map2 note_insufficient ps ds) = list_all (spends fee) ps"
    "gross_total (map2 note_insufficient ps ds) = gross_total ps"
  using assms by (induction ps ds rule: list_induct2) auto

lemma desired_gross_facts:
  assumes "list_all unspent ps"
  shows "list_all2 (\<lambda>p g. unspent p \<and> (g = 0 \<or> fee < g)) 
    (map (fst \<circ> desired_topup fee e) ps) (map (snd \<circ> desired_topup fee e) ps)"
  using assms by (induction ps) (auto simp: desired_topup_facts)

lemma allocation_plan_facts:
  assumes "ps = map (desired_topup fee (usable_or_bootstrap estimate now)) (burn_plans cur prev minted deficits True)"
    and "nsum (map snd ps) < 2 ^ 64"
  shows "gross_total (al_topups (build_allocation_plan cur prev minted deficits balance fee estimate now)) \<le> unat balance \<and>
    list_all (spends fee) (al_topups (build_allocation_plan cur prev minted deficits balance fee estimate now)) \<and>
    (al_topup_phase_fully_funded (build_allocation_plan cur prev minted deficits balance fee estimate now)
       \<longleftrightarrow> nsum (map snd ps) \<le> unat balance)"
proof -
  let ?plan = "build_allocation_plan cur prev minted deficits balance fee estimate now"
  let ?ts = "map fst ps" and ?gs = "map snd ps"
  define tot where "tot = foldl sat_add 0 ?gs"
  have tot: "unat tot = nsum ?gs" using assms(2) by (simp add: tot_def foldl_sat_add)
  then have full: "tot \<le> balance \<longleftrightarrow> nsum ?gs \<le> unat balance" by (simp add: word_le_nat_alt)
  have asks: "list_all2 (\<lambda>p g. unspent p \<and> (g = 0 \<or> fee < g)) ?ts ?gs"
    using desired_gross_facts [OF burn_plans_unspent] by (simp add: assms(1))
  then have len: "length ?ts = length ?gs" by (rule list_all2_lengthD)
  have plan: "al_topups ?plan = (if tot \<le> balance then map2 (fund_fully fee) ?ts ?gs
      else map2 note_insufficient (if tot > 0 then map2 (fund_partly fee) ?ts
        (proportional_topup_gross_allocations ?gs tot balance) else ?ts) ?gs)"
    "al_topup_phase_fully_funded ?plan \<longleftrightarrow> tot \<le> balance"
    unfolding build_allocation_plan_def assms(1) [symmetric] tot_def [symmetric] Let_def by simp_all
  have "gross_total (al_topups ?plan) \<le> unat balance \<and> list_all (spends fee) (al_topups ?plan)"
  proof (cases "tot \<le> balance")
    case True
    have "list_all2 (\<lambda>p g. spends fee (fund_fully fee p g) \<and>
        unat (bp_gross_share_e8s (fund_fully fee p g)) \<le> unat g) ?ts ?gs"
      using asks by (rule list_all2_mono) (auto simp: fund_fully_facts)
    from map2_funded [OF this] show ?thesis using True full plan by auto
  next
    case False
    then have "balance < tot" "0 < tot" by (auto simp: not_le intro: le_less_trans [OF word_zero_le])
    let ?ss = "proportional_topup_gross_allocations ?gs tot balance"
    note ss = proportional_spec [OF tot [symmetric] \<open>balance < tot\<close>]
    have "list_all2 (\<lambda>p g. spends fee (fund_partly fee p g) \<and>
        unat (bp_gross_share_e8s (fund_partly fee p g)) \<le> unat g) ?ts ?ss"
    proof (rule list_all2_all_nthI)
      show "length ?ts = length ?ss" using ss by simp
      fix i assume "i < length ?ts"
      then have "unspent (?ts ! i)" using asks by (auto simp: list_all2_conv_all_nth)
      then show "spends fee (fund_partly fee (?ts ! i) (?ss ! i)) \<and>
          unat (bp_gross_share_e8s (fund_partly fee (?ts ! i) (?ss ! i))) \<le> unat (?ss ! i)"
        using fund_partly_facts by blast
    qed
    from map2_funded [OF this] have "list_all (spends fee) (map2 (fund_partly fee) ?ts ?ss)"
      "gross_total (map2 (fund_partly fee) ?ts ?ss) \<le> unat balance" using ss by auto
    then show ?thesis using False \<open>0 < tot\<close> ss
      by (simp add: plan map2_note_insufficient del: map_map)
  qed
  then show ?thesis using plan(2) full by simp
qed

text \<open>A cycle top-up plan never spends more than the balance it was built for, as long as what the
  canisters ask for together fits a 64-bit amount: the gross shares add up to at most the balance, and every share pays one amount and one fee.\<close>

theorem allocation_plan_within_balance:
  assumes "ps = map (desired_topup fee (usable_or_bootstrap estimate now)) (burn_plans cur prev minted deficits True)"
    and "nsum (map snd ps) < 2 ^ 64"
  shows "gross_total (al_topups (build_allocation_plan cur prev minted deficits balance fee estimate now)) \<le> unat balance \<and>
    list_all (spends fee) (al_topups (build_allocation_plan cur prev minted deficits balance fee estimate now)) \<and>
    (al_topup_phase_fully_funded (build_allocation_plan cur prev minted deficits balance fee estimate now)
       \<longleftrightarrow> nsum (map snd ps) \<le> unat balance)"
  using allocation_plan_facts [OF assms] .

abbreviation snapshot :: "u128 \<Rightarrow> cycles_snapshot" where
  "snapshot cycles \<equiv> \<lparr>cy_cycles = cycles, cy_timestamp_nanos = 0, cy_source = SelfCanister\<rparr>"

text \<open>Two canisters burned 3000000 and 9000000 cycles; the balance covers half of it.\<close>

abbreviation (input) two_now :: "(principal \<times> cycles_snapshot) list" where
  "two_now \<equiv> [([1], snapshot 1000000), ([2], snapshot 1000000)]"

abbreviation (input) two_before :: "(principal \<times> cycles_snapshot) list" where
  "two_before \<equiv> [([1], snapshot 4000000), ([2], snapshot 10000000)]"

lemma allocation_plan_within_balance_witness:
  "gross_total (al_topups (build_allocation_plan two_now two_before [] [] 80 10 None 0)) \<le> 80"
proof -
  have "nsum (map snd (map (desired_topup 10 (usable_or_bootstrap None 0))
      (burn_plans two_now two_before [] [] True))) < 2 ^ 64"
    by (simp add: burn_plans_def desired_topup_def usable_or_bootstrap_def topup_net_e8s_def
      target_topup_cycles_def ceil_div_def compute_burn_def sat_add_def sat_sub_def sat_mul_def
      topup_headroom_numerator_def topup_headroom_denominator_def bootstrap_cycles_per_e8_def
      Let_def word_le_nat_alt min_def)
  from allocation_plan_within_balance [OF refl this, of 80] show ?thesis by simp
qed

section \<open>Spending everything on top-ups\<close>

abbreviation need_total :: "burn_plan list \<Rightarrow> nat" where
  "need_total ps \<equiv> (\<Sum>p\<leftarrow>ps. unat (bp_target_topup_cycles p))"

lemma need_sum:
  assumes "need_total ps < 2 ^ 128"
  shows "unat (sum_list (map bp_target_topup_cycles (filter (\<lambda>p. bp_target_topup_cycles p > 0) ps))) = need_total ps"
  using assms
proof (induction ps)
  case (Cons p ps)
  then have "need_total ps < 2 ^ 128" by simp
  from Cons.IH [OF this] Cons.prems show ?case
    by (auto simp: unat_word_ariths word_gt_0)
qed simp

lemma spend_share_le:
  "unat (spend_share balance need p) \<le> unat balance * unat (bp_target_topup_cycles p) div unat need"
proof -
  have "unat (sat_mul (as_u128 balance) (bp_target_topup_cycles p)) \<le> unat balance * unat (bp_target_topup_cycles p)"
    by (simp add: u_simps)
  then have "unat (sat_mul (as_u128 balance) (bp_target_topup_cycles p) div need)
      \<le> unat balance * unat (bp_target_topup_cycles p) div unat need"
    by (simp add: unat_div_distrib div_le_mono)
  moreover have "unat (as_u64 (min q (as_u128 u_max))) \<le> unat q" for q
    using unat_lt [of "as_u64 q"]
    by (cases "q \<le> as_u128 u_max") (auto simp: min_def unat_as_u64 word_le_nat_alt)
  ultimately show ?thesis by (auto simp: spend_share_def intro: order_trans)
qed

lemma floors_below:
  fixes a t :: nat
  assumes "sum_list gs \<le> t" "0 < t"
  shows "(\<Sum>g\<leftarrow>gs. a * g div t) \<le> a"
proof -
  have "t * (\<Sum>g\<leftarrow>gs. a * g div t) \<le> a * sum_list gs"
    by (induction gs) (auto simp: distrib_left intro: add_mono)
  also have "\<dots> \<le> t * a" using assms(1) by (simp add: mult.commute)
  finally show ?thesis using assms(2) by (metis mult_le_cancel1)
qed

lemma spend_topup_facts:
  assumes "unspent p"
  shows "bp_amount_e8s (spend_topup fee p g) = 0 \<or>
      unat (bp_gross_share_e8s (spend_topup fee p g)) = unat (bp_amount_e8s (spend_topup fee p g)) + unat fee \<and>
      2 * unat fee \<le> unat (bp_gross_share_e8s (spend_topup fee p g))"
    "unat (bp_gross_share_e8s (spend_topup fee p g)) \<le> unat g"
proof -
  have "2 * unat fee \<le> unat g" if "\<not> as_u128 g < sat_mul (as_u128 fee) 2"
  proof -
    have "2 * unat fee < 2 ^ 128" using unat_lt [of fee] by simp
    then have "unat (sat_mul (as_u128 fee) 2) = 2 * unat fee"
      by (subst unat_sat_mul) simp
    then show ?thesis using that by (simp add: word_less_nat_alt)
  qed
  moreover have "unat (g - fee) = unat g - unat fee" if "fee < g"
    using that by (simp add: unat_sub)
  ultimately show "bp_amount_e8s (spend_topup fee p g) = 0 \<or>
      unat (bp_gross_share_e8s (spend_topup fee p g)) = unat (bp_amount_e8s (spend_topup fee p g)) + unat fee \<and>
      2 * unat fee \<le> unat (bp_gross_share_e8s (spend_topup fee p g))"
    using assms by (auto simp: spend_topup_def unspent_def Let_def not_le word_less_nat_alt)
  show "unat (bp_gross_share_e8s (spend_topup fee p g)) \<le> unat g"
    using assms by (simp add: spend_topup_def unspent_def Let_def)
qed

text \<open>Spending everything on top-ups stays within the balance as well, and a canister is paid only a share
  of at least twice the fee.\<close>

theorem spend_all_plan_within_balance:
  assumes "need_total (burn_plans cur prev minted deficits False) < 2 ^ 128"
    and "topups = al_topups (build_spend_all_cycles_plan cur prev minted deficits balance fee)"
  shows "gross_total topups \<le> unat balance \<and>
    list_all (\<lambda>p. bp_amount_e8s p = 0 \<or>
      unat (bp_gross_share_e8s p) = unat (bp_amount_e8s p) + unat fee \<and>
      2 * unat fee \<le> unat (bp_gross_share_e8s p)) topups"
proof -
  let ?ps = "burn_plans cur prev minted deficits False"
  let ?need = "sum_list (map bp_target_topup_cycles (filter (\<lambda>p. bp_target_topup_cycles p > 0) ?ps))"
  note need = need_sum [OF assms(1)]
  have un: "list_all unspent ?ps" by (rule burn_plans_unspent)
  show ?thesis
  proof (cases "?need = 0")
    case True
    then have "topups = map (\<lambda>p. p\<lparr>bp_skipped_reason := Some skip_no_positive_burn\<rparr>) ?ps"
      using assms(2) by (simp add: build_spend_all_cycles_plan_def Let_def)
    then show ?thesis using un by (auto simp: list_all_iff unspent_def comp_def cong: map_cong)
  next
    case False
    then have pos: "0 < unat ?need" by (simp add: unat_gt_0)
    from False have topups: "topups = map (\<lambda>p. spend_topup fee p (spend_share balance ?need p)) ?ps"
      using assms(2) by (simp add: build_spend_all_cycles_plan_def Let_def map2_map_map [where f = "\<lambda>x. x", simplified])
    have "gross_total topups \<le> (\<Sum>p\<leftarrow>?ps. unat balance * unat (bp_target_topup_cycles p) div unat ?need)"
      unfolding topups map_map comp_def
    proof (rule sum_list_mono)
      fix p assume "p \<in> set ?ps"
      then have "unspent p" using un by (simp add: list_all_iff)
      from spend_topup_facts(2) [OF this] spend_share_le
      show "unat (bp_gross_share_e8s (spend_topup fee p (spend_share balance ?need p)))
          \<le> unat balance * unat (bp_target_topup_cycles p) div unat ?need"
        by (rule order_trans)
    qed
    also have "\<dots> = (\<Sum>g\<leftarrow>map (unat \<circ> bp_target_topup_cycles) ?ps. unat balance * g div unat ?need)"
      by (simp add: comp_def)
    also have "\<dots> \<le> unat balance"
      by (rule floors_below) (use need pos in \<open>simp_all add: comp_def\<close>)
    finally show ?thesis using un spend_topup_facts(1) by (auto simp: topups list_all_iff)
  qed
qed

lemma spend_all_plan_within_balance_witness:
  "gross_total (al_topups (build_spend_all_cycles_plan two_now two_before [] [] 80 10)) \<le> 80"
proof -
  have "need_total (burn_plans two_now two_before [] [] False) < 2 ^ 128"
    by (simp add: burn_plans_def compute_burn_def sat_add_def sat_sub_def Let_def word_le_nat_alt)
  from spend_all_plan_within_balance [OF this refl, of 80 10] show ?thesis by simp
qed

section \<open>Surplus and splitters\<close>

text \<open>Surplus recipients get equal shares that together stay within the balance, and a recipient is paid
  only when its amount after the fee reaches the minimum of one ICP.\<close>

theorem surplus_shares_within_balance:
  assumes "length recipients < 2 ^ 64"
    and "shares = allocate_equal_surplus_shares recipients balance fee"
  shows "length shares = length recipients \<and> nsum (map xs_gross_share_e8s shares) \<le> unat balance \<and>
    list_all (\<lambda>x. unat (xs_gross_share_e8s x) = unat balance div length recipients \<and>
      (xs_amount_e8s x = 0 \<longleftrightarrow> xs_skipped_reason x \<noteq> None) \<and>
      (xs_amount_e8s x = 0 \<or> min_raw_icp_recipient_amount_e8s \<le> xs_amount_e8s x \<and>
         unat (xs_gross_share_e8s x) = unat (xs_amount_e8s x) + unat fee)) shares"
proof (cases "recipients = []")
  case True
  then show ?thesis using assms(2) by (simp add: allocate_equal_surplus_shares_def)
next
  case False
  let ?n = "length recipients"
  have n: "unat (word_of_nat ?n :: u64) = ?n" using assms(1) by (simp add: unat_of_nat take_bit_nat_eq_self)
  obtain g a r where e: "equal_share ?n balance fee = (g, a, r)" by (metis prod_cases3)
  have g: "unat g = unat balance div ?n"
    using e n by (auto simp: equal_share_def Let_def unat_div_distrib split: if_splits)
  have a: "(a = 0 \<longleftrightarrow> r \<noteq> None) \<and> (a = 0 \<or> min_raw_icp_recipient_amount_e8s \<le> a \<and> unat g = unat a + unat fee)"
  proof -
    have "unat (x - fee) = unat x - unat fee" if "fee < x" for x using that by (simp add: unat_sub)
    then show ?thesis
      using e by (auto simp: equal_share_def Let_def not_le not_less word_less_nat_alt word_le_nat_alt
        min_raw_icp_recipient_amount_e8s_def split: if_splits)
  qed
  have "nsum (map xs_gross_share_e8s shares) = ?n * unat g"
    using False assms(2) e by (simp add: allocate_equal_surplus_shares_def comp_def sum_list_triv)
  then have "nsum (map xs_gross_share_e8s shares) \<le> unat balance" by (simp add: g)
  then show ?thesis
    using False assms(2) e g a by (auto simp: allocate_equal_surplus_shares_def list_all_iff)
qed

lemma surplus_shares_within_balance_witness:
  "nsum (map xs_gross_share_e8s (allocate_equal_surplus_shares
     [\<lparr>rr_target = SurplusNeuron 7, rr_account = \<lparr>acc_owner = [1], acc_subaccount = None\<rparr>, rr_memo = None\<rparr>,
      \<lparr>rr_target = SurplusNeuron 8, rr_account = \<lparr>acc_owner = [2], acc_subaccount = None\<rparr>, rr_memo = None\<rparr>]
     300000001 10000)) \<le> 300000001"
  using surplus_shares_within_balance [OF _ refl, of
     "[\<lparr>rr_target = SurplusNeuron 7, rr_account = \<lparr>acc_owner = [1], acc_subaccount = None\<rparr>, rr_memo = None\<rparr>,
       \<lparr>rr_target = SurplusNeuron 8, rr_account = \<lparr>acc_owner = [2], acc_subaccount = None\<rparr>, rr_memo = None\<rparr>]"
     300000001 10000] by simp

text \<open>What makes a splitter plan valid: two positive legs, each an amount and a fee, that exhaust the
  balance at the splitter's percentage, under creation times that differ.\<close>

definition splitter_plan_valid :: "splitter_plan \<Rightarrow> bool" where
  "splitter_plan_valid plan \<longleftrightarrow>
     (let d = sl_default_leg plan; s = sl_subaccount_one_leg plan in
      lp_destination d = ToDefaultAccount \<and> lp_destination s = ToSubaccountOne \<and>
      unat (lp_gross_share_e8s d) = unat (sl_balance_start_e8s plan) * unat (sl_percentage_to_default plan) div 100 \<and>
      unat (lp_gross_share_e8s d) + unat (lp_gross_share_e8s s) = unat (sl_balance_start_e8s plan) \<and>
      unat (lp_gross_share_e8s d) = unat (lp_amount_e8s d) + unat (lp_fee_e8s d) \<and>
      unat (lp_gross_share_e8s s) = unat (lp_amount_e8s s) + unat (lp_fee_e8s s) \<and>
      0 < lp_amount_e8s d \<and> 0 < lp_amount_e8s s \<and> lp_fee_e8s d = lp_fee_e8s s \<and>
      unat (lp_created_at_time_nanos s) = unat (lp_created_at_time_nanos d) + 1 \<and>
      sl_source_subaccount plan = relay_numbered_subaccount (sl_splitter_number plan) \<and>
      sl_splitter_number plan \<in> set splitter_percentages \<and>
      sl_percentage_to_default plan = sl_splitter_number plan)"

lemma splitter_percentage_Some:
  "splitter_percentage n = Some p \<longleftrightarrow> p = n \<and> n \<in> set splitter_percentages"
proof -
  have "find (\<lambda>c. c = n) xs = Some p \<longleftrightarrow> p = n \<and> n \<in> set xs" for xs by (induction xs) auto
  then show ?thesis by (simp add: splitter_percentage_def)
qed

lemma build_splitter_plan_valid:
  assumes "build_splitter_plan n balance fee now = Inr plan"
  shows "splitter_plan_valid plan \<and> sl_splitter_number plan = n \<and>
    sl_balance_start_e8s plan = balance \<and> lp_fee_e8s (sl_default_leg plan) = fee \<and>
    lp_created_at_time_nanos (sl_default_leg plan) = now \<and>
    unat min_raw_icp_recipient_amount_e8s + unat fee \<le> unat balance"
proof -
  from assms obtain product rest later where run: "n \<in> set splitter_percentages"
    "\<not> (balance \<le> fee \<or> balance - fee < min_raw_icp_recipient_amount_e8s)"
    "checked_mul (as_u128 balance) (ucast n) = Some product"
    "unat (product div 100) < 2 ^ 64" "checked_sub balance (as_u64 (product div 100)) = Some rest"
    "\<not> (as_u64 (product div 100) \<le> fee \<or> rest \<le> fee)" "checked_add now 1 = Some later"
    and plan: "plan = \<lparr>sl_splitter_number = n, sl_percentage_to_default = n,
      sl_source_subaccount = relay_numbered_subaccount n, sl_balance_start_e8s = balance,
      sl_default_leg = \<lparr>lp_destination = ToDefaultAccount,
        lp_gross_share_e8s = as_u64 (product div 100), lp_amount_e8s = as_u64 (product div 100) - fee,
        lp_fee_e8s = fee, lp_created_at_time_nanos = now\<rparr>,
      sl_subaccount_one_leg = \<lparr>lp_destination = ToSubaccountOne, lp_gross_share_e8s = rest,
        lp_amount_e8s = rest - fee, lp_fee_e8s = fee, lp_created_at_time_nanos = later\<rparr>\<rparr>"
    by (auto simp: build_splitter_plan_def Let_def splitter_percentage_Some not_le
        split: option.splits if_splits)
  have sub: "unat (x - fee) = unat x - unat fee" if "fee < x" for x using that by (simp add: unat_sub)
  have n: "unat (ucast n :: u128) = unat n"
    using unat_lt [of n] by (simp add: unsigned_ucast_eq take_bit_nat_eq_self)
  have "unat (as_u64 (product div 100)) = unat balance * unat n div 100"
    using run(3,4) n by (simp add: unat_as_u64_small unat_div_distrib checked_mul_Some)
  moreover have "unat balance = unat (as_u64 (product div 100)) + unat rest"
    using run(5) by (simp add: checked_sub_Some)
  moreover have "unat later = unat now + 1" using run(7) by (simp add: checked_add_Some)
  moreover have "unat min_raw_icp_recipient_amount_e8s + unat fee \<le> unat balance"
  proof -
    have "unat fee < unat balance" "unat min_raw_icp_recipient_amount_e8s \<le> unat (balance - fee)"
      using run(2) by (simp_all add: not_le not_less word_less_nat_alt word_le_nat_alt)
    then show ?thesis using sub [of balance] by (simp add: word_less_nat_alt)
  qed
  ultimately show ?thesis
    using run(1,6) sub by (simp add: plan splitter_plan_valid_def Let_def not_le word_less_nat_alt)
qed

text \<open>A splitter plan divides its balance exactly: the two gross shares add up to the balance, the
  default share is the splitter's percentage rounded down, both legs exceed the fee, and the ledger sees two
  different creation times.\<close>

theorem splitter_plan_divides_balance:
  assumes "build_splitter_plan n balance fee now = Inr plan"
  shows "splitter_plan_valid plan \<and> sl_splitter_number plan = n \<and>
    sl_balance_start_e8s plan = balance \<and> lp_fee_e8s (sl_default_leg plan) = fee \<and>
    lp_created_at_time_nanos (sl_default_leg plan) = now \<and>
    unat min_raw_icp_recipient_amount_e8s + unat fee \<le> unat balance"
  using assms by (rule build_splitter_plan_valid)

lemma splitter_plan_divides_balance_witness:
  "splitter_plan_valid (case build_splitter_plan 30 200000001 10000 5 of Inr plan \<Rightarrow> plan)"
proof -
  have "\<exists>plan. build_splitter_plan 30 200000001 10000 5 = Inr plan"
    by (simp add: build_splitter_plan_def splitter_percentage_def splitter_percentages_def
      checked_mul_def checked_sub_def checked_add_def min_raw_icp_recipient_amount_e8s_def Let_def
      word_le_nat_alt word_less_nat_alt)
  then obtain plan where "build_splitter_plan 30 200000001 10000 5 = Inr plan" ..
  from splitter_plan_divides_balance [OF this] this show ?thesis by simp
qed

end
