(* ===== verification/RelayWorld.thy ===== *)
theory RelayWorld
  imports RelayPlans CyclesProbe IndexTypes Lease PokeGate
begin

text \<open>
  The world of the Relay canister: its heap state, the stable journal of splitter jobs
  (\<open>src/canisters/relay/src/splitter_state.rs\<close>), its two lease guards (\<open>scheduler/guards.rs\<close>)
  and the ledger fee (\<open>scheduler/ledger_fee.rs\<close>).
\<close>

section \<open>Splitter jobs\<close>

datatype splitter_leg = DefaultLeg | SubaccountOneLeg

datatype splitter_leg_status =
    LegReady
  | WaitingForFunds u64
  | WaitingForFeasibleFee nat
  | LegAccepted nat

record splitter_leg_progress =
  gp_status :: splitter_leg_status
  gp_attempt_started :: bool
  gp_uncertain_attempt_seen :: bool

definition leg_progress_default :: splitter_leg_progress where
  "leg_progress_default =
     \<lparr>gp_status = LegReady, gp_attempt_started = False, gp_uncertain_attempt_seen = False\<rparr>"

record splitter_job =
  sj_pinned_ledger_canister_id :: principal
  sj_plan :: splitter_plan
  sj_default_leg :: splitter_leg_progress
  sj_subaccount_one_leg :: splitter_leg_progress
  sj_driver_revision :: u64

definition splitter_job_new :: "principal \<Rightarrow> splitter_plan \<Rightarrow> splitter_job" where
  "splitter_job_new pinned_ledger_canister_id plan =
     \<lparr>sj_pinned_ledger_canister_id = pinned_ledger_canister_id, sj_plan = plan,
      sj_default_leg = leg_progress_default, sj_subaccount_one_leg = leg_progress_default,
      sj_driver_revision = 0\<rparr>"

record quarantined_job =
  qj_job :: splitter_job
  qj_blocked_leg :: splitter_leg
  qj_quarantined_at_nanos :: u64
  qj_reason :: string

record splitter_state =
  ps_active_job :: "splitter_job option"
  ps_quarantined_jobs :: "u8 \<Rightarrow> quarantined_job option"
  ps_next_driver_revision :: u64

definition splitter_state_default :: splitter_state where
  "splitter_state_default = \<lparr>ps_active_job = None, ps_quarantined_jobs = \<lambda>_. None, ps_next_driver_revision = 0\<rparr>"

section \<open>The world\<close>

text \<open>
  \<open>yw_splitter\<close> is the stable cell (\<open>None\<close>: uninitialized).  Ghost fields, which no code
  reads: the number of handlers started, the handler that took each lease, the transfers of the active
  splitter job that the ledger may have accepted, the jobs that ended, and for the active relay job the
  transfers it has staged and those it has sent, newest first.  \<open>yw_retry_pending\<close> and \<open>yw_poke\<close> are thread-local cells.
\<close>

datatype splitter_closing = ClosedCompleted | ClosedBeforeSpend | ClosedQuarantined

type_synonym possible_transfers = "(splitter_leg \<times> transfer_arg) list"

record 'p relay_world =
  yw_now :: u64
  yw_st :: "'p rstate"
  yw_splitter :: "splitter_state option"
  yw_ticket :: nat
  yw_main_owner :: "nat option"
  yw_splitter_owner :: "nat option"
  yw_possible :: possible_transfers
  yw_closed :: "(splitter_closing \<times> splitter_job \<times> possible_transfers) list"
  yw_staged :: "relay_transfer list"
  yw_job_sent :: "transfer_arg list"
  yw_retry_pending :: bool
  yw_poke :: poke_runtime

definition y_with_state_mut :: "('p rstate \<Rightarrow> 'p rstate) \<Rightarrow> 'p relay_world \<Rightarrow> 'p relay_world" where
  "y_with_state_mut f w = w\<lparr>yw_st := f (yw_st w)\<rparr>"

definition y_now_secs :: "'p relay_world \<Rightarrow> u64" where
  "y_now_secs w = yw_now w div 1000000000"

section \<open>The stable journal\<close>

definition sp_get :: "'p relay_world \<Rightarrow> splitter_state" where
  "sp_get w = (case yw_splitter w of None \<Rightarrow> splitter_state_default | Some state \<Rightarrow> state)"

definition sp_initialize_if_uninitialized :: "'p relay_world \<Rightarrow> 'p relay_world" where
  "sp_initialize_if_uninitialized w =
     (if yw_splitter w = None then w\<lparr>yw_splitter := Some splitter_state_default\<rparr> else w)"

definition sp_set :: "splitter_state \<Rightarrow> 'p relay_world \<Rightarrow> 'p relay_world" where
  "sp_set state w = w\<lparr>yw_splitter := Some state\<rparr>"

definition sp_active_job :: "'p relay_world \<Rightarrow> splitter_job option" where
  "sp_active_job w = ps_active_job (sp_get w)"

definition sp_set_active_job :: "splitter_job \<Rightarrow> 'p relay_world \<Rightarrow> 'p relay_world" where
  "sp_set_active_job job w = sp_set ((sp_get w)\<lparr>ps_active_job := Some job\<rparr>) w"

definition map_leg :: "splitter_leg \<Rightarrow> (splitter_leg_progress \<Rightarrow> splitter_leg_progress)
    \<Rightarrow> splitter_job \<Rightarrow> splitter_job" where
  "map_leg leg f job = (case leg of
       DefaultLeg \<Rightarrow> job\<lparr>sj_default_leg := f (sj_default_leg job)\<rparr>
     | SubaccountOneLeg \<Rightarrow> job\<lparr>sj_subaccount_one_leg := f (sj_subaccount_one_leg job)\<rparr>)"

text \<open>\<open>None\<close> is the panic on an exhausted revision.\<close>

definition claim_active_job :: "splitter_job \<Rightarrow> splitter_leg option \<Rightarrow> 'p relay_world
    \<Rightarrow> (splitter_job option \<times> 'p relay_world) option" where
  "claim_active_job expected mark_attempt_started w =
     (let state = sp_get w in
      if ps_active_job state \<noteq> Some expected then Some (None, sp_set state w)
      else case checked_add (ps_next_driver_revision state) 1 of
        None \<Rightarrow> None
      | Some revision \<Rightarrow>
          let claimed = expected\<lparr>sj_driver_revision := revision\<rparr>;
              job = (case mark_attempt_started of None \<Rightarrow> claimed
                | Some leg \<Rightarrow> map_leg leg (\<lambda>p. p\<lparr>gp_attempt_started := True\<rparr>) claimed)
          in Some (Some job, sp_set (state\<lparr>ps_next_driver_revision := revision,
               ps_active_job := Some job\<rparr>) w))"

definition active_job_if_claim_matches :: "splitter_job \<Rightarrow> 'p relay_world \<Rightarrow> splitter_job option" where
  "active_job_if_claim_matches claimed w = (case sp_active_job w of None \<Rightarrow> None
     | Some active \<Rightarrow> if active = claimed then Some active else None)"

text \<open>The ghost log of ended jobs.\<close>

definition note_closed :: "splitter_closing \<Rightarrow> 'p relay_world \<Rightarrow> 'p relay_world" where
  "note_closed how w = (case sp_active_job w of None \<Rightarrow> w
     | Some job \<Rightarrow> w\<lparr>yw_closed := (how, job, yw_possible w) # yw_closed w, yw_possible := []\<rparr>)"

definition clear_active_job :: "splitter_closing \<Rightarrow> 'p relay_world \<Rightarrow> 'p relay_world" where
  "clear_active_job how w =
     (let w1 = note_closed how w in sp_set ((sp_get w1)\<lparr>ps_active_job := None\<rparr>) w1)"

definition is_quarantined :: "u8 \<Rightarrow> 'p relay_world \<Rightarrow> bool" where
  "is_quarantined splitter_number w \<longleftrightarrow> ps_quarantined_jobs (sp_get w) splitter_number \<noteq> None"

definition quarantine_active_job :: "splitter_leg \<Rightarrow> u64 \<Rightarrow> string \<Rightarrow> 'p relay_world \<Rightarrow> 'p relay_world" where
  "quarantine_active_job blocked_leg quarantined_at_nanos reason w =
     (let w1 = note_closed ClosedQuarantined w; state = sp_get w1 in
      case ps_active_job state of
        None \<Rightarrow> sp_set state w1
      | Some job \<Rightarrow> sp_set (state\<lparr>ps_active_job := None,
          ps_quarantined_jobs := (ps_quarantined_jobs state)(sl_splitter_number (sj_plan job) \<mapsto>
            \<lparr>qj_job = job, qj_blocked_leg = blocked_leg,
             qj_quarantined_at_nanos = quarantined_at_nanos, qj_reason = reason\<rparr>)\<rparr>) w1)"

definition validate_active_ledger :: "principal \<Rightarrow> 'p relay_world \<Rightarrow> bool" where
  "validate_active_ledger ledger_canister_id w = (case sp_active_job w of None \<Rightarrow> True
     | Some active \<Rightarrow> sj_pinned_ledger_canister_id active = ledger_canister_id)"

section \<open>Lease guards\<close>

definition splitter_lease_seconds :: u64 where "splitter_lease_seconds = 30 * 60"
definition main_lease_seconds :: u64 where "main_lease_seconds = 30 * 60"

definition splitter_guard_acquire :: "nat \<Rightarrow> u64 \<Rightarrow> 'p relay_world
    \<Rightarrow> (timer_lease_guard \<times> 'p relay_world) option" where
  "splitter_guard_acquire handler now_secs w =
     (case tlg_acquire now_secs splitter_lease_seconds (rs_splitter_lock_state_ts (yw_st w)) of
        None \<Rightarrow> None
      | Some inner \<Rightarrow> Some (inner, y_with_state_mut
          (\<lambda>st. st\<lparr>rs_splitter_lock_state_ts := Some (tlg_expires inner)\<rparr>)
          (w\<lparr>yw_splitter_owner := Some handler\<rparr>)))"

definition splitter_guard_is_current :: "timer_lease_guard \<Rightarrow> 'p relay_world \<Rightarrow> bool" where
  "splitter_guard_is_current inner w \<longleftrightarrow> tlg_active inner \<and>
     rs_splitter_lock_state_ts (yw_st w) = Some (tlg_expires inner)"

text \<open>Dropping a guard releases its lease.\<close>

definition splitter_guard_drop :: "timer_lease_guard \<Rightarrow> 'p relay_world \<Rightarrow> 'p relay_world" where
  "splitter_guard_drop inner w =
     (if fst (tlg_release inner (rs_splitter_lock_state_ts (yw_st w))) = Released
      then y_with_state_mut (\<lambda>st. st\<lparr>rs_splitter_lock_state_ts := Some 0\<rparr>) (w\<lparr>yw_splitter_owner := None\<rparr>)
      else w)"

section \<open>Requests and responses\<close>

text \<open>\<open>RqRewardSweep\<close> stands for a whole run of the reward sweep (\<open>scheduler/reward_sweep.rs\<close>), which is
  not modelled: it works on its own stable state, and answers whether a payout keeps the lease pinned.\<close>

datatype relay_req =
    RqFee principal
  | RqBalance principal account
  | RqTransfer principal transfer_arg
  | RqNotifyTopUp principal principal u64
  | RqConversionRate principal
  | RqListNeurons principal u64
  | RqRefreshNeuron principal u64
  | RqProbe probe_req
  | RqRewardSweep

datatype relay_resp =
    RsNat "string + nat"
  | RsTransfer "string + (transfer_error + nat)"
  | RsNotify "string + (notify_error + nat)"
  | RsRate "client_error + u64 \<times> u64"
  | RsNeurons "string + (u64 option \<times> bytes) list"
  | RsUnit "client_error + unit"
  | RsProbe probe_resp
  | RsRewardPinned bool

type_synonym ('p, 'a) relay_proc = "('p relay_world, relay_req, relay_resp, 'a) proc"

text \<open>How the ledger client reads a response.\<close>

definition y_client_u64 :: "relay_resp \<Rightarrow> client_error + u64" where
  "y_client_u64 r = (case r of RsNat (Inl e) \<Rightarrow> Inl (CallError e) | RsNat (Inr n) \<Rightarrow> nat_to_u64 n
     | _ \<Rightarrow> Inl (CallError ''decode failed''))"

definition y_client_transfer :: "relay_resp \<Rightarrow> client_error + (transfer_error + nat)" where
  "y_client_transfer r = (case r of RsTransfer (Inl e) \<Rightarrow> Inl (CallError e)
     | RsTransfer (Inr res) \<Rightarrow> Inr res | _ \<Rightarrow> Inl (CallError ''decode icrc1_transfer failed''))"

definition icp_ledger_fee_bootstrap_fallback_e8s :: u64 where
  "icp_ledger_fee_bootstrap_fallback_e8s = 10000"

definition resolve_icp_ledger_fee_e8s :: "relay_resp \<Rightarrow> 'p relay_world \<Rightarrow> u64 \<times> 'p relay_world" where
  "resolve_icp_ledger_fee_e8s r w = (case y_client_u64 r of
       Inr fee_e8s \<Rightarrow>
         (fee_e8s, y_with_state_mut (\<lambda>st. st\<lparr>rs_last_known_ledger_fee_e8s := Some fee_e8s\<rparr>) w)
     | Inl _ \<Rightarrow> ((case rs_last_known_ledger_fee_e8s (yw_st w) of Some fee_e8s \<Rightarrow> fee_e8s
         | None \<Rightarrow> icp_ledger_fee_bootstrap_fallback_e8s), w))"

definition record_bad_fee :: "nat \<Rightarrow> 'p relay_world \<Rightarrow> 'p relay_world" where
  "record_bad_fee expected_fee w =
     (if expected_fee < 2 ^ 64
      then y_with_state_mut (\<lambda>st. st\<lparr>rs_last_known_ledger_fee_e8s := Some (word_of_nat expected_fee)\<rparr>) w
      else w)"

end
