(* ===== verification/RelaySplitter.thy ===== *)
theory RelaySplitter
  imports RelayWorld
begin

text \<open>
  The splitter driver of the Relay (\<open>src/canisters/relay/src/scheduler/splitter.rs\<close>): the two
  transfers of a splitter job, its retries and replacements, the retry timer and the splitter stage
  of the main tick.
\<close>

datatype drive_result = DriveCompleted | ClearedPreSpend | Unresolved | DriveQuarantined | Stale
datatype main_stage_result = StageReady | StageGuardBusy | StageUnresolved | StageQuarantined

datatype splitter_transfer_outcome =
    SpAccepted nat
  | SpBadFee nat
  | SpInsufficientFunds nat
  | SpDefinitiveRejection transfer_error
  | SpTransportUncertain client_error

definition transfer_once_outcome :: "relay_resp \<Rightarrow> splitter_transfer_outcome" where
  "transfer_once_outcome r = (case y_client_transfer r of
       Inr (Inr block_index) \<Rightarrow> SpAccepted block_index
     | Inr (Inl (Duplicate duplicate_of)) \<Rightarrow> SpAccepted duplicate_of
     | Inr (Inl (BadFee expected_fee)) \<Rightarrow> SpBadFee expected_fee
     | Inr (Inl (InsufficientFunds balance)) \<Rightarrow> SpInsufficientFunds balance
     | Inr (Inl error) \<Rightarrow> SpDefinitiveRejection error
     | Inl error \<Rightarrow> SpTransportUncertain error)"

section \<open>Legs\<close>

definition leg_plan :: "splitter_job \<Rightarrow> splitter_leg \<Rightarrow> splitter_leg_plan" where
  "leg_plan job leg = (case leg of DefaultLeg \<Rightarrow> sl_default_leg (sj_plan job)
     | SubaccountOneLeg \<Rightarrow> sl_subaccount_one_leg (sj_plan job))"

definition map_leg_plan :: "splitter_leg \<Rightarrow> (splitter_leg_plan \<Rightarrow> splitter_leg_plan)
    \<Rightarrow> splitter_job \<Rightarrow> splitter_job" where
  "map_leg_plan leg f job = (case leg of
       DefaultLeg \<Rightarrow> job\<lparr>sj_plan := (sj_plan job)\<lparr>sl_default_leg := f (sl_default_leg (sj_plan job))\<rparr>\<rparr>
     | SubaccountOneLeg \<Rightarrow> job\<lparr>sj_plan := (sj_plan job)\<lparr>sl_subaccount_one_leg :=
         f (sl_subaccount_one_leg (sj_plan job))\<rparr>\<rparr>)"

definition leg_progress :: "splitter_job \<Rightarrow> splitter_leg \<Rightarrow> splitter_leg_progress" where
  "leg_progress job leg = (case leg of DefaultLeg \<Rightarrow> sj_default_leg job
     | SubaccountOneLeg \<Rightarrow> sj_subaccount_one_leg job)"

fun leg_accepted :: "splitter_leg_status \<Rightarrow> bool" where
  "leg_accepted (LegAccepted _) = True"
| "leg_accepted _ = False"

definition current_leg :: "splitter_job \<Rightarrow> splitter_leg option" where
  "current_leg job =
     (if \<not> leg_accepted (gp_status (sj_default_leg job)) then Some DefaultLeg
      else if \<not> leg_accepted (gp_status (sj_subaccount_one_leg job)) then Some SubaccountOneLeg
      else None)"

definition splitter_transfer_arg :: "principal \<Rightarrow> splitter_job \<Rightarrow> splitter_leg \<Rightarrow> transfer_arg" where
  "splitter_transfer_arg relay_id job leg = (let plan = leg_plan job leg in
     \<lparr>ta_from_subaccount = Some (sl_source_subaccount (sj_plan job)),
      ta_to = splitter_destination_account relay_id (lp_destination plan),
      ta_fee = Some (unat (lp_fee_e8s plan)),
      ta_created_at_time = Some (lp_created_at_time_nanos plan),
      ta_memo = None, ta_amount = unat (lp_amount_e8s plan)\<rparr>)"

definition active_plan_is_valid :: "splitter_job \<Rightarrow> bool" where
  "active_plan_is_valid job = (case splitter_percentage (sl_splitter_number (sj_plan job)) of
       None \<Rightarrow> False
     | Some percentage \<Rightarrow>
         let default_leg = sl_default_leg (sj_plan job);
             subaccount_one = sl_subaccount_one_leg (sj_plan job);
             expected_default_gross =
               as_u128 (sl_balance_start_e8s (sj_plan job)) * ucast percentage div 100
         in percentage = sl_percentage_to_default (sj_plan job)
          \<and> sl_source_subaccount (sj_plan job) = relay_numbered_subaccount (sl_splitter_number (sj_plan job))
          \<and> lp_destination default_leg = ToDefaultAccount
          \<and> lp_destination subaccount_one = ToSubaccountOne
          \<and> as_u128 (lp_gross_share_e8s default_leg) = expected_default_gross
          \<and> checked_add (lp_gross_share_e8s default_leg) (lp_gross_share_e8s subaccount_one)
              = Some (sl_balance_start_e8s (sj_plan job))
          \<and> checked_add (lp_amount_e8s default_leg) (lp_fee_e8s default_leg)
              = Some (lp_gross_share_e8s default_leg)
          \<and> checked_add (lp_amount_e8s subaccount_one) (lp_fee_e8s subaccount_one)
              = Some (lp_gross_share_e8s subaccount_one)
          \<and> lp_gross_share_e8s default_leg > lp_fee_e8s default_leg
          \<and> lp_gross_share_e8s subaccount_one > lp_fee_e8s subaccount_one
          \<and> lp_created_at_time_nanos default_leg \<noteq> lp_created_at_time_nanos subaccount_one)"

definition fresh_created_at :: "u64 \<Rightarrow> u64 \<Rightarrow> u64 option" where
  "fresh_created_at previous now_nanos = map_option (\<lambda>minimum. max now_nanos minimum) (checked_add previous 1)"

definition repin_leg :: "splitter_leg \<Rightarrow> u64 \<Rightarrow> u64 \<Rightarrow> splitter_job \<Rightarrow> splitter_job option" where
  "repin_leg leg fee_e8s now_nanos job =
     (case fresh_created_at (lp_created_at_time_nanos (leg_plan job leg)) now_nanos of
        None \<Rightarrow> None
      | Some created_at_time_nanos \<Rightarrow> Some (map_leg leg (\<lambda>_. leg_progress_default)
          (map_leg_plan leg (\<lambda>plan. plan\<lparr>lp_fee_e8s := fee_e8s,
             lp_amount_e8s := lp_gross_share_e8s plan - fee_e8s,
             lp_created_at_time_nanos := created_at_time_nanos\<rparr>) job)))"

text \<open>\<open>created_at_time_is_valid\<close> of \<open>scheduler/transfer.rs\<close>.\<close>

definition ledger_created_at_valid_window_nanos :: u64 where
  "ledger_created_at_valid_window_nanos = 24 * 60 * 60 * 1000000000"

definition created_at_time_is_valid :: "u64 \<Rightarrow> u64 \<Rightarrow> bool" where
  "created_at_time_is_valid created_at_time_nanos now_nanos \<longleftrightarrow>
     sat_sub now_nanos created_at_time_nanos \<le> ledger_created_at_valid_window_nanos"

definition timestamp_overflow :: string where
  "timestamp_overflow = ''replacement transfer timestamp overflow''"

text \<open>The ghost field of transfers that may have been accepted: a transfer is noted when it is sent, and
  taken back when the ledger's rejection of it is processed.\<close>

definition note_sent :: "splitter_leg \<Rightarrow> transfer_arg \<Rightarrow> 'p relay_world \<Rightarrow> 'p relay_world" where
  "note_sent leg arg w = w\<lparr>yw_possible := (leg, arg) # yw_possible w\<rparr>"

definition note_rejected :: "splitter_leg \<Rightarrow> transfer_arg \<Rightarrow> 'p relay_world \<Rightarrow> 'p relay_world" where
  "note_rejected leg arg w = w\<lparr>yw_possible := remove1 (leg, arg) (yw_possible w)\<rparr>"

section \<open>After a response\<close>

text \<open>Store a replaced leg, or quarantine the job when no later creation time is left.\<close>

definition store_repinned :: "splitter_leg \<Rightarrow> u64 \<Rightarrow> splitter_job option \<Rightarrow> ('p relay_world \<Rightarrow> 'a)
    \<Rightarrow> ('p relay_world \<Rightarrow> drive_result \<Rightarrow> 'a) \<Rightarrow> 'p relay_world \<Rightarrow> 'a" where
  "store_repinned leg now_nanos repinned stored quarantined w = (case repinned of
       None \<Rightarrow> quarantined (quarantine_active_job leg now_nanos timestamp_overflow w) DriveQuarantined
     | Some job \<Rightarrow> stored (sp_set_active_job job w))"

definition keep_uncertain :: "splitter_leg \<Rightarrow> splitter_job \<Rightarrow> 'p relay_world \<Rightarrow> 'p relay_world" where
  "keep_uncertain leg job w =
     sp_set_active_job (map_leg leg (\<lambda>p. p\<lparr>gp_uncertain_attempt_seen := True\<rparr>) job) w"

text \<open>A rejection: with an earlier attempt that may have been accepted the leg stays as it is; a job that
  has spent nothing is given up; otherwise the second leg is replaced.\<close>

definition after_rejection :: "bool \<Rightarrow> splitter_leg \<Rightarrow> splitter_job
    \<Rightarrow> ('p relay_world \<Rightarrow> 'p relay_world \<times> drive_result) \<Rightarrow> 'p relay_world \<Rightarrow> 'p relay_world \<times> drive_result" where
  "after_rejection had_prior_uncertain_attempt leg job replace w =
     (if had_prior_uncertain_attempt then (keep_uncertain leg job w, Unresolved)
      else if leg = DefaultLeg then (clear_active_job ClosedBeforeSpend w, ClearedPreSpend)
      else replace w)"

definition replace_bad_fee :: "splitter_leg \<Rightarrow> splitter_job \<Rightarrow> nat \<Rightarrow> u64 \<Rightarrow> 'p relay_world
    \<Rightarrow> 'p relay_world \<times> drive_result" where
  "replace_bad_fee leg job expected_fee now_nanos w =
     (if expected_fee < 2 ^ 64 \<and> lp_gross_share_e8s (leg_plan job leg) > word_of_nat expected_fee
      then store_repinned leg now_nanos (repin_leg leg (word_of_nat expected_fee) now_nanos job)
        (\<lambda>w. (w, Unresolved)) Pair w
      else (sp_set_active_job (map_leg leg (\<lambda>p. p\<lparr>gp_attempt_started := False,
          gp_uncertain_attempt_seen := False, gp_status := WaitingForFeasibleFee expected_fee\<rparr>) job) w,
        Unresolved))"

definition replace_insufficient_funds :: "splitter_leg \<Rightarrow> splitter_job \<Rightarrow> nat \<Rightarrow> 'p relay_world
    \<Rightarrow> 'p relay_world \<times> drive_result" where
  "replace_insufficient_funds leg job balance w =
     (sp_set_active_job (map_leg leg (\<lambda>_. \<lparr>gp_status = WaitingForFunds
          (if balance < 2 ^ 64 then word_of_nat balance else u_max),
        gp_attempt_started = False, gp_uncertain_attempt_seen = False\<rparr>) job) w, Unresolved)"

definition replace_rejected :: "splitter_leg \<Rightarrow> splitter_job \<Rightarrow> u64 \<Rightarrow> 'p relay_world
    \<Rightarrow> 'p relay_world \<times> drive_result" where
  "replace_rejected leg job now_nanos w =
     store_repinned leg now_nanos (repin_leg leg (lp_fee_e8s (leg_plan job leg)) now_nanos job)
       (\<lambda>w. (w, Unresolved)) Pair w"

text \<open>An outcome of the transfer: \<open>None\<close> for the result goes on with the loop.\<close>

definition apply_outcome :: "bool \<Rightarrow> splitter_leg \<Rightarrow> splitter_job \<Rightarrow> transfer_arg \<Rightarrow> u64
    \<Rightarrow> splitter_transfer_outcome \<Rightarrow> 'p relay_world \<Rightarrow> 'p relay_world \<times> drive_result option" where
  "apply_outcome had_prior_uncertain_attempt leg job arg now_nanos out w = (case out of
       SpAccepted block_index \<Rightarrow>
         (sp_set_active_job (map_leg leg (\<lambda>p. p\<lparr>gp_status := LegAccepted block_index\<rparr>) job) w, None)
     | SpTransportUncertain error \<Rightarrow> (keep_uncertain leg job w, Some Unresolved)
     | SpBadFee expected_fee \<Rightarrow> map_prod id Some
         (after_rejection had_prior_uncertain_attempt leg job (replace_bad_fee leg job expected_fee now_nanos)
           (note_rejected leg arg (record_bad_fee expected_fee w)))
     | SpInsufficientFunds balance \<Rightarrow> map_prod id Some
         (after_rejection had_prior_uncertain_attempt leg job (replace_insufficient_funds leg job balance)
           (note_rejected leg arg w))
     | SpDefinitiveRejection error \<Rightarrow> map_prod id Some
         (after_rejection had_prior_uncertain_attempt leg job (replace_rejected leg job now_nanos)
           (note_rejected leg arg w)))"

section \<open>The driver\<close>

text \<open>
  \<open>again\<close> is the next turn of the driver's loop; a result \<open>None\<close> marks a loop cut off by the
  fuel of \<open>drive_active_job\<close>.  The guard is always present in production code.
\<close>

type_synonym 'p drive_proc = "('p, drive_result option) relay_proc"

definition drive_after_transfer :: "('p relay_world \<Rightarrow> 'p drive_proc) \<Rightarrow> bool \<Rightarrow> splitter_leg
    \<Rightarrow> splitter_job \<Rightarrow> transfer_arg \<Rightarrow> u64 \<Rightarrow> timer_lease_guard \<Rightarrow> relay_resp \<Rightarrow> 'p relay_world
    \<Rightarrow> 'p drive_proc" where
  "drive_after_transfer again had_prior_uncertain_attempt leg claimed arg now_nanos guard r w =
     (if \<not> splitter_guard_is_current guard w then Done w (Some Stale)
      else case active_job_if_claim_matches claimed w of
        None \<Rightarrow> Done w (Some Stale)
      | Some job \<Rightarrow> (case apply_outcome had_prior_uncertain_attempt leg job arg now_nanos
            (transfer_once_outcome r) w of
          (w1, None) \<Rightarrow> again w1
        | (w1, Some result) \<Rightarrow> Done w1 (Some result)))"

definition drive_transfer :: "('p relay_world \<Rightarrow> 'p drive_proc) \<Rightarrow> bool \<Rightarrow> splitter_leg \<Rightarrow> splitter_job
    \<Rightarrow> principal \<Rightarrow> principal \<Rightarrow> u64 \<Rightarrow> timer_lease_guard \<Rightarrow> 'p relay_world \<Rightarrow> 'p drive_proc" where
  "drive_transfer again had_prior_uncertain_attempt leg job relay_id ledger now_nanos guard w =
     (case claim_active_job job (Some leg) w of
        None \<Rightarrow> Trap
      | Some (None, w1) \<Rightarrow> Done w1 (Some Stale)
      | Some (Some claimed, w1) \<Rightarrow>
          let arg = splitter_transfer_arg relay_id claimed leg in
          Await (note_sent leg arg w1) (RqTransfer ledger arg)
            (drive_after_transfer again had_prior_uncertain_attempt leg claimed arg now_nanos guard))"

definition drive_ready :: "('p relay_world \<Rightarrow> 'p drive_proc) \<Rightarrow> splitter_leg \<Rightarrow> splitter_job
    \<Rightarrow> principal \<Rightarrow> principal \<Rightarrow> u64 \<Rightarrow> timer_lease_guard \<Rightarrow> 'p relay_world \<Rightarrow> 'p drive_proc" where
  "drive_ready again leg job relay_id ledger now_nanos guard w =
     (let had_prior_uncertain_attempt = gp_attempt_started (leg_progress job leg)
          \<or> gp_uncertain_attempt_seen (leg_progress job leg) in
      if \<not> created_at_time_is_valid (lp_created_at_time_nanos (leg_plan job leg)) now_nanos then
        (if had_prior_uncertain_attempt
         then Done (quarantine_active_job leg now_nanos
           ''expired transfer identity after a potentially accepted attempt'' w) (Some DriveQuarantined)
         else if leg = DefaultLeg
         then Done (clear_active_job ClosedBeforeSpend w) (Some ClearedPreSpend)
         else store_repinned leg now_nanos
           (repin_leg leg (lp_fee_e8s (leg_plan job leg)) now_nanos job) again
           (\<lambda>w res. Done w (Some res)) w)
      else drive_transfer again had_prior_uncertain_attempt leg job relay_id ledger now_nanos guard w)"

definition drive_with_balance :: "('p relay_world \<Rightarrow> 'p drive_proc) \<Rightarrow> splitter_leg \<Rightarrow> splitter_job
    \<Rightarrow> u64 \<Rightarrow> timer_lease_guard \<Rightarrow> relay_resp \<Rightarrow> 'p relay_world \<Rightarrow> 'p drive_proc" where
  "drive_with_balance again leg claimed now_nanos guard r w =
     (if \<not> splitter_guard_is_current guard w then Done w (Some Stale)
      else case active_job_if_claim_matches claimed w of
        None \<Rightarrow> Done w (Some Stale)
      | Some job \<Rightarrow> (case y_client_u64 r of
          Inl error \<Rightarrow> Done w (Some Unresolved)
        | Inr balance \<Rightarrow>
            if balance < lp_gross_share_e8s (leg_plan job leg)
            then Done (sp_set_active_job (map_leg leg (\<lambda>p. p\<lparr>gp_status := WaitingForFunds balance\<rparr>) job) w)
              (Some Unresolved)
            else store_repinned leg now_nanos
              (repin_leg leg (lp_fee_e8s (leg_plan job leg)) now_nanos job) again
              (\<lambda>w res. Done w (Some res)) w))"

definition drive_with_fee :: "('p relay_world \<Rightarrow> 'p drive_proc) \<Rightarrow> splitter_leg \<Rightarrow> splitter_job
    \<Rightarrow> u64 \<Rightarrow> timer_lease_guard \<Rightarrow> relay_resp \<Rightarrow> 'p relay_world \<Rightarrow> 'p drive_proc" where
  "drive_with_fee again leg claimed now_nanos guard r w0 =
     (case resolve_icp_ledger_fee_e8s r w0 of (fee, w) \<Rightarrow>
      if \<not> splitter_guard_is_current guard w then Done w (Some Stale)
      else case active_job_if_claim_matches claimed w of
        None \<Rightarrow> Done w (Some Stale)
      | Some job \<Rightarrow>
          if lp_gross_share_e8s (leg_plan job leg) \<le> fee
          then Done (sp_set_active_job (map_leg leg
              (\<lambda>p. p\<lparr>gp_status := WaitingForFeasibleFee (unat fee)\<rparr>) job) w) (Some Unresolved)
          else store_repinned leg now_nanos (repin_leg leg fee now_nanos job) again
            (\<lambda>w res. Done w (Some res)) w)"

definition drive_waiting :: "splitter_job \<Rightarrow> (splitter_job \<Rightarrow> relay_req)
    \<Rightarrow> (splitter_job \<Rightarrow> relay_resp \<Rightarrow> 'p relay_world \<Rightarrow> 'p drive_proc) \<Rightarrow> 'p relay_world \<Rightarrow> 'p drive_proc" where
  "drive_waiting job req resumed w = (case claim_active_job job None w of
       None \<Rightarrow> Trap
     | Some (None, w1) \<Rightarrow> Done w1 (Some Stale)
     | Some (Some claimed, w1) \<Rightarrow> Await w1 (req claimed) (resumed claimed))"

definition drive_iteration :: "('p relay_world \<Rightarrow> 'p drive_proc) \<Rightarrow> principal \<Rightarrow> principal \<Rightarrow> u64
    \<Rightarrow> timer_lease_guard \<Rightarrow> 'p relay_world \<Rightarrow> 'p drive_proc" where
  "drive_iteration again relay_id ledger now_nanos guard w = (case sp_active_job w of
       None \<Rightarrow> Done w (Some DriveCompleted)
     | Some job \<Rightarrow>
       if sj_pinned_ledger_canister_id job \<noteq> rcf_ledger_canister_id (rs_config (yw_st w))
       then Done (quarantine_active_job (case current_leg job of None \<Rightarrow> DefaultLeg | Some leg \<Rightarrow> leg)
           now_nanos ''pinned ledger differs from runtime config'' w) (Some DriveQuarantined)
       else if \<not> active_plan_is_valid job
       then Done (quarantine_active_job (case current_leg job of None \<Rightarrow> DefaultLeg | Some leg \<Rightarrow> leg)
           now_nanos ''stable splitter plan invariant failed'' w) (Some DriveQuarantined)
       else case current_leg job of
         None \<Rightarrow> Done (clear_active_job ClosedCompleted w) (Some DriveCompleted)
       | Some leg \<Rightarrow> (case gp_status (leg_progress job leg) of
           LegAccepted _ \<Rightarrow> Trap
         | WaitingForFunds _ \<Rightarrow> drive_waiting job
             (\<lambda>claimed. RqBalance ledger \<lparr>acc_owner = relay_id,
                acc_subaccount = Some (sl_source_subaccount (sj_plan claimed))\<rparr>)
             (\<lambda>claimed. drive_with_balance again leg claimed now_nanos guard) w
         | WaitingForFeasibleFee _ \<Rightarrow> drive_waiting job (\<lambda>_. RqFee ledger)
             (\<lambda>claimed. drive_with_fee again leg claimed now_nanos guard) w
         | LegReady \<Rightarrow> drive_ready again leg job relay_id ledger now_nanos guard w))"

fun drive_active_job :: "nat \<Rightarrow> principal \<Rightarrow> principal \<Rightarrow> u64 \<Rightarrow> timer_lease_guard \<Rightarrow> 'p relay_world
    \<Rightarrow> 'p drive_proc" where
  "drive_active_job 0 relay_id ledger now_nanos guard w = Done w None"
| "drive_active_job (Suc fuel) relay_id ledger now_nanos guard w =
     drive_iteration (drive_active_job fuel relay_id ledger now_nanos guard) relay_id ledger now_nanos guard w"

text \<open>A job needs at most five turns: two per leg and one to end.\<close>

definition drive_fuel :: nat where "drive_fuel = 5"

section \<open>The retry timer and the stage of the main tick\<close>

definition schedule_splitter_main_continuation_after :: "'p relay_world \<Rightarrow> 'p relay_world" where
  "schedule_splitter_main_continuation_after w =
     (if \<not> rs_splitter_main_continuation_requested (yw_st w)
        \<or> rs_splitter_main_continuation_timer_pending (yw_st w) then w
      else y_with_state_mut (\<lambda>st. st\<lparr>rs_splitter_main_continuation_timer_pending := True\<rparr>) w)"

definition retry_after_drive :: "timer_lease_guard \<Rightarrow> 'p relay_world \<Rightarrow> drive_result option
    \<Rightarrow> ('p, unit) relay_proc" where
  "retry_after_drive guard w result =
     (let w1 = splitter_guard_drop guard w in
      Done (if result = Some DriveCompleted \<or> result = Some DriveQuarantined
        then schedule_splitter_main_continuation_after w1 else w1) ())"

definition retry_active_splitter :: "principal \<Rightarrow> 'p relay_world \<Rightarrow> ('p, unit) relay_proc" where
  "retry_active_splitter relay_id w0 =
     (let handler = yw_ticket w0; w = w0\<lparr>yw_ticket := handler + 1\<rparr> in
      if sp_active_job w = None then Done w ()
      else case splitter_guard_acquire handler (y_now_secs w) w of
        None \<Rightarrow> Done w ()
      | Some (guard, w1) \<Rightarrow> pbind
          (drive_active_job drive_fuel relay_id (rcf_ledger_canister_id (rs_config (yw_st w)))
            (yw_now w) guard w1) (retry_after_drive guard))"

text \<open>Returning from the stage drops its guard.\<close>

definition stage_return :: "timer_lease_guard \<Rightarrow> main_stage_result \<Rightarrow> 'p relay_world
    \<Rightarrow> ('p, main_stage_result) relay_proc" where
  "stage_return guard result w = Done (splitter_guard_drop guard w) result"

definition stage_after_drive :: "('p relay_world \<Rightarrow> ('p, main_stage_result) relay_proc)
    \<Rightarrow> timer_lease_guard \<Rightarrow> 'p relay_world \<Rightarrow> drive_result option \<Rightarrow> ('p, main_stage_result) relay_proc" where
  "stage_after_drive next guard w result = (case result of
       Some DriveCompleted \<Rightarrow> next w
     | Some ClearedPreSpend \<Rightarrow> stage_return guard StageReady w
     | Some Stale \<Rightarrow> stage_return guard StageGuardBusy w
     | Some DriveQuarantined \<Rightarrow> stage_return guard StageQuarantined w
     | _ \<Rightarrow> stage_return guard StageUnresolved w)"

fun stage_splitters :: "principal \<Rightarrow> principal \<Rightarrow> principal \<Rightarrow> u64 \<Rightarrow> u64 \<Rightarrow> timer_lease_guard
    \<Rightarrow> u8 option \<Rightarrow> u8 list \<Rightarrow> 'p relay_world \<Rightarrow> ('p, main_stage_result) relay_proc" where
  "stage_splitters relay_id ledger pinned fee_e8s now_nanos guard resumed [] w =
     stage_return guard StageReady w"
| "stage_splitters relay_id ledger pinned fee_e8s now_nanos guard resumed (number # numbers) w =
     (if resumed = Some number \<or> is_quarantined number w
      then stage_splitters relay_id ledger pinned fee_e8s now_nanos guard resumed numbers w
      else case splitter_source_account relay_id number of
        None \<Rightarrow> Trap
      | Some source \<Rightarrow> Await w (RqBalance ledger source) (\<lambda>r w. case y_client_u64 r of
          Inl error \<Rightarrow> stage_splitters relay_id ledger pinned fee_e8s now_nanos guard resumed numbers w
        | Inr balance_e8s \<Rightarrow>
            if \<not> splitter_guard_is_current guard w then stage_return guard StageGuardBusy w
            else case build_splitter_plan number balance_e8s fee_e8s now_nanos of
              Inl reason \<Rightarrow> stage_splitters relay_id ledger pinned fee_e8s now_nanos guard resumed numbers w
            | Inr plan \<Rightarrow> pbind (drive_active_job drive_fuel relay_id ledger now_nanos guard
                  (sp_set_active_job (splitter_job_new pinned plan) w))
                (stage_after_drive
                  (stage_splitters relay_id ledger pinned fee_e8s now_nanos guard resumed numbers) guard)))"

definition stage_with_fee :: "principal \<Rightarrow> principal \<Rightarrow> u64 \<Rightarrow> timer_lease_guard \<Rightarrow> u8 option
    \<Rightarrow> relay_resp \<Rightarrow> 'p relay_world \<Rightarrow> ('p, main_stage_result) relay_proc" where
  "stage_with_fee relay_id ledger now_nanos guard resumed r w0 =
     (case resolve_icp_ledger_fee_e8s r w0 of (fee_e8s, w) \<Rightarrow>
      if \<not> splitter_guard_is_current guard w then stage_return guard StageGuardBusy w
      else stage_splitters relay_id ledger (rcf_ledger_canister_id (rs_config (yw_st w))) fee_e8s
        now_nanos guard resumed splitter_percentages w)"

definition stage_fee :: "principal \<Rightarrow> principal \<Rightarrow> u64 \<Rightarrow> timer_lease_guard \<Rightarrow> u8 option
    \<Rightarrow> 'p relay_world \<Rightarrow> ('p, main_stage_result) relay_proc" where
  "stage_fee relay_id ledger now_nanos guard resumed w =
     Await w (RqFee ledger) (stage_with_fee relay_id ledger now_nanos guard resumed)"

definition process_main_stage :: "nat \<Rightarrow> u64 \<Rightarrow> principal \<Rightarrow> principal \<Rightarrow> 'p relay_world
    \<Rightarrow> ('p, main_stage_result) relay_proc" where
  "process_main_stage handler now_nanos relay_id ledger w =
     (case splitter_guard_acquire handler (now_nanos div 1000000000) w of
        None \<Rightarrow> Done w StageGuardBusy
      | Some (guard, w1) \<Rightarrow> (case sp_active_job w1 of
          None \<Rightarrow> stage_fee relay_id ledger now_nanos guard None w1
        | Some active \<Rightarrow> pbind (drive_active_job drive_fuel relay_id ledger now_nanos guard w1)
            (stage_after_drive (stage_fee relay_id ledger now_nanos guard
              (Some (sl_splitter_number (sj_plan active)))) guard)))"

end
