(* ===== verification/RelaySplitterSafety.thy ===== *)
theory RelaySplitterSafety
  imports RelaySplitter
begin

text \<open>
  The invariant of the splitter journal and the judgements of its driver: a job is only ever changed
  by the handler that holds the splitter lease.
\<close>

section \<open>The invariant\<close>

abbreviation leg_open :: "splitter_leg_progress \<Rightarrow> bool" where
  "leg_open p \<equiv> \<not> gp_attempt_started p \<and> \<not> gp_uncertain_attempt_seen p"

fun leg_waiting :: "splitter_leg_status \<Rightarrow> bool" where
  "leg_waiting (WaitingForFunds _) = True"
| "leg_waiting (WaitingForFeasibleFee _) = True"
| "leg_waiting _ = False"

abbreviation sent_legs :: "possible_transfers \<Rightarrow> splitter_leg set" where
  "sent_legs ps \<equiv> fst ` set ps"

text \<open>Whatever may have been accepted for a leg is the transfer its plan describes now, and a leg without
  a recorded attempt has sent nothing.\<close>

definition leg_ok :: "principal \<Rightarrow> possible_transfers \<Rightarrow> splitter_job \<Rightarrow> splitter_leg \<Rightarrow> bool" where
  "leg_ok relay ps job leg \<longleftrightarrow>
     (\<forall>a. (leg, a) \<in> set ps \<longrightarrow> a = splitter_transfer_arg relay job leg) \<and>
     (leg_open (leg_progress job leg) \<longrightarrow> leg \<notin> sent_legs ps) \<and>
     (leg_waiting (gp_status (leg_progress job leg)) \<longrightarrow> leg_open (leg_progress job leg)) \<and>
     (leg_accepted (gp_status (leg_progress job leg)) \<longrightarrow>
        (leg, splitter_transfer_arg relay job leg) \<in> set ps)"

definition job_ok :: "principal \<Rightarrow> possible_transfers \<Rightarrow> splitter_job \<Rightarrow> bool" where
  "job_ok relay ps job \<longleftrightarrow> active_plan_is_valid job \<and>
     lp_created_at_time_nanos (leg_plan job DefaultLeg) < lp_created_at_time_nanos (leg_plan job SubaccountOneLeg) \<and>
     leg_ok relay ps job DefaultLeg \<and> leg_ok relay ps job SubaccountOneLeg \<and>
     \<not> leg_waiting (gp_status (sj_default_leg job)) \<and>
     (leg_accepted (gp_status (sj_default_leg job)) \<or> sj_subaccount_one_leg job = leg_progress_default)"

text \<open>What is known of a job that ended.\<close>

definition closed_ok :: "principal \<Rightarrow> splitter_closing \<Rightarrow> splitter_job \<Rightarrow> possible_transfers \<Rightarrow> bool" where
  "closed_ok relay how job ps \<longleftrightarrow> active_plan_is_valid job \<and>
     (\<forall>(leg, a) \<in> set ps. a = splitter_transfer_arg relay job leg) \<and>
     (how = ClosedBeforeSpend \<longrightarrow> ps = []) \<and>
     (how = ClosedCompleted \<longrightarrow> current_leg job = None \<and>
        (\<forall>leg. (leg, splitter_transfer_arg relay job leg) \<in> set ps))"

definition splitter_inv :: "principal \<Rightarrow> 'p relay_world \<Rightarrow> bool" where
  "splitter_inv relay w \<longleftrightarrow>
     (\<forall>job. sp_active_job w = Some job \<longrightarrow> job_ok relay (yw_possible w) job \<and>
        sj_pinned_ledger_canister_id job = rcf_ledger_canister_id (rs_config (yw_st w)) \<and>
        \<not> is_quarantined (sl_splitter_number (sj_plan job)) w) \<and>
     (sp_active_job w = None \<longrightarrow> yw_possible w = []) \<and>
     (\<forall>(how, job, ps) \<in> set (yw_closed w). closed_ok relay how job ps) \<and>
     (\<forall>n q. ps_quarantined_jobs (sp_get w) n = Some q \<longrightarrow> sl_splitter_number (sj_plan (qj_job q)) = n \<and>
        (ClosedQuarantined, qj_job q) \<in> set (map (\<lambda>(how, job, _). (how, job)) (yw_closed w))) \<and>
     (yw_splitter_owner w \<noteq> None \<longrightarrow> rs_splitter_lock_state_ts (yw_st w) \<noteq> Some 0)"

section \<open>Relies and guarantees\<close>

text \<open>What every later world keeps: quarantined jobs and the record of ended jobs.\<close>

definition splitter_later :: "'p relay_world \<Rightarrow> 'p relay_world \<Rightarrow> bool" where
  "splitter_later w w' \<longleftrightarrow> yw_now w \<le> yw_now w' \<and> yw_ticket w \<le> yw_ticket w' \<and>
     (\<forall>n q. ps_quarantined_jobs (sp_get w) n = Some q \<longrightarrow> ps_quarantined_jobs (sp_get w') n = Some q) \<and>
     (\<exists>new. yw_closed w' = new @ yw_closed w)"

lemma splitter_later_refl [simp]: "splitter_later w w"
  by (simp add: splitter_later_def)

lemma splitter_later_trans: "splitter_later a b \<Longrightarrow> splitter_later b c \<Longrightarrow> splitter_later a c"
  unfolding splitter_later_def by (metis append.assoc order_trans)

text \<open>The lease with expiry \<open>e\<close> belongs to handler \<open>t\<close>, or can never be held again.\<close>

definition mine :: "nat \<Rightarrow> u64 \<Rightarrow> 'p relay_world \<Rightarrow> bool" where
  "mine t e w \<longleftrightarrow> rs_splitter_lock_state_ts (yw_st w) = Some e \<and> yw_splitter_owner w = Some t"

definition dead :: "u64 \<Rightarrow> 'p relay_world \<Rightarrow> bool" where
  "dead e w \<longleftrightarrow> e \<noteq> 0 \<and> e \<le> y_now_secs w \<and> rs_splitter_lock_state_ts (yw_st w) \<noteq> Some e"

definition same_journal :: "'p relay_world \<Rightarrow> 'p relay_world \<Rightarrow> bool" where
  "same_journal w w' \<longleftrightarrow> sp_get w' = sp_get w \<and> yw_possible w' = yw_possible w"

text \<open>What the holder of a lease relies on: the journal is as it left it, or the lease is lost for good.\<close>

definition keeps :: "nat \<Rightarrow> 'p relay_world \<Rightarrow> 'p relay_world \<Rightarrow> bool" where
  "keeps t w w' \<longleftrightarrow>
     (\<forall>e. mine t e w \<longrightarrow> mine t e w' \<and> same_journal w w' \<or> dead e w') \<and> (\<forall>e. dead e w \<longrightarrow> dead e w')"

abbreviation same_config :: "'p relay_world \<Rightarrow> 'p relay_world \<Rightarrow> bool" where
  "same_config w w' \<equiv> rs_config (yw_st w') = rs_config (yw_st w)"

definition splitter_rely :: "nat \<Rightarrow> 'p relay_world \<Rightarrow> 'p relay_world \<Rightarrow> bool" where
  "splitter_rely t w w' \<longleftrightarrow> splitter_later w w' \<and> same_config w w' \<and> keeps t w w'"

definition splitter_guar :: "nat \<Rightarrow> 'p relay_world \<Rightarrow> 'p relay_world \<Rightarrow> bool" where
  "splitter_guar t w w' \<longleftrightarrow> splitter_later w w' \<and> same_config w w' \<and> t < yw_ticket w' \<and>
     (\<forall>u. u \<noteq> t \<longrightarrow> keeps u w w')"

lemma keeps_refl: "keeps t w w"
  by (simp add: keeps_def same_journal_def)

lemma keeps_trans: "keeps t a b \<Longrightarrow> keeps t b c \<Longrightarrow> keeps t a c"
  unfolding keeps_def same_journal_def by (metis (no_types))

lemma splitter_rely_refl: "splitter_rely t w w"
  by (simp add: splitter_rely_def keeps_refl)

lemma splitter_rely_trans: "splitter_rely t a b \<Longrightarrow> splitter_rely t b c \<Longrightarrow> splitter_rely t a c"
  unfolding splitter_rely_def by (metis keeps_trans splitter_later_trans)

lemma splitter_guar_trans: "splitter_guar t a b \<Longrightarrow> splitter_guar t b c \<Longrightarrow> splitter_guar t a c"
  unfolding splitter_guar_def by (metis keeps_trans splitter_later_trans)

text \<open>A transfer is sent only for the current leg of the active job, and recorded before.\<close>

fun splitter_req_ok :: "principal \<Rightarrow> 'p relay_world \<Rightarrow> relay_req \<Rightarrow> bool" where
  "splitter_req_ok relay w (RqTransfer ledger arg) \<longleftrightarrow> (\<exists>job leg. sp_active_job w = Some job \<and>
     current_leg job = Some leg \<and> ledger = sj_pinned_ledger_canister_id job \<and>
     arg = splitter_transfer_arg relay job leg \<and> (leg, arg) \<in> set (yw_possible w) \<and>
     gp_attempt_started (leg_progress job leg))"
| "splitter_req_ok relay w _ = True"

abbreviation splitter_rg :: "principal \<Rightarrow> nat \<Rightarrow> ('p relay_world \<Rightarrow> 'a \<Rightarrow> bool)
    \<Rightarrow> ('p, 'a) relay_proc \<Rightarrow> 'p relay_world \<Rightarrow> bool" where
  "splitter_rg relay t \<equiv> rgt True (splitter_inv relay) (splitter_rely t) (splitter_guar t) (splitter_req_ok relay)"

section \<open>Steps under the lease\<close>

text \<open>A step that leaves leases, time and configuration alone.\<close>

definition quiet :: "'p relay_world \<Rightarrow> 'p relay_world \<Rightarrow> bool" where
  "quiet w w' \<longleftrightarrow> splitter_later w w' \<and> same_config w w' \<and> yw_now w' = yw_now w \<and>
     yw_splitter_owner w' = yw_splitter_owner w \<and>
     rs_splitter_lock_state_ts (yw_st w') = rs_splitter_lock_state_ts (yw_st w)"

lemma quiet_refl [simp]: "quiet w w"
  by (simp add: quiet_def)

lemma quiet_trans [trans]: "quiet a b \<Longrightarrow> quiet b c \<Longrightarrow> quiet a c"
  by (auto simp: quiet_def intro: splitter_later_trans)

lemma quiet_lease:
  assumes "quiet w w'"
  shows "mine t e w' = mine t e w" "dead e w' = dead e w"
    "splitter_guard_is_current g w' = splitter_guard_is_current g w"
  using assms by (simp_all add: quiet_def mine_def dead_def y_now_secs_def splitter_guard_is_current_def)

lemma quiet_guar:
  assumes "quiet w w'" "t < yw_ticket w" "mine t e w \<or> same_journal w w'"
  shows "splitter_guar t w w'"
proof -
  have "keeps u w w'" if "u \<noteq> t" for u
    using assms(3) that quiet_lease [OF assms(1)] by (auto simp: keeps_def mine_def)
  moreover have "t < yw_ticket w'" using assms(1,2) by (simp add: quiet_def splitter_later_def)
  ultimately show ?thesis using assms(1) by (simp add: splitter_guar_def quiet_def)
qed

text \<open>A handler that holds the guard \<open>g\<close>, or has lost its lease.\<close>

definition holds :: "nat \<Rightarrow> timer_lease_guard \<Rightarrow> 'p relay_world \<Rightarrow> bool" where
  "holds t g w \<longleftrightarrow> tlg_active g \<and> t < yw_ticket w \<and> mine t (tlg_expires g) w"

definition held :: "nat \<Rightarrow> timer_lease_guard \<Rightarrow> 'p relay_world \<Rightarrow> bool" where
  "held t g w \<longleftrightarrow> tlg_active g \<and> t < yw_ticket w \<and> (mine t (tlg_expires g) w \<or> dead (tlg_expires g) w)"

lemma holds_held: "holds t g w \<Longrightarrow> held t g w"
  by (simp add: holds_def held_def)

lemma held_current: "held t g w \<Longrightarrow> splitter_guard_is_current g w \<longleftrightarrow> holds t g w"
  by (auto simp: holds_def held_def mine_def dead_def splitter_guard_is_current_def)

lemma holds_rely:
  assumes "holds t g w" "splitter_rely t w w'"
  shows "held t g w'" "holds t g w' \<Longrightarrow> same_journal w w'"
proof -
  have "mine t (tlg_expires g) w' \<and> same_journal w w' \<or> dead (tlg_expires g) w'"
    using assms by (simp add: holds_def splitter_rely_def keeps_def)
  moreover have "t < yw_ticket w'" using assms by (auto simp: holds_def splitter_rely_def splitter_later_def)
  ultimately show "held t g w'" "holds t g w' \<Longrightarrow> same_journal w w'"
    using assms(1) by (auto simp: holds_def held_def mine_def dead_def)
qed

lemma held_rely:
  assumes "held t g w" "splitter_rely t w w'"
  shows "held t g w'"
  using assms by (auto simp: held_def splitter_rely_def keeps_def splitter_later_def)

lemma quiet_holds:
  assumes "quiet w w'"
  shows "holds t g w \<Longrightarrow> holds t g w'" "held t g w \<Longrightarrow> held t g w'"
proof -
  have "yw_ticket w \<le> yw_ticket w'" using assms by (simp add: quiet_def splitter_later_def)
  then show "holds t g w \<Longrightarrow> holds t g w'" "held t g w \<Longrightarrow> held t g w'"
    using quiet_lease [OF assms] by (simp_all add: holds_def held_def)
qed

lemma holds_guar: "holds t g w \<Longrightarrow> quiet w w' \<Longrightarrow> splitter_guar t w w'"
  using quiet_guar by (auto simp: holds_def)

lemma held_guar: "held t g w \<Longrightarrow> quiet w w' \<Longrightarrow> same_journal w w' \<Longrightarrow> splitter_guar t w w'"
  using quiet_guar by (auto simp: held_def)

lemma same_journal_refl [simp]: "same_journal w w"
  by (simp add: same_journal_def)

section \<open>The journal\<close>

lemma sp_get_set [simp]: "sp_get (sp_set s w) = s"
  by (simp add: sp_get_def sp_set_def)

lemma sp_set_fields [simp]:
  "yw_now (sp_set s w) = yw_now w" "yw_st (sp_set s w) = yw_st w" "yw_ticket (sp_set s w) = yw_ticket w"
  "yw_main_owner (sp_set s w) = yw_main_owner w" "yw_splitter_owner (sp_set s w) = yw_splitter_owner w"
  "yw_possible (sp_set s w) = yw_possible w" "yw_closed (sp_set s w) = yw_closed w"
  by (simp_all add: sp_set_def)

lemma sp_get_updates [simp]:
  "sp_get (w\<lparr>yw_possible := ps\<rparr>) = sp_get w" "sp_get (w\<lparr>yw_closed := cs\<rparr>) = sp_get w"
  "sp_get (w\<lparr>yw_st := st\<rparr>) = sp_get w" "sp_get (w\<lparr>yw_ticket := n\<rparr>) = sp_get w"
  "sp_get (w\<lparr>yw_splitter_owner := t\<rparr>) = sp_get w" "sp_get (w\<lparr>yw_now := m\<rparr>) = sp_get w"
  by (simp_all add: sp_get_def)

lemma note_closed_fields [simp]:
  "sp_get (note_closed how w) = sp_get w" "yw_now (note_closed how w) = yw_now w"
  "yw_st (note_closed how w) = yw_st w" "yw_ticket (note_closed how w) = yw_ticket w"
  "yw_splitter_owner (note_closed how w) = yw_splitter_owner w"
  by (simp_all add: note_closed_def split: option.split)

lemma active_plan_cong: "sj_plan job = sj_plan job' \<Longrightarrow> active_plan_is_valid job = active_plan_is_valid job'"
  by (simp only: active_plan_is_valid_def)

lemma leg_map [simp]:
  "leg_progress (map_leg leg f job) leg = f (leg_progress job leg)"
  "sj_plan (map_leg leg f job) = sj_plan job" "leg_plan (map_leg leg f job) leg' = leg_plan job leg'"
  "sj_pinned_ledger_canister_id (map_leg leg f job) = sj_pinned_ledger_canister_id job"
  "splitter_transfer_arg relay (map_leg leg f job) leg' = splitter_transfer_arg relay job leg'"
  by (simp_all add: leg_progress_def leg_plan_def map_leg_def splitter_transfer_arg_def split: splitter_leg.split)

lemma leg_map_other [simp]: "leg' \<noteq> leg \<Longrightarrow> leg_progress (map_leg leg f job) leg' = leg_progress job leg'"
  by (cases leg; cases leg') (simp_all add: leg_progress_def map_leg_def)

lemma leg_map_valid [simp]: "active_plan_is_valid (map_leg leg f job) = active_plan_is_valid job"
  by (rule active_plan_cong) simp

lemma sj_legs: "sj_default_leg job = leg_progress job DefaultLeg"
  "sj_subaccount_one_leg job = leg_progress job SubaccountOneLeg"
  by (simp_all add: leg_progress_def)

lemma revision_leg [simp]:
  "leg_progress (job\<lparr>sj_driver_revision := r\<rparr>) leg = leg_progress job leg"
  "leg_plan (job\<lparr>sj_driver_revision := r\<rparr>) leg = leg_plan job leg"
  "splitter_transfer_arg relay (job\<lparr>sj_driver_revision := r\<rparr>) leg = splitter_transfer_arg relay job leg"
  by (simp_all add: leg_progress_def leg_plan_def splitter_transfer_arg_def split: splitter_leg.split)

lemma revision_valid [simp]:
  "active_plan_is_valid (job\<lparr>sj_driver_revision := r\<rparr>) = active_plan_is_valid job"
  by (rule active_plan_cong) simp

lemma other_leg: "leg \<noteq> DefaultLeg \<longleftrightarrow> leg = SubaccountOneLeg"
  by (cases leg) simp_all

lemma all_legs: "(\<forall>leg. P leg) \<longleftrightarrow> P DefaultLeg \<and> P SubaccountOneLeg"
  by (metis (full_types) splitter_leg.exhaust)

text \<open>A job is known by its plan and by the progress of its legs.\<close>

lemma job_ok_legs:
  "job_ok relay ps job \<longleftrightarrow> active_plan_is_valid job \<and>
     lp_created_at_time_nanos (leg_plan job DefaultLeg) < lp_created_at_time_nanos (leg_plan job SubaccountOneLeg) \<and>
     (\<forall>leg. leg_ok relay ps job leg) \<and> \<not> leg_waiting (gp_status (leg_progress job DefaultLeg)) \<and>
     (leg_accepted (gp_status (leg_progress job DefaultLeg)) \<or>
        leg_progress job SubaccountOneLeg = leg_progress_default)"
  by (simp add: job_ok_def sj_legs all_legs)

lemma current_leg_legs:
  "current_leg job = Some leg \<longleftrightarrow> \<not> leg_accepted (gp_status (leg_progress job leg)) \<and>
     (leg = SubaccountOneLeg \<longrightarrow> leg_accepted (gp_status (leg_progress job DefaultLeg)))"
  "current_leg job = None \<longleftrightarrow> (\<forall>leg. leg_accepted (gp_status (leg_progress job leg)))"
  by (cases leg; simp add: current_leg_def sj_legs) (simp add: current_leg_def sj_legs all_legs)

text \<open>A step that only writes the journal and the ghost record.\<close>

lemma quiet_journal:
  assumes "yw_now w' = yw_now w" "yw_ticket w' = yw_ticket w" "yw_st w' = yw_st w"
    "yw_splitter_owner w' = yw_splitter_owner w"
    "\<And>n q. ps_quarantined_jobs (sp_get w) n = Some q \<Longrightarrow> ps_quarantined_jobs (sp_get w') n = Some q"
    "yw_closed w' = new @ yw_closed w"
  shows "quiet w w'"
  using assms by (simp add: quiet_def splitter_later_def)

text \<open>Storing a job in place of the active one.\<close>

lemma store_job:
  assumes inv: "splitter_inv relay w" and active: "sp_active_job w = Some job"
    and job': "job_ok relay ps job'" "sl_splitter_number (sj_plan job') = sl_splitter_number (sj_plan job)"
      "sj_pinned_ledger_canister_id job' = sj_pinned_ledger_canister_id job"
    and w': "sp_get w' = (sp_get w)\<lparr>ps_active_job := Some job', ps_next_driver_revision := n\<rparr>"
      "yw_possible w' = ps" "yw_closed w' = yw_closed w" "yw_now w' = yw_now w"
      "yw_ticket w' = yw_ticket w" "yw_splitter_owner w' = yw_splitter_owner w"
      "rs_config (yw_st w') = rs_config (yw_st w)"
      "rs_splitter_lock_state_ts (yw_st w') = rs_splitter_lock_state_ts (yw_st w)"
  shows "splitter_inv relay w' \<and> quiet w w'"
  using assms by (simp add: splitter_inv_def quiet_def splitter_later_def sp_active_job_def is_quarantined_def)

section \<open>Claims and replacements\<close>

lemma leg_ok_revision [simp]: "leg_ok relay ps (job\<lparr>sj_driver_revision := r\<rparr>) leg = leg_ok relay ps job leg"
  by (simp add: leg_ok_def)

lemma job_ok_revision [simp]: "job_ok relay ps (job\<lparr>sj_driver_revision := r\<rparr>) = job_ok relay ps job"
  by (simp add: job_ok_legs)

lemma current_leg_cong:
  "(\<And>leg. gp_status (leg_progress job' leg) = gp_status (leg_progress job leg)) \<Longrightarrow>
   current_leg job' = current_leg job"
  by (simp add: current_leg_def sj_legs)

text \<open>How many turns the driver's loop can still take.\<close>

fun status_turns :: "bool \<Rightarrow> splitter_leg_status \<Rightarrow> nat" where
  "status_turns valid (LegAccepted _) = 0"
| "status_turns valid LegReady = (if valid then 1 else 2)"
| "status_turns valid _ = 2"

definition leg_turns :: "u64 \<Rightarrow> splitter_job \<Rightarrow> splitter_leg \<Rightarrow> nat" where
  "leg_turns now job leg = status_turns
     (created_at_time_is_valid (lp_created_at_time_nanos (leg_plan job leg)) now)
     (gp_status (leg_progress job leg))"

definition turns :: "u64 \<Rightarrow> 'p relay_world \<Rightarrow> nat" where
  "turns now w = (case sp_active_job w of None \<Rightarrow> 0
     | Some job \<Rightarrow> leg_turns now job DefaultLeg + leg_turns now job SubaccountOneLeg)"

lemma status_turns_le: "status_turns valid st \<le> 2"
  by (cases st) simp_all

lemma turns_le: "turns now w \<le> 4"
  using status_turns_le [THEN add_mono, OF status_turns_le] by (simp add: turns_def leg_turns_def split: option.split)

lemma turns_less:
  assumes "sp_active_job w = Some job" "sp_active_job w' = Some job'"
    and "leg_turns now job' leg < leg_turns now job leg"
    and "\<And>leg'. leg' \<noteq> leg \<Longrightarrow> leg_turns now job' leg' = leg_turns now job leg'"
  shows "turns now w' < turns now w"
  using assms by (cases leg) (simp_all add: turns_def)

text \<open>What a handler knows while its transfer is under way.\<close>

definition in_flight :: "principal \<Rightarrow> bool \<Rightarrow> splitter_leg \<Rightarrow> splitter_job \<Rightarrow> transfer_arg \<Rightarrow> 'p relay_world \<Rightarrow> bool" where
  "in_flight relay prior leg job arg w \<longleftrightarrow> sp_active_job w = Some job \<and> current_leg job = Some leg \<and>
     gp_status (leg_progress job leg) = LegReady \<and> arg = splitter_transfer_arg relay job leg \<and>
     gp_attempt_started (leg_progress job leg) \<and> yw_possible w \<noteq> [] \<and> hd (yw_possible w) = (leg, arg) \<and>
     (\<not> prior \<longrightarrow> leg \<notin> sent_legs (tl (yw_possible w)))"

lemma same_journal_active: "same_journal w w' \<Longrightarrow> sp_active_job w' = sp_active_job w"
  by (simp add: same_journal_def sp_active_job_def)

lemma in_flight_same: "same_journal w w' \<Longrightarrow> in_flight relay prior leg job arg w' = in_flight relay prior leg job arg w"
  by (simp add: in_flight_def same_journal_def sp_active_job_def)

lemma claim_cases:
  assumes "sp_active_job w = Some job" "claim_active_job job mark w = Some (c, w1)"
  obtains r claimed where "c = Some claimed"
    "claimed = (case mark of None \<Rightarrow> job\<lparr>sj_driver_revision := r\<rparr>
       | Some leg \<Rightarrow> map_leg leg (\<lambda>p. p\<lparr>gp_attempt_started := True\<rparr>) (job\<lparr>sj_driver_revision := r\<rparr>))"
    "w1 = sp_set ((sp_get w)\<lparr>ps_next_driver_revision := r, ps_active_job := Some claimed\<rparr>) w"
  using assms by (auto simp: claim_active_job_def sp_active_job_def Let_def split: option.splits)

lemma claim_waiting_ok:
  assumes inv: "splitter_inv relay w" and active: "sp_active_job w = Some job"
    and claim: "claim_active_job job None w = Some (c, w1)"
  obtains claimed where "c = Some claimed" "sp_active_job w1 = Some claimed" "splitter_inv relay w1" "quiet w w1"
    "\<And>leg. leg_progress claimed leg = leg_progress job leg" "\<And>leg. leg_plan claimed leg = leg_plan job leg"
    "turns now w1 = turns now w"
proof -
  obtain r claimed where c: "c = Some claimed"
    "claimed = job\<lparr>sj_driver_revision := r\<rparr>"
    "w1 = sp_set ((sp_get w)\<lparr>ps_next_driver_revision := r, ps_active_job := Some claimed\<rparr>) w"
    by (rule claim_cases [OF active claim]) simp
  have "job_ok relay (yw_possible w) job" using inv active by (simp add: splitter_inv_def)
  then have "splitter_inv relay w1 \<and> quiet w w1"
    by (intro store_job [OF inv active, where n = r and ps = "yw_possible w" and job' = claimed]) (simp_all add: c)
  moreover have "sp_active_job w1 = Some claimed" by (simp add: c sp_active_job_def)
  moreover have "turns now w1 = turns now w" using active calculation(2) by (simp add: turns_def leg_turns_def c)
  ultimately show thesis using that c by simp
qed

lemma claim_transfer_ok:
  assumes inv: "splitter_inv relay w" and active: "sp_active_job w = Some job"
    and leg: "current_leg job = Some leg" "gp_status (leg_progress job leg) = LegReady"
    and claim: "claim_active_job job (Some leg) w = Some (c, w1)"
    and prior: "prior \<longleftrightarrow> \<not> leg_open (leg_progress job leg)"
  obtains claimed w2 where "c = Some claimed" "w2 = note_sent leg (splitter_transfer_arg relay claimed leg) w1"
    "splitter_inv relay w2" "quiet w w2" "turns now w2 = turns now w" "leg_plan claimed leg = leg_plan job leg"
    "in_flight relay prior leg claimed (splitter_transfer_arg relay claimed leg) w2"
    "splitter_req_ok relay w2 (RqTransfer (rcf_ledger_canister_id (rs_config (yw_st w)))
       (splitter_transfer_arg relay claimed leg))"
proof -
  obtain r claimed where c: "c = Some claimed"
    "claimed = map_leg leg (\<lambda>p. p\<lparr>gp_attempt_started := True\<rparr>) (job\<lparr>sj_driver_revision := r\<rparr>)"
    "w1 = sp_set ((sp_get w)\<lparr>ps_next_driver_revision := r, ps_active_job := Some claimed\<rparr>) w"
    by (rule claim_cases [OF active claim]) simp
  let ?arg = "splitter_transfer_arg relay claimed leg" and ?w2 = "note_sent leg (splitter_transfer_arg relay claimed leg) w1"
  have ok: "job_ok relay (yw_possible w) job"
    and pinned: "sj_pinned_ledger_canister_id job = rcf_ledger_canister_id (rs_config (yw_st w))"
    using inv active by (simp_all add: splitter_inv_def)
  have arg: "?arg = splitter_transfer_arg relay job leg" by (simp add: c)
  have progress: "gp_status (leg_progress claimed leg') = gp_status (leg_progress job leg')" for leg'
    by (cases "leg' = leg") (simp_all add: c)
  have cur: "current_leg claimed = Some leg" using leg(1) current_leg_cong [of claimed job] progress by simp
  have "leg_ok relay ((leg, ?arg) # yw_possible w) claimed leg'" for leg'
    using ok leg by (cases "leg' = leg") (auto simp: job_ok_legs leg_ok_def c)
  moreover have "leg = DefaultLeg \<or> leg_accepted (gp_status (leg_progress job DefaultLeg))"
    using leg(1) by (cases leg) (simp_all add: current_leg_legs)
  ultimately have "job_ok relay ((leg, ?arg) # yw_possible w) claimed"
    using ok unfolding job_ok_legs progress by (auto simp: c)
  then have "splitter_inv relay ?w2 \<and> quiet w ?w2"
    by (intro store_job [OF inv active, where n = r and ps = "(leg, ?arg) # yw_possible w" and job' = claimed])
      (simp_all add: c note_sent_def)
  moreover have act: "sp_active_job ?w2 = Some claimed" by (simp add: c sp_active_job_def note_sent_def)
  moreover have "turns now ?w2 = turns now w"
    using active act by (simp add: turns_def leg_turns_def progress) (simp add: c)
  moreover have "in_flight relay prior leg claimed ?arg ?w2"
    using ok leg prior cur act by (auto simp: in_flight_def note_sent_def c job_ok_legs leg_ok_def)
  moreover have "splitter_req_ok relay ?w2 (RqTransfer (rcf_ledger_canister_id (rs_config (yw_st w))) ?arg)"
  proof -
    have "sj_pinned_ledger_canister_id claimed = rcf_ledger_canister_id (rs_config (yw_st w))"
      by (simp add: c pinned)
    moreover have "(leg, ?arg) \<in> set (yw_possible ?w2)" by (simp add: note_sent_def)
    moreover have "gp_attempt_started (leg_progress claimed leg)" by (simp add: c)
    ultimately show ?thesis using act cur by auto
  qed
  moreover have "leg_plan claimed leg = leg_plan job leg" by (simp add: c)
  ultimately show thesis using that [OF c(1) refl] by blast
qed

lemma fresh_created_at_later:
  "fresh_created_at previous now = Some c \<Longrightarrow> previous < c \<and> now \<le> c"
  by (auto simp: fresh_created_at_def checked_add_Some word_less_nat_alt word_le_nat_alt max_def)

lemma fresh_is_valid: "now \<le> c \<Longrightarrow> created_at_time_is_valid c now"
  by (simp add: created_at_time_is_valid_def sat_sub_def)

lemma repin_ok:
  assumes ok: "job_ok relay ps job" and leg: "leg \<notin> sent_legs ps" "current_leg job = Some leg" "leg \<noteq> DefaultLeg"
    and fee: "fee < lp_gross_share_e8s (leg_plan job leg)"
    and repin: "repin_leg leg fee now job = Some job'"
  shows "job_ok relay ps job'" "sl_splitter_number (sj_plan job') = sl_splitter_number (sj_plan job)"
    "sj_pinned_ledger_canister_id job' = sj_pinned_ledger_canister_id job"
    "leg_turns now job' leg = 1" "\<And>leg'. leg' \<noteq> leg \<Longrightarrow> leg_turns now job' leg' = leg_turns now job leg'"
proof -
  have sub: "leg = SubaccountOneLeg" using leg(3) other_leg by simp
  from repin obtain c where c: "fresh_created_at (lp_created_at_time_nanos (leg_plan job leg)) now = Some c"
    and job': "job' = map_leg leg (\<lambda>_. leg_progress_default) (map_leg_plan leg (\<lambda>plan. plan\<lparr>lp_fee_e8s := fee,
       lp_amount_e8s := lp_gross_share_e8s plan - fee, lp_created_at_time_nanos := c\<rparr>) job)"
    by (auto simp: repin_leg_def split: option.splits)
  note later = fresh_created_at_later [OF c]
  have plan: "sj_plan job' = (sj_plan job)\<lparr>sl_subaccount_one_leg := (sl_subaccount_one_leg (sj_plan job))
      \<lparr>lp_fee_e8s := fee, lp_amount_e8s := lp_gross_share_e8s (sl_subaccount_one_leg (sj_plan job)) - fee,
       lp_created_at_time_nanos := c\<rparr>\<rparr>"
    by (simp add: job' sub map_leg_plan_def)
  then have plans: "leg_plan job' DefaultLeg = leg_plan job DefaultLeg"
    "leg_plan job' leg = (leg_plan job leg)\<lparr>lp_fee_e8s := fee,
       lp_amount_e8s := lp_gross_share_e8s (leg_plan job leg) - fee, lp_created_at_time_nanos := c\<rparr>"
    by (simp_all add: leg_plan_def sub)
  have progress: "leg_progress job' leg = leg_progress_default"
    "leg_progress job' DefaultLeg = leg_progress job DefaultLeg"
    by (simp_all add: job' sub map_leg_plan_def leg_progress_def map_leg_def)
  show number: "sl_splitter_number (sj_plan job') = sl_splitter_number (sj_plan job)" by (simp add: plan)
  show "sj_pinned_ledger_canister_id job' = sj_pinned_ledger_canister_id job"
    by (simp add: job' map_leg_plan_def sub)
  have arg: "splitter_transfer_arg relay job' DefaultLeg = splitter_transfer_arg relay job DefaultLeg"
    using plans by (simp add: splitter_transfer_arg_def plan)
  have created: "lp_created_at_time_nanos (leg_plan job DefaultLeg) < lp_created_at_time_nanos (leg_plan job' leg)"
    using ok later plans(2) by (auto simp: job_ok_legs sub)
  have "unat (lp_gross_share_e8s (leg_plan job leg) - fee) = unat (lp_gross_share_e8s (leg_plan job leg)) - unat fee"
    using fee by (simp add: unat_sub)
  then have "active_plan_is_valid job'"
    using ok fee created by (auto simp: job_ok_legs active_plan_is_valid_def plan leg_plan_def sub Let_def
      checked_add_Some word_less_nat_alt split: option.splits)
  moreover have "leg_ok relay ps job' leg" using leg(1) progress
    by (auto simp: leg_ok_def leg_progress_default_def image_iff)
  moreover have "leg_ok relay ps job' DefaultLeg"
    using ok progress(2) arg by (simp add: leg_ok_def job_ok_legs)
  ultimately show "job_ok relay ps job'"
    using ok created progress leg(2) plans(1) by (simp add: job_ok_legs all_legs sub current_leg_legs)
  show "leg_turns now job' leg = 1"
    using fresh_is_valid later by (simp add: leg_turns_def progress plans leg_progress_default_def)
  show "leg_turns now job' leg' = leg_turns now job leg'" if "leg' \<noteq> leg" for leg'
  proof -
    have "leg' = DefaultLeg" using that sub other_leg by blast
    then show ?thesis by (simp add: leg_turns_def progress plans)
  qed
qed

text \<open>Ending a job.\<close>

lemma clear_ok:
  assumes inv: "splitter_inv relay w" and active: "sp_active_job w = Some job"
    and closed: "closed_ok relay how job (yw_possible w)"
  shows "splitter_inv relay (clear_active_job how w)" "quiet w (clear_active_job how w)"
    "sp_active_job (clear_active_job how w) = None"
proof -
  let ?w = "clear_active_job how w"
  have w': "sp_get ?w = (sp_get w)\<lparr>ps_active_job := None\<rparr>" "yw_possible ?w = []"
    "yw_closed ?w = (how, job, yw_possible w) # yw_closed w" "yw_st ?w = yw_st w" "yw_now ?w = yw_now w"
    "yw_ticket ?w = yw_ticket w" "yw_splitter_owner ?w = yw_splitter_owner w"
    using active by (simp_all add: clear_active_job_def note_closed_def Let_def)
  show "sp_active_job ?w = None" by (simp add: sp_active_job_def w')
  then show "splitter_inv relay ?w"
    using inv closed by (auto simp: splitter_inv_def w')
  show "quiet w ?w" by (rule quiet_journal [where new = "[(how, job, yw_possible w)]"]) (simp_all add: w')
qed

lemma job_closed_ok:
  assumes "job_ok relay ps job"
  shows "closed_ok relay ClosedQuarantined job ps"
  using assms by (auto simp: closed_ok_def job_ok_legs leg_ok_def)

lemma quarantine_ok:
  assumes inv: "splitter_inv relay w" and active: "sp_active_job w = Some job"
  shows "splitter_inv relay (quarantine_active_job leg now reason w)"
    "quiet w (quarantine_active_job leg now reason w)"
proof -
  let ?w = "quarantine_active_job leg now reason w"
  let ?q = "\<lparr>qj_job = job, qj_blocked_leg = leg, qj_quarantined_at_nanos = now, qj_reason = reason\<rparr>"
  have w': "sp_get ?w = (sp_get w)\<lparr>ps_active_job := None, ps_quarantined_jobs :=
      (ps_quarantined_jobs (sp_get w))(sl_splitter_number (sj_plan job) \<mapsto> ?q)\<rparr>" "yw_possible ?w = []"
    "yw_closed ?w = (ClosedQuarantined, job, yw_possible w) # yw_closed w" "yw_st ?w = yw_st w"
    "yw_now ?w = yw_now w" "yw_ticket ?w = yw_ticket w" "yw_splitter_owner ?w = yw_splitter_owner w"
    using active by (simp_all add: quarantine_active_job_def note_closed_def Let_def sp_active_job_def)
  have ok: "job_ok relay (yw_possible w) job" "\<not> is_quarantined (sl_splitter_number (sj_plan job)) w"
    using inv active by (simp_all add: splitter_inv_def)
  have "closed_ok relay ClosedQuarantined job (yw_possible w)" using ok(1) by (rule job_closed_ok)
  moreover have "sp_active_job ?w = None" by (simp add: sp_active_job_def w')
  ultimately show "splitter_inv relay ?w" using inv by (auto simp: splitter_inv_def w')
  show "quiet w ?w"
    using ok(2) by (intro quiet_journal [where new = "[(ClosedQuarantined, job, yw_possible w)]"])
      (auto simp: w' is_quarantined_def)
qed

section \<open>Outcomes of a transfer\<close>

lemma set_active_fields [simp]:
  "sp_get (sp_set_active_job job w) = (sp_get w)\<lparr>ps_active_job := Some job\<rparr>"
  "sp_active_job (sp_set_active_job job w) = Some job"
  "yw_possible (sp_set_active_job job w) = yw_possible w" "yw_closed (sp_set_active_job job w) = yw_closed w"
  "yw_now (sp_set_active_job job w) = yw_now w" "yw_st (sp_set_active_job job w) = yw_st w"
  "yw_ticket (sp_set_active_job job w) = yw_ticket w"
  "yw_splitter_owner (sp_set_active_job job w) = yw_splitter_owner w"
  by (simp_all add: sp_set_active_job_def sp_active_job_def)

text \<open>Worlds that differ in the ledger fee only.\<close>

definition fee_step :: "'p relay_world \<Rightarrow> 'p relay_world \<Rightarrow> bool" where
  "fee_step w w' \<longleftrightarrow> (\<exists>fee. w' = w\<lparr>yw_st := (yw_st w)\<lparr>rs_last_known_ledger_fee_e8s := fee\<rparr>\<rparr>)"

lemma fee_step_facts:
  assumes "fee_step w w'"
  shows "quiet w w'" "same_journal w w'" "splitter_inv relay w' = splitter_inv relay w"
    "yw_closed w' = yw_closed w" "rs_config (yw_st w') = rs_config (yw_st w)"
  using assms by (auto simp: fee_step_def quiet_def splitter_later_def same_journal_def splitter_inv_def
      sp_active_job_def is_quarantined_def)

lemma resolve_fee_step: "resolve_icp_ledger_fee_e8s r w = (fee, w') \<Longrightarrow> fee_step w w'"
  unfolding resolve_icp_ledger_fee_e8s_def fee_step_def y_with_state_mut_def
  by (auto split: sum.splits intro: exI [of _ "rs_last_known_ledger_fee_e8s (yw_st w)"])

lemma bad_fee_step: "fee_step w (record_bad_fee fee w)"
  unfolding record_bad_fee_def fee_step_def y_with_state_mut_def
  by (auto intro: exI [of _ "rs_last_known_ledger_fee_e8s (yw_st w)"])

text \<open>A step that replaces the active job by another that is all right.\<close>

lemma replace_ok:
  assumes inv: "splitter_inv relay w" and active: "sp_active_job w = Some job"
    and w1: "sp_get w1 = sp_get w" "yw_closed w1 = yw_closed w" "quiet w w1"
    and job': "job_ok relay (yw_possible w1) job'" "sl_splitter_number (sj_plan job') = sl_splitter_number (sj_plan job)"
      "sj_pinned_ledger_canister_id job' = sj_pinned_ledger_canister_id job"
  shows "splitter_inv relay (sp_set_active_job job' w1) \<and> quiet w (sp_set_active_job job' w1)"
  using inv active w1 job' by (auto simp: splitter_inv_def quiet_def splitter_later_def sp_active_job_def is_quarantined_def)

lemma leg_ok_subset:
  assumes "leg_ok relay ps job leg" "set ps' \<subseteq> set ps" "\<not> leg_accepted (gp_status (leg_progress job leg))"
  shows "leg_ok relay ps' job leg"
  using assms by (auto simp: leg_ok_def image_iff)

text \<open>After a rejection the transfer is taken back; the job is all right without it when an earlier attempt
  is still on record.\<close>

lemma in_flight_tl:
  assumes "in_flight relay prior leg job arg w" "job_ok relay (yw_possible w) job"
  shows "remove1 (leg, arg) (yw_possible w) = tl (yw_possible w)"
    "\<And>leg'. leg' \<noteq> leg \<Longrightarrow> leg_ok relay (tl (yw_possible w)) job leg'"
    "\<And>a. (leg, a) \<in> set (tl (yw_possible w)) \<Longrightarrow> a = arg"
proof -
  obtain rest where ps: "yw_possible w = (leg, arg) # rest"
    using assms(1) by (cases "yw_possible w") (auto simp: in_flight_def)
  show "remove1 (leg, arg) (yw_possible w) = tl (yw_possible w)" by (simp add: ps)
  show "leg_ok relay (tl (yw_possible w)) job leg'" if "leg' \<noteq> leg" for leg'
    using assms(2) that unfolding job_ok_legs ps leg_ok_def by auto
  show "a = arg" if "(leg, a) \<in> set (tl (yw_possible w))" for a
    using assms that by (auto simp: ps job_ok_legs leg_ok_def in_flight_def)
qed

lemma job_ok_leg_step:
  assumes ok: "job_ok relay ps job" and cur: "current_leg job = Some leg"
    and other: "\<And>leg'. leg' \<noteq> leg \<Longrightarrow> leg_ok relay ps' job leg'"
    and self: "leg_ok relay ps' (map_leg leg f job) leg"
    and status: "leg = DefaultLeg \<Longrightarrow> \<not> leg_waiting (gp_status (f (leg_progress job leg)))"
  shows "job_ok relay ps' (map_leg leg f job)"
proof -
  have "leg_ok relay ps' (map_leg leg f job) leg'" for leg'
    using other [of leg'] self by (cases "leg' = leg") (simp_all add: leg_ok_def)
  then show ?thesis using ok cur status
    by (cases leg) (auto simp: job_ok_legs current_leg_legs)
qed

lemma rejected_ok:
  assumes inv: "splitter_inv relay w" and flight: "in_flight relay prior leg job arg w"
  shows "splitter_inv relay (note_rejected leg arg w)" "quiet w (note_rejected leg arg w)"
    "sp_active_job (note_rejected leg arg w) = Some job"
    "\<not> prior \<Longrightarrow> leg \<notin> sent_legs (yw_possible (note_rejected leg arg w))"
proof -
  let ?w = "note_rejected leg arg w"
  have active: "sp_active_job w = Some job" using flight by (simp add: in_flight_def)
  have ok: "job_ok relay (yw_possible w) job" using inv active by (simp add: splitter_inv_def)
  note tl = in_flight_tl [OF flight ok]
  have w': "sp_get ?w = sp_get w" "yw_closed ?w = yw_closed w" "yw_st ?w = yw_st w" "yw_now ?w = yw_now w"
    "yw_ticket ?w = yw_ticket w" "yw_splitter_owner ?w = yw_splitter_owner w" "yw_possible ?w = tl (yw_possible w)"
    using tl(1) by (simp_all add: note_rejected_def)
  show act: "sp_active_job ?w = Some job" using active by (simp add: sp_active_job_def w')
  have "leg_ok relay (tl (yw_possible w)) job leg"
    using tl(3) flight by (auto simp: leg_ok_def in_flight_def)
  then have "\<forall>leg'. leg_ok relay (tl (yw_possible w)) job leg'" using tl(2) by metis
  then have "job_ok relay (yw_possible ?w) job" using ok by (simp add: job_ok_legs w')
  then show "splitter_inv relay ?w" using inv active act by (auto simp: splitter_inv_def w' is_quarantined_def)
  show "quiet w ?w" by (rule quiet_journal [where new = "[]"]) (simp_all add: w')
  show "leg \<notin> sent_legs (yw_possible ?w)" if "\<not> prior"
    using flight that unfolding w'(7) by (simp add: in_flight_def)
qed

lemma keep_uncertain_ok:
  assumes inv: "splitter_inv relay w" and active: "sp_active_job w = Some job" and cur: "current_leg job = Some leg"
    and ready: "\<not> leg_waiting (gp_status (leg_progress job leg))"
  shows "splitter_inv relay (keep_uncertain leg job w) \<and> quiet w (keep_uncertain leg job w)"
proof -
  have ok: "job_ok relay (yw_possible w) job" using inv active by (simp add: splitter_inv_def)
  have "job_ok relay (yw_possible w) (map_leg leg (\<lambda>p. p\<lparr>gp_uncertain_attempt_seen := True\<rparr>) job)"
  proof (rule job_ok_leg_step [OF ok cur])
    show "leg_ok relay (yw_possible w) job leg'" if "leg' \<noteq> leg" for leg' using ok by (simp add: job_ok_legs)
    have "leg_ok relay (yw_possible w) job leg" using ok by (simp add: job_ok_legs)
    then show "leg_ok relay (yw_possible w) (map_leg leg (\<lambda>p. p\<lparr>gp_uncertain_attempt_seen := True\<rparr>) job) leg"
      using ready by (simp add: leg_ok_def)
    show "\<not> leg_waiting (gp_status ((leg_progress job leg)\<lparr>gp_uncertain_attempt_seen := True\<rparr>))" using ready by simp
  qed
  then show ?thesis unfolding keep_uncertain_def by (intro replace_ok [OF inv active]) simp_all
qed

text \<open>Giving up a job that has sent nothing.\<close>

lemma before_spend_ok:
  assumes inv: "splitter_inv relay w" and active: "sp_active_job w = Some job"
    and cur: "current_leg job = Some DefaultLeg" and none: "DefaultLeg \<notin> sent_legs (yw_possible w)"
  shows "splitter_inv relay (clear_active_job ClosedBeforeSpend w)" "quiet w (clear_active_job ClosedBeforeSpend w)"
proof -
  have ok: "job_ok relay (yw_possible w) job" using inv active by (simp add: splitter_inv_def)
  then have "SubaccountOneLeg \<notin> sent_legs (yw_possible w)"
    using cur by (auto simp: job_ok_legs current_leg_legs leg_ok_def leg_progress_default_def)
  then have "leg \<notin> sent_legs (yw_possible w)" for leg using none by (cases leg) simp_all
  then have "yw_possible w = []" by (cases "yw_possible w") (auto simp: image_iff)
  then have "closed_ok relay ClosedBeforeSpend job (yw_possible w)"
    using ok by (simp add: closed_ok_def job_ok_legs)
  from clear_ok [OF inv active this]
  show "splitter_inv relay (clear_active_job ClosedBeforeSpend w)" "quiet w (clear_active_job ClosedBeforeSpend w)"
    by simp_all
qed

lemma repin_stored_ok:
  assumes inv: "splitter_inv relay w" and active: "sp_active_job w = Some job"
    and leg: "leg \<notin> sent_legs (yw_possible w)" "current_leg job = Some leg" "leg \<noteq> DefaultLeg"
    and fee: "fee < lp_gross_share_e8s (leg_plan job leg)" and repin: "repin_leg leg fee now job = Some job'"
  shows "splitter_inv relay (sp_set_active_job job' w)" "quiet w (sp_set_active_job job' w)"
    "1 < leg_turns now job leg \<Longrightarrow> turns now (sp_set_active_job job' w) < turns now w"
proof -
  have ok: "job_ok relay (yw_possible w) job" using inv active by (simp add: splitter_inv_def)
  note repinned = repin_ok [OF ok leg fee repin]
  have "splitter_inv relay (sp_set_active_job job' w) \<and> quiet w (sp_set_active_job job' w)"
    using repinned by (intro replace_ok [OF inv active]) simp_all
  then show "splitter_inv relay (sp_set_active_job job' w)" "quiet w (sp_set_active_job job' w)" by simp_all
  show "turns now (sp_set_active_job job' w) < turns now w" if "1 < leg_turns now job leg"
    using repinned(4,5) that by (intro turns_less [OF active, where job' = job' and leg = leg]) simp_all
qed

lemma valid_fee:
  assumes "job_ok relay ps job" "leg \<noteq> DefaultLeg"
  shows "lp_fee_e8s (leg_plan job leg) < lp_gross_share_e8s (leg_plan job leg)"
  using assms by (cases leg) (auto simp: job_ok_legs active_plan_is_valid_def leg_plan_def Let_def split: option.splits)

text \<open>Waiting legs: the second leg, when nothing of it was sent.\<close>

lemma waiting_stored_ok:
  assumes inv: "splitter_inv relay w" and active: "sp_active_job w = Some job"
    and leg: "leg \<notin> sent_legs (yw_possible w)" "current_leg job = Some leg" "leg \<noteq> DefaultLeg"
    and f: "leg_waiting (gp_status (f (leg_progress job leg)))" "leg_open (f (leg_progress job leg))"
  shows "splitter_inv relay (sp_set_active_job (map_leg leg f job) w) \<and> quiet w (sp_set_active_job (map_leg leg f job) w)"
proof -
  have ok: "job_ok relay (yw_possible w) job" using inv active by (simp add: splitter_inv_def)
  have "\<not> leg_accepted st" if "leg_waiting st" for st using that by (cases st) simp_all
  then have "leg_ok relay (yw_possible w) (map_leg leg f job) leg"
    using leg(1) f by (auto simp: leg_ok_def image_iff)
  moreover have "leg_ok relay (yw_possible w) job leg'" for leg' using ok by (simp add: job_ok_legs)
  ultimately have "job_ok relay (yw_possible w) (map_leg leg f job)"
    using leg(3) by (intro job_ok_leg_step [OF ok leg(2)]) simp_all
  then show ?thesis by (intro replace_ok [OF inv active]) simp_all
qed

lemma replacement_ok:
  assumes inv: "splitter_inv relay w" and active: "sp_active_job w = Some job"
    and leg: "leg \<notin> sent_legs (yw_possible w)" "current_leg job = Some leg" "leg \<noteq> DefaultLeg"
  shows "splitter_inv relay (fst (replace_bad_fee leg job expected_fee now w)) \<and>
      quiet w (fst (replace_bad_fee leg job expected_fee now w))"
    "splitter_inv relay (fst (replace_insufficient_funds leg job balance w)) \<and>
      quiet w (fst (replace_insufficient_funds leg job balance w))"
    "splitter_inv relay (fst (replace_rejected leg job now w)) \<and> quiet w (fst (replace_rejected leg job now w))"
proof -
  have ok: "job_ok relay (yw_possible w) job" using inv active by (simp add: splitter_inv_def)
  have stored: "splitter_inv relay (fst (store_repinned leg now (repin_leg leg fee now job) (\<lambda>w. (w, Unresolved)) Pair w)) \<and>
      quiet w (fst (store_repinned leg now (repin_leg leg fee now job) (\<lambda>w. (w, Unresolved)) Pair w))"
    if "fee < lp_gross_share_e8s (leg_plan job leg)" for fee
    using repin_stored_ok [OF inv active leg that] quarantine_ok [OF inv active]
    by (auto simp: store_repinned_def split: option.split)
  then show "splitter_inv relay (fst (replace_rejected leg job now w)) \<and> quiet w (fst (replace_rejected leg job now w))"
    using valid_fee [OF ok leg(3)] by (simp add: replace_rejected_def)
  show "splitter_inv relay (fst (replace_bad_fee leg job expected_fee now w)) \<and>
      quiet w (fst (replace_bad_fee leg job expected_fee now w))"
    using stored waiting_stored_ok [OF inv active leg] by (simp add: replace_bad_fee_def)
  show "splitter_inv relay (fst (replace_insufficient_funds leg job balance w)) \<and>
      quiet w (fst (replace_insufficient_funds leg job balance w))"
    using waiting_stored_ok [OF inv active leg] by (simp add: replace_insufficient_funds_def)
qed

lemma after_rejection_ok:
  assumes inv: "splitter_inv relay w" and flight: "in_flight relay prior leg job arg w"
    and replace: "leg \<noteq> DefaultLeg \<Longrightarrow> leg \<notin> sent_legs (yw_possible (note_rejected leg arg w)) \<Longrightarrow>
      splitter_inv relay (fst (f (note_rejected leg arg w))) \<and> quiet (note_rejected leg arg w) (fst (f (note_rejected leg arg w)))"
  shows "splitter_inv relay (fst (after_rejection prior leg job f (note_rejected leg arg w))) \<and>
    quiet w (fst (after_rejection prior leg job f (note_rejected leg arg w)))"
proof -
  note rejected = rejected_ok [OF inv flight]
  have cur: "current_leg job = Some leg" "\<not> leg_waiting (gp_status (leg_progress job leg))"
    using flight by (simp_all add: in_flight_def)
  consider "prior" | "\<not> prior" "leg = DefaultLeg" | "\<not> prior" "leg \<noteq> DefaultLeg" by blast
  then show ?thesis
  proof cases
    case 1
    then show ?thesis using keep_uncertain_ok [OF rejected(1,3) cur] quiet_trans [OF rejected(2)]
      by (simp add: after_rejection_def)
  next
    case 2
    with rejected(4) have none: "DefaultLeg \<notin> sent_legs (yw_possible (note_rejected leg arg w))" by simp
    from before_spend_ok [OF rejected(1,3) cur(1) [unfolded 2(2)] this] quiet_trans [OF rejected(2)] 2
    show ?thesis by (simp add: after_rejection_def)
  next
    case 3
    then show ?thesis using replace rejected(4) quiet_trans [OF rejected(2)] by (simp add: after_rejection_def)
  qed
qed

lemma in_flight_fee_step:
  "fee_step w w' \<Longrightarrow> in_flight relay prior leg job arg w' = in_flight relay prior leg job arg w"
  using fee_step_facts(2) in_flight_same by blast

text \<open>Whatever the ledger answers, the journal stays all right; the loop goes on only after progress.\<close>

lemma apply_outcome_ok:
  assumes inv: "splitter_inv relay w" and flight: "in_flight relay prior leg job arg w"
    and out: "apply_outcome prior leg job arg now outcome w = (w1, res)"
    and valid: "created_at_time_is_valid (lp_created_at_time_nanos (leg_plan job leg)) now"
  shows "splitter_inv relay w1" "quiet w w1" "res = None \<Longrightarrow> turns now w1 < turns now w"
proof -
  have active: "sp_active_job w = Some job" and cur: "current_leg job = Some leg"
    and ready: "gp_status (leg_progress job leg) = LegReady" using flight by (simp_all add: in_flight_def)
  have ok: "job_ok relay (yw_possible w) job" using inv active by (simp add: splitter_inv_def)
  have rejected: "splitter_inv relay (fst (after_rejection prior leg job h (note_rejected leg arg v))) \<and>
      quiet v (fst (after_rejection prior leg job h (note_rejected leg arg v)))"
    if "splitter_inv relay v" "in_flight relay prior leg job arg v"
      "\<And>u. splitter_inv relay u \<Longrightarrow> sp_active_job u = Some job \<Longrightarrow> leg \<notin> sent_legs (yw_possible u)
        \<Longrightarrow> leg \<noteq> DefaultLeg \<Longrightarrow> splitter_inv relay (fst (h u)) \<and> quiet u (fst (h u))" for v h
    using that rejected_ok [OF that(1,2)] by (intro after_rejection_ok) simp_all
  have result: "w1 = fst x \<and> res \<noteq> None" if "apply_outcome prior leg job arg now outcome w = map_prod id Some x" for x
    using out that by (cases x) auto
  have "splitter_inv relay w1 \<and> quiet w w1 \<and> (res = None \<longrightarrow> turns now w1 < turns now w)"
  proof (cases outcome)
    case (SpAccepted block)
    let ?f = "\<lambda>p. p\<lparr>gp_status := LegAccepted block\<rparr>"
    have w1: "w1 = sp_set_active_job (map_leg leg ?f job) w" using out SpAccepted by (simp add: apply_outcome_def)
    have "(leg, arg) \<in> set (yw_possible w)" using flight hd_in_set by (fastforce simp: in_flight_def)
    then have "leg_ok relay (yw_possible w) (map_leg leg ?f job) leg"
      using ok flight by (auto simp: leg_ok_def job_ok_legs in_flight_def)
    moreover have "leg_ok relay (yw_possible w) job leg'" for leg' using ok by (simp add: job_ok_legs)
    ultimately have "job_ok relay (yw_possible w) (map_leg leg ?f job)"
      by (intro job_ok_leg_step [OF ok cur]) simp_all
    then have "splitter_inv relay w1 \<and> quiet w w1" unfolding w1 by (intro replace_ok [OF inv active]) simp_all
    moreover have "turns now w1 < turns now w"
      using ready valid unfolding w1
      by (intro turns_less [OF active, where leg = leg and job' = "map_leg leg ?f job"]) (simp_all add: leg_turns_def)
    ultimately show ?thesis by simp
  next
    case (SpTransportUncertain e)
    have w1: "w1 = keep_uncertain leg job w" "res = Some Unresolved"
      using out SpTransportUncertain by (simp_all add: apply_outcome_def)
    have "\<not> leg_waiting (gp_status (leg_progress job leg))" using ready by simp
    from keep_uncertain_ok [OF inv active cur this] w1 show ?thesis by simp
  next
    case (SpBadFee fee)
    let ?w = "record_bad_fee fee w"
    note step = fee_step_facts [OF bad_fee_step [where w = w and fee = fee]]
    have "splitter_inv relay ?w" "in_flight relay prior leg job arg ?w"
      using inv flight step(3) in_flight_fee_step [OF bad_fee_step [where w = w and fee = fee]] by simp_all
    note rest = rejected [of ?w "replace_bad_fee leg job fee now", OF this replacement_ok(1) [OF _ _ _ cur]]
    have "apply_outcome prior leg job arg now outcome w = map_prod id Some
        (after_rejection prior leg job (replace_bad_fee leg job fee now) (note_rejected leg arg ?w))"
      by (simp add: apply_outcome_def SpBadFee)
    from result [OF this] rest quiet_trans [OF step(1)] show ?thesis by auto
  next
    case (SpInsufficientFunds balance)
    note rest = rejected [of w "replace_insufficient_funds leg job balance", OF inv flight replacement_ok(2) [OF _ _ _ cur]]
    have "apply_outcome prior leg job arg now outcome w = map_prod id Some
        (after_rejection prior leg job (replace_insufficient_funds leg job balance) (note_rejected leg arg w))"
      by (simp add: apply_outcome_def SpInsufficientFunds)
    from result [OF this] rest show ?thesis by auto
  next
    case (SpDefinitiveRejection e)
    note rest = rejected [of w "replace_rejected leg job now", OF inv flight replacement_ok(3) [OF _ _ _ cur]]
    have "apply_outcome prior leg job arg now outcome w = map_prod id Some
        (after_rejection prior leg job (replace_rejected leg job now) (note_rejected leg arg w))"
      by (simp add: apply_outcome_def SpDefinitiveRejection)
    from result [OF this] rest show ?thesis by auto
  qed
  then show "splitter_inv relay w1" "quiet w w1" "res = None \<Longrightarrow> turns now w1 < turns now w" by simp_all
qed

section \<open>The driver\<close>

text \<open>What a turn of the driver ends with: a result, and a guard that is held or lost; after a completed
  job the guard is held and no job is active.\<close>

definition drive_post :: "nat \<Rightarrow> timer_lease_guard \<Rightarrow> 'p relay_world \<Rightarrow> drive_result option \<Rightarrow> bool" where
  "drive_post t g w result \<longleftrightarrow> result \<noteq> None \<and> held t g w \<and>
     (result = Some DriveCompleted \<longrightarrow> holds t g w \<and> sp_active_job w = None)"

lemma drive_done:
  assumes "holds t g w0" "quiet w0 w" "splitter_inv relay w" "res \<noteq> DriveCompleted \<or> sp_active_job w = None"
  shows "splitter_rg relay t (drive_post t g) (Done w (Some res)) w0"
proof -
  have "holds t g w" using quiet_holds(1) assms(1,2) by blast
  then show ?thesis using assms holds_guar holds_held by (auto simp: drive_post_def)
qed

lemma drive_stale:
  assumes "held t g w" "splitter_inv relay w"
  shows "splitter_rg relay t (drive_post t g) (Done w (Some Stale)) w"
  using assms held_guar [OF assms(1) quiet_refl same_journal_refl] by (simp add: drive_post_def)

text \<open>The next turn, when it is known to be all right in every world with fewer turns left.\<close>

definition goes_on :: "principal \<Rightarrow> nat \<Rightarrow> timer_lease_guard \<Rightarrow> principal \<Rightarrow> u64 \<Rightarrow> nat
    \<Rightarrow> ('p relay_world \<Rightarrow> 'p drive_proc) \<Rightarrow> bool" where
  "goes_on relay t g ledger now n again \<longleftrightarrow> (\<forall>w. splitter_inv relay w \<longrightarrow> holds t g w \<longrightarrow>
     ledger = rcf_ledger_canister_id (rs_config (yw_st w)) \<longrightarrow> turns now w < n \<longrightarrow>
     splitter_rg relay t (drive_post t g) (again w) w)"

lemma sp_goes_on_step:
  assumes "goes_on relay t g ledger now n again" "splitter_inv relay w" "holds t g w0" "quiet w0 w"
    "ledger = rcf_ledger_canister_id (rs_config (yw_st w0))" "turns now w < n"
  shows "splitter_rg relay t (drive_post t g) (again w) w0"
proof -
  have "holds t g w" using quiet_holds(1) assms(3,4) by blast
  moreover have "ledger = rcf_ledger_canister_id (rs_config (yw_st w))" using assms(4,5) by (simp add: quiet_def)
  ultimately have "splitter_rg relay t (drive_post t g) (again w) w"
    using assms(1,2,6) by (simp add: goes_on_def)
  then show ?thesis using holds_guar [OF assms(3,4)] splitter_guar_trans by (rule rgt_start)
qed

lemma drive_store:
  assumes again: "goes_on relay t g ledger now n again" and inv: "splitter_inv relay w"
    and active: "sp_active_job w = Some job"
    and leg: "leg \<notin> sent_legs (yw_possible w)" "current_leg job = Some leg" "leg \<noteq> DefaultLeg"
    and fee: "fee < lp_gross_share_e8s (leg_plan job leg)"
    and turns: "1 < leg_turns now job leg" "turns now w \<le> n"
    and start: "holds t g w0" "quiet w0 w" "ledger = rcf_ledger_canister_id (rs_config (yw_st w0))"
  shows "splitter_rg relay t (drive_post t g)
    (store_repinned leg now (repin_leg leg fee now job) again (\<lambda>w res. Done w (Some res)) w) w0"
proof (cases "repin_leg leg fee now job")
  case None
  then show ?thesis
    using quarantine_ok [OF inv active] quiet_trans [OF start(2)] start(1)
    by (simp add: store_repinned_def) (metis drive_done drive_result.distinct rgt.simps(1))
next
  case (Some job')
  note stored = repin_stored_ok [OF inv active leg fee Some]
  have "quiet w0 (sp_set_active_job job' w)" using start(2) stored(2) by (rule quiet_trans)
  moreover have "turns now (sp_set_active_job job' w) < n" using stored(3) turns by simp
  ultimately show ?thesis using again stored(1) start(1,3) Some
    by (simp add: store_repinned_def sp_goes_on_step)
qed

text \<open>A suspension that knows \<open>P\<close> of the journal: after it the guard is lost, or \<open>P\<close> still holds.\<close>

lemma drive_await:
  assumes start: "holds t g w0" "quiet w0 w" and inv: "splitter_inv relay w" and req: "splitter_req_ok relay w q"
    and resumed: "\<And>r w'. splitter_inv relay w' \<Longrightarrow> held t g w' \<Longrightarrow>
      rs_config (yw_st w') = rs_config (yw_st w) \<Longrightarrow> (holds t g w' \<Longrightarrow> same_journal w w') \<Longrightarrow>
      splitter_rg relay t Q (k r w') w'"
  shows "splitter_rg relay t Q (Await w q k) w0"
proof -
  have holds: "holds t g w" using quiet_holds(1) start by blast
  have "splitter_rg relay t Q (k r w') w'" if "splitter_inv relay w'" "splitter_rely t w w'" for r w'
    using that holds_rely [OF holds that(2)] by (intro resumed) (auto simp: splitter_rely_def)
  then show ?thesis using holds_guar [OF start] inv req by simp
qed

lemma claim_matches:
  "active_job_if_claim_matches claimed w = Some job \<longleftrightarrow> job = claimed \<and> sp_active_job w = Some claimed"
  by (auto simp: active_job_if_claim_matches_def split: option.splits)

lemma drive_after_transfer_rg:
  assumes again: "goes_on relay t g ledger now (turns now w) again"
    and inv: "splitter_inv relay w" and held: "held t g w"
    and ledger: "ledger = rcf_ledger_canister_id (rs_config (yw_st w))"
    and valid: "created_at_time_is_valid (lp_created_at_time_nanos (leg_plan claimed leg)) now"
    and flight: "holds t g w \<Longrightarrow> in_flight relay prior leg claimed arg w"
  shows "splitter_rg relay t (drive_post t g) (drive_after_transfer again prior leg claimed arg now g r w) w"
proof (cases "splitter_guard_is_current g w \<and> active_job_if_claim_matches claimed w = Some claimed")
  case False
  then show ?thesis using drive_stale [OF held inv] claim_matches [of claimed w]
    by (auto simp: drive_after_transfer_def simp del: rgt.simps split: option.split)
next
  case True
  then have holds: "holds t g w" using held_current [OF held] by simp
  obtain w1 res where out: "apply_outcome prior leg claimed arg now (transfer_once_outcome r) w = (w1, res)"
    by (cases "apply_outcome prior leg claimed arg now (transfer_once_outcome r) w")
  note ok = apply_outcome_ok [OF inv flight [OF holds] out valid]
  show ?thesis
  proof (cases res)
    case None
    then show ?thesis using True out sp_goes_on_step [OF again ok(1) holds ok(2) ledger] ok(3)
      by (simp add: drive_after_transfer_def)
  next
    case (Some x)
    have "x \<noteq> DriveCompleted \<or> sp_active_job w1 = None"
      using out Some by (auto simp: apply_outcome_def after_rejection_def replace_bad_fee_def replace_rejected_def
        replace_insufficient_funds_def store_repinned_def split: splitter_transfer_outcome.splits if_splits option.splits)
    from drive_done [OF holds ok(2,1) this] True out Some show ?thesis
      by (simp add: drive_after_transfer_def del: rgt.simps)
  qed
qed

lemma goes_on_mono: "goes_on relay t g ledger now n again \<Longrightarrow> m \<le> n \<Longrightarrow> goes_on relay t g ledger now m again"
  by (auto simp: goes_on_def)

lemma turns_same: "same_journal w w' \<Longrightarrow> turns now w' = turns now w"
  by (simp add: turns_def same_journal_active)

lemma holds_current [simp]: "holds t g w \<Longrightarrow> splitter_guard_is_current g w"
  using held_current holds_held by blast

lemma drive_transfer_rg:
  assumes again: "goes_on relay t g ledger now (turns now w) again"
    and inv: "splitter_inv relay w" and holds: "holds t g w"
    and ledger: "ledger = rcf_ledger_canister_id (rs_config (yw_st w))"
    and active: "sp_active_job w = Some job" and leg: "current_leg job = Some leg" "gp_status (leg_progress job leg) = LegReady"
    and valid: "created_at_time_is_valid (lp_created_at_time_nanos (leg_plan job leg)) now"
    and prior: "prior \<longleftrightarrow> \<not> leg_open (leg_progress job leg)"
  shows "splitter_rg relay t (drive_post t g) (drive_transfer again prior leg job relay ledger now g w) w"
proof (cases "claim_active_job job (Some leg) w")
  case None
  then show ?thesis by (simp add: drive_transfer_def)
next
  case (Some cw)
  obtain c w1 where claim: "claim_active_job job (Some leg) w = Some (c, w1)" using Some by (cases cw) simp
  obtain claimed w2 where c: "c = Some claimed" "w2 = note_sent leg (splitter_transfer_arg relay claimed leg) w1"
    "splitter_inv relay w2" "quiet w w2" "turns now w2 = turns now w" "leg_plan claimed leg = leg_plan job leg"
    "in_flight relay prior leg claimed (splitter_transfer_arg relay claimed leg) w2"
    "splitter_req_ok relay w2 (RqTransfer (rcf_ledger_canister_id (rs_config (yw_st w)))
       (splitter_transfer_arg relay claimed leg))"
    by (rule claim_transfer_ok [OF inv active leg claim prior])
  let ?arg = "splitter_transfer_arg relay claimed leg"
  have "splitter_rg relay t (drive_post t g)
    (Await w2 (RqTransfer ledger ?arg) (drive_after_transfer again prior leg claimed ?arg now g)) w"
  proof (rule drive_await [OF holds c(4,3)])
    show "splitter_req_ok relay w2 (RqTransfer ledger ?arg)" using c(8) ledger by simp
    fix r w'
    assume w': "splitter_inv relay w'" "held t g w'" "rs_config (yw_st w') = rs_config (yw_st w2)"
      "holds t g w' \<Longrightarrow> same_journal w2 w'"
    show "splitter_rg relay t (drive_post t g) (drive_after_transfer again prior leg claimed ?arg now g r w') w'"
    proof (cases "holds t g w'")
      case True
      then have same: "same_journal w2 w'" using w'(4) by simp
      then have "in_flight relay prior leg claimed ?arg w'" "turns now w' = turns now w"
        using c(5,7) in_flight_same [OF same] turns_same [OF same, of now] by simp_all
      then show ?thesis using again w'(1,2,3) ledger valid c(4,6)
        by (intro drive_after_transfer_rg) (simp_all add: quiet_def)
    next
      case False
      then have "\<not> splitter_guard_is_current g w'" using held_current w'(2) by blast
      then show ?thesis using drive_stale [OF w'(2,1)]
        by (simp add: drive_after_transfer_def del: rgt.simps)
    qed
  qed
  then show ?thesis using claim c(1,2) by (simp add: drive_transfer_def Let_def del: rgt.simps)
qed

lemma drive_waiting_rg:
  fixes w :: "'p relay_world"
  assumes inv: "splitter_inv relay w" and holds: "holds t g w" and active: "sp_active_job w = Some job"
    and req: "\<And>claimed (v :: 'p relay_world). splitter_req_ok relay v (req claimed)"
    and resumed: "\<And>claimed r w'. (\<And>leg. leg_progress claimed leg = leg_progress job leg) \<Longrightarrow>
      (\<And>leg. leg_plan claimed leg = leg_plan job leg) \<Longrightarrow> splitter_inv relay w' \<Longrightarrow> held t g w' \<Longrightarrow>
      rs_config (yw_st w') = rs_config (yw_st w) \<Longrightarrow>
      (holds t g w' \<Longrightarrow> turns now w' = turns now w \<and> sp_active_job w' = Some claimed) \<Longrightarrow>
      splitter_rg relay t (drive_post t g) (k claimed r w') w'"
  shows "splitter_rg relay t (drive_post t g) (drive_waiting job req k w) w"
proof (cases "claim_active_job job None w")
  case None
  then show ?thesis by (simp add: drive_waiting_def)
next
  case (Some cw)
  obtain c w1 where claim: "claim_active_job job None w = Some (c, w1)" using Some by (cases cw) simp
  obtain claimed where c: "c = Some claimed" "sp_active_job w1 = Some claimed" "splitter_inv relay w1" "quiet w w1"
    "\<And>leg. leg_progress claimed leg = leg_progress job leg" "\<And>leg. leg_plan claimed leg = leg_plan job leg"
    "turns now w1 = turns now w"
    by (rule claim_waiting_ok [OF inv active claim, where now = now]) blast
  have "splitter_rg relay t (drive_post t g) (Await w1 (req claimed) (k claimed)) w"
  proof (rule drive_await [OF holds c(4,3) req])
    fix r w'
    assume w': "splitter_inv relay w'" "held t g w'" "rs_config (yw_st w') = rs_config (yw_st w1)"
      "holds t g w' \<Longrightarrow> same_journal w1 w'"
    show "splitter_rg relay t (drive_post t g) (k claimed r w') w'"
      using c turns_same [of w1 w' now] same_journal_active [of w1 w'] w'
      by (intro resumed) (simp_all add: quiet_def)
  qed
  then show ?thesis using claim c(1) by (simp add: drive_waiting_def del: rgt.simps)
qed

text \<open>A waiting leg is the second one, and nothing of it was sent.\<close>

lemma waiting_leg:
  assumes ok: "job_ok relay ps job" and "current_leg job = Some leg"
    and waiting: "leg_waiting (gp_status (leg_progress job leg))"
  shows "leg \<notin> sent_legs ps" "leg \<noteq> DefaultLeg"
proof -
  have "leg_ok relay ps job leg" using ok by (simp add: job_ok_legs)
  then show "leg \<notin> sent_legs ps" using waiting by (simp add: leg_ok_def)
  show "leg \<noteq> DefaultLeg" using ok waiting by (auto simp: job_ok_legs)
qed

lemma waiting_turns: "leg_waiting (gp_status (leg_progress job leg)) \<Longrightarrow> 1 < leg_turns now job leg"
  by (cases "gp_status (leg_progress job leg)") (simp_all add: leg_turns_def)

lemma current_leg_status:
  assumes "\<And>leg. leg_progress claimed leg = leg_progress job leg"
  shows "current_leg claimed = current_leg job"
  using assms by (simp add: current_leg_def sj_legs)

text \<open>After a claimed wait: the guard is lost, or the job is the claimed one and its leg still waits.\<close>

lemma drive_resumed:
  assumes inv: "splitter_inv relay w" and held: "held t g w"
    and claimed: "holds t g w \<Longrightarrow> sp_active_job w = Some claimed"
    and cur: "current_leg claimed = Some leg" and waiting: "leg_waiting (gp_status (leg_progress claimed leg))"
    and go: "holds t g w \<Longrightarrow> sp_active_job w = Some claimed \<Longrightarrow> leg \<notin> sent_legs (yw_possible w) \<Longrightarrow>
      leg \<noteq> DefaultLeg \<Longrightarrow> splitter_rg relay t (drive_post t g) (f claimed) w"
  shows "splitter_rg relay t (drive_post t g)
    (if \<not> splitter_guard_is_current g w then Done w (Some Stale)
     else case active_job_if_claim_matches claimed w of None \<Rightarrow> Done w (Some Stale) | Some job \<Rightarrow> f job) w"
proof (cases "holds t g w")
  case True
  then have active: "sp_active_job w = Some claimed" using claimed by simp
  then have "job_ok relay (yw_possible w) claimed" using inv by (simp add: splitter_inv_def)
  then have "splitter_rg relay t (drive_post t g) (f claimed) w"
    using waiting_leg [OF _ cur waiting] True active by (intro go) simp_all
  then show ?thesis using True active claim_matches [of claimed w claimed] by simp
next
  case False
  then have "\<not> splitter_guard_is_current g w" using held_current held by blast
  then show ?thesis using drive_stale [OF held inv] by (simp del: rgt.simps)
qed

end
