(* ===== verification/RelaySplitterRun.thy ===== *)
theory RelaySplitterRun
  imports RelaySplitterSafety
begin

text \<open>
  The judgements of the splitter driver, of its retry timer and of the splitter stage, and what
  holds in every interleaving of them.
\<close>

section \<open>One turn and the loop\<close>

lemma drive_ready_rg:
  assumes again: "goes_on relay t g ledger now (turns now w) again"
    and inv: "splitter_inv relay w" and holds: "holds t g w"
    and ledger: "ledger = rcf_ledger_canister_id (rs_config (yw_st w))"
    and active: "sp_active_job w = Some job" and leg: "current_leg job = Some leg" "gp_status (leg_progress job leg) = LegReady"
  shows "splitter_rg relay t (drive_post t g) (drive_ready again leg job relay ledger now g w) w"
proof -
  let ?prior = "gp_attempt_started (leg_progress job leg) \<or> gp_uncertain_attempt_seen (leg_progress job leg)"
  let ?valid = "created_at_time_is_valid (lp_created_at_time_nanos (leg_plan job leg)) now"
  have ok: "job_ok relay (yw_possible w) job" using inv active by (simp add: splitter_inv_def)
  then have none: "leg \<notin> sent_legs (yw_possible w)" if "\<not> ?prior"
    using that unfolding job_ok_legs leg_ok_def by blast
  consider "?valid" | "\<not> ?valid" "?prior" | "\<not> ?valid" "\<not> ?prior" "leg = DefaultLeg"
    | "\<not> ?valid" "\<not> ?prior" "leg \<noteq> DefaultLeg" by blast
  then show ?thesis
  proof cases
    case 1
    have "splitter_rg relay t (drive_post t g) (drive_transfer again ?prior leg job relay ledger now g w) w"
      by (rule drive_transfer_rg [OF again inv holds ledger active leg 1]) blast
    then show ?thesis using 1 by (simp add: drive_ready_def Let_def del: rgt.simps)
  next
    case 2
    from drive_done [OF holds quarantine_ok(2,1) [OF inv active]] 2 show ?thesis
      by (simp add: drive_ready_def Let_def del: rgt.simps)
  next
    case 3
    from drive_done [OF holds before_spend_ok(2,1) [OF inv active leg(1) [unfolded 3(3)] none [OF 3(2), unfolded 3(3)]]] 3
    show ?thesis by (simp add: drive_ready_def Let_def del: rgt.simps)
  next
    case 4
    have "1 < leg_turns now job leg" using leg(2) 4(1) by (simp add: leg_turns_def)
    from drive_store [OF again inv active none [OF 4(2)] leg(1) 4(3) valid_fee [OF ok 4(3)] this order_refl holds
        quiet_refl ledger] 4
    show ?thesis by (simp add: drive_ready_def Let_def del: rgt.simps)
  qed
qed

lemma drive_with_balance_rg:
  assumes again: "goes_on relay t g ledger now n again" and inv: "splitter_inv relay w" and held: "held t g w"
    and claimed: "holds t g w \<Longrightarrow> turns now w \<le> n \<and> sp_active_job w = Some claimed"
    and leg: "current_leg claimed = Some leg" "leg_waiting (gp_status (leg_progress claimed leg))"
    and ledger: "ledger = rcf_ledger_canister_id (rs_config (yw_st w))"
  shows "splitter_rg relay t (drive_post t g) (drive_with_balance again leg claimed now g r w) w"
  unfolding drive_with_balance_def
proof (rule drive_resumed [OF inv held _ leg])
  show "sp_active_job w = Some claimed" if "holds t g w" using claimed that by simp
  assume holds: "holds t g w" and active: "sp_active_job w = Some claimed"
    and none: "leg \<notin> sent_legs (yw_possible w)" "leg \<noteq> DefaultLeg"
  have ok: "job_ok relay (yw_possible w) claimed" using inv active by (simp add: splitter_inv_def)
  note store = drive_store [OF again inv active none(1) leg(1) none(2) valid_fee [OF ok none(2)]
      waiting_turns [OF leg(2)] _ holds quiet_refl ledger]
  have open_leg: "leg_open (leg_progress claimed leg)"
    using ok leg(2) unfolding job_ok_legs leg_ok_def by blast
  have waits: "splitter_inv relay (sp_set_active_job (map_leg leg (\<lambda>p. p\<lparr>gp_status := WaitingForFunds b\<rparr>) claimed) w) \<and>
      quiet w (sp_set_active_job (map_leg leg (\<lambda>p. p\<lparr>gp_status := WaitingForFunds b\<rparr>) claimed) w)" for b
    using open_leg by (intro waiting_stored_ok [OF inv active none(1) leg(1) none(2)]) simp_all
  show "splitter_rg relay t (drive_post t g) (case y_client_u64 r of
      Inl error \<Rightarrow> Done w (Some Unresolved)
    | Inr balance \<Rightarrow>
        if balance < lp_gross_share_e8s (leg_plan claimed leg)
        then Done (sp_set_active_job (map_leg leg (\<lambda>p. p\<lparr>gp_status := WaitingForFunds balance\<rparr>) claimed) w) (Some Unresolved)
        else store_repinned leg now (repin_leg leg (lp_fee_e8s (leg_plan claimed leg)) now claimed) again
          (\<lambda>w res. Done w (Some res)) w) w"
  proof (cases "y_client_u64 r")
    case (Inl e)
    then show ?thesis using drive_done [OF holds quiet_refl inv] by (simp del: rgt.simps)
  next
    case (Inr b)
    show ?thesis
    proof (cases "b < lp_gross_share_e8s (leg_plan claimed leg)")
      case True
      have "splitter_rg relay t (drive_post t g) (Done (sp_set_active_job (map_leg leg
          (\<lambda>p. p\<lparr>gp_status := WaitingForFunds b\<rparr>) claimed) w) (Some Unresolved)) w"
        using waits by (intro drive_done [OF holds]) simp_all
      then show ?thesis using Inr True by (simp del: rgt.simps)
    next
      case False
      then show ?thesis using Inr store claimed holds by (simp del: rgt.simps)
    qed
  qed
qed

lemma held_fee_step:
  assumes "fee_step w w'"
  shows "held t g w' = held t g w" "holds t g w' = holds t g w"
  using assms by (auto simp: fee_step_def held_def holds_def mine_def dead_def y_now_secs_def)

lemma drive_with_fee_rg:
  assumes again: "goes_on relay t g ledger now n again" and inv: "splitter_inv relay w0" and held: "held t g w0"
    and claimed: "holds t g w0 \<Longrightarrow> turns now w0 \<le> n \<and> sp_active_job w0 = Some claimed"
    and leg: "current_leg claimed = Some leg" "leg_waiting (gp_status (leg_progress claimed leg))"
    and ledger: "ledger = rcf_ledger_canister_id (rs_config (yw_st w0))"
  shows "splitter_rg relay t (drive_post t g) (drive_with_fee again leg claimed now g r w0) w0"
proof -
  obtain fee w where fee: "resolve_icp_ledger_fee_e8s r w0 = (fee, w)" by fastforce
  then have step: "fee_step w0 w" by (rule resolve_fee_step)
  note facts = fee_step_facts [OF step]
  have inv': "splitter_inv relay w" and held': "held t g w" and same: "holds t g w = holds t g w0"
    using inv held facts(3) held_fee_step [OF step] by simp_all
  have claimed': "holds t g w \<Longrightarrow> turns now w \<le> n \<and> sp_active_job w = Some claimed"
    using claimed turns_same [OF facts(2)] same_journal_active [OF facts(2)] same by simp
  have ledger': "ledger = rcf_ledger_canister_id (rs_config (yw_st w))" using ledger facts(5) by simp
  have "splitter_rg relay t (drive_post t g)
    (if \<not> splitter_guard_is_current g w then Done w (Some Stale)
     else case active_job_if_claim_matches claimed w of None \<Rightarrow> Done w (Some Stale)
     | Some job \<Rightarrow> if lp_gross_share_e8s (leg_plan job leg) \<le> fee
         then Done (sp_set_active_job (map_leg leg (\<lambda>p. p\<lparr>gp_status := WaitingForFeasibleFee (unat fee)\<rparr>) job) w) (Some Unresolved)
         else store_repinned leg now (repin_leg leg fee now job) again (\<lambda>w res. Done w (Some res)) w) w"
  proof (rule drive_resumed [OF inv' held' _ leg])
    show "sp_active_job w = Some claimed" if "holds t g w" using claimed' that by simp
    assume holds: "holds t g w" and active: "sp_active_job w = Some claimed"
      and none: "leg \<notin> sent_legs (yw_possible w)" "leg \<noteq> DefaultLeg"
    have ok: "job_ok relay (yw_possible w) claimed" using inv' active by (simp add: splitter_inv_def)
    have open_leg: "leg_open (leg_progress claimed leg)"
      using ok leg(2) unfolding job_ok_legs leg_ok_def by blast
    have waits: "splitter_inv relay (sp_set_active_job (map_leg leg (\<lambda>p. p\<lparr>gp_status := WaitingForFeasibleFee b\<rparr>) claimed) w) \<and>
        quiet w (sp_set_active_job (map_leg leg (\<lambda>p. p\<lparr>gp_status := WaitingForFeasibleFee b\<rparr>) claimed) w)" for b
      using open_leg by (intro waiting_stored_ok [OF inv' active none(1) leg(1) none(2)]) simp_all
    show "splitter_rg relay t (drive_post t g)
      (if lp_gross_share_e8s (leg_plan claimed leg) \<le> fee
       then Done (sp_set_active_job (map_leg leg (\<lambda>p. p\<lparr>gp_status := WaitingForFeasibleFee (unat fee)\<rparr>) claimed) w) (Some Unresolved)
       else store_repinned leg now (repin_leg leg fee now claimed) again (\<lambda>w res. Done w (Some res)) w) w"
    proof (cases "lp_gross_share_e8s (leg_plan claimed leg) \<le> fee")
      case True
      have "splitter_rg relay t (drive_post t g) (Done (sp_set_active_job (map_leg leg
          (\<lambda>p. p\<lparr>gp_status := WaitingForFeasibleFee (unat fee)\<rparr>) claimed) w) (Some Unresolved)) w"
        using waits by (intro drive_done [OF holds]) simp_all
      then show ?thesis using True by (simp del: rgt.simps)
    next
      case False
      then have "fee < lp_gross_share_e8s (leg_plan claimed leg)" by (simp add: not_le)
      from drive_store [OF again inv' active none(1) leg(1) none(2) this waiting_turns [OF leg(2)] _ holds quiet_refl ledger']
        claimed' holds False show ?thesis by (simp del: rgt.simps)
    qed
  qed
  then have "splitter_rg relay t (drive_post t g) (drive_with_fee again leg claimed now g r w0) w"
    by (simp add: drive_with_fee_def fee del: rgt.simps)
  then show ?thesis using held_guar [OF held facts(1,2)] splitter_guar_trans by (rule rgt_start)
qed

lemma sp_drive_iteration_rg:
  assumes again: "goes_on relay t g ledger now (turns now w) again"
    and inv: "splitter_inv relay w" and holds: "holds t g w"
    and ledger: "ledger = rcf_ledger_canister_id (rs_config (yw_st w))"
  shows "splitter_rg relay t (drive_post t g) (drive_iteration again relay ledger now g w) w"
proof (cases "sp_active_job w")
  case None
  then show ?thesis using drive_done [OF holds quiet_refl inv] by (simp add: drive_iteration_def del: rgt.simps)
next
  case (Some job)
  have ok: "job_ok relay (yw_possible w) job" "active_plan_is_valid job"
    "sj_pinned_ledger_canister_id job = rcf_ledger_canister_id (rs_config (yw_st w))"
    using inv Some by (simp_all add: splitter_inv_def job_ok_def)
  have unfold: "drive_iteration again relay ledger now g w = (case current_leg job of
      None \<Rightarrow> Done (clear_active_job ClosedCompleted w) (Some DriveCompleted)
    | Some leg \<Rightarrow> (case gp_status (leg_progress job leg) of
        LegAccepted _ \<Rightarrow> Trap
      | WaitingForFunds _ \<Rightarrow> drive_waiting job
          (\<lambda>claimed. RqBalance ledger \<lparr>acc_owner = relay,
             acc_subaccount = Some (sl_source_subaccount (sj_plan claimed))\<rparr>)
          (\<lambda>claimed. drive_with_balance again leg claimed now g) w
      | WaitingForFeasibleFee _ \<Rightarrow> drive_waiting job (\<lambda>_. RqFee ledger)
          (\<lambda>claimed. drive_with_fee again leg claimed now g) w
      | LegReady \<Rightarrow> drive_ready again leg job relay ledger now g w))"
    using ok(2,3) Some by (simp add: drive_iteration_def)
  show ?thesis
  proof (cases "current_leg job")
    case None
    have "closed_ok relay ClosedCompleted job (yw_possible w)"
      using ok(1) None job_closed_ok [OF ok(1)] by (simp add: closed_ok_def job_ok_legs leg_ok_def current_leg_legs)
    from drive_done [OF holds clear_ok(2,1) [OF inv Some this]] clear_ok(3) [OF inv Some this] None
    show ?thesis by (simp add: unfold del: rgt.simps)
  next
    case (Some leg)
    note active = \<open>sp_active_job w = Some job\<close>
    have resumed: "current_leg claimed = Some leg \<and> leg_waiting (gp_status (leg_progress claimed leg))"
      if "\<And>l. leg_progress claimed l = leg_progress job l" "leg_waiting (gp_status (leg_progress job leg))" for claimed
      using Some current_leg_status [of claimed job] that by simp
    show ?thesis
    proof (cases "gp_status (leg_progress job leg)")
      case LegReady
      from drive_ready_rg [OF again inv holds ledger active Some LegReady] Some LegReady
      show ?thesis by (simp add: unfold del: rgt.simps)
    next
      case (WaitingForFunds b)
      have "splitter_rg relay t (drive_post t g) (drive_waiting job
          (\<lambda>claimed. RqBalance ledger \<lparr>acc_owner = relay, acc_subaccount = Some (sl_source_subaccount (sj_plan claimed))\<rparr>)
          (\<lambda>claimed. drive_with_balance again leg claimed now g) w) w"
        using resumed WaitingForFunds ledger
        by (intro drive_waiting_rg [OF inv holds active, where now = now] drive_with_balance_rg [OF again]) simp_all
      then show ?thesis using Some WaitingForFunds by (simp add: unfold del: rgt.simps)
    next
      case (WaitingForFeasibleFee b)
      have "splitter_rg relay t (drive_post t g) (drive_waiting job (\<lambda>_. RqFee ledger)
          (\<lambda>claimed. drive_with_fee again leg claimed now g) w) w"
        using resumed WaitingForFeasibleFee ledger
        by (intro drive_waiting_rg [OF inv holds active, where now = now] drive_with_fee_rg [OF again]) simp_all
      then show ?thesis using Some WaitingForFeasibleFee by (simp add: unfold del: rgt.simps)
    next
      case (LegAccepted b)
      then show ?thesis using Some by (simp add: current_leg_legs)
    qed
  qed
qed

lemma drive_rg:
  fixes w :: "'p relay_world"
  assumes "splitter_inv relay w" "holds t g w" "ledger = rcf_ledger_canister_id (rs_config (yw_st w))"
    and "turns now w < fuel"
  shows "splitter_rg relay t (drive_post t g) (drive_active_job fuel relay ledger now g w) w"
  using assms
proof (induction fuel arbitrary: w)
  case (Suc fuel)
  have "goes_on relay t g ledger now (turns now w)
      (drive_active_job fuel relay ledger now g :: 'p relay_world \<Rightarrow> 'p drive_proc)"
    unfolding goes_on_def
  proof (intro allI impI)
    fix v :: "'p relay_world"
    assume v: "splitter_inv relay v" "holds t g v" "ledger = rcf_ledger_canister_id (rs_config (yw_st v))"
      "turns now v < turns now w"
    then show "splitter_rg relay t (drive_post t g) (drive_active_job fuel relay ledger now g v) v"
      using Suc.prems(4) by (intro Suc.IH) linarith+
  qed
  then show ?case using Suc.prems(1-3) by (simp add: sp_drive_iteration_rg del: rgt.simps)
qed simp

lemma drive_fuel_rg:
  assumes "splitter_inv relay w" "holds t g w" "ledger = rcf_ledger_canister_id (rs_config (yw_st w))"
  shows "splitter_rg relay t (drive_post t g) (drive_active_job drive_fuel relay ledger now g w) w"
  using drive_rg [OF assms, of now drive_fuel] turns_le [of now w] by (simp add: drive_fuel_def)

section \<open>The retry timer\<close>

lemma y_now_secs_small: "unat (y_now_secs w) \<le> (2 ^ 64 - 1) div 1000000000"
proof -
  have "unat (yw_now w) \<le> 2 ^ 64 - 1" using unat_lt [of "yw_now w"] by simp
  then have "unat (yw_now w) div 1000000000 \<le> (2 ^ 64 - 1) div 1000000000" by (rule div_le_mono)
  then show ?thesis by (simp add: y_now_secs_def unat_div_distrib)
qed

lemma acquire_facts:
  assumes "splitter_guard_acquire t (y_now_secs w) w = Some (g, w')"
  shows "tlg_active g" "rs_splitter_lock_state_ts (yw_st w') = Some (tlg_expires g)" "yw_splitter_owner w' = Some t"
    "y_now_secs w < tlg_expires g" "rs_splitter_lock_state_ts (yw_st w) = Some e \<Longrightarrow> e \<le> y_now_secs w"
    "sp_get w' = sp_get w" "yw_possible w' = yw_possible w" "yw_closed w' = yw_closed w" "yw_now w' = yw_now w"
    "yw_ticket w' = yw_ticket w" "rs_config (yw_st w') = rs_config (yw_st w)"
proof -
  have "sat_add (y_now_secs w) splitter_lease_seconds > y_now_secs w"
    using y_now_secs_small [of w] by (simp add: word_less_nat_alt unat_sat_add splitter_lease_seconds_def)
  then show "tlg_active g" "rs_splitter_lock_state_ts (yw_st w') = Some (tlg_expires g)" "yw_splitter_owner w' = Some t"
    "y_now_secs w < tlg_expires g" "rs_splitter_lock_state_ts (yw_st w) = Some e \<Longrightarrow> e \<le> y_now_secs w"
    "sp_get w' = sp_get w" "yw_possible w' = yw_possible w" "yw_closed w' = yw_closed w" "yw_now w' = yw_now w"
    "yw_ticket w' = yw_ticket w" "rs_config (yw_st w') = rs_config (yw_st w)"
    using assms by (auto simp: splitter_guard_acquire_def tlg_acquire_def y_with_state_mut_def sp_get_def
        split: option.splits if_splits)
qed

lemma acquire_ok:
  assumes acquire: "splitter_guard_acquire t (y_now_secs w) w = Some (g, w')"
    and inv: "splitter_inv relay w" and t: "t < yw_ticket w"
  shows "splitter_inv relay w'" "holds t g w'" "splitter_guar t w w'" "same_journal w w'" "same_config w w'"
proof -
  note facts = acquire_facts [OF acquire]
  have active: "sp_active_job w' = sp_active_job w" by (simp add: sp_active_job_def facts(6))
  have secs: "y_now_secs w' = y_now_secs w" by (simp add: y_now_secs_def facts(9))
  have nz: "tlg_expires g \<noteq> 0" using facts(4) by auto
  show "splitter_inv relay w'" using inv nz by (simp add: splitter_inv_def active facts is_quarantined_def)
  show "holds t g w'" using t by (simp add: holds_def facts mine_def)
  show "same_journal w w'" by (simp add: same_journal_def facts)
  show "same_config w w'" by (simp add: facts)
  have "keeps u w w'" if "u \<noteq> t" for u
  proof -
    have "dead e w'" if "mine u e w" for e
    proof -
      have "e \<le> y_now_secs w" "e \<noteq> 0" using that facts(5) inv by (auto simp: mine_def splitter_inv_def)
      then show ?thesis using facts(2,4) by (auto simp: dead_def secs)
    qed
    moreover have "dead e w'" if "dead e w" for e using that facts(2,4) by (auto simp: dead_def secs)
    ultimately show ?thesis by (simp add: keeps_def)
  qed
  then show "splitter_guar t w w'" using t by (simp add: splitter_guar_def splitter_later_def facts)
qed

text \<open>Releasing the lease: only its holder changes the lock.\<close>

lemma drop_ok:
  assumes inv: "splitter_inv relay w" and held: "held t g w"
  shows "splitter_inv relay (splitter_guard_drop g w)" "splitter_guar t w (splitter_guard_drop g w)"
    "same_journal w (splitter_guard_drop g w)"
proof -
  let ?w = "splitter_guard_drop g w"
  have journal: "sp_get ?w = sp_get w" "yw_possible ?w = yw_possible w" "yw_closed ?w = yw_closed w"
    "yw_now ?w = yw_now w" "yw_ticket ?w = yw_ticket w" "rs_config (yw_st ?w) = rs_config (yw_st w)"
    by (simp_all add: splitter_guard_drop_def y_with_state_mut_def sp_get_def)
  have released: "(rs_splitter_lock_state_ts (yw_st ?w) = Some 0 \<and> yw_splitter_owner ?w = None \<and>
      mine t (tlg_expires g) w) \<or> ?w = w"
    using held by (auto simp: splitter_guard_drop_def y_with_state_mut_def tlg_release_def held_def mine_def dead_def Let_def)
  have active: "sp_active_job ?w = sp_active_job w" by (simp add: sp_active_job_def journal)
  show "splitter_inv relay ?w" using inv released
    by (auto simp: splitter_inv_def active journal is_quarantined_def)
  show "same_journal w ?w" by (simp add: same_journal_def journal)
  have "keeps u w ?w" if "u \<noteq> t" for u
    using released that keeps_refl [of u w] by (auto simp: keeps_def mine_def dead_def y_now_secs_def journal)
  then show "splitter_guar t w ?w" using held by (simp add: splitter_guar_def splitter_later_def journal held_def)
qed

lemma quiet_state:
  assumes "w' = w\<lparr>yw_st := st\<rparr>" "rs_config st = rs_config (yw_st w)"
    "rs_splitter_lock_state_ts st = rs_splitter_lock_state_ts (yw_st w)"
  shows "quiet w w'" "same_journal w w'" "splitter_inv relay w' = splitter_inv relay w"
  using assms by (auto simp: quiet_def splitter_later_def same_journal_def splitter_inv_def sp_active_job_def is_quarantined_def)

lemma continuation_ok:
  "quiet w (schedule_splitter_main_continuation_after w)"
  "same_journal w (schedule_splitter_main_continuation_after w)"
  "splitter_inv relay (schedule_splitter_main_continuation_after w) = splitter_inv relay w"
  using quiet_state [where w = w and w' = "schedule_splitter_main_continuation_after w"
      and st = "yw_st (schedule_splitter_main_continuation_after w)"]
  by (simp_all add: schedule_splitter_main_continuation_after_def y_with_state_mut_def)

text \<open>A handler that starts takes a ticket.\<close>

lemma ticket_ok:
  assumes "splitter_inv relay w"
  shows "splitter_inv relay (w\<lparr>yw_ticket := yw_ticket w + 1\<rparr>)"
    "splitter_guar (yw_ticket w) w (w\<lparr>yw_ticket := yw_ticket w + 1\<rparr>)"
proof -
  show "splitter_inv relay (w\<lparr>yw_ticket := yw_ticket w + 1\<rparr>)"
    using assms by (simp add: splitter_inv_def sp_active_job_def is_quarantined_def)
  have "keeps u w (w\<lparr>yw_ticket := yw_ticket w + 1\<rparr>)" for u
    by (simp add: keeps_def mine_def dead_def same_journal_def y_now_secs_def)
  then show "splitter_guar (yw_ticket w) w (w\<lparr>yw_ticket := yw_ticket w + 1\<rparr>)"
    by (simp add: splitter_guar_def splitter_later_def)
qed

lemma retry_after_drive_rg:
  assumes "splitter_inv relay w" "drive_post t g w res"
  shows "splitter_rg relay t (\<lambda>_ _. True) (retry_after_drive g w res) w"
proof -
  have held: "held t g w" using assms(2) by (simp add: drive_post_def)
  note dropped = drop_ok [OF assms(1) held]
  let ?w = "splitter_guard_drop g w"
  have "t < yw_ticket ?w" using dropped(2) by (simp add: splitter_guar_def)
  then have "splitter_guar t ?w (schedule_splitter_main_continuation_after ?w)"
    using continuation_ok(1,2) quiet_guar by blast
  then have "splitter_guar t w (schedule_splitter_main_continuation_after ?w)"
    using dropped(2) splitter_guar_trans by blast
  then show ?thesis using dropped continuation_ok(3) [of relay ?w] by (simp add: retry_after_drive_def Let_def)
qed

lemma retry_rg:
  assumes "splitter_inv relay w"
  shows "splitter_rg relay (yw_ticket w) (\<lambda>_ _. True) (retry_active_splitter relay w) w"
proof -
  let ?t = "yw_ticket w" and ?w = "w\<lparr>yw_ticket := yw_ticket w + 1\<rparr>"
  note ticket = ticket_ok [OF assms]
  have "splitter_rg relay ?t (\<lambda>_ _. True)
    (if sp_active_job ?w = None then Done ?w ()
     else case splitter_guard_acquire ?t (y_now_secs ?w) ?w of None \<Rightarrow> Done ?w ()
     | Some (guard, w1) \<Rightarrow> pbind (drive_active_job drive_fuel relay
         (rcf_ledger_canister_id (rs_config (yw_st ?w))) (yw_now ?w) guard w1) (retry_after_drive guard)) w"
  proof (cases "sp_active_job ?w = None \<or> splitter_guard_acquire ?t (y_now_secs ?w) ?w = None")
    case True
    then show ?thesis using ticket by auto
  next
    case False
    then obtain g w1 where acquire: "splitter_guard_acquire ?t (y_now_secs ?w) ?w = Some (g, w1)" by auto
    note acquired = acquire_ok [OF acquire ticket(1)]
    have "splitter_rg relay ?t (drive_post ?t g) (drive_active_job drive_fuel relay
        (rcf_ledger_canister_id (rs_config (yw_st ?w))) (yw_now ?w) g w1) w1"
      using acquired by (intro drive_fuel_rg) simp_all
    then have "splitter_rg relay ?t (\<lambda>_ _. True) (pbind (drive_active_job drive_fuel relay
        (rcf_ledger_canister_id (rs_config (yw_st ?w))) (yw_now ?w) g w1) (retry_after_drive g)) w1"
      by (rule rgt_bind) (auto intro: retry_after_drive_rg splitter_guar_trans)
    moreover have "splitter_guar ?t w w1" using ticket(2) acquired(3) splitter_guar_trans by fastforce
    ultimately have "splitter_rg relay ?t (\<lambda>_ _. True) (pbind (drive_active_job drive_fuel relay
        (rcf_ledger_canister_id (rs_config (yw_st ?w))) (yw_now ?w) g w1) (retry_after_drive g)) w"
      using splitter_guar_trans by (rule rgt_start)
    moreover have "sp_active_job ?w \<noteq> None" using False by simp
    ultimately show ?thesis by (simp only: acquire option.case prod.case if_False)
  qed
  then show ?thesis unfolding retry_active_splitter_def Let_def .
qed

end
