(* ===== verification/RelayLifecycle.thy ===== *)
theory RelayLifecycle
  imports RelaySplitter
begin

text \<open>
  Installation, upgrade and the poke guard of the Relay (\<open>src/canisters/relay/src/lib.rs\<close>).  An upgrade
  rebuilds the heap state from its arguments; only the splitter journal survives.
\<close>

record surplus_canister_recipient =
  sc_canister_id :: principal
  sc_memo :: bytes

record surplus_neuron_recipient =
  sx_neuron_id :: u64
  sx_memo :: bytes

record relay_init_args =
  ra_managed_canisters :: "principal list"
  ra_ledger_canister_id :: "principal option"
  ra_cmc_canister_id :: "principal option"
  ra_governance_canister_id :: "principal option"
  ra_blackhole_canister_id :: "principal option"
  ra_sns_rewards_canister_id :: "principal option"
  ra_icp_index_canister_id :: "principal option"
  ra_main_interval_seconds :: "u64 option"
  ra_max_transfers_per_tick :: "u32 option"
  ra_surplus_canister_recipients :: "surplus_canister_recipient list option"
  ra_surplus_neuron_recipients :: "surplus_neuron_recipient list"

definition jupiter_sns_rewards_id :: "candid_ops \<Rightarrow> principal option" where
  "jupiter_sns_rewards_id cx = principal_from_text cx (ascii ''alk7f-5aaaa-aaaar-qb4ra-cai'')"

definition validate_public_canister_target :: "candid_ops \<Rightarrow> principal \<Rightarrow> bool" where
  "validate_public_canister_target cx canister_id \<longleftrightarrow>
     canister_id \<noteq> principal_anonymous cx \<and> canister_id \<noteq> principal_management cx"

definition public_memo_to_internal :: "bytes \<Rightarrow> bytes option" where
  "public_memo_to_internal memo = (if memo = [] then None else Some memo)"

definition surplus_canister_recipient_from_public ::
  "candid_ops \<Rightarrow> surplus_canister_recipient \<Rightarrow> surplus_recipient option" where
  "surplus_canister_recipient_from_public cx recipient =
     (if validate_public_canister_target cx (sc_canister_id recipient)
      then Some \<lparr>sp_target = SurplusCanister (sc_canister_id recipient),
        sp_memo = public_memo_to_internal (sc_memo recipient)\<rparr>
      else None)"

definition surplus_neuron_recipient_from_public :: "surplus_neuron_recipient \<Rightarrow> surplus_recipient" where
  "surplus_neuron_recipient_from_public recipient =
     \<lparr>sp_target = SurplusNeuron (sx_neuron_id recipient), sp_memo = public_memo_to_internal (sx_memo recipient)\<rparr>"

fun canister_recipients_from_public ::
  "candid_ops \<Rightarrow> surplus_canister_recipient list \<Rightarrow> surplus_recipient list option" where
  "canister_recipients_from_public cx [] = Some []"
| "canister_recipients_from_public cx (r # rs) = (case surplus_canister_recipient_from_public cx r of
       None \<Rightarrow> None | Some x \<Rightarrow> map_option ((#) x) (canister_recipients_from_public cx rs))"

definition public_surplus_recipients_from_args :: "candid_ops \<Rightarrow> surplus_canister_recipient list option
    \<Rightarrow> surplus_neuron_recipient list \<Rightarrow> surplus_recipient list option" where
  "public_surplus_recipients_from_args cx canister_recipients neuron_recipients = map_option
     (\<lambda>recipients. recipients @ map surplus_neuron_recipient_from_public neuron_recipients)
     (canister_recipients_from_public cx (case canister_recipients of None \<Rightarrow> [] | Some rs \<Rightarrow> rs))"

text \<open>A missing argument is replaced by the mainnet principal; \<open>None\<close> is a panic.\<close>

definition or_mainnet :: "principal option \<Rightarrow> principal option \<Rightarrow> principal option" where
  "or_mainnet arg mainnet = (case arg of None \<Rightarrow> mainnet | Some p \<Rightarrow> Some p)"

definition relay_config_from_init_args :: "candid_ops \<Rightarrow> relay_init_args \<Rightarrow> rconfig option" where
  "relay_config_from_init_args cx args =
     (case (or_mainnet (ra_ledger_canister_id args) (icp_ledger_id cx),
            or_mainnet (ra_cmc_canister_id args) (cycles_minting_canister_id cx),
            or_mainnet (ra_governance_canister_id args) (nns_governance_id cx),
            or_mainnet (ra_sns_rewards_canister_id args) (jupiter_sns_rewards_id cx),
            or_mainnet (ra_icp_index_canister_id args) (icp_index_id cx),
            public_surplus_recipients_from_args cx (ra_surplus_canister_recipients args)
              (ra_surplus_neuron_recipients args)) of
        (Some ledger, Some cmc, Some governance, Some sns_rewards, Some icp_index, Some recipients) \<Rightarrow> Some
          \<lparr>rcf_managed_canisters = ra_managed_canisters args, rcf_ledger_canister_id = ledger,
           rcf_cmc_canister_id = cmc, rcf_governance_canister_id = governance,
           rcf_sns_rewards_canister_id = sns_rewards, rcf_icp_index_canister_id = icp_index,
           rcf_cycles_probe_policy = (case ra_blackhole_canister_id args of
             Some canister_id \<Rightarrow> ProbeFixedBlackhole canister_id | None \<Rightarrow> ProbeAuto),
           rcf_main_interval_seconds =
             max (case ra_main_interval_seconds args of None \<Rightarrow> 24 * 60 * 60 | Some s \<Rightarrow> s) 60,
           rcf_max_transfers_per_tick = ra_max_transfers_per_tick args,
           rcf_surplus_recipients = recipients\<rparr>
      | _ \<Rightarrow> None)"

text \<open>\<open>None\<close> is the panic on an invalid configuration or a journal of another ledger.\<close>

definition relay_initialize_from_config :: "candid_ops \<Rightarrow> rconfig \<Rightarrow> 'p relay_world \<Rightarrow> 'p relay_world option" where
  "relay_initialize_from_config cx cfg w = (case rvalidate_config cx cfg of
       Inl _ \<Rightarrow> None
     | Inr _ \<Rightarrow>
         let w1 = sp_initialize_if_uninitialized w in
         if \<not> validate_active_ledger (rcf_ledger_canister_id cfg) w1 then None
         else Some (w1\<lparr>yw_st := rstate_new cfg (y_now_secs w), yw_main_owner := None,
           yw_splitter_owner := None, yw_staged := [], yw_job_sent := [], yw_retry_pending := False, yw_poke := poke_runtime_init\<rparr>))"

definition relay_initialize_from_args :: "candid_ops \<Rightarrow> relay_init_args \<Rightarrow> 'p relay_world \<Rightarrow> 'p relay_world option" where
  "relay_initialize_from_args cx args w =
     Option.bind (relay_config_from_init_args cx args) (\<lambda>cfg. relay_initialize_from_config cx cfg w)"

text \<open>A canister that has just been installed; the state is set by \<open>init\<close>.\<close>

definition relay_blank :: "u64 \<Rightarrow> 'p rstate \<Rightarrow> 'p relay_world" where
  "relay_blank now st = \<lparr>yw_now = now, yw_st = st, yw_splitter = None, yw_ticket = 0,
     yw_main_owner = None, yw_splitter_owner = None, yw_possible = [], yw_closed = [],
     yw_staged = [], yw_job_sent = [], yw_retry_pending = False, yw_poke = poke_runtime_init\<rparr>"

definition relay_init :: "candid_ops \<Rightarrow> u64 \<Rightarrow> relay_init_args \<Rightarrow> 'p relay_world option" where
  "relay_init cx now args = Option.bind (relay_config_from_init_args cx args)
     (\<lambda>cfg. relay_initialize_from_config cx cfg (relay_blank now (rstate_new cfg 0)))"

definition relay_post_upgrade :: "candid_ops \<Rightarrow> relay_init_args \<Rightarrow> 'p relay_world \<Rightarrow> 'p relay_world option" where
  "relay_post_upgrade cx args w = relay_initialize_from_args cx args w"

section \<open>Pokes\<close>

definition relay_event_horizon_whitelist :: "bytes list" where
  "relay_event_horizon_whitelist = [[0, 0, 0, 0, 2, 48, 17, 226, 1, 1]]"

definition relay_funding_subaccounts :: "u64 list" where
  "relay_funding_subaccounts = [0, 1, 10, 20, 30, 40, 50, 60, 70, 80, 90]"

definition relay_caller_is_whitelisted :: "principal \<Rightarrow> bool" where
  "relay_caller_is_whitelisted caller = list_ex (\<lambda>allowed. caller = allowed) relay_event_horizon_whitelist"

definition relay_has_relevant_match :: "poke_match list \<Rightarrow> principal \<Rightarrow> bool" where
  "relay_has_relevant_match matches subject = list_ex (\<lambda>item. pm_subject item = subject \<and>
     (case pm_target item of PokeSubaccount i \<Rightarrow> i \<in> set relay_funding_subaccounts
      | PokeNeuronNonce _ \<Rightarrow> False)) matches"

end
