(* ===== verification/RelaySplitterStage.thy ===== *)
theory RelaySplitterStage
  imports RelaySplitterRun RelayLifecycle
begin

text \<open>
  The splitter stage of the main tick under the lease, and the interpretation of \<open>rg_threads\<close> on
  the handlers that work on the splitter journal.
\<close>

section \<open>A new job\<close>

lemma valid_active_plan:
  assumes "splitter_plan_valid plan"
  shows "active_plan_is_valid (splitter_job_new pinned plan)"
proof -
  let ?d = "sl_default_leg plan" and ?s = "sl_subaccount_one_leg plan"
  have plan: "splitter_percentage (sl_splitter_number plan) = Some (sl_splitter_number plan)"
    using assms by (simp add: splitter_plan_valid_def splitter_percentage_Some Let_def)
  have n: "unat (ucast (sl_splitter_number plan) :: u128) = unat (sl_splitter_number plan)"
    using unat_lt [of "sl_splitter_number plan"] by (simp add: unsigned_ucast_eq take_bit_nat_eq_self)
  have "unat (as_u128 (sl_balance_start_e8s plan) * ucast (sl_splitter_number plan)) =
      unat (sl_balance_start_e8s plan) * unat (sl_splitter_number plan)"
  proof -
    have "unat (sl_balance_start_e8s plan) * unat (sl_splitter_number plan) < 2 ^ 64 * 2 ^ 8"
      using unat_lt [of "sl_balance_start_e8s plan"] unat_lt [of "sl_splitter_number plan"]
      by (intro mult_strict_mono) simp_all
    then show ?thesis by (simp add: unat_word_ariths n)
  qed
  then have "as_u128 (lp_gross_share_e8s ?d) = as_u128 (sl_balance_start_e8s plan) * ucast (sl_splitter_number plan) div 100"
    using assms by (simp add: word_unat_eq_iff unat_div_distrib splitter_plan_valid_def Let_def)
  moreover have "unat (lp_created_at_time_nanos ?d) \<noteq> unat (lp_created_at_time_nanos ?s)"
    using assms by (simp add: splitter_plan_valid_def Let_def)
  moreover have "0 < unat (lp_amount_e8s ?d)" "0 < unat (lp_amount_e8s ?s)"
    using assms by (auto simp: splitter_plan_valid_def Let_def unat_gt_0 word_gt_0)
  ultimately show ?thesis using assms plan
    by (auto simp: active_plan_is_valid_def splitter_job_new_def splitter_plan_valid_def Let_def
      checked_add_Some word_less_nat_alt)
qed

lemma new_job_ok:
  assumes "build_splitter_plan n balance fee now = Inr plan"
  shows "job_ok relay [] (splitter_job_new pinned plan)" "sl_splitter_number plan = n"
proof -
  have valid: "splitter_plan_valid plan" and number: "sl_splitter_number plan = n"
    using build_splitter_plan_valid [OF assms] by simp_all
  show "sl_splitter_number plan = n" by (rule number)
  have "leg_ok relay [] (splitter_job_new pinned plan) leg" for leg
    by (cases leg) (simp_all add: leg_ok_def leg_progress_def splitter_job_new_def leg_progress_default_def)
  then show "job_ok relay [] (splitter_job_new pinned plan)"
    using valid valid_active_plan [OF valid]
    by (simp add: job_ok_legs leg_plan_def leg_progress_def splitter_job_new_def leg_progress_default_def
      splitter_plan_valid_def Let_def word_less_nat_alt)
qed

lemma install_job_ok:
  assumes inv: "splitter_inv relay w" and idle: "sp_active_job w = None" and free: "\<not> is_quarantined n w"
    and plan: "build_splitter_plan n balance fee now = Inr plan"
    and pinned: "pinned = rcf_ledger_canister_id (rs_config (yw_st w))"
  shows "splitter_inv relay (sp_set_active_job (splitter_job_new pinned plan) w)"
    "quiet w (sp_set_active_job (splitter_job_new pinned plan) w)"
proof -
  have "yw_possible w = []" using inv idle by (simp add: splitter_inv_def)
  then show "splitter_inv relay (sp_set_active_job (splitter_job_new pinned plan) w)"
    using inv new_job_ok(1) [OF plan, of relay pinned] new_job_ok(2) [OF plan] free pinned
    by (auto simp: splitter_inv_def is_quarantined_def splitter_job_new_def)
  show "quiet w (sp_set_active_job (splitter_job_new pinned plan) w)"
    by (rule quiet_journal [where new = "[]"]) simp_all
qed

section \<open>The stage\<close>

text \<open>Between jobs: no job is active while the guard is held.\<close>

definition idle :: "nat \<Rightarrow> timer_lease_guard \<Rightarrow> 'p relay_world \<Rightarrow> bool" where
  "idle t g w \<longleftrightarrow> held t g w \<and> (holds t g w \<longrightarrow> sp_active_job w = None)"

lemma idle_rely:
  assumes "idle t g w" "splitter_rely t w w'"
  shows "idle t g w'" "holds t g w' \<Longrightarrow> same_journal w w'"
proof -
  have held: "held t g w" "held t g w'" using assms held_rely by (auto simp: idle_def)
  have same: "same_journal w w'" if "holds t g w'"
  proof -
    have "holds t g w"
    proof (rule ccontr)
      assume "\<not> holds t g w"
      then have "dead (tlg_expires g) w" using held(1) by (auto simp: held_def holds_def)
      then have "dead (tlg_expires g) w'" using assms(2) by (simp add: splitter_rely_def keeps_def)
      then show False using that by (simp add: holds_def mine_def dead_def)
    qed
    then show ?thesis using holds_rely(2) assms(2) that by blast
  qed
  then show "holds t g w' \<Longrightarrow> same_journal w w'" .
  have "sp_active_job w' = None" if "holds t g w'"
  proof -
    have "holds t g w" using that held assms(2)
      by (auto simp: held_def holds_def splitter_rely_def keeps_def mine_def dead_def)
    then show ?thesis using assms(1) same_journal_active [OF same [OF that]] by (simp add: idle_def)
  qed
  then show "idle t g w'" using held by (simp add: idle_def)
qed

lemma idle_await:
  assumes idle: "idle t g w" and inv: "splitter_inv relay w" and req: "splitter_req_ok relay w q"
    and resumed: "\<And>r w'. splitter_inv relay w' \<Longrightarrow> idle t g w' \<Longrightarrow>
      rs_config (yw_st w') = rs_config (yw_st w) \<Longrightarrow> (holds t g w' \<Longrightarrow> same_journal w w') \<Longrightarrow>
      splitter_rg relay t Q (k r w') w'"
  shows "splitter_rg relay t Q (Await w q k) w"
proof -
  have "splitter_rg relay t Q (k r w') w'" if "splitter_inv relay w'" "splitter_rely t w w'" for r w'
    using that idle_rely [OF idle that(2)] by (intro resumed) (auto simp: splitter_rely_def)
  moreover have "splitter_guar t w w"
    using idle held_guar [OF _ quiet_refl same_journal_refl, of t g w] by (simp add: idle_def)
  ultimately show ?thesis using inv req by simp
qed

lemma stage_return_rg:
  assumes "splitter_inv relay w" "held t g w"
  shows "splitter_rg relay t (\<lambda>_ _. True) (stage_return g res w) w"
  using drop_ok [OF assms] by (simp add: stage_return_def)

lemma stage_after_drive_rg:
  assumes inv: "splitter_inv relay w" and post: "drive_post t g w res"
    and config: "rs_config (yw_st w) = cfg"
    and cont: "\<And>w. splitter_inv relay w \<Longrightarrow> idle t g w \<Longrightarrow> rs_config (yw_st w) = cfg \<Longrightarrow>
      splitter_rg relay t (\<lambda>_ _. True) (next w) w"
  shows "splitter_rg relay t (\<lambda>_ _. True) (stage_after_drive next g w res) w"
proof -
  have held: "held t g w" using post by (simp add: drive_post_def)
  show ?thesis
  proof (cases "res = Some DriveCompleted")
    case True
    then have "idle t g w" using post by (simp add: drive_post_def idle_def)
    from cont [OF inv this config] True show ?thesis by (simp add: stage_after_drive_def)
  next
    case False
    then show ?thesis using stage_return_rg [OF inv held]
      by (auto simp: stage_after_drive_def simp del: rgt.simps split: option.split drive_result.split)
  qed
qed

text \<open>A handler keeps its configuration.\<close>

lemma rgt_config:
  assumes "splitter_rg relay t Q p w0" "rs_config (yw_st w0) = cfg"
  shows "splitter_rg relay t (\<lambda>w a. Q w a \<and> rs_config (yw_st w) = cfg) p w0"
  using assms
proof (induction p arbitrary: w0)
  case (Done w a)
  then show ?case by (simp add: splitter_guar_def)
next
  case (Await w q k)
  then have "rs_config (yw_st w) = cfg" by (simp add: splitter_guar_def)
  have "splitter_rg relay t (\<lambda>w a. Q w a \<and> rs_config (yw_st w) = cfg) (k r w') w'"
    if "splitter_inv relay w'" "splitter_rely t w w'" for r w'
  proof (rule Await.IH [OF rangeI rangeI])
    show "splitter_rg relay t Q (k r w') w'" using Await.prems(1) that by simp
    show "rs_config (yw_st w') = cfg" using that(2) \<open>rs_config (yw_st w) = cfg\<close> by (simp add: splitter_rely_def)
  qed
  then show ?case using Await.prems(1) by simp
qed simp

lemma stage_splitters_rg:
  fixes w :: "'p relay_world"
  assumes "splitter_inv relay w" "idle t g w" "ledger = rcf_ledger_canister_id cfg" "rs_config (yw_st w) = cfg"
    "set numbers \<subseteq> set splitter_percentages"
  shows "splitter_rg relay t (\<lambda>_ _. True)
    (stage_splitters relay ledger ledger fee now g resumed numbers w) w"
  using assms
proof (induction numbers arbitrary: w)
  case Nil
  then show ?case by (simp add: stage_return_rg idle_def del: rgt.simps)
next
  case (Cons number numbers)
  note loop = Cons.IH [OF _ _ Cons.prems(3) _]
  have sub: "set numbers \<subseteq> set splitter_percentages" using Cons.prems(5) by simp
  show ?case
  proof (cases "resumed = Some number \<or> is_quarantined number w")
    case True
    then show ?thesis using loop [OF Cons.prems(1,2,4) sub] by (simp del: rgt.simps)
  next
    case False
    obtain source where source: "splitter_source_account relay number = Some source"
      using Cons.prems(5) by (simp add: splitter_source_account_def splitter_percentage_Some)
    let ?next = "stage_splitters relay ledger ledger fee now g resumed numbers"
    let ?k = "\<lambda>r w. case y_client_u64 r of
        Inl error \<Rightarrow> ?next w
      | Inr balance_e8s \<Rightarrow>
          if \<not> splitter_guard_is_current g w then stage_return g StageGuardBusy w
          else case build_splitter_plan number balance_e8s fee now of
            Inl reason \<Rightarrow> ?next w
          | Inr plan \<Rightarrow> pbind (drive_active_job drive_fuel relay ledger now g
                (sp_set_active_job (splitter_job_new ledger plan) w)) (stage_after_drive ?next g)"
    have "splitter_rg relay t (\<lambda>_ _. True) (Await w (RqBalance ledger source) ?k) w"
    proof (rule idle_await [OF Cons.prems(2,1)])
      fix r w'
      assume w': "splitter_inv relay w'" "idle t g w'" "rs_config (yw_st w') = rs_config (yw_st w)"
        "holds t g w' \<Longrightarrow> same_journal w w'"
      have cfg: "rs_config (yw_st w') = cfg" using w'(3) Cons.prems(4) by simp
      note next_ok = loop [OF w'(1,2) cfg sub]
      show "splitter_rg relay t (\<lambda>_ _. True) (?k r w') w'"
      proof (cases "y_client_u64 r")
        case (Inl e)
        then show ?thesis using next_ok by (simp del: rgt.simps)
      next
        case (Inr balance)
        have held: "held t g w'" using w'(2) by (simp add: idle_def)
        show ?thesis
        proof (cases "holds t g w'")
          case False
          then have "\<not> splitter_guard_is_current g w'" using held_current held by blast
          then show ?thesis using Inr stage_return_rg [OF w'(1) held] by (simp del: rgt.simps)
        next
          case True
          show ?thesis
          proof (cases "build_splitter_plan number balance fee now")
            case (Inl e)
            then show ?thesis using Inr True next_ok by (simp del: rgt.simps)
          next
            case plan: (Inr plan)
            let ?w = "sp_set_active_job (splitter_job_new ledger plan) w'"
            have free: "\<not> is_quarantined number w'" "sp_active_job w' = None"
              using False w'(2,4) True by (auto simp: is_quarantined_def same_journal_def idle_def)
            have pinned: "ledger = rcf_ledger_canister_id (rs_config (yw_st w'))" using cfg Cons.prems(3) by simp
            note new = install_job_ok [OF w'(1) free(2,1) plan pinned]
            have "splitter_rg relay t (drive_post t g) (drive_active_job drive_fuel relay ledger now g ?w) ?w"
              using new quiet_holds(1) [OF new(2) True] pinned by (intro drive_fuel_rg) simp_all
            then have "splitter_rg relay t (\<lambda>w a. drive_post t g w a \<and> rs_config (yw_st w) = cfg)
                (drive_active_job drive_fuel relay ledger now g ?w) ?w"
              using cfg by (intro rgt_config) simp_all
            then have "splitter_rg relay t (\<lambda>_ _. True)
                (pbind (drive_active_job drive_fuel relay ledger now g ?w) (stage_after_drive ?next g)) ?w"
            proof (rule rgt_bind)
              fix v :: "'p relay_world" and a
              assume v: "splitter_inv relay v" "drive_post t g v a \<and> rs_config (yw_st v) = cfg"
              show "splitter_rg relay t (\<lambda>_ _. True) (stage_after_drive ?next g v a) v"
                by (rule stage_after_drive_rg [OF v(1) conjunct1 [OF v(2)] conjunct2 [OF v(2)]]) (rule loop [OF _ _ _ sub])
            qed (auto intro: splitter_guar_trans)
            moreover have "splitter_guar t w' ?w" using holds_guar [OF True new(2)] .
            ultimately have "splitter_rg relay t (\<lambda>_ _. True)
                (pbind (drive_active_job drive_fuel relay ledger now g ?w) (stage_after_drive ?next g)) w'"
              using splitter_guar_trans by (rule rgt_start)
            then show ?thesis using Inr True plan by (simp del: rgt.simps)
          qed
        qed
      qed
    qed simp
    then show ?thesis using False source by (simp del: rgt.simps)
  qed
qed

lemma stage_fee_rg:
  fixes w :: "'p relay_world"
  assumes inv: "splitter_inv relay w" and idle: "idle t g w" and cfg: "rs_config (yw_st w) = cfg"
    and ledger: "ledger = rcf_ledger_canister_id cfg"
  shows "splitter_rg relay t (\<lambda>_ _. True) (stage_fee relay ledger now g resumed w) w"
  unfolding stage_fee_def
proof (rule idle_await [OF idle inv])
  fix r and w' :: "'p relay_world"
  assume w': "splitter_inv relay w'" "idle t g w'" "rs_config (yw_st w') = rs_config (yw_st w)"
    "holds t g w' \<Longrightarrow> same_journal w w'"
  obtain fee v where fee: "resolve_icp_ledger_fee_e8s r w' = (fee, v)" by fastforce
  then have step: "fee_step w' v" by (rule resolve_fee_step)
  note facts = fee_step_facts [OF step]
  have held: "held t g w'" using w'(2) by (simp add: idle_def)
  have v: "splitter_inv relay v" "held t g v" "idle t g v" "rs_config (yw_st v) = cfg"
    using w' cfg facts(3,5) held_fee_step [OF step] same_journal_active [OF facts(2)] by (simp_all add: idle_def)
  have "splitter_rg relay t (\<lambda>_ _. True)
    (if \<not> splitter_guard_is_current g v then stage_return g StageGuardBusy v
     else stage_splitters relay ledger (rcf_ledger_canister_id (rs_config (yw_st v))) fee now g resumed
       splitter_percentages v) v"
    using stage_return_rg [OF v(1,2)] stage_splitters_rg [OF v(1,3) ledger v(4) order_refl] v(4) ledger
    by (simp del: rgt.simps)
  then have "splitter_rg relay t (\<lambda>_ _. True) (stage_with_fee relay ledger now g resumed r w') v"
    by (simp add: stage_with_fee_def fee del: rgt.simps)
  then show "splitter_rg relay t (\<lambda>_ _. True) (stage_with_fee relay ledger now g resumed r w') w'"
    using held_guar [OF held facts(1,2)] splitter_guar_trans by (rule rgt_start)
qed simp

text \<open>The whole stage, for a handler that has its ticket; it runs at the time of its world.\<close>

lemma main_stage_rg:
  fixes w :: "'p relay_world"
  assumes inv: "splitter_inv relay w" and t: "t < yw_ticket w" and cfg: "rs_config (yw_st w) = cfg"
    and ledger: "ledger = rcf_ledger_canister_id cfg"
  shows "splitter_rg relay t (\<lambda>_ _. True) (process_main_stage t (yw_now w) relay ledger w) w"
proof (cases "splitter_guard_acquire t (y_now_secs w) w")
  case None
  have "splitter_guar t w w" using quiet_guar [OF quiet_refl t] by simp
  then show ?thesis using None inv by (simp add: process_main_stage_def y_now_secs_def)
next
  case (Some gw)
  then obtain g w1 where acquire: "splitter_guard_acquire t (y_now_secs w) w = Some (g, w1)" by (cases gw) simp
  note acquired = acquire_ok [OF acquire inv t]
  have cfg1: "rs_config (yw_st w1) = cfg" using acquired(5) cfg by simp
  have "splitter_rg relay t (\<lambda>_ _. True) (case sp_active_job w1 of
      None \<Rightarrow> stage_fee relay ledger (yw_now w) g None w1
    | Some active \<Rightarrow> pbind (drive_active_job drive_fuel relay ledger (yw_now w) g w1)
        (stage_after_drive (stage_fee relay ledger (yw_now w) g (Some (sl_splitter_number (sj_plan active)))) g)) w1"
  proof (cases "sp_active_job w1")
    case None
    then have "idle t g w1" using acquired(2) holds_held by (simp add: idle_def)
    from stage_fee_rg [OF acquired(1) this cfg1 ledger] None show ?thesis by (simp del: rgt.simps)
  next
    case (Some active)
    let ?next = "stage_fee relay ledger (yw_now w) g (Some (sl_splitter_number (sj_plan active)))"
    have "splitter_rg relay t (drive_post t g) (drive_active_job drive_fuel relay ledger (yw_now w) g w1) w1"
      using acquired cfg1 ledger by (intro drive_fuel_rg) simp_all
    then have "splitter_rg relay t (\<lambda>w a. drive_post t g w a \<and> rs_config (yw_st w) = cfg)
        (drive_active_job drive_fuel relay ledger (yw_now w) g w1) w1"
      using cfg1 by (rule rgt_config)
    then have "splitter_rg relay t (\<lambda>_ _. True)
        (pbind (drive_active_job drive_fuel relay ledger (yw_now w) g w1) (stage_after_drive ?next g)) w1"
    proof (rule rgt_bind)
      fix v :: "'p relay_world" and a
      assume v: "splitter_inv relay v" "drive_post t g v a \<and> rs_config (yw_st v) = cfg"
      show "splitter_rg relay t (\<lambda>_ _. True) (stage_after_drive ?next g v a) v"
        by (rule stage_after_drive_rg [OF v(1) conjunct1 [OF v(2)] conjunct2 [OF v(2)]])
          (rule stage_fee_rg [OF _ _ _ ledger])
    qed (auto intro: splitter_guar_trans)
    then show ?thesis using Some by (simp del: rgt.simps)
  qed
  then have "splitter_rg relay t (\<lambda>_ _. True) (process_main_stage t (yw_now w) relay ledger w) w1"
    using acquire by (simp add: process_main_stage_def y_now_secs_def del: rgt.simps)
  then show ?thesis using acquired(3) splitter_guar_trans by (rule rgt_start)
qed

end
