(* ===== verification/RelaySplitterSystem.thy ===== *)
theory RelaySplitterSystem
  imports RelaySplitterStage
begin

text \<open>
  The splitter handlers of the Relay in every interleaving with each other, with the rest of the
  canister and with upgrades.
\<close>

section \<open>The system\<close>

text \<open>The splitter stage of a main tick or of a poke; nothing is awaited before it.\<close>

definition splitter_stage :: "principal \<Rightarrow> 'p relay_world \<Rightarrow> ('p, unit) relay_proc" where
  "splitter_stage relay_id w0 =
     (let handler = yw_ticket w0; w = w0\<lparr>yw_ticket := handler + 1\<rparr> in
      pbind (process_main_stage handler (yw_now w) relay_id (rcf_ledger_canister_id (rs_config (yw_st w))) w)
        (\<lambda>w _. Done w ()))"

text \<open>The rest of the canister, and the passing of time: whatever it does to the heap state, it leaves the
  configuration, the splitter lease and the journal alone.\<close>

definition relay_elsewhere :: "u64 \<Rightarrow> ('p rstate \<Rightarrow> 'p rstate) \<Rightarrow> 'p relay_world \<Rightarrow> ('p, unit) relay_proc" where
  "relay_elsewhere now f w = Done (w\<lparr>yw_now := max (yw_now w) now, yw_ticket := yw_ticket w + 1,
     yw_st := (f (yw_st w))\<lparr>rs_config := rs_config (yw_st w),
       rs_splitter_lock_state_ts := rs_splitter_lock_state_ts (yw_st w)\<rparr>\<rparr>) ()"

definition splitter_handlers :: "principal \<Rightarrow> ('p relay_world \<Rightarrow> ('p, unit) relay_proc) set" where
  "splitter_handlers relay = {retry_active_splitter relay, splitter_stage relay} \<union>
     {relay_elsewhere now f | now f. True}"

definition relay_installed :: "candid_ops \<Rightarrow> 'p relay_world \<Rightarrow> bool" where
  "relay_installed cx w \<longleftrightarrow> (\<exists>now args. relay_init cx now args = Some w)"

definition relay_upgrades :: "candid_ops \<Rightarrow> ('p relay_world \<Rightarrow> 'p relay_world option) set" where
  "relay_upgrades cx = {relay_post_upgrade cx args | args. True}"

abbreviation splitter_reach :: "candid_ops \<Rightarrow> principal \<Rightarrow> 'p relay_world \<Rightarrow>
    ('p, unit) relay_proc list \<Rightarrow> ('p relay_world \<times> relay_req) list \<Rightarrow> bool" where
  "splitter_reach cx relay \<equiv> reach (relay_installed cx) (splitter_handlers relay) (relay_upgrades cx)"

section \<open>The judgements of the handlers\<close>

lemma stage_rg:
  fixes w :: "'p relay_world"
  assumes "splitter_inv relay w"
  shows "splitter_rg relay (yw_ticket w) (\<lambda>_ _. True) (splitter_stage relay w) w"
proof -
  let ?t = "yw_ticket w" and ?w = "w\<lparr>yw_ticket := yw_ticket w + 1\<rparr>"
  note ticket = ticket_ok [OF assms]
  have "splitter_rg relay ?t (\<lambda>_ _. True)
      (process_main_stage ?t (yw_now ?w) relay (rcf_ledger_canister_id (rs_config (yw_st ?w))) ?w) ?w"
    by (rule main_stage_rg [OF ticket(1) _ refl refl]) simp
  then have "splitter_rg relay ?t (\<lambda>_ _. True)
      (process_main_stage ?t (yw_now ?w) relay (rcf_ledger_canister_id (rs_config (yw_st ?w))) ?w) w"
    using ticket(2) splitter_guar_trans by (rule rgt_start)
  then have "splitter_rg relay ?t (\<lambda>_ _. True) (pbind
      (process_main_stage ?t (yw_now ?w) relay (rcf_ledger_canister_id (rs_config (yw_st ?w))) ?w)
      (\<lambda>w _. Done w ())) w"
    by (rule rgt_unit)
  then show ?thesis unfolding splitter_stage_def Let_def .
qed

lemma elsewhere_rg:
  fixes w :: "'p relay_world"
  assumes "splitter_inv relay w"
  shows "splitter_rg relay (yw_ticket w) (\<lambda>_ _. True) (relay_elsewhere now f w) w"
proof -
  obtain w' where w': "relay_elsewhere now f w = Done w' ()" by (simp add: relay_elsewhere_def)
  then have facts: "yw_now w' = max (yw_now w) now" "yw_ticket w' = yw_ticket w + 1" "sp_get w' = sp_get w"
    "rs_config (yw_st w') = rs_config (yw_st w)" "yw_splitter_owner w' = yw_splitter_owner w"
    "rs_splitter_lock_state_ts (yw_st w') = rs_splitter_lock_state_ts (yw_st w)"
    "yw_possible w' = yw_possible w" "yw_closed w' = yw_closed w"
    by (auto simp: relay_elsewhere_def sp_get_def)
  have "y_now_secs w \<le> y_now_secs w'"
    by (simp add: y_now_secs_def facts word_le_nat_alt unat_div_distrib max_def div_le_mono)
  then have "keeps u w w'" for u
    by (auto simp: keeps_def mine_def dead_def same_journal_def facts)
  then have "splitter_guar (yw_ticket w) w w'"
    by (simp add: splitter_guar_def splitter_later_def facts)
  moreover have "splitter_inv relay w'"
    using assms by (simp add: splitter_inv_def sp_active_job_def is_quarantined_def facts)
  ultimately show ?thesis by (simp add: w')
qed

section \<open>Installation and upgrades\<close>

lemma initialize_ok:
  assumes inv: "splitter_inv relay w" and init: "relay_initialize_from_config cx cfg w = Some w'"
  shows "splitter_inv relay w' \<and> splitter_later w w'"
proof -
  have facts: "sp_get w' = sp_get w" "yw_possible w' = yw_possible w" "yw_closed w' = yw_closed w"
    "yw_splitter_owner w' = None" "rs_config (yw_st w') = cfg" "yw_now w' = yw_now w"
    "yw_ticket w' = yw_ticket w"
    using init by (auto simp: relay_initialize_from_config_def Let_def sp_initialize_if_uninitialized_def
        sp_get_def rstate_new_def split: sum.splits if_splits)
  have "sp_active_job w = Some job \<Longrightarrow> sj_pinned_ledger_canister_id job = rcf_ledger_canister_id cfg" for job
    using init by (auto simp: relay_initialize_from_config_def Let_def sp_initialize_if_uninitialized_def
        validate_active_ledger_def sp_active_job_def sp_get_def splitter_state_default_def
        split: sum.splits if_splits option.splits)
  then show ?thesis using inv
    by (auto simp: splitter_inv_def splitter_later_def sp_active_job_def is_quarantined_def facts)
qed

lemma installed_inv:
  fixes w :: "'p relay_world"
  assumes "relay_installed cx w"
  shows "splitter_inv relay w"
proof -
  from assms obtain now cfg where
    init: "relay_initialize_from_config cx cfg (relay_blank now (rstate_new cfg 0) :: 'p relay_world) = Some w"
    by (auto simp: relay_installed_def relay_init_def bind_eq_Some_conv)
  have "splitter_inv relay (relay_blank now (rstate_new cfg 0) :: 'p relay_world)"
    by (simp add: splitter_inv_def relay_blank_def sp_active_job_def sp_get_def splitter_state_default_def)
  then show ?thesis using initialize_ok [OF _ init] by simp
qed

interpretation splitter: rg_threads True "splitter_inv relay" splitter_rely splitter_guar splitter_later
  "splitter_req_ok relay" yw_ticket "relay_installed cx" "splitter_handlers relay" "relay_upgrades cx"
  for relay cx
proof (unfold_locales, goal_cases)
  case (1 i s)
  then show ?case by (rule splitter_rely_refl)
next
  case (2 i a b c)
  then show ?case by (rule splitter_rely_trans)
next
  case (3 s)
  then show ?case by simp
next
  case (4 a b c)
  then show ?case by (rule splitter_later_trans)
next
  case (5 i j s s')
  then show ?case by (simp add: splitter_rely_def splitter_guar_def)
next
  case (6 i s s')
  then show ?case by (simp add: splitter_guar_def)
next
  case (7 i s s')
  then show ?case by (simp add: splitter_guar_def splitter_later_def)
next
  case (8 s)
  then show ?case by (rule installed_inv)
next
  case (9 h s)
  then consider "h = retry_active_splitter relay" | "h = splitter_stage relay"
    | now f where "h = relay_elsewhere now f" by (auto simp: splitter_handlers_def)
  then show ?case using 9(2) by cases (simp_all only: retry_rg stage_rg elsewhere_rg)
next
  case (10 u s s')
  then show ?case
    by (auto simp: relay_upgrades_def relay_post_upgrade_def relay_initialize_from_args_def bind_eq_Some_conv
      dest: initialize_ok)
qed

section \<open>Properties\<close>

text \<open>What a plan can take from its source account: each leg's amount and fee.\<close>

lemma valid_plan_debits:
  assumes "active_plan_is_valid job"
  shows "(\<Sum>leg \<in> {DefaultLeg, SubaccountOneLeg}. ta_amount (splitter_transfer_arg relay job leg) +
      the (ta_fee (splitter_transfer_arg relay job leg))) = unat (sl_balance_start_e8s (sj_plan job))"
proof -
  let ?d = "sl_default_leg (sj_plan job)" and ?s = "sl_subaccount_one_leg (sj_plan job)"
  have "unat (lp_amount_e8s ?d) + unat (lp_fee_e8s ?d) = unat (lp_gross_share_e8s ?d)"
    "unat (lp_amount_e8s ?s) + unat (lp_fee_e8s ?s) = unat (lp_gross_share_e8s ?s)"
    "unat (lp_gross_share_e8s ?d) + unat (lp_gross_share_e8s ?s) = unat (sl_balance_start_e8s (sj_plan job))"
    using assms by (auto simp: active_plan_is_valid_def Let_def checked_add_Some split: option.splits)
  then show ?thesis by (simp add: splitter_transfer_arg_def Let_def leg_plan_def)
qed

definition transfer_debit :: "transfer_arg \<Rightarrow> nat" where
  "transfer_debit a = ta_amount a + (case ta_fee a of None \<Rightarrow> 0 | Some fee \<Rightarrow> fee)"

lemma possible_debits:
  assumes valid: "active_plan_is_valid job"
    and args: "\<And>leg a. (leg, a) \<in> set ps \<Longrightarrow> a = splitter_transfer_arg relay job leg"
  shows "(\<Sum>a \<in> snd ` set ps. transfer_debit a) \<le> unat (sl_balance_start_e8s (sj_plan job))"
proof -
  let ?arg = "splitter_transfer_arg relay job"
  have "snd ` set ps \<subseteq> ?arg ` {DefaultLeg, SubaccountOneLeg}"
  proof
    fix a assume "a \<in> snd ` set ps"
    then obtain leg where "(leg, a) \<in> set ps" by auto
    then have "a = ?arg leg" by (rule args)
    then show "a \<in> ?arg ` {DefaultLeg, SubaccountOneLeg}" by (cases leg) simp_all
  qed
  then have "(\<Sum>a \<in> snd ` set ps. transfer_debit a) \<le> (\<Sum>a \<in> ?arg ` {DefaultLeg, SubaccountOneLeg}. transfer_debit a)"
    by (intro sum_mono2) simp_all
  also have "\<dots> \<le> (\<Sum>leg \<in> {DefaultLeg, SubaccountOneLeg}. transfer_debit (?arg leg))"
    by (cases "?arg DefaultLeg = ?arg SubaccountOneLeg") simp_all
  also have "\<dots> = unat (sl_balance_start_e8s (sj_plan job))"
    using valid_plan_debits [OF valid, of relay] by (simp add: transfer_debit_def splitter_transfer_arg_def Let_def)
  finally show ?thesis .
qed

text \<open>C28: A splitter job spends its balance at most once.  In every interleaving of retries, stages, other
  code and upgrades, whatever the ledger may have accepted for the active job is the transfer its plan
  describes now, one per leg, so what the job has taken from its source account, fees included, is at most
  the balance it was planned on.\<close>

theorem splitter_spends_once:
  assumes "splitter_reach cx relay w ps log" "sp_active_job w = Some job"
  shows "active_plan_is_valid job \<and>
    (\<forall>(leg, a) \<in> set (yw_possible w). a = splitter_transfer_arg relay job leg) \<and>
    (\<Sum>a \<in> snd ` set (yw_possible w). transfer_debit a) \<le> unat (sl_balance_start_e8s (sj_plan job))"
proof -
  have "job_ok relay (yw_possible w) job"
    using splitter.reach_inv [OF assms(1)] assms(2) by (simp add: splitter_inv_def)
  then have "active_plan_is_valid job" "\<And>leg a. (leg, a) \<in> set (yw_possible w) \<Longrightarrow> a = splitter_transfer_arg relay job leg"
    by (auto simp: job_ok_legs leg_ok_def)
  then show ?thesis using possible_debits by blast
qed

text \<open>C29: No transfer leaves the Relay for a splitter unless the journal already says so: it is the transfer of
  the current leg of the active job, on the configured ledger the job is pinned to, with the attempt marked,
  and the splitter is not quarantined.\<close>

theorem splitter_transfers_journalled:
  assumes "splitter_reach cx relay w ps log" "(sq, RqTransfer ledger arg) \<in> set log"
  shows "\<exists>job leg. sp_active_job sq = Some job \<and> current_leg job = Some leg \<and>
    arg = splitter_transfer_arg relay job leg \<and> gp_attempt_started (leg_progress job leg) \<and>
    ledger = sj_pinned_ledger_canister_id job \<and> ledger = rcf_ledger_canister_id (rs_config (yw_st sq)) \<and>
    \<not> is_quarantined (sl_splitter_number (sj_plan job)) sq"
  using splitter.reach_requests [OF assms] by (auto simp: splitter_inv_def)

text \<open>C30: A splitter job ends in one of three ways: completed with both transfers accepted, given up before
  anything could have been spent, or quarantined; and it never took more than its balance.\<close>

theorem splitter_jobs_end:
  assumes "splitter_reach cx relay w ps log" "(how, job, sent) \<in> set (yw_closed w)"
  shows "(how = ClosedCompleted \<longrightarrow> current_leg job = None \<and>
      (\<forall>leg. (leg, splitter_transfer_arg relay job leg) \<in> set sent)) \<and>
    (how = ClosedBeforeSpend \<longrightarrow> sent = []) \<and>
    (\<Sum>a \<in> snd ` set sent. transfer_debit a) \<le> unat (sl_balance_start_e8s (sj_plan job))"
proof -
  have closed: "closed_ok relay how job sent"
    using splitter.reach_inv [OF assms(1)] assms(2) by (auto simp: splitter_inv_def)
  then have "(\<Sum>a \<in> snd ` set sent. transfer_debit a) \<le> unat (sl_balance_start_e8s (sj_plan job))"
    by (intro possible_debits) (auto simp: closed_ok_def)
  then show ?thesis using closed by (simp add: closed_ok_def)
qed

text \<open>C31: A quarantine is permanent: once a request was sent in a world that knows a quarantined job, no later
  world, upgraded or not, has lost or replaced it, or works on that splitter again.\<close>

theorem splitter_quarantine_permanent:
  assumes "splitter_reach cx relay w ps log" "(sq, q) \<in> set log"
    and "ps_quarantined_jobs (sp_get sq) n = Some blocked"
  shows "ps_quarantined_jobs (sp_get w) n = Some blocked \<and> sl_splitter_number (sj_plan (qj_job blocked)) = n \<and>
    (\<forall>job. sp_active_job w = Some job \<longrightarrow> sl_splitter_number (sj_plan job) \<noteq> n)"
proof -
  have "splitter_later sq w" by (rule splitter.reach_since [OF assms(1,2)])
  then have kept: "ps_quarantined_jobs (sp_get w) n = Some blocked" using assms(3) by (simp add: splitter_later_def)
  then show ?thesis using splitter.reach_inv [OF assms(1)] by (auto simp: splitter_inv_def is_quarantined_def)
qed

text \<open>C32: The driver's loop ends: started under the lease in a consistent world it returns within
  five turns, whatever the ledger answers and whatever other handlers do meanwhile.\<close>

theorem splitter_driver_returns:
  assumes "splitter_inv relay w" "holds t g w" "ledger = rcf_ledger_canister_id (rs_config (yw_st w))"
  shows "splitter_rg relay t (\<lambda>_ res. res \<noteq> None) (drive_active_job drive_fuel relay ledger now g w) w"
  using drive_fuel_rg [OF assms] by (rule rgt_post) (simp add: drive_post_def)

section \<open>An undisturbed run\<close>

text \<open>One turn on a ready leg whose transfer is accepted.\<close>

definition accepted_leg :: "splitter_leg \<Rightarrow> u64 \<Rightarrow> nat \<Rightarrow> splitter_job \<Rightarrow> splitter_job" where
  "accepted_leg leg revision block job = map_leg leg (\<lambda>p. p\<lparr>gp_status := LegAccepted block\<rparr>)
     (map_leg leg (\<lambda>p. p\<lparr>gp_attempt_started := True\<rparr>) (job\<lparr>sj_driver_revision := revision\<rparr>))"

lemma accepted_leg_fields [simp]:
  "sj_plan (accepted_leg leg r b job) = sj_plan job"
  "sj_pinned_ledger_canister_id (accepted_leg leg r b job) = sj_pinned_ledger_canister_id job"
  "leg_plan (accepted_leg leg r b job) leg' = leg_plan job leg'"
  "splitter_transfer_arg relay (accepted_leg leg r b job) leg' = splitter_transfer_arg relay job leg'"
  "active_plan_is_valid (accepted_leg leg r b job) = active_plan_is_valid job"
  "gp_status (leg_progress (accepted_leg leg r b job) leg) = LegAccepted b"
  by (simp_all add: accepted_leg_def)

lemma accepted_leg_other [simp]:
  "leg' \<noteq> leg \<Longrightarrow> leg_progress (accepted_leg leg r b job) leg' = leg_progress job leg'"
  by (simp add: accepted_leg_def)

definition claimed_leg :: "splitter_leg \<Rightarrow> u64 \<Rightarrow> splitter_job \<Rightarrow> splitter_job" where
  "claimed_leg leg revision job =
     map_leg leg (\<lambda>p. p\<lparr>gp_attempt_started := True\<rparr>) (job\<lparr>sj_driver_revision := revision\<rparr>)"

definition sent_leg :: "principal \<Rightarrow> splitter_leg \<Rightarrow> u64 \<Rightarrow> splitter_job \<Rightarrow> 'p relay_world \<Rightarrow> 'p relay_world" where
  "sent_leg relay leg revision job w = note_sent leg (splitter_transfer_arg relay job leg)
     (sp_set ((sp_get w)\<lparr>ps_next_driver_revision := revision,
        ps_active_job := Some (claimed_leg leg revision job)\<rparr>) w)"

lemma claimed_leg_fields [simp]:
  "sj_plan (claimed_leg leg r job) = sj_plan job"
  "sj_pinned_ledger_canister_id (claimed_leg leg r job) = sj_pinned_ledger_canister_id job"
  "splitter_transfer_arg relay (claimed_leg leg r job) leg' = splitter_transfer_arg relay job leg'"
  "active_plan_is_valid (claimed_leg leg r job) = active_plan_is_valid job"
  by (simp_all add: claimed_leg_def)

lemma sent_leg_fields [simp]:
  "sp_active_job (sent_leg relay leg r job w) = Some (claimed_leg leg r job)"
  "sp_get (sent_leg relay leg r job w) = (sp_get w)\<lparr>ps_next_driver_revision := r,
     ps_active_job := Some (claimed_leg leg r job)\<rparr>"
  "yw_st (sent_leg relay leg r job w) = yw_st w" "yw_now (sent_leg relay leg r job w) = yw_now w"
  "yw_possible (sent_leg relay leg r job w) = (leg, splitter_transfer_arg relay job leg) # yw_possible w"
  "splitter_guard_is_current g (sent_leg relay leg r job w) = splitter_guard_is_current g w"
  by (simp_all add: sent_leg_def note_sent_def sp_active_job_def splitter_guard_is_current_def)

lemma ready_turn:
  assumes active: "sp_active_job w = Some job" "sj_pinned_ledger_canister_id job = rcf_ledger_canister_id (rs_config (yw_st w))"
      "active_plan_is_valid job"
    and leg: "current_leg job = Some leg" "gp_status (leg_progress job leg) = LegReady"
    and time: "created_at_time_is_valid (lp_created_at_time_nanos (leg_plan job leg)) now"
    and revision: "checked_add (ps_next_driver_revision (sp_get w)) 1 = Some r"
  shows "drive_iteration again relay ledger now g w =
      Await (sent_leg relay leg r job w) (RqTransfer ledger (splitter_transfer_arg relay job leg))
        (drive_after_transfer again
          (gp_attempt_started (leg_progress job leg) \<or> gp_uncertain_attempt_seen (leg_progress job leg))
          leg (claimed_leg leg r job) (splitter_transfer_arg relay job leg) now g)"
proof -
  have "claim_active_job job (Some leg) w = Some (Some (claimed_leg leg r job),
      sp_set ((sp_get w)\<lparr>ps_next_driver_revision := r, ps_active_job := Some (claimed_leg leg r job)\<rparr>) w)"
    using active(1) revision by (simp add: claim_active_job_def sp_active_job_def claimed_leg_def Let_def)
  then show ?thesis using active leg time
    by (simp add: drive_iteration_def drive_ready_def drive_transfer_def sent_leg_def Let_def)
qed

lemma accepted_turn:
  assumes active: "sp_active_job w = Some job" "sj_pinned_ledger_canister_id job = rcf_ledger_canister_id (rs_config (yw_st w))"
      "active_plan_is_valid job"
    and leg: "current_leg job = Some leg" "gp_status (leg_progress job leg) = LegReady"
    and time: "created_at_time_is_valid (lp_created_at_time_nanos (leg_plan job leg)) now"
    and guard: "splitter_guard_is_current g w" and revision: "checked_add (ps_next_driver_revision (sp_get w)) 1 = Some r"
    and resp: "transfer_once_outcome resp = SpAccepted b"
  shows "\<exists>w1 w2. run_script (resp # resps) (drive_iteration again relay ledger now g w) log =
      run_script resps (again w2) ((w1, RqTransfer ledger (splitter_transfer_arg relay job leg)) # log) \<and>
    sp_active_job w2 = Some (accepted_leg leg r b job) \<and> yw_st w2 = yw_st w \<and>
    ps_next_driver_revision (sp_get w2) = r \<and> splitter_guard_is_current g w2"
proof -
  define w1 where "w1 = sent_leg relay leg r job w"
  define w2 where "w2 = sp_set_active_job (accepted_leg leg r b job) w1"
  have current: "splitter_guard_is_current g w1" "splitter_guard_is_current g w2"
    using guard by (simp_all add: splitter_guard_is_current_def w1_def w2_def sp_set_active_job_def)
  have "drive_after_transfer again prior leg (claimed_leg leg r job) arg now g resp w1 = again w2" for prior arg
    using current resp
    by (simp add: drive_after_transfer_def active_job_if_claim_matches_def w1_def apply_outcome_def
      w2_def accepted_leg_def claimed_leg_def)
  moreover have "sp_active_job w2 = Some (accepted_leg leg r b job)" "yw_st w2 = yw_st w"
    "ps_next_driver_revision (sp_get w2) = r"
    by (simp_all add: w2_def sp_set_active_job_def sp_active_job_def w1_def)
  ultimately show ?thesis using current(2) ready_turn [OF active leg time revision]
    by (auto simp: w1_def)
qed

lemma final_turn:
  assumes "sp_active_job w = Some job" "sj_pinned_ledger_canister_id job = rcf_ledger_canister_id (rs_config (yw_st w))"
    "active_plan_is_valid job" "current_leg job = None"
  shows "drive_iteration again relay ledger now g w = Done (clear_active_job ClosedCompleted w) (Some DriveCompleted)"
  using assms by (simp add: drive_iteration_def)

text \<open>C33: Liveness: a fresh job whose transfers are accepted, or answered as duplicates, completes.  The
  driver sends the default leg, then the leg of subaccount one, and leaves no active job.\<close>

theorem splitter_job_completes:
  fixes w :: "'p relay_world"
  assumes active: "sp_active_job w = Some (splitter_job_new ledger plan)" "ledger = rcf_ledger_canister_id (rs_config (yw_st w))"
    and plan: "splitter_plan_valid plan"
      "created_at_time_is_valid (lp_created_at_time_nanos (sl_default_leg plan)) now"
      "created_at_time_is_valid (lp_created_at_time_nanos (sl_subaccount_one_leg plan)) now"
    and guard: "splitter_guard_is_current g w" and revision: "unat (ps_next_driver_revision (sp_get w)) + 2 < 2 ^ 64"
    and resp: "transfer_once_outcome r1 = SpAccepted b1" "transfer_once_outcome r2 = SpAccepted b2"
  shows "\<exists>w' w2 w1. run_script [r1, r2] (drive_active_job drive_fuel relay ledger now g w) [] =
    (Some (w', Some DriveCompleted),
     [(w2, RqTransfer ledger (splitter_transfer_arg relay (splitter_job_new ledger plan) SubaccountOneLeg)),
      (w1, RqTransfer ledger (splitter_transfer_arg relay (splitter_job_new ledger plan) DefaultLeg))]) \<and>
    sp_active_job w' = None"
proof -
  let ?job = "splitter_job_new ledger plan" and ?r = "ps_next_driver_revision (sp_get w)"
  let ?job1 = "accepted_leg DefaultLeg (?r + 1) b1 ?job"
  let ?drive = "\<lambda>n. drive_active_job n relay ledger now g"
  have unfold: "?drive drive_fuel w = drive_iteration (?drive 4) relay ledger now g w" for w :: "'p relay_world"
    by (simp add: drive_fuel_def eval_nat_numeral)
  have unfold4: "?drive 4 w = drive_iteration (?drive 3) relay ledger now g w" for w :: "'p relay_world"
    by (simp add: eval_nat_numeral)
  have unfold3: "?drive 3 w = drive_iteration (?drive 2) relay ledger now g w" for w :: "'p relay_world"
    by (simp add: eval_nat_numeral)
  have small: "unat ?r + 1 < 2 ^ 64" "unat (?r + 1) + 1 < 2 ^ 64" using revision by (simp_all add: unat_word_ariths)
  have rev: "checked_add ?r 1 = Some (?r + 1)" "checked_add (?r + 1) 1 = Some (?r + 1 + 1)"
    using small by (simp_all add: checked_add_def)
  have fresh: "leg_progress ?job leg = leg_progress_default" for leg
    by (cases leg) (simp_all add: leg_progress_def splitter_job_new_def)
  have first: "current_leg ?job = Some DefaultLeg" "active_plan_is_valid ?job" "leg_plan ?job DefaultLeg = sl_default_leg plan"
    "leg_plan ?job SubaccountOneLeg = sl_subaccount_one_leg plan"
    using valid_active_plan [OF plan(1)] fresh by (simp_all add: current_leg_legs leg_progress_default_def leg_plan_def splitter_job_new_def)
  from accepted_turn [where w = w and job = ?job and leg = DefaultLeg and now = now and g = g and r = "?r + 1"
      and resp = r1 and b = b1 and resps = "[r2]" and again = "?drive 4" and relay = relay and ledger = ledger and log = "[]"]
  obtain w1 w2 where turn1: "run_script [r1, r2] (drive_iteration (?drive 4) relay ledger now g w) [] =
      run_script [r2] (?drive 4 w2) [(w1, RqTransfer ledger (splitter_transfer_arg relay ?job DefaultLeg))]"
    "sp_active_job w2 = Some ?job1" "yw_st w2 = yw_st w" "ps_next_driver_revision (sp_get w2) = ?r + 1"
    "splitter_guard_is_current g w2"
    using active plan guard rev resp first fresh by (auto simp: splitter_job_new_def leg_progress_default_def)
  have second: "current_leg ?job1 = Some SubaccountOneLeg" "gp_status (leg_progress ?job1 SubaccountOneLeg) = LegReady"
    using fresh by (simp_all add: current_leg_legs leg_progress_default_def)
  let ?job2 = "accepted_leg SubaccountOneLeg (?r + 1 + 1) b2 ?job1"
  from accepted_turn [where w = w2 and job = ?job1 and leg = SubaccountOneLeg and now = now and g = g and r = "?r + 1 + 1"
      and resp = r2 and b = b2 and resps = "[]" and again = "?drive 3" and relay = relay and ledger = ledger
      and log = "[(w1, RqTransfer ledger (splitter_transfer_arg relay ?job DefaultLeg))]"]
  obtain w3 w4 where turn2: "run_script [r2] (drive_iteration (?drive 3) relay ledger now g w2)
      [(w1, RqTransfer ledger (splitter_transfer_arg relay ?job DefaultLeg))] =
      run_script [] (?drive 3 w4) [(w3, RqTransfer ledger (splitter_transfer_arg relay ?job SubaccountOneLeg)),
        (w1, RqTransfer ledger (splitter_transfer_arg relay ?job DefaultLeg))]"
    "sp_active_job w4 = Some ?job2" "yw_st w4 = yw_st w2"
    using active plan turn1 rev resp first second by (auto simp: splitter_job_new_def)
  have done': "current_leg ?job2 = None" by (simp add: current_leg_legs all_legs)
  have "?drive 3 w4 = Done (clear_active_job ClosedCompleted w4) (Some DriveCompleted)"
    unfolding unfold3 using turn2(3) turn1(3) active(2) first(2)
    by (intro final_turn [OF turn2(2) _ _ done']) (simp_all add: splitter_job_new_def)
  moreover have "sp_active_job (clear_active_job ClosedCompleted w4) = None"
    by (simp add: clear_active_job_def sp_active_job_def Let_def)
  ultimately show ?thesis using turn1(1) turn2(1) by (simp add: unfold unfold4)
qed

end
