(* ===== verification/RelaySplitterExamples.thy ===== *)
theory RelaySplitterExamples
  imports RelaySplitterSystem
begin

text \<open>
  A worked example for the splitter properties: an installed Relay stages a job whose first transfer stays
  unanswered; a day later the retry timer quarantines it.
\<close>

section \<open>The run\<close>

definition ex_relay_args :: relay_init_args where
  "ex_relay_args = \<lparr>ra_managed_canisters = [], ra_ledger_canister_id = Some [3], ra_cmc_canister_id = Some [5],
     ra_governance_canister_id = Some [6], ra_blackhole_canister_id = None, ra_sns_rewards_canister_id = Some [7],
     ra_icp_index_canister_id = Some [8], ra_main_interval_seconds = None, ra_max_transfers_per_tick = None,
     ra_surplus_canister_recipients = None, ra_surplus_neuron_recipients = []\<rparr>"

definition ex_relay_config :: rconfig where
  "ex_relay_config = \<lparr>rcf_managed_canisters = [], rcf_ledger_canister_id = [3], rcf_cmc_canister_id = [5],
     rcf_governance_canister_id = [6], rcf_sns_rewards_canister_id = [7], rcf_icp_index_canister_id = [8],
     rcf_cycles_probe_policy = ProbeAuto, rcf_main_interval_seconds = 86400, rcf_max_transfers_per_tick = None,
     rcf_surplus_recipients = []\<rparr>"

definition ex_relay_st :: "u64 option \<Rightarrow> unit rstate" where
  "ex_relay_st fee = (rstate_new ex_relay_config 5)\<lparr>rs_last_known_ledger_fee_e8s := fee\<rparr>"

definition ex_relay :: "unit relay_world" where
  "ex_relay = (relay_blank 5000000000 (ex_relay_st None))\<lparr>yw_splitter := Some splitter_state_default\<rparr>"

lemma ex_relay_installed: "relay_installed example_candid ex_relay"
proof -
  have "relay_init example_candid 5000000000 ex_relay_args = Some ex_relay"
    by (simp add: relay_init_def relay_config_from_init_args_def ex_relay_args_def or_mainnet_def
      public_surplus_recipients_from_args_def example_candid_def relay_initialize_from_config_def rvalidate_config_def
      and_then_def validate_canister_principal_def ex_relay_def relay_blank_def sp_initialize_if_uninitialized_def
      validate_active_ledger_def sp_active_job_def sp_get_def splitter_state_default_def ex_relay_st_def
      ex_relay_config_def y_now_secs_def rstate_new_def max_def word_le_nat_alt Let_def)
  then show ?thesis by (auto simp: relay_installed_def)
qed

definition ex_splitter_plan :: splitter_plan where
  "ex_splitter_plan = (case build_splitter_plan 10 200000001 10000 5000000000 of Inr plan \<Rightarrow> plan)"

lemma ex_splitter_plan: "build_splitter_plan 10 200000001 10000 5000000000 = Inr ex_splitter_plan"
  unfolding ex_splitter_plan_def
  by (simp add: build_splitter_plan_def splitter_percentage_def splitter_percentages_def
      checked_mul_def checked_sub_def checked_add_def min_raw_icp_recipient_amount_e8s_def Let_def
      word_le_nat_alt word_less_nat_alt)

lemma ex_plan_valid: "splitter_plan_valid ex_splitter_plan" "sl_splitter_number ex_splitter_plan = 10"
    "unat (sl_balance_start_e8s ex_splitter_plan) = 200000001"
    "lp_created_at_time_nanos (sl_default_leg ex_splitter_plan) = 5000000000"
    "lp_created_at_time_nanos (sl_subaccount_one_leg ex_splitter_plan) = 5000000001"
  using build_splitter_plan_valid [OF ex_splitter_plan]
  by (auto simp: splitter_plan_valid_def Let_def word_unat_eq_iff)

definition ex_splitter_job :: splitter_job where
  "ex_splitter_job = splitter_job_new [3] ex_splitter_plan"

lemma ex_job_simps [simp]:
  "sj_pinned_ledger_canister_id ex_splitter_job = [3]" "sj_plan ex_splitter_job = ex_splitter_plan"
  "leg_progress ex_splitter_job DefaultLeg = leg_progress_default"
  "active_plan_is_valid ex_splitter_job" "current_leg ex_splitter_job = Some DefaultLeg"
  "lp_created_at_time_nanos (leg_plan ex_splitter_job DefaultLeg) = 5000000000"
  using valid_active_plan [OF ex_plan_valid(1), of "[3]"]
  by (simp_all add: ex_splitter_job_def splitter_job_new_def leg_progress_def leg_progress_default_def
    current_leg_def leg_plan_def ex_plan_valid)

abbreviation ex_arg :: transfer_arg where
  "ex_arg \<equiv> splitter_transfer_arg [9] ex_splitter_job DefaultLeg"

abbreviation ex_guard :: timer_lease_guard where
  "ex_guard \<equiv> \<lparr>tlg_active = True, tlg_expires = 1805\<rparr>"

text \<open>The worlds of the run: staged under the lease, with the fee, with the job, with the transfer sent, with
  the transfer unanswered, and with the lease dropped.\<close>

definition ex_staged :: "unit relay_world" where
  "ex_staged = y_with_state_mut (\<lambda>st. st\<lparr>rs_splitter_lock_state_ts := Some 1805\<rparr>)
     (ex_relay\<lparr>yw_ticket := 1, yw_splitter_owner := Some 0\<rparr>)"

definition ex_priced :: "unit relay_world" where
  "ex_priced = y_with_state_mut (\<lambda>st. st\<lparr>rs_last_known_ledger_fee_e8s := Some 10000\<rparr>) ex_staged"

definition ex_planned :: "unit relay_world" where
  "ex_planned = sp_set_active_job ex_splitter_job ex_priced"

definition ex_sent :: "unit relay_world" where
  "ex_sent = sent_leg [9] DefaultLeg 1 ex_splitter_job ex_planned"

definition ex_unanswered :: "unit relay_world" where
  "ex_unanswered = keep_uncertain DefaultLeg (claimed_leg DefaultLeg 1 ex_splitter_job) ex_sent"

definition ex_paused :: "unit relay_world" where
  "ex_paused = splitter_guard_drop ex_guard ex_unanswered"

lemma ex_relay_simps [simp]:
  "sp_get ex_relay = splitter_state_default" "yw_now ex_relay = 5000000000" "yw_ticket ex_relay = 0"
  "rs_config (yw_st ex_relay) = ex_relay_config" "rs_splitter_lock_state_ts (yw_st ex_relay) = Some 0"
  "yw_possible ex_relay = []" "yw_closed ex_relay = []" "rcf_ledger_canister_id ex_relay_config = [3]"
  by (simp_all add: ex_relay_def relay_blank_def sp_get_def ex_relay_st_def rstate_new_def ex_relay_config_def)

lemma ex_world_simps [simp]:
  "sp_get ex_staged = splitter_state_default" "yw_now ex_staged = 5000000000"
  "rs_config (yw_st ex_staged) = ex_relay_config" "rs_splitter_lock_state_ts (yw_st ex_staged) = Some 1805"
  "sp_get ex_priced = splitter_state_default" "yw_now ex_priced = 5000000000"
  "rs_config (yw_st ex_priced) = ex_relay_config" "rs_splitter_lock_state_ts (yw_st ex_priced) = Some 1805"
  "sp_get ex_planned = splitter_state_default\<lparr>ps_active_job := Some ex_splitter_job\<rparr>" "yw_st ex_planned = yw_st ex_priced"
  "yw_now ex_planned = 5000000000" "yw_possible ex_planned = []"
  by (simp_all add: ex_staged_def ex_priced_def ex_planned_def y_with_state_mut_def sp_set_active_job_def
    sp_get_def sp_set_def) (simp_all add: sp_get_def [symmetric])

lemma drive_first_turn:
  "drive_active_job drive_fuel relay ledger now g w =
     drive_iteration (drive_active_job 4 relay ledger now g) relay ledger now g w"
proof -
  have fuel: "drive_fuel = Suc 4" by (simp add: drive_fuel_def)
  show ?thesis unfolding fuel by (rule drive_active_job.simps(2))
qed

lemma ex_drive:
  "drive_active_job drive_fuel [9] [3] 5000000000 ex_guard ex_planned =
     Await ex_sent (RqTransfer [3] ex_arg) (drive_after_transfer (drive_active_job 4 [9] [3] 5000000000 ex_guard)
       False DefaultLeg (claimed_leg DefaultLeg 1 ex_splitter_job) ex_arg 5000000000 ex_guard)"
proof -
  have "sp_active_job ex_planned = Some ex_splitter_job" by (simp add: sp_active_job_def)
  moreover have "created_at_time_is_valid 5000000000 5000000000"
    by (simp add: created_at_time_is_valid_def sat_sub_def)
  ultimately show ?thesis
    using ready_turn [where w = ex_planned and job = ex_splitter_job and leg = DefaultLeg and now = 5000000000 and r = 1
      and again = "drive_active_job 4 [9] [3] 5000000000 ex_guard" and relay = "[9]" and ledger = "[3]" and g = ex_guard]
    by (simp add: drive_first_turn ex_sent_def leg_progress_default_def splitter_state_default_def checked_add_def)
qed

lemma ex_lost:
  "drive_after_transfer again False DefaultLeg (claimed_leg DefaultLeg 1 ex_splitter_job) ex_arg 5000000000 ex_guard
     (RsTransfer (Inl ''unreachable'')) ex_sent = Done ex_unanswered (Some Unresolved)"
  by (simp add: drive_after_transfer_def ex_sent_def active_job_if_claim_matches_def apply_outcome_def
    transfer_once_outcome_def y_client_transfer_def ex_unanswered_def splitter_guard_is_current_def)

text \<open>The stage up to the unanswered transfer.\<close>

abbreviation ex_sent_requests :: "(unit relay_world \<times> relay_req) list" where
  "ex_sent_requests \<equiv> [(ex_sent, RqTransfer [3] ex_arg),
     (ex_priced, RqBalance [3] \<lparr>acc_owner = [9], acc_subaccount = Some (relay_numbered_subaccount 10)\<rparr>),
     (ex_staged, RqFee [3])]"

lemma ex_stage_plan:
  "run_script [RsNat (Inr 200000001), RsTransfer (Inl ''unreachable'')]
     (stage_splitters [9] [3] [3] 10000 5000000000 ex_guard None splitter_percentages ex_priced) log =
   (Some (ex_paused, StageUnresolved), (ex_sent, RqTransfer [3] ex_arg) #
     (ex_priced, RqBalance [3] \<lparr>acc_owner = [9], acc_subaccount = Some (relay_numbered_subaccount 10)\<rparr>) # log)"
proof -
  have source: "splitter_source_account [9] 10 =
      Some \<lparr>acc_owner = [9], acc_subaccount = Some (relay_numbered_subaccount 10)\<rparr>"
    by (simp add: splitter_source_account_def splitter_percentage_def splitter_percentages_def)
  have balance: "y_client_u64 (RsNat (Inr 200000001)) = Inr 200000001"
    by (simp add: y_client_u64_def nat_to_u64_def)
  have free: "\<not> is_quarantined 10 ex_priced" by (simp add: is_quarantined_def splitter_state_default_def)
  have current: "splitter_guard_is_current ex_guard ex_priced" by (simp add: splitter_guard_is_current_def)
  show ?thesis unfolding splitter_percentages_def
    using source balance free current ex_splitter_plan ex_drive ex_lost
    by (simp add: ex_splitter_job_def [symmetric] ex_planned_def [symmetric] stage_after_drive_def
      stage_return_def ex_paused_def)
qed

lemma run_script_unit:
  "run_script rs (pbind p (\<lambda>w _. Done w ())) log =
     map_prod (map_option (\<lambda>(w, _). (w, ()))) id (run_script rs p log)"
proof (induction p arbitrary: rs log)
  case (Await s q k)
  then show ?case by (cases rs) (simp_all add: Await.IH [OF rangeI rangeI])
qed simp_all

lemma ex_stage:
  "run_script [RsNat (Inr 10000), RsNat (Inr 200000001), RsTransfer (Inl ''unreachable'')]
     (splitter_stage [9] ex_relay) [] = (Some (ex_paused, ()), ex_sent_requests)"
proof -
  have acquire: "splitter_guard_acquire 0 5 (ex_relay\<lparr>yw_ticket := 1\<rparr>) = Some (ex_guard, ex_staged)"
    by (simp add: splitter_guard_acquire_def tlg_acquire_def sat_add_def splitter_lease_seconds_def ex_staged_def
      ex_relay_def relay_blank_def ex_relay_st_def rstate_new_def)
  have idle: "sp_active_job ex_staged = None" by (simp add: sp_active_job_def splitter_state_default_def)
  have fee: "resolve_icp_ledger_fee_e8s (RsNat (Inr 10000)) ex_staged = (10000, ex_priced)"
    by (simp add: resolve_icp_ledger_fee_e8s_def y_client_u64_def nat_to_u64_def ex_priced_def)
  have current: "splitter_guard_is_current ex_guard ex_priced" by (simp add: splitter_guard_is_current_def)
  show ?thesis
    using acquire idle fee current ex_stage_plan [of "[(ex_staged, RqFee [3])]"]
    by (simp add: splitter_stage_def run_script_unit process_main_stage_def stage_fee_def stage_with_fee_def Let_def
      del: stage_splitters.simps)
qed

section \<open>Reachable worlds\<close>

lemma ex_paused_reached: "splitter_reach example_candid [9] ex_paused [] ex_sent_requests"
proof -
  have "splitter_stage [9] \<in> splitter_handlers [9]" by (simp add: splitter_handlers_def)
  with reach.start [where init = "relay_installed example_candid", OF ex_relay_installed]
  show ?thesis using ex_stage by (rule run_script_reach)
qed

definition ex_left :: splitter_job where
  "ex_left = map_leg DefaultLeg (\<lambda>p. p\<lparr>gp_uncertain_attempt_seen := True\<rparr>) (claimed_leg DefaultLeg 1 ex_splitter_job)"

lemma ex_left_simps [simp]:
  "sj_plan ex_left = ex_splitter_plan" "sj_pinned_ledger_canister_id ex_left = [3]" "active_plan_is_valid ex_left"
  "leg_progress ex_left DefaultLeg =
     \<lparr>gp_status = LegReady, gp_attempt_started = True, gp_uncertain_attempt_seen = True\<rparr>"
  "current_leg ex_left = Some DefaultLeg" "splitter_transfer_arg relay ex_left leg = splitter_transfer_arg relay ex_splitter_job leg"
  "lp_created_at_time_nanos (leg_plan ex_left DefaultLeg) = 5000000000"
proof -
  show "leg_progress ex_left DefaultLeg =
     \<lparr>gp_status = LegReady, gp_attempt_started = True, gp_uncertain_attempt_seen = True\<rparr>"
    by (simp add: ex_left_def claimed_leg_def leg_progress_default_def)
  then show "current_leg ex_left = Some DefaultLeg" by (simp add: current_leg_legs)
qed (simp_all add: ex_left_def claimed_leg_def)

lemma ex_unanswered_simps [simp]:
  "sp_get ex_unanswered = \<lparr>ps_active_job = Some ex_left, ps_quarantined_jobs = (\<lambda>_. None), ps_next_driver_revision = 1\<rparr>"
  "yw_possible ex_unanswered = [(DefaultLeg, ex_arg)]" "yw_now ex_unanswered = 5000000000"
  "rs_config (yw_st ex_unanswered) = ex_relay_config" "rs_splitter_lock_state_ts (yw_st ex_unanswered) = Some 1805"
  by (simp_all add: ex_unanswered_def keep_uncertain_def sp_set_active_job_def ex_left_def ex_sent_def splitter_state_default_def)

lemma ex_paused_simps [simp]:
  "sp_get ex_paused = \<lparr>ps_active_job = Some ex_left, ps_quarantined_jobs = (\<lambda>_. None), ps_next_driver_revision = 1\<rparr>"
  "yw_possible ex_paused = [(DefaultLeg, ex_arg)]" "yw_now ex_paused = 5000000000"
  "rs_config (yw_st ex_paused) = ex_relay_config" "rs_splitter_lock_state_ts (yw_st ex_paused) = Some 0"
proof -
  have paused: "ex_paused = y_with_state_mut (\<lambda>st. st\<lparr>rs_splitter_lock_state_ts := Some 0\<rparr>)
      (ex_unanswered\<lparr>yw_splitter_owner := None\<rparr>)"
    by (simp add: ex_paused_def splitter_guard_drop_def tlg_release_def)
  show "sp_get ex_paused = \<lparr>ps_active_job = Some ex_left, ps_quarantined_jobs = (\<lambda>_. None), ps_next_driver_revision = 1\<rparr>"
  "yw_possible ex_paused = [(DefaultLeg, ex_arg)]" "yw_now ex_paused = 5000000000"
  "rs_config (yw_st ex_paused) = ex_relay_config" "rs_splitter_lock_state_ts (yw_st ex_paused) = Some 0"
    unfolding paused by (simp_all add: y_with_state_mut_def)
qed

text \<open>Twenty-five hours later.\<close>

definition ex_later :: "unit relay_world" where
  "ex_later = (case relay_elsewhere 90005000000000 id ex_paused of Done w _ \<Rightarrow> w)"

lemma ex_later: "relay_elsewhere 90005000000000 id ex_paused = Done ex_later ()"
  by (simp add: ex_later_def relay_elsewhere_def)

lemma ex_later_simps [simp]:
  "sp_get ex_later = \<lparr>ps_active_job = Some ex_left, ps_quarantined_jobs = (\<lambda>_. None), ps_next_driver_revision = 1\<rparr>"
  "yw_possible ex_later = [(DefaultLeg, ex_arg)]" "yw_now ex_later = 90005000000000"
  "rs_config (yw_st ex_later) = ex_relay_config" "rs_splitter_lock_state_ts (yw_st ex_later) = Some 0"
  by (simp_all add: ex_later_def relay_elsewhere_def max_def word_le_nat_alt)

lemma ex_later_reached: "splitter_reach example_candid [9] ex_later [] ex_sent_requests"
proof (rule reach.spawn_done [where h = "relay_elsewhere 90005000000000 id", OF ex_paused_reached _ ex_later])
  show "relay_elsewhere 90005000000000 id \<in> splitter_handlers [9]" by (auto simp: splitter_handlers_def)
qed

text \<open>The retry timer finds the identity of the transfer expired.\<close>

abbreviation ex_retry_guard :: timer_lease_guard where
  "ex_retry_guard \<equiv> \<lparr>tlg_active = True, tlg_expires = 91805\<rparr>"

definition ex_retried :: "unit relay_world" where
  "ex_retried = y_with_state_mut (\<lambda>st. st\<lparr>rs_splitter_lock_state_ts := Some 91805\<rparr>)
     (ex_later\<lparr>yw_ticket := yw_ticket ex_later + 1, yw_splitter_owner := Some (yw_ticket ex_later)\<rparr>)"

definition ex_expired :: "unit relay_world" where
  "ex_expired = quarantine_active_job DefaultLeg 90005000000000
     ''expired transfer identity after a potentially accepted attempt'' ex_retried"

definition ex_blocked :: "unit relay_world" where
  "ex_blocked = schedule_splitter_main_continuation_after (splitter_guard_drop ex_retry_guard ex_expired)"

lemma ex_retried_simps [simp]:
  "sp_get ex_retried = \<lparr>ps_active_job = Some ex_left, ps_quarantined_jobs = (\<lambda>_. None), ps_next_driver_revision = 1\<rparr>"
  "yw_possible ex_retried = [(DefaultLeg, ex_arg)]" "yw_now ex_retried = 90005000000000"
  "rs_config (yw_st ex_retried) = ex_relay_config" "sp_active_job ex_retried = Some ex_left"
  by (simp_all add: ex_retried_def y_with_state_mut_def sp_active_job_def)

lemma sp_ex_retry: "retry_active_splitter [9] ex_later = Done ex_blocked ()"
proof -
  let ?w = "ex_later\<lparr>yw_ticket := yw_ticket ex_later + 1\<rparr>"
  have acquire: "splitter_guard_acquire (yw_ticket ex_later) 90005 ?w = Some (ex_retry_guard, ex_retried)"
    by (simp add: splitter_guard_acquire_def tlg_acquire_def sat_add_def splitter_lease_seconds_def ex_retried_def)
  have expired: "\<not> created_at_time_is_valid 5000000000 90005000000000"
    by (simp add: created_at_time_is_valid_def sat_sub_def ledger_created_at_valid_window_nanos_def word_le_nat_alt)
  have "drive_active_job drive_fuel [9] [3] 90005000000000 ex_retry_guard ex_retried =
      Done ex_expired (Some DriveQuarantined)"
    using expired by (simp add: drive_first_turn drive_iteration_def drive_ready_def ex_expired_def)
  then show ?thesis using acquire
    by (simp add: retry_active_splitter_def y_now_secs_def sp_active_job_def retry_after_drive_def ex_blocked_def Let_def)
qed

lemma ex_blocked_reached: "splitter_reach example_candid [9] ex_blocked [] ex_sent_requests"
  by (rule reach.spawn_done [where h = "retry_active_splitter [9]", OF ex_later_reached _ sp_ex_retry]) (simp add: splitter_handlers_def)

lemma ex_blocked_simps [simp]:
  "sp_active_job ex_blocked = None" "rs_splitter_lock_state_ts (yw_st ex_blocked) = Some 0"
  "yw_closed ex_blocked = (ClosedQuarantined, ex_left, [(DefaultLeg, ex_arg)]) # yw_closed ex_retried"
  "ps_quarantined_jobs (sp_get ex_blocked) 10 = Some \<lparr>qj_job = ex_left, qj_blocked_leg = DefaultLeg,
     qj_quarantined_at_nanos = 90005000000000,
     qj_reason = ''expired transfer identity after a potentially accepted attempt''\<rparr>"
  by (simp_all add: ex_blocked_def schedule_splitter_main_continuation_after_def splitter_guard_drop_def
    tlg_release_def y_with_state_mut_def ex_expired_def quarantine_active_job_def note_closed_def Let_def
    ex_plan_valid sp_active_job_def) (simp_all add: ex_retried_def y_with_state_mut_def)

section \<open>Witnesses\<close>

lemma splitter_spends_once_witness:
  "sp_active_job ex_paused = Some ex_left \<and>
   (\<Sum>a \<in> snd ` set (yw_possible ex_paused). transfer_debit a) \<le> unat (sl_balance_start_e8s ex_splitter_plan)"
proof -
  have active: "sp_active_job ex_paused = Some ex_left" by (simp add: sp_active_job_def)
  from splitter_spends_once [OF ex_paused_reached this] active show ?thesis by simp
qed

lemma splitter_transfers_journalled_witness: "\<not> is_quarantined 10 ex_sent"
proof -
  have "(ex_sent, RqTransfer [3] ex_arg) \<in> set ex_sent_requests" by simp
  from splitter_transfers_journalled [OF ex_paused_reached this] show ?thesis by (auto simp: ex_sent_def ex_plan_valid)
qed

lemma splitter_jobs_end_witness:
  "(\<Sum>a \<in> snd ` set [(DefaultLeg, ex_arg)]. transfer_debit a) \<le> 200000001"
proof -
  have "(ClosedQuarantined, ex_left, [(DefaultLeg, ex_arg)]) \<in> set (yw_closed ex_blocked)" by simp
  from splitter_jobs_end [OF ex_blocked_reached this] show ?thesis by (simp add: ex_plan_valid)
qed

lemma ex_blocked_stage:
  "\<exists>sq k. splitter_stage [9] ex_blocked = Await sq (RqFee (rcf_ledger_canister_id (rs_config (yw_st ex_blocked)))) k \<and>
     sp_get sq = sp_get ex_blocked"
proof -
  let ?w = "ex_blocked\<lparr>yw_ticket := yw_ticket ex_blocked + 1\<rparr>"
  obtain g w1 where acquire: "splitter_guard_acquire (yw_ticket ex_blocked) (yw_now ex_blocked div 1000000000) ?w = Some (g, w1)"
    by (simp add: splitter_guard_acquire_def tlg_acquire_def)
  then have "sp_get w1 = sp_get ex_blocked"
    by (auto simp: splitter_guard_acquire_def y_with_state_mut_def split: option.splits)
  then show ?thesis using acquire ex_blocked_simps(1)
    by (simp add: splitter_stage_def process_main_stage_def stage_fee_def sp_active_job_def Let_def)
qed

lemma splitter_quarantine_permanent_witness:
  "\<exists>w ps log sq q blocked. splitter_reach example_candid [9] w ps log \<and> (sq, q) \<in> set log \<and>
     ps_quarantined_jobs (sp_get sq) 10 = Some blocked \<and> ps_quarantined_jobs (sp_get w) 10 = Some (blocked :: quarantined_job)
     \<and> (w :: unit relay_world) = sq"
proof -
  from ex_blocked_stage obtain sq k where stage: "sp_get sq = sp_get ex_blocked"
    "splitter_stage [9] ex_blocked = Await sq (RqFee (rcf_ledger_canister_id (rs_config (yw_st ex_blocked)))) k" by blast
  let ?q = "RqFee (rcf_ledger_canister_id (rs_config (yw_st ex_blocked)))"
  have "splitter_stage [9] \<in> splitter_handlers [9]" by (simp add: splitter_handlers_def)
  from reach.spawn_await [OF ex_blocked_reached this stage(2)]
  have run: "splitter_reach example_candid [9] sq [Await sq ?q k] ((sq, ?q) # ex_sent_requests)" .
  from stage(1) ex_blocked_simps(4) obtain blocked where "ps_quarantined_jobs (sp_get sq) 10 = Some blocked" by simp
  moreover have "(sq, ?q) \<in> set ((sq, ?q) # ex_sent_requests)" by simp
  ultimately show ?thesis using splitter_quarantine_permanent [OF run] run by blast
qed

lemma ex_planned_ok: "splitter_inv [9] ex_planned" "holds 0 ex_guard ex_planned"
proof -
  have inv: "splitter_inv [9] ex_priced" "sp_active_job ex_priced = None" "\<not> is_quarantined 10 ex_priced"
    by (simp_all add: splitter_inv_def sp_active_job_def is_quarantined_def splitter_state_default_def)
      (simp_all add: ex_priced_def ex_staged_def y_with_state_mut_def)
  show "splitter_inv [9] ex_planned"
    using install_job_ok(1) [OF inv ex_splitter_plan, of "[3]"] by (simp add: ex_planned_def ex_splitter_job_def)
  show "holds 0 ex_guard ex_planned"
    by (simp add: holds_def mine_def) (simp add: ex_planned_def sp_set_active_job_def ex_priced_def ex_staged_def y_with_state_mut_def)
qed

lemma splitter_driver_returns_witness:
  "splitter_rg [9] 0 (\<lambda>_ res. res \<noteq> None) (drive_active_job drive_fuel [9] [3] 5000000000 ex_guard ex_planned) ex_planned"
  by (rule splitter_driver_returns [OF ex_planned_ok]) simp

lemma splitter_job_completes_witness:
  "\<exists>w' w2 w1. run_script [RsTransfer (Inr (Inr 7)), RsTransfer (Inr (Inl (Duplicate 8)))]
      (drive_active_job drive_fuel [9] [3] 5000000000 ex_guard ex_planned) [] =
    (Some (w', Some DriveCompleted),
     [(w2, RqTransfer [3] (splitter_transfer_arg [9] ex_splitter_job SubaccountOneLeg)), (w1, RqTransfer [3] ex_arg)]) \<and>
    sp_active_job w' = None"
  unfolding ex_splitter_job_def
proof (rule splitter_job_completes)
  show "sp_active_job ex_planned = Some (splitter_job_new [3] ex_splitter_plan)"
    by (simp add: sp_active_job_def ex_splitter_job_def [symmetric])
  show "splitter_plan_valid ex_splitter_plan" by (rule ex_plan_valid(1))
  show "splitter_guard_is_current ex_guard ex_planned" by (simp add: splitter_guard_is_current_def)
  show "created_at_time_is_valid (lp_created_at_time_nanos (sl_default_leg ex_splitter_plan)) 5000000000"
    "created_at_time_is_valid (lp_created_at_time_nanos (sl_subaccount_one_leg ex_splitter_plan)) 5000000000"
    by (simp_all add: ex_plan_valid created_at_time_is_valid_def sat_sub_def)
qed (simp_all add: transfer_once_outcome_def y_client_transfer_def splitter_state_default_def)

end
