(* ===== verification/RelayJob.thy ===== *)
theory RelayJob
  imports RelayWorld
begin

text \<open>
  The Relay's daily job as data (\<open>src/canisters/relay/src/scheduler/tick.rs\<close>, the functions that await
  nothing, and \<open>scheduler/cycles_probe.rs\<close>): probing the managed canisters, the samples and summaries,
  staging the next transfer, and completing the job.  An ordered map is a list in key order; the order of
  principals is a parameter \<open>lt\<close>.
\<close>

section \<open>Ordered maps and lists\<close>

fun map_put :: "('k \<Rightarrow> 'k \<Rightarrow> bool) \<Rightarrow> 'k \<Rightarrow> 'v \<Rightarrow> ('k \<times> 'v) list \<Rightarrow> ('k \<times> 'v) list" where
  "map_put lt k v [] = [(k, v)]"
| "map_put lt k v ((k', v') # m) =
     (if k = k' then (k, v) # m else if lt k k' then (k, v) # (k', v') # m else (k', v') # map_put lt k v m)"

definition map_drop :: "'k \<Rightarrow> ('k \<times> 'v) list \<Rightarrow> ('k \<times> 'v) list" where
  "map_drop k m = filter (\<lambda>e. fst e \<noteq> k) m"

definition map_retain :: "('k \<Rightarrow> bool) \<Rightarrow> ('k \<times> 'v) list \<Rightarrow> ('k \<times> 'v) list" where
  "map_retain keep m = filter (\<lambda>e. keep (fst e)) m"

lemma map_of_map_put [simp]: "map_of (map_put lt k v m) = (map_of m)(k \<mapsto> v)"
  by (induction m) (auto simp: fun_eq_iff)

fun update_first :: "('a \<Rightarrow> bool) \<Rightarrow> ('a \<Rightarrow> 'a) \<Rightarrow> 'a list \<Rightarrow> 'a list" where
  "update_first P f [] = []"
| "update_first P f (x # xs) = (if P x then f x # xs else x # update_first P f xs)"

lemma map_update_first: "(\<And>x. g (f x) = g x) \<Longrightarrow> map g (update_first P f xs) = map g xs"
  by (induction xs) simp_all

lemma length_update_first [simp]: "length (update_first P f xs) = length xs"
  by (induction xs) simp_all

section \<open>Probing the managed canisters\<close>

record relay_probe_batch =
  rb_snapshots :: "(principal \<times> cycles_snapshot) list"
  rb_failures :: "probe_failure list"
  rb_route_updates :: "(principal \<times> cycles_probe_route option) list"

text \<open>\<open>RelayCyclesProbeClient\<close>: the Relay knows its own balance; the configured SNS root is not passed on.\<close>

definition relay_probe_client :: "principal \<Rightarrow> u128 \<Rightarrow> probe_client" where
  "relay_probe_client self_canister_id self_cycles = \<lparr>pc_configured_sns_root = None,
     pc_self_cycles = (\<lambda>target. if target = self_canister_id then Some self_cycles else None)\<rparr>"

definition sample_source_from_route :: "cycles_probe_route option \<Rightarrow> cycles_sample_source" where
  "sample_source_from_route route = (case route of None \<Rightarrow> SelfCanister
     | Some RouteDirect \<Rightarrow> DirectCanisterStatus
     | Some (RouteBlackhole _) \<Rightarrow> BlackholeStatus
     | Some RouteNnsRoot \<Rightarrow> NnsRootStatus
     | Some (RouteSnsRoot _) \<Rightarrow> SnsRootStatus
     | Some (RouteSnsSwap _ _) \<Rightarrow> SnsSwapStatus)"

definition note_probe :: "(principal \<Rightarrow> principal \<Rightarrow> bool) \<Rightarrow> u64 \<Rightarrow> principal \<Rightarrow> probe_result
    \<Rightarrow> relay_probe_batch \<Rightarrow> relay_probe_batch" where
  "note_probe lt now_nanos canister_id result batch = (case result of
       Inr success \<Rightarrow> batch\<lparr>
         rb_snapshots := map_put lt canister_id \<lparr>cy_cycles = pb_cycles success,
           cy_timestamp_nanos = now_nanos, cy_source = sample_source_from_route (pb_route success)\<rparr>
           (rb_snapshots batch),
         rb_route_updates := map_put lt canister_id (pb_route success) (rb_route_updates batch)\<rparr>
     | Inl err \<Rightarrow> batch\<lparr>
         rb_failures := rb_failures batch @ [\<lparr>pf_canister_id = canister_id, pf_error = pb_message err,
           pf_consecutive_failures = 0\<rparr>],
         rb_route_updates := map_put lt canister_id None (rb_route_updates batch)\<rparr>)"

fun probe_cycles_batch :: "probe_env \<Rightarrow> probe_client \<Rightarrow> cycles_probe_policy
    \<Rightarrow> (principal \<times> cycles_probe_route) list \<Rightarrow> u64 \<Rightarrow> principal list \<Rightarrow> relay_probe_batch
    \<Rightarrow> relay_probe_batch probe" where
  "probe_cycles_batch env client policy cached_routes now_nanos [] batch = Answer batch"
| "probe_cycles_batch env client policy cached_routes now_nanos (canister_id # ids) batch =
     ask_bind (probe_cycles env client policy canister_id
         (case policy of ProbeAuto \<Rightarrow> map_of cached_routes canister_id | ProbeFixedBlackhole _ \<Rightarrow> None))
       (\<lambda>result. probe_cycles_batch env client policy cached_routes now_nanos ids
         (note_probe (pe_less env) now_nanos canister_id result batch))"

section \<open>Reasons\<close>

definition skip_transient_probe_failure :: string where
  "skip_transient_probe_failure = ''transient_probe_failure''"
definition skip_target_unavailable :: string where
  "skip_target_unavailable = ''target_unavailable_after_consecutive_probe_failures''"
definition skip_unrecovered_cycle_deficit :: string where
  "skip_unrecovered_cycle_deficit = ''unrecovered_cycle_deficit''"

section \<open>Probe failures\<close>

definition probe_status :: "(principal \<Rightarrow> principal \<Rightarrow> bool) \<Rightarrow> (principal \<times> cycles_snapshot) list \<Rightarrow> principal
    \<Rightarrow> (principal \<times> u32) list \<Rightarrow> target_probe_status \<times> (principal \<times> u32) list" where
  "probe_status lt current_cycles canister_id consecutive =
     (let observed = map_of current_cycles canister_id \<noteq> None;
          failures = (if observed then 0 else sat_add (case_option 0 id (map_of consecutive canister_id)) 1);
          classification = classify_target_probe observed failures
      in (\<lparr>tp_canister_id = canister_id, tp_consecutive_probe_failures = failures,
           tp_classification = classification,
           tp_skipped_reason = (case classification of Observable \<Rightarrow> None
             | TransientProbeFailure _ \<Rightarrow> Some skip_transient_probe_failure
             | UnavailableAfterConsecutiveFailures _ \<Rightarrow> Some skip_target_unavailable)\<rparr>,
          map_put lt canister_id failures consecutive))"

fun probe_statuses :: "(principal \<Rightarrow> principal \<Rightarrow> bool) \<Rightarrow> (principal \<times> cycles_snapshot) list \<Rightarrow> principal list
    \<Rightarrow> (principal \<times> u32) list \<Rightarrow> target_probe_status list \<times> (principal \<times> u32) list" where
  "probe_statuses lt current_cycles [] consecutive = ([], consecutive)"
| "probe_statuses lt current_cycles (c # cs) consecutive =
     (case probe_status lt current_cycles c consecutive of (status, consecutive1) \<Rightarrow>
      case probe_statuses lt current_cycles cs consecutive1 of (statuses, consecutive2) \<Rightarrow>
        (status # statuses, consecutive2))"

definition update_consecutive_probe_failures :: "(principal \<Rightarrow> principal \<Rightarrow> bool) \<Rightarrow> principal list
    \<Rightarrow> (principal \<times> cycles_snapshot) list \<Rightarrow> probe_failure list \<Rightarrow> 'p rstate
    \<Rightarrow> (target_probe_status list \<times> probe_failure list) \<times> 'p rstate" where
  "update_consecutive_probe_failures lt managed current_cycles probe_failures st =
     (let failures = map_of (rev (map (\<lambda>f. (pf_canister_id f, pf_error f)) probe_failures)) in
      case probe_statuses lt current_cycles managed
        (map_retain (\<lambda>c. c \<in> set managed) (rs_consecutive_probe_failures st)) of
        (statuses, consecutive) \<Rightarrow>
          ((statuses, List.map_filter (\<lambda>status. map_option
              (\<lambda>error. \<lparr>pf_canister_id = tp_canister_id status, pf_error = error,
                pf_consecutive_failures = tp_consecutive_probe_failures status\<rparr>)
              (failures (tp_canister_id status))) statuses),
           st\<lparr>rs_consecutive_probe_failures := consecutive\<rparr>))"

section \<open>Summaries\<close>

definition topup_gross :: "canister_burn_sample list \<Rightarrow> u64" where
  "topup_gross canisters = sum_list (map cb_gross_share_e8s (filter (\<lambda>c. cb_amount_e8s c > 0) canisters))"

definition surplus_gross :: "surplus_transfer_sample list \<Rightarrow> u64" where
  "surplus_gross surplus = sum_list (map xs_gross_share_e8s (filter (\<lambda>x. xs_amount_e8s x > 0) surplus))"

definition retained_e8s :: "u64 \<Rightarrow> canister_burn_sample list \<Rightarrow> surplus_transfer_sample list \<Rightarrow> u64" where
  "retained_e8s balance canisters surplus =
     sat_sub balance (sat_add (topup_gross canisters) (surplus_gross surplus))"

definition build_no_funds_summary :: "u64 \<Rightarrow> u32 \<Rightarrow> u128 option \<Rightarrow> u64 \<Rightarrow> u64 \<Rightarrow> bool
    \<Rightarrow> (principal \<times> cycles_snapshot) list \<Rightarrow> (principal \<times> cycles_snapshot) list \<Rightarrow> (principal \<times> u128) list
    \<Rightarrow> (principal \<times> u128) list \<Rightarrow> relay_summary" where
  "build_no_funds_summary now_nanos managed_canister_count min_cycles balance fee has_raw_icp_recipients
       current_cycles previous relay_minted recovery_deficits =
     (let allocation = (if has_raw_icp_recipients
            then build_allocation_plan current_cycles previous relay_minted recovery_deficits balance fee
              None now_nanos
            else build_spend_all_cycles_plan current_cycles previous relay_minted recovery_deficits balance fee);
          canisters = map burn_sample_of (al_topups allocation)
      in (refresh_canister_totals
           ((relay_summary_started NoFunds now_nanos managed_canister_count)\<lparr>
             ry_completed_at_ts_nanos := Some now_nanos,
             ry_default_account_balance_start_e8s := balance,
             ry_fee_e8s := fee,
             ry_min_cycles_balance := min_cycles,
             ry_skipped_surplus_reason := Some ''no_surplus'',
             ry_canisters := canisters,
             ry_total_burn_cycles := sum_list (map cb_burn_cycles canisters)\<rparr>))
         \<lparr>ry_planned_retained_e8s := balance, ry_known_unspent_e8s := balance\<rparr>)"

text \<open>The smallest balance of the observed canisters.\<close>

definition min_cycles_of :: "(principal \<times> cycles_snapshot) list \<Rightarrow> u128 option" where
  "min_cycles_of current_cycles = (case map (cy_cycles \<circ> snd) current_cycles of [] \<Rightarrow> None
     | c # cs \<Rightarrow> Some (fold min cs c))"

section \<open>The surplus phase\<close>

definition surplus_allowed_after_topups :: "relay_job \<Rightarrow> string + unit" where
  "surplus_allowed_after_topups job =
     (if ry_failed_transfers (rj_summary job) \<noteq> 0 then Inl ''topup_transfer_failed''
      else if ry_ambiguous_transfers (rj_summary job) \<noteq> 0 then Inl ''topup_transfer_ambiguous''
      else if ry_cmc_notify_failed_count (rj_summary job) \<noteq> 0 then Inl ''cmc_notify_failed''
      else if ry_cmc_notify_ambiguous_count (rj_summary job) \<noteq> 0 then Inl ''cmc_notify_ambiguous''
      else if list_ex (\<lambda>sample. cb_remaining_deficit_cycles sample > 0) (rj_canisters job)
      then Inl skip_unrecovered_cycle_deficit else Inr ())"

definition without_surplus :: "string \<Rightarrow> relay_job \<Rightarrow> relay_job" where
  "without_surplus reason job =
     (let retained = retained_e8s (rj_balance_start_e8s job) (rj_canisters job) [] in
      job\<lparr>rj_surplus_transfers := [], rj_surplus_memos := [], rj_surplus_transfer_index := 0,
        rj_surplus_phase_planned := True,
        rj_summary := refresh_canister_totals ((rj_summary job)\<lparr>ry_surplus_e8s_before_fees := 0,
          ry_surplus_transfers := [], ry_skipped_surplus_reason := Some reason,
          ry_planned_retained_e8s := retained, ry_known_unspent_e8s := retained\<rparr>)\<rparr>)"

definition with_surplus :: "surplus_transfer_sample list \<Rightarrow> bytes option list \<Rightarrow> u64 \<Rightarrow> string option
    \<Rightarrow> relay_job \<Rightarrow> relay_job" where
  "with_surplus surplus memos surplus_e8s_before_fees skipped_surplus_reason job =
     (let retained = retained_e8s (rj_balance_start_e8s job) (rj_canisters job) surplus in
      job\<lparr>rj_surplus_transfers := surplus, rj_surplus_memos := memos, rj_surplus_transfer_index := 0,
        rj_surplus_phase_planned := True,
        rj_summary := refresh_canister_totals
          ((rj_summary job)\<lparr>ry_surplus_e8s_before_fees := surplus_e8s_before_fees,
            ry_surplus_transfers := surplus, ry_skipped_surplus_reason := skipped_surplus_reason,
            ry_planned_retained_e8s := retained, ry_known_unspent_e8s := retained\<rparr>)\<rparr>)"

definition topup_phase_done_and_surplus_unplanned :: "relay_job option \<Rightarrow> bool" where
  "topup_phase_done_and_surplus_unplanned active = (case active of None \<Rightarrow> False
     | Some job \<Rightarrow> length (rj_canisters job) \<le> unat (rj_next_transfer_index job)
         \<and> \<not> rj_surplus_phase_planned job)"

section \<open>Staging the next transfer\<close>

datatype transfer_plan_step = PlanPlanned | PlanPaused | PlanDone

definition next_job_created_at :: "u64 \<Rightarrow> relay_job \<Rightarrow> u64 \<times> relay_job" where
  "next_job_created_at now_nanos job =
     (let created_at = max (rj_next_created_at_time_nanos job) now_nanos
      in (created_at, job\<lparr>rj_next_created_at_time_nanos := sat_add created_at 1\<rparr>))"

definition stage_pending :: "relay_transfer_kind \<Rightarrow> u64 \<Rightarrow> u64 \<Rightarrow> u64 \<Rightarrow> relay_job \<Rightarrow> relay_job \<times> relay_transfer option" where
  "stage_pending kind gross_share_e8s amount_e8s now_nanos job =
     (case next_job_created_at now_nanos job of (created_at, job1) \<Rightarrow>
       let pending = \<lparr>rt_kind = kind, rt_gross_share_e8s = gross_share_e8s, rt_amount_e8s = amount_e8s,
         rt_created_at_time_nanos = created_at, rt_phase = RAwaitingTransfer\<rparr>
       in (job1\<lparr>rj_pending_transfer := Some pending\<rparr>, Some pending))"

text \<open>The loops take one turn per entry, and one to end.\<close>

fun next_topup_from :: "nat \<Rightarrow> u64 \<Rightarrow> relay_job \<Rightarrow> relay_job \<times> relay_transfer option" where
  "next_topup_from 0 now_nanos job = (job, None)"
| "next_topup_from (Suc fuel) now_nanos job =
     (let index = rj_next_transfer_index job in
      if unat index < length (rj_canisters job) then
        let job1 = job\<lparr>rj_next_transfer_index := sat_add index 1\<rparr>;
            sample = rj_canisters job ! unat index
        in if cb_amount_e8s sample = 0 then next_topup_from fuel now_nanos job1
           else stage_pending (CmcTopUp (cb_canister_id sample)) (cb_gross_share_e8s sample)
             (cb_amount_e8s sample) now_nanos job1
      else (job, None))"

definition next_topup_pending :: "u64 \<Rightarrow> relay_job \<Rightarrow> relay_job \<times> relay_transfer option" where
  "next_topup_pending now_nanos job = next_topup_from (Suc (length (rj_canisters job))) now_nanos job"

fun next_surplus_from :: "nat \<Rightarrow> u64 \<Rightarrow> relay_job \<Rightarrow> relay_job \<times> relay_transfer option" where
  "next_surplus_from 0 now_nanos job = (job, None)"
| "next_surplus_from (Suc fuel) now_nanos job =
     (let index = rj_surplus_transfer_index job in
      if unat index < length (rj_surplus_transfers job) then
        let job1 = job\<lparr>rj_surplus_transfer_index := sat_add index 1\<rparr>;
            plan = rj_surplus_transfers job ! unat index;
            memo = (if unat index < length (rj_surplus_memos job) then rj_surplus_memos job ! unat index else None)
        in if xs_amount_e8s plan = 0 then next_surplus_from fuel now_nanos job1
           else stage_pending (SurplusIcp (xs_target plan) (xs_account plan) memo) (xs_gross_share_e8s plan)
             (xs_amount_e8s plan) now_nanos job1
      else (job, None))"

definition next_surplus_pending :: "u64 \<Rightarrow> relay_job \<Rightarrow> relay_job \<times> relay_transfer option" where
  "next_surplus_pending now_nanos job =
     (if rj_surplus_transfers job = [] then (job, None)
      else case surplus_allowed_after_topups job of
        Inl reason \<Rightarrow> (job\<lparr>rj_surplus_transfers := [], rj_surplus_memos := [], rj_surplus_transfer_index := 0,
          rj_summary := (rj_summary job)\<lparr>ry_surplus_transfers := [], ry_surplus_e8s_before_fees := 0,
            ry_skipped_surplus_reason := Some reason\<rparr>\<rparr>, None)
      | Inr _ \<Rightarrow> next_surplus_from (Suc (length (rj_surplus_transfers job))) now_nanos job)"

definition topups_remain :: "relay_job \<Rightarrow> bool" where
  "topups_remain job \<longleftrightarrow>
     list_ex (\<lambda>sample. cb_amount_e8s sample > 0) (drop (unat (rj_next_transfer_index job)) (rj_canisters job))"

definition surplus_remains :: "relay_job \<Rightarrow> bool" where
  "surplus_remains job \<longleftrightarrow> list_ex (\<lambda>sample. xs_amount_e8s sample > 0)
     (drop (unat (rj_surplus_transfer_index job)) (rj_surplus_transfers job))"

text \<open>The step, the number of transfers started, the job, and the transfer that was staged.\<close>

definition plan_next_transfer :: "u32 option \<Rightarrow> u32 \<Rightarrow> u64 \<Rightarrow> relay_job
    \<Rightarrow> transfer_plan_step \<times> u32 \<times> relay_job \<times> relay_transfer option" where
  "plan_next_transfer max_transfers started now_nanos job =
     (if \<not> topups_remain job \<and> \<not> surplus_remains job
      then (PlanDone, started, job\<lparr>rj_next_transfer_index := word_of_nat (length (rj_canisters job)),
        rj_surplus_transfer_index := word_of_nat (length (rj_surplus_transfers job))\<rparr>, None)
      else if (case max_transfers of None \<Rightarrow> False | Some limit \<Rightarrow> limit \<le> started)
      then (PlanPaused, started, job\<lparr>rj_summary := (rj_summary job)\<lparr>ry_partial_tick_count :=
        sat_add (ry_partial_tick_count (rj_summary job)) 1\<rparr>\<rparr>, None)
      else case next_topup_pending now_nanos job of
        (job1, Some pending) \<Rightarrow> (PlanPlanned, sat_add started 1, job1, Some pending)
      | (job1, None) \<Rightarrow> (case next_surplus_pending now_nanos job1 of
          (job2, Some pending) \<Rightarrow> (PlanPlanned, sat_add started 1, job2, Some pending)
        | (job2, None) \<Rightarrow> (PlanDone, started, job2, None)))"

section \<open>Completing a job\<close>

definition retain_effective_targets :: "principal list \<Rightarrow> 'p rstate \<Rightarrow> 'p rstate" where
  "retain_effective_targets effective st =
     st\<lparr>rs_last_completed_cycles := map_retain (\<lambda>c. c \<in> set effective) (rs_last_completed_cycles st),
        rs_relay_minted_cycles_since_sample :=
          map_retain (\<lambda>c. c \<in> set effective) (rs_relay_minted_cycles_since_sample st),
        rs_recovery_deficit_cycles := map_retain (\<lambda>c. c \<in> set effective) (rs_recovery_deficit_cycles st)\<rparr>"

definition retain_current_effective_targets :: "relay_summary \<Rightarrow> 'p rstate \<Rightarrow> 'p rstate" where
  "retain_current_effective_targets summary st =
     (let effective = map tp_canister_id (ry_target_probe_statuses summary)
      in if effective = [] then st else retain_effective_targets effective st)"

definition persist_recovery_deficits_from_samples :: "(principal \<Rightarrow> principal \<Rightarrow> bool)
    \<Rightarrow> canister_burn_sample list \<Rightarrow> 'p rstate \<Rightarrow> 'p rstate" where
  "persist_recovery_deficits_from_samples lt samples st =
     st\<lparr>rs_recovery_deficit_cycles := fold (\<lambda>sample m.
        if cb_remaining_deficit_cycles sample > 0
        then map_put lt (cb_canister_id sample) (cb_remaining_deficit_cycles sample) m
        else map_drop (cb_canister_id sample) m) samples (rs_recovery_deficit_cycles st)\<rparr>"

definition refresh_deficit :: "canister_burn_sample \<Rightarrow> canister_burn_sample" where
  "refresh_deficit sample = sample\<lparr>cb_remaining_deficit_cycles :=
     sat_sub (cb_target_topup_cycles sample) (cb_actual_minted_cycles sample)\<rparr>"

definition copy_outcome :: "canister_burn_sample list \<Rightarrow> canister_burn_sample \<Rightarrow> canister_burn_sample" where
  "copy_outcome samples summary_sample =
     (case find (\<lambda>sample. cb_canister_id sample = cb_canister_id summary_sample) samples of
        None \<Rightarrow> summary_sample
      | Some sample \<Rightarrow> summary_sample\<lparr>cb_actual_minted_cycles := cb_actual_minted_cycles sample,
          cb_remaining_deficit_cycles := cb_remaining_deficit_cycles sample,
          cb_sent_topup_e8s := cb_sent_topup_e8s sample\<rparr>)"

definition complete_job :: "(principal \<Rightarrow> principal \<Rightarrow> bool) \<Rightarrow> u64 \<Rightarrow> 'p rstate \<Rightarrow> 'p rstate" where
  "complete_job lt now_nanos st = (case rs_active_job st of None \<Rightarrow> st
     | Some job \<Rightarrow>
         let canisters = map refresh_deficit (rj_canisters job);
             summary = refresh_canister_totals ((rj_summary job)\<lparr>
               ry_canisters := map (copy_outcome canisters) (ry_canisters (rj_summary job)),
               ry_completed_at_ts_nanos := Some now_nanos\<rparr>);
             st1 = retain_current_effective_targets summary (st\<lparr>rs_active_job := None\<rparr>);
             st2 = st1\<lparr>rs_last_completed_cycles := fold (\<lambda>(c, snapshot). map_put lt c snapshot)
               (rj_current_cycles job) (rs_last_completed_cycles st1)\<rparr>
         in (persist_recovery_deficits_from_samples lt canisters st2)\<lparr>rs_last_summary := Some summary\<rparr>)"

text \<open>What a changed ledger fee leaves unsent.\<close>

definition remaining_topup_gross :: "relay_job \<Rightarrow> u64" where
  "remaining_topup_gross job = foldl sat_add 0 (map cb_gross_share_e8s
     (filter (\<lambda>sample. cb_amount_e8s sample > 0) (drop (unat (rj_next_transfer_index job)) (rj_canisters job))))"

definition remaining_surplus_gross :: "relay_job \<Rightarrow> u64" where
  "remaining_surplus_gross job = foldl sat_add 0 (map xs_gross_share_e8s
     (filter (\<lambda>sample. xs_amount_e8s sample > 0)
       (drop (unat (rj_surplus_transfer_index job)) (rj_surplus_transfers job))))"

definition stop_active_job_for_ledger_fee_change :: "(principal \<Rightarrow> principal \<Rightarrow> bool) \<Rightarrow> u64
    \<Rightarrow> 'p rstate \<Rightarrow> 'p rstate" where
  "stop_active_job_for_ledger_fee_change lt now_nanos st = (case rs_active_job st of None \<Rightarrow> st
     | Some job \<Rightarrow> complete_job lt now_nanos (st\<lparr>rs_active_job := Some (job\<lparr>rj_summary := (rj_summary job)\<lparr>
         ry_known_unspent_e8s := sat_add (sat_add (ry_known_unspent_e8s (rj_summary job))
           (remaining_topup_gross job)) (remaining_surplus_gross job),
         ry_skipped_surplus_reason := Some ''ledger_fee_changed''\<rparr>\<rparr>)\<rparr>))"

definition complete_baseline_sample :: "(principal \<Rightarrow> principal \<Rightarrow> bool) \<Rightarrow> (principal \<times> cycles_snapshot) list
    \<Rightarrow> principal list \<Rightarrow> relay_summary \<Rightarrow> 'p rstate \<Rightarrow> 'p rstate" where
  "complete_baseline_sample lt current_cycles managed summary st =
     (let st1 = fold (\<lambda>(c, snapshot) st.
            if map_of (rs_last_completed_cycles st) c = None
            then st\<lparr>rs_last_completed_cycles := map_put lt c snapshot (rs_last_completed_cycles st),
              rs_relay_minted_cycles_since_sample := map_drop c (rs_relay_minted_cycles_since_sample st)\<rparr>
            else st) current_cycles (retain_effective_targets managed st)
      in st1\<lparr>rs_last_summary := Some summary\<rparr>)"

definition complete_no_funds_sample :: "(principal \<Rightarrow> principal \<Rightarrow> bool) \<Rightarrow> (principal \<times> cycles_snapshot) list
    \<Rightarrow> principal list \<Rightarrow> relay_summary \<Rightarrow> 'p rstate \<Rightarrow> 'p rstate" where
  "complete_no_funds_sample lt current_cycles managed summary st =
     (let st1 = fold (\<lambda>(c, snapshot) st.
            st\<lparr>rs_last_completed_cycles := map_put lt c snapshot (rs_last_completed_cycles st),
              rs_relay_minted_cycles_since_sample := map_drop c (rs_relay_minted_cycles_since_sample st)\<rparr>)
            current_cycles (retain_effective_targets managed st)
      in (persist_recovery_deficits_from_samples lt (ry_canisters summary) st1)\<lparr>rs_last_summary := Some summary\<rparr>)"

end
