(* ===== verification/RelayTransfer.thy ===== *)
theory RelayTransfer
  imports RelayJob RelaySplitter Asks
begin

text \<open>
  How the Relay drives a staged transfer (\<open>src/canisters/relay/src/scheduler/transfer.rs\<close>): one immediate
  retry, then acceptance, failure or ambiguity; a top-up is notified to the Cycles Minting Canister.  The
  timers that refresh a neuron afterwards are handlers of their own.
\<close>

text \<open>What a tick reads once: its clients, its time and its lease; \<open>rx_env\<close>, \<open>rx_cx\<close> and
  \<open>rx_account_key\<close> are the parameters of the model.\<close>

record relay_ctx =
  rx_env :: probe_env
  rx_cx :: candid_ops
  rx_account_key :: "account \<Rightarrow> account"
  rx_relay_id :: principal
  rx_ledger :: principal
  rx_cmc :: principal
  rx_governance :: principal
  rx_now :: u64
  rx_lease :: u64

section \<open>Calls\<close>

datatype transfer_attempt_outcome =
    AttemptAccepted u64
  | AttemptRetryable
  | AttemptBadFee nat
  | AttemptFailed

datatype notify_attempt_outcome =
    NotifySucceeded u128
  | NotifyAgain
  | NotifyNever

definition accepted_or_retry :: "nat \<Rightarrow> transfer_attempt_outcome" where
  "accepted_or_retry block_index =
     (if block_index < 2 ^ 64 then AttemptAccepted (word_of_nat block_index) else AttemptRetryable)"

definition relay_transfer_once :: "relay_resp \<Rightarrow> transfer_attempt_outcome" where
  "relay_transfer_once r = (case y_client_transfer r of
       Inr (Inr block_index) \<Rightarrow> accepted_or_retry block_index
     | Inr (Inl error) \<Rightarrow> (case error of
         Duplicate duplicate_of \<Rightarrow> accepted_or_retry duplicate_of
       | TemporarilyUnavailable \<Rightarrow> AttemptRetryable
       | CreatedInFuture _ \<Rightarrow> AttemptRetryable
       | GenericError _ _ \<Rightarrow> AttemptRetryable
       | BadFee expected_fee \<Rightarrow> AttemptBadFee expected_fee
       | _ \<Rightarrow> AttemptFailed)
     | Inl _ \<Rightarrow> AttemptRetryable)"

definition relay_notify_once :: "relay_resp \<Rightarrow> notify_attempt_outcome" where
  "relay_notify_once r = (case r of
       RsNotify (Inr result) \<Rightarrow> (case classify_notify_top_up_result result of
           Inr cycles \<Rightarrow> NotifySucceeded cycles
         | Inl (NotifyTerminal _) \<Rightarrow> NotifyNever
         | Inl _ \<Rightarrow> NotifyAgain)
     | _ \<Rightarrow> NotifyAgain)"

section \<open>The transfer of a pending entry\<close>

definition destination_for_pending :: "principal \<Rightarrow> relay_transfer \<Rightarrow> account" where
  "destination_for_pending cmc_id pending = (case rt_kind pending of
       CmcTopUp canister_id \<Rightarrow> cmc_deposit_account cmc_id canister_id
     | SurplusIcp _ account _ \<Rightarrow> account
     | FaucetCommitment _ account _ _ \<Rightarrow> account)"

definition from_subaccount_for_pending :: "relay_transfer \<Rightarrow> subaccount option" where
  "from_subaccount_for_pending pending = (case rt_kind pending of
       FaucetCommitment _ _ from_subaccount _ \<Rightarrow> Some from_subaccount | _ \<Rightarrow> None)"

definition memo_for_pending :: "relay_transfer \<Rightarrow> bytes option" where
  "memo_for_pending pending = (case rt_kind pending of
       CmcTopUp _ \<Rightarrow> Some (u64_to_le_bytes memo_top_up_canister_u64)
     | SurplusIcp _ _ memo \<Rightarrow> memo
     | FaucetCommitment _ _ _ memo \<Rightarrow> Some memo)"

definition pending_transfer_arg :: "principal \<Rightarrow> u64 \<Rightarrow> relay_transfer \<Rightarrow> transfer_arg" where
  "pending_transfer_arg cmc_id fee_e8s pending =
     \<lparr>ta_from_subaccount = from_subaccount_for_pending pending,
      ta_to = destination_for_pending cmc_id pending, ta_fee = Some (unat fee_e8s),
      ta_created_at_time = Some (rt_created_at_time_nanos pending),
      ta_memo = memo_for_pending pending, ta_amount = unat (rt_amount_e8s pending)\<rparr>"

section \<open>Marking the pending transfer of the job\<close>

definition pending_matches :: "u64 \<Rightarrow> relay_transfer \<Rightarrow> 'p relay_world \<Rightarrow> bool" where
  "pending_matches job_id expected w \<longleftrightarrow> (case rs_active_job (yw_st w) of None \<Rightarrow> False
     | Some job \<Rightarrow> rj_id job = job_id \<and> rj_pending_transfer job = Some expected)"

text \<open>Every mark does nothing unless the job still has the expected pending transfer.\<close>

definition with_matched_job :: "u64 \<Rightarrow> relay_transfer \<Rightarrow> (relay_job \<Rightarrow> relay_job) \<Rightarrow> 'p relay_world \<Rightarrow> 'p relay_world" where
  "with_matched_job job_id expected f w = (case rs_active_job (yw_st w) of None \<Rightarrow> w
     | Some job \<Rightarrow> if rj_id job = job_id \<and> rj_pending_transfer job = Some expected
         then y_with_state_mut (\<lambda>st. st\<lparr>rs_active_job := Some (f job)\<rparr>) w else w)"

definition settle_summary :: "(relay_summary \<Rightarrow> relay_summary) \<Rightarrow> relay_job \<Rightarrow> relay_job" where
  "settle_summary f job = job\<lparr>rj_pending_transfer := None,
     rj_summary := refresh_canister_totals (f (rj_summary job))\<rparr>"

definition mark_pending_failed :: "u64 \<Rightarrow> relay_transfer \<Rightarrow> 'p relay_world \<Rightarrow> 'p relay_world" where
  "mark_pending_failed job_id expected = with_matched_job job_id expected (settle_summary
     (\<lambda>s. s\<lparr>ry_failed_transfers := sat_add (ry_failed_transfers s) 1,
       ry_known_unspent_e8s := sat_add (ry_known_unspent_e8s s) (rt_gross_share_e8s expected)\<rparr>))"

definition mark_pending_failed_after_acceptance :: "u64 \<Rightarrow> relay_transfer \<Rightarrow> 'p relay_world \<Rightarrow> 'p relay_world" where
  "mark_pending_failed_after_acceptance job_id expected = with_matched_job job_id expected (settle_summary
     (\<lambda>s. s\<lparr>ry_failed_transfers := sat_add (ry_failed_transfers s) 1,
       ry_cmc_notify_failed_count := sat_add (ry_cmc_notify_failed_count s) 1\<rparr>))"

definition mark_pending_ambiguous :: "u64 \<Rightarrow> relay_transfer \<Rightarrow> 'p relay_world \<Rightarrow> 'p relay_world" where
  "mark_pending_ambiguous job_id expected = with_matched_job job_id expected (settle_summary
     (\<lambda>s. s\<lparr>ry_ambiguous_transfers := sat_add (ry_ambiguous_transfers s) 1,
       ry_ambiguous_e8s := sat_add (ry_ambiguous_e8s s) (rt_gross_share_e8s expected)\<rparr>))"

definition mark_pending_ambiguous_after_acceptance :: "u64 \<Rightarrow> relay_transfer \<Rightarrow> 'p relay_world \<Rightarrow> 'p relay_world" where
  "mark_pending_ambiguous_after_acceptance job_id expected = with_matched_job job_id expected (settle_summary
     (\<lambda>s. s\<lparr>ry_ambiguous_transfers := sat_add (ry_ambiguous_transfers s) 1,
       ry_cmc_notify_ambiguous_count := sat_add (ry_cmc_notify_ambiguous_count s) 1,
       ry_ambiguous_e8s := sat_add (ry_ambiguous_e8s s) (rt_gross_share_e8s expected)\<rparr>))"

definition add_sent :: "principal \<Rightarrow> u64 \<Rightarrow> canister_burn_sample list \<Rightarrow> canister_burn_sample list" where
  "add_sent canister_id amount_e8s = update_first (\<lambda>sample. cb_canister_id sample = canister_id)
     (\<lambda>sample. sample\<lparr>cb_sent_topup_e8s := sat_add (cb_sent_topup_e8s sample) amount_e8s\<rparr>)"

definition ledger_accepted_job :: "relay_transfer \<Rightarrow> u64 \<Rightarrow> relay_job \<Rightarrow> relay_job" where
  "ledger_accepted_job pending block_index job =
     (let job1 = (case rt_kind pending of
            CmcTopUp canister_id \<Rightarrow> job\<lparr>
              rj_canisters := add_sent canister_id (rt_amount_e8s pending) (rj_canisters job),
              rj_summary := refresh_canister_totals ((rj_summary job)\<lparr>
                ry_canisters := add_sent canister_id (rt_amount_e8s pending) (ry_canisters (rj_summary job))\<rparr>)\<rparr>
          | _ \<Rightarrow> job);
          s = rj_summary job1
      in job1\<lparr>rj_pending_transfer := Some (pending\<lparr>rt_phase := RTransferAccepted block_index\<rparr>),
        rj_summary := s\<lparr>ry_transfer_count := sat_add (ry_transfer_count s) 1,
          ry_ledger_transfer_count := sat_add (ry_ledger_transfer_count s) 1,
          ry_ledger_sent_e8s := sat_add (ry_ledger_sent_e8s s) (rt_amount_e8s pending),
          ry_ledger_fees_e8s := sat_add (ry_ledger_fees_e8s s) (rj_fee_e8s job)\<rparr>\<rparr>)"

definition mark_pending_ledger_accepted :: "u64 \<Rightarrow> relay_transfer \<Rightarrow> u64 \<Rightarrow> 'p relay_world
    \<Rightarrow> relay_transfer option \<times> 'p relay_world" where
  "mark_pending_ledger_accepted job_id expected block_index w =
     (if pending_matches job_id expected w
      then (Some (expected\<lparr>rt_phase := RTransferAccepted block_index\<rparr>),
        with_matched_job job_id expected (ledger_accepted_job expected block_index) w)
      else (None, w))"

definition add_minted :: "principal \<Rightarrow> u128 \<Rightarrow> canister_burn_sample list \<Rightarrow> canister_burn_sample list" where
  "add_minted canister_id minted_cycles = update_first (\<lambda>sample. cb_canister_id sample = canister_id)
     (\<lambda>sample. refresh_deficit
       (sample\<lparr>cb_actual_minted_cycles := sat_add (cb_actual_minted_cycles sample) minted_cycles\<rparr>))"

definition completed_job :: "bool \<Rightarrow> (principal \<times> u128) option \<Rightarrow> relay_job \<Rightarrow> relay_job" where
  "completed_job cmc_notify_succeeded minted job =
     (let s = rj_summary job;
          s1 = (if cmc_notify_succeeded
            then s\<lparr>ry_cmc_notify_success_count := sat_add (ry_cmc_notify_success_count s) 1\<rparr> else s);
          job1 = job\<lparr>rj_pending_transfer := None, rj_summary := s1\<rparr>
      in case minted of None \<Rightarrow> job1
        | Some (canister_id, minted_cycles) \<Rightarrow> job1\<lparr>
            rj_canisters := add_minted canister_id minted_cycles (rj_canisters job1),
            rj_summary := refresh_canister_totals
              (s1\<lparr>ry_canisters := add_minted canister_id minted_cycles (ry_canisters s1)\<rparr>)\<rparr>)"

definition note_minted :: "(principal \<Rightarrow> principal \<Rightarrow> bool) \<Rightarrow> (principal \<times> u128) option \<Rightarrow> 'p relay_world \<Rightarrow> 'p relay_world" where
  "note_minted lt minted w = (case minted of None \<Rightarrow> w
     | Some (canister_id, minted_cycles) \<Rightarrow> y_with_state_mut (\<lambda>st. st\<lparr>rs_relay_minted_cycles_since_sample :=
         map_put lt canister_id (sat_add (case_option 0 id
           (map_of (rs_relay_minted_cycles_since_sample st) canister_id)) minted_cycles)
           (rs_relay_minted_cycles_since_sample st)\<rparr>) w)"

definition mark_pending_completed :: "(principal \<Rightarrow> principal \<Rightarrow> bool) \<Rightarrow> u64 \<Rightarrow> relay_transfer \<Rightarrow> bool
    \<Rightarrow> (principal \<times> u128) option \<Rightarrow> 'p relay_world \<Rightarrow> 'p relay_world" where
  "mark_pending_completed lt job_id expected cmc_notify_succeeded minted w =
     (if pending_matches job_id expected w
      then note_minted lt minted (with_matched_job job_id expected (completed_job cmc_notify_succeeded minted) w)
      else w)"

section \<open>Driving the pending transfer of the job\<close>

text \<open>The ghost list of transfers sent for the active job.\<close>

definition note_job_sent :: "transfer_arg \<Rightarrow> 'p relay_world \<Rightarrow> 'p relay_world" where
  "note_job_sent arg w = w\<lparr>yw_job_sent := arg # yw_job_sent w\<rparr>"

definition notify_second :: "relay_ctx \<Rightarrow> u64 \<Rightarrow> relay_transfer \<Rightarrow> principal \<Rightarrow> notify_attempt_outcome
    \<Rightarrow> relay_resp \<Rightarrow> 'p relay_world \<Rightarrow> ('p, bool) relay_proc" where
  "notify_second cx job_id accepted canister_id first r w =
     (if \<not> pending_matches job_id accepted w then Done w False
      else case relay_notify_once r of
        NotifySucceeded minted_cycles \<Rightarrow> Done (mark_pending_completed (pe_less (rx_env cx)) job_id accepted True
          (Some (canister_id, minted_cycles)) w) True
      | NotifyNever \<Rightarrow> Done (if first = NotifyNever
          then mark_pending_failed_after_acceptance job_id accepted w
          else mark_pending_ambiguous_after_acceptance job_id accepted w) True
      | NotifyAgain \<Rightarrow> Done (mark_pending_ambiguous_after_acceptance job_id accepted w) True)"

definition notify_first :: "relay_ctx \<Rightarrow> u64 \<Rightarrow> relay_transfer \<Rightarrow> principal \<Rightarrow> u64
    \<Rightarrow> relay_resp \<Rightarrow> 'p relay_world \<Rightarrow> ('p, bool) relay_proc" where
  "notify_first cx job_id accepted canister_id block_index r w =
     (if \<not> pending_matches job_id accepted w then Done w False
      else case relay_notify_once r of
        NotifySucceeded minted_cycles \<Rightarrow> Done (mark_pending_completed (pe_less (rx_env cx)) job_id accepted True
          (Some (canister_id, minted_cycles)) w) True
      | first \<Rightarrow> Await w (RqNotifyTopUp (rx_cmc cx) canister_id block_index)
          (notify_second cx job_id accepted canister_id first))"

definition settle_accepted :: "relay_ctx \<Rightarrow> u64 \<Rightarrow> relay_transfer \<Rightarrow> 'p relay_world \<Rightarrow> ('p, bool) relay_proc" where
  "settle_accepted cx job_id accepted w = (case rt_phase accepted of
       RAwaitingTransfer \<Rightarrow> Done w False
     | RTransferAccepted block_index \<Rightarrow> (case rt_kind accepted of
         CmcTopUp canister_id \<Rightarrow> Await w (RqNotifyTopUp (rx_cmc cx) canister_id block_index)
           (notify_first cx job_id accepted canister_id block_index)
       | _ \<Rightarrow> Done (mark_pending_completed (pe_less (rx_env cx)) job_id accepted False None w) True))"

definition pending_accepted :: "relay_ctx \<Rightarrow> u64 \<Rightarrow> relay_transfer \<Rightarrow> u64 \<Rightarrow> 'p relay_world \<Rightarrow> ('p, bool) relay_proc" where
  "pending_accepted cx job_id staged block_index w =
     (if \<not> pending_matches job_id staged w then Done w False
      else case mark_pending_ledger_accepted job_id staged block_index w of
        (None, w1) \<Rightarrow> Done w1 False
      | (Some accepted, w1) \<Rightarrow> settle_accepted cx job_id accepted w1)"

definition stop_for_fee_change :: "relay_ctx \<Rightarrow> 'p relay_world \<Rightarrow> 'p relay_world" where
  "stop_for_fee_change cx = y_with_state_mut (stop_active_job_for_ledger_fee_change (pe_less (rx_env cx)) (rx_now cx))"

definition transfer_second :: "relay_ctx \<Rightarrow> u64 \<Rightarrow> relay_transfer \<Rightarrow> relay_resp \<Rightarrow> 'p relay_world
    \<Rightarrow> ('p, bool) relay_proc" where
  "transfer_second cx job_id staged r w = (case relay_transfer_once r of
       AttemptAccepted block_index \<Rightarrow> pending_accepted cx job_id staged block_index w
     | AttemptBadFee expected_fee \<Rightarrow>
         if \<not> pending_matches job_id staged w then Done w False
         else Done (stop_for_fee_change cx
           (mark_pending_ambiguous job_id staged (record_bad_fee expected_fee w))) True
     | _ \<Rightarrow>
         if \<not> pending_matches job_id staged w then Done w False
         else Done (mark_pending_ambiguous job_id staged w) True)"

definition transfer_first :: "relay_ctx \<Rightarrow> u64 \<Rightarrow> relay_transfer \<Rightarrow> transfer_arg \<Rightarrow> relay_resp \<Rightarrow> 'p relay_world
    \<Rightarrow> ('p, bool) relay_proc" where
  "transfer_first cx job_id staged arg r w = (case relay_transfer_once r of
       AttemptAccepted block_index \<Rightarrow> pending_accepted cx job_id staged block_index w
     | AttemptRetryable \<Rightarrow>
         if \<not> pending_matches job_id staged w then Done w False
         else Await (note_job_sent arg w) (RqTransfer (rx_ledger cx) arg) (transfer_second cx job_id staged)
     | AttemptBadFee expected_fee \<Rightarrow>
         if \<not> pending_matches job_id staged w then Done w False
         else Done (stop_for_fee_change cx
           (mark_pending_failed job_id staged (record_bad_fee expected_fee w))) True
     | AttemptFailed \<Rightarrow>
         if \<not> pending_matches job_id staged w then Done w False
         else Done (mark_pending_failed job_id staged w) True)"

definition drive_pending_transfer :: "relay_ctx \<Rightarrow> 'p relay_world \<Rightarrow> ('p, bool) relay_proc" where
  "drive_pending_transfer cx w = (case rs_active_job (yw_st w) of None \<Rightarrow> Done w True
     | Some job \<Rightarrow> (case rj_pending_transfer job of None \<Rightarrow> Done w True
       | Some staged \<Rightarrow> (case rt_phase staged of
           RTransferAccepted _ \<Rightarrow> settle_accepted cx (rj_id job) staged w
         | RAwaitingTransfer \<Rightarrow>
             if \<not> created_at_time_is_valid (rt_created_at_time_nanos staged) (rx_now cx)
             then Done (mark_pending_ambiguous (rj_id job) staged w) True
             else let arg = pending_transfer_arg (rcf_cmc_canister_id (rs_config (yw_st w))) (rj_fee_e8s job) staged in
               Await (note_job_sent arg w) (RqTransfer (rx_ledger cx) arg)
                 (transfer_first cx (rj_id job) staged arg))))"

section \<open>The commitment of subaccount 1\<close>

definition faucet_commitment_matches :: "faucet_commitment_transfer \<Rightarrow> 'p relay_world \<Rightarrow> bool" where
  "faucet_commitment_matches expected w \<longleftrightarrow> rs_active_faucet_commitment_transfer (yw_st w) = Some expected"

text \<open>Completed, failed and ambiguous commitments are all taken out of their slot and logged.\<close>

definition mark_faucet_commitment_ended :: "faucet_commitment_transfer \<Rightarrow> 'p relay_world \<Rightarrow> 'p relay_world" where
  "mark_faucet_commitment_ended expected w =
     (if faucet_commitment_matches expected w
      then y_with_state_mut (\<lambda>st. st\<lparr>rs_active_faucet_commitment_transfer := None\<rparr>) w else w)"

definition mark_faucet_commitment_ledger_accepted :: "faucet_commitment_transfer \<Rightarrow> u64 \<Rightarrow> 'p relay_world
    \<Rightarrow> faucet_commitment_transfer option \<times> 'p relay_world" where
  "mark_faucet_commitment_ledger_accepted expected block_index w =
     (if \<not> faucet_commitment_matches expected w then (None, w)
      else let active = expected\<lparr>fx_transfer := (fx_transfer expected)\<lparr>rt_phase := RTransferAccepted block_index\<rparr>\<rparr>
        in (Some active, y_with_state_mut (\<lambda>st. st\<lparr>rs_active_faucet_commitment_transfer := Some active\<rparr>) w))"

definition settle_commitment :: "faucet_commitment_transfer \<Rightarrow> 'p relay_world \<Rightarrow> ('p, bool) relay_proc" where
  "settle_commitment accepted w = (case rt_kind (fx_transfer accepted) of
       FaucetCommitment _ _ _ _ \<Rightarrow> Done (mark_faucet_commitment_ended accepted w) True
     | _ \<Rightarrow> Done w True)"

definition commitment_accepted :: "faucet_commitment_transfer \<Rightarrow> u64 \<Rightarrow> 'p relay_world \<Rightarrow> ('p, bool) relay_proc" where
  "commitment_accepted staged block_index w =
     (if \<not> faucet_commitment_matches staged w then Done w False
      else case mark_faucet_commitment_ledger_accepted staged block_index w of
        (None, w1) \<Rightarrow> Done w1 False
      | (Some accepted, w1) \<Rightarrow> settle_commitment accepted w1)"

definition commitment_second :: "faucet_commitment_transfer \<Rightarrow> relay_resp \<Rightarrow> 'p relay_world \<Rightarrow> ('p, bool) relay_proc" where
  "commitment_second staged r w = (case relay_transfer_once r of
       AttemptAccepted block_index \<Rightarrow> commitment_accepted staged block_index w
     | AttemptBadFee expected_fee \<Rightarrow>
         if \<not> faucet_commitment_matches staged w then Done w False
         else Done (mark_faucet_commitment_ended staged (record_bad_fee expected_fee w)) True
     | _ \<Rightarrow>
         if \<not> faucet_commitment_matches staged w then Done w False
         else Done (mark_faucet_commitment_ended staged w) True)"

definition commitment_first :: "relay_ctx \<Rightarrow> faucet_commitment_transfer \<Rightarrow> transfer_arg \<Rightarrow> relay_resp
    \<Rightarrow> 'p relay_world \<Rightarrow> ('p, bool) relay_proc" where
  "commitment_first cx staged arg r w = (case relay_transfer_once r of
       AttemptAccepted block_index \<Rightarrow> commitment_accepted staged block_index w
     | AttemptRetryable \<Rightarrow>
         if \<not> faucet_commitment_matches staged w then Done w False
         else Await w (RqTransfer (rx_ledger cx) arg) (commitment_second staged)
     | AttemptBadFee expected_fee \<Rightarrow>
         if \<not> faucet_commitment_matches staged w then Done w False
         else Done (mark_faucet_commitment_ended staged (record_bad_fee expected_fee w)) True
     | AttemptFailed \<Rightarrow>
         if \<not> faucet_commitment_matches staged w then Done w False
         else Done (mark_faucet_commitment_ended staged w) True)"

text \<open>The destination of a commitment does not depend on the canister given for top-ups.\<close>

definition drive_pending_faucet_commitment_transfer :: "relay_ctx \<Rightarrow> 'p relay_world \<Rightarrow> ('p, bool) relay_proc" where
  "drive_pending_faucet_commitment_transfer cx w =
     (case rs_active_faucet_commitment_transfer (yw_st w) of None \<Rightarrow> Done w True
      | Some staged \<Rightarrow> (case rt_phase (fx_transfer staged) of
          RTransferAccepted _ \<Rightarrow> settle_commitment staged w
        | RAwaitingTransfer \<Rightarrow>
            if \<not> created_at_time_is_valid (rt_created_at_time_nanos (fx_transfer staged)) (rx_now cx)
            then Done (mark_faucet_commitment_ended staged w) True
            else let arg = pending_transfer_arg (principal_management (rx_cx cx)) (fx_fee_e8s staged) (fx_transfer staged) in
              Await w (RqTransfer (rx_ledger cx) arg) (commitment_first cx staged arg)))"

end
