(* ===== verification/RelayTick.thy ===== *)
theory RelayTick
  imports RelayTransfer RelayLifecycle
begin

text \<open>
  The Relay's main tick and its pokes (\<open>src/canisters/relay/src/scheduler/tick.rs\<close>, \<open>poke.rs\<close>,
  \<open>MainGuard\<close> of \<open>guards.rs\<close>): the funding pipeline runs the splitter stage, the commitment of
  subaccount 1 and the daily job under the main lease.  The reward sweep is one request; its slices touch
  nothing of this state.
\<close>

section \<open>The main lease\<close>

definition main_guard_acquire :: "nat \<Rightarrow> u64 \<Rightarrow> 'p relay_world \<Rightarrow> (timer_lease_guard \<times> 'p relay_world) option" where
  "main_guard_acquire handler now_secs w =
     (case tlg_acquire now_secs main_lease_seconds (rs_main_lock_state_ts (yw_st w)) of
        None \<Rightarrow> None
      | Some inner \<Rightarrow> Some (inner, y_with_state_mut
          (\<lambda>st. st\<lparr>rs_main_lock_state_ts := Some (tlg_expires inner)\<rparr>) (w\<lparr>yw_main_owner := Some handler\<rparr>)))"

definition main_lease_is_current :: "u64 \<Rightarrow> 'p relay_world \<Rightarrow> bool" where
  "main_lease_is_current token w \<longleftrightarrow> rs_main_lock_state_ts (yw_st w) = Some token"

definition main_guard_is_current :: "timer_lease_guard \<Rightarrow> 'p relay_world \<Rightarrow> bool" where
  "main_guard_is_current inner w \<longleftrightarrow> tlg_active inner \<and> rs_main_lock_state_ts (yw_st w) = Some (tlg_expires inner)"

definition main_guard_release :: "timer_lease_guard \<Rightarrow> 'p relay_world \<Rightarrow> 'p relay_world" where
  "main_guard_release inner w =
     (if fst (tlg_release inner (rs_main_lock_state_ts (yw_st w))) = Released
      then y_with_state_mut (\<lambda>st. st\<lparr>rs_main_lock_state_ts := Some 0\<rparr>) (w\<lparr>yw_main_owner := None\<rparr>) else w)"

definition main_guard_finish :: "timer_lease_guard \<Rightarrow> u64 \<Rightarrow> 'p relay_world \<Rightarrow> 'p relay_world" where
  "main_guard_finish inner now_secs w =
     (if fst (tlg_release inner (rs_main_lock_state_ts (yw_st w))) = Released
      then y_with_state_mut (\<lambda>st. st\<lparr>rs_last_main_run_ts := now_secs, rs_main_lock_state_ts := Some 0\<rparr>)
        (w\<lparr>yw_main_owner := None\<rparr>) else w)"

definition record_core_progress :: "timer_lease_guard \<Rightarrow> u64 \<Rightarrow> 'p relay_world \<Rightarrow> 'p relay_world" where
  "record_core_progress inner now_secs w =
     (if main_guard_is_current inner w
      then y_with_state_mut (\<lambda>st. st\<lparr>rs_last_main_run_ts := now_secs\<rparr>) w else w)"

section \<open>The commitment of subaccount 1\<close>

definition y_client_neuron :: "u64 \<Rightarrow> relay_resp \<Rightarrow> client_error + subaccount" where
  "y_client_neuron neuron_id r = (case r of
       RsNeurons (Inr neurons) \<Rightarrow> staking_subaccount_from_list_neurons_response neuron_id neurons
     | RsNeurons (Inl e) \<Rightarrow> Inl (CallError e)
     | _ \<Rightarrow> Inl (CallError ''decode list_neurons failed''))"

definition install_commitment :: "relay_ctx \<Rightarrow> u64 \<Rightarrow> faucet_commitment_plan \<Rightarrow> 'p relay_world \<Rightarrow> 'p relay_world" where
  "install_commitment cx expected_next_job_id plan w =
     (if \<not> main_lease_is_current (rx_lease cx) w
        \<or> rs_active_faucet_commitment_transfer (yw_st w) \<noteq> None
        \<or> rs_next_job_id (yw_st w) \<noteq> expected_next_job_id then w
      else y_with_state_mut (\<lambda>st. st\<lparr>rs_active_faucet_commitment_transfer := Some
        \<lparr>fx_transfer = \<lparr>rt_kind = FaucetCommitment faucet_neuron_id (fp_destination_account plan)
             relay_subaccount_one (fp_memo plan),
           rt_gross_share_e8s = fp_balance_start_e8s plan, rt_amount_e8s = fp_amount_e8s plan,
           rt_created_at_time_nanos = rx_now cx, rt_phase = RAwaitingTransfer\<rparr>,
         fx_fee_e8s = fp_fee_e8s plan, fx_balance_start_e8s = fp_balance_start_e8s plan\<rparr>\<rparr>) w)"

definition plan_commitment_with_neuron :: "relay_ctx \<Rightarrow> rconfig \<Rightarrow> u64 \<Rightarrow> u64 \<Rightarrow> u64 \<Rightarrow> relay_resp
    \<Rightarrow> 'p relay_world \<Rightarrow> ('p, unit) relay_proc" where
  "plan_commitment_with_neuron cx cfg expected fee balance r w = (case y_client_neuron faucet_neuron_id r of
       Inl _ \<Rightarrow> Done w ()
     | Inr staking_subaccount \<Rightarrow> (case build_faucet_commitment_plan (rx_cx cx) (rx_relay_id cx)
           (rcf_governance_canister_id cfg) staking_subaccount balance fee of
         Inl _ \<Rightarrow> Done w ()
       | Inr plan \<Rightarrow> Done (install_commitment cx expected plan w) ()))"

definition plan_commitment_with_balance :: "relay_ctx \<Rightarrow> rconfig \<Rightarrow> u64 \<Rightarrow> u64 \<Rightarrow> relay_resp
    \<Rightarrow> 'p relay_world \<Rightarrow> ('p, unit) relay_proc" where
  "plan_commitment_with_balance cx cfg expected fee r w = (case y_client_u64 r of
       Inl _ \<Rightarrow> Done w ()
     | Inr balance \<Rightarrow> (case build_faucet_commitment_plan (rx_cx cx) (rx_relay_id cx)
           (rcf_governance_canister_id cfg) (replicate 32 0) balance fee of
         Inl _ \<Rightarrow> Done w ()
       | Inr _ \<Rightarrow> Await w (RqListNeurons (rx_governance cx) faucet_neuron_id)
           (plan_commitment_with_neuron cx cfg expected fee balance)))"

definition plan_commitment_with_fee :: "relay_ctx \<Rightarrow> rconfig \<Rightarrow> u64 \<Rightarrow> relay_resp
    \<Rightarrow> 'p relay_world \<Rightarrow> ('p, unit) relay_proc" where
  "plan_commitment_with_fee cx cfg expected r w = (case resolve_icp_ledger_fee_e8s r w of (fee, w1) \<Rightarrow>
     Await w1 (RqBalance (rx_ledger cx) (relay_subaccount_one_account (rx_relay_id cx)))
       (plan_commitment_with_balance cx cfg expected fee))"

definition plan_faucet_commitment :: "relay_ctx \<Rightarrow> 'p relay_world \<Rightarrow> ('p, unit) relay_proc" where
  "plan_faucet_commitment cx w =
     (if rs_active_faucet_commitment_transfer (yw_st w) \<noteq> None then Done w ()
      else Await w (RqFee (rx_ledger cx))
        (plan_commitment_with_fee cx (rs_config (yw_st w)) (rs_next_job_id (yw_st w))))"

definition resume_or_start_faucet_commitment :: "relay_ctx \<Rightarrow> 'p relay_world \<Rightarrow> ('p, bool) relay_proc" where
  "resume_or_start_faucet_commitment cx w =
     pbind (if rs_active_faucet_commitment_transfer (yw_st w) = None then plan_faucet_commitment cx w else Done w ())
       (\<lambda>w _. if \<not> main_lease_is_current (rx_lease cx) w then Done w True
         else drive_pending_faucet_commitment_transfer cx w)"

section \<open>Starting the job\<close>

definition job_generation_matches :: "relay_ctx \<Rightarrow> u64 \<Rightarrow> 'p relay_world \<Rightarrow> bool" where
  "job_generation_matches cx expected_next_job_id w \<longleftrightarrow> main_lease_is_current (rx_lease cx) w \<and>
     rs_active_job (yw_st w) = None \<and> rs_next_job_id (yw_st w) = expected_next_job_id"

text \<open>What the run knows about its targets once they have been probed.\<close>

record relay_observation =
  ro_expected_next_job_id :: u64
  ro_cfg :: rconfig
  ro_managed :: "principal list"
  ro_current_cycles :: "(principal \<times> cycles_snapshot) list"
  ro_statuses :: "target_probe_status list"
  ro_failures :: "probe_failure list"

definition transient_failures :: "target_probe_status list \<Rightarrow> bool" where
  "transient_failures = list_ex (\<lambda>s. case tp_classification s of TransientProbeFailure _ \<Rightarrow> True | _ \<Rightarrow> False)"

definition unavailable_targets_present :: "target_probe_status list \<Rightarrow> bool" where
  "unavailable_targets_present =
     list_ex (\<lambda>s. case tp_classification s of UnavailableAfterConsecutiveFailures _ \<Rightarrow> True | _ \<Rightarrow> False)"

definition has_raw_icp_recipients :: "relay_observation \<Rightarrow> bool" where
  "has_raw_icp_recipients ob \<longleftrightarrow> rcf_surplus_recipients (ro_cfg ob) \<noteq> []"

definition observed_summary :: "relay_ctx \<Rightarrow> relay_observation \<Rightarrow> relay_mode \<Rightarrow> relay_summary" where
  "observed_summary cx ob mode =
     (relay_summary_started mode (rx_now cx) (word_of_nat (length (ro_managed ob))))
       \<lparr>ry_min_cycles_balance := min_cycles_of (ro_current_cycles ob),
        ry_probe_failures := ro_failures ob, ry_target_probe_statuses := ro_statuses ob\<rparr>"

definition new_job :: "relay_ctx \<Rightarrow> relay_observation \<Rightarrow> u64 \<Rightarrow> u64 \<Rightarrow> conversion_estimate option
    \<Rightarrow> allocation_plan \<Rightarrow> relay_job" where
  "new_job cx ob balance fee estimate allocation =
     (let canisters = map burn_sample_of (al_topups allocation);
          retained = retained_e8s balance canisters [];
          summary = (refresh_canister_totals ((observed_summary cx ob TopUpThenSurplus)\<lparr>
              ry_default_account_balance_start_e8s := balance, ry_fee_e8s := fee,
              ry_total_burn_cycles := sum_list (map cb_burn_cycles canisters), ry_canisters := canisters\<rparr>))
            \<lparr>ry_conversion_estimate_used := (if has_raw_icp_recipients ob then estimate else None),
             ry_skipped_surplus_reason := al_skipped_surplus_reason allocation,
             ry_planned_retained_e8s := retained, ry_known_unspent_e8s := retained,
             ry_surplus_allowed_despite_unavailable_targets := unavailable_targets_present (ro_statuses ob)\<rparr>
      in \<lparr>rj_id = ro_expected_next_job_id ob, rj_mode = ActiveTopUpThenSurplus,
          rj_started_at_ts_nanos = rx_now cx, rj_fee_e8s = fee, rj_balance_start_e8s = balance,
          rj_current_cycles = ro_current_cycles ob, rj_canisters = canisters, rj_surplus_transfers = [],
          rj_surplus_memos = [],
          rj_surplus_phase_planned =
            (\<not> has_raw_icp_recipients ob \<or> \<not> al_topup_phase_fully_funded allocation),
          rj_pending_transfer = None, rj_next_transfer_index = 0, rj_surplus_transfer_index = 0,
          rj_next_created_at_time_nanos = rx_now cx, rj_summary = summary\<rparr>)"

definition install_job :: "relay_ctx \<Rightarrow> relay_job \<Rightarrow> 'p relay_world \<Rightarrow> 'p relay_world" where
  "install_job cx job w =
     (if job_generation_matches cx (rj_id job) w
      then y_with_state_mut (\<lambda>st. st\<lparr>rs_next_job_id := sat_add (rs_next_job_id st) 1, rs_active_job := Some job\<rparr>)
        (w\<lparr>yw_staged := [], yw_job_sent := []\<rparr>)
      else w)"

definition allocate_job :: "relay_ctx \<Rightarrow> relay_observation \<Rightarrow> u64 \<Rightarrow> u64 \<Rightarrow> 'p relay_world \<Rightarrow> 'p relay_world" where
  "allocate_job cx ob balance fee w =
     (let st = yw_st w;
          estimate = rs_conversion_estimate st;
          allocation = (if has_raw_icp_recipients ob
            then build_allocation_plan (ro_current_cycles ob) (rs_last_completed_cycles st)
              (rs_relay_minted_cycles_since_sample st) (rs_recovery_deficit_cycles st) balance fee estimate (rx_now cx)
            else build_spend_all_cycles_plan (ro_current_cycles ob) (rs_last_completed_cycles st)
              (rs_relay_minted_cycles_since_sample st) (rs_recovery_deficit_cycles st) balance fee)
      in install_job cx (new_job cx ob balance fee estimate allocation)
        (y_with_state_mut (\<lambda>st. st\<lparr>rs_relay_minted_cycles_since_sample :=
          map_retain (\<lambda>c. c \<notin> fst ` set (ro_current_cycles ob)) (rs_relay_minted_cycles_since_sample st)\<rparr>) w))"

definition y_client_rate :: "relay_resp \<Rightarrow> client_error + u64 \<times> u64" where
  "y_client_rate r = (case r of RsRate rate \<Rightarrow> rate | _ \<Rightarrow> Inl (ConvertError ''decode failed''))"

text \<open>A rate is its timestamp and its permyriad; an invalid or missing rate leaves the estimate.\<close>

definition store_conversion_estimate :: "relay_ctx \<Rightarrow> relay_resp \<Rightarrow> 'p relay_world \<Rightarrow> 'p relay_world" where
  "store_conversion_estimate cx r w = (case y_client_rate r of
       Inl _ \<Rightarrow> w
     | Inr (timestamp_seconds, xdr_permyriad_per_icp) \<Rightarrow>
         (case conversion_estimate_from_cmc_rate xdr_permyriad_per_icp timestamp_seconds of
           Inl _ \<Rightarrow> w
         | Inr estimate \<Rightarrow>
             if main_lease_is_current (rx_lease cx) w
             then y_with_state_mut (\<lambda>st. st\<lparr>rs_conversion_estimate := Some estimate\<rparr>) w else w))"

definition start_with_rate :: "relay_ctx \<Rightarrow> relay_observation \<Rightarrow> u64 \<Rightarrow> u64 \<Rightarrow> 'p relay_world \<Rightarrow> ('p, unit) relay_proc" where
  "start_with_rate cx ob balance fee w =
     (if \<not> job_generation_matches cx (ro_expected_next_job_id ob) w then Done w ()
      else Done (allocate_job cx ob balance fee w) ())"

definition start_without_funds :: "relay_ctx \<Rightarrow> relay_observation \<Rightarrow> u64 \<Rightarrow> u64 \<Rightarrow> 'p relay_world \<Rightarrow> 'p relay_world" where
  "start_without_funds cx ob balance fee w =
     (let st = yw_st w;
          summary = (build_no_funds_summary (rx_now cx) (word_of_nat (length (ro_managed ob)))
              (min_cycles_of (ro_current_cycles ob)) balance fee (has_raw_icp_recipients ob)
              (ro_current_cycles ob) (rs_last_completed_cycles st) (rs_relay_minted_cycles_since_sample st)
              (rs_recovery_deficit_cycles st))
            \<lparr>ry_probe_failures := ro_failures ob, ry_target_probe_statuses := ro_statuses ob,
             ry_surplus_allowed_despite_unavailable_targets := unavailable_targets_present (ro_statuses ob)\<rparr>
      in y_with_state_mut (complete_no_funds_sample (pe_less (rx_env cx)) (ro_current_cycles ob)
           (ro_managed ob) summary) w)"

definition start_with_fee :: "relay_ctx \<Rightarrow> relay_observation \<Rightarrow> u64 \<Rightarrow> relay_resp
    \<Rightarrow> 'p relay_world \<Rightarrow> ('p, unit) relay_proc" where
  "start_with_fee cx ob balance r w0 = (case resolve_icp_ledger_fee_e8s r w0 of (fee, w) \<Rightarrow>
     if \<not> job_generation_matches cx (ro_expected_next_job_id ob) w then Done w ()
     else if balance = 0 then Done (start_without_funds cx ob balance fee w) ()
     else if has_raw_icp_recipients ob
     then Await w (RqConversionRate (rx_cmc cx))
       (\<lambda>r w. start_with_rate cx ob balance fee (store_conversion_estimate cx r w))
     else start_with_rate cx ob balance fee w)"

definition balance_failed_summary :: "relay_ctx \<Rightarrow> relay_observation \<Rightarrow> client_error \<Rightarrow> relay_summary" where
  "balance_failed_summary cx ob err = (observed_summary cx ob Degraded)
     \<lparr>ry_completed_at_ts_nanos := Some (rx_now cx),
      ry_skipped_surplus_reason := Some ''ledger_balance_read_failed'',
      ry_probe_failures := \<lparr>pf_canister_id = rcf_ledger_canister_id (ro_cfg ob),
        pf_error = ''balance read failed: '' @ client_error_text err, pf_consecutive_failures = 0\<rparr> # ro_failures ob\<rparr>"

definition start_with_balance :: "relay_ctx \<Rightarrow> relay_observation \<Rightarrow> relay_resp
    \<Rightarrow> 'p relay_world \<Rightarrow> ('p, unit) relay_proc" where
  "start_with_balance cx ob r w = (case y_client_u64 r of
       Inl err \<Rightarrow> Done (y_with_state_mut
         (\<lambda>st. st\<lparr>rs_last_summary := Some (balance_failed_summary cx ob err)\<rparr>) w) ()
     | Inr balance \<Rightarrow>
         if \<not> job_generation_matches cx (ro_expected_next_job_id ob) w then Done w ()
         else Await w (RqFee (rx_ledger cx)) (start_with_fee cx ob balance))"

definition start_observed :: "relay_ctx \<Rightarrow> relay_observation \<Rightarrow> 'p relay_world \<Rightarrow> ('p, unit) relay_proc" where
  "start_observed cx ob w =
     (if transient_failures (ro_statuses ob)
      then Done (y_with_state_mut (\<lambda>st. st\<lparr>rs_last_summary := Some ((observed_summary cx ob Degraded)
        \<lparr>ry_completed_at_ts_nanos := Some (rx_now cx),
         ry_skipped_surplus_reason := Some skip_transient_probe_failure\<rparr>)\<rparr>) w) ()
      else if \<not> list_all (\<lambda>(c, _). map_of (rs_last_completed_cycles (yw_st w)) c \<noteq> None) (ro_current_cycles ob)
      then Done (y_with_state_mut (complete_baseline_sample (pe_less (rx_env cx)) (ro_current_cycles ob)
        (ro_managed ob) ((observed_summary cx ob BaselineOnly)
          \<lparr>ry_completed_at_ts_nanos := Some (rx_now cx),
           ry_skipped_surplus_reason := Some ''missing_previous_sample''\<rparr>)) w) ()
      else Await w (RqBalance (rx_ledger cx) (relay_default_account (rx_relay_id cx))) (start_with_balance cx ob))"

text \<open>Routes are cached only under the automatic policy.\<close>

definition update_routes :: "(principal \<Rightarrow> principal \<Rightarrow> bool) \<Rightarrow> cycles_probe_policy
    \<Rightarrow> (principal \<times> cycles_probe_route option) list \<Rightarrow> cycles_probe_route rstate \<Rightarrow> cycles_probe_route rstate" where
  "update_routes lt policy updates st = st\<lparr>rs_cached_cycles_probe_routes := fold (\<lambda>(target, route) m.
     case route of
       Some r \<Rightarrow> if policy = ProbeAuto then map_put lt target r m else map_drop target m
     | None \<Rightarrow> map_drop target m) updates (rs_cached_cycles_probe_routes st)\<rparr>"

definition start_with_probes :: "relay_ctx \<Rightarrow> rconfig \<Rightarrow> u64 \<Rightarrow> principal list
    \<Rightarrow> cycles_probe_route relay_world \<Rightarrow> relay_probe_batch \<Rightarrow> (cycles_probe_route, unit) relay_proc" where
  "start_with_probes cx cfg expected managed w batch =
     (if \<not> job_generation_matches cx expected w then Done w ()
      else let lt = pe_less (rx_env cx);
               st1 = update_routes lt (rcf_cycles_probe_policy cfg) (rb_route_updates batch) (yw_st w)
        in case update_consecutive_probe_failures lt managed (rb_snapshots batch) (rb_failures batch) st1 of
          ((statuses, failures), st2) \<Rightarrow> start_observed cx
            \<lparr>ro_expected_next_job_id = expected, ro_cfg = cfg, ro_managed = managed,
             ro_current_cycles = rb_snapshots batch, ro_statuses = statuses, ro_failures = failures\<rparr>
            (w\<lparr>yw_st := st2\<rparr>))"

definition read_probe :: "relay_resp \<Rightarrow> probe_resp" where
  "read_probe r = (case r of RsProbe p \<Rightarrow> p | _ \<Rightarrow> PrStatus (Inl ''decode failed''))"

definition start_job :: "relay_ctx \<Rightarrow> u128 \<Rightarrow> cycles_probe_route relay_world \<Rightarrow> (cycles_probe_route, unit) relay_proc" where
  "start_job cx self_cycles w =
     (if rs_active_job (yw_st w) \<noteq> None then Done w ()
      else let cfg = rs_config (yw_st w);
               managed = effective_managed_canisters (pe_less (rx_env cx)) (rcf_managed_canisters cfg) (rx_relay_id cx);
               cached_routes = List.map_filter (\<lambda>target. map_option (Pair target)
                 (map_of (rs_cached_cycles_probe_routes (yw_st w)) target)) managed
        in pbind (perform RqProbe read_probe (probe_cycles_batch (rx_env cx)
              (relay_probe_client (rx_relay_id cx) self_cycles) (rcf_cycles_probe_policy cfg) cached_routes
              (rx_now cx) managed \<lparr>rb_snapshots = [], rb_failures = [], rb_route_updates = []\<rparr>) w)
            (start_with_probes cx cfg (rs_next_job_id (yw_st w)) managed))"

end
