(* ===== verification/RelayRun.thy ===== *)
theory RelayRun
  imports RelayTick
begin

text \<open>
  Driving the daily job to its end, the funding pipeline, the main tick and the pokes
  (\<open>src/canisters/relay/src/scheduler/tick.rs\<close> and \<open>poke.rs\<close>).
\<close>

section \<open>The surplus phase\<close>

datatype resolution_error =
    NeuronNotReadable u64 client_error
  | DuplicateDestination account

fun resolve_surplus_from :: "relay_ctx \<Rightarrow> rconfig \<Rightarrow> resolved_surplus_recipient list \<Rightarrow> surplus_recipient list
    \<Rightarrow> (relay_req, relay_resp, resolution_error + resolved_surplus_recipient list) ask" where
  "resolve_surplus_from cx cfg resolved [] = Answer
     (case reject_duplicate_resolved_destinations (rx_account_key cx) resolved of
        Inl account \<Rightarrow> Inl (DuplicateDestination account) | Inr _ \<Rightarrow> Inr resolved)"
| "resolve_surplus_from cx cfg resolved (recipient # recipients) = (case sp_target recipient of
       SurplusCanister _ \<Rightarrow> resolve_surplus_from cx cfg
         (case resolve_canister_surplus_recipient recipient of None \<Rightarrow> resolved
          | Some candidate \<Rightarrow> resolved @ [candidate]) recipients
     | SurplusNeuron neuron_id \<Rightarrow> Ask (RqListNeurons (rx_governance cx) neuron_id) (\<lambda>r.
         case y_client_neuron neuron_id r of
           Inl err \<Rightarrow> Answer (Inl (NeuronNotReadable neuron_id err))
         | Inr subaccount \<Rightarrow> resolve_surplus_from cx cfg (resolved @
             [\<lparr>rr_target = sp_target recipient, rr_account = \<lparr>acc_owner = rcf_governance_canister_id cfg,
                acc_subaccount = Some subaccount\<rparr>, rr_memo = sp_memo recipient\<rparr>]) recipients))"

definition resolve_surplus_recipients :: "relay_ctx \<Rightarrow> rconfig
    \<Rightarrow> (relay_req, relay_resp, resolution_error + resolved_surplus_recipient list) ask" where
  "resolve_surplus_recipients cx cfg = resolve_surplus_from cx cfg [] (rcf_surplus_recipients cfg)"

text \<open>The plan is stored only under the lease, in the job it was made for, and once.\<close>

definition with_unplanned_job :: "relay_ctx \<Rightarrow> u64 \<Rightarrow> (relay_job \<Rightarrow> relay_job) \<Rightarrow> 'p relay_world \<Rightarrow> 'p relay_world" where
  "with_unplanned_job cx expected_job_id f w =
     (if \<not> main_lease_is_current (rx_lease cx) w then w
      else case rs_active_job (yw_st w) of None \<Rightarrow> w
        | Some job \<Rightarrow> if rj_id job = expected_job_id \<and> \<not> rj_surplus_phase_planned job
            then y_with_state_mut (\<lambda>st. st\<lparr>rs_active_job := Some (f job)\<rparr>) w else w)"

definition disable_surplus :: "relay_ctx \<Rightarrow> u64 \<Rightarrow> string \<Rightarrow> 'p relay_world \<Rightarrow> 'p relay_world" where
  "disable_surplus cx expected_job_id reason = with_unplanned_job cx expected_job_id (without_surplus reason)"

definition plan_surplus_resolved :: "relay_ctx \<Rightarrow> u64 \<Rightarrow> u64 \<Rightarrow> u64 \<Rightarrow> 'p relay_world
    \<Rightarrow> resolution_error + resolved_surplus_recipient list \<Rightarrow> ('p, unit) relay_proc" where
  "plan_surplus_resolved cx expected_job_id known_unspent_e8s fee_e8s w result = (case result of
       Inl _ \<Rightarrow> Done (disable_surplus cx expected_job_id ''recipient_resolution_failed'' w) ()
     | Inr resolved \<Rightarrow> (case build_surplus_plan resolved known_unspent_e8s fee_e8s
           (rs_conversion_estimate (yw_st w)) (rx_now cx) of
         (surplus, surplus_e8s_before_fees, skipped_surplus_reason) \<Rightarrow>
           Done (with_unplanned_job cx expected_job_id (with_surplus surplus (map rr_memo resolved)
             surplus_e8s_before_fees skipped_surplus_reason) w) ()))"

definition plan_surplus_phase :: "relay_ctx \<Rightarrow> 'p relay_world \<Rightarrow> ('p, unit) relay_proc" where
  "plan_surplus_phase cx w = (case rs_active_job (yw_st w) of None \<Rightarrow> Done w ()
     | Some job \<Rightarrow>
         if rj_surplus_phase_planned job then Done w ()
         else (case surplus_allowed_after_topups job of
           Inl reason \<Rightarrow> Done (disable_surplus cx (rj_id job) reason w) ()
         | Inr _ \<Rightarrow> pbind (perform id id (resolve_surplus_recipients cx (rs_config (yw_st w))) w)
             (plan_surplus_resolved cx (rj_id job) (ry_known_unspent_e8s (rj_summary job)) (rj_fee_e8s job))))"

section \<open>Driving the job\<close>

definition stage_job :: "relay_job \<Rightarrow> relay_transfer option \<Rightarrow> 'p relay_world \<Rightarrow> 'p relay_world" where
  "stage_job job staged w = y_with_state_mut (\<lambda>st. st\<lparr>rs_active_job := Some job\<rparr>)
     (w\<lparr>yw_staged := (case staged of None \<Rightarrow> [] | Some t \<Rightarrow> [t]) @ yw_staged w\<rparr>)"

text \<open>\<open>again\<close> is the next turn of the loop.\<close>

definition drive_planned :: "relay_ctx \<Rightarrow> u32 option \<Rightarrow> u32 \<Rightarrow> (u32 \<Rightarrow> 'p relay_world \<Rightarrow> ('p, bool option) relay_proc)
    \<Rightarrow> relay_job \<Rightarrow> 'p relay_world \<Rightarrow> ('p, bool option) relay_proc" where
  "drive_planned cx max_transfers started again job w =
     (case plan_next_transfer max_transfers started (yw_now w) job of (step, started1, job1, staged) \<Rightarrow>
       let w1 = stage_job job1 staged w in
       case step of
         PlanPlanned \<Rightarrow> again started1 w1
       | PlanPaused \<Rightarrow> Done w1 (Some True)
       | PlanDone \<Rightarrow>
           if topup_phase_done_and_surplus_unplanned (rs_active_job (yw_st w1)) then again started1 w1
           else if \<not> main_lease_is_current (rx_lease cx) w1 then Done w1 (Some True)
           else Done (y_with_state_mut (complete_job (pe_less (rx_env cx)) (rx_now cx)) w1) (Some True))"

definition drive_turn :: "relay_ctx \<Rightarrow> u32 option \<Rightarrow> u32 \<Rightarrow> (u32 \<Rightarrow> 'p relay_world \<Rightarrow> ('p, bool option) relay_proc)
    \<Rightarrow> 'p relay_world \<Rightarrow> ('p, bool option) relay_proc" where
  "drive_turn cx max_transfers started again w =
     (if \<not> main_lease_is_current (rx_lease cx) w then Done w (Some True)
      else case rs_active_job (yw_st w) of None \<Rightarrow> Done w (Some True)
        | Some job \<Rightarrow>
          if rj_pending_transfer job \<noteq> None
          then pbind (drive_pending_transfer cx w) (\<lambda>w ok.
            if \<not> ok then Done w (Some False)
            else if \<not> main_lease_is_current (rx_lease cx) w then Done w (Some True)
            else again started w)
          else if topup_phase_done_and_surplus_unplanned (Some job)
          then pbind (plan_surplus_phase cx w) (\<lambda>w _. again started w)
          else drive_planned cx max_transfers started again job w)"

fun drive_relay_job :: "nat \<Rightarrow> relay_ctx \<Rightarrow> u32 option \<Rightarrow> u32 \<Rightarrow> 'p relay_world \<Rightarrow> ('p, bool option) relay_proc" where
  "drive_relay_job 0 cx max_transfers started w = Done w None"
| "drive_relay_job (Suc fuel) cx max_transfers started w =
     drive_turn cx max_transfers started (drive_relay_job fuel cx max_transfers) w"

text \<open>Two turns for every transfer the job can still stage, and four to plan the surplus and to end.\<close>

definition job_turns :: "rconfig \<Rightarrow> relay_job option \<Rightarrow> nat" where
  "job_turns cfg active = (case active of None \<Rightarrow> 1
     | Some job \<Rightarrow> 2 * ((length (rj_canisters job) - unat (rj_next_transfer_index job))
         + (if rj_surplus_phase_planned job
            then length (rj_surplus_transfers job) - unat (rj_surplus_transfer_index job)
            else length (rcf_surplus_recipients cfg) + 1))
         + (if rj_pending_transfer job = None then 0 else 1) + 2)"

definition drive_active_relay_job :: "relay_ctx \<Rightarrow> 'p relay_world \<Rightarrow> ('p, bool) relay_proc" where
  "drive_active_relay_job cx w =
     pbind (drive_relay_job (job_turns (rs_config (yw_st w)) (rs_active_job (yw_st w))) cx
         (rcf_max_transfers_per_tick (rs_config (yw_st w))) 0 w)
       (\<lambda>w result. Done w (result = Some True))"

section \<open>The funding pipeline\<close>

datatype funding_outcome =
    FpCompleted | FpMainLeaseLost | FpSplitterGuardBusy | FpSplitterUnresolved | FpSplitterQuarantined
  | FpDebugStopped

definition clear_splitter_main_continuation_request :: "'p relay_world \<Rightarrow> 'p relay_world" where
  "clear_splitter_main_continuation_request = y_with_state_mut (\<lambda>st. st
     \<lparr>rs_splitter_main_continuation_requested := False, rs_splitter_main_continuation_timer_pending := False\<rparr>)"

definition request_splitter_main_continuation :: "'p relay_world \<Rightarrow> 'p relay_world" where
  "request_splitter_main_continuation =
     y_with_state_mut (\<lambda>st. st\<lparr>rs_splitter_main_continuation_requested := True\<rparr>)"

text \<open>A stage that stopped, or lost the lease, ends the pipeline.\<close>

definition stage_outcome :: "relay_ctx \<Rightarrow> 'p relay_world \<Rightarrow> bool \<Rightarrow> funding_outcome" where
  "stage_outcome cx w ok = (if \<not> ok then FpDebugStopped
     else if \<not> main_lease_is_current (rx_lease cx) w then FpMainLeaseLost else FpCompleted)"

definition reactive_after_splitters :: "relay_ctx \<Rightarrow> 'p relay_world \<Rightarrow> main_stage_result
    \<Rightarrow> ('p, funding_outcome) relay_proc" where
  "reactive_after_splitters cx w splitter_result =
     (if \<not> main_lease_is_current (rx_lease cx) w then Done w FpMainLeaseLost
      else case splitter_result of
        StageGuardBusy \<Rightarrow> Done w FpSplitterGuardBusy
      | StageUnresolved \<Rightarrow> Done w FpSplitterUnresolved
      | StageQuarantined \<Rightarrow> Done w FpSplitterQuarantined
      | StageReady \<Rightarrow> pbind (resume_or_start_faucet_commitment cx w) (\<lambda>w ok. Done w (stage_outcome cx w ok)))"

definition run_reactive_funding_stages :: "nat \<Rightarrow> relay_ctx \<Rightarrow> 'p relay_world \<Rightarrow> ('p, funding_outcome) relay_proc" where
  "run_reactive_funding_stages handler cx w =
     pbind (process_main_stage handler (rx_now cx) (rx_relay_id cx) (rx_ledger cx) w) (reactive_after_splitters cx)"

definition resume_existing_job :: "relay_ctx \<Rightarrow> 'p relay_world \<Rightarrow> ('p, funding_outcome) relay_proc" where
  "resume_existing_job cx w = (if rs_active_job (yw_st w) = None then Done w FpCompleted
     else pbind (drive_active_relay_job cx w) (\<lambda>w ok. Done w (stage_outcome cx w ok)))"

definition resume_or_start_job :: "relay_ctx \<Rightarrow> u128 \<Rightarrow> cycles_probe_route relay_world
    \<Rightarrow> (cycles_probe_route, bool) relay_proc" where
  "resume_or_start_job cx self_cycles w =
     pbind (if rs_active_job (yw_st w) = None then start_job cx self_cycles w else Done w ())
       (\<lambda>w _. if \<not> main_lease_is_current (rx_lease cx) w then Done w True else drive_active_relay_job cx w)"

definition funding_after_reactive :: "relay_ctx \<Rightarrow> u128 \<Rightarrow> cycles_probe_route relay_world \<Rightarrow> funding_outcome
    \<Rightarrow> (cycles_probe_route, funding_outcome) relay_proc" where
  "funding_after_reactive cx self_cycles w outcome =
     (if outcome \<noteq> FpCompleted then Done w outcome
      else pbind (resume_or_start_job cx self_cycles w) (\<lambda>w ok.
        if stage_outcome cx w ok = FpCompleted
        then Done (clear_splitter_main_continuation_request w) FpCompleted else Done w (stage_outcome cx w ok)))"

definition run_funding_pipeline :: "nat \<Rightarrow> relay_ctx \<Rightarrow> u128 \<Rightarrow> cycles_probe_route relay_world
    \<Rightarrow> (cycles_probe_route, funding_outcome) relay_proc" where
  "run_funding_pipeline handler cx self_cycles w =
     pbind (run_reactive_funding_stages handler cx w) (funding_after_reactive cx self_cycles)"

section \<open>The main tick\<close>

datatype main_tick_outcome =
    TickCompleted | TickMainGuardBusy | TickSplitterGuardBusy | TickSplitterPaused | TickNotDue u64

text \<open>The parameters of the model and the canister's own principal.\<close>

record relay_params =
  rp_env :: probe_env
  rp_cx :: candid_ops
  rp_account_key :: "account \<Rightarrow> account"
  rp_relay_id :: principal

definition relay_ctx_of :: "relay_params \<Rightarrow> u64 \<Rightarrow> u64 \<Rightarrow> rconfig \<Rightarrow> relay_ctx" where
  "relay_ctx_of rp now_nanos token cfg = \<lparr>rx_env = rp_env rp, rx_cx = rp_cx rp,
     rx_account_key = rp_account_key rp, rx_relay_id = rp_relay_id rp,
     rx_ledger = rcf_ledger_canister_id cfg, rx_cmc = rcf_cmc_canister_id cfg,
     rx_governance = rcf_governance_canister_id cfg, rx_now = now_nanos, rx_lease = token\<rparr>"

text \<open>The reward sweep keeps the guard when it pinned a payout; it is released when the payout lets go.\<close>

definition tick_rewards :: "timer_lease_guard \<Rightarrow> u64 \<Rightarrow> 'p relay_world \<Rightarrow> ('p, main_tick_outcome) relay_proc" where
  "tick_rewards guard now_secs w = Await w RqRewardSweep (\<lambda>r w.
     if r = RsRewardPinned True
     then Await w RqRewardSweep (\<lambda>_ w. Done (main_guard_release guard w) TickCompleted)
     else Done (main_guard_finish guard now_secs w) TickCompleted)"

definition tick_after_funding :: "timer_lease_guard \<Rightarrow> u64 \<Rightarrow> 'p relay_world \<Rightarrow> funding_outcome
    \<Rightarrow> ('p, main_tick_outcome) relay_proc" where
  "tick_after_funding guard now_secs w outcome = (case outcome of
       FpCompleted \<Rightarrow> tick_rewards guard now_secs (record_core_progress guard now_secs w)
     | FpMainLeaseLost \<Rightarrow> Done (main_guard_release guard w) TickCompleted
     | FpSplitterGuardBusy \<Rightarrow>
         Done (main_guard_release guard (request_splitter_main_continuation w)) TickSplitterGuardBusy
     | FpSplitterUnresolved \<Rightarrow>
         Done (main_guard_release guard (request_splitter_main_continuation w)) TickSplitterPaused
     | FpSplitterQuarantined \<Rightarrow> Done (schedule_splitter_main_continuation_after
         (main_guard_release guard (request_splitter_main_continuation w))) TickSplitterPaused
     | FpDebugStopped \<Rightarrow> Done (main_guard_finish guard now_secs w) TickCompleted)"

definition run_main_tick :: "relay_params \<Rightarrow> bool \<Rightarrow> u128 \<Rightarrow> nat \<Rightarrow> cycles_probe_route relay_world
    \<Rightarrow> (cycles_probe_route, main_tick_outcome) relay_proc" where
  "run_main_tick rp force relay_cycles handler w =
     (let now_secs = y_now_secs w; cfg = rs_config (yw_st w) in
      case main_guard_acquire handler now_secs w of
        None \<Rightarrow> Done w TickMainGuardBusy
      | Some (guard, w1) \<Rightarrow>
          let min_gap = sat_sub (rcf_main_interval_seconds cfg) 60;
              elapsed = sat_sub now_secs (rs_last_main_run_ts (yw_st w1))
          in if \<not> force \<and> elapsed < min_gap
             then Done (main_guard_release guard w1) (TickNotDue (min_gap - elapsed))
             else if \<not> main_guard_is_current guard w1 then Done (main_guard_release guard w1) TickCompleted
             else pbind (run_funding_pipeline handler (relay_ctx_of rp (yw_now w) (tlg_expires guard) cfg)
                 relay_cycles w1) (tick_after_funding guard now_secs))"

definition main_tick :: "relay_params \<Rightarrow> bool \<Rightarrow> u128 \<Rightarrow> bool \<Rightarrow> cycles_probe_route relay_world
    \<Rightarrow> (cycles_probe_route, main_tick_outcome) relay_proc" where
  "main_tick rp force relay_cycles retry_when_busy w =
     pbind (run_main_tick rp force relay_cycles (yw_ticket w) (w\<lparr>yw_ticket := yw_ticket w + 1\<rparr>))
       (\<lambda>w outcome. Done (if outcome = TickSplitterGuardBusy \<and> retry_when_busy
          then schedule_splitter_main_continuation_after w else w) outcome)"

definition schedule_scheduled_main_retry :: "'p relay_world \<Rightarrow> 'p relay_world" where
  "schedule_scheduled_main_retry w = (if yw_retry_pending w then w else w\<lparr>yw_retry_pending := True\<rparr>)"

definition scheduled_main_tick :: "relay_params \<Rightarrow> u128 \<Rightarrow> cycles_probe_route relay_world
    \<Rightarrow> (cycles_probe_route, unit) relay_proc" where
  "scheduled_main_tick rp relay_cycles w = pbind (main_tick rp False relay_cycles True w) (\<lambda>w outcome.
     Done (case outcome of TickMainGuardBusy \<Rightarrow> schedule_scheduled_main_retry w
       | TickNotDue _ \<Rightarrow> schedule_scheduled_main_retry w | _ \<Rightarrow> w) ())"

definition scheduled_main_retry :: "relay_params \<Rightarrow> u128 \<Rightarrow> cycles_probe_route relay_world
    \<Rightarrow> (cycles_probe_route, unit) relay_proc" where
  "scheduled_main_retry rp relay_cycles w = scheduled_main_tick rp relay_cycles (w\<lparr>yw_retry_pending := False\<rparr>)"

text \<open>A handler that neither runs a tick nor a poke only takes its ticket.\<close>

definition fresh_ticket :: "'p relay_world \<Rightarrow> 'p relay_world" where
  "fresh_ticket w = w\<lparr>yw_ticket := yw_ticket w + 1\<rparr>"

definition splitter_main_continuation :: "relay_params \<Rightarrow> u128 \<Rightarrow> cycles_probe_route relay_world
    \<Rightarrow> (cycles_probe_route, unit) relay_proc" where
  "splitter_main_continuation rp relay_cycles w =
     (let w1 = y_with_state_mut (\<lambda>st. st\<lparr>rs_splitter_main_continuation_timer_pending := False\<rparr>) w in
      if \<not> rs_splitter_main_continuation_requested (yw_st w1) then Done (fresh_ticket w1) ()
      else pbind (main_tick rp False relay_cycles False w1) (\<lambda>w outcome.
        Done (if outcome = TickMainGuardBusy \<or> outcome = TickSplitterGuardBusy
          then schedule_splitter_main_continuation_after w else w) ()))"

section \<open>Pokes\<close>

definition poke_after_reactive :: "relay_ctx \<Rightarrow> 'p relay_world \<Rightarrow> funding_outcome \<Rightarrow> ('p, funding_outcome) relay_proc" where
  "poke_after_reactive cx w outcome =
     (if outcome = FpCompleted then resume_existing_job cx w else Done w outcome)"

definition run_poke_funding :: "relay_params \<Rightarrow> nat \<Rightarrow> 'p relay_world \<Rightarrow> ('p, unit) relay_proc" where
  "run_poke_funding rp handler w = (case main_guard_acquire handler (y_now_secs w) w of
       None \<Rightarrow> Done w ()
     | Some (guard, w1) \<Rightarrow>
         let cx = relay_ctx_of rp (yw_now w) (tlg_expires guard) (rs_config (yw_st w)) in
         pbind (pbind (run_reactive_funding_stages handler cx w1) (poke_after_reactive cx)) (\<lambda>w outcome.
           Done (main_guard_release guard (if outcome = FpCompleted
             then clear_splitter_main_continuation_request w else w)) ()))"

definition admit_and_run :: "relay_params \<Rightarrow> 'p relay_world \<Rightarrow> ('p, unit) relay_proc" where
  "admit_and_run rp w = (case relay_admit_attempt (yw_now w) (yw_poke w) of (admitted, runtime) \<Rightarrow>
     let w1 = w\<lparr>yw_poke := runtime, yw_ticket := yw_ticket w + 1\<rparr>
     in if admitted then run_poke_funding rp (yw_ticket w) w1 else Done w1 ())"

text \<open>The deferred timer, also when it is to run later, is a handler of its own.\<close>

definition handle_event_horizon_poke :: "relay_params \<Rightarrow> 'p relay_world \<Rightarrow> ('p, unit) relay_proc" where
  "handle_event_horizon_poke rp w =
     admit_and_run rp (w\<lparr>yw_poke := snd (relay_record_hint (yw_now w) (yw_poke w))\<rparr>)"

definition relay_deferred_poke :: "relay_params \<Rightarrow> 'p relay_world \<Rightarrow> ('p, unit) relay_proc" where
  "relay_deferred_poke rp w = (case relay_deferred_timer_action (yw_now w) (yw_poke w) of (action, runtime) \<Rightarrow>
     let w1 = w\<lparr>yw_poke := runtime\<rparr> in case action of Attempt \<Rightarrow> admit_and_run rp w1
       | _ \<Rightarrow> Done (fresh_ticket w1) ())"

definition relay_poke_message :: "relay_params \<Rightarrow> principal \<Rightarrow> poke_match list \<Rightarrow> 'p relay_world
    \<Rightarrow> ('p, unit) relay_proc" where
  "relay_poke_message rp caller matches w =
     (if relay_caller_is_whitelisted caller \<and> relay_has_relevant_match matches (rp_relay_id rp)
      then handle_event_horizon_poke rp w else Done (fresh_ticket w) ())"

section \<open>The handlers of the canister\<close>

definition refresh_surplus_neuron :: "u64 \<Rightarrow> 'p relay_world \<Rightarrow> ('p, unit) relay_proc" where
  "refresh_surplus_neuron neuron_id w =
     Await (fresh_ticket w) (RqRefreshNeuron (rcf_governance_canister_id (rs_config (yw_st w))) neuron_id) (\<lambda>_ w. Done w ())"

definition relay_clock :: "u64 \<Rightarrow> 'p relay_world \<Rightarrow> ('p, unit) relay_proc" where
  "relay_clock now w = Done (fresh_ticket (w\<lparr>yw_now := max (yw_now w) now\<rparr>)) ()"

definition relay_handlers :: "relay_params \<Rightarrow> (cycles_probe_route relay_world \<Rightarrow> (cycles_probe_route, unit) relay_proc) set" where
  "relay_handlers rp = range (scheduled_main_tick rp) \<union> range (scheduled_main_retry rp)
     \<union> range (splitter_main_continuation rp) \<union> {retry_active_splitter (rp_relay_id rp), relay_deferred_poke rp}
     \<union> range (\<lambda>(caller, matches). relay_poke_message rp caller matches)
     \<union> range refresh_surplus_neuron \<union> range relay_clock"

end
