(* ===== verification/RelayJobInv.thy ===== *)
theory RelayJobInv
  imports RelayRun
begin

text \<open>
  The invariant of the Relay's daily job: what it has staged, what it may still stage, and the balance both
  come out of; and that staging and settling a transfer keep it.
\<close>

section \<open>What a job can spend\<close>

definition pay_topups :: "canister_burn_sample list \<Rightarrow> nat" where
  "pay_topups cs = (\<Sum>c\<leftarrow>filter (\<lambda>c. cb_amount_e8s c > 0) cs. unat (cb_gross_share_e8s c))"

definition pay_surplus :: "surplus_transfer_sample list \<Rightarrow> nat" where
  "pay_surplus xs = (\<Sum>x\<leftarrow>filter (\<lambda>x. xs_amount_e8s x > 0) xs. unat (xs_gross_share_e8s x))"

definition is_topup :: "relay_transfer \<Rightarrow> bool" where
  "is_topup t \<longleftrightarrow> (case rt_kind t of CmcTopUp _ \<Rightarrow> True | _ \<Rightarrow> False)"

definition gross_of :: "relay_transfer list \<Rightarrow> nat" where
  "gross_of ts = (\<Sum>t\<leftarrow>ts. unat (rt_gross_share_e8s t))"

lemma gross_of_simps [simp]: "gross_of [] = 0" "gross_of (t # ts) = unat (rt_gross_share_e8s t) + gross_of ts"
  "gross_of (ts @ us) = gross_of ts + gross_of us"
  by (simp_all add: gross_of_def)

lemma gross_of_split: "gross_of ts = gross_of (filter is_topup ts) + gross_of (filter (\<lambda>t. \<not> is_topup t) ts)"
  by (induction ts) simp_all

lemma pay_Cons:
  "pay_topups (c # cs) = (if cb_amount_e8s c = 0 then 0 else unat (cb_gross_share_e8s c)) + pay_topups cs"
  "pay_surplus (x # xs) = (if xs_amount_e8s x = 0 then 0 else unat (xs_gross_share_e8s x)) + pay_surplus xs"
  by (simp_all add: pay_topups_def pay_surplus_def word_gt_0)

lemma pay_Nil [simp]: "pay_topups [] = 0" "pay_surplus [] = 0"
  by (simp_all add: pay_topups_def pay_surplus_def)

lemma pay_drop:
  "i < length cs \<Longrightarrow> pay_topups (drop i cs) =
     (if cb_amount_e8s (cs ! i) = 0 then 0 else unat (cb_gross_share_e8s (cs ! i))) + pay_topups (drop (Suc i) cs)"
  "j < length xs \<Longrightarrow> pay_surplus (drop j xs) =
     (if xs_amount_e8s (xs ! j) = 0 then 0 else unat (xs_gross_share_e8s (xs ! j))) + pay_surplus (drop (Suc j) xs)"
  by (simp_all only: Cons_nth_drop_Suc [symmetric] pay_Cons)

lemma pay_none:
  "\<not> list_ex (\<lambda>c. cb_amount_e8s c > 0) cs \<Longrightarrow> pay_topups cs = 0"
  "\<not> list_ex (\<lambda>x. xs_amount_e8s x > 0) xs \<Longrightarrow> pay_surplus xs = 0"
  by (simp_all add: pay_topups_def pay_surplus_def list_ex_iff filter_empty_conv)

lemma pay_le:
  "pay_topups cs \<le> (\<Sum>c\<leftarrow>cs. unat (cb_gross_share_e8s c))"
  "pay_surplus xs \<le> (\<Sum>x\<leftarrow>xs. unat (xs_gross_share_e8s x))"
  by (induction cs, simp_all add: pay_Cons) (induction xs, simp_all add: pay_Cons)

lemma word_sum_list: "(\<Sum>x\<leftarrow>xs. unat (f x)) < 2 ^ LENGTH('a) \<Longrightarrow> unat (\<Sum>x\<leftarrow>xs. f x) = (\<Sum>x\<leftarrow>xs. unat (f x))"
  for f :: "'b \<Rightarrow> 'a::len word"
  by (induction xs) (simp_all add: unat_word_ariths)

lemma topup_gross_pay: "pay_topups cs < 2 ^ 64 \<Longrightarrow> unat (topup_gross cs) = pay_topups cs"
  using word_sum_list [of cb_gross_share_e8s "filter (\<lambda>c. cb_amount_e8s c > 0) cs"]
  by (simp add: topup_gross_def pay_topups_def)

lemma retained_pay:
  assumes "pay_topups cs \<le> unat balance"
  shows "unat (retained_e8s balance cs []) + pay_topups cs = unat balance"
proof -
  have "pay_topups cs < 2 ^ 64" using assms unat_lt [of balance] by simp
  then show ?thesis using assms
    by (simp add: retained_e8s_def surplus_gross_def unat_sat_sub unat_sat_add topup_gross_pay)
qed

section \<open>The invariant\<close>

text \<open>What a job fixes about its canisters, and what settling a transfer leaves alone.\<close>

definition canister_terms :: "canister_burn_sample \<Rightarrow> principal \<times> u64 \<times> u64 \<times> u128" where
  "canister_terms c = (cb_canister_id c, cb_gross_share_e8s c, cb_amount_e8s c, cb_target_topup_cycles c)"

definition job_terms :: "relay_job \<Rightarrow> u64 \<times> u64 \<times> u64 \<times> (principal \<times> u64 \<times> u64 \<times> u128) list" where
  "job_terms job = (rj_id job, rj_fee_e8s job, rj_balance_start_e8s job, map canister_terms (rj_canisters job))"

definition same_frame :: "relay_job \<Rightarrow> relay_job \<Rightarrow> bool" where
  "same_frame job job' \<longleftrightarrow> job_terms job' = job_terms job \<and>
     rj_surplus_transfers job' = rj_surplus_transfers job \<and> rj_surplus_memos job' = rj_surplus_memos job \<and>
     rj_surplus_phase_planned job' = rj_surplus_phase_planned job \<and>
     rj_next_transfer_index job' = rj_next_transfer_index job \<and>
     rj_surplus_transfer_index job' = rj_surplus_transfer_index job \<and>
     rj_next_created_at_time_nanos job' = rj_next_created_at_time_nanos job"

text \<open>The canisters of a modest job ask for fewer than 2^64 cycles in all, fees included.\<close>

definition modest :: "relay_job \<Rightarrow> bool" where
  "modest job \<longleftrightarrow>
     (\<Sum>c\<leftarrow>rj_canisters job. unat (cb_target_topup_cycles c) + unat (rj_fee_e8s job)) < 2 ^ 64"

definition surplus_configured :: "rconfig \<Rightarrow> surplus_target \<Rightarrow> account \<Rightarrow> bytes option \<Rightarrow> bool" where
  "surplus_configured cfg target account memo \<longleftrightarrow>
     (\<exists>r \<in> set (rcf_surplus_recipients cfg). sp_target r = target \<and> sp_memo r = memo) \<and>
     (case target of SurplusCanister c \<Rightarrow> account = \<lparr>acc_owner = c, acc_subaccount = None\<rparr>
      | SurplusNeuron _ \<Rightarrow> acc_owner account = rcf_governance_canister_id cfg)"

definition managed_by :: "principal \<Rightarrow> rconfig \<Rightarrow> principal \<Rightarrow> bool" where
  "managed_by relay cfg c \<longleftrightarrow> c = relay \<or> c \<in> set (rcf_managed_canisters cfg)"

definition staged_ok :: "principal \<Rightarrow> rconfig \<Rightarrow> u64 \<Rightarrow> relay_transfer \<Rightarrow> bool" where
  "staged_ok relay cfg fee t \<longleftrightarrow> rt_phase t = RAwaitingTransfer \<and>
     unat (rt_gross_share_e8s t) = unat (rt_amount_e8s t) + unat fee \<and>
     (case rt_kind t of CmcTopUp c \<Rightarrow> managed_by relay cfg c
      | SurplusIcp target account memo \<Rightarrow> surplus_configured cfg target account memo
      | FaucetCommitment _ _ _ _ \<Rightarrow> False)"

definition surplus_entry_ok :: "rconfig \<Rightarrow> u64 \<Rightarrow> surplus_transfer_sample \<Rightarrow> bytes option \<Rightarrow> bool" where
  "surplus_entry_ok cfg fee x memo \<longleftrightarrow> surplus_configured cfg (xs_target x) (xs_account x) memo \<and>
     (xs_amount_e8s x \<noteq> 0 \<longrightarrow> unat (xs_gross_share_e8s x) = unat (xs_amount_e8s x) + unat fee)"

definition topup_entry_ok :: "principal \<Rightarrow> rconfig \<Rightarrow> u64 \<Rightarrow> canister_burn_sample \<Rightarrow> bool" where
  "topup_entry_ok relay cfg fee c \<longleftrightarrow> managed_by relay cfg (cb_canister_id c) \<and>
     (cb_amount_e8s c \<noteq> 0 \<longrightarrow> unat (cb_gross_share_e8s c) = unat (cb_amount_e8s c) + unat fee)"

text \<open>Its shape, its transfers, their creation times, and its budget.\<close>

definition job_shape :: "principal \<Rightarrow> rconfig \<Rightarrow> relay_job \<Rightarrow> bool" where
  "job_shape relay cfg job \<longleftrightarrow> length (rj_canisters job) < 2 ^ 32 \<and> length (rj_surplus_transfers job) < 2 ^ 32 \<and>
     length (rj_surplus_transfers job) \<le> length (rcf_surplus_recipients cfg) \<and>
     unat (rj_next_transfer_index job) \<le> length (rj_canisters job) \<and>
     unat (rj_surplus_transfer_index job) \<le> length (rj_surplus_transfers job) \<and>
     list_all (topup_entry_ok relay cfg (rj_fee_e8s job)) (rj_canisters job) \<and>
     (rj_surplus_transfers job \<noteq> [] \<longrightarrow>
        list_all2 (surplus_entry_ok cfg (rj_fee_e8s job)) (rj_surplus_transfers job) (rj_surplus_memos job)) \<and>
     (\<not> rj_surplus_phase_planned job \<longrightarrow> rj_surplus_transfers job = [])"

definition job_pending :: "relay_transfer list \<Rightarrow> relay_job \<Rightarrow> bool" where
  "job_pending staged job \<longleftrightarrow> (\<forall>p. rj_pending_transfer job = Some p \<longrightarrow>
     staged \<noteq> [] \<and> p\<lparr>rt_phase := RAwaitingTransfer\<rparr> = hd staged \<and>
     (\<not> is_topup p \<longrightarrow> surplus_allowed_after_topups job = Inr ()))"

definition job_times :: "relay_transfer list \<Rightarrow> relay_job \<Rightarrow> bool" where
  "job_times staged job \<longleftrightarrow> rj_next_created_at_time_nanos job \<noteq> u_max \<longrightarrow>
     sorted_wrt (\<lambda>t t'. rt_created_at_time_nanos t' < rt_created_at_time_nanos t) staged \<and>
     (\<forall>t \<in> set staged. rt_created_at_time_nanos t < rj_next_created_at_time_nanos job)"

definition job_budget :: "relay_transfer list \<Rightarrow> relay_job \<Rightarrow> bool" where
  "job_budget staged job \<longleftrightarrow>
     gross_of (filter is_topup staged) + pay_topups (drop (unat (rj_next_transfer_index job)) (rj_canisters job))
       = pay_topups (rj_canisters job) \<and>
     (\<not> rj_surplus_phase_planned job \<longrightarrow> filter (\<lambda>t. \<not> is_topup t) staged = []) \<and>
     (modest job \<longrightarrow> gross_of (filter (\<lambda>t. \<not> is_topup t) staged) +
        pay_surplus (drop (unat (rj_surplus_transfer_index job)) (rj_surplus_transfers job)) +
        pay_topups (rj_canisters job) \<le> unat (rj_balance_start_e8s job)) \<and>
     (modest job \<and> \<not> rj_surplus_phase_planned job \<and> ry_failed_transfers (rj_summary job) = 0 \<longrightarrow>
        unat (ry_known_unspent_e8s (rj_summary job)) + pay_topups (rj_canisters job) \<le> unat (rj_balance_start_e8s job))"

definition relay_job_inv :: "principal \<Rightarrow> rconfig \<Rightarrow> relay_transfer list \<Rightarrow> transfer_arg list \<Rightarrow> relay_job \<Rightarrow> bool" where
  "relay_job_inv relay cfg staged sent job \<longleftrightarrow> job_shape relay cfg job \<and> job_pending staged job \<and>
     job_times staged job \<and> job_budget staged job \<and>
     list_all (staged_ok relay cfg (rj_fee_e8s job)) staged \<and>
     set sent \<subseteq> pending_transfer_arg (rcf_cmc_canister_id cfg) (rj_fee_e8s job) ` set staged"

section \<open>Consequences of the terms\<close>

lemma terms_lists:
  assumes "map canister_terms cs' = map canister_terms cs"
  shows "length cs' = length cs" "pay_topups (drop i cs') = pay_topups (drop i cs)"
    "pay_topups cs' = pay_topups cs" "list_all (topup_entry_ok relay cfg fee) cs' = list_all (topup_entry_ok relay cfg fee) cs"
    "(\<Sum>c\<leftarrow>cs'. unat (cb_target_topup_cycles c) + f) = (\<Sum>c\<leftarrow>cs. unat (cb_target_topup_cycles c) + f)"
proof -
  show len: "length cs' = length cs" using assms by (rule map_eq_imp_length_eq)
  have all: "list_all2 (\<lambda>c' c. canister_terms c' = canister_terms c) cs' cs"
    using assms by (simp add: list_all2_conv_all_nth len) (metis len nth_map)
  have pay: "list_all2 (\<lambda>c' c. canister_terms c' = canister_terms c) as bs \<Longrightarrow> pay_topups as = pay_topups bs" for as bs
    by (induction rule: list_all2_induct) (auto simp: pay_Cons canister_terms_def)
  from all show "pay_topups cs' = pay_topups cs" by (rule pay)
  from all have "list_all2 (\<lambda>c' c. canister_terms c' = canister_terms c) (drop i cs') (drop i cs)" by (rule list_all2_dropI)
  then show "pay_topups (drop i cs') = pay_topups (drop i cs)" by (rule pay)
  from all show "list_all (topup_entry_ok relay cfg fee) cs' = list_all (topup_entry_ok relay cfg fee) cs"
    by (induction rule: list_all2_induct) (auto simp: topup_entry_ok_def canister_terms_def)
  from all show "(\<Sum>c\<leftarrow>cs'. unat (cb_target_topup_cycles c) + f) = (\<Sum>c\<leftarrow>cs. unat (cb_target_topup_cycles c) + f)"
    by (induction rule: list_all2_induct) (auto simp: canister_terms_def)
qed

lemma job_terms_D:
  assumes "job_terms job' = job_terms job"
  shows "rj_id job' = rj_id job" "rj_fee_e8s job' = rj_fee_e8s job" "rj_balance_start_e8s job' = rj_balance_start_e8s job"
    "length (rj_canisters job') = length (rj_canisters job)"
    "pay_topups (drop i (rj_canisters job')) = pay_topups (drop i (rj_canisters job))"
    "pay_topups (rj_canisters job') = pay_topups (rj_canisters job)"
    "list_all (topup_entry_ok relay cfg fee) (rj_canisters job') = list_all (topup_entry_ok relay cfg fee) (rj_canisters job)"
    "modest job' = modest job"
  using assms terms_lists [of "rj_canisters job'" "rj_canisters job"] by (auto simp: job_terms_def modest_def)

lemma same_frame_refl [simp]: "same_frame job job"
  by (simp add: same_frame_def)

lemma same_frame_trans: "same_frame a b \<Longrightarrow> same_frame b c \<Longrightarrow> same_frame a c"
  by (auto simp: same_frame_def)

text \<open>Settling: the frame stays, and the pending transfer stays with a later phase, or is settled.\<close>

lemma settle_keeps_inv:
  assumes inv: "relay_job_inv relay cfg staged sent job" and frame: "same_frame job job'"
    and pending: "job_pending staged job'"
    and unspent: "ry_failed_transfers (rj_summary job') \<noteq> 0 \<or>
      ry_failed_transfers (rj_summary job) = 0 \<and> ry_known_unspent_e8s (rj_summary job') = ry_known_unspent_e8s (rj_summary job)"
  shows "relay_job_inv relay cfg staged sent job'"
proof -
  have terms: "job_terms job' = job_terms job" using frame by (simp add: same_frame_def)
  note t = job_terms_D [OF terms]
  have "job_shape relay cfg job'" using inv frame by (auto simp: relay_job_inv_def job_shape_def same_frame_def t)
  moreover have "job_times staged job'" using inv frame by (auto simp: relay_job_inv_def job_times_def same_frame_def)
  moreover have "job_budget staged job'"
    using inv frame unspent by (auto simp: relay_job_inv_def job_budget_def same_frame_def t)
  ultimately show ?thesis using inv pending by (simp add: relay_job_inv_def t)
qed

end
