(* ===== verification/RelayJobSteps.thy ===== *)
theory RelayJobSteps
  imports RelayJobInv
begin

text \<open>Every change of the Relay's daily job keeps its invariant: settling, staging, planning the surplus, starting.\<close>

section \<open>Settling\<close>

lemma sat_add_1_nonzero: "sat_add x 1 \<noteq> (0 :: u32)"
proof
  assume "sat_add x 1 = 0"
  then have "unat (sat_add x 1) = 0" by simp
  then show False by (simp add: unat_sat_add)
qed

lemma refresh_fields [simp]:
  "ry_failed_transfers (refresh_canister_totals s) = ry_failed_transfers s"
  "ry_ambiguous_transfers (refresh_canister_totals s) = ry_ambiguous_transfers s"
  "ry_cmc_notify_failed_count (refresh_canister_totals s) = ry_cmc_notify_failed_count s"
  "ry_cmc_notify_ambiguous_count (refresh_canister_totals s) = ry_cmc_notify_ambiguous_count s"
  "ry_known_unspent_e8s (refresh_canister_totals s) = ry_known_unspent_e8s s"
  by (simp_all add: refresh_canister_totals_def)

lemma pending_none [simp]: "rj_pending_transfer job = None \<Longrightarrow> job_pending staged job"
  by (simp add: job_pending_def)

lemma terms_cong:
  "rj_id job' = rj_id job \<Longrightarrow> rj_fee_e8s job' = rj_fee_e8s job \<Longrightarrow> rj_balance_start_e8s job' = rj_balance_start_e8s job
   \<Longrightarrow> map canister_terms (rj_canisters job') = map canister_terms (rj_canisters job) \<Longrightarrow> job_terms job' = job_terms job"
  by (simp add: job_terms_def)

lemma settle_summary_frame:
  "same_frame job (settle_summary f job)" "rj_pending_transfer (settle_summary f job) = None"
  by (simp_all add: same_frame_def job_terms_def settle_summary_def)

lemma settle_summary_inv:
  assumes "relay_job_inv relay cfg staged sent job"
    and "\<And>s. ry_failed_transfers (f s) \<noteq> 0 \<or>
      ry_failed_transfers s = ry_failed_transfers (f s) \<and> ry_known_unspent_e8s (f s) = ry_known_unspent_e8s s"
  shows "relay_job_inv relay cfg staged sent (settle_summary f job)"
proof (rule settle_keeps_inv [OF assms(1) settle_summary_frame(1)])
  show "job_pending staged (settle_summary f job)" using settle_summary_frame(2) by simp
  show "ry_failed_transfers (rj_summary (settle_summary f job)) \<noteq> 0 \<or>
      ry_failed_transfers (rj_summary job) = 0 \<and>
      ry_known_unspent_e8s (rj_summary (settle_summary f job)) = ry_known_unspent_e8s (rj_summary job)"
    using assms(2) [of "rj_summary job"] by (auto simp: settle_summary_def)
qed

lemma add_sent_terms [simp]: "map canister_terms (add_sent c a cs) = map canister_terms cs"
  unfolding add_sent_def by (rule map_update_first) (simp add: canister_terms_def)

lemma add_minted_terms [simp]: "map canister_terms (add_minted c m cs) = map canister_terms cs"
  unfolding add_minted_def by (rule map_update_first) (simp add: canister_terms_def refresh_deficit_def)

lemma ledger_accepted_frame: "same_frame job (ledger_accepted_job pending block job)"
  by (simp add: same_frame_def job_terms_def ledger_accepted_job_def Let_def split: relay_transfer_kind.split)

lemma ledger_accepted_counts:
  "ry_failed_transfers (rj_summary (ledger_accepted_job pending block job)) = ry_failed_transfers (rj_summary job)"
  "ry_known_unspent_e8s (rj_summary (ledger_accepted_job pending block job)) = ry_known_unspent_e8s (rj_summary job)"
  "rj_pending_transfer (ledger_accepted_job pending block job) = Some (pending\<lparr>rt_phase := RTransferAccepted block\<rparr>)"
  "\<not> is_topup pending \<Longrightarrow> surplus_allowed_after_topups (ledger_accepted_job pending block job) = surplus_allowed_after_topups job"
  by (cases "rt_kind pending"; simp add: ledger_accepted_job_def Let_def is_topup_def surplus_allowed_after_topups_def)+

lemma ledger_accepted_inv:
  assumes inv: "relay_job_inv relay cfg staged sent job" and pending: "rj_pending_transfer job = Some pending"
  shows "relay_job_inv relay cfg staged sent (ledger_accepted_job pending block job)"
proof (rule settle_keeps_inv [OF inv ledger_accepted_frame])
  have "is_topup (pending\<lparr>rt_phase := RTransferAccepted block\<rparr>) = is_topup pending" by (simp add: is_topup_def)
  then show "job_pending staged (ledger_accepted_job pending block job)"
    using inv pending by (simp add: relay_job_inv_def job_pending_def ledger_accepted_counts)
qed (simp add: ledger_accepted_counts)

lemma completed_frame:
  "same_frame job (completed_job ok minted job)" "rj_pending_transfer (completed_job ok minted job) = None"
  by (auto simp: same_frame_def job_terms_def completed_job_def Let_def split: option.split)

lemma completed_inv:
  assumes "relay_job_inv relay cfg staged sent job"
  shows "relay_job_inv relay cfg staged sent (completed_job ok minted job)"
proof (rule settle_keeps_inv [OF assms completed_frame(1)])
  show "job_pending staged (completed_job ok minted job)" using completed_frame(2) by simp
  show "ry_failed_transfers (rj_summary (completed_job ok minted job)) \<noteq> 0 \<or>
      ry_failed_transfers (rj_summary job) = 0 \<and>
      ry_known_unspent_e8s (rj_summary (completed_job ok minted job)) = ry_known_unspent_e8s (rj_summary job)"
    by (auto simp: completed_job_def Let_def split: option.split)
qed

section \<open>Staging\<close>

lemma index_succ:
  assumes "unat (i :: u32) < n" "n < 2 ^ 32"
  shows "unat (sat_add i 1) = Suc (unat i)"
  using assms by (simp add: unat_sat_add)

lemma surplus_allowed_fields [simp]:
  "surplus_allowed_after_topups (job\<lparr>rj_surplus_transfer_index := i\<rparr>) = surplus_allowed_after_topups job"
  "surplus_allowed_after_topups (job\<lparr>rj_next_created_at_time_nanos := n\<rparr>) = surplus_allowed_after_topups job"
  "surplus_allowed_after_topups (job\<lparr>rj_pending_transfer := p\<rparr>) = surplus_allowed_after_topups job"
  by (simp_all add: surplus_allowed_after_topups_def)

text \<open>Skipping an entry that pays nothing.\<close>

lemma skip_topup_inv:
  assumes inv: "relay_job_inv relay cfg staged sent job" and idle: "rj_pending_transfer job = None"
    and index: "unat (rj_next_transfer_index job) < length (rj_canisters job)"
      "cb_amount_e8s (rj_canisters job ! unat (rj_next_transfer_index job)) = 0"
  shows "relay_job_inv relay cfg staged sent (job\<lparr>rj_next_transfer_index := sat_add (rj_next_transfer_index job) 1\<rparr>)"
proof -
  have succ: "unat (sat_add (rj_next_transfer_index job) 1) = Suc (unat (rj_next_transfer_index job))"
    using index(1) inv by (intro index_succ) (auto simp: relay_job_inv_def job_shape_def)
  show ?thesis using inv idle index pay_drop(1) [OF index(1)]
    by (simp add: relay_job_inv_def job_shape_def job_pending_def job_times_def job_budget_def modest_def succ)
qed

lemma skip_surplus_inv:
  assumes inv: "relay_job_inv relay cfg staged sent job" and idle: "rj_pending_transfer job = None"
    and index: "unat (rj_surplus_transfer_index job) < length (rj_surplus_transfers job)"
      "xs_amount_e8s (rj_surplus_transfers job ! unat (rj_surplus_transfer_index job)) = 0"
  shows "relay_job_inv relay cfg staged sent (job\<lparr>rj_surplus_transfer_index := sat_add (rj_surplus_transfer_index job) 1\<rparr>)"
proof -
  have succ: "unat (sat_add (rj_surplus_transfer_index job) 1) = Suc (unat (rj_surplus_transfer_index job))"
    using index(1) inv by (intro index_succ) (auto simp: relay_job_inv_def job_shape_def)
  show ?thesis using inv idle index pay_drop(2) [OF index(1)]
    by (simp add: relay_job_inv_def job_shape_def job_pending_def job_times_def job_budget_def modest_def succ)
qed

lemma times_staged:
  assumes times: "job_times staged job" and next': "next_job_created_at now job = (created, job1)"
    and fields: "rj_next_created_at_time_nanos job2 = rj_next_created_at_time_nanos job1" "rt_created_at_time_nanos t = created"
  shows "job_times (t # staged) job2"
proof -
  have created: "created = max (rj_next_created_at_time_nanos job) now"
    "rj_next_created_at_time_nanos job2 = sat_add created 1"
    using next' fields by (auto simp: next_job_created_at_def Let_def)
  show ?thesis
    unfolding job_times_def created(2)
  proof (intro impI)
    assume fresh: "sat_add created 1 \<noteq> u_max"
    have small: "unat created + 1 < 2 ^ 64"
    proof (rule ccontr)
      assume "\<not> unat created + 1 < 2 ^ 64"
      then have "unat (sat_add created 1) = unat (u_max :: u64)" by (simp add: unat_sat_add)
      then show False using fresh by (simp add: word_unat_eq_iff)
    qed
    then have succ: "unat (sat_add created 1) = unat created + 1" by (simp add: unat_sat_add)
    have le: "rj_next_created_at_time_nanos job \<le> created" by (simp add: created(1))
    moreover have "rj_next_created_at_time_nanos job \<noteq> u_max"
      using le small by (auto simp: word_le_nat_alt)
    ultimately have old: "sorted_wrt (\<lambda>t t'. rt_created_at_time_nanos t' < rt_created_at_time_nanos t) staged"
      "\<forall>t \<in> set staged. rt_created_at_time_nanos t < created"
      using times by (auto simp: job_times_def)
    have "created < sat_add created 1" by (simp add: word_less_nat_alt succ)
    then show "sorted_wrt (\<lambda>t t'. rt_created_at_time_nanos t' < rt_created_at_time_nanos t) (t # staged) \<and>
        (\<forall>t \<in> set (t # staged). rt_created_at_time_nanos t < sat_add created 1)"
      using old fields(2) by auto
  qed
qed

lemma pending_arg_image: "set sent \<subseteq> f ` set staged \<Longrightarrow> set sent \<subseteq> f ` set (t # staged)"
  by auto

lemma stage_topup_inv:
  assumes inv: "relay_job_inv relay cfg staged sent job" and idle: "rj_pending_transfer job = None"
    and index: "unat (rj_next_transfer_index job) < length (rj_canisters job)"
      "c = rj_canisters job ! unat (rj_next_transfer_index job)" "cb_amount_e8s c \<noteq> 0"
    and stage: "stage_pending (CmcTopUp (cb_canister_id c)) (cb_gross_share_e8s c) (cb_amount_e8s c) now
      (job\<lparr>rj_next_transfer_index := sat_add (rj_next_transfer_index job) 1\<rparr>) = (job', s)"
  shows "\<exists>t. s = Some t \<and> rj_pending_transfer job' = Some t \<and> relay_job_inv relay cfg (t # staged) sent job'"
proof -
  let ?job1 = "job\<lparr>rj_next_transfer_index := sat_add (rj_next_transfer_index job) 1\<rparr>"
  obtain created job2 where n: "next_job_created_at now ?job1 = (created, job2)" by fastforce
  define t where "t = \<lparr>rt_kind = CmcTopUp (cb_canister_id c), rt_gross_share_e8s = cb_gross_share_e8s c,
    rt_amount_e8s = cb_amount_e8s c, rt_created_at_time_nanos = created, rt_phase = RAwaitingTransfer\<rparr>"
  have job': "job' = job2\<lparr>rj_pending_transfer := Some t\<rparr>" "s = Some t"
    using stage n by (auto simp: stage_pending_def t_def Let_def)
  have job2: "job2 = ?job1\<lparr>rj_next_created_at_time_nanos := sat_add created 1\<rparr>"
    using n by (auto simp: next_job_created_at_def Let_def)
  have succ: "unat (sat_add (rj_next_transfer_index job) 1) = Suc (unat (rj_next_transfer_index job))"
    using index(1) inv by (intro index_succ) (auto simp: relay_job_inv_def job_shape_def)
  have "c \<in> set (rj_canisters job)" using index by simp
  then have c: "topup_entry_ok relay cfg (rj_fee_e8s job) c"
    using inv by (simp add: relay_job_inv_def job_shape_def list_all_iff)
  have kind: "is_topup t" "staged_ok relay cfg (rj_fee_e8s job) t" "rt_created_at_time_nanos t = created"
    using c index(3) by (simp_all add: is_topup_def staged_ok_def topup_entry_ok_def t_def)
  have "job_times (t # staged) job'"
  proof (rule times_staged [OF _ n _ kind(3)])
    show "job_times staged ?job1" using inv by (simp add: relay_job_inv_def job_times_def)
  qed (simp add: job'(1))
  moreover have "job_shape relay cfg job'" "job_budget (t # staged) job'"
    using inv index kind(1) pay_drop(1) [OF index(1)]
    by (simp_all add: relay_job_inv_def job_shape_def job_budget_def modest_def job'(1) job2 succ t_def ac_simps)
  moreover have "job_pending (t # staged) job'" using kind(1) by (simp add: job_pending_def job'(1) t_def)
  moreover have "rj_fee_e8s job' = rj_fee_e8s job" by (simp add: job'(1) job2)
  ultimately have "relay_job_inv relay cfg (t # staged) sent job'"
    using inv kind(2) by (simp add: relay_job_inv_def subset_insertI2)
  then show ?thesis using job' by simp
qed

lemma stage_surplus_inv:
  assumes inv: "relay_job_inv relay cfg staged sent job" and idle: "rj_pending_transfer job = None"
    and clean: "surplus_allowed_after_topups job = Inr ()"
    and index: "unat (rj_surplus_transfer_index job) < length (rj_surplus_transfers job)"
      "x = rj_surplus_transfers job ! unat (rj_surplus_transfer_index job)" "xs_amount_e8s x \<noteq> 0"
      "memo = rj_surplus_memos job ! unat (rj_surplus_transfer_index job)"
    and stage: "stage_pending (SurplusIcp (xs_target x) (xs_account x) memo) (xs_gross_share_e8s x) (xs_amount_e8s x) now
      (job\<lparr>rj_surplus_transfer_index := sat_add (rj_surplus_transfer_index job) 1\<rparr>) = (job', s)"
  shows "\<exists>t. s = Some t \<and> rj_pending_transfer job' = Some t \<and> relay_job_inv relay cfg (t # staged) sent job'"
proof -
  let ?job1 = "job\<lparr>rj_surplus_transfer_index := sat_add (rj_surplus_transfer_index job) 1\<rparr>"
  obtain created job2 where n: "next_job_created_at now ?job1 = (created, job2)" by fastforce
  define t where "t = \<lparr>rt_kind = SurplusIcp (xs_target x) (xs_account x) memo, rt_gross_share_e8s = xs_gross_share_e8s x,
    rt_amount_e8s = xs_amount_e8s x, rt_created_at_time_nanos = created, rt_phase = RAwaitingTransfer\<rparr>"
  have job': "job' = job2\<lparr>rj_pending_transfer := Some t\<rparr>" "s = Some t"
    using stage n by (auto simp: stage_pending_def t_def Let_def)
  have job2: "job2 = ?job1\<lparr>rj_next_created_at_time_nanos := sat_add created 1\<rparr>"
    using n by (auto simp: next_job_created_at_def Let_def)
  have succ: "unat (sat_add (rj_surplus_transfer_index job) 1) = Suc (unat (rj_surplus_transfer_index job))"
    using index(1) inv by (intro index_succ) (auto simp: relay_job_inv_def job_shape_def)
  have entries: "list_all2 (surplus_entry_ok cfg (rj_fee_e8s job)) (rj_surplus_transfers job) (rj_surplus_memos job)"
    using inv index(1) by (auto simp: relay_job_inv_def job_shape_def)
  then have x: "surplus_entry_ok cfg (rj_fee_e8s job) x memo" using index by (simp add: list_all2_conv_all_nth)
  have planned: "rj_surplus_phase_planned job"
    using inv index(1) by (auto simp: relay_job_inv_def job_shape_def)
  have kind: "\<not> is_topup t" "staged_ok relay cfg (rj_fee_e8s job) t" "rt_created_at_time_nanos t = created"
    using x index(3) by (simp_all add: is_topup_def staged_ok_def surplus_entry_ok_def t_def)
  have "job_times (t # staged) job'"
  proof (rule times_staged [OF _ n _ kind(3)])
    show "job_times staged ?job1" using inv by (simp add: relay_job_inv_def job_times_def)
  qed (simp add: job'(1))
  moreover have "job_shape relay cfg job'" "job_budget (t # staged) job'"
    using inv index kind(1) planned pay_drop(2) [OF index(1)]
    by (simp_all add: relay_job_inv_def job_shape_def job_budget_def modest_def job'(1) job2 succ t_def ac_simps)
  moreover have "job_pending (t # staged) job'"
    using clean by (simp add: job_pending_def job'(1) job2 t_def)
  moreover have "rj_fee_e8s job' = rj_fee_e8s job" by (simp add: job'(1) job2)
  ultimately have "relay_job_inv relay cfg (t # staged) sent job'"
    using inv kind(2) by (simp add: relay_job_inv_def subset_insertI2)
  then show ?thesis using job' by simp
qed

text \<open>The result of staging: nothing is staged, or one transfer is, and it is the pending one.\<close>

definition stages :: "principal \<Rightarrow> rconfig \<Rightarrow> relay_transfer list \<Rightarrow> transfer_arg list \<Rightarrow> relay_job \<Rightarrow> relay_transfer option \<Rightarrow> bool" where
  "stages relay cfg staged sent job s \<longleftrightarrow>
     relay_job_inv relay cfg ((case s of None \<Rightarrow> [] | Some t \<Rightarrow> [t]) @ staged) sent job \<and> rj_pending_transfer job = s"

lemma next_topup_from_stages:
  assumes "relay_job_inv relay cfg staged sent job" "rj_pending_transfer job = None"
    and "next_topup_from fuel now job = (job', s)"
  shows "stages relay cfg staged sent job' s \<and> job_terms job' = job_terms job"
  using assms
proof (induction fuel arbitrary: job)
  case 0
  then show ?case by (simp add: stages_def)
next
  case (Suc fuel)
  let ?i = "unat (rj_next_transfer_index job)"
  show ?case
  proof (cases "?i < length (rj_canisters job)")
    case False
    then show ?thesis using Suc.prems by (simp add: stages_def Let_def)
  next
    case in_range: True
    show ?thesis
    proof (cases "cb_amount_e8s (rj_canisters job ! ?i) = 0")
      case True
      from skip_topup_inv [OF Suc.prems(1,2) in_range True] Suc.prems(2,3) in_range True
      show ?thesis by (auto simp: Let_def job_terms_def dest!: Suc.IH [rotated 2])
    next
      case False
      from Suc.prems(3) in_range False
      have stage: "stage_pending (CmcTopUp (cb_canister_id (rj_canisters job ! ?i))) (cb_gross_share_e8s (rj_canisters job ! ?i))
          (cb_amount_e8s (rj_canisters job ! ?i)) now
          (job\<lparr>rj_next_transfer_index := sat_add (rj_next_transfer_index job) 1\<rparr>) = (job', s)" by (simp add: Let_def)
      from stage_topup_inv [OF Suc.prems(1,2) in_range refl False stage] stage
      show ?thesis by (auto simp: stages_def stage_pending_def next_job_created_at_def Let_def job_terms_def)
    qed
  qed
qed

lemma next_surplus_from_stages:
  assumes "relay_job_inv relay cfg staged sent job" "rj_pending_transfer job = None"
    and "surplus_allowed_after_topups job = Inr ()" "next_surplus_from fuel now job = (job', s)"
  shows "stages relay cfg staged sent job' s \<and> job_terms job' = job_terms job"
  using assms
proof (induction fuel arbitrary: job)
  case 0
  then show ?case by (simp add: stages_def)
next
  case (Suc fuel)
  let ?i = "unat (rj_surplus_transfer_index job)"
  show ?case
  proof (cases "?i < length (rj_surplus_transfers job)")
    case False
    then show ?thesis using Suc.prems by (simp add: stages_def Let_def)
  next
    case in_range: True
    show ?thesis
    proof (cases "xs_amount_e8s (rj_surplus_transfers job ! ?i) = 0")
      case True
      let ?job1 = "job\<lparr>rj_surplus_transfer_index := sat_add (rj_surplus_transfer_index job) 1\<rparr>"
      have "surplus_allowed_after_topups ?job1 = Inr ()" "next_surplus_from fuel now ?job1 = (job', s)"
        using Suc.prems(3,4) in_range True by (simp_all add: Let_def)
      from Suc.IH [OF skip_surplus_inv [OF Suc.prems(1,2) in_range True] _ this] Suc.prems(2)
      show ?thesis by (simp add: job_terms_def)
    next
      case False
      have memos: "length (rj_surplus_memos job) = length (rj_surplus_transfers job)"
        using Suc.prems(1) in_range by (auto simp: relay_job_inv_def job_shape_def dest: list_all2_lengthD)
      from Suc.prems(4) in_range False memos
      have stage: "stage_pending (SurplusIcp (xs_target (rj_surplus_transfers job ! ?i)) (xs_account (rj_surplus_transfers job ! ?i))
          (rj_surplus_memos job ! ?i)) (xs_gross_share_e8s (rj_surplus_transfers job ! ?i))
          (xs_amount_e8s (rj_surplus_transfers job ! ?i)) now
          (job\<lparr>rj_surplus_transfer_index := sat_add (rj_surplus_transfer_index job) 1\<rparr>) = (job', s)" by (simp add: Let_def)
      from stage_surplus_inv [OF Suc.prems(1-3) in_range refl False refl stage] stage
      show ?thesis by (auto simp: stages_def stage_pending_def next_job_created_at_def Let_def job_terms_def)
    qed
  qed
qed

lemma drop_surplus_inv:
  assumes "relay_job_inv relay cfg staged sent job" "rj_pending_transfer job = None"
    and "rj_surplus_transfers job \<noteq> []"
  shows "relay_job_inv relay cfg staged sent (job\<lparr>rj_surplus_transfers := [], rj_surplus_memos := [],
    rj_surplus_transfer_index := 0, rj_summary := (rj_summary job)\<lparr>ry_surplus_transfers := [],
      ry_surplus_e8s_before_fees := 0, ry_skipped_surplus_reason := Some reason\<rparr>\<rparr>)"
proof -
  have "rj_surplus_phase_planned job" using assms by (auto simp: relay_job_inv_def job_shape_def)
  then show ?thesis using assms
    by (auto simp: relay_job_inv_def job_shape_def job_pending_def job_times_def job_budget_def modest_def)
qed

lemma next_surplus_stages:
  assumes "relay_job_inv relay cfg staged sent job" "rj_pending_transfer job = None"
    and "next_surplus_pending now job = (job', s)"
  shows "stages relay cfg staged sent job' s \<and> job_terms job' = job_terms job"
proof (cases "surplus_allowed_after_topups job")
  case (Inl reason)
  show ?thesis
  proof (cases "rj_surplus_transfers job = []")
    case True
    then show ?thesis using assms by (simp add: next_surplus_pending_def stages_def)
  next
    case False
    then show ?thesis using assms Inl drop_surplus_inv [OF assms(1,2) False, of reason]
      by (auto simp: next_surplus_pending_def stages_def job_terms_def)
  qed
next
  case (Inr u)
  then show ?thesis using assms next_surplus_from_stages [OF assms(1,2) _, of "Suc (length (rj_surplus_transfers job))"]
    by (auto simp: next_surplus_pending_def stages_def split: if_splits)
qed

lemma plan_next_transfer_stages:
  assumes inv: "relay_job_inv relay cfg staged sent job" and idle: "rj_pending_transfer job = None"
    and plan: "plan_next_transfer limit started now job = (step, started', job', s)"
  shows "stages relay cfg staged sent job' s \<and> job_terms job' = job_terms job \<and> (step = PlanPlanned \<longleftrightarrow> s \<noteq> None)"
proof (cases "topups_remain job \<or> surplus_remains job")
  case False
  then have none: "pay_topups (drop (unat (rj_next_transfer_index job)) (rj_canisters job)) = 0"
    "pay_surplus (drop (unat (rj_surplus_transfer_index job)) (rj_surplus_transfers job)) = 0"
    using pay_none by (auto simp: topups_remain_def surplus_remains_def)
  have len: "unat (word_of_nat (length (rj_canisters job)) :: u32) = length (rj_canisters job)"
    "unat (word_of_nat (length (rj_surplus_transfers job)) :: u32) = length (rj_surplus_transfers job)"
    using inv by (auto simp: relay_job_inv_def job_shape_def unat_of_nat take_bit_nat_eq_self)
  have "relay_job_inv relay cfg staged sent (job\<lparr>rj_next_transfer_index := word_of_nat (length (rj_canisters job)),
      rj_surplus_transfer_index := word_of_nat (length (rj_surplus_transfers job))\<rparr>)"
    using inv idle none
    by (simp add: relay_job_inv_def job_shape_def job_pending_def job_times_def job_budget_def modest_def len)
  then show ?thesis using plan False idle
    by (auto simp: plan_next_transfer_def stages_def job_terms_def)
next
  case remains: True
  show ?thesis
  proof (cases "case limit of None \<Rightarrow> False | Some l \<Rightarrow> l \<le> started")
    case True
    have "relay_job_inv relay cfg staged sent (job\<lparr>rj_summary := (rj_summary job)\<lparr>ry_partial_tick_count := n\<rparr>\<rparr>)" for n
      using inv idle
      by (simp add: relay_job_inv_def job_shape_def job_pending_def job_times_def job_budget_def modest_def)
    then show ?thesis using plan remains True idle
      by (auto simp: plan_next_transfer_def stages_def job_terms_def)
  next
    case False
    obtain job1 s1 where topup: "next_topup_pending now job = (job1, s1)" by fastforce
    note first = next_topup_from_stages [OF inv idle topup [unfolded next_topup_pending_def]]
    show ?thesis
    proof (cases s1)
      case (Some t)
      then show ?thesis using plan remains False topup first by (auto simp: plan_next_transfer_def)
    next
      case None
      obtain job2 s2 where surplus: "next_surplus_pending now job1 = (job2, s2)" by fastforce
      have "relay_job_inv relay cfg staged sent job1" "rj_pending_transfer job1 = None"
        using first None by (simp_all add: stages_def)
      note second = next_surplus_stages [OF this surplus]
      show ?thesis using plan remains False topup first None surplus second
        by (auto simp: plan_next_transfer_def split: option.splits)
    qed
  qed
qed

section \<open>Planning the surplus\<close>

lemma unplanned_pending:
  assumes "relay_job_inv relay cfg staged sent job" "\<not> rj_surplus_phase_planned job" "rj_pending_transfer job = Some p"
  shows "is_topup p"
proof (rule ccontr)
  assume no: "\<not> is_topup p"
  have "staged \<noteq> []" "hd staged = p\<lparr>rt_phase := RAwaitingTransfer\<rparr>"
    using assms by (auto simp: relay_job_inv_def job_pending_def)
  moreover have "\<not> is_topup (p\<lparr>rt_phase := RAwaitingTransfer\<rparr>)" using no by (simp add: is_topup_def)
  ultimately have "filter (\<lambda>t. \<not> is_topup t) staged \<noteq> []" by (cases staged) auto
  then show False using assms by (simp add: relay_job_inv_def job_budget_def)
qed

lemma planned_inv:
  assumes inv: "relay_job_inv relay cfg staged sent job" and unplanned: "\<not> rj_surplus_phase_planned job"
    and len: "length surplus \<le> length (rcf_surplus_recipients cfg)" "length (rcf_surplus_recipients cfg) < 2 ^ 32"
    and entries: "surplus \<noteq> [] \<longrightarrow> list_all2 (surplus_entry_ok cfg (rj_fee_e8s job)) surplus memos"
    and budget: "modest job \<longrightarrow> pay_surplus surplus + pay_topups (rj_canisters job) \<le> unat (rj_balance_start_e8s job)"
    and job': "job' = job\<lparr>rj_surplus_transfers := surplus, rj_surplus_memos := memos, rj_surplus_transfer_index := 0,
      rj_surplus_phase_planned := True, rj_summary := s\<rparr>"
  shows "relay_job_inv relay cfg staged sent job'"
proof -
  have "job_pending staged job'"
    using inv unplanned unplanned_pending [OF inv unplanned] job' by (auto simp: relay_job_inv_def job_pending_def)
  moreover have "job_shape relay cfg job'" using inv len entries by (auto simp: relay_job_inv_def job_shape_def job')
  moreover have "job_times staged job'" using inv by (simp add: relay_job_inv_def job_times_def job')
  moreover have "job_budget staged job'" using inv unplanned budget by (simp add: relay_job_inv_def job_budget_def modest_def job')
  ultimately show ?thesis using inv by (simp add: relay_job_inv_def job')
qed

lemma without_surplus_inv:
  assumes "relay_job_inv relay cfg staged sent job" "\<not> rj_surplus_phase_planned job"
    and "length (rcf_surplus_recipients cfg) < 2 ^ 32"
  shows "relay_job_inv relay cfg staged sent (without_surplus reason job)"
proof (rule planned_inv [where surplus = "[]", OF assms(1,2) _ assms(3) _ _ without_surplus_def [THEN trans]])
  have "gross_of (filter (\<lambda>t. \<not> is_topup t) staged) = 0"
    using assms(1,2) by (simp add: relay_job_inv_def job_budget_def)
  then show "modest job \<longrightarrow> pay_surplus [] + pay_topups (rj_canisters job) \<le> unat (rj_balance_start_e8s job)"
    using assms(1) by (auto simp: relay_job_inv_def job_budget_def)
qed (simp_all add: Let_def)

lemma surplus_plan_facts:
  assumes plan: "build_surplus_plan resolved k fee estimate now = (surplus, before, reason)"
    and resolved: "list_all (\<lambda>r. surplus_configured cfg (rr_target r) (rr_account r) (rr_memo r)) resolved"
    and len: "length resolved < 2 ^ 32"
  shows "length surplus \<le> length resolved" "pay_surplus surplus \<le> unat k"
    "surplus \<noteq> [] \<longrightarrow> list_all2 (surplus_entry_ok cfg fee) surplus (map rr_memo resolved)"
proof -
  consider "surplus = []" | "surplus = allocate_equal_surplus_shares resolved k fee"
    using plan by (auto simp: build_surplus_plan_def Let_def split: if_splits)
  then have "length surplus \<le> length resolved \<and> pay_surplus surplus \<le> unat k \<and>
    (surplus \<noteq> [] \<longrightarrow> list_all2 (surplus_entry_ok cfg fee) surplus (map rr_memo resolved))"
  proof cases
    case 1
    then show ?thesis by simp
  next
    case 2
    have small: "length resolved < 2 ^ 64" using len by simp
    note shares = surplus_shares_within_balance [OF small 2]
    have "list_all2 (surplus_entry_ok cfg fee) surplus (map rr_memo resolved)" if "surplus \<noteq> []"
    proof (rule list_all2_all_nthI)
      show "length surplus = length (map rr_memo resolved)" using shares by simp
      fix i assume i: "i < length surplus"
      then have "xs_target (surplus ! i) = rr_target (resolved ! i)" "xs_account (surplus ! i) = rr_account (resolved ! i)"
        using 2 shares by (auto simp: allocate_equal_surplus_shares_def split: if_splits prod.splits)
      moreover have "surplus_configured cfg (rr_target (resolved ! i)) (rr_account (resolved ! i)) (rr_memo (resolved ! i))"
        using resolved i shares by (simp add: list_all_length)
      moreover have "xs_amount_e8s (surplus ! i) \<noteq> 0 \<longrightarrow>
          unat (xs_gross_share_e8s (surplus ! i)) = unat (xs_amount_e8s (surplus ! i)) + unat fee"
        using shares i by (auto simp: list_all_length)
      ultimately show "surplus_entry_ok cfg fee (surplus ! i) (map rr_memo resolved ! i)"
        using i shares by (simp add: surplus_entry_ok_def)
    qed
    moreover have "pay_surplus surplus \<le> unat k" using shares pay_le(2) [of surplus] by (simp add: comp_def)
    ultimately show ?thesis using shares by simp
  qed
  then show "length surplus \<le> length resolved" "pay_surplus surplus \<le> unat k"
    "surplus \<noteq> [] \<longrightarrow> list_all2 (surplus_entry_ok cfg fee) surplus (map rr_memo resolved)" by simp_all
qed

lemma resolved_recipients:
  assumes "list_all (\<lambda>r. surplus_configured cfg (rr_target r) (rr_account r) (rr_memo r)) resolved"
    and "set recipients \<subseteq> set (rcf_surplus_recipients cfg)"
  shows "asks (\<lambda>q. \<exists>g m. q = RqListNeurons g m) (\<lambda>result. \<forall>rs. result = Inr rs \<longrightarrow> length rs \<le> length resolved + length recipients \<and>
      list_all (\<lambda>r. surplus_configured cfg (rr_target r) (rr_account r) (rr_memo r)) rs)
    (resolve_surplus_from cx cfg resolved recipients)"
  using assms
proof (induction recipients arbitrary: resolved)
  case Nil
  then show ?case by (auto split: sum.splits)
next
  case (Cons r rs)
  show ?case
  proof (cases "sp_target r")
    case (SurplusCanister c)
    have conf: "surplus_configured cfg (SurplusCanister c) \<lparr>acc_owner = c, acc_subaccount = None\<rparr> (sp_memo r)"
      using Cons.prems(2) SurplusCanister by (auto simp: surplus_configured_def)
    have "asks (\<lambda>q. \<exists>g m. q = RqListNeurons g m) (\<lambda>result. \<forall>xs. result = Inr xs \<longrightarrow> length xs \<le> length (resolved @ [x]) + length rs \<and>
        list_all (\<lambda>r. surplus_configured cfg (rr_target r) (rr_account r) (rr_memo r)) xs)
      (resolve_surplus_from cx cfg (resolved @ [x]) rs)"
      if "x = \<lparr>rr_target = SurplusCanister c, rr_account = \<lparr>acc_owner = c, acc_subaccount = None\<rparr>, rr_memo = sp_memo r\<rparr>" for x
      using Cons.prems conf that by (intro Cons.IH) auto
    then show ?thesis using SurplusCanister by (simp add: resolve_canister_surplus_recipient_def)
  next
    case (SurplusNeuron n)
    have conf: "surplus_configured cfg (SurplusNeuron n)
        \<lparr>acc_owner = rcf_governance_canister_id cfg, acc_subaccount = Some sub\<rparr> (sp_memo r)" for sub
      using Cons.prems(2) SurplusNeuron by (auto simp: surplus_configured_def)
    have "asks (\<lambda>q. \<exists>g m. q = RqListNeurons g m) (\<lambda>result. \<forall>xs. result = Inr xs \<longrightarrow> length xs \<le> length (resolved @ [x]) + length rs \<and>
        list_all (\<lambda>r. surplus_configured cfg (rr_target r) (rr_account r) (rr_memo r)) xs)
      (resolve_surplus_from cx cfg (resolved @ [x]) rs)"
      if "x = \<lparr>rr_target = SurplusNeuron n, rr_account = \<lparr>acc_owner = rcf_governance_canister_id cfg,
        acc_subaccount = Some sub\<rparr>, rr_memo = sp_memo r\<rparr>" for x sub
      using Cons.prems conf [of sub] that by (intro Cons.IH) auto
    then show ?thesis using SurplusNeuron by (simp split: sum.split)
  qed
qed

section \<open>A new job\<close>

lemma ceil_div_le: "d \<noteq> 0 \<Longrightarrow> unat (ceil_div n d) \<le> unat n"
proof (cases "n = 0")
  case False
  assume d: "d \<noteq> 0"
  then have pos: "0 < unat d" "0 < unat n" using False by (simp_all add: unat_gt_0)
  have "unat (d - 1) = unat d - 1" using pos by (simp add: unat_sub word_le_nat_alt)
  then have "unat (sat_add n (d - 1)) \<le> unat n + (unat d - 1)" by (simp add: unat_sat_add)
  then have "unat (ceil_div n d) \<le> (unat n + (unat d - 1)) div unat d"
    using False by (simp add: ceil_div_def unat_div_distrib div_le_mono)
  also have "\<dots> \<le> unat n"
    using pos div_round_up [OF pos(1), of "unat n"] div_less_dividend [of "unat d" "unat n"]
    by (cases "unat d = 1") (auto intro!: Suc_leI div_less_dividend)
  finally show ?thesis .
qed (simp add: ceil_div_def)

lemma topup_net_le: "unat (topup_net_e8s target estimate) \<le> unat target"
proof -
  have "unat (as_u64 (min q (as_u128 u_max))) \<le> unat q" for q
    using unat_lt [of "as_u64 q"]
    by (cases "q \<le> as_u128 u_max") (auto simp: min_def unat_as_u64 word_le_nat_alt)
  from order_trans [OF this ceil_div_le] show ?thesis by (simp add: topup_net_e8s_def)
qed

lemma desired_le: "unat (snd (desired_topup fee e p)) \<le> unat (bp_target_topup_cycles p) + unat fee"
  using topup_net_le [of "bp_target_topup_cycles p" e]
  by (auto simp: desired_topup_def Let_def unat_sat_add)

definition plan_terms :: "burn_plan \<Rightarrow> principal \<times> u128" where
  "plan_terms p = (bp_canister_id p, bp_target_topup_cycles p)"

lemma plan_terms_steps [simp]:
  "plan_terms (fst (desired_topup fee e p)) = plan_terms p" "plan_terms (fund_fully fee p g) = plan_terms p"
  "plan_terms (fund_partly fee p g) = plan_terms p" "plan_terms (note_insufficient p d) = plan_terms p"
  "plan_terms (spend_topup fee p g) = plan_terms p" "plan_terms (p\<lparr>bp_skipped_reason := r\<rparr>) = plan_terms p"
  by (simp_all add: plan_terms_def desired_topup_def fund_fully_def fund_partly_def with_gross_def
      note_insufficient_def spend_topup_def Let_def)

lemma map2_terms:
  "length ps = length gs \<Longrightarrow> (\<And>p g. t (f p g) = t p) \<Longrightarrow> map t (map2 f ps gs) = map t ps"
  by (induction ps gs rule: list_induct2) simp_all

lemma length_topup_pass: "topup_pass desired available order st = (shares', r) \<Longrightarrow> length shares' = length (fst st)"
proof (induction desired available order st rule: topup_pass.induct)
  case (2 desired available index order shares used advanced)
  then show ?case by (auto split: if_splits)
qed auto

lemma length_topup_loop: "length (topup_loop desired available order shares used) = length shares"
proof (induction desired available order shares used rule: topup_loop.induct)
  case (1 desired available order shares used)
  show ?case
  proof (cases "used < available")
    case True
    obtain s u a where pass: "topup_pass desired available order (shares, used, False) = (s, u, a)"
      by (metis prod_cases3)
    then have "length s = length shares" using length_topup_pass by fastforce
    then show ?thesis using True pass 1 by (subst topup_loop.simps) auto
  qed (simp add: topup_loop.simps)
qed

lemma allocation_terms:
  "map plan_terms (al_topups (build_allocation_plan cur prev minted deficits balance fee estimate now)) =
     map plan_terms (burn_plans cur prev minted deficits True)"
proof -
  define ds where "ds = map (desired_topup fee (usable_or_bootstrap estimate now)) (burn_plans cur prev minted deficits True)"
  have ts: "map plan_terms (map fst ds) = map plan_terms (burn_plans cur prev minted deficits True)"
    by (simp add: ds_def comp_def)
  define tot where "tot = foldl sat_add 0 (map snd ds)"
  have len: "length (map fst ds) = length (map snd ds)" by simp
  have lenp: "length (map fst ds) = length (proportional_topup_gross_allocations (map snd ds) tot balance)"
    by (simp add: proportional_topup_gross_allocations_def length_topup_loop Let_def)
  show ?thesis
    unfolding build_allocation_plan_def ds_def [symmetric] Let_def tot_def [symmetric]
    using ts len lenp by (auto simp: map2_terms simp del: map_map)
qed

lemma allocation_spends:
  "list_all (\<lambda>p. bp_amount_e8s p = 0 \<or> unat (bp_gross_share_e8s p) = unat (bp_amount_e8s p) + unat fee)
     (al_topups (build_allocation_plan cur prev minted deficits balance fee estimate now))"
proof -
  define ds where "ds = map (desired_topup fee (usable_or_bootstrap estimate now)) (burn_plans cur prev minted deficits True)"
  have asks: "list_all2 (\<lambda>p g. unspent p \<and> (g = 0 \<or> fee < g)) (map fst ds) (map snd ds)"
    using desired_gross_facts [OF burn_plans_unspent] by (simp add: ds_def)
  define tot where "tot = foldl sat_add 0 (map snd ds)"
  let ?ss = "proportional_topup_gross_allocations (map snd ds) tot balance"
  have un: "list_all unspent (map fst ds)"
    using burn_plans_unspent by (auto simp: ds_def list_all_iff desired_topup_facts)
  then have start: "list_all (spends fee) (map fst ds)" by (auto simp: list_all_iff spends_def unspent_def)
  have fully: "list_all (spends fee) (map2 (fund_fully fee) (map fst ds) (map snd ds))"
    using asks by (induction rule: list_all2_induct) (auto simp: fund_fully_facts)
  have partly: "list_all (spends fee) (map2 (fund_partly fee) ts gs)" if "list_all unspent ts" for ts gs
    using that by (induction ts arbitrary: gs) (auto simp: fund_partly_facts zip_Cons1 split: list.split)
  have len: "length (map2 (fund_partly fee) (map fst ds) ?ss) = length (map snd ds)"
    by (simp add: proportional_topup_gross_allocations_def length_topup_loop Let_def)
  have noted: "list_all (spends fee) (map2 note_insufficient (if tot > 0 then map2 (fund_partly fee) (map fst ds) ?ss
      else map fst ds) (map snd ds))"
    using start partly [OF un] len by (auto simp: map2_note_insufficient simp del: map_map)
  have "list_all (spends fee) (al_topups (build_allocation_plan cur prev minted deficits balance fee estimate now))"
    unfolding build_allocation_plan_def ds_def [symmetric] Let_def tot_def [symmetric]
    using fully noted by simp
  then show ?thesis by (auto simp: list_all_iff spends_def)
qed

lemma spend_topup_terms [simp]: "map plan_terms (map2 (spend_topup fee) ps (map f ps)) = map plan_terms ps"
  by (induction ps) simp_all

lemma spend_all_terms:
  "map plan_terms (al_topups (build_spend_all_cycles_plan cur prev minted deficits balance fee)) =
     map plan_terms (burn_plans cur prev minted deficits False)"
proof -
  have "map plan_terms (map (\<lambda>p. p\<lparr>bp_skipped_reason := r\<rparr>) ps) = map plan_terms ps" for r ps
    by (simp add: comp_def)
  then show ?thesis by (simp add: build_spend_all_cycles_plan_def Let_def del: map_map)
qed

lemma spend_all_spends:
  "list_all (\<lambda>p. bp_amount_e8s p = 0 \<or> unat (bp_gross_share_e8s p) = unat (bp_amount_e8s p) + unat fee)
     (al_topups (build_spend_all_cycles_plan cur prev minted deficits balance fee))"
proof -
  let ?ok = "\<lambda>p. bp_amount_e8s p = 0 \<or> unat (bp_gross_share_e8s p) = unat (bp_amount_e8s p) + unat fee"
  have "list_all ?ok (map2 (spend_topup fee) ps (map f ps))" if "list_all unspent ps" for ps f
    using that spend_topup_facts(1) by (induction ps) auto
  moreover note burn_plans_unspent [of cur prev minted deficits False]
  moreover have "list_all ?ok (map (\<lambda>p. p\<lparr>bp_skipped_reason := r\<rparr>) ps)" if "list_all unspent ps" for ps r
    using that by (auto simp: list_all_iff unspent_def)
  ultimately show ?thesis by (simp add: build_spend_all_cycles_plan_def Let_def)
qed

text \<open>What the allocation of a job gives, with or without recipients of surplus.\<close>

definition job_allocation :: "bool \<Rightarrow> (principal \<times> cycles_snapshot) list \<Rightarrow> (principal \<times> cycles_snapshot) list
    \<Rightarrow> (principal \<times> u128) list \<Rightarrow> (principal \<times> u128) list \<Rightarrow> u64 \<Rightarrow> u64 \<Rightarrow> conversion_estimate option \<Rightarrow> u64
    \<Rightarrow> allocation_plan" where
  "job_allocation raw cur prev minted deficits balance fee estimate now =
     (if raw then build_allocation_plan cur prev minted deficits balance fee estimate now
      else build_spend_all_cycles_plan cur prev minted deficits balance fee)"

lemma job_allocation_facts:
  fixes balance :: u64
  assumes "topups = al_topups (job_allocation raw cur prev minted deficits balance fee estimate now)"
  shows "map bp_canister_id topups = map fst cur"
    "list_all (\<lambda>p. bp_amount_e8s p = 0 \<or> unat (bp_gross_share_e8s p) = unat (bp_amount_e8s p) + unat fee) topups"
    "(\<Sum>p\<leftarrow>topups. unat (bp_target_topup_cycles p) + unat fee) < 2 ^ 64 \<Longrightarrow> gross_total topups \<le> unat balance"
proof -
  let ?ps = "burn_plans cur prev minted deficits raw"
  have terms: "map plan_terms topups = map plan_terms ?ps"
    using assms by (simp add: job_allocation_def allocation_terms spend_all_terms)
  have "map fst (map plan_terms topups) = map fst (map plan_terms ?ps)" by (simp only: terms)
  moreover have "map bp_canister_id ?ps = map fst cur"
    by (auto simp: burn_plans_def Let_def split: prod.splits)
  ultimately show "map bp_canister_id topups = map fst cur" by (simp add: plan_terms_def comp_def)
  show "list_all (\<lambda>p. bp_amount_e8s p = 0 \<or> unat (bp_gross_share_e8s p) = unat (bp_amount_e8s p) + unat fee) topups"
    using assms by (auto simp: job_allocation_def allocation_spends spend_all_spends)
  assume modest: "(\<Sum>p\<leftarrow>topups. unat (bp_target_topup_cycles p) + unat fee) < 2 ^ 64"
  have "(\<Sum>x\<leftarrow>map plan_terms topups. unat (snd x) + unat fee) = (\<Sum>x\<leftarrow>map plan_terms ?ps. unat (snd x) + unat fee)"
    by (simp only: terms)
  then have small: "(\<Sum>p\<leftarrow>?ps. unat (bp_target_topup_cycles p) + unat fee) < 2 ^ 64"
    using modest by (simp add: plan_terms_def comp_def)
  show "gross_total topups \<le> unat balance"
  proof (cases raw)
    case True
    have "nsum (map snd (map (desired_topup fee (usable_or_bootstrap estimate now)) ?ps))
        \<le> (\<Sum>p\<leftarrow>?ps. unat (bp_target_topup_cycles p) + unat fee)"
      unfolding map_map comp_def by (rule sum_list_mono) (rule desired_le)
    then have "nsum (map snd (map (desired_topup fee (usable_or_bootstrap estimate now)) ?ps)) < 2 ^ 64"
      using small by (rule le_less_trans)
    with True assms allocation_plan_facts [OF refl] show ?thesis by (simp add: job_allocation_def)
  next
    case False
    have "need_total ?ps \<le> (\<Sum>p\<leftarrow>?ps. unat (bp_target_topup_cycles p) + unat fee)"
      by (rule sum_list_mono) simp
    then have "need_total ?ps < 2 ^ 128" using small by simp
    with False assms spend_all_plan_within_balance [OF _ refl] show ?thesis by (simp add: job_allocation_def)
  qed
qed

lemma new_job_inv:
  assumes plan: "plan = job_allocation (has_raw_icp_recipients ob) (ro_current_cycles ob) prev minted deficits balance fee
      estimate now"
    and keys: "list_all (\<lambda>e. managed_by relay cfg (fst e)) (ro_current_cycles ob)" "length (ro_current_cycles ob) < 2 ^ 32"
    and job: "job = new_job cx ob balance fee estimate' plan"
  shows "relay_job_inv relay cfg [] [] job"
proof -
  define topups where "topups = al_topups plan"
  note facts = job_allocation_facts [OF topups_def [unfolded plan]]
  have canisters: "rj_canisters job = map burn_sample_of topups" "rj_fee_e8s job = fee" "rj_balance_start_e8s job = balance"
    by (simp_all add: job new_job_def Let_def topups_def)
  have len: "length topups = length (ro_current_cycles ob)" using facts(1) by (rule map_eq_imp_length_eq)
  have ids: "managed_by relay cfg (bp_canister_id p)" if "p \<in> set topups" for p
  proof -
    have "bp_canister_id p \<in> set (map fst (ro_current_cycles ob))" using that facts(1) by (metis image_eqI set_map)
    then show ?thesis using keys(1) by (auto simp: list_all_iff)
  qed
  have entries: "list_all (topup_entry_ok relay cfg fee) (rj_canisters job)"
    using facts(2) ids by (auto simp: canisters topup_entry_ok_def list_all_iff burn_sample_of_def)
  have budget: "pay_topups (rj_canisters job) \<le> unat balance" if "modest job"
  proof -
    have "gross_total topups \<le> unat balance"
      using that by (intro facts(3)) (simp add: modest_def canisters comp_def burn_sample_of_def)
    moreover have "pay_topups (rj_canisters job) \<le> gross_total topups"
      using pay_le(1) [of "rj_canisters job"] by (simp add: canisters comp_def burn_sample_of_def)
    ultimately show ?thesis by simp
  qed
  have unspent: "ry_known_unspent_e8s (rj_summary job) = retained_e8s balance (rj_canisters job) []"
    "rj_surplus_transfers job = []" "rj_pending_transfer job = None" "rj_next_transfer_index job = 0"
    "rj_surplus_transfer_index job = 0"
    by (simp_all add: job new_job_def Let_def)
  have "job_budget [] job"
    using budget retained_pay by (auto simp: job_budget_def unspent canisters(3))
  moreover have "job_shape relay cfg job"
    using entries keys(2) by (simp add: job_shape_def unspent canisters len)
  ultimately show ?thesis by (simp add: relay_job_inv_def job_pending_def job_times_def unspent)
qed

end
