(* ===== verification/RelayFrame.thy ===== *)
theory RelayFrame
  imports RelayRun
begin

text \<open>
  What the splitter code leaves alone: it never touches the main lease, the daily job, the commitment of
  subaccount 1 or the ghosts of the job, and its transfers leave from the numbered accounts of splitters.
\<close>

section \<open>The frame\<close>

definition untouched :: "'p relay_world \<Rightarrow> 'p relay_world \<Rightarrow> bool" where
  "untouched w w' \<longleftrightarrow> yw_now w' = yw_now w \<and> yw_ticket w' = yw_ticket w \<and>
     yw_main_owner w' = yw_main_owner w \<and> yw_staged w' = yw_staged w \<and> yw_job_sent w' = yw_job_sent w \<and>
     rs_config (yw_st w') = rs_config (yw_st w) \<and> rs_active_job (yw_st w') = rs_active_job (yw_st w) \<and>
     rs_next_job_id (yw_st w') = rs_next_job_id (yw_st w) \<and>
     rs_active_faucet_commitment_transfer (yw_st w') = rs_active_faucet_commitment_transfer (yw_st w) \<and>
     rs_main_lock_state_ts (yw_st w') = rs_main_lock_state_ts (yw_st w)"

lemma untouched_refl [simp]: "untouched w w"
  by (simp add: untouched_def)

lemma untouched_trans [trans]: "untouched a b \<Longrightarrow> untouched b c \<Longrightarrow> untouched a c"
  by (simp add: untouched_def)

fun splitter_request :: "relay_req \<Rightarrow> bool" where
  "splitter_request (RqTransfer ledger arg) \<longleftrightarrow>
     (\<exists>n \<in> set splitter_percentages. ta_from_subaccount arg = Some (relay_numbered_subaccount n))"
| "splitter_request (RqNotifyTopUp _ _ _) \<longleftrightarrow> False"
| "splitter_request _ \<longleftrightarrow> True"

abbreviation frame_rg :: "('p, 'a) relay_proc \<Rightarrow> 'p relay_world \<Rightarrow> bool" where
  "frame_rg \<equiv> rgt True (\<lambda>_. True) (\<lambda>_ _. True) untouched (\<lambda>_. splitter_request) (\<lambda>_ _. True)"

lemma frame_start: "frame_rg p s1 \<Longrightarrow> untouched s0 s1 \<Longrightarrow> frame_rg p s0"
  by (rule rgt_start) (auto intro: untouched_trans)

lemma frame_bind: "frame_rg p s \<Longrightarrow> (\<And>s a. frame_rg (f s a) s) \<Longrightarrow> frame_rg (pbind p f) s"
  by (rule rgt_bind) (auto intro: untouched_trans)

text \<open>Framed code keeps whatever follows from the frame.\<close>

lemma frame_rgt:
  assumes "frame_rg p s0" "I s0" "P s0"
    and step: "\<And>s s'. I s \<Longrightarrow> P s \<Longrightarrow> untouched s s' \<Longrightarrow> I s' \<and> G s s' \<and> P s'"
    and stable: "\<And>s s'. I s' \<Longrightarrow> P s \<Longrightarrow> R s s' \<Longrightarrow> P s'"
    and sends: "\<And>s q. I s \<Longrightarrow> splitter_request q \<Longrightarrow> C s q"
  shows "rgt True I R G C (\<lambda>s _. P s) p s0"
  using assms(1-3)
proof (induction p arbitrary: s0)
  case (Done s a)
  then show ?case using step [of s0 s] by simp
next
  case (Await s q k)
  then have s: "I s" "G s0 s" "P s" "C s q" using step [of s0 s] sends by simp_all
  have "rgt True I R G C (\<lambda>s _. P s) (k r s') s'" if "I s'" "R s s'" for r s'
    using Await.IH [OF rangeI rangeI, of r s' s'] Await.prems(1) that stable [OF that(1) s(3) that(2)] by simp
  then show ?case using s by simp
qed simp

section \<open>The journal\<close>

lemma frame_sp_set [simp]: "untouched w (sp_set s w')  = untouched w w'"
  by (simp add: untouched_def sp_set_def)

lemma frame_possible [simp]: "untouched w (w'\<lparr>yw_possible := ps\<rparr>) = untouched w w'"
  by (simp add: untouched_def)

lemma frame_closed [simp]: "untouched w (w'\<lparr>yw_closed := cs\<rparr>) = untouched w w'"
  by (simp add: untouched_def)

lemma frame_note_closed [simp]: "untouched w (note_closed how w') = untouched w w'"
  by (simp add: note_closed_def split: option.split)

lemma frame_journal [simp]:
  "untouched w (sp_set_active_job job w') = untouched w w'"
  "untouched w (clear_active_job how w') = untouched w w'"
  "untouched w (quarantine_active_job leg now reason w') = untouched w w'"
  "untouched w (note_sent leg arg w') = untouched w w'"
  "untouched w (note_rejected leg arg w') = untouched w w'"
  "untouched w (keep_uncertain leg job w') = untouched w w'"
  by (simp_all add: sp_set_active_job_def clear_active_job_def quarantine_active_job_def note_sent_def
      note_rejected_def keep_uncertain_def Let_def split: option.split)

lemma frame_fee [simp]: "untouched w (record_bad_fee fee w') = untouched w w'"
  by (simp add: untouched_def record_bad_fee_def y_with_state_mut_def)

lemma frame_resolve: "resolve_icp_ledger_fee_e8s r w = (fee, w') \<Longrightarrow> untouched w w'"
  by (auto simp: resolve_icp_ledger_fee_e8s_def untouched_def y_with_state_mut_def split: sum.splits)

lemma frame_guard [simp]: "untouched w (splitter_guard_drop g w') = untouched w w'"
  by (simp add: splitter_guard_drop_def untouched_def y_with_state_mut_def)

lemma frame_acquire: "splitter_guard_acquire h now w = Some (g, w') \<Longrightarrow> untouched w w'"
  by (auto simp: splitter_guard_acquire_def untouched_def y_with_state_mut_def split: option.splits)

lemma frame_continuation [simp]: "untouched w (schedule_splitter_main_continuation_after w') = untouched w w'"
  by (simp add: schedule_splitter_main_continuation_after_def untouched_def y_with_state_mut_def)

lemma frame_claim: "claim_active_job job leg w = Some (c, w') \<Longrightarrow> untouched w w'"
  by (auto simp: claim_active_job_def Let_def split: if_splits option.splits)

lemma frame_outcome: "apply_outcome prior leg job arg now out w = (w', res) \<Longrightarrow> untouched w w'"
  by (cases out) (auto simp: apply_outcome_def after_rejection_def replace_bad_fee_def replace_rejected_def
      replace_insufficient_funds_def store_repinned_def split: if_splits option.splits)

section \<open>The driver\<close>

lemma frame_store:
  assumes "\<And>w. frame_rg (again w) w"
  shows "frame_rg (store_repinned leg now repinned again (\<lambda>w res. Done w (Some res)) w) w"
proof (cases repinned)
  case (Some job)
  have "frame_rg (again (sp_set_active_job job w)) w" by (rule frame_start [OF assms]) simp
  then show ?thesis using Some by (simp add: store_repinned_def)
qed (simp add: store_repinned_def)

lemma frame_after_transfer:
  assumes "\<And>w. frame_rg (again w) w"
  shows "frame_rg (drive_after_transfer again prior leg claimed arg now g r w) w"
  using frame_outcome frame_start [OF assms]
  by (fastforce simp: drive_after_transfer_def simp del: rgt.simps(2) split: option.split prod.split)

lemma frame_transfer:
  assumes "\<And>w. frame_rg (again w) w" and valid: "active_plan_is_valid job"
  shows "frame_rg (drive_transfer again prior leg job relay ledger now g w) w"
proof (cases "claim_active_job job (Some leg) w")
  case None
  then show ?thesis by (simp add: drive_transfer_def)
next
  case (Some cw)
  then obtain c w1 where claim: "claim_active_job job (Some leg) w = Some (c, w1)" by (cases cw) simp
  note frame = frame_claim [OF claim]
  show ?thesis
  proof (cases c)
    case None
    then show ?thesis using claim frame by (simp add: drive_transfer_def)
  next
    case (Some claimed)
    have "sj_plan claimed = sj_plan job"
      using claim Some by (auto simp: claim_active_job_def Let_def map_leg_def split: if_splits option.splits splitter_leg.split)
    moreover have "sl_source_subaccount (sj_plan job) = relay_numbered_subaccount (sl_splitter_number (sj_plan job))"
      "sl_splitter_number (sj_plan job) \<in> set splitter_percentages"
      using valid by (auto simp: active_plan_is_valid_def Let_def splitter_percentage_Some split: option.splits)
    ultimately have "splitter_request (RqTransfer ledger (splitter_transfer_arg relay claimed leg))"
      by (auto simp: splitter_transfer_arg_def Let_def)
    then show ?thesis using claim frame Some frame_after_transfer [OF assms(1)] by (simp add: drive_transfer_def Let_def)
  qed
qed

lemma frame_ready:
  assumes "\<And>w. frame_rg (again w) w" "active_plan_is_valid job"
  shows "frame_rg (drive_ready again leg job relay ledger now g w) w"
  using frame_transfer [OF assms] frame_store [OF assms(1)] by (simp add: drive_ready_def Let_def)

lemma frame_waiting:
  assumes "\<And>claimed r w. frame_rg (resumed claimed r w) w" "\<And>claimed. splitter_request (req claimed)"
  shows "frame_rg (drive_waiting job req resumed w) w"
  using assms frame_claim by (fastforce simp: drive_waiting_def split: option.split)

lemma frame_with_balance:
  assumes "\<And>w. frame_rg (again w) w"
  shows "frame_rg (drive_with_balance again leg claimed now g r w) w"
  using frame_store [OF assms] by (auto simp: drive_with_balance_def split: option.split sum.split)

lemma frame_with_fee:
  assumes "\<And>w. frame_rg (again w) w"
  shows "frame_rg (drive_with_fee again leg claimed now g r w) w"
proof -
  obtain fee v where fee: "resolve_icp_ledger_fee_e8s r w = (fee, v)" by fastforce
  note frame = frame_resolve [OF fee]
  show ?thesis
    using frame frame_start [OF frame_store [OF assms] frame]
    by (auto simp: drive_with_fee_def fee split: option.split)
qed

lemma frame_iteration:
  assumes "\<And>w. frame_rg (again w) w"
  shows "frame_rg (drive_iteration again relay ledger now g w) w"
  using frame_ready [OF assms] frame_waiting [OF frame_with_balance [OF assms]]
    frame_waiting [OF frame_with_fee [OF assms]]
  by (simp add: drive_iteration_def split: option.split splitter_leg_status.split)

lemma frame_drive: "frame_rg (drive_active_job fuel relay ledger now g w) w"
  by (induction fuel arbitrary: w) (simp_all add: frame_iteration)

section \<open>The retry timer and the stage\<close>

lemma frame_after_drive:
  assumes "\<And>w. frame_rg (next w) w"
  shows "frame_rg (stage_after_drive next g w res) w"
  using assms by (simp add: stage_after_drive_def stage_return_def split: option.split drive_result.split)

lemma frame_splitters: "frame_rg (stage_splitters relay ledger pinned fee now g resumed numbers w) w"
proof (induction numbers arbitrary: w)
  case Nil
  then show ?case by (simp add: stage_return_def)
next
  case (Cons number numbers)
  have drive: "frame_rg (pbind (drive_active_job drive_fuel relay ledger now g (sp_set_active_job job v))
      (stage_after_drive (stage_splitters relay ledger pinned fee now g resumed numbers) g)) v" for job and v :: "'a relay_world"
    by (rule frame_start [OF frame_bind [OF frame_drive frame_after_drive [OF Cons.IH]]]) simp
  show ?case using Cons.IH drive
    by (auto simp: stage_return_def split: option.split sum.split)
qed

lemma frame_stage_fee: "frame_rg (stage_fee relay ledger now g resumed w) w"
proof -
  have "frame_rg (stage_with_fee relay ledger now g resumed r v) v" for r and v :: "'a relay_world"
  proof -
    obtain fee u where fee: "resolve_icp_ledger_fee_e8s r v = (fee, u)" by fastforce
    show ?thesis using frame_resolve [OF fee] frame_start [OF frame_splitters frame_resolve [OF fee]]
      by (simp add: stage_with_fee_def fee stage_return_def)
  qed
  then show ?thesis by (simp add: stage_fee_def)
qed

lemma frame_stage: "frame_rg (process_main_stage t now relay ledger w) w"
proof (cases "splitter_guard_acquire t (now div 1000000000) w")
  case (Some gw)
  then obtain g w1 where acquire: "splitter_guard_acquire t (now div 1000000000) w = Some (g, w1)" by (cases gw) simp
  note frame = frame_acquire [OF acquire]
  have "frame_rg (pbind (drive_active_job drive_fuel relay ledger now g w1)
      (stage_after_drive (stage_fee relay ledger now g n) g)) w1" for n
    by (rule frame_bind [OF frame_drive frame_after_drive [OF frame_stage_fee]])
  then show ?thesis using acquire frame_start [OF _ frame] frame_start [OF frame_stage_fee frame]
    by (auto simp: process_main_stage_def simp del: rgt.simps split: option.split)
qed (simp add: process_main_stage_def)

lemma frame_retry: "frame_rg (retry_active_splitter relay w) (w\<lparr>yw_ticket := yw_ticket w + 1\<rparr>)"
proof -
  let ?w = "w\<lparr>yw_ticket := yw_ticket w + 1\<rparr>"
  have "frame_rg (retry_after_drive g v res) v" for g res and v :: "'a relay_world"
    by (simp add: retry_after_drive_def Let_def)
  then have run: "frame_rg (pbind (drive_active_job drive_fuel relay ledger now g v) (retry_after_drive g)) v"
    for ledger now g and v :: "'a relay_world" by (rule frame_bind [OF frame_drive])
  show ?thesis
  proof (cases "splitter_guard_acquire (yw_ticket w) (y_now_secs ?w) ?w")
    case (Some gw)
    then obtain g w1 where acquire: "splitter_guard_acquire (yw_ticket w) (y_now_secs ?w) ?w = Some (g, w1)"
      by (cases gw) simp
    show ?thesis using acquire frame_start [OF run frame_acquire [OF acquire]]
      by (simp add: retry_active_splitter_def Let_def)
  qed (simp add: retry_active_splitter_def Let_def)
qed

end
