(* ===== verification/RelayJobSafety.thy ===== *)
theory RelayJobSafety
  imports RelayJobSteps RelayFrame
begin

text \<open>
  The invariant of the Relay's world and the judgements of its daily job.  Any handler may settle a pending
  transfer it still recognises; only the holder of the main lease starts a job, and nobody else takes a
  turn of the job while the lease is held.
\<close>

section \<open>The invariant\<close>

text \<open>Counts of canisters and recipients fit 32 bits, and job numbers are not exhausted.\<close>

definition small_config :: "rconfig \<Rightarrow> bool" where
  "small_config cfg \<longleftrightarrow> length (rcf_managed_canisters cfg) + 1 < 2 ^ 32 \<and> length (rcf_surplus_recipients cfg) < 2 ^ 32"

definition ordinary :: "'p relay_world \<Rightarrow> bool" where
  "ordinary w \<longleftrightarrow> small_config (rs_config (yw_st w)) \<and> rs_next_job_id (yw_st w) \<noteq> u_max"

text \<open>The commitment pays the whole balance of subaccount 1, less the fee, to an account of the Governance
  canister for the Faucet's neuron.\<close>

definition commitment_ok :: "rconfig \<Rightarrow> faucet_commitment_transfer \<Rightarrow> bool" where
  "commitment_ok cfg c \<longleftrightarrow>
     (\<exists>destination memo. rt_kind (fx_transfer c) = FaucetCommitment faucet_neuron_id destination relay_subaccount_one memo \<and>
        acc_owner destination = rcf_governance_canister_id cfg) \<and>
     unat (fx_balance_start_e8s c) = unat (rt_amount_e8s (fx_transfer c)) + unat (fx_fee_e8s c) \<and>
     min_raw_icp_recipient_amount_e8s \<le> rt_amount_e8s (fx_transfer c)"

abbreviation active_job :: "'p relay_world \<Rightarrow> relay_job option" where
  "active_job w \<equiv> rs_active_job (yw_st w)"

abbreviation active_commitment :: "'p relay_world \<Rightarrow> faucet_commitment_transfer option" where
  "active_commitment w \<equiv> rs_active_faucet_commitment_transfer (yw_st w)"

abbreviation rcfg :: "'p relay_world \<Rightarrow> rconfig" where
  "rcfg w \<equiv> rs_config (yw_st w)"

definition relay_inv :: "principal \<Rightarrow> 'p relay_world \<Rightarrow> bool" where
  "relay_inv relay w \<longleftrightarrow>
     (ordinary w \<longrightarrow> (\<forall>job. active_job w = Some job \<longrightarrow> rj_id job < rs_next_job_id (yw_st w) \<and>
        relay_job_inv relay (rcfg w) (yw_staged w) (yw_job_sent w) job)) \<and>
     (\<forall>c. active_commitment w = Some c \<longrightarrow> commitment_ok (rcfg w) c) \<and>
     (yw_main_owner w \<noteq> None \<longrightarrow> rs_main_lock_state_ts (yw_st w) \<noteq> Some 0)"

section \<open>Relies and guarantees\<close>

text \<open>What every later world keeps: a job keeps its terms, and a new job has a new number.\<close>

definition relay_later :: "'p relay_world \<Rightarrow> 'p relay_world \<Rightarrow> bool" where
  "relay_later w w' \<longleftrightarrow> yw_now w \<le> yw_now w' \<and> yw_ticket w \<le> yw_ticket w' \<and> rcfg w' = rcfg w \<and>
     rs_next_job_id (yw_st w) \<le> rs_next_job_id (yw_st w') \<and>
     (\<forall>job'. active_job w' = Some job' \<longrightarrow>
        (\<exists>job. active_job w = Some job \<and> job_terms job' = job_terms job) \<or> rs_next_job_id (yw_st w) \<le> rj_id job')"

text \<open>Turns left, and the job as others leave it to the holder of the lease: settled further, or as it was.\<close>

definition job_left :: "'p relay_world \<Rightarrow> nat" where
  "job_left w = job_turns (rcfg w) (active_job w)"

definition job_still :: "'p relay_world \<Rightarrow> 'p relay_world \<Rightarrow> bool" where
  "job_still w w' \<longleftrightarrow> (ordinary w' \<longrightarrow> job_left w' < job_left w \<or> job_left w' = job_left w \<and>
     map_option (\<lambda>job. (rj_id job, rj_surplus_phase_planned job)) (active_job w') =
     map_option (\<lambda>job. (rj_id job, rj_surplus_phase_planned job)) (active_job w))"

definition jmine :: "nat \<Rightarrow> u64 \<Rightarrow> 'p relay_world \<Rightarrow> bool" where
  "jmine t e w \<longleftrightarrow> rs_main_lock_state_ts (yw_st w) = Some e \<and> yw_main_owner w = Some t"

definition jdead :: "u64 \<Rightarrow> 'p relay_world \<Rightarrow> bool" where
  "jdead e w \<longleftrightarrow> e \<noteq> 0 \<and> e \<le> y_now_secs w \<and> rs_main_lock_state_ts (yw_st w) \<noteq> Some e"

definition jkeeps :: "nat \<Rightarrow> 'p relay_world \<Rightarrow> 'p relay_world \<Rightarrow> bool" where
  "jkeeps t w w' \<longleftrightarrow>
     (\<forall>e. jmine t e w \<longrightarrow> jmine t e w' \<and> job_still w w' \<or> jdead e w') \<and> (\<forall>e. jdead e w \<longrightarrow> jdead e w')"

definition relay_rely :: "nat \<Rightarrow> 'p relay_world \<Rightarrow> 'p relay_world \<Rightarrow> bool" where
  "relay_rely t w w' \<longleftrightarrow> relay_later w w' \<and> jkeeps t w w'"

definition relay_guar :: "nat \<Rightarrow> 'p relay_world \<Rightarrow> 'p relay_world \<Rightarrow> bool" where
  "relay_guar t w w' \<longleftrightarrow> relay_later w w' \<and> t < yw_ticket w' \<and> (\<forall>u. u \<noteq> t \<longrightarrow> jkeeps u w w')"

lemma relay_later_refl [simp]: "relay_later w w"
  by (simp add: relay_later_def)

lemma job_terms_id: "job_terms job' = job_terms job \<Longrightarrow> rj_id job' = rj_id job"
  by (simp add: job_terms_def)

lemma relay_later_trans:
  assumes ab: "relay_later a b" and bc: "relay_later b c"
  shows "relay_later a c"
proof -
  have jobs: "(\<exists>job. active_job a = Some job \<and> job_terms job' = job_terms job) \<or> rs_next_job_id (yw_st a) \<le> rj_id job'"
    if "active_job c = Some job'" for job'
  proof -
    have "rs_next_job_id (yw_st a) \<le> rs_next_job_id (yw_st b)" using ab by (simp add: relay_later_def)
    then have le: "rs_next_job_id (yw_st a) \<le> rj_id job'" if "rs_next_job_id (yw_st b) \<le> rj_id job'"
      using that by (rule order_trans)
    show ?thesis
    proof (cases "\<exists>job. active_job b = Some job \<and> job_terms job' = job_terms job")
      case True
      then obtain job where 1: "active_job b = Some job" "job_terms job' = job_terms job" by blast
      then have "(\<exists>job0. active_job a = Some job0 \<and> job_terms job = job_terms job0) \<or> rs_next_job_id (yw_st a) \<le> rj_id job"
        using ab by (simp add: relay_later_def)
      then show ?thesis using 1 job_terms_id [of job' job] by auto
    next
      case False
      then have "rs_next_job_id (yw_st b) \<le> rj_id job'" using bc that unfolding relay_later_def by blast
      then show ?thesis using le by blast
    qed
  qed
  show ?thesis using ab bc jobs unfolding relay_later_def by (auto intro: order_trans)
qed

lemma later_ordinary: "relay_later w w' \<Longrightarrow> ordinary w' \<Longrightarrow> ordinary w"
proof -
  assume later: "relay_later w w'" and o: "ordinary w'"
  then have "rs_next_job_id (yw_st w) \<le> rs_next_job_id (yw_st w')" by (simp add: relay_later_def)
  then have "rs_next_job_id (yw_st w) \<noteq> u_max"
    using o unat_lt [of "rs_next_job_id (yw_st w')"] by (auto simp: ordinary_def word_le_nat_alt word_unat_eq_iff)
  then show "ordinary w" using later o by (simp add: ordinary_def relay_later_def)
qed

lemma turns_same_frame:
  assumes "same_frame job job'" "rj_pending_transfer job' = None \<longleftrightarrow> rj_pending_transfer job = None"
  shows "job_turns cfg (Some job') = job_turns cfg (Some job)"
proof -
  have "length (rj_canisters job') = length (rj_canisters job)"
    using assms(1) by (intro job_terms_D(4)) (simp add: same_frame_def)
  moreover have "rj_next_transfer_index job' = rj_next_transfer_index job"
    "rj_surplus_phase_planned job' = rj_surplus_phase_planned job" "rj_surplus_transfers job' = rj_surplus_transfers job"
    "rj_surplus_transfer_index job' = rj_surplus_transfer_index job" using assms(1) by (simp_all add: same_frame_def)
  ultimately show ?thesis using assms(2) by (simp only: job_turns_def option.case)
qed

lemma job_still_left: "job_still w w' \<Longrightarrow> ordinary w' \<Longrightarrow> job_left w' \<le> job_left w"
  by (auto simp: job_still_def)

lemma job_still_refl [simp]: "job_still w w"
  by (simp add: job_still_def)

lemma job_still_trans:
  assumes "job_still a b" "relay_later b c" "job_still b c"
  shows "job_still a c"
  using assms(1,3) later_ordinary [OF assms(2)] unfolding job_still_def by (elim impCE) auto

lemma relay_rely_refl: "relay_rely t w w"
  by (simp add: relay_rely_def jkeeps_def)

lemma jkeeps_trans:
  assumes "relay_later a b" "jkeeps t a b" "relay_later b c" "jkeeps t b c"
  shows "jkeeps t a c"
proof -
  have "jmine t e c \<and> job_still a c \<or> jdead e c" if "jmine t e a" for e
    using that assms job_still_trans unfolding jkeeps_def by blast
  then show ?thesis using assms unfolding jkeeps_def by blast
qed

lemma relay_rely_trans: "relay_rely t a b \<Longrightarrow> relay_rely t b c \<Longrightarrow> relay_rely t a c"
  unfolding relay_rely_def using jkeeps_trans relay_later_trans by blast

lemma relay_guar_trans: "relay_guar t a b \<Longrightarrow> relay_guar t b c \<Longrightarrow> relay_guar t a c"
  unfolding relay_guar_def using jkeeps_trans relay_later_trans by blast

section \<open>Requests\<close>

text \<open>What a request may be: a transfer from the default account is the active job's pending one, noted
  before; one from subaccount 1 is the active commitment; a notification is for an accepted top-up.\<close>

fun relay_req_ok :: "principal \<Rightarrow> 'p relay_world \<Rightarrow> relay_req \<Rightarrow> bool" where
  "relay_req_ok relay w (RqTransfer ledger arg) \<longleftrightarrow> (ordinary w \<longrightarrow> (case ta_from_subaccount arg of
       None \<Rightarrow> ledger = rcf_ledger_canister_id (rcfg w) \<and> (\<exists>job p. active_job w = Some job \<and>
         rj_pending_transfer job = Some p \<and> rt_phase p = RAwaitingTransfer \<and>
         arg = pending_transfer_arg (rcf_cmc_canister_id (rcfg w)) (rj_fee_e8s job) p \<and> arg \<in> set (yw_job_sent w))
     | Some s \<Rightarrow> (\<exists>n \<in> set splitter_percentages. s = relay_numbered_subaccount n) \<or>
         ledger = rcf_ledger_canister_id (rcfg w) \<and> (\<exists>c cmc. active_commitment w = Some c \<and>
           rt_phase (fx_transfer c) = RAwaitingTransfer \<and>
           arg = pending_transfer_arg cmc (fx_fee_e8s c) (fx_transfer c))))"
| "relay_req_ok relay w (RqNotifyTopUp cmc canister block) \<longleftrightarrow> cmc = rcf_cmc_canister_id (rcfg w) \<and>
     (\<exists>job p. active_job w = Some job \<and> rj_pending_transfer job = Some p \<and>
        rt_kind p = CmcTopUp canister \<and> rt_phase p = RTransferAccepted block)"
| "relay_req_ok relay w _ \<longleftrightarrow> True"

lemma splitter_request_ok: "splitter_request q \<Longrightarrow> relay_req_ok relay w q"
  by (cases q) auto

abbreviation relay_rg :: "principal \<Rightarrow> nat \<Rightarrow> ('p relay_world \<Rightarrow> 'a \<Rightarrow> bool)
    \<Rightarrow> ('p, 'a) relay_proc \<Rightarrow> 'p relay_world \<Rightarrow> bool" where
  "relay_rg relay t \<equiv> rgt True (relay_inv relay) (relay_rely t) (relay_guar t) (relay_req_ok relay)"

lemma relay_rg_bind:
  "relay_rg relay t Q' p s \<Longrightarrow> (\<And>s a. relay_inv relay s \<Longrightarrow> Q' s a \<Longrightarrow> relay_rg relay t Q (f s a) s) \<Longrightarrow>
   relay_rg relay t Q (pbind p f) s"
  by (rule rgt_bind [where Q' = Q']) (blast intro: relay_guar_trans)+

lemma relay_rg_start: "relay_rg relay t Q p s1 \<Longrightarrow> relay_guar t s0 s1 \<Longrightarrow> relay_rg relay t Q p s0"
  by (rule rgt_start) (auto intro: relay_guar_trans)

section \<open>The lease\<close>

text \<open>A handler that took the lease: it still has it, or has lost it for good.\<close>

definition jheld :: "nat \<Rightarrow> u64 \<Rightarrow> 'p relay_world \<Rightarrow> bool" where
  "jheld t e w \<longleftrightarrow> t < yw_ticket w \<and> (jmine t e w \<or> jdead e w)"

lemma jheld_current: "jheld t e w \<Longrightarrow> main_lease_is_current e w \<longleftrightarrow> jmine t e w"
  by (auto simp: jheld_def jmine_def jdead_def main_lease_is_current_def)

lemma jheld_rely:
  assumes "jheld t e w" "relay_rely t w w'"
  shows "jheld t e w'" "jmine t e w' \<Longrightarrow> jmine t e w \<and> job_still w w'"
proof -
  show "jheld t e w'" using assms by (auto simp: jheld_def relay_rely_def jkeeps_def relay_later_def)
  assume mine: "jmine t e w'"
  then have "\<not> jdead e w'" by (simp add: jmine_def jdead_def)
  then show "jmine t e w \<and> job_still w w'"
    using assms unfolding jheld_def relay_rely_def jkeeps_def by blast
qed

text \<open>A step that leaves leases and time alone, and a job at most further along.\<close>

definition calm :: "'p relay_world \<Rightarrow> 'p relay_world \<Rightarrow> bool" where
  "calm w w' \<longleftrightarrow> relay_later w w' \<and> yw_now w' = yw_now w \<and> yw_main_owner w' = yw_main_owner w \<and>
     rs_main_lock_state_ts (yw_st w') = rs_main_lock_state_ts (yw_st w) \<and> job_still w w'"

lemma calm_refl [simp]: "calm w w"
  by (simp add: calm_def)

lemma calm_trans [trans]: "calm a b \<Longrightarrow> calm b c \<Longrightarrow> calm a c"
  by (auto simp: calm_def intro: relay_later_trans job_still_trans)

lemma calm_lease:
  assumes "calm w w'"
  shows "jmine t e w' = jmine t e w" "jdead e w' = jdead e w" "jheld t e w \<Longrightarrow> jheld t e w'"
    "main_lease_is_current e w' = main_lease_is_current e w"
  using assms by (auto simp: calm_def jmine_def jdead_def jheld_def y_now_secs_def main_lease_is_current_def relay_later_def)

lemma calm_guar: "calm w w' \<Longrightarrow> t < yw_ticket w' \<Longrightarrow> relay_guar t w w'"
proof -
  assume calm: "calm w w'" and t: "t < yw_ticket w'"
  have "jkeeps u w w'" for u
    using calm_lease(1,2) [OF calm] calm unfolding jkeeps_def calm_def by blast
  then show ?thesis using t calm unfolding relay_guar_def calm_def by blast
qed

lemma jheld_guar: "jheld t e w \<Longrightarrow> calm w w' \<Longrightarrow> relay_guar t w w'"
  using calm_lease(3) [of w w' t e] calm_guar [of w w' t] unfolding jheld_def by blast

lemma untouched_ok:
  assumes "untouched w w'"
  shows "relay_inv relay w' = relay_inv relay w" "calm w w'" "yw_ticket w' = yw_ticket w" "job_left w' = job_left w"
    "active_commitment w' = active_commitment w"
proof -
  note facts = assms [unfolded untouched_def]
  show "relay_inv relay w' = relay_inv relay w" using facts by (simp add: relay_inv_def ordinary_def)
  show left: "job_left w' = job_left w" using facts by (simp add: job_left_def)
  show "calm w w'" using facts left by (auto simp: calm_def relay_later_def job_still_def)
  show "yw_ticket w' = yw_ticket w" "active_commitment w' = active_commitment w" using facts by simp_all
qed

section \<open>What a run of the lease knows\<close>

text \<open>The context of a tick, read from a configuration that does not change.\<close>

definition ctx_ok :: "principal \<Rightarrow> relay_ctx \<Rightarrow> 'p relay_world \<Rightarrow> bool" where
  "ctx_ok relay cx w \<longleftrightarrow> rx_relay_id cx = relay \<and> rx_ledger cx = rcf_ledger_canister_id (rcfg w) \<and>
     rx_cmc cx = rcf_cmc_canister_id (rcfg w) \<and> rx_governance cx = rcf_governance_canister_id (rcfg w)"

text \<open>The handler runs under the lease of its context, with at most \<open>n\<close> turns left while it has it.\<close>

definition runs :: "principal \<Rightarrow> nat \<Rightarrow> relay_ctx \<Rightarrow> 'p relay_world \<Rightarrow> bool" where
  "runs relay t cx w \<longleftrightarrow> ctx_ok relay cx w \<and> jheld t (rx_lease cx) w"

definition within :: "nat \<Rightarrow> nat \<Rightarrow> relay_ctx \<Rightarrow> 'p relay_world \<Rightarrow> bool" where
  "within n t cx w \<longleftrightarrow> (jmine t (rx_lease cx) w \<longrightarrow> ordinary w \<longrightarrow> job_left w \<le> n)"

lemma later_ctx: "relay_later w w' \<Longrightarrow> ctx_ok relay cx w' = ctx_ok relay cx w"
  by (simp add: ctx_ok_def relay_later_def)

lemma runs_rely: "runs relay t cx w \<Longrightarrow> relay_rely t w w' \<Longrightarrow> runs relay t cx w'"
  using jheld_rely(1) [of t "rx_lease cx" w w'] later_ctx [of w w' relay cx] unfolding runs_def relay_rely_def by blast

lemma within_rely:
  assumes "runs relay t cx w" "within n t cx w" "relay_rely t w w'"
  shows "within n t cx w'"
  unfolding within_def
proof (intro impI)
  assume "jmine t (rx_lease cx) w'" "ordinary w'"
  moreover have "relay_later w w'" using assms(3) by (simp add: relay_rely_def)
  ultimately show "job_left w' \<le> n"
    using assms jheld_rely(2) job_still_left later_ordinary unfolding runs_def within_def by (metis order_trans)
qed

lemma calm_runs: "calm w w' \<Longrightarrow> runs relay t cx w \<Longrightarrow> runs relay t cx w'"
  using calm_lease(3) [of w w' t "rx_lease cx"] later_ctx [of w w' relay cx] unfolding runs_def calm_def by blast

lemma calm_within:
  assumes "calm w w'" "within n t cx w"
  shows "within n t cx w'"
proof -
  have "relay_later w w'" "job_still w w'" using assms(1) by (simp_all add: calm_def)
  then show ?thesis using assms(2) calm_lease(1) [OF assms(1)] job_still_left later_ordinary
    unfolding within_def by (metis order_trans)
qed

lemma runs_guar: "runs relay t cx w \<Longrightarrow> calm w w' \<Longrightarrow> relay_guar t w w'"
  using jheld_guar unfolding runs_def by blast

text \<open>A suspension.\<close>

lemma relay_await:
  assumes start: "runs relay t cx w0" "calm w0 w" and inv: "relay_inv relay w" and req: "relay_req_ok relay w q"
    and resumed: "\<And>r w'. relay_inv relay w' \<Longrightarrow> runs relay t cx w' \<Longrightarrow> relay_rely t w w' \<Longrightarrow> relay_rg relay t Q (k r w') w'"
  shows "relay_rg relay t Q (Await w q k) w0"
proof -
  have "runs relay t cx w" using calm_runs start by blast
  then have "relay_rg relay t Q (k r w') w'" if "relay_inv relay w'" "relay_rely t w w'" for r w'
    using that runs_rely by (intro resumed) blast+
  then show ?thesis using runs_guar [OF start] inv req by simp
qed

lemma relay_done:
  assumes "runs relay t cx w0" "calm w0 w" "relay_inv relay w" "Q w a"
  shows "relay_rg relay t Q (Done w a) w0"
  using assms runs_guar by auto

end
