(* ===== verification/RelayJobDrive.thy ===== *)
theory RelayJobDrive
  imports RelayJobSafety
begin

text \<open>The judgements of the Relay's transfers: settling, the daily job's pending transfer, and the commitment.\<close>

section \<open>Settling\<close>

text \<open>A step that settles a transfer, or ends the job.\<close>

definition settled :: "principal \<Rightarrow> 'p relay_world \<Rightarrow> 'p relay_world \<Rightarrow> bool" where
  "settled relay w w' \<longleftrightarrow> relay_inv relay w' \<and> calm w w' \<and> job_left w' < job_left w"

lemma pending_matches_iff: "pending_matches job_id p w \<longleftrightarrow>
    (\<exists>job. active_job w = Some job \<and> rj_id job = job_id \<and> rj_pending_transfer job = Some p)"
  by (simp add: pending_matches_def split: option.split)

lemma with_matched: "active_job w = Some job \<Longrightarrow> rj_id job = job_id \<Longrightarrow> rj_pending_transfer job = Some p \<Longrightarrow>
    with_matched_job job_id p f w = y_with_state_mut (\<lambda>st. st\<lparr>rs_active_job := Some (f job)\<rparr>) w"
  by (simp add: with_matched_job_def)

lemma replace_job_ok:
  assumes inv: "relay_inv relay w" and active: "active_job w = Some job"
    and frame: "same_frame job job'"
    and keep: "relay_job_inv relay (rcfg w) (yw_staged w) (yw_job_sent w) job \<Longrightarrow>
      relay_job_inv relay (rcfg w) (yw_staged w) (yw_job_sent w) job'"
    and pending: "rj_pending_transfer job \<noteq> None"
    and w': "w' = y_with_state_mut (\<lambda>st. st\<lparr>rs_active_job := Some job'\<rparr>) w"
  shows "relay_inv relay w'" "calm w w'" "rj_pending_transfer job' = None \<Longrightarrow> settled relay w w'"
proof -
  have terms: "job_terms job' = job_terms job" using frame by (simp add: same_frame_def)
  have facts: "active_job w' = Some job'" "rcfg w' = rcfg w" "ordinary w' = ordinary w" "yw_staged w' = yw_staged w"
    "yw_job_sent w' = yw_job_sent w" "active_commitment w' = active_commitment w" "yw_main_owner w' = yw_main_owner w"
    "rs_main_lock_state_ts (yw_st w') = rs_main_lock_state_ts (yw_st w)" "yw_now w' = yw_now w" "yw_ticket w' = yw_ticket w"
    "rs_next_job_id (yw_st w') = rs_next_job_id (yw_st w)"
    by (simp_all add: w' y_with_state_mut_def ordinary_def)
  show "relay_inv relay w'" using inv active keep job_terms_id [OF terms] by (simp add: relay_inv_def facts)
  have len: "length (rj_canisters job') = length (rj_canisters job)" using terms by (rule job_terms_D(4))
  have left: "job_left w' < job_left w" if "rj_pending_transfer job' = None"
    using frame pending that len unfolding job_left_def facts active
    by (simp only: job_turns_def option.case same_frame_def) simp
  have "job_still w w'"
  proof (cases "rj_pending_transfer job' = None")
    case True
    then show ?thesis using left by (simp add: job_still_def)
  next
    case False
    then have "job_left w' = job_left w"
      unfolding job_left_def facts active using frame pending by (intro turns_same_frame) auto
    then show ?thesis using frame job_terms_id [OF terms] by (simp add: job_still_def active facts same_frame_def)
  qed
  then show calm: "calm w w'" using active terms by (simp add: calm_def relay_later_def facts)
  then show "rj_pending_transfer job' = None \<Longrightarrow> settled relay w w'"
    using left \<open>relay_inv relay w'\<close> by (simp add: settled_def)
qed

lemma settle_matched:
  assumes inv: "relay_inv relay w" and match: "pending_matches job_id p w"
    and f: "\<And>s. ry_failed_transfers (f s) \<noteq> 0 \<or>
      ry_failed_transfers s = ry_failed_transfers (f s) \<and> ry_known_unspent_e8s (f s) = ry_known_unspent_e8s s"
  shows "settled relay w (with_matched_job job_id p (settle_summary f) w)"
proof -
  from match obtain job where job: "active_job w = Some job" "rj_id job = job_id" "rj_pending_transfer job = Some p"
    by (auto simp: pending_matches_iff)
  show ?thesis unfolding with_matched [OF job]
    by (rule replace_job_ok(3) [OF inv job(1) settle_summary_frame(1)])
      (use settle_summary_inv [OF _ f] job(3) settle_summary_frame(2) in auto)
qed

lemma mark_settled:
  assumes "relay_inv relay w" "pending_matches job_id p w"
  shows "settled relay w (mark_pending_failed job_id p w)"
    "settled relay w (mark_pending_failed_after_acceptance job_id p w)"
    "settled relay w (mark_pending_ambiguous job_id p w)"
    "settled relay w (mark_pending_ambiguous_after_acceptance job_id p w)"
  unfolding mark_pending_failed_def mark_pending_failed_after_acceptance_def mark_pending_ambiguous_def
    mark_pending_ambiguous_after_acceptance_def
  by (intro settle_matched [OF assms]; simp add: sat_add_1_nonzero)+

text \<open>A step that touches nothing else.\<close>

lemma settled_untouched:
  assumes "settled relay v w'" "untouched w v"
  shows "settled relay w w'"
  using assms untouched_ok [OF assms(2)] calm_trans by (auto simp: settled_def)

lemma settled_then_untouched:
  assumes "settled relay w v" "untouched v w'"
  shows "settled relay w w'"
  using assms untouched_ok [OF assms(2)] calm_trans by (auto simp: settled_def)

lemma untouched_bad_fee: "untouched w (record_bad_fee fee w)"
  by simp

lemma matches_bad_fee: "pending_matches job_id p (record_bad_fee fee w) = pending_matches job_id p w"
  by (simp add: pending_matches_def record_bad_fee_def y_with_state_mut_def)

lemma mark_completed_settled:
  assumes inv: "relay_inv relay w" and match: "pending_matches job_id p w"
  shows "settled relay w (mark_pending_completed lt job_id p ok minted w)"
proof -
  from match obtain job where job: "active_job w = Some job" "rj_id job = job_id" "rj_pending_transfer job = Some p"
    by (auto simp: pending_matches_iff)
  have settled: "settled relay w (with_matched_job job_id p (completed_job ok minted) w)"
    unfolding with_matched [OF job]
    by (rule replace_job_ok(3) [OF inv job(1) completed_frame(1)]) (use completed_inv job(3) completed_frame(2) in auto)
  have "untouched v (note_minted lt minted v)" for v :: "'a relay_world"
    by (simp add: note_minted_def untouched_def y_with_state_mut_def split: option.split)
  from settled_then_untouched [OF settled this] show ?thesis using match by (simp add: mark_pending_completed_def)
qed

lemma complete_job_fields:
  assumes "rs_active_job st \<noteq> None"
  shows "rs_active_job (complete_job lt now st) = None"
    "rs_config (complete_job lt now st) = rs_config st" "rs_next_job_id (complete_job lt now st) = rs_next_job_id st"
    "rs_active_faucet_commitment_transfer (complete_job lt now st) = rs_active_faucet_commitment_transfer st"
    "rs_main_lock_state_ts (complete_job lt now st) = rs_main_lock_state_ts st"
  using assms by (auto simp: complete_job_def persist_recovery_deficits_from_samples_def Let_def
      retain_current_effective_targets_def retain_effective_targets_def)

text \<open>Ending the job.\<close>

lemma end_job_ok:
  assumes inv: "relay_inv relay w" and w': "w' = y_with_state_mut f w"
    and f: "rs_active_job (f (yw_st w)) = None" "rs_config (f (yw_st w)) = rcfg w"
      "rs_next_job_id (f (yw_st w)) = rs_next_job_id (yw_st w)" "rs_active_faucet_commitment_transfer (f (yw_st w)) = active_commitment w"
      "rs_main_lock_state_ts (f (yw_st w)) = rs_main_lock_state_ts (yw_st w)"
  shows "relay_inv relay w'" "calm w w'" "active_job w \<noteq> None \<Longrightarrow> settled relay w w'"
proof -
  show inv': "relay_inv relay w'" using inv f by (simp add: relay_inv_def ordinary_def w' y_with_state_mut_def)
  have left: "job_left w' < job_left w" if "active_job w \<noteq> None"
    using that f by (auto simp: job_left_def job_turns_def w' y_with_state_mut_def)
  have "job_still w w'"
  proof (cases "active_job w = None")
    case True
    then show ?thesis using f(1,2) by (simp add: job_still_def job_left_def w' y_with_state_mut_def)
  qed (use left in \<open>simp add: job_still_def\<close>)
  then show calm: "calm w w'" using f by (simp add: calm_def relay_later_def w' y_with_state_mut_def)
  then show "active_job w \<noteq> None \<Longrightarrow> settled relay w w'" using left inv' by (simp add: settled_def)
qed

lemma complete_job_ok:
  assumes "relay_inv relay w" "active_job w \<noteq> None"
  shows "settled relay w (y_with_state_mut (complete_job lt now) w)"
  by (rule end_job_ok(3) [OF assms(1) refl]) (use assms(2) in \<open>simp_all add: complete_job_fields\<close>)

lemma stop_for_fee_change_ok:
  assumes "relay_inv relay w"
  shows "relay_inv relay (stop_for_fee_change cx w)" "calm w (stop_for_fee_change cx w)"
    "job_left (stop_for_fee_change cx w) \<le> job_left w"
proof -
  have "relay_inv relay (stop_for_fee_change cx w) \<and> calm w (stop_for_fee_change cx w) \<and>
    job_left (stop_for_fee_change cx w) \<le> job_left w"
  proof (cases "active_job w")
    case None
    then have "stop_for_fee_change cx w = w"
      by (simp add: stop_for_fee_change_def y_with_state_mut_def stop_active_job_for_ledger_fee_change_def)
    then show ?thesis using assms by simp
  next
    case (Some job)
    have "settled relay w (stop_for_fee_change cx w)"
      unfolding stop_for_fee_change_def
      by (rule end_job_ok(3) [OF assms refl])
        (simp_all add: Some stop_active_job_for_ledger_fee_change_def complete_job_fields)
    then show ?thesis by (simp add: settled_def)
  qed
  then show "relay_inv relay (stop_for_fee_change cx w)" "calm w (stop_for_fee_change cx w)"
    "job_left (stop_for_fee_change cx w) \<le> job_left w" by simp_all
qed

lemma settled_then_stop:
  assumes "settled relay w v"
  shows "settled relay w (stop_for_fee_change cx v)"
  using assms stop_for_fee_change_ok [of relay v cx] calm_trans by (fastforce simp: settled_def)

section \<open>What a driven transfer ends with\<close>

definition driven :: "principal \<Rightarrow> nat \<Rightarrow> relay_ctx \<Rightarrow> nat \<Rightarrow> 'p relay_world \<Rightarrow> bool \<Rightarrow> bool" where
  "driven relay t cx n w ok \<longleftrightarrow> runs relay t cx w \<and> (ok \<longrightarrow> within n t cx w)"

lemma settled_done:
  assumes "runs relay t cx w" "within (Suc n) t cx w" "settled relay w w'"
  shows "relay_rg relay t (driven relay t cx n) (Done w' True) w"
proof (rule relay_done [OF assms(1)])
  have calm: "calm w w'" and inv: "relay_inv relay w'" and less: "job_left w' < job_left w"
    using assms(3) by (simp_all add: settled_def)
  show "calm w w'" "relay_inv relay w'" by fact+
  have "ordinary w' \<Longrightarrow> ordinary w" using calm later_ordinary by (auto simp: calm_def)
  then have "within n t cx w'" using assms(2) less calm_lease(1) [OF calm] by (fastforce simp: within_def)
  then show "driven relay t cx n w' True" using calm_runs [OF calm assms(1)] by (simp add: driven_def)
qed

lemma stale_done:
  assumes "runs relay t cx w" "relay_inv relay w"
  shows "relay_rg relay t (driven relay t cx n) (Done w False) w"
  using assms by (intro relay_done) (simp_all add: driven_def)

section \<open>The pending transfer of the job\<close>

lemma notify_second_rg:
  assumes inv: "relay_inv relay w" and runs: "runs relay t cx w" "within (Suc n) t cx w"
  shows "relay_rg relay t (driven relay t cx n) (notify_second cx job_id accepted canister first r w) w"
proof (cases "pending_matches job_id accepted w")
  case True
  note ends = settled_done [OF runs mark_settled(1) [OF inv True]] settled_done [OF runs mark_settled(2) [OF inv True]]
    settled_done [OF runs mark_settled(4) [OF inv True]] settled_done [OF runs mark_completed_settled [OF inv True]]
  show ?thesis using True ends
    by (cases "relay_notify_once r") (simp_all add: notify_second_def del: rgt.simps)
next
  case False
  then show ?thesis using stale_done [OF runs(1) inv] by (simp add: notify_second_def del: rgt.simps)
qed

lemma notify_request:
  assumes "ctx_ok relay cx w" "pending_matches job_id accepted w" "rt_kind accepted = CmcTopUp canister"
    "rt_phase accepted = RTransferAccepted block"
  shows "relay_req_ok relay w (RqNotifyTopUp (rx_cmc cx) canister block)"
  using assms by (auto simp: ctx_ok_def pending_matches_iff)

lemma notify_first_rg:
  assumes inv: "relay_inv relay w" and runs: "runs relay t cx w" "within (Suc n) t cx w"
    and kind: "rt_kind accepted = CmcTopUp canister" "rt_phase accepted = RTransferAccepted block"
  shows "relay_rg relay t (driven relay t cx n) (notify_first cx job_id accepted canister block r w) w"
proof (cases "pending_matches job_id accepted w")
  case True
  have again: "relay_rg relay t (driven relay t cx n)
      (Await w (RqNotifyTopUp (rx_cmc cx) canister block) (notify_second cx job_id accepted canister first)) w" for first
  proof (rule relay_await [OF runs(1) calm_refl inv])
    show "relay_req_ok relay w (RqNotifyTopUp (rx_cmc cx) canister block)"
      using runs(1) by (intro notify_request [OF _ True kind]) (simp add: runs_def)
  qed (use within_rely [OF runs] in \<open>intro notify_second_rg\<close>)
  show ?thesis using True settled_done [OF runs mark_completed_settled [OF inv True]] again
    by (cases "relay_notify_once r") (simp_all add: notify_first_def del: rgt.simps)
next
  case False
  then show ?thesis using stale_done [OF runs(1) inv] by (simp add: notify_first_def del: rgt.simps)
qed

lemma settle_accepted_rg:
  assumes inv: "relay_inv relay w" and runs: "runs relay t cx w" "within (Suc n) t cx w"
    and match: "pending_matches job_id accepted w"
  shows "relay_rg relay t (driven relay t cx n) (settle_accepted cx job_id accepted w) w"
proof (cases "rt_phase accepted")
  case RAwaitingTransfer
  then show ?thesis using stale_done [OF runs(1) inv] by (simp add: settle_accepted_def del: rgt.simps)
next
  case (RTransferAccepted block)
  have complete: "relay_rg relay t (driven relay t cx n)
      (Done (mark_pending_completed (pe_less (rx_env cx)) job_id accepted False None w) True) w"
    by (rule settled_done [OF runs mark_completed_settled [OF inv match]])
  have notify: "relay_rg relay t (driven relay t cx n)
      (Await w (RqNotifyTopUp (rx_cmc cx) canister block) (notify_first cx job_id accepted canister block)) w"
    if "rt_kind accepted = CmcTopUp canister" for canister
  proof (rule relay_await [OF runs(1) calm_refl inv])
    show "relay_req_ok relay w (RqNotifyTopUp (rx_cmc cx) canister block)"
      using runs(1) by (intro notify_request [OF _ match that RTransferAccepted]) (simp add: runs_def)
  qed (use within_rely [OF runs] that RTransferAccepted in \<open>intro notify_first_rg\<close>)
  show ?thesis using RTransferAccepted complete notify
    by (cases "rt_kind accepted") (simp_all add: settle_accepted_def del: rgt.simps)
qed

lemma pending_accepted_rg:
  assumes inv: "relay_inv relay w" and runs: "runs relay t cx w" "within (Suc n) t cx w"
  shows "relay_rg relay t (driven relay t cx n) (pending_accepted cx job_id staged block w) w"
proof (cases "pending_matches job_id staged w")
  case False
  then show ?thesis using stale_done [OF runs(1) inv] by (simp add: pending_accepted_def del: rgt.simps)
next
  case True
  let ?accepted = "staged\<lparr>rt_phase := RTransferAccepted block\<rparr>"
  let ?w = "with_matched_job job_id staged (ledger_accepted_job staged block) w"
  from True obtain job where job: "active_job w = Some job" "rj_id job = job_id" "rj_pending_transfer job = Some staged"
    by (auto simp: pending_matches_iff)
  note step = replace_job_ok [OF inv job(1) ledger_accepted_frame [of job staged block] _ _
      with_matched [OF job, of "ledger_accepted_job staged block"]]
  have ok: "relay_inv relay ?w" "calm w ?w"
    using step(1,2) ledger_accepted_inv [OF _ job(3)] job(3) by auto
  have "pending_matches job_id ?accepted ?w"
  proof -
    have "rj_id (ledger_accepted_job staged block job) = job_id"
      using ledger_accepted_frame [of job staged block] job(2) job_terms_id [of "ledger_accepted_job staged block job" job]
      by (simp add: same_frame_def)
    then show ?thesis unfolding with_matched [OF job]
      by (simp add: pending_matches_iff y_with_state_mut_def ledger_accepted_counts(3))
  qed
  from settle_accepted_rg [OF ok(1) calm_runs [OF ok(2) runs(1)] calm_within [OF ok(2) runs(2)] this]
  have "relay_rg relay t (driven relay t cx n) (settle_accepted cx job_id ?accepted ?w) w"
    using runs_guar [OF runs(1) ok(2)] by (rule relay_rg_start)
  then show ?thesis using True by (simp add: pending_accepted_def mark_pending_ledger_accepted_def del: rgt.simps)
qed

text \<open>The transfer a job identified by its number was given: it is the one of the job that has this number later.\<close>

definition arg_of :: "u64 \<Rightarrow> relay_transfer \<Rightarrow> transfer_arg \<Rightarrow> 'p relay_world \<Rightarrow> bool" where
  "arg_of job_id staged arg w \<longleftrightarrow> rt_phase staged = RAwaitingTransfer \<and>
     (ordinary w \<longrightarrow> (\<forall>job. active_job w = Some job \<longrightarrow> rj_id job = job_id \<longrightarrow>
        arg = pending_transfer_arg (rcf_cmc_canister_id (rcfg w)) (rj_fee_e8s job) staged))"

lemma later_terms:
  assumes inv: "relay_inv relay w" and later: "relay_later w w'" and o: "ordinary w'"
    and jobs: "active_job w = Some job" "active_job w' = Some job'" "rj_id job' = rj_id job"
  shows "job_terms job' = job_terms job"
proof -
  have "rj_id job < rs_next_job_id (yw_st w)"
    using inv jobs(1) later_ordinary [OF later o] by (simp add: relay_inv_def)
  then have "\<not> rs_next_job_id (yw_st w) \<le> rj_id job'" using jobs(3) by (simp add: not_le)
  then show ?thesis using later jobs(1,2) by (auto simp: relay_later_def)
qed

lemma arg_of_later:
  assumes inv: "relay_inv relay w" and later: "relay_later w w'" and active: "active_job w = Some job"
    and arg: "rt_phase staged = RAwaitingTransfer"
      "arg = pending_transfer_arg (rcf_cmc_canister_id (rcfg w)) (rj_fee_e8s job) staged"
  shows "arg_of (rj_id job) staged arg w'"
proof -
  have "rj_fee_e8s job' = rj_fee_e8s job" if "ordinary w'" "active_job w' = Some job'" "rj_id job' = rj_id job" for job'
    using later_terms [OF inv later that(1) active that(2,3)] by (rule job_terms_D(2))
  then show ?thesis using later arg by (auto simp: arg_of_def relay_later_def)
qed

text \<open>A transfer of the job leaves from the default account.\<close>

lemma pending_staged:
  assumes inv: "relay_inv relay w" and o: "ordinary w" and job: "active_job w = Some job" "rj_pending_transfer job = Some p"
    and phase: "rt_phase p = RAwaitingTransfer"
  shows "p \<in> set (yw_staged w)" "staged_ok relay (rcfg w) (rj_fee_e8s job) p" "from_subaccount_for_pending p = None"
proof -
  have job_inv: "relay_job_inv relay (rcfg w) (yw_staged w) (yw_job_sent w) job" using inv o job by (simp add: relay_inv_def)
  then have "yw_staged w \<noteq> []" "p\<lparr>rt_phase := RAwaitingTransfer\<rparr> = hd (yw_staged w)"
    using job(2) by (auto simp: relay_job_inv_def job_pending_def)
  moreover have "p\<lparr>rt_phase := RAwaitingTransfer\<rparr> = p" using phase by simp
  ultimately show staged: "p \<in> set (yw_staged w)" by (metis hd_in_set)
  then show ok: "staged_ok relay (rcfg w) (rj_fee_e8s job) p" using job_inv by (simp add: relay_job_inv_def list_all_iff)
  then show "from_subaccount_for_pending p = None"
    by (auto simp: staged_ok_def from_subaccount_for_pending_def split: relay_transfer_kind.splits)
qed

lemma note_job_sent_fields [simp]:
  "yw_st (note_job_sent arg w) = yw_st w" "yw_staged (note_job_sent arg w) = yw_staged w"
  "yw_job_sent (note_job_sent arg w) = arg # yw_job_sent w" "ordinary (note_job_sent arg w) = ordinary w"
  "yw_now (note_job_sent arg w) = yw_now w" "yw_ticket (note_job_sent arg w) = yw_ticket w"
  "yw_main_owner (note_job_sent arg w) = yw_main_owner w"
  by (simp_all add: note_job_sent_def ordinary_def)

lemma send_ok:
  assumes inv: "relay_inv relay w" and ctx: "ctx_ok relay cx w" and match: "pending_matches job_id staged w"
    and arg: "arg_of job_id staged arg w"
  shows "relay_inv relay (note_job_sent arg w)" "calm w (note_job_sent arg w)" "job_left (note_job_sent arg w) = job_left w"
    "relay_req_ok relay (note_job_sent arg w) (RqTransfer (rx_ledger cx) arg)"
proof -
  let ?w = "note_job_sent arg w"
  from match obtain job where job: "active_job w = Some job" "rj_id job = job_id" "rj_pending_transfer job = Some staged"
    by (auto simp: pending_matches_iff)
  have phase: "rt_phase staged = RAwaitingTransfer" using arg by (simp add: arg_of_def)
  have sent: "arg = pending_transfer_arg (rcf_cmc_canister_id (rcfg w)) (rj_fee_e8s job) staged" "staged \<in> set (yw_staged w)"
    "ta_from_subaccount arg = None" if "ordinary w"
    using that arg job pending_staged [OF inv that job(1,3) phase] by (auto simp: arg_of_def pending_transfer_arg_def)
  then show "relay_inv relay ?w" using inv job by (auto simp: relay_inv_def relay_job_inv_def)
  show left: "job_left ?w = job_left w" by (simp add: job_left_def)
  show "calm w ?w" using left by (simp add: calm_def relay_later_def job_still_def)
  show "relay_req_ok relay ?w (RqTransfer (rx_ledger cx) arg)"
    using sent job phase ctx by (auto simp: ctx_ok_def)
qed

lemma matched_bad_fee_settled:
  assumes "relay_inv relay w" "pending_matches job_id staged w"
  shows "settled relay w (stop_for_fee_change cx (mark_pending_failed job_id staged (record_bad_fee fee w)))"
    "settled relay w (stop_for_fee_change cx (mark_pending_ambiguous job_id staged (record_bad_fee fee w)))"
proof -
  let ?v = "record_bad_fee fee w"
  have v: "relay_inv relay ?v" "pending_matches job_id staged ?v"
    using assms untouched_ok(1) [OF untouched_bad_fee [of w fee]] by (simp_all add: matches_bad_fee)
  show "settled relay w (stop_for_fee_change cx (mark_pending_failed job_id staged ?v))"
    "settled relay w (stop_for_fee_change cx (mark_pending_ambiguous job_id staged ?v))"
    using mark_settled(1,3) [OF v] settled_untouched [OF _ untouched_bad_fee] settled_then_stop by blast+
qed

lemma transfer_second_rg:
  assumes inv: "relay_inv relay w" and runs: "runs relay t cx w" "within (Suc n) t cx w"
  shows "relay_rg relay t (driven relay t cx n) (transfer_second cx job_id staged r w) w"
proof (cases "pending_matches job_id staged w")
  case True
  note ends = settled_done [OF runs mark_settled(3) [OF inv True]] settled_done [OF runs matched_bad_fee_settled(2) [OF inv True]]
    pending_accepted_rg [OF inv runs]
  show ?thesis using True ends by (cases "relay_transfer_once r") (simp_all add: transfer_second_def del: rgt.simps)
next
  case False
  then show ?thesis using stale_done [OF runs(1) inv] pending_accepted_rg [OF inv runs]
    by (cases "relay_transfer_once r") (simp_all add: transfer_second_def del: rgt.simps)
qed

lemma transfer_first_rg:
  assumes inv: "relay_inv relay w" and runs: "runs relay t cx w" "within (Suc n) t cx w"
    and arg: "arg_of job_id staged arg w"
  shows "relay_rg relay t (driven relay t cx n) (transfer_first cx job_id staged arg r w) w"
proof (cases "pending_matches job_id staged w")
  case True
  have "ctx_ok relay cx w" using runs(1) by (simp add: runs_def)
  note send = send_ok [OF inv this True arg]
  note sent = calm_runs [OF send(2) runs(1)] calm_within [OF send(2) runs(2)]
  have "relay_rg relay t (driven relay t cx n)
      (Await (note_job_sent arg w) (RqTransfer (rx_ledger cx) arg) (transfer_second cx job_id staged)) w"
    by (rule relay_await [OF runs(1) send(2,1,4)]) (use within_rely [OF sent] in \<open>intro transfer_second_rg\<close>)
  note ends = settled_done [OF runs mark_settled(1) [OF inv True]] settled_done [OF runs matched_bad_fee_settled(1) [OF inv True]]
    pending_accepted_rg [OF inv runs] this
  show ?thesis using True ends by (cases "relay_transfer_once r") (simp_all add: transfer_first_def del: rgt.simps)
next
  case False
  then show ?thesis using stale_done [OF runs(1) inv] pending_accepted_rg [OF inv runs]
    by (cases "relay_transfer_once r") (simp_all add: transfer_first_def del: rgt.simps)
qed

lemma job_pending_rg:
  assumes inv: "relay_inv relay w" and runs: "runs relay t cx w" "within (Suc n) t cx w"
    and job: "active_job w = Some job" "rj_pending_transfer job = Some staged"
  shows "relay_rg relay t (driven relay t cx n) (drive_pending_transfer cx w) w"
proof -
  have match: "pending_matches (rj_id job) staged w" using job by (simp add: pending_matches_iff)
  show ?thesis
  proof (cases "rt_phase staged")
    case (RTransferAccepted block)
    then show ?thesis using settle_accepted_rg [OF inv runs match] job by (simp add: drive_pending_transfer_def del: rgt.simps)
  next
    case RAwaitingTransfer
    let ?arg = "pending_transfer_arg (rcf_cmc_canister_id (rcfg w)) (rj_fee_e8s job) staged"
    have ctx: "ctx_ok relay cx w" using runs(1) by (simp add: runs_def)
    have arg: "arg_of (rj_id job) staged ?arg w"
      by (rule arg_of_later [OF inv _ job(1) RAwaitingTransfer refl]) simp
    note send = send_ok [OF inv ctx match arg]
    note sent = calm_runs [OF send(2) runs(1)] calm_within [OF send(2) runs(2)]
    have "relay_rg relay t (driven relay t cx n)
        (Await (note_job_sent ?arg w) (RqTransfer (rx_ledger cx) ?arg) (transfer_first cx (rj_id job) staged ?arg)) w"
    proof (rule relay_await [OF runs(1) send(2,1,4)])
      fix r and w' :: "'a relay_world"
      assume w': "relay_inv relay w'" "runs relay t cx w'" "relay_rely t (note_job_sent ?arg w) w'"
      have "relay_later w w'" using w'(3) send(2) relay_later_trans by (auto simp: relay_rely_def calm_def)
      from arg_of_later [OF inv this job(1) RAwaitingTransfer refl] within_rely [OF sent w'(3)] w'(1,2)
      show "relay_rg relay t (driven relay t cx n) (transfer_first cx (rj_id job) staged ?arg r w') w'"
        by (intro transfer_first_rg)
    qed
    moreover have "relay_rg relay t (driven relay t cx n) (Done (mark_pending_ambiguous (rj_id job) staged w) True) w"
      by (rule settled_done [OF runs mark_settled(3) [OF inv match]])
    ultimately show ?thesis using job RAwaitingTransfer by (simp add: drive_pending_transfer_def Let_def del: rgt.simps)
  qed
qed

end
