(* ===== verification/RelayJobTurns.thy ===== *)
theory RelayJobTurns
  imports RelayJobDrive
begin

text \<open>The turns of the Relay's daily job: staging the next transfer, planning the surplus, and the loop over both.\<close>

section \<open>Turns left\<close>

abbreviation left_topups :: "relay_job \<Rightarrow> nat" where
  "left_topups job \<equiv> length (rj_canisters job) - unat (rj_next_transfer_index job)"

abbreviation left_surplus :: "rconfig \<Rightarrow> relay_job \<Rightarrow> nat" where
  "left_surplus cfg job \<equiv> (if rj_surplus_phase_planned job
     then length (rj_surplus_transfers job) - unat (rj_surplus_transfer_index job)
     else length (rcf_surplus_recipients cfg) + 1)"

lemma job_turns_Some: "job_turns cfg (Some job) = 2 * (left_topups job + left_surplus cfg job) +
    (if rj_pending_transfer job = None then 0 else 1) + 2"
  by (simp add: job_turns_def)

lemma job_left_pos: "1 \<le> job_left w"
  by (simp add: job_left_def job_turns_def split: option.split)

text \<open>What staging leaves: the fields it does not advance.\<close>

definition staged_from :: "relay_job \<Rightarrow> relay_job \<Rightarrow> bool" where
  "staged_from job job' \<longleftrightarrow> rj_id job' = rj_id job \<and> rj_surplus_phase_planned job' = rj_surplus_phase_planned job \<and>
     rj_canisters job' = rj_canisters job"

lemma stage_pending_left:
  assumes "stage_pending kind gross amount now job = (job', s)"
  shows "staged_from job job'" "s \<noteq> None" "rj_next_transfer_index job' = rj_next_transfer_index job"
    "rj_surplus_transfer_index job' = rj_surplus_transfer_index job" "rj_surplus_transfers job' = rj_surplus_transfers job"
  using assms by (auto simp: stage_pending_def next_job_created_at_def staged_from_def Let_def)

lemma next_topup_left:
  assumes "length (rj_canisters job) < 2 ^ 32" "next_topup_from fuel now job = (job', s)"
  shows "staged_from job job' \<and> left_topups job' + (if s = None then 0 else 1) \<le> left_topups job \<and>
    rj_surplus_transfer_index job' = rj_surplus_transfer_index job \<and> rj_surplus_transfers job' = rj_surplus_transfers job"
  using assms
proof (induction fuel arbitrary: job)
  case 0
  then show ?case by (simp add: staged_from_def)
next
  case (Suc fuel)
  let ?i = "rj_next_transfer_index job"
  let ?job1 = "job\<lparr>rj_next_transfer_index := sat_add ?i 1\<rparr>"
  show ?case
  proof (cases "unat ?i < length (rj_canisters job)")
    case False
    then show ?thesis using Suc.prems(2) by (simp add: Let_def staged_from_def)
  next
    case True
    have succ: "unat (sat_add ?i 1) = Suc (unat ?i)" using True Suc.prems(1) by (rule index_succ)
    show ?thesis
    proof (cases "cb_amount_e8s (rj_canisters job ! unat ?i) = 0")
      case zero: True
      then have "next_topup_from fuel now ?job1 = (job', s)" using Suc.prems(2) True by (simp add: Let_def)
      from Suc.IH [OF _ this] Suc.prems(1) succ True show ?thesis by (auto simp: staged_from_def)
    next
      case False
      then obtain kind gross amount where "stage_pending kind gross amount now ?job1 = (job', s)"
        using Suc.prems(2) True by (auto simp: Let_def)
      from stage_pending_left [OF this] succ True show ?thesis by (auto simp: staged_from_def)
    qed
  qed
qed

lemma next_surplus_left:
  assumes "length (rj_surplus_transfers job) < 2 ^ 32" "next_surplus_from fuel now job = (job', s)"
  shows "staged_from job job' \<and> rj_surplus_transfers job' = rj_surplus_transfers job \<and>
    length (rj_surplus_transfers job) - unat (rj_surplus_transfer_index job') + (if s = None then 0 else 1) \<le>
      length (rj_surplus_transfers job) - unat (rj_surplus_transfer_index job) \<and>
    rj_next_transfer_index job' = rj_next_transfer_index job"
  using assms
proof (induction fuel arbitrary: job)
  case 0
  then show ?case by (simp add: staged_from_def)
next
  case (Suc fuel)
  let ?i = "rj_surplus_transfer_index job"
  let ?job1 = "job\<lparr>rj_surplus_transfer_index := sat_add ?i 1\<rparr>"
  show ?case
  proof (cases "unat ?i < length (rj_surplus_transfers job)")
    case False
    then show ?thesis using Suc.prems(2) by (simp add: Let_def staged_from_def)
  next
    case True
    have succ: "unat (sat_add ?i 1) = Suc (unat ?i)" using True Suc.prems(1) by (rule index_succ)
    show ?thesis
    proof (cases "xs_amount_e8s (rj_surplus_transfers job ! unat ?i) = 0")
      case zero: True
      then have "next_surplus_from fuel now ?job1 = (job', s)" using Suc.prems(2) True by (simp add: Let_def)
      from Suc.IH [OF _ this] Suc.prems(1) succ True show ?thesis by (auto simp: staged_from_def)
    next
      case False
      obtain kind gross amount where "stage_pending kind gross amount now ?job1 = (job', s)"
        using Suc.prems(2) True False unfolding next_surplus_from.simps Let_def by (simp only: if_True if_False)
      from stage_pending_left [OF this] succ True show ?thesis by (auto simp: staged_from_def)
    qed
  qed
qed

lemma next_surplus_pending_left:
  assumes len: "length (rj_surplus_transfers job) < 2 ^ 32" "\<not> rj_surplus_phase_planned job \<longrightarrow> rj_surplus_transfers job = []"
    and run: "next_surplus_pending now job = (job', s)"
  shows "staged_from job job' \<and> left_surplus cfg job' + (if s = None then 0 else 1) \<le> left_surplus cfg job \<and>
    rj_next_transfer_index job' = rj_next_transfer_index job"
proof (cases "rj_surplus_transfers job = []")
  case True
  then show ?thesis using run by (simp add: next_surplus_pending_def staged_from_def)
next
  case False
  then have planned: "rj_surplus_phase_planned job" using len(2) by blast
  show ?thesis
  proof (cases "surplus_allowed_after_topups job")
    case (Inl reason)
    then show ?thesis using run False planned by (auto simp: next_surplus_pending_def staged_from_def)
  next
    case (Inr u)
    then have "next_surplus_from (Suc (length (rj_surplus_transfers job))) now job = (job', s)"
      using run False by (simp add: next_surplus_pending_def)
    from next_surplus_left [OF len(1) this] planned show ?thesis by (simp add: staged_from_def)
  qed
qed

lemma plan_left:
  assumes shape: "job_shape relay cfg job" and idle: "rj_pending_transfer job = None"
    and plan: "plan_next_transfer limit started now job = (step, started', job', s)" and pending: "rj_pending_transfer job' = s"
  shows "staged_from job job'" "job_turns cfg (Some job') \<le> job_turns cfg (Some job)"
    "s \<noteq> None \<Longrightarrow> job_turns cfg (Some job') < job_turns cfg (Some job)"
    "topup_phase_done_and_surplus_unplanned (Some job') \<Longrightarrow> \<not> topup_phase_done_and_surplus_unplanned (Some job) \<Longrightarrow>
       job_turns cfg (Some job') < job_turns cfg (Some job)"
proof -
  have len: "length (rj_canisters job) < 2 ^ 32" "length (rj_surplus_transfers job) < 2 ^ 32"
    "\<not> rj_surplus_phase_planned job \<longrightarrow> rj_surplus_transfers job = []"
    using shape by (auto simp: job_shape_def)
  have facts: "staged_from job job' \<and> left_topups job' \<le> left_topups job \<and> left_surplus cfg job' \<le> left_surplus cfg job \<and>
    (s \<noteq> None \<longrightarrow> left_topups job' + left_surplus cfg job' < left_topups job + left_surplus cfg job)"
  proof (cases "topups_remain job \<or> surplus_remains job")
    case False
    have "unat (word_of_nat (length (rj_canisters job)) :: u32) = length (rj_canisters job)"
      "unat (word_of_nat (length (rj_surplus_transfers job)) :: u32) = length (rj_surplus_transfers job)"
      using len by (simp_all add: unat_of_nat take_bit_nat_eq_self)
    then show ?thesis using plan False by (auto simp: plan_next_transfer_def staged_from_def)
  next
    case remains: True
    show ?thesis
    proof (cases "case limit of None \<Rightarrow> False | Some l \<Rightarrow> l \<le> started")
      case True
      then show ?thesis using plan remains by (auto simp: plan_next_transfer_def staged_from_def)
    next
      case False
      obtain job1 s1 where topup: "next_topup_pending now job = (job1, s1)" by fastforce
      note first = next_topup_left [OF len(1) topup [unfolded next_topup_pending_def]]
      show ?thesis
      proof (cases s1)
        case (Some t)
        then show ?thesis using plan remains False topup first by (auto simp: plan_next_transfer_def staged_from_def)
      next
        case None
        obtain job2 s2 where surplus: "next_surplus_pending now job1 = (job2, s2)" by fastforce
        have "length (rj_surplus_transfers job1) < 2 ^ 32"
          "\<not> rj_surplus_phase_planned job1 \<longrightarrow> rj_surplus_transfers job1 = []"
          using first len by (auto simp: staged_from_def)
        note second = next_surplus_pending_left [OF this surplus, of cfg]
        have result: "job' = job2" "s = s2"
          using plan remains False topup None surplus by (auto simp: plan_next_transfer_def split: option.splits)
        show ?thesis unfolding result using first None second by (auto simp: staged_from_def)
      qed
    qed
  qed
  then show "staged_from job job'" by blast
  have p: "(if rj_pending_transfer job' = None then 0 else 1) = (if s = None then 0 else 1 :: nat)" using pending by simp
  show "job_turns cfg (Some job') \<le> job_turns cfg (Some job)"
    unfolding job_turns_Some p using facts idle by (cases "s = None") simp_all
  show "job_turns cfg (Some job') < job_turns cfg (Some job)" if "s \<noteq> None"
    unfolding job_turns_Some p using facts idle that by simp
  show "job_turns cfg (Some job') < job_turns cfg (Some job)"
    if "topup_phase_done_and_surplus_unplanned (Some job')" "\<not> topup_phase_done_and_surplus_unplanned (Some job)"
  proof (cases "s = None")
    case True
    have "left_topups job' = 0" "left_topups job > 0" "left_surplus cfg job' = left_surplus cfg job"
      using that facts by (auto simp: topup_phase_done_and_surplus_unplanned_def staged_from_def)
    then show ?thesis unfolding job_turns_Some p using True idle by simp
  next
    case False
    then show ?thesis unfolding job_turns_Some p using facts idle by simp
  qed
qed

lemma stage_pending_terms:
  assumes "stage_pending kind gross amount now job = (job', s)"
  shows "job_terms job' = job_terms job" "rj_pending_transfer job' = s"
  using assms by (auto simp: stage_pending_def next_job_created_at_def job_terms_def Let_def)

lemma next_topup_terms:
  assumes "rj_pending_transfer job = None" "next_topup_from fuel now job = (job', s)"
  shows "job_terms job' = job_terms job \<and> rj_pending_transfer job' = s"
  using assms
proof (induction fuel arbitrary: job)
  case (Suc fuel)
  let ?job1 = "job\<lparr>rj_next_transfer_index := sat_add (rj_next_transfer_index job) 1\<rparr>"
  have "job_terms ?job1 = job_terms job" by (simp add: job_terms_def)
  then show ?case using Suc.IH [of ?job1] Suc.prems stage_pending_terms [of _ _ _ now ?job1 job' s]
    by (auto simp: Let_def split: if_splits)
qed simp

lemma next_surplus_terms:
  assumes "rj_pending_transfer job = None" "next_surplus_from fuel now job = (job', s)"
  shows "job_terms job' = job_terms job \<and> rj_pending_transfer job' = s"
  using assms
proof (induction fuel arbitrary: job)
  case (Suc fuel)
  let ?job1 = "job\<lparr>rj_surplus_transfer_index := sat_add (rj_surplus_transfer_index job) 1\<rparr>"
  have "job_terms ?job1 = job_terms job" by (simp add: job_terms_def)
  then show ?case using Suc.IH [of ?job1] Suc.prems stage_pending_terms [of _ _ _ now ?job1 job' s]
    by (auto simp: Let_def split: if_splits)
qed simp

lemma next_surplus_pending_terms:
  assumes "rj_pending_transfer job = None" "next_surplus_pending now job = (job', s)"
  shows "job_terms job' = job_terms job \<and> rj_pending_transfer job' = s"
proof (cases "rj_surplus_transfers job = [] \<or> (\<exists>reason. surplus_allowed_after_topups job = Inl reason)")
  case True
  then show ?thesis using assms by (auto simp: next_surplus_pending_def job_terms_def split: if_splits)
next
  case False
  then have "next_surplus_from (Suc (length (rj_surplus_transfers job))) now job = (job', s)"
    using assms(2) by (auto simp: next_surplus_pending_def split: sum.splits)
  then show ?thesis by (rule next_surplus_terms [OF assms(1)])
qed

lemma plan_next_transfer_terms:
  assumes idle: "rj_pending_transfer job = None"
    and plan: "plan_next_transfer limit started now job = (step, started', job', s)"
  shows "job_terms job' = job_terms job \<and> rj_pending_transfer job' = s \<and> (step = PlanPlanned \<longleftrightarrow> s \<noteq> None)"
proof -
  obtain job1 s1 where topup: "next_topup_pending now job = (job1, s1)" by fastforce
  obtain job2 s2 where surplus: "next_surplus_pending now job1 = (job2, s2)" by fastforce
  note first = next_topup_terms [OF idle topup [unfolded next_topup_pending_def]]
  have second: "job_terms job2 = job_terms job1 \<and> rj_pending_transfer job2 = s2" if "s1 = None"
    using next_surplus_pending_terms [OF _ surplus] first that by simp
  show ?thesis
  proof (cases "(\<not> topups_remain job \<and> \<not> surplus_remains job) \<or> (case limit of None \<Rightarrow> False | Some l \<Rightarrow> l \<le> started)")
    case True
    then show ?thesis using plan idle by (auto simp: plan_next_transfer_def job_terms_def split: if_splits)
  next
    case False
    show ?thesis
    proof (cases "s1 = None")
      case True
      then have "job' = job2" "s = s2" "step = PlanPlanned \<longleftrightarrow> s2 \<noteq> None"
        using False plan topup surplus by (auto simp: plan_next_transfer_def split: option.splits)
      then show ?thesis using first second [OF True] by simp
    next
      case some: False
      then have "job' = job1" "s = s1" "step = PlanPlanned"
        using False plan topup by (auto simp: plan_next_transfer_def split: option.splits)
      then show ?thesis using first some by simp
    qed
  qed
qed

section \<open>Staging in the world\<close>

text \<open>A step of the daily job itself, or of its summary: what the world keeps.\<close>

lemma advance_job_ok:
  assumes inv: "relay_inv relay w" and active: "active_job w = Some job"
    and terms: "job_terms job' = job_terms job"
    and keep: "ordinary w \<Longrightarrow> relay_job_inv relay (rcfg w) (ts @ yw_staged w) (yw_job_sent w) job'"
    and left: "ordinary w \<Longrightarrow> job_turns (rcfg w) (Some job') < job_turns (rcfg w) (Some job) \<or>
      job_turns (rcfg w) (Some job') = job_turns (rcfg w) (Some job) \<and>
      rj_surplus_phase_planned job' = rj_surplus_phase_planned job"
    and w': "w' = y_with_state_mut (\<lambda>st. st\<lparr>rs_active_job := Some job'\<rparr>) (w\<lparr>yw_staged := ts @ yw_staged w\<rparr>)"
  shows "relay_inv relay w'" "calm w w'" "active_job w' = Some job'" "job_left w' = job_turns (rcfg w) (Some job')"
proof -
  have facts: "active_job w' = Some job'" "rcfg w' = rcfg w" "ordinary w' = ordinary w" "yw_staged w' = ts @ yw_staged w"
    "yw_job_sent w' = yw_job_sent w" "active_commitment w' = active_commitment w" "yw_main_owner w' = yw_main_owner w"
    "rs_main_lock_state_ts (yw_st w') = rs_main_lock_state_ts (yw_st w)" "yw_now w' = yw_now w" "yw_ticket w' = yw_ticket w"
    "rs_next_job_id (yw_st w') = rs_next_job_id (yw_st w)"
    by (simp_all add: w' y_with_state_mut_def ordinary_def)
  note id = job_terms_id [OF terms]
  show "active_job w' = Some job'" by (rule facts)
  show "job_left w' = job_turns (rcfg w) (Some job')" by (simp add: job_left_def facts)
  show "relay_inv relay w'" using inv active keep id by (simp add: relay_inv_def facts)
  have "job_still w w'" using left id by (auto simp: job_still_def job_left_def active facts)
  then show "calm w w'" using active terms by (simp add: calm_def relay_later_def facts)
qed

lemma stage_job_ok:
  assumes inv: "relay_inv relay w" and active: "active_job w = Some job" and idle: "rj_pending_transfer job = None"
    and plan: "plan_next_transfer limit started now job = (step, started', job', s)"
  shows "relay_inv relay (stage_job job' s w)" "calm w (stage_job job' s w)" "active_job (stage_job job' s w) = Some job'"
    "ordinary w \<Longrightarrow> step = PlanPlanned \<Longrightarrow> job_left (stage_job job' s w) < job_left w"
    "ordinary w \<Longrightarrow> topup_phase_done_and_surplus_unplanned (Some job') \<Longrightarrow>
       \<not> topup_phase_done_and_surplus_unplanned (Some job) \<Longrightarrow> job_left (stage_job job' s w) < job_left w"
proof -
  let ?ts = "case s of None \<Rightarrow> [] | Some t \<Rightarrow> [t]"
  have terms: "job_terms job' = job_terms job" and pending: "rj_pending_transfer job' = s"
    and step: "step = PlanPlanned \<longleftrightarrow> s \<noteq> None"
  proof -
    show "job_terms job' = job_terms job" "rj_pending_transfer job' = s" "step = PlanPlanned \<longleftrightarrow> s \<noteq> None"
      using plan_next_transfer_terms [OF idle plan] by simp_all
  qed
  have job_inv: "relay_job_inv relay (rcfg w) (yw_staged w) (yw_job_sent w) job" if "ordinary w"
    using inv active that by (simp add: relay_inv_def)
  have keep: "relay_job_inv relay (rcfg w) (?ts @ yw_staged w) (yw_job_sent w) job'" if "ordinary w"
    using plan_next_transfer_stages [OF job_inv [OF that] idle plan] by (simp add: stages_def)
  have shape: "job_shape relay (rcfg w) job" if "ordinary w" using job_inv [OF that] by (simp add: relay_job_inv_def)
  note left = plan_left [OF shape idle plan pending]
  have w': "stage_job job' s w = y_with_state_mut (\<lambda>st. st\<lparr>rs_active_job := Some job'\<rparr>) (w\<lparr>yw_staged := ?ts @ yw_staged w\<rparr>)"
    by (simp add: stage_job_def)
  have "job_turns (rcfg w) (Some job') < job_turns (rcfg w) (Some job) \<or>
      job_turns (rcfg w) (Some job') = job_turns (rcfg w) (Some job) \<and>
      rj_surplus_phase_planned job' = rj_surplus_phase_planned job" if "ordinary w"
    using left(1,2) [OF that] by (auto simp: staged_from_def)
  note ok = advance_job_ok [OF inv active terms keep this w']
  then show "relay_inv relay (stage_job job' s w)" "calm w (stage_job job' s w)" "active_job (stage_job job' s w) = Some job'"
    by simp_all
  have now: "job_left w = job_turns (rcfg w) (Some job)" by (simp add: job_left_def active)
  show "job_left (stage_job job' s w) < job_left w" if "ordinary w" "step = PlanPlanned"
    using left(3) [OF that(1)] that(2) step ok(4) now by simp
  show "job_left (stage_job job' s w) < job_left w" if "ordinary w" "topup_phase_done_and_surplus_unplanned (Some job')"
    "\<not> topup_phase_done_and_surplus_unplanned (Some job)"
    using left(4) that ok(4) now by simp
qed

end
