(* ===== verification/RelayJobLoop.thy ===== *)
theory RelayJobLoop
  imports RelayJobTurns
begin

text \<open>The loop over the turns of the Relay's daily job: it keeps the invariant, and it returns.\<close>

section \<open>Code that only asks, under what is known to be stable\<close>

lemma perform_stable_rgt:
  assumes "asks C' Q' p" "I s" "P s"
    and stable: "\<And>s s'. P s \<Longrightarrow> R s s' \<Longrightarrow> P s'" and guar: "\<And>s. P s \<Longrightarrow> G s s"
    and req: "\<And>s q. I s \<Longrightarrow> C' q \<Longrightarrow> C s (req q)"
  shows "rgt T I R G C (\<lambda>s a. P s \<and> Q' a) (perform req resp p s) s"
  using assms(1-3)
proof (induction p arbitrary: s)
  case (Answer a)
  then show ?case using guar by simp
next
  case (Ask q k)
  then show ?case using stable guar req by (auto intro: Ask.IH [OF rangeI])
qed

section \<open>Planning the surplus\<close>

text \<open>What is known of the job a plan was computed for.\<close>

definition plan_base :: "u64 \<Rightarrow> u64 \<Rightarrow> u64 \<Rightarrow> 'p relay_world \<Rightarrow> bool" where
  "plan_base job_id known fee w \<longleftrightarrow> (ordinary w \<longrightarrow> (\<forall>job. active_job w = Some job \<longrightarrow> rj_id job = job_id \<longrightarrow>
     rj_fee_e8s job = fee \<and> (modest job \<longrightarrow>
       unat known + pay_topups (rj_canisters job) \<le> unat (rj_balance_start_e8s job))))"

lemma plan_base_later:
  assumes inv: "relay_inv relay w" and later: "relay_later w w'" and job: "active_job w = Some job"
    and unplanned: "\<not> rj_surplus_phase_planned job" and allowed: "surplus_allowed_after_topups job = Inr ()"
  shows "plan_base (rj_id job) (ry_known_unspent_e8s (rj_summary job)) (rj_fee_e8s job) w'"
  unfolding plan_base_def
proof (intro impI allI)
  fix job' assume o: "ordinary w'" and job': "active_job w' = Some job'" "rj_id job' = rj_id job"
  have "relay_job_inv relay (rcfg w) (yw_staged w) (yw_job_sent w) job"
    using inv job later_ordinary [OF later o] by (simp add: relay_inv_def)
  moreover have "ry_failed_transfers (rj_summary job) = 0"
    using allowed by (auto simp: surplus_allowed_after_topups_def split: if_splits)
  ultimately have "modest job \<longrightarrow> unat (ry_known_unspent_e8s (rj_summary job)) + pay_topups (rj_canisters job)
      \<le> unat (rj_balance_start_e8s job)" using unplanned by (simp add: relay_job_inv_def job_budget_def)
  then show "rj_fee_e8s job' = rj_fee_e8s job \<and> (modest job' \<longrightarrow>
      unat (ry_known_unspent_e8s (rj_summary job)) + pay_topups (rj_canisters job') \<le> unat (rj_balance_start_e8s job'))"
    using job_terms_D(2,3,6,8) [OF later_terms [OF inv later o job job']] by simp
qed

text \<open>Storing a plan, when the job is still there and unplanned.\<close>

lemma with_unplanned_ok:
  assumes inv: "relay_inv relay w"
    and f: "\<And>job. ordinary w \<Longrightarrow> active_job w = Some job \<Longrightarrow> rj_id job = job_id \<Longrightarrow> \<not> rj_surplus_phase_planned job \<Longrightarrow>
      relay_job_inv relay (rcfg w) (yw_staged w) (yw_job_sent w) job \<Longrightarrow>
      relay_job_inv relay (rcfg w) (yw_staged w) (yw_job_sent w) (f job) \<and>
      length (rj_surplus_transfers (f job)) \<le> length (rcf_surplus_recipients (rcfg w))"
    and shape: "\<And>job. job_terms (f job) = job_terms job \<and> rj_surplus_phase_planned (f job) \<and>
      rj_pending_transfer (f job) = rj_pending_transfer job \<and> rj_next_transfer_index (f job) = rj_next_transfer_index job \<and>
      rj_surplus_transfer_index (f job) = 0"
  shows "relay_inv relay (with_unplanned_job cx job_id f w)" "calm w (with_unplanned_job cx job_id f w)"
    "ordinary w \<Longrightarrow> main_lease_is_current (rx_lease cx) w \<Longrightarrow> active_job w = Some job \<Longrightarrow> rj_id job = job_id \<Longrightarrow>
      \<not> rj_surplus_phase_planned job \<Longrightarrow> job_left (with_unplanned_job cx job_id f w) < job_left w"
proof -
  let ?w = "with_unplanned_job cx job_id f w"
  have step: "relay_inv relay ?w \<and> calm w ?w \<and> (ordinary w \<longrightarrow> job_left ?w < job_left w)"
    if job: "active_job w = Some job" "rj_id job = job_id" "\<not> rj_surplus_phase_planned job" "main_lease_is_current (rx_lease cx) w"
    for job
  proof -
    have w': "?w = y_with_state_mut (\<lambda>st. st\<lparr>rs_active_job := Some (f job)\<rparr>) (w\<lparr>yw_staged := [] @ yw_staged w\<rparr>)"
      using job by (simp add: with_unplanned_job_def)
    have job_inv: "relay_job_inv relay (rcfg w) (yw_staged w) (yw_job_sent w) job" if "ordinary w"
      using inv that job(1) by (simp add: relay_inv_def)
    note keep = f [OF _ job(1-3) job_inv]
    have canisters: "length (rj_canisters (f job)) = length (rj_canisters job)"
      using shape by (intro job_terms_D(4)) blast
    have left: "job_turns (rcfg w) (Some (f job)) < job_turns (rcfg w) (Some job)" if "ordinary w"
      unfolding job_turns_Some using keep [OF that that] shape [of job] job(3) canisters by simp
    note ok = advance_job_ok [OF inv job(1) conjunct1 [OF shape] _ _ w']
    have "relay_inv relay ?w" "calm w ?w" "job_left ?w = job_turns (rcfg w) (Some (f job))"
      using ok(1,2,4) keep left by simp_all
    moreover have "job_left w = job_turns (rcfg w) (Some job)" by (simp add: job_left_def job(1))
    ultimately show ?thesis using left by simp
  qed
  show "ordinary w \<Longrightarrow> main_lease_is_current (rx_lease cx) w \<Longrightarrow> active_job w = Some job \<Longrightarrow> rj_id job = job_id \<Longrightarrow>
      \<not> rj_surplus_phase_planned job \<Longrightarrow> job_left ?w < job_left w" using step by blast
  have "relay_inv relay ?w \<and> calm w ?w"
  proof (cases "main_lease_is_current (rx_lease cx) w \<and> (\<exists>job. active_job w = Some job \<and> rj_id job = job_id \<and>
      \<not> rj_surplus_phase_planned job)")
    case True
    then show ?thesis using step by blast
  next
    case False
    then have "?w = w" by (auto simp: with_unplanned_job_def split: option.split)
    then show ?thesis using inv by simp
  qed
  then show "relay_inv relay ?w" "calm w ?w" by simp_all
qed

lemma without_surplus_shape: "job_terms (without_surplus reason job) = job_terms job \<and>
    rj_surplus_phase_planned (without_surplus reason job) \<and>
    rj_pending_transfer (without_surplus reason job) = rj_pending_transfer job \<and>
    rj_next_transfer_index (without_surplus reason job) = rj_next_transfer_index job \<and>
    rj_surplus_transfer_index (without_surplus reason job) = 0"
  by (simp add: without_surplus_def job_terms_def Let_def)

lemma with_surplus_shape: "job_terms (with_surplus xs memos before reason job) = job_terms job \<and>
    rj_surplus_phase_planned (with_surplus xs memos before reason job) \<and>
    rj_pending_transfer (with_surplus xs memos before reason job) = rj_pending_transfer job \<and>
    rj_next_transfer_index (with_surplus xs memos before reason job) = rj_next_transfer_index job \<and>
    rj_surplus_transfer_index (with_surplus xs memos before reason job) = 0"
  by (simp add: with_surplus_def job_terms_def Let_def)

lemma disable_ok:
  assumes inv: "relay_inv relay w"
  shows "relay_inv relay (disable_surplus cx job_id reason w)" "calm w (disable_surplus cx job_id reason w)"
    "ordinary w \<Longrightarrow> main_lease_is_current (rx_lease cx) w \<Longrightarrow> active_job w = Some job \<Longrightarrow> rj_id job = job_id \<Longrightarrow>
      \<not> rj_surplus_phase_planned job \<Longrightarrow> job_left (disable_surplus cx job_id reason w) < job_left w"
proof -
  have keep: "relay_job_inv relay (rcfg w) (yw_staged w) (yw_job_sent w) (without_surplus reason job) \<and>
      length (rj_surplus_transfers (without_surplus reason job)) \<le> length (rcf_surplus_recipients (rcfg w))"
    if "ordinary w" "\<not> rj_surplus_phase_planned job" "relay_job_inv relay (rcfg w) (yw_staged w) (yw_job_sent w) job" for job
    using without_surplus_inv [OF that(3,2)] that(1) by (simp add: ordinary_def small_config_def without_surplus_def Let_def)
  note ok = with_unplanned_ok [where f = "without_surplus reason", OF inv keep without_surplus_shape]
  show "relay_inv relay (disable_surplus cx job_id reason w)" "calm w (disable_surplus cx job_id reason w)"
    using ok(1,2) by (simp_all add: disable_surplus_def)
  show "ordinary w \<Longrightarrow> main_lease_is_current (rx_lease cx) w \<Longrightarrow> active_job w = Some job \<Longrightarrow> rj_id job = job_id \<Longrightarrow>
      \<not> rj_surplus_phase_planned job \<Longrightarrow> job_left (disable_surplus cx job_id reason w) < job_left w"
    using ok(3) by (simp add: disable_surplus_def)
qed

lemma with_surplus_ok:
  assumes inv: "relay_inv relay w" and base: "plan_base job_id known fee w"
    and plan: "build_surplus_plan resolved known fee estimate now = (surplus, before, reason)"
    and resolved: "list_all (\<lambda>r. surplus_configured (rcfg w) (rr_target r) (rr_account r) (rr_memo r)) resolved"
      "length resolved \<le> length (rcf_surplus_recipients (rcfg w))"
    and f: "f = with_surplus surplus (map rr_memo resolved) before reason"
  shows "relay_inv relay (with_unplanned_job cx job_id f w)" "calm w (with_unplanned_job cx job_id f w)"
    "ordinary w \<Longrightarrow> main_lease_is_current (rx_lease cx) w \<Longrightarrow> active_job w = Some job \<Longrightarrow> rj_id job = job_id \<Longrightarrow>
      \<not> rj_surplus_phase_planned job \<Longrightarrow> job_left (with_unplanned_job cx job_id f w) < job_left w"
proof -
  have keep: "relay_job_inv relay (rcfg w) (yw_staged w) (yw_job_sent w) (f job) \<and>
      length (rj_surplus_transfers (f job)) \<le> length (rcf_surplus_recipients (rcfg w))"
    if "ordinary w" "active_job w = Some job" "rj_id job = job_id" "\<not> rj_surplus_phase_planned job"
      "relay_job_inv relay (rcfg w) (yw_staged w) (yw_job_sent w) job" for job
  proof -
    have small: "length (rcf_surplus_recipients (rcfg w)) < 2 ^ 32" using that(1) by (simp add: ordinary_def small_config_def)
    then have "length resolved < 2 ^ 32" using resolved(2) by simp
    note facts = surplus_plan_facts [OF plan resolved(1) this]
    have known: "rj_fee_e8s job = fee" "modest job \<longrightarrow>
        unat known + pay_topups (rj_canisters job) \<le> unat (rj_balance_start_e8s job)"
      using base that(1-3) by (simp_all add: plan_base_def)
    have "relay_job_inv relay (rcfg w) (yw_staged w) (yw_job_sent w) (f job)"
    proof (rule planned_inv [OF that(5,4) _ small])
      show "length surplus \<le> length (rcf_surplus_recipients (rcfg w))" using facts(1) resolved(2) by simp
      show "surplus \<noteq> [] \<longrightarrow> list_all2 (surplus_entry_ok (rcfg w) (rj_fee_e8s job)) surplus (map rr_memo resolved)"
        using facts(3) known(1) by simp
      show "modest job \<longrightarrow> pay_surplus surplus + pay_topups (rj_canisters job) \<le> unat (rj_balance_start_e8s job)"
        using facts(2) known(2) by auto
    qed (simp add: f with_surplus_def Let_def)
    moreover have "length (rj_surplus_transfers (f job)) \<le> length (rcf_surplus_recipients (rcfg w))"
      using facts(1) resolved(2) by (simp add: f with_surplus_def Let_def)
    ultimately show ?thesis by (rule conjI)
  qed
  note ok = with_unplanned_ok [OF inv keep with_surplus_shape [of surplus "map rr_memo resolved" before reason, folded f]]
  show "relay_inv relay (with_unplanned_job cx job_id f w)" by (rule ok(1))
  show "calm w (with_unplanned_job cx job_id f w)" by (rule ok(2))
  show "ordinary w \<Longrightarrow> main_lease_is_current (rx_lease cx) w \<Longrightarrow> active_job w = Some job \<Longrightarrow> rj_id job = job_id \<Longrightarrow>
      \<not> rj_surplus_phase_planned job \<Longrightarrow> job_left (with_unplanned_job cx job_id f w) < job_left w"
    by (rule ok(3))
qed

text \<open>What holds between two turns: without fuel, the lease is still there or the world is out of the ordinary.\<close>

definition ready :: "nat \<Rightarrow> nat \<Rightarrow> relay_ctx \<Rightarrow> 'p relay_world \<Rightarrow> bool" where
  "ready n t cx w \<longleftrightarrow> within n t cx w \<and> (n = 0 \<longrightarrow> jmine t (rx_lease cx) w \<or> \<not> ordinary w)"

definition turned :: "principal \<Rightarrow> nat \<Rightarrow> relay_ctx \<Rightarrow> nat \<Rightarrow> 'p relay_world \<Rightarrow> bool" where
  "turned relay t cx n w \<longleftrightarrow> runs relay t cx w \<and> ready n t cx w"

lemma unplanned_turns: "\<not> rj_surplus_phase_planned job \<Longrightarrow> 4 \<le> job_turns cfg (Some job)"
  by (simp add: job_turns_Some)

text \<open>After planning: the plan was stored by the holder of the lease, or the lease is lost, or others settled the job further.\<close>

lemma planned_turn:
  assumes start: "runs relay t cx w0" "jmine t (rx_lease cx) w0" "within (Suc n) t cx w0"
      "active_job w0 = Some job0" "\<not> rj_surplus_phase_planned job0"
    and rely: "relay_rely t w0 w" and calm: "calm w w'"
    and stored: "\<And>job. ordinary w \<Longrightarrow> main_lease_is_current (rx_lease cx) w \<Longrightarrow> active_job w = Some job \<Longrightarrow>
      rj_id job = rj_id job0 \<Longrightarrow> \<not> rj_surplus_phase_planned job \<Longrightarrow> job_left w' < job_left w"
  shows "turned relay t cx n w'"
proof -
  have runs: "runs relay t cx w" using runs_rely start(1) rely by blast
  have later: "relay_later w0 w" using rely by (simp add: relay_rely_def)
  have after: "relay_later w w'" "job_still w w'" using calm by (simp_all add: calm_def)
  have four: "4 \<le> Suc n" if "ordinary w0"
    using start(2-4) that unplanned_turns [OF start(5), of "rcfg w0"] by (simp add: within_def job_left_def)
  have "job_left w' \<le> n" if mine: "jmine t (rx_lease cx) w'" and o: "ordinary w'"
  proof -
    have o': "ordinary w" "ordinary w0" using later_ordinary later after(1) o by blast+
    have mine': "jmine t (rx_lease cx) w" using mine calm_lease(1) [OF calm] by simp
    have held: "jheld t (rx_lease cx) w0" "jheld t (rx_lease cx) w" using start(1) runs by (simp_all add: runs_def)
    have still: "job_still w0 w" using jheld_rely(2) [OF held(1) rely mine'] by simp
    have start_left: "job_left w0 \<le> Suc n" using start(2,3) o'(2) by (simp add: within_def)
    show ?thesis
    proof (cases "job_left w < job_left w0")
      case True
      then show ?thesis using start_left job_still_left [OF after(2) o] by simp
    next
      case False
      then obtain job where job: "active_job w = Some job" "rj_id job = rj_id job0" "\<not> rj_surplus_phase_planned job"
        "job_left w = job_left w0"
        using still o'(1) start(4,5) by (auto simp: job_still_def)
      then have "job_left w' < job_left w"
        using stored o'(1) mine' jheld_current [OF held(2)] by simp
      then show ?thesis using job(4) start_left by simp
    qed
  qed
  moreover have "n \<noteq> 0" if "ordinary w'"
    using four later_ordinary [OF later later_ordinary [OF after(1) that]] by simp
  ultimately show ?thesis using calm_runs [OF calm runs] by (auto simp: turned_def ready_def within_def)
qed

lemma disable_surplus_rg:
  assumes start: "runs relay t cx w" "jmine t (rx_lease cx) w" "within (Suc n) t cx w"
      "active_job w = Some job" "\<not> rj_surplus_phase_planned job"
    and inv: "relay_inv relay v" and rely: "relay_rely t w v"
  shows "relay_rg relay t (\<lambda>w _. turned relay t cx n w) (Done (disable_surplus cx (rj_id job) reason v) ()) v"
proof (rule relay_done)
  note ok = disable_ok [where job_id = "rj_id job" and reason = reason and cx = cx, OF inv]
  show "runs relay t cx v" using runs_rely start(1) rely by blast
  show "calm v (disable_surplus cx (rj_id job) reason v)" "relay_inv relay (disable_surplus cx (rj_id job) reason v)"
    by (rule ok)+
  show "turned relay t cx n (disable_surplus cx (rj_id job) reason v)"
    by (rule planned_turn [OF start rely ok(2)]) (rule ok(3))
qed

lemma plan_surplus_rg:
  fixes w :: "'p relay_world"
  assumes inv: "relay_inv relay w" and start: "runs relay t cx w" "jmine t (rx_lease cx) w" "within (Suc n) t cx w"
    and job: "active_job w = Some job" "\<not> rj_surplus_phase_planned job"
  shows "relay_rg relay t (\<lambda>w _. turned relay t cx n w) (plan_surplus_phase cx w) w"
proof (cases "surplus_allowed_after_topups job")
  case (Inl reason)
  then show ?thesis using disable_surplus_rg [OF start job inv relay_rely_refl] job
    by (simp add: plan_surplus_phase_def del: rgt.simps)
next
  case (Inr u)
  let ?id = "rj_id job" and ?known = "ry_known_unspent_e8s (rj_summary job)" and ?fee = "rj_fee_e8s job"
  let ?Q = "\<lambda>result :: resolution_error + resolved_surplus_recipient list. \<forall>rs. result = Inr rs \<longrightarrow> length rs \<le> length (rcf_surplus_recipients (rcfg w)) \<and>
      list_all (\<lambda>r. surplus_configured (rcfg w) (rr_target r) (rr_account r) (rr_memo r)) rs"
  let ?ask = "resolve_surplus_recipients cx (rcfg w)"
  have ask: "asks (\<lambda>q. \<exists>g m. q = RqListNeurons g m) ?Q ?ask"
    using resolved_recipients [of "rcfg w" "[]" "rcf_surplus_recipients (rcfg w)" cx]
    by (simp add: resolve_surplus_recipients_def)
  have "relay_rg relay t (\<lambda>w _. turned relay t cx n w) (pbind (perform id id ?ask w)
      (plan_surplus_resolved cx ?id ?known ?fee)) w"
  proof (rule relay_rg_bind)
    from ask show "relay_rg relay t (\<lambda>v result. relay_rely t w v \<and> ?Q result) (perform id id ?ask w) w"
    proof (rule perform_stable_rgt [where P = "relay_rely t w" and I = "relay_inv relay" and s = w])
      show "relay_inv relay w" "relay_rely t w w" by (rule inv relay_rely_refl)+
      fix v v' :: "'p relay_world"
      assume "relay_rely t w v"
      then show "relay_rely t v v' \<Longrightarrow> relay_rely t w v'" by (rule relay_rely_trans)
      show "relay_guar t v v" using runs_guar [OF runs_rely [OF start(1) \<open>relay_rely t w v\<close>] calm_refl] .
    qed auto
  next
    fix v :: "'p relay_world" and result :: "resolution_error + resolved_surplus_recipient list"
    assume v: "relay_inv relay v" "relay_rely t w v \<and> ?Q result"
    have later: "relay_later w v" using v(2) by (simp add: relay_rely_def)
    then have cfg: "rcfg v = rcfg w" by (simp add: relay_later_def)
    show "relay_rg relay t (\<lambda>w _. turned relay t cx n w) (plan_surplus_resolved cx ?id ?known ?fee v result) v"
    proof (cases result)
      case (Inl e)
      then show ?thesis using disable_surplus_rg [OF start job v(1)] v(2)
        by (simp add: plan_surplus_resolved_def del: rgt.simps)
    next
      case resolved: (Inr rs)
      obtain surplus before reason where plan: "build_surplus_plan rs ?known ?fee (rs_conversion_estimate (yw_st v)) (rx_now cx)
          = (surplus, before, reason)" by (metis prod_cases3)
      have base: "plan_base ?id ?known ?fee v" using Inr by (intro plan_base_later [OF inv later job]) simp
      note ok = with_surplus_ok [where cx = cx, OF v(1) base plan _ _ refl]
      have facts: "list_all (\<lambda>r. surplus_configured (rcfg v) (rr_target r) (rr_account r) (rr_memo r)) rs"
        "length rs \<le> length (rcf_surplus_recipients (rcfg v))" using v(2) resolved by (simp_all add: cfg)
      let ?v = "with_unplanned_job cx ?id (with_surplus surplus (map rr_memo rs) before reason) v"
      have "relay_rg relay t (\<lambda>w _. turned relay t cx n w) (Done ?v ()) v"
      proof (rule relay_done)
        show "runs relay t cx v" using runs_rely start(1) v(2) by blast
        show "calm v ?v" "relay_inv relay ?v" using ok(1,2) [OF facts] by blast+
        show "turned relay t cx n ?v"
          by (rule planned_turn [OF start job conjunct1 [OF v(2)] ok(2) [OF facts]]) (rule ok(3) [OF facts])
      qed
      then show ?thesis by (simp add: plan_surplus_resolved_def resolved plan del: rgt.simps)
    qed
  qed
  then show ?thesis using job Inr by (simp add: plan_surplus_phase_def del: rgt.simps)
qed

section \<open>The loop\<close>

definition looped :: "principal \<Rightarrow> nat \<Rightarrow> relay_ctx \<Rightarrow> 'p relay_world \<Rightarrow> bool option \<Rightarrow> bool" where
  "looped relay t cx w result \<longleftrightarrow> runs relay t cx w \<and> (ordinary w \<longrightarrow> result \<noteq> None)"

lemma looped_done:
  assumes "runs relay t cx w0" "calm w0 w" "relay_inv relay w"
  shows "relay_rg relay t (looped relay t cx) (Done w (Some res)) w0"
  using assms calm_runs [OF assms(2,1)] by (intro relay_done) (simp_all add: looped_def)

text \<open>The next turn after a step that left fewer turns.\<close>

lemma next_turn:
  assumes again: "\<And>v. relay_inv relay v \<Longrightarrow> turned relay t cx n v \<Longrightarrow> relay_rg relay t Q (again v) v"
    and start: "runs relay t cx w" "jmine t (rx_lease cx) w" "within (Suc n) t cx w"
    and step: "relay_inv relay w1" "calm w w1" "ordinary w \<Longrightarrow> job_left w1 < job_left w"
  shows "relay_rg relay t Q (again w1) w"
proof -
  have mine: "jmine t (rx_lease cx) w1" using start(2) calm_lease(1) [OF step(2)] by simp
  have "job_left w1 \<le> n" if "ordinary w1"
  proof -
    have "ordinary w" using later_ordinary that step(2) by (auto simp: calm_def)
    then show ?thesis using start(2,3) step(3) by (fastforce simp: within_def)
  qed
  then have "turned relay t cx n w1" using calm_runs [OF step(2) start(1)] mine by (simp add: turned_def ready_def within_def)
  from again [OF step(1) this] runs_guar [OF start(1) step(2)] show ?thesis by (rule relay_rg_start)
qed

lemma drive_planned_rg:
  assumes again: "\<And>v started. relay_inv relay v \<Longrightarrow> turned relay t cx n v \<Longrightarrow> relay_rg relay t (looped relay t cx) (again started v) v"
    and inv: "relay_inv relay w" and start: "runs relay t cx w" "jmine t (rx_lease cx) w" "within (Suc n) t cx w"
    and job: "active_job w = Some job" "rj_pending_transfer job = None" "\<not> topup_phase_done_and_surplus_unplanned (Some job)"
  shows "relay_rg relay t (looped relay t cx) (drive_planned cx limit started again job w) w"
proof -
  obtain step started1 job1 s where plan: "plan_next_transfer limit started (yw_now w) job = (step, started1, job1, s)"
    by (metis prod_cases4)
  let ?w1 = "stage_job job1 s w"
  note ok = stage_job_ok [OF inv job(1,2) plan]
  note go_on = next_turn [where again = "again started1", OF again start ok(1,2)]
  have current: "main_lease_is_current (rx_lease cx) ?w1"
    using start(1,2) jheld_current calm_lease(4) [OF ok(2)] by (auto simp: runs_def)
  have complete: "relay_rg relay t (looped relay t cx)
      (Done (y_with_state_mut (complete_job (pe_less (rx_env cx)) (rx_now cx)) ?w1) (Some True)) w"
  proof (rule looped_done [OF start(1)])
    have "settled relay ?w1 (y_with_state_mut (complete_job (pe_less (rx_env cx)) (rx_now cx)) ?w1)"
      using ok(1,3) by (intro complete_job_ok) simp_all
    then show "calm w (y_with_state_mut (complete_job (pe_less (rx_env cx)) (rx_now cx)) ?w1)"
      "relay_inv relay (y_with_state_mut (complete_job (pe_less (rx_env cx)) (rx_now cx)) ?w1)"
      using ok(2) calm_trans by (auto simp: settled_def)
  qed
  have paused: "relay_rg relay t (looped relay t cx) (Done ?w1 (Some True)) w"
    by (rule looped_done [OF start(1) ok(2,1)])
  show ?thesis
  proof (cases step)
    case PlanPlanned
    then have "relay_rg relay t (looped relay t cx) (again started1 ?w1) w"
      using ok(4) by (intro go_on) simp_all
    then show ?thesis using plan PlanPlanned by (simp add: drive_planned_def Let_def del: rgt.simps)
  next
    case PlanPaused
    then show ?thesis using plan paused by (simp add: drive_planned_def Let_def del: rgt.simps)
  next
    case PlanDone
    have "relay_rg relay t (looped relay t cx) (again started1 ?w1) w"
      if "topup_phase_done_and_surplus_unplanned (Some job1)"
      using ok(5) [OF _ that job(3)] by (intro go_on) simp_all
    then show ?thesis using plan PlanDone complete current ok(3)
      by (simp add: drive_planned_def Let_def del: rgt.simps)
  qed
qed

lemma drive_turn_rg:
  assumes again: "\<And>v started. relay_inv relay v \<Longrightarrow> turned relay t cx n v \<Longrightarrow> relay_rg relay t (looped relay t cx) (again started v) v"
    and inv: "relay_inv relay w" and runs: "runs relay t cx w" "within (Suc n) t cx w"
  shows "relay_rg relay t (looped relay t cx) (drive_turn cx limit started again w) w"
proof (cases "main_lease_is_current (rx_lease cx) w \<and> active_job w \<noteq> None")
  case False
  then show ?thesis using looped_done [OF runs(1) calm_refl inv]
    by (auto simp: drive_turn_def simp del: rgt.simps split: option.split)
next
  case True
  then obtain job where job: "active_job w = Some job" by auto
  have mine: "jmine t (rx_lease cx) w" using True runs(1) jheld_current by (auto simp: runs_def)
  show ?thesis
  proof (cases "rj_pending_transfer job")
    case (Some staged)
    have "relay_rg relay t (looped relay t cx) (pbind (drive_pending_transfer cx w) (\<lambda>w ok.
        if \<not> ok then Done w (Some False) else if \<not> main_lease_is_current (rx_lease cx) w then Done w (Some True)
        else again started w)) w"
    proof (rule relay_rg_bind [OF job_pending_rg [OF inv runs job Some]])
      fix v :: "'a relay_world" and ok
      assume v: "relay_inv relay v" "driven relay t cx n v ok"
      then have held: "runs relay t cx v" by (simp add: driven_def)
      have "turned relay t cx n v" if "ok" "main_lease_is_current (rx_lease cx) v"
        using v(2) that jheld_current by (auto simp: driven_def turned_def ready_def runs_def)
      then show "relay_rg relay t (looped relay t cx) (if \<not> ok then Done v (Some False)
          else if \<not> main_lease_is_current (rx_lease cx) v then Done v (Some True) else again started v) v"
        using looped_done [OF held calm_refl v(1)] again [OF v(1)] by (simp del: rgt.simps)
    qed
    then show ?thesis using True job Some by (simp add: drive_turn_def del: rgt.simps)
  next
    case None
    show ?thesis
    proof (cases "topup_phase_done_and_surplus_unplanned (Some job)")
      case unplanned: True
      then have "\<not> rj_surplus_phase_planned job" by (simp add: topup_phase_done_and_surplus_unplanned_def)
      from plan_surplus_rg [OF inv runs(1) mine runs(2) job this]
      have "relay_rg relay t (looped relay t cx) (pbind (plan_surplus_phase cx w) (\<lambda>w _. again started w)) w"
        by (rule relay_rg_bind) (rule again)
      then show ?thesis using True job None unplanned by (simp add: drive_turn_def del: rgt.simps)
    next
      case False
      then show ?thesis using drive_planned_rg [OF again inv runs(1) mine runs(2) job None False] True job None
        by (simp add: drive_turn_def del: rgt.simps)
    qed
  qed
qed

lemma drive_relay_rg:
  assumes "relay_inv relay w" "turned relay t cx n w"
  shows "relay_rg relay t (looped relay t cx) (drive_relay_job n cx limit started w) w"
  using assms
proof (induction n arbitrary: w started)
  case 0
  then have "\<not> ordinary w" using job_left_pos [of w] by (auto simp: turned_def ready_def within_def)
  then have "relay_rg relay t (looped relay t cx) (Done w None) w"
    using 0 by (intro relay_done [where cx = cx]) (simp_all add: looped_def turned_def)
  then show ?case by (simp only: drive_relay_job.simps)
next
  case (Suc n)
  have "relay_rg relay t (looped relay t cx)
      (drive_turn cx limit started (drive_relay_job n cx limit) w) w"
  proof (rule drive_turn_rg [OF Suc.IH Suc.prems(1)])
    show "runs relay t cx w" "within (Suc n) t cx w" using Suc.prems(2) by (auto simp: turned_def ready_def)
  qed
  then show ?case by (simp only: drive_relay_job.simps)
qed

text \<open>The turns counted at the start are enough.\<close>

lemma drive_job_rg:
  assumes "relay_inv relay w" "runs relay t cx w"
  shows "relay_rg relay t (looped relay t cx)
    (drive_relay_job (job_turns (rcfg w) (active_job w)) cx limit 0 w) w"
proof (rule drive_relay_rg [OF assms(1)])
  have "1 \<le> job_turns (rcfg w) (active_job w)" using job_left_pos [of w] by (simp add: job_left_def)
  then show "turned relay t cx (job_turns (rcfg w) (active_job w)) w"
    using assms(2) by (simp add: turned_def ready_def within_def job_left_def)
qed

lemma drive_active_rg:
  assumes "relay_inv relay w" "runs relay t cx w"
  shows "relay_rg relay t (\<lambda>w _. runs relay t cx w) (drive_active_relay_job cx w) w"
  unfolding drive_active_relay_job_def
proof (rule relay_rg_bind [OF drive_job_rg [OF assms]])
  fix v :: "'a relay_world" and res
  assume "relay_inv relay v" "looped relay t cx v res"
  then show "relay_rg relay t (\<lambda>w _. runs relay t cx w) (Done v (res = Some True)) v"
    by (intro relay_done [where cx = cx]) (simp_all add: looped_def)
qed

end
