(* ===== verification/RelayCommitment.thy ===== *)
theory RelayCommitment
  imports RelayJobLoop
begin

text \<open>The judgements of the commitment of subaccount 1, and of starting the Relay's daily job.\<close>

section \<open>The commitment\<close>

abbreviation keeps_running :: "principal \<Rightarrow> nat \<Rightarrow> relay_ctx \<Rightarrow> 'p relay_world \<Rightarrow> 'a \<Rightarrow> bool" where
  "keeps_running relay t cx w a \<equiv> runs relay t cx w"

lemma running_done:
  assumes "runs relay t cx w0" "calm w0 w" "relay_inv relay w"
  shows "relay_rg relay t (keeps_running relay t cx) (Done w a) w0"
  using assms calm_runs [OF assms(2,1)] by (intro relay_done [where cx = cx]) simp_all

lemma running_untouched:
  assumes "runs relay t cx w" "relay_inv relay w" "untouched w w'"
  shows "relay_rg relay t (keeps_running relay t cx) (Done w' a) w"
  using running_done [OF assms(1) untouched_ok(2) [OF assms(3)]] untouched_ok(1) [OF assms(3)] assms(2) by simp

lemma set_commitment_ok:
  assumes inv: "relay_inv relay w" and c: "\<And>x. c = Some x \<Longrightarrow> commitment_ok (rcfg w) x"
    and w': "w' = y_with_state_mut (\<lambda>st. st\<lparr>rs_active_faucet_commitment_transfer := c\<rparr>) w"
  shows "relay_inv relay w'" "calm w w'" "active_commitment w' = c"
proof -
  have facts: "active_job w' = active_job w" "rcfg w' = rcfg w" "ordinary w' = ordinary w" "yw_staged w' = yw_staged w"
    "yw_job_sent w' = yw_job_sent w" "active_commitment w' = c" "yw_main_owner w' = yw_main_owner w"
    "rs_main_lock_state_ts (yw_st w') = rs_main_lock_state_ts (yw_st w)" "yw_now w' = yw_now w" "yw_ticket w' = yw_ticket w"
    "rs_next_job_id (yw_st w') = rs_next_job_id (yw_st w)"
    by (simp_all add: w' y_with_state_mut_def ordinary_def)
  show "active_commitment w' = c" by (rule facts)
  show "relay_inv relay w'" using inv c by (simp add: relay_inv_def facts)
  show "calm w w'" by (simp add: calm_def relay_later_def job_still_def job_left_def facts)
qed

lemma commitment_ended_rg:
  assumes "relay_inv relay w" "runs relay t cx w"
  shows "relay_rg relay t (keeps_running relay t cx) (Done (mark_faucet_commitment_ended c w) True) w"
proof (cases "faucet_commitment_matches c w")
  case True
  show ?thesis using True running_done [OF assms(2) set_commitment_ok(2,1) [OF assms(1) _ refl, where c = None]]
    by (simp add: mark_faucet_commitment_ended_def del: rgt.simps)
next
  case False
  then show ?thesis using running_done [OF assms(2) calm_refl assms(1), where a = True]
    by (simp add: mark_faucet_commitment_ended_def del: rgt.simps)
qed

lemma settle_commitment_rg:
  assumes "relay_inv relay w" "runs relay t cx w"
  shows "relay_rg relay t (keeps_running relay t cx) (settle_commitment c w) w"
  using commitment_ended_rg [OF assms] running_done [OF assms(2) calm_refl assms(1), where a = True]
  by (simp add: settle_commitment_def del: rgt.simps split: relay_transfer_kind.split)

lemma commitment_accepted_rg:
  assumes inv: "relay_inv relay w" and runs: "runs relay t cx w"
  shows "relay_rg relay t (keeps_running relay t cx) (commitment_accepted staged block w) w"
proof (cases "faucet_commitment_matches staged w")
  case False
  then show ?thesis using running_done [OF runs calm_refl inv, where a = False] by (simp add: commitment_accepted_def del: rgt.simps)
next
  case True
  let ?c = "staged\<lparr>fx_transfer := (fx_transfer staged)\<lparr>rt_phase := RTransferAccepted block\<rparr>\<rparr>"
  let ?w = "y_with_state_mut (\<lambda>st. st\<lparr>rs_active_faucet_commitment_transfer := Some ?c\<rparr>) w"
  have "commitment_ok (rcfg w) ?c"
    using inv True by (simp add: relay_inv_def faucet_commitment_matches_def commitment_ok_def)
  then have step: "relay_inv relay ?w" "calm w ?w" using set_commitment_ok [OF inv _ refl, where c = "Some ?c"] by simp_all
  have "relay_rg relay t (keeps_running relay t cx) (settle_commitment ?c ?w) w"
    using settle_commitment_rg [OF step(1) calm_runs [OF step(2) runs]] runs_guar [OF runs step(2)] by (rule relay_rg_start)
  then show ?thesis using True
    by (simp add: commitment_accepted_def mark_faucet_commitment_ledger_accepted_def Let_def del: rgt.simps)
qed

lemma bad_fee_commitment_rg:
  assumes inv: "relay_inv relay w" and runs: "runs relay t cx w"
  shows "relay_rg relay t (keeps_running relay t cx)
    (Done (mark_faucet_commitment_ended staged (record_bad_fee fee w)) True) w"
proof -
  have frame: "untouched w (record_bad_fee fee w)" by simp
  note ok = untouched_ok [OF frame]
  have "relay_rg relay t (keeps_running relay t cx)
      (Done (mark_faucet_commitment_ended staged (record_bad_fee fee w)) True) (record_bad_fee fee w)"
    using inv ok(1) calm_runs [OF ok(2) runs] by (intro commitment_ended_rg) simp_all
  then show ?thesis using runs_guar [OF runs ok(2)] by (rule relay_rg_start)
qed

lemma commitment_second_rg:
  assumes inv: "relay_inv relay w" and runs: "runs relay t cx w"
  shows "relay_rg relay t (keeps_running relay t cx) (commitment_second staged r w) w"
  using commitment_accepted_rg [OF inv runs] commitment_ended_rg [OF inv runs] bad_fee_commitment_rg [OF inv runs]
    running_done [OF runs calm_refl inv, where a = False]
  by (simp add: commitment_second_def del: rgt.simps split: transfer_attempt_outcome.split)

lemma commitment_request:
  assumes inv: "relay_inv relay w" and runs: "runs relay t cx w" and match: "faucet_commitment_matches staged w"
    and arg: "rt_phase (fx_transfer staged) = RAwaitingTransfer"
      "arg = pending_transfer_arg cmc (fx_fee_e8s staged) (fx_transfer staged)"
  shows "relay_req_ok relay w (RqTransfer (rx_ledger cx) arg)"
proof -
  have "active_commitment w = Some staged" using match by (simp add: faucet_commitment_matches_def)
  moreover have "ta_from_subaccount arg = Some relay_subaccount_one"
    using inv calculation arg(2) by (auto simp: relay_inv_def commitment_ok_def pending_transfer_arg_def from_subaccount_for_pending_def)
  ultimately show ?thesis using runs arg by (auto simp: runs_def ctx_ok_def)
qed

lemma commitment_first_rg:
  assumes inv: "relay_inv relay w" and runs: "runs relay t cx w"
    and arg: "rt_phase (fx_transfer staged) = RAwaitingTransfer"
      "arg = pending_transfer_arg cmc (fx_fee_e8s staged) (fx_transfer staged)"
  shows "relay_rg relay t (keeps_running relay t cx) (commitment_first cx staged arg r w) w"
proof -
  have "relay_rg relay t (keeps_running relay t cx) (Await w (RqTransfer (rx_ledger cx) arg) (commitment_second staged)) w"
    if "faucet_commitment_matches staged w"
    by (rule relay_await [OF runs calm_refl inv commitment_request [OF inv runs that arg]]) (rule commitment_second_rg)
  then show ?thesis
    using commitment_accepted_rg [OF inv runs] commitment_ended_rg [OF inv runs] bad_fee_commitment_rg [OF inv runs]
      running_done [OF runs calm_refl inv, where a = False]
    by (simp add: commitment_first_def del: rgt.simps split: transfer_attempt_outcome.split)
qed

lemma drive_commitment_rg:
  assumes inv: "relay_inv relay w" and runs: "runs relay t cx w"
  shows "relay_rg relay t (keeps_running relay t cx) (drive_pending_faucet_commitment_transfer cx w) w"
proof (cases "active_commitment w")
  case None
  then show ?thesis using running_done [OF runs calm_refl inv, where a = True]
    by (simp add: drive_pending_faucet_commitment_transfer_def del: rgt.simps)
next
  case (Some staged)
  then have match: "faucet_commitment_matches staged w" by (simp add: faucet_commitment_matches_def)
  let ?arg = "pending_transfer_arg (principal_management (rx_cx cx)) (fx_fee_e8s staged) (fx_transfer staged)"
  have "relay_rg relay t (keeps_running relay t cx) (Await w (RqTransfer (rx_ledger cx) ?arg) (commitment_first cx staged ?arg)) w"
    if "rt_phase (fx_transfer staged) = RAwaitingTransfer"
    by (rule relay_await [OF runs calm_refl inv commitment_request [OF inv runs match that refl]])
      (rule commitment_first_rg [OF _ _ that refl])
  then show ?thesis using Some settle_commitment_rg [OF inv runs] commitment_ended_rg [OF inv runs]
    by (simp add: drive_pending_faucet_commitment_transfer_def Let_def del: rgt.simps split: relay_transfer_phase.split)
qed

section \<open>Planning the commitment\<close>

lemma commitment_plan_facts:
  assumes "build_faucet_commitment_plan cx relay governance sub balance fee = Inr plan"
  shows "acc_owner (fp_destination_account plan) = governance"
    "unat (fp_balance_start_e8s plan) = unat (fp_amount_e8s plan) + unat (fp_fee_e8s plan)"
    "min_raw_icp_recipient_amount_e8s \<le> fp_amount_e8s plan"
proof -
  have plan: "plan = \<lparr>fp_source_account = relay_subaccount_one_account relay,
      fp_destination_account = \<lparr>acc_owner = governance, acc_subaccount = Some sub\<rparr>,
      fp_balance_start_e8s = balance, fp_fee_e8s = fee, fp_amount_e8s = balance - fee, fp_memo = fp_memo plan\<rparr>"
    "fee < balance" "min_raw_icp_recipient_amount_e8s \<le> balance - fee"
    using assms by (auto simp: build_faucet_commitment_plan_def Let_def not_le not_less split: if_splits option.splits)
  have fields: "fp_destination_account plan = \<lparr>acc_owner = governance, acc_subaccount = Some sub\<rparr>"
    "fp_balance_start_e8s plan = balance" "fp_fee_e8s plan = fee" "fp_amount_e8s plan = balance - fee"
    by (subst plan(1), simp)+
  have "unat (balance - fee) = unat balance - unat fee" using plan(2) by (simp add: unat_sub)
  then show "acc_owner (fp_destination_account plan) = governance"
    "unat (fp_balance_start_e8s plan) = unat (fp_amount_e8s plan) + unat (fp_fee_e8s plan)"
    "min_raw_icp_recipient_amount_e8s \<le> fp_amount_e8s plan"
    using plan(2,3) by (simp_all add: fields word_less_nat_alt)
qed

lemma install_commitment_rg:
  assumes inv: "relay_inv relay w" and runs: "runs relay t cx w" and cfg: "rcfg w = cfg"
    and plan: "build_faucet_commitment_plan (rx_cx cx) relay (rcf_governance_canister_id cfg) sub balance fee = Inr plan"
  shows "relay_rg relay t (keeps_running relay t cx) (Done (install_commitment cx expected plan w) ()) w"
proof (cases "\<not> main_lease_is_current (rx_lease cx) w \<or> active_commitment w \<noteq> None \<or> rs_next_job_id (yw_st w) \<noteq> expected")
  case True
  then have "install_commitment cx expected plan w = w" by (auto simp: install_commitment_def)
  then show ?thesis using running_done [OF runs calm_refl inv, where a = "()"] by (simp del: rgt.simps)
next
  case False
  let ?c = "\<lparr>fx_transfer = \<lparr>rt_kind = FaucetCommitment faucet_neuron_id (fp_destination_account plan)
             relay_subaccount_one (fp_memo plan),
           rt_gross_share_e8s = fp_balance_start_e8s plan, rt_amount_e8s = fp_amount_e8s plan,
           rt_created_at_time_nanos = rx_now cx, rt_phase = RAwaitingTransfer\<rparr>,
         fx_fee_e8s = fp_fee_e8s plan, fx_balance_start_e8s = fp_balance_start_e8s plan\<rparr>"
  have "commitment_ok (rcfg w) ?c" using commitment_plan_facts [OF plan] by (simp add: commitment_ok_def cfg)
  then have "relay_inv relay (install_commitment cx expected plan w) \<and> calm w (install_commitment cx expected plan w)"
    using set_commitment_ok [OF inv _ refl, where c = "Some ?c"] False by (simp add: install_commitment_def)
  then show ?thesis using running_done [OF runs, where a = "()"] by (simp del: rgt.simps)
qed

lemma rely_config: "relay_rely t w w' \<Longrightarrow> rcfg w' = rcfg w"
  by (simp add: relay_rely_def relay_later_def)

lemma plan_commitment_neuron_rg:
  assumes "relay_inv relay w" "runs relay t cx w" "rcfg w = cfg"
  shows "relay_rg relay t (keeps_running relay t cx) (plan_commitment_with_neuron cx cfg expected fee balance r w) w"
proof -
  have "rx_relay_id cx = relay" using assms(2) by (simp add: runs_def ctx_ok_def)
  then show ?thesis using running_done [OF assms(2) calm_refl assms(1), where a = "()"] install_commitment_rg [OF assms]
    by (simp add: plan_commitment_with_neuron_def del: rgt.simps split: sum.split)
qed

lemma plan_commitment_balance_rg:
  assumes "relay_inv relay w" "runs relay t cx w" "rcfg w = cfg"
  shows "relay_rg relay t (keeps_running relay t cx) (plan_commitment_with_balance cx cfg expected fee r w) w"
proof -
  have "relay_rg relay t (keeps_running relay t cx) (Await w (RqListNeurons (rx_governance cx) faucet_neuron_id)
      (plan_commitment_with_neuron cx cfg expected fee balance)) w" for balance
    using assms(3) rely_config
    by (intro relay_await [OF assms(2) calm_refl assms(1)] plan_commitment_neuron_rg) auto
  then show ?thesis using running_done [OF assms(2) calm_refl assms(1), where a = "()"]
    by (simp add: plan_commitment_with_balance_def del: rgt.simps split: sum.split)
qed

text \<open>Reading the fee touches only what is remembered of it.\<close>

lemma untouched_start:
  assumes "relay_rg relay t Q p v" "untouched w v" "runs relay t cx w"
  shows "relay_rg relay t Q p w"
  using assms(1) runs_guar [OF assms(3) untouched_ok(2) [OF assms(2)]] by (rule relay_rg_start)

lemma untouched_runs: "untouched w v \<Longrightarrow> runs relay t cx w \<Longrightarrow> runs relay t cx v"
  using calm_runs untouched_ok(2) by blast

lemma plan_commitment_fee_rg:
  assumes "relay_inv relay w" "runs relay t cx w" "rcfg w = cfg"
  shows "relay_rg relay t (keeps_running relay t cx) (plan_commitment_with_fee cx cfg expected r w) w"
proof -
  obtain fee v where fee: "resolve_icp_ledger_fee_e8s r w = (fee, v)" by fastforce
  note frame = frame_resolve [OF fee]
  have v: "relay_inv relay v" "runs relay t cx v" "rcfg v = cfg"
    using assms untouched_ok(1) [OF frame] untouched_runs [OF frame] frame by (simp_all add: untouched_def)
  have "relay_rg relay t (keeps_running relay t cx) (Await v (RqBalance (rx_ledger cx)
      (relay_subaccount_one_account (rx_relay_id cx))) (plan_commitment_with_balance cx cfg expected fee)) v"
    using v(3) rely_config by (intro relay_await [OF v(2) calm_refl v(1)] plan_commitment_balance_rg) auto
  from untouched_start [OF this frame assms(2)] show ?thesis
    by (simp add: plan_commitment_with_fee_def fee del: rgt.simps)
qed

lemma plan_commitment_rg:
  assumes "relay_inv relay w" "runs relay t cx w"
  shows "relay_rg relay t (keeps_running relay t cx) (plan_faucet_commitment cx w) w"
proof -
  have "relay_rg relay t (keeps_running relay t cx) (Await w (RqFee (rx_ledger cx))
      (plan_commitment_with_fee cx (rcfg w) (rs_next_job_id (yw_st w)))) w"
    using rely_config by (intro relay_await [OF assms(2) calm_refl assms(1)] plan_commitment_fee_rg) auto
  then show ?thesis using running_done [OF assms(2) calm_refl assms(1), where a = "()"]
    by (simp add: plan_faucet_commitment_def del: rgt.simps)
qed

lemma resume_commitment_rg:
  assumes inv: "relay_inv relay w" and runs: "runs relay t cx w"
  shows "relay_rg relay t (keeps_running relay t cx) (resume_or_start_faucet_commitment cx w) w"
  unfolding resume_or_start_faucet_commitment_def
proof (rule relay_rg_bind [where Q' = "keeps_running relay t cx"])
  show "relay_rg relay t (keeps_running relay t cx)
      (if active_commitment w = None then plan_faucet_commitment cx w else Done w ()) w"
    using plan_commitment_rg [OF inv runs] running_done [OF runs calm_refl inv, where a = "()"] by (simp del: rgt.simps)
next
  fix v :: "'a relay_world" and u :: unit
  assume v: "relay_inv relay v" "runs relay t cx v"
  show "relay_rg relay t (keeps_running relay t cx) (if \<not> main_lease_is_current (rx_lease cx) v then Done v True
      else drive_pending_faucet_commitment_transfer cx v) v"
    using drive_commitment_rg [OF v] running_done [OF v(2) calm_refl v(1), where a = True] by (simp del: rgt.simps)
qed

end
