(* ===== verification/RelayStart.thy ===== *)
theory RelayStart
  imports RelayCommitment
begin

text \<open>The judgements of starting the Relay's daily job: probing the targets, reading the balance, and installing the job.\<close>

section \<open>What a probe batch observes\<close>

lemma asks_any [simp]: "asks (\<lambda>_. True) (\<lambda>_. True) p"
  by (induction p) simp_all

lemma length_map_put: "length (map_put lt k v m) \<le> Suc (length m)"
  by (induction m) auto

lemma keys_map_put: "fst ` set (map_put lt k v m) = insert k (fst ` set m)"
  by (induction lt k v m rule: map_put.induct) (simp_all add: insert_commute)

definition observes :: "principal set \<Rightarrow> nat \<Rightarrow> relay_probe_batch \<Rightarrow> bool" where
  "observes ids n batch \<longleftrightarrow> fst ` set (rb_snapshots batch) \<subseteq> ids \<and> length (rb_snapshots batch) \<le> n"

lemma note_probe_observes:
  "observes ids n batch \<Longrightarrow> c \<in> ids \<Longrightarrow> observes ids (Suc n) (note_probe lt now c result batch)"
  using length_map_put [of lt c _ "rb_snapshots batch"]
  by (auto simp: observes_def note_probe_def keys_map_put intro: order_trans split: sum.split)

lemma probe_batch_observes:
  assumes "observes ids n batch" "set targets \<subseteq> ids"
  shows "asks (\<lambda>_. True) (observes ids (n + length targets)) (probe_cycles_batch env client policy routes now targets batch)"
  using assms
proof (induction targets arbitrary: n batch)
  case (Cons c targets)
  have step: "asks (\<lambda>_. True) (observes ids (n + length (c # targets)))
      (probe_cycles_batch env client policy routes now targets (note_probe (pe_less env) now c result batch))" for result
    using Cons.IH [of "Suc n" "note_probe (pe_less env) now c result batch"] note_probe_observes [OF Cons.prems(1)] Cons.prems(2)
    by simp
  show ?case unfolding probe_cycles_batch.simps by (rule asks_bind [OF asks_any]) (rule step)
qed simp

lemma set_insert_facts: "set (set_insert lt x xs) = insert x (set xs)" "length (set_insert lt x xs) \<le> Suc (length xs)"
  by (induction xs) auto

lemma effective_managed_facts:
  "set (effective_managed_canisters lt configured self) = insert self (set configured)"
  "length (effective_managed_canisters lt configured self) \<le> Suc (length configured)"
proof -
  have set: "set (fold (set_insert lt) xs ys) = set xs \<union> set ys" for xs ys
    by (induction xs arbitrary: ys) (auto simp: set_insert_facts(1))
  have length: "length (fold (set_insert lt) xs ys) \<le> length xs + length ys" for xs ys
  proof (induction xs arbitrary: ys)
    case (Cons x xs)
    show ?case using Cons [of "set_insert lt x ys"] set_insert_facts(2) [of lt x ys] by simp
  qed simp
  show "set (effective_managed_canisters lt configured self) = insert self (set configured)"
    using set [of configured "[]"] by (simp add: effective_managed_canisters_def set_insert_facts(1))
  show "length (effective_managed_canisters lt configured self) \<le> Suc (length configured)"
    using length [of configured "[]"] set_insert_facts(2) [of lt self "fold (set_insert lt) configured []"]
    by (simp add: effective_managed_canisters_def)
qed

section \<open>Installing the job\<close>

definition observed_ok :: "principal \<Rightarrow> rconfig \<Rightarrow> relay_observation \<Rightarrow> bool" where
  "observed_ok relay cfg ob \<longleftrightarrow> list_all (\<lambda>e. managed_by relay cfg (fst e)) (ro_current_cycles ob) \<and>
     (small_config cfg \<longrightarrow> length (ro_current_cycles ob) < 2 ^ 32)"

lemma install_job_rg:
  assumes inv: "relay_inv relay w" and runs: "runs relay t cx w"
    and job: "ordinary w \<Longrightarrow> relay_job_inv relay (rcfg w) [] [] job"
  shows "relay_rg relay t (keeps_running relay t cx) (Done (install_job cx job w) ()) w"
proof (cases "job_generation_matches cx (rj_id job) w")
  case False
  then show ?thesis using running_done [OF runs calm_refl inv, where a = "()"] by (simp add: install_job_def del: rgt.simps)
next
  case True
  let ?w = "install_job cx job w"
  let ?id = "rs_next_job_id (yw_st w)"
  have w: "?w = y_with_state_mut (\<lambda>st. st\<lparr>rs_next_job_id := sat_add (rs_next_job_id st) 1, rs_active_job := Some job\<rparr>)
      (w\<lparr>yw_staged := [], yw_job_sent := []\<rparr>)" using True by (simp add: install_job_def)
  have facts: "active_job ?w = Some job" "rcfg ?w = rcfg w" "yw_staged ?w = []" "yw_job_sent ?w = []"
    "active_commitment ?w = active_commitment w" "yw_main_owner ?w = yw_main_owner w"
    "rs_main_lock_state_ts (yw_st ?w) = rs_main_lock_state_ts (yw_st w)" "yw_now ?w = yw_now w" "yw_ticket ?w = yw_ticket w"
    "rs_next_job_id (yw_st ?w) = sat_add ?id 1"
    by (simp_all add: w y_with_state_mut_def)
  have id: "rj_id job = ?id" "main_lease_is_current (rx_lease cx) w" using True by (simp_all add: job_generation_matches_def)
  have mine: "jmine t (rx_lease cx) w" "t < yw_ticket w"
    using id(2) runs jheld_current by (auto simp: runs_def jheld_def)
  have "unat ?id < 2 ^ 64" using unat_lt [of ?id] by simp
  then have le: "?id \<le> sat_add ?id 1" by (simp add: word_le_nat_alt unat_sat_add min_def)
  have "ordinary w \<and> ?id < sat_add ?id 1" if "ordinary ?w"
  proof
    have "sat_add ?id 1 \<noteq> u_max" using that by (simp add: ordinary_def facts)
    then have "unat ?id + 1 < 2 ^ 64" using unat_lt [of ?id] by (auto simp: word_unat_eq_iff unat_sat_add)
    then show "?id < sat_add ?id 1" by (simp add: word_less_nat_alt unat_sat_add)
    have "?id \<noteq> u_max" using \<open>?id < sat_add ?id 1\<close> unat_lt [of "sat_add ?id 1"] by (auto simp: word_less_nat_alt)
    then show "ordinary w" using that by (simp add: ordinary_def facts)
  qed
  then have inv': "relay_inv relay ?w" using inv job id(1) by (simp add: relay_inv_def facts)
  have later: "relay_later w ?w" using le id(1) by (simp add: relay_later_def facts)
  have "jkeeps u w ?w" if "u \<noteq> t" for u
    using that mine(1) by (auto simp: jkeeps_def jmine_def jdead_def y_now_secs_def facts)
  then have "relay_guar t w ?w" using later mine(2) by (simp add: relay_guar_def facts)
  moreover have "runs relay t cx ?w"
    using runs later_ctx [OF later] by (simp add: runs_def jheld_def jmine_def jdead_def y_now_secs_def facts)
  ultimately show ?thesis using inv' by simp
qed

lemma allocate_job_rg:
  assumes inv: "relay_inv relay w" and runs: "runs relay t cx w" and ob: "observed_ok relay (rcfg w) ob"
  shows "relay_rg relay t (keeps_running relay t cx) (Done (allocate_job cx ob balance fee w) ()) w"
proof -
  let ?plan = "job_allocation (has_raw_icp_recipients ob) (ro_current_cycles ob) (rs_last_completed_cycles (yw_st w))
      (rs_relay_minted_cycles_since_sample (yw_st w)) (rs_recovery_deficit_cycles (yw_st w)) balance fee
      (rs_conversion_estimate (yw_st w)) (rx_now cx)"
  let ?job = "new_job cx ob balance fee (rs_conversion_estimate (yw_st w)) ?plan"
  let ?w = "y_with_state_mut (\<lambda>st. st\<lparr>rs_relay_minted_cycles_since_sample :=
      map_retain (\<lambda>c. c \<notin> fst ` set (ro_current_cycles ob)) (rs_relay_minted_cycles_since_sample st)\<rparr>) w"
  have frame: "untouched w ?w" by (simp add: untouched_def y_with_state_mut_def)
  have w: "relay_inv relay ?w" "runs relay t cx ?w" "rcfg ?w = rcfg w"
    using inv runs untouched_ok(1) [OF frame] untouched_runs [OF frame] frame by (simp_all add: untouched_def)
  have "relay_job_inv relay (rcfg ?w) [] [] ?job" if "ordinary ?w"
    using ob that unfolding w(3) by (intro new_job_inv [OF refl _ _ refl]) (simp_all add: observed_ok_def ordinary_def w(3))
  from untouched_start [OF install_job_rg [OF w(1,2) this] frame runs]
  show ?thesis by (simp add: allocate_job_def job_allocation_def Let_def del: rgt.simps)
qed

section \<open>The run up to the job\<close>

lemma fold_field: "(\<And>x st. g (f x st) = g st) \<Longrightarrow> g (fold f xs st) = g st"
  by (induction xs arbitrary: st) simp_all

definition frame_of :: "'p rstate \<Rightarrow> rconfig \<times> relay_job option \<times> u64 \<times> faucet_commitment_transfer option \<times> u64 option" where
  "frame_of st = (rs_config st, rs_active_job st, rs_next_job_id st, rs_active_faucet_commitment_transfer st,
     rs_main_lock_state_ts st)"

lemma untouched_state: "frame_of (f (yw_st w)) = frame_of (yw_st w) \<Longrightarrow> untouched w (y_with_state_mut f w)"
  by (simp add: untouched_def y_with_state_mut_def frame_of_def)

lemma frame_of_updates [simp]:
  "frame_of (st\<lparr>rs_last_completed_cycles := a\<rparr>) = frame_of st"
  "frame_of (st\<lparr>rs_relay_minted_cycles_since_sample := b\<rparr>) = frame_of st"
  "frame_of (st\<lparr>rs_recovery_deficit_cycles := c\<rparr>) = frame_of st"
  "frame_of (st\<lparr>rs_last_summary := d\<rparr>) = frame_of st"
  by (simp_all add: frame_of_def)

lemma frame_of_samples [simp]:
  "frame_of (persist_recovery_deficits_from_samples lt samples st) = frame_of st"
  "frame_of (retain_effective_targets managed st) = frame_of st"
  by (simp_all add: frame_of_def persist_recovery_deficits_from_samples_def retain_effective_targets_def)

lemma untouched_sample:
  "untouched w (y_with_state_mut (complete_baseline_sample lt cycles managed summary) w)"
  "untouched w (y_with_state_mut (complete_no_funds_sample lt cycles managed summary) w)"
proof -
  have "frame_of (complete_baseline_sample lt cycles managed summary st) = frame_of st" for st :: "'a rstate"
    unfolding complete_baseline_sample_def Let_def frame_of_updates
    by (rule trans [OF fold_field [where g = frame_of]]) (auto split: prod.split)
  then show "untouched w (y_with_state_mut (complete_baseline_sample lt cycles managed summary) w)" by (rule untouched_state)
  have "frame_of (complete_no_funds_sample lt cycles managed summary st) = frame_of st" for st :: "'a rstate"
    unfolding complete_no_funds_sample_def Let_def frame_of_updates frame_of_samples
    by (rule trans [OF fold_field [where g = frame_of]]) (auto split: prod.split)
  then show "untouched w (y_with_state_mut (complete_no_funds_sample lt cycles managed summary) w)" by (rule untouched_state)
qed

lemma untouched_summary: "untouched w (y_with_state_mut (\<lambda>st. st\<lparr>rs_last_summary := s\<rparr>) w)"
  by (simp add: untouched_def y_with_state_mut_def)

lemma start_with_rate_rg:
  assumes "relay_inv relay w" "runs relay t cx w" "observed_ok relay (rcfg w) ob"
  shows "relay_rg relay t (keeps_running relay t cx) (start_with_rate cx ob balance fee w) w"
  using allocate_job_rg [OF assms] running_done [OF assms(2) calm_refl assms(1), where a = "()"]
  by (simp add: start_with_rate_def del: rgt.simps)

lemma store_estimate_rg:
  assumes "relay_inv relay w" "runs relay t cx w" "observed_ok relay (rcfg w) ob"
  shows "relay_rg relay t (keeps_running relay t cx)
    (start_with_rate cx ob balance fee (store_conversion_estimate cx r w)) w"
proof -
  have frame: "untouched w (store_conversion_estimate cx r w)"
    by (simp add: store_conversion_estimate_def untouched_def y_with_state_mut_def split: sum.split)
  have "relay_rg relay t (keeps_running relay t cx)
      (start_with_rate cx ob balance fee (store_conversion_estimate cx r w)) (store_conversion_estimate cx r w)"
    using assms untouched_ok(1) [OF frame] untouched_runs [OF frame] frame
    by (intro start_with_rate_rg) (simp_all add: untouched_def)
  then show ?thesis using frame assms(2) by (rule untouched_start)
qed

lemma start_with_fee_rg:
  assumes inv: "relay_inv relay w" and runs: "runs relay t cx w" and ob: "observed_ok relay (rcfg w) ob"
  shows "relay_rg relay t (keeps_running relay t cx) (start_with_fee cx ob balance r w) w"
proof -
  obtain fee v where fee: "resolve_icp_ledger_fee_e8s r w = (fee, v)" by fastforce
  note frame = frame_resolve [OF fee]
  have v: "relay_inv relay v" "runs relay t cx v" "rcfg v = rcfg w"
    using inv runs untouched_ok(1) [OF frame] untouched_runs [OF frame] frame by (simp_all add: untouched_def)
  have rate: "relay_rg relay t (keeps_running relay t cx) (Await v (RqConversionRate (rx_cmc cx))
      (\<lambda>r w. start_with_rate cx ob balance fee (store_conversion_estimate cx r w))) v"
    using ob v(3) by (intro relay_await [OF v(2) calm_refl v(1)] store_estimate_rg) (simp_all add: rely_config)
  have "untouched v (start_without_funds cx ob balance fee v)"
    by (simp add: start_without_funds_def untouched_sample Let_def)
  from running_untouched [OF v(2,1) this, where a = "()"] running_done [OF v(2) calm_refl v(1), where a = "()"] rate
    start_with_rate_rg [OF v(1,2), of ob balance fee] ob v(3)
  have "relay_rg relay t (keeps_running relay t cx) (start_with_fee cx ob balance r w) v"
    by (auto simp add: start_with_fee_def fee simp del: rgt.simps)
  then show ?thesis using frame runs by (rule untouched_start)
qed

lemma start_with_balance_rg:
  assumes inv: "relay_inv relay w" and runs: "runs relay t cx w" and ob: "observed_ok relay (rcfg w) ob"
  shows "relay_rg relay t (keeps_running relay t cx) (start_with_balance cx ob r w) w"
proof -
  have "relay_rg relay t (keeps_running relay t cx) (Await w (RqFee (rx_ledger cx)) (start_with_fee cx ob balance)) w" for balance
    using ob by (intro relay_await [OF runs calm_refl inv] start_with_fee_rg) (simp_all add: rely_config)
  then show ?thesis
    using running_untouched [OF runs inv untouched_summary, where a = "()"] running_done [OF runs calm_refl inv, where a = "()"]
    by (simp add: start_with_balance_def del: rgt.simps split: sum.split)
qed

lemma start_observed_rg:
  assumes inv: "relay_inv relay w" and runs: "runs relay t cx w" and ob: "observed_ok relay (rcfg w) ob"
  shows "relay_rg relay t (keeps_running relay t cx) (start_observed cx ob w) w"
proof -
  have "relay_rg relay t (keeps_running relay t cx)
      (Await w (RqBalance (rx_ledger cx) (relay_default_account (rx_relay_id cx))) (start_with_balance cx ob)) w"
    using ob by (intro relay_await [OF runs calm_refl inv] start_with_balance_rg) (simp_all add: rely_config)
  then show ?thesis
    using running_untouched [OF runs inv untouched_summary, where a = "()"] running_untouched [OF runs inv untouched_sample(1), where a = "()"]
    by (simp add: start_observed_def del: rgt.simps)
qed

lemma start_with_probes_rg:
  assumes inv: "relay_inv relay w" and runs: "runs relay t cx w"
    and batch: "observed_ok relay (rcfg w) ob" "ro_current_cycles ob = rb_snapshots batch"
  shows "relay_rg relay t (keeps_running relay t cx) (start_with_probes cx cfg expected managed w batch) w"
proof -
  let ?st1 = "update_routes (pe_less (rx_env cx)) (rcf_cycles_probe_policy cfg) (rb_route_updates batch) (yw_st w)"
  obtain statuses failures st2 where update: "update_consecutive_probe_failures (pe_less (rx_env cx)) managed (rb_snapshots batch)
      (rb_failures batch) ?st1 = ((statuses, failures), st2)" by (metis surj_pair)
  have frame: "untouched w (w\<lparr>yw_st := st2\<rparr>)"
    using update by (auto simp: untouched_def update_consecutive_probe_failures_def update_routes_def Let_def split: prod.splits)
  have w': "relay_inv relay (w\<lparr>yw_st := st2\<rparr>)" "runs relay t cx (w\<lparr>yw_st := st2\<rparr>)" "rcfg (w\<lparr>yw_st := st2\<rparr>) = rcfg w"
    using inv runs untouched_ok(1) [OF frame] untouched_runs [OF frame] frame by (simp_all add: untouched_def)
  have "relay_rg relay t (keeps_running relay t cx) (start_observed cx
      \<lparr>ro_expected_next_job_id = expected, ro_cfg = cfg, ro_managed = managed,
       ro_current_cycles = rb_snapshots batch, ro_statuses = statuses, ro_failures = failures\<rparr> (w\<lparr>yw_st := st2\<rparr>)) w"
    by (rule untouched_start [OF start_observed_rg [OF w'(1,2)] frame runs])
      (use batch w'(3) in \<open>simp add: observed_ok_def\<close>)
  then show ?thesis using update running_done [OF runs calm_refl inv, where a = "()"]
    by (simp add: start_with_probes_def Let_def del: rgt.simps)
qed

lemma start_job_rg:
  fixes w :: "cycles_probe_route relay_world"
  assumes inv: "relay_inv relay w" and runs: "runs relay t cx w"
  shows "relay_rg relay t (keeps_running relay t cx) (start_job cx self_cycles w) w"
proof (cases "active_job w = None")
  case False
  then show ?thesis using running_done [OF runs calm_refl inv, where a = "()"] by (simp add: start_job_def del: rgt.simps)
next
  case True
  let ?managed = "effective_managed_canisters (pe_less (rx_env cx)) (rcf_managed_canisters (rcfg w)) (rx_relay_id cx)"
  let ?ids = "insert relay (set (rcf_managed_canisters (rcfg w)))"
  let ?routes = "List.map_filter (\<lambda>target. map_option (Pair target)
      (map_of (rs_cached_cycles_probe_routes (yw_st w)) target)) ?managed"
  let ?batch = "probe_cycles_batch (rx_env cx) (relay_probe_client (rx_relay_id cx) self_cycles)
      (rcf_cycles_probe_policy (rcfg w)) ?routes (rx_now cx) ?managed \<lparr>rb_snapshots = [], rb_failures = [], rb_route_updates = []\<rparr>"
  let ?n = "length ?managed"
  have id: "rx_relay_id cx = relay" using runs by (simp add: runs_def ctx_ok_def)
  have "observes ?ids 0 \<lparr>rb_snapshots = [], rb_failures = [], rb_route_updates = []\<rparr>" by (simp add: observes_def)
  then have ask: "asks (\<lambda>_. True) (observes ?ids ?n) ?batch"
    using probe_batch_observes [of ?ids 0 "\<lparr>rb_snapshots = [], rb_failures = [], rb_route_updates = []\<rparr>" ?managed]
    by (simp add: effective_managed_facts(1) id)
  have "relay_rg relay t (keeps_running relay t cx) (pbind (perform RqProbe read_probe ?batch w)
      (start_with_probes cx (rcfg w) (rs_next_job_id (yw_st w)) ?managed)) w"
  proof (rule relay_rg_bind)
    show "relay_rg relay t (\<lambda>v batch. relay_rely t w v \<and> observes ?ids ?n batch) (perform RqProbe read_probe ?batch w) w"
    proof (rule perform_stable_rgt [where P = "relay_rely t w" and I = "relay_inv relay" and s = w, OF ask])
      show "relay_inv relay w" "relay_rely t w w" by (rule inv relay_rely_refl)+
      fix v v' :: "cycles_probe_route relay_world"
      assume "relay_rely t w v"
      then show "relay_rely t v v' \<Longrightarrow> relay_rely t w v'" by (rule relay_rely_trans)
      show "relay_guar t v v" using runs_guar [OF runs_rely [OF runs \<open>relay_rely t w v\<close>] calm_refl] .
    qed auto
  next
    fix v :: "cycles_probe_route relay_world" and batch
    assume v: "relay_inv relay v" "relay_rely t w v \<and> observes ?ids ?n batch"
    let ?ob = "\<lparr>ro_expected_next_job_id = 0, ro_cfg = rcfg w, ro_managed = [], ro_current_cycles = rb_snapshots batch,
        ro_statuses = [], ro_failures = []\<rparr>"
    have cfg: "rcfg v = rcfg w" using v(2) rely_config by blast
    have "observed_ok relay (rcfg v) ?ob"
      using v(2) effective_managed_facts(2) [of "pe_less (rx_env cx)" "rcf_managed_canisters (rcfg w)" "rx_relay_id cx"]
      by (auto simp: observed_ok_def observes_def managed_by_def list_all_iff small_config_def cfg image_subset_iff)
    then show "relay_rg relay t (keeps_running relay t cx)
        (start_with_probes cx (rcfg w) (rs_next_job_id (yw_st w)) ?managed v batch) v"
      using runs_rely [OF runs] v by (intro start_with_probes_rg) auto
  qed
  then show ?thesis using True by (simp add: start_job_def Let_def del: rgt.simps)
qed

end
