(* ===== verification/RelayTickSafety.thy ===== *)
theory RelayTickSafety
  imports RelayStart RelaySplitterSystem
begin

text \<open>The Relay's ticks, pokes and timers in every interleaving with each other and with upgrades.\<close>

section \<open>The funding pipeline\<close>

lemma stage_outcome_rg:
  assumes "relay_rg relay t (keeps_running relay t cx) p w"
  shows "relay_rg relay t (keeps_running relay t cx) (pbind p (\<lambda>w ok. Done w (stage_outcome cx w ok))) w"
proof (rule relay_rg_bind [OF assms])
  fix v :: "'a relay_world" and ok
  assume "relay_inv relay v" "runs relay t cx v"
  then show "relay_rg relay t (keeps_running relay t cx) (Done v (stage_outcome cx v ok)) v"
    by (intro running_done) simp_all
qed

lemma splitter_stage_rg:
  assumes inv: "relay_inv relay w" and runs: "runs relay t cx w"
  shows "relay_rg relay t (keeps_running relay t cx) (process_main_stage t (rx_now cx) relay ledger w) w"
proof (rule frame_rgt [OF frame_stage, where P = "runs relay t cx"])
  fix s s' :: "'a relay_world"
  assume s: "relay_inv relay s" "runs relay t cx s" "untouched s s'"
  then show "relay_inv relay s' \<and> relay_guar t s s' \<and> runs relay t cx s'"
    using untouched_ok(1) [OF s(3)] runs_guar [OF s(2) untouched_ok(2) [OF s(3)]] untouched_runs [OF s(3,2)] by simp
qed (use inv runs runs_rely splitter_request_ok in blast)+

lemma reactive_rg:
  assumes inv: "relay_inv relay w" and runs: "runs relay t cx w"
  shows "relay_rg relay t (keeps_running relay t cx) (run_reactive_funding_stages t cx w) w"
proof -
  have id: "rx_relay_id cx = relay" using runs by (simp add: runs_def ctx_ok_def)
  show ?thesis unfolding run_reactive_funding_stages_def id
  proof (rule relay_rg_bind [OF splitter_stage_rg [OF inv runs]])
    fix v :: "'a relay_world" and res
    assume v: "relay_inv relay v" "runs relay t cx v"
    have out: "relay_rg relay t (keeps_running relay t cx) (Done v out) v" for out :: funding_outcome
      by (rule running_done [OF v(2) calm_refl v(1)])
    show "relay_rg relay t (keeps_running relay t cx) (reactive_after_splitters cx v res) v"
      using out stage_outcome_rg [OF resume_commitment_rg [OF v]]
      by (simp add: reactive_after_splitters_def del: rgt.simps split: main_stage_result.split)
  qed
qed

lemma resume_or_start_rg:
  fixes w :: "cycles_probe_route relay_world"
  assumes inv: "relay_inv relay w" and runs: "runs relay t cx w"
  shows "relay_rg relay t (keeps_running relay t cx) (resume_or_start_job cx self_cycles w) w"
  unfolding resume_or_start_job_def
proof (rule relay_rg_bind [where Q' = "keeps_running relay t cx"])
  show "relay_rg relay t (keeps_running relay t cx)
      (if active_job w = None then start_job cx self_cycles w else Done w ()) w"
    using start_job_rg [OF inv runs] running_done [OF runs calm_refl inv, where a = "()"] by (simp del: rgt.simps)
next
  fix v :: "cycles_probe_route relay_world" and u :: unit
  assume v: "relay_inv relay v" "runs relay t cx v"
  show "relay_rg relay t (keeps_running relay t cx)
      (if \<not> main_lease_is_current (rx_lease cx) v then Done v True else drive_active_relay_job cx v) v"
    using drive_active_rg [OF v] running_done [OF v(2) calm_refl v(1), where a = True] by (simp del: rgt.simps)
qed

lemma untouched_requests:
  "untouched w (clear_splitter_main_continuation_request w)" "untouched w (request_splitter_main_continuation w)"
  "untouched w (record_core_progress g now w)" "untouched w (schedule_scheduled_main_retry w)"
  "untouched w (w\<lparr>yw_retry_pending := b\<rparr>)" "untouched w (w\<lparr>yw_poke := p\<rparr>)"
  by (simp_all add: untouched_def clear_splitter_main_continuation_request_def request_splitter_main_continuation_def
      record_core_progress_def schedule_scheduled_main_retry_def y_with_state_mut_def)

lemma pipeline_rg:
  fixes w :: "cycles_probe_route relay_world"
  assumes inv: "relay_inv relay w" and runs: "runs relay t cx w"
  shows "relay_rg relay t (keeps_running relay t cx) (run_funding_pipeline t cx self_cycles w) w"
  unfolding run_funding_pipeline_def
proof (rule relay_rg_bind [OF reactive_rg [OF inv runs]])
  fix v :: "cycles_probe_route relay_world" and out
  assume v: "relay_inv relay v" "runs relay t cx v"
  have "relay_rg relay t (keeps_running relay t cx) (pbind (resume_or_start_job cx self_cycles v) (\<lambda>w ok.
      if stage_outcome cx w ok = FpCompleted
      then Done (clear_splitter_main_continuation_request w) FpCompleted else Done w (stage_outcome cx w ok))) v"
  proof (rule relay_rg_bind [OF resume_or_start_rg [OF v]])
    fix u :: "cycles_probe_route relay_world" and ok
    assume u: "relay_inv relay u" "runs relay t cx u"
    show "relay_rg relay t (keeps_running relay t cx) (if stage_outcome cx u ok = FpCompleted
        then Done (clear_splitter_main_continuation_request u) FpCompleted else Done u (stage_outcome cx u ok)) u"
      using running_untouched [OF u(2,1) untouched_requests(1), where a = FpCompleted]
        running_done [OF u(2) calm_refl u(1), where a = "stage_outcome cx u ok"] by (simp del: rgt.simps)
  qed
  then show "relay_rg relay t (keeps_running relay t cx) (funding_after_reactive cx self_cycles v out) v"
    using running_done [OF v(2) calm_refl v(1), where a = out] by (simp add: funding_after_reactive_def del: rgt.simps)
qed

section \<open>Taking and releasing the main lease\<close>

lemma main_acquire_facts:
  assumes "main_guard_acquire t (y_now_secs w) w = Some (g, w')"
  shows "tlg_active g" "rs_main_lock_state_ts (yw_st w') = Some (tlg_expires g)" "yw_main_owner w' = Some t"
    "y_now_secs w < tlg_expires g" "rs_main_lock_state_ts (yw_st w) = Some e \<Longrightarrow> e \<le> y_now_secs w"
    "active_job w' = active_job w" "rcfg w' = rcfg w" "active_commitment w' = active_commitment w"
    "rs_next_job_id (yw_st w') = rs_next_job_id (yw_st w)" "yw_now w' = yw_now w" "yw_ticket w' = yw_ticket w"
    "yw_staged w' = yw_staged w" "yw_job_sent w' = yw_job_sent w"
proof -
  have "sat_add (y_now_secs w) main_lease_seconds > y_now_secs w"
    using y_now_secs_small [of w] by (simp add: word_less_nat_alt unat_sat_add main_lease_seconds_def)
  then show "tlg_active g" "rs_main_lock_state_ts (yw_st w') = Some (tlg_expires g)" "yw_main_owner w' = Some t"
    "y_now_secs w < tlg_expires g" "rs_main_lock_state_ts (yw_st w) = Some e \<Longrightarrow> e \<le> y_now_secs w"
    "active_job w' = active_job w" "rcfg w' = rcfg w" "active_commitment w' = active_commitment w"
    "rs_next_job_id (yw_st w') = rs_next_job_id (yw_st w)" "yw_now w' = yw_now w" "yw_ticket w' = yw_ticket w"
    "yw_staged w' = yw_staged w" "yw_job_sent w' = yw_job_sent w"
    using assms by (auto simp: main_guard_acquire_def tlg_acquire_def y_with_state_mut_def split: option.splits if_splits)
qed

lemma main_acquire_ok:
  assumes acquire: "main_guard_acquire t (y_now_secs w) w = Some (g, w')" and inv: "relay_inv relay w" and t: "t < yw_ticket w"
  shows "relay_inv relay w'" "relay_guar t w w'" "jheld t (tlg_expires g) w'" "rcfg w' = rcfg w" "tlg_active g"
proof -
  note facts = main_acquire_facts [OF acquire]
  have secs: "y_now_secs w' = y_now_secs w" by (simp add: y_now_secs_def facts)
  have nz: "tlg_expires g \<noteq> 0" using facts(4) by auto
  show "tlg_active g" "rcfg w' = rcfg w" by (rule facts)+
  show "relay_inv relay w'" using inv nz by (simp add: relay_inv_def ordinary_def facts)
  show "jheld t (tlg_expires g) w'" using t by (simp add: jheld_def jmine_def facts)
  have "jkeeps u w w'" for u
  proof -
    have "jdead e w'" if "jmine u e w" for e
    proof -
      have "e \<le> y_now_secs w" "e \<noteq> 0" using that facts(5) inv by (auto simp: jmine_def relay_inv_def)
      then show ?thesis using facts(2,4) by (auto simp: jdead_def secs)
    qed
    moreover have "jdead e w'" if "jdead e w" for e using that facts(2,4) by (auto simp: jdead_def secs)
    ultimately show ?thesis by (simp add: jkeeps_def)
  qed
  then show "relay_guar t w w'" using t by (simp add: relay_guar_def relay_later_def facts)
qed

text \<open>Releasing: only the holder changes the lock.\<close>

lemma main_unlock_ok:
  assumes inv: "relay_inv relay w" and held: "jheld t (tlg_expires g) w" and active: "tlg_active g"
    and f: "rs_config (f (yw_st w)) = rcfg w" "rs_active_job (f (yw_st w)) = active_job w"
      "rs_next_job_id (f (yw_st w)) = rs_next_job_id (yw_st w)" "rs_active_faucet_commitment_transfer (f (yw_st w)) = active_commitment w"
      "rs_main_lock_state_ts (f (yw_st w)) = Some 0"
    and w': "w' = (if fst (tlg_release g (rs_main_lock_state_ts (yw_st w))) = Released
      then y_with_state_mut f (w\<lparr>yw_main_owner := None\<rparr>) else w)"
  shows "relay_inv relay w'" "relay_guar t w w'"
proof -
  have "relay_inv relay w' \<and> relay_guar t w w'"
  proof (cases "rs_main_lock_state_ts (yw_st w) = Some (tlg_expires g)")
    case False
    then have "w' = w" using active by (simp add: w' tlg_release_def Let_def)
    then show ?thesis using inv jheld_guar [OF held calm_refl] by simp
  next
    case True
    then have w: "w' = y_with_state_mut f (w\<lparr>yw_main_owner := None\<rparr>)" using active by (simp add: w' tlg_release_def Let_def)
    have facts: "active_job w' = active_job w" "rcfg w' = rcfg w" "ordinary w' = ordinary w" "yw_staged w' = yw_staged w"
      "yw_job_sent w' = yw_job_sent w" "active_commitment w' = active_commitment w" "yw_main_owner w' = None"
      "rs_main_lock_state_ts (yw_st w') = Some 0" "yw_now w' = yw_now w" "yw_ticket w' = yw_ticket w"
      "rs_next_job_id (yw_st w') = rs_next_job_id (yw_st w)"
      by (simp_all add: w f y_with_state_mut_def ordinary_def)
    have mine: "jmine t (tlg_expires g) w" "t < yw_ticket w" using held True by (auto simp: jheld_def jdead_def)
    have "relay_inv relay w'" using inv by (simp add: relay_inv_def facts)
    moreover have "jkeeps u w w'" if "u \<noteq> t" for u
      using that mine(1) by (auto simp: jkeeps_def jmine_def jdead_def y_now_secs_def facts)
    ultimately show ?thesis using mine(2) by (simp add: relay_guar_def relay_later_def facts)
  qed
  then show "relay_inv relay w'" "relay_guar t w w'" by simp_all
qed

lemma main_release_ok:
  assumes "relay_inv relay w" "jheld t (tlg_expires g) w" "tlg_active g"
  shows "relay_inv relay (main_guard_release g w)" "relay_guar t w (main_guard_release g w)"
    "relay_inv relay (main_guard_finish g now w)" "relay_guar t w (main_guard_finish g now w)"
  unfolding main_guard_release_def main_guard_finish_def
  by (rule main_unlock_ok [OF assms _ _ _ _ _ refl]; simp)+

lemma release_rg:
  assumes "relay_inv relay w" "jheld t (tlg_expires g) w" "tlg_active g" "untouched w v"
  shows "relay_rg relay t (\<lambda>_ _. True) (Done (main_guard_release g v) a) w"
    "relay_rg relay t (\<lambda>_ _. True) (Done (main_guard_finish g now v) a) w"
proof -
  have v: "relay_inv relay v" "jheld t (tlg_expires g) v" "relay_guar t w v"
    using assms untouched_ok(1) [OF assms(4)] calm_lease(3) [OF untouched_ok(2) [OF assms(4)]]
      jheld_guar [OF assms(2) untouched_ok(2) [OF assms(4)]] by simp_all
  note ok = main_release_ok [OF v(1,2) assms(3)]
  show "relay_rg relay t (\<lambda>_ _. True) (Done (main_guard_release g v) a) w"
    "relay_rg relay t (\<lambda>_ _. True) (Done (main_guard_finish g now v) a) w"
    using ok relay_guar_trans [OF v(3)] by simp_all
qed

section \<open>The main tick\<close>

lemma tick_rewards_rg:
  assumes inv: "relay_inv relay w" and runs: "runs relay t cx w" and guard: "rx_lease cx = tlg_expires g" "tlg_active g"
  shows "relay_rg relay t (\<lambda>_ _. True) (tick_rewards g now w) w"
  unfolding tick_rewards_def
proof (rule relay_await [OF runs calm_refl inv])
  fix r and v :: "'a relay_world"
  assume v: "relay_inv relay v" "runs relay t cx v"
  have held: "jheld t (tlg_expires g) u" if "runs relay t cx u" for u :: "'a relay_world"
    using that guard(1) by (simp add: runs_def)
  have "relay_rg relay t (\<lambda>_ _. True) (Await v RqRewardSweep (\<lambda>_ w. Done (main_guard_release g w) TickCompleted)) v"
    by (rule relay_await [OF v(2) calm_refl v(1)]) (use release_rg(1) [OF _ held guard(2) untouched_refl] in simp_all)
  then show "relay_rg relay t (\<lambda>_ _. True) (if r = RsRewardPinned True
     then Await v RqRewardSweep (\<lambda>_ w. Done (main_guard_release g w) TickCompleted)
     else Done (main_guard_finish g now v) TickCompleted) v"
    using release_rg(2) [OF v(1) held [OF v(2)] guard(2) untouched_refl, where a = TickCompleted] by (simp del: rgt.simps)
qed simp

lemma tick_after_funding_rg:
  assumes inv: "relay_inv relay w" and runs: "runs relay t cx w" and guard: "rx_lease cx = tlg_expires g" "tlg_active g"
  shows "relay_rg relay t (\<lambda>_ _. True) (tick_after_funding g now w out) w"
proof -
  have held: "jheld t (tlg_expires g) w" using runs guard(1) by (simp add: runs_def)
  have release: "relay_rg relay t (\<lambda>_ _. True) (Done (main_guard_release g v) a) w"
    "relay_rg relay t (\<lambda>_ _. True) (Done (main_guard_finish g now v) a) w" if "untouched w v" for v and a :: main_tick_outcome
    by (rule release_rg [OF inv held guard(2) that])+
  let ?v = "record_core_progress g now w"
  have v: "untouched w ?v" by (rule untouched_requests(3))
  have rewards: "relay_rg relay t (\<lambda>_ _. True) (tick_rewards g now ?v) w"
    using inv untouched_ok(1) [OF v] untouched_runs [OF v runs]
    by (intro untouched_start [OF tick_rewards_rg [OF _ _ guard] v runs]) simp_all
  let ?u = "request_splitter_main_continuation w"
  have later: "relay_rg relay t (\<lambda>_ _. True)
      (Done (schedule_splitter_main_continuation_after (main_guard_release g ?u)) TickSplitterPaused) w"
  proof -
    note u = main_release_ok [where g = g, OF _ _ guard(2)]
    have "relay_inv relay ?u" "jheld t (tlg_expires g) ?u" "relay_guar t w ?u"
      using inv held untouched_ok(1,2) [OF untouched_requests(2) [of w]] calm_lease(3) jheld_guar by blast+
    note released = u(1,2) [OF this(1,2)] this(3)
    have frame: "untouched (main_guard_release g ?u) (schedule_splitter_main_continuation_after (main_guard_release g ?u))" by simp
    have "t < yw_ticket (main_guard_release g ?u)" using released(2) by (simp add: relay_guar_def)
    then have "relay_guar t (main_guard_release g ?u) (schedule_splitter_main_continuation_after (main_guard_release g ?u))"
      using calm_guar [OF untouched_ok(2) [OF frame]] untouched_ok(3) [OF frame] by simp
    then show ?thesis using released untouched_ok(1) [OF frame] relay_guar_trans by (metis rgt.simps(1))
  qed
  show ?thesis using release rewards later untouched_requests(2) [of w]
    by (simp add: tick_after_funding_def del: rgt.simps split: funding_outcome.split)
qed

text \<open>A handler has taken its ticket; so far it has touched nothing else.\<close>

definition ticketed :: "'p relay_world \<Rightarrow> 'p relay_world \<Rightarrow> bool" where
  "ticketed w w' \<longleftrightarrow> untouched (w\<lparr>yw_ticket := yw_ticket w + 1\<rparr>) w'"

lemma ticketed_ok:
  assumes inv: "relay_inv relay w" and ticketed: "ticketed w w'"
  shows "relay_inv relay w'" "relay_guar (yw_ticket w) w w'" "yw_ticket w < yw_ticket w'"
proof -
  let ?w = "w\<lparr>yw_ticket := yw_ticket w + 1\<rparr>"
  have frame: "untouched ?w w'" using ticketed by (simp add: ticketed_def)
  have "relay_inv relay ?w" using inv by (simp add: relay_inv_def ordinary_def)
  then show "relay_inv relay w'" using untouched_ok(1) [OF frame] by simp
  have calm: "calm w ?w"
    by (simp add: calm_def relay_later_def job_still_def job_left_def ordinary_def)
  show t: "yw_ticket w < yw_ticket w'" using untouched_ok(3) [OF frame] by simp
  show "relay_guar (yw_ticket w) w w'" using calm_trans [OF calm untouched_ok(2) [OF frame]] t by (rule calm_guar)
qed

lemma ticketed_done:
  assumes "relay_inv relay w" "ticketed w w'"
  shows "relay_rg relay (yw_ticket w) (\<lambda>_ _. True) (Done w' a) w"
  using ticketed_ok [OF assms] by simp

lemma ctx_of_ok: "rcfg w = cfg \<Longrightarrow> rp_relay_id rp = relay \<Longrightarrow> ctx_ok relay (relay_ctx_of rp now token cfg) w"
  by (simp add: ctx_ok_def relay_ctx_of_def)

lemma run_main_tick_rg:
  fixes w :: "cycles_probe_route relay_world"
  assumes inv: "relay_inv (rp_relay_id rp) w" and t: "t < yw_ticket w"
  shows "relay_rg (rp_relay_id rp) t (\<lambda>_ _. True) (run_main_tick rp force cycles t w) w"
proof (cases "main_guard_acquire t (y_now_secs w) w")
  case None
  then show ?thesis using inv t calm_guar [OF calm_refl t] by (simp add: run_main_tick_def Let_def)
next
  case (Some gw)
  then obtain g w1 where acquire: "main_guard_acquire t (y_now_secs w) w = Some (g, w1)" by (cases gw) simp
  note ok = main_acquire_ok [OF acquire inv t]
  let ?cx = "relay_ctx_of rp (yw_now w) (tlg_expires g) (rcfg w)"
  have lease: "rx_lease ?cx = tlg_expires g" by (simp add: relay_ctx_of_def)
  have runs: "runs (rp_relay_id rp) t ?cx w1"
    using ok(3) ctx_of_ok [OF ok(4) refl] lease by (simp add: runs_def)
  have release: "relay_rg (rp_relay_id rp) t (\<lambda>_ _. True) (Done (main_guard_release g w1) a) w1" for a :: main_tick_outcome
    by (rule release_rg(1) [OF ok(1,3,5) untouched_refl])
  have pipeline: "relay_rg (rp_relay_id rp) t (\<lambda>_ _. True) (pbind (run_funding_pipeline t ?cx cycles w1)
      (tick_after_funding g (y_now_secs w))) w1"
    by (rule relay_rg_bind [OF pipeline_rg [OF ok(1) runs] tick_after_funding_rg [OF _ _ lease ok(5)]])
  have "relay_rg (rp_relay_id rp) t (\<lambda>_ _. True) (run_main_tick rp force cycles t w) w1"
    using release pipeline by (simp add: run_main_tick_def acquire Let_def del: rgt.simps)
  then show ?thesis using ok(2) by (rule relay_rg_start)
qed

text \<open>What a handler does at its end with flags and timers.\<close>

lemma finish_rg:
  assumes "relay_rg relay t (\<lambda>_ _. True) p w" "\<And>w a. untouched w (f w a)"
  shows "relay_rg relay t (\<lambda>_ _. True) (pbind p (\<lambda>w a. Done (f w a) (g a))) w"
  using assms(1)
proof (induction p arbitrary: w)
  case (Done s a)
  note ok = untouched_ok [OF assms(2) [of s a]]
  have "t < yw_ticket s" using Done by (simp add: relay_guar_def)
  then have "relay_guar t s (f s a)" using calm_guar [OF ok(2)] ok(3) by simp
  then show ?case using Done ok(1) relay_guar_trans by auto
next
  case (Await s q k)
  then show ?case by (auto intro: Await.IH [OF rangeI rangeI])
qed simp

lemma main_tick_rg:
  fixes w :: "cycles_probe_route relay_world"
  assumes inv: "relay_inv (rp_relay_id rp) w0" and start: "untouched w0 w"
  shows "relay_rg (rp_relay_id rp) (yw_ticket w0) (\<lambda>_ _. True) (main_tick rp force cycles retry w) w0"
proof -
  have same: "yw_ticket w = yw_ticket w0" using start by (simp add: untouched_def)
  have ticketed: "ticketed w0 (w\<lparr>yw_ticket := yw_ticket w + 1\<rparr>)"
    using start by (simp add: ticketed_def untouched_def)
  note ok = ticketed_ok [OF inv ticketed]
  have "relay_rg (rp_relay_id rp) (yw_ticket w0) (\<lambda>_ _. True)
      (run_main_tick rp force cycles (yw_ticket w) (w\<lparr>yw_ticket := yw_ticket w + 1\<rparr>)) w0"
    unfolding same using relay_rg_start [OF run_main_tick_rg [OF ok(1,3)] ok(2)] same by simp
  then show ?thesis unfolding main_tick_def by (rule finish_rg) simp
qed

lemma scheduled_tick_rg:
  fixes w :: "cycles_probe_route relay_world"
  assumes inv: "relay_inv (rp_relay_id rp) w0" and start: "untouched w0 w"
  shows "relay_rg (rp_relay_id rp) (yw_ticket w0) (\<lambda>_ _. True) (scheduled_main_tick rp cycles w) w0"
  unfolding scheduled_main_tick_def
  by (rule finish_rg [OF main_tick_rg [OF assms]]) (simp add: untouched_requests split: main_tick_outcome.split)

lemma continuation_rg:
  fixes w :: "cycles_probe_route relay_world"
  assumes inv: "relay_inv (rp_relay_id rp) w"
  shows "relay_rg (rp_relay_id rp) (yw_ticket w) (\<lambda>_ _. True) (splitter_main_continuation rp cycles w) w"
proof -
  let ?w = "y_with_state_mut (\<lambda>st. st\<lparr>rs_splitter_main_continuation_timer_pending := False\<rparr>) w"
  have start: "untouched w ?w" by (simp add: untouched_def y_with_state_mut_def)
  have "ticketed w (fresh_ticket ?w)" by (simp add: ticketed_def untouched_def fresh_ticket_def y_with_state_mut_def)
  from ticketed_done [OF inv this, where a = "()"]
  have none: "relay_rg (rp_relay_id rp) (yw_ticket w) (\<lambda>_ _. True) (Done (fresh_ticket ?w) ()) w" .
  have "relay_rg (rp_relay_id rp) (yw_ticket w) (\<lambda>_ _. True) (pbind (main_tick rp False cycles False ?w) (\<lambda>w outcome.
      Done (if outcome = TickMainGuardBusy \<or> outcome = TickSplitterGuardBusy
        then schedule_splitter_main_continuation_after w else w) ())) w"
    by (rule finish_rg [OF main_tick_rg [OF inv start]]) simp
  then show ?thesis using none by (simp add: splitter_main_continuation_def Let_def del: rgt.simps)
qed

section \<open>Pokes and timers\<close>

lemma resume_existing_rg:
  assumes inv: "relay_inv relay w" and runs: "runs relay t cx w"
  shows "relay_rg relay t (keeps_running relay t cx) (resume_existing_job cx w) w"
  using stage_outcome_rg [OF drive_active_rg [OF inv runs]] running_done [OF runs calm_refl inv, where a = FpCompleted]
  by (simp add: resume_existing_job_def del: rgt.simps)

lemma poke_funding_rg:
  assumes inv: "relay_inv (rp_relay_id rp) w" and t: "t < yw_ticket w"
  shows "relay_rg (rp_relay_id rp) t (\<lambda>_ _. True) (run_poke_funding rp t w) w"
proof (cases "main_guard_acquire t (y_now_secs w) w")
  case None
  then show ?thesis using inv t calm_guar [OF calm_refl t] by (simp add: run_poke_funding_def)
next
  case (Some gw)
  then obtain g w1 where acquire: "main_guard_acquire t (y_now_secs w) w = Some (g, w1)" by (cases gw) simp
  note ok = main_acquire_ok [OF acquire inv t]
  let ?cx = "relay_ctx_of rp (yw_now w) (tlg_expires g) (rcfg w)"
  have lease: "rx_lease ?cx = tlg_expires g" by (simp add: relay_ctx_of_def)
  have runs: "runs (rp_relay_id rp) t ?cx w1" using ok(3) ctx_of_ok [OF ok(4) refl] lease by (simp add: runs_def)
  have pipeline: "relay_rg (rp_relay_id rp) t (keeps_running (rp_relay_id rp) t ?cx)
      (pbind (run_reactive_funding_stages t ?cx w1) (poke_after_reactive ?cx)) w1"
  proof (rule relay_rg_bind [OF reactive_rg [OF ok(1) runs]])
    fix v :: "'a relay_world" and out
    assume v: "relay_inv (rp_relay_id rp) v" "runs (rp_relay_id rp) t ?cx v"
    show "relay_rg (rp_relay_id rp) t (keeps_running (rp_relay_id rp) t ?cx) (poke_after_reactive ?cx v out) v"
      using resume_existing_rg [OF v] running_done [OF v(2) calm_refl v(1), where a = out]
      by (simp add: poke_after_reactive_def del: rgt.simps)
  qed
  have "relay_rg (rp_relay_id rp) t (\<lambda>_ _. True) (pbind
      (pbind (run_reactive_funding_stages t ?cx w1) (poke_after_reactive ?cx)) (\<lambda>w outcome.
        Done (main_guard_release g (if outcome = FpCompleted
          then clear_splitter_main_continuation_request w else w)) ())) w1"
  proof (rule relay_rg_bind [OF pipeline])
    fix v :: "'a relay_world" and out
    assume v: "relay_inv (rp_relay_id rp) v" "runs (rp_relay_id rp) t ?cx v"
    then have "jheld t (tlg_expires g) v" by (simp add: runs_def lease)
    then show "relay_rg (rp_relay_id rp) t (\<lambda>_ _. True) (Done (main_guard_release g (if out = FpCompleted
        then clear_splitter_main_continuation_request v else v)) ()) v"
      using untouched_requests(1) [of v] by (intro release_rg(1) [OF v(1) _ ok(5)]) simp_all
  qed
  then have "relay_rg (rp_relay_id rp) t (\<lambda>_ _. True) (run_poke_funding rp t w) w1"
    by (simp add: run_poke_funding_def acquire Let_def del: rgt.simps)
  then show ?thesis using ok(2) by (rule relay_rg_start)
qed

lemma admit_rg:
  assumes inv: "relay_inv (rp_relay_id rp) w0" and start: "untouched w0 w"
  shows "relay_rg (rp_relay_id rp) (yw_ticket w0) (\<lambda>_ _. True) (admit_and_run rp w) w0"
proof -
  obtain admitted runtime where gate: "relay_admit_attempt (yw_now w) (yw_poke w) = (admitted, runtime)" by fastforce
  let ?w = "w\<lparr>yw_poke := runtime, yw_ticket := yw_ticket w + 1\<rparr>"
  have same: "yw_ticket w = yw_ticket w0" using start by (simp add: untouched_def)
  have ticketed: "ticketed w0 ?w" using start by (simp add: ticketed_def untouched_def)
  note ok = ticketed_ok [OF inv ticketed]
  have run: "relay_rg (rp_relay_id rp) (yw_ticket w0) (\<lambda>_ _. True) (run_poke_funding rp (yw_ticket w) ?w) w0"
    unfolding same using relay_rg_start [OF poke_funding_rg [OF ok(1,3)] ok(2)] same by simp
  show ?thesis using run ticketed_done [OF inv ticketed, where a = "()"]
    by (simp add: admit_and_run_def gate Let_def del: rgt.simps)
qed

lemma poke_rg:
  assumes inv: "relay_inv (rp_relay_id rp) w"
  shows "relay_rg (rp_relay_id rp) (yw_ticket w) (\<lambda>_ _. True) (relay_poke_message rp caller matches w) w"
proof -
  have "relay_rg (rp_relay_id rp) (yw_ticket w) (\<lambda>_ _. True) (handle_event_horizon_poke rp w) w"
    unfolding handle_event_horizon_poke_def by (rule admit_rg [OF inv untouched_requests(6)])
  moreover have "ticketed w (fresh_ticket w)" by (simp add: ticketed_def fresh_ticket_def)
  ultimately show ?thesis using ticketed_done [OF inv, where a = "()"]
    by (simp add: relay_poke_message_def del: rgt.simps)
qed

lemma deferred_rg:
  assumes inv: "relay_inv (rp_relay_id rp) w"
  shows "relay_rg (rp_relay_id rp) (yw_ticket w) (\<lambda>_ _. True) (relay_deferred_poke rp w) w"
proof -
  obtain action runtime where gate: "relay_deferred_timer_action (yw_now w) (yw_poke w) = (action, runtime)" by fastforce
  have "ticketed w (fresh_ticket (w\<lparr>yw_poke := runtime\<rparr>))"
    by (simp add: ticketed_def untouched_def fresh_ticket_def)
  from ticketed_done [OF inv this, where a = "()"] admit_rg [OF inv untouched_requests(6), of runtime] show ?thesis
    by (simp add: relay_deferred_poke_def gate Let_def del: rgt.simps split: deferred_timer_action.split)
qed

lemma refresh_rg:
  assumes inv: "relay_inv relay w"
  shows "relay_rg relay (yw_ticket w) (\<lambda>_ _. True) (refresh_surplus_neuron neuron w) w"
proof -
  have "ticketed w (fresh_ticket w)" by (simp add: ticketed_def fresh_ticket_def)
  note ok = ticketed_ok [OF inv this]
  have "relay_guar (yw_ticket w) w' w'" if "relay_rely (yw_ticket w) (fresh_ticket w) w'" for w'
    using that ok(3) by (intro calm_guar) (auto simp: relay_rely_def relay_later_def)
  then show ?thesis using ok by (simp add: refresh_surplus_neuron_def)
qed

lemma clock_rg:
  assumes inv: "relay_inv relay w"
  shows "relay_rg relay (yw_ticket w) (\<lambda>_ _. True) (relay_clock now w) w"
proof -
  obtain w' where w': "relay_clock now w = Done w' ()" by (simp add: relay_clock_def)
  then have facts: "yw_now w' = max (yw_now w) now" "yw_ticket w' = yw_ticket w + 1" "yw_st w' = yw_st w"
    "yw_main_owner w' = yw_main_owner w" "yw_staged w' = yw_staged w" "yw_job_sent w' = yw_job_sent w"
    by (auto simp: relay_clock_def fresh_ticket_def)
  have "y_now_secs w \<le> y_now_secs w'"
    by (simp add: y_now_secs_def facts word_le_nat_alt unat_div_distrib max_def div_le_mono)
  then have "jkeeps u w w'" for u
    by (auto simp: jkeeps_def jmine_def jdead_def job_still_def job_left_def facts)
  then have "relay_guar (yw_ticket w) w w'" by (simp add: relay_guar_def relay_later_def facts)
  moreover have "relay_inv relay w'" using inv by (simp add: relay_inv_def ordinary_def facts)
  ultimately show ?thesis by (simp add: w')
qed

lemma retry_splitter_rg:
  assumes inv: "relay_inv relay w"
  shows "relay_rg relay (yw_ticket w) (\<lambda>_ _. True) (retry_active_splitter relay w) w"
proof -
  let ?t = "yw_ticket w" and ?w = "w\<lparr>yw_ticket := yw_ticket w + 1\<rparr>"
  have "ticketed w ?w" by (simp add: ticketed_def)
  note ok = ticketed_ok [OF inv this]
  have "relay_rg relay ?t (\<lambda>v _. ?t < yw_ticket v) (retry_active_splitter relay w) ?w"
  proof (rule frame_rgt [OF frame_retry, where P = "\<lambda>v. ?t < yw_ticket v"])
    fix s s' :: "'a relay_world"
    assume s: "relay_inv relay s" "?t < yw_ticket s" "untouched s s'"
    then show "relay_inv relay s' \<and> relay_guar ?t s s' \<and> ?t < yw_ticket s'"
      using untouched_ok(1,3) [OF s(3)] calm_guar [OF untouched_ok(2) [OF s(3)]] by simp
  qed (use ok(1,3) splitter_request_ok in \<open>auto simp: relay_rely_def relay_later_def\<close>)
  then have "relay_rg relay ?t (\<lambda>_ _. True) (retry_active_splitter relay w) ?w" by (rule rgt_post) simp
  then show ?thesis using ok(2) by (rule relay_rg_start)
qed

section \<open>The system\<close>

lemma relay_initialize_inv:
  fixes w :: "'p relay_world"
  assumes "relay_initialize_from_config cx cfg w = Some w'"
  shows "relay_inv relay w'"
  using assms by (auto simp: relay_initialize_from_config_def relay_inv_def Let_def sp_initialize_if_uninitialized_def
      rstate_new_def split: sum.splits if_splits)

interpretation relay: rg_threads True "relay_inv (rp_relay_id rp)" relay_rely relay_guar "\<lambda>_ _. True"
  "relay_req_ok (rp_relay_id rp)" yw_ticket "relay_installed (rp_cx rp)" "relay_handlers rp" "relay_upgrades (rp_cx rp)"
  for rp
proof (unfold_locales, goal_cases)
  case (1 i s)
  then show ?case by (rule relay_rely_refl)
next
  case (2 i a b c)
  then show ?case by (rule relay_rely_trans)
next
  case (5 i j s s')
  then show ?case by (simp add: relay_rely_def relay_guar_def)
next
  case (7 i s s')
  then show ?case by (simp add: relay_guar_def relay_later_def)
next
  case (8 s)
  then show ?case by (auto simp: relay_installed_def relay_init_def bind_eq_Some_conv intro: relay_initialize_inv)
next
  case (9 h s)
  then consider cycles where "h = scheduled_main_tick rp cycles" | cycles where "h = scheduled_main_retry rp cycles"
    | cycles where "h = splitter_main_continuation rp cycles" | "h = retry_active_splitter (rp_relay_id rp)"
    | "h = relay_deferred_poke rp" | caller matches where "h = relay_poke_message rp caller matches"
    | neuron where "h = refresh_surplus_neuron neuron" | now where "h = relay_clock now"
    by (auto simp: relay_handlers_def)
  then show ?case
  proof cases
    case 2
    then show ?thesis using scheduled_tick_rg [OF 9(2) untouched_requests(5)] by (simp add: scheduled_main_retry_def del: rgt.simps)
  qed (use 9(2) scheduled_tick_rg [OF 9(2) untouched_refl] continuation_rg retry_splitter_rg deferred_rg poke_rg refresh_rg clock_rg
    in \<open>simp_all del: rgt.simps\<close>)
next
  case (10 u s s')
  then show ?case
    by (auto simp: relay_upgrades_def relay_post_upgrade_def relay_initialize_from_args_def bind_eq_Some_conv
      intro: relay_initialize_inv)
qed simp_all

end
