(* ===== verification/RelayJobProperties.thy ===== *)
theory RelayJobProperties
  imports RelayTickSafety
begin

text \<open>
  What the Relay's daily job and its commitment promise in every run: any interleaving of ticks, pokes, timers
  and upgrades, with any answers.  A world is \<open>ordinary\<close> when its configuration and its job numbers fit
  their machine widths, and a job \<open>modest\<close> when its canisters together ask for fewer than 2^64 cycles.
\<close>

abbreviation relay_reach :: "relay_params \<Rightarrow> cycles_probe_route relay_world
    \<Rightarrow> (cycles_probe_route relay_world, relay_req, relay_resp, unit) proc list
    \<Rightarrow> (cycles_probe_route relay_world \<times> relay_req) list \<Rightarrow> bool" where
  "relay_reach rp \<equiv> reach (relay_installed (rp_cx rp)) (relay_handlers rp) (relay_upgrades (rp_cx rp))"

lemma reached_inv: "relay_reach rp w ps log \<Longrightarrow> relay_inv (rp_relay_id rp) w"
  by (rule relay.reach_inv)

lemma reached_request:
  "relay_reach rp w ps log \<Longrightarrow> (sq, q) \<in> set log \<Longrightarrow> relay_inv (rp_relay_id rp) sq"
  "relay_reach rp w ps log \<Longrightarrow> (sq, q) \<in> set log \<Longrightarrow> relay_req_ok (rp_relay_id rp) sq q"
  using relay.reach_requests by blast+

lemma reached_job:
  assumes "relay_reach rp w ps log" "active_job w = Some job" "ordinary w"
  shows "relay_job_inv (rp_relay_id rp) (rcfg w) (yw_staged w) (yw_job_sent w) job"
  using reached_inv [OF assms(1)] assms(2,3) by (simp add: relay_inv_def)

section \<open>Balances\<close>

lemma staged_debit:
  assumes "staged_ok relay cfg fee t"
  shows "transfer_debit (pending_transfer_arg cmc fee t) = unat (rt_gross_share_e8s t)"
  using assms by (simp add: staged_ok_def transfer_debit_def pending_transfer_arg_def)

lemma sum_image_list: "(\<Sum>a \<in> f ` set xs. d a) \<le> (\<Sum>x\<leftarrow>xs. d (f x))" for d :: "'b \<Rightarrow> nat"
proof (induction xs)
  case (Cons x xs)
  have "sum d (insert (f x) (f ` set xs)) \<le> d (f x) + sum d (f ` set xs)" by (cases "f x \<in> f ` set xs") (simp_all add: insert_absorb)
  then show ?case using Cons by simp
qed simp

lemma staged_within_balance:
  assumes inv: "relay_job_inv relay cfg staged sent job" and modest: "modest job"
  shows "gross_of staged \<le> unat (rj_balance_start_e8s job)"
  using inv modest gross_of_split [of staged] by (simp add: relay_job_inv_def job_budget_def)

lemma sent_debits:
  assumes inv: "relay_job_inv relay cfg staged sent job"
  shows "(\<Sum>a \<in> set sent. transfer_debit a) \<le> gross_of staged"
proof -
  let ?arg = "pending_transfer_arg (rcf_cmc_canister_id cfg) (rj_fee_e8s job)"
  have "(\<Sum>a \<in> set sent. transfer_debit a) \<le> (\<Sum>a \<in> ?arg ` set staged. transfer_debit a)"
    using inv by (intro sum_mono2) (simp_all add: relay_job_inv_def)
  also have "\<dots> \<le> (\<Sum>t\<leftarrow>staged. transfer_debit (?arg t))" by (rule sum_image_list)
  also have "map (\<lambda>t. transfer_debit (?arg t)) staged = map (\<lambda>t. unat (rt_gross_share_e8s t)) staged"
    using inv staged_debit by (auto simp: relay_job_inv_def list_all_iff)
  finally show ?thesis by (simp add: gross_of_def)
qed

text \<open>C35: Whatever its transfers were answered and however often they were sent again, the different transfers
  the active daily job has sent, with their fees, never exceed the balance of the default account it started
  from.\<close>

theorem relay_job_within_balance:
  assumes run: "relay_reach rp w ps log" and job: "active_job w = Some job" and modest: "ordinary w" "modest job"
  shows "(\<Sum>a \<in> set (yw_job_sent w). transfer_debit a) \<le> unat (rj_balance_start_e8s job)"
  using sent_debits [OF reached_job [OF run job modest(1)]] staged_within_balance [OF reached_job [OF run job modest(1)] modest(2)]
  by (rule order_trans)

section \<open>Transfers\<close>


lemma subaccount_one_not_splitter: "n \<in> set splitter_percentages \<Longrightarrow> relay_subaccount_one \<noteq> relay_numbered_subaccount n"
proof
  assume n: "n \<in> set splitter_percentages" and same: "relay_subaccount_one = relay_numbered_subaccount n"
  have "relay_numbered_subaccount m ! 31 = m" for m by (simp add: relay_numbered_subaccount_def)
  then have "n = 1" using same by (metis relay_subaccount_one_def)
  then show False using n by (auto simp: splitter_percentages_def)
qed

text \<open>C37: A transfer from subaccount 1 carries the stored commitment: to an account of the configured Governance
  canister, at least one ICP, and together with its fee the whole balance the commitment was planned from.\<close>

theorem relay_commitment_pays_governance:
  assumes run: "relay_reach rp w ps log" and sent: "(sq, RqTransfer ledger arg) \<in> set log"
    and source: "ta_from_subaccount arg = Some relay_subaccount_one" and ordinary: "ordinary sq"
  shows "ledger = rcf_ledger_canister_id (rcfg sq) \<and> acc_owner (ta_to arg) = rcf_governance_canister_id (rcfg sq) \<and>
    100000000 \<le> ta_amount arg \<and> (\<exists>commitment. active_commitment sq = Some commitment \<and>
      transfer_debit arg = unat (fx_balance_start_e8s commitment))"
proof -
  have "\<not> (\<exists>n \<in> set splitter_percentages. relay_subaccount_one = relay_numbered_subaccount n)"
    using subaccount_one_not_splitter by blast
  then obtain c cmc where c: "ledger = rcf_ledger_canister_id (rcfg sq)" "active_commitment sq = Some c"
    "arg = pending_transfer_arg cmc (fx_fee_e8s c) (fx_transfer c)"
    using reached_request(2) [OF run sent] source ordinary by auto
  have ok: "commitment_ok (rcfg sq) c" using reached_request(1) [OF run sent] c(2) by (simp add: relay_inv_def)
  then obtain destination memo where kind: "rt_kind (fx_transfer c) = FaucetCommitment faucet_neuron_id destination relay_subaccount_one memo"
    "acc_owner destination = rcf_governance_canister_id (rcfg sq)" by (auto simp: commitment_ok_def)
  have amount: "unat (min_raw_icp_recipient_amount_e8s) \<le> unat (rt_amount_e8s (fx_transfer c))"
    "unat (fx_balance_start_e8s c) = unat (rt_amount_e8s (fx_transfer c)) + unat (fx_fee_e8s c)"
    using ok by (simp_all add: commitment_ok_def word_le_nat_alt)
  then show ?thesis using c kind
    by (auto simp: pending_transfer_arg_def destination_for_pending_def transfer_debit_def min_raw_icp_recipient_amount_e8s_def)
qed


section \<open>The job\<close>

text \<open>C39: A reachable job is well formed: its indices stay within its lists, its surplus memos match its surplus
  transfers, it tops up only canisters the Relay manages, and every transfer it staged has an earlier creation
  time than those staged after it, so that the ledger never takes two of them for one.\<close>

theorem relay_job_well_formed:
  assumes run: "relay_reach rp w ps log" and job: "active_job w = Some job" "ordinary w"
  shows "unat (rj_next_transfer_index job) \<le> length (rj_canisters job) \<and>
    unat (rj_surplus_transfer_index job) \<le> length (rj_surplus_transfers job) \<and>
    (rj_surplus_transfers job \<noteq> [] \<longrightarrow> length (rj_surplus_memos job) = length (rj_surplus_transfers job)) \<and>
    list_all (\<lambda>c. managed_by (rp_relay_id rp) (rcfg w) (cb_canister_id c)) (rj_canisters job) \<and>
    (rj_next_created_at_time_nanos job \<noteq> u_max \<longrightarrow>
       sorted_wrt (\<lambda>t t'. rt_created_at_time_nanos t' < rt_created_at_time_nanos t) (yw_staged w))"
proof -
  note inv = reached_job [OF run job]
  then have shape: "job_shape (rp_relay_id rp) (rcfg w) job" and times: "job_times (yw_staged w) job"
    by (simp_all add: relay_job_inv_def)
  have "rj_surplus_transfers job \<noteq> [] \<longrightarrow> length (rj_surplus_memos job) = length (rj_surplus_transfers job)"
    using shape by (auto simp: job_shape_def dest: list_all2_lengthD)
  moreover have "list_all (\<lambda>c. managed_by (rp_relay_id rp) (rcfg w) (cb_canister_id c)) (rj_canisters job)"
    using shape by (auto simp: job_shape_def list_all_iff topup_entry_ok_def)
  ultimately show ?thesis using shape times by (simp add: job_shape_def job_times_def)
qed

text \<open>C40: The loop that drives the daily job ends.  From any world of the invariant, under the main lease, the
  fuel counted from the transfers the job can still stage is enough whatever is answered and whatever other
  handlers do at each suspension: the loop returns a result.\<close>

theorem relay_job_loop_returns:
  assumes inv: "relay_inv relay w" and runs: "runs relay t cx w"
  shows "relay_rg relay t (\<lambda>w' res. ordinary w' \<longrightarrow> res \<noteq> None)
    (drive_relay_job (job_turns (rcfg w) (active_job w)) cx limit 0 w) w"
  using drive_job_rg [OF assms] by (rule rgt_post) (simp add: looped_def)

text \<open>A refused top-up is counted as unspent, but not once the surplus it forbids is disabled.\<close>

lemma disabled_surplus_forgets_failure:
  "ry_known_unspent_e8s (rj_summary (without_surplus reason (settle_summary f job))) =
     ry_known_unspent_e8s (rj_summary (without_surplus reason job))"
  by (simp add: without_surplus_def settle_summary_def Let_def)

end
