(* ===== verification/RelayJobExamples.thy ===== *)
theory RelayJobExamples
  imports RelayJobProperties RelaySplitterExamples
begin

text \<open>
  A worked example for the daily job: an installed Relay takes its baseline sample in its first tick; a day
  later its balance pays a top-up of the Relay itself, which the ledger accepts and the Cycles Minting Canister
  is notified of.  Another tick commits the balance of subaccount 1.
\<close>

section \<open>Runs given by their answers\<close>

inductive gets :: "'r list \<Rightarrow> ('s, 'q, 'r, 'a) proc \<Rightarrow> ('s, 'q, 'r, 'a) proc \<Rightarrow> bool" where
  gets_refl: "gets [] p p"
| gets_step: "gets rs (k r s) p \<Longrightarrow> gets (r # rs) (Await s q k) p"

lemma gets_trans: "gets rs p p' \<Longrightarrow> gets rs' p' p'' \<Longrightarrow> gets (rs @ rs') p p''"
  by (induction rule: gets.induct) (auto intro: gets.intros)

lemma gets_bind: "gets rs p p' \<Longrightarrow> gets rs (pbind p f) (pbind p' f)"
  by (induction rule: gets.induct) (auto intro: gets.intros)

lemma gets_then: "gets rs p (Done s a) \<Longrightarrow> gets rs' (f s a) p' \<Longrightarrow> gets (rs @ rs') (pbind p f) p'"
  using gets_trans gets_bind by fastforce

lemma gets_end: "gets rs p (Done s a) \<Longrightarrow> f s a = p' \<Longrightarrow> gets rs (pbind p f) p'"
  using gets_bind [of rs p "Done s a" f] by simp

lemma gets_resumed:
  assumes "gets rs p p'" "p = Await s q k" "reach init H U s (Await s q k # ps) log" "(s, q) \<in> set log"
  shows "(\<forall>s' a. p' = Done s' a \<longrightarrow> (\<exists>log'. reach init H U s' ps log')) \<and>
    (\<forall>s' q' k'. p' = Await s' q' k' \<longrightarrow> (\<exists>log'. reach init H U s' (p' # ps) log' \<and> (s', q') \<in> set log'))"
  using assms
proof (induction arbitrary: s q k log rule: gets.induct)
  case (gets_step rs k0 r s0 p' q0)
  then have run: "reach init H U s ([] @ Await s q k # ps) log" "k0 = k" "s0 = s" by simp_all
  show ?case
  proof (cases "k r s")
    case (Done s1 a)
    then have "gets rs (Done s1 a) p'" using gets_step.hyps(1) run(2,3) by simp
    then have "p' = Done s1 a" by cases
    then show ?thesis using reach.resume_done [OF run(1) Done] by auto
  next
    case (Await s1 q1 k1)
    then have "k0 r s0 = Await s1 q1 k1" using run(2,3) by simp
    from gets_step.IH [OF this, of "(s1, q1) # log"] show ?thesis using reach.resume_await [OF run(1) Await] by simp
  next
    case Trap
    then have "gets rs Trap p'" using gets_step.hyps(1) run(2,3) by simp
    then show ?thesis by cases simp_all
  qed
qed blast

lemma gets_reach:
  assumes run: "reach init H U s ps log" "h \<in> H" and gets: "gets rs (h s) p'"
  shows "p' = Done s' a \<Longrightarrow> \<exists>log'. reach init H U s' ps log'"
    "p' = Await s' q' k' \<Longrightarrow> \<exists>log'. reach init H U s' (p' # ps) log' \<and> (s', q') \<in> set log'"
proof -
  have "(\<forall>s' a. p' = Done s' a \<longrightarrow> (\<exists>log'. reach init H U s' ps log')) \<and>
    (\<forall>s' q' k'. p' = Await s' q' k' \<longrightarrow> (\<exists>log'. reach init H U s' (p' # ps) log' \<and> (s', q') \<in> set log'))"
  proof (cases "h s")
    case (Await s1 q1 k1)
    from gets_resumed [OF gets Await reach.spawn_await [OF run Await]] show ?thesis by simp
  next
    case (Done s1 a1)
    then have "p' = Done s1 a1" using gets by (auto elim: gets.cases)
    then show ?thesis using reach.spawn_done [OF run Done] by blast
  next
    case Trap
    then have "p' = Trap" using gets by (auto elim: gets.cases)
    then show ?thesis by simp
  qed
  then show "p' = Done s' a \<Longrightarrow> \<exists>log'. reach init H U s' ps log'"
    "p' = Await s' q' k' \<Longrightarrow> \<exists>log'. reach init H U s' (p' # ps) log' \<and> (s', q') \<in> set log'" by blast+
qed

text \<open>The run stops at a request.\<close>

definition stops :: "'r list \<Rightarrow> ('s, 'q, 'r, 'a) proc \<Rightarrow> 's \<Rightarrow> 'q \<Rightarrow> bool" where
  "stops rs p s q \<longleftrightarrow> (\<exists>k. gets rs p (Await s q k))"

lemma stops_here: "stops [] (Await s q k) s q"
  using gets_refl unfolding stops_def by blast

lemma stops_step: "stops rs (k r s) s' q' \<Longrightarrow> stops (r # rs) (Await s q k) s' q'"
  unfolding stops_def by (auto intro: gets_step)

lemma stops_bind: "stops rs p s q \<Longrightarrow> stops rs (pbind p f) s q"
  using gets_bind unfolding stops_def by fastforce

lemma stops_then: "gets rs p (Done s a) \<Longrightarrow> stops rs' (f s a) s' q \<Longrightarrow> stops (rs @ rs') (pbind p f) s' q"
  using gets_then unfolding stops_def by metis

lemma stops_reach:
  assumes "reach init H U s ps log" "h \<in> H" "stops rs (h s) s' q"
  obtains ps' log' where "reach init H U s' ps' log'" "(s', q) \<in> set log'"
  using assms gets_reach(2) [OF assms(1,2) _ refl] unfolding stops_def by metis

section \<open>The quiet stages\<close>

lemma gets_splitters:
  assumes "set ns \<subseteq> set splitter_percentages" "sp_get w = splitter_state_default"
  shows "gets (replicate (length ns) (RsNat (Inl e)))
    (stage_splitters relay ledger pinned fee now g None ns w) (Done (splitter_guard_drop g w) StageReady)"
  using assms
proof (induction ns)
  case Nil
  then show ?case by (simp add: stage_return_def gets_refl)
next
  case (Cons n ns)
  then obtain source where "splitter_source_account relay n = Some source"
    by (auto simp: splitter_source_account_def splitter_percentage_Some)
  then show ?case using Cons by (auto simp: is_quarantined_def splitter_state_default_def y_client_u64_def intro!: gets_step)
qed

text \<open>A Relay whose splitters and locks are idle, and the changes the quiet stages make to it.\<close>

definition idle_splitters :: "'p relay_world \<Rightarrow> bool" where
  "idle_splitters w \<longleftrightarrow> rs_splitter_lock_state_ts (yw_st w) = Some 0 \<and> sp_get w = splitter_state_default"

definition exj_priced :: "'p relay_world \<Rightarrow> 'p relay_world" where
  "exj_priced w = y_with_state_mut (\<lambda>st. st\<lparr>rs_last_known_ledger_fee_e8s := Some 10000\<rparr>) w"

definition exj_staged :: "'p relay_world \<Rightarrow> 'p relay_world" where
  "exj_staged w = exj_priced (w\<lparr>yw_splitter_owner := None\<rparr>)"

lemma exj_fee: "resolve_icp_ledger_fee_e8s (RsNat (Inr 10000)) w = (10000, exj_priced w)"
  by (simp add: resolve_icp_ledger_fee_e8s_def y_client_u64_def nat_to_u64_def exj_priced_def)

lemma exj_fields [simp]:
  "yw_now (exj_priced w) = yw_now w" "yw_ticket (exj_priced w) = yw_ticket w" "sp_get (exj_priced w) = sp_get w"
  "rcfg (exj_priced w) = rcfg w" "active_job (exj_priced w) = active_job w"
  "yw_st (exj_staged w) = yw_st (exj_priced w)" "yw_now (exj_staged w) = yw_now w" "sp_get (exj_staged w) = sp_get w"
  "idle_splitters (exj_priced w) = idle_splitters w" "idle_splitters (exj_staged w) = idle_splitters w"
  by (simp_all add: exj_priced_def exj_staged_def y_with_state_mut_def sp_get_def idle_splitters_def)

abbreviation exj_splitter_answers :: "relay_resp list" where
  "exj_splitter_answers \<equiv> RsNat (Inr 10000) # replicate (length splitter_percentages) (RsNat (Inl ''unreachable''))"

lemma gets_stage:
  assumes idle: "idle_splitters w"
  shows "gets exj_splitter_answers (process_main_stage t now relay ledger w) (Done (exj_staged w) StageReady)"
proof -
  obtain g w1 where acquire: "splitter_guard_acquire t (now div 1000000000) w = Some (g, w1)"
    and g: "g = \<lparr>tlg_active = True, tlg_expires = sat_add (now div 1000000000) splitter_lease_seconds\<rparr>"
    and w1: "w1 = y_with_state_mut (\<lambda>st. st\<lparr>rs_splitter_lock_state_ts := Some (tlg_expires g)\<rparr>) (w\<lparr>yw_splitter_owner := Some t\<rparr>)"
    using idle by (simp add: splitter_guard_acquire_def tlg_acquire_def idle_splitters_def)
  have free: "sp_active_job w1 = None" "sp_get (exj_priced w1) = splitter_state_default"
    using idle by (simp_all add: w1 idle_splitters_def y_with_state_mut_def sp_active_job_def sp_get_def exj_priced_def splitter_state_default_def)
  have current: "splitter_guard_is_current g (exj_priced w1)"
    by (simp add: splitter_guard_is_current_def exj_priced_def y_with_state_mut_def w1 g)
  have "yw_st w\<lparr>rs_last_known_ledger_fee_e8s := Some 10000, rs_splitter_lock_state_ts := Some 0\<rparr> =
      yw_st w\<lparr>rs_last_known_ledger_fee_e8s := Some 10000\<rparr>"
    using idle by (cases "yw_st w") (simp add: idle_splitters_def)
  then have drop: "splitter_guard_drop g (exj_priced w1) = exj_staged w"
    by (simp add: splitter_guard_drop_def tlg_release_def exj_priced_def exj_staged_def y_with_state_mut_def w1 g)
  show ?thesis
    using gets_splitters [OF order_refl free(2), of "''unreachable''" relay ledger _ 10000 now g] drop
    by (simp add: process_main_stage_def acquire free(1) stage_fee_def stage_with_fee_def exj_fee current gets_step)
qed

lemma priced_again [simp]: "exj_priced (exj_priced w) = exj_priced w" "exj_priced (exj_staged w) = exj_staged w"
  by (simp_all add: exj_priced_def exj_staged_def y_with_state_mut_def)

lemma priced_lease [simp]: "main_lease_is_current e (exj_priced w) = main_lease_is_current e w"
    "main_lease_is_current e (exj_staged w) = main_lease_is_current e w"
  by (simp_all add: main_lease_is_current_def exj_priced_def exj_staged_def y_with_state_mut_def)

abbreviation exj_reactive_answers :: "relay_resp list" where
  "exj_reactive_answers \<equiv> exj_splitter_answers @ [RsNat (Inr 10000), RsNat (Inl ''unreachable'')]"

lemma gets_reactive:
  assumes idle: "idle_splitters w" "active_commitment w = None" and current: "main_lease_is_current (rx_lease cx) w"
  shows "gets exj_reactive_answers (run_reactive_funding_stages t cx w) (Done (exj_staged w) FpCompleted)"
  unfolding run_reactive_funding_stages_def
proof (rule gets_then [OF gets_stage [OF idle(1)]])
  have none: "active_commitment (exj_staged w) = None" using idle(2) by (simp add: exj_priced_def y_with_state_mut_def)
  let ?rs = "[RsNat (Inr 10000), RsNat (Inl ''unreachable'')]"
  have plan: "gets ?rs (plan_faucet_commitment cx (exj_staged w)) (Done (exj_staged w) ())"
    using none by (simp add: plan_faucet_commitment_def plan_commitment_with_fee_def exj_fee
      plan_commitment_with_balance_def y_client_u64_def gets_step gets_refl)
  have "gets ?rs (pbind (plan_faucet_commitment cx (exj_staged w)) (\<lambda>w _. if \<not> main_lease_is_current (rx_lease cx) w
      then Done w True else drive_pending_faucet_commitment_transfer cx w)) (Done (exj_staged w) True)"
    using none current by (intro gets_end [OF plan]) (simp add: drive_pending_faucet_commitment_transfer_def)
  then have resume: "gets ?rs (resume_or_start_faucet_commitment cx (exj_staged w)) (Done (exj_staged w) True)"
    using none by (simp add: resume_or_start_faucet_commitment_def)
  have "gets ?rs (pbind (resume_or_start_faucet_commitment cx (exj_staged w)) (\<lambda>w ok. Done w (stage_outcome cx w ok)))
      (Done (exj_staged w) FpCompleted)"
    using current by (intro gets_end [OF resume]) (simp add: stage_outcome_def)
  then show "gets ?rs (reactive_after_splitters cx (exj_staged w) StageReady) (Done (exj_staged w) FpCompleted)"
    using current by (simp add: reactive_after_splitters_def)
qed

section \<open>The Relay of the example\<close>

definition exj_rp :: relay_params where
  "exj_rp = \<lparr>rp_env = \<lparr>pe_less = (\<lambda>a b. length a < length b), pe_text = (\<lambda>_. ''''), pe_thirteen_node_blackhole = [1],
     pe_fiduciary_blackhole = [2], pe_nns_root = [4]\<rparr>, rp_cx = example_candid, rp_account_key = id, rp_relay_id = [9]\<rparr>"

definition exj_start :: "cycles_probe_route relay_world" where
  "exj_start = (relay_blank 1700000000000000000 (rstate_new ex_relay_config 1700000000))
     \<lparr>yw_splitter := Some splitter_state_default\<rparr>"

lemma exj_installed: "relay_installed (rp_cx exj_rp) exj_start"
proof -
  have "relay_init example_candid 1700000000000000000 ex_relay_args = Some exj_start"
    by (simp add: relay_init_def relay_config_from_init_args_def ex_relay_args_def or_mainnet_def
      public_surplus_recipients_from_args_def example_candid_def relay_initialize_from_config_def rvalidate_config_def
      and_then_def validate_canister_principal_def exj_start_def relay_blank_def sp_initialize_if_uninitialized_def
      validate_active_ledger_def sp_active_job_def sp_get_def splitter_state_default_def
      ex_relay_config_def y_now_secs_def rstate_new_def max_def word_le_nat_alt Let_def)
  then show ?thesis by (auto simp: relay_installed_def exj_rp_def)
qed

text \<open>A Relay with nothing under way, its main lock, its last tick and its samples.\<close>

definition idle_relay :: "u64 \<Rightarrow> u64 \<Rightarrow> u64 \<Rightarrow> (principal \<times> cycles_snapshot) list \<Rightarrow> cycles_probe_route relay_world \<Rightarrow> bool" where
  "idle_relay lock now main_run samples w \<longleftrightarrow> idle_splitters w \<and> yw_now w = now \<and> rcfg w = ex_relay_config \<and>
     active_job w = None \<and> active_commitment w = None \<and> rs_main_lock_state_ts (yw_st w) = Some lock \<and>
     rs_last_main_run_ts (yw_st w) = main_run \<and> rs_next_job_id (yw_st w) = 1 \<and>
     rs_last_completed_cycles (yw_st w) = samples \<and> rs_relay_minted_cycles_since_sample (yw_st w) = [] \<and>
     rs_recovery_deficit_cycles (yw_st w) = [] \<and> rs_cached_cycles_probe_routes (yw_st w) = []"

lemma exj_idle: "idle_relay 0 1700000000000000000 1384640000 [] exj_start"
  by (simp add: idle_relay_def idle_splitters_def exj_start_def relay_blank_def rstate_new_def sp_get_def sat_sub_def)

section \<open>The first tick\<close>

definition exj_ctx :: "u64 \<Rightarrow> relay_ctx" where
  "exj_ctx now = relay_ctx_of exj_rp now (now div 1000000000 + 1800) ex_relay_config"

definition exj_snapshot :: "u64 \<Rightarrow> u128 \<Rightarrow> cycles_snapshot" where
  "exj_snapshot now cycles = \<lparr>cy_cycles = cycles, cy_timestamp_nanos = now, cy_source = SelfCanister\<rparr>"

lemma exj_ctx_simps [simp]:
  "rx_relay_id (exj_ctx now) = [9]" "rx_ledger (exj_ctx now) = [3]" "rx_cmc (exj_ctx now) = [5]" "rx_now (exj_ctx now) = now"
  "rx_governance (exj_ctx now) = [6]" "rx_lease (exj_ctx now) = now div 1000000000 + 1800" "rx_env (exj_ctx now) = rp_env exj_rp"
  "rx_cx (exj_ctx now) = example_candid"
  by (simp_all add: exj_ctx_def relay_ctx_of_def exj_rp_def ex_relay_config_def)

lemma exj_config_simps [simp]:
  "rcf_managed_canisters ex_relay_config = []" "rcf_cmc_canister_id ex_relay_config = [5]"
  "rcf_governance_canister_id ex_relay_config = [6]" "rcf_cycles_probe_policy ex_relay_config = ProbeAuto"
  "rcf_main_interval_seconds ex_relay_config = 86400" "rcf_max_transfers_per_tick ex_relay_config = None"
  "rcf_surplus_recipients ex_relay_config = []"
  by (simp_all add: ex_relay_config_def)

text \<open>Only the Relay itself is probed, and it knows its balance.\<close>

lemma exj_probed:
  "probe_cycles_batch (rp_env exj_rp) (relay_probe_client [9] cycles) ProbeAuto [] now [[9]]
     \<lparr>rb_snapshots = [], rb_failures = [], rb_route_updates = []\<rparr> =
   Answer \<lparr>rb_snapshots = [([9], exj_snapshot now cycles)], rb_failures = [], rb_route_updates = [([9], None)]\<rparr>"
  by (simp add: probe_cycles_def probe_cycles_for_audience_def relay_probe_client_def note_probe_def exj_snapshot_def
    sample_source_from_route_def probe_success_def)

lemma exj_targets: "effective_managed_canisters lt [] self = [self]"
  by (simp add: effective_managed_canisters_def)

lemma exj_start_job:
  assumes "active_job w = None" "rcfg w = ex_relay_config" "rs_cached_cycles_probe_routes (yw_st w) = []"
  shows "start_job (exj_ctx now) cycles w = start_with_probes (exj_ctx now) ex_relay_config (rs_next_job_id (yw_st w)) [[9]] w
     \<lparr>rb_snapshots = [([9], exj_snapshot now cycles)], rb_failures = [], rb_route_updates = [([9], None)]\<rparr>"
  using assms by (simp add: start_job_def exj_targets exj_probed List.map_filter_def del: probe_cycles_batch.simps)

definition exj_ob :: "u64 \<Rightarrow> u128 \<Rightarrow> relay_observation" where
  "exj_ob now cycles = \<lparr>ro_expected_next_job_id = 1, ro_cfg = ex_relay_config, ro_managed = [[9]],
     ro_current_cycles = [([9], exj_snapshot now cycles)],
     ro_statuses = [\<lparr>tp_canister_id = [9], tp_consecutive_probe_failures = 0, tp_classification = Observable,
       tp_skipped_reason = None\<rparr>], ro_failures = []\<rparr>"

definition exj_observed :: "'p relay_world \<Rightarrow> 'p relay_world" where
  "exj_observed w = w\<lparr>yw_st := (yw_st w)\<lparr>rs_cached_cycles_probe_routes := [], rs_consecutive_probe_failures :=
     map_put (pe_less (rp_env exj_rp)) [9] 0 (map_retain (\<lambda>c. c = [9]) (rs_consecutive_probe_failures (yw_st w)))\<rparr>\<rparr>"

abbreviation exj_lease :: "u64 \<Rightarrow> u64" where
  "exj_lease now \<equiv> now div 1000000000 + 1800"

lemma idle_generation: "idle_relay (exj_lease now) now m samples w \<Longrightarrow> job_generation_matches (exj_ctx now) 1 w"
  by (simp add: idle_relay_def job_generation_matches_def main_lease_is_current_def)

lemma idle_current: "idle_relay l now m samples w \<Longrightarrow> main_lease_is_current l w"
  by (simp add: idle_relay_def main_lease_is_current_def)

lemma exj_observe:
  assumes idle: "idle_relay (exj_lease now) now m samples w"
  shows "start_job (exj_ctx now) cycles w = start_observed (exj_ctx now) (exj_ob now cycles) (exj_observed w)"
proof -
  have "rs_next_job_id (yw_st w) = 1" using idle by (simp add: idle_relay_def)
  then have "start_job (exj_ctx now) cycles w = start_with_probes (exj_ctx now) ex_relay_config 1 [[9]] w
     \<lparr>rb_snapshots = [([9], exj_snapshot now cycles)], rb_failures = [], rb_route_updates = [([9], None)]\<rparr>"
    using idle exj_start_job [of w now cycles] by (simp add: idle_relay_def)
  moreover have "rs_cached_cycles_probe_routes (yw_st w) = []" using idle by (simp add: idle_relay_def)
  ultimately show ?thesis using idle_generation [OF idle]
    by (simp add: start_with_probes_def update_routes_def map_drop_def update_consecutive_probe_failures_def
      probe_status_def classify_target_probe_def exj_ob_def exj_observed_def List.map_filter_def Let_def)
qed

lemma idle_kept:
  assumes "idle_relay l now m samples w"
  shows "idle_relay l now m samples (exj_staged w)" "idle_relay l now m samples (exj_observed w)"
    "idle_relay l now m samples (clear_splitter_main_continuation_request w)"
  using assms by (simp_all add: idle_relay_def exj_observed_def idle_splitters_def sp_get_def exj_staged_def exj_priced_def
    clear_splitter_main_continuation_request_def y_with_state_mut_def)

lemma exj_baseline:
  assumes idle: "idle_relay (exj_lease now) now m [] w"
  obtains w' where "start_job (exj_ctx now) cycles w = Done w' ()"
    "idle_relay (exj_lease now) now m [([9], exj_snapshot now cycles)] w'"
proof
  let ?summary = "(observed_summary (exj_ctx now) (exj_ob now cycles) BaselineOnly)
      \<lparr>ry_completed_at_ts_nanos := Some now, ry_skipped_surplus_reason := Some ''missing_previous_sample''\<rparr>"
  let ?w = "y_with_state_mut (complete_baseline_sample (pe_less (rp_env exj_rp)) [([9], exj_snapshot now cycles)] [[9]] ?summary)
    (exj_observed w)"
  have observed: "idle_relay (exj_lease now) now m [] (exj_observed w)" by (rule idle_kept(2) [OF idle])
  then show "start_job (exj_ctx now) cycles w = Done ?w ()"
    by (simp add: exj_observe [OF idle] start_observed_def idle_relay_def exj_ob_def transient_failures_def)
  show "idle_relay (exj_lease now) now m [([9], exj_snapshot now cycles)] ?w"
    using observed by (simp add: idle_relay_def complete_baseline_sample_def retain_effective_targets_def map_retain_def
      map_drop_def y_with_state_mut_def idle_splitters_def sp_get_def)
qed

lemma exj_no_job: "active_job w = None \<Longrightarrow> drive_active_relay_job cx w = Done w True"
  by (simp add: drive_active_relay_job_def job_turns_def drive_turn_def)

lemma gets_baseline_pipeline:
  assumes idle: "idle_relay (exj_lease now) now m [] w"
  obtains w' where "gets exj_reactive_answers (run_funding_pipeline t (exj_ctx now) cycles w) (Done w' FpCompleted)"
    "idle_relay (exj_lease now) now m [([9], exj_snapshot now cycles)] w'"
proof -
  have staged: "idle_relay (exj_lease now) now m [] (exj_staged w)" by (rule idle_kept(1) [OF idle])
  from exj_baseline [OF staged] obtain w1 where job: "start_job (exj_ctx now) cycles (exj_staged w) = Done w1 ()"
    and w1: "idle_relay (exj_lease now) now m [([9], exj_snapshot now cycles)] w1" by metis
  have reactive: "gets exj_reactive_answers (run_reactive_funding_stages t (exj_ctx now) w) (Done (exj_staged w) FpCompleted)"
    using idle idle_current [OF idle] by (intro gets_reactive) (simp_all add: idle_relay_def)
  have "active_job (exj_staged w) = None" "active_job w1 = None" using staged w1 by (simp_all add: idle_relay_def)
  then have "resume_or_start_job (exj_ctx now) cycles (exj_staged w) = Done w1 True"
    using idle_current [OF w1] job by (simp add: resume_or_start_job_def exj_no_job)
  then have "funding_after_reactive (exj_ctx now) cycles (exj_staged w) FpCompleted =
      Done (clear_splitter_main_continuation_request w1) FpCompleted"
    using idle_current [OF w1] by (simp add: funding_after_reactive_def stage_outcome_def)
  then show thesis using gets_end [OF reactive] idle_kept(3) [OF w1] that unfolding run_funding_pipeline_def by blast
qed

abbreviation exj_guard :: "u64 \<Rightarrow> timer_lease_guard" where
  "exj_guard now \<equiv> \<lparr>tlg_active = True, tlg_expires = exj_lease now\<rparr>"

text \<open>The times of the example: the tick is due, and the lease fits 64 bits.\<close>

definition tick_due :: "u64 \<Rightarrow> u64 \<Rightarrow> bool" where
  "tick_due now m \<longleftrightarrow> sat_add (now div 1000000000) 1800 = exj_lease now \<and> 86340 \<le> sat_sub (now div 1000000000) m"

lemma exj_tick_begins:
  assumes idle: "idle_relay 0 now m samples w" and due: "tick_due now m"
  obtains w1 where "idle_relay (exj_lease now) now m samples w1"
    "run_main_tick exj_rp False cycles t w = pbind (run_funding_pipeline t (exj_ctx now) cycles w1)
       (tick_after_funding (exj_guard now) (now div 1000000000))"
    "main_guard_acquire t (now div 1000000000) w = Some (exj_guard now, w1)"
proof
  let ?w = "y_with_state_mut (\<lambda>st. st\<lparr>rs_main_lock_state_ts := Some (exj_lease now)\<rparr>) (w\<lparr>yw_main_owner := Some t\<rparr>)"
  show idle1: "idle_relay (exj_lease now) now m samples ?w"
    using idle by (simp add: idle_relay_def y_with_state_mut_def idle_splitters_def sp_get_def)
  have facts: "rs_main_lock_state_ts (yw_st w) = Some 0" "y_now_secs w = now div 1000000000" "yw_now w = now" "rcfg w = ex_relay_config"
    "rs_last_main_run_ts (yw_st ?w) = m"
    using idle idle1 by (simp_all add: idle_relay_def y_now_secs_def)
  show acquire: "main_guard_acquire t (now div 1000000000) w = Some (exj_guard now, ?w)"
    using due by (simp add: main_guard_acquire_def tlg_acquire_def facts(1) main_lease_seconds_def tick_due_def)
  have gap: "sat_sub 86400 60 = (86340 :: u64)" by (simp add: sat_sub_def)
  have "\<not> sat_sub (now div 1000000000) m < 86340" using due by (simp add: tick_due_def not_less)
  then show "run_main_tick exj_rp False cycles t w = pbind (run_funding_pipeline t (exj_ctx now) cycles ?w)
       (tick_after_funding (exj_guard now) (now div 1000000000))"
    using idle_current [OF idle1] facts
    by (simp add: run_main_tick_def facts(2) acquire gap main_guard_is_current_def main_lease_is_current_def
      exj_ctx_def Let_def)
qed

lemma gets_tick_end:
  assumes idle: "idle_relay (exj_lease now) now m samples w"
  obtains w' where "gets [RsRewardPinned False] (tick_after_funding (exj_guard now) (now div 1000000000) w FpCompleted)
      (Done w' TickCompleted)" "idle_relay 0 now (now div 1000000000) samples w'"
proof
  let ?w = "main_guard_finish (exj_guard now) (now div 1000000000) (record_core_progress (exj_guard now) (now div 1000000000) w)"
  show "gets [RsRewardPinned False] (tick_after_funding (exj_guard now) (now div 1000000000) w FpCompleted) (Done ?w TickCompleted)"
    by (simp add: tick_after_funding_def tick_rewards_def gets_step gets_refl)
  show "idle_relay 0 now (now div 1000000000) samples ?w"
    using idle by (simp add: idle_relay_def main_guard_finish_def record_core_progress_def main_guard_is_current_def
      tlg_release_def y_with_state_mut_def idle_splitters_def sp_get_def)
qed

lemma idle_ticket: "idle_relay l now m samples (w\<lparr>yw_ticket := n\<rparr>) = idle_relay l now m samples w"
  by (simp add: idle_relay_def idle_splitters_def sp_get_def)

lemma gets_baseline_tick:
  assumes idle: "idle_relay 0 now m [] w" and due: "tick_due now m"
  obtains w' where "gets (exj_reactive_answers @ [RsRewardPinned False]) (scheduled_main_tick exj_rp cycles w) (Done w' ())"
    "idle_relay 0 now (now div 1000000000) [([9], exj_snapshot now cycles)] w'"
proof -
  let ?w = "w\<lparr>yw_ticket := yw_ticket w + 1\<rparr>"
  have "idle_relay 0 now m [] ?w" using idle by (simp add: idle_ticket)
  from exj_tick_begins [OF this due] obtain w1 where w1: "idle_relay (exj_lease now) now m [] w1"
    and run: "run_main_tick exj_rp False cycles (yw_ticket w) ?w = pbind (run_funding_pipeline (yw_ticket w) (exj_ctx now) cycles w1)
       (tick_after_funding (exj_guard now) (now div 1000000000))" by metis
  from gets_baseline_pipeline [OF w1] obtain w2 where
    pipeline: "gets exj_reactive_answers (run_funding_pipeline (yw_ticket w) (exj_ctx now) cycles w1) (Done w2 FpCompleted)"
    and w2: "idle_relay (exj_lease now) now m [([9], exj_snapshot now cycles)] w2" by metis
  from gets_tick_end [OF w2] obtain w3 where
    rewards: "gets [RsRewardPinned False] (tick_after_funding (exj_guard now) (now div 1000000000) w2 FpCompleted) (Done w3 TickCompleted)"
    and w3: "idle_relay 0 now (now div 1000000000) [([9], exj_snapshot now cycles)] w3" by metis
  have tick: "gets (exj_reactive_answers @ [RsRewardPinned False]) (run_main_tick exj_rp False cycles (yw_ticket w) ?w) (Done w3 TickCompleted)"
    unfolding run by (rule gets_then [OF pipeline], rule rewards)
  then have "gets (exj_reactive_answers @ [RsRewardPinned False]) (main_tick exj_rp False cycles True w) (Done w3 TickCompleted)"
    unfolding main_tick_def by (rule gets_end) simp
  then have "gets (exj_reactive_answers @ [RsRewardPinned False]) (scheduled_main_tick exj_rp cycles w) (Done w3 ())"
    unfolding scheduled_main_tick_def by (rule gets_end) simp
  then show thesis using w3 by (rule that)
qed

section \<open>A day later\<close>

abbreviation exj_day1 :: u64 where "exj_day1 \<equiv> 1700000000000000000"
abbreviation exj_day2 :: u64 where "exj_day2 \<equiv> 1700086400000000000"

lemma exj_due: "tick_due exj_day1 1384640000" "tick_due exj_day2 (exj_day1 div 1000000000)"
  by (simp_all add: tick_due_def sat_add_def sat_sub_def word_le_nat_alt)

lemma exj_handlers: "scheduled_main_tick rp cycles \<in> relay_handlers rp" "relay_clock now \<in> relay_handlers rp"
  by (auto simp: relay_handlers_def)

lemma exj_sampled:
  obtains w log where "relay_reach exj_rp w [] log"
    "idle_relay 0 exj_day2 (exj_day1 div 1000000000) [([9], exj_snapshot exj_day1 2000000)] w"
proof -
  from gets_baseline_tick [OF exj_idle exj_due(1)] obtain w where
    tick: "gets (exj_reactive_answers @ [RsRewardPinned False]) (scheduled_main_tick exj_rp 2000000 exj_start) (Done w ())"
    and w: "idle_relay 0 exj_day1 (exj_day1 div 1000000000) [([9], exj_snapshot exj_day1 2000000)] w"
    by (rule gets_baseline_tick [OF exj_idle exj_due(1), of 2000000])
  from gets_reach(1) [OF reach.start [where init = "relay_installed (rp_cx exj_rp)", OF exj_installed] exj_handlers(1) tick refl]
  obtain log where run: "relay_reach exj_rp w [] log" by blast
  obtain w' where clock: "relay_clock exj_day2 w = Done w' ()" by (simp add: relay_clock_def)
  have "idle_relay 0 exj_day2 (exj_day1 div 1000000000) [([9], exj_snapshot exj_day1 2000000)] w'"
    using w clock by (auto simp: relay_clock_def fresh_ticket_def idle_relay_def idle_splitters_def sp_get_def max_def word_le_nat_alt)
  then show thesis using that reach.spawn_done [OF run exj_handlers(2) clock] by blast
qed

section \<open>The job of the second day\<close>

definition exj_topup :: burn_plan where
  "exj_topup = \<lparr>bp_canister_id = [9], bp_previous_cycles = Some 2000000, bp_current_cycles = 1500000,
     bp_relay_minted_cycles = 0, bp_burn_cycles = 500000, bp_carried_deficit_cycles = 0, bp_target_topup_cycles = 500000,
     bp_gross_share_e8s = 100000000, bp_amount_e8s = 99990000, bp_actual_minted_cycles = 0,
     bp_remaining_deficit_cycles = 500000, bp_skipped_reason = None\<rparr>"

definition exj_allocation :: allocation_plan where
  "exj_allocation = \<lparr>al_topups = [exj_topup], al_topup_phase_fully_funded = True,
     al_skipped_surplus_reason = Some skip_no_raw_icp_recipients\<rparr>"

lemma exj_burn: "compute_burn 2000000 0 1500000 = 500000"
  by (simp add: compute_burn_def sat_sub_def sat_add_def word_le_nat_alt)

lemma exj_plan:
  "build_spend_all_cycles_plan [([9], exj_snapshot exj_day2 1500000)] [([9], exj_snapshot exj_day1 2000000)] [] []
     100000000 10000 = exj_allocation"
proof -
  let ?plan = "exj_topup\<lparr>bp_gross_share_e8s := 0, bp_amount_e8s := 0\<rparr>"
  have plans: "burn_plans [([9], exj_snapshot exj_day2 1500000)] [([9], exj_snapshot exj_day1 2000000)] [] [] False = [?plan]"
    by (simp add: burn_plans_def exj_snapshot_def exj_burn exj_topup_def sat_add_def Let_def)
  have share: "spend_share 100000000 500000 ?plan = 100000000"
    by (simp add: spend_share_def exj_topup_def sat_mul_def min_def word_le_nat_alt)
  have spent: "spend_topup 10000 ?plan 100000000 = exj_topup"
    by (simp add: spend_topup_def exj_topup_def sat_mul_def word_less_nat_alt word_le_nat_alt Let_def)
  have need: "bp_target_topup_cycles ?plan = 500000" by (simp add: exj_topup_def)
  have "0 < bp_amount_e8s exj_topup" by (simp add: exj_topup_def)
  then show ?thesis
    by (simp add: build_spend_all_cycles_plan_def plans need share spent exj_allocation_def)
qed

abbreviation exj_cx :: relay_ctx where
  "exj_cx \<equiv> exj_ctx exj_day2"

definition exj_job :: relay_job where
  "exj_job = new_job exj_cx (exj_ob exj_day2 1500000) 100000000 10000 None exj_allocation"

lemma exj_no_recipients [simp]: "\<not> has_raw_icp_recipients (exj_ob now cycles)"
  by (simp add: has_raw_icp_recipients_def exj_ob_def)

lemma exj_ob_simps [simp]:
  "ro_expected_next_job_id (exj_ob now cycles) = 1" "ro_current_cycles (exj_ob now cycles) = [([9], exj_snapshot now cycles)]"
  "\<not> transient_failures (ro_statuses (exj_ob now cycles))"
  by (simp_all add: exj_ob_def transient_failures_def)

lemma exj_job_estimate: "new_job exj_cx (exj_ob exj_day2 1500000) 100000000 10000 estimate exj_allocation = exj_job"
  by (simp add: exj_job_def new_job_def Let_def)

lemma exj_job_simps [simp]:
  "rj_id exj_job = 1" "rj_fee_e8s exj_job = 10000" "rj_balance_start_e8s exj_job = 100000000"
  "rj_canisters exj_job = [burn_sample_of exj_topup]" "rj_surplus_transfers exj_job = []" "rj_surplus_phase_planned exj_job"
  "rj_pending_transfer exj_job = None" "rj_next_transfer_index exj_job = 0" "rj_surplus_transfer_index exj_job = 0"
  "rj_next_created_at_time_nanos exj_job = exj_day2"
  by (simp_all add: exj_job_def new_job_def exj_allocation_def Let_def)

text \<open>A Relay whose job of the second day is active.\<close>

definition exj_runs :: "relay_job \<Rightarrow> cycles_probe_route relay_world \<Rightarrow> bool" where
  "exj_runs job w \<longleftrightarrow> active_job w = Some job \<and> rcfg w = ex_relay_config \<and> rs_next_job_id (yw_st w) = 2 \<and>
     main_lease_is_current (exj_lease exj_day2) w \<and> yw_now w = exj_day2"

lemma exj_allocate:
  assumes idle: "idle_relay (exj_lease exj_day2) exj_day2 m [([9], exj_snapshot exj_day1 2000000)] w"
  shows "exj_runs exj_job (allocate_job exj_cx (exj_ob exj_day2 1500000) 100000000 10000 w)"
proof -
  let ?w = "y_with_state_mut (\<lambda>st. st\<lparr>rs_relay_minted_cycles_since_sample := []\<rparr>) w"
  have "idle_relay (exj_lease exj_day2) exj_day2 m [([9], exj_snapshot exj_day1 2000000)] ?w"
    using idle by (simp add: idle_relay_def y_with_state_mut_def idle_splitters_def sp_get_def)
  then have "job_generation_matches exj_cx (rj_id exj_job) ?w"
    using idle_generation by simp
  moreover have "allocate_job exj_cx (exj_ob exj_day2 1500000) 100000000 10000 w = install_job exj_cx exj_job ?w"
  proof -
    have minted: "rs_relay_minted_cycles_since_sample (yw_st w) = []" using idle by (simp add: idle_relay_def)
    show ?thesis using idle by (simp add: allocate_job_def idle_relay_def exj_plan exj_job_estimate y_with_state_mut_def
      map_retain_def minted)
  qed
  ultimately show ?thesis
    using idle by (simp add: sat_add_def install_job_def exj_runs_def y_with_state_mut_def idle_relay_def main_lease_is_current_def)
qed

lemma gets_job_started:
  assumes idle: "idle_relay (exj_lease exj_day2) exj_day2 m [([9], exj_snapshot exj_day1 2000000)] w"
  obtains w' where "gets [RsNat (Inr 100000000), RsNat (Inr 10000)] (start_job exj_cx 1500000 w) (Done w' ())" "exj_runs exj_job w'"
proof
  let ?w = "exj_priced (exj_observed w)"
  have idle1: "idle_relay (exj_lease exj_day2) exj_day2 m [([9], exj_snapshot exj_day1 2000000)] ?w"
    using idle_kept(2) [OF idle] by (simp add: idle_relay_def exj_priced_def y_with_state_mut_def idle_splitters_def sp_get_def)
  have idle0: "idle_relay (exj_lease exj_day2) exj_day2 m [([9], exj_snapshot exj_day1 2000000)] (exj_observed w)"
    by (rule idle_kept(2) [OF idle])
  note generations = idle_generation [OF idle0] idle_generation [OF idle1]
  have "rs_last_completed_cycles (yw_st (exj_observed w)) = [([9], exj_snapshot exj_day1 2000000)]"
    using idle0 by (simp add: idle_relay_def)
  then have start: "start_job exj_cx 1500000 w = Await (exj_observed w) (RqBalance [3] (relay_default_account [9]))
      (start_with_balance exj_cx (exj_ob exj_day2 1500000))"
    by (simp add: exj_observe [OF idle] start_observed_def)
  have balance: "start_with_balance exj_cx (exj_ob exj_day2 1500000) (RsNat (Inr 100000000)) (exj_observed w) =
      Await (exj_observed w) (RqFee [3]) (start_with_fee exj_cx (exj_ob exj_day2 1500000) 100000000)"
    using generations by (simp add: start_with_balance_def y_client_u64_def nat_to_u64_def)
  have fee: "start_with_fee exj_cx (exj_ob exj_day2 1500000) 100000000 (RsNat (Inr 10000)) (exj_observed w) =
      Done (allocate_job exj_cx (exj_ob exj_day2 1500000) 100000000 10000 ?w) ()"
    using generations by (simp add: start_with_fee_def exj_fee start_with_rate_def)
  show "gets [RsNat (Inr 100000000), RsNat (Inr 10000)] (start_job exj_cx 1500000 w)
      (Done (allocate_job exj_cx (exj_ob exj_day2 1500000) 100000000 10000 ?w) ())"
    unfolding start by (intro gets_step) (simp add: balance fee gets_step gets_refl)
  show "exj_runs exj_job (allocate_job exj_cx (exj_ob exj_day2 1500000) 100000000 10000 ?w)"
    by (rule exj_allocate [OF idle1])
qed

definition exj_pending :: relay_transfer where
  "exj_pending = \<lparr>rt_kind = CmcTopUp [9], rt_gross_share_e8s = 100000000, rt_amount_e8s = 99990000,
     rt_created_at_time_nanos = exj_day2, rt_phase = RAwaitingTransfer\<rparr>"

definition exj_sending :: relay_job where
  "exj_sending = exj_job\<lparr>rj_next_transfer_index := 1, rj_next_created_at_time_nanos := exj_day2 + 1,
     rj_pending_transfer := Some exj_pending\<rparr>"

abbreviation exj_arg :: transfer_arg where
  "exj_arg \<equiv> pending_transfer_arg [5] 10000 exj_pending"

lemma exj_sample_simps [simp]:
  "cb_canister_id (burn_sample_of exj_topup) = [9]" "cb_amount_e8s (burn_sample_of exj_topup) = 99990000"
  "cb_gross_share_e8s (burn_sample_of exj_topup) = 100000000" "cb_target_topup_cycles (burn_sample_of exj_topup) = 500000"
  by (simp_all add: burn_sample_of_def exj_topup_def)

lemma exj_next: "plan_next_transfer None 0 exj_day2 exj_job = (PlanPlanned, 1, exj_sending, Some exj_pending)"
proof -
  have one: "sat_add 0 1 = (1 :: u32)" "sat_add exj_day2 1 = exj_day2 + 1" by (simp_all add: sat_add_def)
  have "next_topup_pending exj_day2 exj_job = (exj_sending, Some exj_pending)"
    by (simp add: next_topup_pending_def stage_pending_def next_job_created_at_def one exj_sending_def exj_pending_def Let_def)
  then show ?thesis by (simp add: plan_next_transfer_def topups_remain_def one)
qed

lemma exj_turns: "job_turns ex_relay_config (Some exj_job) = 4"
  by (simp add: job_turns_def)

text \<open>The job stages its top-up, sends it, and notifies it once it is accepted.\<close>

definition exj_sent :: "cycles_probe_route relay_world \<Rightarrow> cycles_probe_route relay_world" where
  "exj_sent w = note_job_sent exj_arg (stage_job exj_sending (Some exj_pending) w)"

definition exj_accepted :: "cycles_probe_route relay_world \<Rightarrow> cycles_probe_route relay_world" where
  "exj_accepted w = with_matched_job 1 exj_pending (ledger_accepted_job exj_pending 7) (exj_sent w)"

lemma exj_sending_simps [simp]:
  "rj_id exj_sending = 1" "rj_fee_e8s exj_sending = 10000" "rj_pending_transfer exj_sending = Some exj_pending"
  "rj_canisters exj_sending = [burn_sample_of exj_topup]" "rj_balance_start_e8s exj_sending = 100000000"
  by (simp_all add: exj_sending_def)

lemma exj_sent_simps:
  assumes "exj_runs exj_job w"
  shows "active_job (exj_sent w) = Some exj_sending" "rcfg (exj_sent w) = ex_relay_config"
    "rs_next_job_id (yw_st (exj_sent w)) = 2" "main_lease_is_current (exj_lease exj_day2) (stage_job exj_sending (Some exj_pending) w)"
    "yw_job_sent (exj_sent w) = exj_arg # yw_job_sent w" "active_job (stage_job exj_sending (Some exj_pending) w) = Some exj_sending"
    "rcfg (stage_job exj_sending (Some exj_pending) w) = ex_relay_config"
  using assms by (simp_all add: exj_sent_def note_job_sent_def stage_job_def y_with_state_mut_def exj_runs_def main_lease_is_current_def)

lemma exj_pending_drive:
  assumes "exj_runs exj_job w"
  shows "stops [] (drive_pending_transfer exj_cx (stage_job exj_sending (Some exj_pending) w)) (exj_sent w) (RqTransfer [3] exj_arg)"
    "stops [RsTransfer (Inr (Inr 7))] (drive_pending_transfer exj_cx (stage_job exj_sending (Some exj_pending) w))
       (exj_accepted w) (RqNotifyTopUp [5] [9] 7)"
proof -
  note facts = exj_sent_simps [OF assms]
  have valid: "created_at_time_is_valid exj_day2 exj_day2" by (simp add: created_at_time_is_valid_def sat_sub_def)
  have pending: "rt_phase exj_pending = RAwaitingTransfer" "rt_created_at_time_nanos exj_pending = exj_day2"
    "rt_kind exj_pending = CmcTopUp [9]" by (simp_all add: exj_pending_def)
  have drive: "drive_pending_transfer exj_cx (stage_job exj_sending (Some exj_pending) w) =
      Await (exj_sent w) (RqTransfer [3] exj_arg) (transfer_first exj_cx 1 exj_pending exj_arg)"
    using valid by (simp add: drive_pending_transfer_def facts pending exj_sent_def Let_def)
  show "stops [] (drive_pending_transfer exj_cx (stage_job exj_sending (Some exj_pending) w)) (exj_sent w) (RqTransfer [3] exj_arg)"
    unfolding drive by (rule stops_here)
  have matches: "pending_matches 1 exj_pending (exj_sent w)" by (simp add: pending_matches_def facts)
  have once: "relay_transfer_once (RsTransfer (Inr (Inr 7))) = AttemptAccepted 7"
    by (simp add: relay_transfer_once_def y_client_transfer_def accepted_or_retry_def)
  have "transfer_first exj_cx 1 exj_pending exj_arg (RsTransfer (Inr (Inr 7))) (exj_sent w) =
      Await (exj_accepted w) (RqNotifyTopUp [5] [9] 7)
        (notify_first exj_cx 1 (exj_pending\<lparr>rt_phase := RTransferAccepted 7\<rparr>) [9] 7)"
    by (simp add: transfer_first_def once pending_accepted_def matches mark_pending_ledger_accepted_def settle_accepted_def
      pending exj_accepted_def)
  then show "stops [RsTransfer (Inr (Inr 7))] (drive_pending_transfer exj_cx (stage_job exj_sending (Some exj_pending) w))
       (exj_accepted w) (RqNotifyTopUp [5] [9] 7)"
    unfolding drive by (intro stops_step) (simp add: stops_here)
qed

lemma exj_drive:
  assumes runs: "exj_runs exj_job w"
    and stops: "stops rs (drive_pending_transfer exj_cx (stage_job exj_sending (Some exj_pending) w)) s q"
  shows "stops rs (drive_active_relay_job exj_cx w) s q"
proof -
  note facts = exj_sent_simps [OF runs]
  let ?w = "stage_job exj_sending (Some exj_pending) w"
  have "stops rs (drive_turn exj_cx None 1 again ?w) s q" for again
    using stops_bind [OF stops] facts by (simp add: drive_turn_def)
  then have loop: "stops rs (drive_relay_job (Suc n) exj_cx None 1 ?w) s q" for n by simp
  have "exj_runs exj_job w \<Longrightarrow> drive_turn exj_cx None 0 again w = again 1 ?w" for again
    by (simp add: exj_runs_def drive_turn_def topup_phase_done_and_surplus_unplanned_def drive_planned_def exj_next)
  then have "drive_relay_job (Suc (Suc n)) exj_cx None 0 w = drive_relay_job (Suc n) exj_cx None 1 ?w" for n
    using runs by simp
  then have "stops rs (drive_relay_job (Suc (Suc 2)) exj_cx None 0 w) s q" using loop by metis
  then have "stops rs (drive_relay_job 4 exj_cx None 0 w) s q" by (simp add: eval_nat_numeral del: drive_relay_job.simps)
  then show ?thesis using runs stops_bind by (simp add: drive_active_relay_job_def exj_turns exj_runs_def)
qed

abbreviation exj_job_answers :: "relay_resp list" where
  "exj_job_answers \<equiv> exj_reactive_answers @ [RsNat (Inr 100000000), RsNat (Inr 10000)]"

lemma exj_job_pipeline:
  assumes idle: "idle_relay (exj_lease exj_day2) exj_day2 m [([9], exj_snapshot exj_day1 2000000)] w"
  obtains w1 where "exj_runs exj_job w1" "\<And>rs s q. stops rs (drive_active_relay_job exj_cx w1) s q \<Longrightarrow>
      stops (exj_job_answers @ rs) (run_funding_pipeline t exj_cx 1500000 w) s q"
proof -
  have staged: "idle_relay (exj_lease exj_day2) exj_day2 m [([9], exj_snapshot exj_day1 2000000)] (exj_staged w)"
    by (rule idle_kept(1) [OF idle])
  from gets_job_started [OF staged] obtain w1 where
    job: "gets [RsNat (Inr 100000000), RsNat (Inr 10000)] (start_job exj_cx 1500000 (exj_staged w)) (Done w1 ())"
    and w1: "exj_runs exj_job w1" by metis
  have reactive: "gets exj_reactive_answers (run_reactive_funding_stages t exj_cx w) (Done (exj_staged w) FpCompleted)"
    using idle idle_current [OF idle] by (intro gets_reactive) (simp_all add: idle_relay_def)
  have none: "active_job (exj_staged w) = None" using staged by (simp add: idle_relay_def)
  have current: "main_lease_is_current (rx_lease exj_cx) w1" using w1 by (simp add: exj_runs_def)
  have drives: "stops (exj_job_answers @ rs) (run_funding_pipeline t exj_cx 1500000 w) s q"
    if "stops rs (drive_active_relay_job exj_cx w1) s q" for rs s q
  proof -
    have "stops ([RsNat (Inr 100000000), RsNat (Inr 10000)] @ rs) (pbind (start_job exj_cx 1500000 (exj_staged w)) (\<lambda>w _.
        if \<not> main_lease_is_current (rx_lease exj_cx) w then Done w True else drive_active_relay_job exj_cx w)) s q"
      by (rule stops_then [OF job]) (use that current in simp)
    then have "stops ([RsNat (Inr 100000000), RsNat (Inr 10000)] @ rs) (resume_or_start_job exj_cx 1500000 (exj_staged w)) s q"
      unfolding resume_or_start_job_def if_P [OF none] .
    then have "stops ([RsNat (Inr 100000000), RsNat (Inr 10000)] @ rs)
        (funding_after_reactive exj_cx 1500000 (exj_staged w) FpCompleted) s q"
      using stops_bind by (fastforce simp: funding_after_reactive_def)
    then have "stops (exj_reactive_answers @ [RsNat (Inr 100000000), RsNat (Inr 10000)] @ rs)
        (run_funding_pipeline t exj_cx 1500000 w) s q"
      unfolding run_funding_pipeline_def by (rule stops_then [OF reactive])
    then show ?thesis by simp
  qed
  show thesis by (rule that [OF w1 drives])
qed

lemma exj_tick_stops:
  assumes idle: "idle_relay 0 now m samples w" and due: "tick_due now m"
  obtains w1 where "idle_relay (exj_lease now) now m samples w1" "\<And>rs s q. stops rs (run_funding_pipeline (yw_ticket w) (exj_ctx now) cycles w1) s q \<Longrightarrow>
    stops rs (scheduled_main_tick exj_rp cycles w) s q"
proof -
  have "idle_relay 0 now m samples (w\<lparr>yw_ticket := yw_ticket w + 1\<rparr>)" using idle by (simp add: idle_ticket)
  from exj_tick_begins [OF this due] obtain w1 where w1: "idle_relay (exj_lease now) now m samples w1"
    and run: "run_main_tick exj_rp False cycles (yw_ticket w) (w\<lparr>yw_ticket := yw_ticket w + 1\<rparr>) =
       pbind (run_funding_pipeline (yw_ticket w) (exj_ctx now) cycles w1) (tick_after_funding (exj_guard now) (now div 1000000000))"
    by metis
  have "stops rs (scheduled_main_tick exj_rp cycles w) s q"
    if "stops rs (run_funding_pipeline (yw_ticket w) (exj_ctx now) cycles w1) s q" for rs s q
    unfolding scheduled_main_tick_def main_tick_def run by (intro stops_bind that)
  then show thesis by (rule that [OF w1])
qed

section \<open>The worlds of the run\<close>

lemma exj_job_reached:
  obtains w ps log ps' log' where "exj_runs exj_job w"
    "relay_reach exj_rp (exj_sent w) ps log" "(exj_sent w, RqTransfer [3] exj_arg) \<in> set log"
    "relay_reach exj_rp (exj_accepted w) ps' log'" "(exj_accepted w, RqNotifyTopUp [5] [9] 7) \<in> set log'"
proof -
  from exj_sampled obtain w0 log where run: "relay_reach exj_rp w0 [] log"
    and w0: "idle_relay 0 exj_day2 (exj_day1 div 1000000000) [([9], exj_snapshot exj_day1 2000000)] w0" by metis
  from exj_tick_stops [OF w0 exj_due(2)] obtain w1
    where w1: "idle_relay (exj_lease exj_day2) exj_day2 (exj_day1 div 1000000000) [([9], exj_snapshot exj_day1 2000000)] w1"
    and tick: "\<And>rs s q. stops rs (run_funding_pipeline (yw_ticket w0) exj_cx 1500000 w1) s q \<Longrightarrow>
      stops rs (scheduled_main_tick exj_rp 1500000 w0) s q" by metis
  from exj_job_pipeline [OF w1] obtain w2 where w2: "exj_runs exj_job w2"
    and job: "\<And>rs s q. stops rs (drive_active_relay_job exj_cx w2) s q \<Longrightarrow>
      stops (exj_job_answers @ rs) (run_funding_pipeline (yw_ticket w0) exj_cx 1500000 w1) s q" by metis
  note stops = tick [OF job [OF exj_drive [OF w2 exj_pending_drive(1) [OF w2]]]]
    tick [OF job [OF exj_drive [OF w2 exj_pending_drive(2) [OF w2]]]]
  from stops_reach [OF run exj_handlers(1) stops(1)] obtain ps1 log1 where
    sent: "relay_reach exj_rp (exj_sent w2) ps1 log1" "(exj_sent w2, RqTransfer [3] exj_arg) \<in> set log1" by metis
  from stops_reach [OF run exj_handlers(1) stops(2)] obtain ps2 log2 where
    accepted: "relay_reach exj_rp (exj_accepted w2) ps2 log2" "(exj_accepted w2, RqNotifyTopUp [5] [9] 7) \<in> set log2" by metis
  show thesis by (rule that [OF w2 sent accepted])
qed

lemma exj_sent_ordinary: "exj_runs exj_job w \<Longrightarrow> ordinary (exj_sent w)" "modest exj_sending"
proof -
  show "modest exj_sending" by (simp add: modest_def)
  assume "exj_runs exj_job w"
  from exj_sent_simps [OF this] show "ordinary (exj_sent w)"
    by (simp add: ordinary_def small_config_def word_unat_eq_iff)
qed

section \<open>Witnesses\<close>

lemma relay_job_within_balance_witness:
  "\<exists>w ps log. relay_reach exj_rp w ps log \<and> active_job w = Some exj_sending \<and> exj_arg \<in> set (yw_job_sent w) \<and>
     (\<Sum>a \<in> set (yw_job_sent w). transfer_debit a) \<le> 100000000"
proof -
  obtain w ps log where w: "exj_runs exj_job w" and run: "relay_reach exj_rp (exj_sent w) ps log"
    by (rule exj_job_reached) blast
  note facts = exj_sent_simps [OF w]
  have "(\<Sum>a \<in> set (yw_job_sent (exj_sent w)). transfer_debit a) \<le> 100000000"
    using relay_job_within_balance [OF run facts(1) exj_sent_ordinary(1) [OF w] exj_sent_ordinary(2)] by simp
  moreover have "exj_arg \<in> set (yw_job_sent (exj_sent w))" by (simp add: facts(5))
  ultimately show ?thesis using run facts(1) by blast
qed



lemma relay_job_well_formed_witness:
  "\<exists>w ps log. relay_reach exj_rp w ps log \<and> active_job w = Some exj_sending \<and>
     unat (rj_next_transfer_index exj_sending) \<le> 1 \<and> managed_by [9] (rcfg w) [9]"
proof -
  obtain w ps log where w: "exj_runs exj_job w" and run: "relay_reach exj_rp (exj_sent w) ps log"
    by (rule exj_job_reached) blast
  note facts = exj_sent_simps [OF w]
  have "rp_relay_id exj_rp = [9]" by (simp add: exj_rp_def)
  then show ?thesis using relay_job_well_formed [OF run facts(1) exj_sent_ordinary(1) [OF w]] run facts(1) by auto
qed

lemma relay_job_loop_returns_witness:
  "\<exists>w :: cycles_probe_route relay_world. active_job w = Some exj_sending \<and> relay_rg [9] 0 (\<lambda>w' res. ordinary w' \<longrightarrow> res \<noteq> None)
     (drive_relay_job (job_turns (rcfg w) (active_job w)) exj_cx None 0 w) w"
proof -
  obtain w ps log where w: "exj_runs exj_job w" and run: "relay_reach exj_rp (exj_sent w) ps log"
    by (rule exj_job_reached) blast
  note facts = exj_sent_simps [OF w]
  let ?w = "(exj_sent w)\<lparr>yw_main_owner := Some 0, yw_ticket := 1\<rparr>"
  have lock: "rs_main_lock_state_ts (yw_st (exj_sent w)) = Some (exj_lease exj_day2)"
    using facts(4) by (simp add: exj_sent_def note_job_sent_def main_lease_is_current_def)
  have "relay_inv [9] (exj_sent w)" using reached_inv [OF run] by (simp add: exj_rp_def)
  then have inv: "relay_inv [9] ?w" using lock by (simp add: relay_inv_def ordinary_def)
  have "runs [9] 0 exj_cx ?w" using lock facts by (simp add: runs_def ctx_ok_def jheld_def jmine_def)
  from relay_job_loop_returns [OF inv this] have "relay_rg [9] 0 (\<lambda>w' res. ordinary w' \<longrightarrow> res \<noteq> None)
     (drive_relay_job (job_turns (rcfg ?w) (active_job ?w)) exj_cx None 0 ?w) ?w" .
  moreover have "active_job ?w = Some exj_sending" using facts(1) by simp
  ultimately show ?thesis by blast
qed

text \<open>The commitment is made in the first tick.\<close>

definition exj_neuron :: subaccount where
  "exj_neuron = replicate 32 7"

definition exj_commitment :: faucet_commitment_transfer where
  "exj_commitment = \<lparr>fx_transfer = \<lparr>rt_kind = FaucetCommitment faucet_neuron_id
       \<lparr>acc_owner = [6], acc_subaccount = Some exj_neuron\<rparr> relay_subaccount_one (9 # ascii ''.Relay''),
       rt_gross_share_e8s = 200000000, rt_amount_e8s = 199990000, rt_created_at_time_nanos = exj_day1,
       rt_phase = RAwaitingTransfer\<rparr>, fx_fee_e8s = 10000, fx_balance_start_e8s = 200000000\<rparr>"

abbreviation exj_commitment_arg :: transfer_arg where
  "exj_commitment_arg \<equiv> pending_transfer_arg [] 10000 (fx_transfer exj_commitment)"

definition exj_committed :: "cycles_probe_route relay_world \<Rightarrow> cycles_probe_route relay_world" where
  "exj_committed w = y_with_state_mut (\<lambda>st. st\<lparr>rs_active_faucet_commitment_transfer := Some exj_commitment\<rparr>) w"

lemma exj_commitment_plan:
  "build_faucet_commitment_plan example_candid [9] [6] staking 200000000 10000 =
     Inr \<lparr>fp_source_account = relay_subaccount_one_account [9],
       fp_destination_account = \<lparr>acc_owner = [6], acc_subaccount = Some staking\<rparr>,
       fp_balance_start_e8s = 200000000, fp_fee_e8s = 10000, fp_amount_e8s = 199990000, fp_memo = 9 # ascii ''.Relay''\<rparr>"
  by (simp add: build_faucet_commitment_plan_def relay_faucet_commitment_memo_def example_candid_def ascii_def
    min_raw_icp_recipient_amount_e8s_def word_le_nat_alt word_less_nat_alt Let_def)

lemma exj_commitment_stops:
  assumes idle: "idle_relay (exj_lease exj_day1) exj_day1 m samples w"
  shows "stops (exj_splitter_answers @ [RsNat (Inr 10000), RsNat (Inr 200000000),
      RsNeurons (Inr [(Some faucet_neuron_id, exj_neuron)])])
    (run_funding_pipeline t (exj_ctx exj_day1) cycles w) (exj_committed (exj_staged w)) (RqTransfer [3] exj_commitment_arg)"
proof -
  let ?cx = "exj_ctx exj_day1" and ?w = "exj_staged w"
  let ?rs = "[RsNat (Inr 10000), RsNat (Inr 200000000), RsNeurons (Inr [(Some faucet_neuron_id, exj_neuron)])]"
  have staged: "idle_relay (exj_lease exj_day1) exj_day1 m samples ?w" by (rule idle_kept(1) [OF idle])
  then have facts: "active_commitment ?w = None" "rs_next_job_id (yw_st ?w) = 1" "rcfg ?w = ex_relay_config"
    "main_lease_is_current (rx_lease ?cx) ?w" "main_lease_is_current (rx_lease ?cx) (exj_committed ?w)"
    "active_commitment (exj_committed ?w) = Some exj_commitment"
    by (simp_all add: idle_relay_def main_lease_is_current_def exj_committed_def y_with_state_mut_def)
  have balance: "y_client_u64 (RsNat (Inr 200000000)) = Inr 200000000" by (simp add: y_client_u64_def nat_to_u64_def)
  have neuron: "y_client_neuron faucet_neuron_id (RsNeurons (Inr [(Some faucet_neuron_id, exj_neuron)])) = Inr exj_neuron"
    by (simp add: y_client_neuron_def exj_neuron_def)
  have install: "install_commitment ?cx 1 \<lparr>fp_source_account = relay_subaccount_one_account [9],
       fp_destination_account = \<lparr>acc_owner = [6], acc_subaccount = Some exj_neuron\<rparr>,
       fp_balance_start_e8s = 200000000, fp_fee_e8s = 10000, fp_amount_e8s = 199990000, fp_memo = 9 # ascii ''.Relay''\<rparr> ?w =
      exj_committed ?w"
    using facts(1,2,4) by (simp add: install_commitment_def exj_committed_def exj_commitment_def)
  have plan: "gets ?rs (plan_faucet_commitment ?cx ?w) (Done (exj_committed ?w) ())"
    using facts(1-3) by (simp add: plan_faucet_commitment_def plan_commitment_with_fee_def exj_fee plan_commitment_with_balance_def
      balance exj_commitment_plan plan_commitment_with_neuron_def neuron install gets_step gets_refl)
  have phase: "rt_phase (fx_transfer exj_commitment) = RAwaitingTransfer"
    "rt_created_at_time_nanos (fx_transfer exj_commitment) = exj_day1" "fx_fee_e8s exj_commitment = 10000"
    by (simp_all add: exj_commitment_def)
  have valid: "created_at_time_is_valid exj_day1 exj_day1" by (simp add: created_at_time_is_valid_def sat_sub_def)
  have "stops [] (drive_pending_faucet_commitment_transfer ?cx (exj_committed ?w)) (exj_committed ?w) (RqTransfer [3] exj_commitment_arg)"
    using valid by (simp add: drive_pending_faucet_commitment_transfer_def facts(6) phase Let_def example_candid_def stops_here)
  then have "stops (?rs @ []) (pbind (plan_faucet_commitment ?cx ?w) (\<lambda>w _. if \<not> main_lease_is_current (rx_lease ?cx) w
      then Done w True else drive_pending_faucet_commitment_transfer ?cx w)) (exj_committed ?w) (RqTransfer [3] exj_commitment_arg)"
    using facts(5) by (intro stops_then [OF plan]) simp
  then have "stops ?rs (resume_or_start_faucet_commitment ?cx ?w) (exj_committed ?w) (RqTransfer [3] exj_commitment_arg)"
    unfolding resume_or_start_faucet_commitment_def if_P [OF facts(1)] append_Nil2 .
  then have "stops ?rs (reactive_after_splitters ?cx ?w StageReady) (exj_committed ?w) (RqTransfer [3] exj_commitment_arg)"
    using stops_bind facts(4) by (fastforce simp: reactive_after_splitters_def)
  moreover have "gets exj_splitter_answers (process_main_stage t exj_day1 [9] [3] w) (Done ?w StageReady)"
    using idle by (intro gets_stage) (simp add: idle_relay_def)
  ultimately have "stops (exj_splitter_answers @ ?rs) (pbind (process_main_stage t exj_day1 [9] [3] w)
      (reactive_after_splitters ?cx)) (exj_committed ?w) (RqTransfer [3] exj_commitment_arg)"
    by (rule stops_then [rotated])
  then show ?thesis unfolding run_funding_pipeline_def run_reactive_funding_stages_def exj_ctx_simps by (rule stops_bind)
qed

lemma relay_commitment_pays_governance_witness:
  "\<exists>w ps log sq. relay_reach exj_rp w ps log \<and> (sq, RqTransfer [3] exj_commitment_arg) \<in> set log \<and>
     transfer_debit exj_commitment_arg = 200000000 \<and> acc_owner (ta_to exj_commitment_arg) = rcf_governance_canister_id (rcfg sq)"
proof -
  from exj_tick_stops [OF exj_idle exj_due(1)] obtain w1
    where w1: "idle_relay (exj_lease exj_day1) exj_day1 1384640000 [] w1"
    and tick: "\<And>rs s q. stops rs (run_funding_pipeline (yw_ticket exj_start) (exj_ctx exj_day1) 0 w1) s q \<Longrightarrow>
      stops rs (scheduled_main_tick exj_rp 0 exj_start) s q" by metis
  let ?s = "exj_committed (exj_staged w1)"
  from stops_reach [OF reach.start [where init = "relay_installed (rp_cx exj_rp)", OF exj_installed] exj_handlers(1)
    tick [OF exj_commitment_stops [OF w1]]]
  obtain ps log where run: "relay_reach exj_rp ?s ps log" and sent: "(?s, RqTransfer [3] exj_commitment_arg) \<in> set log" by metis
  have source: "ta_from_subaccount exj_commitment_arg = Some relay_subaccount_one"
    by (simp add: pending_transfer_arg_def from_subaccount_for_pending_def exj_commitment_def)
  have facts: "rcfg ?s = ex_relay_config" "rs_next_job_id (yw_st ?s) = 1" "active_commitment ?s = Some exj_commitment"
    using idle_kept(1) [OF w1] by (simp_all add: exj_committed_def y_with_state_mut_def idle_relay_def)
  then have ordinary: "ordinary ?s" by (simp add: ordinary_def small_config_def word_unat_eq_iff)
  from relay_commitment_pays_governance [OF run sent source ordinary] show ?thesis
    using run sent facts(3) by (auto simp: exj_commitment_def)
qed

end
