(* ===== verification/Spec2Isabelle.thy ===== *)
theory Spec2Isabelle
  imports MemoPolicy DisburserExamples FaucetExamples SnsExamples CyclesProbeProperties RelaySplitterExamples
    RelayJobExamples
begin

text \<open>
  A verification development for the Jupiter Faucet Suite, the canisters under \<open>src/canisters\<close> that move
  ICP between an NNS neuron, its funders and the canisters they pay for.

  The parts and how they interact.  The Disburser disburses the maturity of a neuron to its staging account
  and splits the balance between recipients.  The Faucet finds the funding tranche in its account, reads the
  history of commitments from the ICP index, weighs them and pays every commitment its share, as cycles
  through the Cycles Minting Canister, as ICP or as neuron stake.  The SNS rewards canister scans the neurons
  of an SNS and answers which principal owns a default account.  The Relay tops up the
  canisters it manages, pays a surplus, commits the balance of its subaccount 1 to the Faucet, and divides the
  balances of its numbered subaccounts between two accounts.  All of them run timers and pokes
  whose handlers suspend at every call, under a lease that keeps a second run out; what they must never do is
  pay twice, lose a payment, or act on what another handler changed meanwhile.

  Foundations.
    \<open>Prelude\<close> (machine integers, checked and saturating operations), \<open>Accounts\<close> (principals, accounts),
    \<open>AccountId\<close> (account identifiers, post-upgrade arguments, persistence batching), \<open>Ledger\<close> (ledger and
    governance clients), \<open>IndexTypes\<close> (index and CMC clients), \<open>MemoPolicy\<close> (\<open>crates/memo-policy\<close>).
    \<open>Async\<close> models asynchronous code as processes cut at each await; \<open>rg\<close> is its rely-guarantee
    judgement, \<open>reach\<close> the interleaved execution of any number of handlers, arbitrary answers and upgrades,
    and the locale \<open>rg_system\<close> lifts judgements of handlers to every interleaving.  \<open>Threads\<close> does the
    same for handlers that own a lease (\<open>rgt\<close>, \<open>rg_threads\<close>): a rely and a guarantee per handler.
    \<open>Lease\<close> (\<open>timer_guard.rs\<close>) states the contract of the lease guards as the locale \<open>lease\<close> and
    interprets it for both; \<open>PokeGate\<close> and \<open>ControllerPolicy\<close> do so for pokes and controllers.

  Disburser (\<open>src/canisters/disburser/src\<close>).
    \<open>DisburserState\<close> is \<open>state.rs\<close> and \<open>lib.rs\<close>, \<open>DisburserLogic\<close> is \<open>logic.rs\<close>,
    \<open>DisburserTick\<close> is \<open>scheduler\<close>.  \<open>DisburserSafety\<close> gives each handler its judgement and states
    what holds of every request: equal memos mean equal transfers, transfers follow the persisted plan,
    maturity goes only to the own account, the canister keeps control of itself.

  Faucet (\<open>src/canisters/faucet/src\<close>).
    \<open>FaucetState\<close> (\<open>state.rs\<close>, \<open>lib.rs\<close>), \<open>FaucetLogic\<close> (\<open>logic.rs\<close>), \<open>SkipRanges\<close> (the cache of
    barren history, with the locale \<open>range_store\<close>), \<open>FaucetHealth\<close> (\<open>index_health.rs\<close>), \<open>FaucetScan\<close>
    (\<open>scan.rs\<close>), \<open>FaucetTransfer\<close> (\<open>cmc_notify*.rs\<close>), \<open>FaucetPayout\<close> (\<open>route_accounting.rs\<close>),
    \<open>FaucetTick\<close> (\<open>tick.rs\<close>, \<open>rescue.rs\<close>, \<open>poke.rs\<close>).  \<open>FaucetInvariant\<close>, \<open>FaucetSafety\<close> and
    \<open>FaucetRun\<close> hold the invariant, the judgements and the interpretation; \<open>FaucetProperties\<close> states the
    results: transfers stay within the tranche, a tranche is paid once, a retry keeps the identity of its
    transfer, notifications follow accepted transfers, the driver's loop ends, a run never panics.

  SNS rewards (\<open>src/canisters/sns-rewards/src\<close>).
    \<open>SnsState\<close> (\<open>policy.rs\<close>, \<open>state.rs\<close>, the queries of \<open>lib.rs\<close>), \<open>SnsScan\<close> (\<open>scheduler.rs\<close>).
    \<open>SnsSafety\<close> and \<open>SnsProperties\<close>: answers for a snapshot never change, a published snapshot is the index
    of a complete listing, an undisturbed scan completes.  The ghost fields \<open>sw_scanned\<close> and
    \<open>sw_published\<close> hold the neurons read by the running and by the published scan; no code reads them.

  Relay (\<open>src/canisters/relay/src\<close>).
    \<open>RelayTypes\<close> (\<open>state.rs\<close>), \<open>RelayLogic\<close> and \<open>RelayAllocation\<close> (\<open>logic.rs\<close>), with what the plans
    guarantee in \<open>RelayPlans\<close>.  \<open>RelayWorld\<close> is the heap state, the stable journal of splitter jobs
    (\<open>splitter_state.rs\<close>), the leases (\<open>guards.rs\<close>) and the ledger fee; \<open>RelaySplitter\<close> is the splitter
    driver (\<open>scheduler/splitter.rs\<close>), \<open>RelayLifecycle\<close> is \<open>lib.rs\<close>.  \<open>RelaySplitterSafety\<close>,
    \<open>RelaySplitterRun\<close> and \<open>RelaySplitterStage\<close> hold the invariant of the journal and the judgements,
    \<open>RelaySplitterSystem\<close> the interpretation of \<open>rg_threads\<close> and the properties: a splitter job never takes
    more than its balance although transfers may be retried, replaced, lost or answered late; a job ends
    completed, unspent or quarantined; quarantines are permanent; the driver ends.  Ghost fields, which no
    code reads: \<open>yw_ticket\<close> numbers the handlers, \<open>yw_main_owner\<close> and \<open>yw_splitter_owner\<close> are the
    handlers that took the leases, \<open>yw_possible\<close> the transfers of the active job the ledger may have accepted,
    \<open>yw_closed\<close> the jobs that ended.

  The Relay's daily job (\<open>scheduler/tick.rs\<close>, \<open>transfer.rs\<close>, \<open>poke.rs\<close>, \<open>cycles_probe.rs\<close>).
    \<open>Asks\<close> models code that only asks as a tree of questions and replies; \<open>CyclesProbe\<close> is
    \<open>crates/ic-clients/src/cycles_probe.rs\<close> in that form, \<open>CyclesProbeProperties\<close> what its answers mean.
    \<open>RelayJob\<close> holds the functions of the job that await nothing, \<open>RelayTransfer\<close> the two transfer
    drivers, \<open>RelayTick\<close> the main lease, the commitment of subaccount 1 and the start of a job, \<open>RelayRun\<close>
    the driver loop, the funding pipeline, the main tick, pokes and timers; \<open>relay_handlers\<close> collects them.
    \<open>RelayJobInv\<close> states the invariant of a job (its shape, its pending transfer, its creation times, its
    budget), \<open>RelayJobSteps\<close> that every change of a job keeps it, \<open>RelayFrame\<close> that splitter code leaves
    the job alone.  \<open>RelayJobSafety\<close> states the invariant of the world, the rely and the guarantee (a
    handler settles at most a transfer it still recognises; nobody else takes a turn of the job while a lease is
    held); \<open>RelayJobDrive\<close>, \<open>RelayJobTurns\<close>, \<open>RelayJobLoop\<close>, \<open>RelayCommitment\<close>, \<open>RelayStart\<close> and
    \<open>RelayTickSafety\<close> give every handler its judgement and interpret \<open>rg_threads\<close>.
    \<open>RelayJobProperties\<close>: a job never spends more than its balance, sends only what it has stored, pays a
    surplus only after clean top-ups, notifies only accepted top-ups, is well formed, and its loop ends; the
    commitment pays the Governance canister.  The ghost fields \<open>yw_staged\<close> and \<open>yw_job_sent\<close> are the
    transfers the active job has staged and sent.  Two side conditions name what the code does not check:
    \<open>ordinary\<close> (the configured lists fit 32 bits, the job numbers are not exhausted) and \<open>modest\<close> (the
    canisters of a job together ask for fewer than 2^64 cycles, beyond which saturating sums lose their meaning).

  Worked runs are in \<open>DisburserExamples\<close>, \<open>FaucetExamples\<close>, \<open>SnsExamples\<close>,
  \<open>RelaySplitterExamples\<close> and \<open>RelayJobExamples\<close>: concrete executions at which the properties' hypotheses hold.

  Fuel.  Where the code loops over its own state the model takes fuel, and a property shows it is enough: two
  turns for a Faucet transfer, 128 pages of funding discovery, the page bound of a payout round, five
  turns of the splitter driver (two per leg and one to end), and \<open>job_turns\<close> turns of the daily job (two for
  every transfer it can still stage, two to plan the surplus, two to end, one for a pending transfer).

  Parameters.  Hash functions (\<open>hash_ops\<close>), the text form of principals (\<open>candid_ops\<close>), their order and
  the well-known principals of the cycles probe (\<open>probe_env\<close>), and the key of an account in an ordered set
  belong to other crates.  Answers of other canisters are arbitrary:
  every property holds for all of them.

  Not modelled: builds with \<open>debug_api\<close>; Candid and stable-memory encodings; log lines and cycle reports;
  the Relay's reward sweep and reward splitter (\<open>reward_*.rs\<close>), which work on a stable state of their own and
  are one request of the main tick here; the Historian, the Frontend and the Lifeline; build tools
  (\<open>src/tools\<close>), tests and generated bindings.
\<close>

end
